(* ===== verification/Prelude.thy ===== *)
theory Prelude
  imports Complex_Main
    "HOL-Library.AList"
    "HOL-Library.Char_ord"
    "HOL-Library.List_Lexorder"
    "HOL-Library.Word"
begin

text \<open>
  Shared vocabulary of the development: Go maps as association lists, Go errors as values,
  64-bit integer arithmetic, clock readings, JSON trees, and the lemmas on them that every
  component uses.

  A Go map is an association list with distinct keys. The order of the list stands for the
  order in which a \<open>range\<close> loop visits the map, which Go leaves unspecified: a theorem about
  all association lists is a theorem about every visiting order.
\<close>

named_theorems model_simps \<open>unfolding equations of small model definitions\<close>

section \<open>Go maps\<close>

type_synonym 'v gomap = "(string \<times> 'v) list"

abbreviation gkeys :: "'v gomap \<Rightarrow> string list" where
  "gkeys m \<equiv> map fst m"

definition wf_map :: "'v gomap \<Rightarrow> bool" where
  "wf_map m \<longleftrightarrow> distinct (gkeys m)"

text \<open>Deleting, inside a \<open>range\<close> loop, every entry that fails a test.\<close>

definition sift :: "(string \<Rightarrow> 'v \<Rightarrow> bool) \<Rightarrow> 'v gomap \<Rightarrow> 'v gomap" where
  "sift P m = filter (\<lambda>(k, v). P k v) m"

text \<open>Equality of two maps as \<open>reflect.DeepEqual\<close> decides it: the same entries, in any order.\<close>

definition gomap_eq :: "'v gomap \<Rightarrow> 'v gomap \<Rightarrow> bool" where
  "gomap_eq m n \<longleftrightarrow> set m = set n"

lemma map_of_update [simp]: "map_of (AList.update k v m) = (map_of m)(k \<mapsto> v)"
  by (simp add: update_conv')

lemma keys_update [simp]: "fst ` set (AList.update k v m) = insert k (fst ` set m)"
  using dom_update [of k v m] by (simp add: dom_map_of_conv_image_fst)

lemma map_of_in_keys: "map_of m k = Some v \<Longrightarrow> k \<in> fst ` set m"
  by (metis domI dom_map_of_conv_image_fst)

lemma length_update:
  "length (AList.update k v m) = (if k \<in> fst ` set m then length m else Suc (length m))"
  by (induction m) auto

lemma wf_map_empty [simp]: "wf_map []"
  by (simp add: wf_map_def)

lemma wf_map_single [simp]: "wf_map [(k, v)]"
  by (simp add: wf_map_def)

lemma wf_map_update [simp]: "wf_map m \<Longrightarrow> wf_map (AList.update k v m)"
  by (simp add: wf_map_def distinct_update)

lemma wf_map_sift [simp]: "wf_map m \<Longrightarrow> wf_map (sift P m)"
  unfolding wf_map_def sift_def by (induction m) (auto simp: case_prod_beta)

lemma length_sift: "length (sift P m) \<le> length m"
  by (simp add: sift_def)

lemma set_sift: "set (sift P m) = {(k, v). (k, v) \<in> set m \<and> P k v}"
  by (auto simp: sift_def)

lemma map_of_iff_in_set: "wf_map m \<Longrightarrow> map_of m k = Some v \<longleftrightarrow> (k, v) \<in> set m"
  by (simp add: wf_map_def)

lemma map_of_sift:
  assumes "wf_map m"
  shows "map_of (sift P m) k =
           (case map_of m k of None \<Rightarrow> None | Some v \<Rightarrow> if P k v then Some v else None)"
proof (cases "map_of (sift P m) k")
  case (Some v)
  with assms have "(k, v) \<in> set m \<and> P k v"
    by (simp add: map_of_iff_in_set set_sift)
  with assms Some show ?thesis
    by (simp add: map_of_iff_in_set [symmetric])
next
  case None
  have "\<not> P k v" if "map_of m k = Some v" for v
  proof
    assume "P k v"
    with that assms have "(k, v) \<in> set (sift P m)"
      by (simp add: set_sift map_of_iff_in_set)
    with assms None show False
      by (simp add: map_of_iff_in_set [symmetric])
  qed
  with None show ?thesis
    by (auto split: option.split)
qed

lemma all_entries_update:
  assumes "\<And>k' v'. (k', v') \<in> set m \<Longrightarrow> P k' v'" and "P k v"
  shows "(k', v') \<in> set (AList.update k v m) \<Longrightarrow> P k' v'"
  using assms by (induction m) (auto split: if_splits)

lemma gomap_eq_lookup:
  assumes "wf_map m" and "wf_map n"
  shows "gomap_eq m n \<longleftrightarrow> map_of m = map_of n"
proof
  assume "gomap_eq m n"
  with assms have "map_of m k = Some v \<longleftrightarrow> map_of n k = Some v" for k v
    by (simp add: gomap_eq_def map_of_iff_in_set)
  then show "map_of m = map_of n"
    by (metis ext not_None_eq)
next
  assume "map_of m = map_of n"
  with assms have "(k, v) \<in> set m \<longleftrightarrow> (k, v) \<in> set n" for k v
    by (simp add: map_of_iff_in_set [symmetric])
  then show "gomap_eq m n"
    by (auto simp: gomap_eq_def)
qed

text \<open>
  The interface the tables of the stores are used through: lookup, write and the deletion of
  the entries that fail a test.
\<close>

locale key_table =
  fixes lookup :: "'m \<Rightarrow> string \<Rightarrow> 'v option"
    and put :: "string \<Rightarrow> 'v \<Rightarrow> 'm \<Rightarrow> 'm"
    and retain :: "(string \<Rightarrow> 'v \<Rightarrow> bool) \<Rightarrow> 'm \<Rightarrow> 'm"
    and valid :: "'m \<Rightarrow> bool"
  assumes lookup_put: "lookup (put k v m) = (lookup m)(k \<mapsto> v)"
    and lookup_retain: "valid m \<Longrightarrow>
      lookup (retain P m) k = (case lookup m k of None \<Rightarrow> None | Some v \<Rightarrow> if P k v then Some v else None)"
    and valid_put: "valid m \<Longrightarrow> valid (put k v m)"
    and valid_retain: "valid m \<Longrightarrow> valid (retain P m)"
begin

lemma retain_Some: "valid m \<Longrightarrow> lookup (retain P m) k = Some v \<longleftrightarrow> lookup m k = Some v \<and> P k v"
  by (auto simp: lookup_retain split: option.splits if_splits)

lemma retain_submap: "valid m \<Longrightarrow> lookup (retain P m) \<subseteq>\<^sub>m lookup m"
  by (auto simp: map_le_def retain_Some dom_def)

lemma retain_kept: "valid m \<Longrightarrow> lookup m k = Some v \<Longrightarrow> P k v \<Longrightarrow> lookup (retain P m) k = Some v"
  by (simp add: retain_Some)

lemma retain_written:
  "valid m \<Longrightarrow> P k v \<Longrightarrow> lookup (retain P (put k v m)) k = Some v"
  by (simp add: retain_Some valid_put lookup_put)

end

interpretation gomap: key_table map_of AList.update sift wf_map
  by unfold_locales (simp_all add: map_of_sift)

section \<open>Errors\<close>

text \<open>
  A Go \<open>error\<close> is either a typed \<open>domain.Failure\<close> with its code and message, or a plain error
  with a message only; \<open>errors.As\<close> tells them apart. A function that returns \<open>(T, error)\<close> is a
  sum, one that returns \<open>error\<close> an option.
\<close>

datatype err = Failure (err_code: string) (err_message: string) | Plain (err_message: string)

fun is_failure :: "err \<Rightarrow> bool" where
  "is_failure (Failure c m) = True"
| "is_failure (Plain m) = False"

text \<open>A run of guards \<open>if cond { return err }\<close>: the first one that fires decides.\<close>

fun first_fail :: "(bool \<times> err) list \<Rightarrow> err option" where
  "first_fail [] = None"
| "first_fail ((c, e) # rest) = (if c then Some e else first_fail rest)"

text \<open>\<open>if err := f(); err != nil { return err }\<close> followed by the rest of the body.\<close>

definition and_then :: "err option \<Rightarrow> err option \<Rightarrow> err option" where
  "and_then a b = (case a of Some e \<Rightarrow> Some e | None \<Rightarrow> b)"

lemma first_fail_None [simp]: "first_fail gs = None \<longleftrightarrow> (\<forall>g \<in> set gs. \<not> fst g)"
  by (induction gs rule: first_fail.induct) auto

lemma first_fail_Some: "first_fail gs = Some e \<Longrightarrow> \<exists>c. (c, e) \<in> set gs \<and> c"
  by (induction gs rule: first_fail.induct) (auto split: if_splits)

declare first_fail.simps(2) [simp del]

lemma and_then_None [simp]: "and_then a b = None \<longleftrightarrow> a = None \<and> b = None"
  by (simp add: and_then_def split: option.split)

section \<open>Integers, clock readings and floating point\<close>

text \<open>Go's \<open>int\<close> and \<open>int64\<close> on the supported 64-bit targets: arithmetic wraps around.\<close>

definition i64 :: "int \<Rightarrow> int" where
  "i64 x = (x + 2 ^ 63) mod 2 ^ 64 - 2 ^ 63"

definition in_i64 :: "int \<Rightarrow> bool" where
  "in_i64 x \<longleftrightarrow> - (2 ^ 63) \<le> x \<and> x < 2 ^ 63"

lemma i64_id: "in_i64 x \<Longrightarrow> i64 x = x"
  by (simp add: i64_def in_i64_def)

lemma i64_range: "in_i64 (i64 x)"
  by (simp add: i64_def in_i64_def)

lemma i64_add_left: "i64 (i64 x + y) = i64 (x + y)"
proof -
  have "((x + 2 ^ 63) mod 2 ^ 64 - 2 ^ 63 + y + 2 ^ 63) mod 2 ^ 64
      = (x + 2 ^ 63 + y) mod (2 ^ 64 :: int)"
    by (simp add: mod_simps algebra_simps)
  then show ?thesis
    by (simp add: i64_def algebra_simps)
qed

text \<open>Instants are nanoseconds since the Unix epoch; \<open>time.Time{}\<close> is the first of January of year 1.\<close>

type_synonym time = int

definition second :: int where "second = 10 ^ 9"
definition minute :: int where "minute = 60 * second"
definition hour :: int where "hour = 60 * minute"
definition zero_time :: time where "zero_time = - 62135596800 * second"

lemmas time_units = second_def minute_def hour_def

text \<open>
  A \<open>float64\<close> read from JSON is finite, hence a rational; comparison of finite values is exact.
  The two literals are the doubles nearest to 0.1 and 0.95.
\<close>

type_synonym float64 = rat

definition f64_0_1 :: float64 where "f64_0_1 = 3602879701896397 / 36028797018963968"
definition f64_0_95 :: float64 where "f64_0_95 = 4278419646001971 / 4503599627370496"

section \<open>JSON trees\<close>

text \<open>
  The tree \<open>encoding/json\<close> builds for a value before it is rendered. Objects keep their members
  in rendering order. Numbers and instants stay abstract leaves: rendering and hashing them is
  the digest parameter of the model.
\<close>

datatype json =
    JNull
  | JBool bool
  | JInt int
  | JFloat float64
  | JTime time
  | JStr string
  | JArr "json list"
  | JObj "(string \<times> json) list"

text \<open>A member with the \<open>omitempty\<close> option, absent when the value is empty.\<close>

definition opt_member :: "bool \<Rightarrow> string \<Rightarrow> json \<Rightarrow> (string \<times> json) list" where
  "opt_member omit k j = (if omit then [] else [(k, j)])"

text \<open>A Go map is rendered with its keys in increasing order.\<close>

definition json_of_map :: "string gomap \<Rightarrow> json" where
  "json_of_map m = JObj (map (\<lambda>k. (k, JStr (the (map_of m k)))) (sort (gkeys m)))"

type_synonym digest = "json \<Rightarrow> string"

section \<open>Character classes\<close>

definition is_lower :: "char \<Rightarrow> bool" where
  "is_lower c \<longleftrightarrow> 97 \<le> (of_char c :: nat) \<and> (of_char c :: nat) \<le> 122"

definition is_upper :: "char \<Rightarrow> bool" where
  "is_upper c \<longleftrightarrow> 65 \<le> (of_char c :: nat) \<and> (of_char c :: nat) \<le> 90"

definition is_digit :: "char \<Rightarrow> bool" where
  "is_digit c \<longleftrightarrow> 48 \<le> (of_char c :: nat) \<and> (of_char c :: nat) \<le> 57"

definition is_alnum :: "char \<Rightarrow> bool" where
  "is_alnum c \<longleftrightarrow> is_lower c \<or> is_upper c \<or> is_digit c"

definition is_hex :: "char \<Rightarrow> bool" where
  "is_hex c \<longleftrightarrow> is_digit c \<or> 97 \<le> (of_char c :: nat) \<and> (of_char c :: nat) \<le> 102"

lemmas char_classes = is_lower_def is_upper_def is_digit_def is_alnum_def is_hex_def

end
