(* ===== verification/Domain.thy ===== *)
theory Domain
  imports Prelude
begin

text \<open>
  The shared management contract of \<open>internal/domain\<close>: the wire types as records, the JSON trees
  they are hashed through, role policy, the computation of the desired configuration and the
  validation of drafts. The SHA-256 digest of a JSON tree is the parameter \<open>H\<close>.
\<close>

section \<open>Configuration\<close>

record Serving =
  s_Model :: string
  s_Context :: int
  s_Concurrency :: int
  s_MemoryFraction :: float64
  s_CPUOffloadGiB :: int
  s_MaxRequestTokens :: int
  s_MaxOutputTokens :: int

record Resources =
  r_CPU :: int
  r_MemoryMiB :: int
  r_SharedMemoryMiB :: int
  r_GPUCount :: int
  r_PhysicalGPU :: string

record CacheBudgets =
  b_ModelsGiB :: int
  b_CompilerGiB :: int
  b_ShaderGiB :: int
  b_BuildJobs :: int
  b_BuildMemoryMiB :: int
  b_ScratchGiB :: int

record Configuration =
  c_Revision :: string
  c_Serving :: Serving
  c_Resources :: Resources
  c_Caches :: CacheBudgets

record MemoryRequest =
  mr_EvidenceID :: string
  mr_EvidenceSHA256 :: string
  mr_OtherMiB :: int

record PerformanceRequest =
  pr_EvidenceID :: string
  pr_EvidenceSHA256 :: string
  pr_Kind :: string

record Draft =
  d_Action :: string
  d_Target :: string
  d_SourceRevision :: string
  d_Model :: string
  d_Profile :: string
  d_Recipe :: string
  d_RecoveryID :: string
  d_Serving :: "Serving option"
  d_Resources :: "Resources option"
  d_Caches :: "CacheBudgets option"
  d_Memory :: "MemoryRequest option"
  d_Performance :: "PerformanceRequest option"

section \<open>Plans, operations and results\<close>

text \<open>A nil slice or map is \<open>None\<close> where the code tells it from an empty one.\<close>

record Change =
  ch_Field :: string
  ch_Before :: json
  ch_After :: json

record Preview =
  pv_Changes :: "Change list option"
  pv_Consequences :: "string list option"
  pv_Warnings :: "string list option"
  pv_Preconditions :: "string gomap option"

record Plan =
  p_ID :: string
  p_Actor :: string
  p_Draft :: Draft
  p_Desired :: Configuration
  p_Preview :: Preview
  p_CreatedAt :: time
  p_ExpiresAt :: time
  p_Hash :: string

record Progress =
  pg_Phase :: string
  pg_Message :: string
  pg_Bytes :: int

record Artifact =
  a_Name :: string
  a_SHA256 :: string
  a_Size :: int
  a_SourceRevision :: string
  a_Qualification :: string
  a_Content :: string

record Result =
  res_State :: string
  res_Phase :: string
  res_Message :: string
  res_RecoveryRequired :: bool
  res_Artifacts :: "Artifact list"

record Execution =
  x_ID :: string
  x_Actor :: string
  x_Plan :: Plan

record Operation =
  o_ID :: string
  o_Actor :: string
  o_Plan :: Plan
  o_State :: string
  o_Phase :: string
  o_Message :: string
  o_Revision :: "64 word"
  o_CreatedAt :: time
  o_UpdatedAt :: time
  o_SourceUpdated :: bool
  o_Dispatched :: bool
  o_LiveApplied :: bool
  o_RecoveryRequired :: bool
  o_CancelRequested :: bool
  o_Events :: "Progress list"
  o_Artifacts :: "Artifact list"

definition Terminal :: "string \<Rightarrow> bool" where
  "Terminal s \<longleftrightarrow> s = ''succeeded'' \<or> s = ''failed'' \<or> s = ''cancelled'' \<or> s = ''recovery-required''"

abbreviation o_Draft :: "Operation \<Rightarrow> Draft" where
  "o_Draft o1 \<equiv> p_Draft (o_Plan o1)"

section \<open>Inventory\<close>

record ModelFile =
  mf_Path :: string
  mf_SHA256 :: string
  mf_GitSHA1 :: string
  mf_Size :: int
  mf_URL :: string

record Model =
  m_ID :: string
  m_Repository :: string
  m_Revision :: string
  m_Quantization :: string
  m_License :: string
  m_Size :: int
  m_Status :: string
  m_Qualification :: string
  m_GPUCount :: int
  m_Files :: "ModelFile list"

record GPU =
  g_ID :: string
  g_Model :: string
  g_RenderPath :: string
  g_MemoryMiB :: int

record Hardware =
  h_Status :: string
  h_ObservedAt :: time
  h_BootID :: string
  h_CurrentBootID :: string
  h_MemoryMiB :: int
  h_DIMMs :: int
  h_TrainedSpeed :: string
  h_Channels :: string
  h_CPUThreads :: int
  h_SMTWidth :: int
  h_TopologyKnown :: bool
  h_CPUManagerPolicy :: string
  h_FullPCPUsOnly :: bool
  h_HostReserveMiB :: int
  h_KubeReserveMiB :: int
  h_OtherMemoryMiB :: int
  h_ReservedCPU :: int
  h_OtherCPU :: int
  h_OtherGPUs :: int
  h_GPUs :: "GPU list"
  h_Warnings :: "string list"

record Recipe =
  rc_ID :: string
  rc_Revision :: string
  rc_Status :: string
  rc_Reason :: string
  rc_Output :: string
  rc_Qualification :: string

text \<open>The inventory, less the caches, harnesses and serving status, which no modelled operation reads.\<close>

record Inventory =
  i_Mode :: string
  i_Target :: string
  i_Environment :: string
  i_SourceRevision :: string
  i_ClusterAvailable :: bool
  i_ClusterMessage :: string
  i_Profile :: string
  i_Hardware :: Hardware
  i_Models :: "Model list"
  i_Recipes :: "Recipe list"

definition zero_hardware :: Hardware where
  "zero_hardware = \<lparr>h_Status = [], h_ObservedAt = zero_time, h_BootID = [], h_CurrentBootID = [],
     h_MemoryMiB = 0, h_DIMMs = 0, h_TrainedSpeed = [], h_Channels = [], h_CPUThreads = 0,
     h_SMTWidth = 0, h_TopologyKnown = False, h_CPUManagerPolicy = [], h_FullPCPUsOnly = False,
     h_HostReserveMiB = 0, h_KubeReserveMiB = 0, h_OtherMemoryMiB = 0, h_ReservedCPU = 0,
     h_OtherCPU = 0, h_OtherGPUs = 0, h_GPUs = [], h_Warnings = []\<rparr>"

definition zero_inventory :: Inventory where
  "zero_inventory = \<lparr>i_Mode = [], i_Target = [], i_Environment = [], i_SourceRevision = [],
     i_ClusterAvailable = False, i_ClusterMessage = [], i_Profile = [],
     i_Hardware = zero_hardware, i_Models = [], i_Recipes = []\<rparr>"

definition zero_draft :: Draft where
  "zero_draft = \<lparr>d_Action = [], d_Target = [], d_SourceRevision = [], d_Model = [], d_Profile = [],
     d_Recipe = [], d_RecoveryID = [], d_Serving = None, d_Resources = None, d_Caches = None,
     d_Memory = None, d_Performance = None\<rparr>"

definition zero_configuration :: Configuration where
  "zero_configuration = \<lparr>c_Revision = [],
     c_Serving = \<lparr>s_Model = [], s_Context = 0, s_Concurrency = 0, s_MemoryFraction = 0,
       s_CPUOffloadGiB = 0, s_MaxRequestTokens = 0, s_MaxOutputTokens = 0\<rparr>,
     c_Resources = \<lparr>r_CPU = 0, r_MemoryMiB = 0, r_SharedMemoryMiB = 0, r_GPUCount = 0, r_PhysicalGPU = []\<rparr>,
     c_Caches = \<lparr>b_ModelsGiB = 0, b_CompilerGiB = 0, b_ShaderGiB = 0, b_BuildJobs = 0, b_BuildMemoryMiB = 0,
       b_ScratchGiB = 0\<rparr>\<rparr>"

section \<open>JSON trees of the wire types\<close>

definition serving_json :: "Serving \<Rightarrow> json" where
  "serving_json s = JObj
     [(''model'', JStr (s_Model s)), (''context'', JInt (s_Context s)),
      (''concurrency'', JInt (s_Concurrency s)), (''memory_fraction'', JFloat (s_MemoryFraction s)),
      (''cpu_offload_gib'', JInt (s_CPUOffloadGiB s)),
      (''max_request_tokens'', JInt (s_MaxRequestTokens s)),
      (''max_output_tokens'', JInt (s_MaxOutputTokens s))]"

definition resources_json :: "Resources \<Rightarrow> json" where
  "resources_json r = JObj
     ([(''cpu'', JInt (r_CPU r)), (''memory_mib'', JInt (r_MemoryMiB r)),
       (''shared_memory_mib'', JInt (r_SharedMemoryMiB r)), (''gpu_count'', JInt (r_GPUCount r))]
      @ opt_member (r_PhysicalGPU r = []) ''physical_gpu'' (JStr (r_PhysicalGPU r)))"

definition caches_json :: "CacheBudgets \<Rightarrow> json" where
  "caches_json b = JObj
     [(''models_gib'', JInt (b_ModelsGiB b)), (''compiler_gib'', JInt (b_CompilerGiB b)),
      (''shader_gib'', JInt (b_ShaderGiB b)), (''build_jobs'', JInt (b_BuildJobs b)),
      (''build_memory_mib'', JInt (b_BuildMemoryMiB b)), (''scratch_gib'', JInt (b_ScratchGiB b))]"

definition configuration_json :: "Configuration \<Rightarrow> json" where
  "configuration_json c = JObj
     [(''revision'', JStr (c_Revision c)), (''serving'', serving_json (c_Serving c)),
      (''resources'', resources_json (c_Resources c)), (''caches'', caches_json (c_Caches c))]"

definition memory_request_json :: "MemoryRequest \<Rightarrow> json" where
  "memory_request_json m = JObj
     [(''evidence_id'', JStr (mr_EvidenceID m)), (''evidence_sha256'', JStr (mr_EvidenceSHA256 m)),
      (''other_mib'', JInt (mr_OtherMiB m))]"

definition performance_request_json :: "PerformanceRequest \<Rightarrow> json" where
  "performance_request_json p = JObj
     [(''evidence_id'', JStr (pr_EvidenceID p)), (''evidence_sha256'', JStr (pr_EvidenceSHA256 p)),
      (''kind'', JStr (pr_Kind p))]"

definition opt_json :: "string \<Rightarrow> ('a \<Rightarrow> json) \<Rightarrow> 'a option \<Rightarrow> (string \<times> json) list" where
  "opt_json k f x = (case x of None \<Rightarrow> [] | Some v \<Rightarrow> [(k, f v)])"

definition draft_json :: "Draft \<Rightarrow> json" where
  "draft_json d = JObj
     ([(''action'', JStr (d_Action d)), (''target'', JStr (d_Target d)),
       (''source_revision'', JStr (d_SourceRevision d))]
      @ opt_member (d_Model d = []) ''model'' (JStr (d_Model d))
      @ opt_member (d_Profile d = []) ''profile'' (JStr (d_Profile d))
      @ opt_member (d_Recipe d = []) ''recipe'' (JStr (d_Recipe d))
      @ opt_member (d_RecoveryID d = []) ''recovery_id'' (JStr (d_RecoveryID d))
      @ opt_json ''serving'' serving_json (d_Serving d)
      @ opt_json ''resources'' resources_json (d_Resources d)
      @ opt_json ''caches'' caches_json (d_Caches d)
      @ opt_json ''memory'' memory_request_json (d_Memory d)
      @ opt_json ''performance'' performance_request_json (d_Performance d))"

definition change_json :: "Change \<Rightarrow> json" where
  "change_json c = JObj [(''field'', JStr (ch_Field c)), (''before'', ch_Before c), (''after'', ch_After c)]"

definition strings_json :: "string list option \<Rightarrow> json" where
  "strings_json x = (case x of None \<Rightarrow> JNull | Some xs \<Rightarrow> JArr (map JStr xs))"

definition preview_json :: "Preview \<Rightarrow> json" where
  "preview_json p = JObj
     [(''changes'', case pv_Changes p of None \<Rightarrow> JNull | Some cs \<Rightarrow> JArr (map change_json cs)),
      (''consequences'', strings_json (pv_Consequences p)),
      (''warnings'', strings_json (pv_Warnings p)),
      (''preconditions'', case pv_Preconditions p of None \<Rightarrow> JNull | Some m \<Rightarrow> json_of_map m)]"

definition plan_json :: "Plan \<Rightarrow> json" where
  "plan_json p = JObj
     [(''id'', JStr (p_ID p)), (''actor'', JStr (p_Actor p)), (''draft'', draft_json (p_Draft p)),
      (''desired'', configuration_json (p_Desired p)), (''preview'', preview_json (p_Preview p)),
      (''created_at'', JTime (p_CreatedAt p)), (''expires_at'', JTime (p_ExpiresAt p)),
      (''hash'', JStr (p_Hash p))]"

definition artifact_json :: "Artifact \<Rightarrow> json" where
  "artifact_json a = JObj
     ([(''name'', JStr (a_Name a)), (''sha256'', JStr (a_SHA256 a)), (''size'', JInt (a_Size a)),
       (''source_revision'', JStr (a_SourceRevision a)), (''qualification'', JStr (a_Qualification a))]
      @ opt_member (a_Content a = []) ''content'' (JStr (a_Content a)))"

definition result_json :: "Result \<Rightarrow> json" where
  "result_json r = JObj
     ([(''state'', JStr (res_State r)), (''phase'', JStr (res_Phase r)),
       (''message'', JStr (res_Message r)), (''recovery_required'', JBool (res_RecoveryRequired r))]
      @ opt_member (res_Artifacts r = []) ''artifacts'' (JArr (map artifact_json (res_Artifacts r))))"

definition ContentRevision :: "digest \<Rightarrow> Configuration \<Rightarrow> string" where
  "ContentRevision H c = H (configuration_json (c\<lparr>c_Revision := []\<rparr>))"

section \<open>Roles, actions and the desired configuration\<close>

definition RoleAllows :: "string \<Rightarrow> string \<Rightarrow> bool" where
  "RoleAllows role action \<longleftrightarrow>
     (if role = ''owner'' then True
      else role = ''operator'' \<and> (action = ''profile.switch'' \<or> action = ''profile.restore''))"

definition Desired :: "digest \<Rightarrow> Configuration \<Rightarrow> Draft \<Rightarrow> Configuration" where
  "Desired H current d =
     (let c = current;
          c = (case d_Serving d of Some s \<Rightarrow> c\<lparr>c_Serving := s\<rparr> | None \<Rightarrow> c);
          c = (case d_Resources d of Some r \<Rightarrow> c\<lparr>c_Resources := r\<rparr> | None \<Rightarrow> c);
          c = (case d_Caches d of Some b \<Rightarrow> c\<lparr>c_Caches := b\<rparr> | None \<Rightarrow> c);
          c = (if d_Model d \<noteq> [] \<and> d_Action d = ''serving.configure''
               then c\<lparr>c_Serving := (c_Serving c)\<lparr>s_Model := d_Model d\<rparr>\<rparr> else c)
      in c\<lparr>c_Revision := ContentRevision H c\<rparr>)"

definition MemoryAction :: "string \<Rightarrow> bool" where
  "MemoryAction a \<longleftrightarrow> a = ''memory.evidence.import'' \<or> a = ''memory.plan.export''"

definition PerformanceAction :: "string \<Rightarrow> bool" where
  "PerformanceAction a \<longleftrightarrow> a = ''performance.export'' \<or> a = ''performance.profile.select''"

definition EvidenceAction :: "string \<Rightarrow> bool" where
  "EvidenceAction a \<longleftrightarrow> MemoryAction a \<or> PerformanceAction a"

definition PerformanceKind :: "string \<Rightarrow> bool" where
  "PerformanceKind k \<longleftrightarrow> k \<in> set [''comparison'', ''coding-eval'', ''loading'', ''queue'',
     ''warm-status'', ''cache'', ''profile-selection'', ''profile-status'']"

text \<open>The regular expressions \<open>^[a-zA-Z0-9][a-zA-Z0-9-]{7,79}$\<close> and \<open>^[a-f0-9]{64}$\<close>.\<close>

definition evidence_id_ok :: "string \<Rightarrow> bool" where
  "evidence_id_ok s \<longleftrightarrow> (case s of [] \<Rightarrow> False
     | c # cs \<Rightarrow> is_alnum c \<and> 7 \<le> length cs \<and> length cs \<le> 79
                 \<and> list_all (\<lambda>x. is_alnum x \<or> x = CHR ''-'') cs)"

definition digest_ok :: "string \<Rightarrow> bool" where
  "digest_ok s \<longleftrightarrow> length s = 64 \<and> list_all is_hex s"

section \<open>Validation of drafts\<close>

text \<open>The messages of the failures.\<close>

definition msg_target_exact :: string where
  "msg_target_exact = ''confirm the configured target exactly''"

definition msg_source_changed :: string where
  "msg_source_changed = ''source changed; refresh configuration and create a new plan''"

definition msg_unsupported_operation :: string where
  "msg_unsupported_operation = ''unsupported operation''"

definition msg_memory_fields :: string where
  "msg_memory_fields = ''memory fields belong only to memory evidence import or plan export''"

definition msg_memory_request :: string where
  "msg_memory_request = ''memory requires a managed evidence ID, SHA-256 and bounded other-workload MiB''"

definition msg_memory_mixed :: string where
  "msg_memory_mixed = ''memory evidence operations cannot change configuration or recover GPU operations''"

definition msg_performance_fields :: string where
  "msg_performance_fields = ''performance fields belong only to performance operations''"

definition msg_performance_request :: string where
  "msg_performance_request = ''performance requires a reviewed kind, managed evidence ID and SHA-256''"

definition msg_performance_selection :: string where
  "msg_performance_selection = ''measured profile selection requires its separate explicit owner action''"

definition msg_performance_mixed :: string where
  "msg_performance_mixed = ''performance analysis cannot change live configuration, run a build or resolve GPU recovery''"

definition msg_serving_fields :: string where
  "msg_serving_fields = ''serving fields belong only to serving.configure''"

definition msg_model_field :: string where
  "msg_model_field = ''serving fields do not belong to this action''"

definition msg_model_conflict :: string where
  "msg_model_conflict = ''model selection conflicts with serving.model''"

definition msg_resource_fields :: string where
  "msg_resource_fields = ''resource fields do not belong to this action''"

definition msg_cache_fields :: string where
  "msg_cache_fields = ''cache fields do not belong to this action''"

definition msg_profile_field :: string where
  "msg_profile_field = ''profile does not belong to this action''"

definition msg_recipe_field :: string where
  "msg_recipe_field = ''recipe does not belong to this action''"

definition msg_profile_value :: string where
  "msg_profile_value = ''profile must be ai, gaming or maintenance''"

definition msg_model_id :: string where
  "msg_model_id = ''select a reviewed model ID''"

definition msg_recipe_id :: string where
  "msg_recipe_id = ''select a reviewed build recipe''"

definition msg_serving_limits :: string where
  "msg_serving_limits = ''serving options exceed reviewed limits''"

definition msg_token_caps :: string where
  "msg_token_caps = ''the pinned deployment cannot enforce global per-request input/output caps; use client limits''"

definition msg_physical_gpu :: string where
  "msg_physical_gpu = ''device-plugin GPU counts cannot select a physical card''"

definition msg_workload_budget :: string where
  "msg_workload_budget = ''invalid workload budget''"

definition msg_topology :: string where
  "msg_topology = ''CPU topology is unknown; collect current hardware evidence''"

definition msg_accounting :: string where
  "msg_accounting = ''invalid or incomplete resource accounting evidence''"

definition msg_stale :: string where
  "msg_stale = ''hardware evidence is stale or belongs to another boot''"

definition msg_qos :: string where
  "msg_qos = ''Guaranteed QoS requires whole discovered SMT cores and static/full-pcpus-only CPU Manager; export a host maintenance plan''"

definition msg_capacity :: string where
  "msg_capacity = ''budget exceeds capacity after host, Kubernetes and other workload reserves''"

definition msg_no_process_memory :: string where
  "msg_no_process_memory = ''offload and shared-memory budget leave no process memory''"

definition msg_model_gpus :: string where
  "msg_model_gpus = ''selected model requires its reviewed GPU count; quantization and context were not reduced''"

definition msg_reviewed_model :: string where
  "msg_reviewed_model = ''select a reviewed model''"

definition msg_cache_bounds :: string where
  "msg_cache_bounds = ''cache/build budgets exceed reviewed bounds''"


definition carries_configuration :: "Draft \<Rightarrow> bool" where
  "carries_configuration d \<longleftrightarrow>
     d_Serving d \<noteq> None \<or> d_Resources d \<noteq> None \<or> d_Caches d \<noteq> None \<or> d_Model d \<noteq> [] \<or>
     d_Recipe d \<noteq> [] \<or> d_Profile d \<noteq> [] \<or> d_RecoveryID d \<noteq> []"

definition memory_request_ok :: "MemoryRequest option \<Rightarrow> bool" where
  "memory_request_ok m \<longleftrightarrow> (case m of None \<Rightarrow> False
     | Some r \<Rightarrow> evidence_id_ok (mr_EvidenceID r) \<and> digest_ok (mr_EvidenceSHA256 r)
                 \<and> 0 \<le> mr_OtherMiB r \<and> mr_OtherMiB r \<le> 2 ^ 30)"

definition ValidateMemoryRequest :: "Draft \<Rightarrow> err option" where
  "ValidateMemoryRequest d =
     (if \<not> MemoryAction (d_Action d)
      then first_fail [(d_Memory d \<noteq> None, Failure ''invalid'' msg_memory_fields)]
      else first_fail
        [(\<not> memory_request_ok (d_Memory d), Failure ''invalid'' msg_memory_request),
         (carries_configuration d, Failure ''invalid'' msg_memory_mixed)])"

definition performance_request_ok :: "PerformanceRequest option \<Rightarrow> bool" where
  "performance_request_ok p \<longleftrightarrow> (case p of None \<Rightarrow> False
     | Some r \<Rightarrow> evidence_id_ok (pr_EvidenceID r) \<and> digest_ok (pr_EvidenceSHA256 r)
                 \<and> PerformanceKind (pr_Kind r))"

definition ValidatePerformanceRequest :: "Draft \<Rightarrow> err option" where
  "ValidatePerformanceRequest d =
     (if \<not> PerformanceAction (d_Action d)
      then first_fail [(d_Performance d \<noteq> None, Failure ''invalid'' msg_performance_fields)]
      else first_fail
        [(\<not> performance_request_ok (d_Performance d), Failure ''invalid'' msg_performance_request),
         ((d_Action d = ''performance.profile.select'')
            \<noteq> (case d_Performance d of None \<Rightarrow> False | Some p \<Rightarrow> pr_Kind p = ''profile-selection''),
          Failure ''invalid'' msg_performance_selection),
         (carries_configuration d \<or> d_Memory d \<noteq> None, Failure ''invalid'' msg_performance_mixed)])"

definition supported_actions :: "string list" where
  "supported_actions =
     [''serving.configure'', ''resources.configure'', ''caches.configure'', ''serving.start'',
      ''serving.stop'', ''serving.restart'', ''model.stage'', ''model.verify'', ''profile.switch'',
      ''profile.restore'', ''hardware.refresh'', ''build.start'', ''cpu-policy.export'',
      ''operation.reconcile'', ''memory.evidence.import'', ''memory.plan.export'',
      ''performance.export'', ''performance.profile.select'']"

text \<open>Fields of a draft belong to fixed actions only.\<close>

definition validate_fields :: "Draft \<Rightarrow> err option" where
  "validate_fields d = (let a = d_Action d in first_fail
     [(d_Serving d \<noteq> None \<and> a \<noteq> ''serving.configure'', Failure ''invalid'' msg_serving_fields),
      (d_Model d \<noteq> [] \<and> a \<noteq> ''serving.configure'' \<and> a \<noteq> ''model.stage'' \<and> a \<noteq> ''model.verify'',
       Failure ''invalid'' msg_model_field),
      ((case d_Serving d of None \<Rightarrow> False | Some s \<Rightarrow> d_Model d \<noteq> [] \<and> s_Model s \<noteq> d_Model d),
       Failure ''invalid'' msg_model_conflict),
      (d_Resources d \<noteq> None \<and> a \<noteq> ''resources.configure'' \<and> a \<noteq> ''serving.configure'',
       Failure ''invalid'' msg_resource_fields),
      (d_Caches d \<noteq> None \<and> a \<noteq> ''caches.configure'', Failure ''invalid'' msg_cache_fields),
      (d_Profile d \<noteq> [] \<and> a \<noteq> ''profile.switch'', Failure ''invalid'' msg_profile_field),
      (d_Recipe d \<noteq> [] \<and> a \<noteq> ''build.start'', Failure ''invalid'' msg_recipe_field),
      (a = ''profile.switch'' \<and> d_Profile d \<noteq> ''ai'' \<and> d_Profile d \<noteq> ''gaming'' \<and> d_Profile d \<noteq> ''maintenance'',
       Failure ''invalid'' msg_profile_value)])"

text \<open>The loop over the recipes: an unavailable one with the selected ID is reported at once.\<close>

fun validate_recipe :: "string \<Rightarrow> bool \<Rightarrow> Recipe list \<Rightarrow> err option" where
  "validate_recipe recipe found [] =
     (if found then None else Some (Failure ''unsupported'' msg_recipe_id))"
| "validate_recipe recipe found (r # rs) =
     (if rc_ID r = recipe
      then if rc_Status r \<noteq> ''available'' then Some (Failure ''unavailable'' (rc_Reason r))
           else validate_recipe recipe True rs
      else validate_recipe recipe found rs)"

text \<open>The loop over the models: one with the selected ID that needs more GPUs is reported at once.\<close>

fun validate_model_gpus :: "string \<Rightarrow> int \<Rightarrow> bool \<Rightarrow> Model list \<Rightarrow> err option" where
  "validate_model_gpus model gpus found [] =
     (if found then None else Some (Failure ''unsupported'' msg_reviewed_model))"
| "validate_model_gpus model gpus found (m # ms) =
     (if m_ID m = model
      then if m_GPUCount m > gpus then Some (Failure ''capacity'' msg_model_gpus)
           else validate_model_gpus model gpus True ms
      else validate_model_gpus model gpus found ms)"

text \<open>The budget checks of the serving actions, in the source's order.\<close>

definition validate_budget :: "time \<Rightarrow> Serving \<Rightarrow> Resources \<Rightarrow> Hardware \<Rightarrow> err option" where
  "validate_budget now s r h = first_fail
     [(s_Context s < 128 \<or> s_Context s > 131072 \<or> s_Concurrency s < 1 \<or> s_Concurrency s > 32
         \<or> s_MemoryFraction s < f64_0_1 \<or> s_MemoryFraction s > f64_0_95
         \<or> s_CPUOffloadGiB s < 0 \<or> s_CPUOffloadGiB s > 32,
       Failure ''invalid'' msg_serving_limits),
      (s_MaxRequestTokens s \<noteq> 0 \<or> s_MaxOutputTokens s \<noteq> 0, Failure ''unsupported'' msg_token_caps),
      (r_PhysicalGPU r \<noteq> [], Failure ''unsupported'' msg_physical_gpu),
      (r_CPU r < 1 \<or> r_CPU r > 4096 \<or> r_MemoryMiB r < 1024 \<or> r_MemoryMiB r > 2 ^ 30
         \<or> r_SharedMemoryMiB r < 64 \<or> r_SharedMemoryMiB r \<ge> r_MemoryMiB r
         \<or> r_GPUCount r < 1 \<or> r_GPUCount r > 2,
       Failure ''invalid'' msg_workload_budget),
      (\<not> h_TopologyKnown h \<or> h_SMTWidth h < 1, Failure ''unavailable'' msg_topology),
      (h_MemoryMiB h \<le> 0 \<or> h_MemoryMiB h > 2 ^ 30 \<or> h_CPUThreads h < 1 \<or> h_CPUThreads h > 4096
         \<or> h_HostReserveMiB h < 0 \<or> h_KubeReserveMiB h < 0 \<or> h_OtherMemoryMiB h < 0
         \<or> h_ReservedCPU h < 0 \<or> h_OtherCPU h < 0 \<or> h_OtherGPUs h < 0,
       Failure ''unavailable'' msg_accounting),
      (h_BootID h = [] \<or> h_BootID h \<noteq> h_CurrentBootID h
         \<or> now - h_ObservedAt h > 24 * hour \<or> h_ObservedAt h - now > minute,
       Failure ''stale_evidence'' msg_stale),
      (h_CPUManagerPolicy h \<noteq> ''static'' \<or> \<not> h_FullPCPUsOnly h \<or> r_CPU r mod h_SMTWidth h \<noteq> 0,
       Failure ''invalid'' msg_qos),
      (i64 (r_CPU r + h_ReservedCPU h + h_OtherCPU h) > h_CPUThreads h
         \<or> i64 (r_MemoryMiB r + h_HostReserveMiB h + h_KubeReserveMiB h + h_OtherMemoryMiB h) > h_MemoryMiB h
         \<or> i64 (r_GPUCount r + h_OtherGPUs h) > int (length (h_GPUs h)),
       Failure ''capacity'' msg_capacity),
      (i64 (s_CPUOffloadGiB s * 1024 + r_SharedMemoryMiB r) \<ge> r_MemoryMiB r,
       Failure ''capacity'' msg_no_process_memory)]"

definition serving_actions :: "string list" where
  "serving_actions = [''serving.configure'', ''resources.configure'', ''serving.start'', ''serving.restart'']"

definition validate_caches :: "CacheBudgets \<Rightarrow> err option" where
  "validate_caches b = first_fail
     [(b_ModelsGiB b < 1 \<or> b_ModelsGiB b > 8192 \<or> b_CompilerGiB b < 1 \<or> b_CompilerGiB b > 1024
         \<or> b_ShaderGiB b < 1 \<or> b_ShaderGiB b > 1024 \<or> b_BuildJobs b < 1 \<or> b_BuildJobs b > 24
         \<or> b_BuildMemoryMiB b < 2048 \<or> b_BuildMemoryMiB b > 49152 \<or> b_ScratchGiB b < 1 \<or> b_ScratchGiB b > 1024,
       Failure ''invalid'' msg_cache_bounds)]"

definition ValidateDraft :: "digest \<Rightarrow> time \<Rightarrow> Draft \<Rightarrow> Configuration \<Rightarrow> Inventory \<Rightarrow> err option" where
  "ValidateDraft H now d c iv =
     and_then (first_fail
       [(d_Target d \<noteq> i_Target iv, Failure ''target_mismatch'' msg_target_exact),
        (d_SourceRevision d \<noteq> c_Revision c, Failure ''source_drift'' msg_source_changed),
        (d_Action d \<notin> set supported_actions, Failure ''unsupported'' msg_unsupported_operation)])
     (and_then (ValidateMemoryRequest d)
     (and_then (ValidatePerformanceRequest d)
     (and_then (validate_fields d)
     (and_then (first_fail
       [((d_Action d = ''model.stage'' \<or> d_Action d = ''model.verify'')
           \<and> d_Model d \<notin> set (map m_ID (i_Models iv)), Failure ''invalid'' msg_model_id)])
     (and_then (if d_Action d = ''build.start'' then validate_recipe (d_Recipe d) False (i_Recipes iv) else None)
     (let next_cfg = Desired H c d in
     (and_then
       (if d_Action d \<in> set serving_actions
        then and_then (validate_budget now (c_Serving next_cfg) (c_Resources next_cfg) (i_Hardware iv))
               (validate_model_gpus (s_Model (c_Serving next_cfg)) (r_GPUCount (c_Resources next_cfg)) False (i_Models iv))
        else None)
       (if d_Action d = ''caches.configure'' then validate_caches (c_Caches next_cfg) else None))))))))"

section \<open>Facts about the wire types\<close>

lemma serving_json_inject [simp]: "serving_json a = serving_json b \<longleftrightarrow> a = b"
  by (auto simp: serving_json_def intro: Serving.equality)

lemma caches_json_inject [simp]: "caches_json a = caches_json b \<longleftrightarrow> a = b"
  by (auto simp: caches_json_def intro: CacheBudgets.equality)

lemma resources_json_inject [simp]: "resources_json a = resources_json b \<longleftrightarrow> a = b"
  by (auto simp: resources_json_def opt_member_def intro: Resources.equality split: if_splits)

lemma configuration_json_inject [simp]: "configuration_json a = configuration_json b \<longleftrightarrow> a = b"
  by (auto simp: configuration_json_def intro: Configuration.equality)

lemma ContentRevision_ignores_revision [simp]:
  "ContentRevision H (c\<lparr>c_Revision := r\<rparr>) = ContentRevision H c"
  by (simp add: ContentRevision_def)

lemma Desired_revision: "c_Revision (Desired H c d) = ContentRevision H (Desired H c d)"
  by (simp add: Desired_def Let_def)

lemma Desired_unchanged:
  assumes "c_Revision c = ContentRevision H c"
    and "d_Serving d = None" and "d_Resources d = None" and "d_Caches d = None"
    and "d_Model d = [] \<or> d_Action d \<noteq> ''serving.configure''"
  shows "Desired H c d = c"
  using assms by (auto simp: Desired_def Let_def intro: Configuration.equality)

section \<open>Facts about validation\<close>

lemma validate_recipe_None:
  "validate_recipe recipe found rs = None \<longleftrightarrow>
     (found \<or> (\<exists>r \<in> set rs. rc_ID r = recipe)) \<and>
     (\<forall>r \<in> set rs. rc_ID r = recipe \<longrightarrow> rc_Status r = ''available'')"
  by (induction recipe found rs rule: validate_recipe.induct) auto

lemma validate_model_gpus_None:
  "validate_model_gpus model gpus found ms = None \<longleftrightarrow>
     (found \<or> (\<exists>m \<in> set ms. m_ID m = model)) \<and>
     (\<forall>m \<in> set ms. m_ID m = model \<longrightarrow> m_GPUCount m \<le> gpus)"
  by (induction model gpus found ms rule: validate_model_gpus.induct) auto

lemma ValidateDraft_None_iff:
  "ValidateDraft H now d c iv = None \<longleftrightarrow>
     d_Target d = i_Target iv \<and> d_SourceRevision d = c_Revision c \<and>
     d_Action d \<in> set supported_actions \<and>
     ValidateMemoryRequest d = None \<and> ValidatePerformanceRequest d = None \<and> validate_fields d = None \<and>
     (d_Action d = ''model.stage'' \<or> d_Action d = ''model.verify'' \<longrightarrow> d_Model d \<in> set (map m_ID (i_Models iv))) \<and>
     (d_Action d = ''build.start'' \<longrightarrow> validate_recipe (d_Recipe d) False (i_Recipes iv) = None) \<and>
     (d_Action d \<in> set serving_actions \<longrightarrow>
        validate_budget now (c_Serving (Desired H c d)) (c_Resources (Desired H c d)) (i_Hardware iv) = None \<and>
        validate_model_gpus (s_Model (c_Serving (Desired H c d))) (r_GPUCount (c_Resources (Desired H c d)))
          False (i_Models iv) = None) \<and>
     (d_Action d = ''caches.configure'' \<longrightarrow> validate_caches (c_Caches (Desired H c d)) = None)"
  unfolding ValidateDraft_def Let_def
  by (simp del: set_map) blast

lemma validate_fields_None:
  assumes "validate_fields d = None"
  shows "(d_Serving d \<noteq> None \<longrightarrow> d_Action d = ''serving.configure'') \<and>
    (d_Resources d \<noteq> None \<longrightarrow> d_Action d = ''serving.configure'' \<or> d_Action d = ''resources.configure'') \<and>
    (d_Caches d \<noteq> None \<longrightarrow> d_Action d = ''caches.configure'') \<and>
    (d_Profile d \<noteq> [] \<longrightarrow> d_Action d = ''profile.switch'') \<and>
    (d_Recipe d \<noteq> [] \<longrightarrow> d_Action d = ''build.start'') \<and>
    (d_Model d \<noteq> [] \<longrightarrow> d_Action d = ''serving.configure'' \<or> d_Action d = ''model.stage'' \<or> d_Action d = ''model.verify'')"
  using assms unfolding validate_fields_def Let_def first_fail_None list.set ball_simps fst_conv by blast

lemma validate_budget_None:
  assumes "validate_budget now s r h = None"
  shows "i64 (r_CPU r + h_ReservedCPU h + h_OtherCPU h) \<le> h_CPUThreads h \<and>
    i64 (r_MemoryMiB r + h_HostReserveMiB h + h_KubeReserveMiB h + h_OtherMemoryMiB h) \<le> h_MemoryMiB h \<and>
    i64 (r_GPUCount r + h_OtherGPUs h) \<le> int (length (h_GPUs h)) \<and>
    i64 (s_CPUOffloadGiB s * 1024 + r_SharedMemoryMiB r) < r_MemoryMiB r \<and>
    1 \<le> r_CPU r \<and> r_CPU r \<le> 4096 \<and> 1024 \<le> r_MemoryMiB r \<and> r_MemoryMiB r \<le> 2 ^ 30 \<and>
    64 \<le> r_SharedMemoryMiB r \<and> r_SharedMemoryMiB r < r_MemoryMiB r \<and>
    1 \<le> r_GPUCount r \<and> r_GPUCount r \<le> 2 \<and>
    0 \<le> h_HostReserveMiB h \<and> 0 \<le> h_KubeReserveMiB h \<and> 0 \<le> h_OtherMemoryMiB h \<and>
    0 \<le> h_ReservedCPU h \<and> 0 \<le> h_OtherCPU h \<and> 0 \<le> h_OtherGPUs h \<and>
    0 \<le> s_CPUOffloadGiB s \<and> s_CPUOffloadGiB s \<le> 32 \<and>
    h_BootID h = h_CurrentBootID h \<and> 1 \<le> h_SMTWidth h \<and> r_CPU r mod h_SMTWidth h = 0 \<and>
    now - h_ObservedAt h \<le> 24 * hour"
  using assms
  unfolding validate_budget_def first_fail_None list.set ball_simps fst_conv de_Morgan_disj not_less not_le not_not
  by blast

end
