(* ===== verification/Recovery.thy ===== *)
theory Recovery
  imports Domain
begin

text \<open>
  The recovery linkage of \<open>internal/domain/recovery.go\<close>. Both journals of the system, the
  controller's operations and the root helper's records, are read through it: a record may name
  the record it recovers, \<open>RecoveryRoot\<close> walks these parent links to the operation the chain
  started from, and \<open>RecoveryChain\<close> collects the records with the same root.

  The loop is total because every turn adds an identifier to the visited ones; it is shown to
  decide the inductive relation \<open>recovers\<close>, which speaks of no visited set at all.
\<close>

record RecoveryLink =
  rl_Parent :: string
  rl_Target :: string
  rl_Action :: string

definition msg_linkage_missing :: string where
  "msg_linkage_missing = ''recovery linkage is missing or cyclic; preserve journals for owner review''"

definition msg_linkage_targets :: string where
  "msg_linkage_targets = ''recovery linkage crosses targets''"

definition msg_linkage_action :: string where
  "msg_linkage_action = ''recovery linkage belongs to a non-recovery action''"

definition msg_linkage_executors :: string where
  "msg_linkage_executors = ''recovery linkage crosses executors or has a missing parent''"

definition HostRestoreRequired :: "string \<Rightarrow> bool" where
  "HostRestoreRequired a \<longleftrightarrow> a \<in> set [''profile.switch'', ''profile.restore'', ''serving.configure'',
     ''resources.configure'', ''serving.start'', ''serving.stop'', ''serving.restart'']"

function recovery_root_loop ::
    "RecoveryLink gomap \<Rightarrow> string list \<Rightarrow> string \<Rightarrow> string \<Rightarrow> err + string" where
  "recovery_root_loop links seen target id0 =
     (case map_of links id0 of
        None \<Rightarrow> Inl (Plain msg_linkage_missing)
      | Some link \<Rightarrow>
          if id0 \<in> set seen \<or> rl_Target link = [] then Inl (Plain msg_linkage_missing)
          else if target \<noteq> [] \<and> target \<noteq> rl_Target link then Inl (Plain msg_linkage_targets)
          else if rl_Parent link = [] then Inr id0
          else if rl_Action link \<noteq> ''profile.restore'' \<and> rl_Action link \<noteq> ''operation.reconcile''
            then Inl (Plain msg_linkage_action)
          else (case map_of links (rl_Parent link) of
                  None \<Rightarrow> Inl (Plain msg_linkage_executors)
                | Some parent \<Rightarrow>
                    if rl_Action link = ''profile.restore'' \<and> \<not> HostRestoreRequired (rl_Action parent)
                    then Inl (Plain msg_linkage_executors)
                    else recovery_root_loop links (id0 # seen) (rl_Target link) (rl_Parent link)))"
  by pat_completeness auto
termination
proof (relation "measure (\<lambda>(links, seen, target, id0). card (fst ` set links - set seen))", goal_cases)
  case 1
  show ?case by simp
next
  case (2 links seen target id0 link parent)
  then have "id0 \<in> fst ` set links - set seen"
    by (simp add: map_of_in_keys)
  then have "fst ` set links - set (id0 # seen) \<subset> fst ` set links - set seen"
    by auto
  then show ?case
    by (simp add: psubset_card_mono)
qed

declare recovery_root_loop.simps [simp del]

definition RecoveryRoot :: "RecoveryLink gomap \<Rightarrow> string \<Rightarrow> err + string" where
  "RecoveryRoot links id0 = recovery_root_loop links [] [] id0"

text \<open>The chain is a set of identifiers in the code; here, the list of its members.\<close>

definition RecoveryChain :: "RecoveryLink gomap \<Rightarrow> string \<Rightarrow> err + string list" where
  "RecoveryChain links id0 =
     (case RecoveryRoot links id0 of
        Inl e \<Rightarrow> Inl e
      | Inr rt \<Rightarrow> Inr (filter (\<lambda>k. RecoveryRoot links k = Inr rt) (gkeys links)))"

section \<open>The relation the loop decides\<close>

definition recovery_step :: "RecoveryLink gomap \<Rightarrow> string \<Rightarrow> RecoveryLink \<Rightarrow> bool" where
  "recovery_step links id0 l \<longleftrightarrow>
     map_of links id0 = Some l \<and> rl_Target l \<noteq> [] \<and> rl_Parent l \<noteq> [] \<and>
     (rl_Action l = ''profile.restore'' \<or> rl_Action l = ''operation.reconcile'') \<and>
     (\<exists>p. map_of links (rl_Parent l) = Some p \<and> rl_Target p = rl_Target l \<and>
          (rl_Action l = ''profile.restore'' \<longrightarrow> HostRestoreRequired (rl_Action p)))"

inductive recovers :: "RecoveryLink gomap \<Rightarrow> nat \<Rightarrow> string \<Rightarrow> string \<Rightarrow> bool" for links where
  root: "map_of links id0 = Some l \<Longrightarrow> rl_Target l \<noteq> [] \<Longrightarrow> rl_Parent l = [] \<Longrightarrow> recovers links 0 id0 id0"
| step: "recovery_step links id0 l \<Longrightarrow> recovers links n (rl_Parent l) r \<Longrightarrow> recovers links (Suc n) id0 r"

inductive_cases recovers_0E: "recovers links 0 id0 r"
inductive_cases recovers_SucE: "recovers links (Suc n) id0 r"

lemma recovers_unique:
  "recovers links n id0 r \<Longrightarrow> recovers links m id0 r' \<Longrightarrow> n = m \<and> r = r'"
proof (induction arbitrary: m r' rule: recovers.induct)
  case (root id0 l)
  then show ?case by (auto elim: recovers.cases simp: recovery_step_def)
next
  case (step id0 l n r)
  from step.prems step.hyps(1) show ?case
    by (cases rule: recovers.cases) (auto simp: recovery_step_def dest: step.IH)
qed

lemma recovers_known: "recovers links n id0 r \<Longrightarrow> \<exists>l. map_of links id0 = Some l \<and> rl_Target l \<noteq> []"
  by (cases rule: recovers.cases) (auto simp: recovery_step_def)

lemma recovers_root_known: "recovers links n id0 r \<Longrightarrow> recovers links 0 r r"
  by (induction rule: recovers.induct) (auto intro: recovers.root)

lemma recovers_same_target:
  "recovers links n id0 r \<Longrightarrow> map_of links id0 = Some l \<Longrightarrow> map_of links r = Some l' \<Longrightarrow> rl_Target l = rl_Target l'"
  by (induction arbitrary: l rule: recovers.induct) (auto simp: recovery_step_def)

text \<open>The relation only reads present links, so it survives the addition of records.\<close>

lemma recovers_mono:
  "recovers links n id0 r \<Longrightarrow> map_of links \<subseteq>\<^sub>m map_of links' \<Longrightarrow> recovers links' n id0 r"
proof (induction rule: recovers.induct)
  case (root id0 l)
  then have "map_of links' id0 = Some l" by (metis domI map_le_def)
  with root show ?case by (auto intro: recovers.root)
next
  case (step id0 l n r)
  have "map_of links' k = Some v" if "map_of links k = Some v" for k v
    using that step.prems by (auto simp: map_le_def dom_def)
  with step.hyps(1) have "recovery_step links' id0 l"
    unfolding recovery_step_def by blast
  with step.IH [OF step.prems] show ?case by (rule recovers.step [rotated])
qed

text \<open>It also survives a removal that keeps, with a record, the record it recovers.\<close>

definition parent_closed :: "RecoveryLink gomap \<Rightarrow> RecoveryLink gomap \<Rightarrow> bool" where
  "parent_closed small big \<longleftrightarrow> map_of small \<subseteq>\<^sub>m map_of big \<and>
     (\<forall>k l. map_of small k = Some l \<longrightarrow> rl_Parent l \<in> dom (map_of big) \<longrightarrow> rl_Parent l \<in> dom (map_of small))"

lemma recovers_restrict:
  "recovers links n id0 r \<Longrightarrow> parent_closed links' links \<Longrightarrow> id0 \<in> dom (map_of links') \<Longrightarrow> recovers links' n id0 r"
proof (induction rule: recovers.induct)
  case (root id0 l)
  then have "map_of links' id0 = Some l"
    unfolding parent_closed_def map_le_def by auto
  with root show ?case by (auto intro: recovers.root)
next
  case (step id0 l n r)
  have sub: "map_of links' \<subseteq>\<^sub>m map_of links" using step.prems(1) by (simp add: parent_closed_def)
  from step.hyps(1) obtain p where p: "map_of links (rl_Parent l) = Some p"
    by (auto simp: recovery_step_def)
  from sub step.prems(2) step.hyps(1) have l: "map_of links' id0 = Some l"
    by (auto simp: recovery_step_def map_le_def)
  with step.prems(1) p have par: "rl_Parent l \<in> dom (map_of links')"
    unfolding parent_closed_def by blast
  with sub p have "map_of links' (rl_Parent l) = Some p" by (auto simp: map_le_def)
  with step.hyps(1) l p have "recovery_step links' id0 l"
    by (auto simp: recovery_step_def)
  with step.IH [OF step.prems(1) par] show ?case by (rule recovers.step [rotated])
qed

section \<open>The loop decides the relation\<close>

lemma recovery_root_loop_sound:
  "recovery_root_loop links seen target id0 = Inr r \<Longrightarrow>
     (\<exists>n. recovers links n id0 r) \<and>
     (target \<noteq> [] \<longrightarrow> (\<exists>l. map_of links id0 = Some l \<and> rl_Target l = target))"
proof (induction links seen target id0 rule: recovery_root_loop.induct)
  case (1 links seen target id0)
  from "1.prems" obtain l where l: "map_of links id0 = Some l" and t: "rl_Target l \<noteq> []"
    and tt: "target \<noteq> [] \<longrightarrow> target = rl_Target l"
    by (subst (asm) recovery_root_loop.simps) (auto split: option.splits if_splits)
  show ?case
  proof (cases "rl_Parent l = []")
    case True
    with "1.prems" l have "r = id0"
      by (subst (asm) recovery_root_loop.simps) (auto split: option.splits if_splits)
    with True l t tt show ?thesis by (auto intro: recovers.root)
  next
    case False
    with "1.prems" l t obtain p where fresh: "id0 \<notin> set seen"
      and act: "rl_Action l = ''profile.restore'' \<or> rl_Action l = ''operation.reconcile''"
      and p: "map_of links (rl_Parent l) = Some p"
      and host: "rl_Action l = ''profile.restore'' \<longrightarrow> HostRestoreRequired (rl_Action p)"
      and rec: "recovery_root_loop links (id0 # seen) (rl_Target l) (rl_Parent l) = Inr r"
      by (subst (asm) recovery_root_loop.simps) (auto split: option.splits if_splits)
    have "(\<exists>n. recovers links n (rl_Parent l) r) \<and>
        (rl_Target l \<noteq> [] \<longrightarrow> (\<exists>l'. map_of links (rl_Parent l) = Some l' \<and> rl_Target l' = rl_Target l))"
      using "1.IH" [OF l _ _ False _ p _ rec] fresh t tt act host by auto
    with l t False act p host have "recovery_step links id0 l" and "\<exists>n. recovers links n (rl_Parent l) r"
      by (auto simp: recovery_step_def)
    with l tt show ?thesis by (auto intro: recovers.step)
  qed
qed

lemma recovery_root_loop_complete:
  assumes "recovers links n id0 r"
    and "\<forall>s \<in> set seen. \<forall>m r'. recovers links m s r' \<longrightarrow> n < m"
    and "target = [] \<or> (\<exists>l. map_of links id0 = Some l \<and> rl_Target l = target)"
  shows "recovery_root_loop links seen target id0 = Inr r"
  using assms
proof (induction arbitrary: seen target rule: recovers.induct)
  case (root id0 l)
  then have "id0 \<notin> set seen" by (blast intro: recovers.root)
  with root show ?case by (subst recovery_root_loop.simps) auto
next
  case (step id0 l n r)
  have self: "recovers links (Suc n) id0 r" using step.hyps by (rule recovers.step)
  then have fresh: "id0 \<notin> set seen" using step.prems(1) by blast
  have bound: "\<forall>s \<in> set (id0 # seen). \<forall>m r'. recovers links m s r' \<longrightarrow> n < m"
  proof (intro ballI allI impI)
    fix s m r' assume s: "s \<in> set (id0 # seen)" and rec: "recovers links m s r'"
    show "n < m"
    proof (cases "s = id0")
      case True
      with rec self recovers_unique show ?thesis by blast
    next
      case False
      with s have "s \<in> set seen" by simp
      with rec step.prems(1) have "Suc n < m" by blast
      then show ?thesis by simp
    qed
  qed
  from step.hyps(1) have tgt: "rl_Target l = [] \<or> (\<exists>p. map_of links (rl_Parent l) = Some p \<and> rl_Target p = rl_Target l)"
    by (auto simp: recovery_step_def)
  from step.IH [OF bound tgt] step.hyps(1) step.prems(2) fresh show ?case
    by (subst recovery_root_loop.simps) (auto simp: recovery_step_def)
qed

lemma RecoveryRoot_iff: "RecoveryRoot links id0 = Inr r \<longleftrightarrow> (\<exists>n. recovers links n id0 r)"
  unfolding RecoveryRoot_def
  using recovery_root_loop_sound [of links "[]" "[]" id0 r]
    recovery_root_loop_complete [of links _ id0 r "[]" "[]"] by auto

section \<open>Chains\<close>

lemma RecoveryChain_members:
  assumes "RecoveryChain links a = Inr ch"
  shows "k \<in> set ch \<longleftrightarrow> (\<exists>r. RecoveryRoot links a = Inr r \<and> RecoveryRoot links k = Inr r)"
proof -
  have "k \<in> fst ` set links" if "RecoveryRoot links k = Inr r" for r
    using that by (auto simp: RecoveryRoot_iff dest: recovers_known map_of_in_keys)
  with assms show ?thesis
    by (auto simp: RecoveryChain_def split: sum.splits)
qed

lemma RecoveryChain_self: "RecoveryChain links a = Inr ch \<Longrightarrow> a \<in> set ch"
  by (auto simp: RecoveryChain_members RecoveryChain_def split: sum.splits)

lemma RecoveryChain_defined: "RecoveryRoot links a = Inr r \<Longrightarrow> \<exists>ch. RecoveryChain links a = Inr ch"
  by (simp add: RecoveryChain_def)

lemma RecoveryChain_same:
  assumes "RecoveryChain links a = Inr ca" and "RecoveryChain links b = Inr cb" and "k \<in> set ca" and "k \<in> set cb"
  shows "ca = cb"
proof -
  from assms(1,3) obtain r where r: "RecoveryRoot links a = Inr r" "RecoveryRoot links k = Inr r"
    by (auto simp: RecoveryChain_members)
  from assms(2,4) r(2) have "RecoveryRoot links b = Inr r"
    by (auto simp: RecoveryChain_members)
  with r(1) assms(1,2) show ?thesis by (simp add: RecoveryChain_def)
qed

lemma RecoveryChain_known:
  "RecoveryChain links a = Inr ch \<Longrightarrow> k \<in> set ch \<Longrightarrow> \<exists>l. map_of links k = Some l \<and> rl_Target l \<noteq> []"
  by (auto simp: RecoveryChain_members RecoveryRoot_iff dest: recovers_known)

lemma RecoveryChain_target:
  assumes "RecoveryChain links a = Inr ch" and "j \<in> set ch" and "k \<in> set ch"
    and "map_of links j = Some lj" and "map_of links k = Some lk"
  shows "rl_Target lj = rl_Target lk"
proof -
  obtain r m n where rec: "recovers links m j r" "recovers links n k r"
    using assms(2,3) by (auto simp: RecoveryChain_members [OF assms(1)]) (metis RecoveryRoot_iff)
  moreover obtain lr where "map_of links r = Some lr"
    using recovers_known [OF recovers_root_known [OF rec(1)]] by blast
  ultimately show ?thesis
    using recovers_same_target assms(4,5) by metis
qed

lemma RecoveryRoot_mono:
  "RecoveryRoot links a = Inr r \<Longrightarrow> map_of links \<subseteq>\<^sub>m map_of links' \<Longrightarrow> RecoveryRoot links' a = Inr r"
  by (auto simp: RecoveryRoot_iff dest: recovers_mono)

lemma RecoveryRoot_restrict:
  assumes "parent_closed small big" and "a \<in> dom (map_of small)"
  shows "RecoveryRoot small a = Inr r \<longleftrightarrow> RecoveryRoot big a = Inr r"
  using assms unfolding RecoveryRoot_iff
  by (metis parent_closed_def recovers_mono recovers_restrict)

section \<open>The interface of a recovery journal\<close>

text \<open>
  Both authorities keep a table of records, read off a link for each of them, and hand the links
  to the functions above. What follows from that holds for either.
\<close>

locale recovery_journal =
  fixes records :: "'j \<Rightarrow> 'r gomap"
    and link :: "'r \<Rightarrow> RecoveryLink"
    and links :: "'j \<Rightarrow> RecoveryLink gomap"
  assumes links_of_records: "links j = map (\<lambda>(k, r). (k, link r)) (records j)"
begin

lemma links_lookup: "map_of (links j) k = map_option link (map_of (records j) k)"
  by (simp add: links_of_records map_of_map)

lemma links_keys [simp]: "gkeys (links j) = gkeys (records j)"
  by (simp add: links_of_records case_prod_beta)

lemma chain_record:
  assumes "RecoveryChain (links j) a = Inr ch" and "k \<in> set ch"
  shows "\<exists>r. map_of (records j) k = Some r \<and> rl_Target (link r) \<noteq> []"
  using RecoveryChain_known [OF assms] by (auto simp: links_lookup)

lemma chain_same_target:
  assumes "RecoveryChain (links j) a = Inr ch" and "k \<in> set ch" and "k' \<in> set ch"
    and "map_of (records j) k = Some r" and "map_of (records j) k' = Some r'"
  shows "rl_Target (link r) = rl_Target (link r')"
  using RecoveryChain_target [OF assms(1-3)] assms(4,5) by (simp add: links_lookup)

lemma links_grow:
  "map_of (records j) \<subseteq>\<^sub>m map_of (records j') \<Longrightarrow> map_of (links j) \<subseteq>\<^sub>m map_of (links j')"
  by (auto simp: map_le_def links_lookup dom_def)

lemma links_cong:
  assumes "\<And>k. map_option link (map_of (records j) k) = map_option link (map_of (records j') k)"
  shows "map_of (links j) = map_of (links j')"
  using assms by (simp add: links_lookup fun_eq_iff)

end

text \<open>
  A fenced journal also says which records are outstanding and which drafts it admits while
  \<open>executing\<close> is set aside. The law is the fence: outside the exempt actions, an admitted draft
  finds every other outstanding record in the chain it recovers.
\<close>

locale recovery_fence = recovery_journal records link links
  for records :: "'j \<Rightarrow> 'r gomap" and link :: "'r \<Rightarrow> RecoveryLink" and links :: "'j \<Rightarrow> RecoveryLink gomap" +
  fixes outstanding :: "'r \<Rightarrow> bool"
    and exempt :: "Draft \<Rightarrow> bool"
    and admits :: "'j \<Rightarrow> Draft \<Rightarrow> string \<Rightarrow> bool"
  assumes fence_unlinked: "admits j d executing \<Longrightarrow> \<not> exempt d \<Longrightarrow> d_RecoveryID d = [] \<Longrightarrow>
      (k, r) \<in> set (records j) \<Longrightarrow> outstanding r \<Longrightarrow> k = executing"
    and fence_linked: "admits j d executing \<Longrightarrow> \<not> exempt d \<Longrightarrow> d_RecoveryID d \<noteq> [] \<Longrightarrow>
      (k, r) \<in> set (records j) \<Longrightarrow> outstanding r \<Longrightarrow> k \<noteq> executing \<Longrightarrow>
      \<exists>ch. RecoveryChain (links j) (d_RecoveryID d) = Inr ch \<and> k \<in> set ch"
begin

lemma outstanding_one_target:
  assumes adm: "admits j d executing" "\<not> exempt d"
    and k: "(k, r) \<in> set (records j)" "outstanding r" "k \<noteq> executing"
    and k': "(k', r') \<in> set (records j)" "outstanding r'" "k' \<noteq> executing"
    and wf: "wf_map (records j)"
  shows "rl_Target (link r) = rl_Target (link r')"
proof (cases "d_RecoveryID d = []")
  case True
  with fence_unlinked [OF adm True k(1,2)] k(3) show ?thesis by simp
next
  case False
  from fence_linked [OF adm False k] obtain ch where
    ch: "RecoveryChain (links j) (d_RecoveryID d) = Inr ch" "k \<in> set ch" by blast
  with fence_linked [OF adm False k'] have "k' \<in> set ch" by auto
  with ch wf k(1) k'(1) show ?thesis
    by (auto intro: chain_same_target simp: map_of_iff_in_set)
qed

end

end
