(* ===== verification/Store.thy ===== *)
theory Store
  imports Recovery
begin

text \<open>
  The controller's durable store, \<open>internal/store\<close>: a bounded state that is updated by
  copy-on-write transactions. The state, its retention rule \<open>prune\<close>, the transaction \<open>Update\<close> and
  the scoped readers are modelled. The file is modelled by its content: writing it succeeds, fails
  and leaves the old content, or fails after the new content is already in place (the rename
  happened, the directory sync did not). The JSON round trip \<open>clone\<close> is the identity. One reading
  of the clock serves one transaction.
\<close>

section \<open>The state\<close>

record Credential =
  cr_ID :: string
  cr_Name :: string
  cr_Role :: string
  cr_Verifier :: string
  cr_CreatedAt :: time
  cr_ExpiresAt :: time
  cr_Revoked :: bool

record Session =
  se_Verifier :: string
  se_CredentialID :: string
  se_CSRF :: string
  se_ExpiresAt :: time
  se_Purpose :: string

record Audit =
  au_At :: time
  au_Actor :: string
  au_Action :: string
  au_Object :: string
  au_Result :: string

record Idempotency =
  id_PayloadHash :: string
  id_OperationID :: string

record State =
  st_Schema :: int
  st_Mode :: string
  st_Revision :: "64 word"
  st_Credentials :: "Credential gomap"
  st_Sessions :: "Session gomap"
  st_Plans :: "Plan gomap"
  st_Operations :: "Operation gomap"
  st_Idempotency :: "Idempotency gomap"
  st_Audit :: "Audit list"

text \<open>
  \<open>db_Write\<close> is the outcome of replacing the file by the encoding of a state and \<open>db_Size\<close> the
  length of that encoding. A function of the state is general enough: the revision grows with
  every commit and no write follows a failed one, so no state is written twice.
\<close>

datatype write_outcome = Written | NotWritten | WrittenUnconfirmed

record Store =
  db_state :: State
  db_poisoned :: bool
  db_disk :: State
  db_Write :: "State \<Rightarrow> write_outcome"
  db_Size :: "State \<Rightarrow> int"

definition MaxBytes :: int where
  "MaxBytes = 32 * 2 ^ 20"

definition msg_mode_required :: string where
  "msg_mode_required = ''explicit adapter mode required''"

definition msg_state_unreadable :: string where
  "msg_state_unreadable = ''state cannot be read; restore a verified stopped-service backup''"

definition msg_state_mismatch :: string where
  "msg_state_mismatch = ''state schema or demo/live mode mismatch''"

definition msg_state_budget :: string where
  "msg_state_budget = ''state budget exhausted''"

definition msg_write_failed :: string where
  "msg_write_failed = ''state write failed''"

definition msg_storage_disabled :: string where
  "msg_storage_disabled = ''durable storage failed; mutations disabled until recovery''"

definition msg_persistence_failed :: string where
  "msg_persistence_failed = ''durable persistence failed; stop and inspect state before recovery''"


definition NewState :: "string \<Rightarrow> State" where
  "NewState mode = \<lparr>st_Schema = 1, st_Mode = mode, st_Revision = 0, st_Credentials = [],
     st_Sessions = [], st_Plans = [], st_Operations = [], st_Idempotency = [], st_Audit = []\<rparr>"

section \<open>Retention\<close>

definition retention :: int where
  "retention = 30 * 24 * hour"

text \<open>The inner loop: mark a record and its chain of parents.\<close>

function retain_chain :: "Operation gomap \<Rightarrow> string list \<Rightarrow> string \<Rightarrow> string list" where
  "retain_chain ops retained id0 =
     (if id0 = [] \<or> id0 \<in> set retained then retained
      else case map_of ops id0 of
             None \<Rightarrow> id0 # retained
           | Some parent \<Rightarrow> retain_chain ops (id0 # retained) (d_RecoveryID (o_Draft parent)))"
  by pat_completeness auto
termination
proof (relation "measure (\<lambda>(ops, retained, id0). card (fst ` set ops - set retained))", goal_cases)
  case 1
  show ?case by simp
next
  case (2 ops retained id0 parent)
  then have "id0 \<in> fst ` set ops - set retained"
    by (simp add: map_of_in_keys)
  then have "fst ` set ops - set (id0 # retained) \<subset> fst ` set ops - set retained"
    by auto
  then show ?case
    by (simp add: psubset_card_mono)
qed

declare retain_chain.simps [simp del]

definition must_keep :: "time \<Rightarrow> Operation \<Rightarrow> bool" where
  "must_keep now o1 \<longleftrightarrow>
     \<not> Terminal (o_State o1) \<or> o_RecoveryRequired o1 \<or> now - o_UpdatedAt o1 \<le> retention"

definition retained_ids :: "time \<Rightarrow> Operation gomap \<Rightarrow> string list" where
  "retained_ids now ops =
     fold (\<lambda>(id0, o1) kept. if must_keep now o1 then retain_chain ops kept id0 else kept) ops []"

definition prune_operations :: "time \<Rightarrow> Operation gomap \<Rightarrow> Operation gomap" where
  "prune_operations now ops =
     (let kept = retained_ids now ops in
      sift (\<lambda>k o1. \<not> (k \<notin> set kept \<and> Terminal (o_State o1) \<and> \<not> o_RecoveryRequired o1
                        \<and> now - o_UpdatedAt o1 > retention)) ops)"

definition prune :: "time \<Rightarrow> State \<Rightarrow> State" where
  "prune now v =
     (let ops = prune_operations now (st_Operations v) in
      v\<lparr>st_Sessions := sift (\<lambda>k s. \<not> now > se_ExpiresAt s) (st_Sessions v),
        st_Plans := sift (\<lambda>k p. \<not> now > p_ExpiresAt p + hour) (st_Plans v),
        st_Audit := (if length (st_Audit v) > 2000 then drop (length (st_Audit v) - 2000) (st_Audit v)
                     else st_Audit v),
        st_Operations := ops,
        st_Idempotency := sift (\<lambda>k i. id_OperationID i \<in> set (gkeys ops)) (st_Idempotency v)\<rparr>)"

definition Event :: "time \<Rightarrow> string \<Rightarrow> string \<Rightarrow> string \<Rightarrow> string \<Rightarrow> State \<Rightarrow> State" where
  "Event now actor action object result v =
     v\<lparr>st_Audit := st_Audit v @ [\<lparr>au_At = now, au_Actor = actor, au_Action = action,
                                  au_Object = object, au_Result = result\<rparr>]\<rparr>"

section \<open>Transactions\<close>

text \<open>The error of \<open>persist\<close> and the content of the file afterwards.\<close>

definition persist :: "Store \<Rightarrow> State \<Rightarrow> err option \<times> State" where
  "persist db v =
     (if db_Size db v > MaxBytes then (Some (Plain msg_state_budget), db_disk db)
      else case db_Write db v of
             Written \<Rightarrow> (None, v)
           | NotWritten \<Rightarrow> (Some (Plain msg_write_failed), db_disk db)
           | WrittenUnconfirmed \<Rightarrow> (Some (Plain msg_write_failed), v))"

definition commit_state :: "time \<Rightarrow> State \<Rightarrow> State" where
  "commit_state now v = (prune now v)\<lparr>st_Revision := st_Revision v + 1\<rparr>"

definition Update :: "time \<Rightarrow> (State \<Rightarrow> err + State \<times> 'r) \<Rightarrow> Store \<Rightarrow> Store \<times> (err + 'r)" where
  "Update now fn db =
     (if db_poisoned db then (db, Inl (Failure ''storage_unavailable'' msg_storage_disabled))
      else case fn (prune now (db_state db)) of
             Inl e \<Rightarrow> (db, Inl e)
           | Inr (v, r) \<Rightarrow>
               (let v' = commit_state now v in
                case persist db v' of
                  (Some e, disk) \<Rightarrow>
                    (db\<lparr>db_poisoned := True, db_disk := disk\<rparr>,
                     Inl (Failure ''storage_unavailable'' msg_persistence_failed))
                | (None, disk) \<Rightarrow> (db\<lparr>db_state := v', db_disk := disk\<rparr>, Inr r)))"

text \<open>
  \<open>Open\<close> with the outcome of its path, permission and lock checks, and of reading the file:
  absent, unreadable or a decoded state. A decoded state has no nil tables here.
\<close>

definition Open :: "string \<Rightarrow> err option \<Rightarrow> err + State option \<Rightarrow> (State \<Rightarrow> write_outcome) \<Rightarrow> (State \<Rightarrow> int)
    \<Rightarrow> err + Store" where
  "Open mode env file wr sz =
     (if mode \<noteq> ''demo'' \<and> mode \<noteq> ''live'' then Inl (Plain msg_mode_required)
      else case env of
             Some e \<Rightarrow> Inl e
           | None \<Rightarrow>
             (let new_db = (\<lambda>v. \<lparr>db_state = v, db_poisoned = False, db_disk = v, db_Write = wr, db_Size = sz\<rparr>) in
              case file of
                Inl e \<Rightarrow> Inl (Plain msg_state_unreadable)
              | Inr None \<Rightarrow>
                  (case persist (new_db (NewState mode)) (NewState mode) of
                     (Some e, disk) \<Rightarrow> Inl e
                   | (None, disk) \<Rightarrow> Inr (new_db (NewState mode)))
              | Inr (Some v) \<Rightarrow>
                  if st_Schema v \<noteq> 1 \<or> st_Mode v \<noteq> mode then Inl (Plain msg_state_mismatch)
                  else Inr (new_db v)))"

section \<open>Readers\<close>

definition OperationRecords :: "Store \<Rightarrow> Operation gomap" where
  "OperationRecords db = st_Operations (db_state db)"

definition find_operation :: "Store \<Rightarrow> string \<Rightarrow> Operation option" where
  "find_operation db id0 = map_of (st_Operations (db_state db)) id0"

definition find_plan :: "Store \<Rightarrow> string \<Rightarrow> Plan option" where
  "find_plan db id0 = map_of (st_Plans (db_state db)) id0"

definition AuditRecords :: "Store \<Rightarrow> Audit list" where
  "AuditRecords db = st_Audit (db_state db)"

definition Healthy :: "Store \<Rightarrow> bool" where
  "Healthy db \<longleftrightarrow> \<not> db_poisoned db"

definition older_queued :: "Operation \<Rightarrow> Operation option \<Rightarrow> Operation option" where
  "older_queued o1 best =
     (if o_State o1 = ''queued'' \<and> (case best of None \<Rightarrow> True | Some b \<Rightarrow> o_CreatedAt o1 < o_CreatedAt b)
      then Some o1 else best)"

definition OldestQueuedOperation :: "Store \<Rightarrow> Operation option" where
  "OldestQueuedOperation db =
     fold (\<lambda>(k, o1) best. older_queued o1 best) (st_Operations (db_state db)) None"

text \<open>The authentication index copies credentials and sessions only; the rest is the zero state.\<close>

definition AuthState :: "Store \<Rightarrow> State" where
  "AuthState db = (NewState [])\<lparr>st_Schema := 0, st_Credentials := st_Credentials (db_state db),
     st_Sessions := st_Sessions (db_state db)\<rparr>"

record TelemetryOperations =
  t_Queued :: int
  t_Running :: int
  t_RecoveryRequired :: int

fun count_operations :: "Operation gomap \<Rightarrow> TelemetryOperations \<Rightarrow> TelemetryOperations" where
  "count_operations [] out = out"
| "count_operations ((k, o1) # rest) out =
     (let out = (if o_State o1 = ''queued'' then out\<lparr>t_Queued := t_Queued out + 1\<rparr>
                 else if o_State o1 = ''running'' \<or> o_State o1 = ''cancel-requested''
                   then out\<lparr>t_Running := t_Running out + 1\<rparr>
                 else out);
          out = (if o_RecoveryRequired o1 then out\<lparr>t_RecoveryRequired := t_RecoveryRequired out + 1\<rparr> else out)
      in count_operations rest out)"

definition TelemetrySnapshot :: "Store \<Rightarrow> TelemetryOperations \<times> bool" where
  "TelemetrySnapshot db =
     (count_operations (st_Operations (db_state db))
        \<lparr>t_Queued = 0, t_Running = 0, t_RecoveryRequired = 0\<rparr>,
      \<not> db_poisoned db)"

section \<open>What retention keeps\<close>

text \<open>\<open>ancestor ops k a\<close>: following recovery references from \<open>k\<close> leads to \<open>a\<close>.\<close>

inductive ancestor :: "Operation gomap \<Rightarrow> string \<Rightarrow> string \<Rightarrow> bool" for ops where
  self: "k \<noteq> [] \<Longrightarrow> ancestor ops k k"
| parent: "map_of ops k = Some o1 \<Longrightarrow> k \<noteq> [] \<Longrightarrow> ancestor ops (d_RecoveryID (o_Draft o1)) a \<Longrightarrow> ancestor ops k a"

definition parents_marked :: "Operation gomap \<Rightarrow> string list \<Rightarrow> string \<Rightarrow> bool" where
  "parents_marked ops kept pending \<longleftrightarrow>
     (\<forall>k \<in> set kept. \<forall>o1. map_of ops k = Some o1 \<longrightarrow>
        d_RecoveryID (o_Draft o1) = [] \<or> d_RecoveryID (o_Draft o1) \<in> set kept \<or> d_RecoveryID (o_Draft o1) = pending)"

lemma retain_chain_marks:
  "set kept \<subseteq> set (retain_chain ops kept id0) \<and> (id0 \<noteq> [] \<longrightarrow> id0 \<in> set (retain_chain ops kept id0))"
proof (induction ops kept id0 rule: retain_chain.induct)
  case (1 ops kept id0)
  then show ?case
    by (subst (1 2) retain_chain.simps) (auto split: option.splits)
qed

lemma retain_chain_parents:
  "parents_marked ops kept id0 \<Longrightarrow> parents_marked ops (retain_chain ops kept id0) []"
proof (induction ops kept id0 rule: retain_chain.induct)
  case (1 ops kept id0)
  show ?case
  proof (cases "id0 = [] \<or> id0 \<in> set kept")
    case True
    with "1.prems" show ?thesis
      by (subst retain_chain.simps) (auto simp: parents_marked_def)
  next
    case False
    show ?thesis
    proof (cases "map_of ops id0")
      case None
      with False "1.prems" show ?thesis
        by (subst retain_chain.simps) (auto simp: parents_marked_def)
    next
      case (Some o1)
      have "parents_marked ops (id0 # kept) (d_RecoveryID (o_Draft o1))"
        using "1.prems" Some by (auto simp: parents_marked_def)
      with "1.IH" [OF False Some] False Some show ?thesis
        by (subst retain_chain.simps) simp
    qed
  qed
qed

lemma retain_chain_only:
  "a \<in> set (retain_chain ops kept id0) \<Longrightarrow> a \<in> set kept \<or> ancestor ops id0 a"
proof (induction ops kept id0 rule: retain_chain.induct)
  case (1 ops kept id0)
  show ?case
  proof (cases "id0 = [] \<or> id0 \<in> set kept")
    case True
    with "1.prems" show ?thesis by (subst (asm) retain_chain.simps) simp
  next
    case False
    show ?thesis
    proof (cases "map_of ops id0")
      case None
      with False "1.prems" show ?thesis
        by (subst (asm) retain_chain.simps) (auto intro: ancestor.self)
    next
      case (Some o1)
      with False "1.prems" have "a \<in> set (retain_chain ops (id0 # kept) (d_RecoveryID (o_Draft o1)))"
        by (subst (asm) retain_chain.simps) simp
      from "1.IH" [OF False Some this] Some False show ?thesis
        by (auto intro: ancestor.intros)
    qed
  qed
qed

lemma ancestor_marked:
  "ancestor ops k a \<Longrightarrow> parents_marked ops kept [] \<Longrightarrow> k \<in> set kept \<Longrightarrow> a \<in> set kept"
proof (induction rule: ancestor.induct)
  case (parent k o1 a)
  have "d_RecoveryID (o_Draft o1) \<noteq> []"
    using parent.hyps(3) by (cases rule: ancestor.cases) auto
  with parent show ?case by (auto simp: parents_marked_def)
qed

lemma retained_fold:
  assumes "parents_marked ops kept []"
  shows "parents_marked ops (fold (\<lambda>(id0, o1) kept. if must_keep now o1 then retain_chain ops kept id0 else kept) xs kept) []
    \<and> (a \<in> set (fold (\<lambda>(id0, o1) kept. if must_keep now o1 then retain_chain ops kept id0 else kept) xs kept) \<longleftrightarrow>
       a \<in> set kept \<or> (\<exists>k o1. (k, o1) \<in> set xs \<and> must_keep now o1 \<and> ancestor ops k a))"
  using assms
proof (induction xs arbitrary: kept)
  case Nil
  then show ?case by simp
next
  case (Cons x xs)
  obtain k o1 where x: "x = (k, o1)" by (cases x)
  show ?case
  proof (cases "must_keep now o1")
    case False
    with Cons x show ?thesis by auto
  next
    case True
    let ?kept = "retain_chain ops kept k"
    have pm: "parents_marked ops ?kept []"
      using Cons.prems by (intro retain_chain_parents) (auto simp: parents_marked_def)
    have "a \<in> set ?kept \<longleftrightarrow> a \<in> set kept \<or> ancestor ops k a"
    proof
      assume "a \<in> set ?kept" then show "a \<in> set kept \<or> ancestor ops k a" by (rule retain_chain_only)
    next
      assume "a \<in> set kept \<or> ancestor ops k a"
      then show "a \<in> set ?kept"
      proof
        assume "a \<in> set kept" then show ?thesis using retain_chain_marks by blast
      next
        assume anc: "ancestor ops k a"
        then have "k \<noteq> []" by (cases rule: ancestor.cases) auto
        then have "k \<in> set ?kept" using retain_chain_marks by blast
        with anc pm show ?thesis by (rule ancestor_marked)
      qed
    qed
    with Cons.IH [OF pm] x True show ?thesis by auto
  qed
qed

lemma retained_ids_iff:
  "a \<in> set (retained_ids now ops) \<longleftrightarrow> (\<exists>k o1. (k, o1) \<in> set ops \<and> must_keep now o1 \<and> ancestor ops k a)"
  unfolding retained_ids_def
  using retained_fold [of ops "[]" now ops a] by (simp add: parents_marked_def)

lemma retained_ids_parents: "parents_marked ops (retained_ids now ops) []"
  unfolding retained_ids_def by (rule retained_fold [THEN conjunct1]) (simp add: parents_marked_def)

lemma wf_prune_operations [simp]: "wf_map ops \<Longrightarrow> wf_map (prune_operations now ops)"
  by (simp add: prune_operations_def Let_def)

lemma prune_operations_lookup:
  assumes "wf_map ops"
  shows "map_of (prune_operations now ops) k = Some o1 \<longleftrightarrow>
    map_of ops k = Some o1 \<and> (must_keep now o1 \<or> k \<in> set (retained_ids now ops))"
  unfolding prune_operations_def Let_def gomap.retain_Some [OF assms] must_keep_def
  by (auto simp: not_le)

text \<open>With non-empty keys, a record survives exactly if it leads to no further record or a kept one needs it.\<close>

definition keyed :: "Operation gomap \<Rightarrow> bool" where
  "keyed ops \<longleftrightarrow> wf_map ops \<and> (\<forall>(k, o1) \<in> set ops. o_ID o1 = k \<and> k \<noteq> [])"

lemma keyed_lookup: "keyed ops \<Longrightarrow> map_of ops k = Some o1 \<Longrightarrow> o_ID o1 = k \<and> k \<noteq> []"
  by (auto simp: keyed_def map_of_iff_in_set)

lemma must_keep_retained:
  assumes "keyed ops" and "map_of ops k = Some o1" and "must_keep now o1"
  shows "k \<in> set (retained_ids now ops)"
proof -
  have "ancestor ops k k" using keyed_lookup [OF assms(1,2)] by (simp add: ancestor.self)
  then show ?thesis using assms(2,3) unfolding retained_ids_iff by (blast dest: map_of_SomeD)
qed

lemma prune_operations_iff:
  assumes "keyed ops"
  shows "map_of (prune_operations now ops) k = Some o1 \<longleftrightarrow>
    map_of ops k = Some o1 \<and> (\<exists>k' o2. map_of ops k' = Some o2 \<and> must_keep now o2 \<and> ancestor ops k' k)"
proof -
  have wf: "wf_map ops" using assms by (simp add: keyed_def)
  have "(must_keep now o1 \<or> k \<in> set (retained_ids now ops)) = (k \<in> set (retained_ids now ops))"
    if "map_of ops k = Some o1"
    using must_keep_retained [OF assms that] by blast
  then show ?thesis
    unfolding prune_operations_lookup [OF wf] retained_ids_iff map_of_iff_in_set [OF wf] by blast
qed

lemma prune_operations_parent:
  assumes "keyed ops" and "map_of (prune_operations now ops) k = Some o1"
    and "map_of ops (d_RecoveryID (o_Draft o1)) = Some o2"
  shows "map_of (prune_operations now ops) (d_RecoveryID (o_Draft o1)) = Some o2"
proof -
  have wf: "wf_map ops" using assms(1) by (simp add: keyed_def)
  have "k \<in> set (retained_ids now ops)"
    using assms(2) must_keep_retained [OF assms(1)] by (auto simp: prune_operations_lookup [OF wf])
  moreover have "map_of ops k = Some o1" using assms(2) by (simp add: prune_operations_lookup [OF wf])
  moreover have "d_RecoveryID (o_Draft o1) \<noteq> []" using keyed_lookup [OF assms(1,3)] by simp
  ultimately have "d_RecoveryID (o_Draft o1) \<in> set (retained_ids now ops)"
    using retained_ids_parents [of ops now] by (auto simp: parents_marked_def)
  with assms(3) show ?thesis by (simp add: prune_operations_lookup [OF wf])
qed

lemma ancestor_pruned:
  assumes "keyed ops"
  shows "ancestor ops k a \<Longrightarrow> map_of (prune_operations now ops) k = Some o1 \<Longrightarrow>
    ancestor (prune_operations now ops) k a"
proof (induction arbitrary: o1 rule: ancestor.induct)
  case (self k)
  then show ?case by (rule_tac ancestor.self)
next
  case (parent k o2 a)
  have wf: "wf_map ops" using assms by (simp add: keyed_def)
  from parent.prems parent.hyps(1) have k: "map_of (prune_operations now ops) k = Some o2"
    by (simp add: prune_operations_lookup [OF wf])
  show ?case
  proof (cases "map_of ops (d_RecoveryID (o_Draft o2))")
    case (Some o3)
    from prune_operations_parent [OF assms k Some] parent.IH
    have "ancestor (prune_operations now ops) (d_RecoveryID (o_Draft o2)) a" by blast
    with k parent.hyps(2) show ?thesis by (rule ancestor.parent)
  next
    case None
    with parent.hyps(3) have "a = d_RecoveryID (o_Draft o2)" and "a \<noteq> []"
      by (auto elim: ancestor.cases)
    with k parent.hyps(2) show ?thesis by (auto intro: ancestor.intros)
  qed
qed

lemma keyed_prune: "keyed ops \<Longrightarrow> keyed (prune_operations now ops)"
  by (auto simp: keyed_def prune_operations_def Let_def set_sift)

lemma must_keep_pruned:
  assumes "keyed ops" and "map_of ops k = Some o1" and "must_keep now o1"
  shows "map_of (prune_operations now ops) k = Some o1"
  using assms by (simp add: keyed_def prune_operations_lookup)

lemma sift_all: "(\<And>k v. (k, v) \<in> set m \<Longrightarrow> P k v) \<Longrightarrow> sift P m = m"
  by (auto simp: sift_def intro: filter_True)

lemma prune_operations_idem:
  assumes "keyed ops"
  shows "prune_operations now (prune_operations now ops) = prune_operations now ops"
proof -
  let ?p = "prune_operations now ops"
  have kp: "keyed ?p" using assms by (rule keyed_prune)
  have "k \<in> set (retained_ids now ?p)" if k: "(k, o1) \<in> set ?p" for k o1
  proof -
    have "map_of ?p k = Some o1" using k kp by (simp add: keyed_def map_of_iff_in_set)
    then obtain k' o2 where k': "map_of ops k' = Some o2" "must_keep now o2" "ancestor ops k' k"
      unfolding prune_operations_iff [OF assms] by blast
    have "map_of ?p k' = Some o2" using assms k'(1,2) by (rule must_keep_pruned)
    with ancestor_pruned [OF assms k'(3) this] k'(2) show ?thesis
      unfolding retained_ids_iff by (blast dest: map_of_SomeD)
  qed
  then show ?thesis
    unfolding prune_operations_def [of now ?p] Let_def by (intro sift_all) blast
qed

section \<open>The state invariant\<close>

definition wf_state :: "State \<Rightarrow> bool" where
  "wf_state v \<longleftrightarrow> wf_map (st_Credentials v) \<and> wf_map (st_Sessions v) \<and> wf_map (st_Plans v) \<and>
     keyed (st_Operations v) \<and> wf_map (st_Idempotency v)"

lemma wf_prune: "wf_state v \<Longrightarrow> wf_state (prune now v)"
  by (simp add: wf_state_def prune_def Let_def keyed_prune)

lemma prune_simps [simp]:
  "st_Schema (prune now v) = st_Schema v" "st_Mode (prune now v) = st_Mode v"
  "st_Revision (prune now v) = st_Revision v" "st_Credentials (prune now v) = st_Credentials v"
  "st_Operations (prune now v) = prune_operations now (st_Operations v)"
  by (simp_all add: prune_def Let_def)

lemma prune_sessions: "st_Sessions (prune now v) = sift (\<lambda>k s. \<not> now > se_ExpiresAt s) (st_Sessions v)"
  by (simp add: prune_def Let_def)

lemma prune_idempotency_known:
  assumes "wf_state v" and "map_of (st_Idempotency (prune now v)) k = Some i"
  shows "\<exists>o1. map_of (st_Operations (prune now v)) (id_OperationID i) = Some o1"
proof -
  have "id_OperationID i \<in> fst ` set (prune_operations now (st_Operations v))"
    using assms by (simp add: wf_state_def prune_def Let_def gomap.retain_Some)
  then show ?thesis
    by (metis dom_map_of_conv_image_fst domD prune_simps(5))
qed

lemma sift_sift [simp]: "sift P (sift P m) = sift P m"
  by (simp add: sift_def)

lemma prune_audit_length: "length (st_Audit (prune now v)) \<le> 2000"
  by (simp add: prune_def Let_def)

lemma prune_idem:
  assumes "wf_state v"
  shows "prune now (prune now v) = prune now v"
proof -
  have ops: "prune_operations now (prune_operations now (st_Operations v)) = prune_operations now (st_Operations v)"
    using assms by (simp add: wf_state_def prune_operations_idem)
  have audit: "\<not> length (st_Audit (prune now v)) > 2000"
    using prune_audit_length [of now v] by simp
  show ?thesis
    using ops audit by (simp add: prune_def Let_def)
qed

section \<open>Transactions as an interface\<close>

text \<open>
  What a client of a store relies on: a failed transaction leaves the visible state as it was,
  a successful one shows the body's result on the normalised state, normalised again.
\<close>

locale transactional =
  fixes view :: "'s \<Rightarrow> 'v"
    and transact :: "time \<Rightarrow> ('v \<Rightarrow> err + 'v \<times> 'r) \<Rightarrow> 's \<Rightarrow> 's \<times> (err + 'r)"
    and normal :: "time \<Rightarrow> 'v \<Rightarrow> 'v"
    and seal :: "time \<Rightarrow> 'v \<Rightarrow> 'v"
  assumes aborted: "snd (transact now fn s) = Inl e \<Longrightarrow> view (fst (transact now fn s)) = view s"
    and committed: "snd (transact now fn s) = Inr r \<Longrightarrow>
      \<exists>v. fn (normal now (view s)) = Inr (v, r) \<and> view (fst (transact now fn s)) = seal now v"
begin

lemma keeps_invariant:
  assumes "I (view s)"
    and "\<And>v. I v \<Longrightarrow> I (normal now v)" and "\<And>v. I v \<Longrightarrow> I (seal now v)"
    and "\<And>v v' r. I v \<Longrightarrow> fn v = Inr (v', r) \<Longrightarrow> I v'"
  shows "I (view (fst (transact now fn s)))"
proof (cases "snd (transact now fn s)")
  case (Inl e)
  with aborted assms(1) show ?thesis by metis
next
  case (Inr r)
  with committed [OF Inr] assms show ?thesis by metis
qed

lemma body_failure:
  "fn (normal now (view s)) = Inl e \<Longrightarrow> \<exists>e'. snd (transact now fn s) = Inl e'"
  using committed [of now fn s] by (cases "snd (transact now fn s)") auto

end

interpretation db: transactional db_state Update prune commit_state
proof unfold_locales
  fix now :: time and fn :: "State \<Rightarrow> err + State \<times> 'r" and s :: Store and e :: err
  show "snd (Update now fn s) = Inl e \<Longrightarrow> db_state (fst (Update now fn s)) = db_state s"
    by (auto simp: Update_def Let_def split: if_splits sum.splits prod.splits option.splits)
next
  fix now :: time and fn :: "State \<Rightarrow> err + State \<times> 'r" and s :: Store and r :: 'r
  show "snd (Update now fn s) = Inr r \<Longrightarrow>
     \<exists>v. fn (prune now (db_state s)) = Inr (v, r) \<and> db_state (fst (Update now fn s)) = commit_state now v"
    by (auto simp: Update_def Let_def split: if_splits sum.splits prod.splits option.splits)
qed

lemma wf_commit: "wf_state v \<Longrightarrow> wf_state (commit_state now v)"
  using wf_prune [of v now] by (simp add: commit_state_def wf_state_def)

lemma Update_wf:
  assumes "wf_state (db_state s)" and "\<And>v v' r. wf_state v \<Longrightarrow> fn v = Inr (v', r) \<Longrightarrow> wf_state v'"
  shows "wf_state (db_state (fst (Update now fn s)))"
  by (rule db.keeps_invariant [where I = wf_state, OF assms(1) wf_prune wf_commit assms(2)])

text \<open>The three outcomes of a transaction, with the poisoning flag and the file.\<close>

lemma Update_cases:
  obtains (poisoned) "db_poisoned s" "Update now fn s = (s, Inl (Failure ''storage_unavailable'' msg_storage_disabled))"
  | (refused) e where "\<not> db_poisoned s" "fn (prune now (db_state s)) = Inl e" "Update now fn s = (s, Inl e)"
  | (unwritten) v r disk where "\<not> db_poisoned s" "fn (prune now (db_state s)) = Inr (v, r)"
      "disk = db_disk s \<or> disk = commit_state now v"
      "Update now fn s = (s\<lparr>db_poisoned := True, db_disk := disk\<rparr>,
         Inl (Failure ''storage_unavailable'' msg_persistence_failed))"
  | (committed) v r where "\<not> db_poisoned s" "fn (prune now (db_state s)) = Inr (v, r)"
      "Update now fn s = (s\<lparr>db_state := commit_state now v, db_disk := commit_state now v\<rparr>, Inr r)"
proof (cases "db_poisoned s")
  case True
  with poisoned show ?thesis by (simp add: Update_def)
next
  case healthy: False
  show ?thesis
  proof (cases "fn (prune now (db_state s))")
    case (Inl e)
    with healthy refused show ?thesis by (simp add: Update_def)
  next
    case (Inr vr)
    obtain v r where vr: "vr = (v, r)" by (cases vr)
    obtain e disk where p: "persist s (commit_state now v) = (e, disk)" by (cases "persist s (commit_state now v)")
    have disk: "(e = None \<longrightarrow> disk = commit_state now v) \<and> (disk = db_disk s \<or> disk = commit_state now v)"
      using p by (auto simp: persist_def split: if_splits write_outcome.splits)
    show ?thesis
    proof (cases e)
      case None
      with committed healthy Inr vr p disk show ?thesis by (simp add: Update_def Let_def)
    next
      case (Some e')
      with unwritten [of v r disk] healthy Inr vr p disk show ?thesis by (simp add: Update_def Let_def)
    qed
  qed
qed

lemma Update_error_keeps_state:
  "snd (Update now fn s) = Inl e \<Longrightarrow> db_state (fst (Update now fn s)) = db_state s"
  by (rule db.aborted)

lemma MaxBytes_nonneg [simp]: "\<not> MaxBytes < 0"
  by (simp add: MaxBytes_def)

lemma Update_static [simp]:
  "db_Write (fst (Update now fn s)) = db_Write s" "db_Size (fst (Update now fn s)) = db_Size s"
  by (rule Update_cases [of s now fn]; simp)+

section \<open>The scheduler's choice\<close>

lemma older_queued_fold:
  assumes "\<And>b. best = Some b \<Longrightarrow> o_State b = ''queued''"
    and "fold (\<lambda>(k, o1) best. older_queued o1 best) ops best = res"
  shows "(res = None \<longleftrightarrow> best = None \<and> (\<forall>(k, o1) \<in> set ops. o_State o1 \<noteq> ''queued'')) \<and>
    (\<forall>b. res = Some b \<longrightarrow> o_State b = ''queued'' \<and> (best = Some b \<or> b \<in> snd ` set ops) \<and>
       (\<forall>b'. best = Some b' \<longrightarrow> o_CreatedAt b \<le> o_CreatedAt b') \<and>
       (\<forall>(k, o1) \<in> set ops. o_State o1 = ''queued'' \<longrightarrow> o_CreatedAt b \<le> o_CreatedAt o1))"
  using assms
proof (induction ops arbitrary: best)
  case Nil
  then show ?case by auto
next
  case (Cons x ops)
  obtain k o1 where x: "x = (k, o1)" by (cases x)
  have q: "\<And>b. older_queued o1 best = Some b \<Longrightarrow> o_State b = ''queued''"
    using Cons.prems(1) by (auto simp: older_queued_def split: if_splits)
  have r: "fold (\<lambda>(k, o1) best. older_queued o1 best) ops (older_queued o1 best) = res"
    using Cons.prems(2) x by simp
  show ?case
    using Cons.IH [OF q r] unfolding x older_queued_def
    by (cases best) (fastforce split: if_splits)+
qed

lemma OldestQueued_Some:
  assumes "OldestQueuedOperation s = Some b"
  shows "o_State b = ''queued'' \<and> b \<in> snd ` set (OperationRecords s) \<and>
    (\<forall>(k, o1) \<in> set (OperationRecords s). o_State o1 = ''queued'' \<longrightarrow> o_CreatedAt b \<le> o_CreatedAt o1)"
  using older_queued_fold [of None "OperationRecords s" "OldestQueuedOperation s"] assms
  by (simp add: OldestQueuedOperation_def OperationRecords_def)

lemma OldestQueued_None:
  "OldestQueuedOperation s = None \<longleftrightarrow> (\<forall>(k, o1) \<in> set (OperationRecords s). o_State o1 \<noteq> ''queued'')"
  using older_queued_fold [of None "OperationRecords s" "OldestQueuedOperation s"]
  by (simp add: OldestQueuedOperation_def OperationRecords_def)

end
