(* ===== verification/Auth.thy ===== *)
theory Auth
  imports Store
begin

text \<open>
  Credentials and browser sessions, \<open>internal/auth\<close>, and the offline administration of
  \<open>internal/admin\<close>. Secrets and identifiers come from the system's random source and are
  arguments; the SHA-256 verifier of a secret is the parameter \<open>V\<close>. The constant-time comparison
  of two verifiers is their equality.
\<close>

record Actor =
  ac_ID :: string
  ac_Name :: string
  ac_Role :: string

record CredentialInfo =
  ci_ID :: string
  ci_Name :: string
  ci_Role :: string
  ci_CreatedAt :: time
  ci_ExpiresAt :: time
  ci_Revoked :: bool

definition msg_name_length :: string where
  "msg_name_length = ''credential name must be 1..80 characters''"

definition msg_name_control :: string where
  "msg_name_control = ''credential name contains control characters''"

definition msg_role :: string where
  "msg_role = ''role must be owner, operator or viewer''"

definition msg_ttl :: string where
  "msg_ttl = ''credential TTL must be 1 minute..90 days''"

definition msg_unauthorized :: string where
  "msg_unauthorized = ''invalid or expired credential''"

definition msg_session_expired :: string where
  "msg_session_expired = ''browser session expired; sign in again''"

definition msg_session_credential :: string where
  "msg_session_credential = ''browser credential revoked or expired''"

definition msg_session_policy :: string where
  "msg_session_policy = ''browser session policy is unavailable''"

definition msg_session_capacity :: string where
  "msg_session_capacity = ''browser session capacity reached; revoke old sessions''"

definition msg_admin_uid :: string where
  "msg_admin_uid = ''offline administration requires root or the policy's explicit owner UID''"

definition msg_admin_unknown :: string where
  "msg_admin_unknown = ''credential ID does not exist''"

definition msg_admin_action :: string where
  "msg_admin_action = ''admin action must be bootstrap, recover, issue, list or revoke''"

definition msg_admin_bootstrapped :: string where
  "msg_admin_bootstrapped = ''owner already bootstrapped; use explicit stopped-service recovery''"

definition msg_admin_bootstrap_first :: string where
  "msg_admin_bootstrap_first = ''bootstrap an owner first''"

definition msg_admin_capacity :: string where
  "msg_admin_capacity = ''credential capacity reached; use local recovery to reset expired history''"

definition msg_admin_activation :: string where
  "msg_admin_activation = ''credential activation failed; output file may exist but must not be used; inspect stopped-service state''"


definition Info :: "Credential \<Rightarrow> CredentialInfo" where
  "Info c = \<lparr>ci_ID = cr_ID c, ci_Name = cr_Name c, ci_Role = cr_Role c, ci_CreatedAt = cr_CreatedAt c,
     ci_ExpiresAt = cr_ExpiresAt c, ci_Revoked = cr_Revoked c\<rparr>"

definition actor_of :: "Credential \<Rightarrow> Actor" where
  "actor_of c = \<lparr>ac_ID = cr_ID c, ac_Name = cr_Name c, ac_Role = cr_Role c\<rparr>"

definition NewCredential ::
    "(string \<Rightarrow> string) \<Rightarrow> time \<Rightarrow> string \<Rightarrow> string \<Rightarrow> string \<Rightarrow> string \<Rightarrow> int \<Rightarrow> err + Credential \<times> string" where
  "NewCredential V now new_id token name role ttl =
     (case first_fail
        [(length name < 1 \<or> length name > 80, Plain msg_name_length),
         (list_ex (\<lambda>c. (of_char c :: nat) < 32 \<or> (of_char c :: nat) = 127) name, Plain msg_name_control),
         (role \<noteq> ''owner'' \<and> role \<noteq> ''operator'' \<and> role \<noteq> ''viewer'', Plain msg_role),
         (ttl < minute \<or> ttl > 90 * 24 * hour, Plain msg_ttl)] of
        Some e \<Rightarrow> Inl e
      | None \<Rightarrow> Inr (\<lparr>cr_ID = new_id, cr_Name = name, cr_Role = role, cr_Verifier = V token,
                       cr_CreatedAt = now, cr_ExpiresAt = now + ttl, cr_Revoked = False\<rparr>, token))"

definition bearer_matches :: "(string \<Rightarrow> string) \<Rightarrow> time \<Rightarrow> string \<Rightarrow> Credential \<Rightarrow> bool" where
  "bearer_matches V now token c \<longleftrightarrow> V token = cr_Verifier c \<and> \<not> cr_Revoked c \<and> now < cr_ExpiresAt c"

definition Bearer :: "(string \<Rightarrow> string) \<Rightarrow> time \<Rightarrow> State \<Rightarrow> string \<Rightarrow> err + Actor" where
  "Bearer V now s token =
     (if length token \<noteq> 43 then Inl (Failure ''unauthorized'' msg_unauthorized)
      else case find (bearer_matches V now token) (map snd (st_Credentials s)) of
             Some c \<Rightarrow> Inr (actor_of c)
           | None \<Rightarrow> Inl (Failure ''unauthorized'' msg_unauthorized))"

definition Session_of :: "(string \<Rightarrow> string) \<Rightarrow> time \<Rightarrow> State \<Rightarrow> string \<Rightarrow> string \<Rightarrow> err + Actor \<times> Session" where
  "Session_of V now s token purpose =
     (if length token \<noteq> 43 \<or> purpose = [] then Inl (Failure ''unauthorized'' msg_session_expired)
      else case map_of (st_Sessions s) (V token) of
             None \<Rightarrow> Inl (Failure ''unauthorized'' msg_session_expired)
           | Some ses \<Rightarrow>
               if se_Purpose ses \<noteq> purpose \<or> now > se_ExpiresAt ses
               then Inl (Failure ''unauthorized'' msg_session_expired)
               else case map_of (st_Credentials s) (se_CredentialID ses) of
                      None \<Rightarrow> Inl (Failure ''unauthorized'' msg_session_credential)
                    | Some c \<Rightarrow>
                        if cr_Revoked c \<or> now > cr_ExpiresAt c
                        then Inl (Failure ''unauthorized'' msg_session_credential)
                        else Inr (actor_of c, ses))"

text \<open>
  The body of the login transaction. The lookup of the credential by the actor's identity yields
  the zero value where the key is absent, with the zero instant as its expiry.
\<close>

definition login_txn ::
    "(string \<Rightarrow> string) \<Rightarrow> time \<Rightarrow> string \<Rightarrow> string \<Rightarrow> string \<Rightarrow> string \<Rightarrow> State \<Rightarrow> err + State \<times> (Actor \<times> Session)" where
  "login_txn V now credential purpose token csrf s =
     (case Bearer V now s credential of
        Inl e \<Rightarrow> Inl e
      | Inr a \<Rightarrow>
          if length (st_Sessions s) \<ge> 128 then Inl (Failure ''capacity'' msg_session_capacity)
          else
            (let exp0 = (case map_of (st_Credentials s) (ac_ID a) of None \<Rightarrow> zero_time | Some c \<Rightarrow> cr_ExpiresAt c);
                 expires = (if exp0 < now + 30 * minute then exp0 else now + 30 * minute);
                 ses = \<lparr>se_Verifier = V token, se_CredentialID = ac_ID a, se_CSRF = csrf,
                        se_ExpiresAt = expires, se_Purpose = purpose\<rparr>
             in Inr (Event now (ac_ID a) ''login'' (ac_ID a) ''succeeded''
                       (s\<lparr>st_Sessions := AList.update (se_Verifier ses) ses (st_Sessions s)\<rparr>), (a, ses))))"

definition Login ::
    "(string \<Rightarrow> string) \<Rightarrow> time \<Rightarrow> Store \<Rightarrow> string \<Rightarrow> string \<Rightarrow> string \<Rightarrow> string \<Rightarrow> Store \<times> (err + Actor \<times> Session)" where
  "Login V now db credential purpose token csrf =
     (if purpose = [] then (db, Inl (Failure ''unauthorized'' msg_session_policy))
      else case Bearer V now (AuthState db) credential of
             Inl e \<Rightarrow> (db, Inl e)
           | Inr _ \<Rightarrow> Update now (login_txn V now credential purpose token csrf) db)"

section \<open>Offline administration\<close>

definition Authorized :: "int \<Rightarrow> int \<Rightarrow> bool" where
  "Authorized uid owner \<longleftrightarrow> uid = 0 \<or> uid = owner"

definition revoke_txn :: "time \<Rightarrow> string \<Rightarrow> State \<Rightarrow> err + State \<times> unit" where
  "revoke_txn now name s =
     (case map_of (st_Credentials s) name of
        None \<Rightarrow> Inl (Plain msg_admin_unknown)
      | Some cr \<Rightarrow>
          Inr (Event now ''local-owner'' ''credential.revoke'' name ''succeeded''
            (s\<lparr>st_Credentials := AList.update name (cr\<lparr>cr_Revoked := True\<rparr>) (st_Credentials s),
               st_Sessions := sift (\<lambda>k ses. se_CredentialID ses \<noteq> name) (st_Sessions s)\<rparr>), ()))"

definition activate_txn :: "time \<Rightarrow> string \<Rightarrow> Credential \<Rightarrow> State \<Rightarrow> err + State \<times> unit" where
  "activate_txn now action cr s =
     (if length (st_Credentials s) \<ge> 128 \<and> action \<noteq> ''recover'' then Inl (Plain msg_admin_capacity)
      else
        (let s = (if action = ''recover'' then s\<lparr>st_Credentials := [], st_Sessions := []\<rparr> else s)
         in Inr (Event now ''local-owner'' (''credential.'' @ action) (cr_ID cr) ''succeeded''
              (s\<lparr>st_Credentials := AList.update (cr_ID cr) cr (st_Credentials s)\<rparr>), ())))"

datatype admin_result = Credentials "CredentialInfo list" | Revoked string | Issued CredentialInfo

text \<open>
  \<open>Run\<close> on an opened store. \<open>secret\<close> is the outcome of creating the credential file; the
  configuration is loaded and its owner UID known.
\<close>

definition Run ::
    "(string \<Rightarrow> string) \<Rightarrow> time \<Rightarrow> int \<Rightarrow> int \<Rightarrow> err option \<Rightarrow> string \<Rightarrow> string
     \<Rightarrow> string \<Rightarrow> string \<Rightarrow> string \<Rightarrow> int \<Rightarrow> Store \<Rightarrow> Store \<times> (err + admin_result)" where
  "Run V now uid owner secret new_id token action role name ttl db =
     (let creds = st_Credentials (db_state db) in
      if \<not> Authorized uid owner then (db, Inl (Plain msg_admin_uid))
      else if action = ''list''
        then (db, Inr (Credentials (sort_key ci_CreatedAt (map (Info \<circ> snd) creds))))
      else if action = ''revoke''
        then (case Update now (revoke_txn now name) db of
                (db', Inl e) \<Rightarrow> (db', Inl e)
              | (db', Inr _) \<Rightarrow> (db', Inr (Revoked name)))
      else if action \<noteq> ''bootstrap'' \<and> action \<noteq> ''recover'' \<and> action \<noteq> ''issue''
        then (db, Inl (Plain msg_admin_action))
      else if action = ''bootstrap'' \<and> length creds \<noteq> 0 then (db, Inl (Plain msg_admin_bootstrapped))
      else if action = ''issue'' \<and> length creds = 0 then (db, Inl (Plain msg_admin_bootstrap_first))
      else
        (let reset = action = ''bootstrap'' \<or> action = ''recover'';
             role = (if reset then ''owner'' else role);
             name = (if reset \<and> name = [] then ''local-owner'' else name)
         in case NewCredential V now new_id token name role ttl of
              Inl e \<Rightarrow> (db, Inl e)
            | Inr (cr, tok) \<Rightarrow>
                (case secret of
                   Some e \<Rightarrow> (db, Inl e)
                 | None \<Rightarrow>
                     (case Update now (activate_txn now action cr) db of
                        (db', Inl e) \<Rightarrow> (db', Inl (Plain msg_admin_activation))
                      | (db', Inr _) \<Rightarrow> (db', Inr (Issued (Info cr)))))))"

section \<open>Facts\<close>

text \<open>Credentials are stored under their own identity.\<close>

definition credentials_keyed :: "State \<Rightarrow> bool" where
  "credentials_keyed s \<longleftrightarrow> wf_map (st_Credentials s) \<and> (\<forall>(k, c) \<in> set (st_Credentials s). cr_ID c = k)"

lemma Bearer_sound:
  assumes "Bearer V now s token = Inr a"
  shows "\<exists>k c. (k, c) \<in> set (st_Credentials s) \<and> a = actor_of c \<and> bearer_matches V now token c \<and> length token = 43"
  using assms
  by (auto simp: Bearer_def find_Some_iff in_set_conv_nth split: if_splits option.splits)
    (metis nth_mem surjective_pairing)

lemma Session_of_sound:
  assumes "Session_of V now s token purpose = Inr (a, ses)"
  shows "map_of (st_Sessions s) (V token) = Some ses \<and> se_Purpose ses = purpose \<and> now \<le> se_ExpiresAt ses \<and>
    (\<exists>c. map_of (st_Credentials s) (se_CredentialID ses) = Some c \<and> \<not> cr_Revoked c \<and> now \<le> cr_ExpiresAt c \<and> a = actor_of c)"
  using assms by (auto simp: Session_of_def split: if_splits option.splits)

lemma prune_session_lookup:
  "wf_state v \<Longrightarrow> map_of (st_Sessions (prune now v)) k = Some s \<longleftrightarrow> map_of (st_Sessions v) k = Some s \<and> now \<le> se_ExpiresAt s"
  by (auto simp: prune_sessions wf_state_def gomap.retain_Some)

lemma Event_simps [simp]:
  "st_Credentials (Event now a b c d v) = st_Credentials v" "st_Sessions (Event now a b c d v) = st_Sessions v"
  "st_Plans (Event now a b c d v) = st_Plans v" "st_Operations (Event now a b c d v) = st_Operations v"
  "st_Idempotency (Event now a b c d v) = st_Idempotency v" "st_Revision (Event now a b c d v) = st_Revision v"
  "st_Mode (Event now a b c d v) = st_Mode v" "st_Schema (Event now a b c d v) = st_Schema v"
  by (simp_all add: Event_def)

lemma wf_Event [simp]: "wf_state (Event now a b c d v) = wf_state v"
  by (simp add: wf_state_def)

lemma commit_credentials [simp]: "st_Credentials (commit_state now v) = st_Credentials v"
  by (simp add: commit_state_def)

lemma commit_session_lookup:
  "wf_state v \<Longrightarrow> map_of (st_Sessions (commit_state now v)) k = Some s \<longleftrightarrow>
     map_of (st_Sessions v) k = Some s \<and> now \<le> se_ExpiresAt s"
  by (simp add: commit_state_def prune_session_lookup)

lemma credentials_keyed_lookup: "credentials_keyed s \<Longrightarrow> (k, c) \<in> set (st_Credentials s) \<Longrightarrow>
    map_of (st_Credentials s) (cr_ID c) = Some c"
  by (auto simp: credentials_keyed_def map_of_iff_in_set)

lemma Update_success:
  assumes "Update now fn s = (s', Inr r)"
  obtains v where "fn (prune now (db_state s)) = Inr (v, r)" and "db_state s' = commit_state now v"
  using db.committed [of now fn s r] assms by auto

lemma login_txn_wf:
  "wf_state s \<Longrightarrow> login_txn V now cred purpose tok csrf s = Inr (s', r) \<Longrightarrow> wf_state s'"
  by (auto simp: login_txn_def Let_def wf_state_def split: sum.splits if_splits)

lemma login_txn_session:
  assumes "login_txn V now cred purpose tok csrf s = Inr (s', (a, ses))" and "credentials_keyed s"
  shows "st_Sessions s' = AList.update (V tok) ses (st_Sessions s) \<and> st_Credentials s' = st_Credentials s \<and>
    se_Purpose ses = purpose \<and> se_CredentialID ses = ac_ID a \<and> se_ExpiresAt ses \<le> now + 30 * minute \<and>
    (\<exists>c. map_of (st_Credentials s) (ac_ID a) = Some c \<and> a = actor_of c \<and> \<not> cr_Revoked c \<and>
       now < cr_ExpiresAt c \<and> se_ExpiresAt ses = min (cr_ExpiresAt c) (now + 30 * minute))"
proof -
  from assms(1) have "Bearer V now s cred = Inr a"
    by (auto simp: login_txn_def Let_def split: sum.splits if_splits)
  from Bearer_sound [OF this] obtain k c where
    c: "(k, c) \<in> set (st_Credentials s)" "a = actor_of c" "bearer_matches V now cred c" by blast
  from credentials_keyed_lookup [OF assms(2) c(1)] c(2) have "map_of (st_Credentials s) (ac_ID a) = Some c"
    by (simp add: actor_of_def)
  with assms(1) c show ?thesis
    by (auto simp: login_txn_def Let_def bearer_matches_def split: sum.splits if_splits)
qed

lemma Login_success:
  "Login V now db cred purpose tok csrf = (db', Inr r) \<Longrightarrow>
     purpose \<noteq> [] \<and> Update now (login_txn V now cred purpose tok csrf) db = (db', Inr r)"
  by (auto simp: Login_def split: if_splits sum.splits)

section \<open>Properties\<close>

text \<open>
  C28: a browser session opened by a login is accepted as the same actor until it expires, for the
  purpose it was opened for, and expires within thirty minutes and no later than the credential.
\<close>

theorem login_session_accepted:
  assumes "wf_state (db_state db)" and "credentials_keyed (db_state db)"
    and "Login V now db cred purpose tok csrf = (db', Inr (a, ses))" and "length tok = 43"
    and "now \<le> t" and "t \<le> se_ExpiresAt ses"
  shows "Session_of V t (db_state db') tok purpose = Inr (a, ses) \<and> se_ExpiresAt ses \<le> now + 30 * minute \<and>
    (\<exists>c. map_of (st_Credentials (db_state db')) (ac_ID a) = Some c \<and> se_ExpiresAt ses \<le> cr_ExpiresAt c)"
proof -
  from Login_success [OF assms(3)] obtain v where purpose: "purpose \<noteq> []"
    and v: "login_txn V now cred purpose tok csrf (prune now (db_state db)) = Inr (v, (a, ses))"
    and db': "db_state db' = commit_state now v"
    by (auto elim: Update_success)
  have wfp: "wf_state (prune now (db_state db))" using assms(1) by (rule wf_prune)
  have wfv: "wf_state v" using wfp v by (rule login_txn_wf)
  have "credentials_keyed (prune now (db_state db))"
    using assms(2) by (simp add: credentials_keyed_def)
  from login_txn_session [OF v this] obtain c where
    ses: "map_of (st_Sessions v) (V tok) = Some ses" "se_Purpose ses = purpose" "se_CredentialID ses = ac_ID a"
    and c: "map_of (st_Credentials v) (ac_ID a) = Some c" "a = actor_of c" "\<not> cr_Revoked c" "now < cr_ExpiresAt c"
    and expiry: "se_ExpiresAt ses = min (cr_ExpiresAt c) (now + 30 * minute)"
    by auto
  have "0 < minute" by (simp add: time_units)
  with c(4) expiry have "now \<le> se_ExpiresAt ses" by simp
  with ses(1) wfv have "map_of (st_Sessions (db_state db')) (V tok) = Some ses"
    by (simp add: db' commit_session_lookup)
  then show ?thesis
    using ses c expiry assms(4,6) purpose by (auto simp: Session_of_def db')
qed

definition ex_credential :: Credential where
  "ex_credential = \<lparr>cr_ID = ''c1'', cr_Name = ''n'', cr_Role = ''owner'', cr_Verifier = ''v'',
     cr_CreatedAt = 0, cr_ExpiresAt = hour, cr_Revoked = False\<rparr>"

definition ex_auth_db :: Store where
  "ex_auth_db = \<lparr>db_state = (NewState ''demo'')\<lparr>st_Credentials := [(''c1'', ex_credential)]\<rparr>, db_poisoned = False,
     db_disk = NewState ''demo'', db_Write = (\<lambda>_. Written), db_Size = (\<lambda>_. 0)\<rparr>"

definition ex_token :: string where
  "ex_token = replicate 43 CHR ''t''"

definition ex_session :: Session where
  "ex_session = \<lparr>se_Verifier = ''v'', se_CredentialID = ''c1'', se_CSRF = ''x'', se_ExpiresAt = 30 * minute,
     se_Purpose = ''demo-browser-v2''\<rparr>"

lemma ex_auth_ok: "wf_state (db_state ex_auth_db)" "credentials_keyed (db_state ex_auth_db)"
  by (simp_all add: ex_auth_db_def wf_state_def NewState_def keyed_def credentials_keyed_def wf_map_def ex_credential_def)

lemma ex_login:
  "snd (Login (\<lambda>_. ''v'') 0 ex_auth_db ex_token ''demo-browser-v2'' ex_token ''x'') = Inr (actor_of ex_credential, ex_session)"
  by (simp add: Login_def AuthState_def Bearer_def ex_token_def ex_auth_db_def NewState_def bearer_matches_def
      ex_credential_def hour_def minute_def second_def Update_def persist_def login_txn_def Let_def actor_of_def prune_def
      prune_operations_def sift_def ex_session_def)

theorem login_session_accepted_witness:
  "Session_of (\<lambda>_. ''v'') minute
     (db_state (fst (Login (\<lambda>_. ''v'') 0 ex_auth_db ex_token ''demo-browser-v2'' ex_token ''x''))) ex_token ''demo-browser-v2''
   = Inr (actor_of ex_credential, ex_session)"
proof -
  let ?r = "Login (\<lambda>_. ''v'') 0 ex_auth_db ex_token ''demo-browser-v2'' ex_token ''x''"
  have r: "?r = (fst ?r, Inr (actor_of ex_credential, ex_session))"
    using ex_login by (metis prod.collapse)
  show ?thesis
    using login_session_accepted [OF ex_auth_ok r, of minute] by (simp add: ex_token_def ex_session_def time_units)
qed

text \<open>
  C35: once the offline revocation of a credential has succeeded, neither a bearer token nor a
  browser session is accepted for it, at any later time.
\<close>

theorem revoked_credential_refused:
  assumes "wf_state (db_state db)" and "credentials_keyed (db_state db)"
    and "Run V now uid owner secret new_id token ''revoke'' role name ttl db = (db', Inr res)"
  shows "(\<forall>t tok a. Bearer V t (db_state db') tok = Inr a \<longrightarrow> ac_ID a \<noteq> name) \<and>
    (\<forall>t tok p a ses. Session_of V t (db_state db') tok p = Inr (a, ses) \<longrightarrow> ac_ID a \<noteq> name)"
proof -
  from assms(3) obtain v where v: "revoke_txn now name (prune now (db_state db)) = Inr (v, ())"
    and db': "db_state db' = commit_state now v"
    by (auto simp: Run_def Let_def split: if_splits prod.splits sum.splits elim: Update_success)
  then obtain cr where creds: "st_Credentials v = AList.update name (cr\<lparr>cr_Revoked := True\<rparr>) (st_Credentials (db_state db))"
    and cr: "map_of (st_Credentials (db_state db)) name = Some cr"
    by (auto simp: revoke_txn_def split: option.splits)
  have entry: "cr_ID c = k \<and> (k = name \<longrightarrow> cr_Revoked c)" if "(k, c) \<in> set (st_Credentials v)" for k c
  proof -
    have wf: "wf_map (st_Credentials v)" using assms(2) by (simp add: creds credentials_keyed_def)
    with that have "map_of (st_Credentials v) k = Some c" by (simp add: map_of_iff_in_set)
    with cr assms(2) show ?thesis
      by (auto simp: creds credentials_keyed_def map_of_iff_in_set split: if_splits)
  qed
  have "ac_ID a \<noteq> name" if "Bearer V t (db_state db') tok = Inr a" for t tok a
    using Bearer_sound [OF that] entry by (auto simp: db' bearer_matches_def actor_of_def)
  moreover have "ac_ID a \<noteq> name" if "Session_of V t (db_state db') tok p = Inr (a, ses)" for t tok p a ses
    using Session_of_sound [OF that] entry by (auto simp: db' actor_of_def dest!: map_of_SomeD)
  ultimately show ?thesis by blast
qed

lemma ex_revoke:
  "snd (Run V 0 0 0 None ''c2'' ex_token ''revoke'' ''owner'' ''c1'' hour ex_auth_db) = Inr (Revoked ''c1'')"
  by (simp add: Run_def Authorized_def ex_auth_db_def NewState_def Update_def persist_def revoke_txn_def Let_def
      prune_def prune_operations_def sift_def)

theorem revoked_credential_refused_witness:
  "\<not> (\<exists>a. Bearer (\<lambda>_. ''v'') minute (db_state (fst (Run (\<lambda>_. ''v'') 0 0 0 None ''c2'' ex_token ''revoke'' ''owner'' ''c1'' hour ex_auth_db)))
        ex_token = Inr a \<and> ac_ID a = ''c1'')"
proof -
  let ?r = "Run (\<lambda>_. ''v'') 0 0 0 None ''c2'' ex_token ''revoke'' ''owner'' ''c1'' hour ex_auth_db"
  have "?r = (fst ?r, Inr (Revoked ''c1''))"
    using ex_revoke by (metis prod.collapse)
  from revoked_credential_refused [OF ex_auth_ok this] show ?thesis by blast
qed

text \<open>
  C14: offline recovery replaces every credential by one new owner credential and ends every
  browser session.
\<close>

theorem recover_leaves_one_owner:
  assumes "Run V now uid owner secret new_id token ''recover'' role name ttl db = (db', Inr res)"
  shows "\<exists>cr. st_Credentials (db_state db') = [(new_id, cr)] \<and> cr_ID cr = new_id \<and> cr_Role cr = ''owner'' \<and>
    cr_Verifier cr = V token \<and> \<not> cr_Revoked cr \<and> st_Sessions (db_state db') = []"
proof -
  from assms obtain nm cr tok where cr: "NewCredential V now new_id token nm ''owner'' ttl = Inr (cr, tok)"
    and up: "Update now (activate_txn now ''recover'' cr) db = (db', Inr ())"
    by (auto simp: Run_def Let_def split: if_splits prod.splits sum.splits option.splits)
  from up obtain v where v: "activate_txn now ''recover'' cr (prune now (db_state db)) = Inr (v, ())"
    and db': "db_state db' = commit_state now v"
    by (auto elim: Update_success)
  from cr have "cr_ID cr = new_id \<and> cr_Role cr = ''owner'' \<and> cr_Verifier cr = V token \<and> \<not> cr_Revoked cr"
    by (auto simp: NewCredential_def split: option.splits)
  moreover from v have "st_Credentials v = [(cr_ID cr, cr)] \<and> st_Sessions v = []"
    by (auto simp: activate_txn_def Let_def)
  ultimately show ?thesis
    by (auto simp: db' commit_state_def prune_def Let_def sift_def)
qed

theorem recover_leaves_one_owner_witness:
  "\<exists>cr. st_Credentials (db_state (fst (Run (\<lambda>_. ''v'') 0 0 0 None ''c2'' ex_token ''recover'' [] [] hour ex_auth_db)))
      = [(''c2'', cr)] \<and> cr_Role cr = ''owner''"
proof -
  let ?r = "Run (\<lambda>_. ''v'') 0 0 0 None ''c2'' ex_token ''recover'' [] [] hour ex_auth_db"
  have "\<exists>res. snd ?r = Inr res"
    by (simp add: Run_def Authorized_def ex_auth_db_def NewState_def Update_def persist_def activate_txn_def Let_def
        prune_def prune_operations_def sift_def NewCredential_def time_units first_fail.simps)
  then obtain res where "?r = (fst ?r, Inr res)" by (metis prod.collapse)
  from recover_leaves_one_owner [OF this] show ?thesis by blast
qed

end
