(* ===== verification/Source.thy ===== *)
theory Source
  imports Store
begin

text \<open>
  The canonical managed configuration file, \<open>internal/source\<close>. The file is absent, unreadable
  (with the error of \<open>Lstat\<close> if even that fails), malformed or holds a decoded configuration; encoding a configuration and decoding it again is
  the identity. Replacing the file has the outcomes of the store's writes.
\<close>

datatype source_file = Missing | Unreadable "err option" | Malformed err | Content Configuration

definition msg_source_unavailable :: string where
  "msg_source_unavailable = ''managed source is unavailable; import the reviewed configuration locally''"

definition msg_source_hash :: string where
  "msg_source_hash = ''managed source content hash is invalid; re-import the reviewed source locally''"

definition msg_source_planned :: string where
  "msg_source_planned = ''source changed since planning; no live effect dispatched''"

definition msg_source_exists :: string where
  "msg_source_exists = ''source exists; import refuses overwrite''"

definition msg_source_write :: string where
  "msg_source_write = ''managed source could not be replaced''"


definition Source_Read :: "digest \<Rightarrow> source_file \<Rightarrow> err + Configuration" where
  "Source_Read H f = (case f of
       Missing \<Rightarrow> Inl (Failure ''source_unavailable'' msg_source_unavailable)
     | Unreadable _ \<Rightarrow> Inl (Failure ''source_unavailable'' msg_source_unavailable)
     | Malformed e \<Rightarrow> Inl e
     | Content c \<Rightarrow> if c_Revision c \<noteq> ContentRevision H c
                      then Inl (Failure ''source_drift'' msg_source_hash) else Inr c)"

text \<open>Writing a file: the error, if any, and the content afterwards.\<close>

definition replace_file :: "write_outcome \<Rightarrow> Configuration \<Rightarrow> source_file \<Rightarrow> source_file \<times> err option" where
  "replace_file w c f = (case w of
       Written \<Rightarrow> (Content c, None)
     | NotWritten \<Rightarrow> (f, Some (Plain msg_source_write))
     | WrittenUnconfirmed \<Rightarrow> (Content c, Some (Plain msg_source_write)))"

definition Source_Update ::
    "digest \<Rightarrow> write_outcome \<Rightarrow> string \<Rightarrow> Configuration \<Rightarrow> source_file \<Rightarrow> source_file \<times> err option" where
  "Source_Update H w expected next_cfg f = (case Source_Read H f of
       Inl e \<Rightarrow> (f, Some e)
     | Inr current \<Rightarrow>
         if c_Revision current \<noteq> expected then (f, Some (Failure ''source_drift'' msg_source_planned))
         else replace_file w (next_cfg\<lparr>c_Revision := ContentRevision H next_cfg\<rparr>) f)"

text \<open>Initial import: an existing entry of any kind is refused, a failed creation removes the new file.\<close>

definition Source_Initialize ::
    "digest \<Rightarrow> err option \<Rightarrow> Configuration \<Rightarrow> source_file \<Rightarrow> source_file \<times> err option" where
  "Source_Initialize H create c f = (case f of
       Missing \<Rightarrow> (case create of
           None \<Rightarrow> (Content (c\<lparr>c_Revision := ContentRevision H c\<rparr>), None)
         | Some e \<Rightarrow> (Missing, Some e))
     | Unreadable (Some e) \<Rightarrow> (f, Some e)
     | _ \<Rightarrow> (f, Some (Plain msg_source_exists)))"

lemma Source_Read_revision: "Source_Read H f = Inr c \<Longrightarrow> c_Revision c = ContentRevision H c \<and> f = Content c"
  by (auto simp: Source_Read_def split: source_file.splits if_splits)

lemma Source_Read_sealed [simp]:
  "Source_Read H (Content (c\<lparr>c_Revision := ContentRevision H c\<rparr>)) = Inr (c\<lparr>c_Revision := ContentRevision H c\<rparr>)"
  by (simp add: Source_Read_def)

lemma Source_Update_outcomes:
  assumes "Source_Update H w expected next_cfg f = (f', e)"
  shows "f' = f \<and> e \<noteq> None \<or>
    (\<exists>c. Source_Read H f = Inr c \<and> c_Revision c = expected) \<and>
    f' = Content (next_cfg\<lparr>c_Revision := ContentRevision H next_cfg\<rparr>) \<and> (e = None \<longleftrightarrow> w = Written)"
  using assms
  by (auto simp: Source_Update_def replace_file_def split: sum.splits if_splits write_outcome.splits)

end
