(* ===== verification/Engine.thy ===== *)
theory Engine
  imports Auth Source
begin

text \<open>
  The controller's engine, \<open>internal/engine\<close>: planning, admission, the queue, execution,
  cancellation and recovery, over the store and the managed source. The adapter is an interface
  of the program: its answers during a call are an argument of the operation, for any adapter.
  Telemetry is not modelled; it decides nothing. The instants an operation reads from the clock
  are arguments, one for each transaction.
\<close>

section \<open>State, adapter and zero values\<close>

record Engine =
  e_DB :: Store
  e_File :: source_file
  e_Target :: string
  e_Depth :: int
  e_stopped :: bool

record Adapter =
  ad_Snapshot :: "err + Inventory"
  ad_Validate :: "Draft \<Rightarrow> Configuration \<Rightarrow> err + Preview"
  ad_Inspect :: "Execution \<Rightarrow> err + Result"
  ad_Execute :: "Execution \<Rightarrow> Progress list \<times> Result \<times> err option"

definition msg_role_request :: string where
  "msg_role_request = ''role cannot request this operation''"

definition msg_owner_restore :: string where
  "msg_owner_restore = ''only owner restore plans may reference recovery''"

definition msg_plan_capacity :: string where
  "msg_plan_capacity = ''plan retention capacity reached; expired plans are removed on subsequent writes''"

definition msg_source_consequence :: string where
  "msg_source_consequence = ''Update managed-source.json atomically; source success and live apply success are recorded separately.''"

definition msg_gpu_consequence :: string where
  "msg_gpu_consequence = ''GPU workloads may stop. Handover requires complete pod termination and host DRM checks. Failure can require explicit recovery.''"

definition msg_cache_consequence :: string where
  "msg_cache_consequence = ''New admission budgets apply to future work. Existing cache files are not deleted.''"

definition msg_reconcile_consequence :: string where
  "msg_reconcile_consequence = ''Recheck source and operation-specific durable executor evidence. No work is redispatched; previous failed attempts remain in history.''"

definition msg_key_length :: string where
  "msg_key_length = ''Idempotency-Key must be 8..128 printable characters''"

definition msg_key_chars :: string where
  "msg_key_chars = ''invalid Idempotency-Key''"

definition msg_shutdown :: string where
  "msg_shutdown = ''controller is shutting down''"

definition msg_idempotency :: string where
  "msg_idempotency = ''idempotency key already belongs to another payload''"

definition msg_role_apply_operation :: string where
  "msg_role_apply_operation = ''role cannot apply this operation''"

definition msg_plan_missing :: string where
  "msg_plan_missing = ''plan does not exist or expired''"

definition msg_plan_identity :: string where
  "msg_plan_identity = ''apply requires the identity that created this plan''"

definition msg_role_apply_plan :: string where
  "msg_role_apply_plan = ''role cannot apply this plan''"

definition msg_recovery_owner :: string where
  "msg_recovery_owner = ''recovery requires owner role''"

definition msg_target_confirmation :: string where
  "msg_target_confirmation = ''exact target confirmation does not match''"

definition msg_plan_expired :: string where
  "msg_plan_expired = ''plan expired; refresh and re-plan''"

definition msg_plan_integrity :: string where
  "msg_plan_integrity = ''plan integrity check failed''"

definition msg_queue_capacity :: string where
  "msg_queue_capacity = ''operation queue or retained-record capacity is full''"

definition msg_intent :: string where
  "msg_intent = ''intent durably recorded before dispatch''"

definition msg_operation_missing :: string where
  "msg_operation_missing = ''operation not found''"

definition msg_role_cancel :: string where
  "msg_role_cancel = ''role cannot cancel this operation''"

definition msg_cancel_changed :: string where
  "msg_cancel_changed = ''operation changed; refresh before cancellation''"

definition msg_cancel_final :: string where
  "msg_cancel_final = ''operation already has a final or recovery result''"

definition msg_no_recovery :: string where
  "msg_no_recovery = ''operation does not require recovery''"

definition msg_executor_running :: string where
  "msg_executor_running = ''executor is still running; wait for its durable result''"

definition msg_result_recovered :: string where
  "msg_result_recovered = ''executor result recovered; refresh operations before creating another plan''"

definition msg_record_missing :: string where
  "msg_record_missing = ''operation record missing''"

definition msg_finish_missing :: string where
  "msg_finish_missing = ''operation missing''"

definition msg_not_queued :: string where
  "msg_not_queued = ''operation no longer queued''"

definition msg_blocked :: string where
  "msg_blocked = ''an earlier operation requires recovery; no external effect dispatched''"

definition msg_authorization :: string where
  "msg_authorization = ''queued authorization or plan expired; no external effect dispatched''"

definition msg_adapter_failed :: string where
  "msg_adapter_failed = ''adapter failed; inspect bounded executor diagnostics''"

definition msg_precondition_drift :: string where
  "msg_precondition_drift = ''target, artifact or hardware evidence changed; create a new plan''"

definition msg_no_effect :: string where
  "msg_no_effect = ''no external effect dispatched''"

definition msg_reconciled :: string where
  "msg_reconciled = ''source and executor evidence inspected; previous failures retained; no external dispatch''"

definition msg_source_intent :: string where
  "msg_source_intent = ''about to replace canonical managed source''"

definition msg_dispatch_intent :: string where
  "msg_dispatch_intent = ''executor request authorized by validated plan; external outcome not yet known''"

definition msg_uncertain :: string where
  "msg_uncertain = ''executor returned without a proven terminal result''"

definition msg_read_only_interrupted :: string where
  "msg_read_only_interrupted = ''Evidence/export outcome unavailable. Inspect the independent helper operation; retained evidence is not validated and no GPU recovery or workload mutation was authorized.''"

definition msg_outcome_unknown :: string where
  "msg_outcome_unknown = ''executor outcome is unknown; inspect helper/worker recovery state before restore''"

definition msg_executor_survived :: string where
  "msg_executor_survived = ''executor survived controller restart; wait for its durable result before recovery''"

definition msg_reference :: string where
  "msg_reference = ''reference must identify an unresolved recovery operation''"

definition msg_recovery_target :: string where
  "msg_recovery_target = ''recovery target differs from the persisted operation''"

definition msg_unrelated :: string where
  "msg_unrelated = ''inspect and resolve the unrelated outstanding operation before new mutations''"

definition msg_other_attempt :: string where
  "msg_other_attempt = ''another recovery attempt for this chain is queued or running''"

definition msg_recovery_persisted_target :: string where
  "msg_recovery_persisted_target = ''recovery cannot change the persisted target''"

definition msg_source_sides :: string where
  "msg_source_sides = ''source differs from both sides of the interrupted update; owner review required''"

definition msg_race :: string where
  "msg_race = ''executor still running; recovery cannot race it''"

definition msg_evidence_uncertain :: string where
  "msg_evidence_uncertain = ''executor-specific evidence is unavailable or uncertain; inspect the model receipt or worker/helper journal; no restore or redispatch was attempted''"

definition msg_no_host_effects :: string where
  "msg_no_host_effects = ''this chain has no dispatched host effects; use operation-specific reconciliation''"

definition msg_inspection_owner :: string where
  "msg_inspection_owner = ''evidence inspection requires owner''"

definition msg_inspection_kind :: string where
  "msg_inspection_kind = ''only the matching evidence operation can use read-only inspection''"

definition msg_inspection_unavailable :: string where
  "msg_inspection_unavailable = ''independent evidence executor outcome unavailable; evidence retained''"

definition msg_inspection_running :: string where
  "msg_inspection_running = ''helper still generating evidence; do not redispatch''"

definition msg_inspection_incomplete :: string where
  "msg_inspection_incomplete = ''evidence executor result incomplete''"


definition zero_preview :: Preview where
  "zero_preview = \<lparr>pv_Changes = None, pv_Consequences = None, pv_Warnings = None, pv_Preconditions = None\<rparr>"

definition zero_plan :: Plan where
  "zero_plan = \<lparr>p_ID = [], p_Actor = [], p_Draft = zero_draft, p_Desired = zero_configuration,
     p_Preview = zero_preview, p_CreatedAt = zero_time, p_ExpiresAt = zero_time, p_Hash = []\<rparr>"

definition zero_operation :: Operation where
  "zero_operation = \<lparr>o_ID = [], o_Actor = [], o_Plan = zero_plan, o_State = [], o_Phase = [], o_Message = [],
     o_Revision = 0, o_CreatedAt = zero_time, o_UpdatedAt = zero_time, o_SourceUpdated = False,
     o_Dispatched = False, o_LiveApplied = False, o_RecoveryRequired = False, o_CancelRequested = False,
     o_Events = [], o_Artifacts = []\<rparr>"

text \<open>Reading a map yields the zero value for an absent key.\<close>

definition operation_at :: "Operation gomap \<Rightarrow> string \<Rightarrow> Operation" where
  "operation_at ops k = (case map_of ops k of Some o1 \<Rightarrow> o1 | None \<Rightarrow> zero_operation)"

definition execution_of :: "Operation \<Rightarrow> Execution" where
  "execution_of o1 = \<lparr>x_ID = o_ID o1, x_Actor = o_Actor o1, x_Plan = o_Plan o1\<rparr>"

definition mk_result :: "string \<Rightarrow> string \<Rightarrow> string \<Rightarrow> bool \<Rightarrow> Result" where
  "mk_result state phase message recovery =
     \<lparr>res_State = state, res_Phase = phase, res_Message = message, res_RecoveryRequired = recovery, res_Artifacts = []\<rparr>"

section \<open>Recovery admission\<close>

definition operation_link :: "Operation \<Rightarrow> RecoveryLink" where
  "operation_link o1 = \<lparr>rl_Parent = d_RecoveryID (o_Draft o1), rl_Target = d_Target (o_Draft o1),
     rl_Action = d_Action (o_Draft o1)\<rparr>"

definition operationLinks :: "Operation gomap \<Rightarrow> RecoveryLink gomap" where
  "operationLinks ops = map (\<lambda>(k, o1). (k, operation_link o1)) ops"

definition inspect :: "Adapter \<Rightarrow> Operation \<Rightarrow> err + Result" where
  "inspect ad o1 =
     (if \<not> o_Dispatched o1
      then Inr (mk_result ''recovery-required'' ''source-inspection-required'' [] True)
      else ad_Inspect ad (execution_of o1))"

definition admission_guards :: "Draft \<Rightarrow> string \<Rightarrow> string list \<Rightarrow> Operation gomap \<Rightarrow> (bool \<times> err) list" where
  "admission_guards d executing chain ops = concat (map (\<lambda>(k, o1).
     if k = executing then []
     else [(o_RecoveryRequired o1 \<and> k \<notin> set chain \<and> d_Action d \<noteq> ''hardware.refresh'',
            Failure ''recovery_required'' msg_unrelated),
           (d_RecoveryID d \<noteq> [] \<and> \<not> Terminal (o_State o1) \<and> d_RecoveryID (o_Draft o1) \<noteq> [] \<and> k \<in> set chain,
            Failure ''conflict'' msg_other_attempt)]) ops)"

definition recoveryAdmission :: "Operation gomap \<Rightarrow> Draft \<Rightarrow> string \<Rightarrow> err option" where
  "recoveryAdmission ops d executing =
     (if d_RecoveryID d = [] then first_fail (admission_guards d executing [] ops)
      else case map_of ops (d_RecoveryID d) of
             None \<Rightarrow> Some (Failure ''conflict'' msg_reference)
           | Some old \<Rightarrow>
               if \<not> o_RecoveryRequired old
                  \<or> d_Action d \<noteq> ''profile.restore'' \<and> d_Action d \<noteq> ''operation.reconcile''
               then Some (Failure ''conflict'' msg_reference)
               else if d_Target (o_Draft old) \<noteq> d_Target d
               then Some (Failure ''target_mismatch'' msg_recovery_target)
               else case RecoveryChain (operationLinks ops) (o_ID old) of
                      Inl e \<Rightarrow> Some (Failure ''recovery_required'' (err_message e))
                    | Inr chain \<Rightarrow> first_fail (admission_guards d executing chain ops))"

text \<open>The walk over the outstanding members of a chain: host effects seen and evidence collected.\<close>

fun recovery_evidence ::
    "digest \<Rightarrow> Adapter \<Rightarrow> string \<Rightarrow> Operation gomap \<Rightarrow> string list \<Rightarrow> bool \<Rightarrow> string gomap \<Rightarrow> err + bool \<times> string gomap" where
  "recovery_evidence H ad action ops [] host ev = Inr (host, ev)"
| "recovery_evidence H ad action ops (k # ks) host ev =
     (let o1 = operation_at ops k in
      if \<not> o_RecoveryRequired o1 then recovery_evidence H ad action ops ks host ev
      else
        (let ev = AList.update k (p_Hash (o_Plan o1)) ev in
         if \<not> o_Dispatched o1 then recovery_evidence H ad action ops ks host ev
         else
           (let host = (host \<or> HostRestoreRequired (d_Action (o_Draft o1))) in
            case inspect ad o1 of
              Inl e \<Rightarrow>
                if action = ''operation.reconcile''
                then Inl (Failure ''recovery_required'' msg_evidence_uncertain)
                else recovery_evidence H ad action ops ks host ev
            | Inr r \<Rightarrow>
                if res_State r = ''running'' \<or> res_State r = ''queued'' \<or> res_State r = ''cancel-requested''
                then Inl (Failure ''conflict'' msg_race)
                else if action = ''operation.reconcile''
                then if \<not> Terminal (res_State r) \<or> res_State r = ''recovery-required'' \<or> res_RecoveryRequired r
                     then Inl (Failure ''recovery_required'' msg_evidence_uncertain)
                     else recovery_evidence H ad action ops ks host (AList.update k (H (result_json r)) ev)
                else recovery_evidence H ad action ops ks host ev)))"

definition recoveryPreflight :: "digest \<Rightarrow> Adapter \<Rightarrow> Engine \<Rightarrow> Draft \<Rightarrow> Configuration \<Rightarrow> err + Preview" where
  "recoveryPreflight H ad e d c =
     (let ops = OperationRecords (e_DB e); links = operationLinks ops in
      case map_of ops (d_RecoveryID d) of
        None \<Rightarrow> Inl (Failure ''conflict'' msg_reference)
      | Some old \<Rightarrow>
          if \<not> o_RecoveryRequired old then Inl (Failure ''conflict'' msg_reference)
          else case RecoveryChain links (o_ID old) of
                 Inl x \<Rightarrow> Inl (Failure ''recovery_required'' (err_message x))
               | Inr chain \<Rightarrow>
                   (let root_id = (case RecoveryRoot links (o_ID old) of Inr k \<Rightarrow> k | Inl _ \<Rightarrow> []);
                        root_op = operation_at ops root_id in
                    if d_Target (o_Draft root_op) \<noteq> d_Target d \<or> d_Target d \<noteq> e_Target e
                    then Inl (Failure ''target_mismatch'' msg_recovery_persisted_target)
                    else if c_Revision c \<noteq> c_Revision (p_Desired (o_Plan root_op))
                            \<and> c_Revision c \<noteq> d_SourceRevision (o_Draft root_op)
                    then Inl (Failure ''source_drift'' msg_source_sides)
                    else case recovery_evidence H ad (d_Action d) ops (sort chain) False [] of
                           Inl x \<Rightarrow> Inl x
                         | Inr (host, ev) \<Rightarrow>
                             if d_Action d = ''profile.restore'' \<and> \<not> host
                             then Inl (Failure ''conflict'' msg_no_host_effects)
                             else Inr (zero_preview\<lparr>pv_Preconditions := Some
                                    [(''recovery_id'', o_ID old), (''recovery_root'', root_id),
                                     (''recovery_evidence'', H (json_of_map ev)),
                                     (''source_revision'', c_Revision c)]\<rparr>)))"

section \<open>Planning\<close>

definition preflight :: "digest \<Rightarrow> Adapter \<Rightarrow> Engine \<Rightarrow> Draft \<Rightarrow> Configuration \<Rightarrow> err + Inventory \<times> Preview" where
  "preflight H ad e d c =
     (let bare = zero_inventory\<lparr>i_Target := e_Target e\<rparr> in
      if EvidenceAction (d_Action d)
      then (case ad_Validate ad d c of Inl x \<Rightarrow> Inl x | Inr pv \<Rightarrow> Inr (bare, pv))
      else
        (let recovery = (if d_RecoveryID d \<noteq> [] \<or> d_Action d = ''operation.reconcile''
                         then recoveryPreflight H ad e d c else Inr zero_preview) in
         case recovery of
           Inl x \<Rightarrow> Inl x
         | Inr rpv \<Rightarrow>
             if d_Action d = ''operation.reconcile'' then Inr (bare, rpv)
             else case ad_Snapshot ad of
                    Inl x \<Rightarrow> Inl x
                  | Inr iv \<Rightarrow>
                      (case ad_Validate ad d c of
                         Inl x \<Rightarrow> Inl x
                       | Inr pv \<Rightarrow>
                           if d_RecoveryID d \<noteq> []
                           then Inr (iv, pv\<lparr>pv_Preconditions := Some
                                   (fold (\<lambda>(k, v) m. AList.update k v m)
                                      (case pv_Preconditions rpv of None \<Rightarrow> [] | Some m \<Rightarrow> m)
                                      (case pv_Preconditions pv of None \<Rightarrow> [] | Some m \<Rightarrow> m))\<rparr>)
                           else Inr (iv, pv))))"

text \<open>
  The fields \<open>reflect\<close> enumerates, with the text of their \<open>json\<close> tags; the tag of the last resource
  field carries its option.
\<close>

definition serving_fields :: "Serving \<Rightarrow> (string \<times> json) list" where
  "serving_fields s =
     [(''model'', JStr (s_Model s)), (''context'', JInt (s_Context s)), (''concurrency'', JInt (s_Concurrency s)),
      (''memory_fraction'', JFloat (s_MemoryFraction s)), (''cpu_offload_gib'', JInt (s_CPUOffloadGiB s)),
      (''max_request_tokens'', JInt (s_MaxRequestTokens s)), (''max_output_tokens'', JInt (s_MaxOutputTokens s))]"

definition resources_fields :: "Resources \<Rightarrow> (string \<times> json) list" where
  "resources_fields r =
     [(''cpu'', JInt (r_CPU r)), (''memory_mib'', JInt (r_MemoryMiB r)),
      (''shared_memory_mib'', JInt (r_SharedMemoryMiB r)), (''gpu_count'', JInt (r_GPUCount r)),
      (''physical_gpu,omitempty'', JStr (r_PhysicalGPU r))]"

definition caches_fields :: "CacheBudgets \<Rightarrow> (string \<times> json) list" where
  "caches_fields b =
     [(''models_gib'', JInt (b_ModelsGiB b)), (''compiler_gib'', JInt (b_CompilerGiB b)),
      (''shader_gib'', JInt (b_ShaderGiB b)), (''build_jobs'', JInt (b_BuildJobs b)),
      (''build_memory_mib'', JInt (b_BuildMemoryMiB b)), (''scratch_gib'', JInt (b_ScratchGiB b))]"

definition field_changes :: "string \<Rightarrow> (string \<times> json) list \<Rightarrow> (string \<times> json) list \<Rightarrow> Change list" where
  "field_changes grp xs ys =
     concat (map (\<lambda>((tag, v), (_, w)). if v = w then []
                   else [\<lparr>ch_Field = grp @ ''.'' @ tag, ch_Before = v, ch_After = w\<rparr>]) (zip xs ys))"

definition changes :: "Configuration \<Rightarrow> Configuration \<Rightarrow> Change list" where
  "changes a b =
     field_changes ''serving'' (serving_fields (c_Serving a)) (serving_fields (c_Serving b))
     @ field_changes ''resources'' (resources_fields (c_Resources a)) (resources_fields (c_Resources b))
     @ field_changes ''caches'' (caches_fields (c_Caches a)) (caches_fields (c_Caches b))"

definition plan_consequences :: "Draft \<Rightarrow> Configuration \<Rightarrow> Configuration \<Rightarrow> string list" where
  "plan_consequences d c desired =
     (if c_Revision desired \<noteq> c_Revision c then [msg_source_consequence] else [])
     @ (if d_Action d \<in> set [''serving.configure'', ''resources.configure'', ''serving.restart'',
                             ''profile.switch'', ''profile.restore''] then [msg_gpu_consequence] else [])
     @ (if d_Action d = ''caches.configure'' then [msg_cache_consequence] else [])
     @ (if d_Action d = ''operation.reconcile'' then [msg_reconcile_consequence] else [])"

definition plan_txn :: "time \<Rightarrow> Actor \<Rightarrow> Plan \<Rightarrow> State \<Rightarrow> err + State \<times> Plan" where
  "plan_txn now a p s =
     (if length (st_Plans s) \<ge> 200 then Inl (Failure ''capacity'' msg_plan_capacity)
      else Inr (Event now (ac_ID a) ''plan.create'' (p_ID p) ''validated''
             (s\<lparr>st_Plans := AList.update (p_ID p) p (st_Plans s)\<rparr>), p))"

definition make_plan :: "digest \<Rightarrow> time \<Rightarrow> string \<Rightarrow> Actor \<Rightarrow> Draft \<Rightarrow> Configuration \<Rightarrow> Preview \<Rightarrow> Plan" where
  "make_plan H now new_id a d c pv =
     (let desired = Desired H c d;
          pv = pv\<lparr>pv_Changes := Some (changes c desired),
                  pv_Consequences := Some ((case pv_Consequences pv of None \<Rightarrow> [] | Some xs \<Rightarrow> xs)
                                           @ plan_consequences d c desired),
                  pv_Warnings := Some (case pv_Warnings pv of None \<Rightarrow> [] | Some xs \<Rightarrow> xs)\<rparr>;
          p = \<lparr>p_ID = new_id, p_Actor = ac_ID a, p_Draft = d, p_Desired = desired, p_Preview = pv,
               p_CreatedAt = now, p_ExpiresAt = now + 10 * minute, p_Hash = []\<rparr>
      in p\<lparr>p_Hash := H (plan_json p)\<rparr>)"

definition with_db :: "Engine \<Rightarrow> Store \<times> 'a \<Rightarrow> Engine \<times> 'a" where
  "with_db e r = (e\<lparr>e_DB := fst r\<rparr>, snd r)"

definition CreatePlan :: "digest \<Rightarrow> Adapter \<Rightarrow> time \<Rightarrow> string \<Rightarrow> Actor \<Rightarrow> Draft \<Rightarrow> Engine \<Rightarrow> Engine \<times> (err + Plan)" where
  "CreatePlan H ad now new_id a d e =
     (if \<not> RoleAllows (ac_Role a) (d_Action d) then (e, Inl (Failure ''forbidden'' msg_role_request))
      else if d_RecoveryID d \<noteq> [] \<and> (ac_Role a \<noteq> ''owner''
                \<or> d_Action d \<noteq> ''profile.restore'' \<and> d_Action d \<noteq> ''operation.reconcile'')
      then (e, Inl (Failure ''forbidden'' msg_owner_restore))
      else case Source_Read H (e_File e) of
             Inl x \<Rightarrow> (e, Inl x)
           | Inr c \<Rightarrow>
               (case preflight H ad e d c of
                  Inl x \<Rightarrow> (e, Inl x)
                | Inr (iv, pv) \<Rightarrow>
                    (case ValidateDraft H now d c iv of
                       Some x \<Rightarrow> (e, Inl x)
                     | None \<Rightarrow> with_db e (Update now (plan_txn now a (make_plan H now new_id a d c pv)) (e_DB e)))))"

section \<open>Admission to the queue\<close>

definition payload_hash :: "digest \<Rightarrow> string \<Rightarrow> string \<Rightarrow> string" where
  "payload_hash H plan_id target = H (JObj [(''Plan'', JStr plan_id), (''Target'', JStr target)])"

definition idempotency_key_error :: "string \<Rightarrow> err option" where
  "idempotency_key_error key = first_fail
     [(length key < 8 \<or> length key > 128, Failure ''invalid'' msg_key_length),
      (list_ex (\<lambda>c. (of_char c :: nat) < 33 \<or> (of_char c :: nat) > 126) key, Failure ''invalid'' msg_key_chars)]"

definition new_operation :: "time \<Rightarrow> string \<Rightarrow> Actor \<Rightarrow> Plan \<Rightarrow> Operation" where
  "new_operation now new_id a p = zero_operation\<lparr>o_ID := new_id, o_Actor := ac_ID a, o_Plan := p,
     o_State := ''queued'', o_Phase := ''intent-persisted'', o_Revision := 1, o_CreatedAt := now, o_UpdatedAt := now,
     o_Events := [\<lparr>pg_Phase = ''queued'', pg_Message = msg_intent, pg_Bytes = 0\<rparr>]\<rparr>"

definition active_operations :: "Operation gomap \<Rightarrow> nat" where
  "active_operations ops = length (filter (\<lambda>(k, o1). \<not> Terminal (o_State o1)) ops)"

text \<open>The checks of a plan that has no earlier operation under the key, in the source's order.\<close>

definition apply_guards ::
    "digest \<Rightarrow> time \<Rightarrow> Actor \<Rightarrow> string \<Rightarrow> string \<Rightarrow> int \<Rightarrow> Plan \<Rightarrow> State \<Rightarrow> err option" where
  "apply_guards H now a target own_target depth p s =
     and_then (first_fail
       [(p_Actor p \<noteq> ac_ID a, Failure ''forbidden'' msg_plan_identity),
        (\<not> RoleAllows (ac_Role a) (d_Action (p_Draft p)), Failure ''forbidden'' msg_role_apply_plan),
        (d_RecoveryID (p_Draft p) \<noteq> [] \<and> ac_Role a \<noteq> ''owner'', Failure ''forbidden'' msg_recovery_owner),
        (target \<noteq> d_Target (p_Draft p) \<or> target \<noteq> own_target, Failure ''target_mismatch'' msg_target_confirmation),
        (now > p_ExpiresAt p, Failure ''plan_expired'' msg_plan_expired),
        (H (plan_json (p\<lparr>p_Hash := []\<rparr>)) \<noteq> p_Hash p, Failure ''invalid'' msg_plan_integrity)])
     (and_then (recoveryAdmission (st_Operations s) (p_Draft p) [])
       (first_fail
         [(int (active_operations (st_Operations s)) \<ge> depth \<or> length (st_Operations s) \<ge> 500,
           Failure ''capacity'' msg_queue_capacity)]))"

definition apply_txn ::
    "digest \<Rightarrow> time \<Rightarrow> string \<Rightarrow> Actor \<Rightarrow> string \<Rightarrow> string \<Rightarrow> string \<Rightarrow> string \<Rightarrow> int \<Rightarrow> State \<Rightarrow> err + State \<times> Operation" where
  "apply_txn H now new_id a plan_id target key own_target depth s =
     (let payload = payload_hash H plan_id target; idem = ac_ID a @ '':'' @ key in
      case map_of (st_Idempotency s) idem of
        Some old \<Rightarrow>
          if id_PayloadHash old \<noteq> payload then Inl (Failure ''idempotency_conflict'' msg_idempotency)
          else
            (let op = operation_at (st_Operations s) (id_OperationID old) in
             if \<not> RoleAllows (ac_Role a) (d_Action (o_Draft op)) then Inl (Failure ''forbidden'' msg_role_apply_operation)
             else Inr (s, op))
      | None \<Rightarrow>
          (case map_of (st_Plans s) plan_id of
             None \<Rightarrow> Inl (Failure ''not_found'' msg_plan_missing)
           | Some p \<Rightarrow>
               (case apply_guards H now a target own_target depth p s of
                  Some x \<Rightarrow> Inl x
                | None \<Rightarrow>
                    (let op = new_operation now new_id a p in
                     Inr (Event now (ac_ID a) ''operation.accept'' (o_ID op) ''queued''
                            (s\<lparr>st_Operations := AList.update (o_ID op) op (st_Operations s),
                               st_Idempotency := AList.update idem
                                 \<lparr>id_PayloadHash = payload, id_OperationID = o_ID op\<rparr> (st_Idempotency s)\<rparr>),
                          op)))))"

definition Apply ::
    "digest \<Rightarrow> time \<Rightarrow> string \<Rightarrow> Actor \<Rightarrow> string \<Rightarrow> string \<Rightarrow> string \<Rightarrow> Engine \<Rightarrow> Engine \<times> (err + Operation)" where
  "Apply H now new_id a plan_id target key e =
     (case idempotency_key_error key of
        Some x \<Rightarrow> (e, Inl x)
      | None \<Rightarrow>
          if e_stopped e then (e, Inl (Failure ''unavailable'' msg_shutdown))
          else with_db e (Update now (apply_txn H now new_id a plan_id target key (e_Target e) (e_Depth e)) (e_DB e)))"

definition Operation_of :: "Engine \<Rightarrow> string \<Rightarrow> err + Operation" where
  "Operation_of e id0 = (case find_operation (e_DB e) id0 of
       None \<Rightarrow> Inl (Failure ''not_found'' msg_operation_missing) | Some o1 \<Rightarrow> Inr o1)"

text \<open>The listing, newest first.\<close>

definition Operations :: "Engine \<Rightarrow> Operation list" where
  "Operations e = sort_key (\<lambda>o1. - o_CreatedAt o1) (map snd (OperationRecords (e_DB e)))"

definition cancel_txn :: "time \<Rightarrow> Actor \<Rightarrow> string \<Rightarrow> 64 word \<Rightarrow> State \<Rightarrow> err + State \<times> unit" where
  "cancel_txn now a id0 revision s =
     (case map_of (st_Operations s) id0 of
        None \<Rightarrow> Inl (Failure ''not_found'' msg_operation_missing)
      | Some o1 \<Rightarrow>
          (case first_fail
             [(\<not> RoleAllows (ac_Role a) (d_Action (o_Draft o1)), Failure ''forbidden'' msg_role_cancel),
              (revision \<noteq> 0 \<and> revision \<noteq> o_Revision o1, Failure ''conflict'' msg_cancel_changed),
              (Terminal (o_State o1), Failure ''conflict'' msg_cancel_final)] of
             Some x \<Rightarrow> Inl x
           | None \<Rightarrow>
               (let queued = o_State o1 = ''queued'';
                    o2 = o1\<lparr>o_CancelRequested := True,
                            o_State := (if queued then ''cancelled'' else ''cancel-requested''),
                            o_Phase := (if queued then ''cancelled-before-dispatch'' else ''cancellation-requested''),
                            o_UpdatedAt := now, o_Revision := o_Revision o1 + 1\<rparr>
                in Inr (Event now (ac_ID a) ''operation.cancel'' id0 (o_State o2)
                          (s\<lparr>st_Operations := AList.update id0 o2 (st_Operations s)\<rparr>), ()))))"

text \<open>Cancelling the execution's context reaches the executor as its own \<open>done\<close> argument.\<close>

definition Cancel :: "time \<Rightarrow> Actor \<Rightarrow> string \<Rightarrow> 64 word \<Rightarrow> Engine \<Rightarrow> Engine \<times> (err + Operation)" where
  "Cancel now a id0 revision e =
     (case Update now (cancel_txn now a id0 revision) (e_DB e) of
        (db, Inl x) \<Rightarrow> (e\<lparr>e_DB := db\<rparr>, Inl x)
      | (db, Inr _) \<Rightarrow> (e\<lparr>e_DB := db\<rparr>, Operation_of (e\<lparr>e_DB := db\<rparr>) id0))"

section \<open>Settling an operation\<close>

definition read_only_result :: Result where
  "read_only_result = mk_result ''failed'' ''read-only-interrupted'' msg_read_only_interrupted False"

definition effective_result :: "string \<Rightarrow> Result \<Rightarrow> Result" where
  "effective_result action r =
     (if EvidenceAction action \<and> (res_RecoveryRequired r \<or> res_State r = ''recovery-required''
           \<or> res_State r = ''running'' \<or> res_State r = ''queued'')
      then read_only_result else r)"

definition finished :: "time \<Rightarrow> Result \<Rightarrow> Operation \<Rightarrow> Operation" where
  "finished now r o1 = o1\<lparr>o_State := res_State r, o_Phase := res_Phase r, o_Message := res_Message r,
     o_RecoveryRequired := res_RecoveryRequired r \<or> res_State r = ''recovery-required'',
     o_Artifacts := res_Artifacts r, o_UpdatedAt := now, o_Revision := o_Revision o1 + 1,
     o_LiveApplied := res_State r = ''succeeded'' \<and> HostRestoreRequired (d_Action (o_Draft o1))\<rparr>"

definition settled :: "time \<Rightarrow> string \<Rightarrow> Operation \<Rightarrow> Operation \<Rightarrow> Operation" where
  "settled now id0 by_op old =
     (let reconcile = d_Action (o_Draft by_op) = ''operation.reconcile'' in
      old\<lparr>o_RecoveryRequired := False, o_State := ''failed'',
          o_Phase := (if reconcile then ''resolved-by-operation-inspection'' else ''resolved-by-explicit-restore''),
          o_SourceUpdated := (if reconcile
             then c_Revision (p_Desired (o_Plan by_op)) = c_Revision (p_Desired (o_Plan old))
                  \<and> c_Revision (p_Desired (o_Plan old)) \<noteq> d_SourceRevision (o_Draft old)
             else o_SourceUpdated old),
          o_Message := ''resolved by operation '' @ id0, o_UpdatedAt := now, o_Revision := o_Revision old + 1\<rparr>)"

fun settle_chain :: "time \<Rightarrow> string \<Rightarrow> Operation \<Rightarrow> string list \<Rightarrow> Operation gomap \<Rightarrow> Operation gomap" where
  "settle_chain now id0 by_op [] ops = ops"
| "settle_chain now id0 by_op (k # ks) ops =
     (let old = operation_at ops k in
      if k = id0 \<or> \<not> o_RecoveryRequired old then settle_chain now id0 by_op ks ops
      else settle_chain now id0 by_op ks (AList.update (o_ID old) (settled now id0 by_op old) ops))"

definition finish_txn :: "time \<Rightarrow> string \<Rightarrow> Result \<Rightarrow> State \<Rightarrow> err + State \<times> unit" where
  "finish_txn now id0 r s =
     (case map_of (st_Operations s) id0 of
        None \<Rightarrow> Inl (Plain msg_finish_missing)
      | Some o1 \<Rightarrow>
          (let o2 = finished now (effective_result (d_Action (o_Draft o1)) r) o1;
               s = Event now (o_Actor o2) ''operation.complete'' id0 (o_State o2)
                     (s\<lparr>st_Operations := AList.update id0 o2 (st_Operations s)\<rparr>)
           in if o_State o2 = ''succeeded'' \<and> d_RecoveryID (o_Draft o2) \<noteq> []
              then case RecoveryChain (operationLinks (st_Operations s)) (d_RecoveryID (o_Draft o2)) of
                     Inl x \<Rightarrow> Inl x
                   | Inr chain \<Rightarrow>
                       Inr (s\<lparr>st_Operations := settle_chain now id0 o2 chain (st_Operations s)\<rparr>, ())
              else Inr (s, ())))"

definition finish :: "time \<Rightarrow> string \<Rightarrow> Result \<Rightarrow> Engine \<Rightarrow> Engine \<times> (err + unit)" where
  "finish now id0 r e = with_db e (Update now (finish_txn now id0 r) (e_DB e))"

section \<open>Recovery requests and read-only inspection\<close>

definition restore_needed :: "Operation gomap \<Rightarrow> string list \<Rightarrow> bool" where
  "restore_needed ops chain \<longleftrightarrow> list_ex (\<lambda>k. let o1 = operation_at ops k in
     o_RecoveryRequired o1 \<and> o_Dispatched o1 \<and> HostRestoreRequired (d_Action (o_Draft o1))) chain"

text \<open>The part of \<open>Recover\<close> that drafts a plan, after the executor gave no settled result.\<close>

definition recover_plan :: "digest \<Rightarrow> Adapter \<Rightarrow> time \<Rightarrow> string \<Rightarrow> Actor \<Rightarrow> string \<Rightarrow> Engine \<Rightarrow> Engine \<times> (err + Plan)" where
  "recover_plan H ad now new_id a id0 e =
     (case Source_Read H (e_File e) of
        Inl x \<Rightarrow> (e, Inl x)
      | Inr c \<Rightarrow>
          (let ops = OperationRecords (e_DB e) in
           case RecoveryChain (operationLinks ops) id0 of
             Inl x \<Rightarrow> (e, Inl (Failure ''recovery_required'' (err_message x)))
           | Inr chain \<Rightarrow>
               CreatePlan H ad now new_id a
                 (zero_draft\<lparr>d_Action := (if restore_needed ops chain then ''profile.restore''
                                           else ''operation.reconcile''),
                             d_Target := e_Target e, d_SourceRevision := c_Revision c,
                             d_RecoveryID := id0\<rparr>) e))"

definition Recover :: "digest \<Rightarrow> Adapter \<Rightarrow> time \<Rightarrow> string \<Rightarrow> Actor \<Rightarrow> string \<Rightarrow> Engine \<Rightarrow> Engine \<times> (err + Plan)" where
  "Recover H ad now new_id a id0 e =
     (if ac_Role a \<noteq> ''owner'' then (e, Inl (Failure ''forbidden'' msg_recovery_owner))
      else case Operation_of e id0 of
             Inl x \<Rightarrow> (e, Inl x)
           | Inr o1 \<Rightarrow>
               if \<not> o_RecoveryRequired o1 then (e, Inl (Failure ''conflict'' msg_no_recovery))
               else case inspect ad o1 of
                      Inl _ \<Rightarrow> recover_plan H ad now new_id a id0 e
                    | Inr r \<Rightarrow>
                        if res_State r = ''running'' \<or> res_State r = ''queued''
                        then (e, Inl (Failure ''conflict'' msg_executor_running))
                        else if Terminal (res_State r) \<and> res_State r \<noteq> ''recovery-required'' \<and> \<not> res_RecoveryRequired r
                        then (case finish now id0 r e of
                                (e', Inl x) \<Rightarrow> (e', Inl x)
                              | (e', Inr _) \<Rightarrow> (e', Inl (Failure ''conflict'' msg_result_recovered)))
                        else recover_plan H ad now new_id a id0 e)"

definition inspectEvidence :: "Adapter \<Rightarrow> time \<Rightarrow> Actor \<Rightarrow> string \<Rightarrow> bool \<Rightarrow> Engine \<Rightarrow> Engine \<times> (err + Operation)" where
  "inspectEvidence ad now a id0 performance e =
     (if ac_Role a \<noteq> ''owner'' then (e, Inl (Failure ''forbidden'' msg_inspection_owner))
      else case Operation_of e id0 of
             Inl x \<Rightarrow> (e, Inl x)
           | Inr o1 \<Rightarrow>
               if \<not> performance \<and> \<not> MemoryAction (d_Action (o_Draft o1))
                  \<or> performance \<and> \<not> PerformanceAction (d_Action (o_Draft o1))
               then (e, Inl (Failure ''invalid'' msg_inspection_kind))
               else if \<not> o_Dispatched o1 then (e, Inr o1)
               else case inspect ad o1 of
                      Inl _ \<Rightarrow> (e, Inl (Failure ''unavailable'' msg_inspection_unavailable))
                    | Inr r \<Rightarrow>
                        if res_State r = ''running'' \<or> res_State r = ''queued''
                        then (e, Inl (Failure ''conflict'' msg_inspection_running))
                        else if \<not> Terminal (res_State r)
                        then (e, Inl (Failure ''unavailable'' msg_inspection_incomplete))
                        else case finish now id0 r e of
                               (e', Inl x) \<Rightarrow> (e', Inl x)
                             | (e', Inr _) \<Rightarrow> (e', Operation_of e' id0))"

section \<open>Execution\<close>

text \<open>
  The stages of \<open>execute\<close>, each ending where another thread may change the store. A stage that
  returns early yields \<open>None\<close> or \<open>False\<close>.
\<close>

definition claim_txn :: "time \<Rightarrow> string \<Rightarrow> State \<Rightarrow> err + State \<times> unit" where
  "claim_txn now id0 s =
     (let o1 = operation_at (st_Operations s) id0;
          put = (\<lambda>o2. Inr (s\<lparr>st_Operations := AList.update (o_ID o2) o2 (st_Operations s)\<rparr>, ())) in
      if o_State o1 \<noteq> ''queued'' then Inl (Failure ''cancelled'' msg_not_queued)
      else if recoveryAdmission (st_Operations s) (o_Draft o1) (o_ID o1) \<noteq> None
      then put (o1\<lparr>o_State := ''failed'', o_Phase := ''blocked-by-recovery'', o_Message := msg_blocked,
                  o_Revision := o_Revision o1 + 1, o_UpdatedAt := now\<rparr>)
      else if (case map_of (st_Credentials s) (o_Actor o1) of
                 None \<Rightarrow> True
               | Some cr \<Rightarrow> cr_Revoked cr \<or> now > cr_ExpiresAt cr \<or> \<not> RoleAllows (cr_Role cr) (d_Action (o_Draft o1)))
              \<or> now > p_ExpiresAt (o_Plan o1)
      then put (o1\<lparr>o_State := ''failed'', o_Phase := ''authorization-or-plan-expired'', o_Message := msg_authorization,
                  o_Revision := o_Revision o1 + 1, o_UpdatedAt := now\<rparr>)
      else put (o1\<lparr>o_State := ''running'', o_Phase := ''preflight'', o_Revision := o_Revision o1 + 1, o_UpdatedAt := now\<rparr>))"

definition execute_claim :: "time \<Rightarrow> Operation \<Rightarrow> Engine \<Rightarrow> Engine \<times> bool" where
  "execute_claim now op e =
     (case with_db e (Update now (claim_txn now (o_ID op)) (e_DB e)) of
        (e', Inl _) \<Rightarrow> (e', False)
      | (e', Inr _) \<Rightarrow>
          (case Operation_of e' (o_ID op) of
             Inl _ \<Rightarrow> (e', False)
           | Inr current \<Rightarrow> (e', o_State current = ''running'')))"

definition fail_result :: "err \<Rightarrow> bool \<Rightarrow> Result" where
  "fail_result x uncertain =
     (let (code, message) = (case x of Failure c m \<Rightarrow> (c, m) | Plain _ \<Rightarrow> (''adapter_failed'', msg_adapter_failed))
      in mk_result (if uncertain then ''recovery-required'' else ''failed'') code message uncertain)"

text \<open>Nil and empty maps differ under \<open>reflect.DeepEqual\<close>.\<close>

definition same_preconditions :: "string gomap option \<Rightarrow> string gomap option \<Rightarrow> bool" where
  "same_preconditions a b \<longleftrightarrow> (case (a, b) of
       (None, None) \<Rightarrow> True | (Some m, Some n) \<Rightarrow> gomap_eq m n | _ \<Rightarrow> False)"

definition execute_check ::
    "digest \<Rightarrow> Adapter \<Rightarrow> time \<Rightarrow> time \<Rightarrow> bool \<Rightarrow> Operation \<Rightarrow> Engine \<Rightarrow> Engine \<times> Configuration option" where
  "execute_check H ad now now' ctx_done op e =
     (let stop = (\<lambda>r. (fst (finish now' (o_ID op) r e), None)); d = o_Draft op in
      case Source_Read H (e_File e) of
        Inl x \<Rightarrow> stop (fail_result x False)
      | Inr c \<Rightarrow>
          (case preflight H ad e d c of
             Inl x \<Rightarrow> stop (fail_result x False)
           | Inr (iv, pv) \<Rightarrow>
               (case ValidateDraft H now d c iv of
                  Some x \<Rightarrow> stop (fail_result x False)
                | None \<Rightarrow>
                    if \<not> same_preconditions (pv_Preconditions pv) (pv_Preconditions (p_Preview (o_Plan op)))
                    then stop (fail_result (Failure ''precondition_drift'' msg_precondition_drift) False)
                    else if ctx_done then stop (mk_result ''cancelled'' ''cancelled-before-effects'' msg_no_effect False)
                    else if d_Action d = ''operation.reconcile''
                    then stop (mk_result ''succeeded'' ''operation-reconciled'' msg_reconciled False)
                    else (e, Some c))))"

definition keep_last :: "nat \<Rightarrow> 'a list \<Rightarrow> 'a list" where
  "keep_last n xs = (if length xs > n then drop (length xs - n) xs else xs)"

definition progress_txn :: "time \<Rightarrow> string \<Rightarrow> Progress \<Rightarrow> State \<Rightarrow> err + State \<times> unit" where
  "progress_txn now id0 p s =
     (case map_of (st_Operations s) id0 of
        None \<Rightarrow> Inl (Plain msg_record_missing)
      | Some o1 \<Rightarrow>
          (let o2 = o1\<lparr>o_Phase := pg_Phase p, o_Dispatched := o_Dispatched o1 \<or> pg_Phase p = ''dispatch-intent'',
                       o_Message := pg_Message p, o_UpdatedAt := now, o_Revision := o_Revision o1 + 1,
                       o_Events := keep_last 128 (o_Events o1 @ [p])\<rparr>
           in Inr (Event now (o_Actor o2) ''operation.phase'' id0 (pg_Phase p)
                     (s\<lparr>st_Operations := AList.update id0 o2 (st_Operations s)\<rparr>), ())))"

definition progress :: "time \<Rightarrow> string \<Rightarrow> Progress \<Rightarrow> Engine \<Rightarrow> Engine \<times> (err + unit)" where
  "progress now id0 p e =
     (case Operation_of e id0 of
        Inr current \<Rightarrow>
          if o_Events current \<noteq> [] \<and> o_Phase current = pg_Phase p \<and> last (o_Events current) = p then (e, Inr ())
          else with_db e (Update now (progress_txn now id0 p) (e_DB e))
      | Inl _ \<Rightarrow> with_db e (Update now (progress_txn now id0 p) (e_DB e)))"

definition source_updated_txn :: "time \<Rightarrow> string \<Rightarrow> State \<Rightarrow> err + State \<times> unit" where
  "source_updated_txn now id0 s =
     (let o1 = operation_at (st_Operations s) id0;
          o2 = o1\<lparr>o_SourceUpdated := True, o_Phase := ''source-updated'', o_Revision := o_Revision o1 + 1, o_UpdatedAt := now\<rparr>
      in Inr (s\<lparr>st_Operations := AList.update (o_ID o2) o2 (st_Operations s)\<rparr>, ()))"

definition execute_source ::
    "digest \<Rightarrow> write_outcome \<Rightarrow> time \<Rightarrow> time \<Rightarrow> Operation \<Rightarrow> Configuration \<Rightarrow> Engine \<Rightarrow> Engine \<times> bool" where
  "execute_source H w now now' op c e =
     (if c_Revision (p_Desired (o_Plan op)) = c_Revision c then (e, True)
      else case progress now (o_ID op)
                  \<lparr>pg_Phase = ''source-update-intent'', pg_Message = msg_source_intent, pg_Bytes = 0\<rparr> e of
             (e1, Inl _) \<Rightarrow> (e1, False)
           | (e1, Inr _) \<Rightarrow>
               (case Source_Update H w (c_Revision c) (p_Desired (o_Plan op)) (e_File e1) of
                  (f, Some x) \<Rightarrow>
                    (fst (finish now' (o_ID op) (fail_result x (\<not> is_failure x)) (e1\<lparr>e_File := f\<rparr>)), False)
                | (f, None) \<Rightarrow>
                    (case with_db (e1\<lparr>e_File := f\<rparr>) (Update now' (source_updated_txn now' (o_ID op)) (e_DB e1)) of
                       (e2, Inl _) \<Rightarrow> (e2, False)
                     | (e2, Inr _) \<Rightarrow> (e2, True))))"

definition dispatch_progress :: Progress where
  "dispatch_progress = \<lparr>pg_Phase = ''dispatch-intent'', pg_Message = msg_dispatch_intent, pg_Bytes = 0\<rparr>"

definition execute_dispatch :: "time \<Rightarrow> Operation \<Rightarrow> Engine \<Rightarrow> Engine \<times> bool" where
  "execute_dispatch now op e =
     (case progress now (o_ID op) dispatch_progress e of
        (e', Inl _) \<Rightarrow> (e', False) | (e', Inr _) \<Rightarrow> (e', True))"

text \<open>The result the engine records for what the adapter returned.\<close>

definition adapter_result :: "Result \<Rightarrow> err option \<Rightarrow> Result" where
  "adapter_result r x = (case x of
       Some y \<Rightarrow> if res_State r \<noteq> [] \<and> Terminal (res_State r) then r else fail_result y True
     | None \<Rightarrow> if \<not> Terminal (res_State r) then fail_result (Failure ''uncertain'' msg_uncertain) True else r)"

fun report_progress :: "time \<Rightarrow> string \<Rightarrow> Progress list \<Rightarrow> Engine \<Rightarrow> Engine" where
  "report_progress now id0 [] e = e"
| "report_progress now id0 (p # ps) e = report_progress now id0 ps (fst (progress now id0 p e))"

definition execute_complete :: "Adapter \<Rightarrow> time \<Rightarrow> time \<Rightarrow> Operation \<Rightarrow> Engine \<Rightarrow> Engine" where
  "execute_complete ad now now' op e =
     (case ad_Execute ad (execution_of op) of
        (ps, r, x) \<Rightarrow> fst (finish now' (o_ID op) (adapter_result r x) (report_progress now (o_ID op) ps e)))"

text \<open>The whole of \<open>execute\<close> when no other thread intervenes; \<open>clk\<close> gives the clock readings.\<close>

definition execute :: "digest \<Rightarrow> Adapter \<Rightarrow> write_outcome \<Rightarrow> (nat \<Rightarrow> time) \<Rightarrow> bool \<Rightarrow> Operation \<Rightarrow> Engine \<Rightarrow> Engine" where
  "execute H ad w clk ctx_done op e =
     (case execute_claim (clk 0) op e of
        (e1, False) \<Rightarrow> e1
      | (e1, True) \<Rightarrow>
          (case execute_check H ad (clk 1) (clk 2) ctx_done op e1 of
             (e2, None) \<Rightarrow> e2
           | (e2, Some c) \<Rightarrow>
               (case execute_source H w (clk 3) (clk 4) op c e2 of
                  (e3, False) \<Rightarrow> e3
                | (e3, True) \<Rightarrow>
                    (case execute_dispatch (clk 5) op e3 of
                       (e4, False) \<Rightarrow> e4
                     | (e4, True) \<Rightarrow> execute_complete ad (clk 6) (clk 7) op e4))))"

section \<open>Restart and the queue loop\<close>

definition restart_result :: "Adapter \<Rightarrow> Operation \<Rightarrow> Result" where
  "restart_result ad o1 =
     (let unknown = mk_result ''recovery-required'' ''restart-inspection'' msg_outcome_unknown True;
          r = (case inspect ad o1 of Inl _ \<Rightarrow> unknown | Inr r \<Rightarrow> if res_State r = [] then unknown else r)
      in if res_State r = ''running'' \<or> res_State r = ''queued''
         then mk_result ''recovery-required'' ''executor-still-running'' msg_executor_survived True else r)"

fun start_loop :: "Adapter \<Rightarrow> time \<Rightarrow> Operation gomap \<Rightarrow> Engine \<Rightarrow> Engine \<times> (err + unit)" where
  "start_loop ad now [] e = (e, Inr ())"
| "start_loop ad now ((k, o1) # rest) e =
     (if \<not> Terminal (o_State o1) \<and> o_State o1 \<noteq> ''queued''
      then (case finish now k (restart_result ad o1) e of
              (e', Inl x) \<Rightarrow> (e', Inl x)
            | (e', Inr _) \<Rightarrow> start_loop ad now rest e')
      else start_loop ad now rest e)"

definition Start :: "Adapter \<Rightarrow> time \<Rightarrow> Engine \<Rightarrow> Engine \<times> (err + unit)" where
  "Start ad now e = start_loop ad now (OperationRecords (e_DB e)) e"

text \<open>
  One wake-up of \<open>loop\<close>: execute the oldest queued operation until there is none, the store is
  unhealthy or the controller stops. The fuel bounds the rounds; each round has its own adapter
  answers, file outcome and clock.
\<close>

record Round =
  rd_Adapter :: Adapter
  rd_Write :: write_outcome
  rd_Clock :: "nat \<Rightarrow> time"
  rd_Done :: bool

fun drain :: "digest \<Rightarrow> (nat \<Rightarrow> Round) \<Rightarrow> nat \<Rightarrow> Engine \<Rightarrow> Engine option" where
  "drain H rounds 0 e = None"
| "drain H rounds (Suc fuel) e =
     (if e_stopped e then Some e
      else if \<not> Healthy (e_DB e) then Some e
      else case OldestQueuedOperation (e_DB e) of
             None \<Rightarrow> Some e
           | Some op \<Rightarrow>
               (let rd = rounds fuel in
                drain H rounds fuel (execute H (rd_Adapter rd) (rd_Write rd) (rd_Clock rd) (rd_Done rd) op e)))"

end
