(* ===== verification/Lifecycle.thy ===== *)
theory Lifecycle
  imports Engine
begin

text \<open>
  How one record of an operation may change. Every transaction of the engine is shown to keep the
  state well formed, to introduce no record (but \<open>apply_txn\<close>), and to change each record along a
  fixed order: plan, identity and creation time stay, a final state stays final, a dispatched
  record stays dispatched, a record that left the queue never returns to it.
\<close>

section \<open>Record-wise relations between tables\<close>

definition opwise :: "(Operation \<Rightarrow> Operation \<Rightarrow> bool) \<Rightarrow> Operation gomap \<Rightarrow> Operation gomap \<Rightarrow> bool" where
  "opwise R ops ops' \<longleftrightarrow>
     (\<forall>k o1 o2. map_of ops k = Some o1 \<longrightarrow> map_of ops' k = Some o2 \<longrightarrow> R o1 o2)"

definition no_new :: "Operation gomap \<Rightarrow> Operation gomap \<Rightarrow> bool" where
  "no_new ops ops' \<longleftrightarrow> (\<forall>k o2. map_of ops' k = Some o2 \<longrightarrow> (\<exists>o1. map_of ops k = Some o1))"

definition recorded :: "Operation \<Rightarrow> bool" where
  "recorded o1 \<longleftrightarrow> (o_State o1 = ''queued'' \<longrightarrow> \<not> o_Dispatched o1 \<and> \<not> o_RecoveryRequired o1) \<and>
     (dispatch_progress \<in> set (o_Events o1) \<longrightarrow> o_Dispatched o1)"

definition op_evolves :: "Operation \<Rightarrow> Operation \<Rightarrow> bool" where
  "op_evolves o1 o2 \<longleftrightarrow> o_ID o2 = o_ID o1 \<and> o_Plan o2 = o_Plan o1 \<and> o_Actor o2 = o_Actor o1 \<and>
     o_CreatedAt o2 = o_CreatedAt o1 \<and>
     (Terminal (o_State o1) \<longrightarrow> Terminal (o_State o2)) \<and>
     (o_State o1 \<noteq> ''queued'' \<longrightarrow> o_State o2 \<noteq> ''queued'') \<and>
     (o_Dispatched o1 \<longrightarrow> o_Dispatched o2) \<and> (recorded o1 \<longrightarrow> recorded o2)"

definition op_quiet :: "Operation \<Rightarrow> Operation \<Rightarrow> bool" where
  "op_quiet o1 o2 \<longleftrightarrow> o_Plan o2 = o_Plan o1 \<and> (o_RecoveryRequired o2 \<longrightarrow> o_RecoveryRequired o1)"

lemma op_evolves_refl [simp]: "op_evolves o1 o1"
  by (simp add: op_evolves_def)

lemma op_evolves_trans: "op_evolves o1 o2 \<Longrightarrow> op_evolves o2 o3 \<Longrightarrow> op_evolves o1 o3"
  by (simp add: op_evolves_def)

lemma op_quiet_refl [simp]: "op_quiet o1 o1"
  by (simp add: op_quiet_def)

lemma op_quiet_trans: "op_quiet o1 o2 \<Longrightarrow> op_quiet o2 o3 \<Longrightarrow> op_quiet o1 o3"
  by (simp add: op_quiet_def)

lemma opwise_refl: "(\<And>o1. R o1 o1) \<Longrightarrow> opwise R ops ops"
  by (auto simp: opwise_def)

lemma opwise_trans:
  assumes "\<And>o1 o2 o3. R o1 o2 \<Longrightarrow> R o2 o3 \<Longrightarrow> R o1 o3"
    and "opwise R a b" and "opwise R b c" and "no_new b c"
  shows "opwise R a c"
  using assms unfolding opwise_def no_new_def by metis

lemma opwise_put:
  assumes "map_of ops k = Some o1" and "R o1 o2" and "\<And>o3. R o3 o3"
  shows "opwise R ops (AList.update k o2 ops)"
  using assms by (auto simp: opwise_def)

lemma opwise_submap: "map_of ops' \<subseteq>\<^sub>m map_of ops \<Longrightarrow> (\<And>o1. R o1 o1) \<Longrightarrow> opwise R ops ops'"
  by (auto simp: opwise_def map_le_def dom_def)

lemma no_new_refl [simp]: "no_new ops ops"
  by (simp add: no_new_def)

lemma no_new_trans: "no_new a b \<Longrightarrow> no_new b c \<Longrightarrow> no_new a c"
  unfolding no_new_def by blast

lemma no_new_put: "map_of ops k = Some o1 \<Longrightarrow> no_new ops (AList.update k o2 ops)"
  by (auto simp: no_new_def)

lemma keyed_put:
  assumes "keyed ops" and "o_ID o2 = k" and "k \<noteq> []"
  shows "keyed (AList.update k o2 ops)"
proof -
  have "o_ID v = j \<and> j \<noteq> []" if "(j, v) \<in> set (AList.update k o2 ops)" for j v
    using that
  proof (rule all_entries_update [of ops "\<lambda>j v. o_ID v = j \<and> j \<noteq> []", rotated 2])
    show "o_ID v = j \<and> j \<noteq> []" if "(j, v) \<in> set ops" for j v
      using that assms(1) unfolding keyed_def by blast
  qed (use assms(2,3) in simp)
  moreover have "wf_map (AList.update k o2 ops)" using assms(1) by (simp add: keyed_def)
  ultimately show ?thesis unfolding keyed_def by blast
qed

text \<open>
  \<open>lawful R ops ops'\<close>: the change from one table to the next keeps it keyed, adds no record,
  drops no record that a remaining one recovers, and relates the records by \<open>R\<close>.
\<close>

definition parents_kept :: "Operation gomap \<Rightarrow> Operation gomap \<Rightarrow> bool" where
  "parents_kept ops ops' \<longleftrightarrow> (\<forall>k o2 q. map_of ops' k = Some o2 \<longrightarrow>
     map_of ops (d_RecoveryID (o_Draft o2)) = Some q \<longrightarrow> (\<exists>q'. map_of ops' (d_RecoveryID (o_Draft o2)) = Some q'))"

definition lawful :: "(Operation \<Rightarrow> Operation \<Rightarrow> bool) \<Rightarrow> Operation gomap \<Rightarrow> Operation gomap \<Rightarrow> bool" where
  "lawful R ops ops' \<longleftrightarrow> (keyed ops \<longrightarrow> keyed ops') \<and> no_new ops ops' \<and> parents_kept ops ops' \<and> opwise R ops ops'"

text \<open>What the lemmas below need of a relation on records.\<close>

locale record_order =
  fixes R :: "Operation \<Rightarrow> Operation \<Rightarrow> bool"
  assumes refl [simp]: "R o1 o1"
    and trans: "R o1 o2 \<Longrightarrow> R o2 o3 \<Longrightarrow> R o1 o3"
    and same_plan: "R o1 o2 \<Longrightarrow> o_Plan o2 = o_Plan o1"
begin

lemma lawful_refl: "lawful R ops ops"
  by (simp add: lawful_def opwise_refl parents_kept_def)

lemma parents_kept_trans:
  assumes "parents_kept a b" and "parents_kept b c" and "no_new b c" and "opwise R b c"
  shows "parents_kept a c"
  unfolding parents_kept_def
proof (intro allI impI)
  fix k o3 q assume c: "map_of c k = Some o3" and q: "map_of a (d_RecoveryID (o_Draft o3)) = Some q"
  from assms(3) c obtain o2 where b: "map_of b k = Some o2" unfolding no_new_def by blast
  with assms(4) c have "R o2 o3" unfolding opwise_def by blast
  then have "o_Draft o3 = o_Draft o2" by (simp add: same_plan)
  with assms(1) b q obtain q' where "map_of b (d_RecoveryID (o_Draft o3)) = Some q'"
    unfolding parents_kept_def by metis
  with assms(2) c show "\<exists>q'. map_of c (d_RecoveryID (o_Draft o3)) = Some q'"
    unfolding parents_kept_def by blast
qed

lemma lawful_trans:
  assumes "lawful R a b" and "lawful R b c"
  shows "lawful R a c"
proof -
  from assms have ab: "keyed a \<longrightarrow> keyed b" "no_new a b" "parents_kept a b" "opwise R a b"
    and bc: "keyed b \<longrightarrow> keyed c" "no_new b c" "parents_kept b c" "opwise R b c"
    by (simp_all add: lawful_def)
  have "opwise R a c" using ab(4) bc(4,2) by (rule opwise_trans [rotated]) (rule trans)
  moreover have "no_new a c" using ab(2) bc(2) by (rule no_new_trans)
  moreover have "parents_kept a c" using ab(3) bc(3,2,4) by (rule parents_kept_trans)
  ultimately show ?thesis using ab(1) bc(1) by (simp add: lawful_def)
qed

lemma lawful_put:
  assumes "map_of ops k = Some o1" and "R o1 o2" and "o_ID o2 = o_ID o1" and "keyed ops"
  shows "lawful R ops (AList.update k o2 ops)"
proof -
  have "parents_kept ops (AList.update k o2 ops)" by (auto simp: parents_kept_def)
  then show ?thesis
    using assms keyed_lookup [OF assms(4,1)] unfolding lawful_def
    by (auto intro: keyed_put no_new_put opwise_put)
qed

lemma lawful_prune:
  assumes "keyed ops"
  shows "lawful R ops (prune_operations now ops)"
proof -
  have "map_of (prune_operations now ops) \<subseteq>\<^sub>m map_of ops"
    using assms by (auto simp: keyed_def map_le_def prune_operations_lookup)
  moreover have "parents_kept ops (prune_operations now ops)"
    unfolding parents_kept_def using prune_operations_parent [OF assms] by blast
  ultimately show ?thesis
    unfolding lawful_def using assms
    by (auto simp: keyed_prune no_new_def map_le_def dom_def intro: opwise_submap)
qed

end

text \<open>What the two shortest transactions write, branch by branch.\<close>

lemma cancel_txn_cases:
  assumes "cancel_txn now a id0 n s = Inr (s', u)"
  obtains o1 where "map_of (st_Operations s) id0 = Some o1" and "\<not> Terminal (o_State o1)"
    and "RoleAllows (ac_Role a) (d_Action (o_Draft o1))" and "n = 0 \<or> n = o_Revision o1"
    and "s' = Event now (ac_ID a) ''operation.cancel'' id0
           (if o_State o1 = ''queued'' then ''cancelled'' else ''cancel-requested'')
           (s\<lparr>st_Operations := AList.update id0
              (o1\<lparr>o_CancelRequested := True,
                  o_State := (if o_State o1 = ''queued'' then ''cancelled'' else ''cancel-requested''),
                  o_Phase := (if o_State o1 = ''queued'' then ''cancelled-before-dispatch'' else ''cancellation-requested''),
                  o_UpdatedAt := now, o_Revision := o_Revision o1 + 1\<rparr>) (st_Operations s)\<rparr>)"
  using assms unfolding cancel_txn_def Let_def by (auto split: option.splits)

definition claimed :: "time \<Rightarrow> string \<Rightarrow> string \<Rightarrow> string \<Rightarrow> Operation \<Rightarrow> Operation" where
  "claimed now st ph m o1 = o1\<lparr>o_State := st, o_Phase := ph, o_Message := m,
     o_Revision := o_Revision o1 + 1, o_UpdatedAt := now\<rparr>"

lemma claim_txn_cases:
  assumes "claim_txn now id0 s = Inr (s', u)" and "keyed (st_Operations s)"
  obtains o1 st ph m where "map_of (st_Operations s) id0 = Some o1" and "o_State o1 = ''queued''"
    and "s' = s\<lparr>st_Operations := AList.update id0 (claimed now st ph m o1) (st_Operations s)\<rparr>"
    and "st = ''failed'' \<or> st = ''running''"
    and "st = ''running'' \<Longrightarrow> recoveryAdmission (st_Operations s) (o_Draft o1) id0 = None \<and>
      now \<le> p_ExpiresAt (o_Plan o1) \<and>
      (\<exists>cr. map_of (st_Credentials s) (o_Actor o1) = Some cr \<and> \<not> cr_Revoked cr \<and> now \<le> cr_ExpiresAt cr \<and>
            RoleAllows (cr_Role cr) (d_Action (o_Draft o1)))"
proof -
  from assms(1) obtain o1 where o1: "map_of (st_Operations s) id0 = Some o1" "o_State o1 = ''queued''"
    by (cases "map_of (st_Operations s) id0")
       (auto simp: claim_txn_def operation_at_def zero_operation_def Let_def split: if_splits)
  have id0: "o_ID o1 = id0" and at: "operation_at (st_Operations s) id0 = o1"
    using o1 keyed_lookup [OF assms(2) o1(1)] by (auto simp: operation_at_def)
  have run: "claimed now ''running'' ''preflight'' (o_Message o1) o1
      = o1\<lparr>o_State := ''running'', o_Phase := ''preflight'', o_Revision := o_Revision o1 + 1, o_UpdatedAt := now\<rparr>"
    by (simp add: claimed_def)
  show thesis
  proof (cases "recoveryAdmission (st_Operations s) (o_Draft o1) id0 = None \<and>
      now \<le> p_ExpiresAt (o_Plan o1) \<and>
      (\<exists>cr. map_of (st_Credentials s) (o_Actor o1) = Some cr \<and> \<not> cr_Revoked cr \<and> now \<le> cr_ExpiresAt cr \<and>
            RoleAllows (cr_Role cr) (d_Action (o_Draft o1)))")
    case True
    then have "s' = s\<lparr>st_Operations := AList.update id0 (claimed now ''running'' ''preflight'' (o_Message o1) o1) (st_Operations s)\<rparr>"
      using assms(1) o1 unfolding claim_txn_def Let_def at id0 run by (auto simp: id0)
    with that [OF o1] True show thesis by blast
  next
    case False
    then have "s' = s\<lparr>st_Operations := AList.update id0 (claimed now ''failed'' ''blocked-by-recovery'' msg_blocked o1) (st_Operations s)\<rparr> \<or>
      s' = s\<lparr>st_Operations := AList.update id0 (claimed now ''failed'' ''authorization-or-plan-expired'' msg_authorization o1) (st_Operations s)\<rparr>"
      using assms(1) o1 unfolding claim_txn_def Let_def at id0 claimed_def
      by (auto simp: id0 split: if_splits option.splits)
    with that [OF o1] show thesis by fastforce
  qed
qed

context record_order
begin

lemma settle_chain_lawful:
  assumes "\<And>o1. R o1 (settled now id0 by_op o1)"
  shows "keyed ops \<Longrightarrow> lawful R ops (settle_chain now id0 by_op ks ops)"
proof (induction ks arbitrary: ops)
  case Nil
  show ?case by (simp add: lawful_refl)
next
  case (Cons k ks)
  show ?case
  proof (cases "k = id0 \<or> \<not> o_RecoveryRequired (operation_at ops k)")
    case True
    with Cons show ?thesis by simp
  next
    case False
    then obtain old where old: "map_of ops k = Some old" "operation_at ops k = old"
      by (cases "map_of ops k") (auto simp: operation_at_def zero_operation_def)
    let ?ops = "AList.update k (settled now id0 by_op old) ops"
    have step: "lawful R ops ?ops"
      using Cons.prems assms by (intro lawful_put [OF old(1)]) (auto simp: settled_def Let_def)
    with Cons.prems have "keyed ?ops" by (simp add: lawful_def)
    with Cons.IH step have "lawful R ops (settle_chain now id0 by_op ks ?ops)"
      by (blast intro: lawful_trans)
    with False old keyed_lookup [OF Cons.prems old(1)] show ?thesis by simp
  qed
qed

lemma finish_txn_lawful:
  assumes fin: "finish_txn now id0 r s = Inr (s', u)" and wf: "wf_state s"
    and final: "\<And>o1. map_of (st_Operations s) id0 = Some o1 \<Longrightarrow>
      R o1 (finished now (effective_result (d_Action (o_Draft o1)) r) o1)"
    and settle: "\<And>by_op o1. R o1 (settled now id0 by_op o1)"
  shows "lawful R (st_Operations s) (st_Operations s') \<and> wf_state s'"
proof -
  from fin obtain o1 where o1: "map_of (st_Operations s) id0 = Some o1"
    by (auto simp: finish_txn_def split: option.splits)
  let ?o2 = "finished now (effective_result (d_Action (o_Draft o1)) r) o1"
  let ?ops = "AList.update id0 ?o2 (st_Operations s)"
  have keyed: "keyed (st_Operations s)" using wf by (simp add: wf_state_def)
  have put: "lawful R (st_Operations s) ?ops"
    using keyed final [OF o1] by (intro lawful_put [OF o1]) (auto simp: finished_def)
  then have "keyed ?ops" using keyed by (simp add: lawful_def)
  then have "lawful R (st_Operations s) (settle_chain now id0 ?o2 ks ?ops)" for ks
    using put settle settle_chain_lawful by (blast intro: lawful_trans)
  with put fin o1 have "lawful R (st_Operations s) (st_Operations s')"
    by (auto simp: finish_txn_def Event_def Let_def split: if_splits sum.splits)
  moreover from fin o1 have "st_Credentials s' = st_Credentials s" "st_Sessions s' = st_Sessions s"
    "st_Plans s' = st_Plans s" "st_Idempotency s' = st_Idempotency s"
    by (auto simp: finish_txn_def Event_def Let_def split: if_splits sum.splits)
  ultimately show ?thesis using wf by (simp add: wf_state_def lawful_def)
qed

lemma put_lawful:
  assumes "map_of (st_Operations s) k = Some o1" and "R o1 o2" and "o_ID o2 = o_ID o1" and "wf_state s"
    and "st_Operations s' = AList.update k o2 (st_Operations s)"
    and "st_Credentials s' = st_Credentials s" "st_Sessions s' = st_Sessions s"
    "st_Plans s' = st_Plans s" "st_Idempotency s' = st_Idempotency s"
  shows "lawful R (st_Operations s) (st_Operations s') \<and> wf_state s'"
proof -
  have "keyed (st_Operations s)" using assms(4) by (simp add: wf_state_def)
  with assms(1-3,5) have "lawful R (st_Operations s) (st_Operations s')" by (simp add: lawful_put)
  with assms show ?thesis by (simp add: wf_state_def lawful_def)
qed

lemma cancel_txn_lawful:
  assumes "cancel_txn now a id0 n s = Inr (s', u)" and "wf_state s"
    and step: "\<And>o1 st ph. \<not> Terminal (o_State o1) \<Longrightarrow> st \<noteq> ''queued'' \<Longrightarrow>
      R o1 (o1\<lparr>o_CancelRequested := True, o_State := st, o_Phase := ph,
               o_UpdatedAt := now, o_Revision := o_Revision o1 + 1\<rparr>)"
  shows "lawful R (st_Operations s) (st_Operations s') \<and> wf_state s'"
  using assms(1)
proof (cases rule: cancel_txn_cases)
  case (1 o1)
  show ?thesis
    by (rule put_lawful [OF 1(1) step [OF 1(2)] _ assms(2)]) (auto simp: 1(5) Event_def)
qed

lemma claim_txn_lawful:
  assumes "claim_txn now id0 s = Inr (s', u)" and "wf_state s"
    and step: "\<And>o1 st ph m. o_State o1 = ''queued'' \<Longrightarrow> st \<noteq> ''queued'' \<Longrightarrow> R o1 (claimed now st ph m o1)"
  shows "lawful R (st_Operations s) (st_Operations s') \<and> wf_state s'"
proof -
  have "keyed (st_Operations s)" using assms(2) by (simp add: wf_state_def)
  with assms(1) show ?thesis
  proof (cases rule: claim_txn_cases)
    case (1 o1 st ph m)
    show ?thesis
      by (rule put_lawful [OF 1(1) step [OF 1(2)] _ assms(2)]) (use 1 in \<open>auto simp: claimed_def\<close>)
  qed
qed

lemma progress_txn_lawful:
  assumes "progress_txn now id0 p s = Inr (s', u)" and "wf_state s"
    and step: "\<And>o1. map_of (st_Operations s) id0 = Some o1 \<Longrightarrow>
      R o1 (o1\<lparr>o_Phase := pg_Phase p, o_Dispatched := o_Dispatched o1 \<or> pg_Phase p = ''dispatch-intent'',
                o_Message := pg_Message p, o_UpdatedAt := now, o_Revision := o_Revision o1 + 1,
                o_Events := keep_last 128 (o_Events o1 @ [p])\<rparr>)"
  shows "lawful R (st_Operations s) (st_Operations s') \<and> wf_state s'"
proof -
  from assms(1) obtain o1 where o1: "map_of (st_Operations s) id0 = Some o1"
    by (auto simp: progress_txn_def split: option.splits)
  show ?thesis
    using assms(1) o1
    by (intro put_lawful [OF o1 step [OF o1] _ assms(2)]) (auto simp: progress_txn_def Event_def Let_def)
qed

lemma source_updated_txn_lawful:
  assumes "source_updated_txn now id0 s = Inr (s', u)" and "wf_state s"
    and "map_of (st_Operations s) id0 = Some o1"
    and step: "R o1 (o1\<lparr>o_SourceUpdated := True, o_Phase := ''source-updated'',
                   o_Revision := o_Revision o1 + 1, o_UpdatedAt := now\<rparr>)"
  shows "lawful R (st_Operations s) (st_Operations s') \<and> wf_state s'"
proof -
  have "o_ID o1 = id0" using assms(2,3) by (auto simp: wf_state_def dest: keyed_lookup)
  with assms(1,3) show ?thesis
    by (intro put_lawful [OF assms(3) step _ assms(2)])
       (auto simp: source_updated_txn_def operation_at_def Let_def)
qed

lemma plan_txn_lawful:
  assumes "plan_txn now a p s = Inr (s', u)" and "wf_state s"
  shows "lawful R (st_Operations s) (st_Operations s') \<and> wf_state s'"
  using assms by (auto simp: plan_txn_def Event_def wf_state_def lawful_refl split: if_splits)

end

interpretation evolving: record_order op_evolves
proof unfold_locales
  show "op_evolves o1 o2 \<Longrightarrow> o_Plan o2 = o_Plan o1" for o1 o2 by (simp add: op_evolves_def)
qed (auto intro: op_evolves_trans)

interpretation quiet: record_order op_quiet
proof unfold_locales
  show "op_quiet o1 o2 \<Longrightarrow> o_Plan o2 = o_Plan o1" for o1 o2 by (simp add: op_quiet_def)
qed (auto intro: op_quiet_trans)

section \<open>How each write moves a record\<close>

lemma Terminal_simps [simp]:
  "Terminal ''failed''" "Terminal ''succeeded''" "Terminal ''cancelled''" "Terminal ''recovery-required''"
  "\<not> Terminal ''queued''" "\<not> Terminal ''running''" "\<not> Terminal ''cancel-requested''" "\<not> Terminal []"
  by (simp_all add: Terminal_def)

lemma keep_last_set: "set (keep_last n xs) \<subseteq> set xs"
  by (auto simp: keep_last_def dest: in_set_dropD)

lemma keep_last_length: "length (keep_last n xs) \<le> n"
  by (simp add: keep_last_def)

lemma finished_evolves:
  assumes "Terminal (o_State o1) \<longrightarrow> Terminal (res_State r)" and "res_State r \<noteq> ''queued''"
  shows "op_evolves o1 (finished now r o1)"
  using assms by (auto simp: op_evolves_def finished_def recorded_def)

lemma finished_quiet:
  "\<not> res_RecoveryRequired r \<Longrightarrow> res_State r \<noteq> ''recovery-required'' \<Longrightarrow> op_quiet o1 (finished now r o1)"
  by (simp add: op_quiet_def finished_def)

lemma settled_evolves: "op_evolves o1 (settled now id0 by_op o1)"
  by (auto simp: op_evolves_def settled_def recorded_def Let_def)

lemma settled_quiet: "op_quiet o1 (settled now id0 by_op o1)"
  by (simp add: op_quiet_def settled_def Let_def)

lemma cancel_evolves:
  "\<not> Terminal (o_State o1) \<Longrightarrow> st \<noteq> ''queued'' \<Longrightarrow>
   op_evolves o1 (o1\<lparr>o_CancelRequested := True, o_State := st, o_Phase := ph, o_UpdatedAt := now, o_Revision := n\<rparr>)"
  by (auto simp: op_evolves_def recorded_def)

lemma claimed_evolves: "o_State o1 = ''queued'' \<Longrightarrow> st \<noteq> ''queued'' \<Longrightarrow> op_evolves o1 (claimed now st ph m o1)"
  by (auto simp: op_evolves_def recorded_def claimed_def)

lemma progress_evolves:
  assumes "o_State o1 = ''queued'' \<longrightarrow> pg_Phase p \<noteq> ''dispatch-intent''"
  shows "op_evolves o1 (o1\<lparr>o_Phase := ph, o_Dispatched := o_Dispatched o1 \<or> pg_Phase p = ''dispatch-intent'',
     o_Message := m, o_UpdatedAt := now, o_Revision := n, o_Events := keep_last 128 (o_Events o1 @ [p])\<rparr>)"
  using assms keep_last_set [of 128 "o_Events o1 @ [p]"]
  by (auto simp: op_evolves_def recorded_def dispatch_progress_def)

section \<open>The same through a transaction on the store\<close>

text \<open>
  \<open>sound_store\<close>: both the visible state and the file are well formed, the file is the visible
  state unless a write failed, and even then it is no older than the visible state.
\<close>

definition sound_store :: "Store \<Rightarrow> bool" where
  "sound_store db \<longleftrightarrow> wf_state (db_state db) \<and> wf_state (db_disk db) \<and>
     (\<not> db_poisoned db \<longrightarrow> db_disk db = db_state db) \<and>
     opwise op_evolves (st_Operations (db_state db)) (st_Operations (db_disk db))"

lemma commit_operations [simp]:
  "st_Operations (commit_state now v) = prune_operations now (st_Operations v)"
  "st_Credentials (commit_state now v) = st_Credentials v"
  by (simp_all add: commit_state_def)

context record_order
begin

lemma commit_lawful:
  assumes "wf_state v" and "lawful R (prune_operations now ops) (st_Operations v)" and "keyed ops"
  shows "lawful R ops (st_Operations (commit_state now v))"
proof -
  have "lawful R ops (st_Operations v)"
    using lawful_prune [OF assms(3)] assms(2) by (rule lawful_trans)
  moreover have "lawful R (st_Operations v) (prune_operations now (st_Operations v))"
    using assms(1) by (intro lawful_prune) (simp add: wf_state_def)
  ultimately show ?thesis by (auto intro: lawful_trans)
qed

lemma Update_lawful:
  assumes "wf_state (db_state db)"
    and "\<And>v r. fn (prune now (db_state db)) = Inr (v, r) \<Longrightarrow>
      lawful R (prune_operations now (OperationRecords db)) (st_Operations v) \<and> wf_state v"
  shows "lawful R (OperationRecords db) (OperationRecords (fst (Update now fn db)))"
proof (cases rule: Update_cases [of db now fn])
  case (committed v r)
  with assms show ?thesis
    by (auto simp: OperationRecords_def wf_state_def intro!: commit_lawful [unfolded commit_operations])
qed (simp_all add: OperationRecords_def lawful_refl)

end

lemma Update_sound_store:
  assumes sound: "sound_store db"
    and body: "\<And>v r. fn (prune now (db_state db)) = Inr (v, r) \<Longrightarrow>
      opwise op_evolves (OperationRecords db) (st_Operations v) \<and> wf_state v"
  shows "sound_store (fst (Update now fn db))"
proof (cases rule: Update_cases [of db now fn])
  case (unwritten v r disk)
  have wf: "wf_state (db_state db)" and eq: "db_disk db = db_state db"
    using sound unwritten(1) by (auto simp: sound_store_def)
  have v: "opwise op_evolves (OperationRecords db) (st_Operations v)" "wf_state v"
    using body [OF unwritten(2)] by auto
  have "lawful op_evolves (st_Operations v) (st_Operations (commit_state now v))"
    using v(2) evolving.lawful_prune by (simp add: wf_state_def)
  then have "opwise op_evolves (OperationRecords db) (st_Operations (commit_state now v))"
    using v(1) by (auto simp: lawful_def intro: opwise_trans op_evolves_trans)
  with unwritten(3,4) sound wf eq v(2) show ?thesis
    by (auto simp: sound_store_def OperationRecords_def wf_commit opwise_refl)
next
  case (committed v r)
  then show ?thesis using sound body by (auto simp: sound_store_def wf_commit opwise_refl)
qed (use sound in \<open>simp_all\<close>)

lemma Update_sound:
  assumes "sound_store db"
    and "\<And>v r. fn (prune now (db_state db)) = Inr (v, r) \<Longrightarrow>
      lawful op_evolves (prune_operations now (OperationRecords db)) (st_Operations v) \<and> wf_state v"
  shows "sound_store (fst (Update now fn db))"
proof (rule Update_sound_store [OF assms(1)])
  fix v r assume "fn (prune now (db_state db)) = Inr (v, r)"
  moreover have "lawful op_evolves (OperationRecords db) (prune_operations now (OperationRecords db))"
    using assms(1) by (intro evolving.lawful_prune) (simp add: sound_store_def wf_state_def OperationRecords_def)
  ultimately show "opwise op_evolves (OperationRecords db) (st_Operations v) \<and> wf_state v"
    using assms(2) by (meson evolving.lawful_trans lawful_def)
qed

section \<open>The engine's operations\<close>

abbreviation operations :: "Engine \<Rightarrow> Operation gomap" where
  "operations e \<equiv> OperationRecords (e_DB e)"

definition steady :: "Engine \<Rightarrow> Engine \<Rightarrow> bool" where
  "steady e e' \<longleftrightarrow> (sound_store (e_DB e) \<longrightarrow> sound_store (e_DB e') \<and>
     lawful op_evolves (operations e) (operations e') \<and>
     (db_disk (e_DB e') = db_disk (e_DB e) \<or>
      lawful op_evolves (operations e) (st_Operations (db_disk (e_DB e')))))"

definition calm :: "Engine \<Rightarrow> Engine \<Rightarrow> bool" where
  "calm e e' \<longleftrightarrow> (sound_store (e_DB e) \<longrightarrow> lawful op_quiet (operations e) (operations e'))"

lemma steady_refl [simp]: "steady e e"
  by (simp add: steady_def evolving.lawful_refl)

lemma calm_refl [simp]: "calm e e"
  by (simp add: calm_def quiet.lawful_refl)

lemma steady_trans: "steady a b \<Longrightarrow> steady b c \<Longrightarrow> steady a c"
  unfolding steady_def by (metis evolving.lawful_trans)

lemma calm_trans: "steady a b \<Longrightarrow> calm a b \<Longrightarrow> calm b c \<Longrightarrow> calm a c"
  by (auto simp: steady_def calm_def intro: quiet.lawful_trans)

lemma with_db_simps [simp]:
  "fst (with_db e r) = e\<lparr>e_DB := fst r\<rparr>" "snd (with_db e r) = snd r"
  by (simp_all add: with_db_def)

lemma with_db_eq: "with_db e (Update now fn db) = (e', r) \<Longrightarrow> e' = e\<lparr>e_DB := fst (Update now fn db)\<rparr>"
  by (simp add: with_db_def)

lemma steady_file [simp]: "steady (e\<lparr>e_File := f\<rparr>) e' = steady e e'" "steady e (e'\<lparr>e_File := f\<rparr>) = steady e e'"
  by (simp_all add: steady_def)

lemma calm_file [simp]: "calm (e\<lparr>e_File := f\<rparr>) e' = calm e e'" "calm e (e'\<lparr>e_File := f\<rparr>) = calm e e'"
  by (simp_all add: calm_def)

lemma Update_disk:
  assumes "sound_store db"
    and "\<And>v r. fn (prune now (db_state db)) = Inr (v, r) \<Longrightarrow>
      lawful op_evolves (prune_operations now (OperationRecords db)) (st_Operations v) \<and> wf_state v"
  shows "db_disk (fst (Update now fn db)) = db_disk db \<or>
    lawful op_evolves (OperationRecords db) (st_Operations (db_disk (fst (Update now fn db))))"
proof -
  have keyed: "keyed (OperationRecords db)"
    using assms(1) by (simp add: sound_store_def wf_state_def OperationRecords_def)
  have commit: "lawful op_evolves (OperationRecords db) (st_Operations (commit_state now v))"
    if "fn (prune now (db_state db)) = Inr (v, r)" for v r
    using assms(2) [OF that] keyed evolving.commit_lawful by blast
  show ?thesis
    by (cases rule: Update_cases [of db now fn]) (use commit in \<open>auto simp del: commit_operations\<close>)
qed

lemma Update_steady:
  assumes "\<And>v r. wf_state (prune now (db_state (e_DB e))) \<Longrightarrow> sound_store (e_DB e) \<Longrightarrow>
      fn (prune now (db_state (e_DB e))) = Inr (v, r) \<Longrightarrow>
      lawful op_evolves (prune_operations now (operations e)) (st_Operations v) \<and> wf_state v"
  shows "steady e (e\<lparr>e_DB := fst (Update now fn (e_DB e))\<rparr>)"
  unfolding steady_def
proof
  assume snd: "sound_store (e_DB e)"
  then have wf: "wf_state (prune now (db_state (e_DB e)))" "wf_state (db_state (e_DB e))"
    by (auto simp: sound_store_def wf_prune)
  note body = assms [OF wf(1) snd]
  show "sound_store (e_DB (e\<lparr>e_DB := fst (Update now fn (e_DB e))\<rparr>)) \<and>
      lawful op_evolves (operations e) (operations (e\<lparr>e_DB := fst (Update now fn (e_DB e))\<rparr>)) \<and>
      (db_disk (e_DB (e\<lparr>e_DB := fst (Update now fn (e_DB e))\<rparr>)) = db_disk (e_DB e) \<or>
       lawful op_evolves (operations e) (st_Operations (db_disk (e_DB (e\<lparr>e_DB := fst (Update now fn (e_DB e))\<rparr>)))))"
    using Update_sound [where fn = fn, OF snd body] evolving.Update_lawful [where fn = fn, OF wf(2) body]
      Update_disk [where fn = fn, OF snd body] by simp
qed

lemma Update_calm:
  assumes "\<And>v r. wf_state (prune now (db_state (e_DB e))) \<Longrightarrow> sound_store (e_DB e) \<Longrightarrow>
      fn (prune now (db_state (e_DB e))) = Inr (v, r) \<Longrightarrow>
      lawful op_quiet (prune_operations now (operations e)) (st_Operations v) \<and> wf_state v"
  shows "calm e (e\<lparr>e_DB := fst (Update now fn (e_DB e))\<rparr>)"
  unfolding calm_def
proof
  assume snd: "sound_store (e_DB e)"
  then have wf: "wf_state (prune now (db_state (e_DB e)))" "wf_state (db_state (e_DB e))"
    by (auto simp: sound_store_def wf_prune)
  show "lawful op_quiet (operations e) (operations (e\<lparr>e_DB := fst (Update now fn (e_DB e))\<rparr>))"
    using quiet.Update_lawful [where fn = fn, OF wf(2) assms [OF wf(1) snd]] by simp
qed

lemma pruned_lookup:
  assumes "sound_store (e_DB e)" and "map_of (st_Operations (prune now (db_state (e_DB e)))) k = Some o1"
  shows "map_of (operations e) k = Some o1"
  using assms by (auto simp: sound_store_def wf_state_def keyed_def prune_operations_lookup OperationRecords_def)

lemma effective_state:
  "res_State r \<noteq> ''queued'' \<Longrightarrow> res_State (effective_result a r) \<noteq> ''queued''"
  "Terminal (res_State r) \<Longrightarrow> Terminal (res_State (effective_result a r))"
  by (auto simp: effective_result_def read_only_result_def mk_result_def)

lemma effective_quiet:
  "\<not> res_RecoveryRequired r \<Longrightarrow> res_State r \<noteq> ''recovery-required'' \<Longrightarrow>
   \<not> res_RecoveryRequired (effective_result a r) \<and> res_State (effective_result a r) \<noteq> ''recovery-required''"
  by (auto simp: effective_result_def read_only_result_def mk_result_def)

lemma effective_evidence:
  "EvidenceAction a \<Longrightarrow>
   \<not> res_RecoveryRequired (effective_result a r) \<and> res_State (effective_result a r) \<noteq> ''recovery-required''"
  by (auto simp: effective_result_def read_only_result_def mk_result_def)

text \<open>\<open>finish\<close> may settle a running record in any way but requeue it, a final one only finally.\<close>

lemma finish_steady:
  assumes "res_State r \<noteq> ''queued''"
    and "\<And>o1. map_of (operations e) id0 = Some o1 \<Longrightarrow> Terminal (o_State o1) \<Longrightarrow> Terminal (res_State r)"
  shows "steady e (fst (finish now id0 r e))"
  unfolding finish_def with_db_simps
proof (rule Update_steady)
  fix v u assume wf: "wf_state (prune now (db_state (e_DB e)))" and snd: "sound_store (e_DB e)"
    and fin: "finish_txn now id0 r (prune now (db_state (e_DB e))) = Inr (v, u)"
  have "op_evolves o1 (finished now (effective_result (d_Action (o_Draft o1)) r) o1)"
    if "map_of (st_Operations (prune now (db_state (e_DB e)))) id0 = Some o1" for o1
    using assms effective_state pruned_lookup [OF snd that] by (intro finished_evolves) blast+
  from evolving.finish_txn_lawful [OF fin wf this settled_evolves]
  show "lawful op_evolves (prune_operations now (operations e)) (st_Operations v) \<and> wf_state v"
    by (simp add: OperationRecords_def)
qed

lemma finish_calm:
  assumes "(\<not> res_RecoveryRequired r \<and> res_State r \<noteq> ''recovery-required'')
    \<or> (\<forall>o1. map_of (operations e) id0 = Some o1 \<longrightarrow> EvidenceAction (d_Action (o_Draft o1)))"
  shows "calm e (fst (finish now id0 r e))"
  unfolding finish_def with_db_simps
proof (rule Update_calm)
  fix v u assume wf: "wf_state (prune now (db_state (e_DB e)))" and snd: "sound_store (e_DB e)"
    and fin: "finish_txn now id0 r (prune now (db_state (e_DB e))) = Inr (v, u)"
  have "op_quiet o1 (finished now (effective_result (d_Action (o_Draft o1)) r) o1)"
    if "map_of (st_Operations (prune now (db_state (e_DB e)))) id0 = Some o1" for o1
    using assms effective_quiet effective_evidence pruned_lookup [OF snd that] by (intro finished_quiet) blast+
  from quiet.finish_txn_lawful [OF fin wf this settled_quiet]
  show "lawful op_quiet (prune_operations now (operations e)) (st_Operations v) \<and> wf_state v"
    by (simp add: OperationRecords_def)
qed

lemma CreatePlan_db:
  "(\<exists>p. fst (CreatePlan H ad now nid a d e) = e\<lparr>e_DB := fst (Update now (plan_txn now a p) (e_DB e))\<rparr>)
   \<or> fst (CreatePlan H ad now nid a d e) = e"
  unfolding CreatePlan_def
  by (auto split: sum.splits option.splits prod.splits)

lemma plan_steady: "steady e (e\<lparr>e_DB := fst (Update now (plan_txn now a p) (e_DB e))\<rparr>)"
  using evolving.plan_txn_lawful by (intro Update_steady) (fastforce simp: OperationRecords_def)

lemma plan_calm: "calm e (e\<lparr>e_DB := fst (Update now (plan_txn now a p) (e_DB e))\<rparr>)"
  using quiet.plan_txn_lawful by (intro Update_calm) (fastforce simp: OperationRecords_def)

lemma CreatePlan_steady: "steady e (fst (CreatePlan H ad now nid a d e))"
  using CreatePlan_db [of H ad now nid a d e] plan_steady by auto

lemma CreatePlan_calm: "calm e (fst (CreatePlan H ad now nid a d e))"
  using CreatePlan_db [of H ad now nid a d e] plan_calm by auto

lemma Cancel_fst: "fst (Cancel now a id0 n e) = e\<lparr>e_DB := fst (Update now (cancel_txn now a id0 n) (e_DB e))\<rparr>"
  by (simp add: Cancel_def split: prod.split sum.split)

lemma Cancel_steady: "steady e (fst (Cancel now a id0 n e))"
  unfolding Cancel_fst
  using evolving.cancel_txn_lawful cancel_evolves by (intro Update_steady) (fastforce simp: OperationRecords_def)

lemma Cancel_calm: "calm e (fst (Cancel now a id0 n e))"
  unfolding Cancel_fst
  using quiet.cancel_txn_lawful by (intro Update_calm) (fastforce simp: OperationRecords_def op_quiet_def)

lemma recover_plan_fst:
  "fst (recover_plan H ad now nid a id0 e) = e
   \<or> (\<exists>d. fst (recover_plan H ad now nid a id0 e) = fst (CreatePlan H ad now nid a d e))"
  by (simp add: recover_plan_def Let_def split: sum.split) blast

lemma Recover_cases:
  obtains (same) "fst (Recover H ad now nid a id0 e) = e"
  | (plan) d where "fst (Recover H ad now nid a id0 e) = fst (CreatePlan H ad now nid a d e)"
  | (finish) r o1 where "fst (Recover H ad now nid a id0 e) = fst (finish now id0 r e)" "Terminal (res_State r)"
      "res_State r \<noteq> ''recovery-required''" "\<not> res_RecoveryRequired r"
      "map_of (operations e) id0 = Some o1" "o_RecoveryRequired o1"
proof -
  have case_fst: "fst (case y of (e', Inl x) \<Rightarrow> (e', Inl x) | (e', Inr u) \<Rightarrow> (e', Inl z)) = fst y"
    for y :: "Engine \<times> (err + unit)" and z by (cases y) (simp split: sum.split)
  have "fst (Recover H ad now nid a id0 e) = e
    \<or> fst (Recover H ad now nid a id0 e) = fst (recover_plan H ad now nid a id0 e)
    \<or> (\<exists>r. fst (Recover H ad now nid a id0 e) = fst (finish now id0 r e) \<and> Terminal (res_State r) \<and>
        res_State r \<noteq> ''recovery-required'' \<and> \<not> res_RecoveryRequired r \<and>
        (\<exists>o1. map_of (operations e) id0 = Some o1 \<and> o_RecoveryRequired o1))"
  proof (cases "Operation_of e id0")
    case (Inr o1)
    then have "map_of (operations e) id0 = Some o1"
      by (auto simp: Operation_of_def find_operation_def OperationRecords_def split: option.splits)
    then show ?thesis
      unfolding Recover_def Inr by (cases "inspect ad o1") (auto simp: case_fst)
  qed (simp add: Recover_def)
  then show thesis
    using recover_plan_fst [of H ad now nid a id0 e] same plan finish by metis
qed

lemma Terminal_not_queued: "Terminal st \<Longrightarrow> st \<noteq> ''queued''"
  by auto

lemma Recover_steady: "steady e (fst (Recover H ad now nid a id0 e))"
  by (cases rule: Recover_cases [of H ad now nid a id0 e])
     (simp_all add: CreatePlan_steady finish_steady Terminal_not_queued)

lemma Recover_calm: "calm e (fst (Recover H ad now nid a id0 e))"
  by (cases rule: Recover_cases [of H ad now nid a id0 e]) (simp_all add: CreatePlan_calm finish_calm)

lemma inspectEvidence_cases:
  obtains (same) "fst (inspectEvidence ad now a id0 perf e) = e"
  | (finish) r o1 where "fst (inspectEvidence ad now a id0 perf e) = fst (finish now id0 r e)"
      "Terminal (res_State r)" "map_of (operations e) id0 = Some o1" "o_Dispatched o1"
      "EvidenceAction (d_Action (o_Draft o1))"
proof (cases "map_of (operations e) id0")
  case None
  then have "fst (inspectEvidence ad now a id0 perf e) = e"
    by (simp add: inspectEvidence_def Operation_of_def find_operation_def OperationRecords_def)
  then show thesis by (rule same)
next
  case (Some o1)
  then have op: "Operation_of e id0 = Inr o1"
    by (simp add: Operation_of_def find_operation_def OperationRecords_def)
  have case_fst: "fst (case y of (e', Inl x) \<Rightarrow> (e', Inl x) | (e', Inr u) \<Rightarrow> (e', z e')) = fst y"
    for y :: "Engine \<times> (err + unit)" and z by (cases y) (simp split: sum.split)
  have "fst (inspectEvidence ad now a id0 perf e) = e \<or>
    (\<exists>r. fst (inspectEvidence ad now a id0 perf e) = fst (finish now id0 r e) \<and> Terminal (res_State r) \<and>
       o_Dispatched o1 \<and> EvidenceAction (d_Action (o_Draft o1)))"
    unfolding inspectEvidence_def op
    by (cases "inspect ad o1") (auto simp: case_fst EvidenceAction_def)
  with Some same finish show thesis by blast
qed

lemma inspectEvidence_steady: "steady e (fst (inspectEvidence ad now a id0 perf e))"
  by (cases rule: inspectEvidence_cases [of ad now a id0 perf e])
     (simp_all add: finish_steady Terminal_not_queued)

lemma inspectEvidence_calm: "calm e (fst (inspectEvidence ad now a id0 perf e))"
  by (cases rule: inspectEvidence_cases [of ad now a id0 perf e]) (simp_all add: finish_calm)

lemma Login_fst:
  "fst (Login V now db cred purpose tok csrf) = db
   \<or> fst (Login V now db cred purpose tok csrf) = fst (Update now (login_txn V now cred purpose tok csrf) db)"
  by (auto simp: Login_def split: sum.splits)

lemma login_txn_operations:
  "login_txn V now cred purpose tok csrf s = Inr (s', r) \<Longrightarrow> st_Operations s' = st_Operations s"
  by (auto simp: login_txn_def Let_def split: sum.splits if_splits)

lemma Login_steady: "steady e (e\<lparr>e_DB := fst (Login V now (e_DB e) cred purpose tok csrf)\<rparr>)"
proof -
  have "steady e (e\<lparr>e_DB := fst (Update now (login_txn V now cred purpose tok csrf) (e_DB e))\<rparr>)"
    by (rule Update_steady)
       (auto simp: login_txn_wf OperationRecords_def evolving.lawful_refl dest: login_txn_operations)
  with Login_fst [of V now "e_DB e" cred purpose tok csrf] show ?thesis by auto
qed

lemma Login_calm: "calm e (e\<lparr>e_DB := fst (Login V now (e_DB e) cred purpose tok csrf)\<rparr>)"
proof -
  have "calm e (e\<lparr>e_DB := fst (Update now (login_txn V now cred purpose tok csrf) (e_DB e))\<rparr>)"
    by (rule Update_calm)
       (auto simp: login_txn_wf OperationRecords_def quiet.lawful_refl dest: login_txn_operations)
  with Login_fst [of V now "e_DB e" cred purpose tok csrf] show ?thesis by auto
qed

section \<open>The stages of an execution\<close>

lemma execute_claim_fst:
  "fst (execute_claim now op e) = e\<lparr>e_DB := fst (Update now (claim_txn now (o_ID op)) (e_DB e))\<rparr>"
  by (auto simp: execute_claim_def with_db_def split: prod.splits sum.splits)

lemma execute_claim_steady: "steady e (fst (execute_claim now op e))"
  unfolding execute_claim_fst
  using evolving.claim_txn_lawful claimed_evolves
  by (intro Update_steady) (fastforce simp: OperationRecords_def)

lemma execute_claim_calm: "calm e (fst (execute_claim now op e))"
  unfolding execute_claim_fst
  using quiet.claim_txn_lawful
  by (intro Update_calm) (fastforce simp: OperationRecords_def op_quiet_def claimed_def)

lemma fail_result_simps [simp]:
  "Terminal (res_State (fail_result x b))" "res_State (fail_result x b) \<noteq> ''queued''"
  "res_State (fail_result x False) = ''failed''" "res_RecoveryRequired (fail_result x b) = b"
  by (auto simp: fail_result_def mk_result_def split: err.splits)

lemma mk_result_simps [simp]:
  "res_State (mk_result st ph m b) = st" "res_RecoveryRequired (mk_result st ph m b) = b"
  "res_Phase (mk_result st ph m b) = ph"
  by (simp_all add: mk_result_def)

lemma execute_check_cases:
  obtains (passed) c where "execute_check H ad now now' dn op e = (e, Some c)"
      "d_Action (o_Draft op) \<noteq> ''operation.reconcile''" "Source_Read H (e_File e) = Inr c"
      "\<exists>iv pv. preflight H ad e (o_Draft op) c = Inr (iv, pv) \<and> ValidateDraft H now (o_Draft op) c iv = None \<and>
         same_preconditions (pv_Preconditions pv) (pv_Preconditions (p_Preview (o_Plan op)))"
  | (stopped) r where "execute_check H ad now now' dn op e = (fst (finish now' (o_ID op) r e), None)"
      "Terminal (res_State r)" "res_State r \<noteq> ''recovery-required''" "\<not> res_RecoveryRequired r"
proof -
  have stop: thesis if "execute_check H ad now now' dn op e = (fst (finish now' (o_ID op) (fail_result x False) e), None)" for x
    using stopped [OF that] by simp
  show thesis
  proof (cases "Source_Read H (e_File e)")
    case (Inl x)
    then show thesis by (intro stop) (simp add: execute_check_def Let_def)
  next
    case c: (Inr c)
    show thesis
    proof (cases "preflight H ad e (o_Draft op) c")
      case (Inl x)
      with c show thesis by (intro stop) (simp add: execute_check_def Let_def)
    next
      case (Inr ip)
      obtain iv pv where ip: "preflight H ad e (o_Draft op) c = Inr (iv, pv)" using Inr by (cases ip) simp
      show thesis
      proof (cases "ValidateDraft H now (o_Draft op) c iv")
        case (Some x)
        with c ip show thesis by (intro stop) (simp add: execute_check_def Let_def)
      next
        case None
        have eq: "execute_check H ad now now' dn op e =
          (if \<not> same_preconditions (pv_Preconditions pv) (pv_Preconditions (p_Preview (o_Plan op)))
           then (fst (finish now' (o_ID op) (fail_result (Failure ''precondition_drift'' msg_precondition_drift) False) e), None)
           else if dn then (fst (finish now' (o_ID op) (mk_result ''cancelled'' ''cancelled-before-effects'' msg_no_effect False) e), None)
           else if d_Action (o_Draft op) = ''operation.reconcile''
           then (fst (finish now' (o_ID op) (mk_result ''succeeded'' ''operation-reconciled'' msg_reconciled False) e), None)
           else (e, Some c))"
          using c ip None by (simp add: execute_check_def Let_def)
        consider (drift) "\<not> same_preconditions (pv_Preconditions pv) (pv_Preconditions (p_Preview (o_Plan op)))"
          | (rest) "same_preconditions (pv_Preconditions pv) (pv_Preconditions (p_Preview (o_Plan op)))" by blast
        then show thesis
        proof cases
          case drift
          then show thesis by (intro stop) (simp add: eq)
        next
          case rest
          with ip None have "\<exists>iv pv. preflight H ad e (o_Draft op) c = Inr (iv, pv) \<and> ValidateDraft H now (o_Draft op) c iv = None \<and>
             same_preconditions (pv_Preconditions pv) (pv_Preconditions (p_Preview (o_Plan op)))" by blast
          note ok = passed [OF _ _ c this]
          show thesis
          proof (cases "dn \<or> d_Action (o_Draft op) = ''operation.reconcile''")
            case True
            have "execute_check H ad now now' dn op e = (fst (finish now' (o_ID op)
                (if dn then mk_result ''cancelled'' ''cancelled-before-effects'' msg_no_effect False
                 else mk_result ''succeeded'' ''operation-reconciled'' msg_reconciled False) e), None)"
              using True rest by (auto simp add: eq)
            then show thesis by (rule stopped) simp_all
          next
            case False
            with rest have "execute_check H ad now now' dn op e = (e, Some c)" unfolding eq by simp
            with False show thesis by (intro ok) simp_all
          qed
        qed
      qed
    qed
  qed
qed

lemma execute_check_steady: "steady e (fst (execute_check H ad now now' dn op e))"
  by (cases rule: execute_check_cases [of H ad now now' dn op e])
     (simp_all add: finish_steady Terminal_not_queued)

lemma execute_check_calm: "calm e (fst (execute_check H ad now now' dn op e))"
  by (cases rule: execute_check_cases [of H ad now now' dn op e]) (simp_all add: finish_calm)

lemma progress_fst:
  "fst (progress now id0 p e) = e
   \<or> fst (progress now id0 p e) = e\<lparr>e_DB := fst (Update now (progress_txn now id0 p) (e_DB e))\<rparr>"
  by (auto simp: progress_def split: sum.splits)

lemma progress_steady:
  assumes "\<And>o1. map_of (operations e) id0 = Some o1 \<Longrightarrow> o_State o1 = ''queued'' \<Longrightarrow> pg_Phase p \<noteq> ''dispatch-intent''"
  shows "steady e (fst (progress now id0 p e))"
proof -
  have "steady e (e\<lparr>e_DB := fst (Update now (progress_txn now id0 p) (e_DB e))\<rparr>)"
  proof (rule Update_steady)
    fix v u assume wf: "wf_state (prune now (db_state (e_DB e)))" and snd: "sound_store (e_DB e)"
      and t: "progress_txn now id0 p (prune now (db_state (e_DB e))) = Inr (v, u)"
    show "lawful op_evolves (prune_operations now (operations e)) (st_Operations v) \<and> wf_state v"
      using evolving.progress_txn_lawful [OF t wf progress_evolves] assms pruned_lookup [OF snd]
      by (auto simp: OperationRecords_def)
  qed
  with progress_fst [of now id0 p e] show ?thesis by auto
qed

lemma progress_calm: "calm e (fst (progress now id0 p e))"
proof -
  have "calm e (e\<lparr>e_DB := fst (Update now (progress_txn now id0 p) (e_DB e))\<rparr>)"
    using quiet.progress_txn_lawful
    by (intro Update_calm) (fastforce simp: OperationRecords_def op_quiet_def)
  with progress_fst [of now id0 p e] show ?thesis by auto
qed

text \<open>A record that is not final is found again by every transaction and survives its commit.\<close>

lemma nonterminal_pruned:
  "keyed ops \<Longrightarrow> map_of ops k = Some o1 \<Longrightarrow> \<not> Terminal (o_State o1) \<Longrightarrow>
   map_of (prune_operations now ops) k = Some o1"
  by (simp add: must_keep_pruned must_keep_def)

lemma sound_keyed: "sound_store (e_DB e) \<Longrightarrow> keyed (operations e)"
  by (simp add: sound_store_def wf_state_def OperationRecords_def)

lemma progress_record:
  assumes snd: "sound_store (e_DB e)" and o1: "map_of (operations e) id0 = Some o1" "\<not> Terminal (o_State o1)"
    and p: "progress now id0 p e = (e', r)"
  shows "\<exists>o2. map_of (operations e') id0 = Some o2 \<and> o_State o2 = o_State o1 \<and> o_Plan o2 = o_Plan o1 \<and>
    o_RecoveryRequired o2 = o_RecoveryRequired o1 \<and>
    (pg_Phase p \<noteq> ''dispatch-intent'' \<longrightarrow> o_Dispatched o2 = o_Dispatched o1) \<and>
    (r = Inr () \<and> p = dispatch_progress \<and> recorded o1 \<longrightarrow> o_Dispatched o2)"
proof (cases "o_Events o1 \<noteq> [] \<and> o_Phase o1 = pg_Phase p \<and> last (o_Events o1) = p")
  case True
  then have "e' = e" using p o1
    by (simp add: progress_def Operation_of_def find_operation_def OperationRecords_def)
  moreover have "p \<in> set (o_Events o1)" using True last_in_set by blast
  ultimately show ?thesis using o1 by (auto simp: recorded_def)
next
  case False
  with p o1 have e': "e' = e\<lparr>e_DB := fst (Update now (progress_txn now id0 p) (e_DB e))\<rparr>"
    and r: "r = snd (Update now (progress_txn now id0 p) (e_DB e))"
    by (auto simp: progress_def Operation_of_def find_operation_def OperationRecords_def with_db_def)
  have pr: "map_of (prune_operations now (operations e)) id0 = Some o1"
    using sound_keyed [OF snd] o1 by (rule nonterminal_pruned)
  show ?thesis
  proof (cases rule: Update_cases [of "e_DB e" now "progress_txn now id0 p"])
    case (committed v u)
    have wf: "wf_state (prune now (db_state (e_DB e)))" using snd by (simp add: sound_store_def wf_prune)
    have kv: "keyed (st_Operations v)"
      using progress_evolves quiet.progress_txn_lawful [OF committed(2) wf] by (auto simp: op_quiet_def wf_state_def)
    from committed(2) pr obtain o2 where v: "map_of (st_Operations v) id0 = Some o2" and o2: "o_State o2 = o_State o1"
      "o_Plan o2 = o_Plan o1" "o_RecoveryRequired o2 = o_RecoveryRequired o1"
      "o_Dispatched o2 = (o_Dispatched o1 \<or> pg_Phase p = ''dispatch-intent'')"
      by (auto simp: progress_txn_def Let_def OperationRecords_def)
    then have "map_of (operations e') id0 = Some o2"
      using nonterminal_pruned [OF kv v] o1(2) committed(3) by (simp add: e' OperationRecords_def)
    with o2 show ?thesis by (auto simp: dispatch_progress_def)
  qed (use o1 in \<open>auto simp: e' r OperationRecords_def\<close>)
qed

lemma source_updated_steady:
  assumes "map_of (operations e) id0 = Some o1" "\<not> Terminal (o_State o1)"
  shows "steady e (e\<lparr>e_DB := fst (Update now (source_updated_txn now id0) (e_DB e))\<rparr>)"
proof (rule Update_steady)
  fix v u assume wf: "wf_state (prune now (db_state (e_DB e)))" and snd: "sound_store (e_DB e)"
    and t: "source_updated_txn now id0 (prune now (db_state (e_DB e))) = Inr (v, u)"
  have pr: "map_of (st_Operations (prune now (db_state (e_DB e)))) id0 = Some o1"
    using nonterminal_pruned [OF sound_keyed [OF snd] assms] by (simp add: OperationRecords_def)
  from evolving.source_updated_txn_lawful [OF t wf pr]
  show "lawful op_evolves (prune_operations now (operations e)) (st_Operations v) \<and> wf_state v"
    by (simp add: op_evolves_def recorded_def OperationRecords_def)
qed

lemma source_updated_calm:
  assumes "map_of (operations e) id0 = Some o1" "\<not> Terminal (o_State o1)"
  shows "calm e (e\<lparr>e_DB := fst (Update now (source_updated_txn now id0) (e_DB e))\<rparr>)"
proof (rule Update_calm)
  fix v u assume wf: "wf_state (prune now (db_state (e_DB e)))" and snd: "sound_store (e_DB e)"
    and t: "source_updated_txn now id0 (prune now (db_state (e_DB e))) = Inr (v, u)"
  have pr: "map_of (st_Operations (prune now (db_state (e_DB e)))) id0 = Some o1"
    using nonterminal_pruned [OF sound_keyed [OF snd] assms] by (simp add: OperationRecords_def)
  from quiet.source_updated_txn_lawful [OF t wf pr]
  show "lawful op_quiet (prune_operations now (operations e)) (st_Operations v) \<and> wf_state v"
    by (simp add: op_quiet_def OperationRecords_def)
qed

lemma source_updated_record:
  assumes snd: "sound_store (e_DB e)" and o1: "map_of (operations e) id0 = Some o1" "\<not> Terminal (o_State o1)"
  shows "\<exists>o2. map_of (operations (e\<lparr>e_DB := fst (Update now (source_updated_txn now id0) (e_DB e))\<rparr>)) id0 = Some o2 \<and>
    o_State o2 = o_State o1 \<and> o_Plan o2 = o_Plan o1 \<and> o_RecoveryRequired o2 = o_RecoveryRequired o1 \<and>
    o_Dispatched o2 = o_Dispatched o1"
proof (cases rule: Update_cases [of "e_DB e" now "source_updated_txn now id0"])
  case (committed v u)
  have wf: "wf_state (prune now (db_state (e_DB e)))" using snd by (simp add: sound_store_def wf_prune)
  have pr: "map_of (st_Operations (prune now (db_state (e_DB e)))) id0 = Some o1"
    using nonterminal_pruned [OF sound_keyed [OF snd] o1] by (simp add: OperationRecords_def)
  have kv: "keyed (st_Operations v)"
    using quiet.source_updated_txn_lawful [OF committed(2) wf pr] by (simp add: op_quiet_def wf_state_def)
  from committed(2) pr wf obtain o2 where v: "map_of (st_Operations v) id0 = Some o2" and o2: "o_State o2 = o_State o1"
      "o_Plan o2 = o_Plan o1" "o_RecoveryRequired o2 = o_RecoveryRequired o1" "o_Dispatched o2 = o_Dispatched o1"
    using keyed_lookup [of "st_Operations (prune now (db_state (e_DB e)))" id0 o1]
    by (auto simp: source_updated_txn_def operation_at_def Let_def wf_state_def)
  then show ?thesis
    using nonterminal_pruned [OF kv v] o1(2) committed(3) by (simp add: OperationRecords_def)
qed (use o1 in \<open>auto simp: OperationRecords_def\<close>)

text \<open>\<open>held e op\<close>: the executor holds \<open>op\<close>: its record is there, claimed, not final and not outstanding.\<close>

definition held :: "Engine \<Rightarrow> Operation \<Rightarrow> bool" where
  "held e op \<longleftrightarrow> (\<exists>o1. map_of (operations e) (o_ID op) = Some o1 \<and> \<not> Terminal (o_State o1) \<and>
     o_State o1 \<noteq> ''queued'' \<and> o_Plan o1 = o_Plan op \<and> \<not> o_RecoveryRequired o1)"

definition undispatched :: "Engine \<Rightarrow> Operation \<Rightarrow> bool" where
  "undispatched e op \<longleftrightarrow> (\<forall>o1. map_of (operations e) (o_ID op) = Some o1 \<longrightarrow> \<not> o_Dispatched o1)"

lemma held_file [simp]:
  "held (e\<lparr>e_File := f\<rparr>) op = held e op" "undispatched (e\<lparr>e_File := f\<rparr>) op = undispatched e op"
proof -
  have "operations (e\<lparr>e_File := f\<rparr>) = operations e" by simp
  then show "held (e\<lparr>e_File := f\<rparr>) op = held e op" "undispatched (e\<lparr>e_File := f\<rparr>) op = undispatched e op"
    by (simp_all only: held_def undispatched_def)
qed

lemma source_intent_step:
  assumes "sound_store (e_DB e)" and "held e op" and "pg_Phase p \<noteq> ''dispatch-intent''"
    and "progress now (o_ID op) p e = (e', r)"
  shows "steady e e' \<and> calm e e' \<and> sound_store (e_DB e') \<and> held e' op \<and> (undispatched e op \<longrightarrow> undispatched e' op)"
proof -
  from assms(2) obtain o1 where o1: "map_of (operations e) (o_ID op) = Some o1" "\<not> Terminal (o_State o1)"
    "o_State o1 \<noteq> ''queued''" "o_Plan o1 = o_Plan op" "\<not> o_RecoveryRequired o1" by (auto simp: held_def)
  have st: "steady e e'" "calm e e'"
    using progress_steady [of e "o_ID op" p now] progress_calm [of e now "o_ID op" p] assms(3,4) by auto
  from progress_record [OF assms(1) o1(1,2) assms(4)] assms(3) o1 have
    "held e' op \<and> (undispatched e op \<longrightarrow> undispatched e' op)"
    by (auto simp: held_def undispatched_def)
  with st assms(1) show ?thesis by (auto simp: steady_def)
qed

lemma source_updated_step:
  assumes "sound_store (e_DB e)" and "held e op"
    and "with_db e (Update now (source_updated_txn now (o_ID op)) (e_DB e)) = (e', r)"
  shows "steady e e' \<and> calm e e' \<and> held e' op \<and> (undispatched e op \<longrightarrow> undispatched e' op)"
proof -
  from assms(2) obtain o1 where o1: "map_of (operations e) (o_ID op) = Some o1" "\<not> Terminal (o_State o1)"
    "o_State o1 \<noteq> ''queued''" "o_Plan o1 = o_Plan op" "\<not> o_RecoveryRequired o1" by (auto simp: held_def)
  show ?thesis
    unfolding with_db_eq [OF assms(3)]
    using source_updated_steady [OF o1(1,2), of now] source_updated_calm [OF o1(1,2), of now]
      source_updated_record [OF assms(1) o1(1,2), of now] o1
    by (auto simp: held_def undispatched_def)
qed

lemma execute_source_step:
  assumes snd: "sound_store (e_DB e)" and held: "held e op"
    and x: "execute_source H w now now' op c e = (e', b)"
  shows "steady e e' \<and> (b \<longrightarrow> calm e e' \<and> held e' op \<and> (undispatched e op \<longrightarrow> undispatched e' op))"
proof (cases "c_Revision (p_Desired (o_Plan op)) = c_Revision c")
  case True
  with x held show ?thesis by (auto simp: execute_source_def)
next
  case False
  define p where "p = \<lparr>pg_Phase = ''source-update-intent'', pg_Message = msg_source_intent, pg_Bytes = 0\<rparr>"
  obtain e1 r1 where p1: "progress now (o_ID op) p e = (e1, r1)" by (cases "progress now (o_ID op) p e")
  have e1: "steady e e1" "calm e e1" "sound_store (e_DB e1)" "held e1 op" "undispatched e op \<longrightarrow> undispatched e1 op"
    using source_intent_step [OF snd held _ p1] by (auto simp: p_def)
  obtain f y where f: "Source_Update H w (c_Revision c) (p_Desired (o_Plan op)) (e_File e1) = (f, y)"
    by (cases "Source_Update H w (c_Revision c) (p_Desired (o_Plan op)) (e_File e1)")
  obtain e2 r2 where u: "with_db (e1\<lparr>e_File := f\<rparr>) (Update now' (source_updated_txn now' (o_ID op)) (e_DB e1)) = (e2, r2)"
    by (cases "with_db (e1\<lparr>e_File := f\<rparr>) (Update now' (source_updated_txn now' (o_ID op)) (e_DB e1))")
  have e2: "steady e1 e2 \<and> calm e1 e2 \<and> held e2 op \<and> (undispatched e1 op \<longrightarrow> undispatched e2 op)"
    using source_updated_step [of "e1\<lparr>e_File := f\<rparr>" op now' e2 r2] e1(3,4) u by simp
  have fin: "steady e1 (fst (finish now' (o_ID op) (fail_result z q) (e1\<lparr>e_File := f\<rparr>)))" for z q
    using finish_steady [of "fail_result z q" "e1\<lparr>e_File := f\<rparr>" "o_ID op" now'] by simp
  have eq: "(e', b) = (case r1 of Inl _ \<Rightarrow> (e1, False) | Inr _ \<Rightarrow>
      (case y of Some z \<Rightarrow> (fst (finish now' (o_ID op) (fail_result z (\<not> is_failure z)) (e1\<lparr>e_File := f\<rparr>)), False)
       | None \<Rightarrow> (case r2 of Inl _ \<Rightarrow> (e2, False) | Inr _ \<Rightarrow> (e2, True))))"
    using x False p1 f u unfolding execute_source_def p_def [symmetric] by simp
  have e2': "steady e e2" "calm e e2" using e1 e2 by (blast intro: steady_trans calm_trans)+
  show ?thesis
  proof (cases "r1 = Inr () \<and> y \<noteq> None")
    case True
    then obtain z where "e' = fst (finish now' (o_ID op) (fail_result z (\<not> is_failure z)) (e1\<lparr>e_File := f\<rparr>))" "\<not> b"
      using eq by auto
    with fin e1(1) show ?thesis by (metis steady_trans)
  next
    case False
    then have "e' = e1 \<and> \<not> b \<or> e' = e2" using eq by (auto split: sum.splits)
    with e1 e2 e2' show ?thesis by blast
  qed
qed

lemma execute_dispatch_steady:
  assumes "\<And>o1. map_of (operations e) (o_ID op) = Some o1 \<Longrightarrow> o_State o1 \<noteq> ''queued''"
  shows "steady e (fst (execute_dispatch now op e))" "calm e (fst (execute_dispatch now op e))"
proof -
  have "fst (execute_dispatch now op e) = fst (progress now (o_ID op) dispatch_progress e)"
    by (auto simp: execute_dispatch_def split: prod.splits sum.splits)
  with assms show "steady e (fst (execute_dispatch now op e))" "calm e (fst (execute_dispatch now op e))"
    by (auto intro: progress_steady progress_calm)
qed

definition unqueued :: "Engine \<Rightarrow> string \<Rightarrow> bool" where
  "unqueued e id0 \<longleftrightarrow> (\<forall>o1. map_of (operations e) id0 = Some o1 \<longrightarrow> o_State o1 \<noteq> ''queued'')"

lemma unqueued_steady:
  assumes "steady e e'" and "sound_store (e_DB e)" and "unqueued e id0"
  shows "unqueued e' id0"
  unfolding unqueued_def
proof (intro allI impI)
  fix o2 assume o2: "map_of (operations e') id0 = Some o2"
  have law: "no_new (operations e) (operations e')" "opwise op_evolves (operations e) (operations e')"
    using assms(1,2) by (auto simp: steady_def lawful_def)
  from law(1) o2 obtain o1 where o1: "map_of (operations e) id0 = Some o1" unfolding no_new_def by blast
  with law(2) o2 have "op_evolves o1 o2" unfolding opwise_def by blast
  with assms(3) o1 show "o_State o2 \<noteq> ''queued''" by (auto simp: unqueued_def op_evolves_def)
qed

lemma report_progress_steady:
  "sound_store (e_DB e) \<Longrightarrow> unqueued e id0 \<Longrightarrow> steady e (report_progress now id0 ps e)"
proof (induction ps arbitrary: e)
  case (Cons p ps)
  have st: "steady e (fst (progress now id0 p e))"
    using Cons.prems(2) by (intro progress_steady) (auto simp: unqueued_def)
  with Cons.prems have "sound_store (e_DB (fst (progress now id0 p e)))" "unqueued (fst (progress now id0 p e)) id0"
    by (auto simp: steady_def intro: unqueued_steady)
  with Cons.IH st show ?case by (auto intro: steady_trans)
qed simp

lemma adapter_result_Terminal: "Terminal (res_State (adapter_result r x))"
  by (auto simp: adapter_result_def split: option.split)

lemma execute_complete_steady:
  assumes "sound_store (e_DB e)" and "unqueued e (o_ID op)"
  shows "steady e (execute_complete ad now now' op e)"
proof -
  obtain ps r x where ex: "ad_Execute ad (execution_of op) = (ps, r, x)" by (cases "ad_Execute ad (execution_of op)")
  show ?thesis
    unfolding execute_complete_def ex
    using report_progress_steady [OF assms, of now ps] adapter_result_Terminal [of r x]
    by (auto intro!: finish_steady elim!: steady_trans simp: Terminal_not_queued)
qed

section \<open>Restart\<close>

text \<open>
  What the engine relies on at a restart: an executor that answers, answers with a final state,
  \<open>running\<close>, \<open>queued\<close> or nothing.
\<close>

definition orderly :: "Adapter \<Rightarrow> bool" where
  "orderly ad \<longleftrightarrow> (\<forall>x r. ad_Inspect ad x = Inr r \<longrightarrow>
     Terminal (res_State r) \<or> res_State r = ''running'' \<or> res_State r = ''queued'' \<or> res_State r = [])"

lemma restart_result_Terminal:
  assumes "orderly ad"
  shows "Terminal (res_State (restart_result ad o1))"
proof (cases "inspect ad o1")
  case (Inl x)
  then show ?thesis by (simp add: restart_result_def Let_def)
next
  case (Inr r)
  then have "Terminal (res_State r) \<or> res_State r = ''running'' \<or> res_State r = ''queued'' \<or> res_State r = []"
    using assms by (auto simp: inspect_def orderly_def split: if_splits)
  with Inr show ?thesis by (auto simp: restart_result_def Let_def)
qed

lemma start_loop_steady:
  assumes "orderly ad"
  shows "steady e (fst (start_loop ad now rest e))"
proof (induction rest arbitrary: e)
  case (Cons x rest)
  obtain k o1 where x: "x = (k, o1)" by (cases x)
  have fin: "steady e (fst (finish now k (restart_result ad o1) e))"
    using restart_result_Terminal [OF assms, of o1] by (simp add: finish_steady Terminal_not_queued)
  obtain e1 r1 where f: "finish now k (restart_result ad o1) e = (e1, r1)"
    by (cases "finish now k (restart_result ad o1) e")
  show ?case
    using fin f Cons.IH [of e] Cons.IH [of e1] unfolding x
    by (auto split: sum.splits intro: steady_trans)
qed simp

lemma Start_steady: "orderly ad \<Longrightarrow> steady e (fst (Start ad now e))"
  by (simp add: Start_def start_loop_steady)

end
