(* ===== verification/Admission.thy ===== *)
theory Admission
  imports Lifecycle
begin

text \<open>
  Admission to the queue: the recovery fence over the table of operations, what \<open>Apply\<close> accepts,
  and how a settled recovery releases the fence.
\<close>

section \<open>The fence of the controller\<close>

lemma admission_guards_None:
  "first_fail (admission_guards d executing chain ops) = None \<longleftrightarrow>
   (\<forall>(k, o1) \<in> set ops. k = executing \<or>
      \<not> (o_RecoveryRequired o1 \<and> k \<notin> set chain \<and> d_Action d \<noteq> ''hardware.refresh'') \<and>
      \<not> (d_RecoveryID d \<noteq> [] \<and> \<not> Terminal (o_State o1) \<and> d_RecoveryID (o_Draft o1) \<noteq> [] \<and> k \<in> set chain))"
  unfolding first_fail_None
proof (induction ops)
  case Nil
  show ?case by (simp add: admission_guards_def)
next
  case (Cons x ops)
  obtain k o1 where x: "x = (k, o1)" by (cases x)
  have "set (admission_guards d executing chain (x # ops)) =
    set (admission_guards d executing chain [x]) \<union> set (admission_guards d executing chain ops)"
    by (simp add: admission_guards_def)
  with Cons.IH show ?case by (auto simp: x admission_guards_def)
qed

lemma recoveryAdmission_linked:
  assumes "recoveryAdmission ops d executing = None" and "d_RecoveryID d \<noteq> []"
  obtains old chain where "map_of ops (d_RecoveryID d) = Some old" and "o_RecoveryRequired old"
    and "d_Action d = ''profile.restore'' \<or> d_Action d = ''operation.reconcile''"
    and "d_Target (o_Draft old) = d_Target d" and "RecoveryChain (operationLinks ops) (o_ID old) = Inr chain"
    and "first_fail (admission_guards d executing chain ops) = None"
  using assms unfolding recoveryAdmission_def by (auto split: option.splits if_splits sum.splits)

definition refresh_exempt :: "Draft \<Rightarrow> bool" where
  "refresh_exempt d \<longleftrightarrow> d_Action d = ''hardware.refresh''"

definition operation_admitted :: "Operation gomap \<Rightarrow> Draft \<Rightarrow> string \<Rightarrow> bool" where
  "operation_admitted ops d executing \<longleftrightarrow> keyed ops \<and> recoveryAdmission ops d executing = None"

interpretation controller: recovery_fence "\<lambda>ops. ops" operation_link operationLinks o_RecoveryRequired
  refresh_exempt operation_admitted
proof unfold_locales
  fix ops d executing k o1
  assume adm: "operation_admitted ops d executing" "\<not> refresh_exempt d"
    and k: "(k, o1) \<in> set ops" "o_RecoveryRequired o1"
  show "k = executing" if "d_RecoveryID d = []"
    using adm k that by (auto simp: operation_admitted_def recoveryAdmission_def admission_guards_None refresh_exempt_def
        simp del: first_fail_None)
  show "\<exists>ch. RecoveryChain (operationLinks ops) (d_RecoveryID d) = Inr ch \<and> k \<in> set ch"
    if "d_RecoveryID d \<noteq> []" "k \<noteq> executing"
  proof -
    from adm(1) have key: "keyed ops" and ok: "recoveryAdmission ops d executing = None"
      by (auto simp: operation_admitted_def)
    from ok that(1) obtain old chain where old: "map_of ops (d_RecoveryID d) = Some old"
      and ch: "RecoveryChain (operationLinks ops) (o_ID old) = Inr chain"
      and g: "first_fail (admission_guards d executing chain ops) = None"
      by (rule recoveryAdmission_linked)
    have "o_ID old = d_RecoveryID d" using keyed_lookup [OF key old] by simp
    with ch g k that(2) adm(2) show ?thesis
      unfolding admission_guards_None refresh_exempt_def by auto
  qed
qed (simp_all add: operationLinks_def)

lemma operationLinks_lookup: "map_of (operationLinks ops) k = map_option operation_link (map_of ops k)"
  by (rule controller.links_lookup)

section \<open>What Apply accepts\<close>

lemma apply_txn_cases:
  assumes "apply_txn H now nid a plan_id target key own depth s = Inr (s', op)"
  obtains (replay) i where "map_of (st_Idempotency s) (ac_ID a @ '':'' @ key) = Some i"
      "id_PayloadHash i = payload_hash H plan_id target" "op = operation_at (st_Operations s) (id_OperationID i)" "s' = s"
  | (accepted) p where "map_of (st_Idempotency s) (ac_ID a @ '':'' @ key) = None" "map_of (st_Plans s) plan_id = Some p"
      "apply_guards H now a target own depth p s = None" "op = new_operation now nid a p"
      "s' = Event now (ac_ID a) ''operation.accept'' nid ''queued''
         (s\<lparr>st_Operations := AList.update nid op (st_Operations s),
            st_Idempotency := AList.update (ac_ID a @ '':'' @ key)
              \<lparr>id_PayloadHash = payload_hash H plan_id target, id_OperationID = nid\<rparr> (st_Idempotency s)\<rparr>)"
proof (cases "map_of (st_Idempotency s) (ac_ID a @ '':'' @ key)")
  case (Some i)
  with assms show thesis by (intro replay) (auto simp: apply_txn_def Let_def split: if_splits)
next
  case None
  with assms obtain p where "map_of (st_Plans s) plan_id = Some p" by (auto simp: apply_txn_def Let_def split: option.splits)
  with None assms show thesis
    by (intro accepted) (auto simp: apply_txn_def Let_def new_operation_def split: option.splits)
qed

lemma apply_guards_None:
  assumes "apply_guards H now a target own depth p s = None"
  shows "p_Actor p = ac_ID a" "RoleAllows (ac_Role a) (d_Action (p_Draft p))"
    "d_RecoveryID (p_Draft p) \<noteq> [] \<Longrightarrow> ac_Role a = ''owner''"
    "target = d_Target (p_Draft p)" "target = own" "now \<le> p_ExpiresAt p"
    "H (plan_json (p\<lparr>p_Hash := []\<rparr>)) = p_Hash p"
    "recoveryAdmission (st_Operations s) (p_Draft p) [] = None"
    "int (active_operations (st_Operations s)) < depth" "length (st_Operations s) < 500"
  using assms unfolding apply_guards_def by auto

lemma Apply_success:
  assumes "Apply H now nid a plan_id target key e = (e', Inr op)"
  obtains s' where
    "apply_txn H now nid a plan_id target key (e_Target e) (e_Depth e) (prune now (db_state (e_DB e))) = Inr (s', op)"
    "db_state (e_DB e') = commit_state now s'" "8 \<le> length key" "length key \<le> 128" "\<not> e_stopped e"
    "Update now (apply_txn H now nid a plan_id target key (e_Target e) (e_Depth e)) (e_DB e) = (e_DB e', Inr op)"
    "e_stopped e' = e_stopped e" "e_Target e' = e_Target e" "e_Depth e' = e_Depth e"
proof -
  from assms have "\<not> e_stopped e" and k: "idempotency_key_error key = None"
    and w: "with_db e (Update now (apply_txn H now nid a plan_id target key (e_Target e) (e_Depth e)) (e_DB e)) = (e', Inr op)"
    by (auto simp: Apply_def split: option.splits if_splits)
  from w have u: "Update now (apply_txn H now nid a plan_id target key (e_Target e) (e_Depth e)) (e_DB e) = (e_DB e', Inr op)"
    and e': "e_stopped e' = e_stopped e" "e_Target e' = e_Target e" "e_Depth e' = e_Depth e"
    by (auto simp: with_db_def prod_eq_iff)
  from u obtain s' where "apply_txn H now nid a plan_id target key (e_Target e) (e_Depth e) (prune now (db_state (e_DB e))) = Inr (s', op)"
    "db_state (e_DB e') = commit_state now s'" by (rule Update_success)
  with that u e' k \<open>\<not> e_stopped e\<close> show thesis by (auto simp: idempotency_key_error_def)
qed

lemma new_operation_simps [simp]:
  "o_ID (new_operation now nid a p) = nid" "o_Plan (new_operation now nid a p) = p"
  "o_State (new_operation now nid a p) = ''queued''" "o_RecoveryRequired (new_operation now nid a p) = False"
  "o_Dispatched (new_operation now nid a p) = False" "o_Actor (new_operation now nid a p) = ac_ID a"
  "o_UpdatedAt (new_operation now nid a p) = now"
  by (simp_all add: new_operation_def zero_operation_def)

lemma new_operation_recorded: "recorded (new_operation now nid a p)"
  by (simp add: recorded_def dispatch_progress_def) (simp add: new_operation_def)

lemma apply_txn_wf:
  assumes "apply_txn H now nid a plan_id target key own depth s = Inr (s', op)" and "wf_state s" and "nid \<noteq> []"
  shows "wf_state s'"
  using assms(1)
proof (cases rule: apply_txn_cases)
  case replay
  with assms(2) show ?thesis by simp
next
  case (accepted p)
  with assms(2,3) show ?thesis by (auto simp: wf_state_def intro: keyed_put)
qed

text \<open>An idempotency record lives as long as the operation it names.\<close>

lemma idempotency_pruned:
  assumes "wf_state v" and "map_of (st_Operations v) nid = Some op" and "must_keep now op"
    and "map_of (st_Idempotency v) k = Some i" and "id_OperationID i = nid"
  shows "map_of (st_Idempotency (prune now v)) k = Some i \<and> map_of (st_Operations (prune now v)) nid = Some op"
proof -
  have op: "map_of (prune_operations now (st_Operations v)) nid = Some op"
    using assms by (simp add: must_keep_pruned wf_state_def)
  then have "nid \<in> fst ` set (prune_operations now (st_Operations v))" by (rule map_of_in_keys)
  with assms op show ?thesis by (simp add: prune_def Let_def wf_state_def gomap.retain_Some)
qed

lemma commit_prune: "prune now (commit_state now' v) = (prune now (prune now' v))\<lparr>st_Revision := st_Revision v + 1\<rparr>"
  by (simp add: commit_state_def prune_def Let_def)

lemma idempotency_committed:
  assumes "wf_state v" and "map_of (st_Operations v) nid = Some op" and "\<not> Terminal (o_State op)"
    and "map_of (st_Idempotency v) k = Some i" and "id_OperationID i = nid"
  shows "map_of (st_Idempotency (prune now (commit_state now' v))) k = Some i \<and>
    map_of (st_Operations (prune now (commit_state now' v))) nid = Some op"
proof -
  have keep: "must_keep t op" for t using assms(3) by (simp add: must_keep_def)
  from idempotency_pruned [OF assms(1,2) keep assms(4,5)]
  have "map_of (st_Idempotency (prune now' v)) k = Some i" "map_of (st_Operations (prune now' v)) nid = Some op" by auto
  from idempotency_pruned [OF wf_prune [OF assms(1)] this(2) keep this(1) assms(5)] show ?thesis
    by (simp add: commit_prune)
qed

lemma Update_result:
  assumes "fn (prune now (db_state db)) = Inr (v, r)"
  shows "snd (Update now fn db) = Inr r \<or> (\<exists>m. snd (Update now fn db) = Inl (Failure ''storage_unavailable'' m))"
  by (cases rule: Update_cases [of db now fn]) (use assms in auto)

section \<open>How a settled recovery releases the fence\<close>

lemma settle_chain_lookup:
  assumes "keyed ops"
  shows "map_of (settle_chain now id0 by_op ks ops) k =
    (if k \<in> set ks \<and> k \<noteq> id0 \<and> o_RecoveryRequired (operation_at ops k)
     then Some (settled now id0 by_op (operation_at ops k)) else map_of ops k)"
  using assms
proof (induction ks arbitrary: ops)
  case (Cons j ks)
  show ?case
  proof (cases "j = id0 \<or> \<not> o_RecoveryRequired (operation_at ops j)")
    case True
    with Cons show ?thesis by auto
  next
    case False
    then obtain old where old: "map_of ops j = Some old" "operation_at ops j = old"
      by (cases "map_of ops j") (auto simp: operation_at_def zero_operation_def)
    let ?ops = "AList.update j (settled now id0 by_op old) ops"
    have "o_ID old = j" "j \<noteq> []" using keyed_lookup [OF Cons.prems old(1)] by auto
    moreover from this have "keyed ?ops"
      using Cons.prems by (intro keyed_put) (auto simp: settled_def Let_def)
    moreover have "\<not> o_RecoveryRequired (settled now id0 by_op old)" by (simp add: settled_def Let_def)
    ultimately show ?thesis
      using False old Cons.IH [of ?ops] by (auto simp: operation_at_def)
  qed
qed simp

text \<open>\<open>finish\<close> changes no target, parent or action, so the chains are those of the table it reads.\<close>

lemma operationLinks_put:
  "map_of ops k = Some o1 \<Longrightarrow> operation_link o2 = operation_link o1 \<Longrightarrow>
   operationLinks (AList.update k o2 ops) = operationLinks ops"
  by (induction ops) (auto simp: operationLinks_def split: if_splits)

lemma finished_link [simp]: "operation_link (finished now r o1) = operation_link o1"
  by (simp add: operation_link_def finished_def)

lemma finished_simps [simp]:
  "o_Plan (finished now r o1) = o_Plan o1" "o_State (finished now r o1) = res_State r"
  "o_ID (finished now r o1) = o_ID o1" "o_Actor (finished now r o1) = o_Actor o1"
  "o_RecoveryRequired (finished now r o1) = (res_RecoveryRequired r \<or> res_State r = ''recovery-required'')"
  by (simp_all add: finished_def)

lemma finish_txn_defined:
  assumes "map_of (st_Operations s) id0 = Some o1"
    and "d_RecoveryID (o_Draft o1) \<noteq> [] \<Longrightarrow> \<exists>x. RecoveryRoot (operationLinks (st_Operations s)) (d_RecoveryID (o_Draft o1)) = Inr x"
  shows "\<exists>s'. finish_txn now id0 r s = Inr (s', ())"
proof (cases "d_RecoveryID (o_Draft o1) = []")
  case True
  with assms(1) show ?thesis by (simp add: finish_txn_def Let_def)
next
  case False
  with assms show ?thesis by (auto simp: finish_txn_def Let_def operationLinks_put RecoveryChain_def)
qed

lemma finish_txn_recovery:
  assumes "map_of (st_Operations s) id0 = Some o1" and "keyed (st_Operations s)"
    and "o2 = finished now (effective_result (d_Action (o_Draft o1)) r) o1" and "o_State o2 = ''succeeded''"
    and "d_RecoveryID (o_Draft o1) \<noteq> []"
    and "RecoveryChain (operationLinks (st_Operations s)) (d_RecoveryID (o_Draft o1)) = Inr ch"
  shows "finish_txn now id0 r s = Inr (Event now (o_Actor o1) ''operation.complete'' id0 ''succeeded''
      (s\<lparr>st_Operations := settle_chain now id0 o2 ch (AList.update id0 o2 (st_Operations s))\<rparr>), ())"
  using assms by (auto simp: finish_txn_def Let_def operationLinks_put Event_def)

lemma admitted_root:
  assumes "operation_admitted ops d executing" and "d_RecoveryID d \<noteq> []"
  shows "\<exists>ch. RecoveryChain (operationLinks ops) (d_RecoveryID d) = Inr ch"
proof -
  from assms(1) have key: "keyed ops" and ok: "recoveryAdmission ops d executing = None"
    by (auto simp: operation_admitted_def)
  from ok assms(2) obtain old chain where "map_of ops (d_RecoveryID d) = Some old"
    and "RecoveryChain (operationLinks ops) (o_ID old) = Inr chain" by (rule recoveryAdmission_linked)
  with keyed_lookup [OF key] show ?thesis by auto
qed

lemma finish_result:
  assumes "sound_store (e_DB e)" and "finish_txn now id0 r (prune now (db_state (e_DB e))) = Inr (v, u)"
    and "finish now id0 r e = (e', Inr ())"
  shows "operations e' = prune_operations now (st_Operations v)"
proof (cases rule: Update_cases [of "e_DB e" now "finish_txn now id0 r"])
  case (committed v' u')
  with assms show ?thesis by (auto simp: finish_def with_db_def OperationRecords_def)
qed (use assms in \<open>auto simp: finish_def with_db_def\<close>)

lemma settled_simps [simp]:
  "o_RecoveryRequired (settled now id0 by_op o1) = False" "o_State (settled now id0 by_op o1) = ''failed''"
  "o_Plan (settled now id0 by_op o1) = o_Plan o1" "o_ID (settled now id0 by_op o1) = o_ID o1"
  "o_UpdatedAt (settled now id0 by_op o1) = now"
  "o_Message (settled now id0 by_op o1) = ''resolved by operation '' @ id0"
  by (simp_all add: settled_def Let_def)

section \<open>Properties\<close>

text \<open>
  C11: the recovery fence. Whatever operation \<open>Apply\<close> newly accepts, other than a hardware refresh,
  is accepted beside an outstanding recovery only as an owner's recovery of that very chain: every
  outstanding operation is a member of the chain the accepted plan recovers.
\<close>

theorem apply_respects_fence:
  assumes "wf_state (db_state (e_DB e))"
    and "Apply H now nid a plan_id target key e = (e', Inr op)"
    and "map_of (st_Idempotency (prune now (db_state (e_DB e)))) (ac_ID a @ '':'' @ key) = None"
    and "d_Action (o_Draft op) \<noteq> ''hardware.refresh''"
    and "map_of (operations e) k = Some o1" and "o_RecoveryRequired o1" and "k \<noteq> []"
  shows "ac_Role a = ''owner'' \<and> d_RecoveryID (o_Draft op) \<noteq> [] \<and>
    (\<exists>ch. RecoveryChain (operationLinks (prune_operations now (operations e))) (d_RecoveryID (o_Draft op)) = Inr ch
          \<and> k \<in> set ch)"
proof -
  let ?s = "prune now (db_state (e_DB e))"
  let ?ops = "prune_operations now (operations e)"
  have key: "keyed ?ops" using wf_prune [OF assms(1), of now] by (simp add: wf_state_def OperationRecords_def)
  from assms(2) obtain s' where t: "apply_txn H now nid a plan_id target key (e_Target e) (e_Depth e) ?s = Inr (s', op)"
    by (rule Apply_success)
  then obtain p where p: "op = new_operation now nid a p"
    and g: "apply_guards H now a target (e_Target e) (e_Depth e) p ?s = None"
    by (cases rule: apply_txn_cases) (use assms(3) in auto)
  have adm: "operation_admitted ?ops (o_Draft op) []"
    using apply_guards_None(8) [OF g] key by (simp add: operation_admitted_def p OperationRecords_def)
  have "map_of ?ops k = Some o1"
    using assms(1,5,6) by (intro must_keep_pruned) (auto simp: must_keep_def wf_state_def OperationRecords_def)
  then have k: "(k, o1) \<in> set ?ops" by (rule map_of_SomeD)
  have ex: "\<not> refresh_exempt (o_Draft op)" using assms(4) by (simp add: refresh_exempt_def)
  have rid: "d_RecoveryID (o_Draft op) \<noteq> []"
    using controller.fence_unlinked [OF adm ex _ k assms(6)] assms(7) by blast
  then show ?thesis
    using controller.fence_linked [OF adm ex rid k assms(6,7)] apply_guards_None(3) [OF g] by (simp add: p)
qed

text \<open>
  C18: applying a plan is idempotent. After an accepted request, the same actor repeating it with
  the same key, plan and target gets the same operation back (unless the store fails), whatever
  identifier the second attempt would have used, and no operation is added; with another plan or
  target whose digest differs the request is refused as a conflict.
\<close>

theorem apply_replay:
  assumes "wf_state (db_state (e_DB e))" and "nid \<noteq> []"
    and "Apply H now nid a plan_id target key e = (e1, Inr op)"
    and "map_of (st_Idempotency (prune now (db_state (e_DB e)))) (ac_ID a @ '':'' @ key) = None"
    and "Apply H now' nid' a plan_id' target' key e1 = (e2, res)"
  shows "(payload_hash H plan_id' target' = payload_hash H plan_id target \<longrightarrow>
      (res = Inr op \<or> (\<exists>m. res = Inl (Failure ''storage_unavailable'' m))) \<and> no_new (operations e1) (operations e2)) \<and>
    (payload_hash H plan_id' target' \<noteq> payload_hash H plan_id target \<longrightarrow>
      (\<exists>c m. res = Inl (Failure c m) \<and> (c = ''idempotency_conflict'' \<or> c = ''storage_unavailable'')) \<and>
      db_state (e_DB e2) = db_state (e_DB e1))"
proof -
  let ?s = "prune now (db_state (e_DB e))"
  let ?k = "ac_ID a @ '':'' @ key"
  from assms(3) obtain s' where t: "apply_txn H now nid a plan_id target key (e_Target e) (e_Depth e) ?s = Inr (s', op)"
    and st: "db_state (e_DB e1) = commit_state now s'" and key: "8 \<le> length key" "length key \<le> 128"
    and up1: "\<not> e_stopped e1" by (rule Apply_success) auto
  have noerr: "idempotency_key_error key = None" using assms(3) by (auto simp: Apply_def split: option.splits)
  have wf': "wf_state s'" using apply_txn_wf [OF t wf_prune [OF assms(1)] assms(2)] .
  from t obtain p where p: "op = new_operation now nid a p" and g: "apply_guards H now a target (e_Target e) (e_Depth e) p ?s = None"
    and s': "map_of (st_Operations s') nid = Some op"
      "map_of (st_Idempotency s') ?k = Some \<lparr>id_PayloadHash = payload_hash H plan_id target, id_OperationID = nid\<rparr>"
    by (cases rule: apply_txn_cases) (use assms(4) in auto)
  have again: "map_of (st_Idempotency (prune now' (db_state (e_DB e1)))) ?k = Some \<lparr>id_PayloadHash = payload_hash H plan_id target, id_OperationID = nid\<rparr>"
    "map_of (st_Operations (prune now' (db_state (e_DB e1)))) nid = Some op"
    using idempotency_committed [OF wf' s'(1) _ s'(2)] by (auto simp: st p)
  have role: "RoleAllows (ac_Role a) (d_Action (o_Draft op))" using apply_guards_None(2) [OF g] by (simp add: p)
  let ?fn = "apply_txn H now' nid' a plan_id' target' key (e_Target e1) (e_Depth e1)"
  have res: "res = snd (Update now' ?fn (e_DB e1))" "e_DB e2 = fst (Update now' ?fn (e_DB e1))"
    using assms(5) noerr up1 by (auto simp: Apply_def with_db_def)
  show ?thesis
  proof (cases "payload_hash H plan_id' target' = payload_hash H plan_id target")
    case True
    have fn: "?fn (prune now' (db_state (e_DB e1))) = Inr (prune now' (db_state (e_DB e1)), op)"
      using True again role by (simp add: apply_txn_def Let_def operation_at_def del: prune_simps)
    have wf1: "wf_state (db_state (e_DB e1))" using wf' by (simp add: st wf_commit)
    have "lawful op_quiet (operations e1) (OperationRecords (fst (Update now' ?fn (e_DB e1))))"
      using fn wf_prune [OF wf1] by (intro quiet.Update_lawful [OF wf1]) (auto simp: OperationRecords_def quiet.lawful_refl)
    then show ?thesis using True Update_result [where fn = ?fn, OF fn] by (simp add: res lawful_def)
  next
    case False
    then have fn: "?fn (prune now' (db_state (e_DB e1))) = Inl (Failure ''idempotency_conflict'' msg_idempotency)"
      using again by (simp add: apply_txn_def Let_def del: prune_simps)
    then show ?thesis
      using False by (cases rule: Update_cases [of "e_DB e1" now' ?fn]) (auto simp: res)
  qed
qed


text \<open>
  C23: an evidence operation never raises the fence. Whatever result \<open>finish\<close> is given for a memory or
  performance analysis, the record it leaves is not outstanding, and it is not running or queued.
\<close>

theorem evidence_never_fences:
  assumes "sound_store (e_DB e)" and "EvidenceAction (d_Action (o_Draft o1))"
    and "map_of (operations e) id0 = Some o1" and "\<not> Terminal (o_State o1)"
    and "finish now id0 r e = (e', Inr ())" and "map_of (operations e') id0 = Some o2"
  shows "\<not> o_RecoveryRequired o2 \<and> o_State o2 \<noteq> ''recovery-required'' \<and> o_State o2 \<noteq> ''running'' \<and> o_State o2 \<noteq> ''queued''"
proof -
  let ?s = "prune now (db_state (e_DB e))"
  have wf: "wf_state ?s" using assms(1) by (simp add: sound_store_def wf_prune)
  have o1: "map_of (st_Operations ?s) id0 = Some o1"
    using nonterminal_pruned [OF sound_keyed [OF assms(1)] assms(3,4)] by (simp add: OperationRecords_def)
  define n where "n = finished now (effective_result (d_Action (o_Draft o1)) r) o1"
  have good: "\<not> o_RecoveryRequired n \<and> o_State n \<noteq> ''recovery-required'' \<and> o_State n \<noteq> ''running'' \<and> o_State n \<noteq> ''queued''"
    using assms(2) by (auto simp: n_def effective_result_def read_only_result_def)
  let ?put = "AList.update id0 n (st_Operations ?s)"
  have kput: "keyed ?put"
    using wf o1 keyed_lookup [OF _ o1] by (auto simp: n_def wf_state_def intro!: keyed_put)
  obtain v u where v: "finish_txn now id0 r ?s = Inr (v, u)"
    using assms(5) by (cases "finish_txn now id0 r ?s") (auto simp: finish_def with_db_def Update_def Let_def split: if_splits)
  then have "st_Operations v = ?put \<or> (\<exists>ch. st_Operations v = settle_chain now id0 n ch ?put)"
    using o1 by (auto simp: finish_txn_def Let_def n_def [symmetric] split: if_splits sum.splits)
  then have "map_of (st_Operations v) id0 = Some n"
    using settle_chain_lookup [OF kput] by auto
  moreover have "keyed (st_Operations v)"
    using quiet.finish_txn_lawful [OF v wf _ settled_quiet] effective_evidence [OF assms(2)] o1
    by (auto simp: wf_state_def op_quiet_def)
  ultimately have "o2 = n"
    using assms(6) unfolding finish_result [OF assms(1) v assms(5)]
    by (auto simp: keyed_def prune_operations_lookup)
  with good show ?thesis by simp
qed

end
