(* ===== verification/Scheduler.thy ===== *)
theory Scheduler
  imports Admission
begin

text \<open>
  The controller as a transition system: the executor goroutine moves through the stages of
  \<open>execute\<close> while requests run between its stages and the process may crash at any point and be
  restarted from the file. The calls of the adapter's \<open>Execute\<close> are logged.
\<close>

section \<open>The machine\<close>

datatype stage = Idle | Claimed Operation | Checked Operation Configuration | Sourced Operation | Running Operation

record Machine =
  m_eng :: Engine
  m_stage :: stage
  m_calls :: "Execution list"
  m_up :: bool

text \<open>
  \<open>store.ID\<close> draws 128 random bits. A new identifier is taken to differ from those of the
  records, of the file and of the calls made so far.
\<close>

definition fresh_id :: "Machine \<Rightarrow> string \<Rightarrow> bool" where
  "fresh_id m nid \<longleftrightarrow> nid \<noteq> [] \<and> map_of (operations (m_eng m)) nid = None \<and>
     map_of (st_Operations (db_disk (e_DB (m_eng m)))) nid = None \<and> nid \<notin> x_ID ` set (m_calls m)"

inductive machine_step :: "digest \<Rightarrow> (string \<Rightarrow> string) \<Rightarrow> Machine \<Rightarrow> Machine \<Rightarrow> bool" for H V where
  plan: "m_up m \<Longrightarrow> machine_step H V m (m\<lparr>m_eng := fst (CreatePlan H ad now nid a d (m_eng m))\<rparr>)"
| accept: "m_up m \<Longrightarrow> fresh_id m nid \<Longrightarrow>
    machine_step H V m (m\<lparr>m_eng := fst (Apply H now nid a plan_id target key (m_eng m))\<rparr>)"
| cancel: "m_up m \<Longrightarrow> machine_step H V m (m\<lparr>m_eng := fst (Cancel now a id0 n (m_eng m))\<rparr>)"
| recover: "m_up m \<Longrightarrow> machine_step H V m (m\<lparr>m_eng := fst (Recover H ad now nid a id0 (m_eng m))\<rparr>)"
| evidence: "m_up m \<Longrightarrow> machine_step H V m (m\<lparr>m_eng := fst (inspectEvidence ad now a id0 perf (m_eng m))\<rparr>)"
| login: "m_up m \<Longrightarrow> machine_step H V m (m\<lparr>m_eng := (m_eng m)\<lparr>e_DB := fst (Login V now (e_DB (m_eng m)) cred purpose tok csrf)\<rparr>\<rparr>)"
| claim: "m_up m \<Longrightarrow> m_stage m = Idle \<Longrightarrow> \<not> e_stopped (m_eng m) \<Longrightarrow> Healthy (e_DB (m_eng m)) \<Longrightarrow>
    OldestQueuedOperation (e_DB (m_eng m)) = Some op \<Longrightarrow> execute_claim now op (m_eng m) = (e', b) \<Longrightarrow>
    machine_step H V m (m\<lparr>m_eng := e', m_stage := (if b then Claimed op else Idle)\<rparr>)"
| check: "m_up m \<Longrightarrow> m_stage m = Claimed op \<Longrightarrow> execute_check H ad now now' dn op (m_eng m) = (e', c) \<Longrightarrow>
    machine_step H V m (m\<lparr>m_eng := e', m_stage := (case c of None \<Rightarrow> Idle | Some cfg \<Rightarrow> Checked op cfg)\<rparr>)"
| source: "m_up m \<Longrightarrow> m_stage m = Checked op c \<Longrightarrow> execute_source H w now now' op c (m_eng m) = (e', b) \<Longrightarrow>
    machine_step H V m (m\<lparr>m_eng := e', m_stage := (if b then Sourced op else Idle)\<rparr>)"
| dispatch: "m_up m \<Longrightarrow> m_stage m = Sourced op \<Longrightarrow> execute_dispatch now op (m_eng m) = (e', b) \<Longrightarrow>
    machine_step H V m (m\<lparr>m_eng := e', m_stage := (if b then Running op else Idle),
      m_calls := (if b then m_calls m @ [execution_of op] else m_calls m)\<rparr>)"
| report: "m_up m \<Longrightarrow> m_stage m = Running op \<Longrightarrow>
    machine_step H V m (m\<lparr>m_eng := fst (progress now (o_ID op) p (m_eng m))\<rparr>)"
| complete: "m_up m \<Longrightarrow> m_stage m = Running op \<Longrightarrow>
    machine_step H V m (m\<lparr>m_eng := fst (finish now (o_ID op) (adapter_result r x) (m_eng m)), m_stage := Idle\<rparr>)"
| stop: "machine_step H V m (m\<lparr>m_eng := (m_eng m)\<lparr>e_stopped := True\<rparr>\<rparr>)"
| crash: "machine_step H V m (m\<lparr>m_stage := Idle, m_up := False\<rparr>)"
| restart: "\<not> m_up m \<Longrightarrow> orderly ad \<Longrightarrow>
    Open mode None (Inr (Some (db_disk (e_DB (m_eng m))))) wr sz = Inr db \<Longrightarrow>
    Start ad now ((m_eng m)\<lparr>e_DB := db, e_stopped := False\<rparr>) = (e', res) \<Longrightarrow>
    machine_step H V m (m\<lparr>m_eng := e', m_stage := Idle, m_up := (res = Inr ())\<rparr>)"
| admin: "\<not> m_up m \<Longrightarrow> Open mode None (Inr (Some (db_disk (e_DB (m_eng m))))) wr sz = Inr db \<Longrightarrow>
    machine_step H V m (m\<lparr>m_eng := (m_eng m)\<lparr>e_DB := fst (Run V now uid owner secret nid token action role name ttl db)\<rparr>,
      m_stage := Idle\<rparr>)"

definition initial :: "Machine \<Rightarrow> bool" where
  "initial m \<longleftrightarrow> (\<exists>mode. db_state (e_DB (m_eng m)) = NewState mode \<and> db_disk (e_DB (m_eng m)) = NewState mode) \<and>
     m_stage m = Idle \<and> m_calls m = [] \<and> \<not> m_up m"

inductive reachable :: "digest \<Rightarrow> (string \<Rightarrow> string) \<Rightarrow> Machine \<Rightarrow> bool" for H V where
  start: "initial m \<Longrightarrow> reachable H V m"
| step: "reachable H V m \<Longrightarrow> machine_step H V m m' \<Longrightarrow> reachable H V m'"

section \<open>Requests leave the held operation alone\<close>

lemma Update_record:
  assumes snd: "sound_store (e_DB e)" and k: "map_of (operations e) k = Some o1" "\<not> Terminal (o_State o1)" "P o1"
    and body: "\<And>v r. fn (prune now (db_state (e_DB e))) = Inr (v, r) \<Longrightarrow>
      map_of (st_Operations (prune now (db_state (e_DB e)))) k = Some o1 \<Longrightarrow>
      keyed (st_Operations v) \<and> (\<exists>o2. map_of (st_Operations v) k = Some o2 \<and> \<not> Terminal (o_State o2) \<and> P o2)"
  shows "\<exists>o2. map_of (operations (e\<lparr>e_DB := fst (Update now fn (e_DB e))\<rparr>)) k = Some o2 \<and> \<not> Terminal (o_State o2) \<and> P o2"
proof (cases rule: Update_cases [of "e_DB e" now fn])
  case (committed v r)
  have "map_of (st_Operations (prune now (db_state (e_DB e)))) k = Some o1"
    using nonterminal_pruned [OF sound_keyed [OF snd] k(1,2)] by (simp add: OperationRecords_def)
  from body [OF committed(2) this] obtain o2 where
    "keyed (st_Operations v)" "map_of (st_Operations v) k = Some o2" "\<not> Terminal (o_State o2)" "P o2" by blast
  with nonterminal_pruned [OF this(1-3), of now] committed(3) show ?thesis by (auto simp: OperationRecords_def)
qed (use k in \<open>auto simp: OperationRecords_def\<close>)

text \<open>What a stage holds on to: an undispatched, claimed record with the operation's plan and actor.\<close>

definition grip :: "Operation \<Rightarrow> Operation \<Rightarrow> bool" where
  "grip op o1 \<longleftrightarrow> o_State o1 \<noteq> ''queued'' \<and> o_Plan o1 = o_Plan op \<and> \<not> o_RecoveryRequired o1 \<and> \<not> o_Dispatched o1"

definition gripped :: "Engine \<Rightarrow> Operation \<Rightarrow> bool" where
  "gripped e op \<longleftrightarrow> (\<exists>o1. map_of (operations e) (o_ID op) = Some o1 \<and> \<not> Terminal (o_State o1) \<and> grip op o1)"

lemma gripped_iff: "gripped e op \<longleftrightarrow> held e op \<and> undispatched e op"
  by (auto simp: gripped_def held_def undispatched_def grip_def)

lemma Update_gripped:
  assumes "sound_store (e_DB e)" and "gripped e op"
    and "\<And>v r o1. fn (prune now (db_state (e_DB e))) = Inr (v, r) \<Longrightarrow>
      map_of (st_Operations (prune now (db_state (e_DB e)))) (o_ID op) = Some o1 \<Longrightarrow> \<not> Terminal (o_State o1) \<Longrightarrow> grip op o1 \<Longrightarrow>
      keyed (st_Operations v) \<and> (\<exists>o2. map_of (st_Operations v) (o_ID op) = Some o2 \<and> \<not> Terminal (o_State o2) \<and> grip op o2)"
  shows "gripped (e\<lparr>e_DB := fst (Update now fn (e_DB e))\<rparr>) op"
proof -
  from assms(2) obtain o1 where "map_of (operations e) (o_ID op) = Some o1" "\<not> Terminal (o_State o1)" "grip op o1"
    by (auto simp: gripped_def)
  then show ?thesis
    unfolding gripped_def using assms(3) by (intro Update_record [where P = "grip op", OF assms(1)]) blast+
qed

lemma plan_gripped:
  "sound_store (e_DB e) \<Longrightarrow> gripped e op \<Longrightarrow> gripped (fst (CreatePlan H ad now nid a d e)) op"
proof -
  assume snd: "sound_store (e_DB e)" and g: "gripped e op"
  have wf: "wf_state (prune now (db_state (e_DB e)))" using snd by (simp add: sound_store_def wf_prune)
  have "gripped (e\<lparr>e_DB := fst (Update now (plan_txn now a p) (e_DB e))\<rparr>) op" for p
    by (rule Update_gripped [OF snd g]) (use wf in \<open>auto simp: plan_txn_def wf_state_def split: if_splits\<close>)
  with g CreatePlan_db [of H ad now nid a d e] show "gripped (fst (CreatePlan H ad now nid a d e)) op" by auto
qed

lemma login_gripped:
  assumes snd: "sound_store (e_DB e)" and g: "gripped e op"
  shows "gripped (e\<lparr>e_DB := fst (Login V now (e_DB e) cred purpose tok csrf)\<rparr>) op"
proof -
  have wf: "keyed (st_Operations (prune now (db_state (e_DB e))))"
    using snd wf_prune [of "db_state (e_DB e)" now] by (simp add: sound_store_def wf_state_def)
  have "gripped (e\<lparr>e_DB := fst (Update now (login_txn V now cred purpose tok csrf) (e_DB e))\<rparr>) op"
    by (rule Update_gripped [OF snd g]) (use wf in \<open>auto dest!: login_txn_operations\<close>)
  with g Login_fst [of V now "e_DB e" cred purpose tok csrf] show ?thesis by auto
qed

lemma cancel_gripped:
  assumes snd: "sound_store (e_DB e)" and g: "gripped e op"
  shows "gripped (fst (Cancel now a id0 n e)) op"
  unfolding Cancel_fst
proof (rule Update_gripped [OF snd g])
  let ?s = "prune now (db_state (e_DB e))"
  fix v r o1 assume t: "cancel_txn now a id0 n ?s = Inr (v, r)"
    and o1: "map_of (st_Operations ?s) (o_ID op) = Some o1" "\<not> Terminal (o_State o1)" "grip op o1"
  have wf: "wf_state ?s" using snd by (simp add: sound_store_def wf_prune)
  have "keyed (st_Operations v)"
    using evolving.cancel_txn_lawful [OF t wf cancel_evolves] by (auto simp: wf_state_def)
  moreover from t have "\<exists>o2. map_of (st_Operations v) (o_ID op) = Some o2 \<and> \<not> Terminal (o_State o2) \<and> grip op o2"
    by (cases rule: cancel_txn_cases) (use o1 in \<open>auto simp: grip_def\<close>)
  ultimately show "keyed (st_Operations v) \<and> (\<exists>o2. map_of (st_Operations v) (o_ID op) = Some o2 \<and> \<not> Terminal (o_State o2) \<and> grip op o2)"
    by blast
qed

lemma finish_gripped:
  assumes snd: "sound_store (e_DB e)" and g: "gripped e op" and other: "id0 \<noteq> o_ID op"
    and r: "res_State r \<noteq> ''queued''" "Terminal (res_State r)"
  shows "gripped (fst (finish now id0 r e)) op"
  unfolding finish_def with_db_simps
proof (rule Update_gripped [OF snd g])
  let ?s = "prune now (db_state (e_DB e))"
  fix v u o1 assume t: "finish_txn now id0 r ?s = Inr (v, u)"
    and o1: "map_of (st_Operations ?s) (o_ID op) = Some o1" "\<not> Terminal (o_State o1)" "grip op o1"
  have wf: "wf_state ?s" using snd by (simp add: sound_store_def wf_prune)
  have kv: "keyed (st_Operations v)"
    using evolving.finish_txn_lawful [OF t wf finished_evolves settled_evolves] r effective_state by (auto simp: wf_state_def)
  from t obtain old where old: "map_of (st_Operations ?s) id0 = Some old"
    by (auto simp: finish_txn_def split: option.splits)
  define n where "n = finished now (effective_result (d_Action (o_Draft old)) r) old"
  let ?put = "AList.update id0 n (st_Operations ?s)"
  have kput: "keyed ?put" using wf old keyed_lookup [OF _ old] by (auto simp: n_def wf_state_def intro!: keyed_put)
  from t old have "st_Operations v = ?put \<or> (\<exists>ch. st_Operations v = settle_chain now id0 n ch ?put)"
    by (auto simp: finish_txn_def Let_def n_def [symmetric] split: if_splits sum.splits)
  moreover have "map_of ?put (o_ID op) = Some o1" using other o1(1) by simp
  ultimately have "map_of (st_Operations v) (o_ID op) = Some o1"
    using settle_chain_lookup [OF kput] o1(3) by (auto simp: operation_at_def grip_def)
  with kv o1 show "keyed (st_Operations v) \<and> (\<exists>o2. map_of (st_Operations v) (o_ID op) = Some o2 \<and> \<not> Terminal (o_State o2) \<and> grip op o2)"
    by blast
qed

lemma recover_gripped:
  assumes "sound_store (e_DB e)" and "gripped e op"
  shows "gripped (fst (Recover H ad now nid a id0 e)) op"
proof (cases rule: Recover_cases [of H ad now nid a id0 e])
  case (finish r o1)
  then have "id0 \<noteq> o_ID op" using assms(2) by (auto simp: gripped_def grip_def)
  with finish show ?thesis using finish_gripped [OF assms] by (simp add: Terminal_not_queued)
qed (use assms plan_gripped in simp_all)

lemma evidence_gripped:
  assumes "sound_store (e_DB e)" and "gripped e op"
  shows "gripped (fst (inspectEvidence ad now a id0 perf e)) op"
proof (cases rule: inspectEvidence_cases [of ad now a id0 perf e])
  case (finish r o1)
  then have "id0 \<noteq> o_ID op" using assms(2) by (auto simp: gripped_def grip_def)
  with finish show ?thesis using finish_gripped [OF assms] by (simp add: Terminal_not_queued)
qed (use assms in simp)

lemma Apply_fst:
  "fst (Apply H now nid a plan_id target key e) = e
   \<or> fst (Apply H now nid a plan_id target key e) =
       e\<lparr>e_DB := fst (Update now (apply_txn H now nid a plan_id target key (e_Target e) (e_Depth e)) (e_DB e))\<rparr>"
  by (auto simp: Apply_def split: option.splits)

text \<open>The table after an accepted request: the same records and one more.\<close>

lemma apply_txn_table:
  assumes "apply_txn H now nid a plan_id target key own depth s = Inr (s', op)"
  shows "st_Operations s' = st_Operations s
    \<or> (\<exists>p. st_Operations s' = AList.update nid (new_operation now nid a p) (st_Operations s)) \<and> length (st_Operations s) < 500"
  using assms by (cases rule: apply_txn_cases) (auto dest: apply_guards_None(10))

lemma apply_gripped:
  assumes snd: "sound_store (e_DB e)" and g: "gripped e op" and fresh: "map_of (operations e) nid = None" "nid \<noteq> []"
  shows "gripped (fst (Apply H now nid a plan_id target key e)) op"
proof -
  have wf: "wf_state (prune now (db_state (e_DB e)))" using snd by (simp add: sound_store_def wf_prune)
  have "nid \<noteq> o_ID op" using g fresh by (auto simp: gripped_def)
  then have "gripped (e\<lparr>e_DB := fst (Update now (apply_txn H now nid a plan_id target key (e_Target e) (e_Depth e)) (e_DB e))\<rparr>) op"
    using apply_txn_wf [OF _ wf fresh(2)]
    by (intro Update_gripped [OF snd g]) (fastforce simp: wf_state_def dest: apply_txn_table)
  with g Apply_fst [of H now nid a plan_id target key e] show ?thesis by auto
qed

section \<open>The fence around a held operation\<close>

text \<open>Every outstanding record belongs to the chain the operation recovers.\<close>

definition fenced :: "Operation gomap \<Rightarrow> Operation \<Rightarrow> bool" where
  "fenced ops op \<longleftrightarrow> d_Action (o_Draft op) = ''hardware.refresh'' \<or>
     (\<forall>k o1. map_of ops k = Some o1 \<longrightarrow> o_RecoveryRequired o1 \<longrightarrow> d_RecoveryID (o_Draft op) \<noteq> [] \<and>
        (\<exists>r. RecoveryRoot (operationLinks ops) k = Inr r \<and>
             RecoveryRoot (operationLinks ops) (d_RecoveryID (o_Draft op)) = Inr r))"

lemma lawful_parent_closed:
  assumes "lawful op_quiet ops ops'"
  shows "parent_closed (operationLinks ops') (operationLinks ops)"
proof -
  have same: "\<exists>o1. map_of ops k = Some o1 \<and> operation_link o1 = operation_link o2" if "map_of ops' k = Some o2" for k o2
  proof -
    from assms that obtain o1 where "map_of ops k = Some o1" unfolding lawful_def no_new_def by blast
    moreover from this that assms have "op_quiet o1 o2" unfolding lawful_def opwise_def by blast
    ultimately show ?thesis by (auto simp: op_quiet_def operation_link_def)
  qed
  have "map_of (operationLinks ops') \<subseteq>\<^sub>m map_of (operationLinks ops)"
    using same by (fastforce simp: map_le_def operationLinks_lookup dom_def)
  moreover have "rl_Parent l \<in> dom (map_of (operationLinks ops'))"
    if "map_of (operationLinks ops') k = Some l" "rl_Parent l \<in> dom (map_of (operationLinks ops))" for k l
    using that assms unfolding lawful_def parents_kept_def
    by (fastforce simp: operationLinks_lookup operation_link_def)
  ultimately show ?thesis unfolding parent_closed_def by blast
qed

lemma fenced_lawful:
  assumes law: "lawful op_quiet ops ops'" and f: "fenced ops op"
    and op: "map_of ops' (o_ID op) = Some o1" "o_Plan o1 = o_Plan op"
  shows "fenced ops' op"
proof (cases "d_Action (o_Draft op) = ''hardware.refresh''")
  case False
  note closed = lawful_parent_closed [OF law]
  have "d_RecoveryID (o_Draft op) \<noteq> [] \<and>
      (\<exists>r. RecoveryRoot (operationLinks ops') k = Inr r \<and> RecoveryRoot (operationLinks ops') (d_RecoveryID (o_Draft op)) = Inr r)"
    if k: "map_of ops' k = Some o2" "o_RecoveryRequired o2" for k o2
  proof -
    from law k(1) obtain o0 where o0: "map_of ops k = Some o0" unfolding lawful_def no_new_def by blast
    with law k have "o_RecoveryRequired o0" unfolding lawful_def opwise_def op_quiet_def by blast
    with f False o0 obtain r where rid: "d_RecoveryID (o_Draft op) \<noteq> []"
      and r: "RecoveryRoot (operationLinks ops) k = Inr r"
        "RecoveryRoot (operationLinks ops) (d_RecoveryID (o_Draft op)) = Inr r"
      unfolding fenced_def by blast
    from r(2) obtain q where "map_of ops (d_RecoveryID (o_Draft op)) = Some q"
      by (auto simp: RecoveryRoot_iff operationLinks_lookup dest!: recovers_known)
    with law op have "d_RecoveryID (o_Draft op) \<in> dom (map_of (operationLinks ops'))"
      unfolding lawful_def parents_kept_def by (fastforce simp: operationLinks_lookup)
    moreover have "k \<in> dom (map_of (operationLinks ops'))" using k(1) by (simp add: operationLinks_lookup dom_def)
    ultimately show ?thesis using r rid RecoveryRoot_restrict [OF closed] by blast
  qed
  then show ?thesis unfolding fenced_def by blast
qed (simp add: fenced_def)

lemma fenced_add:
  assumes f: "fenced ops op" and new: "map_of ops nid = None" "\<not> o_RecoveryRequired o2"
  shows "fenced (AList.update nid o2 ops) op"
proof -
  have "map_of (operationLinks ops) \<subseteq>\<^sub>m map_of (operationLinks (AList.update nid o2 ops))"
    using new(1) by (auto simp: map_le_def operationLinks_lookup)
  then have up: "RecoveryRoot (operationLinks (AList.update nid o2 ops)) j = Inr r"
    if "RecoveryRoot (operationLinks ops) j = Inr r" for j r
    using RecoveryRoot_mono [OF that] by blast
  have old: "map_of ops k = Some o1" if "map_of (AList.update nid o2 ops) k = Some o1" "o_RecoveryRequired o1" for k o1
    using that new(2) by (auto split: if_splits)
  show ?thesis
  proof (cases "d_Action (o_Draft op) = ''hardware.refresh''")
    case False
    have all: "d_RecoveryID (o_Draft op) \<noteq> [] \<and> (\<exists>r. RecoveryRoot (operationLinks (AList.update nid o2 ops)) k = Inr r \<and>
        RecoveryRoot (operationLinks (AList.update nid o2 ops)) (d_RecoveryID (o_Draft op)) = Inr r)"
      if "map_of (AList.update nid o2 ops) k = Some o1" "o_RecoveryRequired o1" for k o1
    proof -
      from f False old [OF that] that(2) obtain r where "d_RecoveryID (o_Draft op) \<noteq> []"
        "RecoveryRoot (operationLinks ops) k = Inr r" "RecoveryRoot (operationLinks ops) (d_RecoveryID (o_Draft op)) = Inr r"
        unfolding fenced_def by blast
      with up [OF this(2)] up [OF this(3)] show ?thesis by metis
    qed
    show ?thesis unfolding fenced_def by (rule disjI2, intro allI impI) (rule all)
  qed (simp add: fenced_def)
qed

lemma admitted_fenced:
  assumes "operation_admitted ops (o_Draft op) (o_ID op)"
    and self: "\<And>o1. map_of ops (o_ID op) = Some o1 \<Longrightarrow> \<not> o_RecoveryRequired o1"
  shows "fenced ops op"
proof (cases "refresh_exempt (o_Draft op)")
  case False
  have "d_RecoveryID (o_Draft op) \<noteq> [] \<and> (\<exists>r. RecoveryRoot (operationLinks ops) k = Inr r \<and>
        RecoveryRoot (operationLinks ops) (d_RecoveryID (o_Draft op)) = Inr r)"
    if k: "map_of ops k = Some o1" "o_RecoveryRequired o1" for k o1
  proof -
    have ne: "k \<noteq> o_ID op" using self k by blast
    have mem: "(k, o1) \<in> set ops" using k(1) by (rule map_of_SomeD)
    have rid: "d_RecoveryID (o_Draft op) \<noteq> []"
      using controller.fence_unlinked [OF assms(1) False _ mem k(2)] ne by blast
    from controller.fence_linked [OF assms(1) False rid mem k(2) ne] rid show ?thesis
      by (auto simp: RecoveryChain_members)
  qed
  then show ?thesis unfolding fenced_def by blast
qed (simp add: fenced_def refresh_exempt_def)

lemma claim_step:
  assumes snd: "sound_store (e_DB e)" and op: "map_of (operations e) (o_ID op) = Some op" "recorded op"
    and x: "execute_claim now op e = (e', True)"
  shows "gripped e' op \<and> fenced (operations e') op"
proof -
  let ?s = "prune now (db_state (e_DB e))"
  have e': "e' = e\<lparr>e_DB := fst (Update now (claim_txn now (o_ID op)) (e_DB e))\<rparr>"
    using execute_claim_fst [of now op e] x by simp
  obtain cur where cur: "map_of (operations e') (o_ID op) = Some cur" "o_State cur = ''running''"
    using x by (auto simp: execute_claim_def Operation_of_def find_operation_def OperationRecords_def with_db_def
        split: prod.splits sum.splits option.splits)
  have wf: "wf_state ?s" using snd by (simp add: sound_store_def wf_prune)
  show ?thesis
  proof (cases rule: Update_cases [of "e_DB e" now "claim_txn now (o_ID op)"])
    case (committed v u)
    have ks: "keyed (st_Operations ?s)" using wf by (simp add: wf_state_def)
    from committed(2) ks obtain o1 st ph m where o1: "map_of (st_Operations ?s) (o_ID op) = Some o1" "o_State o1 = ''queued''"
      and v: "v = ?s\<lparr>st_Operations := AList.update (o_ID op) (claimed now st ph m o1) (st_Operations ?s)\<rparr>"
      and adm: "st = ''running'' \<Longrightarrow> recoveryAdmission (st_Operations ?s) (o_Draft o1) (o_ID op) = None"
      by (rule claim_txn_cases) blast
    have same: "o1 = op" using pruned_lookup [OF snd o1(1)] op(1) by simp
    have law: "lawful op_quiet (st_Operations ?s) (st_Operations v)" and wfv: "wf_state v"
      using quiet.claim_txn_lawful [OF committed(2) wf] by (simp_all add: op_quiet_def claimed_def)
    have ops': "operations e' = prune_operations now (st_Operations v)"
      using committed(3) by (simp add: e' OperationRecords_def)
    have cur_eq: "cur = claimed now st ph m op"
      using cur(1) wfv by (auto simp: ops' v same wf_state_def keyed_def prune_operations_lookup)
    then have f: "fenced (st_Operations ?s) op"
      using adm cur(2) ks o1 op(2) same by (intro admitted_fenced) (auto simp: operation_admitted_def claimed_def recorded_def)
    have law': "lawful op_quiet (st_Operations ?s) (operations e')"
      unfolding ops' using law quiet.lawful_prune [of "st_Operations v" now] wfv
      by (auto simp: wf_state_def intro: quiet.lawful_trans)
    have plan: "o_Plan cur = o_Plan op" by (simp add: cur_eq claimed_def)
    have "grip op cur" using cur(2) op(2) o1(2) same by (auto simp: grip_def cur_eq claimed_def recorded_def)
    with cur have "gripped e' op" by (auto simp: gripped_def)
    with fenced_lawful [OF law' f cur(1) plan] show ?thesis by blast
  qed (use x in \<open>auto simp: execute_claim_def with_db_def\<close>)
qed

section \<open>Offline administration and reopening\<close>

lemma Run_steady:
  "steady e (e\<lparr>e_DB := fst (Run V now uid owner secret nid token action role name ttl (e_DB e))\<rparr>)"
proof -
  have revoke: "steady e (e\<lparr>e_DB := fst (Update now (revoke_txn now n) (e_DB e))\<rparr>)" for n
    by (rule Update_steady)
       (auto simp: revoke_txn_def wf_state_def OperationRecords_def evolving.lawful_refl split: option.splits)
  have activate: "steady e (e\<lparr>e_DB := fst (Update now (activate_txn now act cr) (e_DB e))\<rparr>)" for act cr
    by (rule Update_steady)
       (auto simp: activate_txn_def Let_def wf_state_def OperationRecords_def evolving.lawful_refl split: if_splits)
  have fst_case: "fst (case y of (db', Inl x) \<Rightarrow> (db', f x) | (db', Inr u) \<Rightarrow> (db', g u)) = fst y"
    for y :: "Store \<times> (err + unit)" and f :: "err \<Rightarrow> err + admin_result" and g
    by (cases y) (simp split: sum.split)
  show ?thesis
    unfolding Run_def Let_def
    by (cases "NewCredential V now nid token (if (action = ''bootstrap'' \<or> action = ''recover'') \<and> name = [] then ''local-owner'' else name)
          (if action = ''bootstrap'' \<or> action = ''recover'' then ''owner'' else role) ttl"; cases secret)
       (auto simp: fst_case revoke activate split: prod.split)
qed

lemma Open_existing:
  "Open mode None (Inr (Some v)) wr sz = Inr db \<Longrightarrow> db_state db = v \<and> db_disk db = v \<and> \<not> db_poisoned db"
  by (auto simp: Open_def Let_def split: if_splits)

section \<open>The invariant\<close>

definition logged :: "Execution list \<Rightarrow> Operation gomap \<Rightarrow> bool" where
  "logged calls ops \<longleftrightarrow> (\<forall>x \<in> set calls. \<forall>o1. map_of ops (x_ID x) = Some o1 \<longrightarrow>
     o_Dispatched o1 \<and> o_State o1 \<noteq> ''queued'' \<and> o_Plan o1 = x_Plan x)"

definition all_recorded :: "Operation gomap \<Rightarrow> bool" where
  "all_recorded ops \<longleftrightarrow> (\<forall>k o1. map_of ops k = Some o1 \<longrightarrow> recorded o1)"

definition ready :: "Machine \<Rightarrow> Operation \<Rightarrow> bool" where
  "ready m op \<longleftrightarrow> gripped (m_eng m) op \<and> o_ID op \<notin> x_ID ` set (m_calls m) \<and> fenced (operations (m_eng m)) op"

definition stage_ok :: "Machine \<Rightarrow> bool" where
  "stage_ok m \<longleftrightarrow> (case m_stage m of Idle \<Rightarrow> True | Claimed op \<Rightarrow> ready m op | Checked op c \<Rightarrow> ready m op
     | Sourced op \<Rightarrow> ready m op | Running op \<Rightarrow> o_ID op \<in> x_ID ` set (m_calls m))"

definition invariant :: "Machine \<Rightarrow> bool" where
  "invariant m \<longleftrightarrow> sound_store (e_DB (m_eng m)) \<and> distinct (map x_ID (m_calls m)) \<and> stage_ok m \<and>
     logged (m_calls m) (operations (m_eng m)) \<and> logged (m_calls m) (st_Operations (db_disk (e_DB (m_eng m)))) \<and>
     all_recorded (operations (m_eng m)) \<and> all_recorded (st_Operations (db_disk (e_DB (m_eng m))))"

lemma logged_lawful:
  assumes "lawful op_evolves ops ops'" and "logged calls ops"
  shows "logged calls ops'"
  unfolding logged_def
proof (intro ballI allI impI)
  fix x o2 assume x: "x \<in> set calls" "map_of ops' (x_ID x) = Some o2"
  from assms(1) x(2) obtain o1 where o1: "map_of ops (x_ID x) = Some o1" unfolding lawful_def no_new_def by blast
  with assms(1) x(2) have "op_evolves o1 o2" unfolding lawful_def opwise_def by blast
  with assms(2) x(1) o1 show "o_Dispatched o2 \<and> o_State o2 \<noteq> ''queued'' \<and> o_Plan o2 = x_Plan x"
    by (auto simp: logged_def op_evolves_def)
qed

lemma recorded_lawful:
  assumes "lawful op_evolves ops ops'" and "all_recorded ops"
  shows "all_recorded ops'"
  unfolding all_recorded_def
proof (intro allI impI)
  fix k o2 assume k: "map_of ops' k = Some o2"
  from assms(1) k obtain o1 where o1: "map_of ops k = Some o1" unfolding lawful_def no_new_def by blast
  with assms(1) k have "op_evolves o1 o2" unfolding lawful_def opwise_def by blast
  with assms(2) o1 show "recorded o2" by (auto simp: all_recorded_def op_evolves_def)
qed

lemma steady_invariant:
  assumes "invariant m" and "steady (m_eng m) e'"
  shows "sound_store (e_DB e') \<and> logged (m_calls m) (operations e') \<and> logged (m_calls m) (st_Operations (db_disk (e_DB e'))) \<and>
    all_recorded (operations e') \<and> all_recorded (st_Operations (db_disk (e_DB e')))"
proof -
  from assms have "sound_store (e_DB e')" and law: "lawful op_evolves (operations (m_eng m)) (operations e')"
    and disk: "db_disk (e_DB e') = db_disk (e_DB (m_eng m)) \<or>
       lawful op_evolves (operations (m_eng m)) (st_Operations (db_disk (e_DB e')))"
    by (auto simp: invariant_def steady_def)
  with assms(1) logged_lawful recorded_lawful show ?thesis unfolding invariant_def by metis
qed

lemma gripped_plan: "gripped e op \<Longrightarrow> \<exists>o1. map_of (operations e) (o_ID op) = Some o1 \<and> o_Plan o1 = o_Plan op"
  by (auto simp: gripped_def grip_def)

lemma ready_calm:
  assumes "sound_store (e_DB e)" and "calm e e'" and "gripped e' op" and "fenced (operations e) op"
  shows "fenced (operations e') op"
  using assms gripped_plan [OF assms(3)] by (auto simp: calm_def intro: fenced_lawful)

text \<open>A step that neither the executor nor a crash makes: a request.\<close>

lemma request_invariant:
  assumes inv: "invariant m" and st: "steady (m_eng m) e'" and calm: "calm (m_eng m) e'"
    and grip: "\<And>op. gripped (m_eng m) op \<Longrightarrow> gripped e' op"
  shows "invariant (m\<lparr>m_eng := e'\<rparr>)"
proof -
  have snd: "sound_store (e_DB (m_eng m))" using inv by (simp add: invariant_def)
  have "ready (m\<lparr>m_eng := e'\<rparr>) op" if "ready m op" for op
    using that grip ready_calm [OF snd calm] by (auto simp: ready_def)
  then have "stage_ok (m\<lparr>m_eng := e'\<rparr>)"
    using inv by (auto simp: invariant_def stage_ok_def split: stage.splits)
  with steady_invariant [OF inv st] inv show ?thesis by (simp add: invariant_def)
qed

lemma idle_invariant:
  assumes "invariant m" and "steady (m_eng m) e'"
  shows "invariant (m\<lparr>m_eng := e', m_stage := Idle\<rparr>)" "invariant (m\<lparr>m_eng := e', m_stage := Idle, m_up := b\<rparr>)"
  using steady_invariant [OF assms] assms(1) by (simp_all add: invariant_def stage_ok_def)

section \<open>Accepting an operation keeps the invariant\<close>

text \<open>The visible table after \<open>Apply\<close>, and the table in the file: an old one or the committed one.\<close>

definition accepted_table :: "time \<Rightarrow> string \<Rightarrow> Operation gomap \<Rightarrow> Operation gomap \<Rightarrow> bool" where
  "accepted_table now nid ops T \<longleftrightarrow> (\<exists>Y. keyed Y \<and> T = prune_operations now Y \<and> (Y = prune_operations now ops \<or>
     (\<exists>a p. Y = AList.update nid (new_operation now nid a p) (prune_operations now ops))))"

lemma apply_tables:
  assumes snd: "sound_store (e_DB e)" and nid: "nid \<noteq> []"
    and e': "e' = fst (Apply H now nid a plan_id target key e)"
  shows "(operations e' = operations e \<or> accepted_table now nid (operations e) (operations e')) \<and>
    (db_disk (e_DB e') = db_disk (e_DB e) \<or> accepted_table now nid (operations e) (st_Operations (db_disk (e_DB e'))))"
proof -
  let ?fn = "apply_txn H now nid a plan_id target key (e_Target e) (e_Depth e)"
  have wf: "wf_state (prune now (db_state (e_DB e)))" using snd by (simp add: sound_store_def wf_prune)
  have acc: "accepted_table now nid (operations e) (st_Operations (commit_state now v))"
    if t: "?fn (prune now (db_state (e_DB e))) = Inr (v, op)" for v op
  proof -
    have "keyed (st_Operations v)" using apply_txn_wf [OF t wf nid] by (simp add: wf_state_def)
    with apply_txn_table [OF t] show ?thesis
      unfolding accepted_table_def by (intro exI [of _ "st_Operations v"]) (auto simp: OperationRecords_def)
  qed
  have "(OperationRecords (fst (Update now ?fn (e_DB e))) = operations e \<or>
      accepted_table now nid (operations e) (OperationRecords (fst (Update now ?fn (e_DB e))))) \<and>
    (db_disk (fst (Update now ?fn (e_DB e))) = db_disk (e_DB e) \<or>
      accepted_table now nid (operations e) (st_Operations (db_disk (fst (Update now ?fn (e_DB e))))))"
    by (cases rule: Update_cases [of "e_DB e" now ?fn])
       (use acc in \<open>auto simp: OperationRecords_def simp del: commit_operations\<close>)
  then show ?thesis using Apply_fst [of H now nid a plan_id target key e] by (auto simp: e')
qed

lemma logged_put: "logged calls ops \<Longrightarrow> nid \<notin> x_ID ` set calls \<Longrightarrow> logged calls (AList.update nid o1 ops)"
  by (auto simp: logged_def)

lemma recorded_put: "all_recorded ops \<Longrightarrow> recorded o1 \<Longrightarrow> all_recorded (AList.update nid o1 ops)"
  by (simp add: all_recorded_def)

lemma accepted_table_ok:
  assumes "accepted_table now nid ops T" and "keyed ops" and "logged calls ops" and "all_recorded ops"
    and "nid \<notin> x_ID ` set calls"
  shows "logged calls T \<and> all_recorded T"
proof -
  have X: "logged calls (prune_operations now ops)" "all_recorded (prune_operations now ops)"
    using evolving.lawful_prune [OF assms(2)] logged_lawful recorded_lawful assms(3,4) by blast+
  from assms(1) obtain Y where Y: "keyed Y" "T = prune_operations now Y"
    and cases: "Y = prune_operations now ops \<or> (\<exists>a p. Y = AList.update nid (new_operation now nid a p) (prune_operations now ops))"
    unfolding accepted_table_def by blast
  from cases have "logged calls Y \<and> all_recorded Y"
    using X assms(5) by (auto simp: logged_put recorded_put new_operation_recorded)
  with evolving.lawful_prune [OF Y(1)] logged_lawful recorded_lawful Y(2) show ?thesis by blast
qed

lemma apply_sound:
  assumes snd: "sound_store (e_DB e)" and nid: "nid \<noteq> []" "map_of (operations e) nid = None"
  shows "sound_store (e_DB (fst (Apply H now nid a plan_id target key e)))"
proof -
  let ?fn = "apply_txn H now nid a plan_id target key (e_Target e) (e_Depth e)"
  have wf: "wf_state (prune now (db_state (e_DB e)))" using snd by (simp add: sound_store_def wf_prune)
  have "sound_store (fst (Update now ?fn (e_DB e)))"
  proof (rule Update_sound_store [OF snd])
    fix v op assume t: "?fn (prune now (db_state (e_DB e))) = Inr (v, op)"
    have sub: "opwise op_evolves (operations e) (prune_operations now (operations e))"
      using evolving.lawful_prune [OF sound_keyed [OF snd]] by (simp add: lawful_def)
    from apply_txn_table [OF t] sub nid(2)
    have "opwise op_evolves (operations e) (st_Operations v)"
      by (auto simp: opwise_def OperationRecords_def split: if_splits)
    with apply_txn_wf [OF t wf nid(1)]
    show "opwise op_evolves (operations e) (st_Operations v) \<and> wf_state v" by simp
  qed
  then show ?thesis using snd Apply_fst [of H now nid a plan_id target key e] by auto
qed

lemma accepted_fenced:
  assumes acc: "accepted_table now nid (operations e) T" and snd: "sound_store (e_DB e)"
    and g: "gripped e op" and f: "fenced (operations e) op" and fresh: "map_of (operations e) nid = None"
    and rec: "map_of T (o_ID op) = Some o2" "o_Plan o2 = o_Plan op"
  shows "fenced T op"
proof -
  let ?X = "prune_operations now (operations e)"
  note key = sound_keyed [OF snd]
  from g obtain o1 where o1: "map_of (operations e) (o_ID op) = Some o1" "\<not> Terminal (o_State o1)" "o_Plan o1 = o_Plan op"
    by (auto simp: gripped_def grip_def)
  have X: "fenced ?X op"
    using fenced_lawful [OF quiet.lawful_prune [OF key] f nonterminal_pruned [OF key o1(1,2)] o1(3)] .
  have nX: "map_of ?X nid = None"
    using fresh evolving.lawful_prune [OF key, of now] unfolding lawful_def no_new_def by (metis not_None_eq)
  from acc obtain Y where Y: "keyed Y" "T = prune_operations now Y"
    and cases: "Y = ?X \<or> (\<exists>a p. Y = AList.update nid (new_operation now nid a p) ?X)"
    unfolding accepted_table_def by blast
  from cases have "fenced Y op"
  proof
    assume "\<exists>a p. Y = AList.update nid (new_operation now nid a p) ?X"
    then obtain a p where "Y = AList.update nid (new_operation now nid a p) ?X" by blast
    with fenced_add [OF X nX] show ?thesis by simp
  qed (use X in simp)
  from fenced_lawful [OF quiet.lawful_prune [OF Y(1)] this] rec show ?thesis by (simp add: Y(2))
qed

lemma accept_invariant:
  assumes inv: "invariant m" and fresh: "fresh_id m nid"
  shows "invariant (m\<lparr>m_eng := fst (Apply H now nid a plan_id target key (m_eng m))\<rparr>)"
proof -
  define e' where "e' = fst (Apply H now nid a plan_id target key (m_eng m))"
  have snd: "sound_store (e_DB (m_eng m))" and key: "keyed (operations (m_eng m))"
    using inv by (auto simp: invariant_def dest: sound_keyed)
  have nid: "nid \<noteq> []" "map_of (operations (m_eng m)) nid = None" "nid \<notin> x_ID ` set (m_calls m)"
    using fresh by (auto simp: fresh_id_def)
  note tab = apply_tables [OF snd nid(1) e'_def]
  have ok: "logged (m_calls m) T \<and> all_recorded T" if "accepted_table now nid (operations (m_eng m)) T" for T
    using accepted_table_ok [OF that key _ _ nid(3)] inv by (simp add: invariant_def)
  have tables: "logged (m_calls m) (operations e')" "all_recorded (operations e')"
    "logged (m_calls m) (st_Operations (db_disk (e_DB e')))" "all_recorded (st_Operations (db_disk (e_DB e')))"
    using tab ok inv unfolding invariant_def by metis+
  have "ready (m\<lparr>m_eng := e'\<rparr>) op" if r: "ready m op" for op
  proof -
    have g: "gripped (m_eng m) op" "fenced (operations (m_eng m)) op" using r by (auto simp: ready_def)
    have g': "gripped e' op" unfolding e'_def by (rule apply_gripped [OF snd g(1) nid(2,1)])
    from gripped_plan [OF g'] obtain o2 where o2: "map_of (operations e') (o_ID op) = Some o2" "o_Plan o2 = o_Plan op" by blast
    have "fenced (operations e') op"
      using tab g(2) accepted_fenced [OF _ snd g nid(2) o2] by metis
    with g' r show ?thesis by (simp add: ready_def)
  qed
  then have "stage_ok (m\<lparr>m_eng := e'\<rparr>)"
    using inv by (auto simp: invariant_def stage_ok_def split: stage.splits)
  moreover have "sound_store (e_DB e')" unfolding e'_def by (rule apply_sound [OF snd nid(1,2)])
  ultimately show ?thesis using tables inv by (simp add: invariant_def e'_def)
qed

section \<open>The executor keeps the invariant\<close>

lemma oldest_record:
  assumes "keyed (OperationRecords db)" and "OldestQueuedOperation db = Some op"
  shows "map_of (OperationRecords db) (o_ID op) = Some op \<and> o_State op = ''queued''"
proof -
  from OldestQueued_Some [OF assms(2)] obtain k where "(k, op) \<in> set (OperationRecords db)" "o_State op = ''queued''" by auto
  with assms(1) show ?thesis by (auto simp: keyed_def map_of_iff_in_set)
qed

lemma claim_invariant:
  assumes inv: "invariant m" and old: "OldestQueuedOperation (e_DB (m_eng m)) = Some op"
    and x: "execute_claim now op (m_eng m) = (e', b)"
  shows "invariant (m\<lparr>m_eng := e', m_stage := (if b then Claimed op else Idle)\<rparr>)"
proof -
  have snd: "sound_store (e_DB (m_eng m))" using inv by (simp add: invariant_def)
  have op: "map_of (operations (m_eng m)) (o_ID op) = Some op" "o_State op = ''queued''"
    using oldest_record [OF sound_keyed [OF snd] old] by auto
  have rec: "recorded op" using op(1) inv by (simp add: invariant_def all_recorded_def)
  have new: "o_ID op \<notin> x_ID ` set (m_calls m)" using op inv by (auto simp: invariant_def logged_def)
  have st: "steady (m_eng m) e'" using execute_claim_steady [of "m_eng m" now op] x by simp
  have "ready (m\<lparr>m_eng := e'\<rparr>) op" if b using claim_step [OF snd op(1) rec] x that new by (simp add: ready_def)
  with steady_invariant [OF inv st] inv show ?thesis by (simp add: invariant_def stage_ok_def ready_def)
qed

lemma check_invariant:
  assumes inv: "invariant m" and stage: "m_stage m = Claimed op"
    and x: "execute_check H ad now now' dn op (m_eng m) = (e', c)"
  shows "invariant (m\<lparr>m_eng := e', m_stage := (case c of None \<Rightarrow> Idle | Some cfg \<Rightarrow> Checked op cfg)\<rparr>)"
proof (cases rule: execute_check_cases [of H ad now now' dn op "m_eng m"])
  case (passed cfg)
  with x have "e' = m_eng m" "c = Some cfg" by auto
  with inv stage show ?thesis by (simp add: invariant_def stage_ok_def ready_def)
next
  case (stopped r)
  with x have "e' = fst (finish now' (o_ID op) r (m_eng m))" "c = None" by auto
  with stopped idle_invariant(1) [OF inv, of e'] show ?thesis by (simp add: finish_steady Terminal_not_queued)
qed

lemma source_invariant:
  assumes inv: "invariant m" and stage: "m_stage m = Checked op c"
    and x: "execute_source H w now now' op c (m_eng m) = (e', b)"
  shows "invariant (m\<lparr>m_eng := e', m_stage := (if b then Sourced op else Idle)\<rparr>)"
proof -
  have snd: "sound_store (e_DB (m_eng m))" and r: "ready m op" using inv stage by (auto simp: invariant_def stage_ok_def)
  have st: "steady (m_eng m) e'" and ok: "b \<Longrightarrow> calm (m_eng m) e' \<and> gripped e' op"
    using execute_source_step [OF snd _ x] r by (auto simp: ready_def gripped_iff)
  have "ready (m\<lparr>m_eng := e'\<rparr>) op" if b
    using ok [OF that] r ready_calm [OF snd] by (auto simp: ready_def)
  with steady_invariant [OF inv st] inv show ?thesis by (simp add: invariant_def stage_ok_def ready_def)
qed

text \<open>The intent is in the file before the executor is called.\<close>

lemma dispatch_durable:
  assumes snd: "sound_store (e_DB e)" and g: "gripped e op" and rec: "all_recorded (operations e)"
    and x: "execute_dispatch now op e = (e', True)"
  shows "db_disk (e_DB e') = db_state (e_DB e') \<and>
    (\<exists>o2. map_of (operations e') (o_ID op) = Some o2 \<and> o_Dispatched o2 \<and> o_State o2 \<noteq> ''queued'' \<and> o_Plan o2 = o_Plan op)"
proof -
  from g obtain o1 where o1: "map_of (operations e) (o_ID op) = Some o1" "\<not> Terminal (o_State o1)" "grip op o1"
    by (auto simp: gripped_def)
  have r1: "recorded o1" using rec o1(1) by (simp add: all_recorded_def)
  have p: "progress now (o_ID op) dispatch_progress e = (e', Inr ())"
    using x by (auto simp: execute_dispatch_def split: prod.splits sum.splits)
  have "dispatch_progress \<notin> set (o_Events o1)" using r1 o1(3) by (auto simp: recorded_def grip_def)
  then have "\<not> (o_Events o1 \<noteq> [] \<and> o_Phase o1 = pg_Phase dispatch_progress \<and> last (o_Events o1) = dispatch_progress)"
    using last_in_set by metis
  then have "with_db e (Update now (progress_txn now (o_ID op) dispatch_progress) (e_DB e)) = (e', Inr ())"
    using p o1(1) unfolding progress_def Operation_of_def find_operation_def OperationRecords_def
    by (auto simp: OperationRecords_def)
  then have u: "Update now (progress_txn now (o_ID op) dispatch_progress) (e_DB e) = (e_DB e', Inr ())"
    by (auto simp: with_db_def prod_eq_iff)
  have "db_disk (e_DB e') = db_state (e_DB e')"
    by (cases rule: Update_cases [of "e_DB e" now "progress_txn now (o_ID op) dispatch_progress"]) (use u in auto)
  with progress_record [OF snd o1(1,2) p] r1 o1(3) show ?thesis by (auto simp: grip_def)
qed

lemma dispatch_invariant:
  assumes inv: "invariant m" and stage: "m_stage m = Sourced op"
    and x: "execute_dispatch now op (m_eng m) = (e', b)"
  shows "invariant (m\<lparr>m_eng := e', m_stage := (if b then Running op else Idle),
      m_calls := (if b then m_calls m @ [execution_of op] else m_calls m)\<rparr>)"
proof -
  have snd: "sound_store (e_DB (m_eng m))" and r: "ready m op" using inv stage by (auto simp: invariant_def stage_ok_def)
  have g: "gripped (m_eng m) op" using r by (simp add: ready_def)
  have st: "steady (m_eng m) e'"
    using execute_dispatch_steady(1) [of "m_eng m" op now] x g by (auto simp: gripped_def grip_def)
  note base = steady_invariant [OF inv st]
  show ?thesis
  proof (cases b)
    case True
    have "all_recorded (operations (m_eng m))" using inv by (simp add: invariant_def)
    from dispatch_durable [OF snd g this] x True obtain o2 where
      disk: "db_disk (e_DB e') = db_state (e_DB e')" and o2: "map_of (operations e') (o_ID op) = Some o2"
        "o_Dispatched o2" "o_State o2 \<noteq> ''queued''" "o_Plan o2 = o_Plan op" by (auto simp del: map_of_eq_Some_iff)
    have "logged (m_calls m @ [execution_of op]) (operations e')"
      using base o2 by (auto simp: logged_def execution_of_def)
    with disk have "logged (m_calls m @ [execution_of op]) (st_Operations (db_disk (e_DB e')))"
      by (simp add: OperationRecords_def)
    moreover have "distinct (map x_ID (m_calls m @ [execution_of op]))"
      using inv r by (auto simp: invariant_def ready_def execution_of_def)
    ultimately show ?thesis
      using True base \<open>logged (m_calls m @ [execution_of op]) (operations e')\<close>
      by (simp add: invariant_def stage_ok_def execution_of_def)
  next
    case False
    with base inv show ?thesis by (simp add: invariant_def stage_ok_def)
  qed
qed

lemma running_invariant:
  assumes inv: "invariant m" and stage: "m_stage m = Running op"
  shows "invariant (m\<lparr>m_eng := fst (progress now (o_ID op) p (m_eng m))\<rparr>)"
    "invariant (m\<lparr>m_eng := fst (finish now (o_ID op) (adapter_result r x) (m_eng m)), m_stage := Idle\<rparr>)"
proof -
  have "o_ID op \<in> x_ID ` set (m_calls m)" using inv stage by (simp add: invariant_def stage_ok_def)
  then have "\<And>o1. map_of (operations (m_eng m)) (o_ID op) = Some o1 \<Longrightarrow> o_State o1 \<noteq> ''queued''"
    using inv by (auto simp: invariant_def logged_def)
  then have "steady (m_eng m) (fst (progress now (o_ID op) p (m_eng m)))" by (intro progress_steady) blast
  from steady_invariant [OF inv this] inv stage
  show "invariant (m\<lparr>m_eng := fst (progress now (o_ID op) p (m_eng m))\<rparr>)" by (simp add: invariant_def stage_ok_def)
  show "invariant (m\<lparr>m_eng := fst (finish now (o_ID op) (adapter_result r x) (m_eng m)), m_stage := Idle\<rparr>)"
    using adapter_result_Terminal [of r x] by (intro idle_invariant(1) [OF inv] finish_steady) (auto simp: Terminal_not_queued)
qed

lemma reopened_invariant:
  assumes "invariant m" and "Open mode None (Inr (Some (db_disk (e_DB (m_eng m))))) wr sz = Inr db" and "e_DB e = db"
  shows "invariant (m\<lparr>m_eng := e, m_stage := Idle\<rparr>)"
  using Open_existing [OF assms(2)] assms(1,3)
  by (simp add: invariant_def stage_ok_def sound_store_def OperationRecords_def opwise_refl)

lemma invariant_sound: "invariant m \<Longrightarrow> sound_store (e_DB (m_eng m))"
  by (simp add: invariant_def)

lemma step_invariant:
  assumes "machine_step H V m m'" and "invariant m"
  shows "invariant m'"
  using assms
proof (induction rule: machine_step.induct)
  case (plan m ad now nid a d)
  then show ?case
    by (intro request_invariant CreatePlan_steady CreatePlan_calm plan_gripped) (auto dest: invariant_sound)
next
  case (accept m nid now a plan_id target key)
  then show ?case by (auto intro: accept_invariant)
next
  case (cancel m now a id0 n)
  then show ?case
    by (intro request_invariant Cancel_steady Cancel_calm cancel_gripped) (auto dest: invariant_sound)
next
  case (recover m ad now nid a id0)
  then show ?case
    by (intro request_invariant Recover_steady Recover_calm recover_gripped) (auto dest: invariant_sound)
next
  case (evidence m ad now a id0 perf)
  then show ?case
    by (intro request_invariant inspectEvidence_steady inspectEvidence_calm evidence_gripped) (auto dest: invariant_sound)
next
  case (login m now cred purpose tok csrf)
  then show ?case
    by (intro request_invariant Login_steady Login_calm login_gripped) (auto dest: invariant_sound)
next
  case (restart m ad mode wr sz db now e' res)
  let ?e = "(m_eng m)\<lparr>e_DB := db, e_stopped := False\<rparr>"
  have "invariant (m\<lparr>m_eng := ?e, m_stage := Idle\<rparr>)" using restart by (intro reopened_invariant) auto
  moreover have "steady ?e e'" using Start_steady [OF restart.hyps(2), of ?e now] restart.hyps(4) by simp
  ultimately show ?case using idle_invariant(2) [of "m\<lparr>m_eng := ?e, m_stage := Idle\<rparr>" e' "res = Inr ()"] by simp
next
  case (admin m mode wr sz db now uid owner secret nid token action role name ttl)
  let ?e = "(m_eng m)\<lparr>e_DB := db\<rparr>"
  have "invariant (m\<lparr>m_eng := ?e, m_stage := Idle\<rparr>)" using admin by (intro reopened_invariant) auto
  from idle_invariant(1) [OF this, of "?e\<lparr>e_DB := fst (Run V now uid owner secret nid token action role name ttl (e_DB ?e))\<rparr>"]
  show ?case by (simp add: Run_steady [where e = ?e, simplified])
next
  case (stop m)
  have "gripped ((m_eng m)\<lparr>e_stopped := True\<rparr>) op = gripped (m_eng m) op" for op
    by (simp add: gripped_def)
  with stop show ?case by (auto simp: invariant_def stage_ok_def ready_def split: stage.splits)
next
  case (crash m)
  then show ?case by (simp add: invariant_def stage_ok_def)
qed (simp_all add: claim_invariant check_invariant source_invariant dispatch_invariant running_invariant)

lemma initial_invariant: "initial m \<Longrightarrow> invariant m"
  by (auto simp: initial_def invariant_def stage_ok_def sound_store_def wf_state_def keyed_def NewState_def
      OperationRecords_def logged_def all_recorded_def opwise_def)

lemma reachable_invariant: "reachable H V m \<Longrightarrow> invariant m"
  by (induction rule: reachable.induct) (auto intro: initial_invariant step_invariant)

section \<open>The engine's configuration does not change\<close>

definition same_config :: "Engine \<Rightarrow> Engine \<Rightarrow> bool" where
  "same_config e e' \<longleftrightarrow> e_Target e' = e_Target e \<and> e_Depth e' = e_Depth e \<and> e_stopped e' = e_stopped e"

lemma same_config_refl [simp]: "same_config e e"
  by (simp add: same_config_def)

lemma same_config_trans: "same_config a b \<Longrightarrow> same_config b c \<Longrightarrow> same_config a c"
  by (simp add: same_config_def)

lemma same_config_db [simp]: "same_config e (e\<lparr>e_DB := db\<rparr>)"
  by (simp add: same_config_def)

lemma same_config_file [simp]: "same_config (e\<lparr>e_File := f\<rparr>) e' = same_config e e'" "same_config e (e'\<lparr>e_File := f\<rparr>) = same_config e e'"
  by (simp_all add: same_config_def)

lemma finish_config [simp]: "same_config e (fst (finish now id0 r e))"
  by (simp add: finish_def)

lemma CreatePlan_config [simp]: "same_config e (fst (CreatePlan H ad now nid a d e))"
  using CreatePlan_db [of H ad now nid a d e] by auto

lemma Apply_config [simp]: "same_config e (fst (Apply H now nid a plan_id target key e))"
  using Apply_fst [of H now nid a plan_id target key e] by auto

lemma Recover_config [simp]: "same_config e (fst (Recover H ad now nid a id0 e))"
  by (cases rule: Recover_cases [of H ad now nid a id0 e]) simp_all

lemma inspectEvidence_config [simp]: "same_config e (fst (inspectEvidence ad now a id0 perf e))"
  by (cases rule: inspectEvidence_cases [of ad now a id0 perf e]) simp_all

lemma Cancel_config [simp]: "same_config e (fst (Cancel now a id0 n e))"
  by (simp add: Cancel_fst)

lemma claim_config [simp]: "same_config e (fst (execute_claim now op e))"
  by (simp add: execute_claim_fst)

lemma check_config [simp]: "same_config e (fst (execute_check H ad now now' dn op e))"
  by (cases rule: execute_check_cases [of H ad now now' dn op e]) simp_all

lemma progress_config [simp]: "same_config e (fst (progress now id0 p e))"
  using progress_fst [of now id0 p e] by auto

lemma dispatch_config [simp]: "same_config e (fst (execute_dispatch now op e))"
proof -
  have "fst (execute_dispatch now op e) = fst (progress now (o_ID op) dispatch_progress e)"
    by (auto simp: execute_dispatch_def split: prod.splits sum.splits)
  then show ?thesis by simp
qed

lemma source_config [simp]: "same_config e (fst (execute_source H w now now' op c e))"
proof -
  obtain e1 r1 where p1: "progress now (o_ID op) \<lparr>pg_Phase = ''source-update-intent'', pg_Message = msg_source_intent, pg_Bytes = 0\<rparr> e = (e1, r1)"
    by fastforce
  then have e1: "same_config e e1" using progress_config [of e now "o_ID op"] by (metis fst_conv)
  have fin: "same_config e (fst (finish now' id0 r (e1\<lparr>e_File := f\<rparr>)))" for id0 r f
    using e1 by (simp add: same_config_def finish_def)
  have up: "same_config e (fst (with_db (e1\<lparr>e_File := f\<rparr>) y))" for f and y :: "Store \<times> (err + unit)"
    using e1 by (simp add: same_config_def)
  obtain f z where f: "Source_Update H w (c_Revision c) (p_Desired (o_Plan op)) (e_File e1) = (f, z)" by fastforce
  obtain e2 r2 where u: "with_db (e1\<lparr>e_File := f\<rparr>) (Update now' (source_updated_txn now' (o_ID op)) (e_DB e1)) = (e2, r2)" by fastforce
  have e2: "same_config e e2" using up [of f] u by (metis fst_conv)
  show ?thesis
    unfolding execute_source_def using p1 f u e1 e2 fin by (auto split: sum.split option.split)
qed

lemma start_loop_config [simp]: "same_config e (fst (start_loop ad now rest e))"
proof (induction rest arbitrary: e)
  case (Cons x rest)
  obtain k o1 where x: "x = (k, o1)" by (cases x)
  obtain e1 r1 where f: "finish now k (restart_result ad o1) e = (e1, r1)" by fastforce
  then have "same_config e e1" using finish_config [of e now k "restart_result ad o1"] by simp
  with Cons.IH [of e1] Cons.IH [of e] f show ?case
    unfolding x by (auto split: sum.split intro: same_config_trans)
qed simp

section \<open>How records move along a step\<close>

lemma steady_evolves: "invariant m \<Longrightarrow> steady (m_eng m) e' \<Longrightarrow> opwise op_evolves (operations (m_eng m)) (operations e')"
  by (simp add: invariant_def steady_def lawful_def)

lemma reopened_evolves:
  assumes inv: "invariant m" and db: "Open mode None (Inr (Some (db_disk (e_DB (m_eng m))))) wr sz = Inr db"
    and e: "e_DB e = db" and st: "steady e e'"
  shows "opwise op_evolves (operations (m_eng m)) (operations e')"
proof -
  have ops: "operations e = st_Operations (db_disk (e_DB (m_eng m)))"
    using Open_existing [OF db] e by (simp add: OperationRecords_def)
  have snd: "sound_store (e_DB e)" using reopened_invariant [OF inv db e] by (simp add: invariant_def)
  then have "lawful op_evolves (operations e) (operations e')" using st by (simp add: steady_def)
  moreover have "opwise op_evolves (operations (m_eng m)) (operations e)"
    unfolding ops using invariant_sound [OF inv] by (simp add: sound_store_def OperationRecords_def)
  ultimately show ?thesis by (auto simp: lawful_def intro: opwise_trans op_evolves_trans)
qed

lemma accept_evolves:
  assumes inv: "invariant m" and fresh: "fresh_id m nid"
  shows "opwise op_evolves (operations (m_eng m)) (operations (fst (Apply H now nid a plan_id target key (m_eng m))))"
proof -
  note snd = invariant_sound [OF inv]
  let ?ops = "operations (m_eng m)"
  have nid: "nid \<noteq> []" "map_of ?ops nid = None" using fresh by (auto simp: fresh_id_def)
  have acc: "opwise op_evolves ?ops T" if "accepted_table now nid ?ops T" for T
  proof -
    have X: "opwise op_evolves ?ops (prune_operations now ?ops)"
      using evolving.lawful_prune [OF sound_keyed [OF snd]] by (simp add: lawful_def)
    from that obtain Y where Y: "keyed Y" "T = prune_operations now Y"
      and cases: "Y = prune_operations now ?ops \<or> (\<exists>a p. Y = AList.update nid (new_operation now nid a p) (prune_operations now ?ops))"
      unfolding accepted_table_def by blast
    from cases X nid(2) have "opwise op_evolves ?ops Y" by (auto simp: opwise_def split: if_splits)
    with evolving.lawful_prune [OF Y(1), of now] show ?thesis
      unfolding Y(2) by (auto simp: lawful_def intro: opwise_trans op_evolves_trans)
  qed
  have "operations (fst (Apply H now nid a plan_id target key (m_eng m))) = ?ops
    \<or> accepted_table now nid ?ops (operations (fst (Apply H now nid a plan_id target key (m_eng m))))"
    using apply_tables [OF snd nid(1) HOL.refl] by blast
  with acc opwise_refl [of op_evolves ?ops] show ?thesis by (metis op_evolves_refl)
qed

lemma step_kinds:
  assumes "machine_step H V m m'" and "invariant m"
  obtains (direct) "steady (m_eng m) (m_eng m')" "e_Depth (m_eng m') = e_Depth (m_eng m)"
  | (accepted) now nid a plan_id target key where "fresh_id m nid"
      "m_eng m' = fst (Apply H now nid a plan_id target key (m_eng m))"
  | (reopened) mode wr sz db e where "Open mode None (Inr (Some (db_disk (e_DB (m_eng m))))) wr sz = Inr db"
      "e_DB e = db" "e_Depth e = e_Depth (m_eng m)" "steady e (m_eng m')" "e_Depth (m_eng m') = e_Depth e"
  using assms
proof (cases rule: machine_step.cases)
  case (plan ad now nid a d)
  then show ?thesis
    using CreatePlan_config [of "m_eng m" H ad now nid a d] by (intro direct) (simp_all add: CreatePlan_steady same_config_def)
next
  case (accept nid now a plan_id target key)
  then show ?thesis by (intro accepted) simp_all
next
  case (cancel now a id0 n)
  then show ?thesis
    using Cancel_config [of "m_eng m" now a id0 n] by (intro direct) (simp_all add: Cancel_steady same_config_def)
next
  case (recover ad now nid a id0)
  then show ?thesis
    using Recover_config [of "m_eng m" H ad now nid a id0] by (intro direct) (simp_all add: Recover_steady same_config_def)
next
  case (evidence ad now a id0 perf)
  then show ?thesis
    using inspectEvidence_config [of "m_eng m" ad now a id0 perf] by (intro direct) (simp_all add: inspectEvidence_steady same_config_def)
next
  case (login now cred purpose tok csrf)
  then show ?thesis using Login_steady by (intro direct) simp_all
next
  case (claim op now e' b)
  then show ?thesis
    using execute_claim_steady [of "m_eng m" now op] claim_config [of "m_eng m" now op] by (intro direct) (simp_all add: same_config_def)
next
  case (check op ad now now' dn e' c)
  then show ?thesis
    using execute_check_steady [of "m_eng m" H ad now now' dn op] check_config [of "m_eng m" H ad now now' dn op]
    by (intro direct) (simp_all add: same_config_def)
next
  case (source op c w now now' e' b)
  then have "held (m_eng m) op" using assms(2) by (simp add: invariant_def stage_ok_def ready_def gripped_iff)
  with source show ?thesis
    using execute_source_step [OF invariant_sound [OF assms(2)]] source_config [of "m_eng m" H w now now' op c]
    by (intro direct) (simp_all add: same_config_def)
next
  case (dispatch op now e' b)
  then have "gripped (m_eng m) op" using assms(2) by (simp add: invariant_def stage_ok_def ready_def)
  then have "steady (m_eng m) e'"
    using execute_dispatch_steady(1) [of "m_eng m" op now] dispatch by (auto simp: gripped_def grip_def)
  with dispatch show ?thesis
    using dispatch_config [of "m_eng m" now op] by (intro direct) (simp_all add: same_config_def)
next
  case (report op now p)
  then have "o_ID op \<in> x_ID ` set (m_calls m)" using assms(2) by (simp add: invariant_def stage_ok_def)
  then have "steady (m_eng m) (fst (progress now (o_ID op) p (m_eng m)))"
    using assms(2) by (intro progress_steady) (auto simp: invariant_def logged_def)
  with report show ?thesis
    using progress_config [of "m_eng m" now "o_ID op" p] by (intro direct) (simp_all add: same_config_def)
next
  case (complete op now r x)
  then show ?thesis
    using adapter_result_Terminal [of r x] finish_config [of "m_eng m" now "o_ID op" "adapter_result r x"]
    by (intro direct) (simp_all add: finish_steady Terminal_not_queued same_config_def)
next
  case stop
  then show ?thesis by (intro direct) (simp_all add: steady_def evolving.lawful_refl)
next
  case crash
  then show ?thesis by (intro direct) simp_all
next
  case (restart ad mode wr sz db now e' res)
  let ?e = "(m_eng m)\<lparr>e_DB := db, e_stopped := False\<rparr>"
  show ?thesis
    using restart Start_steady [of ad ?e now] start_loop_config [of ?e ad now "operations ?e"]
    by (intro reopened [of mode wr sz db ?e]) (simp_all add: Start_def same_config_def)
next
  case (admin mode wr sz db now uid owner secret nid token action role name ttl)
  let ?e = "(m_eng m)\<lparr>e_DB := db\<rparr>"
  show ?thesis
    using admin Run_steady [of ?e V now uid owner secret nid token action role name ttl]
    by (intro reopened [of mode wr sz db ?e]) simp_all
qed

lemma step_evolves:
  assumes "machine_step H V m m'" and inv: "invariant m"
  shows "opwise op_evolves (operations (m_eng m)) (operations (m_eng m'))"
  using assms(1,2)
proof (cases rule: step_kinds)
  case direct
  then show ?thesis by (intro steady_evolves [OF inv])
next
  case (accepted now nid a plan_id target key)
  with accept_evolves [OF inv] show ?thesis by simp
next
  case (reopened mode wr sz db e)
  then show ?thesis by (intro reopened_evolves [OF inv])
qed

section \<open>Properties\<close>

text \<open>
  C1: no operation is handed to the executor twice, under any interleaving of requests with the
  executor's stages and any crashes, failed writes and restarts.
\<close>

theorem dispatched_at_most_once:
  assumes "reachable H V m"
  shows "distinct (map x_ID (m_calls m))"
  using reachable_invariant [OF assms] by (simp add: invariant_def)

text \<open>
  C17: the intent to dispatch is in the file before the executor is called: the record of every call
  ever made, as long as the file retains it, is marked dispatched, is not queued, and carries the
  plan the executor was given.
\<close>

theorem dispatch_intent_durable:
  assumes "reachable H V m" and "x \<in> set (m_calls m)"
    and "map_of (st_Operations (db_disk (e_DB (m_eng m)))) (x_ID x) = Some o1"
  shows "o_Dispatched o1 \<and> o_State o1 \<noteq> ''queued'' \<and> o_Plan o1 = x_Plan x"
  using reachable_invariant [OF assms(1)] assms(2,3) by (simp add: invariant_def logged_def)

text \<open>
  C5: the executor is called across no foreign fence. When a step hands an operation other than a
  hardware refresh to the executor, every operation that is outstanding at that moment belongs to
  the recovery chain the operation was planned to recover.
\<close>

theorem dispatch_behind_fence:
  assumes "reachable H V m" and "machine_step H V m m'" and "m_calls m' = m_calls m @ [x]"
    and "d_Action (p_Draft (x_Plan x)) \<noteq> ''hardware.refresh''"
    and "map_of (operations (m_eng m')) k = Some o1" and "o_RecoveryRequired o1"
  shows "d_RecoveryID (p_Draft (x_Plan x)) \<noteq> [] \<and>
    (\<exists>ch. RecoveryChain (operationLinks (operations (m_eng m'))) (d_RecoveryID (p_Draft (x_Plan x))) = Inr ch \<and> k \<in> set ch)"
  using assms(2)
proof cases
  case (dispatch op now e' b)
  note inv = reachable_invariant [OF assms(1)]
  note snd = invariant_sound [OF inv]
  have b: b and x: "x = execution_of op" and m': "m_eng m' = e'" using dispatch assms(3) by (auto split: if_splits)
  have r: "ready m op" using inv dispatch(3) by (simp add: invariant_def stage_ok_def)
  then have g: "gripped (m_eng m) op" and f: "fenced (operations (m_eng m)) op" by (auto simp: ready_def)
  have "all_recorded (operations (m_eng m))" using inv by (simp add: invariant_def)
  from dispatch_durable [OF snd g this] dispatch(4) b obtain o2 where
    o2: "map_of (operations e') (o_ID op) = Some o2" "o_Plan o2 = o_Plan op" by auto
  have "calm (m_eng m) e'"
    using execute_dispatch_steady(2) [of "m_eng m" op now] dispatch(4) g by (auto simp: gripped_def grip_def)
  then have "lawful op_quiet (operations (m_eng m)) (operations e')" using snd by (simp add: calm_def)
  from fenced_lawful [OF this f o2] assms(4-6) obtain rt where
    "d_RecoveryID (o_Draft op) \<noteq> []" "RecoveryRoot (operationLinks (operations e')) k = Inr rt"
    "RecoveryRoot (operationLinks (operations e')) (d_RecoveryID (o_Draft op)) = Inr rt"
    unfolding fenced_def x m' execution_of_def by auto
  then show ?thesis
    using RecoveryChain_defined [of "operationLinks (operations e')" "d_RecoveryID (o_Draft op)" rt]
    by (auto simp: x m' execution_of_def RecoveryChain_members)
qed (use assms(3) in \<open>simp_all\<close>)

text \<open>
  C12: a record only moves forward. Across any step, crashes and restarts included, an operation
  that is still recorded keeps its plan, its actor and its creation time; a final state stays final,
  a dispatched operation stays dispatched, and one that left the queue does not return to it.
\<close>

theorem operation_moves_forward:
  assumes "reachable H V m" and "machine_step H V m m'"
    and "map_of (operations (m_eng m)) k = Some o1" and "map_of (operations (m_eng m')) k = Some o2"
  shows "o_Plan o2 = o_Plan o1 \<and> o_Actor o2 = o_Actor o1 \<and> o_CreatedAt o2 = o_CreatedAt o1 \<and>
    (Terminal (o_State o1) \<longrightarrow> Terminal (o_State o2)) \<and> (o_Dispatched o1 \<longrightarrow> o_Dispatched o2) \<and>
    (o_State o1 \<noteq> ''queued'' \<longrightarrow> o_State o2 \<noteq> ''queued'')"
proof -
  have "op_evolves o1 o2"
    using step_evolves [OF assms(2) reachable_invariant [OF assms(1)]] assms(3,4) unfolding opwise_def by blast
  then show ?thesis by (simp add: op_evolves_def)
qed

end
