(* ===== verification/Queue.thy ===== *)
theory Queue
  imports Scheduler
begin

text \<open>
  Bounds and progress of the queue: retained and active operations stay within their limits in
  every reachable state, one wake-up of the loop ends with an empty queue or a failed store, and a
  successful start leaves nothing half done.
\<close>

section \<open>Bounds\<close>

lemma keyed_length:
  assumes "keyed ops" and "keyed ops'" and "no_new ops ops'"
  shows "length ops' \<le> length ops"
proof -
  have "set (gkeys ops') \<subseteq> set (gkeys ops)"
  proof
    fix k assume "k \<in> set (gkeys ops')"
    then have "k \<in> dom (map_of ops')" by (simp add: dom_map_of_conv_image_fst)
    then obtain o2 where "map_of ops' k = Some o2" by blast
    with assms(3) obtain o1 where "map_of ops k = Some o1" unfolding no_new_def by blast
    then show "k \<in> set (gkeys ops)" by (simp add: map_of_in_keys)
  qed
  moreover have "distinct (gkeys ops')" "distinct (gkeys ops)" using assms(1,2) by (auto simp: keyed_def wf_map_def)
  ultimately have "card (set (gkeys ops')) \<le> card (set (gkeys ops))" by (intro card_mono) simp_all
  with \<open>distinct (gkeys ops')\<close> \<open>distinct (gkeys ops)\<close> show ?thesis by (simp only: distinct_card length_map)
qed

definition active_part :: "Operation gomap \<Rightarrow> Operation gomap" where
  "active_part ops = sift (\<lambda>k o1. \<not> Terminal (o_State o1)) ops"

lemma active_length: "active_operations ops = length (active_part ops)"
  by (simp add: active_operations_def active_part_def sift_def)

lemma keyed_active: "keyed ops \<Longrightarrow> keyed (active_part ops)"
  by (auto simp: keyed_def active_part_def set_sift)

lemma active_lookup:
  "keyed ops \<Longrightarrow> map_of (active_part ops) k = Some o1 \<longleftrightarrow> map_of ops k = Some o1 \<and> \<not> Terminal (o_State o1)"
  by (simp add: keyed_def active_part_def gomap.retain_Some)

lemma active_no_new:
  assumes key: "keyed ops" "keyed ops'" and law: "lawful op_evolves ops ops'"
  shows "no_new (active_part ops) (active_part ops')"
  unfolding no_new_def
proof (intro allI impI)
  fix k o2 assume "map_of (active_part ops') k = Some o2"
  then have k: "map_of ops' k = Some o2" "\<not> Terminal (o_State o2)" using key(2) by (auto simp: active_lookup)
  from law k(1) obtain o1 where o1: "map_of ops k = Some o1" unfolding lawful_def no_new_def by blast
  with law k(1) have "op_evolves o1 o2" unfolding lawful_def opwise_def by blast
  with k(2) have "\<not> Terminal (o_State o1)" by (auto simp: op_evolves_def)
  with o1 key(1) show "\<exists>o1. map_of (active_part ops) k = Some o1" by (auto simp: active_lookup)
qed

definition bounded :: "int \<Rightarrow> Operation gomap \<Rightarrow> bool" where
  "bounded depth ops \<longleftrightarrow> length ops \<le> 500 \<and> int (active_operations ops) \<le> max 0 depth"

lemma bounded_lawful:
  assumes "keyed ops" and "lawful op_evolves ops ops'" and "bounded depth ops"
  shows "bounded depth ops'"
proof -
  have key': "keyed ops'" and nn: "no_new ops ops'" using assms(1,2) by (auto simp: lawful_def)
  have "length ops' \<le> length ops" using assms(1) key' nn by (rule keyed_length)
  moreover have "active_operations ops' \<le> active_operations ops"
    unfolding active_length using keyed_active assms(1) key' active_no_new [OF assms(1) key' assms(2)] by (blast intro: keyed_length)
  ultimately show ?thesis using assms(3) by (auto simp: bounded_def)
qed

lemma active_put: "active_operations (AList.update k o1 ops) \<le> active_operations ops + 1"
  by (induction ops) (auto simp: active_operations_def)

definition within_bounds :: "Engine \<Rightarrow> bool" where
  "within_bounds e \<longleftrightarrow> bounded (e_Depth e) (operations e) \<and> bounded (e_Depth e) (st_Operations (db_disk (e_DB e)))"

lemma steady_bounds:
  assumes "sound_store (e_DB e)" and "steady e e'" and "e_Depth e' = e_Depth e" and "within_bounds e"
  shows "within_bounds e'"
proof -
  from assms(1,2) have law: "lawful op_evolves (operations e) (operations e')"
    and disk: "db_disk (e_DB e') = db_disk (e_DB e) \<or> lawful op_evolves (operations e) (st_Operations (db_disk (e_DB e')))"
    by (auto simp: steady_def)
  note b = bounded_lawful [OF sound_keyed [OF assms(1)]]
  show ?thesis
    using b [OF law] b disk assms(3,4) unfolding within_bounds_def by metis
qed

lemma apply_txn_bounded:
  assumes "apply_txn H now nid a plan_id target key own depth s = Inr (s', op)" and "bounded depth (st_Operations s)"
  shows "bounded depth (st_Operations s')"
  using assms(1)
proof (cases rule: apply_txn_cases)
  case replay
  with assms(2) show ?thesis by simp
next
  case (accepted p)
  then show ?thesis
    using apply_guards_None(9,10) [OF accepted(3)] active_put [of nid op "st_Operations s"] length_update [of nid op "st_Operations s"]
    by (auto simp: bounded_def)
qed

lemma Apply_bounds:
  assumes snd: "sound_store (e_DB e)" and nid: "nid \<noteq> []" and b: "within_bounds e"
  shows "within_bounds (fst (Apply H now nid a plan_id target key e))"
proof -
  let ?fn = "apply_txn H now nid a plan_id target key (e_Target e) (e_Depth e)"
  have wf: "wf_state (prune now (db_state (e_DB e)))" using snd by (simp add: sound_store_def wf_prune)
  have pr: "bounded (e_Depth e) (st_Operations (prune now (db_state (e_DB e))))"
    using bounded_lawful [OF sound_keyed [OF snd] evolving.lawful_prune [OF sound_keyed [OF snd]]] b
    by (simp add: within_bounds_def OperationRecords_def)
  have commit: "bounded (e_Depth e) (st_Operations (commit_state now v))" if t: "?fn (prune now (db_state (e_DB e))) = Inr (v, op)" for v op
  proof -
    have "keyed (st_Operations v)" using apply_txn_wf [OF t wf nid] by (simp add: wf_state_def)
    from bounded_lawful [OF this evolving.lawful_prune [OF this] apply_txn_bounded [OF t pr]] show ?thesis by simp
  qed
  have "bounded (e_Depth e) (OperationRecords (fst (Update now ?fn (e_DB e)))) \<and>
      bounded (e_Depth e) (st_Operations (db_disk (fst (Update now ?fn (e_DB e)))))"
    by (cases rule: Update_cases [of "e_DB e" now ?fn])
       (use commit b in \<open>auto simp: within_bounds_def OperationRecords_def simp del: commit_operations\<close>)
  then show ?thesis
    using Apply_fst [of H now nid a plan_id target key e] b by (auto simp: within_bounds_def)
qed

lemma step_bounds:
  assumes "machine_step H V m m'" and inv: "invariant m" and b: "within_bounds (m_eng m)"
  shows "within_bounds (m_eng m')"
  using assms(1,2)
proof (cases rule: step_kinds)
  case direct
  then show ?thesis using steady_bounds [OF invariant_sound [OF inv] _ _ b] by blast
next
  case (accepted now nid a plan_id target key)
  then show ?thesis using Apply_bounds [OF invariant_sound [OF inv] _ b] by (simp add: fresh_id_def)
next
  case (reopened mode wr sz db e)
  have snd: "sound_store (e_DB e)" using reopened_invariant [OF inv reopened(1,2)] by (simp add: invariant_def)
  have "within_bounds e"
    using Open_existing [OF reopened(1)] reopened(2,3) b by (simp add: within_bounds_def OperationRecords_def)
  from steady_bounds [OF snd reopened(4,5) this] show ?thesis .
qed

section \<open>Start settles what was interrupted\<close>

definition op_settles :: "Operation \<Rightarrow> Operation \<Rightarrow> bool" where
  "op_settles o1 o2 \<longleftrightarrow> o_Plan o2 = o_Plan o1 \<and> (Terminal (o_State o2) \<or> o_State o2 = o_State o1)"

interpretation settling: record_order op_settles
  by unfold_locales (auto simp: op_settles_def)

lemma finish_settles:
  assumes "sound_store (e_DB e)" and "Terminal (res_State r)"
  shows "lawful op_settles (operations e) (operations (fst (finish now id0 r e)))"
proof -
  have wf: "wf_state (db_state (e_DB e))" "wf_state (prune now (db_state (e_DB e)))"
    using assms(1) by (auto simp: sound_store_def wf_prune)
  have "lawful op_settles (prune_operations now (operations e)) (st_Operations v) \<and> wf_state v"
    if t: "finish_txn now id0 r (prune now (db_state (e_DB e))) = Inr (v, u)" for v u
    using settling.finish_txn_lawful [OF t wf(2)] effective_state(2) [OF assms(2)]
    by (simp add: op_settles_def OperationRecords_def)
  from settling.Update_lawful [where fn = "finish_txn now id0 r", OF wf(1) this] show ?thesis
    by (simp add: finish_def)
qed

lemma finish_own_record:
  assumes snd: "sound_store (e_DB e)" and r: "Terminal (res_State r)"
    and fin: "finish now id0 r e = (e', Inr ())" and o2: "map_of (operations e') id0 = Some o2"
  shows "Terminal (o_State o2)"
proof -
  let ?s = "prune now (db_state (e_DB e))"
  have wf: "wf_state ?s" using snd by (simp add: sound_store_def wf_prune)
  obtain v u where v: "finish_txn now id0 r ?s = Inr (v, u)"
    using fin by (cases "finish_txn now id0 r ?s") (auto simp: finish_def with_db_def Update_def Let_def split: if_splits)
  then obtain o1 where o1: "map_of (st_Operations ?s) id0 = Some o1"
    by (auto simp: finish_txn_def split: option.splits)
  define n where "n = finished now (effective_result (d_Action (o_Draft o1)) r) o1"
  let ?put = "AList.update id0 n (st_Operations ?s)"
  have kput: "keyed ?put"
    using wf o1 keyed_lookup [OF _ o1] by (auto simp: n_def wf_state_def intro!: keyed_put)
  from v o1 have "st_Operations v = ?put \<or> (\<exists>ch. st_Operations v = settle_chain now id0 n ch ?put)"
    by (auto simp: finish_txn_def Let_def n_def [symmetric] split: if_splits sum.splits)
  then have own: "map_of (st_Operations v) id0 = Some n" using settle_chain_lookup [OF kput] by auto
  have "keyed (st_Operations v)"
    using evolving.finish_txn_lawful [OF v wf finished_evolves settled_evolves] r effective_state
    by (auto simp: wf_state_def Terminal_not_queued)
  then have "o2 = n"
    using o2 own unfolding finish_result [OF snd v fin] by (auto simp: keyed_def prune_operations_lookup)
  then show ?thesis using effective_state(2) [OF r] by (simp add: n_def)
qed

text \<open>A record in flight is neither final nor queued.\<close>

definition in_flight :: "Operation \<Rightarrow> bool" where
  "in_flight o1 \<longleftrightarrow> \<not> Terminal (o_State o1) \<and> o_State o1 \<noteq> ''queued''"

lemma start_loop_settles:
  assumes "orderly ad"
  shows "sound_store (e_DB e) \<Longrightarrow>
    (\<And>k o1. map_of (operations e) k = Some o1 \<Longrightarrow> in_flight o1 \<Longrightarrow> \<exists>o2. (k, o2) \<in> set rest \<and> in_flight o2) \<Longrightarrow>
    start_loop ad now rest e = (e', Inr ()) \<Longrightarrow> map_of (operations e') j = Some o3 \<Longrightarrow> \<not> in_flight o3"
proof (induction rest arbitrary: e)
  case Nil
  then show ?case by auto
next
  case (Cons x rest)
  obtain k o1 where x: "x = (k, o1)" by (cases x)
  show ?case
  proof (cases "in_flight o1")
    case False
    with Cons.prems(2) x have "\<exists>o2. (i, o2) \<in> set rest \<and> in_flight o2"
      if "map_of (operations e) i = Some oi" "in_flight oi" for i oi using that by fastforce
    moreover have "start_loop ad now rest e = (e', Inr ())"
      using Cons.prems(3) False by (simp add: x in_flight_def split: if_splits)
    ultimately show ?thesis using Cons.IH Cons.prems(1,4) by blast
  next
    case True
    obtain e1 r1 where f: "finish now k (restart_result ad o1) e = (e1, r1)" by fastforce
    with Cons.prems(3) True have r1: "r1 = Inr ()" and loop: "start_loop ad now rest e1 = (e', Inr ())"
      by (auto simp: x in_flight_def split: sum.splits)
    note fin = restart_result_Terminal [OF assms, of o1]
    have e1: "e1 = fst (finish now k (restart_result ad o1) e)" using f by simp
    have "steady e e1" using fin by (simp add: e1 finish_steady Terminal_not_queued)
    then have snd1: "sound_store (e_DB e1)" using Cons.prems(1) by (simp add: steady_def)
    have law: "lawful op_settles (operations e) (operations e1)" unfolding e1 by (rule finish_settles [OF Cons.prems(1) fin])
    have "\<exists>o2. (i, o2) \<in> set rest \<and> in_flight o2" if i: "map_of (operations e1) i = Some oi" "in_flight oi" for i oi
    proof -
      have "i \<noteq> k" using finish_own_record [OF Cons.prems(1) fin f [unfolded r1]] i by (auto simp: in_flight_def)
      moreover from law i(1) obtain oo where oo: "map_of (operations e) i = Some oo" unfolding lawful_def no_new_def by blast
      with law i(1) have "op_settles oo oi" unfolding lawful_def opwise_def by blast
      with i(2) have "in_flight oo" by (auto simp: op_settles_def in_flight_def)
      ultimately show ?thesis using Cons.prems(2) [OF oo] x by auto
    qed
    with Cons.IH [OF snd1 _ loop Cons.prems(4)] show ?thesis by blast
  qed
qed

section \<open>The loop drains the queue\<close>

definition queued_ids :: "Operation gomap \<Rightarrow> string set" where
  "queued_ids ops = {k. \<exists>o1. map_of ops k = Some o1 \<and> o_State o1 = ''queued''}"

lemma finite_queued [simp]: "finite (queued_ids ops)"
proof (rule finite_subset)
  show "queued_ids ops \<subseteq> fst ` set ops" by (auto simp: queued_ids_def dest: map_of_in_keys)
qed simp

lemma queued_lawful: "lawful op_evolves ops ops' \<Longrightarrow> queued_ids ops' \<subseteq> queued_ids ops"
  unfolding queued_ids_def lawful_def no_new_def opwise_def op_evolves_def by blast

lemma claim_leaves_queue:
  assumes snd: "sound_store (e_DB e)" and up: "Healthy (e_DB e)"
    and op: "map_of (operations e) (o_ID op) = Some op" "o_State op = ''queued''"
    and x: "execute_claim now op e = (e', b)"
  shows "unqueued e' (o_ID op) \<or> \<not> Healthy (e_DB e') \<and> \<not> b"
proof -
  let ?s = "prune now (db_state (e_DB e))"
  have e': "e' = e\<lparr>e_DB := fst (Update now (claim_txn now (o_ID op)) (e_DB e))\<rparr>"
    using execute_claim_fst [of now op e] x by simp
  have wf: "wf_state ?s" using snd by (simp add: sound_store_def wf_prune)
  have o1: "map_of (st_Operations ?s) (o_ID op) = Some op"
    using nonterminal_pruned [OF sound_keyed [OF snd] op(1)] op(2) by (simp add: OperationRecords_def)
  show ?thesis
  proof (cases rule: Update_cases [of "e_DB e" now "claim_txn now (o_ID op)"])
    case poisoned
    with up show ?thesis by (simp add: Healthy_def)
  next
    case (refused y)
    then have False using o1 op(2) by (auto simp: claim_txn_def operation_at_def Let_def split: if_splits)
    then show ?thesis ..
  next
    case (unwritten v r disk)
    then show ?thesis using x by (auto simp: e' Healthy_def execute_claim_def with_db_def)
  next
    case (committed v u)
    have ks: "keyed (st_Operations ?s)" using wf by (simp add: wf_state_def)
    from committed(2) ks obtain o1 st ph m where
      v: "v = ?s\<lparr>st_Operations := AList.update (o_ID op) (claimed now st ph m o1) (st_Operations ?s)\<rparr>" "st = ''failed'' \<or> st = ''running''"
      by (rule claim_txn_cases) blast
    have "wf_state v" using evolving.claim_txn_lawful [OF committed(2) wf claimed_evolves] by simp
    then show ?thesis
      using committed(3) v by (auto simp: e' unqueued_def OperationRecords_def wf_state_def keyed_def prune_operations_lookup claimed_def)
  qed
qed

lemma execute_complete_config: "same_config e (execute_complete ad now now' op e)"
proof -
  have rep: "same_config e (report_progress now id0 ps e)" for id0 ps e
  proof (induction ps arbitrary: e)
    case (Cons p ps)
    show ?case using Cons.IH [of "fst (progress now id0 p e)"] same_config_trans [OF progress_config] by simp
  qed simp
  show ?thesis
    unfolding execute_complete_def
    using rep same_config_trans [OF _ finish_config] by (simp split: prod.split)
qed

text \<open>The stages composed: the record leaves the queue or the store fails, and the rest moves forward.\<close>

lemma execute_step:
  assumes snd: "sound_store (e_DB e)" and rec: "all_recorded (operations e)" and up: "Healthy (e_DB e)"
    and old: "OldestQueuedOperation (e_DB e) = Some op"
  shows "steady e (execute H ad w clk dn op e) \<and> same_config e (execute H ad w clk dn op e) \<and>
    (unqueued (execute H ad w clk dn op e) (o_ID op) \<or> \<not> Healthy (e_DB (execute H ad w clk dn op e)))"
proof -
  have op: "map_of (operations e) (o_ID op) = Some op" "o_State op = ''queued''"
    using oldest_record [OF sound_keyed [OF snd] old] by auto
  have r: "recorded op" using rec op(1) by (simp add: all_recorded_def)
  obtain e1 b1 where c: "execute_claim (clk 0) op e = (e1, b1)" by fastforce
  have st1: "steady e e1" "same_config e e1" using execute_claim_steady [of e "clk 0" op] claim_config [of e "clk 0" op] c by auto
  have snd1: "sound_store (e_DB e1)" using st1(1) snd by (simp add: steady_def)
  note leaves = claim_leaves_queue [OF snd up op c]
  show ?thesis
  proof (cases b1)
    case False
    with c st1 leaves show ?thesis by (simp add: execute_def)
  next
    case True
    have q1: "unqueued e1 (o_ID op)" using leaves True by simp
    have grip1: "gripped e1 op" using claim_step [OF snd op(1) r c [unfolded eqTrueI [OF True]]] by simp
    have tail: ?thesis if "steady e1 e'" "same_config e1 e'" "execute H ad w clk dn op e = e'" for e'
      using that st1 unqueued_steady [OF that(1) snd1 q1] steady_trans [OF st1(1)] same_config_trans [OF st1(2)] by simp
    obtain e2 c2 where ck: "execute_check H ad (clk 1) (clk 2) dn op e1 = (e2, c2)" by fastforce
    have st2: "steady e1 e2" "same_config e1 e2"
      using execute_check_steady [of e1 H ad "clk 1" "clk 2" dn op] check_config [of e1 H ad "clk 1" "clk 2" dn op]
      unfolding ck by simp_all
    show ?thesis
    proof (cases c2)
      case None
      with c True ck st2 show ?thesis by (intro tail) (simp_all add: execute_def)
    next
      case (Some cfg)
      have e2: "e2 = e1" using ck Some by (cases rule: execute_check_cases [of H ad "clk 1" "clk 2" dn op e1]) auto
      obtain e3 b3 where so: "execute_source H w (clk 3) (clk 4) op cfg e2 = (e3, b3)" by fastforce
      have st3: "steady e1 e3" "same_config e1 e3"
        using execute_source_step [OF snd1 _ so [unfolded e2]] grip1
          source_config [of e1 H w "clk 3" "clk 4" op cfg, unfolded so [unfolded e2] fst_conv]
        by (auto simp: gripped_iff)
      show ?thesis
      proof (cases b3)
        case False
        with c True ck Some so st3 show ?thesis by (intro tail) (simp_all add: execute_def)
      next
        case b3: True
        have snd3: "sound_store (e_DB e3)" and q3: "unqueued e3 (o_ID op)"
          using st3(1) snd1 unqueued_steady [OF st3(1) snd1 q1] by (auto simp: steady_def)
        obtain e4 b4 where di: "execute_dispatch (clk 5) op e3 = (e4, b4)" by fastforce
        have st4: "steady e3 e4" "same_config e3 e4"
          using execute_dispatch_steady(1) [of e3 op "clk 5"] q3 dispatch_config [of e3 "clk 5" op, unfolded di fst_conv] di
          by (auto simp: unqueued_def)
        have snd4: "sound_store (e_DB e4)" and q4: "unqueued e4 (o_ID op)"
          using st4(1) snd3 unqueued_steady [OF st4(1) snd3 q3] by (auto simp: steady_def)
        let ?e5 = "if b4 then execute_complete ad (clk 6) (clk 7) op e4 else e4"
        have "steady e4 ?e5" "same_config e4 ?e5"
          using execute_complete_steady [OF snd4 q4] execute_complete_config by auto
        then have "steady e1 ?e5" "same_config e1 ?e5"
          using steady_trans [OF st3(1) steady_trans [OF st4(1)]] same_config_trans [OF st3(2) same_config_trans [OF st4(2)]] by blast+
        with c True ck Some so b3 di show ?thesis by (intro tail [of ?e5]) (simp_all add: execute_def split: bool.split)
      qed
    qed
  qed
qed

lemma drain_ends:
  assumes "sound_store (e_DB e)" and "all_recorded (operations e)" and "card (queued_ids (operations e)) < fuel"
  shows "\<exists>e'. drain H rounds fuel e = Some e' \<and> lawful op_evolves (operations e) (operations e') \<and>
    (e_stopped e' \<or> \<not> Healthy (e_DB e') \<or> queued_ids (operations e') = {})"
  using assms
proof (induction fuel arbitrary: e)
  case (Suc fuel)
  show ?case
  proof (cases "e_stopped e \<or> \<not> Healthy (e_DB e)")
    case True
    then show ?thesis by (auto simp: evolving.lawful_refl)
  next
    case go: False
    show ?thesis
    proof (cases "OldestQueuedOperation (e_DB e)")
      case None
      then have "queued_ids (operations e) = {}"
        by (auto simp: OldestQueued_None queued_ids_def dest: map_of_SomeD)
      with None go show ?thesis by (auto simp: evolving.lawful_refl)
    next
      case (Some op)
      define e1 where "e1 = execute H (rd_Adapter (rounds fuel)) (rd_Write (rounds fuel)) (rd_Clock (rounds fuel)) (rd_Done (rounds fuel)) op e"
      have ex: "steady e e1" "same_config e e1" "unqueued e1 (o_ID op) \<or> \<not> Healthy (e_DB e1)"
        using execute_step [OF Suc.prems(1,2) _ Some] go by (auto simp: e1_def)
      have law: "lawful op_evolves (operations e) (operations e1)" and snd1: "sound_store (e_DB e1)"
        using ex(1) Suc.prems(1) by (auto simp: steady_def)
      have rec1: "all_recorded (operations e1)" using recorded_lawful [OF law Suc.prems(2)] .
      have loop: "drain H rounds (Suc fuel) e = drain H rounds fuel e1" using go Some by (simp add: e1_def Let_def)
      show ?thesis
      proof (cases "Healthy (e_DB e1)")
        case True
        have own: "o_ID op \<in> queued_ids (operations e)"
          using oldest_record [OF sound_keyed [OF Suc.prems(1)] Some] by (auto simp: queued_ids_def)
        have "queued_ids (operations e1) \<subseteq> queued_ids (operations e) - {o_ID op}"
          using queued_lawful [OF law] ex(3) True by (auto simp: unqueued_def queued_ids_def)
        with own have "queued_ids (operations e1) \<subset> queued_ids (operations e)" by blast
        then have "card (queued_ids (operations e1)) < fuel"
          using psubset_card_mono [OF finite_queued] Suc.prems(3) by (metis less_Suc_eq_le order_less_le_trans)
        from Suc.IH [OF snd1 rec1 this] loop law show ?thesis by (auto intro: evolving.lawful_trans)
      next
        case False
        have "o_ID op \<in> queued_ids (operations e)"
          using oldest_record [OF sound_keyed [OF Suc.prems(1)] Some] by (auto simp: queued_ids_def)
        then have "0 < card (queued_ids (operations e))" by (auto simp: card_gt_0_iff)
        with Suc.prems(3) have "fuel \<noteq> 0" by simp
        then obtain n where n: "fuel = Suc n" by (cases fuel) auto
        have "drain H rounds fuel e1 = Some e1" using False by (simp add: n)
        with loop law False show ?thesis by auto
      qed
    qed
  qed
qed simp

section \<open>Properties\<close>

lemma initial_bounds: "initial m \<Longrightarrow> within_bounds (m_eng m)"
  by (auto simp: initial_def within_bounds_def bounded_def OperationRecords_def NewState_def active_operations_def)

text \<open>
  C32: the queue is bounded. In every reachable state, and in the file, at most 500 operations are
  retained and at most the configured depth of them are not final.
\<close>

theorem queue_bounded:
  assumes "reachable H V m"
  shows "length (operations (m_eng m)) \<le> 500 \<and> length (st_Operations (db_disk (e_DB (m_eng m)))) \<le> 500 \<and>
    int (active_operations (operations (m_eng m))) \<le> max 0 (e_Depth (m_eng m))"
proof -
  from assms have "within_bounds (m_eng m)"
    by (induction rule: reachable.induct) (auto intro: initial_bounds step_bounds reachable_invariant)
  then show ?thesis by (simp add: within_bounds_def bounded_def)
qed

text \<open>
  C20: a start that succeeds leaves no operation in flight: every operation the previous process had
  claimed is final, and only queued ones remain to be executed, provided the executors answer an
  inspection with a final state, with running or queued, or with nothing.
\<close>

theorem start_leaves_nothing_in_flight:
  assumes "sound_store (e_DB e)" and "orderly ad" and "Start ad now e = (e', Inr ())"
    and "map_of (operations e') k = Some o1"
  shows "Terminal (o_State o1) \<or> o_State o1 = ''queued''"
proof -
  have "\<not> in_flight o1"
    using start_loop_settles [OF assms(2,1) _ _ assms(4), of "operations e" now] assms(3)
    unfolding Start_def by (blast dest: map_of_SomeD)
  then show ?thesis by (auto simp: in_flight_def)
qed


end
