(* ===== verification/Scenario.thy ===== *)
theory Scenario
  imports Queue
begin

text \<open>
  A run of the controller: the owner is bootstrapped, the service started, a profile switch
  planned, applied, executed and lost, then recovered by a restore of its chain. Each step is a
  function of the machine before it. The run inhabits the hypotheses of the theorems on reachable
  states.
\<close>

section \<open>The run\<close>

definition ex_H :: digest where "ex_H = (\<lambda>_. ''h'')"

definition ex_V :: "string \<Rightarrow> string" where "ex_V = (\<lambda>_. ''v'')"

definition ex_adapter :: Adapter where
  "ex_adapter = \<lparr>ad_Snapshot = Inr (zero_inventory\<lparr>i_Target := ''host''\<rparr>), ad_Validate = (\<lambda>d c. Inr zero_preview),
     ad_Inspect = (\<lambda>x. Inl (Plain ''gone'')), ad_Execute = (\<lambda>x. ([], mk_result ''succeeded'' [] [] False, None))\<rparr>"

definition ex_actor :: Actor where
  "ex_actor = \<lparr>ac_ID = ''c1'', ac_Name = ''local-owner'', ac_Role = ''owner''\<rparr>"

definition ex_draft :: Draft where
  "ex_draft = zero_draft\<lparr>d_Action := ''profile.switch'', d_Profile := ''ai'', d_Target := ''host'', d_SourceRevision := ''h''\<rparr>"

definition ex_wr :: "State \<Rightarrow> write_outcome" where "ex_wr = (\<lambda>_. Written)"

definition ex_sz :: "State \<Rightarrow> int" where "ex_sz = (\<lambda>_. 0)"

definition ex_store :: "State \<Rightarrow> Store" where
  "ex_store v = \<lparr>db_state = v, db_poisoned = False, db_disk = v, db_Write = ex_wr, db_Size = ex_sz\<rparr>"

definition ex_reopen :: "Machine \<Rightarrow> Store" where
  "ex_reopen m = ex_store (db_disk (e_DB (m_eng m)))"

definition ex_initial :: Machine where
  "ex_initial = \<lparr>m_eng = \<lparr>e_DB = ex_store (NewState ''live''), e_File = Content (zero_configuration\<lparr>c_Revision := ''h''\<rparr>),
     e_Target = ''host'', e_Depth = 8, e_stopped = False\<rparr>, m_stage = Idle, m_calls = [], m_up = False\<rparr>"

definition ex_admin :: "Machine \<Rightarrow> Machine" where
  "ex_admin m = m\<lparr>m_eng := (m_eng m)\<lparr>e_DB := fst (Run ex_V 0 0 0 None ''c1'' ''t'' ''bootstrap'' [] [] hour (ex_reopen m))\<rparr>, m_stage := Idle\<rparr>"

definition ex_restart :: "Machine \<Rightarrow> Machine" where
  "ex_restart m = m\<lparr>m_eng := fst (Start ex_adapter 0 ((m_eng m)\<lparr>e_DB := ex_reopen m, e_stopped := False\<rparr>)),
     m_stage := Idle, m_up := True\<rparr>"

definition ex_plan :: "Machine \<Rightarrow> Machine" where
  "ex_plan m = m\<lparr>m_eng := fst (CreatePlan ex_H ex_adapter 1 ''p1'' ex_actor ex_draft (m_eng m))\<rparr>"

definition ex_accept :: "time \<Rightarrow> string \<Rightarrow> string \<Rightarrow> string \<Rightarrow> Machine \<Rightarrow> Machine" where
  "ex_accept t nid plan_id key m = m\<lparr>m_eng := fst (Apply ex_H t nid ex_actor plan_id ''host'' key (m_eng m))\<rparr>"

definition ex_claim :: "time \<Rightarrow> Machine \<Rightarrow> Machine" where
  "ex_claim t m = (case OldestQueuedOperation (e_DB (m_eng m)) of None \<Rightarrow> m | Some op \<Rightarrow>
     (case execute_claim t op (m_eng m) of (e', b) \<Rightarrow> m\<lparr>m_eng := e', m_stage := (if b then Claimed op else Idle)\<rparr>))"

definition ex_check :: "time \<Rightarrow> Machine \<Rightarrow> Machine" where
  "ex_check t m = (case m_stage m of Claimed op \<Rightarrow>
       (case execute_check ex_H ex_adapter t t False op (m_eng m) of
          (e', c) \<Rightarrow> m\<lparr>m_eng := e', m_stage := (case c of None \<Rightarrow> Idle | Some cfg \<Rightarrow> Checked op cfg)\<rparr>) | _ \<Rightarrow> m)"

definition ex_source :: "time \<Rightarrow> Machine \<Rightarrow> Machine" where
  "ex_source t m = (case m_stage m of Checked op c \<Rightarrow>
       (case execute_source ex_H Written t t op c (m_eng m) of
          (e', b) \<Rightarrow> m\<lparr>m_eng := e', m_stage := (if b then Sourced op else Idle)\<rparr>) | _ \<Rightarrow> m)"

definition ex_dispatch :: "time \<Rightarrow> Machine \<Rightarrow> Machine" where
  "ex_dispatch t m = (case m_stage m of Sourced op \<Rightarrow>
       (case execute_dispatch t op (m_eng m) of
          (e', b) \<Rightarrow> m\<lparr>m_eng := e', m_stage := (if b then Running op else Idle),
             m_calls := (if b then m_calls m @ [execution_of op] else m_calls m)\<rparr>) | _ \<Rightarrow> m)"

definition ex_lost :: "time \<Rightarrow> Machine \<Rightarrow> Machine" where
  "ex_lost t m = (case m_stage m of Running op \<Rightarrow>
       m\<lparr>m_eng := fst (finish t (o_ID op) (adapter_result (mk_result [] [] [] False) (Some (Plain ''lost''))) (m_eng m)),
         m_stage := Idle\<rparr> | _ \<Rightarrow> m)"

definition ex_recover :: "Machine \<Rightarrow> Machine" where
  "ex_recover m = m\<lparr>m_eng := fst (Recover ex_H ex_adapter 8 ''p2'' ex_actor ''o1'' (m_eng m))\<rparr>"

text \<open>The run with the conjunction of the guards of its steps.\<close>

type_synonym run = "Machine \<times> bool"

definition upto_plan :: "Machine \<Rightarrow> run" where
  "upto_plan m = (ex_plan (ex_restart (ex_admin m)), True)"

definition then_accept :: "time \<Rightarrow> string \<Rightarrow> string \<Rightarrow> string \<Rightarrow> run \<Rightarrow> run" where
  "then_accept t nid plan_id key = (\<lambda>(m, ok). (ex_accept t nid plan_id key m, ok \<and> m_up m \<and> fresh_id m nid))"

definition then_claim :: "time \<Rightarrow> run \<Rightarrow> run" where
  "then_claim t = (\<lambda>(m, ok). (ex_claim t m, ok \<and> m_up m \<and> (case m_stage m of Idle \<Rightarrow> True | _ \<Rightarrow> False) \<and>
     \<not> e_stopped (m_eng m) \<and> Healthy (e_DB (m_eng m))))"

definition then_up :: "(Machine \<Rightarrow> Machine) \<Rightarrow> run \<Rightarrow> run" where
  "then_up f = (\<lambda>(m, ok). (f m, ok \<and> m_up m))"

definition ex_outstanding :: run where
  "ex_outstanding = then_up ex_recover (then_up (ex_lost 7) (then_up (ex_dispatch 6) (then_up (ex_source 5) (then_up (ex_check 4)
     (then_claim 3 (then_accept 2 ''o1'' ''p1'' ''key-0001'' (upto_plan ex_initial)))))))"

definition ex_ready :: run where
  "ex_ready = then_up (ex_source 12) (then_up (ex_check 11) (then_claim 10 (then_accept 9 ''o2'' ''p2'' ''key-0002'' ex_outstanding)))"

definition ex_final :: run where
  "ex_final = then_up (ex_dispatch 13) ex_ready"

section \<open>The run is reachable\<close>

definition honest :: "run \<Rightarrow> bool" where
  "honest r \<longleftrightarrow> (snd r \<longrightarrow> reachable ex_H ex_V (fst r))"

lemma ex_open: "Open ''live'' None (Inr (Some v)) ex_wr ex_sz = (if st_Schema v \<noteq> 1 \<or> st_Mode v \<noteq> ''live'' then Inl (Plain msg_state_mismatch) else Inr (ex_store v))"
  by (simp add: Open_def ex_store_def)

lemma ex_orderly: "orderly ex_adapter"
  by (simp add: orderly_def ex_adapter_def)

lemma honest_accept: "honest r \<Longrightarrow> honest (then_accept t nid plan_id key r)"
  by (auto simp: honest_def then_accept_def ex_accept_def split: prod.splits intro: reachable.step machine_step.accept)

lemma honest_claim:
  assumes "honest r"
  shows "honest (then_claim t r)"
proof -
  obtain m ok where r: "r = (m, ok)" by (cases r)
  show ?thesis
  proof (cases "OldestQueuedOperation (e_DB (m_eng m))")
    case None
    with assms show ?thesis by (simp add: honest_def then_claim_def ex_claim_def r)
  next
    case (Some op)
    obtain e' b where x: "execute_claim t op (m_eng m) = (e', b)" by fastforce
    have "m_stage m = Idle" if "case m_stage m of Idle \<Rightarrow> True | _ \<Rightarrow> False" using that by (cases "m_stage m") auto
    then have "machine_step ex_H ex_V m (ex_claim t m)" if "m_up m" "case m_stage m of Idle \<Rightarrow> True | _ \<Rightarrow> False"
        "\<not> e_stopped (m_eng m)" "Healthy (e_DB (m_eng m))"
      using machine_step.claim [of m op t e' b] that Some x by (simp add: ex_claim_def)
    with assms show ?thesis by (auto simp: honest_def then_claim_def r intro: reachable.step)
  qed
qed

lemma honest_up:
  assumes "honest r" and "\<And>m. reachable ex_H ex_V m \<Longrightarrow> m_up m \<Longrightarrow> reachable ex_H ex_V (f m)"
  shows "honest (then_up f r)"
  using assms by (auto simp: honest_def then_up_def split: prod.splits)

lemma reach_check: "reachable ex_H ex_V m \<Longrightarrow> m_up m \<Longrightarrow> reachable ex_H ex_V (ex_check t m)"
  by (auto simp: ex_check_def split: stage.split prod.split intro: reachable.step machine_step.check)

lemma reach_source: "reachable ex_H ex_V m \<Longrightarrow> m_up m \<Longrightarrow> reachable ex_H ex_V (ex_source t m)"
  using reachable.step [OF _ machine_step.source]
  by (auto simp: ex_source_def split: stage.split prod.split simp del: if_split)

lemma step_dispatch:
  assumes "m_up m" and "m_stage m = Sourced op"
  shows "machine_step ex_H ex_V m (ex_dispatch t m)"
proof -
  obtain e' b where "execute_dispatch t op (m_eng m) = (e', b)" by fastforce
  with machine_step.dispatch [OF assms this] assms(2) show ?thesis by (simp add: ex_dispatch_def)
qed

lemma reach_dispatch: "reachable ex_H ex_V m \<Longrightarrow> m_up m \<Longrightarrow> reachable ex_H ex_V (ex_dispatch t m)"
proof (cases "m_stage m")
  case (Sourced op)
  assume "reachable ex_H ex_V m" "m_up m"
  with step_dispatch [OF _ Sourced] show ?thesis by (blast intro: reachable.step)
qed (simp_all add: ex_dispatch_def)

lemma reach_lost: "reachable ex_H ex_V m \<Longrightarrow> m_up m \<Longrightarrow> reachable ex_H ex_V (ex_lost t m)"
  by (auto simp: ex_lost_def split: stage.split intro: reachable.step machine_step.complete)

lemma reach_recover: "reachable ex_H ex_V m \<Longrightarrow> m_up m \<Longrightarrow> reachable ex_H ex_V (ex_recover m)"
  unfolding ex_recover_def by (rule reachable.step [OF _ machine_step.recover])

lemma ex_started: "reachable ex_H ex_V (ex_restart (ex_admin ex_initial))"
proof -
  have "reachable ex_H ex_V ex_initial"
    by (rule reachable.start) (auto simp: initial_def ex_initial_def ex_store_def)
  moreover have "machine_step ex_H ex_V ex_initial (ex_admin ex_initial)"
    unfolding ex_admin_def ex_reopen_def
    by (rule machine_step.admin [where mode = "''live''" and wr = ex_wr and sz = ex_sz])
       (simp_all add: ex_open, simp_all add: ex_initial_def ex_store_def NewState_def)
  ultimately have one: "reachable ex_H ex_V (ex_admin ex_initial)" by (rule reachable.step)
  have guards: "(\<lambda>m. \<not> m_up m \<and> st_Schema (db_disk (e_DB (m_eng m))) = 1 \<and> st_Mode (db_disk (e_DB (m_eng m))) = ''live'' \<and>
      isl (snd (Start ex_adapter 0 ((m_eng m)\<lparr>e_DB := ex_reopen m, e_stopped := False\<rparr>))) = False) (ex_admin ex_initial)"
    by code_simp
  define e where "e = (m_eng (ex_admin ex_initial))\<lparr>e_DB := ex_reopen (ex_admin ex_initial), e_stopped := False\<rparr>"
  obtain e' res where st: "Start ex_adapter 0 e = (e', res)" by fastforce
  with guards have res: "res = Inr ()" by (cases res) (auto simp: e_def)
  have "machine_step ex_H ex_V (ex_admin ex_initial)
      ((ex_admin ex_initial)\<lparr>m_eng := e', m_stage := Idle, m_up := (res = Inr ())\<rparr>)"
  proof (rule machine_step.restart [OF _ ex_orderly, where mode = "''live''" and wr = ex_wr and sz = ex_sz])
    show "Start ex_adapter 0 ((m_eng (ex_admin ex_initial))\<lparr>e_DB := ex_reopen (ex_admin ex_initial), e_stopped := False\<rparr>) = (e', res)"
      using st by (simp add: e_def)
  qed (use guards in \<open>simp_all add: ex_open ex_reopen_def\<close>)
  from reachable.step [OF one this] show ?thesis
    using st res by (simp add: ex_restart_def e_def)
qed

lemma honest_plan: "honest (upto_plan ex_initial)"
proof -
  have "m_up (ex_restart (ex_admin ex_initial))" by (simp add: ex_restart_def)
  from reachable.step [OF ex_started machine_step.plan [OF this]] show ?thesis
    by (simp add: honest_def upto_plan_def ex_plan_def)
qed

lemmas honest_steps = honest_plan honest_accept honest_claim honest_up reach_check reach_source reach_dispatch reach_lost reach_recover

lemma honest_outstanding: "honest ex_outstanding"
  unfolding ex_outstanding_def by (intro honest_steps)

lemma honest_ready: "honest ex_ready"
  unfolding ex_ready_def using honest_outstanding by (intro honest_steps)

lemma honest_final: "honest ex_final"
  unfolding ex_final_def using honest_ready by (intro honest_steps)

section \<open>What the run shows\<close>

definition ex_success :: Result where
  "ex_success = mk_result ''succeeded'' ''done'' [] False"

definition final_facts :: "Machine \<Rightarrow> bool" where
  "final_facts m \<longleftrightarrow> map x_ID (m_calls m) = [''o1'', ''o2''] \<and>
     d_Action (p_Draft (x_Plan (last (m_calls m)))) = ''profile.restore'' \<and>
     (case map_of (operations (m_eng m)) ''o1'' of None \<Rightarrow> False | Some o1 \<Rightarrow> o_RecoveryRequired o1 \<and> Terminal (o_State o1)) \<and>
     (case map_of (st_Operations (db_disk (e_DB (m_eng m)))) ''o1'' of None \<Rightarrow> False | Some o1 \<Rightarrow> x_ID (hd (m_calls m)) = o_ID o1) \<and>
     (case map_of (operations (m_eng m)) ''o2'' of None \<Rightarrow> False | Some o2 \<Rightarrow> \<not> Terminal (o_State o2) \<and>
        d_RecoveryID (o_Draft o2) = ''o1'' \<and> d_Action (o_Draft o2) = ''profile.restore'' \<and>
        Option.is_none (recoveryAdmission (prune_operations 14 (operations (m_eng m))) (o_Draft o2) ''o2'')) \<and>
     \<not> isl (snd (finish 14 ''o2'' ex_success (m_eng m))) \<and>
     (case Start ex_adapter 20 (m_eng m) of (e, x) \<Rightarrow> \<not> isl x \<and> \<not> Option.is_none (map_of (operations e) ''o2''))"

definition ready_facts :: "run \<Rightarrow> bool" where
  "ready_facts = (\<lambda>(m, ok). ok \<and> m_up m \<and> (case m_stage m of Sourced _ \<Rightarrow> True | _ \<Rightarrow> False) \<and>
     map x_ID (m_calls m) = [''o1''] \<and>
     (case map_of (operations (m_eng m)) ''o1'' of None \<Rightarrow> False | Some o1 \<Rightarrow> o_RecoveryRequired o1 \<and> Terminal (o_State o1)) \<and>
     final_facts (ex_dispatch 13 m))"

lemma ex_ready_facts: "ready_facts ex_ready"
  by code_simp

lemma ex_ready_parts:
  "snd ex_ready" "m_up (fst ex_ready)" "\<exists>op. m_stage (fst ex_ready) = Sourced op" "map x_ID (m_calls (fst ex_ready)) = [''o1'']"
  "\<exists>o1. map_of (operations (m_eng (fst ex_ready))) ''o1'' = Some o1 \<and> o_RecoveryRequired o1 \<and> Terminal (o_State o1)"
  "final_facts (ex_dispatch 13 (fst ex_ready))"
proof -
  obtain m ok where r: "ex_ready = (m, ok)" by fastforce
  show "snd ex_ready" "m_up (fst ex_ready)" "\<exists>op. m_stage (fst ex_ready) = Sourced op" "map x_ID (m_calls (fst ex_ready)) = [''o1'']"
    "\<exists>o1. map_of (operations (m_eng (fst ex_ready))) ''o1'' = Some o1 \<and> o_RecoveryRequired o1 \<and> Terminal (o_State o1)"
    "final_facts (ex_dispatch 13 (fst ex_ready))"
    using ex_ready_facts unfolding r ready_facts_def
    by (auto split: stage.splits option.splits simp del: map_of_eq_Some_iff map_of_eq_None_iff)
qed

abbreviation ex_before :: Machine where "ex_before \<equiv> fst ex_ready"
abbreviation ex_after :: Machine where "ex_after \<equiv> ex_dispatch 13 (fst ex_ready)"

lemma ex_reachable: "reachable ex_H ex_V ex_before" "reachable ex_H ex_V ex_after" "machine_step ex_H ex_V ex_before ex_after"
proof -
  show before: "reachable ex_H ex_V ex_before" using honest_ready ex_ready_parts(1) by (simp add: honest_def)
  from ex_ready_parts(3) obtain op where "m_stage ex_before = Sourced op" by blast
  from step_dispatch [OF ex_ready_parts(2) this] show st: "machine_step ex_H ex_V ex_before ex_after" .
  show "reachable ex_H ex_V ex_after" using before st by (rule reachable.step)
qed

lemma ex_after_parts:
  "map x_ID (m_calls ex_after) = [''o1'', ''o2'']"
  "d_Action (p_Draft (x_Plan (last (m_calls ex_after)))) = ''profile.restore''"
  "\<exists>o1. map_of (operations (m_eng ex_after)) ''o1'' = Some o1 \<and> o_RecoveryRequired o1 \<and> Terminal (o_State o1)"
  "\<exists>o1. map_of (st_Operations (db_disk (e_DB (m_eng ex_after)))) ''o1'' = Some o1 \<and> x_ID (hd (m_calls ex_after)) = ''o1''"
  "\<exists>o2. map_of (operations (m_eng ex_after)) ''o2'' = Some o2 \<and> \<not> Terminal (o_State o2) \<and>
     d_RecoveryID (o_Draft o2) = ''o1'' \<and> d_Action (o_Draft o2) = ''profile.restore'' \<and>
     recoveryAdmission (prune_operations 14 (operations (m_eng ex_after))) (o_Draft o2) ''o2'' = None"
  "snd (finish 14 ''o2'' ex_success (m_eng ex_after)) = Inr ()"
  "\<exists>e o2. Start ex_adapter 20 (m_eng ex_after) = (e, Inr ()) \<and> map_of (operations e) ''o2'' = Some o2"
proof -
  note f = ex_ready_parts(6) [unfolded final_facts_def]
  show "map x_ID (m_calls ex_after) = [''o1'', ''o2'']"
    "d_Action (p_Draft (x_Plan (last (m_calls ex_after)))) = ''profile.restore''" using f by blast+
  show "\<exists>o1. map_of (operations (m_eng ex_after)) ''o1'' = Some o1 \<and> o_RecoveryRequired o1 \<and> Terminal (o_State o1)"
    using f by (auto split: option.splits simp del: map_of_eq_Some_iff map_of_eq_None_iff)
  show "\<exists>o1. map_of (st_Operations (db_disk (e_DB (m_eng ex_after)))) ''o1'' = Some o1 \<and> x_ID (hd (m_calls ex_after)) = ''o1''"
    using f by (cases "m_calls ex_after") (auto split: option.splits simp del: map_of_eq_Some_iff map_of_eq_None_iff)
  show "\<exists>o2. map_of (operations (m_eng ex_after)) ''o2'' = Some o2 \<and> \<not> Terminal (o_State o2) \<and>
     d_RecoveryID (o_Draft o2) = ''o1'' \<and> d_Action (o_Draft o2) = ''profile.restore'' \<and>
     recoveryAdmission (prune_operations 14 (operations (m_eng ex_after))) (o_Draft o2) ''o2'' = None"
    using f by (auto simp: Option.is_none_def split: option.splits simp del: map_of_eq_Some_iff map_of_eq_None_iff)
  show "snd (finish 14 ''o2'' ex_success (m_eng ex_after)) = Inr ()"
    using f by (cases "snd (finish 14 ''o2'' ex_success (m_eng ex_after))") auto
  obtain e x where st: "Start ex_adapter 20 (m_eng ex_after) = (e, x)" by fastforce
  have "case Start ex_adapter 20 (m_eng ex_after) of (e, x) \<Rightarrow> \<not> isl x \<and> \<not> Option.is_none (map_of (operations e) ''o2'')"
    using f by (elim conjE)
  then have "\<not> isl x" "\<not> Option.is_none (map_of (operations e) ''o2'')" unfolding st by simp_all
  with st show "\<exists>e o2. Start ex_adapter 20 (m_eng ex_after) = (e, Inr ()) \<and> map_of (operations e) ''o2'' = Some o2"
    by (cases x; cases "map_of (operations e) ''o2''") simp_all
qed

theorem dispatched_at_most_once_witness:
  "reachable ex_H ex_V ex_after \<and> map x_ID (m_calls ex_after) = [''o1'', ''o2''] \<and> distinct (map x_ID (m_calls ex_after))"
  using dispatched_at_most_once [OF ex_reachable(2)] ex_reachable(2) ex_after_parts(1) by blast

theorem dispatch_intent_durable_witness:
  "\<exists>o1. map_of (st_Operations (db_disk (e_DB (m_eng ex_after)))) ''o1'' = Some o1 \<and> o_Dispatched o1 \<and> o_State o1 \<noteq> ''queued''"
proof -
  obtain o1 where o1: "map_of (st_Operations (db_disk (e_DB (m_eng ex_after)))) ''o1'' = Some o1" "x_ID (hd (m_calls ex_after)) = ''o1''"
    using ex_after_parts(4) by blast
  have "hd (m_calls ex_after) \<in> set (m_calls ex_after)" using ex_after_parts(1) by (cases "m_calls ex_after") auto
  from dispatch_intent_durable [OF ex_reachable(2) this] o1 show ?thesis by auto
qed

lemma ex_calls: "m_calls ex_after = m_calls ex_before @ [last (m_calls ex_after)]"
proof -
  from ex_ready_parts(3) obtain op where op: "m_stage ex_before = Sourced op" by blast
  obtain e' b where x: "execute_dispatch 13 op (m_eng ex_before) = (e', b)" by fastforce
  have "m_calls ex_after = (if b then m_calls ex_before @ [execution_of op] else m_calls ex_before)"
    using op x by (simp add: ex_dispatch_def)
  with ex_after_parts(1) ex_ready_parts(4) show ?thesis by (cases b) auto
qed

theorem dispatch_behind_fence_witness:
  "\<exists>ch. RecoveryChain (operationLinks (operations (m_eng ex_after))) (d_RecoveryID (p_Draft (x_Plan (last (m_calls ex_after))))) = Inr ch \<and>
     ''o1'' \<in> set ch"
proof -
  obtain o1 where o1: "map_of (operations (m_eng ex_after)) ''o1'' = Some o1" "o_RecoveryRequired o1"
    using ex_after_parts(3) by blast
  have "d_Action (p_Draft (x_Plan (last (m_calls ex_after)))) \<noteq> ''hardware.refresh''" by (simp add: ex_after_parts(2))
  from dispatch_behind_fence [OF ex_reachable(1,3) ex_calls this o1] show ?thesis by blast
qed

theorem operation_moves_forward_witness:
  "\<exists>o1 o2. map_of (operations (m_eng ex_before)) ''o1'' = Some o1 \<and> map_of (operations (m_eng ex_after)) ''o1'' = Some o2 \<and>
     Terminal (o_State o1) \<and> Terminal (o_State o2) \<and> o_Plan o2 = o_Plan o1"
proof -
  obtain o1 o2 where o: "map_of (operations (m_eng ex_before)) ''o1'' = Some o1" "Terminal (o_State o1)"
    "map_of (operations (m_eng ex_after)) ''o1'' = Some o2"
    using ex_after_parts(3) ex_ready_parts(5) by blast
  with operation_moves_forward [OF ex_reachable(1,3) o(1,3)] show ?thesis by blast
qed

theorem queue_bounded_witness:
  "reachable ex_H ex_V ex_after \<and> length (operations (m_eng ex_after)) \<le> 500"
  using queue_bounded [OF ex_reachable(2)] ex_reachable(2) by blast


theorem start_leaves_nothing_in_flight_witness:
  "\<exists>e o2. Start ex_adapter 20 (m_eng ex_after) = (e, Inr ()) \<and> map_of (operations e) ''o2'' = Some o2 \<and>
     (Terminal (o_State o2) \<or> o_State o2 = ''queued'')"
proof -
  have snd: "sound_store (e_DB (m_eng ex_after))" using reachable_invariant [OF ex_reachable(2)] by (simp add: invariant_def)
  obtain e o2 where st: "Start ex_adapter 20 (m_eng ex_after) = (e, Inr ())" "map_of (operations e) ''o2'' = Some o2"
    using ex_after_parts(7) by blast
  from start_leaves_nothing_in_flight [OF snd ex_orderly st(1)] st show ?thesis by blast
qed


section \<open>Admission and evidence\<close>

definition fence_facts :: "Engine \<Rightarrow> bool" where
  "fence_facts e \<longleftrightarrow>
     (case Apply ex_H 9 ''o2'' ex_actor ''p2'' ''host'' ''key-0002'' e of
        (e', Inr op) \<Rightarrow> d_Action (o_Draft op) \<noteq> ''hardware.refresh'' | _ \<Rightarrow> False) \<and>
     Option.is_none (map_of (st_Idempotency (prune 9 (db_state (e_DB e)))) (ac_ID ex_actor @ '':'' @ ''key-0002'')) \<and>
     (case map_of (operations e) ''o1'' of Some o1 \<Rightarrow> o_RecoveryRequired o1 | None \<Rightarrow> False)"

definition outstanding_facts :: "run \<Rightarrow> bool" where
  "outstanding_facts = (\<lambda>(m, ok). ok \<and> fence_facts (m_eng m))"

lemma ex_outstanding_facts: "outstanding_facts ex_outstanding"
  by code_simp

lemma ex_outstanding_sound: "sound_store (e_DB (m_eng (fst ex_outstanding)))" "fence_facts (m_eng (fst ex_outstanding))"
proof -
  obtain m ok where r: "ex_outstanding = (m, ok)" by fastforce
  then have "ok" "fence_facts (m_eng m)" using ex_outstanding_facts unfolding r outstanding_facts_def by simp_all
  moreover from this honest_outstanding have "reachable ex_H ex_V m" unfolding r honest_def by simp
  ultimately show "sound_store (e_DB (m_eng (fst ex_outstanding)))" "fence_facts (m_eng (fst ex_outstanding))"
    unfolding r using reachable_invariant [of ex_H ex_V m] by (simp_all add: invariant_def)
qed

theorem apply_respects_fence_witness:
  "\<exists>op. snd (Apply ex_H 9 ''o2'' ex_actor ''p2'' ''host'' ''key-0002'' (m_eng (fst ex_outstanding))) = Inr op \<and>
     (\<exists>ch. RecoveryChain (operationLinks (prune_operations 9 (operations (m_eng (fst ex_outstanding))))) (d_RecoveryID (o_Draft op)) = Inr ch \<and>
        ''o1'' \<in> set ch)"
proof -
  obtain e where e: "e = m_eng (fst ex_outstanding)" by blast
  note ex_outstanding_sound [folded e]
  then have wf: "wf_state (db_state (e_DB e))" and f: "fence_facts e" by (simp_all add: sound_store_def)
  obtain e' op where op: "Apply ex_H 9 ''o2'' ex_actor ''p2'' ''host'' ''key-0002'' e = (e', Inr op)"
      "d_Action (o_Draft op) \<noteq> ''hardware.refresh''"
    using f unfolding fence_facts_def by (auto split: prod.splits sum.splits)
  obtain o1 where o1: "map_of (operations e) ''o1'' = Some o1" "o_RecoveryRequired o1"
    using f unfolding fence_facts_def by (auto split: option.splits simp del: map_of_eq_Some_iff map_of_eq_None_iff)
  have none: "map_of (st_Idempotency (prune 9 (db_state (e_DB e)))) (ac_ID ex_actor @ '':'' @ ''key-0002'') = None"
    using f unfolding fence_facts_def by (simp only: Option.is_none_def)
  have ne: "''o1'' \<noteq> []" by simp
  from apply_respects_fence [OF wf op(1) none op(2) o1 ne] op(1) show ?thesis unfolding e [symmetric] by auto
qed

definition replay_facts :: "Engine \<Rightarrow> bool" where
  "replay_facts e \<longleftrightarrow>
     (case Apply ex_H 2 ''o1'' ex_actor ''p1'' ''host'' ''key-0001'' e of
        (e1, Inr op) \<Rightarrow> (case Apply ex_H 3 ''o9'' ex_actor ''p1'' ''host'' ''key-0001'' e1 of (e2, Inr op2) \<Rightarrow> o_ID op2 = ''o1'' | _ \<Rightarrow> False)
      | _ \<Rightarrow> False) \<and>
     Option.is_none (map_of (st_Idempotency (prune 2 (db_state (e_DB e)))) (ac_ID ex_actor @ '':'' @ ''key-0001''))"

definition plan_facts :: "run \<Rightarrow> bool" where
  "plan_facts = (\<lambda>(m, ok). replay_facts (m_eng m))"

lemma ex_plan_facts: "plan_facts (upto_plan ex_initial)"
  by code_simp

theorem apply_replay_witness:
  "\<exists>e1 op. Apply ex_H 2 ''o1'' ex_actor ''p1'' ''host'' ''key-0001'' (m_eng (fst (upto_plan ex_initial))) = (e1, Inr op) \<and>
     snd (Apply ex_H 3 ''o9'' ex_actor ''p1'' ''host'' ''key-0001'' e1) = Inr op"
proof -
  obtain m where m: "upto_plan ex_initial = (m, True)" by (simp add: upto_plan_def)
  obtain e where e: "e = m_eng m" by blast
  have f: "replay_facts e" using ex_plan_facts by (simp add: plan_facts_def m e)
  have wf: "wf_state (db_state (e_DB e))"
    using honest_plan reachable_invariant [of ex_H ex_V m] by (simp add: honest_def m e invariant_def sound_store_def)
  obtain e1 op where one: "Apply ex_H 2 ''o1'' ex_actor ''p1'' ''host'' ''key-0001'' e = (e1, Inr op)"
    using f unfolding replay_facts_def by (auto split: prod.splits sum.splits)
  then obtain e2 op2 where two: "Apply ex_H 3 ''o9'' ex_actor ''p1'' ''host'' ''key-0001'' e1 = (e2, Inr op2)"
    using f unfolding replay_facts_def by (auto split: prod.splits sum.splits)
  have none: "map_of (st_Idempotency (prune 2 (db_state (e_DB e)))) (ac_ID ex_actor @ '':'' @ ''key-0001'') = None"
    using f unfolding replay_facts_def by (simp only: Option.is_none_def)
  have ne: "''o1'' \<noteq> []" by simp
  have "op2 = op" using apply_replay [OF wf ne one none two] by auto
  with one two show ?thesis unfolding m fst_conv e [symmetric] by auto
qed

definition ex_export :: Operation where
  "ex_export = zero_operation\<lparr>o_ID := ''x1'', o_State := ''running'',
     o_Plan := zero_plan\<lparr>p_Draft := zero_draft\<lparr>d_Action := ''memory.plan.export''\<rparr>\<rparr>\<rparr>"

definition ex_engine :: Engine where
  "ex_engine = \<lparr>e_DB = ex_store ((NewState ''live'')\<lparr>st_Operations := [(''x1'', ex_export)]\<rparr>),
     e_File = Content (zero_configuration\<lparr>c_Revision := ''h''\<rparr>), e_Target = ''host'', e_Depth = 8, e_stopped = False\<rparr>"

definition ex_indeterminate :: Result where
  "ex_indeterminate = mk_result ''running'' [] [] True"

definition export_facts :: "Engine \<Rightarrow> bool" where
  "export_facts e \<longleftrightarrow> (case finish 2 ''x1'' ex_indeterminate e of
      (e', Inr _) \<Rightarrow> \<not> Option.is_none (map_of (operations e') ''x1'') | _ \<Rightarrow> False)"

lemma ex_export_facts: "export_facts ex_engine"
  by code_simp

lemma export_facts_obtain:
  assumes "export_facts e"
  obtains e' o2 where "finish 2 ''x1'' ex_indeterminate e = (e', Inr ())" "map_of (operations e') ''x1'' = Some o2"
proof -
  obtain e' res where fin: "finish 2 ''x1'' ex_indeterminate e = (e', res)" by fastforce
  then obtain o2 where "res = Inr ()" "map_of (operations e') ''x1'' = Some o2"
    using assms unfolding export_facts_def
    by (cases res; cases "map_of (operations e') ''x1''") simp_all
  with fin that show thesis by blast
qed

theorem evidence_never_fences_witness:
  "\<exists>e' o2. finish 2 ''x1'' ex_indeterminate ex_engine = (e', Inr ()) \<and> map_of (operations e') ''x1'' = Some o2 \<and> \<not> o_RecoveryRequired o2"
proof -
  have snd: "sound_store (e_DB ex_engine)"
    by (simp add: sound_store_def ex_engine_def ex_store_def wf_state_def NewState_def wf_map_def keyed_def opwise_refl ex_export_def)
  have ev: "EvidenceAction (d_Action (o_Draft ex_export))" "\<not> Terminal (o_State ex_export)"
    by (simp_all add: ex_export_def EvidenceAction_def MemoryAction_def Terminal_def)
  have op: "map_of (operations ex_engine) ''x1'' = Some ex_export" by (simp add: ex_engine_def ex_store_def OperationRecords_def)
  obtain e' o2 where fin: "finish 2 ''x1'' ex_indeterminate ex_engine = (e', Inr ())" "map_of (operations e') ''x1'' = Some o2"
    by (rule export_facts_obtain [OF ex_export_facts])
  from evidence_never_fences [OF snd ev(1) op ev(2) fin] have "\<not> o_RecoveryRequired o2" by (rule conjunct1)
  with fin show ?thesis by (intro exI conjI)
qed

end
