(* ===== verification/GoLib.thy ===== *)
theory GoLib
  imports Source
begin

text \<open>
  The parts of Go's \<open>strings\<close> and \<open>path/filepath\<close> packages the host helper and the worker use:
  splitting and joining, trimming, and lexical path cleaning on Unix; and \<open>strconv\<close>'s decimal
  integers with their round trips. A path is canonical when it
  is absolute and \<open>filepath.Clean\<close> leaves it alone; the lemmas reduce that to a list of plain
  components, which the walks over parent directories recurse on.
\<close>

section \<open>Strings\<close>

fun split_on :: "char \<Rightarrow> string \<Rightarrow> string list" where
  "split_on c [] = [[]]"
| "split_on c (x # xs) =
     (if x = c then [] # split_on c xs
      else case split_on c xs of [] \<Rightarrow> [[x]] | w # ws \<Rightarrow> (x # w) # ws)"

fun join_with :: "char \<Rightarrow> string list \<Rightarrow> string" where
  "join_with c [] = []"
| "join_with c [w] = w"
| "join_with c (w # v # ws) = w @ c # join_with c (v # ws)"

text \<open>\<open>strings.Cut\<close> at one character.\<close>

definition Cut :: "char \<Rightarrow> string \<Rightarrow> (string \<times> string) option" where
  "Cut c s = (if c \<in> set s then Some (takeWhile (\<lambda>x. x \<noteq> c) s, tl (dropWhile (\<lambda>x. x \<noteq> c) s)) else None)"

definition HasPrefix :: "string \<Rightarrow> string \<Rightarrow> bool" where
  "HasPrefix s p \<longleftrightarrow> take (length p) s = p"

definition HasSuffix :: "string \<Rightarrow> string \<Rightarrow> bool" where
  "HasSuffix s p \<longleftrightarrow> length p \<le> length s \<and> drop (length s - length p) s = p"

definition TrimPrefix :: "string \<Rightarrow> string \<Rightarrow> string" where
  "TrimPrefix s p = (if HasPrefix s p then drop (length p) s else s)"

definition TrimSuffix :: "string \<Rightarrow> string \<Rightarrow> string" where
  "TrimSuffix s p = (if HasSuffix s p then take (length s - length p) s else s)"

definition ContainsAny :: "string \<Rightarrow> string \<Rightarrow> bool" where
  "ContainsAny s chars \<longleftrightarrow> list_ex (\<lambda>x. x \<in> set chars) s"

fun contains :: "string \<Rightarrow> string \<Rightarrow> bool" where
  "contains [] p = (p = [])"
| "contains (x # xs) p = (HasPrefix (x # xs) p \<or> contains xs p)"

text \<open>The white space of a regular expression, and the ASCII white space \<open>strings.TrimSpace\<close> removes.\<close>

definition is_re_space :: "char \<Rightarrow> bool" where
  "is_re_space c \<longleftrightarrow> (of_char c :: nat) \<in> set [9, 10, 12, 13, 32]"

definition is_space :: "char \<Rightarrow> bool" where
  "is_space c \<longleftrightarrow> (of_char c :: nat) \<in> set [9, 10, 11, 12, 13, 32]"

definition TrimSpace :: "string \<Rightarrow> string" where
  "TrimSpace s = List.rev (dropWhile is_space (List.rev (dropWhile is_space s)))"

lemma split_on_nonempty [simp]: "split_on c s \<noteq> []"
  by (induction s) (auto split: list.splits)

lemma join_Cons: "ws \<noteq> [] \<Longrightarrow> join_with c (w # ws) = w @ c # join_with c ws"
  by (cases ws) auto

lemma join_split: "join_with c (split_on c s) = s"
proof (induction s)
  case (Cons x xs)
  show ?case
  proof (cases "x = c")
    case True
    with Cons show ?thesis by (simp add: join_Cons)
  next
    case False
    obtain w ws where "split_on c xs = w # ws" by (cases "split_on c xs") auto
    with False Cons show ?thesis by (cases ws) auto
  qed
qed simp

lemma split_parts: "w \<in> set (split_on c s) \<Longrightarrow> c \<notin> set w"
  by (induction s arbitrary: w) (auto split: if_splits list.splits)

lemma split_word: "c \<notin> set w \<Longrightarrow> split_on c w = [w]"
  by (induction w) auto

lemma split_append: "c \<notin> set w \<Longrightarrow> split_on c (w @ c # s) = w # split_on c s"
  by (induction w) auto

lemma split_join:
  "ws \<noteq> [] \<Longrightarrow> list_all (\<lambda>w. c \<notin> set w) ws \<Longrightarrow> split_on c (join_with c ws) = ws"
proof (induction ws)
  case (Cons w ws)
  then show ?case by (cases "ws = []") (auto simp: split_word split_append join_Cons)
qed simp

section \<open>Paths\<close>

abbreviation slash :: char where "slash \<equiv> CHR ''/''"

definition IsAbs :: "string \<Rightarrow> bool" where
  "IsAbs p \<longleftrightarrow> HasPrefix p ''/''"

text \<open>The components of a path, cleaned; \<open>out\<close> holds the ones already produced, last first.\<close>

fun clean_components :: "bool \<Rightarrow> string list \<Rightarrow> string list \<Rightarrow> string list" where
  "clean_components rooted out [] = List.rev out"
| "clean_components rooted out (w # ws) =
     (if w = [] \<or> w = ''.'' then clean_components rooted out ws
      else if w = ''..'' then
        (case out of
           [] \<Rightarrow> clean_components rooted (if rooted then [] else [''..'']) ws
         | v # vs \<Rightarrow> if v = ''..'' then clean_components rooted (''..'' # out) ws
                     else clean_components rooted vs ws)
      else clean_components rooted (w # out) ws)"

definition Clean :: "string \<Rightarrow> string" where
  "Clean p = (if p = [] then ''.''
     else let cs = join_with slash (clean_components (IsAbs p) [] (split_on slash p))
          in if IsAbs p then slash # cs else if cs = [] then ''.'' else cs)"

definition Join :: "string \<Rightarrow> string \<Rightarrow> string" where
  "Join dir name = (if dir = [] \<and> name = [] then [] else if dir = [] then Clean name
     else if name = [] then Clean dir else Clean (dir @ slash # name))"

text \<open>The directory part: everything up to the last slash, cleaned.\<close>

definition Dir :: "string \<Rightarrow> string" where
  "Dir p = Clean (List.rev (dropWhile (\<lambda>c. c \<noteq> slash) (List.rev p)))"

definition canonical :: "string \<Rightarrow> bool" where
  "canonical p \<longleftrightarrow> IsAbs p \<and> Clean p = p"

definition plain_component :: "string \<Rightarrow> bool" where
  "plain_component w \<longleftrightarrow> w \<noteq> [] \<and> w \<noteq> ''.'' \<and> w \<noteq> ''..'' \<and> slash \<notin> set w"

definition abs_path :: "string list \<Rightarrow> string" where
  "abs_path cs = slash # join_with slash cs"

lemma clean_components_plain:
  "list_all plain_component ws \<Longrightarrow> clean_components rooted out ws = List.rev out @ ws"
  by (induction ws arbitrary: out) (auto simp: plain_component_def)

lemma clean_components_rooted:
  "list_all (\<lambda>w. slash \<notin> set w) ws \<Longrightarrow> list_all plain_component out \<Longrightarrow>
     list_all plain_component (clean_components True out ws)"
proof (induction ws arbitrary: out)
  case (Cons w ws)
  then show ?case by (cases out) (auto simp: plain_component_def)
qed (simp add: list_all_iff)

lemma split_slash_free: "list_all (\<lambda>w. slash \<notin> set w) (split_on slash p)"
  by (auto simp: list_all_iff dest: split_parts)

lemma Clean_absolute:
  assumes "IsAbs p"
  obtains cs where "Clean p = abs_path cs" and "list_all plain_component cs"
proof
  show "Clean p = abs_path (clean_components True [] (split_on slash p))"
    using assms by (auto simp: Clean_def abs_path_def Let_def IsAbs_def HasPrefix_def)
  show "list_all plain_component (clean_components True [] (split_on slash p))"
    by (rule clean_components_rooted) (simp_all add: split_slash_free)
qed

lemma abs_path_IsAbs [simp]: "IsAbs (abs_path cs)"
  by (simp add: IsAbs_def HasPrefix_def abs_path_def)

lemma abs_path_nonempty [simp]: "abs_path cs \<noteq> []"
  by (simp add: abs_path_def)

lemma plain_slash_free: "list_all plain_component cs \<Longrightarrow> list_all (\<lambda>w. slash \<notin> set w) cs"
  by (auto simp: list_all_iff plain_component_def)

lemma split_abs_path:
  assumes "list_all plain_component cs"
  shows "split_on slash (abs_path cs) = [] # (if cs = [] then [[]] else cs)"
  using split_join [of cs slash] plain_slash_free [OF assms] by (simp add: abs_path_def)

lemma Clean_abs_path:
  assumes "list_all plain_component cs"
  shows "Clean (abs_path cs) = abs_path cs"
  using clean_components_plain [OF assms, of True "[]"]
  by (simp add: Clean_def split_abs_path [OF assms]) (simp add: abs_path_def)

lemma canonical_iff: "canonical p \<longleftrightarrow> (\<exists>cs. p = abs_path cs \<and> list_all plain_component cs)"
  unfolding canonical_def by (metis Clean_absolute Clean_abs_path abs_path_IsAbs)

lemma abs_path_inj:
  assumes "list_all plain_component cs" "list_all plain_component ds" "abs_path cs = abs_path ds"
  shows "cs = ds"
proof -
  have "[] # (if cs = [] then [[]] else cs) = [] # (if ds = [] then [[]] else ds)"
    using split_abs_path [OF assms(1)] split_abs_path [OF assms(2)] assms(3) by simp
  with assms(1,2) show ?thesis by (auto simp: plain_component_def split: if_splits)
qed

lemma join_snoc: "cs \<noteq> [] \<Longrightarrow> join_with c (cs @ [w]) = join_with c cs @ c # w"
proof (induction cs)
  case (Cons v vs)
  then show ?case by (cases "vs = []") (auto simp: join_Cons)
qed simp

lemma last_part: "slash \<notin> set w \<Longrightarrow>
  List.rev (dropWhile (\<lambda>c. c \<noteq> slash) (List.rev (xs @ slash # w))) = xs @ [slash]"
proof -
  assume "slash \<notin> set w"
  then have "dropWhile (\<lambda>c. c \<noteq> slash) (List.rev w @ slash # List.rev xs) = slash # List.rev xs"
    by (subst dropWhile_append2) auto
  then show ?thesis by simp
qed

lemma Clean_trailing:
  assumes "list_all plain_component cs" and "cs \<noteq> []"
  shows "Clean (abs_path cs @ ''/'') = abs_path cs"
proof -
  have sf: "list_all (\<lambda>w. slash \<notin> set w) (cs @ [[]])" using plain_slash_free [OF assms(1)] by simp
  have eq: "abs_path cs @ ''/'' = slash # join_with slash (cs @ [[]])"
    using join_snoc [OF assms(2), of slash "[]"] by (simp add: abs_path_def)
  have "split_on slash (abs_path cs @ ''/'') = [] # cs @ [[]]"
    using split_join [OF _ sf] by (simp add: eq)
  moreover have "clean_components True out (cs @ [[]]) = List.rev out @ cs" for out
    using assms(1) by (induction cs arbitrary: out) (auto simp: plain_component_def)
  ultimately show ?thesis by (simp add: Clean_def abs_path_def IsAbs_def HasPrefix_def)
qed

lemma Dir_abs_path:
  assumes "list_all plain_component (cs @ [w])"
  shows "Dir (abs_path (cs @ [w])) = abs_path cs"
proof (cases "cs = []")
  case True
  with assms last_part [of w "[]"] show ?thesis
    by (simp add: Dir_def abs_path_def plain_component_def Clean_def IsAbs_def HasPrefix_def)
next
  case False
  then have "abs_path (cs @ [w]) = abs_path cs @ slash # w" by (simp add: abs_path_def join_snoc)
  with assms False Clean_trailing [of cs] last_part [of w "abs_path cs"] show ?thesis
    by (simp add: Dir_def plain_component_def)
qed

lemma Join_child:
  assumes "list_all plain_component cs" and "plain_component w"
  shows "Join (abs_path cs) w = abs_path (cs @ [w])"
proof -
  have w: "slash \<notin> set w" "w \<noteq> []" using assms(2) by (auto simp: plain_component_def)
  have "Clean (abs_path cs @ slash # w) = abs_path (cs @ [w])"
  proof (cases "cs = []")
    case True
    then have "split_on slash (abs_path cs @ slash # w) = [[], [], w]" using w by (simp add: abs_path_def split_word)
    with True assms(2) show ?thesis
      by (simp add: Clean_def IsAbs_def HasPrefix_def abs_path_def plain_component_def)
  next
    case False
    then have "abs_path cs @ slash # w = abs_path (cs @ [w])" by (simp add: abs_path_def join_snoc)
    with assms Clean_abs_path [of "cs @ [w]"] show ?thesis by simp
  qed
  with w show ?thesis by (simp add: Join_def)
qed

text \<open>Cleaning an absolute path yields a canonical one, so cleaning it again changes nothing.\<close>

lemma Clean_canonical: "IsAbs p \<Longrightarrow> canonical (Clean p)"
  by (metis Clean_absolute canonical_iff)

section \<open>Decimal integers\<close>

definition digit_char :: "int \<Rightarrow> char" where
  "digit_char d = char_of (48 + nat d)"

function decimal :: "int \<Rightarrow> string" where
  "decimal n = (if n < 10 then [digit_char n] else decimal (n div 10) @ [digit_char (n mod 10)])"
  by pat_completeness auto
termination by (relation "measure nat") auto

declare decimal.simps [simp del]

definition Itoa :: "int \<Rightarrow> string" where
  "Itoa i = (if i < 0 then CHR ''-'' # decimal (- i) else decimal i)"

fun parse_digits :: "int \<Rightarrow> string \<Rightarrow> int option" where
  "parse_digits acc [] = Some acc"
| "parse_digits acc (c # cs) = (if is_digit c then parse_digits (acc * 10 + (int (of_char c) - 48)) cs else None)"

text \<open>\<open>strconv.ParseInt(s, 10, 64)\<close>: an optional sign, at least one digit, and the 64-bit range.\<close>

definition parse_signed :: "string \<Rightarrow> int option" where
  "parse_signed s = (case s of
       [] \<Rightarrow> None
     | c # cs \<Rightarrow> if c = CHR ''-'' then (if cs = [] then None else map_option uminus (parse_digits 0 cs))
                 else if c = CHR ''+'' then (if cs = [] then None else parse_digits 0 cs)
                 else parse_digits 0 (c # cs))"

definition ParseInt :: "string \<Rightarrow> int option" where
  "ParseInt s = (case parse_signed s of None \<Rightarrow> None | Some n \<Rightarrow> if in_i64 n then Some n else None)"

lemma digit_char_code: "0 \<le> d \<Longrightarrow> d < 10 \<Longrightarrow> (of_char (digit_char d) :: nat) = 48 + nat d"
  by (simp add: digit_char_def of_char_of take_bit_nat_def)

lemma digit_char_digit: "0 \<le> d \<Longrightarrow> d < 10 \<Longrightarrow> is_digit (digit_char d)"
  by (simp add: is_digit_def digit_char_code)

lemma parse_append: "parse_digits acc (xs @ ys) = (case parse_digits acc xs of None \<Rightarrow> None | Some m \<Rightarrow> parse_digits m ys)"
  by (induction xs arbitrary: acc) auto

lemma parse_decimal:
  assumes "0 \<le> n"
  shows "parse_digits 0 (decimal n) = Some n"
  using assms
proof (induction n rule: decimal.induct)
  case (1 n)
  show ?case
  proof (cases "n < 10")
    case True
    with 1(2) show ?thesis by (subst decimal.simps) (simp add: digit_char_digit digit_char_code)
  next
    case False
    have "parse_digits 0 (decimal (n div 10)) = Some (n div 10)" using 1(1) [OF False] False by simp
    moreover have "n mod 10 < 10" "0 \<le> n mod 10" by simp_all
    ultimately show ?thesis using False by (subst decimal.simps) (simp add: parse_append digit_char_digit digit_char_code)
  qed
qed

lemma decimal_head: "0 \<le> n \<Longrightarrow> \<exists>c cs. decimal n = c # cs \<and> is_digit c"
proof (induction n rule: decimal.induct)
  case (1 n)
  show ?case
  proof (cases "n < 10")
    case True
    with 1(2) show ?thesis by (subst decimal.simps) (simp add: digit_char_digit)
  next
    case False
    then have "0 \<le> n div 10" by simp
    from 1(1) [OF False this] obtain c cs where "decimal (n div 10) = c # cs" "is_digit c" by blast
    with False show ?thesis by (subst decimal.simps) simp
  qed
qed

lemma parse_Itoa:
  assumes "in_i64 n"
  shows "ParseInt (Itoa n) = Some n"
proof (cases "n < 0")
  case True
  obtain c cs where d: "decimal (- n) = c # cs" using decimal_head [of "- n"] True by auto
  with True parse_decimal [of "- n"] assms show ?thesis by (simp add: Itoa_def ParseInt_def parse_signed_def)
next
  case False
  obtain c cs where d: "decimal n = c # cs" "is_digit c" using decimal_head [of n] False by auto
  have "c \<noteq> CHR ''-''" "c \<noteq> CHR ''+''" using d(2) by (auto simp: is_digit_def)
  with False d(1) parse_decimal [of n] assms show ?thesis by (simp add: Itoa_def ParseInt_def parse_signed_def)
qed

text \<open>\<open>strconv.ParseUint(s, 10, 64)\<close> and \<open>strconv.FormatUint(n, 10)\<close>.\<close>

definition ParseUint :: "string \<Rightarrow> 64 word option" where
  "ParseUint s = (if s = [] then None
     else case parse_digits 0 s of None \<Rightarrow> None | Some n \<Rightarrow> if n < 2 ^ 64 then Some (of_int n) else None)"

definition FormatUint :: "64 word \<Rightarrow> string" where
  "FormatUint w = decimal (uint w)"

lemma parse_FormatUint: "ParseUint (FormatUint w) = Some w"
proof -
  obtain c cs where "decimal (uint w) = c # cs" using decimal_head [of "uint w"] by auto
  moreover have "uint w < 2 ^ 64" using uint_lt2p [of w] by simp
  ultimately show ?thesis using parse_decimal [of "uint w"] by (simp add: ParseUint_def FormatUint_def)
qed

lemma decimal_digits: "0 \<le> n \<Longrightarrow> list_all is_digit (decimal n)"
proof (induction n rule: decimal.induct)
  case (1 n)
  then show ?case by (subst decimal.simps) (simp add: digit_char_digit)
qed

end
