(* ===== verification/HostPolicy.thy ===== *)
theory HostPolicy
  imports GoLib
begin

text \<open>
  The root helper's policy, \<open>internal/hostexec/policy.go\<close>: its schema and validation, the trust
  check of a path and all its parents, and the verification of the installed runtime against the
  reviewed hashes. The host file system is the record \<open>Host\<close> of what the system calls return;
  \<open>HB\<close> is the SHA-256 of a file's bytes.
\<close>

section \<open>The policy\<close>

record MemorySource =
  ms_Path :: string
  ms_SHA256 :: string

record Qualification =
  q_Image :: string
  q_ModelRevision :: string
  q_ModelPath :: string
  q_ExpiresAt :: time
  q_HostModelPath :: string
  q_Files :: "string gomap"

record SessionQualification =
  sq_TemplateHash :: string
  sq_ExpiresAt :: time
  sq_ConfigMaps :: "string gomap"

record Policy =
  po_PerformanceSources :: "MemorySource gomap"
  po_MemorySources :: "MemorySource gomap"
  po_Version :: int
  po_AllowedUID :: "32 word"
  po_Socket :: string
  po_StateDir :: string
  po_SessionDir :: string
  po_RuntimeRoot :: string
  po_Artifacts :: "string gomap"
  po_SystemExecutables :: "string gomap"
  po_WorkstationConfig :: string
  po_SourcePath :: string
  po_HardwarePath :: string
  po_ModelRoot :: string
  po_WorkerEvidenceDir :: string
  po_Kubeconfig :: string
  po_Kubectl :: string
  po_Context :: string
  po_Target :: string
  po_Environment :: string
  po_Namespace :: string
  po_AIDeployment :: string
  po_AIDeploymentUID :: string
  po_GameDeployment :: string
  po_GameDeploymentUID :: string
  po_TimeoutSeconds :: int
  po_QualifiedConfigurations :: "Qualification gomap"
  po_SessionQualifications :: "SessionQualification gomap"
  po_MaxRecords :: int

definition ContractVersion :: int where "ContractVersion = 1"

definition validID :: "string \<Rightarrow> bool" where
  "validID v \<longleftrightarrow> 8 \<le> length v \<and> length v \<le> 80 \<and> list_all (\<lambda>c. is_alnum c \<or> c = CHR ''-'') v"

definition safeIdentity :: "string \<Rightarrow> bool" where
  "safeIdentity s \<longleftrightarrow> 0 < length s \<and> length s \<le> 128 \<and> \<not> ContainsAny s [CHR 0x0A, CHR 0x0D, CHR 0x00]"

text \<open>The regular expression \<open>^[a-zA-Z0-9][a-zA-Z0-9._:/@-]*$\<close>.\<close>

definition identity_ok :: "string \<Rightarrow> bool" where
  "identity_ok s \<longleftrightarrow> (case s of [] \<Rightarrow> False
     | c # cs \<Rightarrow> is_alnum c \<and> list_all (\<lambda>x. is_alnum x \<or> x \<in> set ''._:/@-'') cs)"

text \<open>Reading a map of strings yields the empty string for an absent key.\<close>

definition string_at :: "string gomap \<Rightarrow> string \<Rightarrow> string" where
  "string_at m k = (case map_of m k of Some v \<Rightarrow> v | None \<Rightarrow> [])"

definition memory_tools :: "string list" where
  "memory_tools = [''serving_memory.py'', ''measurement.py'', ''performance.sh'', ''serving.py'',
     ''model_kernels.py'', ''telemetry.py'']"

definition performance_tools :: "string list" where
  "performance_tools = [''performance_bundle.py'', ''performance_profiles.py'', ''coding_eval.py'',
     ''coding_tasks.json'', ''serving_runtime.py'', ''inference_cache.py'', ''serving_sweep.py'',
     ''model_kernels.py'', ''serving.py'', ''measurement.py'']"

definition source_ok :: "(string \<Rightarrow> bool) \<Rightarrow> string \<times> MemorySource \<Rightarrow> bool" where
  "source_ok good_id = (\<lambda>(k, s). good_id k \<and> digest_ok (ms_SHA256 s) \<and> canonical (ms_Path s) \<and> ms_Path s \<noteq> ''/'')"

definition tools_reviewed :: "Policy \<Rightarrow> string list \<Rightarrow> bool" where
  "tools_reviewed p tools \<longleftrightarrow> list_all (\<lambda>n. digest_ok (string_at (po_Artifacts p) (''lib/workstation/'' @ n))) tools"

definition msg_many_performance :: string where "msg_many_performance = ''at most twenty reviewed performance bundles''"
definition msg_performance_sources :: string where
  "msg_performance_sources = ''performance sources require reviewed IDs, canonical private paths and manifest SHA-256''"
definition msg_performance_tools :: string where
  "msg_performance_tools = ''performance analysis requires independently approved installed tool hashes''"
definition msg_many_memory :: string where "msg_many_memory = ''at most twenty reviewed memory evidence sources''"
definition msg_memory_sources :: string where
  "msg_memory_sources = ''memory source requires a reviewed ID, canonical private path and manifest SHA-256''"
definition msg_memory_tools :: string where
  "msg_memory_tools = ''memory planner requires independently reviewed installed tool hashes''"
definition msg_contract :: string where "msg_contract = ''contract v1 and a dedicated non-root API UID are required''"
definition msg_environment :: string where "msg_environment = ''executor target must explicitly be dev, tst or int''"
definition msg_timeout :: string where "msg_timeout = ''executor timeout must be 30..1800 seconds''"
definition msg_max_records :: string where "msg_max_records = ''executor max_records must be 16..10000''"
definition msg_identities :: string where
  "msg_identities = ''explicit target, context, namespace and deployment identities are required''"
definition msg_paths :: string where "msg_paths = ''policy paths must be canonical absolute paths''"
definition msg_deployments :: string where "msg_deployments = ''AI and gaming deployments must differ''"
definition msg_evidence_dir :: string where
  "msg_evidence_dir = ''worker evidence export requires the dedicated /var/lib/spry-bridge-evidence directory''"
definition msg_kubectl :: string where "msg_kubectl = ''only the installed /usr/bin/kubectl is supported''"
definition msg_artifacts :: string where "msg_artifacts = ''reviewed installed runtime artifact hashes are required''"

definition validatePerformancePolicy :: "Policy \<Rightarrow> err option" where
  "validatePerformancePolicy p = first_fail
     [(length (po_PerformanceSources p) > 20, Plain msg_many_performance),
      (\<not> list_all (source_ok validID) (po_PerformanceSources p), Plain msg_performance_sources),
      (po_PerformanceSources p \<noteq> [] \<and> \<not> tools_reviewed p performance_tools, Plain msg_performance_tools)]"

definition validateMemoryPolicy :: "Policy \<Rightarrow> err option" where
  "validateMemoryPolicy p = first_fail
     [(length (po_MemorySources p) > 20, Plain msg_many_memory),
      (\<not> list_all (source_ok evidence_id_ok) (po_MemorySources p), Plain msg_memory_sources),
      (po_MemorySources p \<noteq> [] \<and> \<not> tools_reviewed p memory_tools, Plain msg_memory_tools)]"

definition policy_identities :: "Policy \<Rightarrow> string list" where
  "policy_identities p = [po_Target p, po_Context p, po_Namespace p, po_AIDeployment p, po_GameDeployment p,
     po_AIDeploymentUID p, po_GameDeploymentUID p]"

definition policy_paths :: "Policy \<Rightarrow> string list" where
  "policy_paths p = [po_Socket p, po_StateDir p, po_SessionDir p, po_RuntimeRoot p, po_WorkstationConfig p,
     po_SourcePath p, po_HardwarePath p, po_ModelRoot p, po_Kubeconfig p, po_Kubectl p]"

definition path_ok :: "string \<Rightarrow> bool" where
  "path_ok v \<longleftrightarrow> canonical v \<and> v \<noteq> ''/'' \<and> \<not> ContainsAny v [CHR 0x00, CHR 0x0D, CHR 0x0A]"

definition required_artifacts :: "string list" where
  "required_artifacts = [''bin/workstationctl'', ''lib/common.sh'', ''lib/workstation/runtime.sh'',
     ''lib/workstation/session.sh'', ''versions.lock'']"

definition policy_validate :: "Policy \<Rightarrow> err option" where
  "policy_validate p = and_then (validatePerformancePolicy p) (and_then (validateMemoryPolicy p) (first_fail
     ([(po_Version p \<noteq> ContractVersion \<or> po_AllowedUID p = 0, Plain msg_contract),
       (po_Environment p \<noteq> ''dev'' \<and> po_Environment p \<noteq> ''tst'' \<and> po_Environment p \<noteq> ''int'', Plain msg_environment),
       (po_TimeoutSeconds p < 30 \<or> po_TimeoutSeconds p > 1800, Plain msg_timeout),
       (po_MaxRecords p < 16 \<or> po_MaxRecords p > 10000, Plain msg_max_records),
       (\<not> list_all (\<lambda>v. safeIdentity v \<and> identity_ok v) (policy_identities p), Plain msg_identities),
       (\<not> list_all path_ok (policy_paths p), Plain msg_paths),
       (po_AIDeployment p = po_GameDeployment p \<or> po_AIDeploymentUID p = po_GameDeploymentUID p, Plain msg_deployments),
       (po_WorkerEvidenceDir p \<noteq> [] \<and> po_WorkerEvidenceDir p \<noteq> ''/var/lib/spry-bridge-evidence'', Plain msg_evidence_dir),
       (po_Kubectl p \<noteq> ''/usr/bin/kubectl'', Plain msg_kubectl),
       (po_Artifacts p = [], Plain msg_artifacts)]
      @ map (\<lambda>n. (length (string_at (po_Artifacts p) n) \<noteq> 64, Plain (''missing runtime provenance: '' @ n))) required_artifacts)))"

text \<open>The digest that identifies a policy; an absent map is rendered as an empty one.\<close>

definition map_json :: "('v \<Rightarrow> json) \<Rightarrow> 'v gomap \<Rightarrow> json" where
  "map_json f m = JObj (map (\<lambda>k. (k, f (the (map_of m k)))) (sort (gkeys m)))"

definition source_json :: "MemorySource \<Rightarrow> json" where
  "source_json s = JObj [(''path'', JStr (ms_Path s)), (''sha256'', JStr (ms_SHA256 s))]"

definition qualification_json :: "Qualification \<Rightarrow> json" where
  "qualification_json q = JObj [(''image'', JStr (q_Image q)), (''model_revision'', JStr (q_ModelRevision q)),
     (''model_path'', JStr (q_ModelPath q)), (''expires_at'', JTime (q_ExpiresAt q)),
     (''host_model_path'', JStr (q_HostModelPath q)), (''files'', json_of_map (q_Files q))]"

definition session_json :: "SessionQualification \<Rightarrow> json" where
  "session_json q = JObj [(''template_hash'', JStr (sq_TemplateHash q)), (''expires_at'', JTime (sq_ExpiresAt q)),
     (''config_maps'', json_of_map (sq_ConfigMaps q))]"

definition policy_json :: "Policy \<Rightarrow> json" where
  "policy_json p = JObj
     (opt_member (po_PerformanceSources p = []) ''performance_sources'' (map_json source_json (po_PerformanceSources p))
      @ opt_member (po_MemorySources p = []) ''memory_sources'' (map_json source_json (po_MemorySources p))
      @ [(''version'', JInt (po_Version p)), (''allowed_uid'', JInt (uint (po_AllowedUID p))), (''socket'', JStr (po_Socket p)),
         (''state_dir'', JStr (po_StateDir p)), (''session_dir'', JStr (po_SessionDir p)),
         (''runtime_root'', JStr (po_RuntimeRoot p)), (''artifacts'', json_of_map (po_Artifacts p)),
         (''system_executables'', json_of_map (po_SystemExecutables p)),
         (''workstation_config'', JStr (po_WorkstationConfig p)), (''source_path'', JStr (po_SourcePath p)),
         (''hardware_path'', JStr (po_HardwarePath p)), (''model_root'', JStr (po_ModelRoot p))]
      @ opt_member (po_WorkerEvidenceDir p = []) ''worker_evidence_dir'' (JStr (po_WorkerEvidenceDir p))
      @ [(''kubeconfig'', JStr (po_Kubeconfig p)), (''kubectl'', JStr (po_Kubectl p)), (''context'', JStr (po_Context p)),
         (''target'', JStr (po_Target p)), (''environment'', JStr (po_Environment p)), (''namespace'', JStr (po_Namespace p)),
         (''ai_deployment'', JStr (po_AIDeployment p)), (''ai_deployment_uid'', JStr (po_AIDeploymentUID p)),
         (''game_deployment'', JStr (po_GameDeployment p)), (''game_deployment_uid'', JStr (po_GameDeploymentUID p)),
         (''timeout_seconds'', JInt (po_TimeoutSeconds p)),
         (''qualified_configurations'', map_json qualification_json (po_QualifiedConfigurations p)),
         (''session_qualifications'', map_json session_json (po_SessionQualifications p)),
         (''max_records'', JInt (po_MaxRecords p))])"

definition policyRevision :: "digest \<Rightarrow> Policy \<Rightarrow> string" where
  "policyRevision H p = H (policy_json p)"

section \<open>The host file system\<close>

record Stat =
  fs_Uid :: "32 word option"
  fs_Symlink :: bool
  fs_Perm :: "32 word"
  fs_IsDir :: bool
  fs_IsRegular :: bool

datatype presence = Present | Absent | Unknown err

record Entry =
  en_Path :: string
  en_Err :: "err option"
  en_IsDir :: bool
  en_Symlink :: bool
  en_IsRegular :: bool

record Host =
  hs_Lstat :: "string \<Rightarrow> err + Stat"
  hs_Stat :: "string \<Rightarrow> presence"
  hs_Walk :: "string \<Rightarrow> Entry list"
  hs_Read :: "string \<Rightarrow> err + string"
  hs_Resolve :: "string \<Rightarrow> err + string"

text \<open>\<open>for _, x := range xs { if err := f(x); err != nil { return err } }\<close>\<close>

fun first_err :: "('a \<Rightarrow> err option) \<Rightarrow> 'a list \<Rightarrow> err option" where
  "first_err f [] = None"
| "first_err f (x # xs) = (case f x of Some e \<Rightarrow> Some e | None \<Rightarrow> first_err f xs)"

lemma first_err_None [simp]: "first_err f xs = None \<longleftrightarrow> (\<forall>x \<in> set xs. f x = None)"
  by (induction xs) (auto split: option.splits)

lemma and_then_simps [simp]: "and_then None b = b" "and_then (Some e) b = Some e"
  by (simp_all add: and_then_def)

definition fileHash :: "(string \<Rightarrow> string) \<Rightarrow> Host \<Rightarrow> string \<Rightarrow> err + string" where
  "fileHash HB h path = (case hs_Read h path of Inl e \<Rightarrow> Inl e | Inr b \<Rightarrow> Inr (HB b))"

definition untrusted :: "Stat \<Rightarrow> bool" where
  "untrusted s \<longleftrightarrow> fs_Uid s \<noteq> Some 0 \<or> fs_Symlink s \<or> and (fs_Perm s) 18 \<noteq> 0"

text \<open>
  The loop from the path up to the root directory, on the components of the path, last first; the
  leaf also has its type checked.
\<close>

fun trusted_walk :: "Host \<Rightarrow> bool \<Rightarrow> bool \<Rightarrow> string list \<Rightarrow> err option" where
  "trusted_walk h directory leaf rcs =
     (case hs_Lstat h (abs_path (List.rev rcs)) of
        Inl e \<Rightarrow> Some e
      | Inr s \<Rightarrow>
          if untrusted s then Some (Plain (''untrusted root policy/runtime path: '' @ abs_path (List.rev rcs)))
          else if leaf \<and> (directory \<and> \<not> fs_IsDir s \<or> \<not> directory \<and> \<not> fs_IsRegular s)
            then Some (Plain ''unexpected trusted path type'')
          else (case rcs of [] \<Rightarrow> None | _ # up \<Rightarrow> trusted_walk h directory False up))"

declare trusted_walk.simps [simp del]

definition path_components :: "string \<Rightarrow> string list" where
  "path_components p = filter (\<lambda>w. w \<noteq> []) (split_on slash p)"

definition trustedPath :: "Host \<Rightarrow> string \<Rightarrow> bool \<Rightarrow> err option" where
  "trustedPath h path directory =
     (if \<not> canonical path then Some (Plain ''non-canonical trusted path'')
      else trusted_walk h directory True (List.rev (path_components path)))"

lemma path_components_abs:
  "list_all plain_component cs \<Longrightarrow> path_components (abs_path cs) = cs"
  by (auto simp: path_components_def split_abs_path list_all_iff plain_component_def filter_id_conv)

lemma all_le_Suc: "(\<forall>n \<le> Suc m. P n) \<longleftrightarrow> P 0 \<and> (\<forall>n \<le> m. P (Suc n))"
  by (metis Suc_le_mono le0 not0_implies_Suc)

lemma trusted_walk_None:
  "trusted_walk h directory leaf rcs = None \<longleftrightarrow>
     (\<forall>n \<le> length rcs. \<exists>s. hs_Lstat h (abs_path (List.rev (drop n rcs))) = Inr s \<and> \<not> untrusted s \<and>
        (leaf \<longrightarrow> n = 0 \<longrightarrow> (if directory then fs_IsDir s else fs_IsRegular s)))"
proof (induction rcs arbitrary: leaf)
  case Nil
  show ?case by (subst trusted_walk.simps) (auto split: sum.splits)
next
  case (Cons c cs)
  show ?case
  proof (cases "hs_Lstat h (abs_path (List.rev (c # cs)))")
    case (Inl e)
    then show ?thesis by (subst trusted_walk.simps) (auto intro!: exI [of _ 0])
  next
    case (Inr s)
    have "trusted_walk h directory leaf (c # cs) = None \<longleftrightarrow> \<not> untrusted s \<and>
        (leaf \<longrightarrow> (if directory then fs_IsDir s else fs_IsRegular s)) \<and> trusted_walk h directory False cs = None"
      using Inr by (subst trusted_walk.simps) auto
    also have "\<dots> \<longleftrightarrow> (\<forall>n \<le> length (c # cs). \<exists>s. hs_Lstat h (abs_path (List.rev (drop n (c # cs)))) = Inr s \<and> \<not> untrusted s \<and>
        (leaf \<longrightarrow> n = 0 \<longrightarrow> (if directory then fs_IsDir s else fs_IsRegular s)))"
      unfolding Cons.IH list.size(4) add_0_right add_Suc_right all_le_Suc using Inr by simp
    finally show ?thesis .
  qed
qed

section \<open>The installed runtime\<close>

definition required_system_tools :: "string list" where
  "required_system_tools = [''bash'', ''env'', ''jq'', ''kubectl'', ''stat'', ''flock'', ''findmnt'', ''systemd-detect-virt'',
     ''sync'', ''chmod'', ''mkdir'', ''mktemp'', ''mv'', ''date'', ''uname'', ''awk'', ''sort'', ''tr'', ''grep'', ''head'',
     ''dirname'', ''basename'', ''readlink'', ''cat'', ''cp'', ''rm'', ''sleep'', ''sha256sum'']"

definition collector_system_tools :: "string list" where
  "collector_system_tools = [''lscpu'', ''lspci'', ''free'', ''lsblk'', ''gcc'', ''clang'', ''rocminfo'', ''rocm-smi'',
     ''pacman'', ''dmidecode'', ''systemctl'', ''nvme'', ''smartctl'', ''python3'']"

definition systemToolPath :: "Host \<Rightarrow> string \<Rightarrow> string" where
  "systemToolPath h name = (let path = ''/usr/bin/'' @ name in
     if (name = ''rocminfo'' \<or> name = ''rocm-smi'') \<and> hs_Stat h path = Absent then ''/opt/rocm/bin/'' @ name else path)"

definition verify_tool :: "(string \<Rightarrow> string) \<Rightarrow> Host \<Rightarrow> string gomap \<Rightarrow> string \<Rightarrow> err option" where
  "verify_tool HB h expected name =
     (let path = systemToolPath h name; st = hs_Stat h path; want = string_at expected name in
      if st = Absent \<and> name \<in> set collector_system_tools then None
      else if st \<noteq> Present then Some (Plain (''reviewed system executable is unavailable: '' @ name))
      else if length want \<noteq> 64 then Some (Plain (''system executable provenance is absent: '' @ name))
      else case hs_Resolve h path of
             Inl e \<Rightarrow> Some e
           | Inr resolved \<Rightarrow> and_then (trustedPath h resolved False)
               (case fileHash HB h resolved of
                  Inl e \<Rightarrow> Some e
                | Inr got \<Rightarrow> if got \<noteq> want
                    then Some (Plain (''installed system executable changed since root policy review: '' @ name)) else None))"

definition verifySystemExecutables :: "(string \<Rightarrow> string) \<Rightarrow> Host \<Rightarrow> string gomap \<Rightarrow> err option" where
  "verifySystemExecutables HB h expected =
     first_err (verify_tool HB h expected) (required_system_tools @ collector_system_tools)"

text \<open>\<open>filepath.Rel\<close> for an entry below the root of a walk; a canonical root has no trailing slash.\<close>

definition Rel :: "string \<Rightarrow> string \<Rightarrow> err + string" where
  "Rel base path = (if path = base then Inr ''.''
     else if HasPrefix path (base @ ''/'') then Inr (drop (length base + 1) path)
     else Inl (Plain ''Rel: can't make path relative''))"

text \<open>The callback of the walk over the runtime: \<open>seen\<close> is the set of files already verified.\<close>

fun walk_runtime :: "(string \<Rightarrow> string) \<Rightarrow> Host \<Rightarrow> Policy \<Rightarrow> string list \<Rightarrow> Entry list \<Rightarrow> err + string list" where
  "walk_runtime HB h p seen [] = Inr seen"
| "walk_runtime HB h p seen (en # rest) =
     (case and_then (en_Err en) (trustedPath h (en_Path en) (en_IsDir en)) of
        Some e \<Rightarrow> Inl e
      | None \<Rightarrow>
          if en_IsDir en then walk_runtime HB h p seen rest
          else (case Rel (po_RuntimeRoot p) (en_Path en) of
                  Inl e \<Rightarrow> Inl e
                | Inr rel \<Rightarrow>
                    (case map_of (po_Artifacts p) rel of
                       None \<Rightarrow> Inl (Plain (''unreviewed installed runtime file: '' @ rel))
                     | Some want \<Rightarrow>
                         (case fileHash HB h (en_Path en) of
                            Inl e \<Rightarrow> Inl e
                          | Inr got \<Rightarrow>
                              if want \<noteq> got then Inl (Plain (''installed runtime provenance mismatch: '' @ rel))
                              else walk_runtime HB h p (List.insert rel seen) rest))))"

fun parse_workstation :: "string gomap \<Rightarrow> string list \<Rightarrow> err + string gomap" where
  "parse_workstation configured [] = Inr configured"
| "parse_workstation configured (l # ls) =
     (let line = TrimSuffix l [CHR 0x0D] in
      if line = [] \<or> HasPrefix line ''#'' then parse_workstation configured ls
      else case Cut (CHR ''='') line of
             None \<Rightarrow> Inl (Plain ''invalid literal workstation configuration'')
           | Some (k, v) \<Rightarrow>
               if map_of configured k \<noteq> None then Inl (Plain ''duplicate workstation configuration key'')
               else parse_workstation (AList.update k v configured) ls)"

fun parse_session_policy :: "string gomap \<Rightarrow> string list \<Rightarrow> err + string gomap" where
  "parse_session_policy values [] = Inr values"
| "parse_session_policy values (l # ls) =
     (let line = TrimSpace l in
      if line = [] \<or> HasPrefix line ''#'' then parse_session_policy values ls
      else case Cut (CHR ''='') line of
             None \<Rightarrow> Inl (Plain ''invalid installed legacy session policy'')
           | Some (k, v) \<Rightarrow>
               if string_at values k \<noteq> [] \<or> (k \<noteq> ''SESSION_STATE_DIRECTORY'' \<and> k \<noteq> ''SESSION_KUBECONFIG'')
               then Inl (Plain ''invalid installed legacy session policy'')
               else parse_session_policy (AList.update k v values) ls)"

text \<open>The expression \<open>(?m)^\s*(exec|auth-provider|proxy-url|insecure-skip-tls-verify)\s*:\<close>, tried at every line start.\<close>

definition forbidden_key :: "string \<Rightarrow> bool" where
  "forbidden_key s \<longleftrightarrow> (let t = dropWhile is_re_space s in
     list_ex (\<lambda>k. HasPrefix t k \<and> HasPrefix (dropWhile is_re_space (drop (length k) t)) '':'')
       [''exec'', ''auth-provider'', ''proxy-url'', ''insecure-skip-tls-verify''])"

fun after_newlines :: "string \<Rightarrow> string list" where
  "after_newlines [] = []"
| "after_newlines (c # cs) = (if c = CHR 0x0A then cs # after_newlines cs else after_newlines cs)"

definition forbidden_identity :: "string \<Rightarrow> bool" where
  "forbidden_identity s \<longleftrightarrow> list_ex forbidden_key (s # after_newlines s)"

definition session_policy_path :: string where
  "session_policy_path = ''/etc/workstation/session-policy.conf''"

definition expected_target :: "Policy \<Rightarrow> string gomap" where
  "expected_target p = [(''SESSION_CONTEXT'', po_Context p), (''SESSION_NODE'', po_Target p),
     (''SESSION_NAMESPACE'', po_Namespace p), (''SESSION_ENVIRONMENT'', po_Environment p),
     (''SESSION_AI_DEPLOYMENT'', po_AIDeployment p), (''SESSION_GAME_DEPLOYMENT'', po_GameDeployment p)]"

definition verify_workstation :: "Host \<Rightarrow> Policy \<Rightarrow> err option" where
  "verify_workstation h p = (case hs_Read h (po_WorkstationConfig p) of
       Inl e \<Rightarrow> Some e
     | Inr text \<Rightarrow> (case parse_workstation [] (split_on (CHR 0x0A) text) of
           Inl e \<Rightarrow> Some e
         | Inr configured \<Rightarrow> first_fail
             [(list_ex (\<lambda>(k, want). string_at configured k \<noteq> want) (expected_target p),
               Plain ''installed workstation target differs from independent helper policy'')]))"

definition verify_identity :: "Host \<Rightarrow> Policy \<Rightarrow> err option" where
  "verify_identity h p = (case hs_Read h (po_Kubeconfig p) of
       Inl e \<Rightarrow> Some e
     | Inr identity \<Rightarrow> first_fail
         [(forbidden_identity identity,
           Plain ''helper Kubernetes identity must use reviewed static TLS credentials, without exec/auth-provider, proxy or insecure TLS options'')])"

definition verify_session_policy :: "Host \<Rightarrow> Policy \<Rightarrow> err option" where
  "verify_session_policy h p = (case hs_Read h session_policy_path of
       Inl e \<Rightarrow> Some e
     | Inr text \<Rightarrow> (case parse_session_policy [] (split_on (CHR 0x0A) text) of
           Inl e \<Rightarrow> Some e
         | Inr values \<Rightarrow> first_fail
             [(string_at values ''SESSION_STATE_DIRECTORY'' \<noteq> po_SessionDir p \<or>
               string_at values ''SESSION_KUBECONFIG'' \<noteq> po_Kubeconfig p,
               Plain ''helper and legacy session policy differ'')]))"

definition verify_files :: "(string \<Rightarrow> string) \<Rightarrow> Host \<Rightarrow> Policy \<Rightarrow> err option" where
  "verify_files HB h p = (case walk_runtime HB h p [] (hs_Walk h (po_RuntimeRoot p)) of
       Inl e \<Rightarrow> Some e
     | Inr seen \<Rightarrow> first_fail [(length seen \<noteq> length (po_Artifacts p), Plain ''installed runtime manifest includes missing files'')])"

definition verifyRuntime :: "(string \<Rightarrow> string) \<Rightarrow> Host \<Rightarrow> Policy \<Rightarrow> err option" where
  "verifyRuntime HB h p =
     and_then (verifySystemExecutables HB h (po_SystemExecutables p))
     (and_then (trustedPath h (po_RuntimeRoot p) True)
     (and_then (verify_files HB h p)
     (and_then (first_err (\<lambda>path. trustedPath h path False)
                  [po_WorkstationConfig p, po_Kubeconfig p, po_Kubectl p, session_policy_path])
     (and_then (verify_workstation h p)
     (and_then (verify_identity h p)
       (verify_session_policy h p))))))"

text \<open>Loading: \<open>decoded\<close> is the strictly decoded policy file.\<close>

definition LoadPolicy :: "(string \<Rightarrow> string) \<Rightarrow> Host \<Rightarrow> bool \<Rightarrow> string \<Rightarrow> (err + Policy) \<Rightarrow> err + Policy" where
  "LoadPolicy HB h linux_root path decoded =
     (if \<not> linux_root then Inl (Plain ''live host executor requires Linux and root'')
      else case trustedPath h path False of
             Some e \<Rightarrow> Inl e
           | None \<Rightarrow> (case decoded of
               Inl e \<Rightarrow> Inl e
             | Inr p \<Rightarrow> (case and_then (policy_validate p) (verifyRuntime HB h p) of Some e \<Rightarrow> Inl e | None \<Rightarrow> Inr p)))"

text \<open>The offline manifest of a prepared runtime bundle, and of the system executables.\<close>

fun manifest_walk :: "(string \<Rightarrow> string) \<Rightarrow> Host \<Rightarrow> string \<Rightarrow> string gomap \<Rightarrow> Entry list \<Rightarrow> err + string gomap" where
  "manifest_walk HB h base m [] = Inr m"
| "manifest_walk HB h base m (en # rest) =
     (case en_Err en of
        Some e \<Rightarrow> Inl e
      | None \<Rightarrow>
          if en_Symlink en then Inl (Plain ''runtime bundle cannot contain symlinks'')
          else if en_IsDir en then manifest_walk HB h base m rest
          else if \<not> en_IsRegular en then Inl (Plain ''runtime bundle requires regular files'')
          else (case Rel base (en_Path en) of
                  Inl e \<Rightarrow> Inl e
                | Inr rel \<Rightarrow> (case fileHash HB h (en_Path en) of
                      Inl e \<Rightarrow> Inl e
                    | Inr x \<Rightarrow> manifest_walk HB h base (AList.update rel x m) rest)))"

definition ArtifactManifest :: "(string \<Rightarrow> string) \<Rightarrow> Host \<Rightarrow> string \<Rightarrow> err + string gomap" where
  "ArtifactManifest HB h base = manifest_walk HB h base [] (hs_Walk h base)"

fun system_manifest :: "(string \<Rightarrow> string) \<Rightarrow> Host \<Rightarrow> string gomap \<Rightarrow> string list \<Rightarrow> err + string gomap" where
  "system_manifest HB h m [] = Inr m"
| "system_manifest HB h m (name # rest) =
     (if hs_Stat h (systemToolPath h name) = Absent then system_manifest HB h m rest
      else case fileHash HB h (systemToolPath h name) of
             Inl e \<Rightarrow> Inl e
           | Inr x \<Rightarrow> system_manifest HB h (AList.update name x m) rest)"

definition SystemManifest :: "(string \<Rightarrow> string) \<Rightarrow> Host \<Rightarrow> err + string gomap" where
  "SystemManifest HB h = system_manifest HB h [] (required_system_tools @ collector_system_tools)"

section \<open>What verification establishes\<close>

lemma and_18_zero: "and (w :: 32 word) 18 = 0 \<longleftrightarrow> \<not> bit w 1 \<and> \<not> bit w 4"
proof -
  have eighteen: "(18 :: 32 word) = or (push_bit 1 1) (push_bit 4 1)" by simp
  have split: "and w 18 = or (and w (push_bit 1 1)) (and w (push_bit 4 1))"
    unfolding eighteen by (rule bit.conj_disj_distrib)
  have one: "bit (and w (push_bit n 1)) m \<longleftrightarrow> m = n \<and> bit w n" if "n < 32" for n m
    using that by (auto simp: bit_simps)
  have bits: "bit (and w 18) m \<longleftrightarrow> m = 1 \<and> bit w 1 \<or> m = 4 \<and> bit w 4" for m
    using one [of 1 m] one [of 4 m] unfolding split bit_or_iff by auto
  have "and w 18 = 0 \<longleftrightarrow> (\<forall>m. \<not> bit (and w 18) m)" by (metis bit_0_eq bot_apply bot_bool_def bit_eqI)
  then show ?thesis unfolding bits by auto
qed

lemma Dir_funpow:
  assumes "list_all plain_component cs"
  shows "(Dir ^^ n) (abs_path cs) = abs_path (take (length cs - n) cs)"
proof (induction n)
  case (Suc n)
  show ?case
  proof (cases "length cs - n")
    case 0
    have "Dir (abs_path []) = abs_path []" by (simp add: Dir_def abs_path_def Clean_def IsAbs_def HasPrefix_def)
    with 0 Suc show ?thesis by simp
  next
    case (Suc k)
    have "take (Suc k) cs = take k cs @ [cs ! k]" using Suc by (intro take_Suc_conv_app_nth) simp
    moreover have "list_all plain_component (take (Suc k) cs)" using assms by (auto simp: list_all_iff dest: in_set_takeD)
    ultimately have "Dir (abs_path (take (Suc k) cs)) = abs_path (take k cs)" using Dir_abs_path by simp
    moreover have "length cs - Suc n = k" using Suc by simp
    ultimately show ?thesis using Suc.IH Suc by simp
  qed
qed simp

lemma trusted_parents:
  assumes "trustedPath h p directory = None"
  shows "\<exists>s. hs_Lstat h ((Dir ^^ n) p) = Inr s \<and> \<not> untrusted s"
proof -
  have can: "canonical p" using assms by (auto simp: trustedPath_def split: if_splits)
  then obtain cs where cs: "p = abs_path cs" "list_all plain_component cs" by (auto simp: canonical_iff)
  have w: "trusted_walk h directory True (List.rev cs) = None"
    using assms can by (simp add: trustedPath_def cs path_components_abs)
  define k where "k = min n (length cs)"
  have "length cs - n = length cs - k" "k \<le> length cs" by (auto simp: k_def)
  with w [unfolded trusted_walk_None, rule_format, of k] show ?thesis
    by (auto simp: cs Dir_funpow rev_drop)
qed

lemma walk_runtime_sound:
  assumes "walk_runtime HB h p seen ens = Inr seen'" and "en \<in> set ens" and "\<not> en_IsDir en"
  shows "\<exists>rel want. Rel (po_RuntimeRoot p) (en_Path en) = Inr rel \<and> map_of (po_Artifacts p) rel = Some want \<and>
    fileHash HB h (en_Path en) = Inr want \<and> trustedPath h (en_Path en) False = None"
  using assms
  by (induction ens arbitrary: seen) (auto split: option.splits if_splits sum.splits)

definition runtime_names :: "Policy \<Rightarrow> Entry list \<Rightarrow> string set" where
  "runtime_names p ens = {rel. \<exists>en \<in> set ens. \<not> en_IsDir en \<and> Rel (po_RuntimeRoot p) (en_Path en) = Inr rel}"

lemma walk_runtime_seen:
  "walk_runtime HB h p seen ens = Inr seen' \<Longrightarrow> set seen' = set seen \<union> runtime_names p ens"
  unfolding runtime_names_def
  by (induction ens arbitrary: seen) (auto split: option.splits if_splits sum.splits)

lemma walk_runtime_distinct: "walk_runtime HB h p seen ens = Inr seen' \<Longrightarrow> distinct seen \<Longrightarrow> distinct seen'"
  by (induction ens arbitrary: seen) (auto split: option.splits if_splits sum.splits)

lemma walk_runtime_reviewed: "walk_runtime HB h p seen ens = Inr seen' \<Longrightarrow> runtime_names p ens \<subseteq> fst ` set (po_Artifacts p)"
  by (fastforce simp: runtime_names_def dest: walk_runtime_sound map_of_in_keys)

lemma verify_files_complete:
  assumes "verify_files HB h p = None" and "wf_map (po_Artifacts p)" and "rel \<in> fst ` set (po_Artifacts p)"
  shows "\<exists>en \<in> set (hs_Walk h (po_RuntimeRoot p)). \<not> en_IsDir en \<and> Rel (po_RuntimeRoot p) (en_Path en) = Inr rel"
proof -
  obtain seen where w: "walk_runtime HB h p [] (hs_Walk h (po_RuntimeRoot p)) = Inr seen"
    and len: "length seen = length (po_Artifacts p)"
    using assms(1) by (auto simp: verify_files_def split: sum.splits)
  have "card (set seen) = card (fst ` set (po_Artifacts p))"
    using walk_runtime_distinct [OF w] len assms(2)
    by (metis distinct.simps(1) distinct_card length_map list.set_map wf_map_def)
  then have "set seen = fst ` set (po_Artifacts p)"
    using walk_runtime_reviewed [OF w] walk_runtime_seen [OF w] by (simp add: card_subset_eq)
  with assms(3) walk_runtime_seen [OF w] have "rel \<in> runtime_names p (hs_Walk h (po_RuntimeRoot p))" by simp
  then show ?thesis by (simp add: runtime_names_def)
qed

lemma LoadPolicy_checks:
  assumes "LoadPolicy HB h linux_root path decoded = Inr p"
  shows "linux_root" "trustedPath h path False = None" "policy_validate p = None" "verifyRuntime HB h p = None"
  using assms by (auto simp: LoadPolicy_def split: if_splits option.splits sum.splits)

lemma verifyRuntime_checks:
  assumes "verifyRuntime HB h p = None"
  shows "verifySystemExecutables HB h (po_SystemExecutables p) = None" "trustedPath h (po_RuntimeRoot p) True = None"
    "verify_files HB h p = None" "verify_workstation h p = None" "verify_identity h p = None" "verify_session_policy h p = None"
  using assms by (simp_all add: verifyRuntime_def)

text \<open>
  A path accepted by \<open>trustedPath\<close> is canonical, and the path and every one of its parents
  up to the root directory is owned by root, is no symbolic link and is writable by neither group
  nor others.
\<close>
theorem trusted_path_protected:
  assumes "trustedPath h p directory = None"
  shows "canonical p \<and> (\<exists>s. hs_Lstat h ((Dir ^^ n) p) = Inr s \<and> fs_Uid s = Some 0 \<and> \<not> fs_Symlink s \<and>
    \<not> bit (fs_Perm s) 4 \<and> \<not> bit (fs_Perm s) 1)"
  using assms trusted_parents [OF assms, of n]
  by (auto simp: trustedPath_def untrusted_def and_18_zero split: if_splits)

text \<open>
  With a policy the helper has loaded, the installed runtime is exactly the reviewed one: a
  file below the runtime root has the reviewed hash of its relative name, and every reviewed name
  is a file that was found there.
\<close>
theorem loaded_runtime_is_reviewed:
  assumes "LoadPolicy HB h linux_root path decoded = Inr p" and "wf_map (po_Artifacts p)"
  shows "(en \<in> set (hs_Walk h (po_RuntimeRoot p)) \<longrightarrow> \<not> en_IsDir en \<longrightarrow>
      (\<exists>rel want. Rel (po_RuntimeRoot p) (en_Path en) = Inr rel \<and> map_of (po_Artifacts p) rel = Some want \<and>
         fileHash HB h (en_Path en) = Inr want)) \<and>
    (map_of (po_Artifacts p) rel0 = Some want0 \<longrightarrow>
      (\<exists>en \<in> set (hs_Walk h (po_RuntimeRoot p)). \<not> en_IsDir en \<and> Rel (po_RuntimeRoot p) (en_Path en) = Inr rel0 \<and>
         fileHash HB h (en_Path en) = Inr want0))"
proof (intro conjI impI)
  have v: "verify_files HB h p = None" using verifyRuntime_checks(3) LoadPolicy_checks(4) [OF assms(1)] by blast
  then obtain seen where w: "walk_runtime HB h p [] (hs_Walk h (po_RuntimeRoot p)) = Inr seen"
    by (auto simp: verify_files_def split: sum.splits)
  show "\<exists>rel want. Rel (po_RuntimeRoot p) (en_Path en) = Inr rel \<and> map_of (po_Artifacts p) rel = Some want \<and>
      fileHash HB h (en_Path en) = Inr want" if "en \<in> set (hs_Walk h (po_RuntimeRoot p))" "\<not> en_IsDir en"
    using walk_runtime_sound [OF w that] by blast
  show "\<exists>en \<in> set (hs_Walk h (po_RuntimeRoot p)). \<not> en_IsDir en \<and> Rel (po_RuntimeRoot p) (en_Path en) = Inr rel0 \<and>
      fileHash HB h (en_Path en) = Inr want0" if r: "map_of (po_Artifacts p) rel0 = Some want0"
    using verify_files_complete [OF v assms(2) map_of_in_keys [OF r]] walk_runtime_sound [OF w] r by fastforce
qed

section \<open>The manifest round trip\<close>

lemma Rel_inj: "Rel base a = Inr r \<Longrightarrow> Rel base b = Inr r \<Longrightarrow> r \<noteq> ''.'' \<Longrightarrow> a = b"
proof -
  have "a = base @ ''/'' @ r" if "Rel base a = Inr r" "r \<noteq> ''.''" for a
    using that by (auto simp: Rel_def HasPrefix_def split: if_splits) (metis append_take_drop_id append_Cons append_Nil append_assoc)
  then show "Rel base a = Inr r \<Longrightarrow> Rel base b = Inr r \<Longrightarrow> r \<noteq> ''.'' \<Longrightarrow> a = b" by metis
qed

lemma manifest_walk_keys:
  assumes "manifest_walk HB h base m ens = Inr m'"
  shows "fst ` set m' = fst ` set m \<union> {rel. \<exists>en \<in> set ens. \<not> en_IsDir en \<and> Rel base (en_Path en) = Inr rel}"
  using assms by (induction ens arbitrary: m) (auto split: option.splits if_splits sum.splits)

lemma manifest_walk_wf: "manifest_walk HB h base m ens = Inr m' \<Longrightarrow> wf_map m \<Longrightarrow> wf_map m'"
  by (induction ens arbitrary: m) (auto split: option.splits if_splits sum.splits)

text \<open>A name recorded during the walk keeps its hash: two entries with the same name are the same file.\<close>

lemma manifest_walk_value:
  assumes "manifest_walk HB h base m ens = Inr m'" and "map_of m rel = Some x" and "rel \<noteq> ''.''"
    and "\<And>path. Rel base path = Inr rel \<Longrightarrow> fileHash HB h path = Inr x"
  shows "map_of m' rel = Some x"
  using assms
proof (induction ens arbitrary: m)
  case (Cons en ens)
  have same: "fileHash HB h (en_Path en) = Inr x" if "Rel base (en_Path en) = Inr rel" using Cons.prems(4) that .
  show ?case
    using Cons.prems(1-3) same by (auto intro!: Cons.IH [OF _ _ Cons.prems(3,4)] split: option.splits if_splits sum.splits)
qed simp

lemma manifest_walk_entry:
  assumes "manifest_walk HB h base m ens = Inr m'" and "en \<in> set ens" and "\<not> en_IsDir en"
    and "\<And>en. en \<in> set ens \<Longrightarrow> \<not> en_IsDir en \<Longrightarrow> Rel base (en_Path en) \<noteq> Inr ''.''"
  shows "\<exists>rel x. Rel base (en_Path en) = Inr rel \<and> fileHash HB h (en_Path en) = Inr x \<and> map_of m' rel = Some x \<and> en_Err en = None"
  using assms
proof (induction ens arbitrary: m)
  case (Cons e1 ens)
  show ?case
  proof (cases "en = e1")
    case True
    with Cons.prems obtain rel x where r: "Rel base (en_Path en) = Inr rel" "fileHash HB h (en_Path en) = Inr x" "en_Err en = None"
      and w: "manifest_walk HB h base (AList.update rel x m) ens = Inr m'"
      by (auto split: option.splits if_splits sum.splits)
    have ne: "rel \<noteq> ''.''" using r(1) Cons.prems(2-4) by blast
    have "map_of m' rel = Some x"
    proof (rule manifest_walk_value [OF w])
      show "map_of (AList.update rel x m) rel = Some x" by simp
      show "fileHash HB h path = Inr x" if "Rel base path = Inr rel" for path
        using Rel_inj [OF r(1) that ne] r(2) by simp
    qed (rule ne)
    with r show ?thesis by blast
  next
    case False
    then have en: "en \<in> set ens" using Cons.prems(2) by simp
    have "\<exists>m2. manifest_walk HB h base m2 ens = Inr m'"
      using Cons.prems(1) by (auto split: option.splits if_splits sum.splits)
    then obtain m2 where w: "manifest_walk HB h base m2 ens = Inr m'" by blast
    show ?thesis by (rule Cons.IH [OF w en Cons.prems(3)]) (use Cons.prems(4) in auto)
  qed
qed simp

lemma walk_runtime_accepts:
  assumes "\<And>en. en \<in> set ens \<Longrightarrow> en_Err en = None \<and> trustedPath h (en_Path en) (en_IsDir en) = None"
    and "\<And>en. en \<in> set ens \<Longrightarrow> \<not> en_IsDir en \<Longrightarrow> \<exists>rel x. Rel (po_RuntimeRoot p) (en_Path en) = Inr rel \<and>
      fileHash HB h (en_Path en) = Inr x \<and> map_of (po_Artifacts p) rel = Some x"
  shows "\<exists>seen'. walk_runtime HB h p seen ens = Inr seen'"
  using assms
proof (induction ens arbitrary: seen)
  case (Cons en ens)
  have IH: "\<exists>seen'. walk_runtime HB h p seen ens = Inr seen'" for seen using Cons by simp
  show ?case
  proof (cases "en_IsDir en")
    case True
    with Cons.prems(1) [of en] IH show ?thesis by simp
  next
    case False
    with Cons.prems(2) [of en] obtain rel x where "Rel (po_RuntimeRoot p) (en_Path en) = Inr rel"
      "fileHash HB h (en_Path en) = Inr x" "map_of (po_Artifacts p) rel = Some x" by auto
    with False Cons.prems(1) [of en] IH show ?thesis by simp
  qed
qed simp

text \<open>
  The offline manifest of a bundle is what the helper's verification accepts: with the
  manifest printed for a prepared runtime as the reviewed artifacts, the walk over the same files
  verifies once they are installed on trusted paths.
\<close>
theorem manifest_verifies:
  assumes "ArtifactManifest HB h (po_RuntimeRoot p) = Inr m"
    and "\<And>en. en \<in> set (hs_Walk h (po_RuntimeRoot p)) \<Longrightarrow> en_Err en = None \<and> trustedPath h (en_Path en) (en_IsDir en) = None"
    and "\<And>en. en \<in> set (hs_Walk h (po_RuntimeRoot p)) \<Longrightarrow> \<not> en_IsDir en \<Longrightarrow> Rel (po_RuntimeRoot p) (en_Path en) \<noteq> Inr ''.''"
  shows "verify_files HB h (p\<lparr>po_Artifacts := m\<rparr>) = None"
proof -
  let ?p = "p\<lparr>po_Artifacts := m\<rparr>"
  let ?ens = "hs_Walk h (po_RuntimeRoot p)"
  have w: "manifest_walk HB h (po_RuntimeRoot p) [] ?ens = Inr m" using assms(1) by (simp add: ArtifactManifest_def)
  obtain seen where seen: "walk_runtime HB h ?p [] ?ens = Inr seen"
  proof -
    have "\<exists>rel x. Rel (po_RuntimeRoot ?p) (en_Path en) = Inr rel \<and> fileHash HB h (en_Path en) = Inr x \<and>
        map_of (po_Artifacts ?p) rel = Some x" if "en \<in> set ?ens" "\<not> en_IsDir en" for en
      using manifest_walk_entry [OF w that assms(3)] by auto
    from walk_runtime_accepts [OF assms(2) this] show thesis using that by blast
  qed
  have "set seen = fst ` set m"
    using walk_runtime_seen [OF seen] manifest_walk_keys [OF w] by (simp add: runtime_names_def)
  moreover have "distinct seen" "wf_map m" using walk_runtime_distinct [OF seen] manifest_walk_wf [OF w] by simp_all
  ultimately have "length seen = length m" by (metis distinct_card length_map list.set_map wf_map_def)
  with seen show ?thesis by (simp add: verify_files_def)
qed

section \<open>A host that verifies\<close>

definition ex_digest :: string where "ex_digest = replicate 64 CHR ''a''"

definition ex_HB :: "string \<Rightarrow> string" where "ex_HB = (\<lambda>_. ex_digest)"

definition ex_lines :: "string list \<Rightarrow> string" where "ex_lines = join_with (CHR 0x0A)"

definition ex_read :: "string \<Rightarrow> err + string" where
  "ex_read path = Inr (if path = ''/etc/w.conf'' then ex_lines [''SESSION_CONTEXT=ctx'', ''SESSION_NODE=node'', ''SESSION_NAMESPACE=ns'',
       ''SESSION_ENVIRONMENT=dev'', ''SESSION_AI_DEPLOYMENT=ai'', ''SESSION_GAME_DEPLOYMENT=game'']
     else if path = session_policy_path then ex_lines [''SESSION_STATE_DIRECTORY=/var/ses'', ''SESSION_KUBECONFIG=/etc/kube'']
     else ''kind: Config'')"

definition ex_directories :: "string list" where
  "ex_directories = [''/'', ''/r'', ''/r/bin'', ''/r/lib'', ''/r/lib/workstation'', ''/etc'', ''/etc/workstation'', ''/usr'', ''/usr/bin'']"

definition ex_entry :: "string \<Rightarrow> Entry" where
  "ex_entry name = \<lparr>en_Path = ''/r/'' @ name, en_Err = None, en_IsDir = False, en_Symlink = False, en_IsRegular = True\<rparr>"

definition ex_host :: Host where
  "ex_host = \<lparr>hs_Lstat = (\<lambda>p. Inr \<lparr>fs_Uid = Some 0, fs_Symlink = False, fs_Perm = 420, fs_IsDir = p \<in> set ex_directories,
       fs_IsRegular = p \<notin> set ex_directories\<rparr>),
     hs_Stat = (\<lambda>p. if list_ex (\<lambda>n. p = ''/usr/bin/'' @ n) required_system_tools then Present else Absent),
     hs_Walk = (\<lambda>_. map ex_entry required_artifacts), hs_Read = ex_read, hs_Resolve = Inr\<rparr>"

definition ex_policy :: Policy where
  "ex_policy = \<lparr>po_PerformanceSources = [], po_MemorySources = [], po_Version = 1, po_AllowedUID = 970, po_Socket = ''/run/b.sock'',
     po_StateDir = ''/var/b'', po_SessionDir = ''/var/ses'', po_RuntimeRoot = ''/r'', po_Artifacts = map (\<lambda>n. (n, ex_digest)) required_artifacts,
     po_SystemExecutables = map (\<lambda>n. (n, ex_digest)) required_system_tools, po_WorkstationConfig = ''/etc/w.conf'',
     po_SourcePath = ''/var/src.json'', po_HardwarePath = ''/var/hw.json'', po_ModelRoot = ''/models'', po_WorkerEvidenceDir = [],
     po_Kubeconfig = ''/etc/kube'', po_Kubectl = ''/usr/bin/kubectl'', po_Context = ''ctx'', po_Target = ''node'', po_Environment = ''dev'',
     po_Namespace = ''ns'', po_AIDeployment = ''ai'', po_AIDeploymentUID = ''u1'', po_GameDeployment = ''game'', po_GameDeploymentUID = ''u2'',
     po_TimeoutSeconds = 60, po_QualifiedConfigurations = [], po_SessionQualifications = [], po_MaxRecords = 16\<rparr>"

definition loads :: "err + Policy \<Rightarrow> bool" where
  "loads x \<longleftrightarrow> \<not> isl x"

lemma ex_loads: "LoadPolicy ex_HB ex_host True ''/etc/policy.json'' (Inr ex_policy) = Inr ex_policy"
proof -
  have "loads (LoadPolicy ex_HB ex_host True ''/etc/policy.json'' (Inr ex_policy))" by code_simp
  then show ?thesis by (auto simp: loads_def LoadPolicy_def split: option.splits)
qed

theorem trusted_path_protected_witness:
  "trustedPath ex_host ''/etc/workstation/session-policy.conf'' False = None \<and>
   (\<exists>s. hs_Lstat ex_host ((Dir ^^ 1) ''/etc/workstation/session-policy.conf'') = Inr s \<and> fs_Uid s = Some 0)"
proof -
  have "Option.is_none (trustedPath ex_host ''/etc/workstation/session-policy.conf'' False)" by code_simp
  then have t: "trustedPath ex_host ''/etc/workstation/session-policy.conf'' False = None" by (simp only: Option.is_none_def)
  from trusted_path_protected [OF t, of 1] t show ?thesis by blast
qed

theorem loaded_runtime_is_reviewed_witness:
  "\<exists>en \<in> set (hs_Walk ex_host ''/r''). Rel ''/r'' (en_Path en) = Inr ''versions.lock'' \<and> fileHash ex_HB ex_host (en_Path en) = Inr ex_digest"
proof -
  have wf: "wf_map (po_Artifacts ex_policy)" by (simp add: ex_policy_def wf_map_def required_artifacts_def)
  have "map_of (po_Artifacts ex_policy) ''versions.lock'' = Some ex_digest" "po_RuntimeRoot ex_policy = ''/r''"
    by (simp_all add: ex_policy_def required_artifacts_def)
  with loaded_runtime_is_reviewed [OF ex_loads wf, of undefined "''versions.lock''" ex_digest] show ?thesis by auto
qed

theorem manifest_verifies_witness:
  "\<exists>m. ArtifactManifest ex_HB ex_host ''/r'' = Inr m \<and> verify_files ex_HB ex_host (ex_policy\<lparr>po_Artifacts := m\<rparr>) = None"
proof -
  have root: "po_RuntimeRoot ex_policy = ''/r''" by (simp add: ex_policy_def)
  have "\<not> isl (ArtifactManifest ex_HB ex_host ''/r'')" by code_simp
  then obtain m where m: "ArtifactManifest ex_HB ex_host (po_RuntimeRoot ex_policy) = Inr m"
    unfolding root by (cases "ArtifactManifest ex_HB ex_host ''/r''") auto
  have trusted: "list_all (\<lambda>en. Option.is_none (en_Err en) \<and> Option.is_none (trustedPath ex_host (en_Path en) (en_IsDir en)) \<and>
      (case Rel ''/r'' (en_Path en) of Inr r \<Rightarrow> r \<noteq> ''.'' | Inl _ \<Rightarrow> True)) (hs_Walk ex_host ''/r'')"
    by code_simp
  have "verify_files ex_HB ex_host (ex_policy\<lparr>po_Artifacts := m\<rparr>) = None"
    by (rule manifest_verifies [OF m])
       (use trusted in \<open>auto simp: list_all_iff Option.is_none_def root split: sum.splits\<close>)
  with m show ?thesis unfolding root by blast
qed

end
