(* ===== verification/Executor.thy ===== *)
theory Executor
  imports HostPolicy Recovery
begin

text \<open>
  The root helper's executor, \<open>internal/hostexec/executor.go\<close> and the request types of
  \<open>protocol.go\<close>: an independent journal of one file per request, admission of typed requests,
  the completion of the single running request and the settlement of recovery chains. A journal
  file is its name with the decoded record, \<open>None\<close> when decoding fails; \<open>hx_Write\<close> is what the
  durable replacement of a file does.
\<close>

section \<open>Requests and records\<close>

record HostRequest =
  hq_Version :: int
  hq_ID :: string
  hq_ExecutionIdentity :: string
  hq_PayloadHash :: string
  hq_Draft :: Draft
  hq_Desired :: Configuration

record HostResult =
  hr_ID :: string
  hr_State :: string
  hr_Phase :: string
  hr_Message :: string
  hr_Data :: string

record HostRecord =
  re_Request :: HostRequest
  re_Result :: HostResult
  re_PeerUID :: "32 word"
  re_PolicyRevision :: string
  re_StartedAt :: time
  re_UpdatedAt :: time

definition request_json :: "HostRequest \<Rightarrow> json" where
  "request_json r = JObj
     [(''version'', JInt (hq_Version r)), (''id'', JStr (hq_ID r)),
      (''execution_identity'', JStr (hq_ExecutionIdentity r)), (''payload_hash'', JStr (hq_PayloadHash r)),
      (''draft'', draft_json (hq_Draft r)), (''desired'', configuration_json (hq_Desired r))]"

definition RequestHash :: "digest \<Rightarrow> HostRequest \<Rightarrow> string" where
  "RequestHash H r = H (request_json (r\<lparr>hq_PayloadHash := []\<rparr>))"

definition ConfigurationHash :: "digest \<Rightarrow> Serving \<Rightarrow> Resources \<Rightarrow> string" where
  "ConfigurationHash H s r = H (JObj [(''serving'', serving_json s), (''resources'', resources_json r)])"

type_synonym journal = "(string \<times> HostRecord option) list"

record Executor =
  hx_Policy :: Policy
  hx_Records :: "HostRecord gomap"
  hx_Active :: bool
  hx_JournalFailed :: bool
  hx_Disk :: journal
  hx_Write :: "HostRecord \<Rightarrow> write_outcome"

abbreviation re_ID :: "HostRecord \<Rightarrow> string" where "re_ID r \<equiv> hq_ID (re_Request r)"
abbreviation re_Draft :: "HostRecord \<Rightarrow> Draft" where "re_Draft r \<equiv> hq_Draft (re_Request r)"
abbreviation re_State :: "HostRecord \<Rightarrow> string" where "re_State r \<equiv> hr_State (re_Result r)"

definition unresolved :: "HostRecord \<Rightarrow> bool" where
  "unresolved r \<longleftrightarrow> re_State r = ''recovery-required''"

text \<open>Reading the map of records yields the zero record for an absent key.\<close>

definition zero_host_record :: "HostRecord" where
  "zero_host_record = \<lparr>re_Request = \<lparr>hq_Version = 0, hq_ID = [], hq_ExecutionIdentity = [], hq_PayloadHash = [],
       hq_Draft = zero_draft, hq_Desired = zero_configuration\<rparr>,
     re_Result = \<lparr>hr_ID = [], hr_State = [], hr_Phase = [], hr_Message = [], hr_Data = []\<rparr>,
     re_PeerUID = 0, re_PolicyRevision = [], re_StartedAt = zero_time, re_UpdatedAt = zero_time\<rparr>"

definition record_at :: "Executor \<Rightarrow> string \<Rightarrow> HostRecord" where
  "record_at e k = (case map_of (hx_Records e) k of Some r \<Rightarrow> r | None \<Rightarrow> zero_host_record)"

section \<open>The journal\<close>

definition journal_name :: "string \<Rightarrow> string" where
  "journal_name k = k @ ''.json''"

definition msg_journal :: string where
  "msg_journal = ''root recovery journal could not be persisted; mutations are fenced''"

definition save :: "time \<Rightarrow> HostRecord \<Rightarrow> Executor \<Rightarrow> Executor \<times> err option" where
  "save now rec0 e =
     (let r = rec0\<lparr>re_UpdatedAt := now\<rparr>;
          written = AList.update (journal_name (re_ID r)) (Some r) (hx_Disk e)
      in case hx_Write e r of
           Written \<Rightarrow> (e\<lparr>hx_Disk := written, hx_Records := AList.update (re_ID r) r (hx_Records e)\<rparr>, None)
         | NotWritten \<Rightarrow> (e\<lparr>hx_JournalFailed := True\<rparr>, Some (Plain msg_journal))
         | WrittenUnconfirmed \<Rightarrow> (e\<lparr>hx_Disk := written, hx_JournalFailed := True\<rparr>, Some (Plain msg_journal)))"

definition readOnlyAction :: "string \<Rightarrow> bool" where
  "readOnlyAction a \<longleftrightarrow> a = ''hardware.refresh'' \<or> a = ''cpu-policy.export'' \<or> EvidenceAction a"

section \<open>Recovery chains of the helper\<close>

definition record_link :: "HostRecord \<Rightarrow> RecoveryLink" where
  "record_link r = \<lparr>rl_Parent = d_RecoveryID (re_Draft r), rl_Target = d_Target (re_Draft r), rl_Action = d_Action (re_Draft r)\<rparr>"

definition recoveryLinks :: "HostRecord gomap \<Rightarrow> RecoveryLink gomap" where
  "recoveryLinks recs = map (\<lambda>(k, r). (k, record_link r)) recs"

definition validateRecovery :: "HostRecord gomap \<Rightarrow> Draft \<Rightarrow> err option" where
  "validateRecovery recs d =
     (if d_RecoveryID d = [] then first_fail
        [(list_ex (\<lambda>(k, old). unresolved old) recs,
          Plain ''root helper recovery is required; restore must identify one unresolved helper recovery chain'')]
      else if d_Action d \<noteq> ''profile.restore'' \<or> \<not> validID (d_RecoveryID d)
        then Some (Plain ''restore recovery ID must identify an unresolved root helper recovery chain'')
      else case map_of recs (d_RecoveryID d) of
             None \<Rightarrow> Some (Plain ''restore recovery ID must identify an unresolved root helper operation with host effects'')
           | Some old \<Rightarrow>
               if \<not> unresolved old \<or> \<not> HostRestoreRequired (d_Action (re_Draft old))
               then Some (Plain ''restore recovery ID must identify an unresolved root helper operation with host effects'')
               else if d_Target (re_Draft old) \<noteq> d_Target d
               then Some (Plain ''root helper recovery cannot change the persisted target'')
               else case RecoveryChain (recoveryLinks recs) (d_RecoveryID d) of
                      Inl _ \<Rightarrow> Some (Plain ''root helper recovery chain is ambiguous; preserve the root journal for owner review'')
                    | Inr chain \<Rightarrow> first_fail
                        [(d_RecoveryID d \<notin> set chain,
                          Plain ''root helper recovery chain is ambiguous; preserve the root journal for owner review''),
                         (list_ex (\<lambda>(k, candidate). unresolved candidate \<and> k \<notin> set chain) recs,
                          Plain ''root helper recovery is required in another chain; settle it independently'')])"

text \<open>Settlement: the writes of the loop over the sorted members of the chain.\<close>

definition recovered_by :: "string \<Rightarrow> HostRecord \<Rightarrow> HostRecord" where
  "recovered_by recoveredID old = old\<lparr>re_Result := (re_Result old)\<lparr>hr_State := ''failed'',
     hr_Phase := ''recovered-by-'' @ recoveredID,
     hr_Message := ''A later explicit restore completed; this operation did not succeed.''\<rparr>\<rparr>"

fun settle_records :: "(string \<Rightarrow> time) \<Rightarrow> string \<Rightarrow> string list \<Rightarrow> Executor \<Rightarrow> Executor \<times> err option" where
  "settle_records clk recoveredID [] e = (e, None)"
| "settle_records clk recoveredID (k # ks) e =
     (let old = record_at e k in
      if \<not> unresolved old then settle_records clk recoveredID ks e
      else case save (clk k) (recovered_by recoveredID old) e of
             (e', Some x) \<Rightarrow> (e', Some x)
           | (e', None) \<Rightarrow> settle_records clk recoveredID ks e')"

text \<open>An unresolved record that did not start before the recovered one.\<close>

definition unordered :: "HostRecord \<Rightarrow> HostRecord \<Rightarrow> bool" where
  "unordered recovered candidate \<longleftrightarrow> unresolved candidate \<and>
     (re_StartedAt candidate = zero_time \<or> re_StartedAt recovered = zero_time \<or>
      \<not> re_StartedAt candidate < re_StartedAt recovered)"

definition settleRecoveryChain :: "(string \<Rightarrow> time) \<Rightarrow> string \<Rightarrow> Executor \<Rightarrow> Executor \<times> err option" where
  "settleRecoveryChain clk recoveredID e =
     (case RecoveryChain (recoveryLinks (hx_Records e)) recoveredID of
        Inl _ \<Rightarrow> (e\<lparr>hx_JournalFailed := True\<rparr>,
           Some (Plain ''root helper recovery chain is ambiguous; successful retry retained and mutations fenced''))
      | Inr chain \<Rightarrow>
          if recoveredID \<notin> set chain
          then (e\<lparr>hx_JournalFailed := True\<rparr>,
             Some (Plain ''root helper recovery chain is ambiguous; successful retry retained and mutations fenced''))
          else if list_ex (\<lambda>k. k \<noteq> recoveredID \<and> unordered (record_at e recoveredID) (record_at e k)) chain
          then (e\<lparr>hx_JournalFailed := True\<rparr>,
             Some (Plain ''root helper recovery chain has a later or unordered unresolved attempt; successful retry retained and mutations fenced''))
          else settle_records clk recoveredID (sort (filter (\<lambda>k. k \<noteq> recoveredID) chain)) e)"

text \<open>A durable successful restore that names what it recovers.\<close>

definition completed_restore :: "HostRecord \<Rightarrow> bool" where
  "completed_restore r \<longleftrightarrow> re_State r = ''succeeded'' \<and> d_Action (re_Draft r) = ''profile.restore'' \<and> d_RecoveryID (re_Draft r) \<noteq> []"

definition recoverySettlementPending :: "Executor \<Rightarrow> bool" where
  "recoverySettlementPending e \<longleftrightarrow> list_ex (\<lambda>(k, r). completed_restore r \<and>
     (case RecoveryChain (recoveryLinks (hx_Records e)) k of
        Inl _ \<Rightarrow> False
      | Inr chain \<Rightarrow> list_ex (\<lambda>c. c \<noteq> k \<and> unresolved (record_at e c)) chain)) (hx_Records e)"

fun roll_forward :: "(string \<Rightarrow> time) \<Rightarrow> string list \<Rightarrow> Executor \<Rightarrow> Executor \<times> err option" where
  "roll_forward clk [] e = (e, None)"
| "roll_forward clk (k # ks) e =
     (if completed_restore (record_at e k)
      then case settleRecoveryChain clk k e of
             (e', Some x) \<Rightarrow> (e', Some x)
           | (e', None) \<Rightarrow> roll_forward clk ks e'
      else roll_forward clk ks e)"

definition rollForwardRecoverySettlements :: "(string \<Rightarrow> time) \<Rightarrow> Executor \<Rightarrow> Executor \<times> err option" where
  "rollForwardRecoverySettlements clk e = roll_forward clk (sort (gkeys (hx_Records e))) e"

section \<open>Loading the journal\<close>

definition interrupted :: "HostRecord \<Rightarrow> HostRecord" where
  "interrupted r = r\<lparr>re_Result :=
     (if readOnlyAction (d_Action (re_Draft r))
      then (re_Result r)\<lparr>hr_State := ''failed'', hr_Phase := ''read-only-interrupted'',
        hr_Message := ''Executor restarted before a bounded diagnostic completed; its output is not valid and no host recovery is required.''\<rparr>
      else (re_Result r)\<lparr>hr_State := ''recovery-required'', hr_Phase := ''executor-restart'',
        hr_Message := ''Executor restarted with uncertain external effects; inspect the legacy session state and request an explicit restore. No work was retried.''\<rparr>)\<rparr>"

definition in_progress :: "HostRecord \<Rightarrow> bool" where
  "in_progress r \<longleftrightarrow> re_State r = ''running'' \<or> re_State r = ''queued''"

text \<open>
  The loop over the directory entries; \<open>access\<close> is the error of the trust check or of opening a
  file. Directories are skipped by the code and are not entries here.
\<close>

fun load_entries :: "digest \<Rightarrow> (string \<Rightarrow> err option) \<Rightarrow> (string \<Rightarrow> time) \<Rightarrow> journal \<Rightarrow> Executor \<Rightarrow> Executor \<times> err option" where
  "load_entries H access clk [] e = (e, None)"
| "load_entries H access clk ((name, content) # rest) e =
     (if \<not> HasSuffix name ''.json'' then load_entries H access clk rest e
      else case access name of
             Some x \<Rightarrow> (e, Some x)
           | None \<Rightarrow>
      (case content of
         None \<Rightarrow> (e, Some (Plain ''invalid root recovery journal; owner inspection is required''))
       | Some r \<Rightarrow>
           if \<not> validID (re_ID r) \<or> name \<noteq> journal_name (re_ID r) \<or> hq_PayloadHash (re_Request r) \<noteq> RequestHash H (re_Request r)
           then (e, Some (Plain ''root recovery journal identity/hash mismatch''))
           else let e1 = e\<lparr>hx_Records := AList.update (re_ID r) r (hx_Records e)\<rparr> in
                if in_progress r
                then case save (clk (re_ID r)) (interrupted r) e1 of
                       (e', Some x) \<Rightarrow> (e', Some x)
                     | (e', None) \<Rightarrow> load_entries H access clk rest e'
                else load_entries H access clk rest e1))"

definition load :: "digest \<Rightarrow> (string \<Rightarrow> err option) \<Rightarrow> (string \<Rightarrow> time) \<Rightarrow> err option \<Rightarrow> Executor \<Rightarrow> Executor \<times> err option" where
  "load H access clk lock e =
     (case load_entries H access clk (sort_key fst (hx_Disk e)) e of
        (e1, Some x) \<Rightarrow> (e1, Some x)
      | (e1, None) \<Rightarrow>
          if recoverySettlementPending e1 \<and> lock \<noteq> None
          then (e1\<lparr>hx_JournalFailed := True\<rparr>,
             Some (Plain ''root recovery settlement cannot acquire the canonical legacy lock; mutations remain fenced''))
          else rollForwardRecoverySettlements clk e1)"

text \<open>
  The journal and session directories: created if need be, on trusted paths and of mode 0700. \<open>dirs\<close>
  in the constructor is the error of this preparation.
\<close>

definition prepare_directories :: "Host \<Rightarrow> (string \<Rightarrow> err option) \<Rightarrow> Policy \<Rightarrow> err option" where
  "prepare_directories h mkdir p = first_err (\<lambda>d. and_then (mkdir d) (and_then (trustedPath h d True)
     (case hs_Lstat h d of
        Inr s \<Rightarrow> if fs_Perm s \<noteq> 448 then Some (Plain ''helper journal and legacy session directories must be mode 0700'') else None
      | Inl e \<Rightarrow> Some e))) [po_StateDir p, po_SessionDir p]"

definition NewExecutor :: "digest \<Rightarrow> (string \<Rightarrow> err option) \<Rightarrow> (string \<Rightarrow> time) \<Rightarrow> err option \<Rightarrow> err option
    \<Rightarrow> Policy \<Rightarrow> journal \<Rightarrow> (HostRecord \<Rightarrow> write_outcome) \<Rightarrow> Executor \<times> err option" where
  "NewExecutor H access clk dirs lock p disk wr =
     (let e = \<lparr>hx_Policy = p, hx_Records = [], hx_Active = False, hx_JournalFailed = False, hx_Disk = disk, hx_Write = wr\<rparr> in
      case dirs of Some x \<Rightarrow> (e, Some x) | None \<Rightarrow> load H access clk lock e)"

section \<open>Admission\<close>

text \<open>
  What a submission reads of its surroundings: the canonical source file with the error of a failed
  read, the clock at validation, and the errors of the runtime verification and of the lock.
\<close>

record World =
  wo_Source :: source_file
  wo_ReadError :: err
  wo_Now :: time
  wo_Verify :: "err option"
  wo_Lock :: "err option"

definition memory_source_approved :: "Policy \<Rightarrow> Draft \<Rightarrow> bool" where
  "memory_source_approved p d \<longleftrightarrow> (case d_Memory d of None \<Rightarrow> False
     | Some m \<Rightarrow> (case map_of (po_MemorySources p) (mr_EvidenceID m) of None \<Rightarrow> False
         | Some s \<Rightarrow> ms_SHA256 s = mr_EvidenceSHA256 m))"

definition performance_source_approved :: "Policy \<Rightarrow> Draft \<Rightarrow> bool" where
  "performance_source_approved p d \<longleftrightarrow> (case d_Performance d of None \<Rightarrow> False
     | Some m \<Rightarrow> (case map_of (po_PerformanceSources p) (pr_EvidenceID m) of None \<Rightarrow> False
         | Some s \<Rightarrow> ms_SHA256 s = pr_EvidenceSHA256 m))"

definition validateMemoryRequest :: "digest \<Rightarrow> World \<Rightarrow> Policy \<Rightarrow> HostRequest \<Rightarrow> err option" where
  "validateMemoryRequest H w p r =
     (let d = hq_Draft r; c = hq_Desired r in first_fail
      [(c_Revision c \<noteq> ContentRevision H c \<or> d_SourceRevision d \<noteq> c_Revision c, Plain ''memory plan source revision mismatch''),
       (case wo_Source w of Content cur \<Rightarrow> ContentRevision H cur \<noteq> c_Revision c | _ \<Rightarrow> True,
        Plain ''memory plan canonical source changed''),
       (d_Action d = ''memory.evidence.import'' \<and> \<not> memory_source_approved p d,
        Plain ''memory source is not approved by root policy'')])"

definition validatePerformanceRequest :: "digest \<Rightarrow> World \<Rightarrow> Policy \<Rightarrow> HostRequest \<Rightarrow> err option" where
  "validatePerformanceRequest H w p r =
     (let d = hq_Draft r; c = hq_Desired r in first_fail
      [(c_Revision c \<noteq> ContentRevision H c \<or> d_SourceRevision d \<noteq> c_Revision c, Plain ''performance source revision mismatch''),
       (case wo_Source w of Missing \<Rightarrow> True | Unreadable _ \<Rightarrow> True | _ \<Rightarrow> False, wo_ReadError w),
       (case wo_Source w of Content cur \<Rightarrow> ContentRevision H cur \<noteq> c_Revision c | _ \<Rightarrow> True,
        Plain ''performance canonical configuration changed''),
       (\<not> performance_source_approved p d, Plain ''performance source is not approved by independent root policy'')])"

definition host_actions :: "string list" where
  "host_actions = [''profile.switch'', ''profile.restore'', ''serving.configure'', ''serving.start'', ''serving.stop'',
     ''serving.restart'', ''resources.configure'', ''hardware.refresh'', ''cpu-policy.export'']"

definition qualification_current :: "Qualification option \<Rightarrow> time \<Rightarrow> bool" where
  "qualification_current q now \<longleftrightarrow> (case q of None \<Rightarrow> False
     | Some x \<Rightarrow> q_ExpiresAt x > now \<and> contains (q_Image x) ''@sha256:'' \<and> length (q_ModelRevision x) = 40 \<and>
         HasPrefix (q_ModelPath x) ''/models/'' \<and> Clean (q_ModelPath x) = q_ModelPath x)"

definition validate_serving :: "digest \<Rightarrow> time \<Rightarrow> Policy \<Rightarrow> Configuration \<Rightarrow> err option" where
  "validate_serving H now p c =
     (let s = c_Serving c; b = c_Resources c in first_fail
      [(s_Context s < 128 \<or> s_Context s > 131072 \<or> s_Concurrency s < 1 \<or> s_Concurrency s > 32 \<or>
        s_MemoryFraction s < f64_0_1 \<or> s_MemoryFraction s > f64_0_95 \<or> s_CPUOffloadGiB s < 0 \<or> s_CPUOffloadGiB s > 32 \<or>
        s_MaxRequestTokens s \<noteq> 0 \<or> s_MaxOutputTokens s \<noteq> 0,
        Plain ''unsupported serving limits: global request/output caps are not enforced by this installed SGLang adapter''),
       (r_PhysicalGPU b \<noteq> [] \<or> r_GPUCount b < 1 \<or> r_GPUCount b > 2 \<or> r_CPU b < 2 \<or> r_CPU b > 48 \<or>
        r_MemoryMiB b < 1024 \<or> r_MemoryMiB b > 49152 \<or> r_SharedMemoryMiB b < 64 \<or> r_SharedMemoryMiB b \<ge> r_MemoryMiB b,
        Plain ''resource budget or physical GPU selection is outside root policy''),
       (i64 (s_CPUOffloadGiB s * 1024 + r_SharedMemoryMiB b) \<ge> r_MemoryMiB b,
        Plain ''CPU offload and shared memory leave no engine process memory''),
       (\<not> qualification_current (map_of (po_QualifiedConfigurations p) (ConfigurationHash H s b)) now,
        Plain ''exact model, engine image and configuration require a current owner qualification in root policy'')])"

definition validate_source :: "digest \<Rightarrow> World \<Rightarrow> HostRequest \<Rightarrow> err option" where
  "validate_source H w r = first_fail
     [(c_Revision (hq_Desired r) \<noteq> ContentRevision H (hq_Desired r), Plain ''desired configuration content revision mismatch''),
      (d_SourceRevision (hq_Draft r) \<noteq> c_Revision (hq_Desired r),
       Plain ''request source revision does not identify the committed desired configuration''),
      (case wo_Source w of Missing \<Rightarrow> True | Unreadable _ \<Rightarrow> True | _ \<Rightarrow> False, Plain ''canonical configuration source is unavailable''),
      (case wo_Source w of Malformed _ \<Rightarrow> True | _ \<Rightarrow> False, Plain ''canonical configuration source is malformed''),
      (case wo_Source w of Content cur \<Rightarrow> ContentRevision H cur \<noteq> ContentRevision H (hq_Desired r) | _ \<Rightarrow> False,
       Plain ''canonical source changed after planning or source update'')]"

definition helper_validate :: "digest \<Rightarrow> World \<Rightarrow> Policy \<Rightarrow> HostRecord gomap \<Rightarrow> HostRequest \<Rightarrow> err option" where
  "helper_validate H w p recs r =
     (let d = hq_Draft r; a = d_Action d in
      if d_Target d \<noteq> po_Target p then Some (Plain ''target is not authorized by root policy'')
      else and_then (validateRecovery recs d) (and_then (ValidateMemoryRequest d) (and_then (ValidatePerformanceRequest d)
        (if PerformanceAction a then validatePerformanceRequest H w p r
         else if MemoryAction a then validateMemoryRequest H w p r
         else and_then (first_fail
           [(d_Profile d \<noteq> [] \<and> a \<noteq> ''profile.switch'', Plain ''profile does not belong to this typed operation''),
            (d_Recipe d \<noteq> [] \<or> d_Caches d \<noteq> None, Plain ''host executor does not accept build or cache settings''),
            (a \<notin> set host_actions, Plain ''operation is not in the host executor allowlist''),
            (a = ''profile.switch'' \<and> d_Profile d \<noteq> ''ai'' \<and> d_Profile d \<noteq> ''gaming'' \<and> d_Profile d \<noteq> ''maintenance'',
             Plain ''unsupported profile'')])
         (if a = ''hardware.refresh'' \<or> a = ''cpu-policy.export'' then None
          else and_then (validate_source H w r)
            (if a \<in> set [''serving.configure'', ''resources.configure'', ''serving.start'', ''serving.restart'']
             then validate_serving H (wo_Now w) p (hq_Desired r) else None))))))"

definition visibleResult :: "Executor \<Rightarrow> HostRecord \<Rightarrow> HostResult" where
  "visibleResult e r =
     (if hx_JournalFailed e \<and> completed_restore r
      then \<lparr>hr_ID = hr_ID (re_Result r), hr_State = ''recovery-required'', hr_Phase = ''recovery-settlement-pending'',
        hr_Message = ''Restore effects were durably recorded, but prior recovery records were not durably settled; restart the helper after persistence is restored.'',
        hr_Data = []\<rparr>
      else re_Result r)"

definition Status :: "Executor \<Rightarrow> string \<Rightarrow> err + HostResult" where
  "Status e k = (case map_of (hx_Records e) k of
       None \<Rightarrow> Inl (Plain ''unknown helper operation'')
     | Some r \<Rightarrow> Inr (visibleResult e r))"

text \<open>A submission also returns the record whose completion runs in the background, if one was started.\<close>

definition accepted_record :: "digest \<Rightarrow> time \<Rightarrow> 32 word \<Rightarrow> Policy \<Rightarrow> HostRequest \<Rightarrow> HostRecord" where
  "accepted_record H started peer p req = \<lparr>re_Request = req,
     re_Result = \<lparr>hr_ID = hq_ID req, hr_State = ''running'', hr_Phase = ''intent-persisted'',
       hr_Message = ''Root helper accepted the exact typed operation; disconnecting does not cancel it.'', hr_Data = []\<rparr>,
     re_PeerUID = peer, re_PolicyRevision = policyRevision H p, re_StartedAt = started, re_UpdatedAt = zero_time\<rparr>"

definition submit_guards :: "digest \<Rightarrow> World \<Rightarrow> HostRequest \<Rightarrow> Executor \<Rightarrow> err option" where
  "submit_guards H w req e =
     and_then (first_fail
       [(hx_Active e \<or> hx_JournalFailed e, Plain ''executor is busy or fenced by unavailable journal persistence''),
        (int (length (hx_Records e)) \<ge> po_MaxRecords (hx_Policy e),
         Plain ''root journal retention limit reached; archive it during stopped-service maintenance'')])
     (and_then (helper_validate H w (hx_Policy e) (hx_Records e) req)
     (and_then (wo_Verify w) (wo_Lock w)))"

definition Submit :: "digest \<Rightarrow> World \<Rightarrow> time \<Rightarrow> time \<Rightarrow> 32 word \<Rightarrow> HostRequest \<Rightarrow> Executor
    \<Rightarrow> Executor \<times> (err + HostResult) \<times> HostRecord option" where
  "Submit H w started saved peer req e =
     (if peer \<noteq> po_AllowedUID (hx_Policy e)
      then (e, Inl (Plain ''Unix peer is not the configured management service UID''), None)
      else if hq_Version req \<noteq> ContractVersion \<or> \<not> validID (hq_ID req) \<or> \<not> safeIdentity (hq_ExecutionIdentity req) \<or>
        hq_PayloadHash req \<noteq> RequestHash H req
      then (e, Inl (Plain ''invalid helper contract, operation identity or payload hash''), None)
      else case map_of (hx_Records e) (hq_ID req) of
             Some old \<Rightarrow>
               if hq_PayloadHash (re_Request old) \<noteq> hq_PayloadHash req \<or> re_PeerUID old \<noteq> peer
               then (e, Inl (Plain ''operation ID payload conflict''), None)
               else (e, Inr (visibleResult e old), None)
           | None \<Rightarrow>
               (case submit_guards H w req e of
                  Some x \<Rightarrow> (e, Inl x, None)
                | None \<Rightarrow>
                    (let r = accepted_record H started peer (hx_Policy e) req in
                     case save saved r e of
                       (e', Some x) \<Rightarrow> (e', Inl x, None)
                     | (e', None) \<Rightarrow> (e'\<lparr>hx_Active := True\<rparr>, Inr (re_Result r), Some r))))"

section \<open>Completion\<close>

text \<open>
  The outcome of the adapter: its data and its error, which may be the typed refusal raised before
  any effect started.
\<close>

datatype run_error = PreflightFailure string | EffectFailure string

fun run_message :: "run_error \<Rightarrow> string" where
  "run_message (PreflightFailure m) = m"
| "run_message (EffectFailure m) = m"

definition run_result :: "string \<Rightarrow> run_error option \<Rightarrow> HostRecord \<Rightarrow> HostResult" where
  "run_result data x r =
     (let a = d_Action (re_Draft r); res = (re_Result r)\<lparr>hr_Data := data\<rparr> in
      case x of
        Some err0 \<Rightarrow>
          if readOnlyAction a
          then res\<lparr>hr_State := ''failed'', hr_Phase := ''read-only-adapter-failed'', hr_Message := run_message err0\<rparr>
          else (case err0 of
                  PreflightFailure m \<Rightarrow> res\<lparr>hr_State := ''failed'', hr_Phase := ''preflight-refused'', hr_Message := m\<rparr>
                | EffectFailure m \<Rightarrow> res\<lparr>hr_State := ''recovery-required'', hr_Phase := ''external-effect-uncertain'',
                    hr_Message := m @ ''; inspect root journal and legacy session state, then explicitly restore operation '' @ re_ID r\<rparr>)
      | None \<Rightarrow>
          if EvidenceAction a
          then res\<lparr>hr_State := ''succeeded'', hr_Phase := ''analysis-complete'',
            hr_Message := ''Read-only analysis/report completed; inspect its status for refusals or incomplete evidence. No source, workload, cache or qualification was changed.''\<rparr>
          else res\<lparr>hr_State := ''succeeded'', hr_Phase := ''effects-complete'',
            hr_Message := ''Validated operation completed; physical GPU release is a point-in-time observation.''\<rparr>)"

definition finish_commit :: "time \<Rightarrow> (string \<Rightarrow> time) \<Rightarrow> HostRecord \<Rightarrow> Executor \<Rightarrow> Executor" where
  "finish_commit now clk r e =
     (case save now r e of
        (e', Some _) \<Rightarrow> e'
      | (e', None) \<Rightarrow>
          if re_State r = ''succeeded'' \<and> d_RecoveryID (re_Draft r) \<noteq> [] then fst (settleRecoveryChain clk (re_ID r) e') else e')"

definition helper_finish :: "time \<Rightarrow> time \<Rightarrow> (string \<Rightarrow> time) \<Rightarrow> string \<Rightarrow> run_error option \<Rightarrow> err option \<Rightarrow> HostRecord \<Rightarrow> Executor \<Rightarrow> Executor" where
  "helper_finish t1 t2 clk data x finalize r0 e =
     (let r = r0\<lparr>re_Result := run_result data x r0\<rparr> in
      (if re_State r = ''succeeded'' \<and> \<not> readOnlyAction (d_Action (re_Draft r))
       then case save t1 (r\<lparr>re_Result := (re_Result r)\<lparr>hr_State := ''running'', hr_Phase := ''build-gate-disposition''\<rparr>\<rparr>) e of
              (e', Some _) \<Rightarrow> e'
            | (e', None) \<Rightarrow> finish_commit t2 clk
                (if finalize \<noteq> None
                 then r\<lparr>re_Result := (re_Result r)\<lparr>hr_State := ''recovery-required'', hr_Phase := ''build-gate-disposition'',
                   hr_Message := ''External effects completed but build inhibition could not be safely finalized; owner inspection is required.''\<rparr>\<rparr>
                 else r) e'
       else finish_commit t2 clk r e)\<lparr>hx_Active := False\<rparr>)"

end
