(* ===== verification/Helper.thy ===== *)
theory Helper
  imports Executor
begin

text \<open>
  The helper as a state machine: requests are submitted, the running one completes, the process
  crashes and restarts on its journal. The journal's own order, \<open>journal_step\<close>, says what may
  happen to a durable record: nothing, the end of a running request, or the settlement of an
  unresolved one by a later completed restore of its chain.
\<close>

section \<open>The helper's journal is a fenced recovery journal\<close>

definition helper_admits :: "HostRecord gomap \<Rightarrow> Draft \<Rightarrow> string \<Rightarrow> bool" where
  "helper_admits recs d executing \<longleftrightarrow> validateRecovery recs d = None"

interpretation helper: recovery_fence "\<lambda>recs. recs" record_link recoveryLinks unresolved "\<lambda>_. False" helper_admits
proof unfold_locales
  fix recs d executing k r
  assume adm: "helper_admits recs d executing" and k: "(k, r) \<in> set recs" "unresolved r"
  show "k = executing" if "d_RecoveryID d = []"
    using adm k that by (fastforce simp: helper_admits_def validateRecovery_def list_ex_iff)
  show "\<exists>ch. RecoveryChain (recoveryLinks recs) (d_RecoveryID d) = Inr ch \<and> k \<in> set ch" if "d_RecoveryID d \<noteq> []"
    using adm k that by (fastforce simp: helper_admits_def validateRecovery_def list_ex_iff split: if_splits option.splits sum.splits)
qed (simp add: recoveryLinks_def)

section \<open>Records of the journal\<close>

definition keyed_records :: "HostRecord gomap \<Rightarrow> bool" where
  "keyed_records recs \<longleftrightarrow> wf_map recs \<and> (\<forall>(k, r) \<in> set recs. re_ID r = k)"

lemma journal_name_inj [simp]: "journal_name j = journal_name k \<longleftrightarrow> j = k"
  by (simp add: journal_name_def)

lemma journal_name_suffix [simp]: "HasSuffix (journal_name k) ''.json''"
  by (simp add: journal_name_def HasSuffix_def)

lemma record_keyed: "keyed_records recs \<Longrightarrow> map_of recs k = Some r \<Longrightarrow> re_ID r = k"
  by (auto simp: keyed_records_def dest: map_of_SomeD)

lemma keyed_records_put: "keyed_records recs \<Longrightarrow> keyed_records (AList.update (re_ID r) r recs)"
  unfolding keyed_records_def
  by (auto dest!: all_entries_update [where P = "\<lambda>k r. re_ID r = k", rotated 2])

definition on_disk :: "journal \<Rightarrow> string \<Rightarrow> HostRecord option" where
  "on_disk d k = (case map_of d (journal_name k) of Some (Some r) \<Rightarrow> Some r | _ \<Rightarrow> None)"

definition synced :: "Executor \<Rightarrow> bool" where
  "synced e \<longleftrightarrow> (\<forall>k. map_of (hx_Disk e) (journal_name k) = map_option Some (map_of (hx_Records e) k))"

definition sound :: "Executor \<Rightarrow> bool" where
  "sound e \<longleftrightarrow> keyed_records (hx_Records e) \<and> wf_map (hx_Disk e) \<and> (\<not> hx_JournalFailed e \<longrightarrow> synced e)"

lemma synced_on_disk: "synced e \<Longrightarrow> on_disk (hx_Disk e) k = map_of (hx_Records e) k"
  by (auto simp: synced_def on_disk_def split: option.splits)

lemma on_disk_update [simp]: "on_disk (AList.update (journal_name k) (Some r) d) = (on_disk d)(k \<mapsto> r)"
  by (auto simp: on_disk_def fun_eq_iff)

text \<open>The recovery links of the records, as a function: what a chain depends on.\<close>

definition links_of :: "(string \<Rightarrow> HostRecord option) \<Rightarrow> string \<Rightarrow> RecoveryLink option" where
  "links_of m k = map_option record_link (m k)"

lemma map_of_recoveryLinks: "map_of (recoveryLinks recs) = links_of (map_of recs)"
  by (simp add: links_of_def helper.links_lookup fun_eq_iff)

text \<open>Two records of a journal belong to one chain: they have the same root in some table of their links.\<close>

definition same_chain :: "(string \<Rightarrow> HostRecord option) \<Rightarrow> string \<Rightarrow> string \<Rightarrow> bool" where
  "same_chain m j k \<longleftrightarrow> (\<exists>links r. map_of links = links_of m \<and> RecoveryRoot links j = Inr r \<and> RecoveryRoot links k = Inr r)"

lemma RecoveryRoot_cong: "map_of l = map_of l' \<Longrightarrow> RecoveryRoot l a = Inr r \<longleftrightarrow> RecoveryRoot l' a = Inr r"
  by (metis RecoveryRoot_mono map_le_refl)

lemma same_chain_member:
  "RecoveryChain (recoveryLinks recs) j = Inr ch \<Longrightarrow> k \<in> set ch \<Longrightarrow> same_chain (map_of recs) j k"
  by (auto simp: same_chain_def RecoveryChain_members map_of_recoveryLinks [symmetric])

lemma chain_member:
  assumes "same_chain (map_of recs) j k"
  obtains ch where "RecoveryChain (recoveryLinks recs) j = Inr ch" "k \<in> set ch"
proof -
  from assms obtain links r where l: "map_of links = links_of (map_of recs)" "RecoveryRoot links j = Inr r" "RecoveryRoot links k = Inr r"
    by (auto simp: same_chain_def)
  then have r: "RecoveryRoot (recoveryLinks recs) j = Inr r" "RecoveryRoot (recoveryLinks recs) k = Inr r"
    using RecoveryRoot_cong [of links "recoveryLinks recs"] by (auto simp: map_of_recoveryLinks)
  then obtain ch where "RecoveryChain (recoveryLinks recs) j = Inr ch" using RecoveryChain_defined by blast
  with r that show thesis by (auto simp: RecoveryChain_members)
qed

section \<open>The order of the journal\<close>

definition resolved_by :: "(string \<Rightarrow> HostRecord option) \<Rightarrow> string \<Rightarrow> HostRecord \<Rightarrow> HostRecord \<Rightarrow> bool" where
  "resolved_by m k r r' \<longleftrightarrow> unresolved r \<and> re_State r' = ''failed'' \<and>
     (\<exists>j rj. m j = Some rj \<and> completed_restore rj \<and> hr_Phase (re_Result r') = ''recovered-by-'' @ j \<and>
        re_StartedAt r < re_StartedAt rj \<and> same_chain m j k)"

definition moves :: "(string \<Rightarrow> HostRecord option) \<Rightarrow> string \<Rightarrow> HostRecord \<Rightarrow> HostRecord \<Rightarrow> bool" where
  "moves m k r r' \<longleftrightarrow> re_Request r' = re_Request r \<and> re_StartedAt r' = re_StartedAt r \<and> re_PeerUID r' = re_PeerUID r \<and>
     (re_Result r' = re_Result r \<or> in_progress r \<or> resolved_by m k r r')"

definition journal_step :: "(string \<Rightarrow> HostRecord option) \<Rightarrow> (string \<Rightarrow> HostRecord option) \<Rightarrow> bool" where
  "journal_step m m' \<longleftrightarrow> (\<forall>k r. m k = Some r \<longrightarrow> (\<exists>r'. m' k = Some r' \<and> moves m' k r r'))"

lemma moves_refl [simp]: "moves m k r r"
  by (simp add: moves_def)

lemma journal_step_refl [simp]: "journal_step m m"
  by (simp add: journal_step_def)

lemma finite_map_list:
  assumes "finite (dom m)"
  obtains xs where "map_of xs = m"
proof -
  from finite_list [OF assms] obtain ks where ks: "set ks = dom m" ..
  have "map_of (map (\<lambda>k. (k, the (m k))) ks) k = m k" for k
    unfolding map_of_map_restrict ks restrict_map_def comp_def by (metis domD domIff option.sel)
  then have "map_of (map (\<lambda>k. (k, the (m k))) ks) = m" by (rule ext)
  then show thesis by (rule that)
qed

lemma same_chain_grow:
  assumes "same_chain m j k" and "journal_step m m'" and "finite (dom m')"
  shows "same_chain m' j k"
proof -
  from assms(1) obtain links r where l: "map_of links = links_of m" "RecoveryRoot links j = Inr r" "RecoveryRoot links k = Inr r"
    by (auto simp: same_chain_def)
  have "finite (dom (links_of m'))" using assms(3) by (simp add: links_of_def dom_def)
  then obtain links' where l': "map_of links' = links_of m'" by (rule finite_map_list)
  have "links_of m \<subseteq>\<^sub>m links_of m'"
    using assms(2) by (fastforce simp: map_le_def links_of_def journal_step_def moves_def record_link_def)
  then have "map_of links \<subseteq>\<^sub>m map_of links'" using l(1) l' by simp
  then have "RecoveryRoot links' j = Inr r" "RecoveryRoot links' k = Inr r" using l(2,3) RecoveryRoot_mono by blast+
  with l' show ?thesis by (auto simp: same_chain_def)
qed

lemma resolved_by_grow:
  assumes "resolved_by m k r r'" and "journal_step m m'" and "finite (dom m')"
  shows "resolved_by m' k r r'"
proof -
  from assms(1) obtain j rj where j: "m j = Some rj" "completed_restore rj" "hr_Phase (re_Result r') = ''recovered-by-'' @ j"
      "re_StartedAt r < re_StartedAt rj" "same_chain m j k" "unresolved r" "re_State r' = ''failed''"
    by (auto simp: resolved_by_def)
  from assms(2) j(1) obtain rj' where j': "m' j = Some rj'" "moves m' j rj rj'" by (auto simp: journal_step_def)
  then have "completed_restore rj'" "re_StartedAt rj' = re_StartedAt rj"
    using j(2) by (auto simp: moves_def completed_restore_def in_progress_def resolved_by_def unresolved_def)
  with j j'(1) same_chain_grow [OF j(5) assms(2,3)] show ?thesis unfolding resolved_by_def by metis
qed

lemma journal_step_trans:
  assumes "journal_step m m'" and "journal_step m' m''" and "finite (dom m'')"
  shows "journal_step m m''"
  unfolding journal_step_def
proof (intro allI impI)
  fix k r assume "m k = Some r"
  with assms(1) obtain r' where r': "m' k = Some r'" "moves m' k r r'" by (auto simp: journal_step_def)
  with assms(2) obtain r'' where r'': "m'' k = Some r''" "moves m'' k r' r''" by (auto simp: journal_step_def)
  have "moves m'' k r r''"
  proof (cases "re_Result r' = re_Result r \<or> in_progress r")
    case True
    with r'(2) r''(2) show ?thesis
      by (auto simp: moves_def resolved_by_def unresolved_def in_progress_def)
  next
    case False
    with r'(2) have res: "resolved_by m' k r r'" by (simp add: moves_def)
    then have "re_Result r'' = re_Result r'"
      using r''(2) by (auto simp: moves_def resolved_by_def unresolved_def in_progress_def)
    moreover have "resolved_by m'' k r r'" using res assms(2,3) by (rule resolved_by_grow)
    ultimately show ?thesis using r'(2) r''(2) by (auto simp: moves_def resolved_by_def)
  qed
  with r''(1) show "\<exists>r'. m'' k = Some r' \<and> moves m'' k r r'" by blast
qed

lemma finite_on_disk [simp]: "finite (dom (on_disk d))"
proof -
  have "journal_name ` dom (on_disk d) \<subseteq> fst ` set d"
    by (auto simp: on_disk_def split: option.splits dest: map_of_in_keys)
  then have "finite (journal_name ` dom (on_disk d))" by (rule finite_subset) simp
  then show ?thesis by (rule finite_imageD) (simp add: inj_on_def)
qed

section \<open>Saving and settling\<close>

lemma save_effects:
  assumes "save now r e = (e', x)"
  shows "hx_Policy e' = hx_Policy e" "hx_Active e' = hx_Active e"
    "x = None \<longleftrightarrow> hx_JournalFailed e' = hx_JournalFailed e \<and> hx_Write e (r\<lparr>re_UpdatedAt := now\<rparr>) = Written"
    "x \<noteq> None \<Longrightarrow> hx_JournalFailed e' \<and> hx_Records e' = hx_Records e"
    "x = None \<Longrightarrow> hx_Records e' = AList.update (re_ID r) (r\<lparr>re_UpdatedAt := now\<rparr>) (hx_Records e)"
    "hx_Disk e' = hx_Disk e \<or> hx_Disk e' = AList.update (journal_name (re_ID r)) (Some (r\<lparr>re_UpdatedAt := now\<rparr>)) (hx_Disk e)"
    "x = None \<Longrightarrow> hx_Disk e' = AList.update (journal_name (re_ID r)) (Some (r\<lparr>re_UpdatedAt := now\<rparr>)) (hx_Disk e)"
  using assms by (auto simp: save_def Let_def split: write_outcome.splits)

lemma save_sound:
  assumes "save now r e = (e', x)" and "sound e" and "\<not> hx_JournalFailed e"
  shows "sound e'" "hx_JournalFailed e' \<longleftrightarrow> x \<noteq> None"
proof -
  show jf: "hx_JournalFailed e' \<longleftrightarrow> x \<noteq> None" using save_effects(3,4) [OF assms(1)] assms(3) by auto
  have wf: "wf_map (hx_Disk e')" using save_effects(6) [OF assms(1)] assms(2) by (auto simp: sound_def)
  show "sound e'"
  proof (cases x)
    case None
    have "keyed_records (hx_Records e')"
      using keyed_records_put [of "hx_Records e" "r\<lparr>re_UpdatedAt := now\<rparr>"] save_effects(5) [OF assms(1) None] assms(2) by (simp add: sound_def)
    moreover have "synced e'"
      using assms(2,3) by (auto simp: sound_def synced_def save_effects(5,7) [OF assms(1) None])
    ultimately show ?thesis using wf by (simp add: sound_def)
  next
    case (Some y)
    with save_effects(4) [OF assms(1)] wf assms(2) show ?thesis by (simp add: sound_def)
  qed
qed

lemma save_journal_step:
  assumes "save now r e = (e', x)" and "sound e" and "\<not> hx_JournalFailed e"
    and "\<And>old m. map_of (hx_Records e) (re_ID r) = Some old \<Longrightarrow>
      m = (on_disk (hx_Disk e))(re_ID r \<mapsto> r\<lparr>re_UpdatedAt := now\<rparr>) \<Longrightarrow> moves m (re_ID r) old (r\<lparr>re_UpdatedAt := now\<rparr>)"
  shows "journal_step (on_disk (hx_Disk e)) (on_disk (hx_Disk e'))"
proof -
  have sy: "on_disk (hx_Disk e) k = map_of (hx_Records e) k" for k
    using assms(2,3) by (simp add: sound_def synced_on_disk)
  from save_effects(6) [OF assms(1)] show ?thesis
  proof
    assume d: "hx_Disk e' = AList.update (journal_name (re_ID r)) (Some (r\<lparr>re_UpdatedAt := now\<rparr>)) (hx_Disk e)"
    have "moves (on_disk (hx_Disk e')) (re_ID r) old (r\<lparr>re_UpdatedAt := now\<rparr>)" if "on_disk (hx_Disk e) (re_ID r) = Some old" for old
      using assms(4) that by (simp add: sy d)
    then show ?thesis by (auto simp: journal_step_def d)
  qed simp
qed

text \<open>What settlement relies on: the completed restore is recorded and the others of its chain started before it.\<close>

definition settling :: "string \<Rightarrow> string list \<Rightarrow> Executor \<Rightarrow> bool" where
  "settling j ks e \<longleftrightarrow> sound e \<and> \<not> hx_JournalFailed e \<and>
     (\<exists>rj. map_of (hx_Records e) j = Some rj \<and> completed_restore rj \<and>
        (\<forall>k \<in> set ks. k \<noteq> j \<and> same_chain (map_of (hx_Records e)) j k \<and>
           (\<forall>r. map_of (hx_Records e) k = Some r \<longrightarrow> unresolved r \<longrightarrow> re_StartedAt r < re_StartedAt rj)))"

lemma recovered_by_simps [simp]:
  "re_Request (recovered_by j r) = re_Request r" "re_StartedAt (recovered_by j r) = re_StartedAt r"
  "re_PeerUID (recovered_by j r) = re_PeerUID r" "re_State (recovered_by j r) = ''failed''"
  "hr_Phase (re_Result (recovered_by j r)) = ''recovered-by-'' @ j"
  by (simp_all add: recovered_by_def)

lemma links_unchanged:
  assumes "map_of recs k = Some old" and "re_Request r = re_Request old"
  shows "links_of ((map_of recs)(k \<mapsto> r)) = links_of (map_of recs)"
  using assms by (auto simp: links_of_def record_link_def fun_eq_iff)

lemma same_chain_cong: "links_of m = links_of m' \<Longrightarrow> same_chain m j k = same_chain m' j k"
  by (simp add: same_chain_def)

lemma settle_one:
  assumes "settling j (k # ks) e" and "map_of (hx_Records e) k = Some old" and "unresolved old"
    and "save now (recovered_by j old) e = (e', x)"
  shows "journal_step (on_disk (hx_Disk e)) (on_disk (hx_Disk e'))" and "sound e'" and "x = None \<Longrightarrow> settling j ks e'"
proof -
  note s = assms(1) [unfolded settling_def]
  have snd: "sound e" "\<not> hx_JournalFailed e" using s by auto
  obtain rj where rj: "map_of (hx_Records e) j = Some rj" "completed_restore rj" "k \<noteq> j" "same_chain (map_of (hx_Records e)) j k"
    "re_StartedAt old < re_StartedAt rj"
    and rest: "\<And>c r. c \<in> set ks \<Longrightarrow> c \<noteq> j \<and> same_chain (map_of (hx_Records e)) j c \<and>
       (map_of (hx_Records e) c = Some r \<longrightarrow> unresolved r \<longrightarrow> re_StartedAt r < re_StartedAt rj)"
    using s assms(2,3) by auto
  have id: "re_ID old = k" using snd(1) assms(2) by (auto simp: sound_def intro: record_keyed)
  have same: "on_disk (hx_Disk e) = map_of (hx_Records e)" using snd by (auto simp: sound_def synced_on_disk)
  have lk: "links_of ((map_of (hx_Records e))(k \<mapsto> (recovered_by j old)\<lparr>re_UpdatedAt := now\<rparr>)) = links_of (map_of (hx_Records e))"
    using assms(2) by (rule links_unchanged) simp
  show "journal_step (on_disk (hx_Disk e)) (on_disk (hx_Disk e'))"
  proof (rule save_journal_step [OF assms(4) snd])
    fix o1 m assume o1: "map_of (hx_Records e) (re_ID (recovered_by j old)) = Some o1"
      and m: "m = (on_disk (hx_Disk e))(re_ID (recovered_by j old) \<mapsto> (recovered_by j old)\<lparr>re_UpdatedAt := now\<rparr>)"
    have "o1 = old" using o1 assms(2) id by simp
    moreover have "same_chain m j k" using rj(4) lk by (simp add: m id same same_chain_def)
    moreover have "m j = Some rj" using rj by (simp add: m id same)
    ultimately show "moves m (re_ID (recovered_by j old)) o1 ((recovered_by j old)\<lparr>re_UpdatedAt := now\<rparr>)"
      using rj(2,5) assms(3) id by (auto simp: moves_def resolved_by_def)
  qed
  show "sound e'" using save_sound(1) [OF assms(4) snd] .
  show "settling j ks e'" if x: "x = None"
  proof -
    have recs: "map_of (hx_Records e') = (map_of (hx_Records e))(k \<mapsto> (recovered_by j old)\<lparr>re_UpdatedAt := now\<rparr>)"
      using save_effects(5) [OF assms(4) x] id by simp
    have "unresolved r \<Longrightarrow> map_of (hx_Records e') c = Some r \<Longrightarrow> c \<in> set ks \<Longrightarrow> re_StartedAt r < re_StartedAt rj" for c r
      using rest [of c r] by (auto simp: recs unresolved_def split: if_splits)
    moreover have "same_chain (map_of (hx_Records e')) j c" if "c \<in> set ks" for c
      using rest [OF that] lk by (simp add: recs same_chain_def)
    ultimately show ?thesis
      unfolding settling_def using save_sound [OF assms(4) snd] x rj(1-3) rest by (auto simp: recs)
  qed
qed

text \<open>Settlement changes nothing but unresolved records, which it fails.\<close>

definition settles :: "Executor \<Rightarrow> Executor \<Rightarrow> bool" where
  "settles e e' \<longleftrightarrow> (\<forall>k. map_of (hx_Records e') k = map_of (hx_Records e) k \<or>
     (\<exists>old r. map_of (hx_Records e) k = Some old \<and> unresolved old \<and> map_of (hx_Records e') k = Some r \<and>
        re_Request r = re_Request old \<and> re_State r = ''failed''))"

lemma settles_refl [simp]: "settles e e"
  by (simp add: settles_def)

lemma settles_same: "hx_Records e' = hx_Records e \<Longrightarrow> settles e e'"
  by (simp add: settles_def)

lemma settles_trans: "settles e e' \<Longrightarrow> settles e' e'' \<Longrightarrow> settles e e''"
  unfolding settles_def by (metis (no_types) option.inject)

lemma settles_dom: "settles e e' \<Longrightarrow> dom (map_of (hx_Records e')) = dom (map_of (hx_Records e))"
proof -
  assume "settles e e'"
  then have "map_of (hx_Records e') k = None \<longleftrightarrow> map_of (hx_Records e) k = None" for k
    unfolding settles_def by (metis option.distinct(1))
  then show ?thesis unfolding dom_def by simp
qed

lemma settles_links:
  assumes "settles e e'"
  shows "links_of (map_of (hx_Records e')) = links_of (map_of (hx_Records e))"
proof
  fix k
  from assms have "map_of (hx_Records e') k = map_of (hx_Records e) k \<or>
     (\<exists>old r. map_of (hx_Records e) k = Some old \<and> map_of (hx_Records e') k = Some r \<and> re_Request r = re_Request old)"
    unfolding settles_def by blast
  then show "links_of (map_of (hx_Records e')) k = links_of (map_of (hx_Records e)) k"
    by (auto simp: links_of_def record_link_def)
qed

lemma settles_back:
  assumes "settles e e'" and "map_of (hx_Records e') k = Some r" and "re_State r \<noteq> ''failed''"
  shows "map_of (hx_Records e) k = Some r"
  using assms unfolding settles_def by (metis option.inject)

lemma settles_unresolved:
  "settles e e' \<Longrightarrow> map_of (hx_Records e') k = Some r \<Longrightarrow> unresolved r \<Longrightarrow> map_of (hx_Records e) k = Some r"
  using settles_back [of e e' k r] by (auto simp: unresolved_def)

lemma settles_kept:
  "settles e e' \<Longrightarrow> map_of (hx_Records e) k = Some r \<Longrightarrow> \<not> unresolved r \<Longrightarrow> map_of (hx_Records e') k = Some r"
  unfolding settles_def by (metis option.inject)

lemma save_settles:
  assumes "sound e" and "map_of (hx_Records e) k = Some old" and "unresolved old" and "save now (recovered_by j old) e = (e', x)"
  shows "settles e e'"
proof (cases x)
  case None
  have "re_ID old = k" using assms(1,2) by (auto simp: sound_def intro: record_keyed)
  with assms(2,3) show ?thesis by (auto simp: settles_def save_effects(5) [OF assms(4) None])
next
  case (Some y)
  with save_effects(4) [OF assms(4)] show ?thesis by (simp add: settles_same)
qed

lemma record_at_unresolved:
  assumes "unresolved (record_at e k)"
  shows "map_of (hx_Records e) k = Some (record_at e k)"
  using assms by (auto simp: record_at_def unresolved_def zero_host_record_def split: option.splits)

lemma settle_records_spec:
  assumes "settling j ks e" and "settle_records clk j ks e = (e', x)"
  shows "journal_step (on_disk (hx_Disk e)) (on_disk (hx_Disk e')) \<and> sound e' \<and> (hx_JournalFailed e' \<longleftrightarrow> x \<noteq> None) \<and>
    settles e e' \<and> (x = None \<longrightarrow> (\<forall>k \<in> set ks. \<not> unresolved (record_at e' k)))"
  using assms
proof (induction ks arbitrary: e)
  case Nil
  then show ?case by (auto simp: settling_def)
next
  case (Cons k ks)
  have tail: "settling j ks e" using Cons.prems(1) by (auto simp: settling_def)
  show ?case
  proof (cases "unresolved (record_at e k)")
    case False
    with Cons.prems(2) have "settle_records clk j ks e = (e', x)" by simp
    note IH = Cons.IH [OF tail this]
    moreover have "\<not> unresolved (record_at e' k)"
      using False IH settles_unresolved [of e e' k] record_at_unresolved [of e' k] by (auto simp: record_at_def)
    ultimately show ?thesis by simp
  next
    case True
    note old = record_at_unresolved [OF True]
    obtain e1 y where sv: "save (clk k) (recovered_by j (record_at e k)) e = (e1, y)" by fastforce
    note one = settle_one [OF Cons.prems(1) old True sv]
    have snd: "sound e" "\<not> hx_JournalFailed e" using Cons.prems(1) by (auto simp: settling_def)
    have st: "settles e e1" by (rule save_settles [OF snd(1) old True sv])
    show ?thesis
    proof (cases y)
      case (Some z)
      with True sv Cons.prems(2) have "e' = e1" "x = Some z" by auto
      with one st save_sound(2) [OF sv snd] Some show ?thesis by simp
    next
      case None
      with True sv Cons.prems(2) have rest: "settle_records clk j ks e1 = (e', x)" by simp
      note IH = Cons.IH [OF one(3) [OF None] rest]
      have "re_ID (record_at e k) = k" using snd(1) old by (auto simp: sound_def intro: record_keyed)
      then have "\<not> unresolved (record_at e1 k)"
        by (simp add: record_at_def save_effects(5) [OF sv None] unresolved_def)
      then have "\<not> unresolved (record_at e' k)"
        using IH settles_unresolved [of e1 e' k] record_at_unresolved [of e' k] by (auto simp: record_at_def)
      with IH one(1) st show ?thesis
        using journal_step_trans settles_trans by (auto intro: journal_step_trans settles_trans)
    qed
  qed
qed

definition settled_chain :: "Executor \<Rightarrow> string \<Rightarrow> bool" where
  "settled_chain e j \<longleftrightarrow> (\<exists>ch. RecoveryChain (recoveryLinks (hx_Records e)) j = Inr ch \<and>
     (\<forall>k \<in> set ch. k \<noteq> j \<longrightarrow> \<not> unresolved (record_at e k)))"

lemma settles_chain:
  assumes "settles e e'" and "settled_chain e j"
  shows "settled_chain e' j"
proof -
  obtain ch where ch: "RecoveryChain (recoveryLinks (hx_Records e)) j = Inr ch" "\<And>k. k \<in> set ch \<Longrightarrow> k \<noteq> j \<Longrightarrow> \<not> unresolved (record_at e k)"
    using assms(2) by (auto simp: settled_chain_def)
  have "same_chain (map_of (hx_Records e')) j j"
    using same_chain_member [OF ch(1) RecoveryChain_self [OF ch(1)]] settles_links [OF assms(1)] same_chain_cong by blast
  then obtain ch' where ch': "RecoveryChain (recoveryLinks (hx_Records e')) j = Inr ch'" by (rule chain_member)
  have "\<not> unresolved (record_at e' k)" if "k \<in> set ch'" "k \<noteq> j" for k
  proof
    assume u: "unresolved (record_at e' k)"
    have "same_chain (map_of (hx_Records e)) j k"
      using same_chain_member [OF ch' that(1)] settles_links [OF assms(1)] same_chain_cong by blast
    then have "k \<in> set ch" using ch(1) by (metis chain_member sum.inject(2))
    moreover have "unresolved (record_at e k)"
      using settles_unresolved [OF assms(1) record_at_unresolved [OF u] u] u by (simp add: record_at_def)
    ultimately show False using ch(2) that(2) by blast
  qed
  with ch' show ?thesis by (auto simp: settled_chain_def)
qed

lemma settleRecoveryChain_spec:
  assumes "sound e" and "\<not> hx_JournalFailed e" and "map_of (hx_Records e) j = Some rj" and "completed_restore rj"
    and "settleRecoveryChain clk j e = (e', x)"
  shows "journal_step (on_disk (hx_Disk e)) (on_disk (hx_Disk e')) \<and> sound e' \<and> (hx_JournalFailed e' \<longleftrightarrow> x \<noteq> None) \<and>
    settles e e' \<and> (x = None \<longrightarrow> settled_chain e' j)"
proof -
  consider (refused) "e' = e\<lparr>hx_JournalFailed := True\<rparr>" "x \<noteq> None"
    | (settled) ch where "RecoveryChain (recoveryLinks (hx_Records e)) j = Inr ch"
        "\<And>k. k \<in> set ch \<Longrightarrow> k \<noteq> j \<Longrightarrow> \<not> unordered rj (record_at e k)"
        "settle_records clk j (sort (filter (\<lambda>k. k \<noteq> j) ch)) e = (e', x)"
    using assms(3,5) unfolding settleRecoveryChain_def
    by (auto simp: list_ex_iff record_at_def split: sum.splits if_splits)
  then show ?thesis
  proof cases
    case refused
    with assms(1) show ?thesis by (auto simp: sound_def settles_same)
  next
    case settled
    let ?ks = "sort (filter (\<lambda>k. k \<noteq> j) ch)"
    have "re_StartedAt r < re_StartedAt rj" if "k \<in> set ch" "k \<noteq> j" "map_of (hx_Records e) k = Some r" "unresolved r" for k r
      using settled(2) [OF that(1,2)] that(3,4) by (simp add: unordered_def record_at_def)
    then have "settling j ?ks e"
      unfolding settling_def using assms(1-4) same_chain_member [OF settled(1)] by auto
    note spec = settle_records_spec [OF this settled(3)]
    have "settled_chain e' j" if "x = None"
    proof -
      have "same_chain (map_of (hx_Records e')) j j"
        using same_chain_member [OF settled(1) RecoveryChain_self [OF settled(1)]] settles_links spec same_chain_cong by blast
      then obtain ch' where ch': "RecoveryChain (recoveryLinks (hx_Records e')) j = Inr ch'" by (rule chain_member)
      have "k \<in> set ch" if "k \<in> set ch'" for k
        using same_chain_member [OF ch' that] settles_links spec same_chain_cong settled(1) by (metis chain_member sum.inject(2))
      with ch' spec that show ?thesis by (auto simp: settled_chain_def)
    qed
    with spec show ?thesis by blast
  qed
qed

lemma record_at_completed:
  assumes "completed_restore (record_at e k)"
  shows "map_of (hx_Records e) k = Some (record_at e k)"
  using assms by (auto simp: record_at_def completed_restore_def zero_host_record_def split: option.splits)

lemma roll_forward_spec:
  assumes "sound e" and "\<not> hx_JournalFailed e" and "roll_forward clk ks e = (e', x)"
  shows "journal_step (on_disk (hx_Disk e)) (on_disk (hx_Disk e')) \<and> sound e' \<and> (hx_JournalFailed e' \<longleftrightarrow> x \<noteq> None) \<and>
    settles e e' \<and> (x = None \<longrightarrow> (\<forall>k \<in> set ks. completed_restore (record_at e' k) \<longrightarrow> settled_chain e' k))"
  using assms
proof (induction ks arbitrary: e)
  case Nil
  then show ?case by simp
next
  case (Cons k ks)
  show ?case
  proof (cases "completed_restore (record_at e k)")
    case False
    with Cons.prems(3) have "roll_forward clk ks e = (e', x)" by simp
    note IH = Cons.IH [OF Cons.prems(1,2) this]
    have "\<not> completed_restore (record_at e' k)"
    proof
      assume c: "completed_restore (record_at e' k)"
      then have "re_State (record_at e' k) \<noteq> ''failed''" by (simp add: completed_restore_def)
      with IH have "map_of (hx_Records e) k = Some (record_at e' k)"
        using settles_back record_at_completed [OF c] by blast
      with False c show False by (simp add: record_at_def)
    qed
    with IH show ?thesis by simp
  next
    case True
    obtain e1 y where st: "settleRecoveryChain clk k e = (e1, y)" by fastforce
    note one = settleRecoveryChain_spec [OF Cons.prems(1,2) record_at_completed [OF True] True st]
    show ?thesis
    proof (cases y)
      case (Some z)
      with True st Cons.prems(3) one show ?thesis by auto
    next
      case None
      with True st Cons.prems(3) have rest: "roll_forward clk ks e1 = (e', x)" by simp
      have snd: "sound e1" "\<not> hx_JournalFailed e1" using one None by auto
      note IH = Cons.IH [OF snd rest]
      have "settled_chain e' k" using one IH None settles_chain by blast
      with IH one show ?thesis by (auto intro: journal_step_trans settles_trans)
    qed
  qed
qed

section \<open>Loading\<close>

definition loading :: "journal \<Rightarrow> Executor \<Rightarrow> bool" where
  "loading ens e \<longleftrightarrow> keyed_records (hx_Records e) \<and> wf_map (hx_Disk e) \<and> \<not> hx_JournalFailed e \<and> distinct (map fst ens) \<and>
     (\<forall>(n, c) \<in> set ens. map_of (hx_Disk e) n = Some c) \<and>
     (\<forall>k. if journal_name k \<in> fst ` set ens then map_of (hx_Records e) k = None
          else map_of (hx_Disk e) (journal_name k) = map_option Some (map_of (hx_Records e) k)) \<and>
     (\<forall>k r. map_of (hx_Records e) k = Some r \<longrightarrow> \<not> in_progress r)"

lemma save_in_progress_step:
  assumes "save now r e = (e', x)" and "on_disk (hx_Disk e) (re_ID r) = Some old" and "in_progress old"
    and "re_Request r = re_Request old" "re_StartedAt r = re_StartedAt old" "re_PeerUID r = re_PeerUID old"
  shows "journal_step (on_disk (hx_Disk e)) (on_disk (hx_Disk e'))"
  using save_effects(6) [OF assms(1)]
proof
  assume d: "hx_Disk e' = AList.update (journal_name (re_ID r)) (Some (r\<lparr>re_UpdatedAt := now\<rparr>)) (hx_Disk e)"
  show ?thesis using assms(2-6) unfolding journal_step_def d on_disk_update by (auto simp: moves_def)
qed simp

lemma interrupted_simps [simp]:
  "re_Request (interrupted r) = re_Request r" "re_StartedAt (interrupted r) = re_StartedAt r"
  "re_PeerUID (interrupted r) = re_PeerUID r" "\<not> in_progress (interrupted r)" "\<not> in_progress ((interrupted r)\<lparr>re_UpdatedAt := t\<rparr>)"
  by (simp_all add: interrupted_def in_progress_def)

lemma loading_skip:
  assumes "loading ((n, c) # rest) e" and "\<not> HasSuffix n ''.json''"
  shows "loading rest e"
proof -
  have "journal_name k \<noteq> n" for k using assms(2) by auto
  with assms(1) show ?thesis unfolding loading_def by simp
qed

lemma loading_put:
  assumes "loading ((journal_name (re_ID r), Some r0) # rest) e" and "\<not> in_progress r"
    and "hx_Records e' = AList.update (re_ID r) r (hx_Records e)"
    and "hx_Disk e' = AList.update (journal_name (re_ID r)) (Some r) (hx_Disk e)" and "\<not> hx_JournalFailed e'"
  shows "loading rest e'"
proof -
  note l = assms(1) [unfolded loading_def]
  have fresh: "journal_name (re_ID r) \<notin> fst ` set rest" using l by simp
  then have "map_of (hx_Disk e') n = Some c" if "(n, c) \<in> set rest" for n c
    using l that by (force simp: assms(4))
  moreover have "if journal_name k \<in> fst ` set rest then map_of (hx_Records e') k = None
      else map_of (hx_Disk e') (journal_name k) = map_option Some (map_of (hx_Records e') k)" for k
    using l fresh by (auto simp: assms(3,4))
  ultimately show ?thesis
    unfolding loading_def using l assms(2,3,4,5) keyed_records_put by auto
qed

lemma update_same: "map_of m k = Some v \<Longrightarrow> AList.update k v m = m"
  by (induction m) auto

lemma update_again: "AList.update k v (AList.update k u m) = AList.update k v m"
  by (induction m) auto

lemma load_entries_spec:
  assumes "loading ens e" and "load_entries H access clk ens e = (e', x)"
  shows "journal_step (on_disk (hx_Disk e)) (on_disk (hx_Disk e')) \<and> wf_map (hx_Disk e') \<and> hx_Policy e' = hx_Policy e \<and>
    hx_Active e' = hx_Active e \<and> (x = None \<longrightarrow> loading [] e')"
  using assms
proof (induction ens arbitrary: e)
  case Nil
  then show ?case by (auto simp: loading_def)
next
  case (Cons en ens)
  obtain n c where en: "en = (n, c)" by (cases en)
  have wf: "wf_map (hx_Disk e)" using Cons.prems(1) by (simp add: loading_def)
  note run = Cons.prems(2) [unfolded en load_entries.simps]
  consider (skip) "\<not> HasSuffix n ''.json''" "load_entries H access clk ens e = (e', x)"
    | (fail) "e' = e" "x \<noteq> None"
    | (read) r where "c = Some r" "n = journal_name (re_ID r)"
  proof (cases "HasSuffix n ''.json''")
    case False
    with run skip show thesis by simp
  next
    case suf: True
    show thesis
    proof (cases "access n")
      case (Some z)
      with run suf have "e' = e" "x = Some z" by simp_all
      with fail show thesis by simp
    next
      case None
      with run suf fail read show thesis by (cases c) (auto split: if_splits)
    qed
  qed
  then show ?case
  proof cases
    case skip
    show ?thesis using Cons.IH [OF loading_skip skip(2)] Cons.prems(1) skip(1) by (simp add: en)
  next
    case fail
    with wf show ?thesis by auto
  next
    case read
    have ld: "loading ((journal_name (re_ID r), Some r) # ens) e" using Cons.prems(1) by (simp add: en read)
    then have od: "map_of (hx_Disk e) (journal_name (re_ID r)) = Some (Some r)" by (auto simp: loading_def)
    let ?e1 = "e\<lparr>hx_Records := AList.update (re_ID r) r (hx_Records e)\<rparr>"
    show ?thesis
    proof (cases "x \<noteq> None \<and> e' = e")
      case True
      with wf show ?thesis by auto
    next
      case False
      show ?thesis
      proof (cases "in_progress r")
        case False
        with \<open>\<not> (x \<noteq> None \<and> e' = e)\<close> Cons.prems(2) have rest: "load_entries H access clk ens ?e1 = (e', x)"
          by (auto simp: en read Let_def split: if_splits option.splits dest: sym)
        have same: "AList.update (journal_name (re_ID r)) (Some r) (hx_Disk e) = hx_Disk e"
          using od by (rule update_same)
        have "loading ens ?e1" by (rule loading_put [OF ld False]) (use ld same in \<open>simp_all add: loading_def\<close>)
        from Cons.IH [OF this rest] show ?thesis by simp
      next
        case True
        obtain e2 y where sv: "save (clk (re_ID r)) (interrupted r) ?e1 = (e2, y)" by fastforce
        have step: "journal_step (on_disk (hx_Disk e)) (on_disk (hx_Disk e2))"
          using save_in_progress_step [OF sv] True od by (simp add: on_disk_def)
        have wf2: "wf_map (hx_Disk e2)" using save_effects(6) [OF sv] wf by auto
        show ?thesis
        proof (cases y)
          case (Some z)
          with sv Cons.prems(2) \<open>\<not> (x \<noteq> None \<and> e' = e)\<close> True have "e' = e2" "x = Some z"
            by (auto simp: en read Let_def split: if_splits option.splits dest: sym)
          with step wf2 save_effects(1,2) [OF sv] show ?thesis by simp
        next
          case None
          with sv Cons.prems(2) \<open>\<not> (x \<noteq> None \<and> e' = e)\<close> True have rest: "load_entries H access clk ens e2 = (e', x)"
            by (auto simp: en read Let_def split: if_splits option.splits dest: sym)
          have jf: "\<not> hx_JournalFailed e2" using save_effects(3) [OF sv] None ld by (simp add: loading_def)
          have "loading ens e2"
          proof (rule loading_put [where r = "(interrupted r)\<lparr>re_UpdatedAt := clk (re_ID r)\<rparr>" and ?r0.0 = r])
            show "hx_Records e2 = AList.update (re_ID ((interrupted r)\<lparr>re_UpdatedAt := clk (re_ID r)\<rparr>)) ((interrupted r)\<lparr>re_UpdatedAt := clk (re_ID r)\<rparr>) (hx_Records e)"
              using save_effects(5) [OF sv None] by (simp add: update_again)
            show "hx_Disk e2 = AList.update (journal_name (re_ID ((interrupted r)\<lparr>re_UpdatedAt := clk (re_ID r)\<rparr>))) (Some ((interrupted r)\<lparr>re_UpdatedAt := clk (re_ID r)\<rparr>)) (hx_Disk e)"
              using save_effects(7) [OF sv None] by simp
          qed (use ld jf in simp_all)
          from Cons.IH [OF this rest] step save_effects(1,2) [OF sv] show ?thesis by (auto intro: journal_step_trans)
        qed
      qed
    qed
  qed
qed

lemma loading_start:
  assumes "wf_map d"
  shows "loading (sort_key fst d) \<lparr>hx_Policy = p, hx_Records = [], hx_Active = False, hx_JournalFailed = False, hx_Disk = d, hx_Write = wr\<rparr>"
proof -
  have "distinct (map fst (sort_key fst d))" using assms by (simp add: wf_map_def distinct_map)
  moreover have "map_of d (journal_name k) = None" if "journal_name k \<notin> fst ` set d" for k
    using that by (simp add: map_of_eq_None_iff)
  ultimately show ?thesis using assms by (auto simp: loading_def keyed_records_def map_of_iff_in_set)
qed

lemma loaded_sound: "loading [] e \<Longrightarrow> sound e \<and> \<not> hx_JournalFailed e"
  by (simp add: loading_def sound_def synced_def)

lemma settle_records_frame:
  "settle_records clk j ks e = (e', x) \<Longrightarrow> hx_Active e' = hx_Active e \<and> hx_Policy e' = hx_Policy e"
proof (induction ks arbitrary: e)
  case (Cons k ks)
  obtain e1 y where sv: "save (clk k) (recovered_by j (record_at e k)) e = (e1, y)" by fastforce
  with Cons show ?case
    using save_effects(1,2) [OF sv] by (cases y) (auto simp: Let_def split: if_splits)
qed simp

lemma settleRecoveryChain_frame:
  "settleRecoveryChain clk j e = (e', x) \<Longrightarrow> hx_Active e' = hx_Active e \<and> hx_Policy e' = hx_Policy e"
  unfolding settleRecoveryChain_def by (auto split: sum.splits if_splits dest: settle_records_frame)

lemma roll_forward_frame:
  "roll_forward clk ks e = (e', x) \<Longrightarrow> hx_Active e' = hx_Active e \<and> hx_Policy e' = hx_Policy e"
proof (induction ks arbitrary: e)
  case (Cons k ks)
  obtain e1 y where st: "settleRecoveryChain clk k e = (e1, y)" by fastforce
  with Cons show ?case
    using settleRecoveryChain_frame [OF st] by (cases y) (auto split: if_splits)
qed simp

lemma NewExecutor_spec:
  assumes "NewExecutor H access clk dirs lock p d wr = (e', x)" and "wf_map d"
  shows "journal_step (on_disk d) (on_disk (hx_Disk e'))" and "wf_map (hx_Disk e')"
    and "x = None \<Longrightarrow> sound e' \<and> \<not> hx_JournalFailed e' \<and> \<not> hx_Active e' \<and>
      (\<forall>k r. map_of (hx_Records e') k = Some r \<longrightarrow> \<not> in_progress r) \<and>
      (\<forall>k r. map_of (hx_Records e') k = Some r \<longrightarrow> completed_restore r \<longrightarrow> settled_chain e' k)"
proof -
  define e0 where "e0 = \<lparr>hx_Policy = p, hx_Records = [], hx_Active = False, hx_JournalFailed = False, hx_Disk = d, hx_Write = wr\<rparr>"
  have ld0: "loading (sort_key fst d) e0" unfolding e0_def using assms(2) by (rule loading_start)
  obtain e1 y where le: "load_entries H access clk (sort_key fst d) e0 = (e1, y)" by fastforce
  note spec = load_entries_spec [OF ld0 le]
  have disk0: "hx_Disk e0 = d" "\<not> hx_Active e0" by (simp_all add: e0_def)
  consider (early) "e' = e0" "x \<noteq> None" | (refused) "hx_Disk e' = hx_Disk e1" "x \<noteq> None"
    | (rolled) "y = None" "roll_forward clk (sort (gkeys (hx_Records e1))) e1 = (e', x)"
    using assms(1) le by (auto simp: NewExecutor_def load_def e0_def [symmetric] disk0 rollForwardRecoverySettlements_def Let_def
        split: option.splits if_splits)
  then have all: "journal_step (on_disk d) (on_disk (hx_Disk e')) \<and> wf_map (hx_Disk e') \<and> (x = None \<longrightarrow> sound e' \<and> \<not> hx_JournalFailed e' \<and> \<not> hx_Active e' \<and>
      (\<forall>k r. map_of (hx_Records e') k = Some r \<longrightarrow> \<not> in_progress r) \<and>
      (\<forall>k r. map_of (hx_Records e') k = Some r \<longrightarrow> completed_restore r \<longrightarrow> settled_chain e' k))"
  proof cases
    case early
    with disk0 assms(2) show ?thesis by auto
  next
    case refused
    with spec disk0 show ?thesis by auto
  next
    case rolled
    have ld: "loading [] e1" using spec rolled(1) by blast
    note snd = loaded_sound [OF ld]
    note rf = roll_forward_spec [OF conjunct1 [OF snd] conjunct2 [OF snd] rolled(2)]
    have step: "journal_step (on_disk d) (on_disk (hx_Disk e'))"
      using rf spec disk0(1) by (auto intro: journal_step_trans)
    have quiet: "\<not> in_progress r" if "map_of (hx_Records e') k = Some r" for k r
    proof
      assume ip: "in_progress r"
      then have "re_State r \<noteq> ''failed''" by (auto simp: in_progress_def)
      with rf that have "map_of (hx_Records e1) k = Some r" using settles_back by blast
      with ld ip show False by (simp add: loading_def)
    qed
    have finished: "settled_chain e' k" if "map_of (hx_Records e') k = Some r" "completed_restore r" "x = None" for k r
    proof -
      have "k \<in> dom (map_of (hx_Records e1))" using that(1) rf settles_dom by blast
      then have "k \<in> set (sort (gkeys (hx_Records e1)))" by (simp add: dom_map_of_conv_image_fst)
      with rf that show ?thesis by (auto simp: record_at_def)
    qed
    have "wf_map (hx_Disk e')" using rf by (simp add: sound_def)
    moreover have "\<not> hx_Active e'" using roll_forward_frame [OF rolled(2)] spec disk0(2) by simp
    ultimately show ?thesis using step quiet finished rf by blast
  qed
  then show "journal_step (on_disk d) (on_disk (hx_Disk e'))" "wf_map (hx_Disk e')"
    and "x = None \<Longrightarrow> sound e' \<and> \<not> hx_JournalFailed e' \<and> \<not> hx_Active e' \<and>
      (\<forall>k r. map_of (hx_Records e') k = Some r \<longrightarrow> \<not> in_progress r) \<and>
      (\<forall>k r. map_of (hx_Records e') k = Some r \<longrightarrow> completed_restore r \<longrightarrow> settled_chain e' k)" by blast+
qed

end
