(* ===== verification/HelperRun.thy ===== *)
theory HelperRun
  imports Helper
begin

text \<open>
  Runs of the root helper. The ghost list \<open>hp_started\<close> holds the requests whose adapter was started,
  in order; \<open>hp_running\<close> is the record in the hands of the background completion. A crash between
  two writes of a completion or settlement is a write that does not happen followed by a crash.
\<close>

record HelperState =
  hp_exec :: Executor
  hp_running :: "HostRecord option"
  hp_started :: "HostRequest list"
  hp_up :: bool

definition helper_initial :: "HelperState \<Rightarrow> bool" where
  "helper_initial m \<longleftrightarrow> \<not> hp_up m \<and> hp_running m = None \<and> hp_started m = [] \<and> wf_map (hx_Disk (hp_exec m))"

inductive helper_step :: "digest \<Rightarrow> HelperState \<Rightarrow> HelperState \<Rightarrow> bool" for H where
  submit: "hp_up m \<Longrightarrow> Submit H w t0 t1 peer req (hp_exec m) = (e', res, run) \<Longrightarrow>
     helper_step H m (m\<lparr>hp_exec := e', hp_running := (case run of None \<Rightarrow> hp_running m | Some r \<Rightarrow> Some r),
       hp_started := (case run of None \<Rightarrow> hp_started m | Some r \<Rightarrow> hp_started m @ [re_Request r])\<rparr>)"
| complete: "hp_up m \<Longrightarrow> hp_running m = Some r \<Longrightarrow>
     helper_step H m (m\<lparr>hp_exec := helper_finish t1 t2 clk data x fin r (hp_exec m), hp_running := None\<rparr>)"
| environment: "helper_step H m (m\<lparr>hp_exec := (hp_exec m)\<lparr>hx_Write := wr\<rparr>\<rparr>)"
| crash: "helper_step H m (m\<lparr>hp_up := False, hp_running := None\<rparr>)"
| restart: "\<not> hp_up m \<Longrightarrow> NewExecutor H access clk dirs lock p (hx_Disk (hp_exec m)) wr = (e', x) \<Longrightarrow>
     helper_step H m (m\<lparr>hp_exec := e', hp_running := None, hp_up := (x = None)\<rparr>)"

inductive helper_reachable :: "digest \<Rightarrow> HelperState \<Rightarrow> bool" for H where
  start: "helper_initial m \<Longrightarrow> helper_reachable H m"
| step: "helper_reachable H m \<Longrightarrow> helper_step H m m' \<Longrightarrow> helper_reachable H m'"

section \<open>Submission\<close>

text \<open>A submission changes nothing unless it is recorded; then the request runs.\<close>

lemma Submit_cases:
  assumes "Submit H w t0 t1 peer req e = (e', res, run)"
  obtains (unchanged) "e' = e" "run = None"
    | (unsaved) x where "map_of (hx_Records e) (hq_ID req) = None" "\<not> hx_JournalFailed e" "\<not> hx_Active e"
        "save t1 (accepted_record H t0 peer (hx_Policy e) req) e = (e', Some x)" "run = None"
    | (started) e1 where "map_of (hx_Records e) (hq_ID req) = None" "submit_guards H w req e = None"
        "save t1 (accepted_record H t0 peer (hx_Policy e) req) e = (e1, None)" "e' = e1\<lparr>hx_Active := True\<rparr>"
        "run = Some (accepted_record H t0 peer (hx_Policy e) req)" "validID (hq_ID req)"
proof (cases "run")
  case None
  show thesis
  proof (cases "e' = e")
    case True
    with None unchanged show thesis by blast
  next
    case False
    obtain e1 y where sv: "save t1 (accepted_record H t0 peer (hx_Policy e) req) e = (e1, y)" by fastforce
    from assms None False sv have "map_of (hx_Records e) (hq_ID req) = None" "submit_guards H w req e = None" "e' = e1" "y \<noteq> None"
      by (auto simp: Submit_def Let_def split: if_splits option.splits)
    moreover from this(2) have "\<not> hx_JournalFailed e" "\<not> hx_Active e" by (auto simp: submit_guards_def)
    ultimately show thesis using unsaved sv None by blast
  qed
next
  case (Some r)
  obtain e1 y where sv: "save t1 (accepted_record H t0 peer (hx_Policy e) req) e = (e1, y)" by fastforce
  from assms Some sv have "map_of (hx_Records e) (hq_ID req) = None" "submit_guards H w req e = None"
    "e' = e1\<lparr>hx_Active := True\<rparr>" "y = None" "r = accepted_record H t0 peer (hx_Policy e) req" "validID (hq_ID req)"
    by (auto simp: Submit_def Let_def split: if_splits option.splits)
  with started sv Some show thesis by blast
qed

lemma submit_guards_None:
  assumes "submit_guards H w req e = None"
  shows "\<not> hx_Active e" "\<not> hx_JournalFailed e" "int (length (hx_Records e)) < po_MaxRecords (hx_Policy e)"
    "helper_validate H w (hx_Policy e) (hx_Records e) req = None" "wo_Verify w = None" "wo_Lock w = None"
  using assms by (auto simp: submit_guards_def)

lemma helper_validate_None:
  assumes "helper_validate H w p recs req = None"
  shows "d_Target (hq_Draft req) = po_Target p" "validateRecovery recs (hq_Draft req) = None"
  using assms by (auto simp: helper_validate_def Let_def split: if_splits)

lemma validateRecovery_linked:
  assumes "validateRecovery recs d = None" and "d_RecoveryID d \<noteq> []"
  obtains old ch where "d_Action d = ''profile.restore''" "map_of recs (d_RecoveryID d) = Some old" "unresolved old"
    "HostRestoreRequired (d_Action (re_Draft old))" "d_Target (re_Draft old) = d_Target d"
    "RecoveryChain (recoveryLinks recs) (d_RecoveryID d) = Inr ch"
    "\<And>k r. (k, r) \<in> set recs \<Longrightarrow> unresolved r \<Longrightarrow> k \<in> set ch"
  using assms unfolding validateRecovery_def
  by (force split: if_splits option.splits sum.splits simp: list_ex_iff)

lemma accepted_simps [simp]:
  "re_Request (accepted_record H t0 peer p req) = req" "re_State (accepted_record H t0 peer p req) = ''running''"
  "re_StartedAt (accepted_record H t0 peer p req) = t0" "re_PeerUID (accepted_record H t0 peer p req) = peer"
  by (simp_all add: accepted_record_def)

section \<open>Completion\<close>

text \<open>The record in the hands of the completion and its entry in the journal.\<close>

definition held_by :: "HostRecord \<Rightarrow> Executor \<Rightarrow> bool" where
  "held_by r e \<longleftrightarrow> sound e \<and> \<not> hx_JournalFailed e \<and> (d_RecoveryID (re_Draft r) \<noteq> [] \<longrightarrow> d_Action (re_Draft r) = ''profile.restore'') \<and>
     (\<exists>old. map_of (hx_Records e) (re_ID r) = Some old \<and> in_progress old \<and> re_Request old = re_Request r \<and>
        re_StartedAt old = re_StartedAt r \<and> re_PeerUID old = re_PeerUID r)"

lemma save_held:
  assumes "held_by r0 e" and "save now r e = (e', x)"
    and "re_Request r = re_Request r0" "re_StartedAt r = re_StartedAt r0" "re_PeerUID r = re_PeerUID r0"
  shows "journal_step (on_disk (hx_Disk e)) (on_disk (hx_Disk e'))" "sound e'" "hx_JournalFailed e' \<longleftrightarrow> x \<noteq> None"
    "x = None \<Longrightarrow> in_progress r \<Longrightarrow> held_by r0 e'"
proof -
  obtain old where snd: "sound e" "\<not> hx_JournalFailed e"
    and old: "map_of (hx_Records e) (re_ID r0) = Some old" "in_progress old" "re_Request old = re_Request r0"
      "re_StartedAt old = re_StartedAt r0" "re_PeerUID old = re_PeerUID r0"
    using assms(1) by (auto simp: held_by_def)
  have "on_disk (hx_Disk e) (re_ID r) = Some old"
    using snd old(1) assms(3) by (simp add: sound_def synced_on_disk)
  from save_in_progress_step [OF assms(2) this old(2)] old assms(3-5)
  show "journal_step (on_disk (hx_Disk e)) (on_disk (hx_Disk e'))" by simp
  show s: "sound e'" "hx_JournalFailed e' \<longleftrightarrow> x \<noteq> None" using save_sound [OF assms(2) snd] by auto
  show "held_by r0 e'" if "x = None" "in_progress r"
    using assms(1,3-5) s that save_effects(5) [OF assms(2) that(1)] by (auto simp: held_by_def in_progress_def)
qed

lemma links_save:
  assumes "map_of (hx_Records e) (re_ID r) = Some old" and "re_Request r = re_Request old" and "save now r e = (e', x)"
  shows "links_of (map_of (hx_Records e')) = links_of (map_of (hx_Records e))"
proof (cases x)
  case None
  with links_unchanged [OF assms(1), of "r\<lparr>re_UpdatedAt := now\<rparr>"] assms(2) save_effects(5) [OF assms(3)] show ?thesis by simp
next
  case (Some y)
  with save_effects(4) [OF assms(3)] show ?thesis by simp
qed

text \<open>What a completion leaves of the records of the others.\<close>

definition leaves :: "string \<Rightarrow> Executor \<Rightarrow> Executor \<Rightarrow> bool" where
  "leaves k0 e e' \<longleftrightarrow> dom (map_of (hx_Records e)) \<subseteq> dom (map_of (hx_Records e')) \<and>
     links_of (map_of (hx_Records e')) = links_of (map_of (hx_Records e)) \<and>
     (\<forall>k u. map_of (hx_Records e') k = Some u \<longrightarrow> unresolved u \<longrightarrow> k \<noteq> k0 \<longrightarrow> map_of (hx_Records e) k = Some u)"

lemma leaves_trans: "leaves k0 e e' \<Longrightarrow> leaves k0 e' e'' \<Longrightarrow> leaves k0 e e''"
  by (auto simp: leaves_def)

lemma leaves_settles: "settles e e' \<Longrightarrow> leaves k0 e e'"
  by (auto simp: leaves_def settles_dom settles_links dest: settles_unresolved)

lemma leaves_save:
  assumes "held_by r0 e" and "save now r e = (e', x)" and "re_Request r = re_Request r0"
  shows "leaves (re_ID r0) e e'"
proof -
  obtain old where old: "map_of (hx_Records e) (re_ID r) = Some old" "re_Request old = re_Request r0"
    using assms(1,3) by (auto simp: held_by_def)
  have "links_of (map_of (hx_Records e')) = links_of (map_of (hx_Records e))"
    using links_save [OF old(1) _ assms(2)] old(2) assms(3) by simp
  with assms(3) show ?thesis
    using save_effects(4,5) [OF assms(2)] by (cases x) (auto simp: leaves_def)
qed

lemma finish_commit_spec:
  assumes "held_by r0 e" and "re_Request r = re_Request r0" "re_StartedAt r = re_StartedAt r0" "re_PeerUID r = re_PeerUID r0"
    and "finish_commit now clk r e = e'"
  shows "journal_step (on_disk (hx_Disk e)) (on_disk (hx_Disk e')) \<and> sound e' \<and> leaves (re_ID r0) e e' \<and>
    (\<not> hx_JournalFailed e' \<longrightarrow> map_option re_State (map_of (hx_Records e') (re_ID r0)) = Some (re_State r) \<or> unresolved r) \<and>
    (\<not> hx_JournalFailed e' \<longrightarrow> re_State r = ''succeeded'' \<longrightarrow> d_RecoveryID (re_Draft r) \<noteq> [] \<longrightarrow> settled_chain e' (re_ID r0))"
proof -
  obtain e1 x where sv: "save now r e = (e1, x)" by fastforce
  note h = save_held [OF assms(1) sv assms(2-4)]
  note lv = leaves_save [OF assms(1) sv assms(2)]
  let ?r = "r\<lparr>re_UpdatedAt := now\<rparr>"
  have rec: "map_of (hx_Records e1) (re_ID r0) = Some ?r" if "x = None" using save_effects(5) [OF sv that] assms(2) by simp
  show ?thesis
  proof (cases "x = None \<and> re_State r = ''succeeded'' \<and> d_RecoveryID (re_Draft r) \<noteq> []")
    case False
    then have "e' = e1" using sv assms(5) by (auto simp: finish_commit_def split: option.splits)
    with h lv False rec show ?thesis by auto
  next
    case True
    obtain e2 y where st: "settleRecoveryChain clk (re_ID r) e1 = (e2, y)" by fastforce
    have e': "e' = e2" using True sv st assms(5) by (auto simp: finish_commit_def)
    have rec': "map_of (hx_Records e1) (re_ID r) = Some ?r" using rec True assms(2) by simp
    have comp: "completed_restore ?r" using True assms(1,2) by (auto simp: completed_restore_def held_by_def)
    have "\<not> hx_JournalFailed e1" using h(3) True by simp
    note spec = settleRecoveryChain_spec [OF h(2) this rec' comp st]
    have "leaves (re_ID r0) e e2" using lv spec leaves_settles leaves_trans by blast
    moreover have "journal_step (on_disk (hx_Disk e)) (on_disk (hx_Disk e2))"
      using spec h(1) by (auto intro: journal_step_trans)
    moreover have "map_of (hx_Records e2) (re_ID r0) = Some ?r"
      using spec settles_kept [of e1 e2 "re_ID r0" ?r] rec True by (auto simp: unresolved_def)
    ultimately show ?thesis using spec assms(2) unfolding e' by auto
  qed
qed

lemma run_result_states:
  "hr_State (run_result data x r) \<in> {''failed'', ''recovery-required'', ''succeeded''}"
  by (auto simp: run_result_def Let_def split: option.splits run_error.splits)

lemma helper_finish_spec:
  assumes "held_by r e" and "helper_finish t1 t2 clk data x fin r e = e'"
  shows "journal_step (on_disk (hx_Disk e)) (on_disk (hx_Disk e')) \<and> sound e' \<and> leaves (re_ID r) e e' \<and> \<not> hx_Active e' \<and>
    (\<not> hx_JournalFailed e' \<longrightarrow> x = None \<longrightarrow> fin = None \<longrightarrow> d_RecoveryID (re_Draft r) \<noteq> [] \<longrightarrow> settled_chain e' (re_ID r) \<and>
      map_option re_State (map_of (hx_Records e') (re_ID r)) = Some ''succeeded'')"
proof -
  let ?r = "r\<lparr>re_Result := run_result data x r\<rparr>"
  let ?pending = "?r\<lparr>re_Result := (re_Result ?r)\<lparr>hr_State := ''running'', hr_Phase := ''build-gate-disposition''\<rparr>\<rparr>"
  have ok: "re_State ?r = ''succeeded''" if "x = None" using that by (simp add: run_result_def Let_def)
  have off: "settled_chain (e2\<lparr>hx_Active := False\<rparr>) k = settled_chain e2 k" for e2 k
    by (simp add: settled_chain_def record_at_def)
  have frame: "sound (e2\<lparr>hx_Active := False\<rparr>) = sound e2" "leaves k e (e2\<lparr>hx_Active := False\<rparr>) = leaves k e e2" for e2 k
    by (simp_all add: sound_def synced_def leaves_def)
  consider (failed) e1 y where "save t1 ?pending e = (e1, Some y)" "e' = e1\<lparr>hx_Active := False\<rparr>"
    | (committed) e1 r2 where "save t1 ?pending e = (e1, None)" "e' = (finish_commit t2 clk r2 e1)\<lparr>hx_Active := False\<rparr>"
        "re_Request r2 = re_Request r" "re_StartedAt r2 = re_StartedAt r" "re_PeerUID r2 = re_PeerUID r" "fin = None \<longrightarrow> r2 = ?r"
    | (direct) "e' = (finish_commit t2 clk ?r e)\<lparr>hx_Active := False\<rparr>"
  proof (cases "re_State ?r = ''succeeded'' \<and> \<not> readOnlyAction (d_Action (re_Draft ?r))")
    case True
    obtain e1 y where sv: "save t1 ?pending e = (e1, y)" by fastforce
    show thesis
    proof (cases y)
      case (Some z)
      with sv assms(2) True failed show thesis by (auto simp: helper_finish_def Let_def)
    next
      case None
      with sv assms(2) True show thesis
        by (intro committed [of e1 "if fin \<noteq> None then ?r\<lparr>re_Result := (re_Result ?r)\<lparr>hr_State := ''recovery-required'', hr_Phase := ''build-gate-disposition'',
             hr_Message := ''External effects completed but build inhibition could not be safely finalized; owner inspection is required.''\<rparr>\<rparr> else ?r"])
           (auto simp: helper_finish_def Let_def)
    qed
  next
    case False
    with assms(2) show thesis by (intro direct) (auto simp: helper_finish_def Let_def)
  qed
  then show ?thesis
  proof cases
    case failed
    note h = save_held [OF assms(1) failed(1)]
    have "leaves (re_ID r) e e1" using leaves_save [OF assms(1) failed(1)] by simp
    with h failed(2) show ?thesis by (auto simp: frame)
  next
    case committed
    note h = save_held [OF assms(1) committed(1)]
    have held: "held_by r e1" using h(4) by (simp add: in_progress_def)
    have lv: "leaves (re_ID r) e e1" using leaves_save [OF assms(1) committed(1)] by simp
    note spec = finish_commit_spec [OF held committed(3-5) refl, of t2 clk]
    have "journal_step (on_disk (hx_Disk e)) (on_disk (hx_Disk (finish_commit t2 clk r2 e1)))"
      using spec h(1) by (auto intro: journal_step_trans)
    moreover have "leaves (re_ID r) e (finish_commit t2 clk r2 e1)" using spec lv leaves_trans by blast
    ultimately show ?thesis using spec committed(2,3,6) ok by (auto simp: frame off unresolved_def)
  next
    case direct
    note spec = finish_commit_spec [OF assms(1) _ _ _ refl, of ?r t2 clk]
    with direct ok show ?thesis by (auto simp: frame off unresolved_def)
  qed
qed

section \<open>The invariant\<close>

text \<open>Every other unresolved record belongs to the chain of the running restore.\<close>

definition covers :: "HostRecord \<Rightarrow> Executor \<Rightarrow> bool" where
  "covers r e \<longleftrightarrow> (\<forall>k u. map_of (hx_Records e) k = Some u \<longrightarrow> unresolved u \<longrightarrow>
     k \<noteq> re_ID r \<and> d_RecoveryID (re_Draft r) \<noteq> [] \<and> same_chain (map_of (hx_Records e)) (re_ID r) k)"

definition helper_invariant :: "HelperState \<Rightarrow> bool" where
  "helper_invariant m \<longleftrightarrow> (let e = hp_exec m in
     wf_map (hx_Disk e) \<and> distinct (map hq_ID (hp_started m)) \<and>
     (\<forall>q \<in> set (hp_started m). \<exists>r. on_disk (hx_Disk e) (hq_ID q) = Some r \<and> re_Request r = q) \<and>
     (hp_up m \<longrightarrow> sound e \<and> (\<forall>q \<in> set (hp_started m). hq_ID q \<in> dom (map_of (hx_Records e))) \<and>
        (hx_Active e \<longleftrightarrow> hp_running m \<noteq> None) \<and>
        (\<forall>r. hp_running m = Some r \<longrightarrow> re_Request r \<in> set (hp_started m) \<and> held_by r e \<and> covers r e)))"

lemma started_kept:
  assumes "journal_step d d'" and "\<exists>r. d (hq_ID q) = Some r \<and> re_Request r = q"
  shows "\<exists>r. d' (hq_ID q) = Some r \<and> re_Request r = q"
  using assms by (fastforce simp: journal_step_def moves_def)

lemma same_chain_child:
  assumes "m k = Some r" and "d_Action (re_Draft r) = ''profile.restore''" and "d_RecoveryID (re_Draft r) \<noteq> []"
    and "m (d_RecoveryID (re_Draft r)) = Some old" and "HostRestoreRequired (d_Action (re_Draft old))"
    and "d_Target (re_Draft old) = d_Target (re_Draft r)" and "same_chain m (d_RecoveryID (re_Draft r)) j"
  shows "same_chain m k j"
proof -
  let ?p = "d_RecoveryID (re_Draft r)"
  from assms(7) obtain links rt where l: "map_of links = links_of m" "RecoveryRoot links ?p = Inr rt" "RecoveryRoot links j = Inr rt"
    by (auto simp: same_chain_def)
  obtain n where n: "recovers links n ?p rt" using l(2) by (auto simp: RecoveryRoot_iff)
  have lk: "map_of links k = Some (record_link r)" "map_of links ?p = Some (record_link old)"
    using assms(1,4) by (simp_all add: l(1) links_of_def)
  have "rl_Target (record_link old) \<noteq> []" using recovers_known [OF n] lk(2) by auto
  then have "recovery_step links k (record_link r)"
    using assms(2,3,5,6) lk by (simp add: recovery_step_def record_link_def)
  then have "recovers links (Suc n) k rt" using n by (auto intro: recovers.step simp: record_link_def)
  then have "RecoveryRoot links k = Inr rt" by (auto simp: RecoveryRoot_iff)
  with l show ?thesis by (auto simp: same_chain_def)
qed

lemma submit_covers:
  assumes "sound e" and "submit_guards H w req e = None" and "map_of (hx_Records e) (hq_ID req) = None"
    and "save t1 (accepted_record H t0 peer p req) e = (e1, None)"
  shows "covers (accepted_record H t0 peer p req) e1"
proof -
  let ?a = "accepted_record H t0 peer p req"
  let ?m = "map_of (hx_Records e)" and ?d = "hq_Draft req"
  have vr: "validateRecovery (hx_Records e) ?d = None"
    using helper_validate_None(2) submit_guards_None(4) [OF assms(2)] by blast
  have recs: "map_of (hx_Records e1) = ?m(hq_ID req \<mapsto> ?a\<lparr>re_UpdatedAt := t1\<rparr>)" using save_effects(5) [OF assms(4)] by simp
  have grow: "journal_step ?m (map_of (hx_Records e1))" using assms(3) by (auto simp: recs journal_step_def)
  show ?thesis
    unfolding covers_def
  proof (intro allI impI conjI)
    fix k u assume "map_of (hx_Records e1) k = Some u" and u: "unresolved u"
    then have k: "?m k = Some u" "k \<noteq> hq_ID req" by (auto simp: recs unresolved_def split: if_splits)
    show "k \<noteq> re_ID ?a" using k by simp
    have kin: "(k, u) \<in> set (hx_Records e)" using k(1) by (rule map_of_SomeD)
    show linked: "d_RecoveryID (re_Draft ?a) \<noteq> []"
      using vr kin u by (auto simp: validateRecovery_def list_ex_iff)
    then obtain old ch where old: "d_Action ?d = ''profile.restore''" "?m (d_RecoveryID ?d) = Some old"
        "HostRestoreRequired (d_Action (re_Draft old))" "d_Target (re_Draft old) = d_Target ?d"
        "RecoveryChain (recoveryLinks (hx_Records e)) (d_RecoveryID ?d) = Inr ch" "k \<in> set ch"
      using validateRecovery_linked [OF vr] kin u by (metis accepted_simps(1))
    have "same_chain (map_of (hx_Records e1)) (d_RecoveryID ?d) k"
      using same_chain_grow [OF same_chain_member [OF old(5,6)] grow] by (simp add: finite_dom_map_of)
    moreover have "hq_ID req \<noteq> d_RecoveryID ?d" using old(2) assms(3) by auto
    ultimately show "same_chain (map_of (hx_Records e1)) (re_ID ?a) k"
      using same_chain_child [of "map_of (hx_Records e1)" "hq_ID req" "?a\<lparr>re_UpdatedAt := t1\<rparr>" old k] old(1-4) linked
      by (simp add: recs)
  qed
qed

lemma restart_known:
  assumes "sound e'" "\<not> hx_JournalFailed e'" and "on_disk (hx_Disk e') k = Some r"
  shows "k \<in> dom (map_of (hx_Records e'))"
  using assms synced_on_disk [of e' k] by (auto simp: sound_def)

lemma helper_step_journal:
  assumes "helper_invariant m" and "helper_step H m m'"
  shows "journal_step (on_disk (hx_Disk (hp_exec m))) (on_disk (hx_Disk (hp_exec m')))"
  using assms(2)
proof cases
  case (submit w t0 t1 peer req e' res run)
  have snd: "sound (hp_exec m)" using assms(1) submit(2) by (simp add: helper_invariant_def Let_def)
  have fresh: "journal_step (on_disk (hx_Disk (hp_exec m))) (on_disk (hx_Disk e1))"
    if "map_of (hx_Records (hp_exec m)) (hq_ID req) = None" "\<not> hx_JournalFailed (hp_exec m)"
      "save t1 (accepted_record H t0 peer (hx_Policy (hp_exec m)) req) (hp_exec m) = (e1, x)" for e1 x
    by (rule save_journal_step [OF that(3) snd that(2)]) (simp add: that(1))
  from submit(3) have "journal_step (on_disk (hx_Disk (hp_exec m))) (on_disk (hx_Disk e'))"
  proof (cases rule: Submit_cases)
    case (started e1)
    then show ?thesis using fresh [OF started(1) submit_guards_None(2) [OF started(2)] started(3)] by simp
  qed (auto intro: fresh)
  with submit(1) show ?thesis by simp
next
  case (complete r t1 t2 clk data x fin)
  have "held_by r (hp_exec m)" using assms(1) complete(2,3) by (simp add: helper_invariant_def Let_def)
  from helper_finish_spec [OF this refl] complete(1) show ?thesis by simp
next
  case (restart access clk dirs lock p wr e' x)
  have "wf_map (hx_Disk (hp_exec m))" using assms(1) by (simp add: helper_invariant_def Let_def)
  from NewExecutor_spec(1) [OF restart(3) this] restart(1) show ?thesis by simp
qed simp_all

lemma helper_invariant_step:
  assumes "helper_invariant m" and "helper_step H m m'"
  shows "helper_invariant m'"
proof -
  note inv = assms(1) [unfolded helper_invariant_def Let_def]
  have kept: "\<exists>r. on_disk (hx_Disk (hp_exec m')) (hq_ID q) = Some r \<and> re_Request r = q" if "q \<in> set (hp_started m)" for q
    using started_kept [OF helper_step_journal [OF assms]] inv that by blast
  from assms(2) show ?thesis
  proof cases
    case (submit w t0 t1 peer req e' res run)
    have up: "sound (hp_exec m)" "\<forall>q \<in> set (hp_started m). hq_ID q \<in> dom (map_of (hx_Records (hp_exec m)))"
      "hx_Active (hp_exec m) \<longleftrightarrow> hp_running m \<noteq> None" using inv submit(2) by simp_all
    from submit(3) show ?thesis
    proof (cases rule: Submit_cases)
      case unchanged
      then have "m' = m" using submit(1) by simp
      with assms(1) show ?thesis by simp
    next
      case (unsaved x)
      note sv = save_sound [OF unsaved(4) up(1) unsaved(2)]
      have "hx_Records e' = hx_Records (hp_exec m)" "\<not> hx_Active e'" using save_effects(2,4) [OF unsaved(4)] unsaved(3) by simp_all
      with inv sv up unsaved submit kept show ?thesis by (auto simp: helper_invariant_def Let_def sound_def)
    next
      case (started e1)
      let ?a = "accepted_record H t0 peer (hx_Policy (hp_exec m)) req"
      have jf: "\<not> hx_JournalFailed (hp_exec m)" using submit_guards_None(2) [OF started(2)] .
      note sv = save_sound [OF started(3) up(1) jf]
      have recs: "map_of (hx_Records e1) = (map_of (hx_Records (hp_exec m)))(hq_ID req \<mapsto> ?a\<lparr>re_UpdatedAt := t1\<rparr>)"
        using save_effects(5) [OF started(3)] by simp
      have e': "hp_exec m' = e1\<lparr>hx_Active := True\<rparr>" "hp_started m' = hp_started m @ [req]" "hp_running m' = Some ?a" "hp_up m'"
        using submit started by simp_all
      have frame: "sound (e1\<lparr>hx_Active := True\<rparr>) = sound e1" "held_by r (e1\<lparr>hx_Active := True\<rparr>) = held_by r e1"
        "covers r (e1\<lparr>hx_Active := True\<rparr>) = covers r e1" for r
        by (simp_all add: sound_def synced_def held_by_def covers_def)
      have fresh: "hq_ID req \<notin> hq_ID ` set (hp_started m)" using up(2) started(1) by (auto simp: domIff)
      have vr: "validateRecovery (hx_Records (hp_exec m)) (hq_Draft req) = None"
        using helper_validate_None(2) submit_guards_None(4) [OF started(2)] by blast
      have held: "held_by ?a e1"
        using sv validateRecovery_linked [OF vr] by (auto simp: held_by_def recs in_progress_def)
      have disk: "on_disk (hx_Disk e1) (hq_ID req) = Some (?a\<lparr>re_UpdatedAt := t1\<rparr>)"
        using synced_on_disk [of e1 "hq_ID req"] sv by (simp add: sound_def recs)
      have cov: "covers ?a e1" by (rule submit_covers [OF up(1) started(2,1,3)])
      have "wf_map (hx_Disk e1)" using sv(1) by (simp add: sound_def)
      with sv inv up fresh held cov disk kept show ?thesis
        unfolding helper_invariant_def Let_def e' frame by (auto simp: recs e')
    qed
  next
    case (complete r t1 t2 clk data x fin)
    have "held_by r (hp_exec m)" using inv complete(2,3) by simp
    note spec = helper_finish_spec [OF this refl, of t1 t2 clk data x fin]
    have m': "hp_exec m' = helper_finish t1 t2 clk data x fin r (hp_exec m)" "hp_started m' = hp_started m"
      "hp_running m' = None" using complete(1) by simp_all
    have "wf_map (hx_Disk (hp_exec m'))" using spec by (simp add: sound_def m')
    moreover have "hq_ID q \<in> dom (map_of (hx_Records (hp_exec m')))" if "q \<in> set (hp_started m)" for q
      using spec inv complete(2) that unfolding leaves_def m' by blast
    ultimately show ?thesis
      unfolding helper_invariant_def Let_def m'(2,3) using spec inv kept by (simp add: m'(1))
  next
    case (environment wr)
    with inv show ?thesis by (auto simp: helper_invariant_def Let_def sound_def synced_def held_by_def covers_def)
  next
    case crash
    with inv show ?thesis by (auto simp: helper_invariant_def Let_def)
  next
    case (restart access clk dirs lock p wr e' x)
    have "wf_map (hx_Disk (hp_exec m))" using inv by simp
    note spec = NewExecutor_spec [OF restart(3) this]
    have "hq_ID q \<in> dom (map_of (hx_Records e'))" if "x = None" "q \<in> set (hp_started m)" for q
      using restart_known spec(3) [OF that(1)] kept [OF that(2)] restart(1) by auto
    with spec inv restart kept show ?thesis by (auto simp: helper_invariant_def Let_def)
  qed
qed

lemma helper_reachable_invariant: "helper_reachable H m \<Longrightarrow> helper_invariant m"
proof (induction rule: helper_reachable.induct)
  case (start m)
  then show ?case by (simp add: helper_initial_def helper_invariant_def Let_def)
next
  case (step m m')
  then show ?case by (blast intro: helper_invariant_step)
qed

section \<open>Properties of the helper\<close>

text \<open>
  C2: The root helper starts the adapter at most once per request identifier, across resubmission,
  failed journal writes, crashes and restarts: in every reachable state the identifiers of the
  started requests are distinct, and each of them is in the journal with exactly that request.
\<close>
theorem helper_runs_once:
  assumes "helper_reachable H m"
  shows "distinct (map hq_ID (hp_started m)) \<and>
    (\<forall>q \<in> set (hp_started m). \<exists>r. on_disk (hx_Disk (hp_exec m)) (hq_ID q) = Some r \<and> re_Request r = q)"
  using helper_reachable_invariant [OF assms] by (simp add: helper_invariant_def Let_def)

text \<open>
  C6: The helper's own fence: when a request is started while the helper's journal holds an
  unresolved record, the request is an explicit restore, for the policy's target, of a recovery
  chain that contains that record.
\<close>
theorem helper_starts_behind_fence:
  assumes "helper_reachable H m" and "helper_step H m m'" and "hp_started m' = hp_started m @ [q]"
    and "map_of (hx_Records (hp_exec m)) k = Some u" and "unresolved u"
  shows "d_Action (hq_Draft q) = ''profile.restore'' \<and> d_Target (hq_Draft q) = po_Target (hx_Policy (hp_exec m)) \<and>
    (\<exists>ch. RecoveryChain (recoveryLinks (hx_Records (hp_exec m))) (d_RecoveryID (hq_Draft q)) = Inr ch \<and> k \<in> set ch)"
  using assms(2)
proof cases
  case (submit w t0 t1 peer req e' res run)
  from submit(3) show ?thesis
  proof (cases rule: Submit_cases)
    case (started e1)
    have q: "q = req" using submit(1) started(5) assms(3) by simp
    note v = submit_guards_None(4) [OF started(2)]
    have kin: "(k, u) \<in> set (hx_Records (hp_exec m))" using assms(4) by (rule map_of_SomeD)
    have adm: "helper_admits (hx_Records (hp_exec m)) (hq_Draft req) []" using helper_validate_None(2) [OF v] by (simp add: helper_admits_def)
    have linked: "d_RecoveryID (hq_Draft req) \<noteq> []"
      using helper_validate_None(2) [OF v] kin assms(5) by (auto simp: validateRecovery_def list_ex_iff)
    then have "d_Action (hq_Draft req) = ''profile.restore''" using validateRecovery_linked [OF helper_validate_None(2) [OF v]] by blast
    moreover obtain ch where "RecoveryChain (recoveryLinks (hx_Records (hp_exec m))) (d_RecoveryID (hq_Draft req)) = Inr ch" "k \<in> set ch"
      using validateRecovery_linked [OF helper_validate_None(2) [OF v] linked] kin assms(5) by metis
    ultimately show ?thesis using helper_validate_None(1) [OF v] q by blast
  qed (use submit(1) assms(3) in auto)
qed (use assms(3) in auto)

text \<open>
  C10: An unresolved record of the journal stays unresolved until a later restore of its chain has
  completed: over any step, a crash or restart included, the durable record is still unresolved, or
  it is marked failed by a completed restore that is itself durable, started later and has the same
  recovery root.
\<close>
theorem fence_lifted_only_by_restore:
  assumes "helper_reachable H m" and "helper_step H m m'"
    and "on_disk (hx_Disk (hp_exec m)) k = Some r" and "unresolved r"
  shows "\<exists>r'. on_disk (hx_Disk (hp_exec m')) k = Some r' \<and> re_Request r' = re_Request r \<and>
    (unresolved r' \<or> resolved_by (on_disk (hx_Disk (hp_exec m'))) k r r')"
proof -
  have "journal_step (on_disk (hx_Disk (hp_exec m))) (on_disk (hx_Disk (hp_exec m')))"
    using helper_step_journal [OF helper_reachable_invariant [OF assms(1)] assms(2)] .
  with assms(3) obtain r' where "on_disk (hx_Disk (hp_exec m')) k = Some r'" "moves (on_disk (hx_Disk (hp_exec m'))) k r r'"
    by (auto simp: journal_step_def)
  with assms(4) show ?thesis by (auto simp: moves_def in_progress_def unresolved_def)
qed

text \<open>
  A restart that succeeds leaves no request in progress and no settlement open: interrupted
  mutations have become recovery-required, and every durable completed restore has its whole chain
  settled, also when the helper had stopped in the middle of settling it.
\<close>
theorem restart_settles_journal:
  assumes "NewExecutor H access clk dirs lock p d wr = (e, None)" and "wf_map d"
    and "map_of (hx_Records e) k = Some r"
  shows "\<not> in_progress r \<and> on_disk (hx_Disk e) k = Some r \<and>
    (completed_restore r \<longrightarrow> (\<exists>ch. RecoveryChain (recoveryLinks (hx_Records e)) k = Inr ch \<and>
       (\<forall>j \<in> set ch. j \<noteq> k \<longrightarrow> \<not> unresolved (record_at e j))))"
proof -
  note spec = NewExecutor_spec(3) [OF assms(1,2) refl]
  then have "on_disk (hx_Disk e) k = Some r" using synced_on_disk [of e k] assms(3) by (simp add: sound_def)
  with spec assms(3) show ?thesis by (auto simp: settled_chain_def)
qed

text \<open>
  C25: A completed restore lifts the fence: when the running restore of a reachable helper succeeds
  and the journal is healthy afterwards, no record is unresolved any more.
\<close>
theorem completed_restore_clears_fence:
  assumes "helper_reachable H m" and "hp_up m" and "hp_running m = Some r" and "d_RecoveryID (re_Draft r) \<noteq> []"
    and "e' = helper_finish t1 t2 clk data None None r (hp_exec m)" and "\<not> hx_JournalFailed e'"
    and "map_of (hx_Records e') k = Some u"
  shows "\<not> unresolved u"
proof
  assume u: "unresolved u"
  have inv: "held_by r (hp_exec m)" "covers r (hp_exec m)"
    using helper_reachable_invariant [OF assms(1)] assms(2,3) by (simp_all add: helper_invariant_def Let_def)
  note spec = helper_finish_spec [OF inv(1) assms(5) [symmetric]]
  have st: "settled_chain e' (re_ID r)" and own: "map_option re_State (map_of (hx_Records e') (re_ID r)) = Some ''succeeded''"
    using spec assms(4,6) by blast+
  have lv: "leaves (re_ID r) (hp_exec m) e'" using spec by blast
  have ne: "k \<noteq> re_ID r" using own u assms(7) by (auto simp: unresolved_def)
  then have "map_of (hx_Records (hp_exec m)) k = Some u" using lv assms(7) u unfolding leaves_def by blast
  then have "same_chain (map_of (hx_Records (hp_exec m))) (re_ID r) k" using inv(2) u unfolding covers_def by blast
  moreover have "links_of (map_of (hx_Records e')) = links_of (map_of (hx_Records (hp_exec m)))" using lv unfolding leaves_def by blast
  ultimately have "same_chain (map_of (hx_Records e')) (re_ID r) k" using same_chain_cong by blast
  then obtain ch where "RecoveryChain (recoveryLinks (hx_Records e')) (re_ID r) = Inr ch" "k \<in> set ch" by (rule chain_member)
  with st ne have "\<not> unresolved (record_at e' k)" by (auto simp: settled_chain_def)
  with assms(7) u show False by (simp add: record_at_def)
qed

text \<open>
  What the helper starts is within the root policy: for a serving or resource request the CPU
  offload and the shared memory leave memory to the engine within 48 GiB, no physical GPU is selected
  and the exact configuration has an owner qualification that has not expired.
\<close>
theorem started_serving_within_policy:
  assumes "Submit H w t0 t1 peer req e = (e', res, Some r)"
    and "d_Action (hq_Draft req) \<in> {''serving.configure'', ''resources.configure'', ''serving.start'', ''serving.restart''}"
  defines "s \<equiv> c_Serving (hq_Desired req)" and "b \<equiv> c_Resources (hq_Desired req)"
  shows "peer = po_AllowedUID (hx_Policy e) \<and> d_Target (hq_Draft req) = po_Target (hx_Policy e) \<and>
    s_CPUOffloadGiB s * 1024 + r_SharedMemoryMiB b < r_MemoryMiB b \<and> r_MemoryMiB b \<le> 49152 \<and>
    1 \<le> r_GPUCount b \<and> r_GPUCount b \<le> 2 \<and> r_PhysicalGPU b = [] \<and>
    (\<exists>q. map_of (po_QualifiedConfigurations (hx_Policy e)) (ConfigurationHash H s b) = Some q \<and> wo_Now w < q_ExpiresAt q)"
proof -
  from assms(1) obtain e1 where g: "submit_guards H w req e = None" by (cases rule: Submit_cases) auto
  note v = submit_guards_None(4) [OF g]
  have peer: "peer = po_AllowedUID (hx_Policy e)" using assms(1) by (auto simp: Submit_def split: if_splits)
  have "validate_serving H (wo_Now w) (hx_Policy e) (hq_Desired req) = None"
    using v assms(2) by (auto simp: helper_validate_def Let_def PerformanceAction_def MemoryAction_def split: if_splits)
  then have sv: "0 \<le> s_CPUOffloadGiB s" "s_CPUOffloadGiB s \<le> 32" "64 \<le> r_SharedMemoryMiB b" "r_SharedMemoryMiB b < r_MemoryMiB b"
      "r_MemoryMiB b \<le> 49152" "1 \<le> r_GPUCount b" "r_GPUCount b \<le> 2" "r_PhysicalGPU b = []"
      "i64 (s_CPUOffloadGiB s * 1024 + r_SharedMemoryMiB b) < r_MemoryMiB b"
    and q: "qualification_current (map_of (po_QualifiedConfigurations (hx_Policy e)) (ConfigurationHash H s b)) (wo_Now w)"
    by (auto simp: validate_serving_def Let_def s_def b_def)
  have "i64 (s_CPUOffloadGiB s * 1024 + r_SharedMemoryMiB b) = s_CPUOffloadGiB s * 1024 + r_SharedMemoryMiB b"
    using sv(1-5) by (intro i64_id) (simp add: in_i64_def)
  with sv q peer helper_validate_None(1) [OF v] show ?thesis
    by (auto simp: qualification_current_def split: option.splits)
qed

end
