(* ===== verification/HelperScenario.thy ===== *)
theory HelperScenario
  imports HelperRun
begin

text \<open>
  A run of the root helper: a profile switch with an uncertain effect, then the explicit restore of
  its chain, with a healthy journal and with a journal that stops in the middle of the settlement.
  The run inhabits the hypotheses of the theorems on the helper.
\<close>

definition hs_H :: digest where "hs_H = (\<lambda>_. ''h'')"

definition hs_config :: Configuration where "hs_config = zero_configuration\<lparr>c_Revision := ''h''\<rparr>"

definition hs_world :: World where
  "hs_world = \<lparr>wo_Source = Content hs_config, wo_ReadError = Plain ''io'', wo_Now = 5, wo_Verify = None, wo_Lock = None\<rparr>"

definition hs_request :: "string \<Rightarrow> Draft \<Rightarrow> HostRequest" where
  "hs_request k d = \<lparr>hq_Version = 1, hq_ID = k, hq_ExecutionIdentity = ''owner'', hq_PayloadHash = ''h'', hq_Draft = d, hq_Desired = hs_config\<rparr>"

definition hs_switch :: HostRequest where
  "hs_switch = hs_request ''switch-1'' (zero_draft\<lparr>d_Action := ''profile.switch'', d_Profile := ''ai'', d_Target := ''node'', d_SourceRevision := ''h''\<rparr>)"

definition hs_restore :: HostRequest where
  "hs_restore = hs_request ''restore-1'' (zero_draft\<lparr>d_Action := ''profile.restore'', d_RecoveryID := ''switch-1'', d_Target := ''node'', d_SourceRevision := ''h''\<rparr>)"

definition hs_start :: HelperState where
  "hs_start = \<lparr>hp_exec = \<lparr>hx_Policy = ex_policy, hx_Records = [], hx_Active = False, hx_JournalFailed = False, hx_Disk = [], hx_Write = (\<lambda>_. Written)\<rparr>,
     hp_running = None, hp_started = [], hp_up = False\<rparr>"

definition hs_boot :: "HelperState \<Rightarrow> HelperState" where
  "hs_boot m = (if hp_up m then m else
     case NewExecutor hs_H (\<lambda>_. None) (\<lambda>_. 9) None None ex_policy (hx_Disk (hp_exec m)) (\<lambda>_. Written) of
       (e', x) \<Rightarrow> m\<lparr>hp_exec := e', hp_running := None, hp_up := (x = None)\<rparr>)"

definition hs_submit :: "time \<Rightarrow> HostRequest \<Rightarrow> HelperState \<Rightarrow> HelperState" where
  "hs_submit t req m = (if \<not> hp_up m then m else
     case Submit hs_H hs_world t t 970 req (hp_exec m) of
       (e', res, run) \<Rightarrow> m\<lparr>hp_exec := e', hp_running := (case run of None \<Rightarrow> hp_running m | Some r \<Rightarrow> Some r),
         hp_started := (case run of None \<Rightarrow> hp_started m | Some r \<Rightarrow> hp_started m @ [re_Request r])\<rparr>)"

definition hs_complete :: "run_error option \<Rightarrow> HelperState \<Rightarrow> HelperState" where
  "hs_complete x m = (if \<not> hp_up m then m else case hp_running m of None \<Rightarrow> m
     | Some r \<Rightarrow> m\<lparr>hp_exec := helper_finish 7 8 (\<lambda>_. 9) [] x None r (hp_exec m), hp_running := None\<rparr>)"

definition hs_break :: "HelperState \<Rightarrow> HelperState" where
  "hs_break m = m\<lparr>hp_exec := (hp_exec m)\<lparr>hx_Write := (\<lambda>r. if re_State r = ''failed'' then NotWritten else Written)\<rparr>\<rparr>"

definition hs_fenced :: HelperState where
  "hs_fenced = hs_complete (Some (EffectFailure ''lost'')) (hs_submit 3 hs_switch (hs_boot hs_start))"

lemma reach_boot: "helper_reachable hs_H m \<Longrightarrow> helper_reachable hs_H (hs_boot m)"
proof -
  assume r: "helper_reachable hs_H m"
  obtain e' x where n: "NewExecutor hs_H (\<lambda>_. None) (\<lambda>_. 9) None None ex_policy (hx_Disk (hp_exec m)) (\<lambda>_. Written) = (e', x)" by fastforce
  show ?thesis
  proof (cases "hp_up m")
    case False
    from helper_step.restart [OF False n] r n False show ?thesis by (auto simp: hs_boot_def intro: helper_reachable.step)
  qed (use r in \<open>simp add: hs_boot_def\<close>)
qed

lemma step_submit:
  assumes "hp_up m"
  shows "helper_step hs_H m (hs_submit t req m)"
proof -
  obtain e' res run where "Submit hs_H hs_world t t 970 req (hp_exec m) = (e', res, run)" by (metis prod_cases3)
  with helper_step.submit [OF assms this] assms show ?thesis by (simp add: hs_submit_def)
qed

lemma reach_submit: "helper_reachable hs_H m \<Longrightarrow> helper_reachable hs_H (hs_submit t req m)"
  using step_submit by (cases "hp_up m") (auto simp: hs_submit_def intro: helper_reachable.step)

lemma step_complete: "hp_up m \<Longrightarrow> hp_running m = Some r \<Longrightarrow> helper_step hs_H m (hs_complete x m)"
  using helper_step.complete [of m r] by (simp add: hs_complete_def)

lemma reach_complete: "helper_reachable hs_H m \<Longrightarrow> helper_reachable hs_H (hs_complete x m)"
  using step_complete [of m _ x] by (cases "hp_up m"; cases "hp_running m") (auto simp: hs_complete_def intro: helper_reachable.step)

lemma reach_fenced: "helper_reachable hs_H hs_fenced"
proof -
  have "helper_reachable hs_H hs_start" by (rule helper_reachable.start) (simp add: hs_start_def helper_initial_def)
  then show ?thesis unfolding hs_fenced_def by (intro reach_complete reach_submit reach_boot)
qed

section \<open>What the run shows\<close>

definition is_unresolved :: "HostRecord option \<Rightarrow> bool" where
  "is_unresolved x = (case x of None \<Rightarrow> False | Some r \<Rightarrow> unresolved r)"

definition cleared_facts :: "HelperState \<Rightarrow> bool" where
  "cleared_facts m \<longleftrightarrow> \<not> hx_JournalFailed (hp_exec m) \<and> \<not> is_unresolved (on_disk (hx_Disk (hp_exec m)) ''switch-1'') \<and>
     \<not> Option.is_none (map_of (hx_Records (hp_exec m)) ''switch-1'')"

definition broken_facts :: "HelperState \<Rightarrow> bool" where
  "broken_facts m \<longleftrightarrow> hx_JournalFailed (hp_exec m) \<and> is_unresolved (on_disk (hx_Disk (hp_exec m)) ''switch-1'') \<and>
     (case NewExecutor hs_H (\<lambda>_. None) (\<lambda>_. 9) None None ex_policy (hx_Disk (hp_exec m)) (\<lambda>_. Written) of
        (e, x) \<Rightarrow> Option.is_none x \<and> (case map_of (hx_Records e) ''restore-1'' of None \<Rightarrow> False | Some r \<Rightarrow> completed_restore r))"

definition restoring_facts :: "HelperState \<Rightarrow> bool" where
  "restoring_facts m \<longleftrightarrow> hp_up m \<and> map hq_ID (hp_started m) = [''switch-1'', ''restore-1''] \<and>
     (case hp_running m of None \<Rightarrow> False | Some r \<Rightarrow> re_ID r = ''restore-1'' \<and> d_RecoveryID (re_Draft r) \<noteq> []) \<and>
     is_unresolved (on_disk (hx_Disk (hp_exec m)) ''switch-1'') \<and>
     cleared_facts (hs_complete None m) \<and> broken_facts (hs_complete None (hs_break m))"

definition fenced_facts :: "HelperState \<Rightarrow> bool" where
  "fenced_facts m \<longleftrightarrow> hp_up m \<and> is_unresolved (map_of (hx_Records (hp_exec m)) ''switch-1'') \<and> length (hp_started m) = 1 \<and>
     restoring_facts (hs_submit 4 hs_restore m)"

lemma hs_fenced_facts: "fenced_facts hs_fenced"
  by code_simp

abbreviation hs_restoring :: HelperState where "hs_restoring \<equiv> hs_submit 4 hs_restore hs_fenced"

lemma is_unresolved_Some: "is_unresolved x \<longleftrightarrow> (\<exists>r. x = Some r \<and> unresolved r)"
  by (simp add: is_unresolved_def split: option.splits)

lemma hs_fenced_parts:
  "hp_up hs_fenced" "\<exists>u. map_of (hx_Records (hp_exec hs_fenced)) ''switch-1'' = Some u \<and> unresolved u" "length (hp_started hs_fenced) = 1"
  using hs_fenced_facts unfolding fenced_facts_def is_unresolved_Some by blast+

lemma hs_restoring_parts:
  "hp_up hs_restoring" "map hq_ID (hp_started hs_restoring) = [''switch-1'', ''restore-1'']"
  "\<exists>r. hp_running hs_restoring = Some r \<and> re_ID r = ''restore-1'' \<and> d_RecoveryID (re_Draft r) \<noteq> []"
  "\<exists>u. on_disk (hx_Disk (hp_exec hs_restoring)) ''switch-1'' = Some u \<and> unresolved u"
  "cleared_facts (hs_complete None hs_restoring)" "broken_facts (hs_complete None (hs_break hs_restoring))"
proof -
  have f: "restoring_facts hs_restoring" using hs_fenced_facts unfolding fenced_facts_def by (elim conjE)
  show "hp_up hs_restoring" "map hq_ID (hp_started hs_restoring) = [''switch-1'', ''restore-1'']"
    "\<exists>u. on_disk (hx_Disk (hp_exec hs_restoring)) ''switch-1'' = Some u \<and> unresolved u"
    "cleared_facts (hs_complete None hs_restoring)" "broken_facts (hs_complete None (hs_break hs_restoring))"
    using f unfolding restoring_facts_def is_unresolved_Some by blast+
  show "\<exists>r. hp_running hs_restoring = Some r \<and> re_ID r = ''restore-1'' \<and> d_RecoveryID (re_Draft r) \<noteq> []"
    using f unfolding restoring_facts_def by (cases "hp_running hs_restoring") simp_all
qed

lemma reach_restoring: "helper_reachable hs_H hs_restoring"
  using reach_fenced by (rule reach_submit)

theorem helper_runs_once_witness:
  "map hq_ID (hp_started hs_restoring) = [''switch-1'', ''restore-1''] \<and> distinct (map hq_ID (hp_started hs_restoring))"
  using helper_runs_once [OF reach_restoring] hs_restoring_parts(2) by blast

lemma hs_started: "\<exists>q. hp_started hs_restoring = hp_started hs_fenced @ [q] \<and> hq_ID q = ''restore-1''"
proof -
  obtain e' res run where s: "Submit hs_H hs_world 4 4 970 hs_restore (hp_exec hs_fenced) = (e', res, run)" by (metis prod_cases3)
  have eq: "hp_started hs_restoring = (case run of None \<Rightarrow> hp_started hs_fenced | Some r \<Rightarrow> hp_started hs_fenced @ [re_Request r])"
    using hs_fenced_parts(1) s by (simp add: hs_submit_def)
  have two: "length (hp_started hs_restoring) = 2" using hs_restoring_parts(2) by (metis length_map length_Cons list.size(3) numeral_2_eq_2)
  show ?thesis
  proof (cases run)
    case None
    with eq two hs_fenced_parts(3) show ?thesis by simp
  next
    case (Some r)
    then have st: "hp_started hs_restoring = hp_started hs_fenced @ [re_Request r]" using eq by simp
    have "last (map hq_ID (hp_started hs_restoring)) = ''restore-1''" unfolding hs_restoring_parts(2) by simp
    with st show ?thesis by (simp add: last_map)
  qed
qed

theorem helper_starts_behind_fence_witness:
  "\<exists>q. hp_started hs_restoring = hp_started hs_fenced @ [q] \<and> d_Action (hq_Draft q) = ''profile.restore'' \<and>
     (\<exists>ch. RecoveryChain (recoveryLinks (hx_Records (hp_exec hs_fenced))) (d_RecoveryID (hq_Draft q)) = Inr ch \<and> ''switch-1'' \<in> set ch)"
proof -
  obtain q where q: "hp_started hs_restoring = hp_started hs_fenced @ [q]" using hs_started by blast
  obtain u where u: "map_of (hx_Records (hp_exec hs_fenced)) ''switch-1'' = Some u" "unresolved u" using hs_fenced_parts(2) by blast
  from helper_starts_behind_fence [OF reach_fenced step_submit [OF hs_fenced_parts(1)] q u] q show ?thesis by blast
qed

theorem fence_lifted_only_by_restore_witness:
  "\<exists>u r'. on_disk (hx_Disk (hp_exec hs_restoring)) ''switch-1'' = Some u \<and> unresolved u \<and>
     on_disk (hx_Disk (hp_exec (hs_complete None hs_restoring))) ''switch-1'' = Some r' \<and>
     resolved_by (on_disk (hx_Disk (hp_exec (hs_complete None hs_restoring)))) ''switch-1'' u r'"
proof -
  obtain m where m: "m = hs_restoring" by blast
  obtain u where u: "on_disk (hx_Disk (hp_exec m)) ''switch-1'' = Some u" "unresolved u" using hs_restoring_parts(4) m by blast
  obtain r where r: "hp_running m = Some r" using hs_restoring_parts(3) m by blast
  have up: "hp_up m" and reach: "helper_reachable hs_H m" and c: "cleared_facts (hs_complete None m)"
    using hs_restoring_parts(1,5) reach_restoring m by blast+
  from fence_lifted_only_by_restore [OF reach step_complete [OF up r] u] obtain r' where
    r': "on_disk (hx_Disk (hp_exec (hs_complete None m))) ''switch-1'' = Some r'"
      "unresolved r' \<or> resolved_by (on_disk (hx_Disk (hp_exec (hs_complete None m)))) ''switch-1'' u r'" by blast
  have "\<not> unresolved r'" using c r'(1) by (simp add: cleared_facts_def is_unresolved_Some)
  with u r' show ?thesis unfolding m by blast
qed

theorem restart_settles_journal_witness:
  "\<exists>m e r ch. m = hs_complete None (hs_break hs_restoring) \<and> is_unresolved (on_disk (hx_Disk (hp_exec m)) ''switch-1'') \<and>
     NewExecutor hs_H (\<lambda>_. None) (\<lambda>_. 9) None None ex_policy (hx_Disk (hp_exec m)) (\<lambda>_. Written) = (e, None) \<and>
     map_of (hx_Records e) ''restore-1'' = Some r \<and> RecoveryChain (recoveryLinks (hx_Records e)) ''restore-1'' = Inr ch"
proof -
  obtain m where m: "m = hs_complete None (hs_break hs_restoring)" by blast
  have f: "broken_facts m" using hs_restoring_parts(6) m by blast
  have "helper_step hs_H hs_restoring (hs_break hs_restoring)" unfolding hs_break_def by (rule helper_step.environment)
  with reach_restoring have "helper_reachable hs_H (hs_break hs_restoring)" by (rule helper_reachable.step)
  then have "helper_reachable hs_H m" unfolding m by (rule reach_complete)
  then have wf: "wf_map (hx_Disk (hp_exec m))" using helper_reachable_invariant by (simp add: helper_invariant_def Let_def)
  obtain e x where n: "NewExecutor hs_H (\<lambda>_. None) (\<lambda>_. 9) None None ex_policy (hx_Disk (hp_exec m)) (\<lambda>_. Written) = (e, x)" by fastforce
  have x: "x = None" using f unfolding broken_facts_def n by (simp add: Option.is_none_def)
  obtain r where r: "map_of (hx_Records e) ''restore-1'' = Some r" "completed_restore r"
    using f unfolding broken_facts_def n by (cases "map_of (hx_Records e) ''restore-1''") simp_all
  from restart_settles_journal [OF n [unfolded x] wf r(1)] r(2) obtain ch where
    "RecoveryChain (recoveryLinks (hx_Records e)) ''restore-1'' = Inr ch" by blast
  moreover have "is_unresolved (on_disk (hx_Disk (hp_exec m)) ''switch-1'')" using f unfolding broken_facts_def by (elim conjE)
  ultimately show ?thesis using m n x r(1) by blast
qed

theorem completed_restore_clears_fence_witness:
  "\<exists>r u. hp_running hs_restoring = Some r \<and>
     map_of (hx_Records (helper_finish 7 8 (\<lambda>_. 9) [] None None r (hp_exec hs_restoring))) ''switch-1'' = Some u \<and> \<not> unresolved u"
proof -
  obtain m where m: "m = hs_restoring" by blast
  obtain r where r: "hp_running m = Some r" "d_RecoveryID (re_Draft r) \<noteq> []" using hs_restoring_parts(3) m by blast
  have up: "hp_up m" and reach: "helper_reachable hs_H m" and c: "cleared_facts (hs_complete None m)"
    using hs_restoring_parts(1,5) reach_restoring m by blast+
  have e: "hp_exec (hs_complete None m) = helper_finish 7 8 (\<lambda>_. 9) [] None None r (hp_exec m)"
    using up r(1) by (simp add: hs_complete_def)
  have jf: "\<not> hx_JournalFailed (helper_finish 7 8 (\<lambda>_. 9) [] None None r (hp_exec m))" using c unfolding cleared_facts_def e by blast
  obtain u where u: "map_of (hx_Records (helper_finish 7 8 (\<lambda>_. 9) [] None None r (hp_exec m))) ''switch-1'' = Some u"
    using c unfolding cleared_facts_def e by (auto simp: Option.is_none_def simp del: map_of_eq_Some_iff map_of_eq_None_iff)
  from completed_restore_clears_fence [OF reach up r refl jf u] r(1) u show ?thesis unfolding m by blast
qed

section \<open>A qualified serving request\<close>

definition hs_qualification :: Qualification where
  "hs_qualification = \<lparr>q_Image = ''img@sha256:1'', q_ModelRevision = replicate 40 CHR ''a'', q_ModelPath = ''/models/m'', q_ExpiresAt = 9,
     q_HostModelPath = ''/m'', q_Files = []\<rparr>"

definition hs_serving :: HostRequest where
  "hs_serving = (hs_request ''serving-1'' (zero_draft\<lparr>d_Action := ''serving.start'', d_Target := ''node'', d_SourceRevision := ''h''\<rparr>))
     \<lparr>hq_Desired := hs_config\<lparr>c_Serving := \<lparr>s_Model = ''m'', s_Context = 4096, s_Concurrency = 2, s_MemoryFraction = 1 / 2, s_CPUOffloadGiB = 4,
          s_MaxRequestTokens = 0, s_MaxOutputTokens = 0\<rparr>,
        c_Resources := \<lparr>r_CPU = 8, r_MemoryMiB = 16384, r_SharedMemoryMiB = 1024, r_GPUCount = 1, r_PhysicalGPU = []\<rparr>\<rparr>\<rparr>"

definition hs_qualified :: Executor where
  "hs_qualified = (hp_exec hs_start)\<lparr>hx_Policy := ex_policy\<lparr>po_QualifiedConfigurations := [(''h'', hs_qualification)]\<rparr>\<rparr>"

lemma hs_serving_runs: "\<not> Option.is_none (snd (snd (Submit hs_H hs_world 3 3 970 hs_serving hs_qualified)))"
  by code_simp

theorem started_serving_within_policy_witness:
  "\<exists>e' res r. Submit hs_H hs_world 3 3 970 hs_serving hs_qualified = (e', res, Some r) \<and>
     s_CPUOffloadGiB (c_Serving (hq_Desired hs_serving)) * 1024 + r_SharedMemoryMiB (c_Resources (hq_Desired hs_serving)) <
       r_MemoryMiB (c_Resources (hq_Desired hs_serving))"
proof -
  obtain e' res run where s: "Submit hs_H hs_world 3 3 970 hs_serving hs_qualified = (e', res, run)" by (metis prod_cases3)
  then obtain r where r: "run = Some r" using hs_serving_runs by (cases run) (simp_all add: Option.is_none_def)
  have a: "d_Action (hq_Draft hs_serving) \<in> {''serving.configure'', ''resources.configure'', ''serving.start'', ''serving.restart''}"
    by (simp add: hs_serving_def hs_request_def)
  from started_serving_within_policy [OF s [unfolded r] a] s r show ?thesis by blast
qed

end
