(* ===== verification/HostServer.thy ===== *)
theory HostServer
  imports Helper
begin

text \<open>
  The helper's local HTTP surface, the handler of \<open>internal/hostexec/server.go\<close>. The peer identity is
  the one the kernel reports for the Unix connection; a body is the result of its strict decoding. The
  read-only services behind the preview, artifact and inventory paths are arguments and return their
  encoded data.
\<close>

record HostCall =
  hc_Peer :: "32 word option"
  hc_Host :: string
  hc_Method :: string
  hc_Path :: string
  hc_Request :: "HostRequest option"
  hc_Artifact :: "(string \<times> string) option"

record HostServices =
  sx_PerformancePreview :: "Draft \<Rightarrow> Configuration \<Rightarrow> err + string"
  sx_PerformanceArtifact :: "string \<Rightarrow> string \<Rightarrow> err + string"
  sx_MemoryPreview :: "Draft \<Rightarrow> Configuration \<Rightarrow> err + string"
  sx_MemoryArtifact :: "string \<Rightarrow> string \<Rightarrow> err + string"
  sx_Snapshot :: "err + string"

type_synonym response = "int \<times> HostResult"

definition fail_response :: "int \<Rightarrow> string \<Rightarrow> response" where
  "fail_response code message = (code, \<lparr>hr_ID = [], hr_State = ''failed'', hr_Phase = [], hr_Message = message, hr_Data = []\<rparr>)"

definition data_response :: "int \<Rightarrow> err + string \<Rightarrow> response" where
  "data_response code x = (case x of
       Inl e \<Rightarrow> fail_response code (err_message e)
     | Inr data \<Rightarrow> (200, \<lparr>hr_ID = [], hr_State = ''succeeded'', hr_Phase = [], hr_Message = [], hr_Data = data\<rparr>))"

definition preview_response :: "string \<Rightarrow> (Draft \<Rightarrow> Configuration \<Rightarrow> err + string) \<Rightarrow> HostCall \<Rightarrow> response" where
  "preview_response refused f c = (case hc_Request c of
       None \<Rightarrow> fail_response 400 refused
     | Some r \<Rightarrow> data_response 409 (f (hq_Draft r) (hq_Desired r)))"

definition artifact_response :: "string \<Rightarrow> (string \<Rightarrow> string \<Rightarrow> err + string) \<Rightarrow> HostCall \<Rightarrow> response" where
  "artifact_response refused f c = (case hc_Artifact c of
       None \<Rightarrow> fail_response 400 refused
     | Some (k, name) \<Rightarrow> data_response 409 (f k name))"

definition status_response :: "string \<Rightarrow> Executor \<Rightarrow> response" where
  "status_response k e =
     (if \<not> validID k then fail_response 400 ''invalid operation ID''
      else case Status e k of Inl x \<Rightarrow> fail_response 404 (err_message x) | Inr res \<Rightarrow> (200, res))"

definition submit_response :: "err + HostResult \<Rightarrow> response" where
  "submit_response x = (case x of Inl e \<Rightarrow> fail_response 409 (err_message e) | Inr res \<Rightarrow> (202, res))"

definition hostd_handler :: "digest \<Rightarrow> World \<Rightarrow> time \<Rightarrow> time \<Rightarrow> HostServices \<Rightarrow> HostCall \<Rightarrow> Executor
    \<Rightarrow> Executor \<times> response \<times> HostRecord option" where
  "hostd_handler H w t0 t1 sx c e =
     (case hc_Peer c of
        None \<Rightarrow> (e, fail_response 403 ''Unix peer is not authorized'', None)
      | Some uid \<Rightarrow>
          if uid \<noteq> po_AllowedUID (hx_Policy e) then (e, fail_response 403 ''Unix peer is not authorized'', None)
          else if hc_Host c \<noteq> ''host-executor'' then (e, fail_response 400 ''invalid host executor Host'', None)
          else if hc_Method c = ''POST'' \<and> hc_Path c = ''/v1/performance/preview''
            then (e, preview_response ''invalid performance request'' (sx_PerformancePreview sx) c, None)
          else if hc_Method c = ''POST'' \<and> hc_Path c = ''/v1/performance/artifact''
            then (e, artifact_response ''invalid performance artifact request'' (sx_PerformanceArtifact sx) c, None)
          else if hc_Method c = ''POST'' \<and> hc_Path c = ''/v1/memory/preview''
            then (e, preview_response ''invalid memory request'' (sx_MemoryPreview sx) c, None)
          else if hc_Method c = ''POST'' \<and> hc_Path c = ''/v1/memory/artifact''
            then (e, artifact_response ''invalid memory artifact request'' (sx_MemoryArtifact sx) c, None)
          else if hc_Method c = ''GET'' \<and> hc_Path c = ''/v1/inventory'' then (e, data_response 503 (sx_Snapshot sx), None)
          else if hc_Method c = ''POST'' \<and> hc_Path c = ''/v1/operations''
            then (case hc_Request c of
                    None \<Rightarrow> (e, fail_response 400 ''invalid typed helper request'', None)
                  | Some r \<Rightarrow> (case Submit H w t0 t1 uid r e of (e', res, run) \<Rightarrow> (e', submit_response res, run)))
          else if hc_Method c = ''GET'' \<and> HasPrefix (hc_Path c) ''/v1/operations/''
            then (e, status_response (TrimPrefix (hc_Path c) ''/v1/operations/'') e, None)
          else (e, fail_response 404 ''fixed executor operation not found'', None))"

text \<open>
  The helper's surface mutates through one door only: a call that changes the executor, or
  starts the adapter, comes from the configured peer over the helper's own host name, is a \<open>POST\<close> to
  the operations path with a decoded typed request, and its effect is exactly the submission of that request.
\<close>
theorem handler_mutates_only_by_submit:
  assumes "hostd_handler H w t0 t1 sx c e = (e', resp, run)" and "e' \<noteq> e \<or> run \<noteq> None"
  shows "hc_Peer c = Some (po_AllowedUID (hx_Policy e)) \<and> hc_Host c = ''host-executor'' \<and> hc_Method c = ''POST'' \<and>
    hc_Path c = ''/v1/operations'' \<and>
    (\<exists>r res. hc_Request c = Some r \<and> Submit H w t0 t1 (po_AllowedUID (hx_Policy e)) r e = (e', res, run) \<and>
       resp = submit_response res)"
  using assms unfolding hostd_handler_def
  by (auto split: option.splits if_splits prod.splits)

text \<open>
  Resubmission over the surface is idempotent: while a request is recorded, submitting its
  identifier again leaves the executor as it is and starts nothing; the reply is the recorded result
  when peer and payload hash agree, and a conflict otherwise.
\<close>
theorem resubmission_is_idempotent:
  assumes "hostd_handler H w t0 t1 sx c e = (e', resp, run)"
    and "hc_Path c = ''/v1/operations''" "hc_Method c = ''POST''" "hc_Peer c = Some (po_AllowedUID (hx_Policy e))" "hc_Host c = ''host-executor''"
    and "hc_Request c = Some r" and "map_of (hx_Records e) (hq_ID r) = Some old"
    and "hq_Version r = ContractVersion" "validID (hq_ID r)" "safeIdentity (hq_ExecutionIdentity r)" "hq_PayloadHash r = RequestHash H r"
  shows "e' = e \<and> run = None \<and>
    resp = (if hq_PayloadHash (re_Request old) = hq_PayloadHash r \<and> re_PeerUID old = po_AllowedUID (hx_Policy e)
            then (202, visibleResult e old) else fail_response 409 ''operation ID payload conflict'')"
  using assms by (auto simp: hostd_handler_def Submit_def submit_response_def)

section \<open>A call of each kind\<close>

definition hv_H :: digest where "hv_H = (\<lambda>_. ''h'')"

definition hv_world :: World where
  "hv_world = \<lparr>wo_Source = Missing, wo_ReadError = Plain ''io'', wo_Now = 5, wo_Verify = None, wo_Lock = None\<rparr>"

definition hv_request :: HostRequest where
  "hv_request = \<lparr>hq_Version = 1, hq_ID = ''refresh-1'', hq_ExecutionIdentity = ''owner'', hq_PayloadHash = ''h'',
     hq_Draft = zero_draft\<lparr>d_Action := ''hardware.refresh'', d_Target := ''node''\<rparr>, hq_Desired = zero_configuration\<rparr>"

definition hv_call :: HostCall where
  "hv_call = \<lparr>hc_Peer = Some 970, hc_Host = ''host-executor'', hc_Method = ''POST'', hc_Path = ''/v1/operations'', hc_Request = Some hv_request, hc_Artifact = None\<rparr>"

definition hv_services :: HostServices where
  "hv_services = \<lparr>sx_PerformancePreview = (\<lambda>_ _. Inr []), sx_PerformanceArtifact = (\<lambda>_ _. Inr []), sx_MemoryPreview = (\<lambda>_ _. Inr []),
     sx_MemoryArtifact = (\<lambda>_ _. Inr []), sx_Snapshot = Inr []\<rparr>"

definition hv_exec :: Executor where
  "hv_exec = \<lparr>hx_Policy = ex_policy, hx_Records = [], hx_Active = False, hx_JournalFailed = False, hx_Disk = [], hx_Write = (\<lambda>_. Written)\<rparr>"

lemma hv_runs: "\<not> Option.is_none (snd (snd (hostd_handler hv_H hv_world 1 1 hv_services hv_call hv_exec)))"
  by code_simp

theorem handler_mutates_only_by_submit_witness:
  "\<exists>e' resp run. hostd_handler hv_H hv_world 1 1 hv_services hv_call hv_exec = (e', resp, run) \<and> run \<noteq> None \<and>
     hc_Path hv_call = ''/v1/operations''"
proof -
  obtain e' resp run where h: "hostd_handler hv_H hv_world 1 1 hv_services hv_call hv_exec = (e', resp, run)" by (metis prod_cases3)
  then have run: "run \<noteq> None" using hv_runs by (cases run) simp_all
  from handler_mutates_only_by_submit [OF h] h run show ?thesis by blast
qed

definition hv_old :: HostRecord where
  "hv_old = zero_host_record\<lparr>re_Request := hv_request, re_PeerUID := 970\<rparr>"

theorem resubmission_is_idempotent_witness:
  "hostd_handler hv_H hv_world 1 1 hv_services hv_call (hv_exec\<lparr>hx_Records := [(''refresh-1'', hv_old)]\<rparr>) =
     (hv_exec\<lparr>hx_Records := [(''refresh-1'', hv_old)]\<rparr>, (202, visibleResult (hv_exec\<lparr>hx_Records := [(''refresh-1'', hv_old)]\<rparr>) hv_old), None)"
proof -
  let ?e = "hv_exec\<lparr>hx_Records := [(''refresh-1'', hv_old)]\<rparr>"
  obtain e' resp run where h: "hostd_handler hv_H hv_world 1 1 hv_services hv_call ?e = (e', resp, run)" by (metis prod_cases3)
  have uid: "po_AllowedUID (hx_Policy hv_exec) = 970" by (simp add: hv_exec_def ex_policy_def)
  have ok: "hc_Path hv_call = ''/v1/operations''" "hc_Method hv_call = ''POST''" "hc_Peer hv_call = Some (po_AllowedUID (hx_Policy ?e))"
    "hc_Host hv_call = ''host-executor''" "hc_Request hv_call = Some hv_request" "map_of (hx_Records ?e) (hq_ID hv_request) = Some hv_old"
    "hq_Version hv_request = ContractVersion" "validID (hq_ID hv_request)" "safeIdentity (hq_ExecutionIdentity hv_request)"
    "hq_PayloadHash hv_request = RequestHash hv_H hv_request"
    by (simp_all add: hv_call_def hv_request_def uid ContractVersion_def validID_def char_classes safeIdentity_def ContainsAny_def RequestHash_def hv_H_def)
  from resubmission_is_idempotent [OF h ok] h show ?thesis by (simp add: uid hv_old_def)
qed

end
