(* ===== verification/Worker.thy ===== *)
theory Worker
  imports HostPolicy
begin

text \<open>
  The unprivileged build worker, \<open>internal/worker/worker.go\<close> with the restart disposition of
  \<open>linux.go\<close>: its policy and budgets, the durable records, the request handler with its
  single-build queue and recovery fence, the build goroutine and the verification of the staged
  source. The contained build itself is the outcome the handler's goroutine receives.
\<close>

section \<open>Policy, requests and records\<close>

record WorkerPolicy =
  wp_Version :: int
  wp_WorkerUID :: int
  wp_APIUID :: int
  wp_Socket :: string
  wp_StateDir :: string
  wp_CgroupRoot :: string
  wp_ScratchRoot :: string
  wp_CacheRoot :: string
  wp_InhibitPath :: string
  wp_SourceRoot :: string
  wp_SourceManifest :: string
  wp_SourceManifestSHA256 :: string
  wp_SourceRevision :: string
  wp_ROCmRoot :: string
  wp_GPUTarget :: string
  wp_HardwarePath :: string
  wp_ToolchainSHA256 :: "string gomap"
  wp_SunshineSourceRoot :: string
  wp_SunshineManifest :: string
  wp_SunshineManifestSHA256 :: string
  wp_Jobs :: int
  wp_MemoryMiB :: int
  wp_ScratchGiB :: int
  wp_CacheGiB :: int
  wp_MaxLogBytes :: int
  wp_MaxMinutes :: int

record WorkerRequest =
  wq_ID :: string
  wq_Actor :: string
  wq_Recipe :: string
  wq_Hash :: string
  wq_Budgets :: CacheBudgets
  wq_SourceRevision :: string

record WorkerRecord =
  wr_Request :: WorkerRequest
  wr_Result :: Result
  wr_UpdatedAt :: time

definition SourceCommit :: string where "SourceCommit = ''427291b5b34cd914a31b3fd3b61a68f6184f4b9f''"
definition SunshineCommit :: string where "SunshineCommit = ''cb72dffa3233c5815cd5ba88f09f049dd679ba75''"

definition worker_request_json :: "WorkerRequest \<Rightarrow> json" where
  "worker_request_json r = JObj [(''id'', JStr (wq_ID r)), (''actor'', JStr (wq_Actor r)), (''recipe'', JStr (wq_Recipe r)),
     (''hash'', JStr (wq_Hash r)), (''budgets'', caches_json (wq_Budgets r)), (''source_revision'', JStr (wq_SourceRevision r))]"

definition WorkerRequestHash :: "digest \<Rightarrow> WorkerRequest \<Rightarrow> string" where
  "WorkerRequestHash H r = H (worker_request_json (r\<lparr>wq_Hash := []\<rparr>))"

text \<open>The expression \<open>^[a-zA-Z0-9_-]{8,100}$\<close>.\<close>

definition worker_validID :: "string \<Rightarrow> bool" where
  "worker_validID s \<longleftrightarrow> 8 \<le> length s \<and> length s \<le> 100 \<and> list_all (\<lambda>c. is_alnum c \<or> c = CHR ''_'' \<or> c = CHR ''-'') s"

definition msg_worker_uid :: string where "msg_worker_uid = ''worker requires its separate configured unprivileged UID''"
definition msg_worker_bounds :: string where "msg_worker_bounds = ''invalid worker bounds''"
definition msg_worker_source :: string where "msg_worker_source = ''worker source does not match reviewed recipe''"
definition msg_worker_paths :: string where "msg_worker_paths = ''worker policy requires explicit bounded absolute paths''"
definition msg_worker_tools :: string where "msg_worker_tools = ''reviewed compiler/toolchain digests are required''"
definition msg_worker_inhibit :: string where "msg_worker_inhibit = ''worker must honor the legacy build inhibition marker''"
definition msg_worker_budgets :: string where "msg_worker_budgets = ''requested build/source budgets exceed installed worker ceilings''"
definition msg_sunshine :: string where "msg_sunshine = ''offline Sunshine source/base/package closure not staged''"

text \<open>\<open>euid\<close> is the effective user; \<open>file\<close> the trust check and strict decoding of the policy file.\<close>

definition LoadWorkerPolicy :: "int \<Rightarrow> (err + WorkerPolicy) \<Rightarrow> err + WorkerPolicy" where
  "LoadWorkerPolicy euid file = (case file of Inl e \<Rightarrow> Inl e | Inr p \<Rightarrow>
     (case first_fail
        [(wp_Version p \<noteq> 1 \<or> wp_WorkerUID p = 0 \<or> wp_WorkerUID p \<noteq> euid \<or> wp_APIUID p = wp_WorkerUID p, Plain msg_worker_uid),
         (wp_Jobs p < 1 \<or> wp_Jobs p > 16 \<or> wp_MemoryMiB p < 4096 \<or> wp_MemoryMiB p > 49152 \<or> wp_ScratchGiB p < 1 \<or> wp_CacheGiB p < 1 \<or>
          wp_MaxLogBytes p < 1024 \<or> wp_MaxLogBytes p > 16 * 2 ^ 20 \<or> wp_MaxMinutes p < 1 \<or> wp_MaxMinutes p > 720, Plain msg_worker_bounds),
         (wp_SourceRevision p \<noteq> SourceCommit \<or> \<not> digest_ok (wp_SourceManifestSHA256 p), Plain msg_worker_source),
         (\<not> list_all (\<lambda>v. IsAbs v \<and> v \<noteq> ''/'' \<and> \<not> ContainsAny v [CHR 0x00, CHR 0x0D, CHR 0x0A])
            [wp_Socket p, wp_StateDir p, wp_CgroupRoot p, wp_ScratchRoot p, wp_CacheRoot p, wp_InhibitPath p, wp_SourceRoot p,
             wp_SourceManifest p, wp_HardwarePath p], Plain msg_worker_paths),
         (\<not> list_all (\<lambda>n. digest_ok (string_at (wp_ToolchainSHA256 p) n)) [''cmake'', ''ninja'', ''ccache'', ''cc'', ''c++'', ''bwrap''],
          Plain msg_worker_tools),
         (wp_InhibitPath p \<noteq> ''/run/workstation/build-inhibit'', Plain msg_worker_inhibit)] of
        Some e \<Rightarrow> Inl e | None \<Rightarrow> Inr p))"

text \<open>The request's budgets within the installed ceilings, and the source of the named recipe.\<close>

definition executionPolicy :: "WorkerPolicy \<Rightarrow> WorkerRequest \<Rightarrow> err + WorkerPolicy" where
  "executionPolicy p r =
     (let b = wq_Budgets r in
      if length (wq_SourceRevision r) \<noteq> 64 \<or> b_BuildJobs b < 1 \<or> b_BuildJobs b > wp_Jobs p \<or> b_BuildMemoryMiB b < 4096 \<or>
        b_BuildMemoryMiB b > wp_MemoryMiB p \<or> b_ScratchGiB b < 1 \<or> b_ScratchGiB b > wp_ScratchGiB p \<or> b_CompilerGiB b < 1 \<or>
        b_CompilerGiB b > wp_CacheGiB p
      then Inl (Plain msg_worker_budgets)
      else let q = p\<lparr>wp_Jobs := b_BuildJobs b, wp_MemoryMiB := b_BuildMemoryMiB b, wp_ScratchGiB := b_ScratchGiB b,
                     wp_CacheGiB := b_CompilerGiB b\<rparr> in
        if wq_Recipe r = ''sunshine-image''
        then if wp_SunshineSourceRoot q = [] \<or> wp_SunshineManifest q = [] \<or> length (wp_SunshineManifestSHA256 q) \<noteq> 64
             then Inl (Plain msg_sunshine)
             else Inr (q\<lparr>wp_SourceRoot := wp_SunshineSourceRoot q, wp_SourceManifest := wp_SunshineManifest q,
                 wp_SourceManifestSHA256 := wp_SunshineManifestSHA256 q, wp_SourceRevision := SunshineCommit\<rparr>)
        else Inr q)"

text \<open>Division of signed integers truncates toward zero.\<close>

definition quotient :: "int \<Rightarrow> int \<Rightarrow> int" where
  "quotient a b = sgn a * sgn b * (\<bar>a\<bar> div \<bar>b\<bar>)"

definition buildJobs :: "int \<Rightarrow> int \<Rightarrow> int \<Rightarrow> err + int" where
  "buildJobs available memoryLimit ceil =
     (let budget = i64 (i64 (available - 16384) - 8192);
          limit = i64 (memoryLimit - 8192);
          budget = (if limit < budget then limit else budget);
          jobs = quotient budget 4096
      in if jobs < 1 then Inl (Plain ''insufficient available RAM after host and link reserves'')
         else Inr (if jobs > ceil then ceil else jobs))"

section \<open>The staged source\<close>

text \<open>
  The parents of a path must be owned by root and closed to others; the manifest's bytes, digest and
  decoded map are \<open>manifest\<close>. Paths of the walk are relative to the source root.
\<close>

fun source_walk :: "(string \<Rightarrow> err option) \<Rightarrow> (string \<Rightarrow> string) \<Rightarrow> (string \<Rightarrow> err + string) \<Rightarrow> string gomap \<Rightarrow> nat
    \<Rightarrow> Entry list \<Rightarrow> err + nat" where
  "source_walk trust HB readf files count [] = Inr count"
| "source_walk trust HB readf files count (en # rest) =
     (case en_Err en of
        Some e \<Rightarrow> Inl e
      | None \<Rightarrow>
          if en_Symlink en then Inl (Plain ''recipe source must not contain symlinks'')
          else case trust (en_Path en) of
                 Some e \<Rightarrow> Inl e
               | None \<Rightarrow>
          if en_IsDir en then source_walk trust HB readf files count rest
          else (case map_of files (en_Path en) of
                  None \<Rightarrow> Inl (Plain ''unreviewed source file'')
                | Some expected \<Rightarrow>
                    (case readf (en_Path en) of
                       Inl e \<Rightarrow> Inl e
                     | Inr b \<Rightarrow> if HB b \<noteq> expected then Inl (Plain ''source digest mismatch'')
                                 else source_walk trust HB readf files (Suc count) rest)))"

record SourceTree =
  so_ManifestTrust :: "err option"
  so_Manifest :: "err + string"
  so_Decoded :: "string gomap option"
  so_Root :: "err option"
  so_Entries :: "Entry list"
  so_Trust :: "string \<Rightarrow> err option"
  so_Read :: "string \<Rightarrow> err + string"

definition verifySource :: "(string \<Rightarrow> string) \<Rightarrow> SourceTree \<Rightarrow> WorkerPolicy \<Rightarrow> err option" where
  "verifySource HB t p =
     and_then (so_ManifestTrust t)
     (case so_Manifest t of
        Inl e \<Rightarrow> Some e
      | Inr b \<Rightarrow>
          if HB b \<noteq> wp_SourceManifestSHA256 p then Some (Plain ''source manifest identity mismatch'')
          else (case so_Decoded t of
                  None \<Rightarrow> Some (Plain ''invalid source manifest'')
                | Some files \<Rightarrow>
                    if files = [] \<or> length files > 30000 then Some (Plain ''invalid source manifest'')
                    else and_then (so_Root t)
                      (case source_walk (so_Trust t) HB (so_Read t) files 0 (so_Entries t) of
                         Inl e \<Rightarrow> Some e
                       | Inr count \<Rightarrow> if count \<noteq> length files then Some (Plain ''source manifest contains missing files'') else None)))"

section \<open>Restart disposition\<close>

text \<open>The reads of \<open>cgroup.events\<close>, one every 100 ms, at most thirty; \<open>None\<close> when no line decides.\<close>

fun fields_from :: "string \<Rightarrow> string \<Rightarrow> string list" where
  "fields_from w [] = (if w = [] then [] else [List.rev w])"
| "fields_from w (c # cs) = (if is_space c then (if w = [] then fields_from [] cs else List.rev w # fields_from [] cs)
     else fields_from (c # w) cs)"

definition Fields :: "string \<Rightarrow> string list" where
  "Fields s = fields_from [] s"

fun populated_lines :: "string list \<Rightarrow> bool option" where
  "populated_lines [] = None"
| "populated_lines (l # ls) =
     (let f = Fields l in
      if length f = 2 \<and> f ! 0 = ''populated'' \<and> f ! 1 = ''0'' then Some False
      else if length f = 2 \<and> f ! 0 = ''populated'' \<and> f ! 1 = ''1'' then Some True
      else populated_lines ls)"

fun groupEmpty :: "(err + string) list \<Rightarrow> err + bool" where
  "groupEmpty [] = Inr False"
| "groupEmpty (x # xs) = (case x of Inl e \<Rightarrow> Inl e
     | Inr events \<Rightarrow> if populated_lines (split_on (CHR 0x0A) events) = Some False then Inr True else groupEmpty xs)"

datatype group_state = GroupAbsent | GroupOpaque | Group "(err + string) list"

definition worker_result :: "string \<Rightarrow> string \<Rightarrow> string \<Rightarrow> bool \<Rightarrow> Result" where
  "worker_result s ph m rec0 = \<lparr>res_State = s, res_Phase = ph, res_Message = m, res_RecoveryRequired = rec0, res_Artifacts = []\<rparr>"

definition restartDisposition :: "group_state \<Rightarrow> Result" where
  "restartDisposition g = (case g of
       GroupAbsent \<Rightarrow> worker_result ''recovery-required'' ''worker-restart'' ''prior build cgroup is absent; descendant termination cannot be proved'' True
     | GroupOpaque \<Rightarrow> worker_result ''recovery-required'' ''worker-restart'' ''prior build cgroup cannot be inspected; descendant termination cannot be proved'' True
     | Group reads \<Rightarrow> (case groupEmpty (take 30 reads) of
           Inl _ \<Rightarrow> worker_result ''recovery-required'' ''worker-restart'' ''prior build cgroup state is unreadable; descendant termination cannot be proved'' True
         | Inr True \<Rightarrow> worker_result ''failed'' ''worker-restart''
             ''prior build outcome was not committed; its empty cgroup proves descendants stopped and artifacts remain unqualified'' False
         | Inr False \<Rightarrow> worker_result ''recovery-required'' ''worker-restart'' ''prior build descendants cannot be proved stopped; inspect delegated cgroup'' True))"

section \<open>The service\<close>

text \<open>The records of the state directory by file name, \<open>None\<close> for one that does not decode.\<close>

record Service =
  sv_Policy :: WorkerPolicy
  sv_Running :: bool
  sv_PersistenceFailed :: bool
  sv_Recovery :: "string list"
  sv_Cancel :: "string list"
  sv_Disk :: "(string \<times> WorkerRecord option) list"
  sv_Write :: "WorkerRecord \<Rightarrow> write_outcome"

definition worker_save :: "time \<Rightarrow> WorkerRecord \<Rightarrow> Service \<Rightarrow> Service \<times> err option" where
  "worker_save now r0 s =
     (let r = r0\<lparr>wr_UpdatedAt := now\<rparr>; d = AList.update (wq_ID (wr_Request r) @ ''.json'') (Some r) (sv_Disk s) in
      case sv_Write s r of
        Written \<Rightarrow> (s\<lparr>sv_Disk := d\<rparr>, None)
      | NotWritten \<Rightarrow> (s, Some (Plain ''write''))
      | WrittenUnconfirmed \<Rightarrow> (s\<lparr>sv_Disk := d\<rparr>, Some (Plain ''sync'')))"

text \<open>\<open>broken\<close> tells the files whose read fails.\<close>

definition worker_read :: "(string \<Rightarrow> bool) \<Rightarrow> string \<Rightarrow> Service \<Rightarrow> WorkerRecord option" where
  "worker_read broken k s =
     (if \<not> worker_validID k \<or> broken (k @ ''.json'') then None
      else case map_of (sv_Disk s) (k @ ''.json'') of Some (Some r) \<Rightarrow> Some r | _ \<Rightarrow> None)"

definition disposed :: "(string \<Rightarrow> group_state) \<Rightarrow> WorkerRecord \<Rightarrow> WorkerRecord" where
  "disposed groups r = (if Terminal (res_State (wr_Result r)) then r
     else r\<lparr>wr_Result := restartDisposition (groups (wq_ID (wr_Request r)))\<rparr>)"

fun worker_load :: "(string \<Rightarrow> bool) \<Rightarrow> (string \<Rightarrow> group_state) \<Rightarrow> time \<Rightarrow> (string \<times> WorkerRecord option) list \<Rightarrow> Service \<Rightarrow> Service \<times> err option" where
  "worker_load broken groups now [] s = (s, None)"
| "worker_load broken groups now ((name, content) # rest) s =
     (if \<not> HasSuffix name ''.json'' then worker_load broken groups now rest s
      else if broken name then (s, Some (Plain ''read''))
      else case content of
             None \<Rightarrow> (s, Some (Plain ''worker state is corrupt''))
           | Some r \<Rightarrow>
               if \<not> worker_validID (wq_ID (wr_Request r)) then (s, Some (Plain ''worker record identity is invalid''))
               else case (if Terminal (res_State (wr_Result r)) then (s, None) else worker_save now (disposed groups r) s) of
                      (s', Some e) \<Rightarrow> (s', Some e)
                    | (s', None) \<Rightarrow> worker_load broken groups now rest
                        (if res_RecoveryRequired (wr_Result (disposed groups r))
                         then s'\<lparr>sv_Recovery := List.insert (wq_ID (wr_Request r)) (sv_Recovery s')\<rparr> else s'))"

definition NewWorker :: "(string \<Rightarrow> string) \<Rightarrow> SourceTree \<Rightarrow> (string \<Rightarrow> bool) \<Rightarrow> (string \<Rightarrow> group_state) \<Rightarrow> time \<Rightarrow> WorkerPolicy
    \<Rightarrow> (string \<times> WorkerRecord option) list \<Rightarrow> (WorkerRecord \<Rightarrow> write_outcome) \<Rightarrow> Service \<times> err option" where
  "NewWorker HB t broken groups now p disk wr =
     (let s = \<lparr>sv_Policy = p, sv_Running = False, sv_PersistenceFailed = False, sv_Recovery = [], sv_Cancel = [], sv_Disk = disk, sv_Write = wr\<rparr> in
      case verifySource HB t p of Some e \<Rightarrow> (s, Some e) | None \<Rightarrow> worker_load broken groups now (sort_key fst disk) s)"

section \<open>The handler\<close>

datatype worker_body = Text string | Encoded Result | RecipeList "Recipe list" | Bare

text \<open>
  A request with its decoded body (\<open>None\<close> when strict decoding fails) and what the handler observes
  of the host: the peer check, the inhibition marker, the listing of the state directory, the staged
  source and the prior build groups.
\<close>

record WorkerCall =
  wc_Authorized :: bool
  wc_Method :: string
  wc_Path :: string
  wc_Body :: "WorkerRequest option"
  wc_Inhibited :: bool
  wc_Listing :: "nat option"
  wc_Source :: "WorkerPolicy \<Rightarrow> err option"
  wc_Broken :: "string \<Rightarrow> bool"
  wc_Group :: "string \<Rightarrow> group_state"
  wc_Now :: time

definition candidate :: string where "candidate = ''candidate-not-installed-not-qualified''"

definition llama_output :: string where "llama_output = ''managed build scratch/<operation>/build/bin/llama-{cli,bench}''"

definition Recipes :: "bool \<Rightarrow> Recipe list" where
  "Recipes configured =
     (let status = (if configured then ''available'' else ''unavailable'');
          reason = (if configured then [] else ''reviewed dedicated worker policy and staged source are required'')
      in [\<lparr>rc_ID = ''llama-hip'', rc_Revision = SourceCommit, rc_Status = status, rc_Reason = reason, rc_Output = llama_output, rc_Qualification = candidate\<rparr>,
          \<lparr>rc_ID = ''llama-vulkan'', rc_Revision = SourceCommit, rc_Status = status, rc_Reason = reason, rc_Output = llama_output, rc_Qualification = candidate\<rparr>,
          \<lparr>rc_ID = ''sunshine-image'', rc_Revision = SunshineCommit, rc_Status = ''unavailable'',
            rc_Reason = ''reviewed offline OCI base, complete signed apt inputs and rootless Buildah toolchain staging required'',
            rc_Output = ''managed build scratch/<operation>/sunshine.oci'', rc_Qualification = ''not-qualified''\<rparr>,
          \<lparr>rc_ID = ''therock'', rc_Revision = ''b927c1865f37fa7bbecf5c7e35dee41b02afbb4f'', rc_Status = ''unsupported'',
            rc_Reason = ''reference implements planning, not a complete supported TheRock build recipe'', rc_Output = ''none'', rc_Qualification = ''not-qualified''\<rparr>])"

definition named_recipe :: "string \<Rightarrow> bool" where
  "named_recipe n \<longleftrightarrow> n = ''llama-hip'' \<or> n = ''llama-vulkan'' \<or> n = ''sunshine-image''"

definition handle_recipes :: "Service \<Rightarrow> int \<times> worker_body" where
  "handle_recipes s = (200, RecipeList
     (let rs = Recipes True in
      if wp_SunshineSourceRoot (sv_Policy s) \<noteq> [] then rs[2 := (rs ! 2)\<lparr>rc_Status := ''available'', rc_Reason := []\<rparr>] else rs))"

definition handle_validate :: "digest \<Rightarrow> WorkerCall \<Rightarrow> Service \<Rightarrow> int \<times> worker_body" where
  "handle_validate H c s =
     (case wc_Body c of
        None \<Rightarrow> (400, Text ''invalid named build plan'')
      | Some r \<Rightarrow>
          if wq_Hash r \<noteq> WorkerRequestHash H r \<or> \<not> named_recipe (wq_Recipe r) then (400, Text ''invalid named build plan'')
          else case executionPolicy (sv_Policy s) r of
                 Inl e \<Rightarrow> (409, Text (err_message e))
               | Inr _ \<Rightarrow> if wc_Inhibited c then (409, Text ''new builds are inhibited'')
                   else (200, Encoded (worker_result ''succeeded'' ''validated''
                     ''build budgets fit installed worker ceilings; source and hardware will be rechecked before execution'' False)))"

definition handle_status :: "WorkerCall \<Rightarrow> string \<Rightarrow> Service \<Rightarrow> Service \<times> int \<times> worker_body" where
  "handle_status c k s =
     (case worker_read (wc_Broken c) k s of
        None \<Rightarrow> (s, 404, Text ''operation unavailable'')
      | Some r \<Rightarrow>
          (let nxt = restartDisposition (wc_Group c (wq_ID (wr_Request r))) in
           if res_RecoveryRequired (wr_Result r) \<and> \<not> res_RecoveryRequired nxt
           then (case worker_save (wc_Now c) (r\<lparr>wr_Result := nxt\<rparr>) s of
                   (s', Some e) \<Rightarrow> (s', 404, Text ''operation unavailable'')
                 | (s', None) \<Rightarrow> (s'\<lparr>sv_Recovery := removeAll (wq_ID (wr_Request r)) (sv_Recovery s')\<rparr>, 200, Encoded nxt))
           else (s, 200, Encoded (wr_Result r))))"

text \<open>Cancellation only signals the build; the result is written by the build's own goroutine.\<close>

definition handle_cancel :: "string \<Rightarrow> Service \<Rightarrow> int \<times> worker_body" where
  "handle_cancel k s = (if k \<notin> set (sv_Cancel s) then (409, Text ''operation is not running'') else (202, Bare))"

definition accepted_build :: "WorkerRequest \<Rightarrow> WorkerRecord" where
  "accepted_build r = \<lparr>wr_Request = r, wr_Result = worker_result ''queued'' ''accepted'' ''named offline build accepted'' False, wr_UpdatedAt = zero_time\<rparr>"

definition execute_guards :: "WorkerCall \<Rightarrow> WorkerRequest \<Rightarrow> Service \<Rightarrow> (int \<times> worker_body) option" where
  "execute_guards c r s =
     (if sv_Running s then Some (429, Text ''worker queue is full'')
      else if sv_PersistenceFailed s \<or> sv_Recovery s \<noteq> []
        then Some (503, Text ''worker persistence or prior descendant recovery is unresolved'')
      else case executionPolicy (sv_Policy s) r of
             Inl e \<Rightarrow> Some (409, Text (err_message e))
           | Inr selected \<Rightarrow>
               if (case wc_Listing c of None \<Rightarrow> True | Some n \<Rightarrow> n \<ge> 1024)
                 then Some (503, Text ''worker record retention is full; owner archive required'')
               else if wc_Inhibited c then Some (409, Text ''managed builds inhibited'')
               else if wc_Source c selected \<noteq> None then Some (409, Text ''reviewed build source validation failed'')
               else None)"

definition handle_execute :: "digest \<Rightarrow> WorkerCall \<Rightarrow> Service \<Rightarrow> Service \<times> (int \<times> worker_body) \<times> WorkerRecord option" where
  "handle_execute H c s =
     (case wc_Body c of
        None \<Rightarrow> (s, (400, Text ''invalid recipe request''), None)
      | Some r \<Rightarrow>
          if \<not> worker_validID (wq_ID r) \<or> wq_Hash r \<noteq> WorkerRequestHash H r \<or> \<not> named_recipe (wq_Recipe r) \<or> wq_Actor r = []
          then (s, (400, Text ''invalid recipe request''), None)
          else case worker_read (wc_Broken c) (wq_ID r) s of
                 Some old \<Rightarrow>
                   if wq_Hash (wr_Request old) \<noteq> wq_Hash r then (s, (409, Text ''operation payload conflict''), None)
                   else (s, (200, Encoded (wr_Result old)), None)
               | None \<Rightarrow>
                   (case execute_guards c r s of
                      Some resp \<Rightarrow> (s, resp, None)
                    | None \<Rightarrow>
                        (case worker_save (wc_Now c) (accepted_build r) s of
                           (s', Some e) \<Rightarrow> (s', (503, Text ''worker persistence unavailable''), None)
                         | (s', None) \<Rightarrow> (s'\<lparr>sv_Running := True, sv_Cancel := List.insert (wq_ID r) (sv_Cancel s')\<rparr>,
                             (202, Encoded (wr_Result (accepted_build r))), Some (accepted_build r)))))"

definition worker_handler :: "digest \<Rightarrow> WorkerCall \<Rightarrow> Service \<Rightarrow> Service \<times> (int \<times> worker_body) \<times> WorkerRecord option" where
  "worker_handler H c s =
     (if \<not> wc_Authorized c then (s, (403, Text ''peer not authorized''), None)
      else if wc_Method c = ''GET'' \<and> wc_Path c = ''/recipes'' then (s, handle_recipes s, None)
      else if wc_Method c = ''POST'' \<and> wc_Path c = ''/validate'' then (s, handle_validate H c s, None)
      else if wc_Method c = ''GET'' \<and> HasPrefix (wc_Path c) ''/operations/''
        then (case handle_status c (TrimPrefix (wc_Path c) ''/operations/'') s of (s', resp) \<Rightarrow> (s', resp, None))
      else if wc_Method c = ''POST'' \<and> HasPrefix (wc_Path c) ''/cancel/''
        then (s, handle_cancel (TrimPrefix (wc_Path c) ''/cancel/'') s, None)
      else if wc_Method c \<noteq> ''POST'' \<or> wc_Path c \<noteq> ''/execute'' then (s, (404, Text ''404 page not found''), None)
      else handle_execute H c s)"

section \<open>The build\<close>

text \<open>
  The goroutine of an accepted build: the durable \<open>running\<close> state, the contained build under the
  selected policy, the durable outcome. \<open>stopped\<close> tells that its context had ended.
\<close>

definition running_build :: "WorkerRecord \<Rightarrow> WorkerRecord" where
  "running_build r = r\<lparr>wr_Result := worker_result ''running'' ''compiling'' ''isolated named build in progress'' False\<rparr>"

definition build_outcome :: "err option \<Rightarrow> (WorkerPolicy \<Rightarrow> err + Result) \<Rightarrow> bool \<Rightarrow> WorkerPolicy \<Rightarrow> WorkerRequest \<Rightarrow> Result" where
  "build_outcome first build stopped p r =
     (let out = (case first of Some e \<Rightarrow> Inl e
                 | None \<Rightarrow> (case executionPolicy p r of Inl e \<Rightarrow> Inl e | Inr selected \<Rightarrow> build selected))
      in case out of
           Inr res \<Rightarrow> res
         | Inl e \<Rightarrow> if stopped then worker_result ''cancelled'' ''build-failed'' ''build cgroup stopped; candidate artifacts retained'' False
                    else worker_result ''failed'' ''build-failed'' (err_message e) False)"

definition worker_begin :: "time \<Rightarrow> WorkerRecord \<Rightarrow> Service \<Rightarrow> Service \<times> err option" where
  "worker_begin now r s = worker_save now (running_build r) s"

definition worker_end :: "time \<Rightarrow> Result \<Rightarrow> WorkerRecord \<Rightarrow> Service \<Rightarrow> Service" where
  "worker_end now res r s =
     (let k = wq_ID (wr_Request r);
          (s1, e) = worker_save now (r\<lparr>wr_Result := res\<rparr>) s;
          s2 = (if e \<noteq> None then s1\<lparr>sv_PersistenceFailed := True\<rparr> else s1);
          s3 = (if res_RecoveryRequired res then s2\<lparr>sv_Recovery := List.insert k (sv_Recovery s2)\<rparr> else s2)
      in s3\<lparr>sv_Cancel := removeAll k (sv_Cancel s3), sv_Running := False\<rparr>)"

end
