(* ===== verification/WorkerRun.thy ===== *)
theory WorkerRun
  imports Worker
begin

text \<open>
  Runs of the build worker. \<open>wk_build\<close> is the accepted build in the hands of its goroutine, with the
  result of the write that opens it once that has happened; the ghost list \<open>wk_started\<close> holds the
  requests whose build was started.
\<close>

record WorkerState =
  wk_sv :: Service
  wk_build :: "(WorkerRecord \<times> err option option) option"
  wk_started :: "WorkerRequest list"
  wk_up :: bool

type_synonym records = "(string \<times> WorkerRecord option) list"

definition record_name :: "WorkerRecord \<Rightarrow> string" where
  "record_name r = wq_ID (wr_Request r) @ ''.json''"

definition stored :: "records \<Rightarrow> string \<Rightarrow> WorkerRecord \<Rightarrow> bool" where
  "stored d n r \<longleftrightarrow> map_of d n = Some (Some r)"

text \<open>Every record of the directory is filed under its own identifier, as the worker writes them.\<close>

definition filed :: "records \<Rightarrow> bool" where
  "filed d \<longleftrightarrow> wf_map d \<and> (\<forall>n r. stored d n r \<longrightarrow> n = record_name r)"

definition worker_initial :: "WorkerState \<Rightarrow> bool" where
  "worker_initial m \<longleftrightarrow> \<not> wk_up m \<and> wk_build m = None \<and> wk_started m = [] \<and> filed (sv_Disk (wk_sv m))"

inductive worker_step :: "digest \<Rightarrow> WorkerState \<Rightarrow> WorkerState \<Rightarrow> bool" for H where
  call: "wk_up m \<Longrightarrow> (\<And>n. \<not> wc_Broken c n) \<Longrightarrow> worker_handler H c (wk_sv m) = (s', resp, launch) \<Longrightarrow>
     worker_step H m (m\<lparr>wk_sv := s', wk_build := (case launch of None \<Rightarrow> wk_build m | Some r \<Rightarrow> Some (r, None)),
       wk_started := (case launch of None \<Rightarrow> wk_started m | Some r \<Rightarrow> wk_started m @ [wr_Request r])\<rparr>)"
| begin_build: "wk_up m \<Longrightarrow> wk_build m = Some (r, None) \<Longrightarrow> worker_begin t r (wk_sv m) = (s', e) \<Longrightarrow>
     worker_step H m (m\<lparr>wk_sv := s', wk_build := Some (r, Some e)\<rparr>)"
| end_build: "wk_up m \<Longrightarrow> wk_build m = Some (r, Some e) \<Longrightarrow>
     worker_step H m (m\<lparr>wk_sv := worker_end t (build_outcome e build stopped (sv_Policy (wk_sv m)) (wr_Request r)) r (wk_sv m), wk_build := None\<rparr>)"
| environment: "worker_step H m (m\<lparr>wk_sv := (wk_sv m)\<lparr>sv_Write := wr\<rparr>\<rparr>)"
| crash: "worker_step H m (m\<lparr>wk_up := False, wk_build := None\<rparr>)"
| restart: "\<not> wk_up m \<Longrightarrow> NewWorker HB src broken groups now p (sv_Disk (wk_sv m)) wr = (s', e) \<Longrightarrow>
     worker_step H m (m\<lparr>wk_sv := s', wk_build := None, wk_up := (e = None)\<rparr>)"

inductive worker_reachable :: "digest \<Rightarrow> WorkerState \<Rightarrow> bool" for H where
  start: "worker_initial m \<Longrightarrow> worker_reachable H m"
| step: "worker_reachable H m \<Longrightarrow> worker_step H m m' \<Longrightarrow> worker_reachable H m'"

section \<open>Saving\<close>

definition keeps :: "records \<Rightarrow> records \<Rightarrow> bool" where
  "keeps d d' \<longleftrightarrow> (\<forall>n r. stored d n r \<longrightarrow> (\<exists>r'. stored d' n r'))"

lemma keeps_refl [simp]: "keeps d d" and keeps_trans: "keeps d d' \<Longrightarrow> keeps d' d'' \<Longrightarrow> keeps d d''"
  by (auto simp: keeps_def)

lemma keeps_update: "keeps d (AList.update n (Some r) d)"
  unfolding keeps_def stored_def by auto

definition worker_fenced :: "Service \<Rightarrow> bool" where
  "worker_fenced s \<longleftrightarrow> (\<forall>n r. stored (sv_Disk s) n r \<longrightarrow> res_RecoveryRequired (wr_Result r) \<longrightarrow> wq_ID (wr_Request r) \<in> set (sv_Recovery s))"

lemma worker_save_effects:
  assumes "worker_save now r s = (s', e)"
  shows "sv_Policy s' = sv_Policy s" "sv_Running s' = sv_Running s" "sv_PersistenceFailed s' = sv_PersistenceFailed s"
    "sv_Recovery s' = sv_Recovery s" "sv_Cancel s' = sv_Cancel s"
    "sv_Disk s' = sv_Disk s \<or> sv_Disk s' = AList.update (record_name r) (Some (r\<lparr>wr_UpdatedAt := now\<rparr>)) (sv_Disk s)"
    "e = None \<Longrightarrow> sv_Disk s' = AList.update (record_name r) (Some (r\<lparr>wr_UpdatedAt := now\<rparr>)) (sv_Disk s)"
  using assms by (auto simp: worker_save_def Let_def record_name_def split: write_outcome.splits)

lemma stored_update: "stored (AList.update n (Some r) d) k r' \<longleftrightarrow> (if k = n then r' = r else stored d k r')"
  by (auto simp: stored_def)

lemma worker_save_keeps:
  assumes "worker_save now r s = (s', e)"
  shows "keeps (sv_Disk s) (sv_Disk s')" and "filed (sv_Disk s) \<Longrightarrow> filed (sv_Disk s')"
proof -
  show "keeps (sv_Disk s) (sv_Disk s')" using worker_save_effects(6) [OF assms] keeps_update by auto
  show "filed (sv_Disk s) \<Longrightarrow> filed (sv_Disk s')"
    using worker_save_effects(6) [OF assms] by (auto simp: filed_def stored_update record_name_def split: if_splits)
qed

lemma worker_save_fenced:
  assumes "worker_save now r s = (s', e)" and "worker_fenced s"
    and "res_RecoveryRequired (wr_Result r) \<Longrightarrow> wq_ID (wr_Request r) \<in> set (sv_Recovery s)"
  shows "worker_fenced s'"
  using worker_save_effects(4,6) [OF assms(1)] assms(2,3)
  by (auto simp: worker_fenced_def stored_update split: if_splits)

section \<open>The handler\<close>

lemma handle_execute_cases:
  assumes "handle_execute H c s = (s', resp, launch)"
  obtains (unchanged) "s' = s" "launch = None"
    | (unsaved) r e where "worker_save (wc_Now c) (accepted_build r) s = (s', Some e)" "launch = None"
    | (launched) r s1 where "wc_Body c = Some r" "worker_validID (wq_ID r)" "worker_read (wc_Broken c) (wq_ID r) s = None"
        "execute_guards c r s = None" "worker_save (wc_Now c) (accepted_build r) s = (s1, None)"
        "s' = s1\<lparr>sv_Running := True, sv_Cancel := List.insert (wq_ID r) (sv_Cancel s1)\<rparr>" "launch = Some (accepted_build r)"
proof (cases launch)
  case None
  show thesis
  proof (cases "s' = s")
    case True
    with None unchanged show thesis by blast
  next
    case False
    obtain r where "wc_Body c = Some r" using assms False by (cases "wc_Body c") (auto simp: handle_execute_def)
    moreover obtain s1 e where sv: "worker_save (wc_Now c) (accepted_build r) s = (s1, e)" by fastforce
    ultimately have "s' = s1 \<and> e \<noteq> None" using assms False None by (auto simp: handle_execute_def split: if_splits option.splits)
    with sv None unsaved show thesis by blast
  qed
next
  case (Some b)
  obtain r where r: "wc_Body c = Some r" using assms Some by (cases "wc_Body c") (auto simp: handle_execute_def)
  obtain s1 e where sv: "worker_save (wc_Now c) (accepted_build r) s = (s1, e)" by fastforce
  with assms Some r launched show thesis by (auto simp: handle_execute_def split: if_splits option.splits)
qed

lemma handle_status_effects:
  assumes "handle_status c k s = (s', resp)" and "filed (sv_Disk s)" and "worker_fenced s"
  shows "keeps (sv_Disk s) (sv_Disk s') \<and> filed (sv_Disk s') \<and> worker_fenced s' \<and> sv_Running s' = sv_Running s \<and>
    sv_PersistenceFailed s' = sv_PersistenceFailed s"
proof (cases "worker_read (wc_Broken c) k s")
  case None
  with assms show ?thesis by (auto simp: handle_status_def)
next
  case (Some r)
  let ?nxt = "restartDisposition (wc_Group c (wq_ID (wr_Request r)))"
  have st: "stored (sv_Disk s) (k @ ''.json'') r"
    using Some by (auto simp: worker_read_def stored_def split: if_splits option.splits)
  then have nm: "record_name r = k @ ''.json''" using assms(2) by (simp add: filed_def)
  obtain s1 e where sv: "worker_save (wc_Now c) (r\<lparr>wr_Result := ?nxt\<rparr>) s = (s1, e)" by fastforce
  show ?thesis
  proof (cases "res_RecoveryRequired (wr_Result r) \<and> \<not> res_RecoveryRequired ?nxt")
    case False
    with assms Some show ?thesis by (auto simp: handle_status_def Let_def)
  next
    case True
    note k = worker_save_keeps [OF sv] worker_save_effects [OF sv]
    have f1: "worker_fenced s1" by (rule worker_save_fenced [OF sv assms(3)]) (use True in simp)
    show ?thesis
    proof (cases e)
      case (Some x)
      with True sv assms(1,2) \<open>worker_read (wc_Broken c) k s = Some r\<close> have "s' = s1"
        by (auto simp: handle_status_def Let_def)
      with k f1 assms(2) show ?thesis by simp
    next
      case None
      with True sv assms(1) Some have s': "s' = s1\<lparr>sv_Recovery := removeAll (wq_ID (wr_Request r)) (sv_Recovery s1)\<rparr>"
        by (auto simp: handle_status_def Let_def)
      have "wq_ID (wr_Request x) \<noteq> wq_ID (wr_Request r)" if x: "stored (sv_Disk s1) n x" "res_RecoveryRequired (wr_Result x)" for n x
      proof
        assume same: "wq_ID (wr_Request x) = wq_ID (wr_Request r)"
        have "n = record_name x" using k(2) [OF assms(2)] x(1) by (simp add: filed_def)
        then have "n = record_name r" using same by (simp add: record_name_def)
        then have "x = r\<lparr>wr_Result := ?nxt, wr_UpdatedAt := wc_Now c\<rparr>"
          using x(1) k(9) [OF None] by (simp add: stored_update record_name_def)
        with x(2) True show False by simp
      qed
      with f1 k assms(2) s' show ?thesis by (auto simp: worker_fenced_def)
    qed
  qed
qed

section \<open>Restart\<close>

text \<open>
  What loading has established of the entries already read: the record is terminal and, when it
  requires recovery, in the recovery set.
\<close>

definition settled_entry :: "Service \<Rightarrow> string \<Rightarrow> bool" where
  "settled_entry s n \<longleftrightarrow> (\<forall>r. stored (sv_Disk s) n r \<longrightarrow> Terminal (res_State (wr_Result r)) \<and>
     (res_RecoveryRequired (wr_Result r) \<longrightarrow> wq_ID (wr_Request r) \<in> set (sv_Recovery s)))"

lemma record_name_suffix: "HasSuffix (record_name r) ''.json''"
  by (simp add: record_name_def HasSuffix_def)

lemma restartDisposition_terminal: "Terminal (res_State (restartDisposition g))"
  by (auto simp: restartDisposition_def worker_result_def Terminal_def split: group_state.splits sum.splits bool.splits)

lemma worker_load_spec:
  assumes "worker_load broken groups now ens s = (s', e)" and "filed (sv_Disk s)" and "distinct (map fst ens)"
    and "\<And>n c. (n, c) \<in> set ens \<Longrightarrow> map_of (sv_Disk s) n = Some c"
    and "\<And>n. n \<notin> fst ` set ens \<Longrightarrow> settled_entry s n"
  shows "keeps (sv_Disk s) (sv_Disk s') \<and> filed (sv_Disk s') \<and> sv_Running s' = sv_Running s \<and> (e = None \<longrightarrow> (\<forall>n. settled_entry s' n))"
  using assms
proof (induction ens arbitrary: s)
  case Nil
  then show ?case by simp
next
  case (Cons en ens)
  obtain n c where en: "en = (n, c)" by (cases en)
  note run = Cons.prems(1) [unfolded en worker_load.simps]
  have od: "map_of (sv_Disk s) n = Some c" using Cons.prems(4) by (simp add: en)
  show ?case
  proof (cases "HasSuffix n ''.json''")
    case False
    have "\<not> stored (sv_Disk s) n r" for r
      using False Cons.prems(2) record_name_suffix [of r] unfolding filed_def by metis
    then have se: "settled_entry s k" if "k \<notin> fst ` set ens" for k
      using Cons.prems(5) [of k] that by (cases "k = n") (auto simp: en settled_entry_def)
    from run False have rest: "worker_load broken groups now ens s = (s', e)" by simp
    show ?thesis by (rule Cons.IH [OF rest Cons.prems(2)]) (use Cons.prems(3,4) se in auto)
  next
    case suf: True
    show ?thesis
    proof (cases "e \<noteq> None \<and> s' = s")
      case True
      with Cons.prems(2) show ?thesis by auto
    next
      case go: False
      then obtain r where c: "c = Some r" and ok: "\<not> broken n" "worker_validID (wq_ID (wr_Request r))"
        using run suf by (cases c) (auto split: if_splits)
      have nm: "n = record_name r" using od Cons.prems(2) by (simp add: c filed_def stored_def)
      let ?open = "\<not> Terminal (res_State (wr_Result r))"
      define r1 where "r1 = disposed groups r"
      obtain s1 e1 where sv0: "(if Terminal (res_State (wr_Result r)) then (s, None) else worker_save now (disposed groups r) s) = (s1, e1)"
        by fastforce
      then have sv: "(if \<not> ?open then (s, None) else worker_save now r1 s) = (s1, e1)" unfolding r1_def not_not .
      have keep: "keeps (sv_Disk s) (sv_Disk s1)" "filed (sv_Disk s1)" "sv_Running s1 = sv_Running s" "sv_Recovery s1 = sv_Recovery s"
        using sv worker_save_keeps [of now r1 s s1 e1] worker_save_effects(2,4) [of now r1 s s1 e1] Cons.prems(2)
        by (auto split: if_splits)
      show ?thesis
      proof (cases e1)
        case (Some x)
        then have "s' = s1" "e = Some x" using run suf ok c by (simp_all add: sv0)
        with keep show ?thesis by simp
      next
        case None
        let ?s2 = "if res_RecoveryRequired (wr_Result r1) then s1\<lparr>sv_Recovery := List.insert (wq_ID (wr_Request r)) (sv_Recovery s1)\<rparr> else s1"
        have rest: "worker_load broken groups now ens ?s2 = (s', e)"
          using run suf ok c None by (simp add: sv0 r1_def)
        have disk: "sv_Disk ?s2 = sv_Disk s1" "sv_Running ?s2 = sv_Running s" using keep(3) by simp_all
        have rn: "record_name r1 = n" "wr_Request r1 = wr_Request r" by (simp_all add: r1_def disposed_def nm record_name_def)
        have d1: "sv_Disk s1 = (if ?open then AList.update n (Some (r1\<lparr>wr_UpdatedAt := now\<rparr>)) (sv_Disk s) else sv_Disk s)"
          using sv worker_save_effects(7) [of now r1 s s1 e1] None rn(1) by (auto split: if_splits)
        have fresh: "n \<notin> fst ` set ens" using Cons.prems(3) by (simp add: en)
        have se: "settled_entry ?s2 k" if k: "k \<notin> fst ` set ens" for k
        proof (cases "k = n")
          case True
          have "Terminal (res_State (wr_Result r1))" using restartDisposition_terminal by (simp add: r1_def disposed_def)
          moreover have "wr_Request x = wr_Request r \<and> wr_Result x = wr_Result r1" if "stored (sv_Disk s1) n x" for x
            using that d1 od c
            by (auto simp: stored_def r1_def disposed_def split: if_splits)
          ultimately show ?thesis using True by (auto simp: settled_entry_def)
        next
          case False
          have "settled_entry s k" by (rule Cons.prems(5)) (use False k in \<open>simp add: en\<close>)
          with False d1 keep(4) show ?thesis by (auto simp: settled_entry_def stored_def split: if_splits)
        qed
        have lk: "map_of (sv_Disk ?s2) k = Some v" if "(k, v) \<in> set ens" for k v
        proof -
          have "k \<noteq> n" using fresh that by force
          with Cons.prems(4) [of k v] that d1 show ?thesis by (simp add: disk)
        qed
        have "filed (sv_Disk ?s2)" using keep(2) by simp
        note IH = Cons.IH [OF rest this _ lk se]
        with Cons.prems(3) keep(1) disk show ?thesis by (auto simp: en intro: keeps_trans)
      qed
    qed
  qed
qed

lemma NewWorker_spec:
  assumes "NewWorker HB src broken groups now p d wr = (s', e)" and "filed d"
  shows "keeps d (sv_Disk s') \<and> filed (sv_Disk s') \<and> \<not> sv_Running s' \<and> (e = None \<longrightarrow> (\<forall>n. settled_entry s' n))"
proof -
  define s0 where "s0 = \<lparr>sv_Policy = p, sv_Running = False, sv_PersistenceFailed = False, sv_Recovery = [], sv_Cancel = [], sv_Disk = d, sv_Write = wr\<rparr>"
  show ?thesis
  proof (cases "verifySource HB src p")
    case (Some x)
    with assms show ?thesis by (auto simp: NewWorker_def Let_def)
  next
    case None
    with assms(1) have ld: "worker_load broken groups now (sort_key fst d) s0 = (s', e)" by (simp add: NewWorker_def s0_def Let_def)
    have wf: "wf_map d" using assms(2) by (simp add: filed_def)
    have "distinct (map fst (sort_key fst d))" using wf by (simp add: wf_map_def distinct_map)
    moreover have "map_of (sv_Disk s0) n = Some c" if "(n, c) \<in> set (sort_key fst d)" for n c
      using that wf by (simp add: s0_def map_of_iff_in_set)
    moreover have "settled_entry s0 n" if "n \<notin> fst ` set (sort_key fst d)" for n
      using that by (auto simp: settled_entry_def stored_def s0_def dest: map_of_in_keys)
    ultimately show ?thesis using worker_load_spec [OF ld] assms(2) by (simp add: s0_def)
  qed
qed

lemma settled_fenced: "\<forall>n. settled_entry s n \<Longrightarrow> worker_fenced s"
  by (auto simp: settled_entry_def worker_fenced_def)

section \<open>The invariant\<close>

definition worker_invariant :: "WorkerState \<Rightarrow> bool" where
  "worker_invariant m \<longleftrightarrow> filed (sv_Disk (wk_sv m)) \<and> distinct (map wq_ID (wk_started m)) \<and>
     (\<forall>q \<in> set (wk_started m). \<exists>r. stored (sv_Disk (wk_sv m)) (wq_ID q @ ''.json'') r) \<and>
     (wk_up m \<longrightarrow> worker_fenced (wk_sv m) \<and> (sv_Running (wk_sv m) \<longleftrightarrow> wk_build m \<noteq> None))"

lemma worker_handler_cases:
  assumes "worker_handler H c s = (s', resp, launch)"
  obtains (same) "s' = s" "launch = None" | (status) k where "handle_status c k s = (s', resp)" "launch = None"
    | (exec) "handle_execute H c s = (s', resp, launch)" "wc_Authorized c"
  using assms unfolding worker_handler_def by (auto split: if_splits prod.splits)

lemma execute_guards_None:
  assumes "execute_guards c r s = None"
  shows "\<not> sv_Running s" "\<not> sv_PersistenceFailed s" "sv_Recovery s = []" "\<exists>p. executionPolicy (sv_Policy s) r = Inr p \<and> wc_Source c p = None"
    "\<not> wc_Inhibited c"
  using assms by (auto simp: execute_guards_def split: if_splits sum.splits option.splits)

lemma worker_end_effects:
  "keeps (sv_Disk s) (sv_Disk (worker_end t res r s))" "filed (sv_Disk s) \<Longrightarrow> filed (sv_Disk (worker_end t res r s))"
  "worker_fenced s \<Longrightarrow> worker_fenced (worker_end t res r s)" "\<not> sv_Running (worker_end t res r s)"
proof -
  let ?k = "wq_ID (wr_Request r)"
  obtain s1 e where sv: "worker_save t (r\<lparr>wr_Result := res\<rparr>) s = (s1, e)" by fastforce
  have d: "sv_Disk (worker_end t res r s) = sv_Disk s1"
    "sv_Recovery (worker_end t res r s) = (if res_RecoveryRequired res then List.insert ?k (sv_Recovery s1) else sv_Recovery s1)"
    "\<not> sv_Running (worker_end t res r s)" using sv by (auto simp: worker_end_def Let_def)
  show "keeps (sv_Disk s) (sv_Disk (worker_end t res r s))" "filed (sv_Disk s) \<Longrightarrow> filed (sv_Disk (worker_end t res r s))"
    using worker_save_keeps [OF sv] d by simp_all
  show "\<not> sv_Running (worker_end t res r s)" using d by simp
  show "worker_fenced (worker_end t res r s)" if "worker_fenced s"
    using that worker_save_effects(4,6) [OF sv] unfolding worker_fenced_def d(1,2)
    by (auto simp: stored_update split: if_splits)
qed

lemma worker_invariant_step:
  assumes "worker_invariant m" and "worker_step H m m'"
  shows "worker_invariant m'"
proof -
  note inv = assms(1) [unfolded worker_invariant_def]
  have kept: "\<exists>r. stored (sv_Disk s') (wq_ID q @ ''.json'') r" if "q \<in> set (wk_started m)" "keeps (sv_Disk (wk_sv m)) (sv_Disk s')" for q s'
    using inv that unfolding keeps_def by blast
  from assms(2) show ?thesis
  proof cases
    case (call c s' resp launch)
    have up: "worker_fenced (wk_sv m)" "sv_Running (wk_sv m) \<longleftrightarrow> wk_build m \<noteq> None" using inv call(2) by simp_all
    from call(4) show ?thesis
    proof (cases rule: worker_handler_cases)
      case same
      with call(1) assms(1) show ?thesis by (simp add: worker_invariant_def)
    next
      case (status k)
      have st: "keeps (sv_Disk (wk_sv m)) (sv_Disk s')" "filed (sv_Disk s')" "worker_fenced s'" "sv_Running s' = sv_Running (wk_sv m)"
        using handle_status_effects [OF status(1)] inv up by blast+
      with call(1) status(2) inv up kept [OF _ st(1)] show ?thesis by (simp add: worker_invariant_def)
    next
      case exec
      from exec(1) show ?thesis
      proof (cases rule: handle_execute_cases)
        case unchanged
        with call(1) assms(1) show ?thesis by (simp add: worker_invariant_def)
      next
        case (unsaved r e)
        note sv = worker_save_keeps [OF unsaved(1)] worker_save_effects(2) [OF unsaved(1)]
        have "worker_fenced s'" by (rule worker_save_fenced [OF unsaved(1) up(1)]) (simp add: accepted_build_def worker_result_def)
        with sv inv up kept [OF _ sv(1)] call(1) unsaved show ?thesis by (simp add: worker_invariant_def)
      next
        case (launched r s1)
        note sv = worker_save_keeps [OF launched(5)] worker_save_effects [OF launched(5)]
        have f: "worker_fenced s1" by (rule worker_save_fenced [OF launched(5) up(1)]) (simp add: accepted_build_def worker_result_def)
        have absent: "\<not> stored (sv_Disk (wk_sv m)) (wq_ID r @ ''.json'') x" for x
          using launched(2,3) call(3) by (auto simp: worker_read_def stored_def split: if_splits option.splits)
        then have fresh: "wq_ID r \<notin> wq_ID ` set (wk_started m)" using inv by auto
        have own: "\<exists>x. stored (sv_Disk s1) (wq_ID r @ ''.json'') x"
          using sv(9) by (simp add: stored_update record_name_def accepted_build_def)
        have m': "wk_sv m' = s'" "wk_started m' = wk_started m @ [r]" "wk_build m' = Some (accepted_build r, None)"
          using call(1) launched(7) by (simp_all add: accepted_build_def)
        have "worker_fenced s'" "sv_Disk s' = sv_Disk s1" "sv_Running s'" using f launched(6) by (simp_all add: worker_fenced_def)
        with sv(2) inv fresh own kept [OF _ sv(1)] show ?thesis
          unfolding worker_invariant_def m' by auto
      qed
    qed
  next
    case (begin_build r t s' e)
    have sv: "worker_save t (running_build r) (wk_sv m) = (s', e)" using begin_build(4) by (simp add: worker_begin_def)
    have "worker_fenced s'"
      by (rule worker_save_fenced [OF sv]) (use inv begin_build(2) in \<open>simp_all add: running_build_def worker_result_def\<close>)
    with begin_build inv worker_save_keeps [OF sv] worker_save_effects(2) [OF sv] kept [OF _ worker_save_keeps(1) [OF sv]] show ?thesis
      by (simp add: worker_invariant_def)
  next
    case (end_build r e t build stopped)
    with inv worker_end_effects kept [OF _ worker_end_effects(1)] show ?thesis by (simp add: worker_invariant_def)
  next
    case (environment wr)
    with inv show ?thesis by (simp add: worker_invariant_def worker_fenced_def)
  next
    case crash
    with inv show ?thesis by (simp add: worker_invariant_def)
  next
    case (restart HB src broken groups now p wr s' e)
    have spec: "keeps (sv_Disk (wk_sv m)) (sv_Disk s')" "filed (sv_Disk s')" "\<not> sv_Running s'" "e = None \<longrightarrow> (\<forall>n. settled_entry s' n)"
      using NewWorker_spec [OF restart(3)] inv by blast+
    with inv restart(1) settled_fenced kept [OF _ spec(1)] show ?thesis by (auto simp: worker_invariant_def)
  qed
qed

lemma worker_reachable_invariant: "worker_reachable H m \<Longrightarrow> worker_invariant m"
proof (induction rule: worker_reachable.induct)
  case (start m)
  then show ?case by (simp add: worker_initial_def worker_invariant_def)
next
  case (step m m')
  then show ?case by (blast intro: worker_invariant_step)
qed

section \<open>Properties of the worker\<close>

text \<open>
  C26: The worker starts at most one build per request identifier, whatever is resubmitted,
  cancelled, crashed or restarted, as long as the records it has written can be read back.
\<close>
theorem worker_builds_once:
  assumes "worker_reachable H m"
  shows "distinct (map wq_ID (wk_started m))"
  using worker_reachable_invariant [OF assms] by (simp add: worker_invariant_def)

text \<open>
  C27: A build is started only on a quiet worker: no other build is in progress and no durable
  record of an earlier build still requires recovery, that is, has descendants not proved stopped.
\<close>
theorem worker_builds_behind_fence:
  assumes "worker_reachable H m" and "worker_step H m m'" and "wk_started m' = wk_started m @ [q]"
    and "stored (sv_Disk (wk_sv m)) n r"
  shows "wk_build m = None \<and> \<not> res_RecoveryRequired (wr_Result r)"
  using assms(2)
proof cases
  case (call c s' resp launch)
  have inv: "worker_fenced (wk_sv m)" "sv_Running (wk_sv m) \<longleftrightarrow> wk_build m \<noteq> None"
    using worker_reachable_invariant [OF assms(1)] call(2) by (simp_all add: worker_invariant_def)
  from call(4) show ?thesis
  proof (cases rule: worker_handler_cases)
    case exec
    from exec(1) show ?thesis
    proof (cases rule: handle_execute_cases)
      case (launched b s1)
      note g = execute_guards_None [OF launched(4)]
      have "wk_build m = None" using g(1) inv(2) by blast
      moreover have "\<not> res_RecoveryRequired (wr_Result r)" using g(3) inv(1) assms(4) by (auto simp: worker_fenced_def)
      ultimately show ?thesis by simp
    qed (use call(1) assms(3) in auto)
  qed (use call(1) assms(3) in auto)
qed (use assms(3) in auto)

text \<open>
  The budgets of an accepted build never exceed the installed ceilings: the selected policy
  has at most the policy's jobs, memory, scratch and cache, and keeps everything else but, for the
  Sunshine recipe, the reviewed Sunshine source.
\<close>
theorem execution_within_ceilings:
  assumes "executionPolicy p r = Inr q"
  shows "1 \<le> wp_Jobs q \<and> wp_Jobs q \<le> wp_Jobs p \<and> 4096 \<le> wp_MemoryMiB q \<and> wp_MemoryMiB q \<le> wp_MemoryMiB p \<and>
    wp_ScratchGiB q \<le> wp_ScratchGiB p \<and> wp_CacheGiB q \<le> wp_CacheGiB p \<and>
    wp_WorkerUID q = wp_WorkerUID p \<and> wp_CgroupRoot q = wp_CgroupRoot p \<and> wp_ScratchRoot q = wp_ScratchRoot p \<and>
    wp_ToolchainSHA256 q = wp_ToolchainSHA256 p \<and>
    (if wq_Recipe r = ''sunshine-image'' then wp_SourceRevision q = SunshineCommit \<and> wp_SourceRoot q = wp_SunshineSourceRoot p
     else wp_SourceRevision q = wp_SourceRevision p \<and> wp_SourceRoot q = wp_SourceRoot p)"
  using assms by (auto simp: executionPolicy_def Let_def split: if_splits)

text \<open>
  The job count leaves the reserves: with 4 GiB per job, 8 GiB for linking and 16 GiB for the
  host it fits the available memory, and with the link reserve the memory limit of the build; it is
  refused exactly when not even one job fits.
\<close>
theorem build_jobs_fit:
  assumes "0 \<le> available" and "available < 2 ^ 62" and "0 \<le> limit" and "limit < 2 ^ 62" and "1 \<le> ceil"
  shows "(\<forall>jobs. buildJobs available limit ceil = Inr jobs \<longrightarrow> 1 \<le> jobs \<and> jobs \<le> ceil \<and>
      jobs * 4096 + 8192 + 16384 \<le> available \<and> jobs * 4096 + 8192 \<le> limit) \<and>
    (isl (buildJobs available limit ceil) \<longleftrightarrow> available < 4096 + 8192 + 16384 \<or> limit < 4096 + 8192)"
proof -
  define b where "b = min (available - 24576) (limit - 8192)"
  have ids: "i64 (available - 16384) = available - 16384" "i64 (available - 16384 - 8192) = available - 24576" "i64 (limit - 8192) = limit - 8192"
    using assms i64_id [of "available - 16384"] i64_id [of "available - 24576"] i64_id [of "limit - 8192"] by (simp_all add: in_i64_def)
  have pick: "(if limit - 8192 < available - 24576 then limit - 8192 else available - 24576) = b" by (simp add: b_def)
  have jobs: "buildJobs available limit ceil = (if quotient b 4096 < 1 then Inl (Plain ''insufficient available RAM after host and link reserves'')
      else Inr (if quotient b 4096 > ceil then ceil else quotient b 4096))"
    unfolding buildJobs_def Let_def ids pick by (rule refl)
  have small: "quotient b 4096 < 1 \<longleftrightarrow> b < 4096"
  proof (cases "0 < b")
    case True
    then show ?thesis by (simp add: quotient_def) linarith
  next
    case False
    have "0 \<le> \<bar>b\<bar> div 4096" by simp
    with False have "quotient b 4096 \<le> 0" by (simp add: quotient_def sgn_if)
    with False show ?thesis by linarith
  qed
  have fits: "quotient b 4096 * 4096 \<le> b" if "\<not> quotient b 4096 < 1"
  proof -
    have "4096 \<le> b" using that small by simp
    then have "quotient b 4096 = b div 4096" by (simp add: quotient_def)
    then show ?thesis by simp
  qed
  show ?thesis
  proof (intro conjI allI impI)
    fix j assume "buildJobs available limit ceil = Inr j"
    then have q: "\<not> quotient b 4096 < 1" and j: "j = (if quotient b 4096 > ceil then ceil else quotient b 4096)"
      unfolding jobs by (auto split: if_splits)
    from j have "j \<le> quotient b 4096" by simp
    then have "j * 4096 \<le> b" using fits [OF q] by linarith
    then show "j * 4096 + 8192 + 16384 \<le> available" "j * 4096 + 8192 \<le> limit" by (simp_all add: b_def)
    show "1 \<le> j" "j \<le> ceil" using q j assms(5) by auto
  next
    show "isl (buildJobs available limit ceil) \<longleftrightarrow> available < 4096 + 8192 + 16384 \<or> limit < 4096 + 8192"
      unfolding jobs using small by (auto simp: b_def)
  qed
qed

text \<open>
  After a restart of the worker every durable record is terminal, and the recovery fence holds
  exactly the builds it has to: each durable record that requires recovery is in the recovery set.
\<close>
theorem worker_restart_disposes:
  assumes "NewWorker HB src broken groups now p d wr = (s, None)" and "filed d" and "stored (sv_Disk s) n r"
  shows "Terminal (res_State (wr_Result r)) \<and> (res_RecoveryRequired (wr_Result r) \<longrightarrow> wq_ID (wr_Request r) \<in> set (sv_Recovery s))"
  using NewWorker_spec [OF assms(1,2)] assms(3) by (auto simp: settled_entry_def)

text \<open>
  The limit of the previous guarantee: any failure to read a record is taken for its absence, so
  when the read of an existing record fails, a resubmitted request is accepted again and the
  outcome already recorded for its identifier is overwritten by a queued one.
\<close>
theorem worker_read_failure_reruns:
  assumes "wc_Body c = Some q" and "worker_validID (wq_ID q)" "wq_Hash q = WorkerRequestHash H q" "named_recipe (wq_Recipe q)" "wq_Actor q \<noteq> []"
    and "execute_guards c q s = None" and "wc_Broken c (wq_ID q @ ''.json'')" and "\<And>r. sv_Write s r = Written"
    and "stored (sv_Disk s) (wq_ID q @ ''.json'') old" and "wr_Request old = q" and "res_State (wr_Result old) = ''succeeded''"
  shows "\<exists>s' resp new. handle_execute H c s = (s', resp, Some (accepted_build q)) \<and>
    stored (sv_Disk s') (wq_ID q @ ''.json'') new \<and> res_State (wr_Result new) = ''queued''"
proof -
  have rd: "worker_read (wc_Broken c) (wq_ID q) s = None" using assms(7) by (simp add: worker_read_def)
  let ?r = "(accepted_build q)\<lparr>wr_UpdatedAt := wc_Now c\<rparr>"
  have sv: "worker_save (wc_Now c) (accepted_build q) s = (s\<lparr>sv_Disk := AList.update (wq_ID q @ ''.json'') (Some ?r) (sv_Disk s)\<rparr>, None)"
    using assms(8) by (simp add: worker_save_def Let_def accepted_build_def)
  have "stored (AList.update (wq_ID q @ ''.json'') (Some ?r) (sv_Disk s)) (wq_ID q @ ''.json'') ?r" by (simp add: stored_update)
  moreover have "res_State (wr_Result ?r) = ''queued''" by (simp add: accepted_build_def worker_result_def)
  ultimately show ?thesis using assms(1-6) rd sv by (auto simp: handle_execute_def)
qed

section \<open>A run of the worker\<close>

definition ws_H :: digest where "ws_H = (\<lambda>_. ''h'')"

definition ws_policy :: WorkerPolicy where
  "ws_policy = \<lparr>wp_Version = 1, wp_WorkerUID = 5, wp_APIUID = 6, wp_Socket = [], wp_StateDir = [], wp_CgroupRoot = [], wp_ScratchRoot = [],
     wp_CacheRoot = [], wp_InhibitPath = [], wp_SourceRoot = ''/s'', wp_SourceManifest = [], wp_SourceManifestSHA256 = [], wp_SourceRevision = SourceCommit,
     wp_ROCmRoot = [], wp_GPUTarget = [], wp_HardwarePath = [], wp_ToolchainSHA256 = [], wp_SunshineSourceRoot = [], wp_SunshineManifest = [],
     wp_SunshineManifestSHA256 = [], wp_Jobs = 8, wp_MemoryMiB = 32768, wp_ScratchGiB = 64, wp_CacheGiB = 16, wp_MaxLogBytes = 4096, wp_MaxMinutes = 60\<rparr>"

definition ws_request :: "string \<Rightarrow> WorkerRequest" where
  "ws_request k = \<lparr>wq_ID = k, wq_Actor = ''owner'', wq_Recipe = ''llama-hip'', wq_Hash = ''h'',
     wq_Budgets = \<lparr>b_ModelsGiB = 1, b_CompilerGiB = 4, b_ShaderGiB = 1, b_BuildJobs = 4, b_BuildMemoryMiB = 16384, b_ScratchGiB = 32\<rparr>,
     wq_SourceRevision = replicate 64 CHR ''a''\<rparr>"

definition ws_call :: "(string \<Rightarrow> bool) \<Rightarrow> string \<Rightarrow> WorkerCall" where
  "ws_call broken k = \<lparr>wc_Authorized = True, wc_Method = ''POST'', wc_Path = ''/execute'', wc_Body = Some (ws_request k), wc_Inhibited = False,
     wc_Listing = Some 3, wc_Source = (\<lambda>_. None), wc_Broken = broken, wc_Group = (\<lambda>_. GroupAbsent), wc_Now = 2\<rparr>"

definition ws_tree :: SourceTree where
  "ws_tree = \<lparr>so_ManifestTrust = None, so_Manifest = Inr [], so_Decoded = Some [(''a.c'', [])], so_Root = None,
     so_Entries = [\<lparr>en_Path = ''a.c'', en_Err = None, en_IsDir = False, en_Symlink = False, en_IsRegular = True\<rparr>], so_Trust = (\<lambda>_. None), so_Read = (\<lambda>_. Inr [])\<rparr>"

definition ws_old :: WorkerRecord where
  "ws_old = \<lparr>wr_Request = ws_request ''build-00'', wr_Result = worker_result ''running'' [] [] False, wr_UpdatedAt = 0\<rparr>"

definition ws_start :: WorkerState where
  "ws_start = \<lparr>wk_sv = \<lparr>sv_Policy = ws_policy, sv_Running = False, sv_PersistenceFailed = False, sv_Recovery = [], sv_Cancel = [],
     sv_Disk = [(''build-00.json'', Some ws_old)], sv_Write = (\<lambda>_. Written)\<rparr>, wk_build = None, wk_started = [], wk_up = False\<rparr>"

text \<open>The interrupted build of the first record left an empty control group.\<close>

definition ws_groups :: "string \<Rightarrow> group_state" where
  "ws_groups = (\<lambda>_. Group [Inr ''populated 0''])"

definition ws_boot :: "WorkerState \<Rightarrow> WorkerState" where
  "ws_boot m = (case NewWorker (\<lambda>_. []) ws_tree (\<lambda>_. False) ws_groups 1 ws_policy (sv_Disk (wk_sv m)) (\<lambda>_. Written) of
     (s', e) \<Rightarrow> m\<lparr>wk_sv := s', wk_build := None, wk_up := (e = None)\<rparr>)"

definition ws_execute :: "string \<Rightarrow> WorkerState \<Rightarrow> WorkerState" where
  "ws_execute k m = (case worker_handler ws_H (ws_call (\<lambda>_. False) k) (wk_sv m) of
     (s', resp, launch) \<Rightarrow> m\<lparr>wk_sv := s', wk_build := (case launch of None \<Rightarrow> wk_build m | Some r \<Rightarrow> Some (r, None)),
       wk_started := (case launch of None \<Rightarrow> wk_started m | Some r \<Rightarrow> wk_started m @ [wr_Request r])\<rparr>)"

definition ws_facts :: "WorkerState \<Rightarrow> bool" where
  "ws_facts m \<longleftrightarrow> wk_up m \<and> Option.is_none (wk_build m) \<and> wk_started m = [] \<and>
     (case map_of (sv_Disk (wk_sv m)) ''build-00.json'' of Some (Some r) \<Rightarrow> res_State (wr_Result r) = ''failed'' | _ \<Rightarrow> False) \<and>
     wk_started (ws_execute ''build-01'' m) = [ws_request ''build-01'']"

lemma ws_boot_facts: "ws_facts (ws_boot ws_start)"
  by code_simp

abbreviation ws_idle :: WorkerState where "ws_idle \<equiv> ws_boot ws_start"

lemma ws_filed: "filed (sv_Disk (wk_sv ws_start))"
  by (auto simp: filed_def stored_def ws_start_def record_name_def ws_old_def ws_request_def split: if_splits)

lemma ws_reachable: "worker_reachable ws_H ws_idle" "worker_step ws_H ws_idle (ws_execute ''build-01'' ws_idle)"
proof -
  have up: "wk_up ws_idle" using ws_boot_facts by (simp add: ws_facts_def)
  have init: "worker_reachable ws_H ws_start"
    by (rule worker_reachable.start) (use ws_filed in \<open>simp_all add: worker_initial_def ws_start_def\<close>)
  obtain s' e where n: "NewWorker (\<lambda>_. []) ws_tree (\<lambda>_. False) ws_groups 1 ws_policy (sv_Disk (wk_sv ws_start)) (\<lambda>_. Written) = (s', e)" by fastforce
  have "\<not> wk_up ws_start" by (simp add: ws_start_def)
  from worker_reachable.step [OF init worker_step.restart [OF this n]] show "worker_reachable ws_H ws_idle"
    by (simp add: ws_boot_def n)
  obtain s2 resp launch where h: "worker_handler ws_H (ws_call (\<lambda>_. False) ''build-01'') (wk_sv ws_idle) = (s2, resp, launch)" by (metis prod_cases3)
  have "\<not> wc_Broken (ws_call (\<lambda>_. False) ''build-01'') n" for n by (simp add: ws_call_def)
  from worker_step.call [OF up this h] show "worker_step ws_H ws_idle (ws_execute ''build-01'' ws_idle)"
    by (simp add: ws_execute_def h)
qed

lemma ws_started: "wk_started (ws_execute ''build-01'' ws_idle) = wk_started ws_idle @ [ws_request ''build-01'']"
  using ws_boot_facts unfolding ws_facts_def by simp

lemma ws_stored: "\<exists>r. stored (sv_Disk (wk_sv ws_idle)) ''build-00.json'' r \<and> res_State (wr_Result r) = ''failed''"
  using ws_boot_facts unfolding ws_facts_def stored_def by (auto split: option.splits simp del: map_of_eq_Some_iff)

theorem worker_builds_once_witness:
  "wk_started (ws_execute ''build-01'' ws_idle) \<noteq> [] \<and> distinct (map wq_ID (wk_started (ws_execute ''build-01'' ws_idle)))"
  using worker_builds_once [OF worker_reachable.step [OF ws_reachable]] ws_started by simp

theorem worker_builds_behind_fence_witness:
  "\<exists>r. stored (sv_Disk (wk_sv ws_idle)) ''build-00.json'' r \<and> wk_build ws_idle = None \<and> \<not> res_RecoveryRequired (wr_Result r)"
  using worker_builds_behind_fence [OF ws_reachable ws_started] ws_stored by blast

theorem execution_within_ceilings_witness:
  "\<exists>q. executionPolicy ws_policy (ws_request ''build-01'') = Inr q \<and> wp_Jobs q \<le> 8 \<and> wp_MemoryMiB q \<le> 32768"
proof -
  obtain q where q: "executionPolicy ws_policy (ws_request ''build-01'') = Inr q"
    by (simp add: executionPolicy_def Let_def ws_policy_def ws_request_def)
  have "wp_Jobs ws_policy = 8" "wp_MemoryMiB ws_policy = 32768" by (simp_all add: ws_policy_def)
  with execution_within_ceilings [OF q] q show ?thesis by auto
qed

theorem build_jobs_fit_witness: "buildJobs 65536 49152 8 = Inr 8 \<and> (8 :: int) * 4096 + 8192 + 16384 \<le> 65536"
proof -
  have j: "buildJobs 65536 49152 8 = Inr 8" by (simp add: buildJobs_def i64_def quotient_def)
  with build_jobs_fit [of 65536 49152 8] show ?thesis by simp
qed

theorem worker_restart_disposes_witness:
  "\<exists>s r. NewWorker (\<lambda>_. []) ws_tree (\<lambda>_. False) ws_groups 1 ws_policy (sv_Disk (wk_sv ws_start)) (\<lambda>_. Written) = (s, None) \<and>
     stored (sv_Disk s) ''build-00.json'' r \<and> Terminal (res_State (wr_Result r))"
proof -
  obtain s e where n: "NewWorker (\<lambda>_. []) ws_tree (\<lambda>_. False) ws_groups 1 ws_policy (sv_Disk (wk_sv ws_start)) (\<lambda>_. Written) = (s, e)" by fastforce
  have up: "wk_up ws_idle" using ws_boot_facts by (simp add: ws_facts_def)
  then have e: "e = None" and s: "wk_sv ws_idle = s" by (simp_all add: ws_boot_def n)
  obtain r where r: "stored (sv_Disk s) ''build-00.json'' r" using ws_stored s by auto
  from worker_restart_disposes [OF n [unfolded e] ws_filed r] n e r show ?thesis by blast
qed

definition ws_done :: Service where
  "ws_done = (wk_sv ws_start)\<lparr>sv_Disk := [(''build-01.json'', Some \<lparr>wr_Request = ws_request ''build-01'', wr_Result = worker_result ''succeeded'' [] [] False, wr_UpdatedAt = 1\<rparr>)]\<rparr>"

theorem worker_read_failure_reruns_witness:
  "\<exists>s' resp new. handle_execute ws_H (ws_call (\<lambda>_. True) ''build-01'') ws_done = (s', resp, Some (accepted_build (ws_request ''build-01''))) \<and>
     stored (sv_Disk s') ''build-01.json'' new \<and> res_State (wr_Result new) = ''queued''"
proof -
  let ?q = "ws_request ''build-01''" and ?c = "ws_call (\<lambda>_. True) ''build-01''"
  have q: "wc_Body ?c = Some ?q" "wq_ID ?q = ''build-01''" "wq_Actor ?q \<noteq> []" "wc_Broken ?c (wq_ID ?q @ ''.json'')"
    "wq_Hash ?q = WorkerRequestHash ws_H ?q" "named_recipe (wq_Recipe ?q)" by (simp_all add: ws_call_def ws_request_def WorkerRequestHash_def ws_H_def named_recipe_def)
  have id: "worker_validID (wq_ID ?q)" by (simp add: q worker_validID_def char_classes)
  have g: "execute_guards ?c ?q ws_done = None"
    by (simp add: execute_guards_def ws_done_def ws_start_def ws_call_def executionPolicy_def Let_def ws_policy_def ws_request_def)
  have old: "stored (sv_Disk ws_done) (wq_ID ?q @ ''.json'') \<lparr>wr_Request = ?q, wr_Result = worker_result ''succeeded'' [] [] False, wr_UpdatedAt = 1\<rparr>"
    by (simp add: stored_def ws_done_def q)
  have w: "sv_Write ws_done r = Written" for r by (simp add: ws_done_def ws_start_def)
  from worker_read_failure_reruns [OF q(1) id q(5,6,3) g q(4) w old] show ?thesis by (simp add: q worker_result_def)
qed

end
