(* ===== verification/Cgroup.thy ===== *)
theory Cgroup
  imports Worker
begin

text \<open>
  The delegated control group of a build, \<open>internal/worker/cgroup.go\<close>: the controllers are enabled
  below the delegated root and the limits of a job are written and read back. The small file interface
  of the code is the record \<open>CgroupFiles\<close> over an arbitrary state of the tree.
\<close>

section \<open>The delegated tree\<close>

record 's CgroupFiles =
  cf_Read :: "string \<Rightarrow> 's \<Rightarrow> err + string"
  cf_Write :: "string \<Rightarrow> string \<Rightarrow> 's \<Rightarrow> 's \<times> err option"
  cf_Mkdir :: "string \<Rightarrow> 's \<Rightarrow> 's \<times> err option"

definition requiredCgroupControllers :: "string list" where
  "requiredCgroupControllers = [''cpu'', ''memory'', ''pids'']"

definition missingControllers :: "string \<Rightarrow> string list" where
  "missingControllers have0 = filter (\<lambda>c. c \<notin> set (Fields have0)) requiredCgroupControllers"

definition containsField :: "string \<Rightarrow> string \<Rightarrow> bool" where
  "containsField value want = list_ex (\<lambda>f. f = want) (Fields value)"

fun comma_join :: "string list \<Rightarrow> string" where
  "comma_join [] = []"
| "comma_join [w] = w"
| "comma_join (w # v # ws) = w @ '', '' @ comma_join (v # ws)"

text \<open>Enabling the missing controllers and checking that they stay enabled.\<close>

definition enable_controllers :: "'s CgroupFiles \<Rightarrow> string \<Rightarrow> string list \<Rightarrow> 's \<Rightarrow> 's \<times> err option" where
  "enable_controllers f base missing s =
     (let path = Join base ''cgroup.subtree_control'' in
      case cf_Write f path (join_with (CHR '' '') (map (\<lambda>c. CHR ''+'' # c) missing)) s of
        (s', Some e) \<Rightarrow> (s', Some (Plain (''worker cannot enable delegated cgroup controllers: '' @ err_message e)))
      | (s', None) \<Rightarrow>
          (case cf_Read f path s' of
             Inl e \<Rightarrow> (s', Some (Plain (''worker delegated cgroup controller state is unreadable after enablement: '' @ err_message e)))
           | Inr enabled \<Rightarrow>
               if missingControllers enabled \<noteq> []
               then (s', Some (Plain (''worker delegated cgroup controllers did not remain enabled: '' @ comma_join (missingControllers enabled))))
               else (s', None)))"

definition initializeDelegatedCgroup :: "'s CgroupFiles \<Rightarrow> string \<Rightarrow> int \<Rightarrow> 's \<Rightarrow> 's \<times> err option" where
  "initializeDelegatedCgroup f root0 pid s =
     (let base = Clean root0 in
      if \<not> IsAbs base \<or> base = ''/'' then (s, Some (Plain ''worker delegated cgroup root is invalid''))
      else case cf_Read f (Join base ''cgroup.procs'') s of
        Inl e \<Rightarrow> (s, Some (Plain (''worker delegated cgroup process placement is unreadable: '' @ err_message e)))
      | Inr procs \<Rightarrow>
          if Fields procs \<noteq> [] then (s, Some (Plain ''worker delegated cgroup has internal processes; DelegateSubgroup=supervisor is required''))
          else case cf_Read f (Join (Join base ''supervisor'') ''cgroup.procs'') s of
            Inl e \<Rightarrow> (s, Some (Plain (''worker supervisor cgroup is unreadable: '' @ err_message e)))
          | Inr supervisor \<Rightarrow>
              if \<not> containsField supervisor (Itoa pid) then (s, Some (Plain ''worker process is not in its delegated supervisor cgroup''))
              else case cf_Read f (Join base ''cgroup.controllers'') s of
                Inl e \<Rightarrow> (s, Some (Plain (''worker delegated cgroup v2 controllers are unavailable: '' @ err_message e)))
              | Inr available \<Rightarrow>
                  if missingControllers available \<noteq> []
                  then (s, Some (Plain (''worker delegated cgroup lacks required controllers: '' @ comma_join (missingControllers available))))
                  else case cf_Read f (Join base ''cgroup.subtree_control'') s of
                    Inl e \<Rightarrow> (s, Some (Plain (''worker delegated cgroup controller state is unreadable: '' @ err_message e)))
                  | Inr enabled \<Rightarrow>
                      if missingControllers enabled \<noteq> [] then enable_controllers f base (missingControllers enabled) s
                      else (s, None))"

definition job_limits :: "int \<Rightarrow> int \<Rightarrow> string gomap" where
  "job_limits memoryMiB jobs = [(''memory.max'', Itoa (i64 (memoryMiB * 2 ^ 20))), (''memory.swap.max'', ''0''), (''pids.max'', ''256''),
     (''cpu.max'', Itoa (i64 (jobs * 100000)) @ '' 100000'')]"

definition retains :: "string \<Rightarrow> string \<Rightarrow> bool" where
  "retains text0 value \<longleftrightarrow> join_with (CHR '' '') (Fields text0) = value"

fun set_limits :: "'s CgroupFiles \<Rightarrow> string \<Rightarrow> string gomap \<Rightarrow> 's \<Rightarrow> 's \<times> err option" where
  "set_limits f grp [] s = (s, None)"
| "set_limits f grp ((name, value) # rest) s =
     (case cf_Write f (Join grp name) value s of
        (s', Some e) \<Rightarrow> (s', Some (Plain (''worker cgroup cannot set '' @ name @ '': '' @ err_message e)))
      | (s', None) \<Rightarrow>
          (case cf_Read f (Join grp name) s' of
             Inl e \<Rightarrow> (s', Some (Plain (''worker cgroup cannot read back '' @ name @ '': '' @ err_message e)))
           | Inr actual \<Rightarrow>
               if \<not> retains actual value then (s', Some (Plain (''worker cgroup '' @ name @ '' did not retain requested limit'')))
               else set_limits f grp rest s'))"

definition createLimitedJobCgroup :: "'s CgroupFiles \<Rightarrow> string \<Rightarrow> string \<Rightarrow> int \<Rightarrow> int \<Rightarrow> 's \<Rightarrow> 's \<times> (err + string)" where
  "createLimitedJobCgroup f base k memoryMiB jobs s =
     (if \<not> worker_validID k then (s, Inl (Plain ''invalid worker cgroup operation ID''))
      else if memoryMiB < 1 \<or> jobs < 1 then (s, Inl (Plain ''invalid worker cgroup limits''))
      else let grp = Join (Clean base) (''bridge-'' @ k) in
        case cf_Mkdir f grp s of
          (s', Some e) \<Rightarrow> (s', Inl (Plain (''worker cannot create delegated job cgroup: '' @ err_message e)))
        | (s', None) \<Rightarrow>
            (case set_limits f grp (job_limits memoryMiB jobs) s' of
               (s2, Some e) \<Rightarrow> (s2, Inl e)
             | (s2, None) \<Rightarrow> (s2, Inr grp)))"

section \<open>The limits are in force\<close>

text \<open>What the code relies on of the tree: writing a file leaves every other file as it was.\<close>

definition separate_files :: "'s CgroupFiles \<Rightarrow> bool" where
  "separate_files f \<longleftrightarrow> (\<forall>p q v s s' e. cf_Write f p v s = (s', e) \<longrightarrow> q \<noteq> p \<longrightarrow> cf_Read f q s' = cf_Read f q s)"

lemma set_limits_frame:
  assumes "separate_files f" and "set_limits f grp ls s = (s', e)" and "\<And>n. n \<in> fst ` set ls \<Longrightarrow> q \<noteq> Join grp n"
  shows "cf_Read f q s' = cf_Read f q s"
  using assms(2,3)
proof (induction ls arbitrary: s)
  case (Cons l ls)
  obtain n v where l: "l = (n, v)" by (cases l)
  obtain s1 x where w: "cf_Write f (Join grp n) v s = (s1, x)" by fastforce
  have q: "q \<noteq> Join grp n" using Cons.prems(2) by (simp add: l)
  have eq: "cf_Read f q s1 = cf_Read f q s" using assms(1) w q unfolding separate_files_def by blast
  consider "s' = s1" | "set_limits f grp ls s1 = (s', e)"
    using Cons.prems(1) w by (auto simp: l split: option.splits sum.splits if_splits)
  then show ?case
  proof cases
    case 2
    with Cons.IH [OF 2] Cons.prems(2) eq show ?thesis by simp
  qed (use eq in simp)
qed simp

lemma set_limits_in_force:
  assumes "separate_files f" and "set_limits f grp ls s = (s', None)" and "distinct (map (\<lambda>(n, v). Join grp n) ls)" and "(n, v) \<in> set ls"
  shows "\<exists>text0. cf_Read f (Join grp n) s' = Inr text0 \<and> retains text0 v"
  using assms(2-4)
proof (induction ls arbitrary: s)
  case (Cons l ls)
  obtain m u where l: "l = (m, u)" by (cases l)
  obtain s1 x where w: "cf_Write f (Join grp m) u s = (s1, x)" by fastforce
  from Cons.prems(1) w obtain actual where a: "x = None" "cf_Read f (Join grp m) s1 = Inr actual" "retains actual u"
    and rest: "set_limits f grp ls s1 = (s', None)"
    by (auto simp: l split: option.splits sum.splits if_splits)
  show ?case
  proof (cases "(n, v) = (m, u)")
    case True
    have "cf_Read f (Join grp m) s' = cf_Read f (Join grp m) s1"
      using Cons.prems(2) by (intro set_limits_frame [OF assms(1) rest]) (force simp: l)
    with a True show ?thesis by auto
  next
    case False
    then show ?thesis using Cons.IH [OF rest] Cons.prems(2,3) by (auto simp: l)
  qed
qed simp

lemma bridge_component: "worker_validID k \<Longrightarrow> plain_component (''bridge-'' @ k)"
  by (auto simp: plain_component_def worker_validID_def list_all_iff char_classes)

lemma job_cgroup_limits:
  assumes "createLimitedJobCgroup f base k memoryMiB jobs s = (s', Inr grp)" and "separate_files f" and "IsAbs base"
    and "(name, v) \<in> set (job_limits memoryMiB jobs)"
  shows "Dir grp = Clean base \<and> grp = Join (Clean base) (''bridge-'' @ k) \<and>
    (\<exists>text0. cf_Read f (Join grp name) s' = Inr text0 \<and> join_with (CHR '' '') (Fields text0) = v)"
proof -
  have k: "worker_validID k" and grp: "grp = Join (Clean base) (''bridge-'' @ k)"
    and lim: "\<exists>s1. set_limits f grp (job_limits memoryMiB jobs) s1 = (s', None)"
    using assms(1) by (auto simp: createLimitedJobCgroup_def Let_def split: if_splits option.splits prod.splits)
  obtain cs where cs: "Clean base = abs_path cs" "list_all plain_component cs" using Clean_absolute [OF assms(3)] .
  let ?gs = "cs @ [''bridge-'' @ k]"
  have gp: "grp = abs_path ?gs" "list_all plain_component ?gs"
    using Join_child [OF cs(2) bridge_component [OF k]] cs bridge_component [OF k] by (simp_all add: grp)
  have join: "Join grp n = abs_path (?gs @ [n])" if "plain_component n" for n
    using Join_child [OF gp(2) that] by (simp add: gp(1))
  have names: "plain_component ''memory.max''" "plain_component ''memory.swap.max''" "plain_component ''pids.max''" "plain_component ''cpu.max''"
    by (simp_all add: plain_component_def)
  have ne: "Join grp a \<noteq> Join grp b" if "plain_component a" "plain_component b" "a \<noteq> b" for a b
    using abs_path_inj [of "?gs @ [a]" "?gs @ [b]"] that gp(2) by (auto simp: join)
  have "distinct (map (\<lambda>(n, v). Join grp n) (job_limits memoryMiB jobs))"
    using ne [OF names(1) names(2)] ne [OF names(1) names(3)] ne [OF names(1) names(4)] ne [OF names(2) names(3)]
      ne [OF names(2) names(4)] ne [OF names(3) names(4)] by (simp add: job_limits_def)
  with set_limits_in_force [OF assms(2) _ _ assms(4)] lim obtain text0 where
    "cf_Read f (Join grp name) s' = Inr text0" "retains text0 v" by blast
  moreover have "Dir grp = Clean base" using Dir_abs_path [OF gp(2)] by (simp add: gp(1) cs(1))
  ultimately show ?thesis using grp by (auto simp: retains_def)
qed

text \<open>
  A worker that initialises its delegated tree runs as the policy requires: the delegated group
  has no process of its own, the worker is in the supervisor subgroup, and afterwards the CPU, memory
  and process controllers are enabled for the groups of the builds.
\<close>
theorem delegated_cgroup_ready:
  assumes "initializeDelegatedCgroup f base pid s = (s', None)"
  shows "IsAbs (Clean base) \<and> Clean base \<noteq> ''/'' \<and>
    (\<exists>procs. cf_Read f (Join (Clean base) ''cgroup.procs'') s = Inr procs \<and> Fields procs = []) \<and>
    (\<exists>sup. cf_Read f (Join (Join (Clean base) ''supervisor'') ''cgroup.procs'') s = Inr sup \<and> Itoa pid \<in> set (Fields sup)) \<and>
    (\<exists>enabled. cf_Read f (Join (Clean base) ''cgroup.subtree_control'') s' = Inr enabled \<and>
       {''cpu'', ''memory'', ''pids''} \<subseteq> set (Fields enabled))"
proof -
  have all: "{''cpu'', ''memory'', ''pids''} \<subseteq> set (Fields x)" if "missingControllers x = []" for x
    using that by (simp add: missingControllers_def requiredCgroupControllers_def split: if_splits)
  have en: "\<exists>enabled. cf_Read f (Join b ''cgroup.subtree_control'') s' = Inr enabled \<and> missingControllers enabled = []"
    if "enable_controllers f b m s = (s', None)" for b m
    using that by (auto simp: enable_controllers_def Let_def split: prod.splits option.splits sum.splits if_splits)
  show ?thesis
    using assms all en unfolding initializeDelegatedCgroup_def Let_def
    by (auto simp: containsField_def list_ex_iff split: if_splits sum.splits) blast+
qed

text \<open>A tree kept as a map of file contents.\<close>

definition map_files :: "(string \<Rightarrow> string) CgroupFiles" where
  "map_files = \<lparr>cf_Read = (\<lambda>p s. Inr (s p)), cf_Write = (\<lambda>p v s. (s(p := v), None)), cf_Mkdir = (\<lambda>p s. (s, None))\<rparr>"

lemma job_cgroup_example:
  "\<exists>s'. createLimitedJobCgroup map_files ''/sys/w'' ''build-01'' 4096 2 (\<lambda>_. []) = (s', Inr ''/sys/w/bridge-build-01'') \<and>
     (\<exists>text0. cf_Read map_files (Join ''/sys/w/bridge-build-01'' ''pids.max'') s' = Inr text0 \<and> join_with (CHR '' '') (Fields text0) = ''256'')"
proof -
  let ?c = "createLimitedJobCgroup map_files ''/sys/w'' ''build-01'' 4096 2 (\<lambda>_. [])"
  have run: "(case snd ?c of Inr g \<Rightarrow> g = ''/sys/w/bridge-build-01'' | Inl _ \<Rightarrow> False)" by code_simp
  then obtain s' where c: "?c = (s', Inr ''/sys/w/bridge-build-01'')" by (cases ?c; cases "snd ?c") auto
  have sep: "separate_files map_files" by (auto simp: separate_files_def map_files_def)
  have "(''pids.max'', ''256'') \<in> set (job_limits 4096 2)" "IsAbs ''/sys/w''" by (simp_all add: job_limits_def IsAbs_def HasPrefix_def)
  from job_cgroup_limits [OF c sep this(2,1)] c show ?thesis by auto
qed

text \<open>A tree in which the memory controller is still to be enabled: the kernel adds it on the write.\<close>

definition delegated_files :: "string CgroupFiles" where
  "delegated_files = \<lparr>cf_Read = (\<lambda>p s.
       if p = ''/sys/w/cgroup.procs'' then Inr []
       else if p = ''/sys/w/supervisor/cgroup.procs'' then Inr ''41 42''
       else if p = ''/sys/w/cgroup.controllers'' then Inr ''cpu io memory pids''
       else if p = ''/sys/w/cgroup.subtree_control'' then Inr s else Inl (Plain ''absent'')),
     cf_Write = (\<lambda>p v s. if v = ''+memory'' then (''cpu memory pids'', None) else (s, Some (Plain ''refused''))),
     cf_Mkdir = (\<lambda>p s. (s, None))\<rparr>"

lemma delegated_run: "initializeDelegatedCgroup delegated_files ''/sys/w/'' 42 ''cpu pids'' = (''cpu memory pids'', None)"
  by code_simp

theorem delegated_cgroup_ready_witness:
  "initializeDelegatedCgroup delegated_files ''/sys/w/'' 42 ''cpu pids'' = (''cpu memory pids'', None) \<and>
   (\<exists>enabled. cf_Read delegated_files (Join (Clean ''/sys/w/'') ''cgroup.subtree_control'') ''cpu memory pids'' = Inr enabled \<and>
      {''cpu'', ''memory'', ''pids''} \<subseteq> set (Fields enabled))"
  using delegated_cgroup_ready [OF delegated_run] delegated_run by blast

end
