(* ===== verification/Sunshine.thy ===== *)
theory Sunshine
  imports Worker
begin

text \<open>
  The offline Sunshine image recipe, \<open>internal/worker/sunshine.go\<close>: the verification of the staged OCI
  base archive and the identity of its configuration. A tar entry is its header, the outcome of
  reading its bytes and what its JSON decodes to where the code decodes it; a failure of the reader
  itself is \<open>Inl\<close>.
\<close>

record TarEntry =
  tar_Name :: string
  tar_IsDir :: bool
  tar_IsReg :: bool
  tar_Size :: int
  tar_Data :: "err + string"
  tar_Manifests :: "string list option"
  tar_Config :: "string option"

definition steamBaseDigest :: string where
  "steamBaseDigest = ''f6bd0f5d88c6a5160fe765f61af9b33702b01cde45717b89f9ff390f104882dd''"

definition entry_name :: "TarEntry \<Rightarrow> string" where
  "entry_name en = TrimPrefix (tar_Name en) ''./''"

definition unsafe_entry :: "string list \<Rightarrow> TarEntry \<Rightarrow> bool" where
  "unsafe_entry seen en \<longleftrightarrow> (let name = entry_name en in
     \<not> tar_IsReg en \<or> name = [] \<or> IsAbs name \<or> contains name ''..'' \<or> name \<in> set seen \<or> tar_Size en < 0 \<or> tar_Size en > 32 * 2 ^ 30)"

definition blob_prefix :: string where "blob_prefix = ''blobs/sha256/''"

fun oci_walk :: "(string \<Rightarrow> string) \<Rightarrow> string \<Rightarrow> string list \<Rightarrow> bool \<Rightarrow> bool \<Rightarrow> (err + TarEntry) list \<Rightarrow> err + bool \<times> bool" where
  "oci_walk HB expected seen hasIndex hasManifest [] = Inr (hasIndex, hasManifest)"
| "oci_walk HB expected seen hasIndex hasManifest (Inl e # rest) = Inl (Plain ''invalid base OCI archive'')"
| "oci_walk HB expected seen hasIndex hasManifest (Inr en # rest) =
     (if tar_IsDir en then oci_walk HB expected seen hasIndex hasManifest rest
      else if unsafe_entry seen en then Inl (Plain ''unsafe base OCI archive entry'')
      else let name = entry_name en; seen' = name # seen in
        if name = ''index.json''
        then if tar_Size en > 2 ^ 20 then Inl (Plain ''oversized OCI index'')
             else case tar_Manifests en of
                    None \<Rightarrow> Inl (Plain ''invalid OCI index'')
                  | Some ms \<Rightarrow> oci_walk HB expected seen' (hasIndex \<or> (''sha256:'' @ expected) \<in> set ms) hasManifest rest
        else if HasPrefix name blob_prefix
        then case tar_Data en of
               Inl e \<Rightarrow> Inl e
             | Inr b \<Rightarrow>
                 if length (TrimPrefix name blob_prefix) \<noteq> 64 \<or> HB b \<noteq> TrimPrefix name blob_prefix
                 then Inl (Plain ''OCI blob digest mismatch'')
                 else oci_walk HB expected seen' hasIndex (hasManifest \<or> TrimPrefix name blob_prefix = expected) rest
        else if name = ''oci-layout'' then oci_walk HB expected seen' hasIndex hasManifest rest
        else Inl (Plain ''unexpected OCI base archive entry''))"

definition verifyOCIArchive :: "(string \<Rightarrow> string) \<Rightarrow> string \<Rightarrow> (err + TarEntry) list \<Rightarrow> err option" where
  "verifyOCIArchive HB expected ens = (case oci_walk HB expected [] False False ens of
       Inl e \<Rightarrow> Some e
     | Inr (hasIndex, hasManifest) \<Rightarrow>
         if \<not> hasIndex \<or> \<not> hasManifest then Some (Plain ''OCI base does not retain the exact reviewed Steam manifest digest'') else None)"

definition verifyOCIBase :: "(string \<Rightarrow> string) \<Rightarrow> (err + TarEntry) list \<Rightarrow> err option" where
  "verifyOCIBase HB ens = verifyOCIArchive HB steamBaseDigest ens"

definition any_hex :: "char \<Rightarrow> bool" where
  "any_hex c \<longleftrightarrow> is_hex c \<or> c \<in> set ''ABCDEF''"

fun ociConfigID :: "string \<Rightarrow> (err + TarEntry) list \<Rightarrow> err + string" where
  "ociConfigID manifest [] = Inl (Plain ''base OCI manifest configuration unavailable'')"
| "ociConfigID manifest (Inl e # rest) = Inl (Plain ''base OCI manifest configuration unavailable'')"
| "ociConfigID manifest (Inr en # rest) =
     (if entry_name en \<noteq> blob_prefix @ manifest then ociConfigID manifest rest
      else if tar_Size en > 4 * 2 ^ 20 then Inl (Plain ''base OCI manifest too large'')
      else case tar_Config en of
             None \<Rightarrow> Inl (Plain ''base OCI configuration identity invalid'')
           | Some d \<Rightarrow>
               if \<not> HasPrefix d ''sha256:'' \<or> length d \<noteq> 71 then Inl (Plain ''base OCI configuration identity invalid'')
               else if \<not> list_all any_hex (TrimPrefix d ''sha256:'') then Inl (Plain ''base OCI configuration digest invalid'')
               else Inr d)"

section \<open>What an accepted archive holds\<close>

definition archive_files :: "(err + TarEntry) list \<Rightarrow> TarEntry list" where
  "archive_files ens = filter (\<lambda>en. \<not> tar_IsDir en) (concat (map (case_sum (\<lambda>_. []) (\<lambda>en. [en])) ens))"

lemma archive_files_simps [simp]:
  "archive_files [] = []" "archive_files (Inl e # ens) = archive_files ens"
  "archive_files (Inr en # ens) = (if tar_IsDir en then archive_files ens else en # archive_files ens)"
  by (simp_all add: archive_files_def)

definition blob_ok :: "(string \<Rightarrow> string) \<Rightarrow> TarEntry \<Rightarrow> bool" where
  "blob_ok HB en \<longleftrightarrow> (HasPrefix (entry_name en) blob_prefix \<longrightarrow>
     (\<exists>b. tar_Data en = Inr b \<and> HB b = TrimPrefix (entry_name en) blob_prefix))"

lemma oci_walk_sound:
  assumes "oci_walk HB expected seen i m ens = Inr (i', m')"
  shows "(\<forall>en \<in> set (archive_files ens). tar_IsReg en \<and> \<not> IsAbs (entry_name en) \<and> \<not> contains (entry_name en) ''..'' \<and> blob_ok HB en) \<and>
    distinct (map entry_name (archive_files ens)) \<and> (\<forall>en \<in> set (archive_files ens). entry_name en \<notin> set seen) \<and>
    (i' \<longrightarrow> i \<or> (\<exists>en \<in> set (archive_files ens). entry_name en = ''index.json'' \<and> (\<exists>ms. tar_Manifests en = Some ms \<and> (''sha256:'' @ expected) \<in> set ms))) \<and>
    (m' \<longrightarrow> m \<or> (\<exists>en \<in> set (archive_files ens). HasPrefix (entry_name en) blob_prefix \<and> TrimPrefix (entry_name en) blob_prefix = expected))"
  using assms
proof (induction HB expected seen i m ens rule: oci_walk.induct)
  case (3 HB expected seen i m en rest)
  show ?case
  proof (cases "tar_IsDir en")
    case True
    with 3 show ?thesis by simp
  next
    case plain: False
    have safe: "\<not> unsafe_entry seen en" using 3(5) plain by (auto split: if_splits)
    then have s: "tar_IsReg en" "\<not> IsAbs (entry_name en)" "\<not> contains (entry_name en) ''..''" "entry_name en \<notin> set seen"
      by (auto simp: unsafe_entry_def Let_def)
    consider (index) ms where "entry_name en = ''index.json''" "tar_Manifests en = Some ms" "\<not> tar_Size en > 2 ^ 20"
        "oci_walk HB expected (entry_name en # seen) (i \<or> (''sha256:'' @ expected) \<in> set ms) m rest = Inr (i', m')"
      | (blob) b where "entry_name en \<noteq> ''index.json''" "HasPrefix (entry_name en) blob_prefix" "tar_Data en = Inr b"
        "\<not> (length (TrimPrefix (entry_name en) blob_prefix) \<noteq> 64 \<or> HB b \<noteq> TrimPrefix (entry_name en) blob_prefix)"
        "oci_walk HB expected (entry_name en # seen) i (m \<or> TrimPrefix (entry_name en) blob_prefix = expected) rest = Inr (i', m')"
      | (layout) "entry_name en \<noteq> ''index.json''" "\<not> HasPrefix (entry_name en) blob_prefix" "entry_name en = ''oci-layout''"
        "oci_walk HB expected (entry_name en # seen) i m rest = Inr (i', m')"
      using 3(5) plain safe by (auto simp: Let_def split: if_splits option.splits sum.splits)
    then show ?thesis
    proof cases
      case index
      have "\<not> HasPrefix (entry_name en) blob_prefix" by (simp add: index(1) blob_prefix_def HasPrefix_def)
      with 3(2) [OF plain safe refl refl index(1) index(3) index(2) index(4)] plain s index show ?thesis
        by (auto simp: blob_ok_def)
    next
      case blob
      from 3(3) [OF plain safe refl refl blob(1-4) blob(5)] plain s blob show ?thesis
        by (auto simp: blob_ok_def)
    next
      case layout
      from 3(4) [OF plain safe refl refl layout(1-3) layout(4)] plain s layout(2) show ?thesis
        by (auto simp: blob_ok_def)
    qed
  qed
qed simp_all

lemma prefix_split: "HasPrefix s p \<Longrightarrow> s = p @ TrimPrefix s p"
  by (simp add: HasPrefix_def TrimPrefix_def) (metis append_take_drop_id)

text \<open>
  An accepted base archive holds the reviewed image and nothing unverified: its index names the
  reviewed manifest, the manifest's blob is present and has the reviewed digest, every file is a
  regular entry below the archive root under a name of its own, and every blob has the digest it is
  named after.
\<close>
theorem oci_base_reviewed:
  assumes "verifyOCIArchive HB expected ens = None"
  shows "(\<exists>en ms. en \<in> set (archive_files ens) \<and> entry_name en = ''index.json'' \<and> tar_Manifests en = Some ms \<and> (''sha256:'' @ expected) \<in> set ms) \<and>
    (\<exists>en b. en \<in> set (archive_files ens) \<and> entry_name en = blob_prefix @ expected \<and> tar_Data en = Inr b \<and> HB b = expected) \<and>
    distinct (map entry_name (archive_files ens)) \<and>
    (\<forall>en \<in> set (archive_files ens). tar_IsReg en \<and> \<not> IsAbs (entry_name en) \<and> \<not> contains (entry_name en) ''..'' \<and> blob_ok HB en)"
proof -
  have w: "oci_walk HB expected [] False False ens = Inr (True, True)"
    using assms by (auto simp: verifyOCIArchive_def split: sum.splits if_splits)
  note facts = oci_walk_sound [OF w]
  obtain en where en: "en \<in> set (archive_files ens)" "HasPrefix (entry_name en) blob_prefix" "TrimPrefix (entry_name en) blob_prefix = expected"
    using facts by blast
  moreover have "blob_ok HB en" using facts en(1) by blast
  moreover have "entry_name en = blob_prefix @ expected" using prefix_split [OF en(2)] en(3) by simp
  ultimately have "\<exists>en b. en \<in> set (archive_files ens) \<and> entry_name en = blob_prefix @ expected \<and> tar_Data en = Inr b \<and> HB b = expected"
    unfolding blob_ok_def by auto
  with facts show ?thesis by blast
qed

definition oci_entry :: "string \<Rightarrow> string \<Rightarrow> string list option \<Rightarrow> err + TarEntry" where
  "oci_entry name b ms = Inr \<lparr>tar_Name = name, tar_IsDir = False, tar_IsReg = True, tar_Size = 100, tar_Data = Inr b, tar_Manifests = ms, tar_Config = None\<rparr>"

definition oci_archive :: "(err + TarEntry) list" where
  "oci_archive = [oci_entry ''oci-layout'' [] None, oci_entry ''./index.json'' [] (Some [''sha256:'' @ steamBaseDigest]),
     oci_entry (''./blobs/sha256/'' @ steamBaseDigest) ''manifest'' None]"

lemma oci_accepted: "verifyOCIArchive (\<lambda>_. steamBaseDigest) steamBaseDigest oci_archive = None"
proof -
  have "Option.is_none (verifyOCIArchive (\<lambda>_. steamBaseDigest) steamBaseDigest oci_archive)" by code_simp
  then show ?thesis by (simp only: Option.is_none_def)
qed

theorem oci_base_reviewed_witness:
  "verifyOCIArchive (\<lambda>_. steamBaseDigest) steamBaseDigest oci_archive = None \<and>
   (\<exists>en b. en \<in> set (archive_files oci_archive) \<and> entry_name en = blob_prefix @ steamBaseDigest \<and> tar_Data en = Inr b)"
  using oci_base_reviewed [OF oci_accepted] oci_accepted by blast

end
