(* ===== verification/Containment.thy ===== *)
theory Containment
  imports Cgroup Sunshine
begin

text \<open>
  The contained build of the worker, \<open>internal/worker/linux.go\<close> and \<open>sunshine.go\<close>: the check of root
  ownership up to the root directory, the bounded build log, the verification of evidence and toolchain,
  the sandbox and the commands of each recipe, the run of the commands in the build's control group and
  the collection of the candidate artifacts. What the host answers is a record of the environment; the
  commands themselves are a function on the state of the control group tree.
\<close>

section \<open>Trusted files\<close>

text \<open>
  \<open>trustedFile\<close> climbs with \<open>filepath.Dir\<close> until the root directory; \<open>None\<close> is a loop that never ends.
\<close>

definition msg_worker_trust :: string where
  "msg_worker_trust = ''worker installed policy/source is not root-owned and immutable to worker''"

partial_function (option) trustedFile :: "Host \<Rightarrow> string \<Rightarrow> err option option" where
  "trustedFile h p =
     (if p = ''/'' then Some None
      else case hs_Lstat h p of
        Inl e \<Rightarrow> Some (Some e)
      | Inr s \<Rightarrow> if untrusted s then Some (Some (Plain msg_worker_trust)) else trustedFile h (Dir p))"

declare trustedFile.simps [code]

section \<open>The build log\<close>

record cappedWriter =
  cw_Written :: string
  cw_Remaining :: int

text \<open>\<open>sink\<close> is the file below: the bytes of a write that reach it, and the error of the write.\<close>

definition capped_write :: "(string \<Rightarrow> string \<times> err option) \<Rightarrow> string \<Rightarrow> cappedWriter \<Rightarrow> cappedWriter \<times> int \<times> err option" where
  "capped_write sink p w =
     (let n = int (length p) in
      if n > cw_Remaining w
      then (if cw_Remaining w > 0
            then w\<lparr>cw_Written := cw_Written w @ fst (sink (take (nat (cw_Remaining w)) p)), cw_Remaining := 0\<rparr>
            else w, n, None)
      else (w\<lparr>cw_Written := cw_Written w @ fst (sink p), cw_Remaining := cw_Remaining w - n\<rparr>, n, snd (sink p)))"

fun capped_writes :: "(string \<Rightarrow> string \<times> err option) \<Rightarrow> string list \<Rightarrow> cappedWriter \<Rightarrow> cappedWriter" where
  "capped_writes sink [] w = w"
| "capped_writes sink (p # ps) w = capped_writes sink ps (fst (capped_write sink p w))"

section \<open>Guards that may not return\<close>

type_synonym 'a outcome = "(err + 'a) option"

definition check :: "bool \<Rightarrow> string \<Rightarrow> 'a outcome \<Rightarrow> 'a outcome" where
  "check bad m k = (if bad then Some (Inl (Plain m)) else k)"

definition attempt :: "err option \<Rightarrow> 'a outcome \<Rightarrow> 'a outcome" where
  "attempt x k = (case x of Some e \<Rightarrow> Some (Inl e) | None \<Rightarrow> k)"

definition receive :: "err + 'b \<Rightarrow> ('b \<Rightarrow> 'a outcome) \<Rightarrow> 'a outcome" where
  "receive x k = (case x of Inl e \<Rightarrow> Some (Inl e) | Inr v \<Rightarrow> k v)"

definition trusting :: "Host \<Rightarrow> string \<Rightarrow> (err \<Rightarrow> err) \<Rightarrow> 'a outcome \<Rightarrow> 'a outcome" where
  "trusting h p f k = (case trustedFile h p of None \<Rightarrow> None | Some (Some e) \<Rightarrow> Some (Inl (f e)) | Some None \<Rightarrow> k)"

definition settle :: "'b outcome \<Rightarrow> ('b \<Rightarrow> 'a outcome) \<Rightarrow> 'a outcome" where
  "settle x k = (case x of None \<Rightarrow> None | Some (Inl e) \<Rightarrow> Some (Inl e) | Some (Inr v) \<Rightarrow> k v)"

lemma outcome_success [simp]:
  "check bad m k = Some (Inr v) \<longleftrightarrow> \<not> bad \<and> k = Some (Inr v)"
  "attempt x k = Some (Inr v) \<longleftrightarrow> x = None \<and> k = Some (Inr v)"
  "receive y f = Some (Inr v) \<longleftrightarrow> (\<exists>u. y = Inr u \<and> f u = Some (Inr v))"
  "trusting h p g k = Some (Inr v) \<longleftrightarrow> trustedFile h p = Some None \<and> k = Some (Inr v)"
  "settle z f = Some (Inr v) \<longleftrightarrow> (\<exists>u. z = Some (Inr u) \<and> f u = Some (Inr v))"
  by (auto simp: check_def attempt_def receive_def trusting_def settle_def split: option.splits sum.splits)

section \<open>Evidence and toolchain\<close>

record BuildEvidence =
  be_Status :: string
  be_CollectedAt :: time
  be_GPUTarget :: string
  be_GPUs :: "(string \<times> string) list"

text \<open>
  What the build asks of its host. \<open>bh_Evidence\<close> decodes the hardware evidence, \<open>bh_Open\<close> is the
  outcome of opening a file, \<open>bh_Create\<close> of creating and writing one, \<open>bh_Archive\<close> and
  \<open>bh_Rewound\<close> the first and the second pass over an archive, \<open>bh_Inhibited i\<close> the \<open>i\<close>-th look
  at the inhibition marker, \<open>bh_Run\<close> a command in the sandbox and \<open>bh_Events\<close> the reads of the events
  of a control group; \<open>bh_Containerfile\<close> is the embedded file of that name.
\<close>

record 's BuildHost =
  bh_Host :: Host
  bh_Euid :: int
  bh_Pid :: int
  bh_Now :: time
  bh_Tree :: "WorkerPolicy \<Rightarrow> SourceTree"
  bh_Evidence :: "string \<Rightarrow> BuildEvidence option"
  bh_Open :: "string \<Rightarrow> err option"
  bh_Inhibited :: "nat \<Rightarrow> bool"
  bh_Statfs :: "string \<Rightarrow> err + int \<times> int"
  bh_Mkdir :: "string \<Rightarrow> err option"
  bh_Files :: "'s CgroupFiles"
  bh_Create :: "string \<Rightarrow> err option"
  bh_CcachePolicy :: "err + string"
  bh_Run :: "string list \<Rightarrow> 's \<Rightarrow> 's \<times> err option"
  bh_Events :: "string \<Rightarrow> 's \<Rightarrow> (err + string) list"
  bh_Fstat :: "string \<Rightarrow> err + bool \<times> int"
  bh_Directory :: "string \<Rightarrow> bool"
  bh_Archive :: "string \<Rightarrow> err + (err + TarEntry) list"
  bh_Rewound :: "string \<Rightarrow> err + (err + TarEntry) list"
  bh_Containerfile :: string
  bh_Encode :: "json \<Rightarrow> string"

definition msg_evidence :: string where "msg_evidence = ''hardware build evidence failed, stale or target changed''"

definition evidence_ok :: "time \<Rightarrow> string \<Rightarrow> BuildEvidence \<Rightarrow> bool" where
  "evidence_ok now target h \<longleftrightarrow> be_Status h = ''observed'' \<and> be_GPUTarget h = target \<and>
     (case be_GPUs h of [a, b] \<Rightarrow> fst a \<noteq> fst b \<and> snd a = ''amdgpu'' \<and> snd b = ''amdgpu'' | _ \<Rightarrow> False) \<and>
     \<not> now - be_CollectedAt h > 24 * hour \<and> \<not> be_CollectedAt h - now > minute"

definition toolchain_names :: "string \<Rightarrow> string list" where
  "toolchain_names recipe =
     (if recipe = ''sunshine-image'' then [''bwrap'', ''buildah'']
      else [''cmake'', ''ninja'', ''ccache'', ''cc'', ''c++'', ''bwrap''] @ (if recipe = ''llama-vulkan'' then [''glslc''] else [''amdclang++'']))"

definition tool_path :: "WorkerPolicy \<Rightarrow> string \<Rightarrow> string" where
  "tool_path p name = (if name = ''amdclang++'' then Join (Join (wp_ROCmRoot p) ''bin'') name else Join ''/usr/bin'' name)"

definition digests_to :: "(string \<Rightarrow> string) \<Rightarrow> err + string \<Rightarrow> string \<Rightarrow> bool" where
  "digests_to HB x want \<longleftrightarrow> (case x of Inl _ \<Rightarrow> False | Inr d \<Rightarrow> HB d = want)"

fun verify_toolchain :: "(string \<Rightarrow> string) \<Rightarrow> 's BuildHost \<Rightarrow> WorkerPolicy \<Rightarrow> string list \<Rightarrow> unit outcome" where
  "verify_toolchain HB b p [] = Some (Inr ())"
| "verify_toolchain HB b p (name # names) =
     (case hs_Resolve (bh_Host b) (tool_path p name) of
        Inl e \<Rightarrow> Some (Inl (Plain ''installed compiler provenance unavailable''))
      | Inr resolved \<Rightarrow>
          trusting (bh_Host b) resolved (\<lambda>_. Plain ''installed compiler provenance unavailable'')
         (attempt (bh_Open b resolved)
         (check (\<not> digests_to HB (hs_Read (bh_Host b) resolved) (string_at (wp_ToolchainSHA256 p) name))
            ''installed compiler/toolchain changed since policy review''
         (verify_toolchain HB b p names))))"

definition boot_id_path :: string where "boot_id_path = ''/proc/sys/kernel/random/boot_id''"

definition verifyBuildInputs :: "(string \<Rightarrow> string) \<Rightarrow> 's BuildHost \<Rightarrow> WorkerPolicy \<Rightarrow> string \<Rightarrow> unit outcome" where
  "verifyBuildInputs HB b p recipe =
     (let h = bh_Host b; bootPath = Join (Dir (wp_HardwarePath p)) ''boot-id.txt'' in
      trusting h (wp_HardwarePath p) (\<lambda>_. Plain ''fresh root-owned hardware build evidence is unavailable'')
      (case hs_Read h (wp_HardwarePath p) of
         Inl e \<Rightarrow> Some (Inl (Plain ''hardware build evidence is unavailable''))
       | Inr x \<Rightarrow>
           check (int (length x) > 4 * 2 ^ 20) ''hardware build evidence is unavailable''
          (check (case bh_Evidence b x of None \<Rightarrow> True | Some ev \<Rightarrow> \<not> evidence_ok (bh_Now b) (wp_GPUTarget p) ev) msg_evidence
          (trusting h bootPath id
          (receive (hs_Read h bootPath) (\<lambda>boot.
           check (case hs_Read h boot_id_path of Inl _ \<Rightarrow> True | Inr current \<Rightarrow> TrimSpace current \<noteq> TrimSpace boot)
             ''build evidence belongs to another boot''
          (verify_toolchain HB b p (toolchain_names recipe))))))))"

section \<open>Admission of a build\<close>

fun mem_available :: "int \<Rightarrow> string list \<Rightarrow> int" where
  "mem_available acc [] = acc"
| "mem_available acc (l # ls) =
     (let f = Fields l in
      mem_available (if length f = 3 \<and> f ! 0 = ''MemAvailable:''
                     then (case ParseInt (f ! 1) of Some kb \<Rightarrow> quotient kb 1024 | None \<Rightarrow> acc) else acc) ls)"

definition exceeds :: "int \<times> int \<Rightarrow> int \<Rightarrow> bool" where
  "exceeds disk gib \<longleftrightarrow> i64 (i64 (fst disk) * snd disk) > i64 (gib * 2 ^ 30)"

text \<open>The checks before anything is created; the result is the policy with the effective job count.\<close>

definition build_preflight :: "(string \<Rightarrow> string) \<Rightarrow> 's BuildHost \<Rightarrow> WorkerPolicy \<Rightarrow> WorkerRequest \<Rightarrow> WorkerPolicy outcome" where
  "build_preflight HB b p r =
     check (wp_WorkerUID p \<noteq> bh_Euid b \<or> wp_WorkerUID p = 0) ''build executor must run as separate unprivileged worker''
    (trusting (bh_Host b) ''/usr/bin/bwrap'' (\<lambda>_. Plain ''reviewed root-owned bubblewrap is unavailable'')
    (check (wp_GPUTarget p \<noteq> ''gfx1201'') ''discovered GPU compilation target requires policy review''
    (check (bh_Inhibited b 0) ''managed build is inhibited''
    (attempt (verifySource HB (bh_Tree b p) p)
    (settle (verifyBuildInputs HB b p (wq_Recipe r)) (\<lambda>_.
     case hs_Read (bh_Host b) ''/proc/meminfo'' of
       Inl e \<Rightarrow> Some (Inl (Plain ''available host build memory is unknown''))
     | Inr mem \<Rightarrow>
         receive (buildJobs (mem_available 0 (split_on (CHR 0x0A) mem)) (wp_MemoryMiB p) (wp_Jobs p)) (\<lambda>jobs.
         receive (bh_Statfs b (wp_ScratchRoot p)) (\<lambda>disk.
         check (exceeds disk (wp_ScratchGiB p)) ''worker scratch must be a dedicated filesystem with capacity within scratch budget''
        (receive (bh_Statfs b (wp_CacheRoot p)) (\<lambda>cache.
         check (exceeds cache (wp_CacheGiB p)) ''worker ccache must be a dedicated filesystem within cache budget''
        (Some (Inr (p\<lparr>wp_Jobs := jobs\<rparr>)))))))))))))"

definition prepareJobCgroup :: "'s BuildHost \<Rightarrow> WorkerPolicy \<Rightarrow> WorkerRequest \<Rightarrow> 's \<Rightarrow> 's \<times> (err + string)" where
  "prepareJobCgroup b p r s =
     (let base = Clean (wp_CgroupRoot p) in
      case hs_Lstat (bh_Host b) base of
        Inl e \<Rightarrow> (s, Inl (Plain ''worker delegated cgroup root is unavailable''))
      | Inr info \<Rightarrow>
          if \<not> fs_IsDir info \<or> fs_Symlink info then (s, Inl (Plain ''worker delegated cgroup root is unavailable''))
          else if (case fs_Uid info of None \<Rightarrow> True | Some u \<Rightarrow> uint u \<noteq> wp_WorkerUID p)
          then (s, Inl (Plain ''worker delegated cgroup root is not owned by the configured worker''))
          else case initializeDelegatedCgroup (bh_Files b) base (bh_Pid b) s of
                 (s1, Some e) \<Rightarrow> (s1, Inl e)
               | (s1, None) \<Rightarrow> createLimitedJobCgroup (bh_Files b) base (wq_ID r) (wp_MemoryMiB p) (wp_Jobs p) s1)"

section \<open>Sandbox and commands\<close>

definition sandboxArgs :: "WorkerPolicy \<Rightarrow> string \<Rightarrow> string list" where
  "sandboxArgs p job = [''--die-with-parent'', ''--new-session'', ''--unshare-all'', ''--clearenv'', ''--ro-bind'', ''/usr'', ''/usr'',
     ''--symlink'', ''usr/bin'', ''/bin'', ''--symlink'', ''usr/lib'', ''/lib'', ''--symlink'', ''usr/lib'', ''/lib64'',
     ''--proc'', ''/proc'', ''--dev'', ''/dev'', ''--tmpfs'', ''/tmp'', ''--dir'', ''/etc'',
     ''--ro-bind'', ''/etc/ld.so.cache'', ''/etc/ld.so.cache'', ''--ro-bind'', wp_SourceRoot p, ''/source'', ''--bind'', job, ''/build'',
     ''--bind'', wp_CacheRoot p, ''/ccache'', ''--setenv'', ''PATH'', ''/usr/bin'', ''--setenv'', ''HOME'', ''/tmp'',
     ''--setenv'', ''LANG'', ''C.UTF-8'', ''--setenv'', ''CCACHE_DIR'', ''/ccache'', ''--setenv'', ''CCACHE_CONFIGPATH'', ''/dev/null'',
     ''--setenv'', ''CCACHE_MAXSIZE'', Itoa (wp_CacheGiB p) @ ''G'', ''--chdir'', ''/build'']"

definition cmake_command :: "WorkerPolicy \<Rightarrow> string \<Rightarrow> string list" where
  "cmake_command p recipe =
     [''/usr/bin/cmake'', ''-S'', ''/source'', ''-B'', ''/build/build'', ''-G'', ''Ninja'', ''-DCMAKE_BUILD_TYPE=Release'', ''-DGGML_NATIVE=ON'',
      ''-DCMAKE_FIND_USE_PACKAGE_REGISTRY=FALSE'', ''-DCMAKE_FIND_USE_SYSTEM_PACKAGE_REGISTRY=FALSE'', ''-DCMAKE_FIND_USE_PACKAGE_ROOT_PATH=FALSE'',
      ''-DCMAKE_FIND_USE_CMAKE_ENVIRONMENT_PATH=FALSE'', ''-DCMAKE_C_COMPILER=/usr/bin/cc'', ''-DCMAKE_CXX_COMPILER=/usr/bin/c++'',
      ''-DCMAKE_C_COMPILER_LAUNCHER=ccache'', ''-DCMAKE_CXX_COMPILER_LAUNCHER=ccache'',
      ''-DCMAKE_JOB_POOLS=compile='' @ Itoa (wp_Jobs p) @ '';link=1'', ''-DCMAKE_JOB_POOL_COMPILE=compile'', ''-DCMAKE_JOB_POOL_LINK=link''] @
     (if recipe = ''llama-hip''
      then [''-DGGML_HIP=ON'', ''-DCMAKE_HIP_ARCHITECTURES='' @ wp_GPUTarget p, ''-DCMAKE_PREFIX_PATH=/opt/rocm'', ''-DCMAKE_HIP_COMPILER=/opt/rocm/bin/amdclang++'']
      else [''-DGGML_VULKAN=ON'', ''-DVulkan_GLSLC_EXECUTABLE=/usr/bin/glslc''])"

definition ninja_command :: "WorkerPolicy \<Rightarrow> string list" where
  "ninja_command p = [''/usr/bin/ninja'', ''-C'', ''/build/build'', ''-j'', Itoa (wp_Jobs p), ''llama-cli'', ''llama-bench'']"

definition sunshine_directories :: "string list" where
  "sunshine_directories = [''apt/lists'', ''apt/archives'', ''infrastructure/gaming'', ''bin'', ''lib'', ''templates'']"

definition sunshine_package :: string where
  "sunshine_package = ''c87f226920ad83055a898be1f0c7540307593e92d8b0baf1f076909758db8ca0''"

definition buildah :: "string list \<Rightarrow> string list" where
  "buildah args = [''/usr/bin/buildah'', ''--storage-driver=vfs'', ''--root=/build/storage'', ''--runroot=/build/runroot''] @ args"

definition sunshineCommands :: "(string \<Rightarrow> string) \<Rightarrow> 's BuildHost \<Rightarrow> WorkerPolicy \<Rightarrow> string \<Rightarrow> err + string list list" where
  "sunshineCommands HB b p job =
     (case bh_Archive b (Join (wp_SourceRoot p) ''base.oci'') of
        Inl e \<Rightarrow> Inl (Plain ''reviewed offline Steam base archive is missing'')
      | Inr ens \<Rightarrow>
          (case verifyOCIBase HB ens of
             Some e \<Rightarrow> Inl e
           | None \<Rightarrow>
          (case (case bh_Rewound b (Join (wp_SourceRoot p) ''base.oci'') of Inl e \<Rightarrow> Inl e | Inr again \<Rightarrow> ociConfigID steamBaseDigest again) of
             Inl e \<Rightarrow> Inl e
           | Inr configID \<Rightarrow>
          (case bh_Open b (Join (wp_SourceRoot p) ''sunshine.deb'') of
             Some e \<Rightarrow> Inl e
           | None \<Rightarrow>
               if \<not> digests_to HB (hs_Read (bh_Host b) (Join (wp_SourceRoot p) ''sunshine.deb'')) sunshine_package
               then Inl (Plain ''Sunshine package differs from reviewed release'')
               else if \<not> list_all (\<lambda>d. bh_Directory b (Join (wp_SourceRoot p) d)) sunshine_directories
               then Inl (Plain ''offline Sunshine package closure/context is incomplete'')
               else case bh_Create b (Join job ''Containerfile'') of
                      Some e \<Rightarrow> Inl e
                    | None \<Rightarrow> Inr [buildah [''pull'', ''--quiet'', ''oci-archive:/source/base.oci''],
                        buildah [''bud'', ''--isolation=chroot'', ''--pull=never'', ''--network=none'', ''--format=oci'', ''--build-arg'', ''BASE_IMAGE='' @ configID,
                          ''--file'', ''/build/Containerfile'', ''--tag'', ''localhost/bridge-sunshine:candidate'', ''/source''],
                        buildah [''push'', ''localhost/bridge-sunshine:candidate'', ''oci-archive:/build/sunshine.oci'']]))))"

definition ccache_binding :: "string \<Rightarrow> string list" where
  "ccache_binding name = [''--ro-bind'', name, ''/etc/bridge-ccache.conf'', ''--setenv'', ''CCACHE_CONFIGPATH'', ''/etc/bridge-ccache.conf'']"

definition containers_policy :: string where "containers_policy = ''/etc/containers/policy.json''"

text \<open>The sandbox arguments and the commands of the recipe.\<close>

definition plan_commands :: "(string \<Rightarrow> string) \<Rightarrow> 's BuildHost \<Rightarrow> WorkerPolicy \<Rightarrow> WorkerRequest \<Rightarrow> string \<Rightarrow> (string list \<times> string list list) outcome" where
  "plan_commands HB b p r job =
     receive (bh_CcachePolicy b) (\<lambda>name.
       let base = sandboxArgs p job @ ccache_binding name; h = bh_Host b in
       if wq_Recipe r = ''llama-hip''
       then check (wp_ROCmRoot p = []) ''reviewed ROCm SDK root is unavailable''
           (trusting h (wp_ROCmRoot p) (\<lambda>_. Plain ''reviewed ROCm SDK root is unavailable'')
           (Some (Inr (base @ [''--ro-bind'', wp_ROCmRoot p, ''/opt/rocm''], [cmake_command p (wq_Recipe r), ninja_command p]))))
       else if wq_Recipe r = ''sunshine-image''
       then trusting h containers_policy (\<lambda>_. Plain ''installed container signature policy is unavailable'')
           (receive (sunshineCommands HB b p job) (\<lambda>commands.
             Some (Inr (base @ [''--uid'', ''0'', ''--gid'', ''0'', ''--dir'', ''/etc/containers'', ''--ro-bind'', containers_policy, containers_policy,
               ''--setenv'', ''TMPDIR'', ''/tmp'', ''--setenv'', ''BUILDAH_ISOLATION'', ''chroot''], commands))))
       else Some (Inr (base, [cmake_command p (wq_Recipe r), ninja_command p])))"

section \<open>The contained run\<close>

definition kill_group :: "'s BuildHost \<Rightarrow> string \<Rightarrow> 's \<Rightarrow> 's" where
  "kill_group b grp s = fst (cf_Write (bh_Files b) (Join grp ''cgroup.kill'') ''1'' s)"

definition descendants_stopped :: "'s BuildHost \<Rightarrow> string \<Rightarrow> 's \<Rightarrow> bool" where
  "descendants_stopped b grp s \<longleftrightarrow> (case groupEmpty (take 30 (bh_Events b grp s)) of Inl _ \<Rightarrow> False | Inr gone \<Rightarrow> gone)"

definition msg_inhibited_phase :: string where "msg_inhibited_phase = ''managed build inhibited before compilation phase''"

text \<open>The loop over the commands: the state, the commands started and the early return, if any.\<close>

fun run_commands :: "'s BuildHost \<Rightarrow> string \<Rightarrow> string list \<Rightarrow> nat \<Rightarrow> string list list \<Rightarrow> 's \<Rightarrow> 's \<times> string list list \<times> (err + Result) option" where
  "run_commands b grp base i [] s = (s, [], None)"
| "run_commands b grp base i (args # rest) s =
     (if bh_Inhibited b (Suc i) then (s, [], Some (Inl (Plain msg_inhibited_phase)))
      else let argv = ''/usr/bin/bwrap'' # base @ args in
        case bh_Run b argv s of
          (s1, None) \<Rightarrow> (case run_commands b grp base (Suc i) rest s1 of (s2, tr, out) \<Rightarrow> (s2, argv # tr, out))
        | (s1, Some e) \<Rightarrow>
            (let s2 = kill_group b grp s1 in
             (s2, [argv], Some (if descendants_stopped b grp s2
                then Inl (Plain ''contained compiler failed; inspect bounded worker build log locally'')
                else Inr (worker_result ''recovery-required'' ''descendant-check'' ''build cancellation could not prove every descendant stopped'' True)))))"

definition Base :: "string \<Rightarrow> string" where
  "Base p = last (split_on slash p)"

definition build_outputs :: "string \<Rightarrow> string list" where
  "build_outputs recipe = (if recipe = ''sunshine-image'' then [''sunshine.oci''] else [''build/bin/llama-cli'', ''build/bin/llama-bench''])"

fun collect_outputs :: "(string \<Rightarrow> string) \<Rightarrow> 's BuildHost \<Rightarrow> WorkerPolicy \<Rightarrow> string \<Rightarrow> string list \<Rightarrow> err + Artifact list" where
  "collect_outputs HB b p job [] = Inr []"
| "collect_outputs HB b p job (relative # rest) =
     (let fpath = Join job relative in
      case hs_Lstat (bh_Host b) fpath of
        Inl e \<Rightarrow> Inl (Plain ''build output is missing or symlinked'')
      | Inr info \<Rightarrow>
          if \<not> fs_IsRegular info then Inl (Plain ''build output is missing or symlinked'')
          else if bh_Open b fpath \<noteq> None then Inl (Plain ''named build output missing'')
          else case bh_Fstat b fpath of
            Inl e \<Rightarrow> Inl (Plain ''invalid build output'')
          | Inr (regular, bytes) \<Rightarrow>
              if \<not> regular then Inl (Plain ''invalid build output'')
              else case hs_Read (bh_Host b) fpath of
                Inl e \<Rightarrow> Inl e
              | Inr x \<Rightarrow>
                  (case collect_outputs HB b p job rest of
                     Inl e \<Rightarrow> Inl e
                   | Inr arts \<Rightarrow> Inr (\<lparr>a_Name = Base relative, a_SHA256 = HB x, a_Size = bytes, a_SourceRevision = wp_SourceRevision p,
                       a_Qualification = candidate, a_Content = []\<rparr> # arts)))"

definition built_unqualified :: string where "built_unqualified = ''built-not-installed-not-qualified''"

definition provenance_json :: "(string \<Rightarrow> string) \<Rightarrow> 's BuildHost \<Rightarrow> WorkerPolicy \<Rightarrow> string \<Rightarrow> string list list \<Rightarrow> Artifact list \<Rightarrow> json" where
  "provenance_json HB b p recipe commands arts = JObj (
     (if recipe = ''sunshine-image'' then [(''base_manifest_sha256'', JStr steamBaseDigest)] else []) @
     [(''ccache_gib'', JInt (wp_CacheGiB p)), (''commands'', JArr (map (JArr \<circ> map JStr) commands))] @
     (if recipe = ''sunshine-image'' then [(''containerfile_sha256'', JStr (HB (bh_Containerfile b)))] else []) @
     [(''contract'', JInt 1), (''effective_jobs'', JInt (wp_Jobs p)), (''gpu_target'', JStr (wp_GPUTarget p)), (''memory_mib'', JInt (wp_MemoryMiB p)),
      (''outputs'', JArr (map artifact_json arts)), (''qualification'', JStr built_unqualified), (''recipe'', JStr recipe),
      (''scratch_gib'', JInt (wp_ScratchGiB p)), (''source_manifest_sha256'', JStr (wp_SourceManifestSHA256 p)),
      (''source_revision'', JStr (wp_SourceRevision p)), (''toolchain_sha256'', json_of_map (wp_ToolchainSHA256 p))])"

definition finish_build :: "(string \<Rightarrow> string) \<Rightarrow> 's BuildHost \<Rightarrow> WorkerPolicy \<Rightarrow> WorkerRequest \<Rightarrow> string \<Rightarrow> string list list \<Rightarrow> err + Result" where
  "finish_build HB b p r job commands =
     (case collect_outputs HB b p job (build_outputs (wq_Recipe r)) of
        Inl e \<Rightarrow> Inl e
      | Inr arts \<Rightarrow>
          (let data = bh_Encode b (provenance_json HB b p (wq_Recipe r) commands arts) in
           case bh_Create b (Join job ''provenance.json'') of
             Some e \<Rightarrow> Inl e
           | None \<Rightarrow> Inr ((worker_result ''succeeded'' ''candidate-built'' ''named recipe built; no installation, promotion or qualification'' False)
               \<lparr>res_Artifacts := arts @ [\<lparr>a_Name = ''provenance.json'', a_SHA256 = HB data, a_Size = int (length data),
                  a_SourceRevision = wp_SourceRevision p, a_Qualification = built_unqualified, a_Content = []\<rparr>]\<rparr>)))"

text \<open>From the creation of the job directory; the deferred kill of the group applies once it is open.\<close>

definition build_body :: "(string \<Rightarrow> string) \<Rightarrow> 's BuildHost \<Rightarrow> WorkerPolicy \<Rightarrow> WorkerRequest \<Rightarrow> 's \<Rightarrow> ('s \<times> string list list \<times> (err + Result)) option" where
  "build_body HB b p r s =
     (let job = Join (wp_ScratchRoot p) (wq_ID r) in
      case bh_Mkdir b job of
        Some e \<Rightarrow> Some (s, [], Inl e)
      | None \<Rightarrow>
          (case prepareJobCgroup b p r s of
             (s1, Inl e) \<Rightarrow> Some (s1, [], Inl e)
           | (s1, Inr grp) \<Rightarrow>
               (case bh_Open b grp of
                  Some e \<Rightarrow> Some (s1, [], Inl e)
                | None \<Rightarrow>
                    (case attempt (bh_Create b (Join job ''build.log'')) (plan_commands HB b p r job) of
                       None \<Rightarrow> None
                     | Some (Inl e) \<Rightarrow> Some (kill_group b grp s1, [], Inl e)
                     | Some (Inr (base, commands)) \<Rightarrow>
                         (case run_commands b grp base 0 commands s1 of
                            (s2, tr, Some out) \<Rightarrow> Some (kill_group b grp s2, tr, out)
                          | (s2, tr, None) \<Rightarrow>
                              (let s3 = kill_group b grp s2 in
                               Some (kill_group b grp s3, tr,
                                 if descendants_stopped b grp s3 then finish_build HB b p r job commands
                                 else Inr (worker_result ''recovery-required'' ''descendant-check'' ''worker descendants cannot be proved stopped'' True))))))))"

definition runContained :: "(string \<Rightarrow> string) \<Rightarrow> 's BuildHost \<Rightarrow> WorkerPolicy \<Rightarrow> WorkerRequest \<Rightarrow> 's \<Rightarrow> ('s \<times> string list list \<times> (err + Result)) option" where
  "runContained HB b p r s =
     (case build_preflight HB b p r of
        None \<Rightarrow> None
      | Some (Inl e) \<Rightarrow> Some (s, [], Inl e)
      | Some (Inr q) \<Rightarrow> build_body HB b q r s)"

end
