(* ===== verification/ContainmentRun.thy ===== *)
theory ContainmentRun
  imports Containment
begin

text \<open>
  Properties of the contained build: the trust check ends on absolute paths and protects every
  component, the log is the bounded prefix of the output, no command starts before every check
  has passed and the limits are in force, and an ended build has its descendants proved stopped.
\<close>

section \<open>Trusted files\<close>

lemma trusted_root [simp]: "trustedFile h ''/'' = Some None"
  by (subst trustedFile.simps) simp

lemma Dir_root [simp]: "Dir ''/'' = ''/''" by code_simp

lemma trusted_abs_ends: "list_all plain_component cs \<Longrightarrow> \<exists>v. trustedFile h (abs_path cs) = Some v"
proof (induction cs rule: rev_induct)
  case Nil
  then show ?case by (simp add: abs_path_def)
next
  case (snoc w cs)
  then show ?case
    by (subst trustedFile.simps) (auto simp: Dir_abs_path split: sum.splits)
qed

lemma Dir_absolute:
  assumes "IsAbs p"
  obtains cs where "Dir p = abs_path cs" and "list_all plain_component cs"
proof -
  let ?d = "List.rev (dropWhile (\<lambda>c. c \<noteq> slash) (List.rev p))"
  obtain q where p: "p = slash # q" using assms by (cases p) (auto simp: IsAbs_def HasPrefix_def)
  have split: "p = ?d @ List.rev (takeWhile (\<lambda>c. c \<noteq> slash) (List.rev p))"
    by (metis rev_append rev_rev_ident takeWhile_dropWhile_id)
  have "?d \<noteq> []" by (auto simp: p dropWhile_eq_Nil_conv)
  then have "hd ?d = slash" using split p by (metis hd_append2 list.sel(1))
  with \<open>?d \<noteq> []\<close> have "IsAbs ?d" by (cases ?d) (auto simp: IsAbs_def HasPrefix_def)
  from Clean_absolute [OF this] show ?thesis using that by (metis Dir_def)
qed

lemma trusted_ends:
  assumes "IsAbs p"
  shows "\<exists>v. trustedFile h p = Some v"
proof -
  obtain cs where "Dir p = abs_path cs" "list_all plain_component cs" using Dir_absolute [OF assms] .
  with trusted_abs_ends [of cs h] show ?thesis by (subst trustedFile.simps) (auto split: sum.splits)
qed

lemma trusted_climbs:
  assumes "trustedFile h p = Some None"
  shows "trustedFile h ((Dir ^^ n) p) = Some None"
proof (induction n)
  case (Suc n)
  show ?case
  proof (cases "(Dir ^^ n) p = ''/''")
    case False
    with Suc show ?thesis by (subst (asm) trustedFile.simps) (auto split: sum.splits if_splits)
  qed simp
qed (use assms in simp)

text \<open>
  The worker's trust check ends on every absolute path, and a path it accepts is protected all
  the way up: it and each of its parents below the root directory is owned by root, is no symbolic link and is
  writable by neither group nor others.
\<close>
theorem trusted_file_protected:
  assumes "IsAbs p"
  shows "(\<exists>v. trustedFile h p = Some v) \<and>
    (trustedFile h p = Some None \<longrightarrow> (Dir ^^ n) p = ''/'' \<or>
      (\<exists>s. hs_Lstat h ((Dir ^^ n) p) = Inr s \<and> fs_Uid s = Some 0 \<and> \<not> fs_Symlink s \<and> \<not> bit (fs_Perm s) 4 \<and> \<not> bit (fs_Perm s) 1))"
proof (intro conjI impI)
  show "\<exists>v. trustedFile h p = Some v" using trusted_ends [OF assms] .
next
  assume "trustedFile h p = Some None"
  then have "trustedFile h ((Dir ^^ n) p) = Some None" by (rule trusted_climbs)
  then show "(Dir ^^ n) p = ''/'' \<or> (\<exists>s. hs_Lstat h ((Dir ^^ n) p) = Inr s \<and> fs_Uid s = Some 0 \<and> \<not> fs_Symlink s \<and> \<not> bit (fs_Perm s) 4 \<and> \<not> bit (fs_Perm s) 1)"
    by (subst (asm) trustedFile.simps) (auto simp: untrusted_def and_18_zero split: sum.splits if_splits)
qed

lemma relative_endless:
  assumes "hs_Lstat h ''.'' = Inr s" and "\<not> untrusted s"
  shows "trustedFile h ''.'' = None"
proof -
  let ?P = "\<lambda>g p v. g = h \<longrightarrow> p \<noteq> ''.''"
  have never: "?P g p v" if "trustedFile g p = Some v" for g p v
  proof (rule trustedFile.raw_induct [where P = ?P, OF _ that], rule impI, rule notI)
    fix f g p v
    assume IH: "\<And>a b y. f a b = Some y \<Longrightarrow> a = h \<longrightarrow> b \<noteq> ''.''" and "g = h" "p = ''.''"
      and run: "(if p = ''/'' then Some None else case hs_Lstat g p of Inl e \<Rightarrow> Some (Some e)
        | Inr s \<Rightarrow> if untrusted s then Some (Some (Plain msg_worker_trust)) else f g (Dir p)) = Some v"
    moreover have "Dir ''.'' = ''.''" by code_simp
    ultimately have "f h ''.'' = Some v" using assms by simp
    then show False using IH by blast
  qed
  show ?thesis by (cases "trustedFile h ''.''") (auto dest: never)
qed

section \<open>The build log\<close>

text \<open>
  The build log is the bounded prefix of the build's output: over a file that accepts what it is
  given, any sequence of writes leaves exactly the first \<open>limit\<close> bytes of their concatenation, and no
  write is reported to the build as short or failed.
\<close>
theorem build_log_is_prefix:
  assumes "0 \<le> cw_Remaining w"
  shows "cw_Written (capped_writes (\<lambda>x. (x, None)) ps w) = cw_Written w @ take (nat (cw_Remaining w)) (concat ps) \<and>
    snd (capped_write (\<lambda>x. (x, None)) q w) = (int (length q), None)"
proof
  show "cw_Written (capped_writes (\<lambda>x. (x, None)) ps w) = cw_Written w @ take (nat (cw_Remaining w)) (concat ps)"
    using assms
  proof (induction ps arbitrary: w)
    case (Cons p ps)
    have "0 \<le> cw_Remaining (fst (capped_write (\<lambda>x. (x, None)) p w))" using Cons.prems by (auto simp: capped_write_def Let_def)
    from Cons.IH [OF this] Cons.prems show ?case
      by (auto simp: capped_write_def Let_def nat_diff_distrib')
  qed simp
qed (simp add: capped_write_def Let_def)

theorem build_log_is_prefix_witness:
  "(0 :: int) \<le> 5 \<and> cw_Written (capped_writes (\<lambda>x. (x, None)) [''abc'', ''defg'', ''h''] \<lparr>cw_Written = [], cw_Remaining = 5\<rparr>) = ''abcde''"
  using build_log_is_prefix [of "\<lparr>cw_Written = [], cw_Remaining = 5\<rparr>" "[''abc'', ''defg'', ''h'']"] by simp

section \<open>What has been checked when a command starts\<close>

lemma run_commands_trace:
  assumes "run_commands b grp base i cmds s = (s2, tr, out)" and "j < length tr"
  shows "\<not> bh_Inhibited b (Suc (i + j)) \<and> (\<exists>args. tr ! j = ''/usr/bin/bwrap'' # base @ args)"
  using assms
proof (induction b grp base i cmds s arbitrary: tr j rule: run_commands.induct)
  case (2 b grp base i args rest s)
  show ?case
  proof (cases j)
    case 0
    with 2(2,3) show ?thesis by (auto simp: Let_def split: if_splits prod.splits option.splits)
  next
    case (Suc k)
    with 2(2,3) obtain s1 tr1 where n: "\<not> bh_Inhibited b (Suc i)" "bh_Run b (''/usr/bin/bwrap'' # base @ args) s = (s1, None)"
      "run_commands b grp base (Suc i) rest s1 = (s2, tr1, out)" "tr = (''/usr/bin/bwrap'' # base @ args) # tr1"
      by (auto simp: Let_def split: if_splits prod.splits option.splits)
    from 2(1) [OF n(1) refl n(2)[symmetric] refl n(3), of k] Suc n(4) 2(3) show ?thesis by simp
  qed
qed simp

lemma run_commands_end:
  assumes "run_commands b grp base i cmds s = (s2, tr, Some out)"
  shows "out = Inl (Plain msg_inhibited_phase) \<or> (\<exists>s0. s2 = kill_group b grp s0) \<and> (descendants_stopped b grp s2 \<or> (\<exists>res. out = Inr res \<and> res_RecoveryRequired res))"
  using assms
proof (induction b grp base i cmds s arbitrary: tr rule: run_commands.induct)
  case (2 b grp base i args rest s)
  then show ?case by (auto simp: Let_def worker_result_def split: if_splits prod.splits option.splits)
qed simp

lemma plan_commands_sandbox:
  assumes "plan_commands HB b p r job = Some (Inr (base, cmds))"
  shows "\<exists>rest. base = sandboxArgs p job @ rest"
  using assms by (auto simp: plan_commands_def Let_def split: if_splits)

lemma build_preflight_checks:
  assumes "build_preflight HB b p r = Some (Inr q)"
  obtains jobs available where "q = p\<lparr>wp_Jobs := jobs\<rparr>" "bh_Euid b = wp_WorkerUID p" "wp_WorkerUID p \<noteq> 0" "\<not> bh_Inhibited b 0"
    "verifySource HB (bh_Tree b p) p = None" "verifyBuildInputs HB b p (wq_Recipe r) = Some (Inr ())"
    "buildJobs available (wp_MemoryMiB p) (wp_Jobs p) = Inr jobs"
  using assms unfolding build_preflight_def by (auto split: sum.splits)

text \<open>The stages of a run in which a command was started.\<close>

lemma runContained_stages:
  assumes "runContained HB b p r s = Some (s', tr, out)" and "tr \<noteq> []"
  obtains q s1 grp base cmds s2 ended where "build_preflight HB b p r = Some (Inr q)" "prepareJobCgroup b q r s = (s1, Inr grp)"
    "plan_commands HB b q r (Join (wp_ScratchRoot q) (wq_ID r)) = Some (Inr (base, cmds))"
    "run_commands b grp base 0 cmds s1 = (s2, tr, ended)"
    "case ended of Some x \<Rightarrow> s' = kill_group b grp s2 \<and> out = x
       | None \<Rightarrow> s' = kill_group b grp (kill_group b grp s2) \<and>
           out = (if descendants_stopped b grp (kill_group b grp s2) then finish_build HB b q r (Join (wp_ScratchRoot q) (wq_ID r)) cmds
             else Inr (worker_result ''recovery-required'' ''descendant-check'' ''worker descendants cannot be proved stopped'' True))"
proof -
  obtain q where q: "build_preflight HB b p r = Some (Inr q)" and body: "build_body HB b q r s = Some (s', tr, out)"
    using assms by (auto simp: runContained_def split: option.splits sum.splits)
  obtain s1 grp where g: "prepareJobCgroup b q r s = (s1, Inr grp)"
    using body assms(2) by (auto simp: build_body_def Let_def split: option.splits prod.splits sum.splits)
  have m: "bh_Mkdir b (Join (wp_ScratchRoot q) (wq_ID r)) = None" "bh_Open b grp = None"
    using body assms(2) g by (auto simp: build_body_def Let_def split: option.splits)
  obtain base cmds where c: "plan_commands HB b q r (Join (wp_ScratchRoot q) (wq_ID r)) = Some (Inr (base, cmds))"
    and cr: "bh_Create b (Join (Join (wp_ScratchRoot q) (wq_ID r)) ''build.log'') = None"
    using body assms(2) g m by (auto simp: build_body_def Let_def attempt_def split: option.splits sum.splits)
  obtain s2 tr2 ended where run: "run_commands b grp base 0 cmds s1 = (s2, tr2, ended)" by (metis prod_cases3)
  have "tr2 = tr" "case ended of Some x \<Rightarrow> s' = kill_group b grp s2 \<and> out = x
       | None \<Rightarrow> s' = kill_group b grp (kill_group b grp s2) \<and>
           out = (if descendants_stopped b grp (kill_group b grp s2) then finish_build HB b q r (Join (wp_ScratchRoot q) (wq_ID r)) cmds
             else Inr (worker_result ''recovery-required'' ''descendant-check'' ''worker descendants cannot be proved stopped'' True))"
    using body by (auto simp: build_body_def Let_def attempt_def m g c cr run split: option.splits)
  with that [OF q g c] run show ?thesis by simp
qed

lemma prepareJobCgroup_limited:
  assumes "prepareJobCgroup b p r s = (s1, Inr grp)"
  shows "\<exists>s0. createLimitedJobCgroup (bh_Files b) (Clean (wp_CgroupRoot p)) (wq_ID r) (wp_MemoryMiB p) (wp_Jobs p) s0 = (s1, Inr grp)"
  using assms by (auto simp: prepareJobCgroup_def Let_def split: sum.splits if_splits option.splits prod.splits)

text \<open>
  C32: No command of a build starts unchecked: when the worker has started a command, it runs as the
  configured unprivileged user, the staged source, the hardware evidence and the toolchain have been
  verified, the build was not inhibited at that moment, the control group of the build was created with the limits of
  the selected memory and a job count within the policy, and the command runs under bubblewrap with
  the sandbox arguments first.
\<close>
theorem contained_commands_checked:
  assumes "runContained HB b p r s = Some (s', tr, out)" and "i < length tr"
  shows "bh_Euid b = wp_WorkerUID p \<and> wp_WorkerUID p \<noteq> 0 \<and> verifySource HB (bh_Tree b p) p = None \<and>
    verifyBuildInputs HB b p (wq_Recipe r) = Some (Inr ()) \<and> \<not> bh_Inhibited b (Suc i) \<and>
    (\<exists>jobs available s0 s1 grp rest. buildJobs available (wp_MemoryMiB p) (wp_Jobs p) = Inr jobs \<and>
       createLimitedJobCgroup (bh_Files b) (Clean (wp_CgroupRoot p)) (wq_ID r) (wp_MemoryMiB p) jobs s0 = (s1, Inr grp) \<and>
       tr ! i = ''/usr/bin/bwrap'' # sandboxArgs p (Join (wp_ScratchRoot p) (wq_ID r)) @ rest)"
proof -
  from assms(2) have "tr \<noteq> []" by auto
  from runContained_stages [OF assms(1) this] obtain q s1 grp base cmds s2 ended where
    q: "build_preflight HB b p r = Some (Inr q)" and g: "prepareJobCgroup b q r s = (s1, Inr grp)"
    and c: "plan_commands HB b q r (Join (wp_ScratchRoot q) (wq_ID r)) = Some (Inr (base, cmds))"
    and run: "run_commands b grp base 0 cmds s1 = (s2, tr, ended)" by metis
  obtain jobs available where f: "q = p\<lparr>wp_Jobs := jobs\<rparr>" "bh_Euid b = wp_WorkerUID p" "wp_WorkerUID p \<noteq> 0"
    "verifySource HB (bh_Tree b p) p = None" "verifyBuildInputs HB b p (wq_Recipe r) = Some (Inr ())"
    "buildJobs available (wp_MemoryMiB p) (wp_Jobs p) = Inr jobs" using build_preflight_checks [OF q] by metis
  obtain rest where "base = sandboxArgs q (Join (wp_ScratchRoot q) (wq_ID r)) @ rest" using plan_commands_sandbox [OF c] by blast
  then have base: "base = sandboxArgs p (Join (wp_ScratchRoot p) (wq_ID r)) @ rest" by (simp add: f(1) sandboxArgs_def)
  obtain s0 where lim: "createLimitedJobCgroup (bh_Files b) (Clean (wp_CgroupRoot p)) (wq_ID r) (wp_MemoryMiB p) jobs s0 = (s1, Inr grp)"
    using prepareJobCgroup_limited [OF g] by (auto simp: f(1))
  obtain args where t: "\<not> bh_Inhibited b (Suc i)" "tr ! i = ''/usr/bin/bwrap'' # base @ args"
    using run_commands_trace [OF run assms(2)] by auto
  from t(2) have "tr ! i = ''/usr/bin/bwrap'' # sandboxArgs p (Join (wp_ScratchRoot p) (wq_ID r)) @ (rest @ args)" by (simp add: base)
  with f t(1) lim show ?thesis by blast
qed


section \<open>A build\<close>

definition cr_HB :: "string \<Rightarrow> string" where "cr_HB = (\<lambda>_. ex_digest)"

definition cr_policy :: WorkerPolicy where
  "cr_policy = \<lparr>wp_Version = 1, wp_WorkerUID = 970, wp_APIUID = 971, wp_Socket = ''/run/w.sock'', wp_StateDir = ''/var/w'', wp_CgroupRoot = ''/sys/w'',
     wp_ScratchRoot = ''/scratch'', wp_CacheRoot = ''/cache'', wp_InhibitPath = ''/run/workstation/build-inhibit'', wp_SourceRoot = ''/src'',
     wp_SourceManifest = ''/etc/src.json'', wp_SourceManifestSHA256 = ex_digest, wp_SourceRevision = SourceCommit, wp_ROCmRoot = ''/opt/rocm'', wp_GPUTarget = ''gfx1201'',
     wp_HardwarePath = ''/var/lib/hw/hardware.json'', wp_ToolchainSHA256 = map (\<lambda>n. (n, ex_digest)) (toolchain_names ''llama-vulkan''),
     wp_SunshineSourceRoot = [], wp_SunshineManifest = [], wp_SunshineManifestSHA256 = [], wp_Jobs = 4, wp_MemoryMiB = 32768, wp_ScratchGiB = 64, wp_CacheGiB = 16,
     wp_MaxLogBytes = 65536, wp_MaxMinutes = 60\<rparr>"

definition cr_request :: WorkerRequest where
  "cr_request = \<lparr>wq_ID = ''build-01'', wq_Actor = ''c1'', wq_Recipe = ''llama-vulkan'', wq_Hash = [],
     wq_Budgets = \<lparr>b_ModelsGiB = 1, b_CompilerGiB = 16, b_ShaderGiB = 1, b_BuildJobs = 4, b_BuildMemoryMiB = 32768, b_ScratchGiB = 64\<rparr>,
     wq_SourceRevision = replicate 64 CHR ''a''\<rparr>"

definition cr_host :: Host where
  "cr_host = \<lparr>hs_Lstat = (\<lambda>p. Inr (if p = ''/sys/w'' then \<lparr>fs_Uid = Some 970, fs_Symlink = False, fs_Perm = 448, fs_IsDir = True, fs_IsRegular = False\<rparr>
       else \<lparr>fs_Uid = Some 0, fs_Symlink = False, fs_Perm = 420, fs_IsDir = False, fs_IsRegular = True\<rparr>)),
     hs_Stat = (\<lambda>_. Present), hs_Walk = (\<lambda>_. []),
     hs_Read = (\<lambda>p. Inr (if p = ''/proc/meminfo'' then ''MemAvailable: 67108864 kB'' else ''x'')), hs_Resolve = Inr\<rparr>"

definition cr_source :: SourceTree where
  "cr_source = \<lparr>so_ManifestTrust = None, so_Manifest = Inr ''m'', so_Decoded = Some [(''a'', ex_digest)], so_Root = None,
     so_Entries = [\<lparr>en_Path = ''a'', en_Err = None, en_IsDir = False, en_Symlink = False, en_IsRegular = True\<rparr>], so_Trust = (\<lambda>_. None), so_Read = (\<lambda>_. Inr ''x'')\<rparr>"

definition cr_tree :: "string \<Rightarrow> string" where
  "cr_tree p = (if p = ''/sys/w/supervisor/cgroup.procs'' then ''42'' else if p = ''/sys/w/cgroup.procs'' then [] else ''cpu memory pids'')"

definition cr_build :: "(nat \<Rightarrow> bool) \<Rightarrow> string \<Rightarrow> (string \<Rightarrow> string) BuildHost" where
  "cr_build inhibited events = \<lparr>bh_Host = cr_host, bh_Euid = 970, bh_Pid = 42, bh_Now = 0, bh_Tree = (\<lambda>_. cr_source),
     bh_Evidence = (\<lambda>_. Some \<lparr>be_Status = ''observed'', be_CollectedAt = 0, be_GPUTarget = ''gfx1201'', be_GPUs = [(''a'', ''amdgpu''), (''b'', ''amdgpu'')]\<rparr>),
     bh_Open = (\<lambda>_. None), bh_Inhibited = inhibited, bh_Statfs = (\<lambda>_. Inr (1024, 4096)), bh_Mkdir = (\<lambda>_. None), bh_Files = map_files,
     bh_Create = (\<lambda>_. None), bh_CcachePolicy = Inr ''/var/w/.ccache-policy-1'', bh_Run = (\<lambda>argv s. (s, None)), bh_Events = (\<lambda>grp s. [Inr events]),
     bh_Fstat = (\<lambda>_. Inr (True, 9)), bh_Directory = (\<lambda>_. True), bh_Archive = (\<lambda>_. Inr []), bh_Rewound = (\<lambda>_. Inr []), bh_Containerfile = [],
     bh_Encode = (\<lambda>_. ''{}'')\<rparr>"

definition cr_success :: "((string \<Rightarrow> string) \<times> string list list \<times> (err + Result)) option \<Rightarrow> bool" where
  "cr_success x \<longleftrightarrow> (case x of Some (s, tr, Inr res) \<Rightarrow> length tr = 2 \<and> res_State res = ''succeeded'' \<and> \<not> res_RecoveryRequired res | _ \<Rightarrow> False)"

lemma cr_succeeds: "cr_success (runContained cr_HB (cr_build (\<lambda>_. False) ''populated 0'') cr_policy cr_request cr_tree)"
  by code_simp

lemma cr_run:
  obtains s' tr res where "runContained cr_HB (cr_build (\<lambda>_. False) ''populated 0'') cr_policy cr_request cr_tree = Some (s', tr, Inr res)"
    "length tr = 2" "res_State res = ''succeeded''" "\<not> res_RecoveryRequired res"
proof -
  have x: "\<exists>s' tr res. x = Some (s', tr, Inr res) \<and> length tr = 2 \<and> res_State res = ''succeeded'' \<and> \<not> res_RecoveryRequired res"
    if "cr_success x" for x
    using that by (auto simp: cr_success_def split: option.split_asm prod.split_asm sum.split_asm)
  from x [OF cr_succeeds] that show ?thesis by blast
qed

theorem trusted_file_protected_witness:
  "trustedFile cr_host ''/usr/bin/bwrap'' = Some None \<and> (\<exists>s. hs_Lstat cr_host ((Dir ^^ 1) ''/usr/bin/bwrap'') = Inr s \<and> fs_Uid s = Some 0)"
proof -
  have t: "trustedFile cr_host ''/usr/bin/bwrap'' = Some None" by code_simp
  have "IsAbs ''/usr/bin/bwrap''" "(Dir ^^ 1) ''/usr/bin/bwrap'' \<noteq> ''/''" by code_simp+
  with trusted_file_protected [of "''/usr/bin/bwrap''" cr_host 1] t show ?thesis by blast
qed

theorem contained_commands_checked_witness:
  "\<exists>s' tr res. runContained cr_HB (cr_build (\<lambda>_. False) ''populated 0'') cr_policy cr_request cr_tree = Some (s', tr, Inr res) \<and>
     (\<exists>jobs available. buildJobs available 32768 4 = Inr jobs) \<and>
     (\<exists>rest. tr ! 1 = ''/usr/bin/bwrap'' # sandboxArgs cr_policy (Join ''/scratch'' ''build-01'') @ rest)"
proof -
  obtain s' tr res where r: "runContained cr_HB (cr_build (\<lambda>_. False) ''populated 0'') cr_policy cr_request cr_tree = Some (s', tr, Inr res)"
    and l: "length tr = 2" by (rule cr_run)
  have "1 < length tr" using l by simp
  moreover have "wp_MemoryMiB cr_policy = 32768" "wp_Jobs cr_policy = 4" "wp_ScratchRoot cr_policy = ''/scratch''" "wq_ID cr_request = ''build-01''"
    by (simp_all add: cr_policy_def cr_request_def)
  ultimately show ?thesis using contained_commands_checked [OF r, of 1] r by metis
qed


text \<open>
  The limit of the previous guarantee: when the inhibition marker appears between two commands,
  the build returns without reading its group again. There is a run in which the first command was
  started, the group is still populated at the end, and the worker records the build as failed with
  no recovery required.
\<close>
theorem inhibition_between_commands_unproved:
  "\<exists>b s' tr. runContained cr_HB b cr_policy cr_request cr_tree = Some (s', tr, Inl (Plain msg_inhibited_phase)) \<and> tr \<noteq> [] \<and>
     \<not> descendants_stopped b ''/sys/w/bridge-build-01'' s' \<and>
     \<not> res_RecoveryRequired (build_outcome None (\<lambda>q. Inl (Plain msg_inhibited_phase)) False cr_policy cr_request)"
proof -
  let ?b = "cr_build (\<lambda>i. i = 2) ''populated 1''" and ?msg = "Plain msg_inhibited_phase"
  have run: "(case runContained cr_HB ?b cr_policy cr_request cr_tree of
      Some (s', tr, Inl e) \<Rightarrow> e = ?msg \<and> tr \<noteq> [] \<and> \<not> descendants_stopped ?b ''/sys/w/bridge-build-01'' s' | _ \<Rightarrow> False)" by code_simp
  have x: "\<exists>s' tr. x = Some (s', tr, Inl ?msg) \<and> tr \<noteq> [] \<and> \<not> descendants_stopped ?b ''/sys/w/bridge-build-01'' s'"
    if "case x of Some (s', tr, Inl e) \<Rightarrow> e = ?msg \<and> tr \<noteq> [] \<and> \<not> descendants_stopped ?b ''/sys/w/bridge-build-01'' s' | _ \<Rightarrow> False" for x
    using that by (auto split: option.split_asm prod.split_asm sum.split_asm)
  have "\<not> res_RecoveryRequired (build_outcome None (\<lambda>q. Inl ?msg) False cr_policy cr_request)" by code_simp
  with x [OF run] show ?thesis by blast
qed

end
