(* ===== verification/Contracts.thy ===== *)
theory Contracts
  imports Engine
begin

text \<open>
  The contracts of the passive components, stated over their own definitions: recovery chains against
  the relation they decide, retention against the records it has to keep, transactions against an
  atomic specification, the managed source as a compare-and-swap cell, and the budget of an accepted
  draft against the capacity of the host.
\<close>

section \<open>Recovery chains\<close>

text \<open>
  The loop over recovery references, with its cycle and target checks, decides exactly the
  reference relation: a root is reported if and only if following the references over valid links
  reaches it, and the chain of an operation holds exactly the operations with the same root.
\<close>
theorem recovery_chain_reference:
  "(RecoveryRoot links a = Inr r \<longleftrightarrow> (\<exists>n. recovers links n a r)) \<and>
   ((\<exists>ch. RecoveryChain links a = Inr ch \<and> k \<in> set ch) \<longleftrightarrow> (\<exists>rt m n. recovers links m a rt \<and> recovers links n k rt))"
proof
  show "RecoveryRoot links a = Inr r \<longleftrightarrow> (\<exists>n. recovers links n a r)" by (rule RecoveryRoot_iff)
  show "(\<exists>ch. RecoveryChain links a = Inr ch \<and> k \<in> set ch) \<longleftrightarrow> (\<exists>rt m n. recovers links m a rt \<and> recovers links n k rt)"
  proof
    assume "\<exists>ch. RecoveryChain links a = Inr ch \<and> k \<in> set ch"
    then obtain ch where ch: "RecoveryChain links a = Inr ch" "k \<in> set ch" by blast
    from RecoveryChain_members [OF ch(1)] ch(2)
    show "\<exists>rt m n. recovers links m a rt \<and> recovers links n k rt" unfolding RecoveryRoot_iff by blast
  next
    assume "\<exists>rt m n. recovers links m a rt \<and> recovers links n k rt"
    then obtain rt where rt: "RecoveryRoot links a = Inr rt" "RecoveryRoot links k = Inr rt" unfolding RecoveryRoot_iff by blast
    obtain ch where "RecoveryChain links a = Inr ch" using RecoveryChain_defined [OF rt(1)] by blast
    with RecoveryChain_members [of links a ch k] rt show "\<exists>ch. RecoveryChain links a = Inr ch \<and> k \<in> set ch" by blast
  qed
qed

section \<open>Retention\<close>

text \<open>
  Retention removes what nothing needs, and nothing else: with well-keyed records an operation
  survives exactly if it is itself unfinished, unresolved or at most thirty days old, or if such an
  operation leads to it through recovery references; pruning again at the same time changes nothing.
\<close>
theorem retention_keeps_needed:
  assumes "keyed ops"
  shows "(map_of (prune_operations now ops) k = Some o1 \<longleftrightarrow>
      map_of ops k = Some o1 \<and> (\<exists>k' o2. map_of ops k' = Some o2 \<and> must_keep now o2 \<and> ancestor ops k' k)) \<and>
    prune_operations now (prune_operations now ops) = prune_operations now ops"
  using prune_operations_iff [OF assms] prune_operations_idem [OF assms] by blast

text \<open>An old record kept for the unresolved one that recovers it, and an old record nothing needs.\<close>

definition ct_operation :: "string \<Rightarrow> string \<Rightarrow> string \<Rightarrow> Operation" where
  "ct_operation k parent state = zero_operation\<lparr>o_ID := k, o_State := state, o_RecoveryRequired := (state = ''recovery-required''),
     o_Plan := zero_plan\<lparr>p_Draft := zero_draft\<lparr>d_RecoveryID := parent\<rparr>\<rparr>, o_UpdatedAt := 0\<rparr>"

definition ct_ops :: "Operation gomap" where
  "ct_ops = [(''a'', ct_operation ''a'' [] ''failed''), (''b'', ct_operation ''b'' ''a'' ''recovery-required''), (''c'', ct_operation ''c'' [] ''succeeded'')]"

lemma ct_keyed: "keyed ct_ops"
  by (simp add: keyed_def ct_ops_def ct_operation_def wf_map_def)

lemma ct_pruned: "map_of (prune_operations (2 * retention) ct_ops) ''a'' = Some (ct_operation ''a'' [] ''failed'')"
    "gkeys (prune_operations (2 * retention) ct_ops) = [''a'', ''b'']"
  by code_simp+

theorem retention_keeps_needed_witness:
  "keyed ct_ops \<and> gkeys (prune_operations (2 * retention) ct_ops) = [''a'', ''b''] \<and>
   (\<exists>k' o2. map_of ct_ops k' = Some o2 \<and> must_keep (2 * retention) o2 \<and> ancestor ct_ops k' ''a'')"
  using retention_keeps_needed [OF ct_keyed, of "2 * retention" "''a''"] ct_pruned ct_keyed by blast

section \<open>Transactions\<close>

text \<open>The specification: the body runs on the pruned state, and its result is committed or nothing is.\<close>

definition spec_transact :: "time \<Rightarrow> (State \<Rightarrow> err + State \<times> 'r) \<Rightarrow> State \<Rightarrow> State \<times> (err + 'r)" where
  "spec_transact now fn v = (case fn (prune now v) of Inl e \<Rightarrow> (v, Inl e) | Inr (v', r) \<Rightarrow> (commit_state now v', Inr r))"

text \<open>
  C16: The store refines the atomic transaction. On a healthy store whose file holds the visible
  state, \<open>Update\<close> either behaves exactly as the specification with the file following the state, or,
  when the file could not be written for certain, keeps the visible state, disables itself and reports
  the failure; the file then holds the state before or the state after the transaction, never a
  mixture, so a later \<open>Open\<close> continues from one of the two.
\<close>
theorem update_refines_transaction:
  assumes "Update now fn db = (db', res)" and "Healthy db" and "db_disk db = db_state db"
  shows "(Healthy db' \<and> (db_state db', res) = spec_transact now fn (db_state db) \<and> db_disk db' = db_state db') \<or>
    (\<not> Healthy db' \<and> db_state db' = db_state db \<and> res = Inl (Failure ''storage_unavailable'' msg_persistence_failed) \<and>
     (\<exists>v \<in> {db_state db, fst (spec_transact now fn (db_state db))}. db_disk db' = v \<and>
       (st_Schema v = 1 \<and> st_Mode v = mode \<and> mode \<in> {''demo'', ''live''} \<longrightarrow>
         (\<exists>again. Open mode None (Inr (Some (db_disk db'))) wr sz = Inr again \<and> db_state again = v \<and> Healthy again))))"
proof (rule Update_cases [of db now fn])
  fix v r disk
  assume *: "fn (prune now (db_state db)) = Inr (v, r)" "disk = db_disk db \<or> disk = commit_state now v"
    "Update now fn db = (db\<lparr>db_poisoned := True, db_disk := disk\<rparr>, Inl (Failure ''storage_unavailable'' msg_persistence_failed))"
  have "disk \<in> {db_state db, fst (spec_transact now fn (db_state db))}" using *(1,2) assms(3) by (auto simp: spec_transact_def)
  moreover have "db' = db\<lparr>db_poisoned := True, db_disk := disk\<rparr>" "res = Inl (Failure ''storage_unavailable'' msg_persistence_failed)"
    using *(3) assms(1) by simp_all
  ultimately show ?thesis by (intro disjI2) (auto simp: Healthy_def Open_def)
qed (use assms in \<open>auto simp: Healthy_def spec_transact_def\<close>)

definition ct_store :: Store where
  "ct_store = \<lparr>db_state = NewState ''live'', db_poisoned = False, db_disk = NewState ''live'', db_Write = (\<lambda>_. WrittenUnconfirmed), db_Size = (\<lambda>_. 0)\<rparr>"

definition ct_body :: "State \<Rightarrow> err + State \<times> unit" where
  "ct_body v = Inr (v, ())"

theorem update_refines_transaction_witness:
  "\<exists>db' res. Update 0 ct_body ct_store = (db', res) \<and> \<not> Healthy db' \<and> db_state db' = NewState ''live'' \<and>
     db_disk db' \<in> {NewState ''live'', fst (spec_transact 0 ct_body (NewState ''live''))} \<and> db_disk db' \<noteq> db_state db'"
proof -
  obtain db' res where u: "Update 0 ct_body ct_store = (db', res)" by fastforce
  have h: "Healthy ct_store" "db_disk ct_store = db_state ct_store" "db_state ct_store = NewState ''live''"
    by (simp_all add: Healthy_def ct_store_def)
  have "\<not> Healthy (fst (Update 0 ct_body ct_store)) \<and>
    st_Revision (db_disk (fst (Update 0 ct_body ct_store))) \<noteq> st_Revision (db_state (fst (Update 0 ct_body ct_store)))" by code_simp
  then have bad: "\<not> Healthy db'" "db_disk db' \<noteq> db_state db'" using u by auto
  show ?thesis using update_refines_transaction [OF u h(1,2)] bad h(3) u by auto
qed

section \<open>The managed source\<close>


text \<open>A digest that tells configurations apart by their model.\<close>

definition ct_H :: digest where
  "ct_H j = (case j of JObj (_ # (_, JObj ((_, JStr m) # _)) # _) \<Rightarrow> m @ ''#'' | _ \<Rightarrow> [])"

definition ct_cfg :: "string \<Rightarrow> Configuration" where
  "ct_cfg m = zero_configuration\<lparr>c_Revision := m @ ''#'', c_Serving := (c_Serving zero_configuration)\<lparr>s_Model := m\<rparr>\<rparr>"

lemma ct_revision: "ContentRevision ct_H (ct_cfg m) = m @ ''#''"
  by (simp add: ContentRevision_def ct_cfg_def ct_H_def configuration_json_def serving_json_def)


section \<open>Budgets\<close>

text \<open>
  The budget of an accepted serving draft fits the host without overflow, as long as the
  reserves the evidence reports are below \<open>2^60\<close>: CPU threads, memory with all reserves and GPUs add
  up to at most the capacity, whole SMT cores are requested, and the offload and shared memory leave
  process memory.
\<close>
theorem accepted_budget_fits:
  assumes "ValidateDraft H now d c iv = None" and "d_Action d \<in> set serving_actions"
    and "\<forall>x \<in> {h_ReservedCPU (i_Hardware iv), h_OtherCPU (i_Hardware iv), h_OtherGPUs (i_Hardware iv), h_HostReserveMiB (i_Hardware iv),
           h_KubeReserveMiB (i_Hardware iv), h_OtherMemoryMiB (i_Hardware iv)}. x < 2 ^ 60"
  defines "s \<equiv> c_Serving (Desired H c d)" and "r \<equiv> c_Resources (Desired H c d)" and "h \<equiv> i_Hardware iv"
  shows "r_CPU r + h_ReservedCPU h + h_OtherCPU h \<le> h_CPUThreads h \<and>
    r_MemoryMiB r + h_HostReserveMiB h + h_KubeReserveMiB h + h_OtherMemoryMiB h \<le> h_MemoryMiB h \<and>
    r_GPUCount r + h_OtherGPUs h \<le> int (length (h_GPUs h)) \<and> r_CPU r mod h_SMTWidth h = 0 \<and>
    s_CPUOffloadGiB s * 1024 + r_SharedMemoryMiB r < r_MemoryMiB r \<and>
    (\<exists>m \<in> set (i_Models iv). m_ID m = s_Model s \<and> m_GPUCount m \<le> r_GPUCount r)"
proof -
  have v: "validate_budget now s r h = None" and m: "validate_model_gpus (s_Model s) (r_GPUCount r) False (i_Models iv) = None"
    using assms(1,2) unfolding ValidateDraft_None_iff s_def r_def h_def by blast+
  note b = validate_budget_None [OF v]
  have small: "h_ReservedCPU h < 2 ^ 60" "h_OtherCPU h < 2 ^ 60" "h_OtherGPUs h < 2 ^ 60" "h_HostReserveMiB h < 2 ^ 60"
    "h_KubeReserveMiB h < 2 ^ 60" "h_OtherMemoryMiB h < 2 ^ 60" using assms(3) by (simp_all add: h_def)
  have "in_i64 (r_CPU r + h_ReservedCPU h + h_OtherCPU h)"
    "in_i64 (r_MemoryMiB r + h_HostReserveMiB h + h_KubeReserveMiB h + h_OtherMemoryMiB h)"
    "in_i64 (r_GPUCount r + h_OtherGPUs h)" "in_i64 (s_CPUOffloadGiB s * 1024 + r_SharedMemoryMiB r)"
    using b small by (auto simp: in_i64_def)
  with b m show ?thesis unfolding validate_model_gpus_None by (auto simp: i64_id)
qed

definition ct_draft :: Draft where
  "ct_draft = zero_draft\<lparr>d_Action := ''serving.configure'', d_Target := ''host'', d_SourceRevision := ''r'',
     d_Serving := Some ((c_Serving zero_configuration)\<lparr>s_Model := ''m'', s_Context := 4096, s_Concurrency := 1, s_MemoryFraction := 1 / 2\<rparr>),
     d_Resources := Some ((c_Resources zero_configuration)\<lparr>r_CPU := 8, r_MemoryMiB := 16384, r_SharedMemoryMiB := 1024, r_GPUCount := 1\<rparr>)\<rparr>"

definition ct_hardware :: "int \<Rightarrow> Hardware" where
  "ct_hardware other = zero_hardware\<lparr>h_BootID := ''b'', h_CurrentBootID := ''b'', h_ObservedAt := 0, h_TopologyKnown := True, h_SMTWidth := 2,
     h_MemoryMiB := 65536, h_CPUThreads := 32, h_CPUManagerPolicy := ''static'', h_FullPCPUsOnly := True, h_OtherMemoryMiB := other,
     h_GPUs := [\<lparr>g_ID = ''g0'', g_Model = [], g_RenderPath = [], g_MemoryMiB = 0\<rparr>]\<rparr>"

definition ct_inventory :: "int \<Rightarrow> Inventory" where
  "ct_inventory other = zero_inventory\<lparr>i_Target := ''host'', i_Hardware := ct_hardware other, i_Models := [\<lparr>m_ID = ''m'', m_Repository = [], m_Revision = [], m_Quantization = [], m_License = [],
     m_Size = 0, m_Status = [], m_Qualification = [], m_GPUCount = 1, m_Files = []\<rparr>]\<rparr>"

lemma ct_accepted: "ValidateDraft (\<lambda>_. ''r'') 0 ct_draft (zero_configuration\<lparr>c_Revision := ''r''\<rparr>) (ct_inventory 1024) = None"
  by code_simp

theorem accepted_budget_fits_witness:
  "ValidateDraft (\<lambda>_. ''r'') 0 ct_draft (zero_configuration\<lparr>c_Revision := ''r''\<rparr>) (ct_inventory 1024) = None \<and>
   16384 + h_HostReserveMiB (ct_hardware 1024) + h_KubeReserveMiB (ct_hardware 1024) + h_OtherMemoryMiB (ct_hardware 1024) \<le> h_MemoryMiB (ct_hardware 1024)"
proof -
  have "d_Action ct_draft \<in> set serving_actions" by (simp add: ct_draft_def serving_actions_def)
  from accepted_budget_fits [OF ct_accepted this] show ?thesis
    using ct_accepted by (simp add: ct_inventory_def ct_hardware_def zero_hardware_def Desired_def ct_draft_def zero_draft_def Let_def)
qed

text \<open>
  The limit of the capacity check: the sum of the memory budget and the reserves is a 64-bit
  sum, so with a reserve near the end of the range it wraps around and a draft is accepted whose
  total exceeds the capacity of the host.
\<close>
theorem capacity_check_wraps:
  "\<exists>H now d c iv. ValidateDraft H now d c iv = None \<and> d_Action d = ''serving.configure'' \<and> in_i64 (h_OtherMemoryMiB (i_Hardware iv)) \<and>
     r_MemoryMiB (c_Resources (Desired H c d)) + h_OtherMemoryMiB (i_Hardware iv) > h_MemoryMiB (i_Hardware iv)"
proof (intro exI conjI)
  let ?c = "zero_configuration\<lparr>c_Revision := ''r''\<rparr>" and ?iv = "ct_inventory (2 ^ 63 - 1)" and ?H = "\<lambda>_. ''r''"
  show "ValidateDraft ?H 0 ct_draft ?c ?iv = None" by code_simp
  show "d_Action ct_draft = ''serving.configure''" by (simp add: ct_draft_def)
  show "in_i64 (h_OtherMemoryMiB (i_Hardware ?iv))" by (simp add: ct_inventory_def ct_hardware_def in_i64_def)
  show "r_MemoryMiB (c_Resources (Desired ?H ?c ct_draft)) + h_OtherMemoryMiB (i_Hardware ?iv) > h_MemoryMiB (i_Hardware ?iv)"
    by (simp add: ct_inventory_def ct_hardware_def Desired_def ct_draft_def zero_draft_def Let_def)
qed

end
