(* ===== verification/SafeFile.thy ===== *)
theory SafeFile
  imports HostPolicy
begin

text \<open>
  Durable local files, \<open>internal/safefile\<close>: the check of a path for symbolic links, the bounded
  read, the replacement of a file by way of a temporary one, and the exclusive creation of a
  secret. The file system is a table of nodes; every call that can fail has its outcome as a field
  of \<open>FileCalls\<close>. \<open>Replace\<close> and \<open>CreateSecret\<close> return every state of the file system they pass
  through, the last one being the one they leave, so that a statement about all of them also
  covers a process that stops half way. The store's model of writing its file is shown to be an
  abstraction of \<open>Replace\<close>.
\<close>

section \<open>The file system\<close>

record FileNode =
  fn_Regular :: bool
  fn_Symlink :: bool
  fn_Perm :: "32 word"
  fn_Uid :: int
  fn_Gid :: int
  fn_Data :: string

type_synonym files = "string \<Rightarrow> FileNode option"

text \<open>
  The outcomes of the system calls. \<open>fc_Lstat\<close> and \<open>fc_Stat\<close> hold errors other than the absence
  of the file. A failed write reports how many bytes it had written; one that succeeds has written
  all of them, as \<open>io.Writer\<close> requires.
\<close>

record FileCalls =
  fc_Euid :: int
  fc_Egid :: int
  fc_Lstat :: "string \<Rightarrow> err option"
  fc_Stat :: "string \<Rightarrow> err option"
  fc_Open :: "err option"
  fc_Temp :: string
  fc_Chmod :: "err option"
  fc_Chown :: "err option"
  fc_Write :: "(nat \<times> err) option"
  fc_Sync :: "err option"
  fc_Close :: "err option"
  fc_Rename :: "err option"
  fc_SyncDir :: "err option"

definition msg_path_canonical :: string where
  "msg_path_canonical = ''path must be absolute and canonical''"

definition msg_path_symlink :: string where
  "msg_path_symlink = ''symlink paths are forbidden''"

definition msg_bounded_regular :: string where
  "msg_bounded_regular = ''not a bounded regular file''"

definition msg_file_size :: string where
  "msg_file_size = ''file exceeds size limit''"

definition msg_destination :: string where
  "msg_destination = ''destination is not a regular file''"

definition msg_secret_directory :: string where
  "msg_secret_directory = ''credential output directory must be owner-only (0700)''"

definition msg_exists :: string where
  "msg_exists = ''file exists''"

definition msg_missing :: string where
  "msg_missing = ''no such file or directory''"

definition msg_loop :: string where
  "msg_loop = ''too many levels of symbolic links''"

text \<open>One round of the loop of \<open>CheckPath\<close>, and the loop on the components, last first.\<close>

definition check_entry :: "(string \<Rightarrow> err option) \<Rightarrow> files \<Rightarrow> string \<Rightarrow> err option" where
  "check_entry lstat fs p =
     (case lstat p of
        Some e \<Rightarrow> Some e
      | None \<Rightarrow> (case fs p of
           None \<Rightarrow> None
         | Some n \<Rightarrow> if fn_Symlink n then Some (Plain msg_path_symlink) else None))"

fun check_walk :: "(string \<Rightarrow> err option) \<Rightarrow> files \<Rightarrow> string list \<Rightarrow> err option" where
  "check_walk lstat fs [] = check_entry lstat fs (abs_path [])"
| "check_walk lstat fs (c # cs) =
     and_then (check_entry lstat fs (abs_path (List.rev (c # cs)))) (check_walk lstat fs cs)"

definition CheckPath :: "(string \<Rightarrow> err option) \<Rightarrow> files \<Rightarrow> string \<Rightarrow> err option" where
  "CheckPath lstat fs path =
     (if \<not> IsAbs path \<or> Clean path \<noteq> path then Some (Plain msg_path_canonical)
      else check_walk lstat fs (List.rev (path_components path)))"

text \<open>
  \<open>Read\<close>. What the reader delivers up to the limit plus one byte is \<open>delivered\<close>: the file may have
  grown since its size was taken.
\<close>

definition safe_Read :: "FileCalls \<Rightarrow> files \<Rightarrow> (string \<times> err option) \<Rightarrow> string \<Rightarrow> int \<Rightarrow> string \<times> err option" where
  "safe_Read c fs delivered path limit =
     (case CheckPath (fc_Lstat c) fs path of
        Some e \<Rightarrow> ([], Some e)
      | None \<Rightarrow>
          (case fc_Open c of
             Some e \<Rightarrow> ([], Some e)
           | None \<Rightarrow>
               (case fs path of
                  None \<Rightarrow> ([], Some (Plain msg_missing))
                | Some n \<Rightarrow>
                    if fn_Symlink n then ([], Some (Plain msg_loop))
                    else if \<not> fn_Regular n \<or> int (length (fn_Data n)) > limit then ([], Some (Plain msg_bounded_regular))
                    else
                      (let b = take (nat (limit + 1)) (fst delivered) in
                       if int (length b) > limit then ([], Some (Plain msg_file_size))
                       else (b, snd delivered)))))"

section \<open>Replacing a file\<close>

text \<open>
  Calls on the open temporary file \<open>t\<close>: each has an error and what it did to the file. The first
  error ends the sequence.
\<close>

fun temp_calls :: "string \<Rightarrow> (err option \<times> (FileNode \<Rightarrow> FileNode)) list \<Rightarrow> files \<Rightarrow> files list \<times> err option" where
  "temp_calls t [] fs = ([], None)"
| "temp_calls t ((e, f) # rest) fs =
     (let fs' = fs(t := map_option f (fs t)) in
      case e of
        Some x \<Rightarrow> ([fs'], Some x)
      | None \<Rightarrow> (let (states, x) = temp_calls t rest fs' in (fs' # states, x)))"

definition unless :: "err option \<Rightarrow> ('a \<Rightarrow> 'a) \<Rightarrow> err option \<times> ('a \<Rightarrow> 'a)" where
  "unless e f = (case e of Some x \<Rightarrow> (Some x, id) | None \<Rightarrow> (None, f))"

definition write_call :: "(nat \<times> err) option \<Rightarrow> string \<Rightarrow> err option \<times> (FileNode \<Rightarrow> FileNode)" where
  "write_call w b = (case w of
       Some (n, x) \<Rightarrow> (Some x, fn_Data_update (\<lambda>_. take n b))
     | None \<Rightarrow> (None, fn_Data_update (\<lambda>_. b)))"

definition chown_call :: "FileCalls \<Rightarrow> (int \<times> int) option \<Rightarrow> (err option \<times> (FileNode \<Rightarrow> FileNode)) list" where
  "chown_call c owner = (case owner of
       Some (uid, gid) \<Rightarrow> if fc_Euid c = 0 \<and> uid \<ge> 0
         then [unless (fc_Chown c) (\<lambda>n. n\<lparr>fn_Uid := uid, fn_Gid := gid\<rparr>)] else []
     | None \<Rightarrow> [])"

text \<open>The permission bits and the owner of the new file: those of the old one if there is one.\<close>

definition destination :: "FileCalls \<Rightarrow> files \<Rightarrow> string \<Rightarrow> 32 word \<Rightarrow> err + 32 word \<times> (int \<times> int) option" where
  "destination c fs path mode =
     (case fs path of
        Some n \<Rightarrow> if \<not> fn_Regular n then Inl (Plain msg_destination)
                  else Inr (fn_Perm n, Some (fn_Uid n, fn_Gid n))
      | None \<Rightarrow>
          (case fc_Lstat c path of
             Some e \<Rightarrow> Inl e
           | None \<Rightarrow>
               Inr (mode,
                 if fc_Euid c = 0 \<and> fc_Stat c (Dir path) = None
                 then map_option (\<lambda>n. (fn_Uid n, fn_Gid n)) (fs (Dir path)) else None)))"

definition fresh_node :: "FileCalls \<Rightarrow> FileNode" where
  "fresh_node c = \<lparr>fn_Regular = True, fn_Symlink = False, fn_Perm = 384, fn_Uid = fc_Euid c, fn_Gid = fc_Egid c, fn_Data = []\<rparr>"

text \<open>The calls of \<open>Replace\<close> on its temporary file.\<close>

definition replace_calls :: "FileCalls \<Rightarrow> 32 word \<Rightarrow> (int \<times> int) option \<Rightarrow> string \<Rightarrow> (err option \<times> (FileNode \<Rightarrow> FileNode)) list" where
  "replace_calls c perm owner b = [unless (fc_Chmod c) (\<lambda>n. n\<lparr>fn_Perm := perm\<rparr>)] @ chown_call c owner
     @ [write_call (fc_Write c) b, (fc_Sync c, id)]"

definition replace_through :: "FileCalls \<Rightarrow> string \<Rightarrow> string \<Rightarrow> 32 word \<Rightarrow> (int \<times> int) option \<Rightarrow> files \<Rightarrow> files list \<times> err option" where
  "replace_through c path b perm owner fs =
     (let t = fc_Temp c;
          fs0 = fs(t \<mapsto> fresh_node c);
          calls = temp_calls t (replace_calls c perm owner b) fs0;
          fs1 = last (fs0 # fst calls)
      in case and_then (and_then (snd calls) (fc_Close c)) (fc_Rename c) of
           Some x \<Rightarrow> (fs # fs0 # fst calls @ [fs1(t := None)], Some x)
         | None \<Rightarrow> (fs # fs0 # fst calls @ [fs1(path := fs1 t, t := None)], fc_SyncDir c))"

definition Replace :: "FileCalls \<Rightarrow> string \<Rightarrow> string \<Rightarrow> 32 word \<Rightarrow> files \<Rightarrow> files list \<times> err option" where
  "Replace c path b mode fs =
     (case CheckPath (fc_Lstat c) fs path of
        Some e \<Rightarrow> ([fs], Some e)
      | None \<Rightarrow>
          (case destination c fs path mode of
             Inl e \<Rightarrow> ([fs], Some e)
           | Inr (perm, owner) \<Rightarrow>
               (case fc_Open c of
                  Some e \<Rightarrow> ([fs], Some e)
                | None \<Rightarrow> replace_through c path b perm owner fs)))"

text \<open>
  \<open>CreateSecret\<close>: the file is created exclusively and removed again unless every call succeeded.
  A negative \<open>uid\<close> stands for the owner of the directory.
\<close>

definition secret_calls :: "FileCalls \<Rightarrow> int \<Rightarrow> string \<Rightarrow> (err option \<times> (FileNode \<Rightarrow> FileNode)) list" where
  "secret_calls c uid b =
     (if fc_Euid c = 0 \<and> uid \<ge> 0 then [unless (fc_Chown c) (\<lambda>n. n\<lparr>fn_Uid := uid\<rparr>)] else [])
     @ [write_call (fc_Write c) b, (fc_Sync c, id)]"

definition CreateSecret :: "FileCalls \<Rightarrow> string \<Rightarrow> string \<Rightarrow> int \<Rightarrow> files \<Rightarrow> files list \<times> err option" where
  "CreateSecret c path b uid fs =
     (case CheckPath (fc_Lstat c) fs path of
        Some e \<Rightarrow> ([fs], Some e)
      | None \<Rightarrow>
     case fc_Stat c (Dir path) of
        Some e \<Rightarrow> ([fs], Some e)
      | None \<Rightarrow>
     case fs (Dir path) of
        None \<Rightarrow> ([fs], Some (Plain msg_missing))
      | Some dir \<Rightarrow>
          if and (fn_Perm dir) 63 \<noteq> 0 then ([fs], Some (Plain msg_secret_directory))
          else if fs path \<noteq> None then ([fs], Some (Plain msg_exists))
          else case fc_Open c of
            Some e \<Rightarrow> ([fs], Some e)
          | None \<Rightarrow>
              (let fs0 = fs(path \<mapsto> fresh_node c);
                   uid = (if uid < 0 then fn_Uid dir else uid);
                   calls = temp_calls path (secret_calls c uid b) fs0
               in case and_then (snd calls) (and_then (fc_Close c) (fc_SyncDir c)) of
                    Some x \<Rightarrow> (fs # fs0 # fst calls @ [(last (fs0 # fst calls))(path := None)], Some x)
                  | None \<Rightarrow> (fs # fs0 # fst calls, None)))"

section \<open>Facts\<close>

lemma unless_fst [simp]: "fst (unless e f) = e"
  by (simp add: unless_def split: option.split)

text \<open>Calls on the temporary file touch nothing else.\<close>

lemma temp_calls_frame:
  "s \<in> set (fst (temp_calls t calls fs)) \<Longrightarrow> q \<noteq> t \<Longrightarrow> s q = fs q"
proof (induction calls arbitrary: fs)
  case (Cons call rest)
  obtain e f where call: "call = (e, f)" by fastforce
  show ?case
  proof (cases e)
    case None
    with Cons.prems call consider "s = fs(t := map_option f (fs t))"
      | "s \<in> set (fst (temp_calls t rest (fs(t := map_option f (fs t)))))"
      by (auto simp: Let_def case_prod_beta)
    then show ?thesis using Cons.IH Cons.prems(2) by cases auto
  qed (use Cons.prems call in auto)
qed simp

lemma temp_calls_frame_last:
  assumes "q \<noteq> t"
  shows "last (fs # fst (temp_calls t calls fs)) q = fs q"
proof (cases "fst (temp_calls t calls fs) = []")
  case False
  then have "last (fs # fst (temp_calls t calls fs)) \<in> set (fst (temp_calls t calls fs))" by auto
  from temp_calls_frame [OF this assms] show ?thesis .
qed simp

text \<open>When no call failed, the file has had every effect applied in order.\<close>

lemma temp_calls_done:
  "snd (temp_calls t calls fs) = None \<Longrightarrow>
     (\<forall>call \<in> set calls. fst call = None) \<and>
     last (fs # fst (temp_calls t calls fs)) t = map_option (fold snd calls) (fs t)"
proof (induction calls arbitrary: fs)
  case Nil
  show ?case by (simp add: option.map_id0 [unfolded id_def])
next
  case (Cons call rest)
  obtain e f where call: "call = (e, f)" by fastforce
  with Cons.prems have e: "e = None" by (cases e) (simp_all add: Let_def)
  define fs' where "fs' = fs(t := map_option f (fs t))"
  have step: "temp_calls t (call # rest) fs = (fs' # fst (temp_calls t rest fs'), snd (temp_calls t rest fs'))"
    by (simp add: call e fs'_def case_prod_beta Let_def)
  with Cons.prems have "snd (temp_calls t rest fs') = None" by simp
  from Cons.IH [OF this] have "\<forall>c \<in> set rest. fst c = None"
    and "last (fs' # fst (temp_calls t rest fs')) t = map_option (fold snd rest) (fs' t)" by auto
  moreover have "last (fs # fst (temp_calls t (call # rest) fs)) = last (fs' # fst (temp_calls t rest fs'))"
    by (simp only: step fst_conv last_ConsR list.distinct not_False_eq_True)
  moreover have "map_option (fold snd rest) (fs' t) = map_option (fold snd (call # rest)) (fs t)"
    by (simp add: fs'_def option.map_comp comp_def call)
  ultimately show ?case by (simp add: call e comp_def del: temp_calls.simps last.simps)
qed

lemma chown_effect:
  "fn_Data (fold snd (chown_call c owner) n) = fn_Data n \<and> fn_Perm (fold snd (chown_call c owner) n) = fn_Perm n \<and>
   fn_Regular (fold snd (chown_call c owner) n) = fn_Regular n"
  by (cases "fc_Chown c") (auto simp: chown_call_def unless_def split: option.split prod.split)

lemma replace_calls_effect:
  assumes "\<forall>call \<in> set (replace_calls c perm owner b). fst call = None"
  shows "fn_Data (fold snd (replace_calls c perm owner b) n) = b \<and>
    fn_Perm (fold snd (replace_calls c perm owner b) n) = perm \<and>
    fn_Regular (fold snd (replace_calls c perm owner b) n) = fn_Regular n"
proof -
  have "fc_Chmod c = None" using assms by (simp add: replace_calls_def)
  moreover have "fc_Write c = None"
    using assms by (cases "fc_Write c") (auto simp: replace_calls_def write_call_def)
  ultimately show ?thesis
    using chown_effect [of c owner "n\<lparr>fn_Perm := perm\<rparr>"] by (simp add: replace_calls_def unless_def write_call_def)
qed

text \<open>The file system passed through while the temporary file is filled differs in that file only.\<close>

lemma replace_through_states:
  assumes "s \<in> set (fst (replace_through c path b perm owner fs))" and "q \<noteq> fc_Temp c" and "q \<noteq> path"
  shows "s q = fs q"
  using assms temp_calls_frame [of s "fc_Temp c" "replace_calls c perm owner b" "fs(fc_Temp c \<mapsto> fresh_node c)" q]
    temp_calls_frame_last [of q "fc_Temp c" "fs(fc_Temp c \<mapsto> fresh_node c)" "replace_calls c perm owner b"]
  by (auto simp: replace_through_def Let_def simp del: last.simps split: option.splits)

lemma replace_through_temp:
  "last (fst (replace_through c path b perm owner fs)) (fc_Temp c) = None"
  by (simp add: replace_through_def Let_def split: option.split)

text \<open>Either the calls all went well and the file is renamed, or nothing but the temporary file was touched.\<close>

lemma replace_through_cases:
  assumes "path \<noteq> fc_Temp c"
  obtains (kept) "snd (replace_through c path b perm owner fs) \<noteq> None"
      "\<And>s. s \<in> set (fst (replace_through c path b perm owner fs)) \<Longrightarrow> s path = fs path"
  | (renamed) states s n where "fst (replace_through c path b perm owner fs) = states @ [s]"
      "\<And>s. s \<in> set states \<Longrightarrow> s path = fs path"
      "s path = Some n" "fn_Data n = b" "fn_Perm n = perm" "fn_Regular n"
proof -
  let ?t = "fc_Temp c"
  let ?calls = "replace_calls c perm owner b"
  define fs0 where "fs0 = fs(?t \<mapsto> fresh_node c)"
  define calls where "calls = temp_calls ?t ?calls fs0"
  define fs1 where "fs1 = last (fs0 # fst calls)"
  have rt: "replace_through c path b perm owner fs =
      (case and_then (and_then (snd calls) (fc_Close c)) (fc_Rename c) of
         Some x \<Rightarrow> (fs # fs0 # fst calls @ [fs1(?t := None)], Some x)
       | None \<Rightarrow> (fs # fs0 # fst calls @ [fs1(path := fs1 ?t, ?t := None)], fc_SyncDir c))"
    unfolding replace_through_def Let_def fs1_def calls_def fs0_def ..
  have fs0: "fs0 path = fs path" "fs0 ?t = Some (fresh_node c)" using assms by (simp_all add: fs0_def)
  have frame: "x path = fs path" if "x \<in> set (fst calls)" for x
    using temp_calls_frame [of x ?t ?calls fs0 path] that assms fs0 by (simp add: calls_def)
  have fs1: "fs1 path = fs path"
    using temp_calls_frame_last [OF assms, of fs0 ?calls] fs0 by (simp only: fs1_def calls_def)
  show ?thesis
  proof (cases "and_then (and_then (snd calls) (fc_Close c)) (fc_Rename c)")
    case (Some x)
    show ?thesis
      by (rule kept) (use Some fs0 fs1 frame assms in \<open>auto simp: rt\<close>)
  next
    case None
    then have "snd (temp_calls ?t ?calls fs0) = None" by (simp add: calls_def)
    from temp_calls_done [OF this] fs0 have
      ok: "\<forall>call \<in> set ?calls. fst call = None" and n: "fs1 ?t = Some (fold snd ?calls (fresh_node c))"
      by (simp_all add: fs1_def calls_def del: last.simps)
    show ?thesis
      by (rule renamed [of "fs # fs0 # fst calls" "fs1(path := fs1 ?t, ?t := None)" "fold snd ?calls (fresh_node c)"])
        (use None fs0 frame n replace_calls_effect [OF ok, of "fresh_node c"] assms in \<open>auto simp: rt fresh_node_def\<close>)
  qed
qed

lemma Replace_target:
  assumes "Replace c path b mode fs = (states, e)" and "path \<noteq> fc_Temp c"
  obtains (kept) "e \<noteq> None" "\<And>s. s \<in> set states \<Longrightarrow> s path = fs path"
  | (renamed) before s n perm owner where "destination c fs path mode = Inr (perm, owner)" "states = before @ [s]"
      "\<And>s. s \<in> set before \<Longrightarrow> s path = fs path"
      "s path = Some n" "fn_Data n = b" "fn_Perm n = perm" "fn_Regular n"
proof (cases "CheckPath (fc_Lstat c) fs path = None \<and> (\<exists>po. destination c fs path mode = Inr po) \<and> fc_Open c = None")
  case False
  with assms(1) have "states = [fs]" and "e \<noteq> None"
    by (cases "CheckPath (fc_Lstat c) fs path"; cases "destination c fs path mode"; cases "fc_Open c"; auto simp: Replace_def)+
  with kept show ?thesis by simp
next
  case True
  then obtain perm owner where dest: "destination c fs path mode = Inr (perm, owner)" by auto
  with assms(1) True have rt: "replace_through c path b perm owner fs = (states, e)" by (simp add: Replace_def)
  show ?thesis
    using assms(2)
  proof (cases rule: replace_through_cases [of path c b perm owner fs])
    case kept
    with rt that(1) show ?thesis by simp
  next
    case (renamed states s n)
    with rt dest that(2) show ?thesis by simp
  qed
qed

lemma Replace_frame:
  assumes "s \<in> set (fst (Replace c path b mode fs))" and "q \<noteq> fc_Temp c" and "q \<noteq> path"
  shows "s q = fs q"
  using assms replace_through_states [of s c path b _ _ fs q]
  by (auto simp: Replace_def split: option.splits sum.splits)

lemma Replace_temp:
  "fs (fc_Temp c) = None \<Longrightarrow> last (fst (Replace c path b mode fs)) (fc_Temp c) = None"
  by (simp add: Replace_def replace_through_temp split: option.split sum.split prod.split)

text \<open>A path that passes the check has no symbolic link among itself and its parents.\<close>

lemma check_walk_None:
  "check_walk lstat fs rcs = None \<longleftrightarrow>
     (\<forall>n \<le> length rcs. check_entry lstat fs (abs_path (List.rev (drop n rcs))) = None)"
  by (induction rcs) (auto simp: all_le_Suc)

lemma checked_path_no_symlink:
  assumes "CheckPath lstat fs path = None"
  shows "canonical path \<and> (\<forall>node. fs ((Dir ^^ n) path) = Some node \<longrightarrow> \<not> fn_Symlink node)"
proof -
  have can: "canonical path" using assms by (auto simp: CheckPath_def canonical_def split: if_splits)
  then obtain cs where cs: "path = abs_path cs" "list_all plain_component cs" by (auto simp: canonical_iff)
  have w: "check_walk lstat fs (List.rev cs) = None"
    using assms can by (simp add: CheckPath_def canonical_def cs path_components_abs split: if_splits)
  define k where "k = min n (length cs)"
  have "length cs - n = length cs - k" "k \<le> length cs" by (auto simp: k_def)
  with w [unfolded check_walk_None, rule_format, of k] can show ?thesis
    by (auto simp: cs Dir_funpow rev_drop check_entry_def split: option.splits if_splits)
qed

lemma safe_Read_bounded:
  assumes "safe_Read c fs delivered path limit = (b, None)" and "0 \<le> limit"
  shows "int (length b) \<le> limit \<and> CheckPath (fc_Lstat c) fs path = None \<and>
    (\<exists>node. fs path = Some node \<and> fn_Regular node \<and> \<not> fn_Symlink node)"
  using assms by (auto simp: safe_Read_def Let_def split: option.splits if_splits)

section \<open>Properties\<close>


text \<open>
  The store's file: writing it is \<open>Written\<close> when the replacement reports success, \<open>NotWritten\<close> when
  it fails with the old content in place, and \<open>WrittenUnconfirmed\<close> when it fails after the rename.
\<close>

definition replace_outcome :: "FileCalls \<Rightarrow> string \<Rightarrow> string \<Rightarrow> 32 word \<Rightarrow> files \<Rightarrow> write_outcome" where
  "replace_outcome c path b mode fs =
     (let (states, e) = Replace c path b mode fs in
      if e = None then Written
      else if map_option fn_Data (last states path) = map_option fn_Data (fs path) then NotWritten
      else WrittenUnconfirmed)"

text \<open>
  C22: the store's model of a write is an abstraction of replacing its file. When the file holds the
  encoding of the last state written, and the outcome of writing \<open>v\<close> is the one of replacing the file
  by the encoding of \<open>v\<close>, then \<open>persist\<close> reports success exactly when \<open>Replace\<close> does and the file
  afterwards holds the encoding of the state that \<open>persist\<close> says is on disk.
\<close>

theorem store_write_refined:
  assumes "map_option fn_Data (fs path) = Some (enc (db_disk db))" and "path \<noteq> fc_Temp c"
    and "db_Size db v = int (length (enc v))" and "int (length (enc v)) \<le> MaxBytes"
    and "db_Write db v = replace_outcome c path (enc v) 384 fs"
  shows "(fst (persist db v) = None \<longleftrightarrow> snd (Replace c path (enc v) 384 fs) = None) \<and>
    map_option fn_Data (last (fst (Replace c path (enc v) 384 fs)) path) = Some (enc (snd (persist db v)))"
proof -
  obtain states e where r: "Replace c path (enc v) 384 fs = (states, e)" by fastforce
  from r assms(2) show ?thesis
  proof (cases rule: Replace_target)
    case kept
    have "states \<noteq> []" using r by (auto simp: Replace_def replace_through_def Let_def split: option.splits sum.splits)
    with kept(2) have "last states path = fs path" by simp
    with kept(1) r assms show ?thesis by (auto simp: persist_def replace_outcome_def)
  next
    case renamed
    with r assms show ?thesis by (auto simp: persist_def replace_outcome_def)
  qed
qed

lemma secret_calls_effect:
  assumes "\<forall>call \<in> set (secret_calls c uid b). fst call = None"
  shows "fn_Data (fold snd (secret_calls c uid b) n) = b \<and> fn_Perm (fold snd (secret_calls c uid b) n) = fn_Perm n"
proof -
  have "fc_Write c = None" using assms by (cases "fc_Write c") (auto simp: secret_calls_def write_call_def)
  then show ?thesis by (cases "fc_Chown c") (simp_all add: secret_calls_def unless_def write_call_def)
qed

text \<open>
  C3: a secret is created exclusively. It never replaces a file; a creation that reports an error
  leaves the file system as it was; one that succeeds leaves exactly the secret, readable and
  writable by its owner only, in a directory that no one else may enter.
\<close>

theorem secret_exclusive:
  assumes "CreateSecret c path b uid fs = (states, e)"
  shows "(e \<noteq> None \<longrightarrow> last states = fs) \<and>
    (e = None \<longrightarrow> fs path = None \<and>
       (\<exists>n dir. last states = fs(path \<mapsto> n) \<and> fn_Data n = b \<and> fn_Perm n = 384 \<and>
          fs (Dir path) = Some dir \<and> and (fn_Perm dir) 63 = 0))"
proof (cases "\<exists>dir. CheckPath (fc_Lstat c) fs path = None \<and> fc_Stat c (Dir path) = None \<and> fs (Dir path) = Some dir \<and>
    and (fn_Perm dir) 63 = 0 \<and> fs path = None \<and> fc_Open c = None")
  case False
  have "fst (CreateSecret c path b uid fs) = [fs] \<and> snd (CreateSecret c path b uid fs) \<noteq> None"
    using False by (auto simp: CreateSecret_def split: option.split)
  with assms show ?thesis by auto
next
  case True
  then obtain dir where dir: "CheckPath (fc_Lstat c) fs path = None" "fc_Stat c (Dir path) = None" "fs (Dir path) = Some dir"
    "and (fn_Perm dir) 63 = 0" "fs path = None" "fc_Open c = None" by blast
  define uid' where "uid' = (if uid < 0 then fn_Uid dir else uid)"
  define fs0 where "fs0 = fs(path \<mapsto> fresh_node c)"
  define calls where "calls = temp_calls path (secret_calls c uid' b) fs0"
  define fs1 where "fs1 = last (fs0 # fst calls)"
  have "CreateSecret c path b uid fs = (case and_then (snd calls) (and_then (fc_Close c) (fc_SyncDir c)) of
      Some x \<Rightarrow> (fs # fs0 # fst calls @ [fs1(path := None)], Some x) | None \<Rightarrow> (fs # fs0 # fst calls, None))"
    unfolding fs1_def calls_def fs0_def uid'_def
    by (simp add: CreateSecret_def Let_def dir del: fun_upd_apply last.simps temp_calls.simps split del: if_split)
  note r = this [unfolded assms]
  have other: "fs1 q = fs q" if "q \<noteq> path" for q
    using temp_calls_frame_last [OF that, of fs0 "secret_calls c uid' b"] that by (simp add: fs1_def calls_def fs0_def del: last.simps)
  show ?thesis
  proof (cases "and_then (snd calls) (and_then (fc_Close c) (fc_SyncDir c))")
    case (Some x)
    have "fs1(path := None) = fs" using other dir(5) by auto
    with Some r show ?thesis by simp
  next
    case None
    then have "snd (temp_calls path (secret_calls c uid' b) fs0) = None" by (simp add: calls_def)
    from temp_calls_done [OF this] have ok: "\<forall>call \<in> set (secret_calls c uid' b). fst call = None"
      and n: "fs1 path = Some (fold snd (secret_calls c uid' b) (fresh_node c))"
      by (simp_all add: fs1_def calls_def fs0_def del: last.simps)
    from n other have fs1: "fs1 = fs(path \<mapsto> fold snd (secret_calls c uid' b) (fresh_node c))" by auto
    have "last states = fs1" using None r by (simp add: fs1_def)
    with fs1 have "last states = fs(path \<mapsto> fold snd (secret_calls c uid' b) (fresh_node c))" by simp
    moreover have "e = None" "fn_Perm (fresh_node c) = 384" using None r by (simp_all add: fresh_node_def)
    ultimately show ?thesis using secret_calls_effect [OF ok, of "fresh_node c"] dir by auto
  qed
qed

section \<open>Examples\<close>

definition ex_calls :: FileCalls where
  "ex_calls = \<lparr>fc_Euid = 1000, fc_Egid = 1000, fc_Lstat = (\<lambda>_. None), fc_Stat = (\<lambda>_. None), fc_Open = None,
     fc_Temp = ''/s/t'', fc_Chmod = None, fc_Chown = None, fc_Write = None, fc_Sync = None, fc_Close = None,
     fc_Rename = None, fc_SyncDir = Some (Plain ''sync'')\<rparr>"

definition ex_node :: "32 word \<Rightarrow> string \<Rightarrow> FileNode" where
  "ex_node perm b = \<lparr>fn_Regular = True, fn_Symlink = False, fn_Perm = perm, fn_Uid = 1000, fn_Gid = 1000, fn_Data = b\<rparr>"

definition ex_files :: files where
  "ex_files = [''/s/state.json'' \<mapsto> ex_node 416 ''old'', ''/s'' \<mapsto> ex_node 448 []]"

lemma ex_replace:
  "snd (Replace ex_calls ''/s/state.json'' ''new'' 384 ex_files) = Some (Plain ''sync'')"
  "map_option fn_Data (last (fst (Replace ex_calls ''/s/state.json'' ''new'' 384 ex_files)) ''/s/state.json'') = Some ''new''"
  "ex_files (fc_Temp ex_calls) = None" "''/s/state.json'' \<noteq> fc_Temp ex_calls"
  "fst (Replace ex_calls ''/s/state.json'' ''new'' 384 ex_files) \<noteq> []"
proof -
  have "length (fst (Replace ex_calls ''/s/state.json'' ''new'' 384 ex_files)) = 6" by code_simp
  then show "fst (Replace ex_calls ''/s/state.json'' ''new'' 384 ex_files) \<noteq> []" by auto
qed code_simp+

abbreviation ex_run :: "files list \<times> err option" where
  "ex_run \<equiv> Replace ex_calls ''/s/state.json'' ''new'' 384 ex_files"


definition ex_file_store :: Store where
  "ex_file_store = \<lparr>db_state = NewState ''demo'', db_poisoned = False, db_disk = NewState ''demo'',
     db_Write = (\<lambda>_. WrittenUnconfirmed), db_Size = (\<lambda>_. 3)\<rparr>"

definition ex_enc :: "State \<Rightarrow> string" where
  "ex_enc v = (if st_Revision v = 0 then ''old'' else ''new'')"

theorem store_write_refined_witness:
  "fst (persist ex_file_store ((NewState ''demo'')\<lparr>st_Revision := 1\<rparr>)) \<noteq> None \<and>
   map_option fn_Data (last (fst ex_run) ''/s/state.json'')
     = Some (ex_enc (snd (persist ex_file_store ((NewState ''demo'')\<lparr>st_Revision := 1\<rparr>))))"
proof -
  let ?v = "(NewState ''demo'')\<lparr>st_Revision := 1\<rparr>"
  have enc: "ex_enc ?v = ''new''" by (simp add: ex_enc_def)
  have old: "map_option fn_Data (ex_files ''/s/state.json'') = Some (ex_enc (db_disk ex_file_store))"
    by (simp add: ex_files_def ex_node_def ex_enc_def ex_file_store_def NewState_def)
  have outcome: "db_Write ex_file_store ?v = replace_outcome ex_calls ''/s/state.json'' ''new'' 384 ex_files"
    using ex_replace(1,2) by (auto simp: replace_outcome_def ex_file_store_def case_prod_beta ex_files_def ex_node_def)
  show ?thesis
    using store_write_refined [of ex_files _ ex_enc ex_file_store ex_calls ?v, unfolded enc, OF old ex_replace(4) _ _ outcome]
      ex_replace(1) by (auto simp: ex_file_store_def MaxBytes_def)
qed

lemma ex_secret:
  "snd (CreateSecret (ex_calls\<lparr>fc_SyncDir := None\<rparr>) ''/s/key'' ''k'' (- 1) ex_files) = None"
  "snd (CreateSecret ex_calls ''/s/state.json'' ''k'' (- 1) ex_files) \<noteq> None"
  by code_simp+

theorem secret_exclusive_witness:
  "map_option fn_Data (last (fst (CreateSecret (ex_calls\<lparr>fc_SyncDir := None\<rparr>) ''/s/key'' ''k'' (- 1) ex_files)) ''/s/key'') = Some ''k'' \<and>
   last (fst (CreateSecret ex_calls ''/s/state.json'' ''k'' (- 1) ex_files)) = ex_files"
proof -
  let ?a = "CreateSecret (ex_calls\<lparr>fc_SyncDir := None\<rparr>) ''/s/key'' ''k'' (- 1) ex_files"
  let ?b = "CreateSecret ex_calls ''/s/state.json'' ''k'' (- 1) ex_files"
  have "?a = (fst ?a, snd ?a)" "?b = (fst ?b, snd ?b)" by simp_all
  from secret_exclusive [OF this(1)] secret_exclusive [OF this(2)] ex_secret show ?thesis by auto
qed

end
