(* ===== verification/ServiceConfig.thy ===== *)
theory ServiceConfig
  imports SafeFile
begin

text \<open>
  The service policy file, \<open>internal/config\<close>: the strict JSON decoding every document of the
  program goes through, the policy record with its validation, the choice of the browser session's
  cookie and purpose, and the loading of the file with the checks of its owner and of its parent
  directories.

  The lexical level of \<open>encoding/json\<close>, \<open>net/url.Parse\<close> and \<open>net.ParseIP\<close> are parameters: a
  document is the sequence of tokens the decoder delivers, an address and an origin are given by
  their parsed form. The host and port of an address and of a parsed origin are computed.
\<close>

section \<open>Strict JSON\<close>

text \<open>
  The tokens of \<open>json.Decoder.Token\<close>. \<open>TBad m\<close> is a place where the decoder reports an error; \<open>m\<close>
  is what \<open>More\<close> answers in front of it.
\<close>

datatype jtoken = TDelim char | TString string | TValue | TBad bool

definition msg_nesting :: string where "msg_nesting = ''JSON nesting limit exceeded''"
definition msg_json :: string where "msg_json = ''invalid JSON''"
definition msg_json_object :: string where "msg_json_object = ''invalid JSON object''"
definition msg_json_key :: string where "msg_json_key = ''duplicate JSON key''"
definition msg_json_delimiter :: string where "msg_json_delimiter = ''invalid JSON delimiter''"
definition msg_json_token :: string where "msg_json_token = ''unexpected end of JSON input''"
definition msg_json_field :: string where "msg_json_field = ''invalid JSON or unknown field''"
definition msg_json_one :: string where "msg_json_one = ''one JSON document is required''"

fun More :: "jtoken list \<Rightarrow> bool" where
  "More [] = False"
| "More (TDelim c # ts) = (c \<noteq> CHR ''}'' \<and> c \<noteq> CHR '']'')"
| "More (TBad m # ts) = m"
| "More (t # ts) = True"

text \<open>The token behind the last element.\<close>

fun closing :: "jtoken list \<Rightarrow> err + jtoken list" where
  "closing [] = Inl (Plain msg_json_token)"
| "closing (TBad m # ts) = Inl (Plain msg_json_token)"
| "closing (t # ts) = Inr ts"

lemma closing_shorter: "closing ts = Inr us \<Longrightarrow> length us < length ts"
  by (induction ts rule: closing.induct) auto

text \<open>
  \<open>uniqueJSON\<close> with the loop over the members of an object and the loop over the elements of an
  array; a result is the rest of the document.
\<close>

function uniqueJSON :: "nat \<Rightarrow> jtoken list \<Rightarrow> err + jtoken list"
  and unique_members :: "nat \<Rightarrow> string list \<Rightarrow> jtoken list \<Rightarrow> err + jtoken list"
  and unique_elements :: "nat \<Rightarrow> jtoken list \<Rightarrow> err + jtoken list" where
  "uniqueJSON depth ts =
     (if depth > 32 then Inl (Plain msg_nesting)
      else case ts of
             [] \<Rightarrow> Inl (Plain msg_json)
           | t # rest \<Rightarrow>
               (case t of
                  TBad _ \<Rightarrow> Inl (Plain msg_json)
                | TDelim c \<Rightarrow>
                    if c = CHR ''{'' then
                      (case unique_members depth [] rest of Inl e \<Rightarrow> Inl e | Inr us \<Rightarrow> closing us)
                    else if c = CHR ''['' then
                      (case unique_elements depth rest of Inl e \<Rightarrow> Inl e | Inr us \<Rightarrow> closing us)
                    else Inl (Plain msg_json_delimiter)
                | _ \<Rightarrow> Inr rest))"
| "unique_members depth seen ts =
     (if \<not> More ts then Inr ts
      else case ts of
             [] \<Rightarrow> Inl (Plain msg_json_object)
           | t # rest \<Rightarrow>
               (case t of
                  TBad _ \<Rightarrow> Inl (Plain msg_json_object)
                | TString name \<Rightarrow>
                    if name \<in> set seen then Inl (Plain msg_json_key)
                    else (case uniqueJSON (depth + 1) rest of
                            Inl e \<Rightarrow> Inl e
                          | Inr us \<Rightarrow> unique_members depth (name # seen) us)
                | _ \<Rightarrow> Inl (Plain msg_json_key)))"
| "unique_elements depth ts =
     (if \<not> More ts then Inr ts
      else case uniqueJSON (depth + 1) ts of
             Inl e \<Rightarrow> Inl e
           | Inr us \<Rightarrow> unique_elements depth us)"
  by pat_completeness auto

text \<open>Every call consumes tokens, a value at least one; this is why the loops end.\<close>

termination
proof -
  let ?dom = uniqueJSON_unique_members_unique_elements_dom
  have consumes:
    "?dom (Inl (depth, ts)) \<Longrightarrow> (\<forall>us. uniqueJSON depth ts = Inr us \<longrightarrow> length us < length ts)"
    "?dom (Inr (Inl (depth, seen, ts))) \<Longrightarrow> (\<forall>us. unique_members depth seen ts = Inr us \<longrightarrow> length us \<le> length ts)"
    "?dom (Inr (Inr (depth, ts))) \<Longrightarrow> (\<forall>us. unique_elements depth ts = Inr us \<longrightarrow> length us \<le> length ts)"
    for depth seen ts
  proof (induction rule: uniqueJSON_unique_members_unique_elements.pinduct)
    case (1 depth ts)
    then show ?case
      by (auto simp: uniqueJSON.psimps dest!: closing_shorter split: if_splits list.splits jtoken.splits sum.splits)
        fastforce+
  next
    case (2 depth seen ts)
    then show ?case
      by (auto simp: unique_members.psimps split: if_splits list.splits jtoken.splits sum.splits) fastforce+
  next
    case (3 depth ts)
    then show ?case
      by (auto simp: unique_elements.psimps split: if_splits sum.splits)
  qed
  show ?thesis
    by (relation "measure (\<lambda>x. case x of Inl (d, ts) \<Rightarrow> 2 * length ts | Inr (Inl (d, s, ts)) \<Rightarrow> 2 * length ts + 1
      | Inr (Inr (d, ts)) \<Rightarrow> 2 * length ts + 1)") (auto dest!: consumes)
qed

declare uniqueJSON.simps [simp del] unique_members.simps [simp del] unique_elements.simps [simp del]

text \<open>\<open>Decode\<close>: the tokens of the document, and its value with whether nothing follows it.\<close>

definition Decode :: "(string \<Rightarrow> jtoken list) \<Rightarrow> (string \<Rightarrow> ('a \<times> bool) option) \<Rightarrow> string \<Rightarrow> err + 'a" where
  "Decode tokens decode b =
     (case uniqueJSON 0 (tokens b) of
        Inl e \<Rightarrow> Inl e
      | Inr _ \<Rightarrow>
          (case decode b of
             None \<Rightarrow> Inl (Plain msg_json_field)
           | Some (v, eof) \<Rightarrow> if \<not> eof then Inl (Plain msg_json_one) else Inr v))"

text \<open>The reference: the tokens of a JSON tree, its nesting, and distinct keys in every object.\<close>

fun tokens_of :: "json \<Rightarrow> jtoken list" where
  "tokens_of (JObj ms) = TDelim CHR ''{'' # concat (map (\<lambda>m. TString (fst m) # tokens_of (snd m)) ms) @ [TDelim CHR ''}'']"
| "tokens_of (JArr js) = TDelim CHR ''['' # concat (map tokens_of js) @ [TDelim CHR '']'']"
| "tokens_of (JStr s) = [TString s]"
| "tokens_of _ = [TValue]"

fun nests_within :: "nat \<Rightarrow> json \<Rightarrow> bool" where
  "nests_within d (JObj ms) = (d \<le> 32 \<and> list_all (\<lambda>m. nests_within (d + 1) (snd m)) ms)"
| "nests_within d (JArr js) = (d \<le> 32 \<and> list_all (nests_within (d + 1)) js)"
| "nests_within d _ = (d \<le> 32)"

fun distinct_keys :: "json \<Rightarrow> bool" where
  "distinct_keys (JObj ms) = (distinct (map fst ms) \<and> list_all (\<lambda>m. distinct_keys (snd m)) ms)"
| "distinct_keys (JArr js) = list_all distinct_keys js"
| "distinct_keys _ = True"

definition strict_json :: "nat \<Rightarrow> json \<Rightarrow> bool" where
  "strict_json d j \<longleftrightarrow> nests_within d j \<and> distinct_keys j"

definition member_tokens :: "(string \<times> json) list \<Rightarrow> jtoken list" where
  "member_tokens ms = concat (map (\<lambda>m. TString (fst m) # tokens_of (snd m)) ms)"

lemma tokens_start: "\<exists>t ts. tokens_of j = t # ts \<and> (\<forall>us. More (t # us))"
  by (cases j) auto

lemma More_tokens [simp]: "More (tokens_of j @ ts)"
  using tokens_start [of j] by auto

text \<open>The loops accept exactly the strict members and elements in front of a closing token.\<close>

lemma unique_members_ref:
  assumes "\<And>m rest. m \<in> set ms \<Longrightarrow> (if strict_json (d + 1) (snd m) then uniqueJSON (d + 1) (tokens_of (snd m) @ rest) = Inr rest
      else \<exists>e. uniqueJSON (d + 1) (tokens_of (snd m) @ rest) = Inl e)" and "\<not> More rest"
  shows "if list_all (\<lambda>m. strict_json (d + 1) (snd m)) ms \<and> distinct (map fst ms) \<and> fst ` set ms \<inter> set seen = {}
    then unique_members d seen (member_tokens ms @ rest) = Inr rest
    else \<exists>e. unique_members d seen (member_tokens ms @ rest) = Inl e"
  using assms(1)
proof (induction ms arbitrary: seen)
  case Nil
  with assms(2) show ?case by (simp add: unique_members.simps member_tokens_def)
next
  case (Cons m ms)
  have step: "unique_members d seen (member_tokens (m # ms) @ rest) =
      (if fst m \<in> set seen then Inl (Plain msg_json_key)
       else case uniqueJSON (d + 1) (tokens_of (snd m) @ (member_tokens ms @ rest)) of
              Inl e \<Rightarrow> Inl e | Inr us \<Rightarrow> unique_members d (fst m # seen) us)"
    by (subst unique_members.simps) (simp add: member_tokens_def)
  have here: "if strict_json (d + 1) (snd m)
      then uniqueJSON (d + 1) (tokens_of (snd m) @ (member_tokens ms @ rest)) = Inr (member_tokens ms @ rest)
      else \<exists>e. uniqueJSON (d + 1) (tokens_of (snd m) @ (member_tokens ms @ rest)) = Inl e"
    by (rule Cons.prems) simp
  have IH: "if list_all (\<lambda>m. strict_json (d + 1) (snd m)) ms \<and> distinct (map fst ms) \<and> fst ` set ms \<inter> set (fst m # seen) = {}
    then unique_members d (fst m # seen) (member_tokens ms @ rest) = Inr rest
    else \<exists>e. unique_members d (fst m # seen) (member_tokens ms @ rest) = Inl e"
    by (intro Cons.IH Cons.prems) simp
  show ?case
    using here IH unfolding step by (auto split: if_splits)
qed

lemma unique_elements_ref:
  assumes "\<And>j rest. j \<in> set js \<Longrightarrow> (if strict_json (d + 1) j then uniqueJSON (d + 1) (tokens_of j @ rest) = Inr rest
      else \<exists>e. uniqueJSON (d + 1) (tokens_of j @ rest) = Inl e)" and "\<not> More rest"
  shows "if list_all (strict_json (d + 1)) js
    then unique_elements d (concat (map tokens_of js) @ rest) = Inr rest
    else \<exists>e. unique_elements d (concat (map tokens_of js) @ rest) = Inl e"
  using assms(1)
proof (induction js)
  case Nil
  with assms(2) show ?case by (simp add: unique_elements.simps)
next
  case (Cons j js)
  have step: "unique_elements d (concat (map tokens_of (j # js)) @ rest) =
      (case uniqueJSON (d + 1) (tokens_of j @ (concat (map tokens_of js) @ rest)) of
         Inl e \<Rightarrow> Inl e | Inr us \<Rightarrow> unique_elements d us)"
    by (subst unique_elements.simps) simp
  have here: "if strict_json (d + 1) j
      then uniqueJSON (d + 1) (tokens_of j @ (concat (map tokens_of js) @ rest)) = Inr (concat (map tokens_of js) @ rest)
      else \<exists>e. uniqueJSON (d + 1) (tokens_of j @ (concat (map tokens_of js) @ rest)) = Inl e"
    by (rule Cons.prems) simp
  have IH: "if list_all (strict_json (d + 1)) js
    then unique_elements d (concat (map tokens_of js) @ rest) = Inr rest
    else \<exists>e. unique_elements d (concat (map tokens_of js) @ rest) = Inl e"
    by (intro Cons.IH Cons.prems) simp
  show ?case
    using here IH unfolding step by (auto split: if_splits)
qed

lemma uniqueJSON_ref:
  "if strict_json d j then uniqueJSON d (tokens_of j @ rest) = Inr rest
   else \<exists>e. uniqueJSON d (tokens_of j @ rest) = Inl e"
proof (induction j arbitrary: d rest)
  case (JObj ms)
  let ?fin = "TDelim CHR ''}'' # rest"
  have members: "if list_all (\<lambda>m. strict_json (d + 1) (snd m)) ms \<and> distinct (map fst ms) \<and> fst ` set ms \<inter> set [] = {}
    then unique_members d [] (member_tokens ms @ ?fin) = Inr ?fin
    else \<exists>e. unique_members d [] (member_tokens ms @ ?fin) = Inl e"
  proof (rule unique_members_ref)
    fix m r assume "m \<in> set ms"
    moreover have "snd m \<in> Basic_BNFs.snds m" by (simp add: prod_set_defs)
    ultimately show "if strict_json (d + 1) (snd m) then uniqueJSON (d + 1) (tokens_of (snd m) @ r) = Inr r
      else \<exists>e. uniqueJSON (d + 1) (tokens_of (snd m) @ r) = Inl e"
      by (rule JObj)
  qed simp
  have step: "uniqueJSON d (tokens_of (JObj ms) @ rest) = (if d > 32 then Inl (Plain msg_nesting)
      else case unique_members d [] (member_tokens ms @ ?fin) of Inl e \<Rightarrow> Inl e | Inr us \<Rightarrow> closing us)"
    by (subst uniqueJSON.simps) (simp add: member_tokens_def)
  have "strict_json d (JObj ms) \<longleftrightarrow> d \<le> 32 \<and> list_all (\<lambda>m. strict_json (d + 1) (snd m)) ms \<and> distinct (map fst ms)"
    by (auto simp: strict_json_def list_all_iff)
  with members show ?case unfolding step by (auto split: if_splits)
next
  case (JArr js)
  let ?fin = "TDelim CHR '']'' # rest"
  have elements: "if list_all (strict_json (d + 1)) js
    then unique_elements d (concat (map tokens_of js) @ ?fin) = Inr ?fin
    else \<exists>e. unique_elements d (concat (map tokens_of js) @ ?fin) = Inl e"
    by (rule unique_elements_ref) (use JArr in auto)
  have step: "uniqueJSON d (tokens_of (JArr js) @ rest) = (if d > 32 then Inl (Plain msg_nesting)
      else case unique_elements d (concat (map tokens_of js) @ ?fin) of Inl e \<Rightarrow> Inl e | Inr us \<Rightarrow> closing us)"
    by (subst uniqueJSON.simps) simp
  have "strict_json d (JArr js) \<longleftrightarrow> d \<le> 32 \<and> list_all (strict_json (d + 1)) js"
    by (auto simp: strict_json_def list_all_iff)
  with elements show ?case unfolding step by (auto split: if_splits)
qed (auto simp: strict_json_def uniqueJSON.simps)

text \<open>
  C36: a JSON document is accepted by \<open>Decode\<close> exactly when no object in it has a key twice, it nests
  at most 32 deep, its fields are known and nothing follows it.
\<close>

theorem decode_accepts_strict:
  assumes "tokens b = tokens_of j @ rest"
  shows "Decode tokens decode b = Inr v \<longleftrightarrow>
    nests_within 0 j \<and> distinct_keys j \<and> decode b = Some (v, True)"
  using uniqueJSON_ref [of 0 j rest] assms
  by (auto simp: Decode_def strict_json_def split: if_splits option.splits)

theorem decode_accepts_strict_witness:
  "\<not> Decode (\<lambda>_. tokens_of (JObj [(''a'', JInt 1), (''a'', JInt 2)])) (\<lambda>_. Some ((), True)) ''x'' = Inr ()
   \<and> Decode (\<lambda>_. tokens_of (JObj [(''a'', JInt 1), (''b'', JArr [])])) (\<lambda>_. Some ((), True)) ''x'' = Inr ()"
proof
  let ?j = "JObj [(''a'', JInt 1), (''a'', JInt 2)]" and ?k = "JObj [(''a'', JInt 1), (''b'', JArr [])]"
  have "Decode (\<lambda>_. tokens_of ?j) (\<lambda>_. Some ((), True)) ''x'' = Inr () \<longleftrightarrow>
      nests_within 0 ?j \<and> distinct_keys ?j \<and> Some ((), True) = Some ((), True)"
    by (rule decode_accepts_strict [where rest = "[]"]) simp
  then show "\<not> Decode (\<lambda>_. tokens_of ?j) (\<lambda>_. Some ((), True)) ''x'' = Inr ()" by simp
  have "Decode (\<lambda>_. tokens_of ?k) (\<lambda>_. Some ((), True)) ''x'' = Inr () \<longleftrightarrow>
      nests_within 0 ?k \<and> distinct_keys ?k \<and> Some ((), True) = Some ((), True)"
    by (rule decode_accepts_strict [where rest = "[]"]) simp
  then show "Decode (\<lambda>_. tokens_of ?k) (\<lambda>_. Some ((), True)) ''x'' = Inr ()" by simp
qed

section \<open>The policy\<close>

record AdvisorPolicy =
  av_Enabled :: bool
  av_Model :: string
  av_APIKeyFile :: string
  av_TimeoutSeconds :: int
  av_MaxToolCalls :: int
  av_MaxSessionsPerHour :: int
  av_ProjectBudgetAcknowledged :: bool

record TelemetryPolicy =
  tp_Enabled :: bool
  tp_OTLPEndpoint :: string
  tp_TraceSampleRatio :: float64
  tp_PrometheusURL :: string

record Config =
  sc_Mode :: string
  sc_StateDir :: string
  sc_SourcePath :: string
  sc_Listen :: string
  sc_AllowedHosts :: "string list"
  sc_ExternalURL :: string
  sc_TLSCertFile :: string
  sc_TLSKeyFile :: string
  sc_BrowserSessions :: bool
  sc_OwnerUID :: int
  sc_Target :: string
  sc_Environment :: string
  sc_ReferenceRoot :: string
  sc_ModelRoot :: string
  sc_CompilerCacheRoot :: string
  sc_ShaderCacheRoot :: string
  sc_HostSocket :: string
  sc_WorkerSocket :: string
  sc_ClientBaseURL :: string
  sc_QueueDepth :: int
  sc_OperationTimeoutSeconds :: int
  sc_Telemetry :: TelemetryPolicy
  sc_Advisor :: AdvisorPolicy

text \<open>What the program reads of a parsed address and of a parsed origin.\<close>

record IP =
  ip_Unspecified :: bool
  ip_Loopback :: bool
  ip_Private :: bool

record URL =
  url_Scheme :: string
  url_Opaque :: string
  url_User :: bool
  url_Host :: string
  url_Path :: string
  url_RawPath :: string
  url_RawQuery :: string
  url_ForceQuery :: bool
  url_Fragment :: string
  url_RawFragment :: string

text \<open>\<open>validOptionalPort\<close> and the host and port of \<open>net/url\<close>.\<close>

definition last_colon :: "string \<Rightarrow> (string \<times> string) option" where
  "last_colon s = (if CHR '':'' \<in> set s
     then Some (List.rev (tl (dropWhile (\<lambda>c. c \<noteq> CHR '':'') (List.rev s))), List.rev (takeWhile (\<lambda>c. c \<noteq> CHR '':'') (List.rev s)))
     else None)"

definition unbracket :: "string \<Rightarrow> string" where
  "unbracket h = (if HasPrefix h ''['' \<and> HasSuffix h '']'' \<and> length h \<ge> 2 then butlast (tl h) else h)"

definition split_host_port :: "string \<Rightarrow> string \<times> string" where
  "split_host_port hp = (case last_colon hp of
       Some (h, p) \<Rightarrow> if list_all is_digit p then (unbracket h, p) else (unbracket hp, [])
     | None \<Rightarrow> (unbracket hp, []))"

definition Hostname :: "URL \<Rightarrow> string" where
  "Hostname u = fst (split_host_port (url_Host u))"

definition Port :: "URL \<Rightarrow> string" where
  "Port u = snd (split_host_port (url_Host u))"

text \<open>\<open>net.SplitHostPort\<close>: the host and the port, or nothing on a malformed address.\<close>

definition SplitHostPort :: "string \<Rightarrow> (string \<times> string) option" where
  "SplitHostPort hp =
     (case last_colon hp of
        None \<Rightarrow> None
      | Some (h, port) \<Rightarrow>
          if HasPrefix hp ''['' then
            (if HasSuffix h '']'' \<and> CHR '']'' \<notin> set (butlast h)
                \<and> CHR ''['' \<notin> set (tl hp) \<and> CHR '']'' \<notin> set port
             then Some (butlast (tl h), port) else None)
          else if CHR '':'' \<in> set h \<or> CHR ''['' \<in> set hp \<or> CHR '']'' \<in> set hp then None
          else Some (h, port))"

definition ascii_lower :: "char \<Rightarrow> char" where
  "ascii_lower c = (if is_upper c then char_of ((of_char c :: nat) + 32) else c)"

text \<open>\<open>strings.EqualFold\<close> on ASCII text.\<close>

definition EqualFold :: "string \<Rightarrow> string \<Rightarrow> bool" where
  "EqualFold s t \<longleftrightarrow> map ascii_lower s = map ascii_lower t"

definition LiveBrowserSessionCookie :: string where "LiveBrowserSessionCookie = ''__Host-bridge_session_v2''"
definition DemoBrowserSessionCookie :: string where "DemoBrowserSessionCookie = ''bridge_demo_session_v2''"
definition LegacyBrowserSessionCookie :: string where "LegacyBrowserSessionCookie = ''bridge_session''"
definition LiveBrowserSessionPurpose :: string where "LiveBrowserSessionPurpose = ''live-browser-v2''"
definition DemoBrowserSessionPurpose :: string where "DemoBrowserSessionPurpose = ''demo-browser-v2''"

definition BrowserSessionsEnabled :: "Config \<Rightarrow> bool" where
  "BrowserSessionsEnabled c \<longleftrightarrow> sc_Mode c = ''demo'' \<or> sc_BrowserSessions c"

definition BrowserSessionCookieName :: "Config \<Rightarrow> string" where
  "BrowserSessionCookieName c = (if sc_Mode c = ''live'' then LiveBrowserSessionCookie else DemoBrowserSessionCookie)"

definition BrowserSessionPurpose :: "Config \<Rightarrow> string" where
  "BrowserSessionPurpose c = (if sc_Mode c = ''live'' then LiveBrowserSessionPurpose else DemoBrowserSessionPurpose)"

section \<open>Validation\<close>

record ConfigEnv =
  ce_URL :: "string \<Rightarrow> URL option"
  ce_IP :: "string \<Rightarrow> IP option"
  ce_Check :: "string \<Rightarrow> err option"
  ce_Home :: string
  ce_Linux :: bool

definition msg_live_https :: string where
  "msg_live_https = ''live browser sessions require HTTPS with certificate and key files''"
definition msg_live_dns :: string where
  "msg_live_dns = ''live browser sessions require a dedicated trusted DNS management hostname, not localhost, a single-label host or an IP literal''"
definition msg_advisor_model :: string where
  "msg_advisor_model = ''enabled advisor requires an explicit model identifier''"
definition msg_advisor_key :: string where
  "msg_advisor_key = ''enabled advisor requires a canonical absolute api_key_file''"
definition msg_advisor_bounds :: string where
  "msg_advisor_bounds = ''advisor requires timeout_seconds 5..20, max_tool_calls 3..8, and max_sessions_per_hour 1..60''"
definition msg_advisor_budget :: string where
  "msg_advisor_budget = ''enabled advisor requires acknowledgement of a separately managed provider project budget; local limits are not a dollar ceiling''"
definition msg_telemetry_ratio :: string where
  "msg_telemetry_ratio = ''telemetry trace_sample_ratio must be between 0 and 1''"
definition msg_telemetry_enabled :: string where
  "msg_telemetry_enabled = ''enabled telemetry requires an explicit otlp_endpoint''"
definition msg_telemetry_endpoint :: string where
  "msg_telemetry_endpoint = ''telemetry endpoint must be an explicit loopback HTTP(S) or private-IP HTTPS origin with port, without credentials, path, query or fragment''"
definition msg_demo_advisor :: string where "msg_demo_advisor = ''demo cannot contact a live advisory provider''"
definition msg_mode :: string where "msg_mode = ''mode must explicitly be demo or live''"
definition msg_owner_target :: string where "msg_owner_target = ''explicit owner UID and target are required''"
definition msg_queue_bounds :: string where
  "msg_queue_bounds = ''queue depth must be 1..16 and timeout 10..86400 seconds''"
definition msg_classification :: string where
  "msg_classification = ''target requires explicit dev, tst or int classification; production is not supported''"
definition msg_dedicated :: string where "msg_dedicated = ''use a dedicated managed directory''"
definition msg_source_path :: string where
  "msg_source_path = ''source_path must be a file directly inside the dedicated state_dir''"
definition msg_listen :: string where "msg_listen = ''listen requires a literal IP and port''"
definition msg_wildcard :: string where
  "msg_wildcard = ''wildcard/DNS listeners are forbidden; choose an explicit IP and port''"
definition msg_origin :: string where "msg_origin = ''external_url must be the exact management origin''"
definition msg_scheme :: string where "msg_scheme = ''HTTP or HTTPS origin required''"
definition msg_hosts :: string where "msg_hosts = ''explicit allowed_hosts required''"
definition msg_host :: string where "msg_host = ''invalid allowed host''"
definition msg_host_missing :: string where "msg_host_missing = ''external_url host must be in allowed_hosts''"
definition msg_non_loopback :: string where
  "msg_non_loopback = ''non-loopback management requires authenticated HTTPS and a reviewed explicit interface''"
definition msg_plaintext :: string where "msg_plaintext = ''plaintext management must remain loopback''"
definition msg_https_files :: string where "msg_https_files = ''HTTPS requires certificate and key files''"
definition msg_demo_loopback :: string where "msg_demo_loopback = ''demo must bind loopback''"
definition msg_demo_live :: string where "msg_demo_live = ''demo policy must not configure live adapters''"
definition msg_linux :: string where
  "msg_linux = ''live controller requires Linux; use the remote CLI on macOS''"

definition validateBrowserSessionPolicy :: "ConfigEnv \<Rightarrow> Config \<Rightarrow> URL \<Rightarrow> err option" where
  "validateBrowserSessionPolicy env c origin =
     (if sc_Mode c \<noteq> ''live'' \<or> \<not> sc_BrowserSessions c then None
      else first_fail
        [(url_Scheme origin \<noteq> ''https'' \<or> sc_TLSCertFile c = [] \<or> sc_TLSKeyFile c = [], Plain msg_live_https),
         (Hostname origin = [] \<or> CHR ''.'' \<notin> set (Hostname origin) \<or> EqualFold (Hostname origin) ''localhost''
            \<or> ce_IP env (Hostname origin) \<noteq> None, Plain msg_live_dns)])"

definition model_id_ok :: "string \<Rightarrow> bool" where
  "model_id_ok m \<longleftrightarrow> m \<noteq> [] \<and> length m \<le> 128 \<and> is_alnum (hd m) \<and>
     list_all (\<lambda>c. is_alnum c \<or> c \<in> set ''._-'') (tl m)"

definition advisor_Validate :: "AdvisorPolicy \<Rightarrow> err option" where
  "advisor_Validate c =
     (if \<not> av_Enabled c then None
      else first_fail
        [(\<not> model_id_ok (av_Model c), Plain msg_advisor_model),
         (\<not> IsAbs (av_APIKeyFile c) \<or> Clean (av_APIKeyFile c) \<noteq> av_APIKeyFile c \<or> av_APIKeyFile c = ''/''
            \<or> list_ex (\<lambda>x. (of_char x :: nat) \<le> 32 \<or> (of_char x :: nat) = 127) (av_APIKeyFile c), Plain msg_advisor_key),
         (av_TimeoutSeconds c < 5 \<or> av_TimeoutSeconds c > 20 \<or> av_MaxToolCalls c < 3 \<or> av_MaxToolCalls c > 8
            \<or> av_MaxSessionsPerHour c < 1 \<or> av_MaxSessionsPerHour c > 60, Plain msg_advisor_bounds),
         (\<not> av_ProjectBudgetAcknowledged c, Plain msg_advisor_budget)])"

text \<open>A port in the range of TCP, as \<open>strconv.Atoi\<close> reads it.\<close>

definition port_ok :: "string \<Rightarrow> bool" where
  "port_ok p \<longleftrightarrow> (case ParseInt p of None \<Rightarrow> False | Some n \<Rightarrow> 1 \<le> n \<and> n \<le> 65535)"

definition ValidateTelemetryEndpoint :: "ConfigEnv \<Rightarrow> string \<Rightarrow> err option" where
  "ValidateTelemetryEndpoint env endpoint =
     (case ce_URL env endpoint of
        None \<Rightarrow> Some (Plain msg_telemetry_endpoint)
      | Some u \<Rightarrow>
          if length endpoint > 256 \<or> ContainsAny endpoint ''?#'' \<or> url_Opaque u \<noteq> [] \<or> url_User u \<or> url_RawPath u \<noteq> []
             \<or> url_Path u \<noteq> [] \<or> url_RawQuery u \<noteq> [] \<or> url_ForceQuery u \<or> url_Fragment u \<noteq> [] \<or> url_RawFragment u \<noteq> []
          then Some (Plain msg_telemetry_endpoint)
          else (case ce_IP env (Hostname u) of
                  None \<Rightarrow> Some (Plain msg_telemetry_endpoint)
                | Some ip \<Rightarrow>
                    first_fail
                      [(\<not> ip_Loopback ip \<and> \<not> ip_Private ip \<or> \<not> port_ok (Port u), Plain msg_telemetry_endpoint),
                       (url_Scheme u \<noteq> ''https'' \<and> \<not> (url_Scheme u = ''http'' \<and> ip_Loopback ip),
                        Plain msg_telemetry_endpoint)]))"

definition telemetry_Validate :: "ConfigEnv \<Rightarrow> TelemetryPolicy \<Rightarrow> err option" where
  "telemetry_Validate env c =
     and_then (first_fail
       [(tp_TraceSampleRatio c < 0 \<or> tp_TraceSampleRatio c > 1, Plain msg_telemetry_ratio),
        (tp_Enabled c \<and> tp_OTLPEndpoint c = [], Plain msg_telemetry_enabled)])
     (first_err (\<lambda>e. if e = [] then None else ValidateTelemetryEndpoint env e) [tp_OTLPEndpoint c, tp_PrometheusURL c])"

definition policy_bounds :: "Config \<Rightarrow> (bool \<times> err) list" where
  "policy_bounds c =
     [(sc_Mode c \<noteq> ''demo'' \<and> sc_Mode c \<noteq> ''live'', Plain msg_mode),
      (sc_OwnerUID c < 0 \<or> sc_Target c = [] \<or> ContainsAny (sc_Target c) [CHR '' '', CHR ''/'', CHR 0x5C, CHR 9, CHR 10]
         \<or> length (sc_Target c) > 63, Plain msg_owner_target),
      (sc_QueueDepth c < 1 \<or> sc_QueueDepth c > 16 \<or> sc_OperationTimeoutSeconds c < 10
         \<or> sc_OperationTimeoutSeconds c > 86400, Plain msg_queue_bounds),
      (sc_Environment c \<noteq> ''dev'' \<and> sc_Environment c \<noteq> ''tst'' \<and> sc_Environment c \<noteq> ''int'', Plain msg_classification)]"

definition managed_path :: "ConfigEnv \<Rightarrow> string \<Rightarrow> err option" where
  "managed_path env p = and_then (ce_Check env p) (first_fail [(p = ''/'' \<or> p = ce_Home env, Plain msg_dedicated)])"

text \<open>The loop over the allowed hosts: whether the origin's host is among them, or the first bad one.\<close>

fun allowed_hosts :: "string \<Rightarrow> bool \<Rightarrow> string list \<Rightarrow> err + bool" where
  "allowed_hosts origin found [] = Inr found"
| "allowed_hosts origin found (h # hs) =
     (let found = (h = origin \<or> found) in
      if h = [] \<or> ContainsAny h [CHR ''/'', CHR ''*'', CHR 0x5C, CHR 13, CHR 10, CHR 9, CHR ''@'', CHR '' '']
      then Inl (Plain msg_host) else allowed_hosts origin found hs)"

text \<open>The checks of the listener and the origin, once both are parsed.\<close>

definition origin_guards :: "ConfigEnv \<Rightarrow> Config \<Rightarrow> IP \<Rightarrow> URL \<Rightarrow> err option" where
  "origin_guards env c ip u =
     and_then (validateBrowserSessionPolicy env c u)
     (and_then (first_fail
       [(\<not> ip_Loopback ip \<and> (url_Scheme u \<noteq> ''https'' \<or> sc_TLSCertFile c = [] \<or> sc_TLSKeyFile c = []), Plain msg_non_loopback),
        (url_Scheme u = ''http'' \<and>
           (\<not> ip_Loopback ip \<or> \<not> (Hostname u = ''localhost'' \<or>
              (case ce_IP env (Hostname u) of None \<Rightarrow> False | Some x \<Rightarrow> ip_Loopback x))), Plain msg_plaintext),
        (url_Scheme u = ''https'' \<and> (sc_TLSCertFile c = [] \<or> sc_TLSKeyFile c = []), Plain msg_https_files),
        (sc_Mode c = ''demo'' \<and> \<not> ip_Loopback ip, Plain msg_demo_loopback),
        (sc_Mode c = ''demo'' \<and> (sc_HostSocket c \<noteq> [] \<or> sc_WorkerSocket c \<noteq> [] \<or> sc_ReferenceRoot c \<noteq> []
            \<or> sc_ModelRoot c \<noteq> [] \<or> sc_CompilerCacheRoot c \<noteq> [] \<or> sc_ShaderCacheRoot c \<noteq> []), Plain msg_demo_live),
        (sc_Mode c = ''live'' \<and> \<not> ce_Linux env, Plain msg_linux)])
     (if sc_Mode c = ''live''
      then first_err (ce_Check env) [sc_ReferenceRoot c, sc_ModelRoot c, sc_HostSocket c, sc_WorkerSocket c,
             sc_CompilerCacheRoot c, sc_ShaderCacheRoot c]
      else None))"

definition validate_surface :: "ConfigEnv \<Rightarrow> Config \<Rightarrow> err option" where
  "validate_surface env c =
     (case SplitHostPort (sc_Listen c) of
        None \<Rightarrow> Some (Plain msg_listen)
      | Some (host, port) \<Rightarrow>
          (case ce_IP env host of
             None \<Rightarrow> Some (Plain msg_wildcard)
           | Some ip \<Rightarrow>
               if ip_Unspecified ip \<or> \<not> port_ok port then Some (Plain msg_wildcard)
               else (case ce_URL env (sc_ExternalURL c) of
                       None \<Rightarrow> Some (Plain msg_origin)
                     | Some u \<Rightarrow>
                         (case first_fail
                            [(url_User u \<or> url_Host u = [] \<or> url_Path u \<noteq> [] \<or> url_RawQuery u \<noteq> [] \<or> url_Fragment u \<noteq> [],
                              Plain msg_origin),
                             (url_Scheme u \<noteq> ''http'' \<and> url_Scheme u \<noteq> ''https'', Plain msg_scheme),
                             (length (sc_AllowedHosts c) = 0 \<or> length (sc_AllowedHosts c) > 8, Plain msg_hosts)] of
                            Some e \<Rightarrow> Some e
                          | None \<Rightarrow>
                              (case allowed_hosts (url_Host u) False (sc_AllowedHosts c) of
                                 Inl e \<Rightarrow> Some e
                               | Inr found \<Rightarrow>
                                   if \<not> found then Some (Plain msg_host_missing) else origin_guards env c ip u)))))"

definition config_Validate :: "ConfigEnv \<Rightarrow> Config \<Rightarrow> err option" where
  "config_Validate env c =
     and_then (advisor_Validate (sc_Advisor c))
     (and_then (first_fail [(sc_Mode c = ''demo'' \<and> av_Enabled (sc_Advisor c), Plain msg_demo_advisor)])
     (and_then (telemetry_Validate env (sc_Telemetry c))
     (and_then (first_fail (policy_bounds c))
     (and_then (first_err (managed_path env) [sc_StateDir c, sc_SourcePath c])
     (and_then (first_fail [(Dir (sc_SourcePath c) \<noteq> sc_StateDir c, Plain msg_source_path)])
     (validate_surface env c))))))"

section \<open>Loading\<close>

definition msg_config_writable :: string where
  "msg_config_writable = ''configuration must not be group/world writable''"
definition msg_config_root :: string where "msg_config_root = ''live service policy must be root-owned''"
definition msg_config_parents :: string where
  "msg_config_parents = ''live policy and all parent directories must be root-owned and protected''"
definition msg_config_demo :: string where
  "msg_config_demo = ''demo policy must belong to its explicitly allowed owner''"

text \<open>\<open>os.Lstat\<close> and \<open>safefile.Owner\<close> of a path.\<close>

definition Lstat :: "FileCalls \<Rightarrow> files \<Rightarrow> string \<Rightarrow> err + FileNode" where
  "Lstat c fs p = (case fc_Lstat c p of Some e \<Rightarrow> Inl e
     | None \<Rightarrow> (case fs p of None \<Rightarrow> Inl (Plain msg_missing) | Some n \<Rightarrow> Inr n))"

definition Owner :: "FileCalls \<Rightarrow> files \<Rightarrow> string \<Rightarrow> err + int" where
  "Owner c fs p = (case Lstat c fs p of Inl e \<Rightarrow> Inl e | Inr n \<Rightarrow> Inr (fn_Uid n))"

definition protected_entry :: "FileCalls \<Rightarrow> files \<Rightarrow> string \<Rightarrow> err option" where
  "protected_entry c fs p =
     (case Lstat c fs p of
        Inl e \<Rightarrow> Some e
      | Inr n \<Rightarrow> (case Owner c fs p of
            Inl e \<Rightarrow> Some e
          | Inr owner \<Rightarrow> if owner \<noteq> 0 \<or> and (fn_Perm n) 18 \<noteq> 0 \<or> fn_Symlink n
                         then Some (Plain msg_config_parents) else None))"

text \<open>The loop over the parents, on the components of the path, last first.\<close>

fun protected_walk :: "FileCalls \<Rightarrow> files \<Rightarrow> string list \<Rightarrow> err option" where
  "protected_walk c fs [] = protected_entry c fs (abs_path [])"
| "protected_walk c fs (w # ws) =
     and_then (protected_entry c fs (abs_path (List.rev (w # ws)))) (protected_walk c fs ws)"

definition load_guards :: "FileCalls \<Rightarrow> files \<Rightarrow> string \<Rightarrow> Config \<Rightarrow> FileNode \<Rightarrow> int \<Rightarrow> err option" where
  "load_guards calls fs path c i uid =
     and_then (first_fail
       [(and (fn_Perm i) 18 \<noteq> 0, Plain msg_config_writable),
        (sc_Mode c = ''live'' \<and> uid \<noteq> 0, Plain msg_config_root)])
     (and_then (if sc_Mode c = ''live'' then protected_walk calls fs (List.rev (path_components path)) else None)
       (first_fail [(sc_Mode c = ''demo'' \<and> uid \<noteq> sc_OwnerUID c \<and> uid \<noteq> 0, Plain msg_config_demo)]))"

definition config_Load :: "ConfigEnv \<Rightarrow> FileCalls \<Rightarrow> files \<Rightarrow> string \<times> err option \<Rightarrow> (string \<Rightarrow> jtoken list)
    \<Rightarrow> (string \<Rightarrow> (Config \<times> bool) option) \<Rightarrow> string \<Rightarrow> err + Config" where
  "config_Load env calls fs delivered tokens decode path =
     (case safe_Read calls fs delivered path 65536 of
        (_, Some e) \<Rightarrow> Inl e
      | (b, None) \<Rightarrow>
          (case Decode tokens decode b of
             Inl e \<Rightarrow> Inl e
           | Inr c \<Rightarrow>
               (case and_then (config_Validate env c) (fc_Stat calls path) of
                  Some e \<Rightarrow> Inl e
                | None \<Rightarrow>
                    (case (fs path, Owner calls fs path) of
                       (None, _) \<Rightarrow> Inl (Plain msg_missing)
                     | (_, Inl e) \<Rightarrow> Inl e
                     | (Some i, Inr uid) \<Rightarrow>
                         (case load_guards calls fs path c i uid of Some e \<Rightarrow> Inl e | None \<Rightarrow> Inr c)))))"

lemma protected_walk_None:
  "protected_walk c fs rcs = None \<longleftrightarrow>
     (\<forall>n \<le> length rcs. protected_entry c fs (abs_path (List.rev (drop n rcs))) = None)"
  by (induction rcs) (auto simp: all_le_Suc)

lemma protected_entry_None:
  "protected_entry c fs p = None \<longleftrightarrow>
     (\<exists>n. Lstat c fs p = Inr n \<and> fn_Uid n = 0 \<and> and (fn_Perm n) 18 = 0 \<and> \<not> fn_Symlink n)"
  by (auto simp: protected_entry_def Owner_def split: sum.splits)

lemma protected_parents:
  assumes "canonical path" and "protected_walk c fs (List.rev (path_components path)) = None"
  shows "\<exists>n. Lstat c fs ((Dir ^^ k) path) = Inr n \<and> fn_Uid n = 0 \<and> \<not> bit (fn_Perm n) 4 \<and> \<not> bit (fn_Perm n) 1 \<and> \<not> fn_Symlink n"
proof -
  obtain cs where cs: "path = abs_path cs" "list_all plain_component cs" using assms(1) by (auto simp: canonical_iff)
  define m where "m = min k (length cs)"
  have m: "length cs - k = length cs - m" "m \<le> length cs" by (auto simp: m_def)
  have "protected_walk c fs (List.rev cs) = None" using assms(2) by (simp add: cs path_components_abs)
  with m have "protected_entry c fs (abs_path (List.rev (drop m (List.rev cs)))) = None"
    by (simp add: protected_walk_None)
  with m show ?thesis by (auto simp: cs Dir_funpow rev_drop protected_entry_None and_18_zero)
qed

lemma config_Load_checked:
  assumes "config_Load env calls fs delivered tokens decode path = Inr c"
  shows "canonical path \<and> config_Validate env c = None \<and>
    (sc_Mode c = ''live'' \<longrightarrow> protected_walk calls fs (List.rev (path_components path)) = None)"
proof -
  obtain b e where r: "safe_Read calls fs delivered path 65536 = (b, e)" by fastforce
  with assms have e: "e = None" by (cases e) (simp_all add: config_Load_def)
  have "CheckPath (fc_Lstat calls) fs path = None"
    using safe_Read_bounded [of calls fs delivered path 65536 b] r e by simp
  then have "canonical path" by (auto simp: CheckPath_def canonical_def split: if_splits)
  with assms r e show ?thesis
    by (auto simp: config_Load_def load_guards_def split: sum.splits option.splits if_splits)
qed

lemma allowed_hosts_found: "allowed_hosts origin found hs = Inr b \<Longrightarrow> b \<longleftrightarrow> found \<or> origin \<in> set hs"
  by (induction hs arbitrary: found) (auto simp: Let_def split: if_splits)

text \<open>What validation establishes of the listener and the origin.\<close>

lemma validated_surface:
  assumes "config_Validate env c = None"
  obtains host port ip u where "SplitHostPort (sc_Listen c) = Some (host, port)" "ce_IP env host = Some ip"
    "ce_URL env (sc_ExternalURL c) = Some u" "url_Host u \<in> set (sc_AllowedHosts c)"
    "url_Scheme u = ''http'' \<or> url_Scheme u = ''https''" "origin_guards env c ip u = None"
  using assms
  by (auto simp: config_Validate_def validate_surface_def dest: allowed_hosts_found
      split: option.splits sum.splits prod.splits if_splits)

text \<open>
  C32: a live service policy that has been loaded cannot have been written by anyone but root, down
  from the root directory, and confines the management surface: the origin's host is an allowed
  host, an origin without TLS is served on a loopback address only, and browser sessions require
  HTTPS on a host name that is no address literal.
\<close>

theorem live_policy_confined:
  assumes "config_Load env calls fs delivered tokens decode path = Inr c" and "sc_Mode c = ''live''"
  shows "(\<exists>n. Lstat calls fs ((Dir ^^ k) path) = Inr n \<and> fn_Uid n = 0 \<and> \<not> bit (fn_Perm n) 4 \<and> \<not> bit (fn_Perm n) 1
            \<and> \<not> fn_Symlink n)
    \<and> (\<exists>u host port ip. ce_URL env (sc_ExternalURL c) = Some u \<and> SplitHostPort (sc_Listen c) = Some (host, port) \<and>
         ce_IP env host = Some ip \<and> url_Host u \<in> set (sc_AllowedHosts c) \<and>
         (url_Scheme u \<noteq> ''https'' \<longrightarrow> ip_Loopback ip) \<and>
         (url_Scheme u = ''https'' \<longrightarrow> sc_TLSCertFile c \<noteq> [] \<and> sc_TLSKeyFile c \<noteq> []) \<and>
         (BrowserSessionsEnabled c \<longrightarrow> url_Scheme u = ''https'' \<and> ce_IP env (Hostname u) = None))"
proof
  note loaded = config_Load_checked [OF assms(1)]
  then show "\<exists>n. Lstat calls fs ((Dir ^^ k) path) = Inr n \<and> fn_Uid n = 0 \<and> \<not> bit (fn_Perm n) 4 \<and> \<not> bit (fn_Perm n) 1
      \<and> \<not> fn_Symlink n"
    using assms(2) by (intro protected_parents) simp_all
  from loaded have "config_Validate env c = None" by simp
  then obtain host port ip u where s: "SplitHostPort (sc_Listen c) = Some (host, port)" "ce_IP env host = Some ip"
    "ce_URL env (sc_ExternalURL c) = Some u" "url_Host u \<in> set (sc_AllowedHosts c)"
    "url_Scheme u = ''http'' \<or> url_Scheme u = ''https''" "origin_guards env c ip u = None"
    by (rule validated_surface)
  from s(5,6) assms(2) have "(url_Scheme u \<noteq> ''https'' \<longrightarrow> ip_Loopback ip) \<and>
      (url_Scheme u = ''https'' \<longrightarrow> sc_TLSCertFile c \<noteq> [] \<and> sc_TLSKeyFile c \<noteq> []) \<and>
      (BrowserSessionsEnabled c \<longrightarrow> url_Scheme u = ''https'' \<and> ce_IP env (Hostname u) = None)"
    by (auto simp: origin_guards_def validateBrowserSessionPolicy_def BrowserSessionsEnabled_def split: if_splits)
  with s show "\<exists>u host port ip. ce_URL env (sc_ExternalURL c) = Some u \<and> SplitHostPort (sc_Listen c) = Some (host, port) \<and>
         ce_IP env host = Some ip \<and> url_Host u \<in> set (sc_AllowedHosts c) \<and>
         (url_Scheme u \<noteq> ''https'' \<longrightarrow> ip_Loopback ip) \<and>
         (url_Scheme u = ''https'' \<longrightarrow> sc_TLSCertFile c \<noteq> [] \<and> sc_TLSKeyFile c \<noteq> []) \<and>
         (BrowserSessionsEnabled c \<longrightarrow> url_Scheme u = ''https'' \<and> ce_IP env (Hostname u) = None)" by blast
qed

section \<open>An example\<close>

definition ex_service_policy :: Config where
  "ex_service_policy = \<lparr>sc_Mode = ''live'', sc_StateDir = ''/s'', sc_SourcePath = ''/s/m'', sc_Listen = ''10.0.0.2:8443'',
     sc_AllowedHosts = [''b.lan:8443''], sc_ExternalURL = ''https://b.lan:8443'', sc_TLSCertFile = ''/c'', sc_TLSKeyFile = ''/k'',
     sc_BrowserSessions = True, sc_OwnerUID = 1000, sc_Target = ''ws'', sc_Environment = ''dev'', sc_ReferenceRoot = ''/r'',
     sc_ModelRoot = ''/m'', sc_CompilerCacheRoot = ''/x'', sc_ShaderCacheRoot = ''/y'', sc_HostSocket = ''/h'',
     sc_WorkerSocket = ''/w'', sc_ClientBaseURL = [], sc_QueueDepth = 4, sc_OperationTimeoutSeconds = 60,
     sc_Telemetry = \<lparr>tp_Enabled = False, tp_OTLPEndpoint = [], tp_TraceSampleRatio = 0, tp_PrometheusURL = []\<rparr>,
     sc_Advisor = \<lparr>av_Enabled = False, av_Model = [], av_APIKeyFile = [], av_TimeoutSeconds = 0, av_MaxToolCalls = 0,
       av_MaxSessionsPerHour = 0, av_ProjectBudgetAcknowledged = False\<rparr>\<rparr>"

definition ex_env :: ConfigEnv where
  "ex_env = \<lparr>ce_URL = (\<lambda>s. if s = ''https://b.lan:8443''
       then Some \<lparr>url_Scheme = ''https'', url_Opaque = [], url_User = False, url_Host = ''b.lan:8443'', url_Path = [],
         url_RawPath = [], url_RawQuery = [], url_ForceQuery = False, url_Fragment = [], url_RawFragment = []\<rparr> else None),
     ce_IP = (\<lambda>s. if s = ''10.0.0.2'' then Some \<lparr>ip_Unspecified = False, ip_Loopback = False, ip_Private = True\<rparr> else None),
     ce_Check = (\<lambda>_. None), ce_Home = ''/root'', ce_Linux = True\<rparr>"

definition ex_policy_files :: files where
  "ex_policy_files = [''/p'' \<mapsto> (ex_node 420 ''{}'')\<lparr>fn_Uid := 0\<rparr>, ''/'' \<mapsto> (ex_node 493 [])\<lparr>fn_Uid := 0\<rparr>]"

lemma ex_load_steps:
  "CheckPath (fc_Lstat ex_calls) ex_policy_files ''/p'' = None"
  "Decode (\<lambda>_. tokens_of (JObj [])) (\<lambda>_. Some ((), True)) ''{}'' = Inr ()"
  "config_Validate ex_env ex_service_policy = None"
  "load_guards ex_calls ex_policy_files ''/p'' ex_service_policy ((ex_node 420 ''{}'')\<lparr>fn_Uid := 0\<rparr>) 0 = None"
  by code_simp+

lemma ex_load:
  "config_Load ex_env ex_calls ex_policy_files (''{}'', None) (\<lambda>_. tokens_of (JObj [])) (\<lambda>_. Some (ex_service_policy, True)) ''/p'' = Inr ex_service_policy"
proof -
  have node: "ex_policy_files ''/p'' = Some ((ex_node 420 ''{}'')\<lparr>fn_Uid := 0\<rparr>)" by (simp add: ex_policy_files_def)
  have opened: "fc_Open ex_calls = None" by (simp add: ex_calls_def)
  have "safe_Read ex_calls ex_policy_files (''{}'', None) ''/p'' 65536 = (''{}'', None)"
    using ex_load_steps(1) opened by (simp add: safe_Read_def node) (simp add: ex_node_def)
  moreover have "Decode (\<lambda>_. tokens_of (JObj [])) (\<lambda>_. Some (ex_service_policy, True)) ''{}'' = Inr ex_service_policy"
    using ex_load_steps(2) by (auto simp: Decode_def split: sum.splits)
  moreover have "Owner ex_calls ex_policy_files ''/p'' = Inr 0" "fc_Stat ex_calls ''/p'' = None"
    by (simp_all add: Owner_def Lstat_def node ex_calls_def)
  ultimately show ?thesis using ex_load_steps(3,4) by (simp add: config_Load_def node)
qed

theorem live_policy_confined_witness:
  "\<exists>u. ce_URL ex_env (sc_ExternalURL ex_service_policy) = Some u \<and> url_Scheme u = ''https'' \<and> ce_IP ex_env (Hostname u) = None"
proof -
  have "sc_Mode ex_service_policy = ''live''" by (simp add: ex_service_policy_def)
  from live_policy_confined [OF ex_load this] show ?thesis
    by (auto simp: BrowserSessionsEnabled_def ex_service_policy_def)
qed

end
