(* ===== verification/Surface.thy ===== *)
theory Surface
  imports Engine ServiceConfig
begin

text \<open>
  The HTTP surface of the controller, \<open>internal/api\<close>: the guard every request passes, the
  authentication of bearer tokens and browser sessions with the limit on failed attempts, and one
  definition per handler. A handler maps the server's state to the new state and the response.

  A request is given by what the handlers read of it. The clock, the random source, the digest and
  the verifier, the adapter's answers, the JSON decoders and the advisor's run are the fields of
  \<open>ApiWorld\<close>. A path value is the path segment as it stands. Telemetry around a handler has no effect
  on it and is left out. The request's body limit of \<open>http.MaxBytesReader\<close> is a bound on its length.
\<close>

section \<open>State, requests and responses\<close>

record Attempt =
  at_n :: int
  at_start :: time

record Server =
  sv_Config :: Config
  sv_Engine :: Engine
  sv_attempts :: "Attempt gomap"
  sv_global :: Attempt

record Request =
  rq_Method :: string
  rq_Path :: string
  rq_Query :: bool
  rq_Host :: string
  rq_RemoteAddr :: string
  rq_Header :: "string gomap"
  rq_Cookies :: "string gomap"
  rq_Body :: string

record Cookie =
  ck_Name :: string
  ck_Value :: string
  ck_Path :: string
  ck_HttpOnly :: bool
  ck_Secure :: bool
  ck_SameSiteStrict :: bool
  ck_Expires :: "time option"
  ck_MaxAge :: int

datatype evidence_summary = Decoded json | Incomplete string string string

datatype payload =
    PFailure string string
  | PAlive string bool
  | PSession Actor string time string
  | PLoggedOut
  | PInventory Inventory
  | PModels "Model list"
  | PHardware Hardware
  | PRecipes "Recipe list"
  | PCaches
  | PHarnesses
  | PProfiles bool string
  | PConfiguration Configuration
  | PPlan Plan
  | POperation Operation
  | POperations "Operation list"
  | PExport json
  | PCredentials "CredentialInfo list"
  | PRevoked string
  | PAudit "Audit list"
  | PEvidence "evidence_summary list"
  | PSummary json
  | PArtifact Artifact
  | PAdvice json "Plan option"
  | PTelemetry string bool TelemetryOperations json
  | PAsset

record Response =
  rs_Status :: int
  rs_Header :: "(string \<times> string) list"
  rs_Cookies :: "Cookie list"
  rs_Body :: payload

type_synonym 'a decoder = "string \<Rightarrow> ('a \<times> bool) option"

text \<open>
  What the advisor did in one run: the tools it called in order, its error, and the result with the
  accounting the server records of it. \<open>adv_accounting\<close> is absent when it cannot be rendered.
\<close>

record Advice =
  adv_tools :: "string list"
  adv_err :: "err option"
  adv_result :: json
  adv_accounting :: "string option"

record PerformanceSummary =
  ps_Kind :: string
  ps_SHA256 :: string
  ps_EvidenceID :: string
  ps_Rest :: json

record ApiWorld =
  w_H :: digest
  w_V :: "string \<Rightarrow> string"
  w_now :: time
  w_id :: string
  w_plan_id :: string
  w_token :: string
  w_csrf :: string
  w_Adapter :: Adapter
  w_Tokens :: "string \<Rightarrow> jtoken list"
  w_Draft :: "Draft decoder"
  w_Credential :: "string decoder"
  w_ApplyRequest :: "(string \<times> string) decoder"
  w_Empty :: "unit decoder"
  w_OperationRequest :: "string decoder"
  w_ArtifactRequest :: "(string \<times> string) decoder"
  w_MemoryRequest :: "MemoryRequest decoder"
  w_Summary :: "json decoder"
  w_Export :: "string \<Rightarrow> err + json"
  w_MemoryPreview :: "(Draft \<Rightarrow> Configuration \<Rightarrow> err + json) option"
  w_MemoryArtifact :: "string \<Rightarrow> string \<Rightarrow> err + Artifact"
  w_PerformancePreview :: "(Draft \<Rightarrow> Configuration \<Rightarrow> err + PerformanceSummary) option"
  w_PerformanceArtifact :: "string \<Rightarrow> string \<Rightarrow> err + Artifact"
  w_Backend :: json
  w_Advisor :: "Advice option"

definition hdr :: "Request \<Rightarrow> string \<Rightarrow> string" where
  "hdr r k = (case map_of (rq_Header r) k of None \<Rightarrow> [] | Some v \<Rightarrow> v)"

definition json_response :: "int \<Rightarrow> payload \<Rightarrow> Response" where
  "json_response status p = \<lparr>rs_Status = status, rs_Header = [(''Content-Type'', ''application/json'')], rs_Cookies = [], rs_Body = p\<rparr>"

definition with_header :: "string \<Rightarrow> string \<Rightarrow> Response \<Rightarrow> Response" where
  "with_header k v rs = rs\<lparr>rs_Header := (k, v) # rs_Header rs\<rparr>"

section \<open>Errors\<close>

definition msg_internal :: string where
  "msg_internal = ''operation failed; inspect local redacted diagnostics''"

definition status_of :: "string \<Rightarrow> int" where
  "status_of code =
     (if code = ''unauthorized'' then 401
      else if code \<in> set [''forbidden'', ''browser_disabled''] then 403
      else if code = ''not_found'' then 404
      else if code \<in> set [''conflict'', ''source_drift'', ''precondition_drift'', ''idempotency_conflict'',
                          ''recovery_required'', ''plan_expired''] then 409
      else if code = ''too_large'' then 413
      else if code \<in> set [''capacity'', ''rate_limited''] then 429
      else if code \<in> set [''unavailable'', ''storage_unavailable'', ''source_unavailable'', ''stale_evidence''] then 503
      else if code = ''internal'' then 500
      else 400)"

text \<open>\<open>fail\<close>: a plain error is reported as internal, without its text.\<close>

fun refuse :: "err \<Rightarrow> Response" where
  "refuse (Failure code msg) = json_response (status_of code) (PFailure code msg)"
| "refuse (Plain msg) = json_response (status_of ''internal'') (PFailure ''internal'' msg_internal)"

definition msg_browser_disabled :: string where
  "msg_browser_disabled = ''live browser management is disabled; use a scoped CLI credential or configure a dedicated trusted HTTPS management identity''"
definition msg_login_disabled :: string where
  "msg_login_disabled = ''live browser management requires an explicitly configured dedicated trusted HTTPS management identity''"
definition msg_invalid_host :: string where "msg_invalid_host = ''Host is not in administrator policy''"
definition msg_cross_origin :: string where "msg_cross_origin = ''cross-origin requests are forbidden''"
definition msg_cross_site :: string where "msg_cross_site = ''cross-origin browser requests are forbidden''"
definition msg_options :: string where "msg_options = ''cross-origin access is disabled''"
definition msg_bearer :: string where "msg_bearer = ''Bearer authentication required''"
definition msg_cli_sign_in :: string where "msg_cli_sign_in = ''sign in with a scoped CLI credential''"
definition msg_sign_in :: string where "msg_sign_in = ''sign in or use a scoped credential''"
definition msg_csrf :: string where "msg_csrf = ''valid same-origin CSRF token required''"
definition msg_rate :: string where "msg_rate = ''authentication attempts limited; retry after one minute''"
definition msg_content_type :: string where "msg_content_type = ''Content-Type application/json required''"
definition msg_body_size :: string where "msg_body_size = ''request body exceeds the allowed bound''"
definition msg_login_origin :: string where "msg_login_origin = ''browser login requires the configured same origin''"
definition msg_profiles :: string where
  "msg_profiles = ''profile inventory is unavailable; inspect reference and helper dependencies''"
definition msg_profiles_ready :: string where
  "msg_profiles_ready = ''dependency checks passed; exact qualification and mutable handover gates are checked during execution''"
definition msg_plan_not_found :: string where "msg_plan_not_found = ''plan not found''"
definition msg_revision :: string where "msg_revision = ''invalid operation revision''"
definition msg_if_match :: string where "msg_if_match = ''If-Match with the observed operation revision is required''"
definition msg_owner_role :: string where "msg_owner_role = ''owner role required''"
definition msg_credential_missing :: string where "msg_credential_missing = ''credential not found''"
definition msg_memory_query :: string where "msg_memory_query = ''memory evidence accepts no query''"
definition msg_memory_operation :: string where "msg_memory_operation = ''memory preview requires a memory operation''"
definition msg_memory_adapter :: string where "msg_memory_adapter = ''memory adapter unavailable''"
definition msg_memory_artifact_adapter :: string where "msg_memory_artifact_adapter = ''memory artifact adapter unavailable''"
definition msg_memory_export :: string where
  "msg_memory_export = ''private memory export requires a completed plan operation''"
definition msg_advisor_disabled :: string where
  "msg_advisor_disabled = ''optional Agents API advisor is disabled; deterministic memory planning remains available''"
definition msg_advice_evidence :: string where
  "msg_advice_evidence = ''selected evidence is unavailable, incomplete or stale; use deterministic preview''"
definition msg_advice_accounting :: string where
  "msg_advice_accounting = ''advisory accounting unavailable; inspect the requested audit record before any new advisory''"
definition msg_advice_failed :: "string \<Rightarrow> string" where
  "msg_advice_failed attempt = ''Agents API advisory unavailable or bounded run ended; inspect audit attempt '' @ attempt
     @ '' and retained plans before a new paid request. Unknown creation may already have started inference; cancellation acceptance is not proof of completion. Deterministic workflow remains available''"
definition msg_performance_operation :: string where
  "msg_performance_operation = ''performance preview requires performance.export or performance.profile.select''"
definition msg_performance_adapter :: string where "msg_performance_adapter = ''performance adapter unavailable''"
definition msg_performance_identity :: string where "msg_performance_identity = ''performance preview identity changed''"
definition msg_performance_artifact :: string where
  "msg_performance_artifact = ''performance artifact requires an operation ID and exact artifact name''"
definition msg_performance_completed :: string where
  "msg_performance_completed = ''private performance artifact requires a completed performance operation''"
definition msg_performance_recorded :: string where
  "msg_performance_recorded = ''performance artifact is not recorded by this operation''"
definition msg_performance_differs :: string where
  "msg_performance_differs = ''private performance artifact differs from the recorded operation''"
definition msg_performance_inspection :: string where
  "msg_performance_inspection = ''performance inspection requires an operation ID''"
definition msg_telemetry_query :: string where "msg_telemetry_query = ''telemetry summary accepts no query parameters''"

section \<open>The guard\<close>

definition security_headers :: "Config \<Rightarrow> (string \<times> string) list" where
  "security_headers c =
     [(''X-Content-Type-Options'', ''nosniff''), (''Referrer-Policy'', ''no-referrer''), (''Cache-Control'', ''no-store''),
      (''X-Frame-Options'', ''DENY'')]
     @ (if sc_Mode c = ''live'' \<and> HasPrefix (sc_ExternalURL c) ''https:''
        then [(''Strict-Transport-Security'', ''max-age=31536000'')] else [])"

definition guard_checks :: "Config \<Rightarrow> Request \<Rightarrow> err option" where
  "guard_checks c r = first_fail
     [(\<not> list_ex (\<lambda>h. EqualFold h (rq_Host r)) (sc_AllowedHosts c), Failure ''invalid_host'' msg_invalid_host),
      (hdr r ''Origin'' \<noteq> [] \<and> hdr r ''Origin'' \<noteq> sc_ExternalURL c, Failure ''forbidden'' msg_cross_origin),
      (hdr r ''Sec-Fetch-Site'' = ''cross-site'' \<or> hdr r ''Sec-Fetch-Site'' = ''same-site'', Failure ''forbidden'' msg_cross_site),
      (rq_Method r = ''OPTIONS'', Failure ''forbidden'' msg_options)]"

definition guard :: "(Request \<Rightarrow> Server \<Rightarrow> Server \<times> Response) \<Rightarrow> Request \<Rightarrow> Server \<Rightarrow> Server \<times> Response" where
  "guard next_handler r s =
     (let (s', rs) = (case guard_checks (sv_Config s) r of
                        Some e \<Rightarrow> (s, refuse e)
                      | None \<Rightarrow> next_handler r s)
      in (s', rs\<lparr>rs_Header := security_headers (sv_Config s) @ rs_Header rs\<rparr>))"

section \<open>The limit on failed attempts\<close>

definition zero_attempt :: Attempt where
  "zero_attempt = \<lparr>at_n = 0, at_start = zero_time\<rparr>"

definition remote_ip :: "string \<Rightarrow> string" where
  "remote_ip addr = (case SplitHostPort addr of Some (ip, _) \<Rightarrow> ip | None \<Rightarrow> addr)"

text \<open>A window of a minute that has passed starts anew; the attempt is then counted.\<close>

definition count_attempt :: "time \<Rightarrow> Attempt \<Rightarrow> Attempt" where
  "count_attempt now a =
     (let a = (if now - at_start a > minute then \<lparr>at_n = 0, at_start = now\<rparr> else a)
      in a\<lparr>at_n := at_n a + 1\<rparr>)"

text \<open>A full table forgets the windows that have passed.\<close>

definition evict :: "time \<Rightarrow> Attempt gomap \<Rightarrow> Attempt gomap" where
  "evict now m = (if length m \<ge> 256 then sift (\<lambda>k v. \<not> now - at_start v > minute) m else m)"

definition limited :: "time \<Rightarrow> string \<Rightarrow> Server \<Rightarrow> Server \<times> bool" where
  "limited now addr s =
     (let ip = remote_ip addr;
          g = count_attempt now (sv_global s);
          s = s\<lparr>sv_global := g\<rparr>
      in if at_n g > 120 then (s, True)
         else
           (let a = count_attempt now (case map_of (sv_attempts s) ip of Some a \<Rightarrow> a | None \<Rightarrow> zero_attempt);
                full = length (sv_attempts s) \<ge> 256;
                table = evict now (sv_attempts s);
                s = s\<lparr>sv_attempts := table\<rparr>
            in if full \<and> map_of table ip = None \<and> length table \<ge> 256 then (s, True)
               else (s\<lparr>sv_attempts := AList.update ip a table\<rparr>, at_n a > 12)))"

section \<open>Authentication\<close>

definition check_session :: "ApiWorld \<Rightarrow> Config \<Rightarrow> State \<Rightarrow> Request \<Rightarrow> err + Actor" where
  "check_session w c v r =
     (if \<not> BrowserSessionsEnabled c then Inl (Failure ''unauthorized'' msg_cli_sign_in)
      else case map_of (rq_Cookies r) (BrowserSessionCookieName c) of
             None \<Rightarrow> Inl (Failure ''unauthorized'' msg_sign_in)
           | Some value \<Rightarrow>
               (case Session_of (w_V w) (w_now w) v value (BrowserSessionPurpose c) of
                  Inl e \<Rightarrow> Inl e
                | Inr (a, ses) \<Rightarrow>
                    if rq_Method r \<noteq> ''GET'' \<and> rq_Method r \<noteq> ''HEAD''
                       \<and> (hdr r ''Origin'' \<noteq> sc_ExternalURL c \<or> hdr r ''X-CSRF-Token'' \<noteq> se_CSRF ses)
                    then Inl (Failure ''forbidden'' msg_csrf) else Inr a))"

definition identify :: "ApiWorld \<Rightarrow> Config \<Rightarrow> State \<Rightarrow> Request \<Rightarrow> err + Actor" where
  "identify w c v r =
     (let header = hdr r ''Authorization'' in
      if header \<noteq> [] then
        (if \<not> HasPrefix header ''Bearer '' then Inl (Failure ''unauthorized'' msg_bearer)
         else Bearer (w_V w) (w_now w) v (TrimPrefix header ''Bearer ''))
      else check_session w c v r)"

type_synonym handler = "ApiWorld \<Rightarrow> Request \<Rightarrow> Actor \<Rightarrow> Server \<Rightarrow> Server \<times> Response"

definition rate_limited :: Response where
  "rate_limited = with_header ''Retry-After'' ''60'' (refuse (Failure ''rate_limited'' msg_rate))"

definition authenticate :: "handler \<Rightarrow> ApiWorld \<Rightarrow> Request \<Rightarrow> Server \<Rightarrow> Server \<times> Response" where
  "authenticate h w r s =
     (case identify w (sv_Config s) (AuthState (e_DB (sv_Engine s))) r of
        Inl e \<Rightarrow>
          (let (s', l) = limited (w_now w) (rq_RemoteAddr r) s in
           if l then (s', rate_limited) else (s', refuse e))
      | Inr a \<Rightarrow> h w r a s)"

definition maxBody :: int where "maxBody = 2 ^ 20"

text \<open>\<open>read\<close>: the decoded body of a request, or the refusal.\<close>

definition read_body :: "ApiWorld \<Rightarrow> int \<Rightarrow> 'a decoder \<Rightarrow> Request \<Rightarrow> err + 'a" where
  "read_body w limit decode r =
     (if \<not> HasPrefix (hdr r ''Content-Type'') ''application/json'' then Inl (Failure ''invalid'' msg_content_type)
      else if int (length (rq_Body r)) > limit then Inl (Failure ''too_large'' msg_body_size)
      else case Decode (w_Tokens w) decode (rq_Body r) of
             Inl e \<Rightarrow> Inl (Failure ''invalid'' (err_message e))
           | Inr v \<Rightarrow> Inr v)"

definition with_engine :: "Server \<Rightarrow> Engine \<times> (err + 'a) \<Rightarrow> ('a \<Rightarrow> Response) \<Rightarrow> Server \<times> Response" where
  "with_engine s x answer = (s\<lparr>sv_Engine := fst x\<rparr>, case snd x of Inl e \<Rightarrow> refuse e | Inr v \<Rightarrow> answer v)"

definition with_store :: "Server \<Rightarrow> Store \<times> (err + 'a) \<Rightarrow> ('a \<Rightarrow> Response) \<Rightarrow> Server \<times> Response" where
  "with_store s x answer = with_engine s ((sv_Engine s)\<lparr>e_DB := fst x\<rparr>, snd x) answer"

definition reading :: "Server \<Rightarrow> err + 'a \<Rightarrow> ('a \<Rightarrow> Server \<times> Response) \<Rightarrow> Server \<times> Response" where
  "reading s x f = (case x of Inl e \<Rightarrow> (s, refuse e) | Inr v \<Rightarrow> f v)"

definition owned :: "Actor \<Rightarrow> Server \<Rightarrow> Server \<times> Response \<Rightarrow> Server \<times> Response" where
  "owned a s x = (if ac_Role a \<noteq> ''owner'' then (s, refuse (Failure ''forbidden'' msg_owner_role)) else x)"

section \<open>Sessions\<close>

definition live :: "ApiWorld \<Rightarrow> Request \<Rightarrow> Server \<Rightarrow> Server \<times> Response" where
  "live w r s = (s, json_response 200 (PAlive (sc_Mode (sv_Config s)) (Healthy (e_DB (sv_Engine s)))))"

definition secure_origin :: "Config \<Rightarrow> bool" where
  "secure_origin c = HasPrefix (sc_ExternalURL c) ''https:''"

text \<open>\<open>int(time.Until(t).Seconds())\<close> truncates towards zero.\<close>

definition whole_seconds :: "int \<Rightarrow> int" where
  "whole_seconds d = (if d < 0 then - (- d div second) else d div second)"

definition sessionCookie :: "Config \<Rightarrow> time \<Rightarrow> string \<Rightarrow> time \<Rightarrow> Cookie" where
  "sessionCookie c now token expires = \<lparr>ck_Name = BrowserSessionCookieName c, ck_Value = token, ck_Path = ''/'',
     ck_HttpOnly = True, ck_Secure = secure_origin c, ck_SameSiteStrict = True, ck_Expires = Some expires,
     ck_MaxAge = whole_seconds (expires - now)\<rparr>"

definition expireSessionCookie :: "Config \<Rightarrow> string \<Rightarrow> Cookie" where
  "expireSessionCookie c name = \<lparr>ck_Name = name, ck_Value = [], ck_Path = ''/'', ck_HttpOnly = True,
     ck_Secure = secure_origin c, ck_SameSiteStrict = True, ck_Expires = None, ck_MaxAge = - 1\<rparr>"

definition login :: "ApiWorld \<Rightarrow> Request \<Rightarrow> Server \<Rightarrow> Server \<times> Response" where
  "login w r s =
     (let c = sv_Config s in
      if \<not> BrowserSessionsEnabled c then (s, refuse (Failure ''browser_disabled'' msg_login_disabled))
      else if hdr r ''Origin'' \<noteq> sc_ExternalURL c then (s, refuse (Failure ''forbidden'' msg_login_origin))
      else
        (let (s, l) = limited (w_now w) (rq_RemoteAddr r) s in
         if l then (s, rate_limited)
         else reading s (read_body w (min maxBody 4096) (w_Credential w) r) (\<lambda>credential.
           with_store s (Login (w_V w) (w_now w) (e_DB (sv_Engine s)) credential (BrowserSessionPurpose c) (w_token w) (w_csrf w))
             (\<lambda>(a, ses). (json_response 200 (PSession a (se_CSRF ses) (se_ExpiresAt ses) (sc_Mode c)))
                \<lparr>rs_Cookies := [sessionCookie c (w_now w) (w_token w) (se_ExpiresAt ses)]\<rparr>))))"

definition session :: handler where
  "session w r a s =
     (let c = sv_Config s;
          found = (case map_of (rq_Cookies r) (BrowserSessionCookieName c) of
             None \<Rightarrow> None
           | Some value \<Rightarrow>
               (case Session_of (w_V w) (w_now w) (AuthState (e_DB (sv_Engine s))) value (BrowserSessionPurpose c) of
                  Inl _ \<Rightarrow> None | Inr (_, ses) \<Rightarrow> Some ses))
      in (s, json_response 200 (case found of
               None \<Rightarrow> PSession a [] zero_time (sc_Mode c)
             | Some ses \<Rightarrow> PSession a (se_CSRF ses) (se_ExpiresAt ses) (sc_Mode c))))"

definition logout_txn :: "ApiWorld \<Rightarrow> Actor \<Rightarrow> string \<Rightarrow> State \<Rightarrow> err + State \<times> unit" where
  "logout_txn w a value v = Inr (Event (w_now w) (ac_ID a) ''logout'' (ac_ID a) ''succeeded''
     (v\<lparr>st_Sessions := sift (\<lambda>k _. k \<noteq> w_V w value) (st_Sessions v)\<rparr>), ())"

definition logged_out :: "Config \<Rightarrow> Response" where
  "logged_out c = (json_response 200 PLoggedOut)
     \<lparr>rs_Cookies := [expireSessionCookie c (BrowserSessionCookieName c), expireSessionCookie c LegacyBrowserSessionCookie]\<rparr>"

definition logout :: handler where
  "logout w r a s =
     (let c = sv_Config s in
      case map_of (rq_Cookies r) (BrowserSessionCookieName c) of
        None \<Rightarrow> (s, logged_out c)
      | Some value \<Rightarrow> with_store s (Update (w_now w) (logout_txn w a value) (e_DB (sv_Engine s))) (\<lambda>_. logged_out c))"

section \<open>Inventory and configuration\<close>

definition inventory :: handler where
  "inventory w r a s = (s,
     case ad_Snapshot (w_Adapter w) of
       Inl e \<Rightarrow> refuse e
     | Inr iv \<Rightarrow> json_response 200
         (if rq_Path r = ''/api/v1/models'' then PModels (i_Models iv)
          else if rq_Path r = ''/api/v1/resources'' then PHardware (i_Hardware iv)
          else if rq_Path r = ''/api/v1/builds'' then PRecipes (i_Recipes iv)
          else if rq_Path r = ''/api/v1/caches'' then PCaches
          else if rq_Path r = ''/api/v1/harnesses'' then PHarnesses
          else PInventory iv))"

definition profiles :: handler where
  "profiles w r a s = (s,
     case ad_Snapshot (w_Adapter w) of
       Inl e \<Rightarrow> refuse (Failure ''unavailable'' msg_profiles)
     | Inr iv \<Rightarrow> json_response 200 (PProfiles (i_ClusterAvailable iv)
         (if i_ClusterAvailable iv then msg_profiles_ready else i_ClusterMessage iv)))"

definition quoted :: "string \<Rightarrow> string" where
  "quoted s = CHR 0x22 # s @ [CHR 0x22]"

definition configuration :: handler where
  "configuration w r a s = (s,
     case Source_Read (w_H w) (e_File (sv_Engine s)) of
       Inl e \<Rightarrow> refuse e
     | Inr c \<Rightarrow>
         (let rs = with_header ''ETag'' (quoted (c_Revision c)) (json_response 200 (PConfiguration c))
          in if HasSuffix (rq_Path r) ''/export''
             then with_header ''Content-Disposition'' (''attachment; filename='' @ quoted ''managed-source.json'') rs else rs))"

section \<open>Plans and operations\<close>

definition plan :: handler where
  "plan w r a s = reading s (read_body w maxBody (w_Draft w) r) (\<lambda>d.
     with_engine s (CreatePlan (w_H w) (w_Adapter w) (w_now w) (w_id w) a d (sv_Engine s))
       (\<lambda>p. json_response 201 (PPlan p)))"

definition getPlan :: "string \<Rightarrow> handler" where
  "getPlan id0 w r a s =
     (case find_plan (e_DB (sv_Engine s)) id0 of
        None \<Rightarrow> (s, refuse (Failure ''not_found'' msg_plan_not_found))
      | Some p \<Rightarrow>
          if EvidenceAction (d_Action (p_Draft p)) then owned a s (s, json_response 200 (PPlan p))
          else (s, json_response 200 (PPlan p)))"

definition apply_plan :: handler where
  "apply_plan w r a s = reading s (read_body w maxBody (w_ApplyRequest w) r) (\<lambda>(plan_id, target).
     with_engine s (Apply (w_H w) (w_now w) (w_id w) a plan_id target (hdr r ''Idempotency-Key'') (sv_Engine s))
       (\<lambda>op. with_header ''Location'' (''/api/v1/operations/'' @ o_ID op) (json_response 202 (POperation op))))"

definition operation_list :: handler where
  "operation_list w r a s =
     (let ops = Operations (sv_Engine s) in
      (s, json_response 200 (POperations
         (if ac_Role a \<noteq> ''owner'' then filter (\<lambda>o1. \<not> EvidenceAction (d_Action (o_Draft o1))) ops else ops))))"

text \<open>The tag of the operation is set before the role is checked, and stays on a refusal.\<close>

definition operation :: "string \<Rightarrow> handler" where
  "operation id0 w r a s =
     (case Operation_of (sv_Engine s) id0 of
        Inl e \<Rightarrow> (s, refuse e)
      | Inr o1 \<Rightarrow>
          (let (s', rs) = (if EvidenceAction (d_Action (o_Draft o1)) then owned a s (s, json_response 200 (POperation o1))
                           else (s, json_response 200 (POperation o1)))
           in (s', with_header ''ETag'' (quoted (FormatUint (o_Revision o1))) rs)))"

text \<open>\<open>strings.Trim(match, \<close>the quotation mark\<open>)\<close> and the revision the client observed.\<close>

definition trim_quotes :: "string \<Rightarrow> string" where
  "trim_quotes s = List.rev (dropWhile (\<lambda>c. c = CHR 0x22) (List.rev (dropWhile (\<lambda>c. c = CHR 0x22) s)))"

definition observed_revision :: "string \<Rightarrow> err + 64 word" where
  "observed_revision match =
     (case (if match = [] then Some 0 else ParseUint (trim_quotes match)) of
        None \<Rightarrow> Inl (Failure ''invalid'' msg_revision)
      | Some n \<Rightarrow> if n = 0 then Inl (Failure ''conflict'' msg_if_match) else Inr n)"

definition cancel :: "string \<Rightarrow> handler" where
  "cancel id0 w r a s = reading s (read_body w maxBody (w_Empty w) r) (\<lambda>_.
     reading s (observed_revision (hdr r ''If-Match'')) (\<lambda>n.
       with_engine s (Cancel (w_now w) a id0 n (sv_Engine s)) (\<lambda>o1. json_response 202 (POperation o1))))"

definition recover :: "string \<Rightarrow> handler" where
  "recover id0 w r a s = reading s (read_body w maxBody (w_Empty w) r) (\<lambda>_.
     with_engine s (Recover (w_H w) (w_Adapter w) (w_now w) (w_id w) a id0 (sv_Engine s))
       (\<lambda>p. json_response 201 (PPlan p)))"

definition export :: "string \<Rightarrow> handler" where
  "export id0 w r a s = (s,
     case w_Export w id0 of
       Inl e \<Rightarrow> refuse e
     | Inr b \<Rightarrow> with_header ''Content-Disposition'' (''attachment; filename='' @ quoted ''client-bundle.json'')
                  (json_response 200 (PExport b)))"

section \<open>Credentials and the audit trail\<close>

definition credentials :: handler where
  "credentials w r a s = owned a s
     (s, json_response 200 (PCredentials (map (Info \<circ> snd) (st_Credentials (AuthState (e_DB (sv_Engine s)))))))"

definition api_revoke_txn :: "ApiWorld \<Rightarrow> Actor \<Rightarrow> string \<Rightarrow> State \<Rightarrow> err + State \<times> unit" where
  "api_revoke_txn w a id0 v =
     (case map_of (st_Credentials v) id0 of
        None \<Rightarrow> Inl (Failure ''not_found'' msg_credential_missing)
      | Some c \<Rightarrow> Inr (Event (w_now w) (ac_ID a) ''credential.revoke'' id0 ''succeeded''
          (v\<lparr>st_Credentials := AList.update id0 (c\<lparr>cr_Revoked := True\<rparr>) (st_Credentials v),
             st_Sessions := sift (\<lambda>k se. se_CredentialID se \<noteq> id0) (st_Sessions v)\<rparr>), ()))"

definition revoke :: "string \<Rightarrow> handler" where
  "revoke id0 w r a s = owned a s (reading s (read_body w maxBody (w_Empty w) r) (\<lambda>_.
     with_store s (Update (w_now w) (api_revoke_txn w a id0) (e_DB (sv_Engine s)))
       (\<lambda>_. json_response 200 (PRevoked id0))))"

definition audit :: handler where
  "audit w r a s = owned a s (s, json_response 200 (PAudit (AuditRecords (e_DB (sv_Engine s)))))"

section \<open>Evidence\<close>

definition operation_summaries :: "ApiWorld \<Rightarrow> Operation \<Rightarrow> evidence_summary list" where
  "operation_summaries w o1 =
     (let found = concat (map (\<lambda>x. if a_Name x = ''memory-summary.json''
                                   then (case Decode (w_Tokens w) (w_Summary w) (a_Content x) of Inl _ \<Rightarrow> [] | Inr v \<Rightarrow> [Decoded v])
                                   else []) (o_Artifacts o1))
      in if found \<noteq> [] then found
         else [Incomplete (o_ID o1) (''operation_'' @ o_State o1)
                 (case d_Memory (o_Draft o1) of None \<Rightarrow> [] | Some m \<Rightarrow> mr_EvidenceSHA256 m)])"

definition memoryEvidence :: handler where
  "memoryEvidence w r a s = owned a s (s,
     if rq_Query r then refuse (Failure ''invalid'' msg_memory_query)
     else json_response 200 (PEvidence (concat (map (operation_summaries w)
            (filter (\<lambda>o1. MemoryAction (d_Action (o_Draft o1))) (Operations (sv_Engine s)))))))"

text \<open>The checks of a draft that is previewed only.\<close>

definition preview_checks :: "ApiWorld \<Rightarrow> (string \<Rightarrow> bool) \<Rightarrow> string \<Rightarrow> Draft \<Rightarrow> Engine \<Rightarrow> err + Configuration" where
  "preview_checks w kind msg d e =
     (case Source_Read (w_H w) (e_File e) of
        Inl x \<Rightarrow> Inl x
      | Inr c \<Rightarrow>
          if \<not> kind (d_Action d) then Inl (Failure ''invalid'' msg)
          else (case ValidateDraft (w_H w) (w_now w) d c (zero_inventory\<lparr>i_Target := e_Target e\<rparr>) of
                  Some x \<Rightarrow> Inl x
                | None \<Rightarrow> Inr c))"

definition memoryPreview :: handler where
  "memoryPreview w r a s = owned a s (reading s (read_body w maxBody (w_Draft w) r) (\<lambda>d.
     reading s (preview_checks w MemoryAction msg_memory_operation d (sv_Engine s)) (\<lambda>c.
       (s, case w_MemoryPreview w of
             None \<Rightarrow> refuse (Failure ''unavailable'' msg_memory_adapter)
           | Some preview \<Rightarrow>
               (case preview d c of
                  Inl e \<Rightarrow> refuse (Failure ''invalid'' (err_message e))
                | Inr v \<Rightarrow> json_response 200 (PSummary v))))))"

definition memoryArtifact :: handler where
  "memoryArtifact w r a s = owned a s (reading s (read_body w maxBody (w_ArtifactRequest w) r) (\<lambda>(operation_id, name).
     reading s (Operation_of (sv_Engine s) operation_id) (\<lambda>o1.
       (s, if d_Action (o_Draft o1) \<noteq> ''memory.plan.export'' \<or> o_State o1 \<noteq> ''succeeded''
           then refuse (Failure ''conflict'' msg_memory_export)
           else if w_MemoryPreview w = None then refuse (Failure ''unavailable'' msg_memory_artifact_adapter)
           else (case w_MemoryArtifact w operation_id name of
                   Inl e \<Rightarrow> refuse (Failure ''conflict'' (err_message e))
                 | Inr artifact \<Rightarrow> json_response 200 (PArtifact artifact))))))"

definition memoryInspect :: handler where
  "memoryInspect w r a s = owned a s (reading s (read_body w maxBody (w_OperationRequest w) r) (\<lambda>operation_id.
     with_engine s (inspectEvidence (w_Adapter w) (w_now w) a operation_id False (sv_Engine s))
       (\<lambda>o1. json_response 200 (POperation o1))))"

definition performancePreview :: handler where
  "performancePreview w r a s = owned a s (reading s (read_body w maxBody (w_Draft w) r) (\<lambda>d.
     reading s (preview_checks w PerformanceAction msg_performance_operation d (sv_Engine s)) (\<lambda>c.
       (s, case (w_PerformancePreview w, d_Performance d) of
             (Some preview, Some q) \<Rightarrow>
               (case preview d c of
                  Inl e \<Rightarrow> refuse (Failure ''invalid'' (err_message e))
                | Inr v \<Rightarrow>
                    if ps_Kind v \<noteq> pr_Kind q \<or> ps_SHA256 v \<noteq> pr_EvidenceSHA256 q
                    then refuse (Failure ''conflict'' msg_performance_identity)
                    else json_response 200 (PSummary (JObj [(''kind'', JStr (ps_Kind v)), (''sha256'', JStr (ps_SHA256 v)),
                           (''evidence_id'', JStr (pr_EvidenceID q)), (''rest'', ps_Rest v)])))
           | _ \<Rightarrow> refuse (Failure ''unavailable'' msg_performance_adapter)))))"

text \<open>The regular expression \<open>^[a-f0-9]{32}$\<close>.\<close>

definition performanceOperationID :: "string \<Rightarrow> bool" where
  "performanceOperationID s \<longleftrightarrow> length s = 32 \<and> list_all is_hex s"

definition same_artifact :: "Artifact \<Rightarrow> Artifact \<Rightarrow> bool" where
  "same_artifact x y \<longleftrightarrow> a_Name x = a_Name y \<and> a_SHA256 x = a_SHA256 y \<and> a_Size x = a_Size y \<and>
     a_SourceRevision x = a_SourceRevision y \<and> a_Qualification x = a_Qualification y"

definition performanceArtifact :: handler where
  "performanceArtifact w r a s = owned a s (reading s (read_body w maxBody (w_ArtifactRequest w) r) (\<lambda>(operation_id, name).
     if \<not> performanceOperationID operation_id \<or> name = [] \<or> length name > 240
     then (s, refuse (Failure ''invalid'' msg_performance_artifact))
     else reading s (Operation_of (sv_Engine s) operation_id) (\<lambda>o1.
       (s, if \<not> PerformanceAction (d_Action (o_Draft o1)) \<or> o_State o1 \<noteq> ''succeeded''
           then refuse (Failure ''conflict'' msg_performance_completed)
           else case find (\<lambda>x. a_Name x = name) (o_Artifacts o1) of
                  None \<Rightarrow> refuse (Failure ''not_found'' msg_performance_recorded)
                | Some expected \<Rightarrow>
                    if w_PerformancePreview w = None then refuse (Failure ''unavailable'' msg_performance_adapter)
                    else (case w_PerformanceArtifact w operation_id name of
                            Inl e \<Rightarrow> refuse (Failure ''conflict'' (err_message e))
                          | Inr artifact \<Rightarrow>
                              if \<not> same_artifact artifact expected then refuse (Failure ''conflict'' msg_performance_differs)
                              else json_response 200 (PArtifact artifact))))))"

definition performanceInspect :: handler where
  "performanceInspect w r a s = owned a s (reading s (read_body w maxBody (w_OperationRequest w) r) (\<lambda>operation_id.
     if \<not> performanceOperationID operation_id then (s, refuse (Failure ''invalid'' msg_performance_inspection))
     else with_engine s (inspectEvidence (w_Adapter w) (w_now w) a operation_id True (sv_Engine s))
            (\<lambda>o1. json_response 200 (POperation o1))))"

definition telemetrySummary :: handler where
  "telemetrySummary w r a s = owned a s (s,
     if rq_Query r then refuse (Failure ''invalid'' msg_telemetry_query)
     else let (ops, healthy) = TelemetrySnapshot (e_DB (sv_Engine s))
          in json_response 200 (PTelemetry (sc_Mode (sv_Config s)) healthy ops (w_Backend w)))"

section \<open>The advisor\<close>

text \<open>
  The identity is checked again for every tool the advisor calls; the only tool with an effect
  creates at most one plan.
\<close>

definition current_identity :: "ApiWorld \<Rightarrow> Request \<Rightarrow> Server \<Rightarrow> err + Actor" where
  "current_identity w r s =
     (let v = AuthState (e_DB (sv_Engine s)); c = sv_Config s; header = hdr r ''Authorization'' in
      if HasPrefix header ''Bearer '' then Bearer (w_V w) (w_now w) v (TrimPrefix header ''Bearer '')
      else case map_of (rq_Cookies r) (BrowserSessionCookieName c) of
             Some value \<Rightarrow> (case Session_of (w_V w) (w_now w) v value (BrowserSessionPurpose c) of
                 Inl e \<Rightarrow> Inl e | Inr (a, _) \<Rightarrow> Inr a)
           | None \<Rightarrow> Inl (Plain ''http: named cookie not present''))"

definition advise_tool :: "ApiWorld \<Rightarrow> Request \<Rightarrow> Actor \<Rightarrow> Draft \<Rightarrow> string \<Rightarrow> Server \<times> Plan option \<Rightarrow> Server \<times> Plan option" where
  "advise_tool w r a d name sp =
     (let (s, p) = sp in
      case current_identity w r s of
        Inl _ \<Rightarrow> (s, p)
      | Inr current \<Rightarrow>
          if ac_ID current \<noteq> ac_ID a \<or> ac_Role current \<noteq> ''owner'' then (s, p)
          else if name = ''request_memory_plan'' \<and> p = None
          then (case CreatePlan (w_H w) (w_Adapter w) (w_now w) (w_plan_id w) a d (sv_Engine s) of
                  (e, Inl _) \<Rightarrow> (s\<lparr>sv_Engine := e\<rparr>, None)
                | (e, Inr q) \<Rightarrow> (s\<lparr>sv_Engine := e\<rparr>, Some q))
          else (s, p))"

definition audit_txn :: "time \<Rightarrow> string \<Rightarrow> string \<Rightarrow> string \<Rightarrow> string \<Rightarrow> State \<Rightarrow> err + State \<times> unit" where
  "audit_txn now actor action object result v = Inr (Event now actor action object result v, ())"

definition record_audit :: "ApiWorld \<Rightarrow> Actor \<Rightarrow> string \<Rightarrow> string \<Rightarrow> Server \<Rightarrow> Server \<times> err option" where
  "record_audit w a action result s =
     (case Update (w_now w) (audit_txn (w_now w) (ac_ID a) action (w_id w) result) (e_DB (sv_Engine s)) of
        (db, Inl e) \<Rightarrow> (s\<lparr>sv_Engine := (sv_Engine s)\<lparr>e_DB := db\<rparr>\<rparr>, Some e)
      | (db, Inr _) \<Rightarrow> (s\<lparr>sv_Engine := (sv_Engine s)\<lparr>e_DB := db\<rparr>\<rparr>, None))"

definition advise :: "ApiWorld \<Rightarrow> Request \<Rightarrow> Actor \<Rightarrow> Draft \<Rightarrow> Advice \<Rightarrow> Server \<Rightarrow> Server \<times> Response" where
  "advise w r a d adv s =
     (case record_audit w a ''memory.advice.requested'' ''outcome_not_observed'' s of
        (s, Some e) \<Rightarrow> (s, refuse e)
      | (s, None) \<Rightarrow>
          (let (s, p) = fold (advise_tool w r a d) (adv_tools adv) (s, None);
               answer = (\<lambda>rs. with_header ''X-Bridge-Advisory-ID'' (w_id w) rs)
           in case adv_accounting adv of
                None \<Rightarrow> (s, answer (refuse (Failure ''internal'' msg_advice_accounting)))
              | Some accounting \<Rightarrow>
                  (case record_audit w a ''memory.advice.finished'' accounting s of
                     (s, Some e) \<Rightarrow> (s, answer (refuse e))
                   | (s, None) \<Rightarrow>
                       (s, answer (if adv_err adv \<noteq> None then refuse (Failure ''unavailable'' (msg_advice_failed (w_id w)))
                                   else json_response 200 (PAdvice (adv_result adv) p))))))"

definition memoryAdvice :: handler where
  "memoryAdvice w r a s = owned a s (reading s (read_body w maxBody (w_MemoryRequest w) r) (\<lambda>request.
     case (if av_Enabled (sc_Advisor (sv_Config s)) \<and> sc_Mode (sv_Config s) = ''live'' then w_Advisor w else None) of
       None \<Rightarrow> (s, refuse (Failure ''unavailable'' msg_advisor_disabled))
     | Some adv \<Rightarrow>
         reading s (Source_Read (w_H w) (e_File (sv_Engine s))) (\<lambda>c.
           let d = zero_draft\<lparr>d_Action := ''memory.plan.export'', d_Target := e_Target (sv_Engine s),
                              d_SourceRevision := c_Revision c, d_Memory := Some request\<rparr>
           in case ValidateDraft (w_H w) (w_now w) d c (zero_inventory\<lparr>i_Target := e_Target (sv_Engine s)\<rparr>) of
                Some x \<Rightarrow> (s, refuse x)
              | None \<Rightarrow>
                  (case w_MemoryPreview w of
                     None \<Rightarrow> (s, refuse (Failure ''unavailable'' msg_memory_adapter))
                   | Some preview \<Rightarrow>
                       (case preview d c of
                          Inl _ \<Rightarrow> (s, refuse (Failure ''invalid'' msg_advice_evidence))
                        | Inr _ \<Rightarrow> advise w r a d adv s)))))"

section \<open>Routes\<close>

datatype route =
    RLive | RLogin | RSession | RLogout | RInventory | RTelemetry | RMemory | RMemoryPreview | RMemoryArtifact
  | RMemoryAdvice | RMemoryInspect | RPerformancePreview | RPerformanceArtifact | RPerformanceInspect | RProfiles
  | RConfiguration | RPlan | RGetPlan string | RApply | ROperations | ROperation string | RCancel string
  | RRecover string | RExport string | RCredentials | RRevoke string | RAudit | RBrowser | RRedirect

text \<open>
  The patterns registered with the multiplexer. A pattern for \<open>GET\<close> also serves \<open>HEAD\<close>; a wildcard
  is one segment that is not empty; everything else reaches the catch-all pattern. A path that is
  not clean is answered with a redirection.
\<close>

definition get_routes :: "(string list \<times> route) list" where
  "get_routes =
     [([''auth'', ''session''], RSession), ([''status''], RInventory), ([''telemetry'', ''summary''], RTelemetry),
      ([''memory''], RMemory), ([''models''], RInventory), ([''resources''], RInventory), ([''builds''], RInventory),
      ([''caches''], RInventory), ([''harnesses''], RInventory), ([''profiles''], RProfiles), ([''config''], RConfiguration),
      ([''config'', ''export''], RConfiguration), ([''operations''], ROperations), ([''credentials''], RCredentials),
      ([''audit''], RAudit)]"

definition post_routes :: "(string list \<times> route) list" where
  "post_routes =
     [([''auth'', ''login''], RLogin), ([''auth'', ''logout''], RLogout), ([''memory'', ''preview''], RMemoryPreview),
      ([''memory'', ''artifact''], RMemoryArtifact), ([''memory'', ''advice''], RMemoryAdvice),
      ([''memory'', ''inspect''], RMemoryInspect), ([''performance'', ''preview''], RPerformancePreview),
      ([''performance'', ''artifact''], RPerformanceArtifact), ([''performance'', ''inspect''], RPerformanceInspect),
      ([''plans''], RPlan), ([''operations''], RApply)]"

definition get_wildcard :: "string list \<Rightarrow> route" where
  "get_wildcard segs = (case segs of
       [x, i] \<Rightarrow> if i = [] then RBrowser else if x = ''plans'' then RGetPlan i
                 else if x = ''operations'' then ROperation i else RBrowser
     | [x, i, y] \<Rightarrow> if i \<noteq> [] \<and> x = ''harnesses'' \<and> y = ''export'' then RExport i else RBrowser
     | _ \<Rightarrow> RBrowser)"

definition post_wildcard :: "string list \<Rightarrow> route" where
  "post_wildcard segs = (case segs of
       [x, i, y] \<Rightarrow> if i = [] then RBrowser
                    else if x = ''operations'' \<and> y = ''cancel'' then RCancel i
                    else if x = ''operations'' \<and> y = ''recover'' then RRecover i
                    else if x = ''credentials'' \<and> y = ''revoke'' then RRevoke i
                    else RBrowser
     | _ \<Rightarrow> RBrowser)"

definition clean_url :: "string \<Rightarrow> string" where
  "clean_url p = (if p = [] then ''/''
     else let q = (if HasPrefix p ''/'' then p else slash # p); np = Clean q
          in if HasSuffix q ''/'' \<and> np \<noteq> ''/'' then np @ ''/'' else np)"

definition route_of :: "string \<Rightarrow> string \<Rightarrow> route" where
  "route_of meth path =
     (if clean_url path \<noteq> path then RRedirect
      else if path = ''/health/live'' \<and> (meth = ''GET'' \<or> meth = ''HEAD'') then RLive
      else if \<not> HasPrefix path ''/api/v1/'' then RBrowser
      else let segs = split_on slash (TrimPrefix path ''/api/v1/'')
           in if meth = ''GET'' \<or> meth = ''HEAD''
              then (case map_of get_routes segs of Some x \<Rightarrow> x | None \<Rightarrow> get_wildcard segs)
              else if meth = ''POST''
              then (case map_of post_routes segs of Some x \<Rightarrow> x | None \<Rightarrow> post_wildcard segs)
              else RBrowser)"

definition browser :: "ApiWorld \<Rightarrow> Request \<Rightarrow> Server \<Rightarrow> Server \<times> Response" where
  "browser w r s = (s,
     if \<not> BrowserSessionsEnabled (sv_Config s) then refuse (Failure ''browser_disabled'' msg_browser_disabled)
     else json_response
       (if rq_Method r \<noteq> ''GET'' \<and> rq_Method r \<noteq> ''HEAD'' then 405
        else if rq_Path r \<noteq> ''/'' \<and> rq_Path r \<noteq> ''/app.js'' \<and> rq_Path r \<noteq> ''/style.css'' then 404 else 200) PAsset)"

fun secured :: "route \<Rightarrow> handler option" where
  "secured RSession = Some session"
| "secured RLogout = Some logout"
| "secured RInventory = Some inventory"
| "secured RTelemetry = Some telemetrySummary"
| "secured RMemory = Some memoryEvidence"
| "secured RMemoryPreview = Some memoryPreview"
| "secured RMemoryArtifact = Some memoryArtifact"
| "secured RMemoryAdvice = Some memoryAdvice"
| "secured RMemoryInspect = Some memoryInspect"
| "secured RPerformancePreview = Some performancePreview"
| "secured RPerformanceArtifact = Some performanceArtifact"
| "secured RPerformanceInspect = Some performanceInspect"
| "secured RProfiles = Some profiles"
| "secured RConfiguration = Some configuration"
| "secured RPlan = Some plan"
| "secured (RGetPlan i) = Some (getPlan i)"
| "secured RApply = Some apply_plan"
| "secured ROperations = Some operation_list"
| "secured (ROperation i) = Some (operation i)"
| "secured (RCancel i) = Some (cancel i)"
| "secured (RRecover i) = Some (recover i)"
| "secured (RExport i) = Some (export i)"
| "secured RCredentials = Some credentials"
| "secured (RRevoke i) = Some (revoke i)"
| "secured RAudit = Some audit"
| "secured _ = None"

definition serve_route :: "ApiWorld \<Rightarrow> Request \<Rightarrow> Server \<Rightarrow> Server \<times> Response" where
  "serve_route w r s =
     (case route_of (rq_Method r) (rq_Path r) of
        RLive \<Rightarrow> live w r s
      | RLogin \<Rightarrow> login w r s
      | RBrowser \<Rightarrow> browser w r s
      | RRedirect \<Rightarrow> (s, json_response 301 PAsset)
      | x \<Rightarrow> (case secured x of Some h \<Rightarrow> authenticate h w r s | None \<Rightarrow> browser w r s))"

definition serve :: "ApiWorld \<Rightarrow> Request \<Rightarrow> Server \<Rightarrow> Server \<times> Response" where
  "serve w r s = guard (serve_route w) r s"

text \<open>\<open>New\<close>: a server with no attempts recorded.\<close>

definition new_server :: "Config \<Rightarrow> Engine \<Rightarrow> Server" where
  "new_server c e = \<lparr>sv_Config = c, sv_Engine = e, sv_attempts = [], sv_global = zero_attempt\<rparr>"

end
