(* ===== verification/SurfaceRun.thy ===== *)
theory SurfaceRun
  imports Surface
begin

text \<open>
  What the HTTP surface guarantees: who can change the controller's state through it, what a
  credential that is not the owner's can change, who is shown evidence, how many failed attempts
  are answered, and that the tag of an operation is what a cancellation has to present.
\<close>

named_theorems handler_defs \<open>the handlers of the surface\<close>

lemmas [handler_defs] = session_def logout_def inventory_def profiles_def configuration_def plan_def getPlan_def
  apply_plan_def operation_list_def operation_def cancel_def recover_def export_def credentials_def revoke_def audit_def
  memoryEvidence_def memoryPreview_def memoryArtifact_def memoryInspect_def performancePreview_def performanceArtifact_def
  performanceInspect_def telemetrySummary_def memoryAdvice_def

section \<open>Which requests can change the engine\<close>

lemma limited_frame [simp]:
  "sv_Engine (fst (limited now addr s)) = sv_Engine s" "sv_Config (fst (limited now addr s)) = sv_Config s"
  by (simp_all add: limited_def Let_def)

text \<open>The handlers that can change the engine.\<close>

definition mutating :: "route \<Rightarrow> bool" where
  "mutating x \<longleftrightarrow> (case x of RLogout \<Rightarrow> True | RPlan \<Rightarrow> True | RApply \<Rightarrow> True | RCancel _ \<Rightarrow> True | RRecover _ \<Rightarrow> True
     | RRevoke _ \<Rightarrow> True | RMemoryInspect \<Rightarrow> True | RPerformanceInspect \<Rightarrow> True | RMemoryAdvice \<Rightarrow> True | _ \<Rightarrow> False)"

lemma quiet_handler: "secured x = Some h \<Longrightarrow> \<not> mutating x \<Longrightarrow> fst (h w r a s) = s"
  by (cases x) (auto simp: mutating_def handler_defs owned_def reading_def Let_def
      split: option.splits sum.splits prod.splits if_splits)

lemma post_route:
  assumes "mutating (route_of m p) \<or> route_of m p = RLogin"
  shows "m = ''POST''"
proof (rule ccontr)
  assume "m \<noteq> ''POST''"
  moreover have "\<not> mutating (get_wildcard segs) \<and> get_wildcard segs \<noteq> RLogin" for segs
    by (auto simp: get_wildcard_def mutating_def split: list.splits)
  moreover have "\<not> mutating x \<and> x \<noteq> RLogin" if "map_of get_routes segs = Some x" for segs x
    using that by (auto simp: get_routes_def mutating_def split: if_splits)
  ultimately show False
    using assms by (auto simp: route_of_def Let_def mutating_def split: if_splits option.splits)
qed

lemma mutating_secured: "mutating x \<Longrightarrow> secured x \<noteq> None"
  by (cases x) (auto simp: mutating_def)

text \<open>Bodies that say nothing about the store.\<close>

definition bare :: "payload \<Rightarrow> bool" where
  "bare p \<longleftrightarrow> (case p of PAsset \<Rightarrow> True | PFailure _ _ \<Rightarrow> True | PAlive _ _ \<Rightarrow> True | _ \<Rightarrow> False)"

lemma bare_refuse [simp]: "bare (rs_Body (refuse e))"
  by (cases e) (simp_all add: bare_def json_response_def)

lemma body_simps [simp]:
  "rs_Body (json_response n p) = p" "rs_Body (with_header k v rs) = rs_Body rs"
  by (simp_all add: json_response_def with_header_def)

text \<open>Every request is a login, is harmless, or is answered by a handler on behalf of an actor.\<close>

lemma serve_cases:
  assumes "serve w r s = (s', rs)"
  obtains (harmless) "sv_Engine s' = sv_Engine s"
      "bare (rs_Body rs)"
  | (login) rs0 where "guard_checks (sv_Config s) r = None" "route_of (rq_Method r) (rq_Path r) = RLogin"
      "login w r s = (s', rs0)" "rs_Body rs = rs_Body rs0"
  | (handled) h a rs0 where "guard_checks (sv_Config s) r = None" "secured (route_of (rq_Method r) (rq_Path r)) = Some h"
      "identify w (sv_Config s) (AuthState (e_DB (sv_Engine s))) r = Inr a" "h w r a s = (s', rs0)" "rs_Body rs = rs_Body rs0"
proof (cases "guard_checks (sv_Config s) r")
  case (Some e)
  with assms show ?thesis by (intro harmless) (auto simp: serve_def guard_def simp del: refuse.simps)
next
  case None
  obtain rs0 where rs0: "serve_route w r s = (s', rs0)" and body: "rs_Body rs = rs_Body rs0"
    using assms None by (auto simp: serve_def guard_def split: prod.splits)
  define x where "x = route_of (rq_Method r) (rq_Path r)"
  show ?thesis
  proof (cases "secured x")
    case (Some h)
    then have auth: "serve_route w r s = authenticate h w r s"
      by (cases x) (simp_all add: serve_route_def x_def [symmetric])
    show ?thesis
    proof (cases "identify w (sv_Config s) (AuthState (e_DB (sv_Engine s))) r")
      case (Inl e)
      obtain l where l: "limited (w_now w) (rq_RemoteAddr r) s = (s', l)" "rs0 = (if l then rate_limited else refuse e)"
        using rs0 Inl unfolding auth by (auto simp: authenticate_def split: prod.splits if_splits)
      have "sv_Engine s' = sv_Engine s" using limited_frame(1) [of "w_now w" "rq_RemoteAddr r" s] l by simp
      moreover have "bare (rs_Body rs)"
        using l(2) body by (simp add: rate_limited_def del: refuse.simps)
      ultimately show ?thesis by (intro harmless) auto
    next
      case (Inr a)
      with rs0 auth have "h w r a s = (s', rs0)" by (simp add: authenticate_def)
      from handled [OF None Some [unfolded x_def] Inr this body] show ?thesis .
    qed
  next
    case no: None
    show ?thesis
    proof (cases "x = RLogin")
      case True
      with rs0 body None show ?thesis by (intro login) (auto simp: serve_route_def x_def)
    next
      case False
      with no have "serve_route w r s = live w r s \<or> serve_route w r s = browser w r s \<or>
          serve_route w r s = (s, json_response 301 PAsset)"
        by (cases x) (simp_all add: serve_route_def x_def [symmetric])
      with rs0 body show ?thesis
        by (intro harmless) (auto simp: live_def browser_def bare_def split: if_splits)
    qed
  qed
qed

text \<open>The credential behind an identified actor.\<close>

definition backed :: "ApiWorld \<Rightarrow> Request \<Rightarrow> Config \<Rightarrow> State \<Rightarrow> string \<Rightarrow> Credential \<Rightarrow> bool" where
  "backed w r c v k cr \<longleftrightarrow>
     (\<exists>tok. hdr r ''Authorization'' = ''Bearer '' @ tok \<and> w_V w tok = cr_Verifier cr) \<or>
     (\<exists>ck ses. BrowserSessionsEnabled c \<and> map_of (rq_Cookies r) (BrowserSessionCookieName c) = Some ck \<and>
        map_of (st_Sessions v) (w_V w ck) = Some ses \<and> se_CredentialID ses = k \<and>
        se_Purpose ses = BrowserSessionPurpose c \<and> w_now w \<le> se_ExpiresAt ses \<and>
        (rq_Method r \<in> {''GET'', ''HEAD''} \<or> hdr r ''Origin'' = sc_ExternalURL c \<and> hdr r ''X-CSRF-Token'' = se_CSRF ses))"

lemma HasPrefix_append: "HasPrefix s p \<longleftrightarrow> (\<exists>t. s = p @ t)"
  unfolding HasPrefix_def by (metis append_eq_conv_conj append_take_drop_id)

lemma identify_sound:
  assumes "identify w c v r = Inr a"
  obtains k cr where "(k, cr) \<in> set (st_Credentials v)" "a = actor_of cr" "\<not> cr_Revoked cr"
    "w_now w \<le> cr_ExpiresAt cr" "backed w r c v k cr"
proof (cases "hdr r ''Authorization'' = []")
  case False
  with assms have pre: "HasPrefix (hdr r ''Authorization'') ''Bearer ''"
    and b: "Bearer (w_V w) (w_now w) v (TrimPrefix (hdr r ''Authorization'') ''Bearer '') = Inr a"
    by (auto simp: identify_def Let_def split: if_splits)
  from pre obtain tok where tok: "hdr r ''Authorization'' = ''Bearer '' @ tok" by (auto simp: HasPrefix_append)
  then have "TrimPrefix (hdr r ''Authorization'') ''Bearer '' = tok"
    using pre by (simp add: TrimPrefix_def)
  with Bearer_sound [OF b] tok that show ?thesis by (auto simp: backed_def bearer_matches_def)
next
  case True
  with assms have "check_session w c v r = Inr a" by (simp add: identify_def)
  then obtain ck ses where enabled: "BrowserSessionsEnabled c"
    and cookie: "map_of (rq_Cookies r) (BrowserSessionCookieName c) = Some ck"
    and ses: "Session_of (w_V w) (w_now w) v ck (BrowserSessionPurpose c) = Inr (a, ses)"
    and csrf: "rq_Method r \<in> {''GET'', ''HEAD''} \<or> hdr r ''Origin'' = sc_ExternalURL c \<and> hdr r ''X-CSRF-Token'' = se_CSRF ses"
    by (auto simp: check_session_def split: if_splits option.splits sum.splits)
  from Session_of_sound [OF ses] obtain cr where "map_of (st_Credentials v) (se_CredentialID ses) = Some cr"
    "\<not> cr_Revoked cr" "w_now w \<le> cr_ExpiresAt cr" "a = actor_of cr" "map_of (st_Sessions v) (w_V w ck) = Some ses"
    "se_Purpose ses = BrowserSessionPurpose c" "w_now w \<le> se_ExpiresAt ses" by blast
  with enabled cookie csrf that [of "se_CredentialID ses" cr] show ?thesis
    unfolding backed_def by (blast dest: map_of_SomeD)
qed

lemma engine_db_neq: "e\<lparr>e_DB := d\<rparr> \<noteq> e \<Longrightarrow> d \<noteq> e_DB e"
  by auto

lemma login_change:
  assumes "login w r s = (s', rs)" and "sv_Engine s' \<noteq> sv_Engine s"
  obtains token a where "read_body w (min maxBody 4096) (w_Credential w) r = Inr token"
    "Bearer (w_V w) (w_now w) (AuthState (e_DB (sv_Engine s))) token = Inr a"
    "BrowserSessionsEnabled (sv_Config s)" "hdr r ''Origin'' = sc_ExternalURL (sv_Config s)"
proof -
  obtain s1 l where l: "limited (w_now w) (rq_RemoteAddr r) s = (s1, l)" by fastforce
  have s1: "sv_Engine s1 = sv_Engine s" using limited_frame(1) [of "w_now w" "rq_RemoteAddr r" s] l by simp
  from assms l s1 obtain token where guards: "BrowserSessionsEnabled (sv_Config s)" "hdr r ''Origin'' = sc_ExternalURL (sv_Config s)"
    and body: "read_body w (min maxBody 4096) (w_Credential w) r = Inr token"
    and changed: "fst (Login (w_V w) (w_now w) (e_DB (sv_Engine s)) token (BrowserSessionPurpose (sv_Config s)) (w_token w) (w_csrf w))
      \<noteq> e_DB (sv_Engine s)"
    by (auto simp: login_def Let_def reading_def with_store_def with_engine_def dest!: engine_db_neq split: if_splits sum.splits)
  from changed obtain a where "Bearer (w_V w) (w_now w) (AuthState (e_DB (sv_Engine s))) token = Inr a"
    by (auto simp: Login_def split: if_splits sum.splits)
  with guards body that show ?thesis by blast
qed

section \<open>Properties\<close>

text \<open>
  C19: the controller's state changes through the API only by a POST to an allowed host that no
  foreign page sent, with the secret of a credential that is neither revoked nor expired: its bearer
  token, a session of the server's own purpose with the origin and the CSRF token of that session,
  or the token presented to a login from the origin itself.
\<close>

theorem api_change_authorised:
  assumes "serve w r s = (s', rs)" and "sv_Engine s' \<noteq> sv_Engine s"
  shows "rq_Method r = ''POST'' \<and> (\<exists>h \<in> set (sc_AllowedHosts (sv_Config s)). EqualFold h (rq_Host r)) \<and>
    (hdr r ''Origin'' = [] \<or> hdr r ''Origin'' = sc_ExternalURL (sv_Config s)) \<and>
    hdr r ''Sec-Fetch-Site'' \<notin> {''cross-site'', ''same-site''} \<and>
    (\<exists>k cr. (k, cr) \<in> set (st_Credentials (db_state (e_DB (sv_Engine s)))) \<and> \<not> cr_Revoked cr \<and> w_now w \<le> cr_ExpiresAt cr \<and>
       (backed w r (sv_Config s) (db_state (e_DB (sv_Engine s))) k cr \<or>
        route_of (rq_Method r) (rq_Path r) = RLogin \<and> hdr r ''Origin'' = sc_ExternalURL (sv_Config s) \<and>
        (\<exists>tok. read_body w (min maxBody 4096) (w_Credential w) r = Inr tok \<and> w_V w tok = cr_Verifier cr)))"
proof -
  have guards: "(\<exists>h \<in> set (sc_AllowedHosts (sv_Config s)). EqualFold h (rq_Host r)) \<and>
      (hdr r ''Origin'' = [] \<or> hdr r ''Origin'' = sc_ExternalURL (sv_Config s)) \<and>
      hdr r ''Sec-Fetch-Site'' \<notin> {''cross-site'', ''same-site''}" if "guard_checks (sv_Config s) r = None"
    using that by (auto simp: guard_checks_def list_ex_iff)
  have creds: "st_Credentials (AuthState db) = st_Credentials (db_state db)" "st_Sessions (AuthState db) = st_Sessions (db_state db)"
    for db by (simp_all add: AuthState_def)
  from assms(1) show ?thesis
  proof (cases rule: serve_cases)
    case harmless
    with assms(2) show ?thesis by simp
  next
    case (login rs0)
    have "rq_Method r = ''POST''" using login(2) by (intro post_route [of _ "rq_Path r"]) simp
    moreover from login(3) assms(2) obtain tok a where tok: "read_body w (min maxBody 4096) (w_Credential w) r = Inr tok"
      "Bearer (w_V w) (w_now w) (AuthState (e_DB (sv_Engine s))) tok = Inr a" "hdr r ''Origin'' = sc_ExternalURL (sv_Config s)"
      by (rule login_change)
    moreover from Bearer_sound [OF tok(2)] obtain k cr where
      "(k, cr) \<in> set (st_Credentials (db_state (e_DB (sv_Engine s))))" "bearer_matches (w_V w) (w_now w) tok cr"
      by (auto simp: creds)
    ultimately show ?thesis
      using guards [OF login(1)] login(2) by (fastforce simp: bearer_matches_def)
  next
    case (handled h a rs0)
    have "mutating (route_of (rq_Method r) (rq_Path r))"
      using quiet_handler [OF handled(2), of w r a s] handled(4) assms(2) by auto
    then have "rq_Method r = ''POST''" by (intro post_route [of _ "rq_Path r"]) simp
    moreover from handled(3) obtain k cr where "(k, cr) \<in> set (st_Credentials (db_state (e_DB (sv_Engine s))))"
      "\<not> cr_Revoked cr" "w_now w \<le> cr_ExpiresAt cr" "backed w r (sv_Config s) (db_state (e_DB (sv_Engine s))) k cr"
      by (rule identify_sound) (auto simp: creds backed_def)
    ultimately show ?thesis using guards [OF handled(1)] by blast
  qed
qed

section \<open>What a role can change\<close>

text \<open>
  From \<open>v\<close> to \<open>v'\<close> the credentials stay, and a plan or an operation that is new or changed is one
  the role is allowed to request.
\<close>

definition permitted :: "string \<Rightarrow> State \<Rightarrow> State \<Rightarrow> bool" where
  "permitted role v v' \<longleftrightarrow> st_Credentials v' = st_Credentials v \<and>
     (\<forall>k p. map_of (st_Plans v') k = Some p \<longrightarrow> map_of (st_Plans v) k = Some p \<or> RoleAllows role (d_Action (p_Draft p))) \<and>
     (\<forall>k o1. map_of (st_Operations v') k = Some o1 \<longrightarrow>
        map_of (st_Operations v) k = Some o1 \<or> RoleAllows role (d_Action (o_Draft o1)))"

definition tables :: "State \<Rightarrow> bool" where
  "tables v \<longleftrightarrow> wf_map (st_Plans v) \<and> wf_map (st_Operations v)"

lemma permitted_refl [simp]: "permitted role v v"
  by (simp add: permitted_def)

lemma permitted_trans: "permitted role u v \<Longrightarrow> permitted role v v' \<Longrightarrow> permitted role u v'"
  unfolding permitted_def by metis

lemma tables_prune: "tables v \<Longrightarrow> tables (prune now v)"
  by (simp add: tables_def prune_def Let_def)

lemma permitted_prune: "tables v \<Longrightarrow> permitted role v (prune now v)"
  by (auto simp: permitted_def tables_def prune_def Let_def prune_operations_def gomap.retain_Some)

lemma permitted_commit: "tables v \<Longrightarrow> permitted role v (commit_state now v)"
  using permitted_prune [of v role now] by (simp add: permitted_def commit_state_def)

lemma permitted_Update:
  assumes "tables (db_state db)"
    and "\<And>v v' y. tables v \<Longrightarrow> fn v = Inr (v', y) \<Longrightarrow> tables v' \<and> permitted role v v'"
  shows "permitted role (db_state db) (db_state (fst (Update now fn db)))"
proof (cases rule: Update_cases [of db now fn])
  case (committed v r)
  note pruned = tables_prune [OF assms(1), of now]
  from assms(2) [OF pruned committed(2)] have v: "tables v" "permitted role (prune now (db_state db)) v" by simp_all
  have "permitted role (db_state db) (commit_state now v)"
    using permitted_prune [OF assms(1)] v(2) permitted_commit [OF v(1)] by (blast intro: permitted_trans)
  with committed show ?thesis by simp
qed simp_all

lemma tables_Event [simp]: "tables (Event now a b c d v) = tables v"
  by (simp add: tables_def)

lemma permitted_Event [simp]: "permitted role v (Event now a b c d v') = permitted role v v'"
  by (simp add: permitted_def)

lemma plan_txn_permitted:
  assumes "RoleAllows role (d_Action (p_Draft p))" and "tables v" and "plan_txn now a p v = Inr (v', y)"
  shows "tables v' \<and> permitted role v v'"
  using assms by (auto simp: plan_txn_def tables_def permitted_def split: if_splits)

lemma make_plan_draft [simp]: "p_Draft (make_plan H now i a d c pv) = d"
  by (simp add: make_plan_def Let_def)

lemma apply_guards_role:
  "apply_guards H now a target own depth p v = None \<Longrightarrow> RoleAllows (ac_Role a) (d_Action (p_Draft p))"
  by (simp add: apply_guards_def)

lemma apply_txn_permitted:
  assumes "tables v" and "apply_txn H now i a plan_id target key own depth v = Inr (v', y)"
  shows "tables v' \<and> permitted (ac_Role a) v v' \<and> RoleAllows (ac_Role a) (d_Action (o_Draft y))"
  using assms
  by (auto simp: apply_txn_def Let_def tables_def permitted_def new_operation_def dest!: apply_guards_role
      split: option.splits if_splits)

lemma cancel_txn_permitted:
  assumes "tables v" and "cancel_txn now a i n v = Inr (v', y)"
  shows "tables v' \<and> permitted (ac_Role a) v v'"
  using assms by (auto simp: cancel_txn_def Let_def tables_def permitted_def split: option.splits if_splits)

lemma login_txn_permitted:
  "tables v \<Longrightarrow> login_txn V now cred purpose tok csrf v = Inr (v', y) \<Longrightarrow> tables v' \<and> permitted role v v'"
  by (auto simp: login_txn_def Let_def tables_def permitted_def split: sum.splits if_splits)

lemma logout_txn_permitted: "tables v \<Longrightarrow> logout_txn w a ck v = Inr (v', y) \<Longrightarrow> tables v' \<and> permitted role v v'"
  by (auto simp: logout_txn_def tables_def permitted_def)

text \<open>The engine's requests on behalf of an actor.\<close>

abbreviation engine_state :: "Engine \<Rightarrow> State" where
  "engine_state e \<equiv> db_state (e_DB e)"

lemma CreatePlan_permitted:
  assumes "tables (engine_state e)"
  shows "permitted (ac_Role a) (engine_state e) (engine_state (fst (CreatePlan H ad now i a d e))) \<and>
    e_File (fst (CreatePlan H ad now i a d e)) = e_File e"
proof (cases "RoleAllows (ac_Role a) (d_Action d)")
  case True
  have "permitted (ac_Role a) (engine_state e)
      (db_state (fst (Update now (plan_txn now a (make_plan H now i a d c pv)) (e_DB e))))" for c pv
    using plan_txn_permitted [of "ac_Role a" "make_plan H now i a d c pv"] True
    by (intro permitted_Update assms) simp
  then show ?thesis
    by (auto simp: CreatePlan_def with_db_def split: sum.split option.split prod.split)
qed (simp add: CreatePlan_def)

lemma Apply_permitted:
  assumes "tables (engine_state e)"
  shows "permitted (ac_Role a) (engine_state e) (engine_state (fst (Apply H now i a plan_id target key e))) \<and>
    e_File (fst (Apply H now i a plan_id target key e)) = e_File e"
proof -
  have "permitted (ac_Role a) (engine_state e)
      (db_state (fst (Update now (apply_txn H now i a plan_id target key (e_Target e) (e_Depth e)) (e_DB e))))"
    by (intro permitted_Update assms) (blast dest: apply_txn_permitted)
  then show ?thesis by (auto simp: Apply_def with_db_def split: option.split)
qed

lemma Cancel_permitted:
  assumes "tables (engine_state e)"
  shows "permitted (ac_Role a) (engine_state e) (engine_state (fst (Cancel now a i n e))) \<and>
    e_File (fst (Cancel now a i n e)) = e_File e"
proof -
  have "permitted (ac_Role a) (engine_state e) (db_state (fst (Update now (cancel_txn now a i n) (e_DB e))))"
    by (intro permitted_Update assms) (rule cancel_txn_permitted)
  then show ?thesis by (auto simp: Cancel_def split: prod.split sum.split)
qed

lemma Login_permitted:
  assumes "tables (db_state db)"
  shows "permitted role (db_state db) (db_state (fst (Login V now db cred purpose tok csrf)))"
proof -
  have "permitted role (db_state db) (db_state (fst (Update now (login_txn V now cred purpose tok csrf) db)))"
    by (intro permitted_Update assms) (rule login_txn_permitted)
  then show ?thesis by (auto simp: Login_def split: sum.split)
qed

lemma handler_permitted:
  assumes "secured x = Some h" and "ac_Role a \<noteq> ''owner''" and "tables (engine_state (sv_Engine s))" and "h w r a s = (s', rs)"
  shows "permitted (ac_Role a) (engine_state (sv_Engine s)) (engine_state (sv_Engine s')) \<and>
    e_File (sv_Engine s') = e_File (sv_Engine s)"
proof -
  have logout: "permitted (ac_Role a) (engine_state (sv_Engine s))
      (db_state (fst (Update (w_now w) (logout_txn w a ck) (e_DB (sv_Engine s)))))" for ck
    by (intro permitted_Update assms(3)) (rule logout_txn_permitted)
  consider "\<not> mutating x" | "x = RLogout" | "x = RPlan" | "x = RApply" | i where "x = RCancel i" | i where "x = RRecover i"
    | "(\<exists>i. x = RRevoke i) \<or> x = RMemoryInspect \<or> x = RPerformanceInspect \<or> x = RMemoryAdvice"
    by (cases x) (auto simp: mutating_def)
  then show ?thesis
  proof cases
    case 1
    with quiet_handler [OF assms(1), of w r a s] assms(4) show ?thesis by simp
  next
    case 2
    with assms(1,4) logout show ?thesis
      by (auto simp: logout_def Let_def with_store_def with_engine_def split: option.splits)
  next
    case 3
    with assms(1,4) CreatePlan_permitted [OF assms(3)] show ?thesis
      by (auto simp: plan_def reading_def with_engine_def split: sum.splits)
  next
    case 4
    with assms(1,4) Apply_permitted [OF assms(3)] show ?thesis
      by (auto simp: apply_plan_def reading_def with_engine_def split: sum.splits)
  next
    case (5 i)
    with assms(1,4) Cancel_permitted [OF assms(3)] show ?thesis
      by (auto simp: cancel_def reading_def with_engine_def split: sum.splits)
  next
    case (6 i)
    with assms(1,2,4) show ?thesis by (auto simp: recover_def Recover_def reading_def with_engine_def split: sum.splits)
  next
    case 7
    with assms(1,2,4) show ?thesis
      by (auto simp: revoke_def memoryInspect_def performanceInspect_def memoryAdvice_def owned_def)
  qed
qed

lemma login_permitted:
  assumes "tables (engine_state (sv_Engine s))" and "login w r s = (s', rs)"
  shows "permitted role (engine_state (sv_Engine s)) (engine_state (sv_Engine s')) \<and> e_File (sv_Engine s') = e_File (sv_Engine s)"
proof -
  obtain s1 l where l: "limited (w_now w) (rq_RemoteAddr r) s = (s1, l)" by fastforce
  have s1: "sv_Engine s1 = sv_Engine s" using limited_frame(1) [of "w_now w" "rq_RemoteAddr r" s] l by simp
  from assms(2) Login_permitted [OF assms(1)] l s1 show ?thesis
    by (auto simp: login_def Let_def reading_def with_store_def with_engine_def split: if_splits sum.splits)
qed

text \<open>
  C20: a request made with a credential that is not the owner's cannot change a credential or the
  managed source, and every plan or operation it adds or changes is a profile switch or restore
  requested by an operator; a viewer adds and changes none.
\<close>

theorem non_owner_confined:
  assumes "serve w r s = (s', rs)" and "tables (db_state (e_DB (sv_Engine s)))"
    and "identify w (sv_Config s) (AuthState (e_DB (sv_Engine s))) r = Inr a" and "ac_Role a \<noteq> ''owner''"
  shows "st_Credentials (db_state (e_DB (sv_Engine s'))) = st_Credentials (db_state (e_DB (sv_Engine s))) \<and>
    e_File (sv_Engine s') = e_File (sv_Engine s) \<and>
    (\<forall>k o1. map_of (st_Operations (db_state (e_DB (sv_Engine s')))) k = Some o1 \<longrightarrow>
       map_of (st_Operations (db_state (e_DB (sv_Engine s)))) k = Some o1 \<or>
       ac_Role a = ''operator'' \<and> d_Action (o_Draft o1) \<in> {''profile.switch'', ''profile.restore''}) \<and>
    (\<forall>k p. map_of (st_Plans (db_state (e_DB (sv_Engine s')))) k = Some p \<longrightarrow>
       map_of (st_Plans (db_state (e_DB (sv_Engine s)))) k = Some p \<or>
       ac_Role a = ''operator'' \<and> d_Action (p_Draft p) \<in> {''profile.switch'', ''profile.restore''})"
proof -
  have "permitted (ac_Role a) (engine_state (sv_Engine s)) (engine_state (sv_Engine s')) \<and>
      e_File (sv_Engine s') = e_File (sv_Engine s)"
    using assms(1)
  proof (cases rule: serve_cases)
    case (handled h a' rs0)
    with assms(3,4) handler_permitted [OF handled(2) _ assms(2) handled(4)] show ?thesis by simp
  next
    case (login rs0)
    with login_permitted [OF assms(2) login(3)] show ?thesis by simp
  qed simp
  then show ?thesis using assms(4) unfolding permitted_def RoleAllows_def by simp
qed

section \<open>Who is shown evidence\<close>

text \<open>Bodies that are for the owner: evidence, its operations and plans, credentials, the audit trail.\<close>

fun restricted :: "payload \<Rightarrow> bool" where
  "restricted (POperation o1) = EvidenceAction (d_Action (o_Draft o1))"
| "restricted (PPlan q) = EvidenceAction (d_Action (p_Draft q))"
| "restricted (POperations os) = list_ex (\<lambda>o1. EvidenceAction (d_Action (o_Draft o1))) os"
| "restricted (PEvidence _) = True"
| "restricted (PSummary _) = True"
| "restricted (PArtifact _) = True"
| "restricted (PAdvice _ _) = True"
| "restricted (PCredentials _) = True"
| "restricted (PAudit _) = True"
| "restricted (PTelemetry _ _ _ _) = True"
| "restricted (PRevoked _) = True"
| "restricted _ = False"

lemma restricted_bare: "bare p \<Longrightarrow> \<not> restricted p"
  by (cases p) (auto simp: bare_def)

lemma not_restricted_refuse [simp]: "\<not> restricted (rs_Body (refuse e))"
  by (rule restricted_bare) simp

lemma evidence_role: "RoleAllows role action \<Longrightarrow> EvidenceAction action \<Longrightarrow> role = ''owner''"
  by (auto simp: RoleAllows_def EvidenceAction_def MemoryAction_def PerformanceAction_def split: if_splits)

lemma Update_outcome:
  assumes "snd (Update now fn db) = Inr y"
  obtains v where "fn (prune now (db_state db)) = Inr (v, y)" "db_state (fst (Update now fn db)) = commit_state now v"
  using db.committed [OF assms] by blast

lemma CreatePlan_result:
  assumes "snd (CreatePlan H ad now i a d e) = Inr p"
  shows "RoleAllows (ac_Role a) (d_Action (p_Draft p))"
proof -
  have made: "q = make_plan H now i a d c pv"
    if "snd (Update now (plan_txn now a (make_plan H now i a d c pv)) (e_DB e)) = Inr q" for c pv q
    using that by (auto elim!: Update_outcome simp: plan_txn_def split: if_splits)
  from assms have "RoleAllows (ac_Role a) (d_Action d)"
    by (simp add: CreatePlan_def split: if_splits)
  moreover from assms have "p_Draft p = d"
    by (auto simp: CreatePlan_def with_db_def dest!: made split: if_splits sum.splits option.splits prod.splits)
  ultimately show ?thesis by simp
qed

lemma Apply_result:
  assumes "tables (engine_state e)" and "snd (Apply H now i a plan_id target key e) = Inr op"
  shows "RoleAllows (ac_Role a) (d_Action (o_Draft op))"
proof -
  from assms(2) have "snd (Update now (apply_txn H now i a plan_id target key (e_Target e) (e_Depth e)) (e_DB e)) = Inr op"
    by (auto simp: Apply_def with_db_def split: option.splits if_splits)
  with apply_txn_permitted [OF tables_prune [OF assms(1)]] show ?thesis by (auto elim!: Update_outcome)
qed

lemma Cancel_result:
  assumes "tables (engine_state e)" and "snd (Cancel now a i n e) = Inr op"
  shows "RoleAllows (ac_Role a) (d_Action (o_Draft op))"
proof -
  let ?u = "Update now (cancel_txn now a i n) (e_DB e)"
  from assms(2) obtain y where y: "snd ?u = Inr y" and op: "map_of (st_Operations (db_state (fst ?u))) i = Some op"
    by (auto simp: Cancel_def Operation_of_def find_operation_def split: prod.splits sum.splits option.splits)
  from y obtain v where v: "cancel_txn now a i n (prune now (engine_state e)) = Inr (v, y)"
    and db: "db_state (fst ?u) = commit_state now v" by (rule Update_outcome)
  have "tables v" using cancel_txn_permitted [OF tables_prune [OF assms(1)] v] by simp
  then have "map_of (st_Operations v) i = Some op"
    using op by (simp add: db commit_state_def tables_def prune_operations_def Let_def gomap.retain_Some)
  with v show ?thesis
    by (auto simp: cancel_txn_def Let_def split: option.splits if_splits)
qed

lemma handler_restricted:
  assumes "secured x = Some h" and "ac_Role a \<noteq> ''owner''" and "tables (engine_state (sv_Engine s))"
  shows "\<not> restricted (rs_Body (snd (h w r a s)))"
proof -
  have plan: "\<not> restricted (rs_Body (snd (plan w r a s)))"
    using assms(2) evidence_role by (auto simp: plan_def reading_def with_engine_def simp del: refuse.simps
        dest!: CreatePlan_result split: sum.splits)
  have applied: "\<not> restricted (rs_Body (snd (apply_plan w r a s)))"
    using assms(2) evidence_role by (auto simp: apply_plan_def reading_def with_engine_def simp del: refuse.simps
        dest!: Apply_result [OF assms(3)] split: sum.splits)
  have cancel: "\<not> restricted (rs_Body (snd (cancel i w r a s)))" for i
    using assms(2) evidence_role by (auto simp: cancel_def reading_def with_engine_def simp del: refuse.simps
        dest!: Cancel_result [OF assms(3)] split: sum.splits)
  show ?thesis
    using assms(1,2) plan applied cancel
    by (cases x) (auto simp: session_def logout_def inventory_def profiles_def configuration_def getPlan_def operation_list_def
        operation_def recover_def export_def credentials_def revoke_def audit_def memoryEvidence_def memoryPreview_def
        memoryArtifact_def memoryInspect_def performancePreview_def performanceArtifact_def performanceInspect_def
        telemetrySummary_def memoryAdvice_def Recover_def owned_def reading_def with_store_def with_engine_def Let_def
        logged_out_def list_ex_iff simp del: refuse.simps split: option.splits sum.splits if_splits)
qed

text \<open>
  C33: evidence, the operations and plans on it, credentials, the audit trail and the telemetry
  summary are shown only to a request that carries an owner's credential.
\<close>

theorem evidence_for_owner_only:
  assumes "serve w r s = (s', rs)" and "tables (db_state (e_DB (sv_Engine s)))" and "restricted (rs_Body rs)"
  shows "\<exists>a. identify w (sv_Config s) (AuthState (e_DB (sv_Engine s))) r = Inr a \<and> ac_Role a = ''owner''"
  using assms(1)
proof (cases rule: serve_cases)
  case harmless
  with assms(3) restricted_bare show ?thesis by blast
next
  case (login rs0)
  then have "rs_Body rs = rs_Body (snd (Surface.login w r s))" by simp
  moreover have "\<not> restricted (rs_Body (snd (Surface.login w r s)))"
    by (simp add: login_def Let_def reading_def with_store_def with_engine_def rate_limited_def case_prod_beta
        del: refuse.simps split: sum.split)
  ultimately show ?thesis using assms(3) by simp
next
  case (handled h a rs0)
  with handler_restricted [OF handled(2) _ assms(2), of a w r] assms(3) show ?thesis by auto
qed

section \<open>The limit on failed attempts\<close>

text \<open>
  What a counter with limit \<open>L\<close> can still admit at time \<open>t\<close> of a span that began at \<open>t0\<close> and is at most
  a minute long: a window that began inside the span does not end in it, one that began before can
  end once.
\<close>

definition allowance :: "int \<Rightarrow> time \<Rightarrow> time \<Rightarrow> Attempt \<Rightarrow> int" where
  "allowance L t0 t a =
     (if t - at_start a > minute then L
      else if at_start a \<ge> t0 then max 0 (L - at_n a) else max 0 (L - at_n a) + L)"

lemma allowance_later:
  "0 \<le> L \<Longrightarrow> t \<le> t' \<Longrightarrow> t' \<le> t0 + minute \<Longrightarrow> allowance L t0 t' a \<le> allowance L t0 t a"
  by (auto simp: allowance_def)

lemma minute_pos [simp]: "0 < minute" "\<not> minute < 0"
  by (simp_all add: time_units)

lemma allowance_counted:
  "1 \<le> L \<Longrightarrow> t0 \<le> t \<Longrightarrow> allowance L t0 t (count_attempt t a) + (if at_n (count_attempt t a) \<le> L then 1 else 0) \<le> allowance L t0 t a"
  by (auto simp: allowance_def count_attempt_def Let_def)

lemma allowance_bounds: "1 \<le> L \<Longrightarrow> 0 \<le> at_n a \<Longrightarrow> allowance L t0 t a \<le> 2 * L"
  by (simp add: allowance_def)

lemma allowance_nonneg: "0 \<le> L \<Longrightarrow> 0 \<le> allowance L t0 t a"
  by (simp add: allowance_def)

definition entry :: "Server \<Rightarrow> string \<Rightarrow> Attempt" where
  "entry s ip = (case map_of (sv_attempts s) ip of Some a \<Rightarrow> a | None \<Rightarrow> zero_attempt)"

lemma limited_global:
  "sv_global (fst (limited t addr s)) = count_attempt t (sv_global s)"
  "\<not> snd (limited t addr s) \<Longrightarrow> at_n (count_attempt t (sv_global s)) \<le> 120"
  by (auto simp: limited_def Let_def split: if_splits)

lemma wf_evict [simp]: "wf_map m \<Longrightarrow> wf_map (evict t m)"
  by (simp add: evict_def)

lemma limited_wf: "wf_map (sv_attempts s) \<Longrightarrow> wf_map (sv_attempts (fst (limited t addr s)))"
  by (simp add: limited_def Let_def)

lemma limited_cases:
  obtains (full) "sv_attempts (fst (limited t addr s)) = sv_attempts s" "snd (limited t addr s)"
  | (crowded) "sv_attempts (fst (limited t addr s)) = evict t (sv_attempts s)" "snd (limited t addr s)"
  | (counted) "map_of (evict t (sv_attempts s)) (remote_ip addr) \<noteq> None \<or> length (evict t (sv_attempts s)) < 256"
      "sv_attempts (fst (limited t addr s))
         = AList.update (remote_ip addr) (count_attempt t (entry s (remote_ip addr))) (evict t (sv_attempts s))"
      "snd (limited t addr s) = (at_n (count_attempt t (entry s (remote_ip addr))) > 12)"
proof (cases "at_n (count_attempt t (sv_global s)) > 120")
  case True
  then show ?thesis by (intro full) (simp_all add: limited_def Let_def)
next
  case False
  show ?thesis
  proof (cases "length (sv_attempts s) \<ge> 256 \<and> map_of (evict t (sv_attempts s)) (remote_ip addr) = None \<and>
      length (evict t (sv_attempts s)) \<ge> 256")
    case True
    with False show ?thesis by (intro crowded) (simp_all add: limited_def Let_def)
  next
    case ok: False
    then have "map_of (evict t (sv_attempts s)) (remote_ip addr) \<noteq> None \<or> length (evict t (sv_attempts s)) < 256"
      by (auto simp: evict_def)
    moreover have "limited t addr s = (s\<lparr>sv_global := count_attempt t (sv_global s),
        sv_attempts := AList.update (remote_ip addr) (count_attempt t (entry s (remote_ip addr))) (evict t (sv_attempts s))\<rparr>,
        at_n (count_attempt t (entry s (remote_ip addr))) > 12)"
      using False ok unfolding limited_def Let_def entry_def by auto
    ultimately show ?thesis by (intro counted) simp_all
  qed
qed

text \<open>The table of addresses is bounded, and an eviction removes only windows that have passed.\<close>

lemma limited_table:
  assumes "length (sv_attempts s) \<le> 256"
  shows "length (sv_attempts (fst (limited t addr s))) \<le> 256"
proof -
  have "length (evict t (sv_attempts s)) \<le> 256"
    using length_sift [of _ "sv_attempts s"] assms by (auto simp: evict_def intro: order_trans)
  then show ?thesis
    by (cases rule: limited_cases [of t addr s])
      (auto simp: assms length_update dest: map_of_in_keys)
qed

lemma evict_allowance:
  assumes "wf_map (sv_attempts s)" and "t - zero_time > minute"
  shows "allowance 12 t0 t (case map_of (evict t (sv_attempts s)) ip of Some a \<Rightarrow> a | None \<Rightarrow> zero_attempt)
    = allowance 12 t0 t (entry s ip)"
proof -
  have "allowance 12 t0 t zero_attempt = 12" using assms(2) by (simp add: allowance_def zero_attempt_def)
  moreover have "allowance 12 t0 t a = 12" if "t - at_start a > minute" for a using that by (simp add: allowance_def)
  ultimately show ?thesis
    using assms(1) by (auto simp: evict_def entry_def map_of_sift split: option.splits if_splits)
qed

lemma limited_entry:
  assumes "wf_map (sv_attempts s)" and "t - zero_time > minute" and "t0 \<le> t"
  shows "allowance 12 t0 t (entry (fst (limited t addr s)) ip) +
    (if \<not> snd (limited t addr s) \<and> remote_ip addr = ip then 1 else 0) \<le> allowance 12 t0 t (entry s ip)"
proof (cases rule: limited_cases [of t addr s])
  case full
  then show ?thesis by (simp add: entry_def)
next
  case crowded
  with evict_allowance [OF assms(1,2), of t0 ip] show ?thesis by (simp add: entry_def)
next
  case counted
  have "allowance 12 t0 t (count_attempt t (entry s ip)) + (if at_n (count_attempt t (entry s ip)) \<le> 12 then 1 else 0)
      \<le> allowance 12 t0 t (entry s ip)"
    using allowance_counted [of 12 t0 t "entry s ip"] assms(3) by simp
  moreover have "entry (fst (limited t addr s)) ip = (if remote_ip addr = ip then count_attempt t (entry s ip)
      else case map_of (evict t (sv_attempts s)) ip of Some a \<Rightarrow> a | None \<Rightarrow> zero_attempt)"
    using counted(2) by (auto simp: entry_def [of "fst (limited t addr s)"])
  ultimately show ?thesis
    using counted(3) evict_allowance [OF assms(1,2), of t0 ip] by (auto split: if_splits)
qed

text \<open>A sequence of attempts, and how many of those that satisfy a test are admitted.\<close>

fun admitted :: "(string \<Rightarrow> bool) \<Rightarrow> (time \<times> string) list \<Rightarrow> Server \<Rightarrow> int" where
  "admitted P [] s = 0"
| "admitted P ((t, addr) # calls) s =
     (let (s', l) = limited t addr s in (if \<not> l \<and> P addr then 1 else 0) + admitted P calls s')"

lemma admitted_address:
  assumes "sorted (t # map fst calls)" and "\<forall>c \<in> set calls. fst c \<le> t0 + minute" and "t0 \<le> t"
    and "wf_map (sv_attempts s)" and "t0 - zero_time > minute"
  shows "admitted (\<lambda>addr. remote_ip addr = ip) calls s \<le> allowance 12 t0 t (entry s ip)"
  using assms(1-4)
proof (induction calls arbitrary: s t)
  case Nil
  then show ?case by (simp add: allowance_nonneg)
next
  case (Cons c calls)
  obtain t1 addr where c: "c = (t1, addr)" by fastforce
  obtain s' l where sl: "limited t1 addr s = (s', l)" by fastforce
  have t1: "t \<le> t1" "t1 \<le> t0 + minute" "t0 \<le> t1" "t1 - zero_time > minute"
    using Cons.prems assms(5) c by auto
  have "wf_map (sv_attempts s')" using limited_wf [OF Cons.prems(4), of t1 addr] sl by simp
  then have "admitted (\<lambda>addr. remote_ip addr = ip) calls s' \<le> allowance 12 t0 t1 (entry s' ip)"
    using Cons.prems c t1 by (intro Cons.IH) auto
  moreover have "allowance 12 t0 t1 (entry s' ip) + (if \<not> l \<and> remote_ip addr = ip then 1 else 0) \<le> allowance 12 t0 t1 (entry s ip)"
    using limited_entry [OF Cons.prems(4) t1(4,3), of addr ip] sl by simp
  moreover have "allowance 12 t0 t1 (entry s ip) \<le> allowance 12 t0 t (entry s ip)"
    using t1 by (intro allowance_later) auto
  ultimately show ?case by (simp add: c sl)
qed

lemma admitted_global:
  assumes "sorted (t # map fst calls)" and "\<forall>c \<in> set calls. fst c \<le> t0 + minute" and "t0 \<le> t"
  shows "admitted P calls s \<le> allowance 120 t0 t (sv_global s)"
  using assms
proof (induction calls arbitrary: s t)
  case Nil
  then show ?case by (simp add: allowance_nonneg)
next
  case (Cons c calls)
  obtain t1 addr where c: "c = (t1, addr)" by fastforce
  obtain s' l where sl: "limited t1 addr s = (s', l)" by fastforce
  have t1: "t \<le> t1" "t1 \<le> t0 + minute" "t0 \<le> t1" using Cons.prems c by auto
  have g: "sv_global s' = count_attempt t1 (sv_global s)" "\<not> l \<Longrightarrow> at_n (count_attempt t1 (sv_global s)) \<le> 120"
    using limited_global [of t1 addr s] sl by simp_all
  have "admitted P calls s' \<le> allowance 120 t0 t1 (sv_global s')"
    using Cons.prems c t1 by (intro Cons.IH) auto
  moreover have "allowance 120 t0 t1 (sv_global s') + (if \<not> l \<and> P addr then 1 else 0) \<le> allowance 120 t0 t1 (sv_global s)"
    using allowance_counted [of 120 t0 t1 "sv_global s"] t1 g by (auto split: if_splits)
  moreover have "allowance 120 t0 t1 (sv_global s) \<le> allowance 120 t0 t (sv_global s)"
    using t1 by (intro allowance_later) auto
  ultimately show ?case by (simp add: c sl)
qed

text \<open>
  C29: within any minute at most 24 attempts of one address and at most 240 attempts in all are
  answered, whatever the table held before: a fixed window that began before the minute can end
  in it once, and forgetting an address does not give it a second window.
\<close>

theorem attempts_bounded:
  assumes "sorted (map fst calls)" and "\<forall>c \<in> set calls. t0 \<le> fst c \<and> fst c \<le> t0 + minute"
    and "wf_map (sv_attempts s)" and "\<forall>(k, a) \<in> set (sv_attempts s). 0 \<le> at_n a" and "0 \<le> at_n (sv_global s)"
    and "t0 - zero_time > minute"
  shows "admitted (\<lambda>addr. remote_ip addr = ip) calls s \<le> 24 \<and> admitted (\<lambda>_. True) calls s \<le> 240"
proof
  have sorted: "sorted (t0 # map fst calls)" "\<forall>c \<in> set calls. fst c \<le> t0 + minute" using assms(1,2) by auto
  have "0 \<le> at_n (entry s ip)"
    using assms(4) by (auto simp: entry_def zero_attempt_def dest!: map_of_SomeD split: option.split)
  then have "allowance 12 t0 t0 (entry s ip) \<le> 24" using allowance_bounds [of 12 "entry s ip"] by simp
  with admitted_address [OF sorted order_refl assms(3,6), of ip]
  show "admitted (\<lambda>addr. remote_ip addr = ip) calls s \<le> 24" by simp
  have "allowance 120 t0 t0 (sv_global s) \<le> 240" using allowance_bounds [of 120 "sv_global s"] assms(5) by simp
  with admitted_global [OF sorted order_refl, of "\<lambda>_. True" s] show "admitted (\<lambda>_. True) calls s \<le> 240" by simp
qed

section \<open>The tag of an operation\<close>

lemma trim_quoted:
  assumes "list_all is_digit ds" and "ds \<noteq> []"
  shows "trim_quotes (quoted ds) = ds"
proof -
  have q: "\<not> is_digit CHR 0x22" by (simp add: is_digit_def)
  then have drop: "dropWhile (\<lambda>c. c = CHR 0x22) (xs @ ys) = xs @ ys" if "list_all is_digit xs" "xs \<noteq> []" for xs ys
    using that by (cases xs) auto
  show ?thesis
    using drop [OF assms, of "[CHR 0x22]"] drop [of "List.rev ds" "[]"] assms by (simp add: trim_quotes_def quoted_def list_all_rev)
qed

text \<open>
  C27: the tag under which an operation is shown is what a cancellation has to present: read back
  from the \<open>If-Match\<close> header it is the operation's revision.
\<close>

theorem operation_tag_round_trip:
  assumes "Operation_of (sv_Engine s) i = Inr o1" and "o_Revision o1 \<noteq> 0"
    and "(''ETag'', tag) \<in> set (rs_Header (snd (operation i w r a s)))"
  shows "observed_revision tag = Inr (o_Revision o1)"
proof -
  have "rs_Header (refuse e) = [(''Content-Type'', ''application/json'')]" for e
    by (cases e) (simp_all add: json_response_def)
  then have tag: "tag = quoted (FormatUint (o_Revision o1))"
    using assms(1,3) by (auto simp: operation_def with_header_def json_response_def owned_def simp del: refuse.simps split: if_splits)
  have "list_all is_digit (FormatUint (o_Revision o1))" "FormatUint (o_Revision o1) \<noteq> []"
    using decimal_digits [of "uint (o_Revision o1)"] decimal_head [of "uint (o_Revision o1)"] by (auto simp: FormatUint_def)
  from trim_quoted [OF this] assms(2) show ?thesis
    by (simp add: tag observed_revision_def parse_FormatUint) (simp add: quoted_def)
qed

section \<open>An example\<close>

definition ex_api_world :: ApiWorld where
  "ex_api_world = \<lparr>w_H = (\<lambda>_. ''h''), w_V = (\<lambda>_. ''v''), w_now = minute, w_id = ''id1'', w_plan_id = ''id2'', w_token = ''t'', w_csrf = ''c'',
     w_Adapter = \<lparr>ad_Snapshot = Inr zero_inventory, ad_Validate = (\<lambda>_ _. Inr zero_preview), ad_Inspect = (\<lambda>_. Inl (Plain ''e'')),
       ad_Execute = (\<lambda>_. ([], mk_result ''failed'' [] [] False, None))\<rparr>,
     w_Tokens = (\<lambda>_. tokens_of (JObj [])), w_Draft = (\<lambda>_. None), w_Credential = (\<lambda>_. None), w_ApplyRequest = (\<lambda>_. None),
     w_Empty = (\<lambda>_. Some ((), True)), w_OperationRequest = (\<lambda>_. None), w_ArtifactRequest = (\<lambda>_. None),
     w_MemoryRequest = (\<lambda>_. None), w_Summary = (\<lambda>_. None), w_Export = (\<lambda>_. Inl (Plain ''e'')), w_MemoryPreview = None,
     w_MemoryArtifact = (\<lambda>_ _. Inl (Plain ''e'')), w_PerformancePreview = None,
     w_PerformanceArtifact = (\<lambda>_ _. Inl (Plain ''e'')), w_Backend = JNull, w_Advisor = None\<rparr>"

definition ex_api_server :: "string \<Rightarrow> Server" where
  "ex_api_server role = new_server ex_service_policy
     \<lparr>e_DB = ex_auth_db\<lparr>db_state := (NewState ''live'')\<lparr>st_Credentials := [(''c1'', ex_credential\<lparr>cr_Role := role\<rparr>)],
          st_Operations := [(''o1'', zero_operation\<lparr>o_ID := ''o1'', o_Revision := 7\<rparr>)]\<rparr>\<rparr>,
      e_File = Missing, e_Target = ''ws'', e_Depth = 4, e_stopped = False\<rparr>"

definition ex_api_request :: "string \<Rightarrow> string \<Rightarrow> Request" where
  "ex_api_request meth path = \<lparr>rq_Method = meth, rq_Path = path, rq_Query = False, rq_Host = ''B.lan:8443'', rq_RemoteAddr = ''10.0.0.9:1'',
     rq_Header = [(''Authorization'', ''Bearer '' @ replicate 43 CHR ''t''), (''Content-Type'', ''application/json'')], rq_Cookies = [],
     rq_Body = ''{}''\<rparr>"

abbreviation ex_revocation :: "string \<Rightarrow> Server \<times> Response" where
  "ex_revocation role \<equiv> serve ex_api_world (ex_api_request ''POST'' ''/api/v1/credentials/c1/revoke'') (ex_api_server role)"

lemma ex_revocation_runs:
  "map (cr_Revoked \<circ> snd) (st_Credentials (db_state (e_DB (sv_Engine (fst (ex_revocation ''owner'')))))) = [True]"
  "map (cr_Revoked \<circ> snd) (st_Credentials (db_state (e_DB (sv_Engine (ex_api_server role))))) = [False]"
  "rs_Status (snd (ex_revocation ''viewer'')) = 403"
  by code_simp+

theorem api_change_authorised_witness:
  "\<exists>k cr. (k, cr) \<in> set (st_Credentials (db_state (e_DB (sv_Engine (ex_api_server ''owner''))))) \<and> \<not> cr_Revoked cr \<and>
     rq_Method (ex_api_request ''POST'' ''/api/v1/credentials/c1/revoke'') = ''POST''"
proof -
  have r: "ex_revocation ''owner'' = (fst (ex_revocation ''owner''), snd (ex_revocation ''owner''))" by simp
  have "sv_Engine (fst (ex_revocation ''owner'')) \<noteq> sv_Engine (ex_api_server ''owner'')"
    using ex_revocation_runs(1) ex_revocation_runs(2) [of "''owner''"] by (metis list.inject)
  from api_change_authorised [OF r this] show ?thesis by blast
qed

lemma ex_viewer:
  "identify ex_api_world (sv_Config (ex_api_server role)) (AuthState (e_DB (sv_Engine (ex_api_server role))))
     (ex_api_request meth path) = Inr (actor_of (ex_credential\<lparr>cr_Role := role\<rparr>))"
  "tables (db_state (e_DB (sv_Engine (ex_api_server role))))"
  by (simp_all add: identify_def Let_def ex_api_request_def hdr_def HasPrefix_def TrimPrefix_def ex_api_world_def Bearer_def
      AuthState_def ex_api_server_def new_server_def NewState_def bearer_matches_def ex_credential_def time_units tables_def)

theorem non_owner_confined_witness:
  "st_Credentials (db_state (e_DB (sv_Engine (fst (ex_revocation ''viewer'')))))
     = [(''c1'', ex_credential\<lparr>cr_Role := ''viewer''\<rparr>)]"
proof -
  have r: "ex_revocation ''viewer'' = (fst (ex_revocation ''viewer''), snd (ex_revocation ''viewer''))" by simp
  have "ac_Role (actor_of (ex_credential\<lparr>cr_Role := ''viewer''\<rparr>)) \<noteq> ''owner''" by (simp add: actor_of_def)
  from non_owner_confined [OF r ex_viewer(2) ex_viewer(1) this] show ?thesis
    by (simp add: ex_api_server_def new_server_def)
qed

abbreviation ex_audit :: "string \<Rightarrow> Server \<times> Response" where
  "ex_audit role \<equiv> serve ex_api_world (ex_api_request ''GET'' ''/api/v1/audit'') (ex_api_server role)"

lemma ex_audit_body: "restricted (rs_Body (snd (ex_audit ''owner'')))"
  by code_simp

theorem evidence_for_owner_only_witness:
  "\<exists>a. identify ex_api_world (sv_Config (ex_api_server ''owner'')) (AuthState (e_DB (sv_Engine (ex_api_server ''owner''))))
     (ex_api_request ''GET'' ''/api/v1/audit'') = Inr a \<and> ac_Role a = ''owner''"
proof -
  have r: "ex_audit ''owner'' = (fst (ex_audit ''owner''), snd (ex_audit ''owner''))" by simp
  from evidence_for_owner_only [OF r ex_viewer(2) ex_audit_body] show ?thesis .
qed

text \<open>Thirteen attempts of one address in a second.\<close>

definition ex_calls_13 :: "(time \<times> string) list" where
  "ex_calls_13 = replicate 13 (second, ''10.0.0.9:1'')"

theorem attempts_bounded_witness:
  "admitted (\<lambda>addr. remote_ip addr = ''10.0.0.9'') ex_calls_13 (ex_api_server ''owner'') \<le> 24 \<and>
   admitted (\<lambda>_. True) ex_calls_13 (ex_api_server ''owner'') \<le> 240"
  by (rule attempts_bounded [of ex_calls_13 0])
    (auto simp: ex_calls_13_def ex_api_server_def new_server_def zero_attempt_def time_units zero_time_def)

lemma ex_thirteenth_refused:
  "admitted (\<lambda>addr. remote_ip addr = ''10.0.0.9'') ex_calls_13 (ex_api_server ''owner'') = 12"
  by code_simp

theorem operation_tag_round_trip_witness:
  "observed_revision (quoted ''7'') = Inr 7"
proof -
  let ?op = "zero_operation\<lparr>o_ID := ''o1'', o_Revision := 7\<rparr>"
  have o1: "Operation_of (sv_Engine (ex_api_server ''owner'')) ''o1'' = Inr ?op"
    by (simp add: Operation_of_def find_operation_def ex_api_server_def new_server_def NewState_def)
  have tag: "(''ETag'', quoted ''7'') \<in> set (rs_Header (snd (operation ''o1'' ex_api_world (ex_api_request ''GET'' []) undefined (ex_api_server ''owner''))))"
    by code_simp
  from operation_tag_round_trip [OF o1 _ tag] show ?thesis by simp
qed

text \<open>
  The scheme of a parsed origin is in lower case, the prefix that decides the cookie's \<open>Secure\<close>
  attribute is compared as written: a live policy with browser sessions on an origin spelt \<open>HTTPS:\<close>
  is valid, and its session cookie is not marked secure.
\<close>

definition shouting_policy :: Config where
  "shouting_policy = ex_service_policy\<lparr>sc_ExternalURL := ''HTTPS://b.lan:8443''\<rparr>"

definition folding_env :: ConfigEnv where
  "folding_env = ex_env\<lparr>ce_URL := (\<lambda>s. if EqualFold s ''https://b.lan:8443'' then ce_URL ex_env ''https://b.lan:8443'' else None)\<rparr>"

lemma shouting_policy_valid: "config_Validate folding_env shouting_policy = None" "BrowserSessionsEnabled shouting_policy"
  by code_simp+

lemma shouting_policy_cookie: "\<not> ck_Secure (sessionCookie shouting_policy now tok expires)"
  by (simp add: sessionCookie_def secure_origin_def shouting_policy_def HasPrefix_def)

end
