(* ===== verification/Live.thy ===== *)
theory Live
  imports Engine HostServer Worker SafeFile
begin

text \<open>
  The live adapter, the part of \<open>internal/adapters/adapter.go\<close> that carries an operation to the
  root helper, to the build worker or to the local model store, with the two socket clients it
  uses. Before anything is sent, a dispatch record of the execution is written; a second call for
  the same identity only inspects.

  The other sides of the sockets, the model store, the progress callback and the caller's context
  are functions on a state \<open>'s\<close> of the outside, so every interleaving with it is covered. The
  polling loops wait for somebody else and need not end: they are partial functions, \<open>None\<close> standing
  for a call that does not return. Decoding a memory or performance summary (and the bounds of
  \<open>performance.ValidateSummary\<close>) is an argument; what the adapter checks of it is not.
\<close>

section \<open>The clients of the two executors\<close>

text \<open>What comes back over a socket: nothing, a body that does not decode, or a status and a body.\<close>

datatype 'r answer = Unreachable | Undecodable 'r | Answered int 'r

definition zero_host_result :: HostResult where
  "zero_host_result = \<lparr>hr_ID = [], hr_State = [], hr_Phase = [], hr_Message = [], hr_Data = []\<rparr>"

definition zero_result :: Result where
  "zero_result = mk_result [] [] [] False"

definition msg_no_socket :: string where "msg_no_socket = ''host executor socket is not configured''"
definition msg_host_unavailable :: string where
  "msg_host_unavailable = ''host executor is unavailable; inspect its local service and recovery journal''"
definition msg_host_response :: string where "msg_host_response = ''invalid host executor response''"
definition msg_operation_id :: string where "msg_operation_id = ''invalid operation ID''"
definition msg_worker_unavailable :: string where "msg_worker_unavailable = ''dedicated build worker unavailable''"
definition msg_worker_response :: string where "msg_worker_response = ''unexpected end of JSON input''"

definition host_call :: "bool \<Rightarrow> HostResult answer \<Rightarrow> HostResult \<times> err option" where
  "host_call socket ans =
     (if \<not> socket then (zero_host_result, Some (Plain msg_no_socket))
      else case ans of
             Unreachable \<Rightarrow> (zero_host_result, Some (Plain msg_host_unavailable))
           | Undecodable r \<Rightarrow> (r, Some (Plain msg_host_response))
           | Answered code r \<Rightarrow>
               if code \<ge> 400 then (r, Some (Plain (''host executor: '' @ hr_Message r))) else (r, None))"

text \<open>The worker's client; a refused submission is a failed result, a refused status query is none.\<close>

definition worker_refused :: "int \<Rightarrow> err" where
  "worker_refused code = Plain (''build worker refused request (HTTP '' @ Itoa code @ '')'')"

definition worker_call :: "bool \<Rightarrow> Result answer \<Rightarrow> Result \<times> err option" where
  "worker_call submission ans =
     (case ans of
        Unreachable \<Rightarrow> (zero_result, Some (Plain msg_worker_unavailable))
      | Undecodable r \<Rightarrow> (r, Some (Plain msg_worker_response))
      | Answered code r \<Rightarrow>
          if code \<noteq> 200 \<and> code \<noteq> 202
          then (if submission then mk_result ''failed'' ''executor-refused'' (err_message (worker_refused code)) False
                else zero_result, Some (worker_refused code))
          else (r, None))"

section \<open>The adapter\<close>

record LiveOptions =
  lo_Target :: string
  lo_Environment :: string
  lo_ReferenceRoot :: string
  lo_StateDir :: string
  lo_SourcePath :: string
  lo_HostSocket :: string
  lo_WorkerSocket :: string

record dispatch =
  di_Kind :: string
  di_Hash :: string
  di_Result :: Result
  di_Action :: string
  di_SourceRevision :: string

text \<open>A dispatch record as it is found on disk.\<close>

datatype record_file = NoRecord | UnreadableRecord err | CorruptRecord | Recorded dispatch

text \<open>What is handed to an executor.\<close>

datatype sent = ToHost HostRequest | ToWorker WorkerRequest | ToStager string string | ToBudget int

text \<open>What is read of a decoded summary, with its bytes when it is encoded again.\<close>

record EvidenceSummary =
  es_Artifacts :: "Artifact list"
  es_Status :: string
  es_Bytes :: string

text \<open>
  The outside. \<open>lx_Wait\<close> is the pause of a polling loop, true when the caller's context ended it.
\<close>

record 's Outside =
  lx_Reference :: "'s \<Rightarrow> err + string"
  lx_Source :: "'s \<Rightarrow> err + Configuration"
  lx_HostPost :: "HostRequest \<Rightarrow> 's \<Rightarrow> 's \<times> HostResult answer"
  lx_HostGet :: "string \<Rightarrow> 's \<Rightarrow> 's \<times> HostResult answer"
  lx_WorkerPost :: "WorkerRequest \<Rightarrow> 's \<Rightarrow> 's \<times> Result answer"
  lx_WorkerGet :: "string \<Rightarrow> 's \<Rightarrow> 's \<times> Result answer"
  lx_WorkerCancel :: "string \<Rightarrow> 's \<Rightarrow> 's"
  lx_Progress :: "Progress \<Rightarrow> 's \<Rightarrow> 's \<times> err option"
  lx_Wait :: "'s \<Rightarrow> 's \<times> bool"
  lx_Stager :: bool
  lx_FindModel :: "string \<Rightarrow> err option"
  lx_Stage :: "string \<Rightarrow> 's \<Rightarrow> 's \<times> (err + Artifact list)"
  lx_Verify :: "string \<Rightarrow> 's \<Rightarrow> 's \<times> (err + Artifact list)"
  lx_VerifyContent :: "string \<Rightarrow> 's \<Rightarrow> 's \<times> (err + Artifact list)"
  lx_Present :: "string \<Rightarrow> 's \<Rightarrow> err + bool"
  lx_Budget :: "int \<Rightarrow> 's \<Rightarrow> 's"
  lx_Memory :: "string \<Rightarrow> err + EvidenceSummary"
  lx_Performance :: "string \<Rightarrow> err + EvidenceSummary"
  lx_Object :: "string \<Rightarrow> string gomap option"
  lx_ValidJSON :: "string \<Rightarrow> bool"
  lx_Bytes :: "string \<Rightarrow> string"
  lx_Write :: "dispatch \<Rightarrow> 's \<Rightarrow> write_outcome"

record 's Live =
  li_Options :: LiveOptions
  li_Records :: "record_file gomap"
  li_active :: "string list"
  li_Outside :: 's

definition msg_live_environment :: string where
  "msg_live_environment = ''live target requires explicit dev, tst or int classification''"
definition msg_live_paths :: string where
  "msg_live_paths = ''explicit live adapter paths and target are required''"
definition msg_reference_drift :: string where
  "msg_reference_drift = ''reference source changed after planning; nothing was dispatched''"
definition msg_reference_changed :: string where "msg_reference_changed = ''reference source changed after planning''"
definition msg_record_corrupt :: string where "msg_record_corrupt = ''adapter dispatch record corrupt''"
definition msg_record_conflict :: string where "msg_record_conflict = ''adapter operation payload conflict''"
definition msg_record_unsafe :: string where "msg_record_unsafe = ''adapter dispatch record cannot be read safely''"
definition msg_record_intent :: string where "msg_record_intent = ''durable adapter intent recorded''"
definition msg_record_write :: string where "msg_record_write = ''dispatch record write failed''"
definition msg_detached :: string where
  "msg_detached = ''helper continues independently; inspect its durable operation''"
definition msg_worker_cancel :: string where
  "msg_worker_cancel = ''worker cancellation requested; inspect descendant/cgroup disposition''"
definition msg_storage :: string where "msg_storage = ''managed model storage is unavailable''"
definition msg_local_completed :: string where
  "msg_local_completed = ''managed asset/source operation completed; workload qualification unchanged''"
definition msg_outcome_uncertain :: string where
  "msg_outcome_uncertain = ''executor outcome uncertain; inspect its durable journal''"
definition msg_identity :: string where "msg_identity = ''invalid operation identity''"
definition msg_no_dispatch_record :: string where "msg_no_dispatch_record = ''no such file or directory''"
definition msg_adapter_corrupt :: string where "msg_adapter_corrupt = ''corrupt adapter record''"
definition msg_local_uncertain :: string where
  "msg_local_uncertain = ''inspect managed partial/publication receipt and source; external effects are not retried''"
definition msg_local_active :: string where
  "msg_local_active = ''local staging/verification is still active; no recovery probe was run''"
definition msg_record_absent :: string where
  "msg_record_absent = ''executor dispatch record is absent; outcome is not proven''"
definition msg_record_binding :: string where
  "msg_record_binding = ''adapter dispatch record does not bind the original execution''"
definition msg_record_action :: string where
  "msg_record_action = ''adapter dispatch action does not match the original execution''"
definition msg_record_revision :: string where
  "msg_record_revision = ''adapter dispatch source revision does not match the original execution''"
definition msg_cache_observed :: string where
  "msg_cache_observed = ''durable managed cache budget matches the original local execution''"
definition msg_cache_differs :: string where
  "msg_cache_differs = ''cache budget source differs or is unavailable; no host or worker recovery was selected''"
definition msg_local_action :: string where "msg_local_action = ''unsupported local recovery action''"
definition msg_storage_inspect :: string where
  "msg_storage_inspect = ''managed model storage is unavailable; local publication evidence cannot be inspected''"
definition msg_catalog_drift :: string where
  "msg_catalog_drift = ''the original selected model is no longer in the reviewed catalog''"
definition msg_local_drift :: string where
  "msg_local_drift = ''reviewed reference source changed or is unavailable; local publication remains fenced''"
definition msg_local_verified :: string where
  "msg_local_verified = ''verified staged model receipt, hashes and reader permissions''"
definition msg_local_permissions :: string where
  "msg_local_permissions = ''published receipt and hashes verify, but reader permissions are invalid; explicitly rerun model.stage to repair this managed snapshot''"
definition msg_local_unknown :: string where
  "msg_local_unknown = ''managed model publication path cannot be inspected safely''"
definition msg_local_absent :: string where
  "msg_local_absent = ''no published model snapshot exists; the interrupted local operation did not dispatch host or worker effects''"
definition msg_local_invalid :: string where
  "msg_local_invalid = ''published model receipt, hashes or reader permissions are invalid; preserve the local recovery fence''"
definition msg_cpu_size :: string where "msg_cpu_size = ''CPU export exceeds bounded artifact size''"
definition msg_cpu_contract :: string where "msg_cpu_contract = ''invalid CPU export contract''"
definition msg_cpu_file :: string where "msg_cpu_file = ''CPU export missing expected file''"

definition executionKind :: "string \<Rightarrow> string" where
  "executionKind action =
     (if action \<in> set [''model.stage'', ''model.verify'', ''caches.configure''] then ''local''
      else if action = ''build.start'' then ''worker'' else ''host'')"

definition execution_json :: "Execution \<Rightarrow> json" where
  "execution_json x = JObj [(''id'', JStr (x_ID x)), (''actor'', JStr (x_Actor x)), (''plan'', plan_json (x_Plan x))]"

definition execution_hash :: "digest \<Rightarrow> Execution \<Rightarrow> string" where
  "execution_hash H x = H (execution_json x)"

abbreviation x_Action :: "Execution \<Rightarrow> string" where
  "x_Action x \<equiv> d_Action (p_Draft (x_Plan x))"

abbreviation x_Revision :: "Execution \<Rightarrow> string" where
  "x_Revision x \<equiv> c_Revision (p_Desired (x_Plan x))"

definition NewLive :: "LiveOptions \<Rightarrow> err option \<Rightarrow> err option \<Rightarrow> record_file gomap \<Rightarrow> 's \<Rightarrow> err + 's Live" where
  "NewLive opts imported mkdir records out =
     (case and_then (first_fail
        [(lo_Environment opts \<noteq> ''dev'' \<and> lo_Environment opts \<noteq> ''tst'' \<and> lo_Environment opts \<noteq> ''int'', Plain msg_live_environment),
         (lo_Target opts = [] \<or> lo_ReferenceRoot opts = [] \<or> lo_StateDir opts = [] \<or> lo_SourcePath opts = [], Plain msg_live_paths)])
        (and_then imported mkdir) of
        Some e \<Rightarrow> Inl e
      | None \<Rightarrow> Inr \<lparr>li_Options = opts, li_Records = records, li_active = [], li_Outside = out\<rparr>)"

text \<open>Writing a dispatch record; one that was renamed but not confirmed is there and reported as an error.\<close>

definition save_record :: "'s Outside \<Rightarrow> string \<Rightarrow> dispatch \<Rightarrow> 's Live \<Rightarrow> 's Live \<times> err option" where
  "save_record ox k rec l =
     (let stored = l\<lparr>li_Records := AList.update k (Recorded rec) (li_Records l)\<rparr> in
      case lx_Write ox rec (li_Outside l) of
        Written \<Rightarrow> (stored, None)
      | NotWritten \<Rightarrow> (l, Some (Plain msg_record_write))
      | WrittenUnconfirmed \<Rightarrow> (stored, Some (Plain msg_record_write)))"

definition record_of :: "'s Live \<Rightarrow> string \<Rightarrow> record_file" where
  "record_of l k = (case map_of (li_Records l) k of None \<Rightarrow> NoRecord | Some f \<Rightarrow> f)"

section \<open>Evidence of a finished operation\<close>

definition msg_memory_bound :: string where "msg_memory_bound = ''memory summary exceeds bound''"
definition msg_memory_private :: string where
  "msg_memory_private = ''private memory artifacts must contain only bounded metadata''"
definition msg_performance_bound :: string where "msg_performance_bound = ''performance summary exceeds bound''"
definition msg_performance_source :: string where "msg_performance_source = ''performance artifact source changed''"

fun cpu_files :: "'s Outside \<Rightarrow> (string \<Rightarrow> string) \<Rightarrow> string gomap \<Rightarrow> string \<Rightarrow> string list \<Rightarrow> err + Artifact list" where
  "cpu_files ox HB files revision [] = Inr []"
| "cpu_files ox HB files revision (name # names) =
     (case map_of files name of
        None \<Rightarrow> Inl (Plain msg_cpu_file)
      | Some b \<Rightarrow>
          if \<not> lx_ValidJSON ox b then Inl (Plain msg_cpu_file)
          else case cpu_files ox HB files revision names of
                 Inl e \<Rightarrow> Inl e
               | Inr as \<Rightarrow> Inr (\<lparr>a_Name = name, a_SHA256 = HB b, a_Size = int (length b), a_SourceRevision = revision,
                   a_Qualification = ''offline-plan-not-applied'', a_Content = b\<rparr> # as))"

definition cpuArtifacts :: "'s Outside \<Rightarrow> (string \<Rightarrow> string) \<Rightarrow> string \<Rightarrow> string \<Rightarrow> err + Artifact list" where
  "cpuArtifacts ox HB data revision =
     (if int (length data) > 2 ^ 20 then Inl (Plain msg_cpu_size)
      else case lx_Object ox data of
             None \<Rightarrow> Inl (Plain msg_cpu_contract)
           | Some files \<Rightarrow>
               if length files \<noteq> 2 then Inl (Plain msg_cpu_contract)
               else cpu_files ox HB files revision [''resource-plan.json'', ''ansible-vars.json''])"

definition PrivateName :: "string \<Rightarrow> bool" where
  "PrivateName name \<longleftrightarrow> name = ''plan.json'' \<or> name = ''patch.json'' \<or> name = ''rollback.json''"

definition memoryArtifacts :: "'s Outside \<Rightarrow> (string \<Rightarrow> string) \<Rightarrow> string \<Rightarrow> string \<Rightarrow> err + Artifact list" where
  "memoryArtifacts ox HB data revision =
     (if int (length data) > 128 * 2 ^ 10 then Inl (Plain msg_memory_bound)
      else case lx_Memory ox data of
             Inl e \<Rightarrow> Inl e
           | Inr s \<Rightarrow>
               if list_ex (\<lambda>a. \<not> PrivateName (a_Name a) \<or> a_Content a \<noteq> [] \<or> \<not> digest_ok (a_SHA256 a)
                    \<or> a_Size a \<le> 0 \<or> a_Size a > 2 * 2 ^ 20) (es_Artifacts s)
               then Inl (Plain msg_memory_private)
               else Inr (es_Artifacts s @ [\<lparr>a_Name = ''memory-summary.json'', a_SHA256 = HB (es_Bytes s),
                 a_Size = int (length (es_Bytes s)), a_SourceRevision = revision,
                 a_Qualification = es_Status s, a_Content = es_Bytes s\<rparr>]))"

definition performanceArtifacts :: "'s Outside \<Rightarrow> (string \<Rightarrow> string) \<Rightarrow> string \<Rightarrow> string \<Rightarrow> err + Artifact list" where
  "performanceArtifacts ox HB data revision =
     (if int (length data) > 32 * 2 ^ 10 then Inl (Plain msg_performance_bound)
      else case lx_Performance ox data of
             Inl e \<Rightarrow> Inl e
           | Inr s \<Rightarrow>
               if list_ex (\<lambda>a. a_SourceRevision a \<noteq> revision) (es_Artifacts s)
               then Inl (Plain msg_performance_source)
               else Inr (es_Artifacts s @ [\<lparr>a_Name = ''performance-summary.json'', a_SHA256 = HB (es_Bytes s),
                 a_Size = int (length (es_Bytes s)), a_SourceRevision = revision,
                 a_Qualification = es_Status s, a_Content = es_Bytes s\<rparr>]))"

text \<open>The three assignments to \<open>result.Artifacts\<close> and the error; a failed one leaves no artifacts.\<close>

definition assign_artifacts :: "err + Artifact list \<Rightarrow> Result \<times> err option \<Rightarrow> Result \<times> err option" where
  "assign_artifacts as re = (case as of
       Inl e \<Rightarrow> ((fst re)\<lparr>res_Artifacts := []\<rparr>, Some e)
     | Inr xs \<Rightarrow> ((fst re)\<lparr>res_Artifacts := xs\<rparr>, None))"

text \<open>
  In \<open>Execute\<close> the evidence of a succeeded operation replaces the error whatever it was
  (\<open>always\<close>); the two inspections look at evidence only if there is none.
\<close>

definition host_evidence ::
  "bool \<Rightarrow> 's Outside \<Rightarrow> (string \<Rightarrow> string) \<Rightarrow> string \<Rightarrow> string \<Rightarrow> HostResult \<Rightarrow> Result \<times> err option \<Rightarrow> Result \<times> err option" where
  "host_evidence always ox HB action revision h re =
     (let on = (\<lambda>wanted f re1. if wanted \<and> hr_State h = ''succeeded'' \<and> (always \<or> snd re1 = None)
                 then assign_artifacts (f ox HB (hr_Data h) revision) re1 else re1) in
      on (PerformanceAction action) performanceArtifacts
        (on (MemoryAction action) memoryArtifacts
          (on (action = ''cpu-policy.export'') cpuArtifacts re)))"

definition host_result :: "HostResult \<Rightarrow> Result" where
  "host_result h = mk_result (hr_State h) (hr_Phase h) (hr_Message h) (hr_State h = ''recovery-required'')"

section \<open>Execution\<close>

text \<open>
  The requests of the two executors. The worker's client overwrites the hash before it sends; the
  helper is told the source revision the plan leads to.
\<close>

definition worker_request :: "digest \<Rightarrow> Execution \<Rightarrow> WorkerRequest" where
  "worker_request H x =
     (let req = \<lparr>wq_ID = x_ID x, wq_Actor = x_Actor x, wq_Recipe = d_Recipe (p_Draft (x_Plan x)), wq_Hash = [],
            wq_Budgets = c_Caches (p_Desired (x_Plan x)), wq_SourceRevision = x_Revision x\<rparr> in
      req\<lparr>wq_Hash := WorkerRequestHash H req\<rparr>)"

definition host_request :: "digest \<Rightarrow> Execution \<Rightarrow> HostRequest" where
  "host_request H x =
     (let req = \<lparr>hq_Version = ContractVersion, hq_ID = x_ID x, hq_ExecutionIdentity = x_Actor x, hq_PayloadHash = [],
            hq_Draft = (p_Draft (x_Plan x))\<lparr>d_SourceRevision := x_Revision x\<rparr>, hq_Desired = p_Desired (x_Plan x)\<rparr> in
      req\<lparr>hq_PayloadHash := RequestHash H req\<rparr>)"

text \<open>The calls of the clients; without a configured socket the helper's is not contacted.\<close>

definition host_Execute :: "'s Outside \<Rightarrow> LiveOptions \<Rightarrow> HostRequest \<Rightarrow> 's \<Rightarrow> 's \<times> HostResult \<times> err option" where
  "host_Execute ox opts req s =
     (if lo_HostSocket opts = [] then (s, host_call False Unreachable)
      else case lx_HostPost ox req s of (s1, ans) \<Rightarrow> (s1, host_call True ans))"

definition host_Status :: "'s Outside \<Rightarrow> LiveOptions \<Rightarrow> string \<Rightarrow> 's \<Rightarrow> 's \<times> HostResult \<times> err option" where
  "host_Status ox opts k s =
     (if \<not> validID k then (s, zero_host_result, Some (Plain msg_operation_id))
      else if lo_HostSocket opts = [] then (s, host_call False Unreachable)
      else case lx_HostGet ox k s of (s1, ans) \<Rightarrow> (s1, host_call True ans))"

definition worker_Execute :: "'s Outside \<Rightarrow> WorkerRequest \<Rightarrow> 's \<Rightarrow> 's \<times> Result \<times> err option" where
  "worker_Execute ox req s = (case lx_WorkerPost ox req s of (s1, ans) \<Rightarrow> (s1, worker_call True ans))"

definition worker_Status :: "'s Outside \<Rightarrow> string \<Rightarrow> 's \<Rightarrow> 's \<times> Result \<times> err option" where
  "worker_Status ox k s =
     (if \<not> worker_validID k then (s, zero_result, Some (Plain msg_operation_id))
      else case lx_WorkerGet ox k s of (s1, ans) \<Rightarrow> (s1, worker_call False ans))"

definition worker_Cancel :: "'s Outside \<Rightarrow> string \<Rightarrow> 's \<Rightarrow> 's" where
  "worker_Cancel ox k s = (if \<not> worker_validID k then s else lx_WorkerCancel ox k s)"

text \<open>
  How the work of a dispatched operation ends: the call goes on to store the result, or it returns
  at once and leaves the intent on disk.
\<close>

datatype run_end = Ended Result "err option" | Leave Result "err option"

partial_function (option) waitWorker :: "'s Outside \<Rightarrow> string \<Rightarrow> 's \<Rightarrow> ('s \<times> Result \<times> err option) option" where
  "waitWorker ox k s =
     (case worker_Status ox k s of
        (s1, r, Some e) \<Rightarrow> Some (s1, r, Some e)
      | (s1, r, None) \<Rightarrow>
          if Terminal (res_State r) then Some (s1, r, None)
          else (case lx_Progress ox \<lparr>pg_Phase = res_Phase r, pg_Message = res_Message r, pg_Bytes = 0\<rparr> s1 of
                  (s2, Some e) \<Rightarrow> Some (s2, r, Some e)
                | (s2, None) \<Rightarrow>
                    (case lx_Wait ox s2 of
                       (s3, ended) \<Rightarrow>
                         if ended then
                           Some (worker_Cancel ox k s3,
                             mk_result ''recovery-required'' ''cancel-requested'' msg_worker_cancel True, None)
                         else waitWorker ox k s3)))"

text \<open>The loop over the helper's status, with what it leaves in \<open>hr\<close> and \<open>e\<close>.\<close>

datatype poll_end = Polled HostResult "err option" | Returned Result "err option"

partial_function (option) host_poll ::
  "'s Outside \<Rightarrow> LiveOptions \<Rightarrow> string \<Rightarrow> HostResult \<Rightarrow> 's \<Rightarrow> ('s \<times> poll_end) option" where
  "host_poll ox opts k hr s =
     (if Terminal (hr_State hr) then Some (s, Polled hr None)
      else case lx_Progress ox \<lparr>pg_Phase = hr_Phase hr, pg_Message = hr_Message hr, pg_Bytes = 0\<rparr> s of
             (s1, Some pe) \<Rightarrow> Some (s1, Returned zero_result (Some pe))
           | (s1, None) \<Rightarrow>
               (case lx_Wait ox s1 of
                  (s2, ended) \<Rightarrow>
                    if ended then
                      Some (s2, Returned (mk_result ''recovery-required'' ''executor-detached'' msg_detached True) None)
                    else (case host_Status ox opts k s2 of
                       (s3, hr1, Some e) \<Rightarrow> Some (s3, Polled hr1 (Some e))
                     | (s3, hr1, None) \<Rightarrow> host_poll ox opts k hr1 s3)))"

definition run_worker :: "digest \<Rightarrow> 's Outside \<Rightarrow> Execution \<Rightarrow> 's \<Rightarrow> ('s \<times> sent list \<times> run_end) option" where
  "run_worker H ox x s =
     (let req = worker_request H x in
      case worker_Execute ox req s of
        (s1, r, Some e) \<Rightarrow> Some (s1, [ToWorker req], Ended r (Some e))
      | (s1, r, None) \<Rightarrow>
          (case waitWorker ox (x_ID x) s1 of
             None \<Rightarrow> None
           | Some (s2, r1, e1) \<Rightarrow> Some (s2, [ToWorker req], Ended r1 e1)))"

definition run_host :: "digest \<Rightarrow> (string \<Rightarrow> string) \<Rightarrow> 's Outside \<Rightarrow> LiveOptions \<Rightarrow> Execution \<Rightarrow> 's
    \<Rightarrow> ('s \<times> sent list \<times> run_end) option" where
  "run_host H HB ox opts x s =
     (let req = host_request H x in
      case host_Execute ox opts req s of
        (s1, hr, Some e) \<Rightarrow>
          Some (s1, [ToHost req],
            Ended (if hr_State hr = ''failed'' then mk_result ''failed'' ''executor-refused'' (hr_Message hr) False
                   else zero_result) (Some e))
      | (s1, hr, None) \<Rightarrow>
          (case host_poll ox opts (x_ID x) hr s1 of
             None \<Rightarrow> None
           | Some (s2, Returned r e) \<Rightarrow> Some (s2, [ToHost req], Leave r e)
           | Some (s2, Polled hr1 e) \<Rightarrow>
               (case host_evidence True ox HB (x_Action x) (x_Revision x) hr1 (host_result hr1, e) of
                  (r, e1) \<Rightarrow> Some (s2, [ToHost req], Ended r e1))))"

definition local_completed :: "'s \<Rightarrow> sent list \<Rightarrow> Artifact list \<Rightarrow> 's \<times> sent list \<times> run_end" where
  "local_completed s snt as =
     (s, snt, Ended ((mk_result ''succeeded'' ''completed'' msg_local_completed False)\<lparr>res_Artifacts := as\<rparr>) None)"

definition run_local :: "'s Outside \<Rightarrow> Execution \<Rightarrow> 's \<Rightarrow> 's \<times> sent list \<times> run_end" where
  "run_local ox x s =
     (let d = p_Draft (x_Plan x) in
      if d_Action d = ''model.stage'' \<or> d_Action d = ''model.verify'' then
        (if \<not> lx_Stager ox then (s, [], Ended zero_result (Some (Failure ''unavailable'' msg_storage)))
         else case lx_FindModel ox (d_Model d) of
                Some e \<Rightarrow> (s, [], Ended zero_result (Some e))
              | None \<Rightarrow>
                  (case (if d_Action d = ''model.stage'' then lx_Stage ox (d_Model d) s else lx_Verify ox (d_Model d) s) of
                     (s1, Inl e) \<Rightarrow> (s1, [ToStager (d_Action d) (d_Model d)], Ended zero_result (Some e))
                   | (s1, Inr as) \<Rightarrow> local_completed s1 [ToStager (d_Action d) (d_Model d)] as))
      else if d_Action d = ''caches.configure'' \<and> lx_Stager ox then
        (let budget = i64 (b_ModelsGiB (c_Caches (p_Desired (x_Plan x))) * 2 ^ 30) in
         local_completed (lx_Budget ox budget s) [ToBudget budget] [])
      else local_completed s [] [])"

definition execute_run :: "digest \<Rightarrow> (string \<Rightarrow> string) \<Rightarrow> 's Outside \<Rightarrow> LiveOptions \<Rightarrow> Execution \<Rightarrow> 's
    \<Rightarrow> ('s \<times> sent list \<times> run_end) option" where
  "execute_run H HB ox opts x s =
     (if executionKind (x_Action x) = ''worker'' then run_worker H ox x s
      else if executionKind (x_Action x) = ''host'' then run_host H HB ox opts x s
      else Some (run_local ox x s))"

text \<open>The first critical section: the checks, and the intent with the active marker.\<close>

datatype live_start = Stop Result "err option" | Look | Go dispatch

definition precondition :: "string \<Rightarrow> Execution \<Rightarrow> string" where
  "precondition k x = (case pv_Preconditions (p_Preview (x_Plan x)) of
       None \<Rightarrow> [] | Some m \<Rightarrow> (case map_of m k of None \<Rightarrow> [] | Some v \<Rightarrow> v))"

definition intent_record :: "digest \<Rightarrow> Execution \<Rightarrow> dispatch" where
  "intent_record H x = \<lparr>di_Kind = executionKind (x_Action x), di_Hash = execution_hash H x,
     di_Result = mk_result ''running'' ''dispatch-intent'' msg_record_intent False,
     di_Action = x_Action x, di_SourceRevision = x_Revision x\<rparr>"

definition execute_intent :: "digest \<Rightarrow> 's Outside \<Rightarrow> Execution \<Rightarrow> 's Live \<Rightarrow> 's Live \<times> live_start" where
  "execute_intent H ox x l =
     (case lx_Reference ox (li_Outside l) of
        Inl e \<Rightarrow> (l, Stop (mk_result ''failed'' ''reference-preflight'' (err_message e) False) (Some e))
      | Inr revision \<Rightarrow>
          if precondition ''reference_revision'' x \<noteq> [] \<and> precondition ''reference_revision'' x \<noteq> revision
          then (l, Stop (mk_result ''failed'' ''source-drift'' msg_reference_drift False)
                     (Some (Failure ''source_drift'' msg_reference_changed)))
          else (case record_of l (x_ID x) of
                  CorruptRecord \<Rightarrow> (l, Stop zero_result (Some (Plain msg_record_corrupt)))
                | Recorded r \<Rightarrow>
                    if di_Hash r \<noteq> execution_hash H x then (l, Stop zero_result (Some (Plain msg_record_conflict)))
                    else (l, Look)
                | UnreadableRecord _ \<Rightarrow> (l, Stop zero_result (Some (Plain msg_record_unsafe)))
                | NoRecord \<Rightarrow>
                    (case save_record ox (x_ID x) (intent_record H x) l of
                       (l1, Some e) \<Rightarrow> (l1, Stop zero_result (Some e))
                     | (l1, None) \<Rightarrow> (l1\<lparr>li_active := x_ID x # li_active l1\<rparr>, Go (intent_record H x)))))"

text \<open>What an error at the end of the work makes of the result.\<close>

definition settle_result :: "string \<Rightarrow> Result \<Rightarrow> err option \<Rightarrow> Result" where
  "settle_result kind r e =
     (case e of
        None \<Rightarrow> r
      | Some e1 \<Rightarrow>
          if Terminal (res_State r) \<and> \<not> res_RecoveryRequired r then r
          else if kind = ''local'' then mk_result ''failed'' ''adapter-failed'' (err_message e1) False
          else mk_result ''recovery-required'' ''adapter-failed'' msg_outcome_uncertain True)"

definition deactivate :: "string \<Rightarrow> 's Live \<Rightarrow> 's Live" where
  "deactivate k l = l\<lparr>li_active := filter (\<lambda>j. j \<noteq> k) (li_active l)\<rparr>"

definition execute_end :: "'s Outside \<Rightarrow> Execution \<Rightarrow> dispatch \<Rightarrow> run_end \<Rightarrow> 's Live \<Rightarrow> 's Live \<times> Result \<times> err option" where
  "execute_end ox x rec re l =
     (case re of
        Leave r e \<Rightarrow> (deactivate (x_ID x) l, r, e)
      | Ended r e \<Rightarrow>
          (let final = settle_result (executionKind (x_Action x)) r e in
           case save_record ox (x_ID x) (rec\<lparr>di_Result := final\<rparr>) l of
             (l1, Some se) \<Rightarrow> (deactivate (x_ID x) l1, zero_result, Some se)
           | (l1, None) \<Rightarrow> (deactivate (x_ID x) l1, final, e)))"

section \<open>Inspection\<close>

definition bad_identity :: "string \<Rightarrow> bool" where
  "bad_identity k \<longleftrightarrow> ContainsAny k [CHR ''/'', CHR 0x5C, CHR ''.''] \<or> length k < 8"

definition inspect_host :: "(string \<Rightarrow> string) \<Rightarrow> 's Outside \<Rightarrow> string \<Rightarrow> string \<Rightarrow> string \<Rightarrow> dispatch \<Rightarrow> 's Live
    \<Rightarrow> 's Live \<times> Result \<times> err option" where
  "inspect_host HB ox k action revision r l =
     (if res_State (di_Result r) = ''failed'' \<and> res_Phase (di_Result r) = ''executor-refused'' then (l, di_Result r, None)
      else case host_Status ox (li_Options l) k (li_Outside l) of
             (s1, h, e) \<Rightarrow> (l\<lparr>li_Outside := s1\<rparr>, host_evidence False ox HB action revision h (host_result h, e)))"

definition inspect_worker :: "'s Outside \<Rightarrow> string \<Rightarrow> 's Live \<Rightarrow> 's Live \<times> Result \<times> err option" where
  "inspect_worker ox k l = (case worker_Status ox k (li_Outside l) of (s1, r, e) \<Rightarrow> (l\<lparr>li_Outside := s1\<rparr>, r, e))"

definition live_Inspect :: "(string \<Rightarrow> string) \<Rightarrow> 's Outside \<Rightarrow> string \<Rightarrow> 's Live \<Rightarrow> 's Live \<times> Result \<times> err option" where
  "live_Inspect HB ox k l =
     (if bad_identity k then (l, zero_result, Some (Plain msg_identity))
      else case record_of l k of
             NoRecord \<Rightarrow> (l, zero_result, Some (Plain msg_no_dispatch_record))
           | UnreadableRecord e \<Rightarrow> (l, zero_result, Some e)
           | CorruptRecord \<Rightarrow> (l, zero_result, Some (Plain msg_adapter_corrupt))
           | Recorded r \<Rightarrow>
               if di_Kind r = ''host'' then inspect_host HB ox k (di_Action r) (di_SourceRevision r) r l
               else if di_Kind r = ''worker'' then inspect_worker ox k l
               else if \<not> Terminal (res_State (di_Result r))
                    then (l, mk_result ''recovery-required'' ''local-effect-uncertain'' msg_local_uncertain True, None)
                    else (l, di_Result r, None))"

definition inspect_snapshot :: "'s Outside \<Rightarrow> Execution \<Rightarrow> 's Live \<Rightarrow> 's Live \<times> Result" where
  "inspect_snapshot ox x l =
     (let m = d_Model (p_Draft (x_Plan x)); fence = (\<lambda>phase msg. mk_result ''recovery-required'' phase msg True) in
      case lx_Verify ox m (li_Outside l) of
        (s1, Inr as) \<Rightarrow>
          (l\<lparr>li_Outside := s1\<rparr>,
           (mk_result ''succeeded'' ''local-publication-verified'' msg_local_verified False)\<lparr>res_Artifacts := as\<rparr>)
      | (s1, Inl _) \<Rightarrow>
          (case lx_VerifyContent ox m s1 of
             (s2, Inr _) \<Rightarrow>
               (l\<lparr>li_Outside := s2\<rparr>, mk_result ''failed'' ''local-publication-permissions-invalid'' msg_local_permissions False)
           | (s2, Inl _) \<Rightarrow>
               (l\<lparr>li_Outside := s2\<rparr>,
                case lx_Present ox m s2 of
                  Inl _ \<Rightarrow> fence ''local-publication-unknown'' msg_local_unknown
                | Inr False \<Rightarrow> mk_result ''failed'' ''local-interrupted-no-publication'' msg_local_absent False
                | Inr True \<Rightarrow> fence ''local-publication-uncertain'' msg_local_invalid)))"

definition inspectLocalExecution :: "'s Outside \<Rightarrow> Execution \<Rightarrow> 's Live \<Rightarrow> 's Live \<times> Result \<times> err option" where
  "inspectLocalExecution ox x l =
     (let d = p_Draft (x_Plan x); expected = precondition ''reference_revision'' x;
          fence = (\<lambda>phase msg. (l, mk_result ''recovery-required'' phase msg True, None)) in
      if d_Action d = ''caches.configure'' then
        (case lx_Source ox (li_Outside l) of
           Inr c \<Rightarrow>
             if c_Revision c = x_Revision x \<and> c_Caches c = c_Caches (p_Desired (x_Plan x))
             then (l, mk_result ''succeeded'' ''local-cache-budget-observed'' msg_cache_observed False, None)
             else fence ''local-source-inspection-required'' msg_cache_differs
         | Inl _ \<Rightarrow> fence ''local-source-inspection-required'' msg_cache_differs)
      else if d_Action d \<noteq> ''model.stage'' \<and> d_Action d \<noteq> ''model.verify''
        then (l, zero_result, Some (Plain msg_local_action))
      else if \<not> lx_Stager ox then fence ''model-storage-unavailable'' msg_storage_inspect
      else if lx_FindModel ox (d_Model d) \<noteq> None then fence ''model-catalog-drift'' msg_catalog_drift
      else if expected \<noteq> [] \<and> lx_Reference ox (li_Outside l) \<noteq> Inr expected then fence ''source-drift'' msg_local_drift
      else case inspect_snapshot ox x l of (l1, r) \<Rightarrow> (l1, r, None))"

definition InspectExecution :: "digest \<Rightarrow> (string \<Rightarrow> string) \<Rightarrow> 's Outside \<Rightarrow> Execution \<Rightarrow> 's Live
    \<Rightarrow> 's Live \<times> Result \<times> err option" where
  "InspectExecution H HB ox x l =
     (let kind = executionKind (x_Action x) in
      if bad_identity (x_ID x) then (l, zero_result, Some (Plain msg_identity))
      else if x_ID x \<in> set (li_active l) \<and> kind = ''local''
        then (l, mk_result ''running'' ''local-execution-active'' msg_local_active False, None)
      else case record_of l (x_ID x) of
             NoRecord \<Rightarrow>
               if kind = ''local'' then inspectLocalExecution ox x l
               else (l, zero_result, Some (Plain msg_record_absent))
           | UnreadableRecord e \<Rightarrow> (l, zero_result, Some e)
           | CorruptRecord \<Rightarrow> (l, zero_result, Some (Plain msg_record_corrupt))
           | Recorded r \<Rightarrow>
               (case first_fail
                  [(di_Hash r = [] \<or> di_Hash r \<noteq> execution_hash H x \<or> di_Kind r \<noteq> kind, Plain msg_record_binding),
                   (di_Action r \<noteq> [] \<and> di_Action r \<noteq> x_Action x, Plain msg_record_action),
                   (di_SourceRevision r \<noteq> [] \<and> di_SourceRevision r \<noteq> x_Revision x, Plain msg_record_revision)] of
                  Some e \<Rightarrow> (l, zero_result, Some e)
                | None \<Rightarrow>
                    if kind = ''local'' then inspectLocalExecution ox x l
                    else if kind = ''worker'' then inspect_worker ox (x_ID x) l
                    else inspect_host HB ox (x_ID x) (x_Action x) (x_Revision x) r l))"

text \<open>\<open>Execute\<close> as one call, with nothing else running meanwhile.\<close>

definition live_Execute :: "digest \<Rightarrow> (string \<Rightarrow> string) \<Rightarrow> 's Outside \<Rightarrow> Execution \<Rightarrow> 's Live
    \<Rightarrow> ('s Live \<times> sent list \<times> Result \<times> err option) option" where
  "live_Execute H HB ox x l =
     (case execute_intent H ox x l of
        (l1, Stop r e) \<Rightarrow> Some (l1, [], r, e)
      | (l1, Look) \<Rightarrow> (case live_Inspect HB ox (x_ID x) l1 of (l2, r, e) \<Rightarrow> Some (l2, [], r, e))
      | (l1, Go rec) \<Rightarrow>
          (case execute_run H HB ox (li_Options l1) x (li_Outside l1) of
             None \<Rightarrow> None
           | Some (s, snt, re) \<Rightarrow>
               (case execute_end ox x rec re (l1\<lparr>li_Outside := s\<rparr>) of (l2, r, e) \<Rightarrow> Some (l2, snt, r, e))))"

end
