(* ===== verification/LiveRun.thy ===== *)
theory LiveRun
  imports Live
begin

text \<open>
  What the live adapter guarantees: an execution is handed over at most once, whatever other calls,
  crashes and damaged records come between; the outcome it reports is one the executor answered; a
  recovery probe is bound to the execution that was recorded.
\<close>

section \<open>The adapter as a machine\<close>

text \<open>
  The two critical sections of \<open>Execute\<close> are single steps. Between them, and at any other time, the
  outside moves on; that covers the calls to the executors and every inspection. A crash loses the
  markers in memory. A record on disk may become unreadable or corrupt.
\<close>

record 's LiveMachine =
  lm_Live :: "'s Live"
  lm_Running :: "(Execution \<times> dispatch) list"
  lm_Log :: "Execution list"

inductive live_step :: "digest \<Rightarrow> 's Outside \<Rightarrow> 's LiveMachine \<Rightarrow> 's LiveMachine \<Rightarrow> bool" for H ox where
  dispatch: "execute_intent H ox x (lm_Live m) = (l1, Go rec) \<Longrightarrow>
    live_step H ox m (m\<lparr>lm_Live := l1, lm_Running := (x, rec) # lm_Running m, lm_Log := x # lm_Log m\<rparr>)"
| refuse: "execute_intent H ox x (lm_Live m) = (l1, st) \<Longrightarrow> (\<forall>rec. st \<noteq> Go rec) \<Longrightarrow>
    live_step H ox m (m\<lparr>lm_Live := l1\<rparr>)"
| finish: "(x, rec) \<in> set (lm_Running m) \<Longrightarrow> execute_end ox x rec re (lm_Live m) = (l1, out) \<Longrightarrow>
    live_step H ox m (m\<lparr>lm_Live := l1, lm_Running := remove1 (x, rec) (lm_Running m)\<rparr>)"
| outside: "live_step H ox m (m\<lparr>lm_Live := (lm_Live m)\<lparr>li_Outside := s\<rparr>\<rparr>)"
| crash: "live_step H ox m (m\<lparr>lm_Live := (lm_Live m)\<lparr>li_active := []\<rparr>, lm_Running := []\<rparr>)"
| damage: "record_of (lm_Live m) k \<noteq> NoRecord \<Longrightarrow> damaged = CorruptRecord \<or> damaged = UnreadableRecord e \<Longrightarrow>
    live_step H ox m (m\<lparr>lm_Live := (lm_Live m)\<lparr>li_Records := AList.update k damaged (li_Records (lm_Live m))\<rparr>\<rparr>)"

inductive live_reachable :: "digest \<Rightarrow> 's Outside \<Rightarrow> 's LiveMachine \<Rightarrow> bool" for H ox where
  start: "live_reachable H ox \<lparr>lm_Live = l, lm_Running = [], lm_Log = []\<rparr>"
| move: "live_reachable H ox m \<Longrightarrow> live_step H ox m m' \<Longrightarrow> live_reachable H ox m'"

lemma record_of_update [simp]:
  "record_of (l\<lparr>li_Records := AList.update k f (li_Records l)\<rparr>) j = (if j = k then f else record_of l j)"
  by (simp add: record_of_def update_conv' map_of_update)

lemma record_of_frame [simp]:
  "record_of (l\<lparr>li_Outside := s\<rparr>) k = record_of l k" "record_of (l\<lparr>li_active := a\<rparr>) k = record_of l k"
  "record_of (deactivate j l) k = record_of l k"
  by (simp_all add: record_of_def deactivate_def)

lemma save_record_cases:
  assumes "save_record ox k rec l = (l1, e)"
  shows "record_of l1 j = record_of l j \<and> e \<noteq> None \<or>
    record_of l1 j = (if j = k then Recorded rec else record_of l j)"
  using assms by (auto simp: save_record_def Let_def split: write_outcome.splits)

lemma save_record_written: "save_record ox k rec l = (l1, None) \<Longrightarrow> record_of l1 k = Recorded rec"
  by (auto simp: save_record_def Let_def split: write_outcome.splits)

lemma execute_intent_Go:
  assumes "execute_intent H ox x l = (l1, Go rec)"
  shows "record_of l (x_ID x) = NoRecord" "rec = intent_record H x"
    "record_of l1 j = (if j = x_ID x then Recorded rec else record_of l j)"
proof -
  from assms obtain l0 where l0: "record_of l (x_ID x) = NoRecord" "rec = intent_record H x"
    "save_record ox (x_ID x) rec l = (l0, None)" "l1 = l0\<lparr>li_active := x_ID x # li_active l0\<rparr>"
    by (auto simp: execute_intent_def split: sum.splits if_splits record_file.splits prod.splits option.splits)
  then show "record_of l (x_ID x) = NoRecord" "rec = intent_record H x" by simp_all
  from l0(3) show "record_of l1 j = (if j = x_ID x then Recorded rec else record_of l j)"
    by (auto simp: l0(4) save_record_def Let_def split: write_outcome.splits)
qed

lemma execute_intent_other:
  assumes "execute_intent H ox x l = (l1, st)" and "\<And>rec. st \<noteq> Go rec"
  shows "record_of l1 j = record_of l j \<or> j = x_ID x \<and> record_of l j = NoRecord \<and> record_of l1 j = Recorded (intent_record H x)"
  using assms
  by (auto simp: execute_intent_def save_record_def Let_def
      split: sum.splits if_splits record_file.splits prod.splits option.splits write_outcome.splits)

text \<open>What every reachable state keeps: each execution that was handed over has a record of its own.\<close>

definition bound_record :: "digest \<Rightarrow> Execution \<Rightarrow> record_file \<Rightarrow> bool" where
  "bound_record H x f = (case f of NoRecord \<Rightarrow> False | Recorded d \<Rightarrow> di_Hash d = execution_hash H x
     | UnreadableRecord _ \<Rightarrow> True | CorruptRecord \<Rightarrow> True)"

definition live_invariant :: "digest \<Rightarrow> 's LiveMachine \<Rightarrow> bool" where
  "live_invariant H m \<longleftrightarrow> distinct (map x_ID (lm_Log m)) \<and>
     (\<forall>x \<in> set (lm_Log m). bound_record H x (record_of (lm_Live m) (x_ID x))) \<and>
     (\<forall>(x, rec) \<in> set (lm_Running m). x \<in> set (lm_Log m) \<and> di_Hash rec = execution_hash H x)"

lemma execute_end_records:
  assumes "execute_end ox x rec re l = (l1, out)"
  shows "record_of l1 j = record_of l j \<or> j = x_ID x \<and> (\<exists>d. record_of l1 j = Recorded d \<and> di_Hash d = di_Hash rec)"
  using assms
  by (auto simp: execute_end_def save_record_def Let_def split: run_end.splits write_outcome.splits prod.splits option.splits if_splits)

lemma log_unique: "distinct (map x_ID xs) \<Longrightarrow> x \<in> set xs \<Longrightarrow> y \<in> set xs \<Longrightarrow> x_ID x = x_ID y \<Longrightarrow> x = y"
  by (metis distinct_map inj_onD)

lemma live_invariant_step:
  assumes "live_step H ox m m'" and "live_invariant H m"
  shows "live_invariant H m'"
  using assms
proof (cases rule: live_step.cases)
  case (dispatch x l1 rec)
  note go = execute_intent_Go [OF dispatch(2)]
  have fresh: "x_ID x \<noteq> x_ID y" if "y \<in> set (lm_Log m)" for y
    using assms(2) that go(1) by (auto simp: live_invariant_def bound_record_def)
  then have "distinct (map x_ID (x # lm_Log m))" using assms(2) by (auto simp: live_invariant_def)
  moreover have "bound_record H y (record_of l1 (x_ID y))" if "y \<in> set (x # lm_Log m)" for y
  proof (cases "y = x")
    case True
    then show ?thesis by (simp add: go(2,3) bound_record_def intent_record_def)
  next
    case False
    with that fresh [of y] assms(2) show ?thesis by (auto simp: go(3) live_invariant_def)
  qed
  ultimately show ?thesis
    using assms(2) by (auto simp: dispatch(1) go(2) live_invariant_def intent_record_def)
next
  case (refuse x l1 st)
  have "bound_record H y (record_of l1 (x_ID y))" if "y \<in> set (lm_Log m)" for y
    using execute_intent_other [OF refuse(2), of "x_ID y"] refuse(3) that assms(2)
    by (auto simp: live_invariant_def bound_record_def)
  then show ?thesis using assms(2) by (auto simp: refuse(1) live_invariant_def)
next
  case (finish x rec re l1 out)
  have x: "x \<in> set (lm_Log m)" "di_Hash rec = execution_hash H x" using finish(2) assms(2) by (auto simp: live_invariant_def)
  have "bound_record H y (record_of l1 (x_ID y))" if y: "y \<in> set (lm_Log m)" for y
    using execute_end_records [OF finish(3), of "x_ID y"]
  proof
    assume "record_of l1 (x_ID y) = record_of (lm_Live m) (x_ID y)"
    then show ?thesis using y assms(2) by (simp add: live_invariant_def)
  next
    assume r: "x_ID y = x_ID x \<and> (\<exists>d. record_of l1 (x_ID y) = Recorded d \<and> di_Hash d = di_Hash rec)"
    then have "y = x" using log_unique [OF _ y x(1)] assms(2) by (simp add: live_invariant_def)
    then show ?thesis using r x(2) by (auto simp: bound_record_def)
  qed
  moreover have "set (remove1 (x, rec) (lm_Running m)) \<subseteq> set (lm_Running m)" by (rule set_remove1_subset)
  ultimately show ?thesis using assms(2) by (auto simp: finish(1) live_invariant_def)
qed (auto simp: live_invariant_def bound_record_def)

lemma live_reachable_invariant: "live_reachable H ox m \<Longrightarrow> live_invariant H m"
proof (induction rule: live_reachable.induct)
  case (start l)
  show ?case by (simp add: live_invariant_def)
qed (rule live_invariant_step)

text \<open>
  C4: The live adapter hands an execution to the helper, the worker or the model store at most once, however its
  calls interleave and whatever crashes and damaged records come between; each one handed over has a dispatch record on
  disk, which while it can be read carries the hash of exactly that execution.
\<close>
theorem adapter_dispatches_once:
  assumes "live_reachable H ox m"
  shows "distinct (map x_ID (lm_Log m)) \<and>
    (\<forall>x \<in> set (lm_Log m). record_of (lm_Live m) (x_ID x) \<noteq> NoRecord \<and>
       (\<forall>d. record_of (lm_Live m) (x_ID x) = Recorded d \<longrightarrow> di_Hash d = execution_hash H x))"
  using live_reachable_invariant [OF assms] by (fastforce simp: live_invariant_def bound_record_def)

section \<open>Where an outcome comes from\<close>

fun answer_body :: "'r answer \<Rightarrow> 'r option" where
  "answer_body Unreachable = None"
| "answer_body (Undecodable r) = Some r"
| "answer_body (Answered code r) = Some r"

text \<open>The executor answered a call for this execution with the state; a refused submission counts as failed.\<close>

definition host_said :: "digest \<Rightarrow> 's Outside \<Rightarrow> Execution \<Rightarrow> string \<Rightarrow> bool" where
  "host_said H ox x st \<longleftrightarrow> (\<exists>s s1 ans h. (lx_HostPost ox (host_request H x) s = (s1, ans) \<or> lx_HostGet ox (x_ID x) s = (s1, ans)) \<and>
     answer_body ans = Some h \<and> hr_State h = st)"

definition worker_said :: "digest \<Rightarrow> 's Outside \<Rightarrow> Execution \<Rightarrow> string \<Rightarrow> bool" where
  "worker_said H ox x st \<longleftrightarrow>
     (\<exists>s s1 code b. lx_WorkerPost ox (worker_request H x) s = (s1, Answered code b) \<and> code \<noteq> 200 \<and> code \<noteq> 202 \<and> st = ''failed'') \<or>
     (\<exists>s s1 ans r. (lx_WorkerPost ox (worker_request H x) s = (s1, ans) \<or> lx_WorkerGet ox (x_ID x) s = (s1, ans)) \<and>
        answer_body ans = Some r \<and> res_State r = st)"

lemma zero_states [simp]: "res_State zero_result = []" "hr_State zero_host_result = []" "\<not> res_RecoveryRequired zero_result"
  by (simp_all add: zero_result_def mk_result_def zero_host_result_def)

lemma not_Terminal_empty [simp]: "\<not> Terminal []"
  by (simp add: Terminal_def)

lemma host_call_body: "host_call b ans = (h, e) \<Longrightarrow> hr_State h \<noteq> [] \<Longrightarrow> answer_body ans = Some h"
  by (cases ans) (auto simp: host_call_def split: if_splits)

lemma host_Execute_said:
  "host_Execute ox opts (host_request H x) s = (s1, h, e) \<Longrightarrow> hr_State h \<noteq> [] \<Longrightarrow> host_said H ox x (hr_State h)"
  by (auto simp: host_Execute_def host_said_def host_call_def [of False] split: if_splits prod.split_asm dest!: host_call_body)

lemma host_Status_said:
  "host_Status ox opts (x_ID x) s = (s1, h, e) \<Longrightarrow> hr_State h \<noteq> [] \<Longrightarrow> host_said H ox x (hr_State h)"
  by (auto simp: host_Status_def host_said_def host_call_def [of False] split: if_splits prod.split_asm dest!: host_call_body)

lemma host_poll_ends:
  assumes "host_poll ox opts (x_ID x) hr s = Some (s', pe)" and "hr_State hr \<noteq> [] \<Longrightarrow> host_said H ox x (hr_State hr)"
  shows "case pe of
      Polled h e \<Rightarrow> (hr_State h \<noteq> [] \<longrightarrow> host_said H ox x (hr_State h)) \<and> (e = None \<longrightarrow> Terminal (hr_State h))
    | Returned r e \<Rightarrow> r = zero_result \<and> e \<noteq> None \<or> res_State r = ''recovery-required''"
  using assms
proof (induction ox opts "x_ID x" hr s "(s', pe)" arbitrary: s' pe
    rule: host_poll.raw_induct [rotated, consumes 1, case_names poll])
  case (poll f ox opts hr s)
  then show ?case
    by (auto simp: mk_result_def split: if_splits prod.split_asm option.split_asm dest: host_Status_said)
      (blast intro: host_Status_said)
qed

lemma worker_call_body:
  "worker_call False ans = (r, e) \<Longrightarrow> res_State r \<noteq> [] \<Longrightarrow> answer_body ans = Some r"
  by (cases ans) (auto simp: worker_call_def split: if_splits)

lemma worker_Status_said:
  "worker_Status ox (x_ID x) s = (s1, r, e) \<Longrightarrow> res_State r \<noteq> [] \<Longrightarrow> worker_said H ox x (res_State r)"
  by (auto simp: worker_Status_def worker_said_def split: if_splits prod.split_asm dest!: worker_call_body) blast

lemma worker_Execute_said:
  assumes "worker_Execute ox (worker_request H x) s = (s1, r, e)" and "res_State r \<noteq> []"
  shows "worker_said H ox x (res_State r)"
proof -
  obtain ans where ans: "lx_WorkerPost ox (worker_request H x) s = (s1, ans)" "worker_call True ans = (r, e)"
    using assms(1) by (auto simp: worker_Execute_def split: prod.splits)
  with assms(2) show ?thesis
    by (cases ans) (fastforce simp: worker_call_def worker_said_def mk_result_def split: if_splits)+
qed

lemma waitWorker_ends:
  assumes "waitWorker ox (x_ID x) s = Some (s', r, e)"
  shows "(Terminal (res_State r) \<longrightarrow> worker_said H ox x (res_State r) \<or> res_State r = ''recovery-required'') \<and>
    (e = None \<longrightarrow> Terminal (res_State r))"
  using assms
proof (induction ox "x_ID x" s "(s', r, e)" arbitrary: s' r e rule: waitWorker.raw_induct [rotated, consumes 1, case_names poll])
  case (poll f ox s)
  have said: "worker_said H ox x (res_State r)" if "worker_Status ox (x_ID x) t = (t1, r, e)" "Terminal (res_State r)" for t t1 r e
    using worker_Status_said [OF that(1)] that(2) by (metis not_Terminal_empty)
  from poll show ?case
    by (auto simp: mk_result_def Terminal_def [of "''recovery-required''"] split: if_splits prod.split_asm option.split_asm intro: said)
qed

lemma host_evidence_state:
  "host_evidence b ox HB a v h (r, e) = (r1, e1) \<Longrightarrow> res_State r1 = res_State r \<and> res_RecoveryRequired r1 = res_RecoveryRequired r"
  by (auto simp: host_evidence_def assign_artifacts_def Let_def split: if_splits sum.splits)

lemma host_evidence_error:
  "host_evidence b ox HB a v h (r, e) = (r1, None) \<Longrightarrow> e = None \<or> hr_State h = ''succeeded''"
  by (auto simp: host_evidence_def assign_artifacts_def Let_def split: if_splits sum.splits)

lemma settle_result_states:
  "kind \<noteq> ''local'' \<Longrightarrow> (e = None \<Longrightarrow> Terminal (res_State r)) \<Longrightarrow>
   res_State (settle_result kind r e) = ''recovery-required'' \<or> settle_result kind r e = r \<and> Terminal (res_State r)"
  by (auto simp: settle_result_def mk_result_def split: option.splits)

definition executor_said :: "digest \<Rightarrow> 's Outside \<Rightarrow> Execution \<Rightarrow> string \<Rightarrow> bool" where
  "executor_said H ox x st = (if executionKind (x_Action x) = ''worker'' then worker_said H ox x st else host_said H ox x st)"

lemma execute_run_ends:
  assumes "execute_run H HB ox opts x s = Some (s', snt, re)" and "executionKind (x_Action x) \<noteq> ''local''"
  shows "case re of
      Ended r e \<Rightarrow> (Terminal (res_State r) \<longrightarrow> executor_said H ox x (res_State r) \<or> res_State r = ''recovery-required'') \<and>
        (e = None \<longrightarrow> Terminal (res_State r))
    | Leave r e \<Rightarrow> r = zero_result \<and> e \<noteq> None \<or> res_State r = ''recovery-required''"
proof (cases "executionKind (x_Action x) = ''worker''")
  case True
  then have "run_worker H ox x s = Some (s', snt, re)" using assms(1) by (simp add: execute_run_def)
  with True show ?thesis
    by (auto simp: run_worker_def Let_def executor_said_def split: prod.split_asm option.split_asm
        dest: worker_Execute_said waitWorker_ends)
next
  case False
  then have "run_host H HB ox opts x s = Some (s', snt, re)"
    using assms by (auto simp: execute_run_def executionKind_def split: if_splits)
  note run = this [unfolded run_host_def Let_def]
  obtain s1 hr e1 where post: "host_Execute ox opts (host_request H x) s = (s1, hr, e1)" by (metis prod_cases3)
  have said: "executor_said H ox x (hr_State hr)" if "hr_State hr \<noteq> []"
    using host_Execute_said [OF post that] False by (simp add: executor_said_def)
  show ?thesis
  proof (cases e1)
    case (Some e)
    with run post said show ?thesis by (auto simp: mk_result_def)
  next
    case None
    with run post obtain s2 pe where poll: "host_poll ox opts (x_ID x) hr s1 = Some (s2, pe)"
      by (auto split: option.split_asm)
    note ends = host_poll_ends [OF poll, of H] said [unfolded executor_said_def]
    show ?thesis
    proof (cases pe)
      case (Returned r e)
      with run post None poll ends False show ?thesis by auto
    next
      case (Polled h e)
      obtain r1 e2 where ev: "host_evidence True ox HB (x_Action x) (x_Revision x) h (host_result h, e) = (r1, e2)" by fastforce
      have st: "res_State r1 = hr_State h" using host_evidence_state [OF ev] by (simp add: host_result_def mk_result_def)
      have "(hr_State h \<noteq> [] \<longrightarrow> host_said H ox x (hr_State h)) \<and> (e = None \<longrightarrow> Terminal (hr_State h))"
        using ends False Polled by simp
      moreover have "Terminal ''succeeded''" by (simp add: Terminal_def)
      ultimately show ?thesis
        using run post None poll Polled ev st host_evidence_error [of True ox HB "x_Action x" "x_Revision x" h "host_result h" e r1] False
        by (auto simp: executor_said_def)
    qed
  qed
qed


section \<open>Recovery probes\<close>

lemma inspect_frames:
  "inspect_host HB ox k a v d l = (l', out) \<Longrightarrow> li_Records l' = li_Records l \<and> li_active l' = li_active l"
  "inspect_worker ox k l = (l', out) \<Longrightarrow> li_Records l' = li_Records l \<and> li_active l' = li_active l"
  "inspect_snapshot ox x l = (l', r) \<Longrightarrow> li_Records l' = li_Records l \<and> li_active l' = li_active l"
  by (auto simp: inspect_host_def inspect_worker_def inspect_snapshot_def Let_def split: if_splits prod.split_asm sum.split_asm)

lemma inspectLocal_frame:
  "inspectLocalExecution ox x l = (l', out) \<Longrightarrow> li_Records l' = li_Records l \<and> li_active l' = li_active l"
  by (auto simp: inspectLocalExecution_def Let_def split: if_splits prod.split_asm sum.split_asm dest: inspect_frames)

lemma inspect_snapshot_succeeded:
  "inspect_snapshot ox x l = (l', r) \<Longrightarrow> res_State r = ''succeeded'' \<Longrightarrow>
   \<exists>s as. lx_Verify ox (d_Model (p_Draft (x_Plan x))) (li_Outside l) = (s, Inr as) \<and> res_Artifacts r = as"
  by (auto simp: inspect_snapshot_def Let_def mk_result_def split: prod.split_asm sum.split_asm bool.split_asm)

text \<open>The evidence on which a local operation is reported as succeeded.\<close>

definition local_proof :: "'s Outside \<Rightarrow> Execution \<Rightarrow> 's \<Rightarrow> bool" where
  "local_proof ox x s \<longleftrightarrow>
     (if x_Action x = ''caches.configure''
      then \<exists>c. lx_Source ox s = Inr c \<and> c_Revision c = x_Revision x \<and> c_Caches c = c_Caches (p_Desired (x_Plan x))
      else lx_Stager ox \<and> lx_FindModel ox (d_Model (p_Draft (x_Plan x))) = None \<and>
        precondition ''reference_revision'' x \<in> {[], (case lx_Reference ox s of Inl _ \<Rightarrow> [] | Inr v \<Rightarrow> v)} \<and>
        (\<exists>s1 as. lx_Verify ox (d_Model (p_Draft (x_Plan x))) s = (s1, Inr as)))"

lemma inspectLocal_succeeded:
  assumes "inspectLocalExecution ox x l = (l', r, e)" and "res_State r = ''succeeded''"
  shows "local_proof ox x (li_Outside l)"
  using assms
  by (auto simp: inspectLocalExecution_def local_proof_def Let_def mk_result_def split: if_splits sum.split_asm prod.split_asm
      dest!: inspect_snapshot_succeeded)

text \<open>
  A recovery probe changes no record and answers only for the execution that was recorded: for an
  operation of the helper or the worker it returns without error only if a readable dispatch record carries the hash and the kind of
  exactly this execution; and a local operation is reported as succeeded only if the managed source holds its
  cache budget, or the store verifies its model under the reviewed reference revision.
\<close>
theorem recovery_probe_bound:
  assumes "InspectExecution H HB ox x l = (l', r, None)"
  shows "li_Records l' = li_Records l \<and> li_active l' = li_active l \<and>
    (if executionKind (x_Action x) = ''local''
     then res_State r = ''succeeded'' \<longrightarrow> local_proof ox x (li_Outside l)
     else \<exists>d. record_of l (x_ID x) = Recorded d \<and> di_Hash d = execution_hash H x \<and> di_Kind d = executionKind (x_Action x))"
proof (cases "executionKind (x_Action x) = ''local''")
  case True
  with assms show ?thesis
    by (auto simp: InspectExecution_def Let_def mk_result_def split: if_splits record_file.split_asm option.split_asm
        dest: inspectLocal_frame inspectLocal_succeeded)
next
  case False
  with assms show ?thesis
    by (auto simp: InspectExecution_def Let_def split: if_splits record_file.split_asm option.split_asm dest: inspect_frames)
qed

text \<open>
  C40: A status request that the helper refuses is taken for the outcome of the operation: the helper
  words every refusal as a result in state failed, and the adapter stores and returns it as proven, without
  recovery, although the accepted operation may still be running.
\<close>
theorem refused_status_is_final:
  assumes "execute_intent H ox x l = (l1, Go rec)" and "executionKind (x_Action x) = ''host''"
    and "host_Execute ox (li_Options l1) (host_request H x) (li_Outside l1) = (s1, hr, None)" and "\<not> Terminal (hr_State hr)"
    and "lx_Progress ox \<lparr>pg_Phase = hr_Phase hr, pg_Message = hr_Message hr, pg_Bytes = 0\<rparr> s1 = (s2, None)"
    and "lx_Wait ox s2 = (s3, False)" and "validID (x_ID x)" and "lo_HostSocket (li_Options l1) \<noteq> []"
    and "400 \<le> code" and "lx_HostGet ox (x_ID x) s3 = (s4, Answered code (snd (fail_response code message)))"
    and "lx_Write ox (rec\<lparr>di_Result := mk_result ''failed'' [] message False\<rparr>) s4 = Written"
  shows "\<exists>l2. live_Execute H HB ox x l =
      Some (l2, [ToHost (host_request H x)], mk_result ''failed'' [] message False, Some (Plain (''host executor: '' @ message))) \<and>
    record_of l2 (x_ID x) = Recorded (rec\<lparr>di_Result := mk_result ''failed'' [] message False\<rparr>)"
proof -
  define body where "body = snd (fail_response code message)"
  have body: "hr_State body = ''failed''" "hr_Phase body = []" "hr_Message body = message" "hr_Data body = []"
    by (simp_all add: body_def fail_response_def)
  have status: "host_Status ox (li_Options l1) (x_ID x) s3 = (s4, body, Some (Plain (''host executor: '' @ message)))"
    using assms(7-10) body by (simp add: host_Status_def host_call_def body_def)
  have poll: "host_poll ox (li_Options l1) (x_ID x) hr s1 = Some (s4, Polled body (Some (Plain (''host executor: '' @ message))))"
    by (subst host_poll.simps) (simp add: assms(4-6) status)
  have res: "host_result body = mk_result ''failed'' [] message False" using body by (simp add: host_result_def)
  have ev: "host_evidence True ox HB (x_Action x) (x_Revision x) body (r, e) = (r, e)" for r e
    using body by (simp add: host_evidence_def)
  have run: "execute_run H HB ox (li_Options l1) x (li_Outside l1) =
      Some (s4, [ToHost (host_request H x)], Ended (mk_result ''failed'' [] message False) (Some (Plain (''host executor: '' @ message))))"
    using assms(2,3) by (simp add: execute_run_def run_host_def poll ev res)
  have settled: "settle_result kind (mk_result ''failed'' [] message False) e = mk_result ''failed'' [] message False" for kind e
    by (cases e) (simp_all add: settle_result_def mk_result_def Terminal_def)
  show ?thesis
    using assms(1,11) by (simp add: live_Execute_def run execute_end_def settled save_record_def Let_def record_of_def deactivate_def map_of_update)
qed

section \<open>Examples\<close>

definition lv_H :: digest where "lv_H = (\<lambda>_. ''h'')"

definition lv_execution :: Execution where
  "lv_execution = \<lparr>x_ID = ''operation-1'', x_Actor = ''owner'',
     x_Plan = zero_plan\<lparr>p_Draft := zero_draft\<lparr>d_Action := ''hardware.refresh''\<rparr>\<rparr>\<rparr>"

definition lv_answer :: "int \<Rightarrow> string \<Rightarrow> HostResult answer" where
  "lv_answer code st = Answered code (zero_host_result\<lparr>hr_ID := ''operation-1'', hr_State := st\<rparr>)"

definition lv_outside :: "HostResult answer \<Rightarrow> unit Outside" where
  "lv_outside status = \<lparr>lx_Reference = (\<lambda>_. Inr ''ref''), lx_Source = (\<lambda>_. Inl (Plain [])),
     lx_HostPost = (\<lambda>_ s. (s, lv_answer 202 ''running'')), lx_HostGet = (\<lambda>_ s. (s, status)),
     lx_WorkerPost = (\<lambda>_ s. (s, Unreachable)), lx_WorkerGet = (\<lambda>_ s. (s, Unreachable)), lx_WorkerCancel = (\<lambda>_ s. s),
     lx_Progress = (\<lambda>_ s. (s, None)), lx_Wait = (\<lambda>s. (s, False)), lx_Stager = False, lx_FindModel = (\<lambda>_. None),
     lx_Stage = (\<lambda>_ s. (s, Inl (Plain []))), lx_Verify = (\<lambda>_ s. (s, Inl (Plain []))), lx_VerifyContent = (\<lambda>_ s. (s, Inl (Plain []))),
     lx_Present = (\<lambda>_ _. Inr False), lx_Budget = (\<lambda>_ s. s), lx_Memory = (\<lambda>_. Inl (Plain [])), lx_Performance = (\<lambda>_. Inl (Plain [])),
     lx_Object = (\<lambda>_. None), lx_ValidJSON = (\<lambda>_. False), lx_Bytes = (\<lambda>b. b), lx_Write = (\<lambda>_ _. Written)\<rparr>"

definition lv_options :: LiveOptions where
  "lv_options = \<lparr>lo_Target = ''t'', lo_Environment = ''dev'', lo_ReferenceRoot = ''/ref'', lo_StateDir = ''/state'',
     lo_SourcePath = ''/source'', lo_HostSocket = ''/run/host'', lo_WorkerSocket = []\<rparr>"

definition lv_live :: "unit Live" where
  "lv_live = \<lparr>li_Options = lv_options, li_Records = [], li_active = [], li_Outside = ()\<rparr>"

definition lv_started :: "unit Live" where
  "lv_started = lv_live\<lparr>li_Records := [(''operation-1'', Recorded (intent_record lv_H lv_execution))], li_active := [''operation-1'']\<rparr>"

lemmas lv_defs = lv_H_def lv_execution_def lv_answer_def lv_outside_def lv_options_def lv_live_def zero_host_result_def zero_draft_def

lemma lv_intent: "execute_intent lv_H (lv_outside status) lv_execution lv_live = (lv_started, Go (intent_record lv_H lv_execution))"
  by (simp add: execute_intent_def lv_started_def save_record_def record_of_def precondition_def lv_defs zero_plan_def zero_preview_def)

lemma lv_kind: "executionKind (x_Action lv_execution) = ''host''"
  by (simp add: executionKind_def lv_defs zero_plan_def)

lemma lv_valid: "validID (x_ID lv_execution)" "\<not> bad_identity (x_ID lv_execution)"
  by code_simp+

lemma lv_post: "host_Execute (lv_outside status) (li_Options lv_started) q () =
    ((), zero_host_result\<lparr>hr_ID := ''operation-1'', hr_State := ''running''\<rparr>, None)"
  by (simp add: host_Execute_def host_call_def lv_started_def lv_defs)

theorem adapter_dispatches_once_witness:
  "\<exists>m :: unit LiveMachine. lm_Log m = [lv_execution] \<and> distinct (map x_ID (lm_Log m)) \<and>
    record_of (lm_Live m) (x_ID lv_execution) \<noteq> NoRecord"
proof -
  define m :: "unit LiveMachine" where "m = \<lparr>lm_Live = lv_live, lm_Running = [], lm_Log = []\<rparr>"
  define m1 where "m1 = m\<lparr>lm_Live := lv_started, lm_Running := (lv_execution, intent_record lv_H lv_execution) # lm_Running m,
    lm_Log := lv_execution # lm_Log m\<rparr>"
  have i: "execute_intent lv_H (lv_outside Unreachable) lv_execution (lm_Live m) = (lv_started, Go (intent_record lv_H lv_execution))"
    by (simp add: m_def lv_intent)
  have "live_step lv_H (lv_outside Unreachable) m m1" unfolding m1_def by (rule live_step.dispatch) (rule i)
  moreover have "live_reachable lv_H (lv_outside Unreachable) m" unfolding m_def by (rule live_reachable.start)
  ultimately have "live_reachable lv_H (lv_outside Unreachable) m1" by (rule live_reachable.move [rotated])
  from adapter_dispatches_once [OF this] show ?thesis by (intro exI [of _ m1]) (simp add: m1_def m_def)
qed

declare host_poll.simps [code] waitWorker.simps [code]

lemma lv_succeeds:
  "case live_Execute lv_H (\<lambda>_. []) (lv_outside (lv_answer 200 ''succeeded'')) lv_execution lv_live of
     Some (l', snt, r, e) \<Rightarrow> length snt = 1 \<and> res_State r = ''succeeded'' \<and> e = None
   | None \<Rightarrow> False"
  by code_simp


lemma lv_probe:
  "case InspectExecution lv_H (\<lambda>_. []) (lv_outside (lv_answer 200 ''succeeded'')) lv_execution lv_started of
     (l', r, e) \<Rightarrow> res_State r = ''succeeded'' \<and> e = None"
  by code_simp

theorem recovery_probe_bound_witness:
  "\<exists>l' r. InspectExecution lv_H (\<lambda>_. []) (lv_outside (lv_answer 200 ''succeeded'')) lv_execution lv_started = (l', r, None) \<and>
     li_Records l' = li_Records lv_started \<and> res_State r = ''succeeded''"
proof -
  obtain l' r where run: "InspectExecution lv_H (\<lambda>_. []) (lv_outside (lv_answer 200 ''succeeded'')) lv_execution lv_started = (l', r, None)"
    and r: "res_State r = ''succeeded''" using lv_probe by (auto split: prod.splits)
  from recovery_probe_bound [OF run] run r show ?thesis by blast
qed

theorem refused_status_is_final_witness:
  "\<exists>l2 :: unit Live. record_of l2 (x_ID lv_execution) =
     Recorded ((intent_record lv_H lv_execution)\<lparr>di_Result := mk_result ''failed'' [] ''Unix peer is not authorized'' False\<rparr>)"
proof -
  let ?ox = "lv_outside (Answered 403 (snd (fail_response 403 ''Unix peer is not authorized'')))"
  let ?hr = "zero_host_result\<lparr>hr_ID := ''operation-1'', hr_State := ''running''\<rparr>"
  have o: "li_Outside lv_started = ()" "lo_HostSocket (li_Options lv_started) \<noteq> []" by (simp_all add: lv_started_def lv_defs)
  have p: "host_Execute ?ox (li_Options lv_started) (host_request lv_H lv_execution) (li_Outside lv_started) = ((), ?hr, None)"
    unfolding o(1) by (rule lv_post)
  have t: "\<not> Terminal (hr_State ?hr)" by (simp add: Terminal_def)
  have q: "lx_Progress ?ox g () = ((), None)" "lx_Wait ?ox () = ((), False)" "lx_Write ?ox d () = Written"
    "lx_HostGet ?ox k () = ((), Answered 403 (snd (fail_response 403 ''Unix peer is not authorized'')))" for g d k
    by (simp_all add: lv_outside_def)
  from refused_status_is_final [OF lv_intent lv_kind p t q(1,2) lv_valid(1) o(2) _ q(4,3), of "\<lambda>_. []"] show ?thesis by auto
qed

end
