(* ===== verification/Kube.thy ===== *)
theory Kube
  imports Executor
begin

text \<open>
  What the root helper reads from cluster and hardware documents: the accessors of \<open>hostexec/runtime.go\<close> on
  decoded JSON, Kubernetes quantities, the resource accounting of a Pod (\<open>inventory.go\<close>), the state of the
  serving Pod, and the reduction of a hardware report (\<open>hardware.go\<close>).

  A decoded document is a JSON tree whose numbers are \<open>JFloat\<close> and whose objects have distinct keys; \<open>nil\<close> is
  \<open>JNull\<close>. Floating point is kept apart from the reals: \<open>strconv.ParseFloat\<close>, the rounding of a product,
  printing and the conversion of a value outside the integers are arguments, and a parsed number may be infinite or not a number.
\<close>

section \<open>Floating point\<close>

datatype double = Fin rat | PInf | NInf | NaN

record GoFloat =
  gf_Sprint :: "json \<Rightarrow> string"
  gf_Parse :: "string \<Rightarrow> double \<times> bool"
  gf_Round :: "rat \<Rightarrow> double"
  gf_Int :: "double \<Rightarrow> int"
  gf_Format :: "rat \<Rightarrow> string"
  gf_Time :: "string \<Rightarrow> time"

definition negative :: "double \<Rightarrow> bool" where
  "negative d = (case d of Fin q \<Rightarrow> q < 0 | NInf \<Rightarrow> True | _ \<Rightarrow> False)"

definition exceeds_double :: "double \<Rightarrow> rat \<Rightarrow> bool" where
  "exceeds_double d x = (case d of Fin q \<Rightarrow> q > x | PInf \<Rightarrow> True | _ \<Rightarrow> False)"

definition scale :: "GoFloat \<Rightarrow> double \<Rightarrow> rat \<Rightarrow> double" where
  "scale gf d x = (case d of Fin q \<Rightarrow> gf_Round gf (q * x) | _ \<Rightarrow> d)"

text \<open>\<open>int64(f)\<close> truncates; outside the range of the type the result depends on the machine.\<close>

definition truncate_rat :: "rat \<Rightarrow> int" where
  "truncate_rat q = (if q < 0 then - \<lfloor>- q\<rfloor> else \<lfloor>q\<rfloor>)"

definition to_int :: "GoFloat \<Rightarrow> double \<Rightarrow> int" where
  "to_int gf d = (case d of Fin q \<Rightarrow> if in_i64 (truncate_rat q) then truncate_rat q else i64 (gf_Int gf d) | _ \<Rightarrow> i64 (gf_Int gf d))"

section \<open>Decoded documents\<close>

definition jobject :: "json \<Rightarrow> json gomap" where
  "jobject v = (case v of JObj m \<Rightarrow> m | _ \<Rightarrow> [])"

definition is_object :: "json \<Rightarrow> bool" where
  "is_object v = (case v of JObj _ \<Rightarrow> True | _ \<Rightarrow> False)"

definition jlist :: "json \<Rightarrow> json list" where
  "jlist v = (case v of JArr a \<Rightarrow> a | _ \<Rightarrow> [])"

definition jstr :: "json \<Rightarrow> string" where
  "jstr v = (case v of JStr s \<Rightarrow> s | _ \<Rightarrow> [])"

definition jget :: "json \<Rightarrow> string \<Rightarrow> json" where
  "jget v k = (case map_of (jobject v) k of None \<Rightarrow> JNull | Some x \<Rightarrow> x)"

definition nested :: "json \<Rightarrow> string list \<Rightarrow> json" where
  "nested v ks = foldl jget v ks"

definition number :: "GoFloat \<Rightarrow> json \<Rightarrow> double" where
  "number gf v = (case v of JFloat f \<Rightarrow> Fin f | JStr s \<Rightarrow> fst (gf_Parse gf s) | _ \<Rightarrow> Fin 0)"

section \<open>Quantities\<close>

definition msg_quantity :: string where "msg_quantity = ''unsupported Kubernetes resource quantity''"

definition memory_units :: "(string \<times> rat) list" where
  "memory_units = [(''Ki'', 1024), (''Mi'', 2 ^ 20), (''Gi'', 2 ^ 30), (''Ti'', 2 ^ 40), (''K'', 10 ^ 3), (''M'', 10 ^ 6), (''G'', 10 ^ 9)]"

fun cut_unit :: "(string \<times> rat) list \<Rightarrow> string \<Rightarrow> string \<times> rat" where
  "cut_unit [] s = (s, 1)"
| "cut_unit ((u, n) # us) s = (if HasSuffix s u then (TrimSuffix s u, n) else cut_unit us s)"

definition quantity_parts :: "string \<Rightarrow> bool \<Rightarrow> string \<times> rat" where
  "quantity_parts s cpu =
     (if cpu then (if HasSuffix s ''m'' then (TrimSuffix s ''m'', 1) else (s, 1000)) else cut_unit memory_units s)"

definition quantity :: "GoFloat \<Rightarrow> json \<Rightarrow> bool \<Rightarrow> err + int" where
  "quantity gf v cpu =
     (case quantity_parts (gf_Sprint gf v) cpu of
        (s, factor) \<Rightarrow>
          (case gf_Parse gf s of
             (n, parsed) \<Rightarrow>
               if \<not> parsed \<or> negative n \<or> exceeds_double (scale gf n factor) (2 ^ 60) then Inl (Plain msg_quantity)
               else Inr (to_int gf (scale gf n factor))))"

section \<open>What a Pod requests\<close>

definition budget_keys :: "string list" where
  "budget_keys = [''cpu'', ''memory'', ''amd.com/gpu'']"

fun add_requests :: "GoFloat \<Rightarrow> string \<Rightarrow> int \<Rightarrow> json list \<Rightarrow> err + int" where
  "add_requests gf key acc [] = Inr acc"
| "add_requests gf key acc (c # cs) =
     (let v = nested c [''resources'', ''requests'', key] in
      if v = JNull then add_requests gf key acc cs
      else case quantity gf v (key = ''cpu'') of
             Inl e \<Rightarrow> Inl e
           | Inr q \<Rightarrow> add_requests gf key (i64 (acc + q)) cs)"

fun max_init :: "GoFloat \<Rightarrow> err \<Rightarrow> string \<Rightarrow> int \<Rightarrow> json list \<Rightarrow> err + int" where
  "max_init gf refusal key m [] = Inr m"
| "max_init gf refusal key m (c # cs) =
     (let v = nested c [''resources'', ''requests'', key] in
      if jstr (jget c ''restartPolicy'') = ''Always'' then Inl refusal
      else if v = JNull then max_init gf refusal key m cs
      else case quantity gf v (key = ''cpu'') of
             Inl e \<Rightarrow> Inl e
           | Inr q \<Rightarrow> max_init gf refusal key (max m q) cs)"

text \<open>One key of a Pod: the greater of all containers and of one initial container, and the overhead.\<close>

definition pod_request :: "GoFloat \<Rightarrow> err \<Rightarrow> json \<Rightarrow> string \<Rightarrow> err + int" where
  "pod_request gf refusal pod key =
     (case add_requests gf key 0 (jlist (nested pod [''spec'', ''containers''])) of
        Inl e \<Rightarrow> Inl e
      | Inr acc \<Rightarrow>
          (case max_init gf refusal key 0 (jlist (nested pod [''spec'', ''initContainers''])) of
             Inl e \<Rightarrow> Inl e
           | Inr m \<Rightarrow>
               (let v = nested pod [''spec'', ''overhead'', key]; most = (if m > acc then m else acc) in
                if v = JNull then Inr most
                else case quantity gf v (key = ''cpu'') of Inl e \<Rightarrow> Inl e | Inr q \<Rightarrow> Inr (i64 (most + q)))))"

fun pod_requests :: "GoFloat \<Rightarrow> err \<Rightarrow> json \<Rightarrow> string list \<Rightarrow> err + int gomap" where
  "pod_requests gf refusal pod [] = Inr []"
| "pod_requests gf refusal pod (key # ks) =
     (case pod_request gf refusal pod key of
        Inl e \<Rightarrow> Inl e
      | Inr q \<Rightarrow> (case pod_requests gf refusal pod ks of Inl e \<Rightarrow> Inl e | Inr m \<Rightarrow> Inr ((key, q) # m)))"

definition amount :: "int gomap \<Rightarrow> string \<Rightarrow> int" where
  "amount m k = (case map_of m k of None \<Rightarrow> 0 | Some q \<Rightarrow> q)"

definition msg_pod_level :: string where "msg_pod_level = ''pod-level resource accounting requires qualification''"
definition msg_restartable :: string where "msg_restartable = ''restartable init resource accounting requires qualification''"

definition podBudget :: "GoFloat \<Rightarrow> json \<Rightarrow> err + int gomap" where
  "podBudget gf pod =
     (if nested pod [''spec'', ''resources''] \<noteq> JNull then Inl (Plain msg_pod_level)
      else pod_requests gf (Plain msg_restartable) pod budget_keys)"

text \<open>The ReplicaSets a Deployment owns, and the Pods that count beside the managed ones.\<close>

definition owner_uids :: "json \<Rightarrow> string list" where
  "owner_uids v = map (\<lambda>o1. jstr (jget o1 ''uid'')) (jlist (nested v [''metadata'', ''ownerReferences'']))"

definition replicas_of :: "string list \<Rightarrow> json \<Rightarrow> string list" where
  "replicas_of deployments rs =
     map (\<lambda>m. jstr (nested m [''metadata'', ''uid'']))
       (filter (\<lambda>m. list_ex (\<lambda>u. u \<in> set deployments) (owner_uids m)) (jlist (jget rs ''items'')))"

definition pod_finished :: "json \<Rightarrow> bool" where
  "pod_finished pod \<longleftrightarrow> jstr (nested pod [''status'', ''phase'']) = ''Succeeded'' \<or> jstr (nested pod [''status'', ''phase'']) = ''Failed''"

definition foreign_pod :: "string list \<Rightarrow> json \<Rightarrow> bool" where
  "foreign_pod managed pod \<longleftrightarrow> \<not> pod_finished pod \<and> \<not> list_ex (\<lambda>u. u \<in> set managed) (owner_uids pod)"

section \<open>The serving Pod\<close>

record ServingStatus =
  ss_State :: string
  ss_KubernetesReady :: "bool option"
  ss_RepresentativeWarmup :: string
  ss_Reason :: string
  ss_ObservedAt :: time
  ss_Identity :: string

definition msg_crash_oom :: string where
  "msg_crash_oom = ''SGLang is restarting repeatedly after a memory termination. Inspect the current bounded resource and memory evidence before retrying; do not treat it as model loading.''"
definition msg_crash :: string where
  "msg_crash = ''SGLang is restarting repeatedly. Inspect the bounded Kubernetes status and OOM/resource evidence before retrying; do not treat it as model loading.''"
definition msg_oom :: string where
  "msg_oom = ''SGLang was terminated for memory use. Inspect the current bounded resource and memory evidence before retrying; do not treat it as model loading.''"
definition msg_image :: string where
  "msg_image = ''SGLang image retrieval is unavailable. Inspect the qualified image reference and private registry access before retrying.''"
definition msg_terminated :: string where
  "msg_terminated = ''SGLang current container terminated. Inspect the bounded Kubernetes status and qualified runtime before retrying.''"
definition msg_loading :: string where
  "msg_loading = ''Kubernetes readiness is false. Loading, compilation and warmup phases are not independently observed by this probe.''"
definition msg_running_loading :: string where
  "msg_running_loading = ''SGLang is running but Kubernetes readiness is false. Loading, compilation and warmup phases are not independently observed by this probe.''"
definition msg_no_state :: string where
  "msg_no_state = ''SGLang has no recognized current container state. Inspect the bounded Kubernetes status and retry lifecycle observation.''"

definition servingNotReadyState :: "json \<Rightarrow> string \<times> string" where
  "servingNotReadyState container =
     (let state = jget container ''state''; waiting = jstr (nested state [''waiting'', ''reason'']);
          terminated = jstr (nested state [''terminated'', ''reason'']) in
      if waiting = ''CrashLoopBackOff'' then
        (''unavailable'', if jstr (nested (jget container ''lastState'') [''terminated'', ''reason'']) = ''OOMKilled'' then msg_crash_oom else msg_crash)
      else if terminated = ''OOMKilled'' then (''unavailable'', msg_oom)
      else if waiting = ''ImagePullBackOff'' \<or> waiting = ''ErrImagePull'' then (''unavailable'', msg_image)
      else if is_object (jget state ''terminated'') then (''unavailable'', msg_terminated)
      else if is_object (jget state ''waiting'') \<and> (waiting = ''ContainerCreating'' \<or> waiting = ''PodInitializing'') then (''model-loading'', msg_loading)
      else if is_object (jget state ''running'') then (''model-loading'', msg_running_loading)
      else (''unknown'', msg_no_state))"

definition msg_no_pod :: string where
  "msg_no_pod = ''No unique current AI Pod/process; inspect the explicit target and retry status, not prior inference/tool work.''"
definition msg_not_ai :: string where
  "msg_not_ai = ''AI is not in a settled AI profile. Complete the explicit transition/recovery before submitting new inference.''"
definition msg_many_pods :: string where "msg_many_pods = ''Multiple active AI Pods; rollout identity is not settled.''"
definition msg_healthy :: string where
  "msg_healthy = ''Kubernetes Ready; representative warmth is unknown. Run the explicit non-root serving-warm-status command with fresh evidence; Bridge cannot launch that harness through its root helper.''"

definition unknown_status :: "time \<Rightarrow> ServingStatus" where
  "unknown_status now = \<lparr>ss_State = ''unknown'', ss_KubernetesReady = None, ss_RepresentativeWarmup = ''unknown'',
     ss_Reason = msg_no_pod, ss_ObservedAt = now, ss_Identity = []\<rparr>"

definition active_ai_pod :: "string list \<Rightarrow> string \<Rightarrow> string \<Rightarrow> json \<Rightarrow> bool" where
  "active_ai_pod aiReplicas target namespace p \<longleftrightarrow>
     jstr (nested p [''metadata'', ''namespace'']) = namespace \<and> jstr (nested p [''spec'', ''nodeName'']) = target \<and>
     list_ex (\<lambda>u. u \<in> set aiReplicas) (owner_uids p) \<and> nested p [''metadata'', ''deletionTimestamp''] = JNull \<and> \<not> pod_finished p"

definition serving_identity :: "digest \<Rightarrow> json \<Rightarrow> json \<Rightarrow> string" where
  "serving_identity H pod c = H (JObj
     [(''pod'', nested pod [''metadata'', ''uid'']), (''container'', jget c ''containerID''), (''image'', jget c ''imageID''),
      (''restart'', jget c ''restartCount''), (''started'', nested c [''state'', ''running'', ''startedAt''])])"

definition container_status :: "digest \<Rightarrow> json \<Rightarrow> json \<Rightarrow> ServingStatus \<Rightarrow> ServingStatus" where
  "container_status H pod c s =
     (case jget c ''ready'' of
        JBool ready \<Rightarrow>
          if jstr (nested pod [''metadata'', ''uid'']) = [] then s
          else if jstr (jget c ''containerID'') = [] \<or> jstr (jget c ''imageID'') = [] then
            (let waiting = jstr (nested c [''state'', ''waiting'', ''reason'']) in
             if \<not> ready \<and> length (jobject (jget c ''state'')) = 1 \<and> (waiting = ''ImagePullBackOff'' \<or> waiting = ''ErrImagePull'')
             then s\<lparr>ss_KubernetesReady := Some ready, ss_State := fst (servingNotReadyState c), ss_Reason := snd (servingNotReadyState c)\<rparr>
             else s)
          else if \<not> ready then
            s\<lparr>ss_KubernetesReady := Some ready, ss_Identity := serving_identity H pod c,
              ss_State := fst (servingNotReadyState c), ss_Reason := snd (servingNotReadyState c)\<rparr>
          else s\<lparr>ss_KubernetesReady := Some ready, ss_Identity := serving_identity H pod c, ss_State := ''healthy'', ss_Reason := msg_healthy\<rparr>
      | _ \<Rightarrow> s)"

definition observedServingStatus :: "digest \<Rightarrow> time \<Rightarrow> json \<Rightarrow> string list \<Rightarrow> string \<Rightarrow> string \<Rightarrow> string \<Rightarrow> ServingStatus" where
  "observedServingStatus H now pods aiReplicas target namespace profile =
     (let s = unknown_status now in
      if profile = ''gaming'' \<or> profile = ''maintenance'' \<or> profile = ''recovery-required''
      then s\<lparr>ss_State := ''not-applicable'', ss_RepresentativeWarmup := ''not-applicable'', ss_Reason := msg_not_ai\<rparr>
      else case filter (active_ai_pod aiReplicas target namespace) (jlist (jget pods ''items'')) of
             [] \<Rightarrow> s
           | p # p' # ps \<Rightarrow> s\<lparr>ss_Reason := msg_many_pods\<rparr>
           | [p] \<Rightarrow>
               (case filter (\<lambda>c. jstr (jget c ''name'') = ''sglang'') (jlist (nested p [''status'', ''containerStatuses''])) of
                  [] \<Rightarrow> s
                | c # _ \<Rightarrow> container_status H p c s))"

section \<open>The hardware report\<close>

definition trained_speed :: "string \<Rightarrow> json \<Rightarrow> string" where
  "trained_speed known d =
     (let speed = jstr (jget d ''configured_speed'') in
      if speed = [] then known
      else if known = ''unknown'' then speed
      else if known \<noteq> speed then ''mixed or unknown'' else known)"

definition sanitize_gpu :: "json \<Rightarrow> GPU" where
  "sanitize_gpu g = \<lparr>g_ID = jstr (jget g ''bdf''), g_Model = ''AMD PCI '' @ jstr (jget g ''device_id''),
     g_RenderPath = (case jlist (jget g ''render_nodes'') of [] \<Rightarrow> [] | n # _ \<Rightarrow> ''/dev/dri/'' @ jstr n), g_MemoryMiB = 0\<rparr>"

text \<open>A type assertion to \<open>float64\<close>; a failed one yields zero.\<close>

definition as_float :: "json \<Rightarrow> rat option" where
  "as_float v = (case v of JFloat f \<Rightarrow> Some f | _ \<Rightarrow> None)"

definition float_or_0 :: "json \<Rightarrow> rat" where
  "float_or_0 v = (case as_float v of Some f \<Rightarrow> f | None \<Rightarrow> 0)"

text \<open>The first loop over the processors: \<open>seen\<close>, the width and whether the topology is still known.\<close>

fun topology_cpus :: "rat list \<Rightarrow> int \<Rightarrow> bool \<Rightarrow> json list \<Rightarrow> rat list \<times> int \<times> bool" where
  "topology_cpus seen width known [] = (seen, width, known)"
| "topology_cpus seen width known (cpu # cpus) =
     (let siblings = jlist (jget cpu ''thread_siblings''); n = int (length siblings); k = float_or_0 (jget cpu ''cpu'') in
      topology_cpus (k # seen) (if width = 0 then n else width)
        (known \<and> as_float (jget cpu ''cpu'') \<noteq> None \<and> k \<notin> set seen \<and> siblings \<noteq> [] \<and> jget cpu ''core_id'' \<noteq> JNull \<and>
         jget cpu ''socket_id'' \<noteq> JNull \<and> (width = 0 \<or> width = n)) cpus)"

definition same_core :: "json list \<Rightarrow> rat \<Rightarrow> rat \<Rightarrow> json list" where
  "same_core cpus core socket = filter (\<lambda>m. jget m ''core_id'' = JFloat core \<and> jget m ''socket_id'' = JFloat socket) cpus"

text \<open>The loop over the siblings: each is a number, expected and new.\<close>

fun siblings_ok :: "double list \<Rightarrow> double list \<Rightarrow> json list \<Rightarrow> bool \<times> double list" where
  "siblings_ok expected seen [] = (True, seen)"
| "siblings_ok expected seen (s # ss) =
     (let n = Fin (float_or_0 s); r = siblings_ok expected (if n \<in> set seen then seen else n # seen) ss in
      (as_float s \<noteq> None \<and> n \<in> set expected \<and> n \<notin> set seen \<and> fst r, snd r))"

definition core_ok :: "GoFloat \<Rightarrow> json list \<Rightarrow> json \<Rightarrow> bool" where
  "core_ok gf cpus cpu =
     (case (as_float (jget cpu ''core_id''), as_float (jget cpu ''socket_id'')) of
        (Some core, Some socket) \<Rightarrow>
          0 \<le> core \<and> 0 \<le> socket \<and>
          (let expected = remdups (map (\<lambda>m. number gf (jget m ''cpu'')) (same_core cpus core socket));
               r = siblings_ok expected [] (jlist (jget cpu ''thread_siblings'')) in
           fst r \<and> length (snd r) = length expected)
      | _ \<Rightarrow> False)"

definition topology_known :: "GoFloat \<Rightarrow> json list \<Rightarrow> json list \<Rightarrow> bool" where
  "topology_known gf online cpus =
     (case topology_cpus [] 0 (online \<noteq> [] \<and> length cpus = length online) cpus of
        (seen, width, known) \<Rightarrow>
          known \<and> list_all (\<lambda>k. as_float k \<noteq> None \<and> float_or_0 k \<in> set seen) online \<and> list_all (core_ok gf cpus) cpus)"

definition topology_width :: "json list \<Rightarrow> int" where
  "topology_width cpus = fst (snd (topology_cpus [] 0 True cpus))"

definition msg_channels :: string where
  "msg_channels = ''Host channels and memory bandwidth are unmeasured; GPU count does not select physical cards or combine VRAM.''"
definition msg_cpu_manager :: string where
  "msg_cpu_manager = ''CPU Manager policy and other workload budgets require a current cluster probe.''"

definition SanitizeHardware :: "GoFloat \<Rightarrow> json \<Rightarrow> string \<Rightarrow> Hardware" where
  "SanitizeHardware gf raw boot =
     (let dimms = jlist (nested raw [''memory'', ''dimms'']); online = jlist (nested raw [''cpu_topology'', ''online_cpus'']);
          cpus = jlist (nested raw [''cpu_topology'', ''cpus'']); known = topology_known gf online cpus;
          width = topology_width cpus; bytes = to_int gf (number gf (nested raw [''memory'', ''total_bytes''])) in
      zero_hardware\<lparr>h_Status := jstr (jget raw ''status''), h_BootID := boot, h_CurrentBootID := boot,
        h_Channels := ''unknown'', h_TrainedSpeed := foldl trained_speed ''unknown'' dimms, h_CPUManagerPolicy := ''unknown'',
        h_HostReserveMiB := 12288, h_KubeReserveMiB := 6144, h_Warnings := [msg_channels, msg_cpu_manager],
        h_ObservedAt := gf_Time gf (jstr (jget raw ''collected_at'')),
        h_MemoryMiB := (if bytes < 0 then - (- bytes div 2 ^ 20) else bytes div 2 ^ 20),
        h_DIMMs := int (length (filter (\<lambda>d. jstr (jget d ''size'') \<noteq> []) dimms)),
        h_GPUs := map sanitize_gpu (jlist (jget raw ''pci_gpus'')), h_CPUThreads := int (length online),
        h_TopologyKnown := known, h_SMTWidth := (if known then width else 0), h_ReservedCPU := (if known then 3 * width else 0)\<rparr>)"

end
