(* ===== verification/Runtime.thy ===== *)
theory Runtime
  imports Kube
begin

text \<open>
  The runtime actions of the root helper: \<open>hostexec/runtime.go\<close>, \<open>models.go\<close>, the collector calls of
  \<open>hardware.go\<close> and the snapshot of \<open>inventory.go\<close>.

  An action is a function on a shell: the state \<open>'s\<close> of the machine and the cluster, the commands run so far
  and the flag \<open>effectStarted\<close>. Commands, files and clocks are functions on that state, so nothing is assumed of
  what \<open>kubectl\<close> or the installed runtime do. Reading memory and performance evidence is an argument.
\<close>

section \<open>Commands\<close>

record command =
  cm_Path :: string
  cm_Args :: "string list"
  cm_Env :: "string list"
  cm_Lock :: bool
  cm_Input :: string

text \<open>How a started process ends: its exit status with what it wrote, chunk by chunk, or the deadline.\<close>

datatype run_outcome = CannotStart | Exited bool "string list" | Overdue

record SessionState =
  sn_Mode :: string
  sn_Phase :: string
  sn_AI :: int
  sn_Game :: int

record 's HostMachine =
  mx_Expired :: "'s \<Rightarrow> bool"
  mx_Run :: "command \<Rightarrow> 's \<Rightarrow> 's \<times> run_outcome"
  mx_Read :: "string \<Rightarrow> 's \<Rightarrow> err + string"
  mx_Host :: "'s \<Rightarrow> Host"
  mx_Mkdir :: "string \<Rightarrow> 's \<Rightarrow> 's \<times> err option"
  mx_Publish :: "string \<Rightarrow> string \<Rightarrow> 's \<Rightarrow> 's \<times> err option"
  mx_Remove :: "string \<Rightarrow> 's \<Rightarrow> 's \<times> err option"
  mx_Sync :: "string \<Rightarrow> 's \<Rightarrow> err option"
  mx_World :: "'s \<Rightarrow> World"
  mx_Records :: "'s \<Rightarrow> HostRecord gomap"
  mx_Evidence :: "HostRequest \<Rightarrow> 's \<Rightarrow> 's \<times> (err + string)"
  mx_JSON :: "string \<Rightarrow> json option"
  mx_Encode :: "json \<Rightarrow> string"
  mx_Session :: "string \<Rightarrow> SessionState option"
  mx_Previous :: "string \<Rightarrow> (int \<times> int) option"
  mx_Report :: "string \<Rightarrow> (time \<times> string) option"
  mx_OpenRoot :: "string \<Rightarrow> 's \<Rightarrow> err option"
  mx_Model :: "string \<Rightarrow> 's \<Rightarrow> Entry list"
  mx_Float :: GoFloat

record 's Shell =
  sh_Out :: 's
  sh_Trace :: "command list"
  sh_Started :: bool

type_synonym ('s, 'a) action = "'s Shell \<Rightarrow> 's Shell \<times> (err + 'a)"

definition give :: "'a \<Rightarrow> ('s, 'a) action" where
  "give a sh = (sh, Inr a)"

definition refuse_with :: "err \<Rightarrow> ('s, 'a) action" where
  "refuse_with e sh = (sh, Inl e)"

definition and_do :: "('s, 'a) action \<Rightarrow> ('a \<Rightarrow> ('s, 'b) action) \<Rightarrow> ('s, 'b) action" where
  "and_do m f sh = (case m sh of (sh1, Inl e) \<Rightarrow> (sh1, Inl e) | (sh1, Inr a) \<Rightarrow> f a sh1)"

text \<open>A check of the current state, and a value read from it.\<close>

definition require :: "('s \<Rightarrow> err option) \<Rightarrow> ('s, unit) action" where
  "require f sh = (case f (sh_Out sh) of Some e \<Rightarrow> (sh, Inl e) | None \<Rightarrow> (sh, Inr ()))"

definition look_up :: "('s \<Rightarrow> err + 'a) \<Rightarrow> ('s, 'a) action" where
  "look_up f sh = (sh, f (sh_Out sh))"

definition changing :: "('s \<Rightarrow> 's \<times> err option) \<Rightarrow> ('s, unit) action" where
  "changing f sh = (case f (sh_Out sh) of
     (s, Some e) \<Rightarrow> (sh\<lparr>sh_Out := s\<rparr>, Inl e) | (s, None) \<Rightarrow> (sh\<lparr>sh_Out := s\<rparr>, Inr ()))"

definition msg_output_limit :: string where "msg_output_limit = ''executor output limit exceeded''"
definition msg_deadline_before :: string where "msg_deadline_before = ''runtime deadline expired before dispatch''"
definition msg_cannot_start :: string where "msg_cannot_start = ''installed runtime executable could not start''"
definition msg_refused :: string where
  "msg_refused = ''reviewed runtime refused or failed the operation; inspect target qualification, RBAC and legacy recovery state''"
definition msg_deadline :: string where
  "msg_deadline = ''bounded runtime deadline expired; external outcome requires recovery''"

text \<open>\<open>boundedBuffer\<close>: a write that does not fit is refused whole.\<close>

definition bounded_write :: "int \<Rightarrow> string \<Rightarrow> string \<Rightarrow> err + string" where
  "bounded_write limit buf p =
     (if int (length p) > limit - int (length buf) then Inl (Plain msg_output_limit) else Inr (buf @ p))"

fun bounded_copy :: "int \<Rightarrow> string \<Rightarrow> string list \<Rightarrow> err + string" where
  "bounded_copy limit buf [] = Inr buf"
| "bounded_copy limit buf (p # ps) =
     (case bounded_write limit buf p of Inl e \<Rightarrow> Inl e | Inr b \<Rightarrow> bounded_copy limit b ps)"

definition run_value :: "int \<Rightarrow> run_outcome \<Rightarrow> err + string" where
  "run_value limit o1 = (case o1 of
       CannotStart \<Rightarrow> Inl (Plain msg_cannot_start)
     | Exited success chunks \<Rightarrow>
         (case bounded_copy limit [] chunks of
            Inl _ \<Rightarrow> Inl (Plain msg_refused)
          | Inr out \<Rightarrow> if success then Inr out else Inl (Plain msg_refused))
     | Overdue \<Rightarrow> Inl (Plain msg_deadline))"

definition runFixed :: "'s HostMachine \<Rightarrow> command \<Rightarrow> int \<Rightarrow> ('s, string) action" where
  "runFixed mx c limit sh =
     (if mx_Expired mx (sh_Out sh) then (sh, Inl (Plain msg_deadline_before))
      else case mx_Run mx c (sh_Out sh) of
             (s, o1) \<Rightarrow> (sh\<lparr>sh_Out := s, sh_Trace := sh_Trace sh @ [c]\<rparr>, run_value limit o1))"

definition runtime_environment :: "Policy \<Rightarrow> string list" where
  "runtime_environment p = [''PATH=/usr/bin:/bin:/opt/rocm/bin'', ''LANG=C'', ''LC_ALL=C'', ''HOME=/var/empty'',
     ''KUBECONFIG='' @ po_Kubeconfig p, ''WORKSTATION_SESSION_LOCK_FD=3'']"

definition workstationctl :: "Policy \<Rightarrow> string list \<Rightarrow> string list \<Rightarrow> command" where
  "workstationctl p env args = \<lparr>cm_Path = Join (po_RuntimeRoot p) ''bin/workstationctl'', cm_Args = ''--config'' # po_WorkstationConfig p # args,
     cm_Env = env, cm_Lock = True, cm_Input = []\<rparr>"

definition kube_fixed :: "Policy \<Rightarrow> string list" where
  "kube_fixed p = [''--kubeconfig'', po_Kubeconfig p, ''--context'', po_Context p, ''--request-timeout=15s'']"

definition kubectl :: "Policy \<Rightarrow> string \<Rightarrow> string list \<Rightarrow> command" where
  "kubectl p input args = \<lparr>cm_Path = po_Kubectl p, cm_Args = kube_fixed p @ args, cm_Env = runtime_environment p,
     cm_Lock = False, cm_Input = input\<rparr>"

definition msg_kube_response :: string where "msg_kube_response = ''bounded Kubernetes response is invalid''"

definition kube :: "'s HostMachine \<Rightarrow> Policy \<Rightarrow> string \<Rightarrow> string list \<Rightarrow> ('s, json) action" where
  "kube mx p input args =
     and_do (runFixed mx (kubectl p input args) (4 * 2 ^ 20))
       (\<lambda>b. case mx_JSON mx b of None \<Rightarrow> refuse_with (Plain msg_kube_response) | Some v \<Rightarrow> give v)"

definition get_deployment :: "'s HostMachine \<Rightarrow> Policy \<Rightarrow> string \<Rightarrow> ('s, json) action" where
  "get_deployment mx p name = kube mx p [] [''-n'', po_Namespace p, ''get'', ''deployment'', name, ''-o'', ''json'']"

section \<open>Sessions\<close>

definition template :: "json \<Rightarrow> json" where
  "template v = nested v [''spec'', ''template'']"

definition pod_spec :: "json \<Rightarrow> string \<Rightarrow> json list" where
  "pod_spec v k = jlist (nested v [''spec'', ''template'', ''spec'', k])"

definition nonempty :: "string list \<Rightarrow> string list" where
  "nonempty xs = filter (\<lambda>n. n \<noteq> []) xs"

text \<open>The names of all ConfigMaps a template refers to; the order of a Go map is arbitrary.\<close>

definition config_references :: "json \<Rightarrow> string list" where
  "config_references target = remdups (
     concat (map (\<lambda>c. nonempty (map (\<lambda>f. jstr (nested f [''configMapRef'', ''name''])) (jlist (jget c ''envFrom'')))
       @ nonempty (map (\<lambda>v. jstr (nested v [''valueFrom'', ''configMapKeyRef'', ''name''])) (jlist (jget c ''env''))))
       (pod_spec target ''containers'' @ pod_spec target ''initContainers''))
     @ nonempty (map (\<lambda>v. jstr (nested v [''configMap'', ''name''])) (pod_spec target ''volumes'')))"

definition msg_config_unqualified :: string where
  "msg_config_unqualified = ''session configuration reference is not independently qualified''"
definition msg_config_changed :: string where "msg_config_changed = ''session ConfigMap changed from root qualification''"

definition gomap_string :: "string gomap \<Rightarrow> string \<Rightarrow> string" where
  "gomap_string m k = (case map_of m k of None \<Rightarrow> [] | Some v \<Rightarrow> v)"

fun check_references :: "digest \<Rightarrow> 's HostMachine \<Rightarrow> Policy \<Rightarrow> string gomap \<Rightarrow> string list \<Rightarrow> ('s, unit) action" where
  "check_references H mx p hashes [] = give ()"
| "check_references H mx p hashes (name # names) =
     (if length (gomap_string hashes name) \<noteq> 64 then refuse_with (Plain msg_config_unqualified)
      else and_do (kube mx p [] [''-n'', po_Namespace p, ''get'', ''configmap'', name, ''-o'', ''json''])
        (\<lambda>m. if H (JObj [(''data'', jget m ''data''), (''binaryData'', jget m ''binaryData'')]) \<noteq> gomap_string hashes name
             then refuse_with (Plain msg_config_changed) else check_references H mx p hashes names))"

definition checkConfigMaps :: "digest \<Rightarrow> 's HostMachine \<Rightarrow> Policy \<Rightarrow> json \<Rightarrow> string gomap \<Rightarrow> ('s, unit) action" where
  "checkConfigMaps H mx p target hashes = check_references H mx p hashes (config_references target)"

definition msg_template :: string where
  "msg_template = ''session Pod template qualification is absent, changed or expired in independent root policy''"

definition session_qualified :: "digest \<Rightarrow> time \<Rightarrow> string \<Rightarrow> json \<Rightarrow> string \<times> SessionQualification \<Rightarrow> bool" where
  "session_qualified H now profile target = (\<lambda>(key, q).
     (key = profile \<or> HasPrefix key (profile @ ''/'')) \<and> now < sq_ExpiresAt q \<and> sq_TemplateHash q = H (template target))"

definition qualifySession :: "digest \<Rightarrow> 's HostMachine \<Rightarrow> Policy \<Rightarrow> string \<Rightarrow> json \<Rightarrow> json \<Rightarrow> ('s, unit) action" where
  "qualifySession H mx p profile ai game sh =
     (let target = (if profile = ''gaming'' then game else ai) in
      case filter (session_qualified H (wo_Now (mx_World mx (sh_Out sh))) profile target) (po_SessionQualifications p) of
        [] \<Rightarrow> (sh, Inl (Plain msg_template))
      | (_, q) # _ \<Rightarrow> checkConfigMaps H mx p target (sq_ConfigMaps q) sh)"

definition msg_restoration :: string where "msg_restoration = ''invalid legacy restoration snapshot''"

definition session_file :: "Policy \<Rightarrow> string" where
  "session_file p = Join (po_SessionDir p) ''state.json''"

definition session_desired :: "'s HostMachine \<Rightarrow> Policy \<Rightarrow> string \<Rightarrow> ('s, string) action" where
  "session_desired mx p profile =
     (if profile = ''restore'' then
        and_do (look_up (mx_Read mx (session_file p)))
          (\<lambda>b. case mx_Previous mx b of
                 None \<Rightarrow> refuse_with (Plain msg_restoration)
               | Some (ai, game) \<Rightarrow> give (if game = 1 then ''gaming'' else if ai = 1 then ''ai'' else ''maintenance''))
      else give profile)"

definition session_args :: "Policy \<Rightarrow> string \<Rightarrow> string list" where
  "session_args p profile =
     (if profile = ''restore'' then [''session'', ''restore'', po_HardwarePath p, po_SessionDir p, ''--execute'']
      else [''session'', ''switch'', profile, po_HardwarePath p, po_SessionDir p, ''--execute''])"

definition start_effect :: "('s, unit) action" where
  "start_effect sh = (sh\<lparr>sh_Started := True\<rparr>, Inr ())"

definition run_session :: "'s HostMachine \<Rightarrow> Policy \<Rightarrow> string \<Rightarrow> string list \<Rightarrow> ('s, unit) action" where
  "run_session mx p profile env =
     and_do start_effect (\<lambda>_. and_do (runFixed mx (workstationctl p env (session_args p profile)) (64 * 2 ^ 10)) (\<lambda>_. give ()))"

definition session_template :: "digest \<Rightarrow> digest \<Rightarrow> 's HostMachine \<Rightarrow> Policy \<Rightarrow> string \<Rightarrow> ('s, string list) action" where
  "session_template H HT mx p desired =
     (if desired = ''ai'' \<or> desired = ''gaming'' then
        and_do (get_deployment mx p (if desired = ''gaming'' then po_GameDeployment p else po_AIDeployment p))
          (\<lambda>doc. and_do (qualifySession H mx p desired doc doc)
            (\<lambda>_. give [(if desired = ''gaming'' then ''WORKSTATION_SESSION_GAME_TEMPLATE_SHA256='' else ''WORKSTATION_SESSION_AI_TEMPLATE_SHA256='')
                  @ HT (template doc)]))
      else give [])"

definition host_session :: "digest \<Rightarrow> digest \<Rightarrow> 's HostMachine \<Rightarrow> Policy \<Rightarrow> string \<Rightarrow> ('s, unit) action" where
  "host_session H HT mx p profile =
     and_do (session_desired mx p profile)
       (\<lambda>desired. and_do (session_template H HT mx p desired)
         (\<lambda>extra. run_session mx p profile (runtime_environment p @ extra)))"

section \<open>The serving candidate\<close>

definition jset :: "json \<Rightarrow> string \<Rightarrow> json \<Rightarrow> json" where
  "jset v k x = JObj (AList.update k x (jobject v))"

fun jmodify :: "(json \<Rightarrow> json) \<Rightarrow> json \<Rightarrow> string list \<Rightarrow> json" where
  "jmodify f v [] = f v"
| "jmodify f v (k # ks) = jset v k (jmodify f (jget v k) ks)"

definition msg_single_container :: string where
  "msg_single_container = ''serving adapter requires the existing single-container SGLang deployment''"
definition msg_engine :: string where
  "msg_engine = ''engine image, SGLang container or deployment qualification does not match root policy''"
definition msg_command :: string where "msg_command = ''SGLang command changed from reviewed deployment contract''"
definition msg_offload :: string where "msg_offload = ''malformed existing CPU offload argument''"
definition msg_shm :: string where "msg_shm = ''shared-memory volume changed from reviewed abstraction''"
definition msg_no_shm :: string where "msg_no_shm = ''reviewed shared-memory volume is missing''"

fun without_offload :: "json list \<Rightarrow> err + json list" where
  "without_offload [] = Inr []"
| "without_offload [a] =
     (if jstr a = ''--cpu-offload-gb'' then Inl (Plain msg_offload)
      else Inr (if HasPrefix (jstr a) ''--cpu-offload-gb='' then [] else [a]))"
| "without_offload (a # b # as) =
     (if jstr a = ''--cpu-offload-gb'' then without_offload as
      else case without_offload (b # as) of
             Inl e \<Rightarrow> Inl e
           | Inr r \<Rightarrow> Inr (if HasPrefix (jstr a) ''--cpu-offload-gb='' then r else a # r))"

definition zero_qualification :: Qualification where
  "zero_qualification = \<lparr>q_Image = [], q_ModelRevision = [], q_ModelPath = [], q_ExpiresAt = zero_time, q_HostModelPath = [], q_Files = []\<rparr>"

definition qualification_of :: "digest \<Rightarrow> Policy \<Rightarrow> Configuration \<Rightarrow> Qualification" where
  "qualification_of H p c = (case map_of (po_QualifiedConfigurations p) (ConfigurationHash H (c_Serving c) (c_Resources c)) of
     None \<Rightarrow> zero_qualification | Some q \<Rightarrow> q)"

text \<open>The environment variables the candidate sets.\<close>

definition tuning :: "GoFloat \<Rightarrow> Qualification \<Rightarrow> Configuration \<Rightarrow> string gomap" where
  "tuning gf q c = [(''MODEL_PATH'', q_ModelPath q), (''MODEL_REVISION'', q_ModelRevision q), (''SERVED_MODEL_NAME'', s_Model (c_Serving c)),
     (''CONTEXT_LENGTH'', Itoa (s_Context (c_Serving c))), (''MEM_FRACTION_STATIC'', gf_Format gf (s_MemoryFraction (c_Serving c))),
     (''MAX_RUNNING_REQUESTS'', Itoa (s_Concurrency (c_Serving c))), (''TENSOR_PARALLEL'', Itoa (r_GPUCount (c_Resources c)))]"

definition tuned_env :: "string gomap \<Rightarrow> json list \<Rightarrow> json list" where
  "tuned_env values env = filter (\<lambda>v. map_of values (jstr (jget v ''name'')) = None) env
     @ map (\<lambda>(k, v). JObj [(''name'', JStr k), (''value'', JStr v)]) values"

definition budget_json :: "Configuration \<Rightarrow> json" where
  "budget_json c = JObj [(''cpu'', JStr (Itoa (r_CPU (c_Resources c)))), (''memory'', JStr (Itoa (r_MemoryMiB (c_Resources c)) @ ''Mi'')),
     (''amd.com/gpu'', JStr (Itoa (r_GPUCount (c_Resources c))))]"

definition tuned_container :: "GoFloat \<Rightarrow> Qualification \<Rightarrow> Configuration \<Rightarrow> json list \<Rightarrow> json \<Rightarrow> json" where
  "tuned_container gf q c args v =
     jset (jset (jset v ''args'' (JArr (args @ [JStr ''--cpu-offload-gb'', JStr (Itoa (s_CPUOffloadGiB (c_Serving c)))])))
       ''env'' (JArr (tuned_env (tuning gf q c) (jlist (jget v ''env'')))))
       ''resources'' (JObj [(''requests'', budget_json c), (''limits'', budget_json c)])"

definition shm_volume :: "json \<Rightarrow> bool" where
  "shm_volume v \<longleftrightarrow> jstr (jget v ''name'') = ''shm''"

definition sized_volume :: "Configuration \<Rightarrow> json \<Rightarrow> json" where
  "sized_volume c v = (if shm_volume v
     then jmodify (\<lambda>_. JStr (Itoa (r_SharedMemoryMiB (c_Resources c)) @ ''Mi'')) v [''emptyDir'', ''sizeLimit''] else v)"

definition volumes_path :: "string list" where "volumes_path = [''spec'', ''template'', ''spec'', ''volumes'']"
definition containers_path :: "string list" where "containers_path = [''spec'', ''template'', ''spec'', ''containers'']"

definition serving_checks :: "digest \<Rightarrow> Policy \<Rightarrow> json \<Rightarrow> Configuration \<Rightarrow> err option" where
  "serving_checks H p current c =
     (let cs = pod_spec current ''containers''; v = hd cs in
      first_fail
        [(length cs \<noteq> 1 \<or> pod_spec current ''initContainers'' \<noteq> [], Plain msg_single_container),
         (jstr (jget v ''name'') \<noteq> ''sglang'' \<or> jstr (jget v ''image'') \<noteq> q_Image (qualification_of H p c) \<or>
          jstr (nested current [''metadata'', ''annotations'', ''workstation.ai/qualification'']) \<noteq> ''qualified'' \<or>
          jstr (nested current [''spec'', ''strategy'', ''type'']) \<noteq> ''Recreate'', Plain msg_engine),
         (H (jget v ''command'') \<noteq> H (JArr [JStr ''python3'', JStr ''-m'', JStr ''sglang.launch_server'']), Plain msg_command)])"

definition servingCandidate :: "digest \<Rightarrow> GoFloat \<Rightarrow> Policy \<Rightarrow> json \<Rightarrow> Configuration \<Rightarrow> err + json" where
  "servingCandidate H gf p current c =
     (case serving_checks H p current c of
        Some e \<Rightarrow> Inl e
      | None \<Rightarrow>
          (let v = hd (pod_spec current ''containers''); volumes = pod_spec current ''volumes'' in
           case without_offload (jlist (jget v ''args'')) of
             Inl e \<Rightarrow> Inl e
           | Inr args \<Rightarrow>
               if list_ex (\<lambda>x. shm_volume x \<and> jstr (nested x [''emptyDir'', ''medium'']) \<noteq> ''Memory'') volumes then Inl (Plain msg_shm)
               else if \<not> list_ex shm_volume volumes then Inl (Plain msg_no_shm)
               else Inr (jmodify (\<lambda>_. JArr (map (sized_volume c) volumes))
                 (jmodify (\<lambda>_. JArr [tuned_container gf (qualification_of H p c) c args v]) current containers_path) volumes_path)))"

definition PreviewServing :: "digest \<Rightarrow> GoFloat \<Rightarrow> Policy \<Rightarrow> json \<Rightarrow> Configuration \<Rightarrow> err + json" where
  "PreviewServing H gf p current c = servingCandidate H gf p current c"

section \<open>Capacity\<close>

definition msg_topology_missing :: string where "msg_topology_missing = ''current hardware topology unavailable''"
definition msg_topology_invalid :: string where "msg_topology_invalid = ''invalid hardware topology''"
definition msg_smt :: string where "msg_smt = ''desired CPU budget must contain complete discovered SMT cores''"
definition msg_pod_level_capacity :: string where "msg_pod_level_capacity = ''pod-level resource accounting requires separate qualification''"
definition msg_restartable_capacity :: string where "msg_restartable_capacity = ''restartable init resource accounting is not qualified''"
definition msg_node_capacity :: string where "msg_node_capacity = ''desired budget does not fit node allocatable capacity after other workloads''"

definition add_amounts :: "int gomap \<Rightarrow> int gomap \<Rightarrow> int gomap" where
  "add_amounts used m = map (\<lambda>k. (k, i64 (amount used k + amount m k))) budget_keys"

fun used_by :: "GoFloat \<Rightarrow> int gomap \<Rightarrow> json list \<Rightarrow> err + int gomap" where
  "used_by gf used [] = Inr used"
| "used_by gf used (pod # pods) =
     (if nested pod [''spec'', ''resources''] \<noteq> JNull then Inl (Plain msg_pod_level_capacity)
      else case pod_requests gf (Plain msg_restartable_capacity) pod budget_keys of
             Inl e \<Rightarrow> Inl e
           | Inr m \<Rightarrow> used_by gf (add_amounts used m) pods)"

fun fits :: "GoFloat \<Rightarrow> json \<Rightarrow> json \<Rightarrow> int gomap \<Rightarrow> string list \<Rightarrow> err option" where
  "fits gf node container used [] = None"
| "fits gf node container used (key # ks) =
     (case quantity gf (nested node [''status'', ''allocatable'', key]) (key = ''cpu'') of
        Inl e \<Rightarrow> Some e
      | Inr available \<Rightarrow>
          (case quantity gf (nested container [''resources'', ''requests'', key]) (key = ''cpu'') of
             Inl e \<Rightarrow> Some e
           | Inr wanted \<Rightarrow>
               if i64 (amount used key + wanted) > available then Some (Plain msg_node_capacity) else fits gf node container used ks))"

definition counted_pods :: "Policy \<Rightarrow> json \<Rightarrow> json \<Rightarrow> json list" where
  "counted_pods p rs pods = filter (\<lambda>pod. foreign_pod (replicas_of [po_AIDeploymentUID p, po_GameDeploymentUID p] rs) pod \<and>
     jstr (nested pod [''spec'', ''nodeName'']) = po_Target p) (jlist (jget pods ''items''))"

definition capacity_fits :: "GoFloat \<Rightarrow> Policy \<Rightarrow> json \<Rightarrow> json \<Rightarrow> json \<Rightarrow> json \<Rightarrow> err option" where
  "capacity_fits gf p container node pods rs =
     (case used_by gf [] (counted_pods p rs pods) of
        Inl e \<Rightarrow> Some e
      | Inr used \<Rightarrow> fits gf node container used budget_keys)"

definition complete_cores :: "GoFloat \<Rightarrow> json \<Rightarrow> json \<Rightarrow> bool" where
  "complete_cores gf raw container \<longleftrightarrow>
     (let h = SanitizeHardware gf raw []; requested = to_int gf (number gf (nested container [''resources'', ''requests'', ''cpu''])) in
      h_TopologyKnown h \<and> 1 \<le> h_SMTWidth h \<and> requested mod h_SMTWidth h = 0)"

definition first_container :: "json \<Rightarrow> json" where
  "first_container candidate = hd (pod_spec candidate ''containers'')"

definition node_query :: "Policy \<Rightarrow> string list" where
  "node_query p = [''get'', ''node'', po_Target p, ''-o'', ''json'']"

definition pods_query :: "string list" where
  "pods_query = [''get'', ''pods'', ''-A'', ''-o'', ''json'']"

definition replicas_query :: "Policy \<Rightarrow> string list" where
  "replicas_query p = [''-n'', po_Namespace p, ''get'', ''replicasets'', ''-o'', ''json'']"

definition hardware_report :: "'s HostMachine \<Rightarrow> Policy \<Rightarrow> 's \<Rightarrow> err + json" where
  "hardware_report mx p s =
     (case mx_Read mx (po_HardwarePath p) s of
        Inl _ \<Rightarrow> Inl (Plain msg_topology_missing)
      | Inr b \<Rightarrow> (case mx_JSON mx b of None \<Rightarrow> Inl (Plain msg_topology_invalid) | Some raw \<Rightarrow> Inr raw))"

definition capacity :: "'s HostMachine \<Rightarrow> Policy \<Rightarrow> json \<Rightarrow> ('s, unit) action" where
  "capacity mx p candidate =
     and_do (look_up (hardware_report mx p))
       (\<lambda>raw. if \<not> complete_cores (mx_Float mx) raw (first_container candidate) then refuse_with (Plain msg_smt)
        else and_do (kube mx p [] (node_query p))
          (\<lambda>node. and_do (kube mx p [] pods_query)
            (\<lambda>pods. and_do (kube mx p [] (replicas_query p))
              (\<lambda>rs. require (\<lambda>_. capacity_fits (mx_Float mx) p (first_container candidate) node pods rs)))))"

section \<open>Hardware and models\<close>

definition msg_report_missing :: string where "msg_report_missing = ''root-owned hardware report is unavailable''"
definition msg_report_malformed :: string where "msg_report_malformed = ''hardware report is malformed''"
definition msg_report_stale :: string where
  "msg_report_stale = ''hardware report is stale or unobserved; collect current target evidence''"
definition msg_boot_missing :: string where "msg_boot_missing = ''hardware boot identity unavailable''"
definition msg_boot_stale :: string where "msg_boot_stale = ''hardware boot identity is stale''"

definition boot_file :: "Policy \<Rightarrow> string" where
  "boot_file p = Join (Dir (po_HardwarePath p)) ''boot-id.txt''"

definition kernel_boot :: string where
  "kernel_boot = ''/proc/sys/kernel/random/boot_id''"

definition limit_reader :: "int \<Rightarrow> string \<Rightarrow> string" where
  "limit_reader n b = (if int (length b) \<le> n then b else take (nat n) b)"

definition checkHardware :: "'s HostMachine \<Rightarrow> Policy \<Rightarrow> 's \<Rightarrow> err option" where
  "checkHardware mx p s =
     (if trustedPath (mx_Host mx s) (po_HardwarePath p) False \<noteq> None then Some (Plain msg_report_missing)
      else case mx_Read mx (po_HardwarePath p) s of
             Inl e \<Rightarrow> Some e
           | Inr b \<Rightarrow>
               (case mx_Report mx (limit_reader (4 * 2 ^ 20) b) of
                  None \<Rightarrow> Some (Plain msg_report_malformed)
                | Some (collected, status) \<Rightarrow>
                    (let now = wo_Now (mx_World mx s) in
                     if status \<noteq> ''observed'' \<or> now - collected > 24 * hour \<or> collected - now > minute then Some (Plain msg_report_stale)
                     else case mx_Read mx (boot_file p) s of
                            Inl _ \<Rightarrow> Some (Plain msg_boot_missing)
                          | Inr boot \<Rightarrow>
                              (case mx_Read mx kernel_boot s of
                                 Inl _ \<Rightarrow> Some (Plain msg_boot_stale)
                               | Inr now_boot \<Rightarrow>
                                   if TrimSpace boot \<noteq> TrimSpace now_boot then Some (Plain msg_boot_stale) else None))))"

definition inhibit_path :: string where "inhibit_path = ''/run/workstation/build-inhibit''"

definition msg_legacy_incomplete :: string where "msg_legacy_incomplete = ''legacy recovery remains incomplete''"
definition msg_state_decode :: string where "msg_state_decode = ''unexpected end of JSON input''"

definition inhibit_lifted :: "SessionState \<Rightarrow> bool" where
  "inhibit_lifted st \<longleftrightarrow> sn_Mode st = ''ai'' \<or> sn_Mode st = ''restore'' \<and> sn_AI st = 1"

definition finishBuildGate :: "'s HostMachine \<Rightarrow> (err \<Rightarrow> bool) \<Rightarrow> Policy \<Rightarrow> 's \<Rightarrow> 's \<times> err option" where
  "finishBuildGate mx not_exist p s =
     (case trustedPath (mx_Host mx s) ''/run/workstation'' True of
        Some e \<Rightarrow> (s, Some e)
      | None \<Rightarrow>
          (case mx_Read mx (session_file p) s of
             Inl e \<Rightarrow> (s, Some e)
           | Inr b \<Rightarrow>
               (case mx_Session mx b of
                  None \<Rightarrow> (s, Some (Plain msg_state_decode))
                | Some st \<Rightarrow>
                    if sn_Phase st \<noteq> ''ready'' then (s, Some (Plain msg_legacy_incomplete))
                    else if \<not> inhibit_lifted st then (s, None)
                    else (case trustedPath (mx_Host mx s) inhibit_path False of
                            Some e \<Rightarrow> (s, if not_exist e then None else Some e)
                          | None \<Rightarrow>
                              (case mx_Remove mx inhibit_path s of
                                 (s1, Some e) \<Rightarrow> (s1, Some e)
                               | (s1, None) \<Rightarrow> (s1, mx_Sync mx (Dir inhibit_path) s1))))))"

definition msg_manifest :: string where
  "msg_manifest = ''owner-qualified model file integrity manifest is absent or expired''"
definition msg_model_outside :: string where "msg_model_outside = ''qualified model path is outside root policy model storage''"
definition msg_model_mapping :: string where
  "msg_model_mapping = ''qualified container model path does not match the managed PVC storage mapping''"
definition msg_model_root :: string where "msg_model_root = ''managed model root is unavailable or symlinked''"
definition msg_model_path :: string where "msg_model_path = ''qualified model path is absent or symlinked''"
definition msg_model_symlink :: string where "msg_model_symlink = ''model contains a symlink''"
definition msg_model_special :: string where "msg_model_special = ''model contains a special file''"
definition msg_model_unreviewed :: string where "msg_model_unreviewed = ''model contains an unreviewed file''"
definition msg_model_integrity :: string where "msg_model_integrity = ''qualified model file integrity mismatch''"
definition msg_model_missing :: string where "msg_model_missing = ''qualified model files are missing''"
definition msg_context :: string where "msg_context = ''context deadline exceeded''"

text \<open>
  The callback of the walk over the model; \<open>read\<close> opens a file below the model's directory. A context that ends
  during the walk is an error of the entry or of the read it interrupts.
\<close>

fun model_walk :: "(string \<Rightarrow> string) \<Rightarrow> bool \<Rightarrow> (string \<Rightarrow> err + string) \<Rightarrow> string gomap \<Rightarrow> string list \<Rightarrow> Entry list \<Rightarrow> err + string list" where
  "model_walk HB expired read files seen [] = Inr seen"
| "model_walk HB expired read files seen (en # ens) =
     (case en_Err en of
        Some e \<Rightarrow> Inl e
      | None \<Rightarrow>
          if expired then Inl (Plain msg_context)
          else if en_Symlink en then Inl (Plain msg_model_symlink)
          else if en_IsDir en then model_walk HB expired read files seen ens
          else if \<not> en_IsRegular en then Inl (Plain msg_model_special)
          else if en_Path en = ''.bridge-receipt.json'' then model_walk HB expired read files seen ens
          else (case map_of files (en_Path en) of
                  None \<Rightarrow> Inl (Plain msg_model_unreviewed)
                | Some want \<Rightarrow>
                    if length want \<noteq> 64 then Inl (Plain msg_model_unreviewed)
                    else (case read (en_Path en) of
                            Inl e \<Rightarrow> Inl e
                          | Inr b \<Rightarrow>
                              if HB b \<noteq> want then Inl (Plain msg_model_integrity)
                              else model_walk HB expired read files (List.insert (en_Path en) seen) ens)))"

definition plain_directory :: "Host \<Rightarrow> string \<Rightarrow> bool" where
  "plain_directory h path = (case hs_Lstat h path of Inl _ \<Rightarrow> False | Inr st \<Rightarrow> fs_IsDir st \<and> \<not> fs_Symlink st)"

fun plain_parts :: "Host \<Rightarrow> string \<Rightarrow> string list \<Rightarrow> bool" where
  "plain_parts h current [] = True"
| "plain_parts h current (part # parts) \<longleftrightarrow> plain_directory h (Join current part) \<and> plain_parts h (Join current part) parts"

definition model_relative :: "Policy \<Rightarrow> Qualification \<Rightarrow> err + string" where
  "model_relative p q =
     (case Rel (Clean (po_ModelRoot p)) (Clean (q_HostModelPath q)) of
        Inl _ \<Rightarrow> Inl (Plain msg_model_outside)
      | Inr rel \<Rightarrow>
          if rel = ''.'' \<or> HasPrefix rel ''..'' \<or> IsAbs rel then Inl (Plain msg_model_outside)
          else if q_ModelPath q \<noteq> ''/models/'' @ rel then Inl (Plain msg_model_mapping)
          else Inr rel)"

definition verify_model_files :: "(string \<Rightarrow> string) \<Rightarrow> 's HostMachine \<Rightarrow> Policy \<Rightarrow> Qualification \<Rightarrow> string \<Rightarrow> 's \<Rightarrow> err option" where
  "verify_model_files HB mx p q rel s =
     (let dir = Join (po_ModelRoot p) rel in
      case mx_OpenRoot mx dir s of
        Some e \<Rightarrow> Some e
      | None \<Rightarrow>
          (case model_walk HB (mx_Expired mx s) (\<lambda>name. mx_Read mx (Join dir name) s) (q_Files q) [] (mx_Model mx dir s) of
             Inl e \<Rightarrow> Some e
           | Inr seen \<Rightarrow> if length seen \<noteq> length (q_Files q) then Some (Plain msg_model_missing) else None))"

definition verifyModel :: "digest \<Rightarrow> (string \<Rightarrow> string) \<Rightarrow> 's HostMachine \<Rightarrow> Policy \<Rightarrow> Configuration \<Rightarrow> 's \<Rightarrow> err option" where
  "verifyModel H HB mx p c s =
     (case map_of (po_QualifiedConfigurations p) (ConfigurationHash H (c_Serving c) (c_Resources c)) of
        None \<Rightarrow> Some (Plain msg_manifest)
      | Some q \<Rightarrow>
          if \<not> wo_Now (mx_World mx s) < q_ExpiresAt q \<or> q_Files q = [] then Some (Plain msg_manifest)
          else (case model_relative p q of
                  Inl e \<Rightarrow> Some e
                | Inr rel \<Rightarrow>
                    if \<not> plain_directory (mx_Host mx s) (po_ModelRoot p) then Some (Plain msg_model_root)
                    else (case mx_OpenRoot mx (po_ModelRoot p) s of
                            Some e \<Rightarrow> Some e
                          | None \<Rightarrow>
                              if \<not> plain_parts (mx_Host mx s) (po_ModelRoot p) (split_on slash rel) then Some (Plain msg_model_path)
                              else verify_model_files HB mx p q rel s)))"

section \<open>Collectors\<close>

definition msg_managed_hardware :: string where
  "msg_managed_hardware = ''hardware publication must use the root policy's managed hardware path''"
definition msg_collection :: string where "msg_collection = ''hardware collection did not produce bounded evidence''"
definition msg_collection_boot :: string where "msg_collection_boot = ''hardware collection did not record boot identity''"
definition msg_collection_invalid :: string where "msg_collection_invalid = ''hardware collection evidence is invalid''"
definition msg_planner :: string where "msg_planner = ''resource planner did not produce bounded valid output''"

definition bounded_file :: "'s HostMachine \<Rightarrow> string \<Rightarrow> int \<Rightarrow> string \<Rightarrow> ('s, string) action" where
  "bounded_file mx path limit refusal = look_up (\<lambda>s. case mx_Read mx path s of
       Inl _ \<Rightarrow> Inl (Plain refusal)
     | Inr b \<Rightarrow> if int (length b) > limit then Inl (Plain refusal) else Inr b)"

definition worker_evidence_keys :: "string list" where
  "worker_evidence_keys = [''schema'', ''status'', ''reason'', ''collected_at'', ''os'', ''architecture'', ''expected'', ''pci_gpus'',
     ''rocm_agents'', ''gpu_target'', ''hardware_workloads_validated'', ''cpu_topology'', ''memory'']"

definition reduced_report :: "json \<Rightarrow> json" where
  "reduced_report raw = JObj (map (\<lambda>k. (k, jget raw k)) worker_evidence_keys)"

definition publish_worker_evidence :: "'s HostMachine \<Rightarrow> Policy \<Rightarrow> json \<Rightarrow> string \<Rightarrow> ('s, unit) action" where
  "publish_worker_evidence mx p raw boot =
     (let dir = po_WorkerEvidenceDir p in
      if dir = [] then give ()
      else and_do (changing (mx_Mkdir mx dir))
        (\<lambda>_. and_do (require (\<lambda>s. trustedPath (mx_Host mx s) dir True))
          (\<lambda>_. and_do (changing (mx_Publish mx (Join dir ''hardware.json'') (mx_Encode mx (reduced_report raw))))
            (\<lambda>_. changing (mx_Publish mx (Join dir ''boot-id.txt'') boot)))))"

text \<open>The report is published before the boot identity, which \<open>checkHardware\<close> compares last.\<close>

definition refreshHardware :: "'s HostMachine \<Rightarrow> (Hardware \<Rightarrow> string) \<Rightarrow> Policy \<Rightarrow> string \<Rightarrow> ('s, string) action" where
  "refreshHardware mx enc p k =
     (let output = Join (Join (po_StateDir p) ''evidence'') k in
      if po_HardwarePath p \<noteq> Join (Join (po_StateDir p) ''hardware'') ''hardware.json'' then refuse_with (Plain msg_managed_hardware)
      else and_do (changing (mx_Mkdir mx (Dir output)))
        (\<lambda>_. and_do (runFixed mx (workstationctl p (runtime_environment p) [''hardware'', ''collect'', output]) (64 * 2 ^ 10))
        (\<lambda>_. and_do (bounded_file mx (Join output ''hardware.json'') (4 * 2 ^ 20) msg_collection)
        (\<lambda>b. and_do (bounded_file mx (Join output ''boot-id.txt'') 128 msg_collection_boot)
        (\<lambda>boot. case mx_JSON mx b of
            None \<Rightarrow> refuse_with (Plain msg_collection_invalid)
          | Some raw \<Rightarrow>
              and_do (changing (mx_Mkdir mx (Dir (po_HardwarePath p))))
              (\<lambda>_. and_do (changing (mx_Publish mx (po_HardwarePath p) (mx_Encode mx raw)))
              (\<lambda>_. and_do (changing (mx_Publish mx (boot_file p) boot))
              (\<lambda>_. and_do (publish_worker_evidence mx p raw boot)
              (\<lambda>_. give (enc (SanitizeHardware (mx_Float mx) raw (TrimSpace boot)))))))))))) "

definition planner_file :: "'s HostMachine \<Rightarrow> string \<Rightarrow> string \<Rightarrow> ('s, string) action" where
  "planner_file mx output name = and_do (bounded_file mx (Join output name) (2 ^ 20) msg_planner)
     (\<lambda>b. if mx_JSON mx b = None then refuse_with (Plain msg_planner) else give b)"

definition exportCPUPolicy :: "'s HostMachine \<Rightarrow> (string gomap \<Rightarrow> string) \<Rightarrow> Policy \<Rightarrow> string \<Rightarrow> ('s, string) action" where
  "exportCPUPolicy mx enc p k =
     (let output = Join (Join (po_StateDir p) ''evidence'') (k @ ''-cpu-policy'') in
      and_do (changing (mx_Mkdir mx (Dir output)))
      (\<lambda>_. and_do (runFixed mx (workstationctl p (runtime_environment p)
          [''resources'', ''plan'', po_HardwarePath p, output, Join (po_RuntimeRoot p) ''versions.lock'']) (64 * 2 ^ 10))
      (\<lambda>_. and_do (planner_file mx output ''resource-plan.json'')
      (\<lambda>a. and_do (planner_file mx output ''ansible-vars.json'')
      (\<lambda>b. give (enc [(''resource-plan.json'', a), (''ansible-vars.json'', b)]))))))"

section \<open>The typed actions\<close>

definition msg_uid :: string where
  "msg_uid = ''Deployment UID changed from independent root policy; re-review target identity''"
definition msg_snapshot :: string where "msg_snapshot = ''saved legacy session snapshot unavailable''"
definition msg_snapshot_malformed :: string where "msg_snapshot_malformed = ''saved legacy snapshot is malformed''"
definition msg_gaming :: string where
  "msg_gaming = ''gaming is active; switch explicitly to AI or maintenance before serving configuration''"
definition msg_changed_during_stop :: string where
  "msg_changed_during_stop = ''deployment changed during stop; source is saved but live apply is refused''"

record Tools =
  to_H :: digest
  to_HT :: digest
  to_HB :: "string \<Rightarrow> string"
  to_Hardware :: "Hardware \<Rightarrow> string"
  to_Files :: "string gomap \<Rightarrow> string"

definition revalidate :: "Tools \<Rightarrow> 's HostMachine \<Rightarrow> Policy \<Rightarrow> HostRequest \<Rightarrow> ('s, unit) action" where
  "revalidate tx mx p r = require (\<lambda>s. helper_validate (to_H tx) (mx_World mx s) p (mx_Records mx s) r)"

definition deployment_uid :: "json \<Rightarrow> string" where
  "deployment_uid v = jstr (nested v [''metadata'', ''uid''])"

definition replicas :: "GoFloat \<Rightarrow> json \<Rightarrow> double" where
  "replicas gf v = number gf (nested v [''spec'', ''replicas''])"

definition switch_session :: "Tools \<Rightarrow> 's HostMachine \<Rightarrow> Policy \<Rightarrow> string \<Rightarrow> ('s, unit) action" where
  "switch_session tx mx p profile = host_session (to_H tx) (to_HT tx) mx p profile"

definition restore_checks :: "Tools \<Rightarrow> 's HostMachine \<Rightarrow> Policy \<Rightarrow> HostRequest \<Rightarrow> json \<Rightarrow> json \<Rightarrow> ('s, unit) action" where
  "restore_checks tx mx p r ai game =
     and_do (look_up (\<lambda>s. case mx_Read mx (session_file p) s of Inl _ \<Rightarrow> Inl (Plain msg_snapshot) | Inr b \<Rightarrow> Inr b))
     (\<lambda>b. case mx_Previous mx b of
        None \<Rightarrow> refuse_with (Plain msg_snapshot_malformed)
      | Some (was_ai, was_game) \<Rightarrow>
          and_do (if was_ai = 1
                  then and_do (require (verifyModel (to_H tx) (to_HB tx) mx p (hq_Desired r)))
                    (\<lambda>_. qualifySession (to_H tx) mx p ''ai'' ai game)
                  else give ())
          (\<lambda>_. if was_game = 1 then qualifySession (to_H tx) mx p ''gaming'' ai game else give ()))"

definition replacement :: "json \<Rightarrow> json \<Rightarrow> json" where
  "replacement candidate stopped =
     (let c1 = jmodify (\<lambda>_. nested stopped [''metadata'', ''resourceVersion'']) candidate [''metadata'', ''resourceVersion''];
          c2 = jmodify (\<lambda>_. JInt 0) c1 [''spec'', ''replicas''] in
      JObj (AList.delete ''status'' (jobject c2)))"

definition replace_deployment :: "Tools \<Rightarrow> 's HostMachine \<Rightarrow> Policy \<Rightarrow> json \<Rightarrow> json \<Rightarrow> ('s, unit) action" where
  "replace_deployment tx mx p ai candidate =
     and_do (get_deployment mx p (po_AIDeployment p))
     (\<lambda>stopped.
        if deployment_uid stopped \<noteq> po_AIDeploymentUID p \<or> replicas (mx_Float mx) stopped \<noteq> Fin 0
           \<or> to_H tx (template stopped) \<noteq> to_H tx (template ai) then refuse_with (Plain msg_changed_during_stop)
        else and_do (kube mx p (mx_Encode mx (replacement candidate stopped)) [''-n'', po_Namespace p, ''replace'', ''-f'', ''-'', ''-o'', ''json''])
          (\<lambda>_. give ()))"

definition apply_candidate :: "Tools \<Rightarrow> 's HostMachine \<Rightarrow> Policy \<Rightarrow> json \<Rightarrow> json \<Rightarrow> ('s, unit) action" where
  "apply_candidate tx mx p ai candidate =
     and_do (switch_session tx mx p ''maintenance'')
     (\<lambda>_. and_do (replace_deployment tx mx p ai candidate)
     (\<lambda>_. if replicas (mx_Float mx) ai = Fin 1 then switch_session tx mx p ''ai'' else give ()))"

definition configure_serving :: "Tools \<Rightarrow> 's HostMachine \<Rightarrow> Policy \<Rightarrow> HostRequest \<Rightarrow> json \<Rightarrow> json \<Rightarrow> ('s, unit) action" where
  "configure_serving tx mx p r ai game =
     (if replicas (mx_Float mx) game \<noteq> Fin 0 then refuse_with (Plain msg_gaming)
      else case servingCandidate (to_H tx) (mx_Float mx) p ai (hq_Desired r) of
             Inl e \<Rightarrow> refuse_with e
           | Inr candidate \<Rightarrow>
               and_do (qualifySession (to_H tx) mx p ''ai'' candidate game)
               (\<lambda>_. and_do (capacity mx p candidate)
               (\<lambda>_. and_do (revalidate tx mx p r) (\<lambda>_. apply_candidate tx mx p ai candidate))))"

definition session_action :: "Tools \<Rightarrow> 's HostMachine \<Rightarrow> Policy \<Rightarrow> HostRequest \<Rightarrow> json \<Rightarrow> json \<Rightarrow> ('s, unit) action" where
  "session_action tx mx p r ai game =
     (let d = hq_Draft r; a = d_Action d in
      if a = ''profile.switch'' then
        and_do (if d_Profile d \<noteq> ''maintenance'' then qualifySession (to_H tx) mx p (d_Profile d) ai game else give ())
        (\<lambda>_. and_do (revalidate tx mx p r) (\<lambda>_. switch_session tx mx p (d_Profile d)))
      else if a = ''profile.restore'' then
        and_do (restore_checks tx mx p r ai game)
        (\<lambda>_. and_do (revalidate tx mx p r) (\<lambda>_. switch_session tx mx p ''restore''))
      else if a = ''serving.stop'' then
        and_do (revalidate tx mx p r) (\<lambda>_. switch_session tx mx p ''maintenance'')
      else if a = ''serving.start'' then
        and_do (qualifySession (to_H tx) mx p ''ai'' ai game)
        (\<lambda>_. and_do (revalidate tx mx p r) (\<lambda>_. switch_session tx mx p ''ai''))
      else if a = ''serving.restart'' then
        and_do (qualifySession (to_H tx) mx p ''ai'' ai game)
        (\<lambda>_. and_do (revalidate tx mx p r)
        (\<lambda>_. and_do (switch_session tx mx p ''maintenance'') (\<lambda>_. switch_session tx mx p ''ai'')))
      else configure_serving tx mx p r ai game)"

definition needs_model :: "Draft \<Rightarrow> bool" where
  "needs_model d \<longleftrightarrow> d_Action d \<in> set [''serving.configure'', ''resources.configure'', ''serving.start'', ''serving.restart'']
     \<or> d_Action d = ''profile.switch'' \<and> d_Profile d = ''ai''"

definition cluster_action :: "Tools \<Rightarrow> 's HostMachine \<Rightarrow> Policy \<Rightarrow> HostRequest \<Rightarrow> ('s, unit) action" where
  "cluster_action tx mx p r =
     and_do (get_deployment mx p (po_AIDeployment p))
     (\<lambda>ai. and_do (get_deployment mx p (po_GameDeployment p))
     (\<lambda>game. if deployment_uid ai \<noteq> po_AIDeploymentUID p \<or> deployment_uid game \<noteq> po_GameDeploymentUID p then refuse_with (Plain msg_uid)
       else and_do (if needs_model (hq_Draft r) then require (verifyModel (to_H tx) (to_HB tx) mx p (hq_Desired r)) else give ())
         (\<lambda>_. session_action tx mx p r ai game)))"

definition evidence_action :: "'s HostMachine \<Rightarrow> HostRequest \<Rightarrow> ('s, string) action" where
  "evidence_action mx r sh = (case mx_Evidence mx r (sh_Out sh) of (s, x) \<Rightarrow> (sh\<lparr>sh_Out := s\<rparr>, x))"

definition execute_body :: "Tools \<Rightarrow> 's HostMachine \<Rightarrow> Policy \<Rightarrow> HostRequest \<Rightarrow> ('s, string) action" where
  "execute_body tx mx p r =
     (let a = d_Action (hq_Draft r) in
      and_do (require (\<lambda>s. wo_Verify (mx_World mx s)))
      (\<lambda>_. and_do (revalidate tx mx p r)
      (\<lambda>_. if a = ''hardware.refresh'' then refreshHardware mx (to_Hardware tx) p (hq_ID r)
           else if MemoryAction a \<or> PerformanceAction a then evidence_action mx r
           else and_do (require (checkHardware mx p))
             (\<lambda>_. if a = ''cpu-policy.export'' then exportCPUPolicy mx (to_Files tx) p (hq_ID r)
                  else and_do (cluster_action tx mx p r) (\<lambda>_. give [])))))"

text \<open>The deferred function turns an error before \<open>effectStarted\<close> into a preflight failure.\<close>

definition runtime_execute :: "Tools \<Rightarrow> 's HostMachine \<Rightarrow> Policy \<Rightarrow> HostRequest \<Rightarrow> 's \<Rightarrow> 's Shell \<times> (run_error + string)" where
  "runtime_execute tx mx p r s =
     (case execute_body tx mx p r \<lparr>sh_Out = s, sh_Trace = [], sh_Started = False\<rparr> of
        (sh, Inl e) \<Rightarrow> (sh, Inl ((if sh_Started sh then EffectFailure else PreflightFailure) (err_message e)))
      | (sh, Inr data) \<Rightarrow> (sh, Inr data))"

section \<open>The inventory\<close>

definition msg_no_cluster :: string where "msg_no_cluster = ''Kubernetes evidence unavailable''"
definition msg_no_serving :: string where
  "msg_no_serving = ''Current scoped Pod/process evidence unavailable; retained reports are not current readiness.''"
definition msg_node :: string where "msg_node = ''Node is not Ready or its boot identity differs from this workstation''"
definition msg_exceeds_host :: string where "msg_exceeds_host = ''Node allocatable capacity exceeds observed host inventory''"
definition msg_cluster_read :: string where
  "msg_cluster_read = ''Explicit dedicated identity read current node, all Pods and managed ReplicaSet ownership; mutation RBAC remains checked on apply''"

definition read_or_empty :: "'s HostMachine \<Rightarrow> string \<Rightarrow> 's \<Rightarrow> string" where
  "read_or_empty mx path s = (case mx_Read mx path s of Inl _ \<Rightarrow> [] | Inr b \<Rightarrow> b)"

definition kubelet_config :: string where
  "kubelet_config = ''/var/lib/rancher/k3s/agent/etc/kubelet.conf.d/90-workstation-cpu.conf''"

definition line_option :: "string \<Rightarrow> string" where
  "line_option text = CHR 0x0A # ''  '' @ text @ [CHR 0x0A]"

definition full_pcpus :: "string \<Rightarrow> bool" where
  "full_pcpus b \<longleftrightarrow> contains b (line_option (''full-pcpus-only: '' @ [CHR 0x22] @ ''true'' @ [CHR 0x22])) \<and>
     contains b (line_option (''strict-cpu-reservation: '' @ [CHR 0x22] @ ''true'' @ [CHR 0x22])) \<and>
     contains b ''topologyManagerPolicy: restricted'' \<and> contains b ''topologyManagerScope: pod''"

definition snapshot_hardware :: "'s HostMachine \<Rightarrow> Policy \<Rightarrow> 's \<Rightarrow> Hardware" where
  "snapshot_hardware mx p s =
     (let seen = (case mx_Read mx (po_HardwarePath p) s of
            Inl _ \<Rightarrow> zero_hardware
          | Inr b \<Rightarrow>
              if int (length b) > 4 * 2 ^ 20 then zero_hardware
              else (case mx_JSON mx b of None \<Rightarrow> zero_hardware
                    | Some raw \<Rightarrow> SanitizeHardware (mx_Float mx) raw (TrimSpace (read_or_empty mx (boot_file p) s))));
          current = seen\<lparr>h_CurrentBootID := TrimSpace (read_or_empty mx kernel_boot s)\<rparr> in
      case checkHardware mx p s of
        None \<Rightarrow> current
      | Some e \<Rightarrow> current\<lparr>h_Status := ''stale-or-unknown'', h_Warnings := h_Warnings current @ [err_message e]\<rparr>)"

text \<open>The profile, and the policy and options of the kubelet; \<open>manager\<close> decodes the state of its CPU manager.\<close>

definition snapshot_profile :: "'s HostMachine \<Rightarrow> Policy \<Rightarrow> 's \<Rightarrow> string" where
  "snapshot_profile mx p s = (case mx_Session mx (read_or_empty mx (session_file p) s) of
       None \<Rightarrow> ''unknown''
     | Some st \<Rightarrow> if sn_Phase st \<noteq> ''ready'' then ''recovery-required'' else sn_Mode st)"

definition snapshot_kubelet :: "'s HostMachine \<Rightarrow> (string \<Rightarrow> string option) \<Rightarrow> 's \<Rightarrow> Hardware \<Rightarrow> Hardware" where
  "snapshot_kubelet mx manager s h =
     (let h1 = (case manager (read_or_empty mx ''/var/lib/kubelet/cpu_manager_state'' s) of
                  None \<Rightarrow> h | Some name \<Rightarrow> h\<lparr>h_CPUManagerPolicy := name\<rparr>) in
      if trustedPath (mx_Host mx s) kubelet_config False = None
      then h1\<lparr>h_FullPCPUsOnly := full_pcpus (read_or_empty mx kubelet_config s)\<rparr> else h1)"

definition node_ready :: "json \<Rightarrow> bool" where
  "node_ready node = list_ex (\<lambda>m. jstr (jget m ''type'') = ''Ready'' \<and> jstr (jget m ''status'') = ''True'')
     (jlist (nested node [''status'', ''conditions'']))"

text \<open>The loop over the foreign Pods; integer division truncates towards zero.\<close>

definition quot64 :: "int \<Rightarrow> int \<Rightarrow> int" where
  "quot64 a b = (if a < 0 then - (- a div b) else a div b)"

fun other_usage :: "GoFloat \<Rightarrow> string \<Rightarrow> json list \<Rightarrow> Hardware \<Rightarrow> Hardware \<times> err option" where
  "other_usage gf target [] h = (h, None)"
| "other_usage gf target (pod # pods) h =
     (case podBudget gf pod of
        Inl e \<Rightarrow> (h, Some e)
      | Inr m \<Rightarrow>
          (let h1 = (if amount m ''amd.com/gpu'' > 0 then h\<lparr>h_OtherGPUs := i64 (h_OtherGPUs h + amount m ''amd.com/gpu'')\<rparr> else h);
               h2 = (if jstr (nested pod [''spec'', ''nodeName'']) = target
                     then h1\<lparr>h_OtherCPU := i64 (h_OtherCPU h1 + quot64 (i64 (amount m ''cpu'' + 999)) 1000),
                       h_OtherMemoryMiB := i64 (h_OtherMemoryMiB h1 + quot64 (i64 (amount m ''memory'' + 2 ^ 20 - 1)) (2 ^ 20))\<rparr>
                     else h1) in
           other_usage gf target pods h2))"

definition reserves :: "GoFloat \<Rightarrow> json \<Rightarrow> Inventory \<Rightarrow> Inventory" where
  "reserves gf node iv =
     (case (quantity gf (nested node [''status'', ''allocatable'', ''cpu'']) True, quantity gf (nested node [''status'', ''allocatable'', ''memory'']) False) of
        (Inr cpu, Inr mem) \<Rightarrow>
          (let h = i_Hardware iv;
               h1 = h\<lparr>h_ReservedCPU := i64 (h_CPUThreads h - quot64 cpu 1000), h_HostReserveMiB := 0,
                 h_KubeReserveMiB := i64 (h_MemoryMiB h - quot64 mem (2 ^ 20))\<rparr> in
           if h_ReservedCPU h1 < 0 \<or> h_KubeReserveMiB h1 < 0 then iv\<lparr>i_Hardware := h1, i_ClusterMessage := msg_exceeds_host\<rparr>
           else iv\<lparr>i_Hardware := h1, i_ClusterAvailable := True, i_ClusterMessage := msg_cluster_read\<rparr>)
      | _ \<Rightarrow> iv)"

definition cluster_inventory :: "digest \<Rightarrow> 's HostMachine \<Rightarrow> Policy \<Rightarrow> time \<Rightarrow> json \<Rightarrow> json \<Rightarrow> json \<Rightarrow> Inventory \<Rightarrow> Inventory \<times> ServingStatus" where
  "cluster_inventory H mx p now node pods rs iv =
     (let status = observedServingStatus H now pods (replicas_of [po_AIDeploymentUID p] rs) (po_Target p) (po_Namespace p) (i_Profile iv) in
      case other_usage (mx_Float mx) (po_Target p)
             (filter (foreign_pod (replicas_of [po_AIDeploymentUID p, po_GameDeploymentUID p] rs)) (jlist (jget pods ''items''))) (i_Hardware iv) of
        (h, Some e) \<Rightarrow> (iv\<lparr>i_Hardware := h, i_ClusterMessage := err_message e\<rparr>, status)
      | (h, None) \<Rightarrow> (reserves (mx_Float mx) node (iv\<lparr>i_Hardware := h\<rparr>), status))"

definition snapshot_local :: "'s HostMachine \<Rightarrow> (string \<Rightarrow> string option) \<Rightarrow> Policy \<Rightarrow> 's \<Rightarrow> Inventory" where
  "snapshot_local mx manager p s = zero_inventory\<lparr>i_Mode := ''live'', i_Target := po_Target p, i_Environment := po_Environment p,
     i_Profile := snapshot_profile mx p s, i_ClusterMessage := msg_no_cluster,
     i_Hardware := snapshot_kubelet mx manager s (snapshot_hardware mx p s)\<rparr>"

text \<open>A read that fails after the node leaves what is known so far; only the runtime check is an error.\<close>

definition host_Snapshot :: "digest \<Rightarrow> 's HostMachine \<Rightarrow> (string \<Rightarrow> string option) \<Rightarrow> Policy \<Rightarrow> ('s, Inventory \<times> ServingStatus) action" where
  "host_Snapshot H mx manager p sh =
     (case wo_Verify (mx_World mx (sh_Out sh)) of
        Some e \<Rightarrow> (sh, Inl e)
      | None \<Rightarrow>
          (let s = sh_Out sh; now = wo_Now (mx_World mx s); iv = snapshot_local mx manager p s;
               status = (unknown_status now)\<lparr>ss_Reason := msg_no_serving\<rparr> in
           case kube mx p [] (node_query p) sh of
             (sh1, Inl _) \<Rightarrow> (sh1, Inr (iv, status))
           | (sh1, Inr node) \<Rightarrow>
               if \<not> node_ready node \<or> jstr (nested node [''status'', ''nodeInfo'', ''bootID'']) \<noteq> h_CurrentBootID (i_Hardware iv)
               then (sh1, Inr (iv\<lparr>i_ClusterMessage := msg_node\<rparr>, status))
               else (case kube mx p [] pods_query sh1 of
                       (sh2, Inl _) \<Rightarrow> (sh2, Inr (iv, status))
                     | (sh2, Inr pods) \<Rightarrow>
                         (case kube mx p [] (replicas_query p) sh2 of
                            (sh3, Inl _) \<Rightarrow> (sh3, Inr (iv, status))
                          | (sh3, Inr rs) \<Rightarrow> (sh3, Inr (cluster_inventory H mx p now node pods rs iv))))))"

end
