(* ===== verification/RuntimeRun.thy ===== *)
theory RuntimeRun
  imports Runtime "HOL-Library.Sublist"
begin

text \<open>
  What holds of the runtime actions: a preflight failure means that nothing but reads was run; an effect is run
  only behind every check; the candidate differs from the running Deployment only in the reviewed fields;
  the capacity check and the hardware report.
\<close>

section \<open>Reads\<close>

text \<open>A read is a \<open>kubectl get\<close>, of the cluster or of the configured namespace.\<close>

definition reads :: "Policy \<Rightarrow> command \<Rightarrow> bool" where
  "reads p c \<longleftrightarrow> (\<exists>rest. c = kubectl p [] (''get'' # rest) \<or> c = kubectl p [] (''-n'' # po_Namespace p # ''get'' # rest))"

text \<open>
  A relation between the shells before and after is kept by a sequence of actions when it is reflexive and
  transitive. Three such relations follow: an action is \<^emph>\<open>quiet\<close> when it runs only reads and starts no effect, \<^emph>\<open>guarded\<close>
  when it runs reads only until it raises the flag, and in any case it \<^emph>\<open>extends\<close> what was run and keeps the flag.
\<close>

definition obeys :: "('s Shell \<Rightarrow> 's Shell \<Rightarrow> bool) \<Rightarrow> ('s, 'a) action \<Rightarrow> bool" where
  "obeys R m \<longleftrightarrow> (\<forall>sh. R sh (fst (m sh)))"

locale shell_relation =
  fixes R :: "'s Shell \<Rightarrow> 's Shell \<Rightarrow> bool"
  assumes same: "R sh sh"
    and steps: "R a b \<Longrightarrow> R b c \<Longrightarrow> R a c"
begin

lemma obeys_and_do:
  assumes "obeys R m" and "\<And>a. obeys R (f a)"
  shows "obeys R (and_do m f)"
  unfolding obeys_def
proof
  fix sh
  obtain sh1 x where m: "m sh = (sh1, x)" by fastforce
  then have first: "R sh sh1" using assms(1) by (metis obeys_def fst_conv)
  show "R sh (fst (and_do m f sh))"
  proof (cases x)
    case (Inr a)
    have "R sh1 (fst (f a sh1))" using assms(2) by (simp add: obeys_def)
    with steps [OF first] m Inr show ?thesis by (simp add: and_do_def)
  qed (use m first in \<open>simp add: and_do_def\<close>)
qed

lemma obeys_simple: "obeys R (give a)" "obeys R (refuse_with e)" "obeys R (require f)" "obeys R (look_up g)"
  by (auto simp: obeys_def same give_def refuse_with_def require_def look_up_def split: option.splits)

end

definition quiet_rel :: "Policy \<Rightarrow> 's Shell \<Rightarrow> 's Shell \<Rightarrow> bool" where
  "quiet_rel p a b \<longleftrightarrow> sh_Started b = sh_Started a \<and> (\<exists>tr. sh_Trace b = sh_Trace a @ tr \<and> list_all (reads p) tr)"

definition guarded_rel :: "Policy \<Rightarrow> 's Shell \<Rightarrow> 's Shell \<Rightarrow> bool" where
  "guarded_rel p a b \<longleftrightarrow> (\<exists>tr. sh_Trace b = sh_Trace a @ tr \<and> (sh_Started b \<or> list_all (reads p) tr)) \<and> (sh_Started a \<longrightarrow> sh_Started b)"

definition extends_rel :: "'s Shell \<Rightarrow> 's Shell \<Rightarrow> bool" where
  "extends_rel a b \<longleftrightarrow> (\<exists>tr. sh_Trace b = sh_Trace a @ tr) \<and> (sh_Started a \<longrightarrow> sh_Started b)"

interpretation qr: shell_relation "quiet_rel p"
  by unfold_locales (fastforce simp: quiet_rel_def)+

interpretation gr: shell_relation "guarded_rel p"
  by unfold_locales (fastforce simp: guarded_rel_def)+

interpretation xr: shell_relation extends_rel
  by unfold_locales (fastforce simp: extends_rel_def)+

abbreviation quiet :: "Policy \<Rightarrow> ('s, 'a) action \<Rightarrow> bool" where "quiet p \<equiv> obeys (quiet_rel p)"
abbreviation guarded :: "Policy \<Rightarrow> ('s, 'a) action \<Rightarrow> bool" where "guarded p \<equiv> obeys (guarded_rel p)"
abbreviation extends :: "('s, 'a) action \<Rightarrow> bool" where "extends \<equiv> obeys extends_rel"

named_theorems quiet_intros
named_theorems guarded_intros

lemma quiet_guarded: "quiet p m \<Longrightarrow> guarded p m"
  by (auto simp: obeys_def quiet_rel_def guarded_rel_def)

lemma guarded_extends: "guarded p m \<Longrightarrow> extends m"
  by (auto simp: obeys_def guarded_rel_def extends_rel_def)

declare qr.obeys_simple [quiet_intros] qr.obeys_and_do [quiet_intros]

lemma quiet_kube_get [quiet_intros]:
  "quiet p (kube mx p [] (''get'' # rest))" "quiet p (kube mx p [] (''-n'' # po_Namespace p # ''get'' # rest))"
proof -
  have run: "quiet p (runFixed mx c n)" if "reads p c" for c n
    using that by (auto simp: obeys_def quiet_rel_def runFixed_def split: prod.splits)
  show "quiet p (kube mx p [] (''get'' # rest))" "quiet p (kube mx p [] (''-n'' # po_Namespace p # ''get'' # rest))"
    unfolding kube_def by (intro quiet_intros run; force simp: reads_def split: option.split intro: quiet_intros)+
qed

lemma quiet_if [quiet_intros]: "(b \<Longrightarrow> quiet p m) \<Longrightarrow> (\<not> b \<Longrightarrow> quiet p n) \<Longrightarrow> quiet p (if b then m else n)"
  by simp

lemma quiet_get_deployment [quiet_intros]: "quiet p (get_deployment mx p name)"
  unfolding get_deployment_def by (rule quiet_intros)

lemma quiet_queries [quiet_intros]:
  "quiet p (kube mx p [] (node_query p))" "quiet p (kube mx p [] pods_query)" "quiet p (kube mx p [] (replicas_query p))"
  unfolding node_query_def pods_query_def replicas_query_def by (rule quiet_intros)+

lemma quiet_references [quiet_intros]: "quiet p (check_references H mx p hashes names)"
  by (induction names) (auto intro!: quiet_intros)

lemma quiet_qualifySession [quiet_intros]: "quiet p (qualifySession H mx p profile ai game)"
  using quiet_references [of p H mx]
  by (auto simp: obeys_def qr.same qualifySession_def checkConfigMaps_def Let_def split: list.splits)

lemma quiet_session_parts [quiet_intros]:
  "quiet p (session_desired mx p profile)" "quiet p (session_template H HT mx p desired)"
  unfolding session_desired_def session_template_def
  by (auto intro!: quiet_intros split: option.splits prod.splits)

lemma quiet_capacity [quiet_intros]: "quiet p (capacity mx p candidate)"
  unfolding capacity_def by (auto intro!: quiet_intros)

lemma quiet_checks [quiet_intros]: "quiet p (revalidate tx mx p r)" "quiet p (restore_checks tx mx p r ai game)"
  unfolding revalidate_def restore_checks_def by (auto intro!: quiet_intros split: option.splits prod.splits)

lemmas quiet_leaves = qr.obeys_simple quiet_get_deployment quiet_qualifySession quiet_session_parts quiet_capacity quiet_checks

lemmas guarded_leaves [guarded_intros] = quiet_leaves [THEN quiet_guarded]

declare gr.obeys_and_do [guarded_intros]

section \<open>Effects\<close>

lemmas extends_leaves = quiet_leaves [THEN quiet_guarded, THEN guarded_extends]

lemma extends_runFixed: "extends (runFixed mx c n)"
  by (auto simp: obeys_def extends_rel_def runFixed_def split: prod.splits)

lemma guarded_after:
  assumes "guarded p m" and "\<And>sh sh1 a. m sh = (sh1, Inr a) \<Longrightarrow> sh_Started sh1" and "\<And>a. extends (f a)"
  shows "guarded p (and_do m f)"
  unfolding obeys_def
proof
  fix sh
  obtain sh1 x where m: "m sh = (sh1, x)" by fastforce
  then have first: "guarded_rel p sh sh1" using assms(1) by (metis obeys_def fst_conv)
  show "guarded_rel p sh (fst (and_do m f sh))"
  proof (cases x)
    case (Inr a)
    with m assms(2) have "sh_Started sh1" by blast
    moreover have "extends_rel sh1 (fst (f a sh1))" using assms(3) by (simp add: obeys_def)
    ultimately have "guarded_rel p sh1 (fst (f a sh1))" by (simp add: guarded_rel_def extends_rel_def)
    with first m Inr show ?thesis by (simp add: and_do_def) (rule gr.steps)
  qed (use m first in \<open>simp add: and_do_def\<close>)
qed

lemma run_session_started: "sh_Started (fst (run_session mx p profile env sh))"
  using extends_runFixed [of mx]
  by (auto simp: run_session_def and_do_def start_effect_def give_def runFixed_def split: prod.splits sum.splits)

lemma guarded_run_session: "guarded p (run_session mx p profile env)"
proof -
  have "extends (run_session mx p profile env)"
    unfolding run_session_def
    by (intro xr.obeys_and_do extends_runFixed) (auto simp: obeys_def extends_rel_def start_effect_def give_def)
  then show ?thesis using run_session_started [of mx p profile env] by (simp add: obeys_def guarded_rel_def extends_rel_def)
qed

lemma guarded_session [guarded_intros]: "guarded p (switch_session tx mx p profile)"
  unfolding switch_session_def host_session_def
  by (intro gr.obeys_and_do guarded_run_session guarded_leaves)

lemma session_started:
  assumes "switch_session tx mx p profile sh = (sh1, Inr a)"
  shows "sh_Started sh1"
proof -
  obtain sh2 env where "run_session mx p profile env sh2 = (sh1, Inr a)"
    using assms by (auto simp: switch_session_def host_session_def and_do_def split: prod.split_asm sum.split_asm)
  then show ?thesis using run_session_started [of mx p profile env sh2] by simp
qed

lemma extends_replace: "extends (replace_deployment tx mx p ai candidate)"
proof -
  have "extends (kube mx p input args)" for input args
    unfolding kube_def by (intro xr.obeys_and_do extends_runFixed) (auto split: option.split intro: extends_leaves)
  then show ?thesis unfolding replace_deployment_def by (auto intro!: xr.obeys_and_do extends_leaves)
qed

lemma guarded_apply [guarded_intros]: "guarded p (apply_candidate tx mx p ai candidate)"
  unfolding apply_candidate_def
  by (rule guarded_after [OF guarded_session session_started])
    (auto intro!: xr.obeys_and_do extends_replace guarded_extends [OF guarded_session] extends_leaves)

lemma guarded_configure [guarded_intros]: "guarded p (configure_serving tx mx p r ai game)"
  unfolding configure_serving_def by (auto intro!: guarded_intros split: sum.split)

lemma guarded_session_action [guarded_intros]: "guarded p (session_action tx mx p r ai game)"
  unfolding session_action_def Let_def
  by (auto intro!: guarded_intros)

lemma guarded_cluster_action: "guarded p (cluster_action tx mx p r)"
  unfolding cluster_action_def
  by (auto intro!: guarded_intros)

lemma not_read_only: "\<not> readOnlyAction a \<Longrightarrow> a \<noteq> ''hardware.refresh'' \<and> a \<noteq> ''cpu-policy.export'' \<and> \<not> MemoryAction a \<and> \<not> PerformanceAction a"
  by (auto simp: readOnlyAction_def EvidenceAction_def)

lemma guarded_execute:
  assumes "\<not> readOnlyAction (d_Action (hq_Draft r))"
  shows "guarded p (execute_body tx mx p r)"
  using not_read_only [OF assms] unfolding execute_body_def Let_def
  by (auto intro!: guarded_intros guarded_cluster_action)

text \<open>
  C3: When the root helper reports a mutating operation as failed, without asking for recovery, it ran
  nothing but \<open>kubectl get\<close>: no session command and no replacement of a Deployment was started. This holds
  whatever the cluster, the files and the installed runtime answer.
\<close>
theorem failed_means_untouched:
  assumes "runtime_execute tx mx p (re_Request rec) s = (sh, Inl e)"
    and "hr_State (run_result [] (Some e) rec) = ''failed''" and "\<not> readOnlyAction (d_Action (re_Draft rec))"
  shows "list_all (reads p) (sh_Trace sh)"
proof -
  let ?start = "\<lparr>sh_Out = s, sh_Trace = [], sh_Started = False\<rparr>"
  obtain e0 where run: "execute_body tx mx p (re_Request rec) ?start = (sh, Inl e0)"
    and e: "e = (if sh_Started sh then EffectFailure else PreflightFailure) (err_message e0)"
    using assms(1) by (auto simp: runtime_execute_def split: prod.split_asm sum.split_asm)
  have "\<not> sh_Started sh" using assms(2,3) e by (auto simp: run_result_def Let_def split: if_splits)
  moreover have "\<exists>tr. sh_Trace sh = [] @ tr \<and> (sh_Started sh \<or> list_all (reads p) tr)"
    using guarded_execute [OF assms(3), of p tx mx, unfolded obeys_def guarded_rel_def, rule_format, of ?start] run by simp
  ultimately show ?thesis by simp
qed


section \<open>The candidate\<close>

lemma jget_jset [simp]: "jget (jset v k x) j = (if j = k then x else jget v j)"
  by (simp add: jget_def jset_def jobject_def map_of_update)

lemma nested_Cons [simp]: "nested v (k # ks) = nested (jget v k) ks" "nested v [] = v"
  by (simp_all add: nested_def)

lemma decoded_simps [simp]:
  "jlist (JArr as) = as" "jget (JObj []) k = JNull" "jget (JObj ((j, x) # m)) k = (if k = j then x else jget (JObj m) k)"
  by (auto simp: jlist_def jget_def jobject_def)

lemma nested_jmodify_same: "nested (jmodify f v ks) ks = f (nested v ks)"
  by (induction ks arbitrary: v) simp_all

text \<open>A path that neither leads to the modified place nor goes through it reads as before.\<close>

lemma nested_jmodify_other: "\<not> prefix js ks \<Longrightarrow> \<not> prefix ks js \<Longrightarrow> nested (jmodify f v js) ks = nested v ks"
proof (induction js arbitrary: v ks)
  case (Cons j js)
  then show ?case by (cases ks) auto
qed simp

lemma without_offload_kept:
  "without_offload as = Inr r \<Longrightarrow> subseq r as \<and>
     list_all (\<lambda>a. jstr a \<noteq> ''--cpu-offload-gb'' \<and> \<not> HasPrefix (jstr a) ''--cpu-offload-gb='') r"
proof (induction as arbitrary: r rule: without_offload.induct)
  case (3 a b as)
  then show ?case by (auto split: if_splits sum.split_asm intro: subseq_Cons2' list_emb_Cons)
qed (auto split: if_splits)

definition tuned_fields :: "string list" where
  "tuned_fields = [''args'', ''env'', ''resources'']"


section \<open>Capacity\<close>

text \<open>
  Floating point as the check relies on it: a parsed quantity is a number, and a product of numbers that are not
  negative is not negative.
\<close>

definition sound_floats :: "GoFloat \<Rightarrow> bool" where
  "sound_floats gf \<longleftrightarrow> (\<forall>s. gf_Parse gf s \<noteq> (NaN, True)) \<and>
     (\<forall>q \<ge> 0. gf_Round gf q = PInf \<or> (\<exists>x \<ge> 0. gf_Round gf q = Fin x))"

lemma cut_unit_factor: "cut_unit us s = (t, n) \<Longrightarrow> n = 1 \<or> n \<in> snd ` set us"
  by (induction us s rule: cut_unit.induct) (auto split: if_splits)

lemma quantity_factor: "quantity_parts s cpu = (t, n) \<Longrightarrow> 0 \<le> n"
  using cut_unit_factor [of memory_units s t n] by (auto simp: quantity_parts_def memory_units_def split: if_splits)

lemma quantity_bounds:
  assumes "sound_floats gf" and "quantity gf v cpu = Inr q"
  shows "0 \<le> q" "q \<le> 2 ^ 60"
proof -
  obtain s n d where d: "quantity_parts (gf_Sprint gf v) cpu = (s, n)" "gf_Parse gf s = (d, True)" "\<not> negative d"
    "\<not> exceeds_double (scale gf d n) (2 ^ 60)" "q = to_int gf (scale gf d n)"
    using assms(2) by (auto simp: quantity_def split: prod.split_asm if_splits)
  have "d \<noteq> NaN" using assms(1) d(2) by (auto simp: sound_floats_def)
  with d(3,4) obtain x where x: "d = Fin x" "0 \<le> x" by (cases d) (auto simp: negative_def exceeds_double_def scale_def)
  have "0 \<le> x * n" using x(2) quantity_factor [OF d(1)] by simp
  moreover have "gf_Round gf (x * n) \<noteq> PInf" using d(4) x(1) by (auto simp: scale_def exceeds_double_def)
  ultimately obtain y where y: "gf_Round gf (x * n) = Fin y" "0 \<le> y" using assms(1) unfolding sound_floats_def by blast
  have "y \<le> 2 ^ 60" using d(4) x(1) y(1) by (simp add: scale_def exceeds_double_def)
  then have "0 \<le> \<lfloor>y\<rfloor>" "\<lfloor>y\<rfloor> \<le> 2 ^ 60" using y(2) by (simp_all add: floor_le_iff)
  then show "0 \<le> q" "q \<le> 2 ^ 60"
    using d(5) x(1) y by (auto simp: scale_def to_int_def truncate_rat_def in_i64_def)
qed

text \<open>What a Pod needs of one resource, in unbounded integers.\<close>

definition requested :: "GoFloat \<Rightarrow> string \<Rightarrow> json list \<Rightarrow> int list" where
  "requested gf key cs = map (\<lambda>c. case quantity gf (nested c [''resources'', ''requests'', key]) (key = ''cpu'') of Inl _ \<Rightarrow> 0 | Inr q \<Rightarrow> q)
     (filter (\<lambda>c. nested c [''resources'', ''requests'', key] \<noteq> JNull) cs)"

definition pod_demand :: "GoFloat \<Rightarrow> string \<Rightarrow> json \<Rightarrow> int" where
  "pod_demand gf key pod =
     max (sum_list (requested gf key (jlist (nested pod [''spec'', ''containers'']))))
       (foldr max (requested gf key (jlist (nested pod [''spec'', ''initContainers'']))) 0)
     + (let v = nested pod [''spec'', ''overhead'', key] in
        if v = JNull then 0 else case quantity gf v (key = ''cpu'') of Inl _ \<Rightarrow> 0 | Inr q \<Rightarrow> q)"

lemma requested_nonneg: "sound_floats gf \<Longrightarrow> q \<in> set (requested gf key cs) \<Longrightarrow> 0 \<le> q"
  by (auto simp: requested_def quantity_bounds split: sum.splits)

lemma requested_sum: "sound_floats gf \<Longrightarrow> 0 \<le> sum_list (requested gf key cs)"
  by (intro sum_list_nonneg) (rule requested_nonneg)

lemma requested_simps:
  "requested gf key [] = []"
  "requested gf key (c # cs) = (if nested c [''resources'', ''requests'', key] = JNull then requested gf key cs
     else (case quantity gf (nested c [''resources'', ''requests'', key]) (key = ''cpu'') of Inl _ \<Rightarrow> 0 | Inr q \<Rightarrow> q) # requested gf key cs)"
  by (simp_all add: requested_def)

lemma add_requests_sum:
  "add_requests gf key acc cs = Inr r \<Longrightarrow> sound_floats gf \<Longrightarrow> 0 \<le> acc \<Longrightarrow> acc + sum_list (requested gf key cs) < 2 ^ 63 \<Longrightarrow>
   r = acc + sum_list (requested gf key cs)"
proof (induction gf key acc cs rule: add_requests.induct)
  case (2 gf key acc c cs)
  show ?case
  proof (cases "nested c [''resources'', ''requests'', key] = JNull")
    case False
    with 2(3) obtain q where q: "quantity gf (nested c [''resources'', ''requests'', key]) (key = ''cpu'') = Inr q"
      "add_requests gf key (i64 (acc + q)) cs = Inr r" by (auto simp: Let_def split: sum.splits)
    have "0 \<le> q" using quantity_bounds(1) [OF 2(4) q(1)] .
    moreover have "i64 (acc + q) = acc + q"
      using 2(5,6) False q(1) \<open>0 \<le> q\<close> requested_sum [OF 2(4), of key cs] by (intro i64_id) (auto simp: in_i64_def requested_simps)
    ultimately show ?thesis using 2(2) [OF refl False q(1)] 2(4-6) q False by (simp add: requested_simps)
  qed (use 2 in \<open>simp add: requested_simps Let_def\<close>)
qed (simp add: requested_simps)

lemma max_init_max:
  "max_init gf e key m cs = Inr r \<Longrightarrow> 0 \<le> m \<Longrightarrow> r = max m (foldr max (requested gf key cs) 0)"
proof (induction gf e key m cs rule: max_init.induct)
  case (2 gf e key m c cs)
  show ?case
    using 2 by (cases "nested c [''resources'', ''requests'', key] = JNull")
      (auto simp: requested_simps Let_def max.assoc split: if_splits sum.split_asm)
qed (simp add: requested_simps)

lemma pod_request_demand:
  assumes "pod_request gf e pod key = Inr q" and "sound_floats gf" and "pod_demand gf key pod < 2 ^ 63"
  shows "q = pod_demand gf key pod"
proof -
  let ?cs = "requested gf key (jlist (nested pod [''spec'', ''containers'']))"
  let ?is = "requested gf key (jlist (nested pod [''spec'', ''initContainers'']))"
  let ?v = "nested pod [''spec'', ''overhead'', key]"
  define over where "over = (if ?v = JNull then 0 else case quantity gf ?v (key = ''cpu'') of Inl _ \<Rightarrow> 0 | Inr q \<Rightarrow> q)"
  have demand: "pod_demand gf key pod = max (sum_list ?cs) (foldr max ?is 0) + over" by (simp add: pod_demand_def over_def Let_def)
  have over: "0 \<le> over" using quantity_bounds(1) [OF assms(2)] by (auto simp: over_def split: sum.splits)
  have cs: "0 \<le> sum_list ?cs" by (rule requested_sum [OF assms(2)])
  obtain t m where t: "add_requests gf key 0 (jlist (nested pod [''spec'', ''containers''])) = Inr t"
    and m: "max_init gf e key 0 (jlist (nested pod [''spec'', ''initContainers''])) = Inr m"
    using assms(1) by (auto simp: pod_request_def simp del: nested_Cons split: sum.split_asm)
  have "(if m > t then m else t) = max t m" by simp
  then have q: "q = (if ?v = JNull then max t m else i64 (max t m + over))"
    using assms(1) t m by (auto simp: pod_request_def over_def Let_def simp del: nested_Cons split: sum.split_asm if_splits)
  have tm: "max t m = max (sum_list ?cs) (foldr max ?is 0)"
    using add_requests_sum [OF t assms(2)] max_init_max [OF m] assms(3) over cs unfolding demand by auto
  have "i64 (max t m + over) = max t m + over"
    using assms(3) over cs unfolding demand tm by (intro i64_id) (auto simp: in_i64_def)
  then show ?thesis using q by (auto simp: demand tm over_def)
qed

lemma pod_requests_amount:
  "pod_requests gf e pod ks = Inr m \<Longrightarrow> key \<in> set ks \<Longrightarrow> \<exists>q. amount m key = q \<and> pod_request gf e pod key = Inr q"
  by (induction ks arbitrary: m) (auto simp: amount_def split: sum.split_asm if_splits)

lemma amount_add: "key \<in> set budget_keys \<Longrightarrow> amount (add_amounts used m) key = i64 (amount used key + amount m key)"
  by (auto simp: amount_def add_amounts_def budget_keys_def)

lemma pod_demand_nonneg: "sound_floats gf \<Longrightarrow> 0 \<le> pod_demand gf key pod"
  unfolding pod_demand_def Let_def
  by (intro add_nonneg_nonneg) (auto simp: le_max_iff_disj requested_sum quantity_bounds(1) split: sum.splits)

lemma used_by_demand:
  assumes "used_by gf used pods = Inr used'" and "sound_floats gf" and "key \<in> set budget_keys"
    and "0 \<le> amount used key" and "amount used key + sum_list (map (pod_demand gf key) pods) < 2 ^ 63"
  shows "amount used' key = amount used key + sum_list (map (pod_demand gf key) pods)"
  using assms
proof (induction gf used pods rule: used_by.induct)
  case (2 gf used pod pods)
  from 2(2) obtain m where m: "pod_requests gf (Plain msg_restartable_capacity) pod budget_keys = Inr m"
    "used_by gf (add_amounts used m) pods = Inr used'" "nested pod [''spec'', ''resources''] = JNull"
    by (auto simp del: nested_Cons split: if_splits sum.split_asm)
  have rest: "0 \<le> sum_list (map (pod_demand gf key) pods)" by (intro sum_list_nonneg) (auto simp: pod_demand_nonneg 2(3))
  note pod = pod_demand_nonneg [OF 2(3), of key pod]
  obtain q where q: "amount m key = q" "pod_request gf (Plain msg_restartable_capacity) pod key = Inr q"
    using pod_requests_amount [OF m(1) 2(4)] by blast
  have q': "q = pod_demand gf key pod" using pod_request_demand [OF q(2) 2(3)] 2(5,6) rest by simp
  have "i64 (amount used key + q) = amount used key + q"
    using 2(5,6) rest pod q' by (intro i64_id) (auto simp: in_i64_def)
  then have a: "amount (add_amounts used m) key = amount used key + pod_demand gf key pod"
    by (simp add: amount_add [OF 2(4)] q(1) q')
  have n: "\<not> nested pod [''spec'', ''resources''] \<noteq> JNull" using m(3) by blast
  show ?case using 2(1) [OF n m(1,2) 2(3,4)] 2(5,6) pod a by simp
qed simp

lemma fits_key:
  "fits gf node container used ks = None \<Longrightarrow> key \<in> set ks \<Longrightarrow>
   \<exists>available wanted. quantity gf (nested node [''status'', ''allocatable'', key]) (key = ''cpu'') = Inr available \<and>
     quantity gf (nested container [''resources'', ''requests'', key]) (key = ''cpu'') = Inr wanted \<and>
     i64 (amount used key + wanted) \<le> available"
  by (induction ks) (auto split: sum.split_asm if_splits)


section \<open>The processors of a hardware report\<close>

abbreviation cpu_id :: "json \<Rightarrow> rat" where
  "cpu_id c \<equiv> float_or_0 (jget c ''cpu'')"

abbreviation sibling_list :: "json \<Rightarrow> json list" where
  "sibling_list c \<equiv> jlist (jget c ''thread_siblings'')"

lemma topology_cpus_known:
  "topology_cpus seen width known cpus = (seen', width', True) \<Longrightarrow>
   known \<and> seen' = rev (map cpu_id cpus) @ seen \<and> (width \<noteq> 0 \<longrightarrow> width' = width) \<and> distinct (map cpu_id cpus) \<and>
   set (map cpu_id cpus) \<inter> set seen = {} \<and>
   (\<forall>c \<in> set cpus. as_float (jget c ''cpu'') \<noteq> None \<and> sibling_list c \<noteq> [] \<and> int (length (sibling_list c)) = width')"
proof (induction seen width known cpus rule: topology_cpus.induct)
  case (2 seen width known c cpus)
  note IH = 2(1) [OF refl refl refl, of] 2(2)
  from 2(2) have "topology_cpus (cpu_id c # seen) (if width = 0 then int (length (sibling_list c)) else width)
      (known \<and> as_float (jget c ''cpu'') \<noteq> None \<and> cpu_id c \<notin> set seen \<and> sibling_list c \<noteq> [] \<and> jget c ''core_id'' \<noteq> JNull \<and>
       jget c ''socket_id'' \<noteq> JNull \<and> (width = 0 \<or> width = int (length (sibling_list c)))) cpus = (seen', width', True)"
    by (simp add: Let_def)
  from 2(1) [OF refl refl refl this] show ?case by (auto split: if_splits)
qed simp

lemma topology_width_independent:
  "fst (snd (topology_cpus seen w k cpus)) = fst (snd (topology_cpus seen' w k' cpus))"
  by (induction cpus arbitrary: seen seen' w k k') (auto simp: Let_def)

lemma siblings_ok_spec:
  "siblings_ok expected seen ss = (True, seen') \<Longrightarrow> distinct seen \<Longrightarrow>
   seen' = rev (map (\<lambda>s. Fin (float_or_0 s)) ss) @ seen \<and> distinct seen' \<and>
   list_all (\<lambda>s. as_float s \<noteq> None \<and> Fin (float_or_0 s) \<in> set expected) ss"
proof (induction expected seen ss rule: siblings_ok.induct)
  case (2 expected seen s ss)
  let ?n = "Fin (float_or_0 s)"
  obtain b seen2 where r: "siblings_ok expected (if ?n \<in> set seen then seen else ?n # seen) ss = (b, seen2)" by fastforce
  with 2(2) have n: "as_float s \<noteq> None" "?n \<in> set expected" "?n \<notin> set seen" "b" "seen2 = seen'" by (auto simp: Let_def)
  with r have "siblings_ok expected (?n # seen) ss = (True, seen')" by simp
  then have IH: "seen' = rev (map (\<lambda>s. Fin (float_or_0 s)) ss) @ ?n # seen" "distinct seen'"
    "list_all (\<lambda>s. as_float s \<noteq> None \<and> Fin (float_or_0 s) \<in> set expected) ss"
    using 2(1) [OF refl] n 2(3) by (auto simp del: distinct_append distinct_rev)
  from IH(1,3) n have "seen' = rev (map (\<lambda>s. Fin (float_or_0 s)) (s # ss)) @ seen"
    "list_all (\<lambda>s. as_float s \<noteq> None \<and> Fin (float_or_0 s) \<in> set expected) (s # ss)" by simp_all
  with IH(2) show ?case by blast
qed simp

text \<open>
  When the reduced hardware report calls the topology known, its processors are complete: every one has a number of
  its own, there are as many as are online and all of these are among them, and every processor's sibling list
  names exactly the processors of its core and socket, which are as many as the reported SMT width.
\<close>
theorem known_topology_complete:
  assumes "h_TopologyKnown (SanitizeHardware gf raw boot)"
    and "cpus = jlist (nested raw [''cpu_topology'', ''cpus''])" and "c \<in> set cpus"
  shows "distinct (map cpu_id cpus) \<and> h_CPUThreads (SanitizeHardware gf raw boot) = int (length cpus) \<and>
    float_or_0 ` set (jlist (nested raw [''cpu_topology'', ''online_cpus''])) \<subseteq> cpu_id ` set cpus \<and>
    (\<exists>core socket. jget c ''core_id'' = JFloat core \<and> jget c ''socket_id'' = JFloat socket \<and> 0 \<le> core \<and> 0 \<le> socket \<and>
       float_or_0 ` set (sibling_list c) = cpu_id ` set (same_core cpus core socket) \<and>
       int (length (same_core cpus core socket)) = h_SMTWidth (SanitizeHardware gf raw boot))"
proof -
  let ?online = "jlist (nested raw [''cpu_topology'', ''online_cpus''])"
  have known: "topology_known gf ?online cpus" using assms(1,2) by (simp add: SanitizeHardware_def Let_def)
  obtain seen width where top: "topology_cpus [] 0 (?online \<noteq> [] \<and> length cpus = length ?online) cpus = (seen, width, True)"
    and online: "\<forall>k \<in> set ?online. float_or_0 k \<in> set seen" and core: "core_ok gf cpus c"
    using known assms(3) by (auto simp: topology_known_def list_all_iff split: prod.splits)
  note parts = topology_cpus_known [OF top]
  have width: "h_SMTWidth (SanitizeHardware gf raw boot) = width"
    using known top topology_width_independent [of "[]" 0 True cpus "[]" "?online \<noteq> [] \<and> length cpus = length ?online"] assms(2)
    by (simp add: SanitizeHardware_def Let_def topology_width_def)
  obtain co so where cs: "jget c ''core_id'' = JFloat co" "jget c ''socket_id'' = JFloat so" "0 \<le> co" "0 \<le> so"
    using core by (auto simp: core_ok_def as_float_def split: json.splits)
  let ?same = "same_core cpus co so"
  define expected where "expected = remdups (map (\<lambda>m. number gf (jget m ''cpu'')) ?same)"
  obtain b seen' where r: "siblings_ok expected [] (sibling_list c) = (b, seen')" by fastforce
  with core cs have sib: "siblings_ok expected [] (sibling_list c) = (True, seen')" "length seen' = length expected"
    by (auto simp: core_ok_def as_float_def expected_def [symmetric] Let_def)
  note sibs = siblings_ok_spec [OF sib(1)]
  have num: "number gf (jget m ''cpu'') = Fin (cpu_id m)" if "m \<in> set cpus" for m
    using parts that by (auto simp: number_def float_or_0_def as_float_def split: json.splits)
  have same: "set ?same \<subseteq> set cpus" by (auto simp: same_core_def)
  have exp: "expected = map (Fin \<circ> cpu_id) ?same"
  proof -
    have "map (\<lambda>m. number gf (jget m ''cpu'')) ?same = map (Fin \<circ> cpu_id) ?same" using num same by auto
    moreover have "distinct (map cpu_id ?same)" using parts unfolding same_core_def by (simp add: distinct_map_filter)
    then have "distinct (map (Fin \<circ> cpu_id) ?same)" by (auto simp: distinct_map inj_on_def)
    ultimately show ?thesis unfolding expected_def by (simp only: distinct_remdups_id)
  qed
  have seen': "seen' = rev (map (Fin \<circ> float_or_0) (sibling_list c))" "distinct seen'" "set seen' \<subseteq> set expected"
    using sibs by (auto simp: comp_def list_all_iff)
  have "set seen' = set expected"
  proof (rule card_subset_eq [OF _ seen'(3)])
    have "distinct expected" by (simp add: expected_def)
    then show "card (set seen') = card (set expected)" using seen'(2) sib(2) by (simp add: distinct_card)
  qed simp
  then have "Fin ` (float_or_0 ` set (sibling_list c)) = Fin ` (cpu_id ` set ?same)"
    unfolding exp seen'(1) by (simp add: image_comp)
  then have sets: "float_or_0 ` set (sibling_list c) = cpu_id ` set ?same" by (simp add: inj_image_eq_iff inj_def)
  have "int (length ?same) = width"
    using parts assms(3) sib(2) unfolding exp seen'(1) by auto
  then show ?thesis
    using parts online cs sets width assms(2) by (auto simp: SanitizeHardware_def Let_def)
qed

section \<open>Examples\<close>

definition rt_float :: GoFloat where
  "rt_float = \<lparr>gf_Sprint = (\<lambda>v. case v of JStr s \<Rightarrow> s | _ \<Rightarrow> ''<nil>''),
     gf_Parse = (\<lambda>s. case ParseInt s of None \<Rightarrow> (Fin 0, False) | Some n \<Rightarrow> (Fin (of_int n), True)),
     gf_Round = Fin, gf_Int = (\<lambda>_. 0), gf_Format = (\<lambda>_. ''0.8''), gf_Time = (\<lambda>_. 0)\<rparr>"

lemma rt_float_sound: "sound_floats rt_float"
  by (auto simp: sound_floats_def rt_float_def split: option.splits)

definition rt_deployment :: "string \<Rightarrow> json" where
  "rt_deployment uid = JObj [(''metadata'', JObj [(''uid'', JStr uid)]), (''spec'', JObj [(''replicas'', JFloat 0)])]"

text \<open>A machine whose \<open>kubectl\<close> answers with the two Deployments, or fails.\<close>

definition rt_machine :: "bool \<Rightarrow> unit HostMachine" where
  "rt_machine up = \<lparr>mx_Expired = (\<lambda>_. False),
     mx_Run = (\<lambda>c s. (s, if cm_Path c = ''/usr/bin/kubectl'' then Exited up [cm_Args c ! 9] else Exited True [])),
     mx_Read = (\<lambda>_ _. Inr ''boot''), mx_Host = (\<lambda>_. ex_host), mx_Mkdir = (\<lambda>_ s. (s, None)), mx_Publish = (\<lambda>_ _ s. (s, None)),
     mx_Remove = (\<lambda>_ s. (s, None)), mx_Sync = (\<lambda>_ _. None),
     mx_World = (\<lambda>_. \<lparr>wo_Source = Content (zero_configuration\<lparr>c_Revision := ''h''\<rparr>), wo_ReadError = Plain ''io'', wo_Now = 5, wo_Verify = None, wo_Lock = None\<rparr>),
     mx_Records = (\<lambda>_. []), mx_Evidence = (\<lambda>_ s. (s, Inr [])), mx_JSON = (\<lambda>b. Some (rt_deployment (if b = ''ai'' then ''u1'' else ''u2''))),
     mx_Encode = (\<lambda>_. []), mx_Session = (\<lambda>_. None), mx_Previous = (\<lambda>_. None), mx_Report = (\<lambda>_. Some (5, ''observed'')),
     mx_OpenRoot = (\<lambda>_ _. None), mx_Model = (\<lambda>_ _. []), mx_Float = rt_float\<rparr>"

definition rt_tools :: Tools where
  "rt_tools = \<lparr>to_H = (\<lambda>_. ''h''), to_HT = (\<lambda>_. ''t''), to_HB = (\<lambda>_. ''b''), to_Hardware = (\<lambda>_. []), to_Files = (\<lambda>_. [])\<rparr>"

definition rt_request :: HostRequest where
  "rt_request = \<lparr>hq_Version = 1, hq_ID = ''switch-1'', hq_ExecutionIdentity = ''owner'', hq_PayloadHash = ''h'',
     hq_Draft = zero_draft\<lparr>d_Action := ''profile.switch'', d_Profile := ''maintenance'', d_Target := ''node'', d_SourceRevision := ''h''\<rparr>,
     hq_Desired = zero_configuration\<lparr>c_Revision := ''h''\<rparr>\<rparr>"

definition rt_record :: HostRecord where
  "rt_record = zero_host_record\<lparr>re_Request := rt_request\<rparr>"

lemma rt_refused:
  "case runtime_execute rt_tools (rt_machine False) ex_policy rt_request () of
     (sh, Inl e) \<Rightarrow> length (sh_Trace sh) = 1 \<and> hr_State (run_result [] (Some e) rt_record) = ''failed'' | _ \<Rightarrow> False"
  by code_simp

lemma rt_switched:
  "case runtime_execute rt_tools (rt_machine True) ex_policy rt_request () of
     (sh, Inr data) \<Rightarrow> length (sh_Trace sh) = 3 \<and> cm_Path (last (sh_Trace sh)) = ''/r/bin/workstationctl'' | _ \<Rightarrow> False"
  by code_simp

lemma rt_mutates: "\<not> readOnlyAction (d_Action (hq_Draft rt_request))" "re_Request rt_record = rt_request"
  by (simp_all add: rt_request_def rt_record_def zero_draft_def readOnlyAction_def EvidenceAction_def MemoryAction_def PerformanceAction_def)

theorem failed_means_untouched_witness:
  "\<exists>sh e. runtime_execute rt_tools (rt_machine False) ex_policy rt_request () = (sh, Inl e) \<and> sh_Trace sh \<noteq> [] \<and>
     list_all (reads ex_policy) (sh_Trace sh)"
proof -
  obtain sh e where run: "runtime_execute rt_tools (rt_machine False) ex_policy rt_request () = (sh, Inl e)"
    and t: "length (sh_Trace sh) = 1" "hr_State (run_result [] (Some e) rt_record) = ''failed''"
    using rt_refused by (auto split: prod.splits sum.splits)
  from failed_means_untouched [of rt_tools _ ex_policy rt_record "()" sh e] run t rt_mutates have "list_all (reads ex_policy) (sh_Trace sh)" by simp
  moreover have "sh_Trace sh \<noteq> []" using t(1) by auto
  ultimately show ?thesis using run by blast
qed

lemma rt_not_read: "cm_Path c = ''/r/bin/workstationctl'' \<Longrightarrow> \<not> reads ex_policy c"
  by (auto simp: reads_def kubectl_def ex_policy_def)


definition rt_serving :: json where
  "rt_serving = JObj [(''metadata'', JObj [(''annotations'', JObj [(''workstation.ai/qualification'', JStr ''qualified'')])]),
     (''spec'', JObj [(''strategy'', JObj [(''type'', JStr ''Recreate'')]), (''template'', JObj [(''spec'', JObj
       [(''containers'', JArr [JObj [(''name'', JStr ''sglang''), (''image'', JStr []),
           (''args'', JArr [JStr ''--host'', JStr ''--cpu-offload-gb'', JStr ''4''])]]),
        (''volumes'', JArr [JObj [(''name'', JStr ''shm''), (''emptyDir'', JObj [(''medium'', JStr ''Memory'')])]])])])])]"

lemma rt_candidate: "\<not> isl (servingCandidate (\<lambda>_. ''h'') rt_float ex_policy rt_serving zero_configuration)"
  by code_simp


definition rt_container :: json where
  "rt_container = JObj [(''resources'', JObj [(''requests'', JObj [(''cpu'', JStr ''4''), (''memory'', JStr ''8Gi''), (''amd.com/gpu'', JStr ''1'')])])]"

definition rt_node :: json where
  "rt_node = JObj [(''status'', JObj [(''allocatable'', JObj [(''cpu'', JStr ''42''), (''memory'', JStr ''48Gi''), (''amd.com/gpu'', JStr ''4'')])])]"

definition rt_pods :: json where
  "rt_pods = JObj [(''items'', JArr [JObj [(''spec'', JObj [(''nodeName'', JStr ''node''), (''containers'', JArr [rt_container, rt_container])])]])]"

lemma rt_fits: "Option.is_none (capacity_fits rt_float ex_policy rt_container rt_node rt_pods (JObj []))"
  "sum_list (map (pod_demand rt_float ''cpu'') (counted_pods ex_policy (JObj []) rt_pods)) = 8000"
  "quantity rt_float (nested rt_node [''status'', ''allocatable'', ''cpu'']) True = Inr 42000"
  by code_simp+


definition rt_cpu :: "rat \<Rightarrow> rat \<Rightarrow> rat list \<Rightarrow> json" where
  "rt_cpu k core siblings = JObj [(''cpu'', JFloat k), (''core_id'', JFloat core), (''socket_id'', JFloat 0),
     (''thread_siblings'', JArr (map JFloat siblings))]"

definition rt_report :: json where
  "rt_report = JObj [(''cpu_topology'', JObj [(''online_cpus'', JArr (map JFloat [0, 1, 2, 3])),
     (''cpus'', JArr [rt_cpu 0 0 [0, 2], rt_cpu 1 1 [1, 3], rt_cpu 2 0 [0, 2], rt_cpu 3 1 [1, 3]])])]"

lemma rt_topology: "h_TopologyKnown (SanitizeHardware rt_float rt_report [])" "h_SMTWidth (SanitizeHardware rt_float rt_report []) = 2"
  by code_simp+

theorem known_topology_complete_witness:
  "\<exists>core socket. int (length (same_core (jlist (nested rt_report [''cpu_topology'', ''cpus''])) core socket)) = 2"
proof -
  have c: "rt_cpu 0 0 [0, 2] \<in> set (jlist (nested rt_report [''cpu_topology'', ''cpus'']))"
    by (simp add: rt_report_def)
  from known_topology_complete [OF rt_topology(1) refl c] rt_topology(2) show ?thesis by auto
qed

text \<open>
  Not-a-number passes both comparisons of \<open>quantity\<close>, so such a request becomes whatever integer the machine
  converts it to.
\<close>

lemma quantity_not_a_number:
  "quantity (rt_float\<lparr>gf_Parse := (\<lambda>_. (NaN, True)), gf_Int := (\<lambda>_. - (2 ^ 63))\<rparr>) (JStr ''NaN'') True = Inr (- (2 ^ 63))"
  by (simp add: quantity_def quantity_parts_def negative_def exceeds_double_def scale_def to_int_def i64_def split: prod.splits)

end
