(* ===== verification/Disk.thy ===== *)
theory Disk
  imports ServiceConfig
begin

text \<open>
  The managed directory of the model stager as \<open>os.Root\<close> presents it: a tree of inodes addressed by path
  components, with symbolic links resolved inside the root, permission and group bits, and one fault per system
  call. An operation is a function on the disk that may fail (\<open>Inl\<close>) or never return (\<open>None\<close>); every change of the
  tree is remembered, as are the requests sent, the addresses dialled and the progress reported, so that a statement about all states passed through also covers a process that stops half way.

  The theory holds the calls, the combinators that sequence them, and the laws the stager's proofs rest on: what a
  call keeps of the tree, well-formedness, and path resolution through real directories.
\<close>

section \<open>Inodes and trees\<close>

datatype content = Directory | Regular string | Symlink string | Special

record Inode =
  in_Content :: content
  in_Perm :: "32 word"
  in_Setuid :: bool
  in_Setgid :: bool
  in_Sticky :: bool
  in_Gid :: "32 word"

type_synonym tree = "(string list \<times> Inode) list"

record Disk =
  dk_Tree :: tree
  dk_Past :: "tree list"
  dk_Faults :: "(nat \<times> err) option list"
  dk_Clock :: "time list"
  dk_Random :: "32 word list"
  dk_Umask :: "32 word"
  dk_Gid :: "32 word"
  dk_Asked :: "URL list"
  dk_Dialled :: "8 word list list"
  dk_Reports :: "(string \<times> int) list"

definition ErrExist :: err where "ErrExist = Plain ''file already exists''"
definition ErrNotExist :: err where "ErrNotExist = Plain ''file does not exist''"
definition ErrEscapes :: err where "ErrEscapes = Plain ''path escapes from parent''"
definition ErrNotDir :: err where "ErrNotDir = Plain ''not a directory''"
definition ErrLoop :: err where "ErrLoop = Plain ''too many levels of symbolic links''"
definition ErrNotEmpty :: err where "ErrNotEmpty = Plain ''directory not empty''"
definition ErrInvalid :: err where "ErrInvalid = Plain ''invalid argument''"

definition comps :: "string \<Rightarrow> string list" where
  "comps p = split_on slash p"

definition is_dir :: "Inode \<Rightarrow> bool" where
  "is_dir i \<longleftrightarrow> in_Content i = Directory"

definition is_symlink :: "Inode \<Rightarrow> bool" where
  "is_symlink i \<longleftrightarrow> (case in_Content i of Symlink _ \<Rightarrow> True | _ \<Rightarrow> False)"

definition is_regular :: "Inode \<Rightarrow> bool" where
  "is_regular i \<longleftrightarrow> (case in_Content i of Regular _ \<Rightarrow> True | _ \<Rightarrow> False)"

definition body :: "Inode \<Rightarrow> string" where
  "body i = (case in_Content i of Regular b \<Rightarrow> b | _ \<Rightarrow> [])"

text \<open>
  The place a path names. The components of a link take the place of the link; an absolute link and one that climbs
  above the root are refused; the last component may be absent, and it is followed only on request.
\<close>

function resolve :: "nat \<Rightarrow> tree \<Rightarrow> bool \<Rightarrow> string list \<Rightarrow> string list \<Rightarrow> err + string list" where
  "resolve links t follow here [] = Inr here"
| "resolve links t follow here (c # cs) =
     (if c = [] \<or> c = ''.'' then resolve links t follow here cs
      else if c = ''..'' then (if here = [] then Inl ErrEscapes else resolve links t follow (butlast here) cs)
      else case map_of t (here @ [c]) of
             None \<Rightarrow> if cs = [] then Inr (here @ [c]) else Inl ErrNotExist
           | Some i \<Rightarrow>
               (case in_Content i of
                  Directory \<Rightarrow> resolve links t follow (here @ [c]) cs
                | Symlink link \<Rightarrow>
                    if cs = [] \<and> \<not> follow then Inr (here @ [c])
                    else if links = 0 then Inl ErrLoop
                    else if IsAbs link then Inl ErrEscapes
                    else resolve (links - 1) t follow here (comps link @ cs)
                | _ \<Rightarrow> if cs = [] then Inr (here @ [c]) else Inl ErrNotDir))"
  by pat_completeness auto
termination by (relation "measures [\<lambda>(links, _). links, \<lambda>(_, _, _, _, cs). length cs]") auto

definition place :: "tree \<Rightarrow> bool \<Rightarrow> string \<Rightarrow> err + string list" where
  "place t follow p = resolve 255 t follow [] (comps p)"

definition tree_entry :: "tree \<Rightarrow> string list \<Rightarrow> err + Inode" where
  "tree_entry t q = (case map_of t q of None \<Rightarrow> Inl ErrNotExist | Some i \<Rightarrow> Inr i)"

section \<open>Operations\<close>

type_synonym 'a io = "Disk \<Rightarrow> (Disk \<times> (err + 'a)) option"

definition give_io :: "'a \<Rightarrow> 'a io" where
  "give_io a d = Some (d, Inr a)"

definition fail_io :: "err \<Rightarrow> 'a io" where
  "fail_io e d = Some (d, Inl e)"

definition then_io :: "'a io \<Rightarrow> ('a \<Rightarrow> 'b io) \<Rightarrow> 'b io" where
  "then_io m f d = (case m d of None \<Rightarrow> None | Some (d1, Inl e) \<Rightarrow> Some (d1, Inl e) | Some (d1, Inr a) \<Rightarrow> f a d1)"

definition check_io :: "bool \<Rightarrow> string \<Rightarrow> unit io" where
  "check_io b msg = (if b then give_io () else fail_io (Plain msg))"

text \<open>An error of \<open>m\<close> is reported as another one; a value that may be missing because its computation does not end.\<close>

definition relabel :: "'a io \<Rightarrow> err \<Rightarrow> 'a io" where
  "relabel m e d = (case m d of Some (d1, Inl _) \<Rightarrow> Some (d1, Inl e) | r \<Rightarrow> r)"

definition either_way :: "'a io \<Rightarrow> (err + 'a) io" where
  "either_way m d = (case m d of None \<Rightarrow> None | Some (d1, r) \<Rightarrow> Some (d1, Inr r))"

definition computed :: "'a option \<Rightarrow> 'a io" where
  "computed x d = (case x of None \<Rightarrow> None | Some a \<Rightarrow> Some (d, Inr a))"

fun each_io :: "('x \<Rightarrow> unit io) \<Rightarrow> 'x list \<Rightarrow> unit io" where
  "each_io f [] = give_io ()"
| "each_io f (x # xs) = then_io (f x) (\<lambda>_. each_io f xs)"

fun map_io :: "('x \<Rightarrow> 'y io) \<Rightarrow> 'x list \<Rightarrow> 'y list io" where
  "map_io f [] = give_io []"
| "map_io f (x # xs) = then_io (f x) (\<lambda>y. then_io (map_io f xs) (\<lambda>ys. give_io (y # ys)))"

section \<open>System calls\<close>

definition try_call :: "unit io" where
  "try_call d = (case dk_Faults d of
     [] \<Rightarrow> Some (d, Inr ())
   | x # xs \<Rightarrow> Some (d\<lparr>dk_Faults := xs\<rparr>, case x of None \<Rightarrow> Inr () | Some (_, e) \<Rightarrow> Inl e))"

definition observe :: "(tree \<Rightarrow> err + 'a) \<Rightarrow> 'a io" where
  "observe f = then_io try_call (\<lambda>_ d. Some (d, f (dk_Tree d)))"

definition turn :: "tree \<Rightarrow> Disk \<Rightarrow> Disk" where
  "turn t d = d\<lparr>dk_Tree := t, dk_Past := dk_Past d @ [dk_Tree d]\<rparr>"

definition alter :: "(Disk \<Rightarrow> err + tree) \<Rightarrow> unit io" where
  "alter f = then_io try_call (\<lambda>_ d. case f d of Inl e \<Rightarrow> Some (d, Inl e) | Inr t \<Rightarrow> Some (turn t d, Inr ()))"

definition clock :: "time io" where
  "clock d = (case dk_Clock d of [] \<Rightarrow> Some (d, Inr zero_time) | n # ns \<Rightarrow> Some (d\<lparr>dk_Clock := ns\<rparr>, Inr n))"

text \<open>\<open>root.Lstat\<close>, \<open>root.Stat(".")\<close> and \<open>root.Open\<close>; a handle is the place of the inode.\<close>

definition lstat_at :: "tree \<Rightarrow> string \<Rightarrow> err + Inode" where
  "lstat_at t p = (case place t False p of Inl e \<Rightarrow> Inl e | Inr q \<Rightarrow> tree_entry t q)"

definition Lstat_io :: "string \<Rightarrow> Inode io" where
  "Lstat_io p = observe (\<lambda>t. lstat_at t p)"

definition stat_root :: "Inode io" where
  "stat_root = observe (\<lambda>t. tree_entry t [])"

definition Open_io :: "string \<Rightarrow> string list io" where
  "Open_io p = observe (\<lambda>t. case place t True p of Inl e \<Rightarrow> Inl e
     | Inr q \<Rightarrow> (case map_of t q of None \<Rightarrow> Inl ErrNotExist | Some _ \<Rightarrow> Inr q))"

definition fstat :: "string list \<Rightarrow> Inode io" where
  "fstat h = observe (\<lambda>t. tree_entry t h)"

definition read_io :: "string list \<Rightarrow> string io" where
  "read_io h = observe (\<lambda>t. case map_of t h of None \<Rightarrow> Inl ErrNotExist | Some i \<Rightarrow> Inr (body i))"

text \<open>A new inode takes the group of a setgid parent, a directory the bit too, and the mode less the umask.\<close>

definition new_inode :: "Disk \<Rightarrow> Inode \<Rightarrow> content \<Rightarrow> 32 word \<Rightarrow> Inode" where
  "new_inode d parent c perm = \<lparr>in_Content = c, in_Perm = and perm (not (dk_Umask d)), in_Setuid = False,
     in_Setgid = (in_Setgid parent \<and> c = Directory), in_Sticky = False,
     in_Gid = (if in_Setgid parent then in_Gid parent else dk_Gid d)\<rparr>"

definition insert_new :: "content \<Rightarrow> 32 word \<Rightarrow> string \<Rightarrow> Disk \<Rightarrow> err + tree" where
  "insert_new c perm p d =
     (let t = dk_Tree d in
      case place t False p of
        Inl e \<Rightarrow> Inl e
      | Inr q \<Rightarrow>
          if q = [] \<or> map_of t q \<noteq> None then Inl ErrExist
          else case map_of t (butlast q) of
                 None \<Rightarrow> Inl ErrNotExist
               | Some parent \<Rightarrow> if is_dir parent then Inr (AList.update q (new_inode d parent c perm) t) else Inl ErrNotDir)"

definition Mkdir_io :: "string \<Rightarrow> 32 word \<Rightarrow> unit io" where
  "Mkdir_io p perm = alter (insert_new Directory perm p)"

definition Create_io :: "string \<Rightarrow> 32 word \<Rightarrow> string list io" where
  "Create_io p perm = then_io (alter (insert_new (Regular []) perm p))
     (\<lambda>_ d. Some (d, place (dk_Tree d) False p))"

definition set_inode :: "string list \<Rightarrow> (Inode \<Rightarrow> Inode) \<Rightarrow> tree \<Rightarrow> tree" where
  "set_inode h f t = (case map_of t h of None \<Rightarrow> t | Some i \<Rightarrow> AList.update h (f i) t)"

text \<open>A failed write has written a part; one that succeeds has written all, as \<open>io.Writer\<close> requires.\<close>

definition append_body :: "string \<Rightarrow> Inode \<Rightarrow> Inode" where
  "append_body b i = (case in_Content i of Regular a \<Rightarrow> i\<lparr>in_Content := Regular (a @ b)\<rparr> | _ \<Rightarrow> i)"

definition write_io :: "string list \<Rightarrow> string \<Rightarrow> unit io" where
  "write_io h b d = (case dk_Faults d of
     [] \<Rightarrow> Some (turn (set_inode h (append_body b) (dk_Tree d)) d, Inr ())
   | None # xs \<Rightarrow> Some (turn (set_inode h (append_body b) (dk_Tree d)) (d\<lparr>dk_Faults := xs\<rparr>), Inr ())
   | Some (n, e) # xs \<Rightarrow> Some (turn (set_inode h (append_body (take n b)) (dk_Tree d)) (d\<lparr>dk_Faults := xs\<rparr>), Inl e))"

definition chmod_inode :: "32 word \<Rightarrow> Inode \<Rightarrow> Inode" where
  "chmod_inode mode i = i\<lparr>in_Perm := mode, in_Setuid := False, in_Setgid := False, in_Sticky := False\<rparr>"

definition fchmod :: "string list \<Rightarrow> 32 word \<Rightarrow> unit io" where
  "fchmod h mode = alter (\<lambda>d. Inr (set_inode h (chmod_inode mode) (dk_Tree d)))"

abbreviation sync_io :: "unit io" where "sync_io \<equiv> try_call"
abbreviation close_io :: "unit io" where "close_io \<equiv> try_call"

definition starts :: "string list \<Rightarrow> string list \<Rightarrow> bool" where
  "starts p q \<longleftrightarrow> take (length p) q = p"

definition below :: "tree \<Rightarrow> string list \<Rightarrow> bool" where
  "below t q \<longleftrightarrow> list_ex (\<lambda>r. starts q r \<and> r \<noteq> q) (map fst t)"

definition move :: "string list \<Rightarrow> string list \<Rightarrow> string list \<Rightarrow> string list" where
  "move a b q = (if starts a q then b @ drop (length a) q else q)"

definition rename_tree :: "string \<Rightarrow> string \<Rightarrow> Disk \<Rightarrow> err + tree" where
  "rename_tree old new d =
     (let t = dk_Tree d in
      case (place t False old, place t False new) of
        (Inl e, _) \<Rightarrow> Inl e
      | (_, Inl e) \<Rightarrow> Inl e
      | (Inr a, Inr b) \<Rightarrow>
          (case map_of t a of
             None \<Rightarrow> Inl ErrNotExist
           | Some i \<Rightarrow>
               if a = [] \<or> b = [] \<or> starts a b then Inl ErrInvalid
               else if map_of t (butlast b) = None \<or> \<not> is_dir (the (map_of t (butlast b))) then Inl ErrNotDir
               else case map_of t b of
                      None \<Rightarrow> Inr (map (\<lambda>(q, j). (move a b q, j)) t)
                    | Some j \<Rightarrow>
                        if is_dir i \<noteq> is_dir j then Inl ErrNotDir
                        else if is_dir j \<and> below t b then Inl ErrNotEmpty
                        else Inr (map (\<lambda>(q, j). (move a b q, j)) (AList.delete b t))))"

definition Rename_io :: "string \<Rightarrow> string \<Rightarrow> unit io" where
  "Rename_io old new = alter (rename_tree old new)"

definition Remove_io :: "string \<Rightarrow> unit io" where
  "Remove_io p = alter (\<lambda>d. case place (dk_Tree d) False p of
     Inl e \<Rightarrow> Inl e
   | Inr q \<Rightarrow> if map_of (dk_Tree d) q = None then Inl ErrNotExist
              else if q = [] then Inl ErrInvalid
              else if below (dk_Tree d) q then Inl ErrNotEmpty
              else Inr (AList.delete q (dk_Tree d)))"

text \<open>
  \<open>os.MkdirTemp\<close> in the root: names are drawn until one is free; a failure other than an existing name is final.
\<close>

definition temp_name :: "string \<Rightarrow> 32 word \<Rightarrow> string" where
  "temp_name pattern r = pattern @ Itoa (uint r)"

fun mkdir_temp :: "string \<Rightarrow> 32 word list \<Rightarrow> Disk \<Rightarrow> (Disk \<times> (err + string)) option" where
  "mkdir_temp pattern [] d = Some (d, Inl ErrExist)"
| "mkdir_temp pattern (r # rs) d =
     (case Mkdir_io (temp_name pattern r) 448 (d\<lparr>dk_Random := rs\<rparr>) of
        None \<Rightarrow> None
      | Some (d1, Inr _) \<Rightarrow> Some (d1, Inr (temp_name pattern r))
      | Some (d1, Inl e) \<Rightarrow> if e = ErrExist then mkdir_temp pattern rs d1 else Some (d1, Inl e))"

definition MkdirTemp_io :: "string \<Rightarrow> string io" where
  "MkdirTemp_io pattern d = mkdir_temp pattern (dk_Random d) d"

text \<open>
  \<open>fs.WalkDir\<close>: the entry itself is looked up, then every entry below it is visited in the lexical order of its
  components, a directory before what it holds and then read.
\<close>

definition entries_below :: "tree \<Rightarrow> string list \<Rightarrow> (string list \<times> Inode) list" where
  "entries_below t q = map (\<lambda>(r, i). (drop (length q) r, i)) (sort_key fst (filter (\<lambda>(r, _). starts q r) t))"

definition visit_entry :: "(string \<Rightarrow> Inode \<Rightarrow> unit io) \<Rightarrow> string list \<times> Inode \<Rightarrow> unit io" where
  "visit_entry visit = (\<lambda>(r, i). then_io (visit (join_with slash r) i) (\<lambda>_. if is_dir i then try_call else give_io ()))"

definition WalkDir :: "string \<Rightarrow> (string \<Rightarrow> Inode \<Rightarrow> unit io) \<Rightarrow> unit io" where
  "WalkDir p visit =
     then_io (observe (\<lambda>t. case place t False p of Inl e \<Rightarrow> Inl e
       | Inr q \<Rightarrow> (case map_of t q of None \<Rightarrow> Inl ErrNotExist | Some _ \<Rightarrow> Inr (entries_below t q))))
     (each_io (visit_entry visit))"

section \<open>Sequencing\<close>

lemma then_io_Some: "then_io m f d = Some (d', x) \<longleftrightarrow>
    (\<exists>e. m d = Some (d', Inl e) \<and> x = Inl e) \<or> (\<exists>d1 a. m d = Some (d1, Inr a) \<and> f a d1 = Some (d', x))"
  by (auto simp: then_io_def split: option.split prod.split sum.split)

lemma then_io_Inr [simp]: "then_io m f d = Some (d', Inr b) \<longleftrightarrow> (\<exists>d1 a. m d = Some (d1, Inr a) \<and> f a d1 = Some (d', Inr b))"
  by (auto simp: then_io_Some)

lemma io_simple [simp]:
  "give_io a d = Some (d', x) \<longleftrightarrow> d' = d \<and> x = Inr a" "fail_io e d = Some (d', x) \<longleftrightarrow> d' = d \<and> x = Inl e"
  "computed y d = Some (d', x) \<longleftrightarrow> (\<exists>a. y = Some a \<and> d' = d \<and> x = Inr a)"
  "check_io b msg d = Some (d', Inr u) \<longleftrightarrow> b \<and> d' = d"
  by (auto simp: give_io_def fail_io_def computed_def check_io_def split: option.split)

lemma relabel_Inr [simp]: "relabel m e d = Some (d', Inr a) \<longleftrightarrow> m d = Some (d', Inr a)"
  by (auto simp: relabel_def split: option.split sum.split)

lemma either_way_Some [simp]: "either_way m d = Some (d', x) \<longleftrightarrow> (\<exists>r. m d = Some (d', r) \<and> x = Inr r)"
  by (auto simp: either_way_def split: option.split)

text \<open>
  An operation \<^emph>\<open>upholds\<close> a relation under an invariant when every outcome, a failure too, keeps the invariant and is
  related to the disk it started from. An operation that only reads leaves the tree alone and asks nobody; relations
  that look at the tree and its past only do not see requests either.
\<close>

definition upholds :: "(Disk \<Rightarrow> bool) \<Rightarrow> (Disk \<Rightarrow> Disk \<Rightarrow> bool) \<Rightarrow> 'a io \<Rightarrow> bool" where
  "upholds I R m \<longleftrightarrow> (\<forall>d d' x. I d \<longrightarrow> m d = Some (d', x) \<longrightarrow> I d' \<and> R d d')"

lemma upholdsI: "(\<And>d d' x. I d \<Longrightarrow> m d = Some (d', x) \<Longrightarrow> I d' \<and> R d d') \<Longrightarrow> upholds I R m"
  by (simp add: upholds_def)

lemma upholdsD: "upholds I R m \<Longrightarrow> I d \<Longrightarrow> m d = Some (d', x) \<Longrightarrow> I d' \<and> R d d'"
  by (simp add: upholds_def)

definition still :: "Disk \<Rightarrow> Disk \<Rightarrow> bool" where
  "still d d' \<longleftrightarrow> dk_Tree d' = dk_Tree d \<and> dk_Past d' = dk_Past d"

definition idle :: "Disk \<Rightarrow> Disk \<Rightarrow> bool" where
  "idle d d' \<longleftrightarrow> still d d' \<and> dk_Asked d' = dk_Asked d \<and> dk_Dialled d' = dk_Dialled d"

abbreviation only_reads :: "'a io \<Rightarrow> bool" where
  "only_reads \<equiv> upholds (\<lambda>_. True) idle"

named_theorems reading_rules

locale io_order =
  fixes I :: "Disk \<Rightarrow> bool" and R :: "Disk \<Rightarrow> Disk \<Rightarrow> bool"
  assumes steps: "R a b \<Longrightarrow> R b c \<Longrightarrow> R a c"
    and resting: "idle a b \<Longrightarrow> I a \<Longrightarrow> I b \<and> R a b"
begin

lemma keeps_reads: "only_reads m \<Longrightarrow> upholds I R m"
  using resting by (auto simp: upholds_def)

lemma keeps_then:
  assumes "upholds I R m" and "\<And>a. upholds I R (f a)"
  shows "upholds I R (then_io m f)"
proof (rule upholdsI)
  fix d d' x
  assume "I d" and "then_io m f d = Some (d', x)"
  then show "I d' \<and> R d d'"
    using assms steps unfolding then_io_Some by (meson upholdsD)
qed

lemma keeps_then_result:
  assumes "upholds I R m" and "\<And>d d' a. I d \<Longrightarrow> m d = Some (d', Inr a) \<Longrightarrow> P a" and "\<And>a. P a \<Longrightarrow> upholds I R (f a)"
  shows "upholds I R (then_io m f)"
proof (rule upholdsI)
  fix d d' x
  assume "I d" and "then_io m f d = Some (d', x)"
  then show "I d' \<and> R d d'"
    using assms steps unfolding then_io_Some by (meson upholdsD)
qed

lemma keeps_each: "(\<And>x. x \<in> set xs \<Longrightarrow> upholds I R (f x)) \<Longrightarrow> upholds I R (each_io f xs)"
proof (induction xs)
  case Nil
  show ?case using resting by (auto simp: upholds_def still_def idle_def)
qed (auto intro: keeps_then)

lemma keeps_map: "(\<And>x. x \<in> set xs \<Longrightarrow> upholds I R (f x)) \<Longrightarrow> upholds I R (map_io f xs)"
proof (induction xs)
  case Nil
  show ?case using resting by (auto simp: upholds_def still_def idle_def)
next
  case (Cons x xs)
  then show ?case using resting by (auto intro!: keeps_then simp: upholds_def [of I R "give_io _"] still_def idle_def)
qed

lemma keeps_wrapped: "upholds I R m \<Longrightarrow> upholds I R (relabel m e)" "upholds I R m \<Longrightarrow> upholds I R (either_way m)"
  by (auto simp: upholds_def relabel_def split: option.splits prod.splits sum.splits)

lemma keeps_temp:
  assumes "\<And>p. upholds I R (Mkdir_io p 448)"
  shows "upholds I R (MkdirTemp_io pattern)"
proof -
  have "I d \<Longrightarrow> mkdir_temp pattern rs d = Some (d', x) \<Longrightarrow> I d' \<and> R d d'" for rs d d' x
  proof (induction pattern rs d rule: mkdir_temp.induct)
    case (1 pattern d)
    then show ?case using resting [of d d] by (simp add: idle_def still_def)
  next
    case (2 pattern r rs d)
    have r: "I (d\<lparr>dk_Random := rs\<rparr>) \<and> R d (d\<lparr>dk_Random := rs\<rparr>)" using 2(2) by (intro resting) (simp_all add: idle_def still_def)
    obtain d1 y where m: "Mkdir_io (temp_name pattern r) 448 (d\<lparr>dk_Random := rs\<rparr>) = Some (d1, y)"
      using 2(3) by (auto split: option.splits)
    then have k: "I d1 \<and> R d d1" using upholdsD [OF assms] r steps by blast
    show ?case
    proof (cases y)
      case (Inl e)
      with 2(1) [OF m refl Inl] 2(3) m k steps show ?thesis by (cases "e = ErrExist") auto
    qed (use 2(3) m k in simp)
  qed
  then show ?thesis by (auto simp: upholds_def MkdirTemp_io_def)
qed

lemma keeps_if: "(b \<Longrightarrow> upholds I R m) \<Longrightarrow> (\<not> b \<Longrightarrow> upholds I R n) \<Longrightarrow> upholds I R (if b then m else n)"
  by simp

end

locale io_relation = io_order +
  assumes quiet: "still a b \<Longrightarrow> I a \<Longrightarrow> I b \<and> R a b"
begin

lemma keeps_still: "upholds (\<lambda>_. True) still m \<Longrightarrow> upholds I R m"
  using quiet by (auto simp: upholds_def)

end

interpretation rd: io_order "\<lambda>_. True" idle
  by unfold_locales (auto simp: idle_def still_def)

lemma reads_calls [reading_rules]:
  "only_reads (give_io a)" "only_reads (fail_io e)" "only_reads (check_io b msg)" "only_reads (computed y)" "only_reads try_call" "only_reads (observe f)" "only_reads clock"
  by (auto simp: upholds_def idle_def still_def check_io_def try_call_def clock_def observe_def then_io_Some split: list.splits option.splits)

declare rd.keeps_then [reading_rules] rd.keeps_each [reading_rules] rd.keeps_map [reading_rules] rd.keeps_wrapped [reading_rules]
  rd.keeps_if [reading_rules]

lemma reads_lookups [reading_rules]:
  "only_reads (Lstat_io p)" "only_reads stat_root" "only_reads (Open_io p)" "only_reads (fstat h)" "only_reads (read_io h)"
  by (simp_all add: Lstat_io_def stat_root_def Open_io_def fstat_def read_io_def reads_calls)

lemma reads_WalkDir [reading_rules]: "(\<And>r i. only_reads (visit r i)) \<Longrightarrow> only_reads (WalkDir p visit)"
  unfolding WalkDir_def visit_entry_def by (auto intro!: reading_rules split: prod.split)

lemma reads_tree: "only_reads m \<Longrightarrow> m d = Some (d', x) \<Longrightarrow> dk_Tree d' = dk_Tree d \<and> dk_Past d' = dk_Past d"
  by (simp add: upholds_def still_def idle_def)

lemma try_call_Inr [simp]: "try_call d = Some (d', Inr u) \<Longrightarrow> still d d'"
  using reads_tree [OF reads_calls(5)] by (simp add: still_def)

lemma observed: "observe f d = Some (d', Inr a) \<Longrightarrow> f (dk_Tree d) = Inr a \<and> still d d'"
  using reads_tree [OF reads_calls(6)] by (auto simp: observe_def still_def dest!: try_call_Inr)

lemma altered: "alter f d = Some (d', x) \<Longrightarrow>
    still d d' \<or> (\<exists>d1 t. still d d1 \<and> dk_Umask d1 = dk_Umask d \<and> dk_Gid d1 = dk_Gid d \<and> f d1 = Inr t \<and> d' = turn t d1 \<and> x = Inr ())"
proof -
  assume "alter f d = Some (d', x)"
  then consider (failed) "try_call d = Some (d', x)" "\<exists>e. x = Inl e"
    | (tried) d1 where "try_call d = Some (d1, Inr ())" "(case f d1 of Inl e \<Rightarrow> Some (d1, Inl e) | Inr t \<Rightarrow> Some (turn t d1, Inr ())) = Some (d', x)"
    by (auto simp: alter_def then_io_Some)
  then show ?thesis
  proof cases
    case failed
    then show ?thesis using reads_tree [OF reads_calls(5)] by (simp add: still_def)
  next
    case tried
    then have "still d d1" "dk_Umask d1 = dk_Umask d" "dk_Gid d1 = dk_Gid d"
      by (auto simp: try_call_def still_def split: list.splits option.splits)
    with tried(2) show ?thesis by (auto split: sum.splits)
  qed
qed

lemma altered_Inr:
  assumes "alter f d = Some (d', Inr u)"
  obtains d1 t where "still d d1" and "f d1 = Inr t" and "d' = turn t d1"
proof -
  from assms obtain d1 where "try_call d = Some (d1, Inr ())"
      and f: "(case f d1 of Inl e \<Rightarrow> Some (d1, Inl e) | Inr t \<Rightarrow> Some (turn t d1, Inr ())) = Some (d', Inr u)"
    by (auto simp: alter_def)
  then have "still d d1" by simp
  with f that show thesis by (cases "f d1") auto
qed

section \<open>Well-formed trees\<close>

text \<open>
  No path occurs twice, the root is a directory, and every other entry has a plain name in a directory.
\<close>

definition dir_at :: "tree \<Rightarrow> string list \<Rightarrow> bool" where
  "dir_at t q \<longleftrightarrow> (case map_of t q of None \<Rightarrow> False | Some i \<Rightarrow> is_dir i)"

definition wf_tree :: "tree \<Rightarrow> bool" where
  "wf_tree t \<longleftrightarrow> distinct (map fst t) \<and> dir_at t []
     \<and> list_all (\<lambda>q. q = [] \<or> plain_component (last q) \<and> dir_at t (butlast q)) (map fst t)"

lemma key_iff: "q \<in> set (map fst t) \<longleftrightarrow> map_of t q \<noteq> None"
  by (induction t) (auto split: if_splits)

lemma wf_parent: "wf_tree t \<Longrightarrow> map_of t q = Some i \<Longrightarrow> q \<noteq> [] \<Longrightarrow> dir_at t (butlast q)"
  using key_iff [of q t] by (auto simp: wf_tree_def list_all_iff)

lemma wf_plain: "wf_tree t \<Longrightarrow> map_of t q = Some i \<Longrightarrow> list_all plain_component q"
proof (induction q arbitrary: i rule: rev_induct)
  case (snoc c q)
  have "q @ [c] \<in> set (map fst t)" using snoc.prems by (simp only: key_iff) simp
  then have "plain_component c \<and> dir_at t q" using snoc.prems(1) unfolding wf_tree_def list_all_iff by force
  with snoc show ?case by (auto simp: dir_at_def split: option.splits)
qed simp

lemma wf_ancestors: "wf_tree t \<Longrightarrow> map_of t (q @ r) = Some i \<Longrightarrow> r \<noteq> [] \<Longrightarrow> dir_at t q"
proof (induction r arbitrary: i rule: rev_induct)
  case (snoc c r)
  have d: "dir_at t (q @ r)" using wf_parent [OF snoc.prems(1,2)] by (simp add: butlast_append)
  show ?case
  proof (cases "r = []")
    case False
    from d obtain j where "map_of t (q @ r) = Some j" by (auto simp: dir_at_def split: option.splits)
    from snoc.IH [OF snoc.prems(1) this False] show ?thesis .
  qed (use d in simp)
qed simp

lemma map_of_set_inode: "map_of (set_inode h f t) q = (if q = h then map_option f (map_of t h) else map_of t q)"
  by (auto simp: set_inode_def update_conv split: option.split)

lemma keys_set_inode: "map fst (set_inode h f t) = map fst t"
proof (cases "map_of t h")
  case (Some i)
  then have "h \<in> set (map fst t)" by (metis key_iff option.distinct(1))
  with Some show ?thesis by (simp add: set_inode_def update_keys)
qed (simp add: set_inode_def)

lemma wf_set_inode:
  assumes "wf_tree t" and "\<And>i. is_dir i \<Longrightarrow> is_dir (f i)"
  shows "wf_tree (set_inode h f t)"
proof -
  have "dir_at t q \<Longrightarrow> dir_at (set_inode h f t) q" for q
    using assms(2) by (auto simp: dir_at_def map_of_set_inode split: option.splits)
  with assms(1) show ?thesis unfolding wf_tree_def keys_set_inode list_all_iff by blast
qed

text \<open>Resolution as a relation, without the bound on links: what a resolved path went through.\<close>

definition ordinary :: "string \<Rightarrow> bool" where
  "ordinary c \<longleftrightarrow> c \<noteq> [] \<and> c \<noteq> ''.'' \<and> c \<noteq> ''..''"

definition link_at :: "tree \<Rightarrow> string list \<Rightarrow> bool" where
  "link_at t q \<longleftrightarrow> (case map_of t q of None \<Rightarrow> False | Some i \<Rightarrow> is_symlink i)"

inductive leads :: "tree \<Rightarrow> bool \<Rightarrow> string list \<Rightarrow> string list \<Rightarrow> string list \<Rightarrow> bool" for t follow where
  arrived: "leads t follow here [] here"
| skip: "c = [] \<or> c = ''.'' \<Longrightarrow> leads t follow here cs q \<Longrightarrow> leads t follow here (c # cs) q"
| up: "leads t follow (butlast here) cs q \<Longrightarrow> leads t follow here (''..'' # cs) q"
| leaf: "ordinary c \<Longrightarrow> \<not> dir_at t (here @ [c]) \<Longrightarrow> (link_at t (here @ [c]) \<Longrightarrow> \<not> follow) \<Longrightarrow> leads t follow here [c] (here @ [c])"
| into: "ordinary c \<Longrightarrow> dir_at t (here @ [c]) \<Longrightarrow> leads t follow (here @ [c]) cs q \<Longrightarrow> leads t follow here (c # cs) q"
| via_link: "ordinary c \<Longrightarrow> map_of t (here @ [c]) = Some i \<Longrightarrow> in_Content i = Symlink link \<Longrightarrow> cs \<noteq> [] \<or> follow \<Longrightarrow>
    leads t follow here (comps link @ cs) q \<Longrightarrow> leads t follow here (c # cs) q"

lemma resolve_leads: "resolve n t follow here cs = Inr q \<Longrightarrow> leads t follow here cs q"
proof (induction n t follow here cs rule: resolve.induct)
  case (2 links t follow here c cs)
  show ?case
  proof (cases "ordinary c")
    case False
    with 2 show ?thesis by (auto simp: ordinary_def split: if_splits intro: leads.intros)
  next
    case ord: True
    then have c: "c \<noteq> []" "c \<noteq> ''.''" "c \<noteq> ''..''" by (simp_all add: ordinary_def)
    show ?thesis
    proof (cases "map_of t (here @ [c])")
      case None
      with "2.prems" c have "cs = []" "q = here @ [c]" by (auto split: if_splits)
      with None ord show ?thesis by (auto intro!: leads.leaf simp: dir_at_def link_at_def)
    next
      case (Some i)
      show ?thesis
      proof (cases "in_Content i")
        case Directory
        with "2.prems" c Some have "resolve links t follow (here @ [c]) cs = Inr q" by simp
        with 2(3) c Some Directory have "leads t follow (here @ [c]) cs q" by simp
        then show ?thesis using ord Some Directory by (auto intro: leads.into simp: dir_at_def is_dir_def)
      next
        case (Symlink link)
        have at: "link_at t (here @ [c])" "\<not> dir_at t (here @ [c])"
          using Some Symlink by (simp_all add: link_at_def dir_at_def is_dir_def is_symlink_def)
        show ?thesis
        proof (cases "cs = [] \<and> \<not> follow")
          case True
          with "2.prems" c Some Symlink have "q = here @ [c]" by simp
          with True ord at show ?thesis by (auto intro: leads.leaf)
        next
          case False
          with "2.prems" c Some Symlink have r: "links \<noteq> 0" "\<not> IsAbs link" "resolve (links - 1) t follow here (comps link @ cs) = Inr q"
            by (auto split: if_splits)
          with 2(4) [OF _ _ Some Symlink] c False have "leads t follow here (comps link @ cs) q" by simp
          then show ?thesis using ord Some Symlink False by (auto intro: leads.via_link)
        qed
      qed (use "2.prems" c Some ord in \<open>auto intro!: leads.leaf simp: dir_at_def link_at_def is_dir_def is_symlink_def split: if_splits\<close>)
    qed
  qed
qed (auto intro: leads.arrived)

lemma leads_plain: "leads t follow here cs q \<Longrightarrow> list_all plain_component here \<Longrightarrow> list_all (\<lambda>c. slash \<notin> set c) cs \<Longrightarrow>
    list_all plain_component q"
proof (induction rule: leads.induct)
  case (up here cs q)
  then show ?case by (metis append_butlast_last_id butlast.simps(1) list_all_append list.pred_inject(2))
qed (auto simp: plain_component_def ordinary_def comps_def split_slash_free)

lemma place_plain: "place t follow p = Inr q \<Longrightarrow> list_all plain_component q"
  unfolding place_def using leads_plain [OF resolve_leads] by (auto simp: comps_def split_slash_free)

lemma inserted:
  assumes "insert_new c perm p d = Inr t"
  obtains q parent where "place (dk_Tree d) False p = Inr q" and "q \<noteq> []" and "map_of (dk_Tree d) q = None"
    and "map_of (dk_Tree d) (butlast q) = Some parent" and "is_dir parent" and "t = AList.update q (new_inode d parent c perm) (dk_Tree d)"
  using assms by (auto simp: insert_new_def Let_def split: sum.splits if_splits option.splits)

lemma wf_update:
  assumes "wf_tree t" and "map_of t q = None" and "dir_at t (butlast q)" and "list_all plain_component q" and "q \<noteq> []"
  shows "wf_tree (AList.update q i t)"
proof -
  have q: "q \<notin> set (map fst t)" using assms(2) by (simp only: key_iff) simp
  have keep: "dir_at t r \<Longrightarrow> dir_at (AList.update q i t) r" for r
    using assms(2) by (auto simp: dir_at_def update_conv split: option.splits)
  have "plain_component (last q)" using assms(4,5) by (simp add: list_all_iff)
  with keep assms q show ?thesis
    by (auto simp: wf_tree_def update_keys list_all_iff)
qed

lemma wf_inserted: "wf_tree (dk_Tree d) \<Longrightarrow> insert_new c perm p d = Inr t \<Longrightarrow> wf_tree t"
  by (erule inserted) (auto intro!: wf_update place_plain simp: dir_at_def)

lemma starts_iff: "starts p q \<longleftrightarrow> (\<exists>r. q = p @ r)"
  unfolding starts_def by (metis append_eq_conv_conj append_take_drop_id)

lemma wf_deleted:
  assumes "wf_tree t" and "q \<noteq> []" and "\<not> below t q"
  shows "wf_tree (AList.delete q t)"
proof -
  have keys: "map fst (AList.delete q t) = filter (\<lambda>r. r \<noteq> q) (map fst t)"
    by (simp add: delete_keys removeAll_filter_not_eq) (rule filter_cong; auto)
  have keep: "dir_at (AList.delete q t) r" if "dir_at t r" "r \<noteq> q" for r
    using that by (simp add: dir_at_def delete_conv)
  have "dir_at (AList.delete q t) (butlast r)" if r: "r \<in> set (map fst t)" "r \<noteq> []" "r \<noteq> q" for r
  proof (rule keep)
    show "dir_at t (butlast r)" using assms(1) r by (auto simp: wf_tree_def list_all_iff)
    show "butlast r \<noteq> q"
    proof
      assume "butlast r = q"
      then have "starts q r" using r(2) by (metis starts_iff append_butlast_last_id)
      with assms(3) r show False by (auto simp: below_def list_ex_iff)
    qed
  qed
  with keep assms show ?thesis by (auto simp: wf_tree_def keys list_all_iff)
qed

lemma leads_follow:
  assumes "leads t False here cs q" and "\<not> link_at t q" and "leads t True here cs r"
  shows "r = q"
  using assms
proof (induction arbitrary: r rule: leads.induct)
  case (leaf c here)
  from leaf.prems(2) show ?case
    by (cases rule: leads.cases) (use leaf in \<open>auto simp: ordinary_def link_at_def is_symlink_def\<close>)
next
  case (into c here cs q)
  from into.prems(2) show ?case
    by (cases rule: leads.cases) (use into in \<open>auto simp: ordinary_def dir_at_def is_dir_def\<close>)
next
  case (via_link c here i link cs q)
  from via_link.prems(2) show ?case
    by (cases rule: leads.cases) (use via_link in \<open>auto simp: ordinary_def dir_at_def link_at_def is_dir_def is_symlink_def\<close>)
qed (auto simp: ordinary_def elim: leads.cases)

lemma starts_refl [simp]: "starts p p"
  by (simp add: starts_def)

lemma starts_append [simp]: "starts p (p @ r)"
  by (simp add: starts_def)

section \<open>Real subtrees\<close>

text \<open>
  A place that is reached through real directories and has no symbolic link at or below it: a path that goes through
  it and does not climb names exactly the place its components spell.
\<close>

definition real_dirs :: "tree \<Rightarrow> string list \<Rightarrow> bool" where
  "real_dirs t p \<longleftrightarrow> list_all plain_component p \<and> (\<forall>k < length p. dir_at t (take (Suc k) p))"

definition rigid :: "string list \<Rightarrow> tree \<Rightarrow> bool" where
  "rigid p t \<longleftrightarrow> real_dirs t p \<and> (\<forall>r. \<not> link_at t (p @ r))"

lemma dir_no_link: "dir_at t q \<Longrightarrow> \<not> link_at t q"
  by (auto simp: dir_at_def link_at_def is_dir_def is_symlink_def split: option.splits)

lemma leads_into:
  assumes "leads t follow here (c # cs) q" and "ordinary c" and "dir_at t (here @ [c])"
  shows "leads t follow (here @ [c]) cs q"
  using assms(1)
  by (cases rule: leads.cases) (use assms(2,3) dir_no_link [OF assms(3)] in \<open>auto simp: ordinary_def link_at_def is_symlink_def\<close>)

lemma leads_through:
  assumes "leads t follow here (ds @ cs) q" and "list_all plain_component ds" and "\<forall>k < length ds. dir_at t (here @ take (Suc k) ds)"
  shows "leads t follow (here @ ds) cs q"
  using assms
proof (induction ds arbitrary: here)
  case (Cons c ds)
  have "dir_at t (here @ [c])" using Cons.prems(3) by (metis length_greater_0_conv list.discI take0 take_Suc_Cons)
  with Cons.prems have l: "leads t follow (here @ [c]) (ds @ cs) q" by (intro leads_into) (auto simp: plain_component_def ordinary_def)
  have "\<forall>k < length ds. dir_at t ((here @ [c]) @ take (Suc k) ds)"
  proof (intro allI impI)
    fix k
    assume "k < length ds"
    with Cons.prems(3) [rule_format, of "Suc k"] show "dir_at t ((here @ [c]) @ take (Suc k) ds)" by simp
  qed
  from Cons.IH [OF l _ this] Cons.prems(2) show ?case by simp
qed simp

lemma rigid_leads:
  assumes "leads t follow here cs q" and "rigid p t" and "starts p here" and "''..'' \<notin> set cs"
  shows "q = here @ filter ordinary cs"
  using assms
proof (induction rule: leads.induct)
  case (via_link c here i link cs q)
  then have "link_at t (here @ [c])" by (simp add: link_at_def is_symlink_def)
  with via_link.prems(1,2) show ?case by (auto simp: rigid_def starts_iff)
qed (auto simp: ordinary_def starts_iff)

lemma rigid_place:
  assumes "rigid p t" and "comps path = p @ cs" and "''..'' \<notin> set cs" and "place t follow path = Inr q"
  shows "q = p @ filter ordinary cs"
proof -
  have "leads t follow [] (p @ cs) q" using resolve_leads assms(2,4) by (simp add: place_def)
  from leads_through [OF this] assms(1) have "leads t follow p cs q" by (auto simp: rigid_def real_dirs_def)
  from rigid_leads [OF this assms(1) starts_refl assms(3)] show ?thesis .
qed

lemma place_last:
  assumes "real_dirs t p" and "plain_component c" and "comps path = p @ [c]" and "place t False path = Inr q"
  shows "q = p @ [c]"
proof -
  have "leads t False [] (p @ [c]) q" using resolve_leads assms(3,4) by (simp add: place_def)
  from leads_through [OF this] assms(1) have "leads t False p [c] q" by (auto simp: real_dirs_def)
  then show ?thesis
    by (cases rule: leads.cases) (use assms(2) in \<open>auto simp: plain_component_def elim: leads.cases\<close>)
qed

section \<open>Relative paths\<close>

lemma ordinary_plain: "plain_component c \<longleftrightarrow> ordinary c \<and> slash \<notin> set c"
  by (auto simp: plain_component_def ordinary_def)

lemma filter_ordinary: "list_all plain_component cs \<Longrightarrow> filter ordinary cs = cs"
  by (auto simp: list_all_iff ordinary_plain intro: filter_True)

lemma comps_join: "list_all plain_component cs \<Longrightarrow> cs \<noteq> [] \<Longrightarrow> comps (join_with slash cs) = cs"
  using split_join plain_slash_free by (simp add: comps_def)

lemma comps_append: "comps (p @ slash # r) = comps p @ comps r"
proof (induction p)
  case (Cons x p)
  then show ?case by (auto simp: comps_def split: list.splits)
qed (simp add: comps_def)

lemma comps_plain: "slash \<notin> set c \<Longrightarrow> comps c = [c]"
  by (simp add: comps_def split_word)

lemma relative_join:
  assumes "list_all plain_component cs" and "cs \<noteq> []"
  shows "\<not> IsAbs (join_with slash cs)" and "join_with slash cs \<noteq> []"
proof -
  obtain c cs' where cs: "cs = c # cs'" using assms(2) by (cases cs) auto
  moreover obtain x xs where "c = x # xs" "x \<noteq> slash" using assms(1) cs by (cases c) (auto simp: plain_component_def)
  ultimately show "\<not> IsAbs (join_with slash cs)" "join_with slash cs \<noteq> []"
    by (cases cs'; simp add: IsAbs_def HasPrefix_def)+
qed

lemma Clean_slashed:
  assumes "list_all plain_component cs" and "cs \<noteq> []" and "ws = [] \<or> ws = [[]]"
  shows "Clean (join_with slash (cs @ ws)) = join_with slash cs"
proof -
  have sf: "list_all (\<lambda>w. slash \<notin> set w) (cs @ ws)" using plain_slash_free [OF assms(1)] assms(3) by auto
  have split: "split_on slash (join_with slash (cs @ ws)) = cs @ ws" using split_join [OF _ sf] assms(2) by simp
  have "clean_components False out (cs @ [[]]) = List.rev out @ cs" for out
    using assms(1) by (induction cs arbitrary: out) (auto simp: plain_component_def)
  from this [of "[]"] have "clean_components False [] (cs @ ws) = cs"
    using assms(3) clean_components_plain [OF assms(1), of False "[]"] by auto
  moreover have "\<not> IsAbs (join_with slash (cs @ ws))" "join_with slash (cs @ ws) \<noteq> []"
    using relative_join [OF assms(1,2)] assms(2,3) join_snoc [of cs slash "[]"]
    by (auto simp: IsAbs_def HasPrefix_def; cases "join_with slash cs"; auto)+
  ultimately show ?thesis using relative_join(2) [OF assms(1,2)] by (simp add: Clean_def split)
qed

lemma Clean_join: "list_all plain_component cs \<Longrightarrow> cs \<noteq> [] \<Longrightarrow> Clean (join_with slash cs) = join_with slash cs"
  using Clean_slashed [of cs "[]"] by simp

lemma Join_join:
  assumes "list_all plain_component cs" and "plain_component c"
  shows "Join (join_with slash cs) c = join_with slash (cs @ [c])"
proof (cases "cs = []")
  case True
  then show ?thesis using Clean_join [of "[c]"] assms by (simp add: Join_def plain_component_def)
next
  case False
  then show ?thesis
    using relative_join(2) [OF assms(1) False] Clean_join [of "cs @ [c]"] assms
    by (simp add: Join_def join_snoc plain_component_def)
qed

lemma Dir_join:
  assumes "list_all plain_component cs" and "cs \<noteq> []" and "slash \<notin> set c"
  shows "Dir (join_with slash cs @ slash # c) = join_with slash cs"
proof -
  have "join_with slash (cs @ [[]]) = join_with slash cs @ [slash]" using join_snoc [OF assms(2), of slash "[]"] by simp
  with Clean_slashed [OF assms(1,2), of "[[]]"] show ?thesis unfolding Dir_def last_part [OF assms(3)] by simp
qed

lemma Dir_single: "slash \<notin> set c \<Longrightarrow> Dir c = ''.''"
proof -
  assume "slash \<notin> set c"
  then have "dropWhile (\<lambda>x. x \<noteq> slash) (List.rev c) = []" by (auto simp: dropWhile_eq_Nil_conv)
  then show ?thesis by (simp add: Dir_def Clean_def)
qed

section \<open>Moving a subtree\<close>

lemma move_append [simp]: "move a b (a @ r) = b @ r"
  by (simp add: move_def)

lemma move_other: "\<not> starts a q \<Longrightarrow> move a b q = q"
  by (simp add: move_def)

definition moved :: "string list \<Rightarrow> string list \<Rightarrow> tree \<Rightarrow> tree" where
  "moved a b t = map (\<lambda>(q, j). (move a b q, j)) t"

lemma map_of_rekey:
  "\<forall>q \<in> set (map fst t). g q = k \<longleftrightarrow> q = k' \<Longrightarrow> map_of (map (\<lambda>(q, j). (g q, j)) t) k = map_of t k'"
  by (induction t) auto

lemma map_of_rekey_None:
  "\<forall>q \<in> set (map fst t). g q \<noteq> k \<Longrightarrow> map_of (map (\<lambda>(q, j). (g q, j)) t) k = None"
  by (induction t) auto

text \<open>Two subtrees apart from one another; nothing is at the destination or below it.\<close>

definition movable :: "string list \<Rightarrow> string list \<Rightarrow> tree \<Rightarrow> bool" where
  "movable a b t \<longleftrightarrow> wf_tree t \<and> a \<noteq> [] \<and> \<not> starts a b \<and> \<not> starts b a \<and> (\<forall>r. map_of t (b @ r) = None)"

lemma move_key: "movable a b t \<Longrightarrow> q \<in> set (map fst t) \<Longrightarrow> move a b q = b @ r \<longleftrightarrow> q = a @ r"
proof -
  assume m: "movable a b t" and "q \<in> set (map fst t)"
  then have "q \<noteq> b @ r" unfolding key_iff movable_def by auto
  then show ?thesis by (auto simp: move_def starts_iff)
qed

lemma moved_into: "movable a b t \<Longrightarrow> map_of (moved a b t) (b @ r) = map_of t (a @ r)"
  unfolding moved_def by (rule map_of_rekey) (use move_key in blast)

lemma moved_away: "movable a b t \<Longrightarrow> map_of (moved a b t) (a @ r) = None"
proof -
  assume m: "movable a b t"
  have "move a b q \<noteq> a @ r" for q
  proof (cases "starts a q")
    case True
    then obtain s where "q = a @ s" by (auto simp: starts_iff)
    moreover have "b @ s \<noteq> a @ r" using m by (auto simp: movable_def starts_iff append_eq_append_conv2)
    ultimately show ?thesis by simp
  qed (auto simp: move_def starts_iff)
  then show ?thesis unfolding moved_def by (blast intro: map_of_rekey_None)
qed

lemma moved_other: "\<not> starts a q \<Longrightarrow> \<not> starts b q \<Longrightarrow> map_of (moved a b t) q = map_of t q"
proof -
  assume q: "\<not> starts a q" "\<not> starts b q"
  have "move a b r = q \<longleftrightarrow> r = q" for r
    using q by (cases "starts a r") (auto simp: move_other starts_iff)
  then show ?thesis unfolding moved_def by (blast intro: map_of_rekey)
qed

lemma inj_move: "movable a b t \<Longrightarrow> inj_on (move a b) (set (map fst t))"
proof (rule inj_onI)
  fix q r
  assume m: "movable a b t" and "q \<in> set (map fst t)" "r \<in> set (map fst t)" and eq: "move a b q = move a b r"
  then show "q = r"
    using move_key [OF m, of q] move_key [OF m, of r] by (metis move_append move_other starts_iff)
qed

lemma dir_moved: "movable a b t \<Longrightarrow> dir_at t q \<Longrightarrow> dir_at (moved a b t) (move a b q)"
proof (cases "starts a q")
  case False
  assume m: "movable a b t" and d: "dir_at t q"
  then have "\<not> starts b q" by (auto simp: movable_def starts_iff dir_at_def)
  with d False show ?thesis by (simp add: dir_at_def moved_other move_other)
qed (auto simp: starts_iff dir_at_def moved_into)

lemma wf_moved:
  assumes m: "movable a b t" and "b \<noteq> []" and "list_all plain_component b" and "dir_at t (butlast b)"
  shows "wf_tree (moved a b t)"
proof -
  have wf: "wf_tree t" and source: "a \<noteq> []" and apart: "\<not> starts a b" using m by (simp_all add: movable_def)
  have keys: "map fst (moved a b t) = map (move a b) (map fst t)" by (simp add: moved_def comp_def case_prod_beta')
  have "distinct (map fst (moved a b t))" using wf inj_move [OF m] by (simp add: keys distinct_map wf_tree_def del: map_map)
  moreover have "dir_at (moved a b t) []"
    using dir_moved [OF m, of "[]"] wf source by (simp add: wf_tree_def move_def starts_def)
  moreover have "plain_component (last (move a b q)) \<and> dir_at (moved a b t) (butlast (move a b q))"
    if q: "q \<in> set (map fst t)" "move a b q \<noteq> []" for q
  proof (cases "q = a")
    case True
    have "\<not> starts a (butlast b)" using apart assms(2) by (metis starts_iff append_assoc append_butlast_last_id)
    with dir_moved [OF m assms(4)] True assms(2,3) show ?thesis using move_append [of a b "[]"] by (simp add: move_other list_all_iff)
  next
    case False
    have "q \<noteq> []" using q(2) source by (auto simp: move_def starts_def)
    then have "plain_component (last q)" "dir_at t (butlast q)" using wf q(1) by (auto simp: wf_tree_def list_all_iff)
    moreover have "last (move a b q) = last q" "butlast (move a b q) = move a b (butlast q)"
      using False \<open>q \<noteq> []\<close> by (auto simp: move_def starts_iff butlast_append) (metis append_assoc append_butlast_last_id)+
    ultimately show ?thesis using dir_moved [OF m] by simp
  qed
  ultimately show ?thesis by (auto simp: wf_tree_def keys list_all_iff)
qed


lemma not_below: "wf_tree t \<Longrightarrow> \<not> dir_at t b \<Longrightarrow> \<not> below t b"
proof
  assume t: "wf_tree t" "\<not> dir_at t b" and "below t b"
  then obtain r where "r \<in> set (map fst t)" "starts b r" "r \<noteq> b" by (auto simp: below_def list_ex_iff)
  then obtain i s where "map_of t (b @ s) = Some i" "s \<noteq> []" by (auto simp: key_iff starts_iff simp del: set_map)
  with wf_ancestors [OF t(1)] t(2) show False by blast
qed

lemma vacant_below: "\<not> below t b \<Longrightarrow> r \<noteq> [] \<Longrightarrow> map_of t (b @ r) = None"
proof -
  assume b: "\<not> below t b" and r: "r \<noteq> []"
  have "b @ r \<notin> set (map fst t)"
  proof
    assume "b @ r \<in> set (map fst t)"
    moreover have "starts b (b @ r) \<and> b @ r \<noteq> b" using r by simp
    ultimately have "below t b" unfolding below_def list_ex_iff by blast
    with b show False by simp
  qed
  then show ?thesis by (simp only: key_iff) simp
qed

lemma renamed:
  assumes "rename_tree old new d = Inr t'" and wf: "wf_tree (dk_Tree d)"
  obtains a b t where "place (dk_Tree d) False old = Inr a" and "place (dk_Tree d) False new = Inr b" and "movable a b t"
    and "t' = moved a b t" and "\<And>q. \<not> starts b q \<Longrightarrow> map_of t q = map_of (dk_Tree d) q" and "b \<noteq> []" and "dir_at t (butlast b)"
proof -
  let ?t = "dk_Tree d"
  from assms(1) obtain a b i where ab: "place ?t False old = Inr a" "place ?t False new = Inr b" "map_of ?t a = Some i"
      "a \<noteq> []" "b \<noteq> []" "\<not> starts a b" and dir: "dir_at ?t (butlast b)"
      and t': "t' = moved a b ?t \<and> map_of ?t b = None \<or> (\<exists>j. map_of ?t b = Some j \<and> (is_dir j \<longrightarrow> \<not> below ?t b) \<and> t' = moved a b (AList.delete b ?t))"
    by (auto simp: rename_tree_def Let_def moved_def dir_at_def split: sum.splits option.splits if_splits)
  define t where "t = AList.delete b ?t"
  have empty: "\<not> below ?t b"
  proof (cases "dir_at ?t b")
    case True
    with t' show ?thesis by (auto simp: dir_at_def)
  qed (rule not_below [OF wf])
  have same: "map_of t q = map_of ?t q" if "q \<noteq> b" for q using that by (simp add: t_def)
  have "t' = moved a b t"
  proof (cases "map_of ?t b")
    case None
    then have "b \<notin> set (map fst ?t)" by (simp only: key_iff) simp
    then have "t = ?t" by (simp add: t_def)
    with t' None show ?thesis by simp
  qed (use t' in \<open>auto simp: t_def\<close>)
  moreover have "movable a b t"
    unfolding movable_def
  proof (intro conjI allI)
    show "wf_tree t" using wf_deleted [OF wf ab(5) empty] by (simp add: t_def)
    show "\<not> starts b a"
    proof
      assume "starts b a"
      moreover have "a \<in> set (map fst ?t)" using ab(3) by (simp only: key_iff) simp
      ultimately show False using empty ab(6) by (auto simp: below_def list_ex_iff)
    qed
    show "map_of t (b @ r) = None" for r
      using vacant_below [OF empty, of r] same [of "b @ r"] by (cases "r = []") (simp_all add: t_def delete_conv')
  qed (use ab in simp_all)
  moreover have "butlast b \<noteq> b" using ab(5) by (metis append_butlast_last_id append_self_conv not_Cons_self2)
  then have "dir_at t (butlast b)" using dir same [of "butlast b"] by (simp add: dir_at_def)
  moreover have "map_of t q = map_of ?t q" if "\<not> starts b q" for q using that same [of q] by force
  ultimately show thesis using that ab by blast
qed

interpretation wt: io_relation "\<lambda>d. wf_tree (dk_Tree d)" "\<lambda>_ _. True"
  by unfold_locales (auto simp: still_def idle_def)

abbreviation keeps_wf :: "'a io \<Rightarrow> bool" where
  "keeps_wf \<equiv> upholds (\<lambda>d. wf_tree (dk_Tree d)) (\<lambda>_ _. True)"

lemma turn_tree [simp]: "dk_Tree (turn t d) = t" "dk_Past (turn t d) = dk_Past d @ [dk_Tree d]"
  by (simp_all add: turn_def)

lemma wf_alter: "(\<And>d t. wf_tree (dk_Tree d) \<Longrightarrow> f d = Inr t \<Longrightarrow> wf_tree t) \<Longrightarrow> keeps_wf (alter f)"
proof (rule upholdsI)
  fix d d' x
  assume f: "\<And>d t. wf_tree (dk_Tree d) \<Longrightarrow> f d = Inr t \<Longrightarrow> wf_tree t" and wf: "wf_tree (dk_Tree d)" and "alter f d = Some (d', x)"
  from altered [OF this(3)] show "wf_tree (dk_Tree d') \<and> True"
  proof
    assume "\<exists>d1 t. still d d1 \<and> dk_Umask d1 = dk_Umask d \<and> dk_Gid d1 = dk_Gid d \<and> f d1 = Inr t \<and> d' = turn t d1 \<and> x = Inr ()"
    then obtain d1 t where "still d d1" "f d1 = Inr t" "d' = turn t d1" by blast
    with wf f [of d1 t] show ?thesis by (simp add: still_def)
  qed (use wf in \<open>simp add: still_def\<close>)
qed

lemma wf_renamed:
  assumes "wf_tree (dk_Tree d)" and "rename_tree old new d = Inr t'"
  shows "wf_tree t'"
proof -
  from renamed [OF assms(2,1)] obtain a b t where "place (dk_Tree d) False new = Inr b" "movable a b t" "t' = moved a b t"
      "b \<noteq> []" "dir_at t (butlast b)" by metis
  with wf_moved [of a b t] place_plain show ?thesis by blast
qed

lemma append_body_dir: "is_dir i \<Longrightarrow> is_dir (append_body b i)"
  by (auto simp: append_body_def is_dir_def split: content.split)

lemma chmod_dir [simp]: "is_dir (chmod_inode mode i) = is_dir i"
  by (simp add: chmod_inode_def is_dir_def)

lemma wf_calls:
  "keeps_wf (Mkdir_io p perm)" "keeps_wf (Create_io p perm)" "keeps_wf (write_io h b)" "keeps_wf (fchmod h mode)"
  "keeps_wf (Rename_io old new)" "keeps_wf (Remove_io p)" "keeps_wf (MkdirTemp_io pattern)"
proof -
  show mk: "keeps_wf (Mkdir_io p perm)" for p perm unfolding Mkdir_io_def by (rule wf_alter) (rule wf_inserted)
  have "keeps_wf (\<lambda>d. Some (d, place (dk_Tree d) False p))" by (simp add: upholds_def)
  then show "keeps_wf (Create_io p perm)"
    unfolding Create_io_def by (intro wt.keeps_then wf_alter) (auto intro: wf_inserted)
  show "keeps_wf (write_io h b)"
    by (rule upholdsI) (auto simp: write_io_def intro!: wf_set_inode append_body_dir split: list.splits option.splits)
  show "keeps_wf (fchmod h mode)" unfolding fchmod_def by (rule wf_alter) (auto intro: wf_set_inode)
  show "keeps_wf (Rename_io old new)" unfolding Rename_io_def by (rule wf_alter) (rule wf_renamed)
  show "keeps_wf (Remove_io p)"
    unfolding Remove_io_def by (rule wf_alter) (auto intro: wf_deleted split: sum.splits if_splits)
  show "keeps_wf (MkdirTemp_io pattern)" by (rule wt.keeps_temp) (rule mk)
qed

end
