(* ===== verification/Stager.thy ===== *)
theory Stager
  imports Disk
begin

text \<open>
  Model staging, \<open>adapters/staging.go\<close>: the reviewed download client, the validation of a staged snapshot, its
  publication into the managed tree and the repair of a published one, one definition per function.

  Digests, the JSON form of a receipt, the free space and what upstream answers are fields of \<open>Stager\<close>. Upstream may
  answer every request differently: it is given all requests made so far. Loops over the parent directories of a
  manifest path may not end, so \<open>snapshotDirectories\<close> is an option and the operations inherit it.
\<close>

section \<open>The catalogue and receipts\<close>

record CatalogFile =
  fl_Path :: string
  fl_Size :: int
  fl_Algorithm :: string
  fl_Digest :: string

record CatalogModel =
  md_ID :: string
  md_Repository :: string
  md_Revision :: string
  md_License :: string
  md_Quantization :: string
  md_Files :: "CatalogFile list"
  md_Size :: int
  md_GPUs :: int
  md_Context :: int
  md_Status :: string

definition catalog_file_json :: "CatalogFile \<Rightarrow> json" where
  "catalog_file_json f = JObj [(''path'', JStr (fl_Path f)), (''size'', JInt (fl_Size f)), (''algorithm'', JStr (fl_Algorithm f)),
     (''digest'', JStr (fl_Digest f))]"

record stagedReceipt =
  sr_Model :: string
  sr_Revision :: string
  sr_ManifestHash :: string
  sr_Status :: string
  sr_Files :: "Artifact list"
  sr_VerifiedAt :: time

text \<open>What upstream does with a request: no answer, a redirect, or a response with its body in pieces.\<close>

record upstream_response =
  rp_Status :: int
  rp_ContentLength :: int
  rp_Body :: "string list"
  rp_End :: "err option"

datatype reply = NoReply | Redirected URL | Replied upstream_response

record Stager =
  sg_Budget :: int
  sg_Free :: "tree \<Rightarrow> err + int"
  sg_Upstream :: "URL list \<Rightarrow> reply"
  sg_Lookup :: "string \<Rightarrow> err + 8 word list list"
  sg_Connect :: "8 word list \<Rightarrow> bool"
  sg_Pooled :: "URL list \<Rightarrow> bool"
  sg_Progress :: bool
  sg_SHA256 :: "string \<Rightarrow> string"
  sg_SHA1 :: "string \<Rightarrow> string"
  sg_Hash :: digest
  sg_Encode :: "stagedReceipt \<Rightarrow> string"
  sg_Decode :: "string \<Rightarrow> stagedReceipt option"
  sg_Format :: "time \<Rightarrow> string"

definition manifest_hash :: "Stager \<Rightarrow> CatalogModel \<Rightarrow> string" where
  "manifest_hash sg m = sg_Hash sg (JArr (map catalog_file_json (md_Files m)))"

definition readerDirectoryMode :: "32 word" where "readerDirectoryMode = 488"
definition readerFileMode :: "32 word" where "readerFileMode = 416"

definition receipt_name :: string where "receipt_name = ''.bridge-receipt.json''"
definition staged_qualification :: string where "staged_qualification = ''staged-inputs-not-qualified''"
definition verified_qualification :: string where "verified_qualification = ''verified-inputs-not-qualified''"

section \<open>The download client\<close>

definition origins :: "string list" where
  "origins = [''huggingface.co'', ''cdn-lfs.huggingface.co'', ''cdn-lfs.hf.co'', ''cdn-lfs-us-1.hf.co'', ''cas-bridge.xethub.hf.co'']"

text \<open>\<open>netip\<close>: an address is four or sixteen bytes; a mapped IPv4 address is read as the four bytes it holds.\<close>

definition Unmap :: "8 word list \<Rightarrow> 8 word list" where
  "Unmap a = (if length a = 16 \<and> take 12 a = replicate 10 0 @ [255, 255] then drop 12 a else a)"

fun bits_agree :: "nat \<Rightarrow> 8 word list \<Rightarrow> 8 word list \<Rightarrow> bool" where
  "bits_agree n (x # xs) (y # ys) =
     (if n \<ge> 8 then x = y \<and> bits_agree (n - 8) xs ys else drop_bit (8 - n) x = drop_bit (8 - n) y)"
| "bits_agree n _ _ = True"

definition Contains :: "8 word list \<times> nat \<Rightarrow> 8 word list \<Rightarrow> bool" where
  "Contains cidr a \<longleftrightarrow> length (fst cidr) = length a \<and> bits_agree (snd cidr) (fst cidr) a"

definition v6 :: "8 word list \<Rightarrow> 8 word list" where
  "v6 bs = bs @ replicate (16 - length bs) 0"

definition IsLoopback :: "8 word list \<Rightarrow> bool" where
  "IsLoopback a \<longleftrightarrow> Contains ([127, 0, 0, 0], 8) a \<or> a = replicate 15 0 @ [1]"

definition IsMulticast :: "8 word list \<Rightarrow> bool" where
  "IsMulticast a \<longleftrightarrow> Contains ([224, 0, 0, 0], 4) a \<or> Contains (v6 [255], 8) a"

definition IsLinkLocalUnicast :: "8 word list \<Rightarrow> bool" where
  "IsLinkLocalUnicast a \<longleftrightarrow> Contains ([169, 254, 0, 0], 16) a \<or> Contains (v6 [254, 128], 10) a"

definition IsPrivate :: "8 word list \<Rightarrow> bool" where
  "IsPrivate a \<longleftrightarrow> Contains ([10, 0, 0, 0], 8) a \<or> Contains ([172, 16, 0, 0], 12) a \<or> Contains ([192, 168, 0, 0], 16) a
     \<or> Contains (v6 [252], 7) a"

definition IsGlobalUnicast :: "8 word list \<Rightarrow> bool" where
  "IsGlobalUnicast a \<longleftrightarrow> a \<noteq> replicate 4 0 \<and> a \<noteq> replicate 4 255 \<and> a \<noteq> replicate 16 0
     \<and> \<not> IsLoopback a \<and> \<not> IsMulticast a \<and> \<not> IsLinkLocalUnicast a"

definition special_ranges :: "(8 word list \<times> nat) list" where
  "special_ranges = [([0, 0, 0, 0], 8), ([100, 64, 0, 0], 10), ([169, 254, 0, 0], 16), ([192, 0, 0, 0], 24), ([192, 0, 2, 0], 24),
     ([198, 18, 0, 0], 15), ([198, 51, 100, 0], 24), ([203, 0, 113, 0], 24), ([240, 0, 0, 0], 4), (v6 [32, 1, 13, 184], 32)]"

definition publicAddress :: "8 word list \<Rightarrow> bool" where
  "publicAddress ip \<longleftrightarrow>
     (if length ip \<noteq> 4 \<and> length ip \<noteq> 16 then False
      else let a = Unmap ip in
        if \<not> IsGlobalUnicast a \<or> IsPrivate a \<or> IsLoopback a \<or> IsLinkLocalUnicast a then False
        else \<not> list_ex (\<lambda>cidr. Contains cidr a) special_ranges)"

definition reviewedURL :: "URL \<Rightarrow> bool" where
  "reviewedURL u \<longleftrightarrow> url_Scheme u = ''https'' \<and> \<not> url_User u \<and> map ascii_lower (Hostname u) \<in> set origins
     \<and> (Port u = [] \<or> Port u = ''443'') \<and> url_Fragment u = []"

definition msg_destination_invalid :: string where "msg_destination_invalid = ''invalid download destination''"
definition msg_dns :: string where "msg_dns = ''download DNS resolution failed''"
definition msg_no_address :: string where "msg_no_address = ''download host has no address''"
definition msg_not_public :: string where "msg_not_public = ''download destination is not a public address''"
definition msg_connection :: string where "msg_connection = ''download connection failed''"
definition msg_redirect :: string where "msg_redirect = ''download redirect is outside reviewed HTTPS origins''"

text \<open>The addresses are tried in order until one connects; each try is remembered.\<close>

fun dial_each :: "Stager \<Rightarrow> 8 word list list \<Rightarrow> unit io" where
  "dial_each sg [] d = Some (d, Inl (Plain msg_connection))"
| "dial_each sg (ip # ips) d =
     (let d1 = d\<lparr>dk_Dialled := dk_Dialled d @ [ip]\<rparr> in
      if sg_Connect sg ip then Some (d1, Inr ()) else dial_each sg ips d1)"

definition DialContext :: "Stager \<Rightarrow> string \<Rightarrow> unit io" where
  "DialContext sg address = (case SplitHostPort address of
     None \<Rightarrow> fail_io (Plain msg_destination_invalid)
   | Some (host, port) \<Rightarrow>
       (case sg_Lookup sg host of
          Inl _ \<Rightarrow> fail_io (Plain msg_dns)
        | Inr ips \<Rightarrow>
            if ips = [] then fail_io (Plain msg_no_address)
            else if \<not> list_all publicAddress ips then fail_io (Plain msg_not_public)
            else dial_each sg ips))"

definition CheckRedirect :: "URL \<Rightarrow> URL list \<Rightarrow> err option" where
  "CheckRedirect u via = (if length via > 5 \<or> \<not> reviewedURL u then Some (Plain msg_redirect) else None)"

definition dial_address :: "URL \<Rightarrow> string" where
  "dial_address u = Hostname u @ '':'' @ (if Port u = [] then ''443'' else Port u)"

text \<open>
  \<open>http.Client.Do\<close>: a request goes over a pooled connection or one that is dialled; a redirect is followed when
  \<open>CheckRedirect\<close> agrees. \<open>via\<close> holds the requests made so far.
\<close>

definition ask :: "URL \<Rightarrow> Disk \<Rightarrow> Disk" where
  "ask u d = d\<lparr>dk_Asked := dk_Asked d @ [u]\<rparr>"

definition connect :: "Stager \<Rightarrow> URL \<Rightarrow> unit io" where
  "connect sg u d = (if sg_Pooled sg (dk_Asked d) then Some (d, Inr ()) else DialContext sg (dial_address u) d)"

function client_Do :: "Stager \<Rightarrow> URL list \<Rightarrow> URL \<Rightarrow> upstream_response io" where
  "client_Do sg via u d =
     (case connect sg u (ask u d) of
        None \<Rightarrow> None
      | Some (d1, Inl e) \<Rightarrow> Some (d1, Inl e)
      | Some (d1, Inr _) \<Rightarrow>
          (case sg_Upstream sg (dk_Asked d1) of
             NoReply \<Rightarrow> Some (d1, Inl (Plain msg_connection))
           | Replied r \<Rightarrow> Some (d1, Inr r)
           | Redirected v \<Rightarrow>
               (if CheckRedirect v (via @ [u]) \<noteq> None then Some (d1, Inl (Plain msg_redirect))
                else client_Do sg (via @ [u]) v d1)))"
  by pat_completeness auto
termination by (relation "measure (\<lambda>(_, via, _, _). 6 - length via)") (auto simp: CheckRedirect_def split: if_splits)

section \<open>Paths and inodes of the managed tree\<close>

definition msg_stager :: string where "msg_stager = ''managed model root and byte budget are required''"
definition msg_managed_root :: string where
  "msg_managed_root = ''model root must be a real 2750 setgid directory with the reviewed workload reader group''"
definition msg_not_directory :: string where "msg_not_directory = ''managed path contains a symlink or non-directory''"
definition msg_directory_group :: string where "msg_directory_group = ''model directory does not retain the reviewed reader group''"
definition msg_not_regular :: string where "msg_not_regular = ''model file is missing, symlinked or not regular''"
definition msg_file_group :: string where "msg_file_group = ''model file does not retain the reviewed reader group''"
definition msg_directory_mode :: string where
  "msg_directory_mode = ''published model directory is not group-traversable mode 0750 or legacy 2750''"
definition msg_file_mode :: string where "msg_file_mode = ''published model file is not group-readable mode 0640''"

definition NewStager :: "string \<Rightarrow> int \<Rightarrow> err + Inode \<Rightarrow> err option" where
  "NewStager path budget info =
     (if \<not> IsAbs path \<or> path = ''/'' \<or> budget < 1 then Some (Plain msg_stager)
      else case info of
             Inl e \<Rightarrow> Some e
           | Inr i \<Rightarrow> if \<not> is_dir i \<or> is_symlink i \<or> \<not> in_Setgid i \<or> in_Perm i \<noteq> 488 then Some (Plain msg_managed_root) else None)"

definition safeRelative :: "string \<Rightarrow> bool" where
  "safeRelative p \<longleftrightarrow> p \<noteq> [] \<and> Clean p = p \<and> \<not> HasPrefix p ''/'' \<and> CHR 0x5C \<notin> set p \<and> CHR 0x00 \<notin> set p
     \<and> p \<noteq> ''..'' \<and> \<not> HasPrefix p ''../''"

definition Mkdir_exist :: "string \<Rightarrow> 32 word \<Rightarrow> unit io" where
  "Mkdir_exist p perm d = (case Mkdir_io p perm d of
     Some (d1, Inl e) \<Rightarrow> if e = ErrExist then Some (d1, Inr ()) else Some (d1, Inl e)
   | r \<Rightarrow> r)"

definition checkedDirectory :: "string \<Rightarrow> 32 word \<Rightarrow> Inode io" where
  "checkedDirectory p gid = then_io (Lstat_io p) (\<lambda>i.
     if \<not> is_dir i \<or> is_symlink i then fail_io (Plain msg_not_directory)
     else if in_Gid i \<noteq> gid then fail_io (Plain msg_directory_group) else give_io i)"

fun parents_walk :: "32 word \<Rightarrow> string \<Rightarrow> string list \<Rightarrow> unit io" where
  "parents_walk gid cur [] = give_io ()"
| "parents_walk gid cur (part # parts) =
     (if part = ''.'' then parents_walk gid cur parts
      else let cur = Join cur part in
        then_io (Mkdir_exist cur 488) (\<lambda>_. then_io (checkedDirectory cur gid) (\<lambda>_. parents_walk gid cur parts)))"

definition rootGroup :: "32 word io" where
  "rootGroup = then_io stat_root (\<lambda>i. give_io (in_Gid i))"

definition rootParents :: "string \<Rightarrow> unit io" where
  "rootParents p = then_io rootGroup (\<lambda>gid. parents_walk gid [] (split_on slash (Dir p)))"

definition checkedRegularFile :: "string \<Rightarrow> 32 word \<Rightarrow> Inode io" where
  "checkedRegularFile p gid = then_io (Lstat_io p) (\<lambda>i.
     if \<not> is_regular i \<or> is_symlink i then fail_io (Plain msg_not_regular)
     else if in_Gid i \<noteq> gid then fail_io (Plain msg_file_group) else give_io i)"

definition reader_directory :: "Inode \<Rightarrow> bool" where
  "reader_directory i \<longleftrightarrow> in_Perm i = readerDirectoryMode \<and> \<not> in_Setuid i \<and> \<not> in_Sticky i"

definition reader_file :: "Inode \<Rightarrow> bool" where
  "reader_file i \<longleftrightarrow> in_Perm i = readerFileMode \<and> \<not> in_Setuid i \<and> \<not> in_Setgid i \<and> \<not> in_Sticky i"

definition requireReaderDirectory :: "string \<Rightarrow> 32 word \<Rightarrow> unit io" where
  "requireReaderDirectory p gid = then_io (checkedDirectory p gid) (\<lambda>i. check_io (reader_directory i) msg_directory_mode)"

definition requireReaderFile :: "string \<Rightarrow> 32 word \<Rightarrow> unit io" where
  "requireReaderFile p gid = then_io (checkedRegularFile p gid) (\<lambda>i. check_io (reader_file i) msg_file_mode)"

partial_function (option) parent_dirs :: "string \<Rightarrow> string list option" where
  "parent_dirs dir = (if dir = ''.'' then Some [] else Option.bind (parent_dirs (Dir dir)) (\<lambda>ds. Some (dir # ds)))"

declare parent_dirs.simps [code]

definition snapshotDirectories :: "CatalogModel \<Rightarrow> string list option" where
  "snapshotDirectories m = map_option (\<lambda>dss. sort (remdups ([] # concat dss)))
     (those (map (\<lambda>f. parent_dirs (Dir (fl_Path f))) (md_Files m)))"

definition joinSnapshot :: "string \<Rightarrow> string \<Rightarrow> string" where
  "joinSnapshot snapshot rel = (if rel = [] then snapshot else snapshot @ slash # rel)"

definition receiptMatches :: "Stager \<Rightarrow> stagedReceipt \<Rightarrow> CatalogModel \<Rightarrow> Artifact list \<Rightarrow> bool" where
  "receiptMatches sg r m arts \<longleftrightarrow>
     \<not> (sr_Model r \<noteq> md_ID m \<or> sr_Revision r \<noteq> md_Revision m \<or> sr_ManifestHash r \<noteq> manifest_hash sg m
        \<or> sr_Status r \<noteq> verified_qualification \<or> sr_VerifiedAt r = zero_time \<or> length (sr_Files r) \<noteq> length arts)
     \<and> list_all2 (\<lambda>have want. have = want\<lparr>a_Qualification := staged_qualification\<rparr>) (sr_Files r) arts"

section \<open>Digests\<close>

definition msg_sha256 :: string where "msg_sha256 = ''invalid SHA256''"
definition msg_git_hash :: string where "msg_git_hash = ''invalid Git blob hash''"
definition msg_unsupported_digest :: string where "msg_unsupported_digest = ''unsupported artifact digest''"

definition hashFor :: "Stager \<Rightarrow> CatalogFile \<Rightarrow> err + (string \<Rightarrow> string)" where
  "hashFor sg f =
     (if fl_Algorithm f = ''sha256'' then
        (if length (fl_Digest f) \<noteq> 64 then Inl (Plain msg_sha256) else Inr (sg_SHA256 sg))
      else if fl_Algorithm f = ''git-sha1'' then
        (if length (fl_Digest f) \<noteq> 40 then Inl (Plain msg_git_hash)
         else Inr (\<lambda>b. sg_SHA1 sg (''blob '' @ Itoa (fl_Size f) @ [CHR 0x00] @ b)))
      else Inl (Plain msg_unsupported_digest))"

definition need :: "err + 'a \<Rightarrow> 'a io" where
  "need x = (case x of Inl e \<Rightarrow> fail_io e | Inr a \<Rightarrow> give_io a)"

text \<open>What \<open>io.LimitReader\<close> lets through.\<close>

definition limited_body :: "int \<Rightarrow> string \<Rightarrow> string" where
  "limited_body n s = (if int (length s) \<le> n then s else take (nat n) s)"

section \<open>Snapshots\<close>

definition msg_manifest_path :: string where "msg_manifest_path = ''unsafe manifest path''"
definition msg_wrong_size :: string where "msg_wrong_size = ''model file missing, symlinked or wrong size''"
definition msg_digest_mismatch :: string where "msg_digest_mismatch = ''staged model digest mismatch''"
definition msg_receipt :: string where "msg_receipt = ''staged model receipt does not match verified manifest''"
definition msg_staged_symlink :: string where "msg_staged_symlink = ''staged model contains symlink''"
definition msg_extra_directory :: string where "msg_extra_directory = ''staged model contains unreviewed directory''"
definition msg_extra_file :: string where "msg_extra_file = ''staged model contains unreviewed extra file''"
definition msg_non_managed :: string where "msg_non_managed = ''refusing permissions on non-managed inode''"
definition msg_inode_changed :: string where "msg_inode_changed = ''managed inode changed before permission update''"
definition msg_owner_only :: string where "msg_owner_only = ''partial model directory must be owner-only''"

definition check_directory :: "bool \<Rightarrow> 32 word \<Rightarrow> string \<Rightarrow> unit io" where
  "check_directory requireModes gid p =
     (if requireModes then requireReaderDirectory p gid else then_io (checkedDirectory p gid) (\<lambda>_. give_io ()))"

definition check_file :: "bool \<Rightarrow> 32 word \<Rightarrow> string \<Rightarrow> unit io" where
  "check_file requireModes gid p =
     (if requireModes then requireReaderFile p gid else then_io (checkedRegularFile p gid) (\<lambda>_. give_io ()))"

definition artifact_of :: "Stager \<Rightarrow> CatalogModel \<Rightarrow> CatalogFile \<Rightarrow> string \<Rightarrow> string \<Rightarrow> Artifact" where
  "artifact_of sg m f qualification b = \<lparr>a_Name = fl_Path f, a_SHA256 = sg_SHA256 sg b, a_Size = fl_Size f,
     a_SourceRevision = md_Revision m, a_Qualification = qualification, a_Content = []\<rparr>"

text \<open>One file of the manifest; the cancellation check of the loop is a call that may fail.\<close>

definition validate_file :: "Stager \<Rightarrow> string \<Rightarrow> CatalogModel \<Rightarrow> bool \<Rightarrow> 32 word \<Rightarrow> CatalogFile \<Rightarrow> Artifact io" where
  "validate_file sg snapshot m requireModes gid f =
     then_io (check_io (safeRelative (fl_Path f)) msg_manifest_path) (\<lambda>_.
     then_io try_call (\<lambda>_.
     let p = snapshot @ slash # fl_Path f in
     then_io (relabel (then_io (checkedRegularFile p gid)
       (\<lambda>i. check_io (int (length (body i)) = fl_Size f) msg_wrong_size)) (Plain msg_wrong_size)) (\<lambda>_.
     then_io (if requireModes then requireReaderFile p gid else give_io ()) (\<lambda>_.
     then_io (Open_io p) (\<lambda>h.
     then_io (need (hashFor sg f)) (\<lambda>hash.
     then_io (relabel (read_io h) (Plain msg_digest_mismatch)) (\<lambda>b.
     let b = limited_body (i64 (fl_Size f + 1)) b in
     then_io (check_io (hash b = fl_Digest f) msg_digest_mismatch) (\<lambda>_.
     give_io (artifact_of sg m f verified_qualification b)))))))))"

definition validate_receipt :: "Stager \<Rightarrow> string \<Rightarrow> CatalogModel \<Rightarrow> bool \<Rightarrow> 32 word \<Rightarrow> Artifact list \<Rightarrow> unit io" where
  "validate_receipt sg snapshot m requireModes gid arts =
     (let p = snapshot @ slash # receipt_name in
      then_io (check_file requireModes gid p) (\<lambda>_.
      then_io (Open_io p) (\<lambda>h.
      relabel (then_io (read_io h) (\<lambda>b. then_io close_io (\<lambda>_.
        case sg_Decode sg (limited_body (2 ^ 20) b) of
          None \<Rightarrow> fail_io (Plain msg_receipt)
        | Some r \<Rightarrow> check_io (receiptMatches sg r m arts) msg_receipt))) (Plain msg_receipt))))"

definition containsSnapshotDirectory :: "string list \<Rightarrow> string \<Rightarrow> bool" where
  "containsSnapshotDirectory directories wanted \<longleftrightarrow> list_ex (\<lambda>dir. dir = wanted) directories"

definition visit_snapshot :: "string list \<Rightarrow> string list \<Rightarrow> string \<Rightarrow> Inode \<Rightarrow> unit io" where
  "visit_snapshot directories expected rel i =
     (if is_symlink i then fail_io (Plain msg_staged_symlink)
      else if is_dir i then check_io (containsSnapshotDirectory directories rel) msg_extra_directory
      else check_io (is_regular i \<and> rel \<in> set expected) msg_extra_file)"

definition validateSnapshot :: "Stager \<Rightarrow> string \<Rightarrow> CatalogModel \<Rightarrow> bool \<Rightarrow> Artifact list io" where
  "validateSnapshot sg snapshot m requireModes =
     then_io rootGroup (\<lambda>gid.
     then_io (computed (snapshotDirectories m)) (\<lambda>directories.
     then_io (each_io (\<lambda>dir. check_directory requireModes gid (joinSnapshot snapshot dir)) directories) (\<lambda>_.
     then_io (map_io (validate_file sg snapshot m requireModes gid) (md_Files m)) (\<lambda>arts.
     then_io (validate_receipt sg snapshot m requireModes gid arts) (\<lambda>_.
     then_io (WalkDir snapshot (visit_snapshot directories (receipt_name # map fl_Path (md_Files m)))) (\<lambda>_.
     give_io arts))))))"

definition chmodAndSync :: "string \<Rightarrow> 32 word \<Rightarrow> unit io" where
  "chmodAndSync p mode =
     then_io (Lstat_io p) (\<lambda>prior.
     then_io (check_io (is_dir prior \<or> is_regular prior) msg_non_managed) (\<lambda>_.
     then_io (Open_io p) (\<lambda>h.
     then_io (relabel (fstat h) (Plain msg_inode_changed)) (\<lambda>_.
     then_io (fchmod h mode) (\<lambda>_. sync_io)))))"

definition publish_directory :: "32 word \<Rightarrow> string \<Rightarrow> unit io" where
  "publish_directory gid p =
     then_io (checkedDirectory p gid) (\<lambda>_. then_io (chmodAndSync p readerDirectoryMode) (\<lambda>_. requireReaderDirectory p gid))"

definition publish_file :: "32 word \<Rightarrow> string \<Rightarrow> unit io" where
  "publish_file gid p =
     then_io (checkedRegularFile p gid) (\<lambda>_. then_io (chmodAndSync p readerFileMode) (\<lambda>_. requireReaderFile p gid))"

definition setPublishedSnapshotPermissions :: "string \<Rightarrow> CatalogModel \<Rightarrow> unit io" where
  "setPublishedSnapshotPermissions snapshot m =
     then_io rootGroup (\<lambda>gid.
     then_io (computed (snapshotDirectories m)) (\<lambda>directories.
     then_io (each_io (\<lambda>dir. publish_directory gid (joinSnapshot snapshot dir)) directories) (\<lambda>_.
     each_io (\<lambda>path. publish_file gid (snapshot @ slash # path)) (map fl_Path (md_Files m) @ [receipt_name]))))"

definition requirePrivateStagingDirectory :: "string \<Rightarrow> unit io" where
  "requirePrivateStagingDirectory p =
     then_io rootGroup (\<lambda>gid. then_io (checkedDirectory p gid) (\<lambda>i.
     check_io (in_Perm i = 448 \<and> \<not> in_Setuid i \<and> \<not> in_Sticky i) msg_owner_only))"

definition setModelParentPermissions :: "string \<Rightarrow> unit io" where
  "setModelParentPermissions prefix = then_io rootGroup (\<lambda>gid. publish_directory gid (Dir prefix))"

definition publishedReaderModes :: "string \<Rightarrow> CatalogModel \<Rightarrow> unit io" where
  "publishedReaderModes prefix m =
     then_io rootGroup (\<lambda>gid.
     then_io (requireReaderDirectory (Dir prefix) gid) (\<lambda>_.
     then_io (computed (snapshotDirectories m)) (\<lambda>directories.
     then_io (each_io (\<lambda>dir. requireReaderDirectory (joinSnapshot prefix dir) gid) directories) (\<lambda>_.
     each_io (\<lambda>path. requireReaderFile (prefix @ slash # path) gid) (map fl_Path (md_Files m) @ [receipt_name])))))"

definition msg_model_identity :: string where "msg_model_identity = ''invalid model identity''"

definition model_id_char :: "char \<Rightarrow> bool" where
  "model_id_char c \<longleftrightarrow> is_alnum c \<or> c \<in> set ''._-''"

definition modelPrefix :: "CatalogModel \<Rightarrow> err + string" where
  "modelPrefix m =
     (if \<not> (md_ID m \<noteq> [] \<and> is_alnum (hd (md_ID m)) \<and> list_all model_id_char (tl (md_ID m)) \<and> length (tl (md_ID m)) \<le> 100)
         \<or> \<not> (length (md_Revision m) = 40 \<and> list_all is_hex (md_Revision m))
      then Inl (Plain msg_model_identity) else Inr (md_ID m @ slash # md_Revision m))"

definition msg_tree_symlink :: string where "msg_tree_symlink = ''managed tree contains symlink''"
definition msg_tree_special :: string where "msg_tree_special = ''managed tree contains special file''"

text \<open>\<open>usedBytes\<close> adds up while it walks; the sum is the state of the walk.\<close>

fun used_walk :: "int \<Rightarrow> (string list \<times> Inode) list \<Rightarrow> int io" where
  "used_walk acc [] = give_io acc"
| "used_walk acc ((r, i) # es) =
     (if is_symlink i then fail_io (Plain msg_tree_symlink)
      else if is_dir i then then_io try_call (\<lambda>_. used_walk acc es)
      else then_io try_call (\<lambda>_.
        if \<not> is_regular i then fail_io (Plain msg_tree_special)
        else used_walk (i64 (acc + int (length (body i)))) es))"

definition usedBytes :: "int io" where
  "usedBytes = then_io (observe (\<lambda>t. case map_of t [] of None \<Rightarrow> Inl ErrNotExist | Some _ \<Rightarrow> Inr (entries_below t [])))
     (used_walk 0)"

section \<open>Downloads\<close>

definition msg_unsafe_file :: string where "msg_unsafe_file = ''unsafe or duplicate model file''"
definition msg_over_budget :: string where "msg_over_budget = ''model snapshot exceeds budget''"
definition msg_storage_budget :: string where "msg_storage_budget = ''insufficient managed storage budget or free space''"
definition msg_origin_unreviewed :: string where "msg_origin_unreviewed = ''model origin not reviewed''"
definition msg_download :: string where "msg_download = ''model download failed; partial files retained without publication''"
definition msg_http_status :: string where "msg_http_status = ''model download HTTP status ''"
definition msg_upstream_size :: string where "msg_upstream_size = ''upstream file size differs from reviewed manifest''"
definition msg_reader_group :: string where "msg_reader_group = ''cannot verify model reader group''"
definition msg_group_inherit :: string where "msg_group_inherit = ''model file did not inherit reviewed reader group''"
definition msg_interrupted :: string where "msg_interrupted = ''interrupted or incomplete model file; partial retained''"
definition msg_integrity :: string where "msg_integrity = ''model integrity check failed; partial retained''"
definition msg_conflict :: string where "msg_conflict = ''model publication conflict''"
definition msg_partial_kept :: string where
  "msg_partial_kept = ''published model snapshot but could not remove private staging directory''"

record downloadProgress =
  dp_Name :: string
  dp_Base :: int
  dp_Total :: int
  dp_Last :: time

text \<open>The progress callback is remembered and may fail.\<close>

definition report :: "string \<Rightarrow> int \<Rightarrow> unit io" where
  "report name n d = try_call (d\<lparr>dk_Reports := dk_Reports d @ [(name, n)]\<rparr>)"

definition progress_Write :: "Stager \<Rightarrow> downloadProgress \<Rightarrow> string \<Rightarrow> downloadProgress io" where
  "progress_Write sg p b =
     (let p = p\<lparr>dp_Total := i64 (dp_Total p + int (length b))\<rparr> in
      if \<not> sg_Progress sg then give_io p
      else then_io clock (\<lambda>now.
        if now - dp_Last p < second then give_io p
        else then_io clock (\<lambda>last. let p = p\<lparr>dp_Last := last\<rparr> in
          then_io (report (dp_Name p) (i64 (dp_Base p + dp_Total p))) (\<lambda>_. give_io p))))"

fun limit_chunks :: "int \<Rightarrow> string list \<Rightarrow> string list" where
  "limit_chunks n [] = []"
| "limit_chunks n (c # cs) =
     (if n \<le> 0 then []
      else if int (length c) \<le> n then c # limit_chunks (n - int (length c)) cs
      else [take (nat n) c])"

text \<open>\<open>io.Copy\<close> into the file, the digests and the progress; \<open>acc\<close> holds what was copied.\<close>

fun copy_chunks :: "Stager \<Rightarrow> string list \<Rightarrow> downloadProgress \<Rightarrow> string \<Rightarrow> string list \<Rightarrow> string io" where
  "copy_chunks sg h p acc [] = give_io acc"
| "copy_chunks sg h p acc (c # cs) =
     then_io (write_io h c) (\<lambda>_. then_io (progress_Write sg p c) (\<lambda>p. copy_chunks sg h p (acc @ c) cs))"

definition copy_body :: "Stager \<Rightarrow> string list \<Rightarrow> downloadProgress \<Rightarrow> int \<Rightarrow> upstream_response \<Rightarrow> string io" where
  "copy_body sg h p limit r =
     then_io (copy_chunks sg h p [] (limit_chunks limit (rp_Body r))) (\<lambda>b.
     case rp_End r of
       Some e \<Rightarrow> if int (length b) < limit then fail_io e else give_io b
     | None \<Rightarrow> give_io b)"

definition model_url :: "CatalogModel \<Rightarrow> CatalogFile \<Rightarrow> URL" where
  "model_url m f = \<lparr>url_Scheme = ''https'', url_Opaque = [], url_User = False, url_Host = ''huggingface.co'',
     url_Path = slash # md_Repository m @ ''/resolve/'' @ md_Revision m @ slash # fl_Path f, url_RawPath = [], url_RawQuery = [],
     url_ForceQuery = False, url_Fragment = [], url_RawFragment = []\<rparr>"

text \<open>\<open>http.NewRequest\<close> parses the printed URL, whose path is escaped, and gives the same one back.\<close>

definition request_file :: "Stager \<Rightarrow> CatalogModel \<Rightarrow> CatalogFile \<Rightarrow> upstream_response io" where
  "request_file sg m f =
     then_io (check_io (reviewedURL (model_url m f)) msg_origin_unreviewed) (\<lambda>_.
     then_io (relabel (client_Do sg [] (model_url m f)) (Plain msg_download)) (\<lambda>r.
     if rp_Status r \<noteq> 200 then fail_io (Plain (msg_http_status @ Itoa (rp_Status r)))
     else if rp_ContentLength r \<ge> 0 \<and> rp_ContentLength r \<noteq> fl_Size f then fail_io (Plain msg_upstream_size)
     else give_io r))"

definition create_file :: "string \<Rightarrow> string list io" where
  "create_file rel =
     then_io (Create_io rel 416) (\<lambda>h.
     then_io (either_way (fstat h)) (\<lambda>own.
     then_io (either_way stat_root) (\<lambda>top.
     case (own, top) of
       (Inr i, Inr r) \<Rightarrow> if in_Gid i \<noteq> in_Gid r then fail_io (Plain msg_group_inherit) else give_io h
     | _ \<Rightarrow> fail_io (Plain msg_reader_group))))"

text \<open>The copy, the close of the body, the sync and the close of the file all run; one error suffices.\<close>

definition receive_body :: "Stager \<Rightarrow> CatalogFile \<Rightarrow> int \<Rightarrow> string list \<Rightarrow> upstream_response \<Rightarrow> string io" where
  "receive_body sg f copied h r =
     then_io clock (\<lambda>now.
     then_io (either_way (copy_body sg h \<lparr>dp_Name = fl_Path f, dp_Base = copied, dp_Total = 0, dp_Last = now\<rparr> (i64 (fl_Size f + 1)) r)) (\<lambda>c.
     then_io (either_way close_io) (\<lambda>e1.
     then_io (either_way sync_io) (\<lambda>e2.
     then_io (either_way close_io) (\<lambda>e3.
     case (c, e1, e2, e3) of
       (Inr b, Inr _, Inr _, Inr _) \<Rightarrow> if int (length b) \<noteq> fl_Size f then fail_io (Plain msg_interrupted) else give_io b
     | _ \<Rightarrow> fail_io (Plain msg_interrupted))))))"

definition stage_file :: "Stager \<Rightarrow> string \<Rightarrow> CatalogModel \<Rightarrow> int \<Rightarrow> CatalogFile \<Rightarrow> (Artifact \<times> int) io" where
  "stage_file sg snapshot m copied f =
     then_io try_call (\<lambda>_.
     let rel = snapshot @ slash # fl_Path f in
     then_io (rootParents rel) (\<lambda>_.
     then_io (request_file sg m f) (\<lambda>r.
     then_io (create_file rel) (\<lambda>h.
     then_io (need (hashFor sg f)) (\<lambda>hash.
     then_io (receive_body sg f copied h r) (\<lambda>b.
     then_io (check_io (hash b = fl_Digest f) msg_integrity) (\<lambda>_.
     let copied = i64 (copied + int (length b)) in
     then_io (if sg_Progress sg then report (fl_Path f) copied else give_io ()) (\<lambda>_.
     give_io (artifact_of sg m f staged_qualification b, copied)))))))))"

fun stage_files :: "Stager \<Rightarrow> string \<Rightarrow> CatalogModel \<Rightarrow> int \<Rightarrow> CatalogFile list \<Rightarrow> Artifact list io" where
  "stage_files sg snapshot m copied [] = give_io []"
| "stage_files sg snapshot m copied (f # fs) =
     then_io (stage_file sg snapshot m copied f) (\<lambda>(a, n).
     then_io (stage_files sg snapshot m n fs) (\<lambda>arts. give_io (a # arts)))"

section \<open>Staging\<close>

text \<open>The manifest is admitted file by file: safe and distinct paths, known digests, the running sum within the budget.\<close>

fun admit_files :: "Stager \<Rightarrow> string list \<Rightarrow> int \<Rightarrow> CatalogFile list \<Rightarrow> err + int" where
  "admit_files sg seen needed [] = Inr needed"
| "admit_files sg seen needed (f # fs) =
     (if \<not> safeRelative (fl_Path f) \<or> fl_Path f \<in> set seen \<or> fl_Size f < 0 then Inl (Plain msg_unsafe_file)
      else case hashFor sg f of
             Inl e \<Rightarrow> Inl e
           | Inr _ \<Rightarrow> (let needed = i64 (needed + fl_Size f) in
               if needed > sg_Budget sg then Inl (Plain msg_over_budget) else admit_files sg (fl_Path f # seen) needed fs))"

definition admit :: "Stager \<Rightarrow> CatalogModel \<Rightarrow> unit io" where
  "admit sg m =
     then_io (need (admit_files sg [] 0 (md_Files m))) (\<lambda>needed.
     then_io usedBytes (\<lambda>used.
     then_io (observe (sg_Free sg)) (\<lambda>free.
     check_io (\<not> (needed > i64 (sg_Budget sg - used) \<or> i64 (needed + 256 * 1024 * 1024) > free)) msg_storage_budget)))"

definition private_tree :: "string io" where
  "private_tree =
     then_io (MkdirTemp_io ''.partial-'') (\<lambda>tmp.
     then_io (requirePrivateStagingDirectory tmp) (\<lambda>_.
     then_io (Mkdir_io (tmp @ ''/snapshot'') 448) (\<lambda>_.
     then_io (requirePrivateStagingDirectory (tmp @ ''/snapshot'')) (\<lambda>_.
     give_io tmp))))"

definition write_receipt :: "Stager \<Rightarrow> string \<Rightarrow> CatalogModel \<Rightarrow> Artifact list \<Rightarrow> unit io" where
  "write_receipt sg snapshot m arts =
     then_io clock (\<lambda>now.
     let b = sg_Encode sg \<lparr>sr_Model = md_ID m, sr_Revision = md_Revision m, sr_ManifestHash = manifest_hash sg m,
       sr_Status = verified_qualification, sr_Files = arts, sr_VerifiedAt = now\<rparr> in
     then_io (Create_io (snapshot @ slash # receipt_name) readerFileMode) (\<lambda>h.
     then_io (write_io h b) (\<lambda>_. then_io sync_io (\<lambda>_. then_io close_io (\<lambda>_.
     then_io (Open_io snapshot) (\<lambda>_. sync_io))))))"

definition absent :: "string \<Rightarrow> unit io" where
  "absent p = then_io (either_way (Lstat_io p)) (\<lambda>i. case i of Inl _ \<Rightarrow> give_io () | Inr _ \<Rightarrow> fail_io (Plain msg_conflict))"

definition prepare_publication :: "Stager \<Rightarrow> string \<Rightarrow> string \<Rightarrow> CatalogModel \<Rightarrow> unit io" where
  "prepare_publication sg prefix tmp m =
     (let snapshot = tmp @ ''/snapshot'' in
      then_io (rootParents prefix) (\<lambda>_.
      then_io (setModelParentPermissions prefix) (\<lambda>_.
      then_io (validateSnapshot sg snapshot m False) (\<lambda>_.
      then_io (setPublishedSnapshotPermissions snapshot m) (\<lambda>_.
      then_io (requirePrivateStagingDirectory tmp) (\<lambda>_. absent prefix))))))"

definition publish :: "Stager \<Rightarrow> string \<Rightarrow> string \<Rightarrow> CatalogModel \<Rightarrow> unit io" where
  "publish sg prefix tmp m = then_io (prepare_publication sg prefix tmp m) (\<lambda>_. Rename_io (tmp @ ''/snapshot'') prefix)"

definition settle_publication :: "Stager \<Rightarrow> string \<Rightarrow> string \<Rightarrow> CatalogModel \<Rightarrow> unit io" where
  "settle_publication sg prefix tmp m =
     then_io (Open_io (Dir prefix)) (\<lambda>_.
     then_io sync_io (\<lambda>_.
     then_io (relabel (Remove_io tmp) (Plain msg_partial_kept)) (\<lambda>_.
     then_io (Open_io ''.'') (\<lambda>_.
     then_io sync_io (\<lambda>_.
     then_io (validateSnapshot sg prefix m True) (\<lambda>_. give_io ()))))))"

definition stage_fresh :: "Stager \<Rightarrow> string \<Rightarrow> CatalogModel \<Rightarrow> Artifact list io" where
  "stage_fresh sg prefix m =
     then_io (admit sg m) (\<lambda>_.
     then_io private_tree (\<lambda>tmp.
     then_io (stage_files sg (tmp @ ''/snapshot'') m 0 (md_Files m)) (\<lambda>arts.
     then_io (write_receipt sg (tmp @ ''/snapshot'') m arts) (\<lambda>_.
     then_io (publish sg prefix tmp m) (\<lambda>_.
     then_io (settle_publication sg prefix tmp m) (\<lambda>_.
     give_io arts))))))"

definition repairPublishedPermissions :: "Stager \<Rightarrow> string \<Rightarrow> CatalogModel \<Rightarrow> Artifact list io" where
  "repairPublishedPermissions sg prefix m =
     then_io (validateSnapshot sg prefix m False) (\<lambda>arts.
     then_io (setModelParentPermissions prefix) (\<lambda>_.
     then_io (setPublishedSnapshotPermissions prefix m) (\<lambda>_.
     then_io (validateSnapshot sg prefix m True) (\<lambda>_.
     give_io arts))))"

text \<open>\<open>os.OpenRoot\<close> may fail; then the model's identity names the published directory.\<close>

definition with_prefix :: "CatalogModel \<Rightarrow> (string \<Rightarrow> 'a io) \<Rightarrow> 'a io" where
  "with_prefix m f = then_io try_call (\<lambda>_. then_io (need (modelPrefix m)) f)"

definition Stage :: "Stager \<Rightarrow> CatalogModel \<Rightarrow> Artifact list io" where
  "Stage sg m = with_prefix m (\<lambda>prefix.
     then_io (either_way (Lstat_io prefix)) (\<lambda>i.
     case i of Inr _ \<Rightarrow> repairPublishedPermissions sg prefix m | Inl _ \<Rightarrow> stage_fresh sg prefix m))"

definition Verify :: "Stager \<Rightarrow> CatalogModel \<Rightarrow> Artifact list io" where
  "Verify sg m = with_prefix m (\<lambda>prefix.
     then_io (publishedReaderModes prefix m) (\<lambda>_. validateSnapshot sg prefix m True))"

definition RepairPublishedPermissions :: "Stager \<Rightarrow> CatalogModel \<Rightarrow> Artifact list io" where
  "RepairPublishedPermissions sg m = with_prefix m (\<lambda>prefix. repairPublishedPermissions sg prefix m)"

definition VerifyContent :: "Stager \<Rightarrow> CatalogModel \<Rightarrow> Artifact list io" where
  "VerifyContent sg m = with_prefix m (\<lambda>prefix. validateSnapshot sg prefix m False)"

definition snapshotPresent :: "CatalogModel \<Rightarrow> bool io" where
  "snapshotPresent m = then_io (need (modelPrefix m)) (\<lambda>prefix.
     then_io try_call (\<lambda>_.
     then_io (either_way (Lstat_io prefix)) (\<lambda>i.
     case i of Inr _ \<Rightarrow> give_io True | Inl e \<Rightarrow> if e = ErrNotExist then give_io False else fail_io e)))"

section \<open>Reports\<close>

definition stager_Status :: "Stager \<Rightarrow> CatalogModel \<Rightarrow> string io" where
  "stager_Status sg m = (case modelPrefix m of
     Inl _ \<Rightarrow> give_io ''invalid''
   | Inr p \<Rightarrow>
       then_io (either_way try_call) (\<lambda>opened.
       if opened \<noteq> Inr () then give_io ''unavailable''
       else then_io (either_way (Open_io (p @ slash # receipt_name))) (\<lambda>h.
         case h of
           Inl _ \<Rightarrow> give_io ''not-staged''
         | Inr h \<Rightarrow>
             then_io (either_way (read_io h)) (\<lambda>b.
             case (case b of Inl _ \<Rightarrow> None | Inr b \<Rightarrow> sg_Decode sg (limited_body (2 ^ 20) b)) of
               None \<Rightarrow> give_io ''verification-required''
             | Some r \<Rightarrow>
                 if sr_ManifestHash r \<noteq> manifest_hash sg m \<or> sr_Revision r \<noteq> md_Revision m then give_io ''verification-required''
                 else then_io (either_way (publishedReaderModes p m)) (\<lambda>modes.
                   if modes \<noteq> Inr () then give_io ''verification-required''
                   else give_io (sr_Status r @ '' at '' @ sg_Format sg (sr_VerifiedAt r)))))))"

record Cache =
  ca_Name :: string
  ca_UsedBytes :: int
  ca_BudgetBytes :: int
  ca_Status :: string
  ca_CleanupPreview :: "string list"

definition msg_incomplete :: string where
  "msg_incomplete = '' '' @ map char_of [226, 128, 148 :: nat] @ '' incomplete transfer; owner review only''"

definition root_names :: "tree \<Rightarrow> string list" where
  "root_names t = sort (map hd (filter (\<lambda>r. length r = 1) (map fst t)))"

definition CacheUsage :: "string \<Rightarrow> int \<Rightarrow> Cache io" where
  "CacheUsage name budget =
     (let c = \<lparr>ca_Name = name, ca_UsedBytes = 0, ca_BudgetBytes = budget, ca_Status = ''unknown'', ca_CleanupPreview = []\<rparr> in
      then_io (either_way try_call) (\<lambda>opened.
      if opened \<noteq> Inr () then give_io (c\<lparr>ca_Status := ''unavailable''\<rparr>)
      else then_io (either_way usedBytes) (\<lambda>n.
        case n of
          Inl _ \<Rightarrow> give_io (c\<lparr>ca_Status := ''unsafe-path''\<rparr>)
        | Inr n \<Rightarrow>
            (let c = c\<lparr>ca_UsedBytes := n, ca_Status := ''observed''\<rparr> in
             then_io (either_way (observe (\<lambda>t. Inr (root_names t)))) (\<lambda>names.
             case names of
               Inl _ \<Rightarrow> give_io c
             | Inr names \<Rightarrow> give_io (c\<lparr>ca_CleanupPreview :=
                 map (\<lambda>n. n @ msg_incomplete) (filter (\<lambda>n. HasPrefix n ''.partial-'') names)\<rparr>))))))"

end
