(* ===== verification/StagerRun.thy ===== *)
theory StagerRun
  imports Stager "HOL-Library.Multiset"
begin

text \<open>
  What staging guarantees: publication is all or nothing and only of reviewed content, whatever call fails and
  wherever the process stops; permissions are repaired without touching content; a staged snapshot verifies;
  downloads stay within the reviewed origins and the budget; and for which manifests the operations return.
\<close>

section \<open>Operations that only read\<close>

lemma reads_need [reading_rules]: "only_reads (need x)"
  unfolding need_def by (auto intro: reading_rules split: sum.split)

lemma reads_checks [reading_rules]:
  "only_reads rootGroup" "only_reads (checkedDirectory p gid)" "only_reads (checkedRegularFile p gid)"
  "only_reads (requireReaderDirectory p gid)" "only_reads (requireReaderFile p gid)" "only_reads (check_directory b gid p)"
  "only_reads (check_file b gid p)" "only_reads (requirePrivateStagingDirectory p)"
  unfolding rootGroup_def checkedDirectory_def checkedRegularFile_def requireReaderDirectory_def requireReaderFile_def
    check_directory_def check_file_def requirePrivateStagingDirectory_def
  by (intro reading_rules)+

lemma reads_validation [reading_rules]:
  "only_reads (validate_file sg snapshot m b gid f)" "only_reads (validate_receipt sg snapshot m b gid arts)"
  "only_reads (validateSnapshot sg snapshot m b)" "only_reads (publishedReaderModes prefix m)" "only_reads (absent p)"
  unfolding validate_file_def validate_receipt_def validateSnapshot_def publishedReaderModes_def absent_def visit_snapshot_def Let_def
  by (auto intro!: reading_rules split: option.split sum.split)

lemma reads_used [reading_rules]: "only_reads usedBytes"
proof -
  have "only_reads (used_walk acc es)" for acc es
    by (induction acc es rule: used_walk.induct) (auto intro!: reading_rules)
  then show ?thesis unfolding usedBytes_def by (auto intro!: reading_rules)
qed

lemma reads_admit [reading_rules]: "only_reads (admit sg m)"
  unfolding admit_def by (intro reading_rules)

lemma reads_client: "client_Do sg via u d = Some (d', x) \<Longrightarrow> still d d'"
proof (induction sg via u d rule: client_Do.induct)
  case (1 sg via u d)
  have dial: "dial_each sg ips a = Some (b, y) \<Longrightarrow> still a b" for ips a b y
    by (induction sg ips a rule: dial_each.induct) (auto simp: Let_def still_def split: if_splits)
  have conn: "connect sg u a = Some (b, y) \<Longrightarrow> still a b" for a b y
    using dial by (auto simp: connect_def DialContext_def still_def split: if_splits option.splits prod.splits sum.splits)
  obtain d1 y where c: "connect sg u (ask u d) = Some (d1, y)"
    using "1.prems" by (auto split: option.splits)
  have s1: "still d d1" using conn [OF c] by (simp add: still_def ask_def)
  show ?case
  proof (cases y)
    case (Inl e)
    with "1.prems" c s1 show ?thesis by simp
  next
    case (Inr u1)
    show ?thesis
    proof (cases "sg_Upstream sg (dk_Asked d1)")
      case (Redirected v)
      with "1.prems" c Inr s1 "1.IH" [OF c refl Inr Redirected] show ?thesis
        by (auto simp: still_def split: if_splits)
    qed (use "1.prems" c Inr s1 in simp_all)
  qed
qed

interpretation st: io_relation "\<lambda>_. True" still
  by unfold_locales (auto simp: still_def idle_def)

lemma still_request: "upholds (\<lambda>_. True) still (request_file sg m f)"
proof -
  have c: "upholds (\<lambda>_. True) still (client_Do sg via u)" for via u using reads_client by (auto simp: upholds_def)
  show ?thesis
    unfolding request_file_def
    by (intro st.keeps_then st.keeps_wrapped st.keeps_if c st.keeps_reads [OF reads_calls(1)] st.keeps_reads [OF reads_calls(2)]
      st.keeps_reads [OF reads_calls(3)])
qed

lemma reads_progress [reading_rules]: "only_reads (report name n)" "only_reads (progress_Write sg p b)"
proof -
  show r: "only_reads (report name n)" for name n
    using upholdsD [OF reads_calls(5)] by (auto simp: upholds_def [of _ _ "report name n"] report_def idle_def still_def)
  show "only_reads (progress_Write sg p b)" unfolding progress_Write_def Let_def by (intro reading_rules r)
qed

section \<open>Changes of modes\<close>

definition mode_ok :: "Inode \<Rightarrow> bool" where
  "mode_ok i \<longleftrightarrow> (is_dir i \<longrightarrow> reader_directory i) \<and> (is_regular i \<longrightarrow> reader_file i)"

definition remode :: "Inode \<Rightarrow> Inode \<Rightarrow> bool" where
  "remode i j \<longleftrightarrow> in_Content j = in_Content i \<and> in_Gid j = in_Gid i \<and> (mode_ok i \<longrightarrow> mode_ok j)"

definition remoded :: "tree \<Rightarrow> tree \<Rightarrow> bool" where
  "remoded t t' \<longleftrightarrow> (\<forall>q. rel_option remode (map_of t q) (map_of t' q))"

definition modes_only :: "Disk \<Rightarrow> Disk \<Rightarrow> bool" where
  "modes_only d d' \<longleftrightarrow> (\<exists>ts. dk_Past d' = dk_Past d @ ts \<and> (\<forall>t \<in> set (ts @ [dk_Tree d']). remoded (dk_Tree d) t))"

lemma remode_refl [simp]: "remode i i"
  by (simp add: remode_def)

lemma remoded_refl [simp]: "remoded t t"
  by (simp add: remoded_def option.rel_refl)

lemma remoded_trans: "remoded a b \<Longrightarrow> remoded b c \<Longrightarrow> remoded a c"
proof -
  assume ab: "remoded a b" and bc: "remoded b c"
  have "rel_option remode (map_of a q) (map_of c q)" for q
    using ab [unfolded remoded_def, rule_format, of q] bc [unfolded remoded_def, rule_format, of q]
    by (cases "map_of a q"; cases "map_of b q"; cases "map_of c q") (auto simp: remode_def)
  then show ?thesis by (simp add: remoded_def)
qed

lemma remoded_some: "remoded t t' \<Longrightarrow> map_of t q = Some i \<Longrightarrow> \<exists>j. map_of t' q = Some j \<and> remode i j"
  unfolding remoded_def by (metis option_rel_Some1)

lemma remoded_none: "remoded t t' \<Longrightarrow> map_of t q = None \<Longrightarrow> map_of t' q = None"
  unfolding remoded_def by (metis rel_option_None1)

interpretation mo: io_relation "\<lambda>_. True" modes_only
proof
  fix a b c
  assume "modes_only a b" "modes_only b c"
  then obtain ts us where "dk_Past b = dk_Past a @ ts" "\<forall>t \<in> set (ts @ [dk_Tree b]). remoded (dk_Tree a) t"
      "dk_Past c = dk_Past b @ us" "\<forall>t \<in> set (us @ [dk_Tree c]). remoded (dk_Tree b) t"
    by (auto simp: modes_only_def)
  then show "modes_only a c"
    unfolding modes_only_def by (intro exI [of _ "ts @ us"]) (auto intro: remoded_trans)
qed (simp_all add: modes_only_def still_def idle_def)

abbreviation keeps_modes :: "'a io \<Rightarrow> bool" where
  "keeps_modes \<equiv> upholds (\<lambda>_. True) modes_only"

lemma lstat_found:
  assumes "Lstat_io p d = Some (d', Inr i)"
  obtains q where "place (dk_Tree d) False p = Inr q" and "map_of (dk_Tree d) q = Some i" and "still d d'"
  using observed [of "\<lambda>t. lstat_at t p" d d' i] assms
  by (auto simp: Lstat_io_def lstat_at_def tree_entry_def split: sum.splits option.splits)

lemma place_follow:
  assumes "place t False p = Inr q" and "map_of t q = Some i" and "\<not> is_symlink i" and "place t True p = Inr r"
  shows "r = q"
proof (rule leads_follow)
  show "leads t False [] (comps p) q" "leads t True [] (comps p) r" using assms(1,4) resolve_leads by (simp_all add: place_def)
  show "\<not> link_at t q" using assms(2,3) by (simp add: link_at_def)
qed

lemma opened_same:
  assumes "place (dk_Tree d) False p = Inr q" and "map_of (dk_Tree d) q = Some i" and "\<not> is_symlink i" and "Open_io p d = Some (d', Inr h)"
  shows "h = q \<and> still d d'"
  using observed [OF assms(4) [unfolded Open_io_def]] place_follow [OF assms(1-3)]
  by (auto split: sum.splits option.splits)

lemma reads_then:
  assumes "then_io m f d = Some (d', x)" and "only_reads m"
  shows "still d d' \<or> (\<exists>d1 a. m d = Some (d1, Inr a) \<and> still d d1 \<and> f a d1 = Some (d', x))"
  using assms by (auto simp: then_io_Some upholds_def idle_def)

lemma still_trans: "still a b \<Longrightarrow> still b c \<Longrightarrow> still a c"
  by (simp add: still_def)

text \<open>A permission change either leaves the tree alone or changes the modes of the one inode that was looked up.\<close>

lemma chmodAndSync_cases:
  assumes "chmodAndSync p mode d = Some (d', x)"
  shows "still d d' \<or> (\<exists>q i. place (dk_Tree d) False p = Inr q \<and> map_of (dk_Tree d) q = Some i \<and> (is_dir i \<or> is_regular i)
    \<and> dk_Tree d' = set_inode q (chmod_inode mode) (dk_Tree d) \<and> dk_Past d' = dk_Past d @ [dk_Tree d])"
proof (rule disjCI)
  assume moved: "\<not> (\<exists>q i. place (dk_Tree d) False p = Inr q \<and> map_of (dk_Tree d) q = Some i \<and> (is_dir i \<or> is_regular i)
    \<and> dk_Tree d' = set_inode q (chmod_inode mode) (dk_Tree d) \<and> dk_Past d' = dk_Past d @ [dk_Tree d])"
  show "still d d'"
  proof (rule ccontr)
    assume no: "\<not> still d d'"
    let ?rest = "\<lambda>h. then_io (relabel (fstat h) (Plain msg_inode_changed)) (\<lambda>_. then_io (fchmod h mode) (\<lambda>_. sync_io))"
    from reads_then [OF assms [unfolded chmodAndSync_def] reads_lookups(1)] no obtain d1 i where
      1: "Lstat_io p d = Some (d1, Inr i)" "still d d1"
         "then_io (check_io (is_dir i \<or> is_regular i) msg_non_managed) (\<lambda>_. then_io (Open_io p) ?rest) d1 = Some (d', x)" by blast
    from reads_then [OF 1(3) reads_calls(3)] no still_trans [OF 1(2)] have i: "is_dir i \<or> is_regular i"
        and 2: "then_io (Open_io p) ?rest d1 = Some (d', x)" by auto
    from reads_then [OF 2 reads_lookups(3)] no still_trans [OF 1(2)] obtain d2 h where
      3: "Open_io p d1 = Some (d2, Inr h)" "still d1 d2" "?rest h d2 = Some (d', x)" by blast
    have s2: "still d d2" using 1(2) 3(2) by (rule still_trans)
    from reads_then [OF 3(3) rd.keeps_wrapped(1) [OF reads_lookups(4)]] no still_trans [OF s2] obtain d3 j where
      4: "still d2 d3" "then_io (fchmod h mode) (\<lambda>_. sync_io) d3 = Some (d', x)" by blast
    have s3: "still d d3" using s2 4(1) by (rule still_trans)
    obtain q where q: "place (dk_Tree d) False p = Inr q" "map_of (dk_Tree d) q = Some i" using lstat_found [OF 1(1)] by metis
    have "\<not> is_symlink i" using i by (auto simp: is_dir_def is_regular_def is_symlink_def split: content.splits)
    then have h: "h = q" using opened_same [OF _ _ _ 3(1)] q 1(2) by (simp add: still_def)
    from 4(2) obtain d4 y where f: "fchmod h mode d3 = Some (d4, y)" "still d4 d'"
      unfolding then_io_Some using reads_tree [OF reads_calls(5)] by (fastforce simp: still_def)
    with altered [OF f(1) [unfolded fchmod_def]] s3 no moved q i h show False
      by (auto simp: still_def)
  qed
qed

lemma modes_step:
  assumes "dk_Past d' = dk_Past d @ [dk_Tree d]" and "remoded (dk_Tree d) (dk_Tree d')"
  shows "modes_only d d'"
  unfolding modes_only_def by (rule exI [of _ "[dk_Tree d]"]) (use assms in simp)

lemma remoded_chmod:
  assumes "map_of t q = Some i" and "is_dir i \<and> mode = readerDirectoryMode \<or> is_regular i \<and> mode = readerFileMode"
  shows "remoded t (set_inode q (chmod_inode mode) t)"
proof -
  have "mode_ok (chmod_inode mode i)"
    using assms(2) by (auto simp: mode_ok_def chmod_inode_def reader_directory_def reader_file_def is_dir_def is_regular_def split: content.splits)
  then have "remode i (chmod_inode mode i)" by (simp add: remode_def chmod_inode_def)
  with assms(1) show ?thesis by (auto simp: remoded_def map_of_set_inode option.rel_refl)
qed

lemma checked_found:
  "checkedDirectory p gid d = Some (d', Inr i) \<Longrightarrow>
     \<exists>q. place (dk_Tree d) False p = Inr q \<and> map_of (dk_Tree d) q = Some i \<and> is_dir i \<and> in_Gid i = gid"
  "checkedRegularFile p gid d = Some (d', Inr i) \<Longrightarrow>
     \<exists>q. place (dk_Tree d) False p = Inr q \<and> map_of (dk_Tree d) q = Some i \<and> is_regular i \<and> in_Gid i = gid"
  by (auto simp: checkedDirectory_def checkedRegularFile_def split: if_splits elim!: lstat_found)

lemma modes_publish:
  "keeps_modes (publish_directory gid p)" "keeps_modes (publish_file gid p)"
proof -
  have set: "modes_only d d'" if "still a d" "place (dk_Tree a) False p = Inr q" "map_of (dk_Tree a) q = Some i"
      "is_dir i \<and> mode = readerDirectoryMode \<or> is_regular i \<and> mode = readerFileMode"
      "chmodAndSync p mode d = Some (d', x)" for a d d' q i mode x
    using chmodAndSync_cases [OF that(5)]
  proof
    assume "still d d'"
    then show ?thesis using mo.quiet by blast
  next
    assume "\<exists>q i. place (dk_Tree d) False p = Inr q \<and> map_of (dk_Tree d) q = Some i \<and> (is_dir i \<or> is_regular i)
      \<and> dk_Tree d' = set_inode q (chmod_inode mode) (dk_Tree d) \<and> dk_Past d' = dk_Past d @ [dk_Tree d]"
    with that show ?thesis by (auto simp: still_def intro!: modes_step remoded_chmod)
  qed
  have rest: "modes_only d d'" if c: "c d = Some (d1, Inr i)" "only_reads c" "place (dk_Tree d) False p = Inr q" "map_of (dk_Tree d) q = Some i"
      "is_dir i \<and> mode = readerDirectoryMode \<or> is_regular i \<and> mode = readerFileMode"
      and r: "then_io (chmodAndSync p mode) (\<lambda>_. k) d1 = Some (d', x)" "only_reads k" for c k :: "_ io" and d d1 d' i q mode x
  proof -
    have s: "still d d1" using c(1,2) reads_tree by (simp add: still_def)
    from r(1) obtain d2 y where "chmodAndSync p mode d1 = Some (d2, y)" "still d2 d'"
      unfolding then_io_Some using reads_tree [OF r(2)] by (fastforce simp: still_def)
    with set [OF s c(3,4,5)] mo.quiet mo.steps s show ?thesis by blast
  qed
  show "keeps_modes (publish_directory gid p)"
  proof (rule upholdsI)
    fix d d' x
    assume "publish_directory gid p d = Some (d', x)"
    from reads_then [OF this [unfolded publish_directory_def] reads_checks(2)] show "True \<and> modes_only d d'"
    proof
      assume "\<exists>d1 a. checkedDirectory p gid d = Some (d1, Inr a) \<and> still d d1 \<and>
        then_io (chmodAndSync p readerDirectoryMode) (\<lambda>_. requireReaderDirectory p gid) d1 = Some (d', x)"
      then obtain d1 i q where c: "checkedDirectory p gid d = Some (d1, Inr i)" "place (dk_Tree d) False p = Inr q" "map_of (dk_Tree d) q = Some i" "is_dir i"
          and r: "then_io (chmodAndSync p readerDirectoryMode) (\<lambda>_. requireReaderDirectory p gid) d1 = Some (d', x)"
        using checked_found(1) by metis
      from rest [OF c(1) reads_checks(2) c(2,3) _ r reads_checks(4)] c(4) show ?thesis by simp
    qed (use mo.quiet in blast)
  qed
  show "keeps_modes (publish_file gid p)"
  proof (rule upholdsI)
    fix d d' x
    assume "publish_file gid p d = Some (d', x)"
    from reads_then [OF this [unfolded publish_file_def] reads_checks(3)] show "True \<and> modes_only d d'"
    proof
      assume "\<exists>d1 a. checkedRegularFile p gid d = Some (d1, Inr a) \<and> still d d1 \<and>
        then_io (chmodAndSync p readerFileMode) (\<lambda>_. requireReaderFile p gid) d1 = Some (d', x)"
      then obtain d1 i q where c: "checkedRegularFile p gid d = Some (d1, Inr i)" "place (dk_Tree d) False p = Inr q" "map_of (dk_Tree d) q = Some i" "is_regular i"
          and r: "then_io (chmodAndSync p readerFileMode) (\<lambda>_. requireReaderFile p gid) d1 = Some (d', x)"
        using checked_found(2) by metis
      from rest [OF c(1) reads_checks(3) c(2,3) _ r reads_checks(5)] c(4) show ?thesis by simp
    qed (use mo.quiet in blast)
  qed
qed

lemma modes_permissions:
  "keeps_modes (setPublishedSnapshotPermissions snapshot m)" "keeps_modes (setModelParentPermissions prefix)"
  unfolding setPublishedSnapshotPermissions_def setModelParentPermissions_def
  by (intro mo.keeps_then mo.keeps_each modes_publish mo.keeps_reads reading_rules)+

lemma modes_repair: "keeps_modes (repairPublishedPermissions sg prefix m)"
  unfolding repairPublishedPermissions_def
  by (intro mo.keeps_then modes_permissions mo.keeps_reads reading_rules)

definition content_at :: "tree \<Rightarrow> string list \<Rightarrow> content option" where
  "content_at t q = map_option in_Content (map_of t q)"

lemma remoded_content: "remoded t t' \<Longrightarrow> content_at t' q = content_at t q"
  using remoded_some [of t t' q] remoded_none [of t t' q]
  by (cases "map_of t q") (auto simp: content_at_def remode_def)

text \<open>All trees an operation passed through, the last one included.\<close>

definition trees_since :: "Disk \<Rightarrow> Disk \<Rightarrow> tree list" where
  "trees_since d d' = drop (length (dk_Past d)) (dk_Past d') @ [dk_Tree d']"

lemma modes_trees: "modes_only d d' \<Longrightarrow> t \<in> set (trees_since d d') \<Longrightarrow> remoded (dk_Tree d) t"
  by (auto simp: modes_only_def trees_since_def)

lemma keeps_with_prefix:
  assumes "\<And>p. modelPrefix m = Inr p \<Longrightarrow> upholds I R (f p)" and "io_order I R"
  shows "upholds I R (with_prefix m f)"
proof -
  have "upholds I R (then_io (need (modelPrefix m)) f)"
  proof (cases "modelPrefix m")
    case (Inl e)
    then have "then_io (need (modelPrefix m)) f = fail_io e" by (auto simp: need_def then_io_def fail_io_def)
    then show ?thesis using io_order.keeps_reads [OF assms(2) reads_calls(2)] by simp
  next
    case (Inr p)
    then have "then_io (need (modelPrefix m)) f = f p" by (auto simp: need_def then_io_def give_io_def)
    with assms(1) [OF Inr] show ?thesis by simp
  qed
  from io_order.keeps_then [OF assms(2) io_order.keeps_reads [OF assms(2) reads_calls(5)] this]
  show ?thesis unfolding with_prefix_def .
qed

text \<open>
  C37: Repairing the permissions of a published snapshot, and verifying one, never changes content: whatever the
  outcome, in every tree the operation passes through each path has the content it had, and no path appears or goes.
\<close>

theorem repair_keeps_content:
  assumes "RepairPublishedPermissions sg m d = Some (d', x) \<or> Verify sg m d = Some (d', x) \<or> VerifyContent sg m d = Some (d', x)"
    and "t \<in> set (trees_since d d')"
  shows "content_at t q = content_at (dk_Tree d) q"
proof -
  have "keeps_modes (RepairPublishedPermissions sg m)"
    unfolding RepairPublishedPermissions_def by (intro keeps_with_prefix modes_repair mo.io_order_axioms)
  moreover have "keeps_modes (Verify sg m)" "keeps_modes (VerifyContent sg m)"
    unfolding Verify_def VerifyContent_def
    by (intro keeps_with_prefix mo.io_order_axioms mo.keeps_reads reading_rules)+
  ultimately have "modes_only d d'" using assms(1) upholdsD by blast
  from remoded_content [OF modes_trees [OF this assms(2)]] show ?thesis .
qed

section \<open>Well-formed trees\<close>

named_theorems wf_rules

declare wf_calls [wf_rules] wt.keeps_then [wf_rules] wt.keeps_each [wf_rules] wt.keeps_wrapped [wf_rules] wt.keeps_if [wf_rules]

lemmas wf_reads = wt.keeps_reads [OF reads_calls(1)] wt.keeps_reads [OF reads_calls(2)] wt.keeps_reads [OF reads_calls(3)]
  wt.keeps_reads [OF reads_calls(4)] wt.keeps_reads [OF reads_calls(5)] wt.keeps_reads [OF reads_calls(6)]
  wt.keeps_reads [OF reads_calls(7)] reads_lookups [THEN wt.keeps_reads] reads_need [THEN wt.keeps_reads] reads_checks [THEN wt.keeps_reads]
  reads_validation [THEN wt.keeps_reads] reads_admit [THEN wt.keeps_reads] still_request [THEN wt.keeps_still] reads_progress [THEN wt.keeps_reads]

declare wf_reads [wf_rules]

lemma wf_Mkdir_exist [wf_rules]: "keeps_wf (Mkdir_exist p perm)"
proof (rule upholdsI)
  fix d d' x
  assume "wf_tree (dk_Tree d)" and m: "Mkdir_exist p perm d = Some (d', x)"
  moreover obtain y where "Mkdir_io p perm d = Some (d', y)"
    using m by (auto simp: Mkdir_exist_def split: option.splits prod.splits sum.splits if_splits)
  ultimately show "wf_tree (dk_Tree d') \<and> True" using upholdsD [OF wf_calls(1)] by blast
qed

lemma wf_rootParents [wf_rules]: "keeps_wf (rootParents p)"
proof -
  have "keeps_wf (parents_walk gid cur parts)" for gid cur parts
    by (induction parts arbitrary: cur) (auto simp: Let_def intro!: wf_rules)
  then show ?thesis unfolding rootParents_def by (intro wf_rules)
qed

lemma wf_permissions [wf_rules]:
  "keeps_wf (setPublishedSnapshotPermissions snapshot m)" "keeps_wf (setModelParentPermissions prefix)"
  "keeps_wf (repairPublishedPermissions sg prefix m)"
  unfolding repairPublishedPermissions_def setPublishedSnapshotPermissions_def setModelParentPermissions_def
    publish_directory_def publish_file_def chmodAndSync_def
  by (intro wf_rules)+

lemma wf_receive [wf_rules]: "keeps_wf (receive_body sg f copied h r)"
proof -
  have "keeps_wf (copy_chunks sg h p acc cs)" for p acc cs
    by (induction cs arbitrary: p acc) (auto intro!: wf_rules)
  then have "keeps_wf (copy_body sg h p limit r)" for p limit
    unfolding copy_body_def by (intro wf_rules) (auto intro!: wf_rules split: option.split)
  then show ?thesis unfolding receive_body_def by (intro wf_rules) (auto intro!: wf_rules split: prod.split sum.split)
qed

lemma wf_stage_files [wf_rules]: "keeps_wf (stage_files sg snapshot m copied fs)"
proof (induction fs arbitrary: copied)
  case (Cons f fs)
  have "keeps_wf (create_file rel)" for rel
    unfolding create_file_def by (intro wf_rules) (auto intro!: wf_rules split: prod.split sum.split)
  then have "keeps_wf (stage_file sg snapshot m copied f)"
    unfolding stage_file_def Let_def by (intro wf_rules)
  with Cons show ?case by (auto intro!: wf_rules split: prod.split)
qed (auto intro!: wf_rules)

lemma wf_stager: "keeps_wf (Stage sg m)" "keeps_wf (Verify sg m)" "keeps_wf (RepairPublishedPermissions sg m)"
proof -
  have "keeps_wf (stage_fresh sg prefix m)" for prefix
    unfolding stage_fresh_def private_tree_def write_receipt_def publish_def prepare_publication_def settle_publication_def Let_def
    by (intro wf_rules)
  then show "keeps_wf (Stage sg m)" "keeps_wf (Verify sg m)" "keeps_wf (RepairPublishedPermissions sg m)"
    unfolding Stage_def Verify_def RepairPublishedPermissions_def
    by (intro keeps_with_prefix wt.io_order_axioms wf_rules; auto intro!: wf_rules split: sum.split)+
qed


section \<open>Downloads\<close>

definition reviewed_net :: "Disk \<Rightarrow> Disk \<Rightarrow> bool" where
  "reviewed_net d d' \<longleftrightarrow> (\<exists>us as. dk_Asked d' = dk_Asked d @ us \<and> dk_Dialled d' = dk_Dialled d @ as
     \<and> list_all reviewedURL us \<and> list_all publicAddress as)"

definition offline :: "Disk \<Rightarrow> Disk \<Rightarrow> bool" where
  "offline d d' \<longleftrightarrow> dk_Asked d' = dk_Asked d \<and> dk_Dialled d' = dk_Dialled d"

interpretation nt: io_order "\<lambda>_. True" reviewed_net
proof
  fix a b c
  assume "reviewed_net a b" "reviewed_net b c"
  then show "reviewed_net a c" unfolding reviewed_net_def by (elim exE conjE) (simp add: list_all_append)
qed (auto simp: reviewed_net_def idle_def)

interpretation of: io_order "\<lambda>_. True" offline
  by unfold_locales (auto simp: offline_def idle_def)

abbreviation keeps_offline :: "'a io \<Rightarrow> bool" where
  "keeps_offline \<equiv> upholds (\<lambda>_. True) offline"

abbreviation keeps_reviewed :: "'a io \<Rightarrow> bool" where
  "keeps_reviewed \<equiv> upholds (\<lambda>_. True) reviewed_net"

lemma offline_reviewed: "keeps_offline m \<Longrightarrow> keeps_reviewed m"
  by (auto simp: upholds_def offline_def reviewed_net_def)

lemma dialled_public:
  assumes "connect sg u d = Some (d', x)"
  shows "dk_Asked d' = dk_Asked d \<and> (\<exists>as. dk_Dialled d' = dk_Dialled d @ as \<and> list_all publicAddress as)"
proof -
  have each: "dk_Asked b = dk_Asked a \<and> (\<exists>as. dk_Dialled b = dk_Dialled a @ as \<and> list_all publicAddress as)"
    if "dial_each sg ips a = Some (b, y)" "list_all publicAddress ips" for ips a b y
    using that
  proof (induction sg ips a rule: dial_each.induct)
    case (2 sg ip ips a)
    then show ?case by (cases "sg_Connect sg ip") (auto simp: Let_def intro: exI [of _ "[ip]"])
  qed auto
  show ?thesis
    using assms each by (auto simp: connect_def DialContext_def split: if_splits option.splits prod.splits sum.splits)
qed

lemma reviewed_client: "client_Do sg via u d = Some (d', x) \<Longrightarrow> reviewedURL u \<Longrightarrow> reviewed_net d d'"
proof (induction sg via u d rule: client_Do.induct)
  case (1 sg via u d)
  obtain d1 y where c: "connect sg u (ask u d) = Some (d1, y)" using "1.prems"(1) by (auto split: option.splits)
  have first: "reviewed_net d d1"
    using dialled_public [OF c] "1.prems"(2) unfolding reviewed_net_def by (intro exI [of _ "[u]"]) (auto simp: ask_def)
  show ?case
  proof (cases y)
    case (Inl e)
    with "1.prems" c first show ?thesis by simp
  next
    case (Inr u1)
    show ?thesis
    proof (cases "sg_Upstream sg (dk_Asked d1)")
      case (Redirected v)
      show ?thesis
      proof (cases "CheckRedirect v (via @ [u]) = None")
        case True
        then have v: "reviewedURL v" by (simp add: CheckRedirect_def split: if_splits)
        have "reviewed_net d1 d'"
          by (rule "1.IH" [OF c refl Inr Redirected]) (use True "1.prems" c Inr Redirected v in simp_all)
        with first show ?thesis by (rule nt.steps)
      qed (use "1.prems" c Inr Redirected first in simp)
    qed (use "1.prems" c Inr first in simp_all)
  qed
qed

named_theorems offline_rules

lemma offline_altered: "keeps_offline (alter f)"
proof -
  have "offline d d'" if "try_call d = Some (d1, x)" "d' = d1 \<or> (\<exists>t. d' = turn t d1)" for d d1 d' x
    using upholdsD [OF reads_calls(5) TrueI that(1)] that(2) by (auto simp: idle_def offline_def turn_def)
  then show ?thesis unfolding upholds_def alter_def then_io_Some by (auto split: sum.split_asm) blast+
qed

lemma offline_calls [offline_rules]:
  "keeps_offline (Mkdir_io p perm)" "keeps_offline (Create_io p perm)" "keeps_offline (write_io h b)" "keeps_offline (fchmod h mode)"
  "keeps_offline (Rename_io old new)" "keeps_offline (Remove_io p)" "keeps_offline (MkdirTemp_io pattern)"
proof -
  show mk: "keeps_offline (Mkdir_io p perm)" for p perm unfolding Mkdir_io_def by (rule offline_altered)
  show "keeps_offline (Create_io p perm)"
    unfolding Create_io_def by (intro of.keeps_then offline_altered) (auto simp: upholds_def offline_def)
  show "keeps_offline (write_io h b)"
    by (rule upholdsI) (auto simp: write_io_def offline_def turn_def split: list.splits option.splits)
  show "keeps_offline (fchmod h mode)" "keeps_offline (Rename_io old new)" "keeps_offline (Remove_io p)"
    unfolding fchmod_def Rename_io_def Remove_io_def by (rule offline_altered)+
  show "keeps_offline (MkdirTemp_io pattern)" by (rule of.keeps_temp) (rule mk)
qed

lemmas offline_reads [offline_rules] = of.keeps_reads [OF reads_calls(1)] of.keeps_reads [OF reads_calls(2)] of.keeps_reads [OF reads_calls(3)]
  of.keeps_reads [OF reads_calls(4)] of.keeps_reads [OF reads_calls(5)] of.keeps_reads [OF reads_calls(6)]
  of.keeps_reads [OF reads_calls(7)] reads_lookups [THEN of.keeps_reads] reads_need [THEN of.keeps_reads] reads_checks [THEN of.keeps_reads]
  reads_validation [THEN of.keeps_reads] reads_admit [THEN of.keeps_reads] reads_progress [THEN of.keeps_reads]

declare of.keeps_then [offline_rules] of.keeps_each [offline_rules] of.keeps_wrapped [offline_rules] of.keeps_if [offline_rules]

lemma offline_rootParents [offline_rules]: "keeps_offline (rootParents p)"
proof -
  have "keeps_offline (Mkdir_exist p perm)" for p perm
    using offline_calls(1) by (fastforce simp: upholds_def Mkdir_exist_def split: option.splits prod.splits sum.splits if_splits)
  then have "keeps_offline (parents_walk gid cur parts)" for gid cur parts
    by (induction parts arbitrary: cur) (auto simp: Let_def intro!: offline_rules)
  then show ?thesis unfolding rootParents_def by (intro offline_rules)
qed

lemma offline_permissions [offline_rules]:
  "keeps_offline (setPublishedSnapshotPermissions snapshot m)" "keeps_offline (setModelParentPermissions prefix)"
  "keeps_offline (repairPublishedPermissions sg prefix m)"
  unfolding repairPublishedPermissions_def setPublishedSnapshotPermissions_def setModelParentPermissions_def
    publish_directory_def publish_file_def chmodAndSync_def
  by (intro offline_rules)+

lemma offline_receive: "keeps_offline (receive_body sg f copied h r)"
proof -
  have "keeps_offline (copy_chunks sg h p acc cs)" for p acc cs
    by (induction cs arbitrary: p acc) (auto intro!: offline_rules)
  then have "keeps_offline (copy_body sg h p limit r)" for p limit
    unfolding copy_body_def by (intro offline_rules) (auto intro!: offline_rules split: option.split)
  then show ?thesis unfolding receive_body_def by (intro offline_rules) (auto intro!: offline_rules split: prod.split sum.split)
qed

lemma offline_create: "keeps_offline (create_file rel)"
  unfolding create_file_def by (intro offline_rules) (auto intro!: offline_rules split: prod.split sum.split)

lemma reviewed_request: "keeps_reviewed (request_file sg m f)"
proof -
  have "keeps_reviewed (relabel (client_Do sg [] (model_url m f)) (Plain msg_download))" if "reviewedURL (model_url m f)"
    using reviewed_client that by (intro nt.keeps_wrapped) (auto simp: upholds_def)
  then show ?thesis
    unfolding request_file_def
    by (intro nt.keeps_then_result [where P = "\<lambda>_. reviewedURL (model_url m f)"] nt.keeps_then nt.keeps_if
      offline_reads [THEN offline_reviewed]) simp_all
qed

lemma reviewed_stage_files: "keeps_reviewed (stage_files sg snapshot m copied fs)"
proof (induction fs arbitrary: copied)
  case (Cons f fs)
  have "keeps_reviewed (stage_file sg snapshot m copied f)"
    unfolding stage_file_def Let_def
    by (intro nt.keeps_then nt.keeps_if reviewed_request offline_reads [THEN offline_reviewed]
      offline_rootParents [THEN offline_reviewed] offline_create [THEN offline_reviewed] offline_receive [THEN offline_reviewed])
  with Cons show ?case by (auto intro!: nt.keeps_then offline_reads [THEN offline_reviewed] split: prod.split)
qed (auto intro!: offline_reads [THEN offline_reviewed])

lemma offline_steps:
  "keeps_offline private_tree" "keeps_offline (write_receipt sg snapshot m arts)" "keeps_offline (publish sg prefix tmp m)"
  "keeps_offline (settle_publication sg prefix tmp m)"
  unfolding private_tree_def write_receipt_def publish_def prepare_publication_def settle_publication_def Let_def by (intro offline_rules)+

lemma reviewed_fresh: "keeps_reviewed (stage_fresh sg prefix m)"
  unfolding stage_fresh_def
  by (intro nt.keeps_then reviewed_stage_files offline_steps [THEN offline_reviewed] offline_reads [THEN offline_reviewed])


subsection \<open>The budget\<close>

definition tree_bytes :: "tree \<Rightarrow> int" where
  "tree_bytes t = sum_list (map (\<lambda>(q, i). int (length (body i))) t)"

definition manifest_bytes :: "CatalogModel \<Rightarrow> int" where
  "manifest_bytes m = sum_list (map fl_Size (md_Files m))"

lemma bytes_nonneg: "0 \<le> tree_bytes t"
  by (auto simp: tree_bytes_def intro!: sum_list_nonneg)

lemma used_walk_bytes: "used_walk acc es d = Some (d', Inr n) \<Longrightarrow> 0 \<le> acc \<Longrightarrow> acc + tree_bytes es < 2 ^ 63 \<Longrightarrow> n = acc + tree_bytes es"
proof (induction acc es arbitrary: d rule: used_walk.induct)
  case (2 acc r i es)
  have b: "tree_bytes ((r, i) # es) = int (length (body i)) + tree_bytes es" by (simp add: tree_bytes_def)
  have fit: "i64 (acc + int (length (body i))) = acc + int (length (body i))"
    using 2(4,5) b bytes_nonneg [of es] by (intro i64_id) (simp add: in_i64_def)
  show ?case
  proof (cases "is_dir i")
    case True
    then have "body i = []" by (simp add: is_dir_def body_def)
    with 2 True b show ?thesis by (auto split: if_splits)
  next
    case False
    with 2(3) obtain d1 where "is_regular i" "used_walk (acc + int (length (body i))) es d1 = Some (d', Inr n)"
      by (auto simp: fit split: if_splits)
    with 2(2) [of d1] False 2(3-5) b fit show ?thesis by (auto split: if_splits)
  qed
qed (simp add: tree_bytes_def)

lemma entries_root: "tree_bytes (entries_below t []) = tree_bytes t"
proof -
  have m: "mset (entries_below t []) = mset t" by (simp add: entries_below_def starts_def)
  have "mset (map (\<lambda>(q, i). int (length (body i))) (entries_below t [])) = mset (map (\<lambda>(q, i). int (length (body i))) t)"
    using m by simp
  then show ?thesis unfolding tree_bytes_def by (metis sum_mset_sum_list)
qed

lemma usedBytes_is:
  assumes "usedBytes d = Some (d', Inr n)" and "tree_bytes (dk_Tree d) < 2 ^ 63"
  shows "n = tree_bytes (dk_Tree d)"
proof -
  from assms(1) obtain d1 es where o: "observe (\<lambda>t. case map_of t [] of None \<Rightarrow> Inl ErrNotExist | Some _ \<Rightarrow> Inr (entries_below t [])) d = Some (d1, Inr es)"
      and w: "used_walk 0 es d1 = Some (d', Inr n)" by (auto simp: usedBytes_def)
  have "es = entries_below (dk_Tree d) []" using observed [OF o] by (auto split: option.splits)
  with used_walk_bytes [OF w] assms(2) show ?thesis by (simp add: entries_root)
qed

lemma admitted_bytes:
  assumes "admit_files sg seen needed fs = Inr n" and "0 \<le> needed" and "needed \<le> sg_Budget sg" and "sg_Budget sg < 2 ^ 62"
    and "list_all (\<lambda>f. fl_Size f < 2 ^ 62) fs"
  shows "n = needed + sum_list (map fl_Size fs) \<and> n \<le> sg_Budget sg \<and> 0 \<le> n"
  using assms
proof (induction sg seen needed fs rule: admit_files.induct)
  case (2 sg seen needed f fs)
  have size: "0 \<le> fl_Size f" using 2(2) by (auto split: if_splits)
  then have fit: "i64 (needed + fl_Size f) = needed + fl_Size f" using 2(3-6) by (intro i64_id) (simp add: in_i64_def)
  with 2 size show ?case by (auto simp: Let_def split: if_splits sum.splits)
qed simp

lemma idle_then:
  assumes "then_io m f d = Some (d', x)" and "only_reads m"
  shows "idle d d' \<or> (\<exists>d1 a. m d = Some (d1, Inr a) \<and> idle d d1 \<and> f a d1 = Some (d', x))"
  using assms by (auto simp: then_io_Some upholds_def)

lemma idle_trans: "idle a b \<Longrightarrow> idle b c \<Longrightarrow> idle a c"
  by (simp add: idle_def still_def)

lemma with_prefix_cases:
  assumes "with_prefix m f d = Some (d', x)"
  shows "idle d d' \<and> isl x \<or> (\<exists>p d1. modelPrefix m = Inr p \<and> idle d d1 \<and> f p d1 = Some (d', x))"
proof -
  have a: "idle d d1" if "try_call d = Some (d1, y)" for d1 y using upholdsD [OF reads_calls(5) TrueI that] by simp
  from assms show ?thesis
    by (cases "modelPrefix m") (auto simp: with_prefix_def then_io_Some need_def dest!: a)
qed

lemma Stage_cases:
  assumes "Stage sg m d = Some (d', x)"
  obtains (stopped) "idle d d'" "isl x"
  | (fresh) p d1 where "modelPrefix m = Inr p" "idle d d1" "stage_fresh sg p m d1 = Some (d', x)"
  | (repair) p d1 where "modelPrefix m = Inr p" "idle d d1" "repairPublishedPermissions sg p m d1 = Some (d', x)"
  using with_prefix_cases [OF assms [unfolded Stage_def]]
proof (elim disjE exE conjE)
  fix p d0
  assume p: "modelPrefix m = Inr p" and d0: "idle d d0" "then_io (either_way (Lstat_io p))
      (\<lambda>i. case i of Inr _ \<Rightarrow> repairPublishedPermissions sg p m | Inl _ \<Rightarrow> stage_fresh sg p m) d0 = Some (d', x)"
  from d0(2) obtain d1 and i :: "err + Inode" where l: "Lstat_io p d0 = Some (d1, i)"
      "(case i of Inr _ \<Rightarrow> repairPublishedPermissions sg p m | Inl _ \<Rightarrow> stage_fresh sg p m) d1 = Some (d', x)"
    by (auto simp: then_io_Some)
  have "idle d d1" using idle_trans [OF d0(1)] upholdsD [OF reads_lookups(1) TrueI l(1)] by simp
  with p l(2) fresh repair show thesis by (cases i) auto
qed

lemma asked_admitted:
  assumes "Stage sg m d = Some (d', x)" and "dk_Asked d' \<noteq> dk_Asked d"
  obtains d1 d2 where "idle d d1" and "admit sg m d1 = Some (d2, Inr ())"
  using assms(1)
proof (cases rule: Stage_cases)
  case (fresh p d1)
  from idle_then [OF fresh(3) [unfolded stage_fresh_def] reads_admit] assms(2) fresh(2) obtain d2 where "admit sg m d1 = Some (d2, Inr ())"
    by (auto simp: idle_def)
  with fresh(2) that show ?thesis by blast
next
  case (repair p d1)
  then have "offline d1 d'" using upholdsD [OF offline_permissions(3) TrueI] by blast
  with repair(2) assms(2) show ?thesis by (simp add: offline_def idle_def)
qed (use assms(2) in \<open>simp add: idle_def\<close>)

text \<open>
  C30: Nothing is downloaded unless it fits: when staging sends a request, the manifest together with what the managed
  tree already holds is within the budget, and 256 MiB remain free besides. Sizes and budget are below \<open>2 ^ 62\<close>, so
  that no sum wraps.
\<close>

theorem downloads_within_budget:
  assumes "Stage sg m d = Some (d', x)" and "dk_Asked d' \<noteq> dk_Asked d"
    and "sg_Budget sg < 2 ^ 62" and "1 \<le> sg_Budget sg" and "list_all (\<lambda>f. fl_Size f < 2 ^ 62) (md_Files m)" and "tree_bytes (dk_Tree d) < 2 ^ 62"
  shows "manifest_bytes m + tree_bytes (dk_Tree d) \<le> sg_Budget sg \<and> (\<exists>free. sg_Free sg (dk_Tree d) = Inr free \<and> manifest_bytes m + 2 ^ 28 \<le> free)"
proof -
  obtain d1 d2 where i: "idle d d1" and a: "admit sg m d1 = Some (d2, Inr ())" using asked_admitted [OF assms(1,2)] .
  from a obtain n u free where n: "admit_files sg [] 0 (md_Files m) = Inr n"
      and u: "\<exists>d2. usedBytes d1 = Some (d2, Inr u) \<and> (\<exists>d3. observe (sg_Free sg) d2 = Some (d3, Inr free))"
      and fits: "n \<le> i64 (sg_Budget sg - u)" "i64 (n + 256 * 1024 * 1024) \<le> free"
    by (auto simp: admit_def need_def split: sum.splits)
  have t1: "dk_Tree d1 = dk_Tree d" using i by (simp add: idle_def still_def)
  from u obtain d2' d3 where u2: "usedBytes d1 = Some (d2', Inr u)" "observe (sg_Free sg) d2' = Some (d3, Inr free)" by blast
  have used: "u = tree_bytes (dk_Tree d)" using usedBytes_is [OF u2(1)] assms(6) t1 by simp
  have "dk_Tree d2' = dk_Tree d" using reads_tree [OF reads_used u2(1)] t1 by simp
  then have free: "sg_Free sg (dk_Tree d) = Inr free" using observed [OF u2(2)] by simp
  have need: "n = manifest_bytes m" "0 \<le> n" "n \<le> sg_Budget sg"
    using admitted_bytes [OF n _ _ assms(3,5)] assms(4) by (simp_all add: manifest_bytes_def)
  have "i64 (sg_Budget sg - u) = sg_Budget sg - u" "i64 (n + 256 * 1024 * 1024) = n + 256 * 1024 * 1024"
    using used bytes_nonneg [of "dk_Tree d"] assms(3,4,6) need by (auto intro!: i64_id simp: in_i64_def)
  with fits free used need show ?thesis by simp
qed

section \<open>Parent directories of a manifest path\<close>

lemma clean_relative:
  assumes "list_all (\<lambda>w. slash \<notin> set w) ws" and "List.rev out = replicate n ''..'' @ ps" and "list_all plain_component ps"
  shows "\<exists>n ps. clean_components False out ws = replicate n ''..'' @ ps \<and> list_all plain_component ps"
  using assms
proof (induction ws arbitrary: out n ps)
  case (Cons w ws)
  show ?case
  proof (cases "w = [] \<or> w = ''.'' \<or> w = ''..''")
    case False
    then have "plain_component w" using Cons.prems(1) by (simp add: plain_component_def)
    then have "List.rev (w # out) = replicate n ''..'' @ (ps @ [w])" "list_all plain_component (ps @ [w])"
      using Cons.prems by simp_all
    from Cons.IH [OF _ this] False Cons.prems(1) show ?thesis by auto
  next
    case special: True
    show ?thesis
    proof (cases "w = ''..''")
      case False
      with special Cons.IH [OF _ Cons.prems(2,3)] Cons.prems(1) show ?thesis by auto
    next
      case True
      show ?thesis
      proof (cases "ps = []")
        case empty: True
        then have "List.rev (''..'' # out) = replicate (Suc n) ''..'' @ []" using Cons.prems(2) by (simp add: replicate_append_same)
        from Cons.IH [OF _ this] have ih: "\<exists>n ps. clean_components False (''..'' # out) ws = replicate n ''..'' @ ps \<and> list_all plain_component ps"
          using Cons.prems(1) by simp
        have "out = replicate n ''..''" using Cons.prems(2) empty by (metis append_Nil2 rev_replicate rev_rev_ident)
        with True ih show ?thesis by (cases n) auto
      next
        case False
        then obtain qs q where q: "ps = qs @ [q]" by (metis append_butlast_last_id)
        then have out: "out = q # List.rev (replicate n ''..'' @ qs)" using Cons.prems(2) by (metis append_assoc rev.simps(2) rev_append rev_rev_ident rev_swap)
        have "List.rev (List.rev (replicate n ''..'' @ qs)) = replicate n ''..'' @ qs" "list_all plain_component qs"
          using q Cons.prems(3) by auto
        from Cons.IH [OF _ this] have "\<exists>k rs. clean_components False (List.rev (replicate n ''..'' @ qs)) ws = replicate k ''..'' @ rs \<and> list_all plain_component rs"
          using Cons.prems(1) by simp
        moreover have "q \<noteq> ''..''" using q Cons.prems(3) by (simp add: plain_component_def)
        ultimately show ?thesis using True out by simp
      qed
    qed
  qed
qed auto

lemma safe_components:
  assumes "safeRelative p"
  shows "p = ''.'' \<or> list_all plain_component (comps p)"
proof -
  let ?cs = "clean_components False [] (split_on slash p)"
  have p: "p \<noteq> []" "Clean p = p" "\<not> IsAbs p" "p \<noteq> ''..''" "\<not> HasPrefix p ''../''"
    using assms by (auto simp: safeRelative_def IsAbs_def)
  obtain n ps where cs: "?cs = replicate n ''..'' @ ps" and ps: "list_all plain_component ps"
    using clean_relative [OF split_slash_free [of p], of "[]" 0 "[]"] by auto
  have j: "p = (if join_with slash ?cs = [] then ''.'' else join_with slash ?cs)"
    using p(1-3) by (simp add: Clean_def Let_def)
  show ?thesis
  proof (cases n)
    case 0
    then show ?thesis using j cs ps comps_join [of ps] by (cases "ps = []") (auto split: if_splits)
  next
    case (Suc k)
    then obtain rest where "?cs = ''..'' # rest" using cs by simp
    then show ?thesis using j p(4,5) by (cases rest) (auto simp: HasPrefix_def)
  qed
qed

text \<open>The loop climbs one component at a time and ends at the dot.\<close>

definition climbs :: "string list \<Rightarrow> string list" where
  "climbs cs = map (\<lambda>n. join_with slash (take (length cs - n) cs)) [0 ..< length cs]"

lemma parent_dirs_plain: "list_all plain_component cs \<Longrightarrow> cs \<noteq> [] \<Longrightarrow> parent_dirs (join_with slash cs) = Some (climbs cs)"
proof (induction cs rule: rev_induct)
  case (snoc c cs)
  have c: "plain_component c" "slash \<notin> set c" using snoc.prems(1) by (auto simp: plain_component_def)
  have climb: "climbs (cs @ [c]) = join_with slash (cs @ [c]) # climbs cs"
  proof -
    have "[0 ..< Suc (length cs)] = 0 # map Suc [0 ..< length cs]" by (simp add: upt_conv_Cons map_Suc_upt del: upt_Suc)
    then show ?thesis by (simp add: climbs_def)
  qed
  have dot: "join_with slash (cs @ [c]) \<noteq> ''.''"
  proof
    assume "join_with slash (cs @ [c]) = ''.''"
    then have "cs @ [c] = [''.'']" using comps_join [of "cs @ [c]"] snoc.prems(1) by (simp add: comps_def)
    with c(1) show False by (simp add: plain_component_def append_eq_Cons_conv)
  qed
  show ?case
  proof (cases "cs = []")
    case True
    then show ?thesis
      using dot c climb by (subst parent_dirs.simps) (simp add: Dir_single climbs_def parent_dirs.simps [of "''.''"])
  next
    case False
    have "Dir (join_with slash (cs @ [c])) = join_with slash cs"
      using Dir_join [of cs c] snoc.prems(1) False c by (simp add: join_snoc)
    then show ?thesis
      using snoc False dot climb by (subst parent_dirs.simps) simp
  qed
qed simp

lemma parent_dirs_safe:
  assumes "safeRelative p"
  shows "parent_dirs (Dir p) = Some (if p = ''.'' then [] else climbs (butlast (comps p)))"
proof -
  have dot: "parent_dirs ''.'' = Some []" by (subst parent_dirs.simps) simp
  show ?thesis
  proof (cases "p = ''.''")
    case True
    then show ?thesis using dot Dir_single [of "''.''"] by simp
  next
    case False
    then have cs: "list_all plain_component (comps p)" using safe_components [OF assms] by simp
    have ne: "comps p \<noteq> []" by (simp add: comps_def)
    have p: "p = join_with slash (comps p)" by (simp add: comps_def join_split)
    obtain ds c where dc: "comps p = ds @ [c]" using ne by (metis append_butlast_last_id)
    show ?thesis
    proof (cases "ds = []")
      case True
      then have "p = c" "slash \<notin> set c" using p dc cs by (auto simp: plain_component_def)
      then show ?thesis using False True dc dot by (simp add: Dir_single climbs_def)
    next
      case ds: False
      have "Dir p = join_with slash ds" using Dir_join [of ds c] p dc cs ds by (simp add: join_snoc plain_component_def)
      then show ?thesis using parent_dirs_plain [of ds] cs dc ds False by simp
    qed
  qed
qed

definition ups :: "string \<Rightarrow> string list" where
  "ups p = (if p = ''.'' then [] else climbs (butlast (comps p)))"

lemma directories_safe:
  assumes "list_all (\<lambda>f. safeRelative (fl_Path f)) (md_Files m)"
  shows "snapshotDirectories m = Some (sort (remdups ([] # concat (map (ups \<circ> fl_Path) (md_Files m)))))"
proof -
  have "those (map (\<lambda>f. parent_dirs (Dir (fl_Path f))) fs) = Some (map (ups \<circ> fl_Path) fs)"
    if "list_all (\<lambda>f. safeRelative (fl_Path f)) fs" for fs
    using that by (induction fs) (auto simp: parent_dirs_safe ups_def)
  from this [OF assms] show ?thesis unfolding snapshotDirectories_def by (simp del: remdups.simps)
qed

section \<open>Operations that return\<close>

definition returns :: "'a io \<Rightarrow> bool" where
  "returns m \<longleftrightarrow> (\<forall>d. m d \<noteq> None)"

named_theorems return_rules

lemma return_simple [return_rules]:
  "returns (give_io a)" "returns (fail_io e)" "returns (check_io b msg)" "returns try_call" "returns (observe f)" "returns clock"
  "returns (alter g)" "returns (need y)" "returns (write_io h w)" "returns (report name n)"
  by (auto simp: returns_def give_io_def fail_io_def check_io_def try_call_def observe_def clock_def alter_def then_io_def need_def write_io_def
    report_def split: list.splits option.splits sum.splits)

lemma return_then [return_rules]: "returns m \<Longrightarrow> (\<And>a. returns (f a)) \<Longrightarrow> returns (then_io m f)"
  by (auto simp: returns_def then_io_def split: option.splits sum.splits)

lemma return_wrapped [return_rules]: "returns m \<Longrightarrow> returns (relabel m e)" "returns m \<Longrightarrow> returns (either_way m)"
  by (auto simp: returns_def relabel_def either_way_def split: option.splits sum.splits)

lemma return_if [return_rules]: "(b \<Longrightarrow> returns m) \<Longrightarrow> (\<not> b \<Longrightarrow> returns n) \<Longrightarrow> returns (if b then m else n)"
  by simp

lemma return_loops [return_rules]: "(\<And>x. returns (f x)) \<Longrightarrow> returns (each_io f xs)" "(\<And>x. returns (g x)) \<Longrightarrow> returns (map_io g xs)"
  by (induction xs) (auto intro!: return_rules)

lemma return_calls [return_rules]:
  "returns (Lstat_io p)" "returns stat_root" "returns (Open_io p)" "returns (fstat h)" "returns (read_io h)" "returns (Mkdir_io p perm)"
  "returns (fchmod h mode)" "returns (Rename_io old new)" "returns (Remove_io p)"
  unfolding Lstat_io_def stat_root_def Open_io_def fstat_def read_io_def Mkdir_io_def fchmod_def Rename_io_def Remove_io_def
  by (rule return_simple)+

lemma return_create [return_rules]: "returns (Create_io p perm)"
  unfolding Create_io_def by (intro return_rules) (simp add: returns_def)

lemma return_temp [return_rules]: "returns (MkdirTemp_io pattern)"
proof -
  have "mkdir_temp pattern rs d \<noteq> None" for rs d
  proof (induction pattern rs d rule: mkdir_temp.induct)
    case (2 pattern r rs d)
    then show ?case
      using return_calls(6) [of "temp_name pattern r" 448]
      by (auto simp: returns_def split: option.splits sum.splits)
  qed simp
  then show ?thesis by (simp add: returns_def MkdirTemp_io_def)
qed

lemma return_walk [return_rules]: "(\<And>r i. returns (visit r i)) \<Longrightarrow> returns (WalkDir p visit)"
  unfolding WalkDir_def visit_entry_def by (auto intro!: return_rules split: prod.split)

lemma return_checks [return_rules]:
  "returns rootGroup" "returns (checkedDirectory p gid)" "returns (checkedRegularFile p gid)" "returns (requireReaderDirectory p gid)"
  "returns (requireReaderFile p gid)" "returns (check_directory b gid p)" "returns (check_file b gid p)" "returns (requirePrivateStagingDirectory p)"
  "returns (chmodAndSync p mode)" "returns (publish_directory gid p)" "returns (publish_file gid p)" "returns (setModelParentPermissions p)"
  "returns (absent p)"
  unfolding rootGroup_def checkedDirectory_def checkedRegularFile_def requireReaderDirectory_def requireReaderFile_def check_directory_def
    check_file_def requirePrivateStagingDirectory_def chmodAndSync_def publish_directory_def publish_file_def setModelParentPermissions_def absent_def
  by (auto intro!: return_rules split: sum.split)

lemma return_parents [return_rules]: "returns (rootParents p)"
proof -
  have "returns (Mkdir_exist p perm)" for p perm
    using return_calls(6) [of p perm] by (auto simp: returns_def Mkdir_exist_def split: option.splits sum.splits)
  then have "returns (parents_walk gid cur parts)" for gid cur parts
    by (induction parts arbitrary: cur) (auto simp: Let_def intro!: return_rules)
  then show ?thesis unfolding rootParents_def by (intro return_rules)
qed

lemma return_client: "client_Do sg via u d \<noteq> None"
proof (induction sg via u d rule: client_Do.induct)
  case (1 sg via u d)
  have "dial_each sg ips a \<noteq> None" for ips a by (induction sg ips a rule: dial_each.induct) (simp_all add: Let_def)
  then have "connect sg u a \<noteq> None" for a
    by (auto simp: connect_def DialContext_def fail_io_def split: option.splits prod.splits sum.splits)
  then obtain d1 y where c: "connect sg u (ask u d) = Some (d1, y)" by fastforce
  show ?case
  proof (cases y)
    case (Inr u1)
    show ?thesis
    proof (cases "sg_Upstream sg (dk_Asked d1)")
      case (Redirected v)
      with c Inr "1.IH" [OF c refl Inr Redirected] show ?thesis by simp
    qed (use c Inr in simp_all)
  qed (use c in simp)
qed

lemma return_downloads [return_rules]: "returns (stage_files sg snapshot m copied fs)"
proof (induction fs arbitrary: copied)
  case (Cons f fs)
  have "returns (client_Do sg via u)" for via u using return_client by (simp add: returns_def)
  then have request: "returns (request_file sg m f)" unfolding request_file_def by (intro return_rules)
  have create: "returns (create_file rel)" for rel
    unfolding create_file_def by (intro return_rules) (auto intro!: return_rules split: prod.split sum.split)
  have "returns (progress_Write sg p b)" for p b unfolding progress_Write_def Let_def by (intro return_rules)
  then have "returns (copy_chunks sg h p acc cs)" for h p acc cs
    by (induction cs arbitrary: p acc) (auto intro!: return_rules)
  then have "returns (copy_body sg h p limit r)" for h p limit r
    unfolding copy_body_def by (intro return_rules) (auto intro!: return_rules split: option.split)
  then have "returns (receive_body sg f copied h r)" for h r
    unfolding receive_body_def by (intro return_rules) (auto intro!: return_rules split: prod.split sum.split)
  with request create have "returns (stage_file sg snapshot m copied f)"
    unfolding stage_file_def Let_def by (intro return_rules)
  with Cons show ?case by (auto intro!: return_rules split: prod.split)
qed (auto intro!: return_rules)

lemma return_used [return_rules]: "returns usedBytes"
proof -
  have "returns (used_walk acc es)" for acc es
    by (induction acc es rule: used_walk.induct) (auto intro!: return_rules)
  then show ?thesis unfolding usedBytes_def by (intro return_rules)
qed

text \<open>The operations that go through the directories of a manifest return when that loop does.\<close>

lemma return_validation:
  assumes "snapshotDirectories m \<noteq> None"
  shows "returns (validateSnapshot sg snapshot m b)" and "returns (setPublishedSnapshotPermissions snapshot m)"
    and "returns (publishedReaderModes p m)"
proof -
  have dirs: "returns (computed (snapshotDirectories m))" using assms by (auto simp: returns_def computed_def)
  have "returns (validate_file sg snapshot m b gid f)" "returns (validate_receipt sg snapshot m b gid arts)"
      "returns (visit_snapshot ds es r i)" for gid f arts ds es r i
    unfolding validate_file_def validate_receipt_def visit_snapshot_def Let_def by (auto intro!: return_rules split: option.split)
  with dirs show "returns (validateSnapshot sg snapshot m b)" "returns (setPublishedSnapshotPermissions snapshot m)"
      "returns (publishedReaderModes p m)"
    unfolding validateSnapshot_def setPublishedSnapshotPermissions_def publishedReaderModes_def by (auto intro!: return_rules)
qed

lemma returns_stager:
  assumes "list_all (\<lambda>f. safeRelative (fl_Path f)) (md_Files m)"
  shows "returns (Stage sg m)" and "returns (Verify sg m)" and "returns (RepairPublishedPermissions sg m)" and "returns (VerifyContent sg m)"
    and "returns (stager_Status sg m)"
proof -
  have dirs: "snapshotDirectories m \<noteq> None" using directories_safe [OF assms] by simp
  note rules = return_rules return_validation [OF dirs]
  have repair: "returns (repairPublishedPermissions sg p m)" for p unfolding repairPublishedPermissions_def by (intro rules)
  have fresh: "returns (stage_fresh sg p m)" for p
    unfolding stage_fresh_def admit_def private_tree_def write_receipt_def publish_def prepare_publication_def settle_publication_def Let_def by (intro rules)
  show "returns (Stage sg m)" unfolding Stage_def with_prefix_def
    by (auto intro!: rules repair fresh split: sum.split)
  show "returns (Verify sg m)" "returns (RepairPublishedPermissions sg m)" "returns (VerifyContent sg m)"
    unfolding Verify_def RepairPublishedPermissions_def VerifyContent_def with_prefix_def by (auto intro!: rules repair)
  show "returns (stager_Status sg m)" unfolding stager_Status_def
    by (auto intro!: rules split: sum.split option.split)
qed

text \<open>
  C38: Every staging operation returns on a manifest whose paths are safe: staging, verifying, repairing and the status
  report end, with a result or an error, whatever the disk holds, whichever call fails and whatever upstream answers.
\<close>

theorem stager_returns:
  assumes "list_all (\<lambda>f. safeRelative (fl_Path f)) (md_Files m)"
  shows "Stage sg m d \<noteq> None \<and> Verify sg m d \<noteq> None \<and> RepairPublishedPermissions sg m d \<noteq> None \<and> VerifyContent sg m d \<noteq> None
    \<and> stager_Status sg m d \<noteq> None"
  using returns_stager [OF assms] by (simp add: returns_def)

lemma parent_dirs_absolute: "parent_dirs (abs_path cs) = None" if "list_all plain_component cs"
  using that
proof (induction cs rule: rev_induct)
  case Nil
  show ?case
  proof (cases "parent_dirs (abs_path [])")
    case (Some ds)
    have d: "Dir (abs_path []) = abs_path []" "abs_path [] \<noteq> ''.''" by code_simp+
    have "Some ds = Some (abs_path [] # ds)"
      using parent_dirs.simps [of "abs_path []"] unfolding d(1) Some if_not_P [OF d(2)] by simp
    then show ?thesis by simp
  qed
next
  case (snoc c cs)
  have "Dir (abs_path (cs @ [c])) = abs_path cs" using Dir_abs_path snoc.prems by simp
  moreover have "abs_path (cs @ [c]) \<noteq> ''.''" by (simp add: abs_path_def)
  ultimately show ?case using snoc parent_dirs.simps [of "abs_path (cs @ [c])"] by simp
qed

lemma directories_absolute:
  assumes "f \<in> set (md_Files m)" and "IsAbs (fl_Path f)"
  shows "snapshotDirectories m = None"
proof -
  obtain r where "fl_Path f = slash # r" using assms(2) by (cases "fl_Path f") (auto simp: IsAbs_def HasPrefix_def)
  then have "IsAbs (List.rev (dropWhile (\<lambda>c. c \<noteq> slash) (List.rev (fl_Path f))))"
    by (simp add: dropWhile_append3 IsAbs_def HasPrefix_def)
  then obtain cs where "Dir (fl_Path f) = abs_path cs" "list_all plain_component cs"
    using Clean_absolute by (metis Dir_def)
  then have "parent_dirs (Dir (fl_Path f)) = None" using parent_dirs_absolute by simp
  moreover have "those xs = None" if "None \<in> set xs" for xs :: "string list option list"
    using that by (induction xs) (auto split: option.splits)
  ultimately show ?thesis using assms(1) by (force simp: snapshotDirectories_def)
qed

text \<open>
  One absolute path in a manifest and the snapshot is never validated: the loop over its parent directories
  stays at the root directory, so that verifying a published model with such a manifest does not return. The check
  for an unsafe manifest path comes after the loop.
\<close>

theorem absolute_path_never_returns:
  assumes "modelPrefix m = Inr p" and "f \<in> set (md_Files m)" and "IsAbs (fl_Path f)" and "map_of (dk_Tree d) [] = Some i" and "dk_Faults d = []"
  shows "VerifyContent sg m d = None"
proof -
  have "computed (snapshotDirectories m) d = None" using directories_absolute [OF assms(2,3)] by (simp add: computed_def)
  moreover have "rootGroup d = Some (d, Inr (in_Gid i))"
    using assms(4,5) by (simp add: rootGroup_def stat_root_def observe_def then_io_def try_call_def tree_entry_def give_io_def)
  ultimately have "validateSnapshot sg p m False d = None" by (simp add: validateSnapshot_def then_io_def)
  then show ?thesis
    using assms(1,5) by (simp add: VerifyContent_def with_prefix_def then_io_def try_call_def need_def give_io_def)
qed

end
