(* ===== verification/StagerPublish.thy ===== *)
theory StagerPublish
  imports StagerRun
begin

text \<open>
  Publication. Until the rename, staging writes only below its own private directory, apart from creating the
  directory of the model; what the rename publishes has been validated and has reader modes; nothing afterwards
  touches it. The statements cover every tree passed through and every failure.
\<close>

section \<open>Before the rename\<close>

definition zone :: "string \<Rightarrow> string \<Rightarrow> string list \<Rightarrow> bool" where
  "zone tmp name q \<longleftrightarrow> starts [tmp] q \<or> q = [name]"

definition staging :: "string \<Rightarrow> string \<Rightarrow> Disk \<Rightarrow> Disk \<Rightarrow> bool" where
  "staging tmp name d d' \<longleftrightarrow> (\<exists>ts. dk_Past d' = dk_Past d @ ts
     \<and> (\<forall>t \<in> set (ts @ [dk_Tree d']). \<forall>q. \<not> zone tmp name q \<longrightarrow> content_at t q = content_at (dk_Tree d) q))"

definition mine :: "string \<Rightarrow> Disk \<Rightarrow> bool" where
  "mine tmp d \<longleftrightarrow> wf_tree (dk_Tree d) \<and> rigid [tmp] (dk_Tree d)"

interpretation sp: io_relation "mine tmp" "staging tmp name" for tmp name
proof
  fix a b c
  assume "staging tmp name a b" "staging tmp name b c"
  then obtain ts us where "dk_Past b = dk_Past a @ ts" "\<forall>t \<in> set (ts @ [dk_Tree b]). \<forall>q. \<not> zone tmp name q \<longrightarrow> content_at t q = content_at (dk_Tree a) q"
      "dk_Past c = dk_Past b @ us" "\<forall>t \<in> set (us @ [dk_Tree c]). \<forall>q. \<not> zone tmp name q \<longrightarrow> content_at t q = content_at (dk_Tree b) q"
    by (auto simp: staging_def)
  then show "staging tmp name a c"
    unfolding staging_def by (intro exI [of _ "ts @ us"]) auto
qed (simp_all add: staging_def mine_def still_def idle_def)

abbreviation stays :: "string \<Rightarrow> string \<Rightarrow> 'a io \<Rightarrow> bool" where
  "stays tmp name \<equiv> upholds (mine tmp) (staging tmp name)"

named_theorems stays_rules

lemmas stays_reads = sp.keeps_reads [OF reads_calls(1)] sp.keeps_reads [OF reads_calls(2)] sp.keeps_reads [OF reads_calls(3)]
  sp.keeps_reads [OF reads_calls(4)] sp.keeps_reads [OF reads_calls(5)] sp.keeps_reads [OF reads_calls(6)]
  sp.keeps_reads [OF reads_calls(7)] reads_lookups [THEN sp.keeps_reads] reads_need [THEN sp.keeps_reads] reads_checks [THEN sp.keeps_reads]
  reads_validation [THEN sp.keeps_reads] reads_progress [THEN sp.keeps_reads] still_request [THEN sp.keeps_still]

declare stays_reads [stays_rules] sp.keeps_then [stays_rules] sp.keeps_wrapped [stays_rules] sp.keeps_if [stays_rules]

lemma rigid_iff: "rigid p t \<longleftrightarrow> list_all plain_component p \<and> (\<forall>k < length p. content_at t (take (Suc k) p) = Some Directory)
    \<and> (\<forall>r link. content_at t (p @ r) \<noteq> Some (Symlink link))"
proof -
  have "dir_at t q \<longleftrightarrow> content_at t q = Some Directory" for q
    by (cases "map_of t q") (auto simp: dir_at_def content_at_def is_dir_def)
  moreover have "link_at t q \<longleftrightarrow> (\<exists>link. content_at t q = Some (Symlink link))" for q
    by (cases "map_of t q") (auto simp: link_at_def content_at_def is_symlink_def split: content.splits)
  ultimately show ?thesis by (auto simp: rigid_def real_dirs_def)
qed

lemma stays_modes:
  assumes "keeps_modes m" and "keeps_wf m"
  shows "stays tmp name m"
proof (rule upholdsI)
  fix d d' x
  assume "mine tmp d" and m: "m d = Some (d', x)"
  then have d: "wf_tree (dk_Tree d)" "rigid [tmp] (dk_Tree d)" by (simp_all add: mine_def)
  have mo: "modes_only d d'" using upholdsD [OF assms(1) TrueI m] by simp
  then have same: "content_at (dk_Tree d') q = content_at (dk_Tree d) q" for q
    by (intro remoded_content) (auto simp: modes_only_def)
  have "wf_tree (dk_Tree d')" using upholdsD [OF assms(2) _ m] d(1) by simp
  moreover have "rigid [tmp] (dk_Tree d')" using d(2) by (simp add: rigid_iff same)
  moreover have "staging tmp name d d'" using mo remoded_content by (fastforce simp: modes_only_def staging_def)
  ultimately show "mine tmp d' \<and> staging tmp name d d'" by (simp add: mine_def)
qed

text \<open>A change of one entry of the zone to something that is no link.\<close>

lemma staging_turn:
  assumes "mine tmp d" and "still d d1" and "wf_tree t" and "zone tmp name q"
    and "\<And>r. r \<noteq> q \<Longrightarrow> map_of t r = map_of (dk_Tree d) r" and "\<not> link_at t q"
    and "dir_at (dk_Tree d) q \<Longrightarrow> dir_at t q"
  shows "mine tmp (turn t d1) \<and> staging tmp name d (turn t d1)"
proof -
  have same: "content_at t r = content_at (dk_Tree d) r" if "r \<noteq> q" for r using assms(5) [OF that] by (simp add: content_at_def)
  have own: "dir_at (dk_Tree d) [tmp]" "\<And>r. \<not> link_at (dk_Tree d) (tmp # r)"
    using assms(1) by (simp_all add: mine_def rigid_def real_dirs_def)
  have "dir_at t [tmp]"
  proof (cases "q = [tmp]")
    case False
    then show ?thesis using own(1) assms(5) [of "[tmp]"] by (simp add: dir_at_def)
  qed (use own(1) assms(7) in simp)
  moreover have "\<not> link_at t (tmp # r)" for r
  proof (cases "q = tmp # r")
    case False
    then show ?thesis using own(2) [of r] assms(5) [of "tmp # r"] by (simp add: link_at_def)
  qed (use assms(6) in simp)
  ultimately have "rigid [tmp] t" using assms(1) by (simp add: mine_def rigid_def real_dirs_def)
  moreover have "content_at t r = content_at (dk_Tree d) r" if "\<not> zone tmp name r" for r
    by (rule same) (use that assms(4) in metis)
  then have "staging tmp name d (turn t d1)"
    unfolding staging_def by (intro exI [of _ "[dk_Tree d]"]) (use assms(2) in \<open>simp add: still_def\<close>)
  ultimately show ?thesis using assms(3) by (simp add: mine_def)
qed

definition inside :: "string \<Rightarrow> string \<Rightarrow> string \<Rightarrow> bool" where
  "inside tmp name p \<longleftrightarrow> (\<exists>cs. comps p = tmp # cs \<and> ''..'' \<notin> set cs) \<or> comps p = [name] \<and> plain_component name"

lemma inside_place:
  assumes "mine tmp d" and "inside tmp name p" and "place (dk_Tree d) False p = Inr q"
  shows "zone tmp name q"
  using assms(2) unfolding inside_def
proof
  assume "\<exists>cs. comps p = tmp # cs \<and> ''..'' \<notin> set cs"
  then obtain cs where "comps p = [tmp] @ cs" "''..'' \<notin> set cs" by auto
  with rigid_place [OF _ this assms(3), of] assms(1) show ?thesis by (simp add: mine_def zone_def starts_def)
next
  assume "comps p = [name] \<and> plain_component name"
  with place_last [of "dk_Tree d" "[]" name p q] assms(3) show ?thesis by (simp add: real_dirs_def zone_def)
qed

lemma stays_insert:
  assumes "inside tmp name p" and "c = Directory \<or> c = Regular []"
  shows "stays tmp name (alter (insert_new c perm p))"
proof (rule upholdsI)
  fix d d' x
  assume mine: "mine tmp d" and "alter (insert_new c perm p) d = Some (d', x)"
  from altered [OF this(2)] show "mine tmp d' \<and> staging tmp name d d'"
  proof
    assume "still d d'"
    then show ?thesis using sp.quiet mine by blast
  next
    assume "\<exists>d1 t. still d d1 \<and> dk_Umask d1 = dk_Umask d \<and> dk_Gid d1 = dk_Gid d \<and> insert_new c perm p d1 = Inr t \<and> d' = turn t d1 \<and> x = Inr ()"
    then obtain d1 t where d1: "still d d1" "insert_new c perm p d1 = Inr t" "d' = turn t d1" by blast
    from inserted [OF d1(2)] obtain q parent where q: "place (dk_Tree d) False p = Inr q" "map_of (dk_Tree d) q = None"
        "t = AList.update q (new_inode d1 parent c perm) (dk_Tree d)" using d1(1) by (metis still_def)
    have wf: "wf_tree t" using wf_inserted [OF _ d1(2)] mine d1(1) by (simp add: mine_def still_def)
    from staging_turn [OF mine d1(1) wf inside_place [OF mine assms(1) q(1)]] q assms(2) d1(3)
    show ?thesis by (auto simp: link_at_def is_symlink_def update_conv new_inode_def dir_at_def)
  qed
qed

lemma stays_create:
  assumes "inside tmp name p"
  shows "stays tmp name (Create_io p perm)" and "stays tmp name (Mkdir_io p perm)" and "stays tmp name (Mkdir_exist p perm)"
proof -
  show "stays tmp name (Create_io p perm)"
    unfolding Create_io_def by (rule sp.keeps_then [OF stays_insert [OF assms] sp.keeps_reads]) (simp_all add: upholds_def idle_def still_def)
  show m: "stays tmp name (Mkdir_io p perm)"
    unfolding Mkdir_io_def by (rule stays_insert [OF assms]) simp
  show "stays tmp name (Mkdir_exist p perm)"
  proof (rule upholdsI)
    fix d d' x
    assume d: "mine tmp d" and "Mkdir_exist p perm d = Some (d', x)"
    moreover obtain y where "Mkdir_io p perm d = Some (d', y)"
      using calculation(2) by (auto simp: Mkdir_exist_def split: option.splits prod.splits sum.splits if_splits)
    ultimately show "mine tmp d' \<and> staging tmp name d d'" using upholdsD [OF m] by blast
  qed
qed

lemma stays_write: "stays tmp name (write_io (tmp # r) b)"
proof (rule upholdsI)
  fix d d' x
  assume mine: "mine tmp d" and "write_io (tmp # r) b d = Some (d', x)"
  then obtain xs c where d': "d' = turn (set_inode (tmp # r) (append_body c) (dk_Tree d)) (d\<lparr>dk_Faults := xs\<rparr>) \<or> d' = turn (set_inode (tmp # r) (append_body c) (dk_Tree d)) d"
    by (auto simp: write_io_def split: list.splits option.splits)
  let ?t = "set_inode (tmp # r) (append_body c) (dk_Tree d)"
  have wf: "wf_tree ?t" using mine by (intro wf_set_inode append_body_dir) (simp add: mine_def)
  have "\<not> link_at (dk_Tree d) (tmp # r)" using mine by (simp add: mine_def rigid_def)
  then have link: "\<not> link_at ?t (tmp # r)"
    by (auto simp: link_at_def is_symlink_def map_of_set_inode append_body_def split: option.splits content.splits)
  have dir: "dir_at (dk_Tree d) (tmp # r) \<Longrightarrow> dir_at ?t (tmp # r)"
    by (auto simp: dir_at_def map_of_set_inode append_body_dir split: option.splits)
  have "mine tmp (turn ?t d1) \<and> staging tmp name d (turn ?t d1)" if "still d d1" for d1
    by (rule staging_turn [OF mine that wf, of _ "tmp # r"]) (use link dir in \<open>auto simp: zone_def starts_def map_of_set_inode\<close>)
  with d' show "mine tmp d' \<and> staging tmp name d d'" by (auto simp: still_def)
qed

lemma stays_parents_walk:
  assumes "list_all plain_component cs" and "list_all plain_component parts" and "cs @ parts = [] \<or> hd (cs @ parts) = tmp"
  shows "stays tmp name (parents_walk gid (join_with slash cs) parts)"
  using assms
proof (induction parts arbitrary: cs)
  case Nil
  show ?case by (simp add: sp.keeps_reads reads_calls)
next
  case (Cons part parts)
  have part: "plain_component part" "part \<noteq> ''.''" using Cons.prems(2) by (simp_all add: plain_component_def)
  have join: "Join (join_with slash cs) part = join_with slash (cs @ [part])" using Join_join [OF Cons.prems(1) part(1)] .
  have "comps (join_with slash (cs @ [part])) = cs @ [part]" using Cons.prems(1) part by (intro comps_join) simp_all
  moreover have "''..'' \<notin> set (cs @ [part])" using Cons.prems(1) part by (auto simp: list_all_iff plain_component_def)
  moreover obtain l where "cs @ [part] = tmp # l" using Cons.prems(3) by (cases cs) auto
  ultimately have "inside tmp name (join_with slash (cs @ [part]))" by (auto simp: inside_def)
  note mk = stays_create(3) [OF this]
  have ih: "stays tmp name (parents_walk gid (join_with slash (cs @ [part])) parts)"
    by (rule Cons.IH) (use Cons.prems part in simp_all)
  show ?case
    using part by (simp add: join Let_def) (intro sp.keeps_then sp.keeps_reads [OF reads_checks(2)] mk ih)
qed

lemma stays_rootParents:
  assumes "list_all plain_component (tmp # cs)" and "slash \<notin> set c"
  shows "stays tmp name (rootParents (join_with slash (tmp # cs) @ slash # c))"
proof -
  have "split_on slash (Dir (join_with slash (tmp # cs) @ slash # c)) = tmp # cs"
    using Dir_join [OF assms(1) _ assms(2)] comps_join [OF assms(1)] by (simp add: comps_def)
  moreover have "stays tmp name (parents_walk gid [] (tmp # cs))" for gid
    using stays_parents_walk [of "[]" "tmp # cs" tmp name] assms(1) by (simp del: parents_walk.simps)
  ultimately show ?thesis
    unfolding rootParents_def by (simp only:) (intro sp.keeps_then sp.keeps_reads [OF reads_checks(1)])
qed

text \<open>Paths below the snapshot of the private directory.\<close>

definition snapshot_of :: "string \<Rightarrow> string" where
  "snapshot_of tmp = tmp @ ''/snapshot''"

lemma snapshot_comps:
  assumes "plain_component tmp"
  shows "comps (snapshot_of tmp) = [tmp, ''snapshot'']" and "comps (snapshot_of tmp @ slash # p) = tmp # ''snapshot'' # comps p"
proof -
  have s: "snapshot_of tmp = tmp @ slash # ''snapshot''" by (simp add: snapshot_of_def)
  have c: "comps tmp = [tmp]" "comps ''snapshot'' = [''snapshot'']" using assms by (simp_all add: comps_plain plain_component_def)
  show "comps (snapshot_of tmp) = [tmp, ''snapshot'']" "comps (snapshot_of tmp @ slash # p) = tmp # ''snapshot'' # comps p"
    using c comps_append [of tmp "''snapshot''"] comps_append [of "tmp @ slash # ''snapshot''" p] by (simp_all add: s)
qed

lemma safe_no_climb: "safeRelative p \<Longrightarrow> ''..'' \<notin> set (comps p)"
  using safe_components [of p] by (auto simp: list_all_iff plain_component_def comps_def)

lemma inside_snapshot:
  assumes "plain_component tmp" and "safeRelative p \<or> p = receipt_name"
  shows "inside tmp name (snapshot_of tmp @ slash # p)"
proof -
  have "''..'' \<notin> set (comps p)" using assms(2) safe_no_climb by (auto simp: receipt_name_def comps_def)
  then show ?thesis by (simp add: inside_def snapshot_comps [OF assms(1)])
qed

lemma stays_file_parents:
  assumes "plain_component tmp" and "safeRelative p"
  shows "stays tmp name (rootParents (snapshot_of tmp @ slash # p))"
proof (cases "p = ''.''")
  case True
  then have "snapshot_of tmp @ slash # p = join_with slash [tmp, ''snapshot''] @ slash # ''.''" by (simp add: snapshot_of_def)
  with stays_rootParents [of tmp "[''snapshot'']" "''.''"] assms(1) show ?thesis by (simp add: plain_component_def)
next
  case False
  then have plain: "list_all plain_component (comps p)" using safe_components assms(2) by blast
  obtain ds c where dc: "comps p = ds @ [c]" by (metis append_butlast_last_id split_on_nonempty comps_def)
  have "p = join_with slash (ds @ [c])" using dc by (metis comps_def join_split)
  then have "snapshot_of tmp @ slash # p = join_with slash (tmp # ''snapshot'' # ds) @ slash # c"
    by (cases "ds = []") (simp_all add: snapshot_of_def join_snoc join_Cons)
  with stays_rootParents [of tmp "''snapshot'' # ds" c] assms(1) plain dc show ?thesis by (simp add: plain_component_def)
qed

lemma create_handle:
  assumes "mine tmp d" and "inside tmp name p" and "comps p \<noteq> [name]" and "Create_io p perm d = Some (d', Inr h)"
  obtains r where "h = tmp # r"
proof -
  have m: "mine tmp d'" using upholdsD [OF stays_create(1) [OF assms(2)] assms(1,4)] by blast
  from assms(4) have pl: "place (dk_Tree d') False p = Inr h" by (auto simp: Create_io_def)
  obtain cs where "comps p = [tmp] @ cs" "''..'' \<notin> set cs" using assms(2,3) by (auto simp: inside_def)
  with rigid_place [OF _ this pl] m that show thesis by (auto simp: mine_def)
qed

lemma create_file_Inr: "create_file p d = Some (d', Inr h) \<Longrightarrow> \<exists>d1. Create_io p 416 d = Some (d1, Inr h)"
proof -
  assume "create_file p d = Some (d', Inr h)"
  then obtain d1 g d3 and own up :: "err + Inode" where c: "Create_io p 416 d = Some (d1, Inr g)" and r: "(case (own, up) of
      (Inr i, Inr r) \<Rightarrow> if in_Gid i \<noteq> in_Gid r then fail_io (Plain msg_group_inherit) else give_io g
    | _ \<Rightarrow> fail_io (Plain msg_reader_group)) d3 = Some (d', Inr h)"
    unfolding create_file_def then_io_Inr by blast
  have "g = h" using r by (cases own; cases up) (auto split: if_splits)
  with c show ?thesis by blast
qed

lemma stays_receive: "stays tmp name (receive_body sg f copied (tmp # r) rp)"
proof -
  have "stays tmp name (copy_chunks sg (tmp # r) p acc cs)" for p acc cs
    by (induction cs arbitrary: p acc) (auto intro!: stays_rules stays_write)
  then have "stays tmp name (copy_body sg (tmp # r) p limit rp)" for p limit
    unfolding copy_body_def by (intro stays_rules) (auto intro!: stays_rules split: option.split)
  then show ?thesis
    unfolding receive_body_def
    by (intro stays_rules) (auto intro!: stays_rules split: prod.split sum.split)
qed

lemma stays_stage_file:
  assumes "plain_component tmp" and "safeRelative (fl_Path f)"
  shows "stays tmp name (stage_file sg (snapshot_of tmp) m copied f)"
proof -
  let ?rel = "snapshot_of tmp @ slash # fl_Path f"
  have ins: "inside tmp name ?rel" using inside_snapshot assms by blast
  have cr: "stays tmp name (create_file ?rel)"
    unfolding create_file_def
    by (intro stays_rules stays_create [OF ins]) (auto intro!: stays_rules split: prod.split sum.split)
  have handle: "\<exists>r. h = tmp # r" if "mine tmp d" "create_file ?rel d = Some (d', Inr h)" for d d' h
    using create_file_Inr [OF that(2)] create_handle [OF that(1) ins] snapshot_comps [OF assms(1)] by (metis list.distinct(1) list.inject)
  have rest: "stays tmp name (then_io (create_file ?rel) k)" if "\<And>r. stays tmp name (k (tmp # r))" for k :: "string list \<Rightarrow> 'b io"
    by (rule sp.keeps_then_result [OF cr, where P = "\<lambda>h. \<exists>r. h = tmp # r"]) (use handle that in blast)+
  show ?thesis
    unfolding stage_file_def Let_def
    by (intro rest stays_file_parents [OF assms] stays_receive stays_rules)
qed

lemma stays_stage_files:
  assumes "plain_component tmp" and "list_all (\<lambda>f. safeRelative (fl_Path f)) fs"
  shows "stays tmp name (stage_files sg (snapshot_of tmp) m copied fs)"
  using assms(2)
proof (induction fs arbitrary: copied)
  case Nil
  show ?case by (simp add: sp.keeps_reads reads_calls)
next
  case (Cons f fs)
  then have "stays tmp name (stage_file sg (snapshot_of tmp) m copied f)" using stays_stage_file [OF assms(1)] by simp
  with Cons show ?case by (auto intro!: stays_rules split: prod.split)
qed

lemma stays_receipt:
  assumes "plain_component tmp"
  shows "stays tmp name (write_receipt sg (snapshot_of tmp) m arts)"
proof -
  let ?p = "snapshot_of tmp @ slash # receipt_name"
  have ins: "inside tmp name ?p" using inside_snapshot assms by blast
  have "\<exists>r. h = tmp # r" if "mine tmp d" "Create_io ?p readerFileMode d = Some (d', Inr h)" for d d' h
    using create_handle [OF that(1) ins _ that(2)] snapshot_comps [OF assms] by (metis list.distinct(1) list.inject)
  then have rest: "stays tmp name (then_io (Create_io ?p readerFileMode) k)" if "\<And>r. stays tmp name (k (tmp # r))" for k :: "string list \<Rightarrow> unit io"
    by (intro sp.keeps_then_result [OF stays_create(1) [OF ins], where P = "\<lambda>h. \<exists>r. h = tmp # r"]) (use that in blast)+
  show ?thesis
    unfolding write_receipt_def Let_def
    by (intro rest stays_write stays_rules)
qed

lemma prefix_parts:
  assumes "modelPrefix m = Inr p"
  shows "p = md_ID m @ slash # md_Revision m" and "plain_component (md_ID m)" and "plain_component (md_Revision m)"
    and "comps p = [md_ID m, md_Revision m]" and "Dir p = md_ID m" and "\<not> HasPrefix (md_ID m) ''.partial-''"
proof -
  from assms obtain c cs where p: "p = md_ID m @ slash # md_Revision m" and name: "md_ID m = c # cs" "is_alnum c" "list_all model_id_char cs"
      and revision: "length (md_Revision m) = 40" "list_all is_hex (md_Revision m)"
    by (cases "md_ID m") (auto simp: modelPrefix_def split: if_splits)
  have "\<not> is_alnum slash" "\<not> is_alnum (CHR ''.'')" "\<not> is_hex slash" by (simp_all add: char_classes)
  then have chars: "is_alnum x \<Longrightarrow> x \<noteq> slash \<and> x \<noteq> CHR ''.''" "is_hex x \<Longrightarrow> x \<noteq> slash" for x by blast+
  have "model_id_char x \<Longrightarrow> x \<noteq> slash" for x using chars(1) by (auto simp: model_id_char_def)
  then have "slash \<notin> set cs" "c \<noteq> slash" "c \<noteq> CHR ''.''" using name chars(1) by (auto simp: list_all_iff)
  then show name_plain: "plain_component (md_ID m)" and "\<not> HasPrefix (md_ID m) ''.partial-''"
    using name(1) by (auto simp: plain_component_def HasPrefix_def)
  show rev_plain: "plain_component (md_Revision m)" using revision chars(2) by (cases "md_Revision m") (auto simp: plain_component_def list_all_iff)
  show "p = md_ID m @ slash # md_Revision m" by (rule p)
  show "comps p = [md_ID m, md_Revision m]"
    using name_plain rev_plain by (simp add: p comps_append comps_plain plain_component_def)
  show "Dir p = md_ID m" using Dir_join [of "[md_ID m]" "md_Revision m"] name_plain rev_plain by (simp add: p plain_component_def)
qed

lemma stays_prefix_parents:
  assumes "modelPrefix m = Inr p"
  shows "stays tmp (md_ID m) (rootParents p)"
proof -
  have s: "split_on slash (Dir p) = [md_ID m]" using prefix_parts(2,5) [OF assms] by (simp add: split_word plain_component_def)
  have j: "Join [] (md_ID m) = md_ID m" "md_ID m \<noteq> ''.''"
    using Join_join [of "[]" "md_ID m"] prefix_parts(2) [OF assms] by (simp_all add: plain_component_def)
  have "inside tmp (md_ID m) (md_ID m)" using prefix_parts(2) [OF assms] by (simp add: inside_def comps_plain plain_component_def)
  from stays_create(3) [OF this] show ?thesis
    unfolding rootParents_def s
    by (simp add: j Let_def) (intro stays_rules)
qed

lemma stays_prepare:
  assumes "modelPrefix m = Inr p"
  shows "stays tmp (md_ID m) (prepare_publication sg p tmp m)"
  unfolding prepare_publication_def Let_def
  by (intro stays_prefix_parents [OF assms] stays_modes [OF modes_permissions(1) wf_permissions(1)]
    stays_modes [OF modes_permissions(2) wf_permissions(2)] stays_rules)

section \<open>What validation establishes\<close>

definition root_gid :: "tree \<Rightarrow> 32 word" where
  "root_gid t = (case map_of t [] of None \<Rightarrow> 0 | Some i \<Rightarrow> in_Gid i)"

definition file_body :: "tree \<Rightarrow> string list \<Rightarrow> string" where
  "file_body t q = (case map_of t q of None \<Rightarrow> [] | Some i \<Rightarrow> body i)"

definition reviewed_file :: "Stager \<Rightarrow> CatalogFile \<Rightarrow> Inode \<Rightarrow> bool" where
  "reviewed_file sg f i \<longleftrightarrow> is_regular i \<and> int (length (body i)) = fl_Size f
     \<and> (case hashFor sg f of Inl _ \<Rightarrow> False | Inr hash \<Rightarrow> hash (body i) = fl_Digest f)"

definition allowed :: "CatalogModel \<Rightarrow> string list \<Rightarrow> Inode \<Rightarrow> bool" where
  "allowed m r i \<longleftrightarrow> is_regular i \<and> join_with slash r \<in> set (receipt_name # map fl_Path (md_Files m))
     \<or> is_dir i \<and> (r = [] \<or> (\<exists>f \<in> set (md_Files m). starts r (comps (fl_Path f)) \<and> r \<noteq> comps (fl_Path f)))"

text \<open>
  A complete snapshot at \<open>b\<close>: every file of the manifest with its reviewed size and digest, a receipt that matches
  them, and nothing but these files and their directories, all of the reader group and, if asked for, with reader modes.
\<close>

definition verified_artifacts :: "Stager \<Rightarrow> CatalogModel \<Rightarrow> tree \<Rightarrow> string list \<Rightarrow> Artifact list" where
  "verified_artifacts sg m t b = map (\<lambda>f. artifact_of sg m f verified_qualification (file_body t (b @ comps (fl_Path f)))) (md_Files m)"

definition snapshot_ok :: "bool \<Rightarrow> Stager \<Rightarrow> CatalogModel \<Rightarrow> tree \<Rightarrow> string list \<Rightarrow> bool" where
  "snapshot_ok modes sg m t b \<longleftrightarrow> list_all (\<lambda>f. safeRelative (fl_Path f)) (md_Files m)
     \<and> (\<forall>f \<in> set (md_Files m). \<exists>i. map_of t (b @ comps (fl_Path f)) = Some i \<and> reviewed_file sg f i)
     \<and> (\<exists>i r. map_of t (b @ [receipt_name]) = Some i \<and> is_regular i \<and> sg_Decode sg (limited_body (2 ^ 20) (body i)) = Some r
         \<and> receiptMatches sg r m (verified_artifacts sg m t b))
     \<and> (\<forall>q i. map_of t (b @ q) = Some i \<longrightarrow> allowed m q i \<and> in_Gid i = root_gid t \<and> (modes \<longrightarrow> mode_ok i))"

lemma each_reads:
  assumes "each_io f xs d = Some (d', Inr u)" and "\<And>x. only_reads (f x)" and "x \<in> set xs"
  shows "\<exists>d1 d2. still d d1 \<and> f x d1 = Some (d2, Inr ())"
  using assms(1,3)
proof (induction xs arbitrary: d)
  case (Cons y ys)
  then obtain d1 where d1: "f y d = Some (d1, Inr ())" "each_io f ys d1 = Some (d', Inr u)" by auto
  have s: "still d d1" using reads_tree [OF assms(2) d1(1)] by (simp add: still_def)
  show ?case
  proof (cases "x = y")
    case True
    then show ?thesis using d1(1) by (auto simp: still_def)
  next
    case False
    then show ?thesis using Cons.IH [OF d1(2)] Cons.prems(2) still_trans [OF s] by auto
  qed
qed simp

lemma map_reads:
  assumes "map_io f xs d = Some (d', Inr ys)" and "\<And>x. only_reads (f x)"
  shows "list_all2 (\<lambda>x y. \<exists>d1 d2. still d d1 \<and> f x d1 = Some (d2, Inr y)) xs ys"
  using assms(1)
proof (induction xs arbitrary: d ys)
  case (Cons x xs)
  then obtain d1 y zs where d1: "f x d = Some (d1, Inr y)" "map_io f xs d1 = Some (d', Inr zs)" "ys = y # zs" by auto
  have s: "still d d1" using reads_tree [OF assms(2) d1(1)] by (simp add: still_def)
  have "list_all2 (\<lambda>x y. \<exists>d1 d2. still d d1 \<and> f x d1 = Some (d2, Inr y)) xs zs"
    by (rule list_all2_mono [OF Cons.IH [OF d1(2)]]) (use still_trans [OF s] in blast)
  with d1 show ?case by (auto simp: still_def)
qed simp

lemma found_directory:
  assumes "check_directory b gid p d = Some (d', Inr u) \<or> b \<and> requireReaderDirectory p gid d = Some (d', Inr u)"
  shows "\<exists>q i. place (dk_Tree d) False p = Inr q \<and> map_of (dk_Tree d) q = Some i \<and> is_dir i \<and> in_Gid i = gid \<and> (b \<longrightarrow> reader_directory i)"
proof -
  have "\<exists>d1 i. checkedDirectory p gid d = Some (d1, Inr i) \<and> (b \<longrightarrow> reader_directory i)"
    using assms by (auto simp: check_directory_def requireReaderDirectory_def split: if_splits)
  then show ?thesis using checked_found(1) by metis
qed

lemma found_file:
  assumes "check_file b gid p d = Some (d', Inr u) \<or> b \<and> requireReaderFile p gid d = Some (d', Inr u)"
  shows "\<exists>q i. place (dk_Tree d) False p = Inr q \<and> map_of (dk_Tree d) q = Some i \<and> is_regular i \<and> in_Gid i = gid \<and> (b \<longrightarrow> reader_file i)"
proof -
  have "\<exists>d1 i. checkedRegularFile p gid d = Some (d1, Inr i) \<and> (b \<longrightarrow> reader_file i)"
    using assms by (auto simp: check_file_def requireReaderFile_def split: if_splits)
  then show ?thesis using checked_found(2) by metis
qed

lemma regular_no_link: "is_regular i \<Longrightarrow> \<not> is_symlink i"
  by (auto simp: is_regular_def is_symlink_def split: content.splits)

lemma read_opened:
  assumes "Open_io p d = Some (d1, Inr h)" and "still d0 d" and "place (dk_Tree d0) False p = Inr q" and "map_of (dk_Tree d0) q = Some i"
    and "is_regular i" and "still d1 d2" and "read_io h d2 = Some (d3, Inr b)"
  shows "b = body i"
proof -
  have "h = q" "still d d1" using opened_same [OF _ _ _ assms(1)] assms(2-5) regular_no_link by (auto simp: still_def)
  then show ?thesis
    using observed [OF assms(7) [unfolded read_io_def]] assms(2,4,6) by (auto simp: still_def split: option.splits)
qed

lemma validated_file:
  assumes "validate_file sg snapshot m b gid f d = Some (d', Inr a)" and "fl_Size f < 2 ^ 63 - 1"
  shows "safeRelative (fl_Path f) \<and> (\<exists>q i. place (dk_Tree d) False (snapshot @ slash # fl_Path f) = Inr q \<and> map_of (dk_Tree d) q = Some i
    \<and> reviewed_file sg f i \<and> in_Gid i = gid \<and> (b \<longrightarrow> reader_file i) \<and> a = artifact_of sg m f verified_qualification (body i))"
proof -
  let ?p = "snapshot @ slash # fl_Path f"
  from assms(1) obtain d1 d2 d3 d4 d5 d6 i h hash c where
      safe: "safeRelative (fl_Path f)" and 1: "try_call d = Some (d1, Inr ())"
    and 2: "checkedRegularFile ?p gid d1 = Some (d2, Inr i)" "int (length (body i)) = fl_Size f"
    and 3: "(if b then requireReaderFile ?p gid else give_io ()) d2 = Some (d3, Inr ())"
    and 4: "Open_io ?p d3 = Some (d4, Inr h)" and 5: "need (hashFor sg f) d4 = Some (d5, Inr hash)"
    and 6: "read_io h d5 = Some (d6, Inr c)" "hash (limited_body (i64 (fl_Size f + 1)) c) = fl_Digest f"
    and a: "a = artifact_of sg m f verified_qualification (limited_body (i64 (fl_Size f + 1)) c)"
    by (auto simp: validate_file_def Let_def)
  have s1: "still d d1" using 1 by simp
  have s2: "still d1 d2" using reads_tree [OF reads_checks(3) 2(1)] by (simp add: still_def)
  have s3: "still d2 d3" using 3 reads_tree [OF reads_checks(5)] by (cases b) (auto simp: still_def)
  have hash: "hashFor sg f = Inr hash" "still d4 d5" using 5 by (cases "hashFor sg f"; auto simp: need_def still_def)+
  obtain q where q: "place (dk_Tree d1) False ?p = Inr q" "map_of (dk_Tree d1) q = Some i" "is_regular i" "in_Gid i = gid"
    using checked_found(2) [OF 2(1)] by blast
  have c: "c = body i" by (rule read_opened [OF 4 still_trans [OF s2 s3] q(1,2,3) hash(2) 6(1)])
  have modes: "b \<longrightarrow> reader_file i"
  proof
    assume b
    with 3 found_file [of b gid ?p d2 d3] obtain q' i' where "place (dk_Tree d2) False ?p = Inr q'" "map_of (dk_Tree d2) q' = Some i'" "reader_file i'"
      by auto
    with q s2 show "reader_file i" by (auto simp: still_def)
  qed
  have "limited_body (i64 (fl_Size f + 1)) (body i) = body i"
    using 2(2) assms(2) i64_id [of "fl_Size f + 1"] by (simp add: limited_body_def in_i64_def)
  with safe q s1 modes hash(1) 6(2) 2(2) a c show ?thesis by (auto simp: still_def reviewed_file_def)
qed

lemma validated_receipt:
  assumes "validate_receipt sg snapshot m b gid arts d = Some (d', Inr u)"
  shows "\<exists>q i r. place (dk_Tree d) False (snapshot @ slash # receipt_name) = Inr q \<and> map_of (dk_Tree d) q = Some i
    \<and> is_regular i \<and> in_Gid i = gid \<and> (b \<longrightarrow> reader_file i) \<and> sg_Decode sg (limited_body (2 ^ 20) (body i)) = Some r
    \<and> receiptMatches sg r m arts"
proof -
  let ?p = "snapshot @ slash # receipt_name"
  from assms obtain d1 d2 d3 h c r where 1: "check_file b gid ?p d = Some (d1, Inr ())" and 2: "Open_io ?p d1 = Some (d2, Inr h)"
    and 3: "read_io h d2 = Some (d3, Inr c)" "sg_Decode sg (limited_body (2 ^ 20) c) = Some r" "receiptMatches sg r m arts"
    by (auto simp: validate_receipt_def Let_def split: option.splits)
  obtain q i where q: "place (dk_Tree d) False ?p = Inr q" "map_of (dk_Tree d) q = Some i" "is_regular i" "in_Gid i = gid" "b \<longrightarrow> reader_file i"
    using found_file [of b gid ?p d d1] 1 by blast
  have s1: "still d d1" using reads_tree [OF reads_checks(7) 1] by (simp add: still_def)
  have "c = body i" using read_opened [OF 2 s1 q(1-3) _ 3(1)] by (simp add: still_def)
  with q 3 show ?thesis by auto
qed

lemma walked:
  assumes "WalkDir p visit d = Some (d', Inr u)" and "\<And>r i. only_reads (visit r i)"
  shows "\<exists>q. place (dk_Tree d) False p = Inr q
    \<and> (\<forall>r i. map_of (dk_Tree d) (q @ r) = Some i \<longrightarrow> (\<exists>d1 d2. still d d1 \<and> visit (join_with slash r) i d1 = Some (d2, Inr ())))"
proof -
  from assms(1) obtain d1 es where o: "observe (\<lambda>t. case place t False p of Inl e \<Rightarrow> Inl e
       | Inr q \<Rightarrow> (case map_of t q of None \<Rightarrow> Inl ErrNotExist | Some _ \<Rightarrow> Inr (entries_below t q))) d = Some (d1, Inr es)"
      and e: "each_io (visit_entry visit) es d1 = Some (d', Inr u)"
    by (auto simp: WalkDir_def)
  from observed [OF o] obtain q where q: "place (dk_Tree d) False p = Inr q" "es = entries_below (dk_Tree d) q" and s: "still d d1"
    by (auto split: sum.splits option.splits)
  have "\<exists>d1 d2. still d d1 \<and> visit (join_with slash r) i d1 = Some (d2, Inr ())" if "map_of (dk_Tree d) (q @ r) = Some i" for r i
  proof -
    have "(r, i) \<in> set es" using map_of_SomeD [OF that] by (force simp: q(2) entries_below_def)
    moreover have "only_reads (visit_entry visit x)" for x
      unfolding visit_entry_def using assms(2) by (auto intro!: reading_rules split: prod.split)
    ultimately obtain d2 d3 where "still d1 d2" "visit_entry visit (r, i) d2 = Some (d3, Inr ())"
      using each_reads [OF e] by blast
    with still_trans [OF s] show ?thesis by (auto simp: visit_entry_def)
  qed
  with q show ?thesis by blast
qed

lemma reads_visit [reading_rules]: "only_reads (visit_snapshot ds es r i)"
  unfolding visit_snapshot_def by (intro reading_rules)

text \<open>The parts of a successful validation, all of the tree it started from.\<close>

lemma validated_parts:
  assumes "validateSnapshot sg snapshot m b d = Some (d', Inr arts)"
  obtains ds q where "snapshotDirectories m = Some ds"
    and "\<And>dir. dir \<in> set ds \<Longrightarrow> \<exists>q i. place (dk_Tree d) False (joinSnapshot snapshot dir) = Inr q \<and> map_of (dk_Tree d) q = Some i
      \<and> is_dir i \<and> in_Gid i = root_gid (dk_Tree d) \<and> (b \<longrightarrow> reader_directory i)"
    and "list_all2 (\<lambda>f a. \<exists>d1 d2. still d d1 \<and> validate_file sg snapshot m b (root_gid (dk_Tree d)) f d1 = Some (d2, Inr a)) (md_Files m) arts"
    and "\<exists>d1 d2. still d d1 \<and> validate_receipt sg snapshot m b (root_gid (dk_Tree d)) arts d1 = Some (d2, Inr ())"
    and "place (dk_Tree d) False snapshot = Inr q"
    and "\<And>r i. map_of (dk_Tree d) (q @ r) = Some i \<Longrightarrow> \<not> is_symlink i \<and> (is_dir i \<longrightarrow> join_with slash r \<in> set ds)
      \<and> (\<not> is_dir i \<longrightarrow> is_regular i \<and> join_with slash r \<in> set (receipt_name # map fl_Path (md_Files m)))"
proof -
  from assms obtain gid ds d1 d2 d3 d4 d5 where 1: "rootGroup d = Some (d1, Inr gid)" and ds: "snapshotDirectories m = Some ds"
    and 2: "each_io (\<lambda>dir. check_directory b gid (joinSnapshot snapshot dir)) ds d1 = Some (d2, Inr ())"
    and 3: "map_io (validate_file sg snapshot m b gid) (md_Files m) d2 = Some (d3, Inr arts)"
    and 4: "validate_receipt sg snapshot m b gid arts d3 = Some (d4, Inr ())"
    and 5: "WalkDir snapshot (visit_snapshot ds (receipt_name # map fl_Path (md_Files m))) d4 = Some (d5, Inr ())"
    by (auto simp: validateSnapshot_def)
  have s1: "still d d1" using reads_tree [OF reads_checks(1) 1] by (simp add: still_def)
  from 1 obtain i where "stat_root d = Some (d1, Inr i)" "gid = in_Gid i" by (auto simp: rootGroup_def)
  then have gid: "gid = root_gid (dk_Tree d)"
    using observed [of "\<lambda>t. tree_entry t []" d d1 i] by (auto simp: stat_root_def tree_entry_def root_gid_def split: option.splits)
  have s2: "still d d2" using still_trans [OF s1] reads_tree [OF rd.keeps_each [OF reads_checks(6)] 2] by (simp add: still_def)
  have s3: "still d d3" using still_trans [OF s2] reads_tree [OF rd.keeps_map [OF reads_validation(1)] 3] by (simp add: still_def)
  have s4: "still d d4" using still_trans [OF s3] reads_tree [OF reads_validation(2) 4] by (simp add: still_def)
  show thesis
  proof -
    obtain q where q: "place (dk_Tree d4) False snapshot = Inr q"
        "\<And>r i. map_of (dk_Tree d4) (q @ r) = Some i \<Longrightarrow>
           \<exists>d1 d2. still d4 d1 \<and> visit_snapshot ds (receipt_name # map fl_Path (md_Files m)) (join_with slash r) i d1 = Some (d2, Inr ())"
      using walked [OF 5 reads_visit] by blast
    have dirs: "\<exists>q i. place (dk_Tree d) False (joinSnapshot snapshot dir) = Inr q \<and> map_of (dk_Tree d) q = Some i
      \<and> is_dir i \<and> in_Gid i = root_gid (dk_Tree d) \<and> (b \<longrightarrow> reader_directory i)" if mem: "dir \<in> set ds" for dir
    proof -
      obtain a1 a2 where "still d1 a1" "check_directory b gid (joinSnapshot snapshot dir) a1 = Some (a2, Inr ())"
        using each_reads [OF 2 reads_checks(6) mem] by blast
      with found_directory [of b gid _ a1 a2] s1 gid show ?thesis by (auto simp: still_def)
    qed
    have files: "list_all2 (\<lambda>f a. \<exists>d1 d2. still d d1 \<and> validate_file sg snapshot m b (root_gid (dk_Tree d)) f d1 = Some (d2, Inr a)) (md_Files m) arts"
      by (rule list_all2_mono [OF map_reads [OF 3 reads_validation(1)]]) (use still_trans [OF s2] gid in blast)
    have walk: "\<not> is_symlink i \<and> (is_dir i \<longrightarrow> join_with slash r \<in> set ds)
      \<and> (\<not> is_dir i \<longrightarrow> is_regular i \<and> join_with slash r \<in> set (receipt_name # map fl_Path (md_Files m)))"
      if "map_of (dk_Tree d) (q @ r) = Some i" for r i
      using q(2) [of r i] that s4
      by (auto simp: still_def visit_snapshot_def containsSnapshotDirectory_def list_ex_iff split: if_splits)
    show thesis
      by (rule that [OF ds dirs files]) (use 4 s3 gid q(1) s4 walk in \<open>auto simp: still_def\<close>)
  qed
qed

lemma directory_shape:
  assumes "snapshotDirectories m = Some ds" and "list_all (\<lambda>f. safeRelative (fl_Path f)) (md_Files m)" and "dir \<in> set ds" and "dir \<noteq> []"
  obtains f k where "f \<in> set (md_Files m)" and "dir = join_with slash (take (Suc k) (comps (fl_Path f)))" and "Suc k < length (comps (fl_Path f))"
    and "list_all plain_component (comps (fl_Path f))"
proof -
  have "ds = sort (remdups ([] # concat (map (ups \<circ> fl_Path) (md_Files m))))" using directories_safe [OF assms(2)] assms(1) by simp
  with assms(3,4) obtain f where f: "f \<in> set (md_Files m)" "dir \<in> set (ups (fl_Path f))" by (auto simp del: remdups.simps)
  then have up: "fl_Path f \<noteq> ''.''" "dir \<in> set (climbs (butlast (comps (fl_Path f))))" by (auto simp: ups_def split: if_splits)
  let ?cs = "comps (fl_Path f)"
  from up(2) obtain n where n: "n < length (butlast ?cs)" "dir = join_with slash (take (length (butlast ?cs) - n) (butlast ?cs))"
    by (auto simp: climbs_def)
  define k where "k = length (butlast ?cs) - n - 1"
  have k: "Suc k = length (butlast ?cs) - n" "Suc k < length ?cs" using n(1) by (auto simp: k_def)
  then have "take (Suc k) ?cs = take (length (butlast ?cs) - n) (butlast ?cs)" by (simp add: take_butlast)
  moreover have "list_all plain_component ?cs" using safe_components up(1) assms(2) f(1) by (auto simp: list_all_iff)
  ultimately show thesis using that f(1) n(2) k by metis
qed

definition small_files :: "CatalogModel \<Rightarrow> bool" where
  "small_files m \<longleftrightarrow> list_all (\<lambda>f. fl_Size f < 2 ^ 63 - 1) (md_Files m)"

lemma rigid_base: "rigid b t \<Longrightarrow> b \<noteq> [] \<Longrightarrow> dir_at t b"
  unfolding rigid_def real_dirs_def by (metis Suc_pred length_greater_0_conv lessI take_all_iff order_refl)

lemma not_both: "is_dir i \<Longrightarrow> is_regular i \<Longrightarrow> False"
  by (simp add: is_dir_def is_regular_def)

lemma mode_ok_dir: "is_dir i \<Longrightarrow> mode_ok i \<longleftrightarrow> reader_directory i"
  using not_both by (auto simp: mode_ok_def)

lemma mode_ok_file: "is_regular i \<Longrightarrow> mode_ok i \<longleftrightarrow> reader_file i"
  using not_both by (auto simp: mode_ok_def)

lemma receipt_comps: "comps receipt_name = [receipt_name]" "plain_component receipt_name"
  by (simp_all add: receipt_name_def comps_def plain_component_def)

lemma join_comps: "join_with slash r = p \<Longrightarrow> list_all plain_component r \<Longrightarrow> r \<noteq> [] \<Longrightarrow> r = comps p"
  using comps_join by auto

text \<open>One file of a validated snapshot is at the place its path spells.\<close>

lemma validated_place:
  assumes "rigid b t" and "b \<noteq> []" and "comps snapshot = b" and "safeRelative p" and "place t False (snapshot @ slash # p) = Inr q"
    and "map_of t q = Some i" and "is_regular i"
  shows "q = b @ comps p" and "list_all plain_component (comps p)"
proof -
  have q: "q = b @ filter ordinary (comps p)"
    using rigid_place [OF assms(1) _ safe_no_climb [OF assms(4)] assms(5)] assms(3) by (simp add: comps_append)
  have "p \<noteq> ''.''"
  proof
    assume "p = ''.''"
    then have "q = b" using q by (simp add: comps_def ordinary_def)
    with rigid_base [OF assms(1,2)] assms(6,7) not_both show False by (auto simp: dir_at_def)
  qed
  then show "list_all plain_component (comps p)" using safe_components [OF assms(4)] by simp
  with q show "q = b @ comps p" by (simp add: filter_ordinary)
qed

lemma file_validated:
  assumes "validate_file sg snapshot m modes gid f d = Some (d', Inr a)" and "small_files m" and "f \<in> set (md_Files m)"
    and rig: "rigid b (dk_Tree d)" "b \<noteq> []" "comps snapshot = b"
  shows "safeRelative (fl_Path f) \<and> (\<exists>i. map_of (dk_Tree d) (b @ comps (fl_Path f)) = Some i \<and> reviewed_file sg f i \<and> in_Gid i = gid
    \<and> (modes \<longrightarrow> reader_file i) \<and> a = artifact_of sg m f verified_qualification (file_body (dk_Tree d) (b @ comps (fl_Path f))))"
proof -
  have size: "fl_Size f < 2 ^ 63 - 1" using assms(2,3) by (simp add: small_files_def list_all_iff)
  obtain p i where p: "safeRelative (fl_Path f)" "place (dk_Tree d) False (snapshot @ slash # fl_Path f) = Inr p" "map_of (dk_Tree d) p = Some i"
      "reviewed_file sg f i" "in_Gid i = gid" "modes \<longrightarrow> reader_file i" "a = artifact_of sg m f verified_qualification (body i)"
    using validated_file [OF assms(1) size] by blast
  have "is_regular i" using p(4) by (simp add: reviewed_file_def)
  from validated_place(1) [OF rig p(1-3) this] p show ?thesis by (auto simp: file_body_def)
qed

lemma directory_place:
  assumes "rigid b t" and "comps snapshot = b" and plain: "list_all plain_component r"
    and "place t False (joinSnapshot snapshot (join_with slash r)) = Inr p"
  shows "p = b @ r"
proof (cases "r = []")
  case True
  with rigid_place [OF assms(1) _ _ assms(4), of "[]"] assms(2) show ?thesis by (simp add: joinSnapshot_def)
next
  case False
  have "comps (joinSnapshot snapshot (join_with slash r)) = b @ r"
    using relative_join(2) [OF plain False] comps_join [OF plain False] assms(2) by (simp add: joinSnapshot_def comps_append)
  moreover have "''..'' \<notin> set r" using plain by (auto simp: list_all_iff plain_component_def)
  ultimately show ?thesis using rigid_place [OF assms(1) _ _ assms(4)] filter_ordinary [OF plain] by simp
qed

lemma directory_allowed:
  assumes ds: "snapshotDirectories m = Some ds" and safe: "list_all (\<lambda>f. safeRelative (fl_Path f)) (md_Files m)"
    and mem: "join_with slash r \<in> set ds" and plain: "list_all plain_component r" and "is_dir i"
  shows "allowed m r i"
proof (cases "r = []")
  case False
  have "join_with slash r \<noteq> []" using relative_join(2) [OF plain False] .
  from directory_shape [OF ds safe mem this] obtain f k where f: "f \<in> set (md_Files m)"
      "join_with slash r = join_with slash (take (Suc k) (comps (fl_Path f)))" "Suc k < length (comps (fl_Path f))"
      "list_all plain_component (comps (fl_Path f))" by metis
  have c1: "comps (join_with slash r) = r" by (rule comps_join [OF plain False])
  have c2: "comps (join_with slash (take (Suc k) (comps (fl_Path f)))) = take (Suc k) (comps (fl_Path f))"
    using f(3,4) by (intro comps_join) (auto simp: list_all_iff dest: in_set_takeD)
  have r: "r = take (Suc k) (comps (fl_Path f))" by (rule trans [OF c1 [symmetric, unfolded f(2)] c2])
  have "starts (take (Suc k) (comps (fl_Path f))) (comps (fl_Path f))" using f(3) by (simp add: starts_def)
  moreover have "length (take (Suc k) (comps (fl_Path f))) \<noteq> length (comps (fl_Path f))" using f(3) by simp
  ultimately have "starts r (comps (fl_Path f)) \<and> r \<noteq> comps (fl_Path f)" unfolding r by metis
  with f(1) assms(5) show ?thesis by (auto simp: allowed_def)
qed (simp add: allowed_def assms(5))

lemma snapshot_validated:
  assumes v: "validateSnapshot sg snapshot m modes d = Some (d', Inr arts)" and small: "small_files m"
    and wf: "wf_tree (dk_Tree d)" and rig: "rigid b (dk_Tree d)" "b \<noteq> []" "comps snapshot = b"
  shows "snapshot_ok modes sg m (dk_Tree d) b \<and> arts = verified_artifacts sg m (dk_Tree d) b"
proof (rule validated_parts [OF v])
  let ?t = "dk_Tree d"
  fix ds q
  assume ds: "snapshotDirectories m = Some ds"
    and dirs: "\<And>dir. dir \<in> set ds \<Longrightarrow> \<exists>q i. place ?t False (joinSnapshot snapshot dir) = Inr q \<and> map_of ?t q = Some i
      \<and> is_dir i \<and> in_Gid i = root_gid ?t \<and> (modes \<longrightarrow> reader_directory i)"
    and files: "list_all2 (\<lambda>f a. \<exists>d1 d2. still d d1 \<and> validate_file sg snapshot m modes (root_gid ?t) f d1 = Some (d2, Inr a)) (md_Files m) arts"
    and rec: "\<exists>d1 d2. still d d1 \<and> validate_receipt sg snapshot m modes (root_gid ?t) arts d1 = Some (d2, Inr ())"
    and pl: "place ?t False snapshot = Inr q"
    and walk: "\<And>r i. map_of ?t (q @ r) = Some i \<Longrightarrow> \<not> is_symlink i \<and> (is_dir i \<longrightarrow> join_with slash r \<in> set ds)
      \<and> (\<not> is_dir i \<longrightarrow> is_regular i \<and> join_with slash r \<in> set (receipt_name # map fl_Path (md_Files m)))"
  have q: "q = b" using rigid_place [OF rig(1) _ _ pl, of "[]"] rig(3) by simp
  let ?good = "\<lambda>f a. safeRelative (fl_Path f) \<and> (\<exists>i. map_of ?t (b @ comps (fl_Path f)) = Some i \<and> reviewed_file sg f i \<and> in_Gid i = root_gid ?t
    \<and> (modes \<longrightarrow> reader_file i) \<and> a = artifact_of sg m f verified_qualification (file_body ?t (b @ comps (fl_Path f))))"
  have "?good f a" if fa: "f \<in> set (md_Files m)" "\<exists>d1 d2. still d d1 \<and> validate_file sg snapshot m modes (root_gid ?t) f d1 = Some (d2, Inr a)" for f a
  proof -
    from fa(2) obtain d1 d2 where d1: "dk_Tree d1 = ?t" "validate_file sg snapshot m modes (root_gid ?t) f d1 = Some (d2, Inr a)"
      by (auto simp: still_def)
    show ?thesis using file_validated [OF d1(2) small fa(1)] rig unfolding d1(1) by blast
  qed
  then have all: "list_all2 ?good (md_Files m) arts" by (rule list.rel_mono_strong [OF files])
  then have arts: "arts = verified_artifacts sg m ?t b"
    by (auto simp: verified_artifacts_def list_all2_conv_all_nth intro!: nth_equalityI)
  have good: "safeRelative (fl_Path f) \<and> (\<exists>i. map_of ?t (b @ comps (fl_Path f)) = Some i \<and> reviewed_file sg f i \<and> in_Gid i = root_gid ?t
      \<and> (modes \<longrightarrow> reader_file i))" if "f \<in> set (md_Files m)" for f
    using all that by (auto simp: list_all2_conv_all_nth in_set_conv_nth)
  then have safe: "list_all (\<lambda>f. safeRelative (fl_Path f)) (md_Files m)" unfolding list_all_iff by blast
  from rec obtain d1 d2 where d1: "dk_Tree d1 = ?t" "validate_receipt sg snapshot m modes (root_gid ?t) arts d1 = Some (d2, Inr ())"
    by (auto simp: still_def)
  obtain p i r where receipt: "place ?t False (snapshot @ slash # receipt_name) = Inr p" "map_of ?t p = Some i" "is_regular i"
      "in_Gid i = root_gid ?t" "modes \<longrightarrow> reader_file i" "sg_Decode sg (limited_body (2 ^ 20) (body i)) = Some r" "receiptMatches sg r m arts"
    using validated_receipt [OF d1(2)] unfolding d1(1) by blast
  have p: "p = b @ [receipt_name]"
    using rigid_place [OF rig(1) _ _ receipt(1), of "[receipt_name]"] rig(3) receipt_comps
    by (auto simp: comps_append plain_component_def ordinary_def)
  have tree_entry: "allowed m r j \<and> in_Gid j = root_gid ?t \<and> (modes \<longrightarrow> mode_ok j)" if j: "map_of ?t (b @ r) = Some j" for r j
  proof -
    have plain: "list_all plain_component r" using wf_plain [OF wf j] by simp
    show ?thesis
    proof (cases "is_dir j")
      case True
      then have mem: "join_with slash r \<in> set ds" using walk [of r j] j q by simp
      from dirs [OF mem] directory_place [OF rig(1,3) plain] j have "in_Gid j = root_gid ?t \<and> (modes \<longrightarrow> mode_ok j)" by (force simp: mode_ok_dir)
      with directory_allowed [OF ds safe mem plain True] show ?thesis by blast
    next
      case False
      then have reg: "is_regular j" and mem: "join_with slash r \<in> set (receipt_name # map fl_Path (md_Files m))"
        using walk [of r j] j q by auto
      have ne: "r \<noteq> []" using j False rigid_base [OF rig(1,2)] by (auto simp: dir_at_def)
      from mem consider (receipt) "join_with slash r = receipt_name" | (listed) f where "f \<in> set (md_Files m)" "join_with slash r = fl_Path f" by auto
      then have "in_Gid j = root_gid ?t \<and> (modes \<longrightarrow> mode_ok j)"
      proof cases
        case receipt
        then show ?thesis using join_comps [OF receipt plain ne] receipt_comps j p \<open>map_of ?t p = Some i\<close> \<open>in_Gid i = root_gid ?t\<close>
            \<open>modes \<longrightarrow> reader_file i\<close> reg by (auto simp: mode_ok_file)
      next
        case (listed f)
        then show ?thesis using join_comps [OF listed(2) plain ne] good [OF listed(1)] j reg by (auto simp: mode_ok_file)
      qed
      with reg mem show ?thesis by (simp add: allowed_def)
    qed
  qed
  have "\<forall>f \<in> set (md_Files m). \<exists>i. map_of ?t (b @ comps (fl_Path f)) = Some i \<and> reviewed_file sg f i" using good by blast
  with safe tree_entry p receipt arts show ?thesis unfolding snapshot_ok_def by blast
qed

lemma top_directory: "snapshotDirectories m = Some ds \<Longrightarrow> [] \<in> set ds"
  by (auto simp: snapshotDirectories_def simp del: remdups.simps)

lemma real_dirs_snoc: "real_dirs t (a @ [c]) \<longleftrightarrow> real_dirs t a \<and> plain_component c \<and> dir_at t (a @ [c])"
  by (auto simp: real_dirs_def less_Suc_eq)

text \<open>A validated directory reached through real directories has no link at or below it.\<close>

lemma validated_rigid:
  assumes v: "validateSnapshot sg snapshot m modes d = Some (d', Inr arts)" and c: "comps snapshot = a @ [c]" "plain_component c" "real_dirs (dk_Tree d) a"
  shows "rigid (a @ [c]) (dk_Tree d)"
proof (rule validated_parts [OF v])
  let ?t = "dk_Tree d"
  fix ds q
  assume ds: "snapshotDirectories m = Some ds" and pl: "place ?t False snapshot = Inr q"
    and dirs: "\<And>dir. dir \<in> set ds \<Longrightarrow> \<exists>q i. place ?t False (joinSnapshot snapshot dir) = Inr q \<and> map_of ?t q = Some i
      \<and> is_dir i \<and> in_Gid i = root_gid ?t \<and> (modes \<longrightarrow> reader_directory i)"
    and walk: "\<And>r i. map_of ?t (q @ r) = Some i \<Longrightarrow> \<not> is_symlink i \<and> (is_dir i \<longrightarrow> join_with slash r \<in> set ds)
      \<and> (\<not> is_dir i \<longrightarrow> is_regular i \<and> join_with slash r \<in> set (receipt_name # map fl_Path (md_Files m)))"
  have q: "q = a @ [c]" by (rule place_last [OF c(3,2,1) pl])
  obtain i where "map_of ?t q = Some i" "is_dir i" using dirs [OF top_directory [OF ds]] pl by (auto simp: joinSnapshot_def)
  then have "dir_at ?t (a @ [c])" by (simp add: dir_at_def q)
  with c show ?thesis using walk q unfolding rigid_def real_dirs_snoc by (auto simp: link_at_def split: option.splits)
qed

section \<open>Reader modes\<close>

lemma each_modes:
  assumes "each_io f xs d = Some (d', Inr u)" and "\<And>x. keeps_modes (f x)" and "x \<in> set xs"
  shows "\<exists>d1 d2. modes_only d d1 \<and> f x d1 = Some (d2, Inr ()) \<and> modes_only d2 d'"
  using assms(1,3)
proof (induction xs arbitrary: d)
  case (Cons y ys)
  then obtain d1 where d1: "f y d = Some (d1, Inr ())" "each_io f ys d1 = Some (d', Inr u)" by auto
  have m: "modes_only d d1" using upholdsD [OF assms(2) TrueI d1(1)] by simp
  have rest: "modes_only d1 d'" using upholdsD [OF mo.keeps_each [OF assms(2)] TrueI d1(2)] by simp
  show ?case
  proof (cases "x = y")
    case True
    then show ?thesis using d1(1) rest mo.quiet [of d d] by (auto simp: still_def)
  next
    case False
    then show ?thesis using Cons.IH [OF d1(2)] Cons.prems(2) mo.steps [OF m] by auto
  qed
qed simp

lemma modes_remoded: "modes_only d d' \<Longrightarrow> remoded (dk_Tree d) (dk_Tree d')"
  by (auto simp: modes_only_def)

lemma rigid_remoded: "remoded t t' \<Longrightarrow> rigid b t' \<longleftrightarrow> rigid b t"
  by (simp add: rigid_iff remoded_content)

lemma kind_remode: "remode i j \<Longrightarrow> is_dir j = is_dir i \<and> is_regular j = is_regular i \<and> body j = body i \<and> in_Gid j = in_Gid i"
  by (simp add: remode_def is_dir_def is_regular_def body_def)

lemma remoded_back: "remoded t t' \<Longrightarrow> map_of t' q = Some j \<Longrightarrow> \<exists>i. map_of t q = Some i \<and> remode i j"
  using remoded_some [of t t' q] remoded_none [of t t' q] by (cases "map_of t q") auto

lemma snapshot_remoded:
  assumes "remoded t t'" and "snapshot_ok modes sg m t b"
  shows "snapshot_ok modes sg m t' b"
proof -
  have gid: "root_gid t' = root_gid t"
    using remoded_some [OF assms(1), of "[]"] remoded_none [OF assms(1), of "[]"] kind_remode
    by (cases "map_of t []") (auto simp: root_gid_def)
  have "file_body t' q = file_body t q" for q
    using remoded_some [OF assms(1), of q] remoded_none [OF assms(1), of q] kind_remode
    by (cases "map_of t q") (auto simp: file_body_def)
  then have arts: "verified_artifacts sg m t' b = verified_artifacts sg m t b" by (simp add: verified_artifacts_def)
  have rv: "remode i j \<Longrightarrow> reviewed_file sg f i \<Longrightarrow> reviewed_file sg f j" for f i j
    using kind_remode [of i j] by (simp add: reviewed_file_def split: sum.splits)
  have al: "remode i j \<Longrightarrow> allowed m r i \<Longrightarrow> allowed m r j" for r i j using kind_remode [of i j] by (simp add: allowed_def)
  show ?thesis
    unfolding snapshot_ok_def gid arts
  proof (intro conjI ballI allI impI)
    show "list_all (\<lambda>f. safeRelative (fl_Path f)) (md_Files m)" using assms(2) by (simp add: snapshot_ok_def)
  next
    fix f
    assume "f \<in> set (md_Files m)"
    then obtain i where "map_of t (b @ comps (fl_Path f)) = Some i" "reviewed_file sg f i" using assms(2) by (auto simp: snapshot_ok_def)
    with remoded_some [OF assms(1)] rv show "\<exists>i. map_of t' (b @ comps (fl_Path f)) = Some i \<and> reviewed_file sg f i" by blast
  next
    obtain i r where "map_of t (b @ [receipt_name]) = Some i" "is_regular i" "sg_Decode sg (limited_body (2 ^ 20) (body i)) = Some r"
        "receiptMatches sg r m (verified_artifacts sg m t b)" using assms(2) by (auto simp: snapshot_ok_def)
    moreover from remoded_some [OF assms(1) this(1)] obtain j where "map_of t' (b @ [receipt_name]) = Some j" "remode i j" by blast
    ultimately show "\<exists>i r. map_of t' (b @ [receipt_name]) = Some i \<and> is_regular i \<and> sg_Decode sg (limited_body (2 ^ 20) (body i)) = Some r
       \<and> receiptMatches sg r m (verified_artifacts sg m t b)" using kind_remode [of i j] by (intro exI [of _ j] exI [of _ r]) simp
  next
    fix q j
    assume "map_of t' (b @ q) = Some j"
    then obtain i where i: "map_of t (b @ q) = Some i" "remode i j" using remoded_back [OF assms(1)] by blast
    then have "allowed m q i" "in_Gid i = root_gid t" "modes \<longrightarrow> mode_ok i" using assms(2) by (auto simp: snapshot_ok_def)
    with i(2) al [OF i(2)] kind_remode [OF i(2)] show "allowed m q j" "in_Gid j = root_gid t" "modes \<Longrightarrow> mode_ok j" by (simp_all add: remode_def)
  qed
qed

lemma published_mode:
  assumes "publish_directory gid p d = Some (d', Inr u) \<or> publish_file gid p d = Some (d', Inr u)"
  shows "\<exists>q i. place (dk_Tree d') False p = Inr q \<and> map_of (dk_Tree d') q = Some i \<and> mode_ok i"
  using assms
proof
  assume "publish_directory gid p d = Some (d', Inr u)"
  then obtain d1 where r: "requireReaderDirectory p gid d1 = Some (d', Inr u)" by (auto simp: publish_directory_def)
  with found_directory [of True gid p d1 d'] reads_tree [OF reads_checks(4) r] mode_ok_dir show ?thesis by auto
next
  assume "publish_file gid p d = Some (d', Inr u)"
  then obtain d1 where r: "requireReaderFile p gid d1 = Some (d', Inr u)" by (auto simp: publish_file_def)
  with found_file [of True gid p d1 d'] reads_tree [OF reads_checks(5) r] mode_ok_file show ?thesis by auto
qed

lemma climbs_prefix: "q \<noteq> [] \<Longrightarrow> length q \<le> length cs \<Longrightarrow> take (length q) cs = q \<Longrightarrow> join_with slash q \<in> set (climbs cs)"
proof -
  assume q: "q \<noteq> []" "length q \<le> length cs" "take (length q) cs = q"
  have "length cs - (length cs - length q) = length q" "length cs - length q < length cs" using q(1,2) by (cases q; simp)+
  with q(3) show ?thesis unfolding climbs_def by (auto intro!: image_eqI [of _ _ "length cs - length q"])
qed

lemma entry_path:
  assumes "snapshot_ok modes sg m t b" and "wf_tree t" and "map_of t (b @ q) = Some i" and "comps snapshot = b" and "snapshotDirectories m = Some ds"
  shows "(\<exists>dir \<in> set ds. comps (joinSnapshot snapshot dir) = b @ q)
    \<or> (\<exists>path \<in> set (map fl_Path (md_Files m) @ [receipt_name]). comps (snapshot @ slash # path) = b @ q)"
proof -
  have plain: "list_all plain_component q" using wf_plain [OF assms(2,3)] by simp
  have safe: "list_all (\<lambda>f. safeRelative (fl_Path f)) (md_Files m)" using assms(1) by (simp add: snapshot_ok_def)
  have ds: "set ds = insert [] (\<Union>f \<in> set (md_Files m). set (ups (fl_Path f)))"
    using directories_safe [OF safe] assms(5) by (auto simp del: remdups.simps)
  have "allowed m q i" using assms(1,3) by (simp add: snapshot_ok_def)
  then consider (regular) "is_regular i" "join_with slash q \<in> set (receipt_name # map fl_Path (md_Files m))"
    | (above) "q = []" | (dir) f where "f \<in> set (md_Files m)" "starts q (comps (fl_Path f))" "q \<noteq> comps (fl_Path f)" "q \<noteq> []"
    by (auto simp: allowed_def)
  then show ?thesis
  proof cases
    case regular
    show ?thesis
    proof (cases "q = []")
      case False
      then have "comps (snapshot @ slash # join_with slash q) = b @ q" using comps_join [OF plain] assms(4) by (simp add: comps_append)
      moreover have "join_with slash q \<in> set (map fl_Path (md_Files m) @ [receipt_name])" using regular(2) by auto
      ultimately show ?thesis by blast
    qed (use ds assms(4) in \<open>auto simp: joinSnapshot_def\<close>)
  next
    case above
    then show ?thesis using ds assms(4) by (auto simp: joinSnapshot_def)
  next
    case (dir f)
    let ?cs = "comps (fl_Path f)"
    obtain r where r: "?cs = q @ r" "r \<noteq> []" using dir(2,3) by (auto simp: starts_iff)
    have "map_of t (b @ ?cs) \<noteq> None" using assms(1) dir(1) by (auto simp: snapshot_ok_def)
    then have "list_all plain_component ?cs" using wf_plain [OF assms(2)] by (metis list_all_append not_None_eq)
    then have dot: "fl_Path f \<noteq> ''.''" by (auto simp: comps_def plain_component_def)
    have "join_with slash q \<in> set (climbs (butlast ?cs))"
      by (rule climbs_prefix [OF dir(4)]) (use r in \<open>simp_all add: butlast_append\<close>)
    then have "join_with slash q \<in> set ds" using ds dir(1) dot by (auto simp: ups_def)
    moreover have "comps (joinSnapshot snapshot (join_with slash q)) = b @ q"
      using relative_join(2) [OF plain dir(4)] comps_join [OF plain dir(4)] assms(4) by (simp add: joinSnapshot_def comps_append)
    ultimately show ?thesis by blast
  qed
qed

lemma permissions_set:
  assumes s: "setPublishedSnapshotPermissions snapshot m d = Some (d', Inr u)" and sn: "snapshot_ok False sg m (dk_Tree d) b"
    and wf: "wf_tree (dk_Tree d)" and rig: "rigid b (dk_Tree d)" "comps snapshot = b"
  shows "snapshot_ok True sg m (dk_Tree d') b"
proof -
  let ?t = "dk_Tree d'"
  have rm: "remoded (dk_Tree d) ?t" using modes_remoded upholdsD [OF modes_permissions(1) TrueI s] by blast
  have ok: "snapshot_ok False sg m ?t b" by (rule snapshot_remoded [OF rm sn])
  have wf': "wf_tree ?t" using upholdsD [OF wf_permissions(1) wf s] by simp
  from s obtain d1 d2 ds gid where g: "rootGroup d = Some (d1, Inr gid)" and ds: "snapshotDirectories m = Some ds"
    and 1: "each_io (\<lambda>dir. publish_directory gid (joinSnapshot snapshot dir)) ds d1 = Some (d2, Inr ())"
    and 2: "each_io (\<lambda>path. publish_file gid (snapshot @ slash # path)) (map fl_Path (md_Files m) @ [receipt_name]) d2 = Some (d', Inr u)"
    by (auto simp: setPublishedSnapshotPermissions_def)
  have m2: "modes_only d2 d'" using upholdsD [OF mo.keeps_each [OF modes_publish(2)] TrueI 2] by simp
  have found: "mode_ok i" if m: "modes_only a d'" and p: "place (dk_Tree a) False p = Inr p'" "map_of (dk_Tree a) p' = Some j" "mode_ok j"
      and c: "comps p = b @ q" and e: "map_of ?t (b @ q) = Some i" for a p p' j q i
  proof -
    have rb: "rigid b ?t" "rigid b (dk_Tree a)" using rig(1) rigid_remoded [OF rm] rigid_remoded [OF modes_remoded [OF m]] by auto
    have plain: "list_all plain_component q" using wf_plain [OF wf' e] by simp
    then have "''..'' \<notin> set q" by (auto simp: list_all_iff plain_component_def)
    then have "p' = b @ q" using rigid_place [OF rb(2) c _ p(1)] filter_ordinary [OF plain] by simp
    with remoded_some [OF modes_remoded [OF m] p(2)] e p(3) show ?thesis by (auto simp: remode_def)
  qed
  have "mode_ok i" if e: "map_of ?t (b @ q) = Some i" for q i
    using entry_path [OF ok wf' e rig(2) ds]
  proof
    assume "\<exists>dir \<in> set ds. comps (joinSnapshot snapshot dir) = b @ q"
    then obtain dir where dir: "dir \<in> set ds" "comps (joinSnapshot snapshot dir) = b @ q" by blast
    obtain a1 a2 where a: "publish_directory gid (joinSnapshot snapshot dir) a1 = Some (a2, Inr ())" "modes_only a2 d2"
      using each_modes [OF 1 modes_publish(1) dir(1)] by blast
    with published_mode found [OF mo.steps [OF a(2) m2] _ _ _ dir(2) e] show ?thesis by blast
  next
    assume "\<exists>path \<in> set (map fl_Path (md_Files m) @ [receipt_name]). comps (snapshot @ slash # path) = b @ q"
    then obtain path where p: "path \<in> set (map fl_Path (md_Files m) @ [receipt_name])" "comps (snapshot @ slash # path) = b @ q" by blast
    obtain a1 a2 where a: "publish_file gid (snapshot @ slash # path) a1 = Some (a2, Inr ())" "modes_only a2 d'"
      using each_modes [OF 2 modes_publish(2) p(1)] by blast
    with published_mode found [OF a(2) _ _ _ p(2) e] show ?thesis by blast
  qed
  with ok show ?thesis by (simp add: snapshot_ok_def)
qed

section \<open>The rename\<close>

lemma snapshot_copied:
  assumes "\<And>r. map_of t' (b @ r) = map_of t (a @ r)" and "map_of t' [] = map_of t []"
  shows "snapshot_ok modes sg m t' b = snapshot_ok modes sg m t a"
  by (simp add: snapshot_ok_def verified_artifacts_def file_body_def root_gid_def assms)

lemma rename_publishes:
  assumes r: "Rename_io (snapshot_of tmp) p d = Some (d', x)" and mine: "mine tmp d" and sn: "snapshot_ok True sg m (dk_Tree d) [tmp, ''snapshot'']"
    and p: "modelPrefix m = Inr p" and dir: "dir_at (dk_Tree d) [md_ID m]" and ne: "tmp \<noteq> md_ID m"
  shows "if isl x then still d d' else dk_Past d' = dk_Past d @ [dk_Tree d] \<and> snapshot_ok True sg m (dk_Tree d') [md_ID m, md_Revision m]
    \<and> (\<forall>q. \<not> starts [tmp] q \<longrightarrow> \<not> starts [md_ID m, md_Revision m] q \<longrightarrow> map_of (dk_Tree d') q = map_of (dk_Tree d) q)"
proof (cases x)
  case (Inl e)
  then show ?thesis using altered [OF r [unfolded Rename_io_def]] by auto
next
  case (Inr u)
  from altered_Inr [OF r [unfolded Rename_io_def Inr]] obtain d1 t' where
    d1: "still d d1" "rename_tree (snapshot_of tmp) p d1 = Inr t'" "d' = turn t' d1" .
  let ?t = "dk_Tree d" and ?b = "[md_ID m, md_Revision m]" and ?a = "[tmp, ''snapshot'']"
  have own: "wf_tree ?t" "rigid [tmp] ?t" "plain_component tmp" using mine by (auto simp: mine_def rigid_def real_dirs_def)
  note pp = prefix_parts [OF p]
  show ?thesis
  proof (rule renamed [OF d1(2)])
    show "wf_tree (dk_Tree d1)" using own(1) d1(1) by (simp add: still_def)
  next
    fix a b t
    assume pl: "place (dk_Tree d1) False (snapshot_of tmp) = Inr a" "place (dk_Tree d1) False p = Inr b" and mv: "movable a b t" "t' = moved a b t"
      and same: "\<And>q. \<not> starts b q \<Longrightarrow> map_of t q = map_of (dk_Tree d1) q"
    have tree: "dk_Tree d1 = ?t" using d1(1) by (simp add: still_def)
    have a: "a = ?a"
      using rigid_place [OF own(2) _ _ pl(1) [unfolded tree], of "[''snapshot'']"] snapshot_comps(1) [OF own(3)] by (simp add: ordinary_def)
    have b: "b = ?b"
      using place_last [OF _ pp(3) _ pl(2) [unfolded tree], of "[md_ID m]"] pp(2,4) dir by (simp add: real_dirs_def)
    have other: "map_of t' q = map_of ?t q" if "\<not> starts [tmp] q" "\<not> starts ?b q" for q
    proof -
      have "\<not> starts a q" using that(1) by (auto simp: a starts_iff)
      with moved_other [of a q b t] same [of q] that(2) tree show ?thesis by (simp add: mv(2) b)
    qed
    have into: "map_of t' (?b @ r) = map_of ?t (?a @ r)" for r
      using moved_into [OF mv(1), of r] same [of "a @ r"] tree ne by (simp add: mv(2) a b starts_def)
    have "map_of t' [] = map_of ?t []" by (rule other) (simp_all add: starts_def)
    with snapshot_copied [of t' ?b ?t ?a] into sn have "snapshot_ok True sg m t' ?b" by simp
    with other d1 Inr show ?thesis by (simp add: still_def)
  qed
qed

text \<open>The directory of the model, once its permissions are set.\<close>

definition model_dir :: "CatalogModel \<Rightarrow> tree \<Rightarrow> bool" where
  "model_dir m t \<longleftrightarrow> (\<exists>i. map_of t [md_ID m] = Some i \<and> is_dir i \<and> reader_directory i \<and> in_Gid i = root_gid t)"

lemma root_gid_remoded: "remoded t t' \<Longrightarrow> root_gid t' = root_gid t"
  using remoded_some [of t t' "[]"] remoded_none [of t t' "[]"] kind_remode by (cases "map_of t []") (auto simp: root_gid_def)

lemma model_dir_remoded:
  assumes "remoded t t'" and "model_dir m t"
  shows "model_dir m t'"
proof -
  from assms(2) obtain i where i: "map_of t [md_ID m] = Some i" "is_dir i" "reader_directory i" "in_Gid i = root_gid t"
    by (auto simp: model_dir_def)
  from remoded_some [OF assms(1) i(1)] obtain j where j: "map_of t' [md_ID m] = Some j" "remode i j" by blast
  have d: "is_dir j" "in_Gid j = root_gid t'" using kind_remode [OF j(2)] i root_gid_remoded [OF assms(1)] by simp_all
  have "mode_ok j" using j(2) i mode_ok_dir [of i] unfolding remode_def by blast
  with d j(1) show ?thesis by (auto simp: model_dir_def mode_ok_dir)
qed

lemma place_model: "modelPrefix m = Inr p \<Longrightarrow> place t False (md_ID m) = Inr q \<Longrightarrow> q = [md_ID m]"
  using place_last [of t "[]" "md_ID m" "md_ID m" q] prefix_parts(2) [of m p] by (simp add: real_dirs_def comps_plain plain_component_def)

lemma required_model_dir:
  assumes "requireReaderDirectory (md_ID m) (root_gid (dk_Tree d)) d = Some (d', Inr u)" and "modelPrefix m = Inr p"
  shows "model_dir m (dk_Tree d)"
  using found_directory [of True "root_gid (dk_Tree d)" "md_ID m" d d' u] assms(1) place_model [OF assms(2)]
  by (auto simp: model_dir_def)

lemma rootGroup_gid: "rootGroup d = Some (d', Inr gid) \<Longrightarrow> gid = root_gid (dk_Tree d) \<and> still d d'"
  using observed [of "\<lambda>t. tree_entry t []" d d'] by (auto simp: rootGroup_def stat_root_def root_gid_def tree_entry_def split: option.splits)

lemma parent_published:
  assumes "setModelParentPermissions p d = Some (d', Inr u)" and p: "modelPrefix m = Inr p"
  shows "model_dir m (dk_Tree d')"
proof -
  note pp = prefix_parts [OF p]
  from assms(1) obtain gid a where g: "rootGroup d = Some (a, Inr gid)" and "publish_directory gid (md_ID m) a = Some (d', Inr u)"
    by (auto simp: setModelParentPermissions_def pp(5))
  then obtain b where b: "requireReaderDirectory (md_ID m) gid b = Some (d', Inr u)" by (auto simp: publish_directory_def)
  have "remoded (dk_Tree d) (dk_Tree d')" using modes_remoded upholdsD [OF modes_permissions(2) TrueI assms(1)] by blast
  moreover have tree: "dk_Tree d' = dk_Tree b" using reads_tree [OF reads_checks(4) b] by simp
  ultimately have "gid = root_gid (dk_Tree b)" using rootGroup_gid [OF g] root_gid_remoded by simp
  with required_model_dir [OF _ p] b tree show ?thesis by simp
qed

text \<open>Everything up to the rename, when it succeeds.\<close>

lemma prepared:
  assumes pr: "prepare_publication sg p tmp m d = Some (d', Inr u)" and mine: "mine tmp d" and p: "modelPrefix m = Inr p" and small: "small_files m"
  shows "snapshot_ok True sg m (dk_Tree d') [tmp, ''snapshot''] \<and> model_dir m (dk_Tree d')"
proof -
  from pr obtain d1 d2 d3 d4 d5 arts where 1: "rootParents p d = Some (d1, Inr ())" and 2: "setModelParentPermissions p d1 = Some (d2, Inr ())"
    and 3: "validateSnapshot sg (snapshot_of tmp) m False d2 = Some (d3, Inr arts)"
    and 4: "setPublishedSnapshotPermissions (snapshot_of tmp) m d3 = Some (d4, Inr ())"
    and 5: "requirePrivateStagingDirectory tmp d4 = Some (d5, Inr ())" "absent p d5 = Some (d', Inr u)"
    by (auto simp: prepare_publication_def Let_def snapshot_of_def)
  have m1: "mine tmp d1" using upholdsD [OF stays_prefix_parents [OF p] mine 1] by simp
  have m2: "mine tmp d2" using upholdsD [OF stays_modes [OF modes_permissions(2) wf_permissions(2)] m1 2] by simp
  have tmp: "plain_component tmp" using mine by (simp add: mine_def rigid_def real_dirs_def)
  have t3: "dk_Tree d3 = dk_Tree d2" using reads_tree [OF reads_validation(3) 3] by simp
  have t5: "dk_Tree d' = dk_Tree d4" using reads_tree [OF reads_checks(8) 5(1)] reads_tree [OF reads_validation(5) 5(2)] by simp
  have model: "model_dir m (dk_Tree d2)" by (rule parent_published [OF 2 p])
  have rig: "rigid [tmp, ''snapshot''] (dk_Tree d2)"
    using validated_rigid [OF 3, of "[tmp]" "''snapshot''"] snapshot_comps(1) [OF tmp] m2 by (simp add: mine_def rigid_def plain_component_def)
  have sn: "snapshot_ok False sg m (dk_Tree d2) [tmp, ''snapshot'']"
    using snapshot_validated [OF 3 small _ rig] m2 snapshot_comps(1) [OF tmp] by (simp add: mine_def)
  have fin: "snapshot_ok True sg m (dk_Tree d4) [tmp, ''snapshot'']"
    using permissions_set [OF 4] sn rig m2 snapshot_comps(1) [OF tmp] by (simp add: t3 mine_def)
  have rm: "remoded (dk_Tree d2) (dk_Tree d4)" using modes_remoded upholdsD [OF modes_permissions(1) TrueI 4] t3 by metis
  from fin model_dir_remoded [OF rm model] show ?thesis by (simp add: t5)
qed

section \<open>The private directory\<close>

lemma temp_plain: "plain_component (temp_name ''.partial-'' r)" "HasPrefix (temp_name ''.partial-'' r) ''.partial-''"
proof -
  have "list_all is_digit (Itoa (uint r))" using decimal_digits [of "uint r"] by (simp add: Itoa_def)
  moreover have "\<not> is_digit slash" by (simp add: char_classes)
  ultimately have "slash \<notin> set (Itoa (uint r))" by (auto simp: list_all_iff)
  then show "plain_component (temp_name ''.partial-'' r)" "HasPrefix (temp_name ''.partial-'' r) ''.partial-''"
    by (simp_all add: temp_name_def plain_component_def HasPrefix_def)
qed

lemma made_private:
  assumes "Mkdir_io tmp perm d = Some (d', x)" and "wf_tree (dk_Tree d)" and "plain_component tmp"
  shows "if isl x then still d d' else mine tmp d' \<and> staging tmp name d d'"
proof -
  have mk: "alter (insert_new Directory perm tmp) d = Some (d', x)" using assms(1) by (simp add: Mkdir_io_def)
  show ?thesis
  proof (cases x)
    case (Inl e)
    with altered [OF mk] show ?thesis by auto
  next
    case (Inr u)
    from altered_Inr [OF mk [unfolded Inr]] obtain d1 t where d1: "still d d1" "insert_new Directory perm tmp d1 = Inr t" "d' = turn t d1" .
    have tree: "dk_Tree d1 = dk_Tree d" using d1(1) by (simp add: still_def)
    from inserted [OF d1(2)] obtain q parent where q: "place (dk_Tree d) False tmp = Inr q" "map_of (dk_Tree d) q = None"
        "t = AList.update q (new_inode d1 parent Directory perm) (dk_Tree d)" unfolding tree by metis
    have eq: "q = [tmp]"
      using place_last [of "dk_Tree d" "[]" tmp tmp q] q(1) assms(3) by (simp add: real_dirs_def comps_plain plain_component_def)
    have wf: "wf_tree t" using wf_inserted [OF _ d1(2)] assms(2) tree by simp
    have "\<not> link_at t (tmp # r)" for r
    proof (cases "r = []")
      case True
      then show ?thesis using q(3) eq by (simp add: link_at_def is_symlink_def update_conv new_inode_def)
    next
      case False
      have "map_of (dk_Tree d) (tmp # r) = None"
      proof (rule ccontr)
        assume "map_of (dk_Tree d) (tmp # r) \<noteq> None"
        then obtain i where "map_of (dk_Tree d) ([tmp] @ r) = Some i" by auto
        from wf_ancestors [OF assms(2) this False] q(2) eq show False by (simp add: dir_at_def)
      qed
      then show ?thesis using q(3) eq False by (simp add: link_at_def update_conv)
    qed
    moreover have "dir_at t [tmp]" using q(3) eq by (simp add: dir_at_def update_conv new_inode_def is_dir_def)
    ultimately have "rigid [tmp] t" using assms(3) by (simp add: rigid_def real_dirs_def)
    moreover have "content_at t r = content_at (dk_Tree d) r" if "\<not> zone tmp name r" for r
      using that q(3) eq by (auto simp: zone_def starts_def content_at_def update_conv)
    then have "staging tmp name d (turn t d1)"
      unfolding staging_def by (intro exI [of _ "[dk_Tree d]"]) (use d1(1) in \<open>simp add: still_def\<close>)
    ultimately show ?thesis using wf d1(3) Inr by (simp add: mine_def)
  qed
qed

lemma made_temp:
  assumes "MkdirTemp_io ''.partial-'' d = Some (d', x)" and "wf_tree (dk_Tree d)"
  shows "still d d' \<and> isl x \<or> (\<exists>tmp. x = Inr tmp \<and> HasPrefix tmp ''.partial-'' \<and> mine tmp d' \<and> staging tmp name d d')"
proof -
  have "still d d' \<and> isl x \<or> (\<exists>tmp. x = Inr tmp \<and> HasPrefix tmp ''.partial-'' \<and> mine tmp d' \<and> staging tmp name d d')"
    if "mkdir_temp pattern rs d = Some (d', x)" "wf_tree (dk_Tree d)" "pattern = ''.partial-''" for pattern rs d
    using that
  proof (induction pattern rs d rule: mkdir_temp.induct)
    case (2 pattern r rs d)
    let ?d = "d\<lparr>dk_Random := rs\<rparr>" and ?tmp = "temp_name ''.partial-'' r"
    obtain d1 y where m: "Mkdir_io ?tmp 448 ?d = Some (d1, y)" using 2(2,4) by (auto split: option.splits)
    have made: "if isl y then still ?d d1 else mine ?tmp d1 \<and> staging ?tmp name ?d d1"
      using made_private [OF m _ temp_plain(1)] 2(3) by simp
    show ?case
    proof (cases y)
      case (Inl e)
      with made have s: "still d d1" by (simp add: still_def)
      show ?thesis
      proof (cases "e = ErrExist")
        case True
        with 2(2,4) m Inl have r: "mkdir_temp pattern rs d1 = Some (d', x)" by simp
        have "Mkdir_io (temp_name pattern r) 448 (d\<lparr>dk_Random := rs\<rparr>) = Some (d1, y)" using m 2(4) by simp
        from 2(1) [OF this refl Inl True r _ 2(4)] 2(3) s show ?thesis by (auto simp: still_def staging_def)
      next
        case False
        with 2(2,4) m Inl s show ?thesis by auto
      qed
    next
      case (Inr u)
      with 2(2,4) m have "d' = d1" "x = Inr ?tmp" by auto
      with made Inr temp_plain(2) show ?thesis by (auto simp: staging_def)
    qed
  qed (auto simp: still_def)
  then show ?thesis using assms by (simp add: MkdirTemp_io_def)
qed

lemma stays_private:
  assumes "plain_component tmp"
  shows "stays tmp name (then_io (requirePrivateStagingDirectory tmp) (\<lambda>_. then_io (Mkdir_io (snapshot_of tmp) 448)
    (\<lambda>_. then_io (requirePrivateStagingDirectory (snapshot_of tmp)) (\<lambda>_. give_io tmp))))"
proof -
  have "inside tmp name (snapshot_of tmp)" using snapshot_comps(1) [OF assms] by (simp add: inside_def)
  then show ?thesis by (intro stays_rules stays_create(2))
qed

lemma private_made:
  assumes "private_tree d = Some (d', x)" and "wf_tree (dk_Tree d)"
  shows "still d d' \<and> isl x \<or> (\<exists>tmp. HasPrefix tmp ''.partial-'' \<and> mine tmp d' \<and> staging tmp name d d' \<and> (\<forall>u. x = Inr u \<longrightarrow> u = tmp))"
proof -
  from assms(1) consider (failed) e where "MkdirTemp_io ''.partial-'' d = Some (d', Inl e)" "x = Inl e"
    | (made) d1 tmp where "MkdirTemp_io ''.partial-'' d = Some (d1, Inr tmp)"
        "then_io (requirePrivateStagingDirectory tmp) (\<lambda>_. then_io (Mkdir_io (snapshot_of tmp) 448)
          (\<lambda>_. then_io (requirePrivateStagingDirectory (snapshot_of tmp)) (\<lambda>_. give_io tmp))) d1 = Some (d', x)"
    unfolding private_tree_def snapshot_of_def then_io_Some [of "MkdirTemp_io _"] by blast
  then show ?thesis
  proof cases
    case failed
    with made_temp [OF failed(1) assms(2)] show ?thesis by auto
  next
    case made
    from made_temp [OF made(1) assms(2), of name] have t: "HasPrefix tmp ''.partial-''" "mine tmp d1" "staging tmp name d d1" by auto
    have plain: "plain_component tmp" using t(2) by (simp add: mine_def rigid_def real_dirs_def)
    have "mine tmp d' \<and> staging tmp name d1 d'" by (rule upholdsD [OF stays_private [OF plain] t(2) made(2)])
    moreover have "\<forall>u. x = Inr u \<longrightarrow> u = tmp" using made(2) by (cases x) auto
    ultimately show ?thesis using t sp.steps [OF t(3)] by blast
  qed
qed

lemma admit_safe: "admit sg m d = Some (d', Inr u) \<Longrightarrow> list_all (\<lambda>f. safeRelative (fl_Path f)) (md_Files m)"
proof -
  assume "admit sg m d = Some (d', Inr u)"
  then obtain n where n: "admit_files sg [] 0 (md_Files m) = Inr n" by (auto simp: admit_def need_def split: sum.splits)
  have "admit_files sg seen k fs = Inr n \<Longrightarrow> list_all (\<lambda>f. safeRelative (fl_Path f)) fs" for seen k fs
    by (induction sg seen k fs rule: admit_files.induct) (auto simp: Let_def split: if_splits sum.splits)
  with n show ?thesis by blast
qed

section \<open>After the rename\<close>

definition untouched :: "string \<Rightarrow> Disk \<Rightarrow> Disk \<Rightarrow> bool" where
  "untouched tmp d d' \<longleftrightarrow> (\<exists>ts. dk_Past d' = dk_Past d @ ts
     \<and> (\<forall>t \<in> set (ts @ [dk_Tree d']). \<forall>q. \<not> starts [tmp] q \<longrightarrow> map_of t q = map_of (dk_Tree d) q))"

interpretation un: io_relation "\<lambda>_. True" "untouched tmp" for tmp
proof
  fix a b c
  assume "untouched tmp a b" "untouched tmp b c"
  then obtain ts us where "dk_Past b = dk_Past a @ ts" "\<forall>t \<in> set (ts @ [dk_Tree b]). \<forall>q. \<not> starts [tmp] q \<longrightarrow> map_of t q = map_of (dk_Tree a) q"
      "dk_Past c = dk_Past b @ us" "\<forall>t \<in> set (us @ [dk_Tree c]). \<forall>q. \<not> starts [tmp] q \<longrightarrow> map_of t q = map_of (dk_Tree b) q"
    by (auto simp: untouched_def)
  then show "untouched tmp a c" unfolding untouched_def by (intro exI [of _ "ts @ us"]) auto
qed (simp_all add: untouched_def still_def idle_def)

lemma untouched_remove:
  assumes "plain_component tmp"
  shows "upholds (\<lambda>_. True) (untouched tmp) (Remove_io tmp)"
proof (rule upholdsI)
  fix d d' x
  assume "Remove_io tmp d = Some (d', x)"
  from altered [OF this [unfolded Remove_io_def]] consider (same) "still d d'"
    | (removed) d1 q where "still d d1" "place (dk_Tree d1) False tmp = Inr q" "d' = turn (AList.delete q (dk_Tree d1)) d1"
  proof
    let ?f = "\<lambda>d. case place (dk_Tree d) False tmp of Inl e \<Rightarrow> Inl e
      | Inr q \<Rightarrow> if map_of (dk_Tree d) q = None then Inl ErrNotExist else if q = [] then Inl ErrInvalid
          else if below (dk_Tree d) q then Inl ErrNotEmpty else Inr (AList.delete q (dk_Tree d))"
    assume "\<exists>d1 t. still d d1 \<and> dk_Umask d1 = dk_Umask d \<and> dk_Gid d1 = dk_Gid d \<and> ?f d1 = Inr t \<and> d' = turn t d1 \<and> x = Inr ()"
    then obtain d1 t where d1: "still d d1" "?f d1 = Inr t" "d' = turn t d1" by blast
    from d1(2) obtain q where "place (dk_Tree d1) False tmp = Inr q" "t = AList.delete q (dk_Tree d1)" by (auto split: sum.splits if_splits)
    with d1 removed show thesis by blast
  qed (use same in blast)
  then show "True \<and> untouched tmp d d'"
  proof cases
    case same
    then show ?thesis using un.quiet by blast
  next
    case removed
    have "q = [tmp]"
      using place_last [of "dk_Tree d1" "[]" tmp tmp q] removed(2) assms by (simp add: real_dirs_def comps_plain plain_component_def)
    then have "\<not> starts [tmp] r \<Longrightarrow> map_of (AList.delete q (dk_Tree d1)) r = map_of (dk_Tree d1) r" for r
      by (auto simp: starts_def delete_conv')
    with removed(1,3) show ?thesis
      unfolding untouched_def by (intro conjI TrueI exI [of _ "[dk_Tree d]"]) (simp_all add: still_def)
  qed
qed

lemma untouched_settle:
  assumes "plain_component tmp"
  shows "upholds (\<lambda>_. True) (untouched tmp) (settle_publication sg p tmp m)"
  unfolding settle_publication_def
  by (intro un.keeps_then un.keeps_wrapped untouched_remove [OF assms] un.keeps_reads [OF reads_calls(1)] un.keeps_reads [OF reads_calls(5)]
    un.keeps_reads [OF reads_lookups(3)] un.keeps_reads [OF reads_validation(3)])

lemma keeps_bind:
  assumes "then_io m f d = Some (d', x)" and "upholds I R m" and "I d"
  shows "R d d' \<and> isl x \<or> (\<exists>d1 a. m d = Some (d1, Inr a) \<and> I d1 \<and> R d d1 \<and> f a d1 = Some (d', x))"
  using assms(1) upholdsD [OF assms(2,3)] unfolding then_io_Some by force

section \<open>Publication is all or nothing\<close>

definition partial_path :: "string list \<Rightarrow> bool" where
  "partial_path q \<longleftrightarrow> q \<noteq> [] \<and> HasPrefix (hd q) ''.partial-''"

text \<open>
  What a tree may differ in from the one staging started from: private directories and the directory of the model may
  come and go; everything else outside the published snapshot has the content it had, and the published snapshot has
  the content it had or is complete.
\<close>

definition staged_over :: "Stager \<Rightarrow> CatalogModel \<Rightarrow> tree \<Rightarrow> tree \<Rightarrow> bool" where
  "staged_over sg m t0 t \<longleftrightarrow>
     (\<forall>q. \<not> partial_path q \<and> q \<noteq> [md_ID m] \<and> \<not> starts [md_ID m, md_Revision m] q \<longrightarrow> content_at t q = content_at t0 q)
     \<and> ((\<forall>q. starts [md_ID m, md_Revision m] q \<longrightarrow> content_at t q = content_at t0 q) \<or> snapshot_ok True sg m t [md_ID m, md_Revision m])"

abbreviation atomic_from :: "Stager \<Rightarrow> CatalogModel \<Rightarrow> Disk \<Rightarrow> Disk \<Rightarrow> bool" where
  "atomic_from sg m d d' \<equiv> (\<forall>t \<in> set (trees_since d d'). staged_over sg m (dk_Tree d) t)"

lemma same_staged: "(\<And>q. content_at t q = content_at t0 q) \<Longrightarrow> staged_over sg m t0 t"
  by (simp add: staged_over_def)

lemma trees_append: "dk_Past d' = dk_Past d @ ts \<Longrightarrow> trees_since d d' = ts @ [dk_Tree d']"
  by (simp add: trees_since_def)

lemma still_atomic: "still d d' \<Longrightarrow> atomic_from sg m d d'"
  by (simp add: still_def trees_since_def same_staged)

lemma modes_atomic: "modes_only d d' \<Longrightarrow> atomic_from sg m d d'"
  using modes_trees remoded_content same_staged by blast

lemma starts_partial: "HasPrefix tmp ''.partial-'' \<Longrightarrow> starts [tmp] q \<Longrightarrow> partial_path q"
  by (auto simp: starts_iff partial_path_def)

lemma staging_atomic:
  assumes "staging tmp (md_ID m) d d'" and "HasPrefix tmp ''.partial-''" and "\<not> HasPrefix (md_ID m) ''.partial-''"
  shows "atomic_from sg m d d'"
proof -
  have "staged_over sg m (dk_Tree d) t" if t: "\<And>q. \<not> zone tmp (md_ID m) q \<Longrightarrow> content_at t q = content_at (dk_Tree d) q" for t
  proof -
    have "\<not> zone tmp (md_ID m) q" if "\<not> partial_path q" "q \<noteq> [md_ID m]" for q
      using that starts_partial [OF assms(2)] by (auto simp: zone_def)
    moreover have "\<not> partial_path q \<and> q \<noteq> [md_ID m]" if "starts [md_ID m, md_Revision m] q" for q
      using that assms(3) by (auto simp: starts_iff partial_path_def)
    ultimately show ?thesis using t unfolding staged_over_def by blast
  qed
  with assms(1) show ?thesis unfolding staging_def by (elim exE conjE) (simp add: trees_append)
qed

lemma then_assoc: "then_io (then_io m f) g = then_io m (\<lambda>a. then_io (f a) g)"
  by (rule ext) (auto simp: then_io_def split: option.splits sum.splits)

text \<open>
  From the private directory on: either staging stops before the rename, or it renames a complete snapshot and leaves
  it alone afterwards.
\<close>

definition after_private :: "Stager \<Rightarrow> string \<Rightarrow> CatalogModel \<Rightarrow> string \<Rightarrow> Artifact list io" where
  "after_private sg p m tmp = then_io (stage_files sg (snapshot_of tmp) m 0 (md_Files m)) (\<lambda>arts.
     then_io (write_receipt sg (snapshot_of tmp) m arts) (\<lambda>_.
     then_io (prepare_publication sg p tmp m) (\<lambda>_.
     then_io (Rename_io (snapshot_of tmp) p) (\<lambda>_.
     then_io (settle_publication sg p tmp m) (\<lambda>_. give_io arts)))))"

lemma stage_fresh_parts: "stage_fresh sg p m = then_io (admit sg m) (\<lambda>_. then_io private_tree (after_private sg p m))"
  unfolding stage_fresh_def publish_def then_assoc snapshot_of_def [symmetric] after_private_def [abs_def] ..

lemma renamed_complete:
  assumes r: "then_io (Rename_io (snapshot_of tmp) p) (\<lambda>_. then_io (settle_publication sg p tmp m) (\<lambda>_. give_io arts)) d = Some (d', x)"
    and mine: "mine tmp d" and p: "modelPrefix m = Inr p" and ne: "tmp \<noteq> md_ID m"
    and sn: "snapshot_ok True sg m (dk_Tree d) [tmp, ''snapshot'']" and dir: "dir_at (dk_Tree d) [md_ID m]"
  shows "still d d' \<and> isl x \<or> (\<exists>d1. dk_Past d1 = dk_Past d @ [dk_Tree d] \<and> snapshot_ok True sg m (dk_Tree d1) [md_ID m, md_Revision m]
    \<and> (\<forall>q. \<not> starts [tmp] q \<longrightarrow> \<not> starts [md_ID m, md_Revision m] q \<longrightarrow> map_of (dk_Tree d1) q = map_of (dk_Tree d) q) \<and> untouched tmp d1 d')"
proof -
  obtain d1 y where rn: "Rename_io (snapshot_of tmp) p d = Some (d1, y)" using r by (auto simp: then_io_def split: option.splits)
  note pub = rename_publishes [OF rn mine sn p dir ne]
  show ?thesis
  proof (cases y)
    case (Inl e)
    with r rn pub show ?thesis by (auto simp: then_io_def)
  next
    case (Inr u)
    have plain: "plain_component tmp" using mine by (simp add: mine_def rigid_def real_dirs_def)
    have "then_io (settle_publication sg p tmp m) (\<lambda>_. give_io arts) d1 = Some (d', x)" using r rn Inr by (simp add: then_io_def)
    moreover have "upholds (\<lambda>_. True) (untouched tmp) (then_io (settle_publication sg p tmp m) (\<lambda>_. give_io arts))"
      by (intro un.keeps_then untouched_settle [OF plain] un.keeps_reads [OF reads_calls(1)])
    ultimately have "untouched tmp d1 d'" using upholdsD by blast
    with pub Inr show ?thesis by auto
  qed
qed

lemma after_private_cases:
  assumes a: "after_private sg p m tmp d = Some (d', x)" and mine: "mine tmp d" and p: "modelPrefix m = Inr p" and small: "small_files m"
    and safe: "list_all (\<lambda>f. safeRelative (fl_Path f)) (md_Files m)" and ne: "tmp \<noteq> md_ID m"
  shows "staging tmp (md_ID m) d d' \<and> isl x \<or> (\<exists>d1 d2. staging tmp (md_ID m) d d1 \<and> dk_Past d2 = dk_Past d1 @ [dk_Tree d1]
    \<and> snapshot_ok True sg m (dk_Tree d2) [md_ID m, md_Revision m]
    \<and> (\<forall>q. \<not> starts [tmp] q \<longrightarrow> \<not> starts [md_ID m, md_Revision m] q \<longrightarrow> map_of (dk_Tree d2) q = map_of (dk_Tree d1) q) \<and> untouched tmp d2 d'
    \<and> model_dir m (dk_Tree d1))"
proof -
  have plain: "plain_component tmp" using mine by (simp add: mine_def rigid_def real_dirs_def)
  show ?thesis
    using keeps_bind [OF a [unfolded after_private_def] stays_stage_files [OF plain safe] mine, of "md_ID m"]
  proof (elim disjE exE conjE)
    fix d1 arts
    assume m1: "mine tmp d1" and s1: "staging tmp (md_ID m) d d1"
      and r1: "then_io (write_receipt sg (snapshot_of tmp) m arts) (\<lambda>_. then_io (prepare_publication sg p tmp m) (\<lambda>_.
        then_io (Rename_io (snapshot_of tmp) p) (\<lambda>_. then_io (settle_publication sg p tmp m) (\<lambda>_. give_io arts)))) d1 = Some (d', x)"
    show ?thesis
      using keeps_bind [OF r1 stays_receipt [OF plain] m1, of "md_ID m"]
    proof (elim disjE exE conjE)
      fix d2 u
      assume m2: "mine tmp d2" and s2: "staging tmp (md_ID m) d1 d2"
        and r2: "then_io (prepare_publication sg p tmp m) (\<lambda>_. then_io (Rename_io (snapshot_of tmp) p)
          (\<lambda>_. then_io (settle_publication sg p tmp m) (\<lambda>_. give_io arts))) d2 = Some (d', x)"
      show ?thesis
        using keeps_bind [OF r2 stays_prepare [OF p] m2]
      proof (elim disjE exE conjE)
        fix d3 u
        assume pr: "prepare_publication sg p tmp m d2 = Some (d3, Inr u)" and m3: "mine tmp d3" and s3: "staging tmp (md_ID m) d2 d3"
          and r3: "then_io (Rename_io (snapshot_of tmp) p) (\<lambda>_. then_io (settle_publication sg p tmp m) (\<lambda>_. give_io arts)) d3 = Some (d', x)"
        note ready = prepared [OF pr m2 p small]
        have dir: "dir_at (dk_Tree d3) [md_ID m]" using ready by (auto simp: model_dir_def dir_at_def)
        have s: "staging tmp (md_ID m) d d3" using sp.steps [OF s1 sp.steps [OF s2 s3]] .
        from renamed_complete [OF r3 m3 p ne] ready dir have "still d3 d' \<and> isl x \<or> (\<exists>d4. dk_Past d4 = dk_Past d3 @ [dk_Tree d3]
            \<and> snapshot_ok True sg m (dk_Tree d4) [md_ID m, md_Revision m]
            \<and> (\<forall>q. \<not> starts [tmp] q \<longrightarrow> \<not> starts [md_ID m, md_Revision m] q \<longrightarrow> map_of (dk_Tree d4) q = map_of (dk_Tree d3) q) \<and> untouched tmp d4 d')"
          by blast
        then show ?thesis
        proof
          assume "still d3 d' \<and> isl x"
          with sp.quiet [OF _ m3, of d' "md_ID m"] sp.steps [OF s] show ?thesis by blast
        qed (use s ready in blast)
      qed (use sp.steps [OF s1 sp.steps [OF s2]] in blast)
    qed (use sp.steps [OF s1] in blast)
  qed blast
qed

lemma complete_atomic:
  assumes s: "staging tmp (md_ID m) d d1" and past: "dk_Past d2 = dk_Past d1 @ [dk_Tree d1]" and sn: "snapshot_ok True sg m (dk_Tree d2) [md_ID m, md_Revision m]"
    and other: "\<And>q. \<not> starts [tmp] q \<Longrightarrow> \<not> starts [md_ID m, md_Revision m] q \<Longrightarrow> map_of (dk_Tree d2) q = map_of (dk_Tree d1) q"
    and un: "untouched tmp d2 d'" and md: "model_dir m (dk_Tree d1)" and tmp: "HasPrefix tmp ''.partial-''" "\<not> HasPrefix (md_ID m) ''.partial-''"
  shows "atomic_from sg m d d' \<and> snapshot_ok True sg m (dk_Tree d') [md_ID m, md_Revision m] \<and> model_dir m (dk_Tree d')"
proof -
  let ?b = "[md_ID m, md_Revision m]"
  from un obtain us where us: "dk_Past d' = dk_Past d2 @ us" "\<And>t q. t \<in> set (us @ [dk_Tree d']) \<Longrightarrow> \<not> starts [tmp] q \<Longrightarrow> map_of t q = map_of (dk_Tree d2) q"
    by (auto simp: untouched_def)
  from s obtain ts where ts: "dk_Past d1 = dk_Past d @ ts" by (auto simp: staging_def)
  have trees: "trees_since d d' = trees_since d d1 @ us @ [dk_Tree d']" using ts us(1) past by (simp add: trees_since_def)
  have before: "atomic_from sg m d d1" by (rule staging_atomic [OF s tmp])
  then have last: "staged_over sg m (dk_Tree d) (dk_Tree d1)" by (simp add: trees_since_def)
  have b: "\<not> starts [tmp] (?b @ r)" "\<not> starts [tmp] []" for r using tmp by (auto simp: starts_def)
  have after: "snapshot_ok True sg m t ?b \<and> staged_over sg m (dk_Tree d) t" if "t \<in> set (us @ [dk_Tree d'])" for t
  proof -
    have ok: "snapshot_ok True sg m t ?b"
      using snapshot_copied [of t ?b "dk_Tree d2" ?b True sg m] us(2) [OF that] b sn by simp
    have "content_at t q = content_at (dk_Tree d) q" if q: "\<not> partial_path q" "q \<noteq> [md_ID m]" "\<not> starts ?b q" for q
    proof -
      have "\<not> starts [tmp] q" using q(1) starts_partial [OF tmp(1)] by blast
      then have "content_at t q = content_at (dk_Tree d1) q"
        using us(2) [OF \<open>t \<in> set (us @ [dk_Tree d'])\<close>] other q(3) by (simp add: content_at_def)
      also have "\<dots> = content_at (dk_Tree d) q" using last q by (simp add: staged_over_def)
      finally show ?thesis .
    qed
    with ok show ?thesis by (simp add: staged_over_def)
  qed
  have "tmp \<noteq> md_ID m" using tmp by blast
  then have "map_of (dk_Tree d') q = map_of (dk_Tree d1) q" if "q \<in> {[], [md_ID m]}" for q
    using us(2) [of "dk_Tree d'" q] other [of q] that by (auto simp: starts_def)
  then have "model_dir m (dk_Tree d')" using md by (simp add: model_dir_def root_gid_def)
  with before after show ?thesis unfolding trees by auto
qed

lemma fresh_atomic:
  assumes st: "stage_fresh sg p m d = Some (d', x)" and wf: "wf_tree (dk_Tree d)" and p: "modelPrefix m = Inr p" and small: "small_files m"
  shows "atomic_from sg m d d' \<and> (\<not> isl x \<longrightarrow> snapshot_ok True sg m (dk_Tree d') [md_ID m, md_Revision m] \<and> model_dir m (dk_Tree d'))"
  using keeps_bind [OF st [unfolded stage_fresh_parts] reads_admit TrueI]
proof (elim disjE exE conjE)
  fix d1 u
  assume d1: "admit sg m d = Some (d1, Inr u)" "idle d d1" "then_io private_tree (after_private sg p m) d1 = Some (d', x)"
  note pp = prefix_parts [OF p]
  have tree1: "dk_Tree d1 = dk_Tree d" "dk_Past d1 = dk_Past d" using d1(2) by (simp_all add: still_def idle_def)
  have from1: "atomic_from sg m d a = atomic_from sg m d1 a" for a by (simp add: trees_since_def tree1)
  have safe: "list_all (\<lambda>f. safeRelative (fl_Path f)) (md_Files m)" by (rule admit_safe [OF d1(1)])
  obtain d2 y where pr: "private_tree d1 = Some (d2, y)" using d1(3) by (auto simp: then_io_def split: option.splits)
  have wf1: "wf_tree (dk_Tree d1)" using wf tree1 by simp
  show ?thesis
    using private_made [OF pr wf1, of "md_ID m"]
  proof (elim disjE exE conjE)
    assume "still d1 d2" "isl y"
    with d1(3) pr have "still d1 d'" "isl x" by (auto simp: then_io_def isl_def)
    then show ?thesis using still_atomic from1 by auto
  next
    fix tmp
    assume tmp: "HasPrefix tmp ''.partial-''" "mine tmp d2" "staging tmp (md_ID m) d1 d2" "\<forall>u. y = Inr u \<longrightarrow> u = tmp"
    have ne: "tmp \<noteq> md_ID m" using tmp(1) pp(6) by auto
    show ?thesis
    proof (cases y)
      case (Inl e)
      with d1(3) pr have "d' = d2" "isl x" by (auto simp: then_io_def)
      with staging_atomic [OF tmp(3,1) pp(6)] show ?thesis using from1 by auto
    next
      case (Inr u)
      with d1(3) pr tmp(4) have k: "after_private sg p m tmp d2 = Some (d', x)" by (auto simp: then_io_def)
      show ?thesis
        using after_private_cases [OF k tmp(2) p small safe ne]
      proof (elim disjE exE conjE)
        assume "staging tmp (md_ID m) d2 d'" "isl x"
        with staging_atomic [OF sp.steps [OF tmp(3)] tmp(1) pp(6)] show ?thesis using from1 by auto
      next
        fix d3 d4
        assume "staging tmp (md_ID m) d2 d3" "dk_Past d4 = dk_Past d3 @ [dk_Tree d3]" "snapshot_ok True sg m (dk_Tree d4) [md_ID m, md_Revision m]"
          "\<forall>q. \<not> starts [tmp] q \<longrightarrow> \<not> starts [md_ID m, md_Revision m] q \<longrightarrow> map_of (dk_Tree d4) q = map_of (dk_Tree d3) q" "untouched tmp d4 d'" "model_dir m (dk_Tree d3)"
        with complete_atomic [OF sp.steps [OF tmp(3)] _ _ _ _ _ tmp(1) pp(6)] show ?thesis using from1 by auto
      qed
    qed
  qed
qed (use still_atomic in \<open>auto simp: idle_def\<close>)

text \<open>
  C9: Publication is all or nothing. In every tree that staging passes through, whatever fails and wherever it stops,
  the published path of the model holds what it held before or a complete snapshot: every file with its reviewed size
  and digest, a matching receipt, nothing else, and reader modes. Other models and files keep their content.
\<close>

theorem publication_atomic:
  assumes "Stage sg m d = Some (d', x)" and "wf_tree (dk_Tree d)" and "small_files m" and "t \<in> set (trees_since d d')"
  shows "staged_over sg m (dk_Tree d) t"
proof -
  have tree: "atomic_from sg m d d' = atomic_from sg m d1 d'" if "idle d d1" for d1
    using that by (simp add: trees_since_def idle_def still_def)
  from assms(1) have "atomic_from sg m d d'"
  proof (cases rule: Stage_cases)
    case stopped
    then have "still d d'" by (simp add: idle_def)
    then show ?thesis by (rule still_atomic)
  next
    case (fresh p d1)
    have "wf_tree (dk_Tree d1)" using assms(2) fresh(2) by (simp add: idle_def still_def)
    with fresh_atomic [OF fresh(3) _ fresh(1) assms(3)] show ?thesis using tree [OF fresh(2)] by blast
  next
    case (repair p d1)
    then have "modes_only d1 d'" using upholdsD [OF modes_repair TrueI] by blast
    with modes_atomic show ?thesis using tree [OF repair(2)] by blast
  qed
  with assms(4) show ?thesis by blast
qed

end
