(* ===== verification/StagerVerify.thy ===== *)
theory StagerVerify
  imports StagerPublish
begin

text \<open>
  What \<open>Stage\<close> and \<open>Verify\<close> promise when they succeed, and that they agree: a model that was staged verifies.
  The second rests on replaying a successful read-only operation on the same tree without faults.
\<close>

section \<open>An accepted snapshot is the reviewed one\<close>

lemma model_dir_real: "model_dir m t \<Longrightarrow> modelPrefix m = Inr p \<Longrightarrow> real_dirs t [md_ID m]"
  using prefix_parts(2) [of m p] by (auto simp: model_dir_def real_dirs_def dir_at_def)

lemma published_validated:
  assumes "validateSnapshot sg p m True d = Some (d', Inr arts)" and "modelPrefix m = Inr p" and "model_dir m (dk_Tree d)"
    and "small_files m" and "wf_tree (dk_Tree d)"
  shows "snapshot_ok True sg m (dk_Tree d) [md_ID m, md_Revision m] \<and> arts = verified_artifacts sg m (dk_Tree d) [md_ID m, md_Revision m]"
proof -
  note pp = prefix_parts [OF assms(2)]
  have "rigid ([md_ID m] @ [md_Revision m]) (dk_Tree d)"
    by (rule validated_rigid [OF assms(1)]) (use pp model_dir_real [OF assms(3,2)] in simp_all)
  then show ?thesis using snapshot_validated [OF assms(1,4,5)] pp(4) by simp
qed

lemma repair_accepted:
  assumes r: "repairPublishedPermissions sg p m d = Some (d', Inr arts)" and p: "modelPrefix m = Inr p" and "small_files m" and wf: "wf_tree (dk_Tree d)"
  obtains e where "snapshot_ok True sg m (dk_Tree d') [md_ID m, md_Revision m]" and "model_dir m (dk_Tree d')"
    and "validateSnapshot sg p m True e = Some (d', Inr (verified_artifacts sg m (dk_Tree d') [md_ID m, md_Revision m]))"
proof -
  from r obtain d1 d2 d3 u v arts' where 1: "validateSnapshot sg p m False d = Some (d1, Inr arts)" and 2: "setModelParentPermissions p d1 = Some (d2, Inr u)"
    and 3: "setPublishedSnapshotPermissions p m d2 = Some (d3, Inr v)" and 4: "validateSnapshot sg p m True d3 = Some (d', Inr arts')"
    by (auto simp: repairPublishedPermissions_def)
  have t1: "dk_Tree d1 = dk_Tree d" using reads_tree [OF reads_validation(3) 1] by simp
  have t4: "dk_Tree d' = dk_Tree d3" using reads_tree [OF reads_validation(3) 4] by simp
  have "wf_tree (dk_Tree d2)" using upholdsD [OF wf_permissions(2) _ 2] wf t1 by simp
  then have w3: "wf_tree (dk_Tree d3)" using upholdsD [OF wf_permissions(1) _ 3] by simp
  have "remoded (dk_Tree d2) (dk_Tree d3)" using modes_remoded upholdsD [OF modes_permissions(1) TrueI 3] by blast
  then have dir: "model_dir m (dk_Tree d3)" using model_dir_remoded parent_published [OF 2 p] by blast
  from published_validated [OF 4 p dir assms(3) w3] dir 4 that show thesis by (simp add: t4)
qed

lemma stage_accepted:
  assumes s: "Stage sg m d = Some (d', Inr arts)" and "small_files m" and wf: "wf_tree (dk_Tree d)"
  shows "snapshot_ok True sg m (dk_Tree d') [md_ID m, md_Revision m] \<and> model_dir m (dk_Tree d')"
  using s
proof (cases rule: Stage_cases)
  case (fresh p d1)
  have "wf_tree (dk_Tree d1)" using wf fresh(2) by (simp add: idle_def still_def)
  with fresh_atomic [OF fresh(3) _ fresh(1) assms(2)] show ?thesis by simp
next
  case (repair p d1)
  have "wf_tree (dk_Tree d1)" using wf repair(2) by (simp add: idle_def still_def)
  from repair_accepted [OF repair(3,1) assms(2) this] show ?thesis by blast
qed simp

lemma verify_parts:
  assumes v: "Verify sg m d = Some (d', Inr arts)"
  obtains p d1 d2 where "modelPrefix m = Inr p" and "idle d d1" and "publishedReaderModes p m d1 = Some (d2, Inr ())" and "idle d1 d2"
    and "validateSnapshot sg p m True d2 = Some (d', Inr arts)" and "idle d2 d'"
  using with_prefix_cases [OF v [unfolded Verify_def]]
proof (elim disjE exE conjE)
  fix p d1
  assume p: "modelPrefix m = Inr p" "idle d d1" "then_io (publishedReaderModes p m) (\<lambda>_. validateSnapshot sg p m True) d1 = Some (d', Inr arts)"
  then obtain d2 u where d2: "publishedReaderModes p m d1 = Some (d2, Inr u)" "validateSnapshot sg p m True d2 = Some (d', Inr arts)" by auto
  have r: "only_reads (publishedReaderModes p m)" unfolding publishedReaderModes_def by (intro reading_rules)
  from upholdsD [OF r TrueI d2(1)] upholdsD [OF reads_validation(3) TrueI d2(2)] p d2 that [of p d1 d2] show thesis by simp
qed simp

lemma verify_accepted:
  assumes v: "Verify sg m d = Some (d', Inr arts)" and "small_files m" and wf: "wf_tree (dk_Tree d)"
  shows "snapshot_ok True sg m (dk_Tree d') [md_ID m, md_Revision m] \<and> arts = verified_artifacts sg m (dk_Tree d') [md_ID m, md_Revision m]"
proof (rule verify_parts [OF v])
  fix p d1 d2
  assume p: "modelPrefix m = Inr p" and i: "idle d d1" "idle d1 d2" "idle d2 d'" and m: "publishedReaderModes p m d1 = Some (d2, Inr ())"
    and s: "validateSnapshot sg p m True d2 = Some (d', Inr arts)"
  note pp = prefix_parts [OF p]
  have tree: "dk_Tree d1 = dk_Tree d" "dk_Tree d2 = dk_Tree d" "dk_Tree d' = dk_Tree d" using i by (simp_all add: idle_def still_def)
  from m obtain gid a b where g: "rootGroup d1 = Some (a, Inr gid)" "requireReaderDirectory (md_ID m) gid a = Some (b, Inr ())"
    by (auto simp: publishedReaderModes_def pp(5))
  have "gid = root_gid (dk_Tree a)" "dk_Tree a = dk_Tree d" using rootGroup_gid [OF g(1)] tree by (simp_all add: still_def)
  then have "model_dir m (dk_Tree d)" using required_model_dir [of m a b "()"] g(2) p by simp
  with published_validated [OF s p] assms(2) wf tree show ?thesis by simp
qed

text \<open>
  C13: What is accepted is what was reviewed. When \<open>Stage\<close> or \<open>Verify\<close> succeeds, the published directory holds every
  file of the manifest with its reviewed size and digest and a receipt that matches, no other entry, no link, the
  reader group throughout, and exactly the reader modes.
\<close>

theorem accepted_is_reviewed:
  assumes "Stage sg m d = Some (d', Inr arts) \<or> Verify sg m d = Some (d', Inr arts)" and "small_files m" and "wf_tree (dk_Tree d)"
  shows "snapshot_ok True sg m (dk_Tree d') [md_ID m, md_Revision m]"
  using assms(1) stage_accepted [OF _ assms(2,3)] verify_accepted [OF _ assms(2,3)] by blast

section \<open>A staged model verifies\<close>

text \<open>\<open>replays m\<close>: a success of \<open>m\<close> repeats on any disk with the same tree and no faults, and changes nothing there.\<close>

definition replays :: "'a io \<Rightarrow> bool" where
  "replays m \<longleftrightarrow> (\<forall>d d' a e. m d = Some (d', Inr a) \<longrightarrow> dk_Tree d' = dk_Tree d
     \<and> (dk_Tree e = dk_Tree d \<longrightarrow> dk_Faults e = [] \<longrightarrow> m e = Some (e, Inr a)))"

named_theorems replay_rules

lemma replaysD: "replays m \<Longrightarrow> m d = Some (d', Inr a) \<Longrightarrow> dk_Tree e = dk_Tree d \<Longrightarrow> dk_Faults e = [] \<Longrightarrow> m e = Some (e, Inr a)"
  unfolding replays_def by blast

lemma replays_tree: "replays m \<Longrightarrow> m d = Some (d', Inr a) \<Longrightarrow> dk_Tree d' = dk_Tree d"
  unfolding replays_def by blast

lemma replays_steps [replay_rules]:
  "replays (give_io a)" "replays (fail_io x)" "replays (check_io b msg)" "replays (computed c)" "replays (need y)"
  by (auto simp: replays_def need_def split: sum.split)

lemma replays_attempt [replay_rules]: "replays try_call"
proof -
  have "try_call e = Some (e, Inr u)" if "dk_Faults e = []" for e u using that by (simp add: try_call_def)
  then show ?thesis unfolding replays_def using try_call_Inr still_def by metis
qed

lemma replays_then [replay_rules]:
  assumes "replays m" and "\<And>a. replays (f a)"
  shows "replays (then_io m f)"
  unfolding replays_def
proof (intro allI impI)
  fix d d' a e
  assume "then_io m f d = Some (d', Inr a)"
  then obtain d1 b where 1: "m d = Some (d1, Inr b)" and 2: "f b d1 = Some (d', Inr a)" by auto
  have t: "dk_Tree d1 = dk_Tree d" "dk_Tree d' = dk_Tree d" using assms 1 2 unfolding replays_def by metis+
  have "then_io m f e = Some (e, Inr a)" if "dk_Tree e = dk_Tree d" "dk_Faults e = []"
    using replaysD [OF assms(1) 1] replaysD [OF assms(2) 2] that t by (simp add: then_io_def)
  with t show "dk_Tree d' = dk_Tree d \<and> (dk_Tree e = dk_Tree d \<longrightarrow> dk_Faults e = [] \<longrightarrow> then_io m f e = Some (e, Inr a))" by blast
qed

lemma replays_observe [replay_rules]: "replays (observe f)"
  unfolding observe_def by (rule replays_then [OF replays_attempt]) (simp add: replays_def)

lemma replays_relabel [replay_rules]: "replays m \<Longrightarrow> replays (relabel m x)"
  unfolding replays_def relabel_Inr .

lemma replays_if [replay_rules]: "replays m \<Longrightarrow> replays n \<Longrightarrow> replays (if b then m else n)"
  by simp

lemma replays_each [replay_rules]: "(\<And>x. replays (f x)) \<Longrightarrow> replays (each_io f xs)"
  by (induction xs) (auto intro: replay_rules)

lemma replays_map [replay_rules]: "(\<And>x. replays (f x)) \<Longrightarrow> replays (map_io f xs)"
  by (induction xs) (auto intro!: replay_rules)

lemma replays_lookups [replay_rules]:
  "replays (Lstat_io p)" "replays stat_root" "replays (Open_io p)" "replays (read_io h)"
  unfolding Lstat_io_def stat_root_def Open_io_def read_io_def by (intro replay_rules)+

lemma replays_checks [replay_rules]:
  "replays rootGroup" "replays (checkedDirectory p gid)" "replays (checkedRegularFile p gid)" "replays (requireReaderDirectory p gid)"
  "replays (requireReaderFile p gid)" "replays (check_directory b gid p)" "replays (check_file b gid p)" "replays (visit_snapshot ds es r i)"
  unfolding rootGroup_def checkedDirectory_def checkedRegularFile_def requireReaderDirectory_def requireReaderFile_def check_directory_def
    check_file_def visit_snapshot_def
  by (intro replay_rules)+

lemma replays_validation [replay_rules]:
  "replays (validate_file sg snapshot m b gid f)" "replays (validate_receipt sg snapshot m b gid arts)" "replays (validateSnapshot sg snapshot m b)"
proof -
  show f: "replays (validate_file sg snapshot m b gid f)" for gid f unfolding validate_file_def Let_def by (intro replay_rules)
  show r: "replays (validate_receipt sg snapshot m b gid arts)" for gid arts
    unfolding validate_receipt_def Let_def by (auto intro!: replay_rules split: option.split)
  show "replays (validateSnapshot sg snapshot m b)"
    unfolding validateSnapshot_def WalkDir_def visit_entry_def by (auto intro!: replay_rules f r split: prod.split)
qed

lemma each_quiet: "(\<And>x. x \<in> set xs \<Longrightarrow> f x e = Some (e, Inr ())) \<Longrightarrow> each_io f xs e = Some (e, Inr ())"
  by (induction xs) (simp_all add: give_io_def then_io_def)

lemma model_dir_required:
  assumes "model_dir m (dk_Tree e)" and "modelPrefix m = Inr p" and "dk_Faults e = []"
  shows "requireReaderDirectory (md_ID m) (root_gid (dk_Tree e)) e = Some (e, Inr ())"
proof -
  note pp = prefix_parts [OF assms(2)]
  from assms(1) obtain i where i: "map_of (dk_Tree e) [md_ID m] = Some i" "is_dir i" "reader_directory i" "in_Gid i = root_gid (dk_Tree e)"
    by (auto simp: model_dir_def)
  have "md_ID m \<noteq> []" "md_ID m \<noteq> ''.''" "md_ID m \<noteq> ''..''" "comps (md_ID m) = [md_ID m]"
    using pp(2) by (auto simp: plain_component_def comps_plain)
  then have "lstat_at (dk_Tree e) (md_ID m) = Inr i"
    using i by (simp add: lstat_at_def place_def tree_entry_def is_dir_def)
  moreover have "\<not> is_symlink i" using i(2) by (auto simp: is_dir_def is_symlink_def)
  ultimately show ?thesis using i assms(3)
    by (simp add: requireReaderDirectory_def checkedDirectory_def Lstat_io_def observe_def try_call_def then_io_def check_io_def give_io_def)
qed

lemma modes_follow:
  assumes v: "validateSnapshot sg p m True d = Some (d', Inr arts)" and p: "modelPrefix m = Inr p"
    and e: "model_dir m (dk_Tree e)" "dk_Tree e = dk_Tree d" "dk_Faults e = []"
  shows "publishedReaderModes p m e = Some (e, Inr ())"
proof -
  let ?g = "root_gid (dk_Tree e)"
  from v obtain gid ds d1 d2 d3 d4 where 1: "rootGroup d = Some (d1, Inr gid)" and ds: "snapshotDirectories m = Some ds"
    and "each_io (\<lambda>dir. check_directory True gid (joinSnapshot p dir)) ds d1 = Some (d2, Inr ())"
    and 3: "map_io (validate_file sg p m True gid) (md_Files m) d2 = Some (d3, Inr arts)"
    and 4: "validate_receipt sg p m True gid arts d3 = Some (d4, Inr ())"
    by (auto simp: validateSnapshot_def)
  then have 2: "each_io (\<lambda>dir. requireReaderDirectory (joinSnapshot p dir) gid) ds d1 = Some (d2, Inr ())" by (simp add: check_directory_def)
  have t1: "dk_Tree d1 = dk_Tree d" and gid: "gid = ?g" using rootGroup_gid [OF 1] e(2) by (simp_all add: still_def)
  have t2: "dk_Tree d2 = dk_Tree d"
    using replays_tree [OF replays_each 2] replays_checks(4) t1 by simp
  have t3: "dk_Tree d3 = dk_Tree d"
    using replays_tree [OF replays_map 3] replays_validation(1) t2 by simp
  have each: "requireReaderFile (p @ slash # fl_Path f) ?g e = Some (e, Inr ())" if f: "f \<in> set (md_Files m)" for f
  proof -
    from map_reads [OF 3 reads_validation(1)] f obtain a d5 d6 where s: "still d2 d5" "validate_file sg p m True gid f d5 = Some (d6, Inr a)"
      by (auto simp: list_all2_conv_all_nth in_set_conv_nth)
    then obtain d7 d8 d9 i where "try_call d5 = Some (d7, Inr ())" "checkedRegularFile (p @ slash # fl_Path f) gid d7 = Some (d8, Inr i)"
        and r: "requireReaderFile (p @ slash # fl_Path f) gid d8 = Some (d9, Inr ())"
      by (auto simp: validate_file_def Let_def)
    then have "dk_Tree d8 = dk_Tree d" using replays_tree [OF replays_attempt] replays_tree [OF replays_checks(3)] s(1) t2 by (simp add: still_def)
    then show ?thesis using replaysD [OF replays_checks(5) r] e gid by simp
  qed
  from 4 obtain d5 where "requireReaderFile (p @ slash # receipt_name) gid d3 = Some (d5, Inr ())"
    by (auto simp: validate_receipt_def Let_def check_file_def)
  then have receipt: "requireReaderFile (p @ slash # receipt_name) ?g e = Some (e, Inr ())"
    using replaysD [OF replays_checks(5), of "p @ slash # receipt_name" gid d3 d5] e gid t3 by simp
  have "rootGroup e = Some (e, Inr ?g)" using replaysD [OF replays_checks(1) 1 e(2,3)] gid by simp
  moreover have "each_io (\<lambda>dir. requireReaderDirectory (joinSnapshot p dir) ?g) ds e = Some (e, Inr ())"
    using replaysD [OF replays_each 2, of e] replays_checks(4) e t1 gid by simp
  moreover have "each_io (\<lambda>path. requireReaderFile (p @ slash # path) ?g) (map fl_Path (md_Files m) @ [receipt_name]) e = Some (e, Inr ())"
    using each receipt by (intro each_quiet) auto
  ultimately show ?thesis
    using model_dir_required [OF e(1) p e(3)] ds by (simp add: publishedReaderModes_def then_io_def computed_def prefix_parts(5) [OF p])
qed

lemma staged_validated:
  assumes s: "Stage sg m d = Some (d', Inr arts)" and "small_files m" and wf: "wf_tree (dk_Tree d)"
  obtains p e e' arts' where "modelPrefix m = Inr p" and "validateSnapshot sg p m True e = Some (e', Inr arts')" and "dk_Tree e = dk_Tree d'"
  using s
proof (cases rule: Stage_cases)
  case (fresh p d1)
  from fresh(3) obtain tmp d2 d3 where "settle_publication sg p tmp m d2 = Some (d3, Inr ())" "d' = d3" by (auto simp: stage_fresh_def give_io_def)
  then obtain d4 as where v: "validateSnapshot sg p m True d4 = Some (d', Inr as)" by (auto simp: settle_publication_def give_io_def)
  with reads_tree [OF reads_validation(3) v] fresh(1) that show thesis by simp
next
  case (repair p d1)
  have "wf_tree (dk_Tree d1)" using wf repair(2) by (simp add: idle_def still_def)
  from repair_accepted [OF repair(3,1) assms(2) this] obtain e as where v: "validateSnapshot sg p m True e = Some (d', Inr as)" by blast
  with reads_tree [OF reads_validation(3) v] repair(1) that show thesis by simp
qed simp

text \<open>
  C21: A staged model verifies. After \<open>Stage\<close> succeeded, \<open>Verify\<close> on the same tree succeeds unless a call fails,
  changes nothing, and returns the artifacts of the manifest with the digests of the published files.
\<close>

theorem staged_model_verifies:
  assumes "Stage sg m d = Some (d', Inr arts)" and "small_files m" and "wf_tree (dk_Tree d)"
    and "dk_Tree e = dk_Tree d'" and "dk_Faults e = []"
  shows "Verify sg m e = Some (e, Inr (verified_artifacts sg m (dk_Tree d') [md_ID m, md_Revision m]))"
proof (rule staged_validated [OF assms(1-3)])
  fix p a a' as
  assume p: "modelPrefix m = Inr p" and v: "validateSnapshot sg p m True a = Some (a', Inr as)" and t: "dk_Tree a = dk_Tree d'"
  have dir: "model_dir m (dk_Tree e)" using stage_accepted [OF assms(1-3)] assms(4) by simp
  have "publishedReaderModes p m e = Some (e, Inr ())" using modes_follow [OF v p dir] assms(4,5) t by simp
  moreover have "validateSnapshot sg p m True e = Some (e, Inr as)" using replaysD [OF replays_validation(3) v] assms(4,5) t by simp
  ultimately have ver: "Verify sg m e = Some (e, Inr as)"
    using p assms(5) by (simp add: Verify_def with_prefix_def then_io_def try_call_def need_def give_io_def)
  have "wf_tree (dk_Tree e)" using upholdsD [OF wf_stager(1) assms(3,1)] assms(4) by simp
  from verify_accepted [OF ver assms(2) this] ver assms(4) show ?thesis by simp
qed

end
