(* ===== verification/StagerExample.thy ===== *)
theory StagerExample
  imports StagerVerify
begin

text \<open>
  A model of one file, published through a redirect, and the properties of staging on it.
\<close>

definition ex_pad :: "string \<Rightarrow> string" where
  "ex_pad b = b @ replicate (40 - length b) CHR ''0''"

definition ex_model :: CatalogModel where
  "ex_model = \<lparr>md_ID = ''M'', md_Repository = ''Q/M'', md_Revision = replicate 40 CHR ''a'', md_License = [], md_Quantization = [],
     md_Files = [\<lparr>fl_Path = ''w'', fl_Size = 1, fl_Algorithm = ''git-sha1'', fl_Digest = ex_pad ''blob ''\<rparr>], md_Size = 1, md_GPUs = 1,
     md_Context = 4096, md_Status = []\<rparr>"

definition ex_upstream :: "URL list \<Rightarrow> reply" where
  "ex_upstream us = (if length us = 1 then Redirected ((last us)\<lparr>url_Host := ''cdn-lfs.hf.co''\<rparr>)
     else Replied \<lparr>rp_Status = 200, rp_ContentLength = - 1, rp_Body = [''x''], rp_End = None\<rparr>)"

definition ex_receipt :: stagedReceipt where
  "ex_receipt = \<lparr>sr_Model = ''M'', sr_Revision = replicate 40 CHR ''a'', sr_ManifestHash = ''h'', sr_Status = verified_qualification,
     sr_Files = [\<lparr>a_Name = ''w'', a_SHA256 = ''x'', a_Size = 1, a_SourceRevision = replicate 40 CHR ''a'',
       a_Qualification = staged_qualification, a_Content = []\<rparr>], sr_VerifiedAt = 5\<rparr>"

definition ex_stager :: Stager where
  "ex_stager = \<lparr>sg_Budget = 1000, sg_Free = (\<lambda>_. Inr (2 ^ 40)), sg_Upstream = ex_upstream, sg_Lookup = (\<lambda>_. Inr [[8, 8, 8, 8]]),
     sg_Connect = (\<lambda>_. True), sg_Pooled = (\<lambda>_. False), sg_Progress = False, sg_SHA256 = (\<lambda>b. b), sg_SHA1 = (\<lambda>b. ex_pad (take 5 b)),
     sg_Hash = (\<lambda>_. ''h''), sg_Encode = (\<lambda>_. ''r''), sg_Decode = (\<lambda>b. if b = ''r'' then Some ex_receipt else None),
     sg_Format = (\<lambda>_. ''then'')\<rparr>"

definition ex_disk :: Disk where
  "ex_disk = \<lparr>dk_Tree = [([], \<lparr>in_Content = Directory, in_Perm = 488, in_Setuid = False, in_Setgid = True, in_Sticky = False, in_Gid = 7\<rparr>)],
     dk_Past = [], dk_Faults = [], dk_Clock = [1, 5], dk_Random = [3], dk_Umask = 63, dk_Gid = 5, dk_Asked = [], dk_Dialled = [],
     dk_Reports = []\<rparr>"

definition ex_staged_disk :: Disk where
  "ex_staged_disk = (case Stage ex_stager ex_model ex_disk of Some (d, _) \<Rightarrow> d | None \<Rightarrow> ex_disk)"

definition ex_arts :: "Artifact list" where
  "ex_arts = (case Stage ex_stager ex_model ex_disk of Some (_, Inr arts) \<Rightarrow> arts | _ \<Rightarrow> [])"

lemma ex_stage_run: "(case Stage ex_stager ex_model ex_disk of Some (d, Inr arts) \<Rightarrow> dk_Asked d \<noteq> [] \<and> dk_Faults d = [] | _ \<Rightarrow> False)"
  by code_simp

lemma ex_staged: "Stage ex_stager ex_model ex_disk = Some (ex_staged_disk, Inr ex_arts)" "dk_Asked ex_staged_disk \<noteq> []" "dk_Faults ex_staged_disk = []"
  using ex_stage_run by (cases "Stage ex_stager ex_model ex_disk"; auto simp: ex_staged_disk_def ex_arts_def split: sum.split_asm)+

lemma ex_tree: "wf_tree (dk_Tree ex_disk)" "small_files ex_model"
  by (simp_all add: ex_disk_def ex_model_def small_files_def wf_tree_def dir_at_def is_dir_def)


theorem publication_atomic_witness:
  "dk_Tree ex_staged_disk \<in> set (trees_since ex_disk ex_staged_disk) \<and> staged_over ex_stager ex_model (dk_Tree ex_disk) (dk_Tree ex_staged_disk)"
  using publication_atomic [OF ex_staged(1) ex_tree] by (simp add: trees_since_def)

theorem accepted_is_reviewed_witness: "snapshot_ok True ex_stager ex_model (dk_Tree ex_staged_disk) [''M'', replicate 40 CHR ''a'']"
  using accepted_is_reviewed [of ex_stager ex_model ex_disk ex_staged_disk ex_arts] ex_staged(1) ex_tree by (simp add: ex_model_def)

theorem staged_model_verifies_witness:
  "Verify ex_stager ex_model ex_staged_disk = Some (ex_staged_disk, Inr (verified_artifacts ex_stager ex_model (dk_Tree ex_staged_disk) [md_ID ex_model, md_Revision ex_model]))"
  using staged_model_verifies [OF ex_staged(1) ex_tree(2,1) refl ex_staged(3)] .


theorem downloads_within_budget_witness: "manifest_bytes ex_model + tree_bytes (dk_Tree ex_disk) \<le> sg_Budget ex_stager"
proof -
  have "dk_Asked ex_staged_disk \<noteq> dk_Asked ex_disk" using ex_staged(2) by (simp add: ex_disk_def)
  from downloads_within_budget [OF ex_staged(1) this] show ?thesis
    by (simp add: ex_stager_def ex_model_def ex_disk_def tree_bytes_def body_def)
qed

theorem stager_returns_witness: "Stage ex_stager ex_model ex_disk \<noteq> None \<and> stager_Status ex_stager ex_model ex_disk \<noteq> None"
proof -
  have "list_all (\<lambda>f. safeRelative (fl_Path f)) (md_Files ex_model)" by code_simp
  from stager_returns [OF this] show ?thesis by blast
qed

theorem repair_keeps_content_witness: "\<exists>d x. RepairPublishedPermissions ex_stager ex_model ex_staged_disk = Some (d, x)
    \<and> content_at (dk_Tree d) [''M''] = content_at (dk_Tree ex_staged_disk) [''M'']"
proof -
  have "list_all (\<lambda>f. safeRelative (fl_Path f)) (md_Files ex_model)" by code_simp
  from returns_stager(3) [OF this] obtain d x where "RepairPublishedPermissions ex_stager ex_model ex_staged_disk = Some (d, x)"
    unfolding returns_def by fast
  with repair_keeps_content [of ex_stager ex_model ex_staged_disk d x "dk_Tree d" "[''M'']"] show ?thesis by (auto simp: trees_since_def)
qed

definition ex_absolute :: CatalogModel where
  "ex_absolute = ex_model\<lparr>md_Files := [\<lparr>fl_Path = ''/w'', fl_Size = 1, fl_Algorithm = ''git-sha1'', fl_Digest = []\<rparr>]\<rparr>"

theorem absolute_path_never_returns_witness: "VerifyContent ex_stager ex_absolute ex_disk = None"
proof (rule absolute_path_never_returns)
  show "modelPrefix ex_absolute = Inr (''M/'' @ replicate 40 CHR ''a'')" by code_simp
qed (auto simp: ex_absolute_def ex_disk_def IsAbs_def HasPrefix_def)

end
