(* ===== verification/MemoryEvidence.thy ===== *)
theory MemoryEvidence
  imports Kube Live Stager SafeFile
begin

text \<open>
  The evidence bundles of \<open>internal/memory\<close>: bounded reads that refuse links, the manifest and the exact tree it
  seals (\<open>evidence.go\<close>), and the private output directory (\<open>output.go\<close>).

  The operating system is a parameter: what \<open>Lstat\<close>, \<open>Open\<close>, \<open>Stat\<close>, a read, a walk and \<open>ReadDir\<close> answer for a
  path. Any of them may fail, a cancelled context being one of the reasons; the answers do not change during one call.
  So are \<open>encoding/json\<close> and \<open>crypto/sha256\<close>.
\<close>

section \<open>Parents of a path\<close>

definition weight :: "string list \<Rightarrow> nat" where
  "weight ws = sum_list (map (\<lambda>w. Suc (length w)) ws)"

lemma weight_simps [simp]: "weight [] = 0" "weight (w # ws) = Suc (length w) + weight ws" "weight (ws @ vs) = weight ws + weight vs"
    "weight (List.rev ws) = weight ws"
  by (simp_all add: weight_def rev_map [symmetric])

lemma weight_split: "weight (split_on c p) = Suc (length p)"
  by (induction c p rule: split_on.induct) (auto split: list.splits)

lemma weight_join: "length (join_with c ws) = weight ws - 1"
  by (induction c ws rule: join_with.induct) auto

lemma weight_clean: "weight (clean_components rooted out ws) \<le> weight out + weight (filter (\<lambda>w. w \<noteq> []) ws)"
proof (induction rooted out ws rule: clean_components.induct)
  case (2 rooted out w ws)
  then show ?case by (cases out) auto
qed simp

lemma filter_weight: "weight (filter P ws) \<le> weight ws"
  by (induction ws) auto

lemma Clean_length: "length (Clean p) \<le> max 1 (length p)"
proof (cases "p = []")
  case False
  let ?cs = "clean_components (IsAbs p) [] (split_on slash p)"
  have le: "weight ?cs \<le> weight (filter (\<lambda>w. w \<noteq> []) (split_on slash p))" using weight_clean [of "IsAbs p" "[]"] by simp
  show ?thesis
  proof (cases "IsAbs p")
    case True
    then obtain r where "p = slash # r" by (cases p) (auto simp: IsAbs_def HasPrefix_def)
    then have "weight ?cs \<le> length p" using le filter_weight [of "\<lambda>w. w \<noteq> []" "split_on slash r"] by (simp add: weight_split)
    with True False show ?thesis by (simp add: Clean_def weight_join)
  next
    case False
    have "weight ?cs \<le> Suc (length p)" using le filter_weight [of "\<lambda>w. w \<noteq> []" "split_on slash p"] by (simp add: weight_split)
    with False \<open>p \<noteq> []\<close> show ?thesis by (auto simp: Clean_def weight_join Let_def)
  qed
qed (simp add: Clean_def)

lemma split_end: "split_on c (p @ [c]) = split_on c p @ [[]]"
  by (induction c p rule: split_on.induct) (auto split: list.splits)

lemma Clean_shorter:
  assumes "p \<noteq> []"
  shows "length (Clean (p @ ''/'')) \<le> length p"
proof -
  let ?p = "p @ ''/''"
  let ?cs = "clean_components (IsAbs p) [] (split_on slash p)"
  have abs: "IsAbs ?p = IsAbs p" using assms by (cases p) (auto simp: IsAbs_def HasPrefix_def)
  have more: "clean_components b out (ws @ [[]]) = clean_components b out ws" for b out ws
    by (induction b out ws rule: clean_components.induct) (auto split: list.splits)
  have "Clean ?p = Clean p" using assms by (simp add: Clean_def abs split_end more)
  then show ?thesis using Clean_length [of p] assms by (cases p) auto
qed

text \<open>\<open>filepath.Dir\<close> reaches its fixed point: every other step is to a shorter path or to \<open>.\<close>.\<close>

definition path_rank :: "string \<Rightarrow> nat" where
  "path_rank p = (if p = ''.'' then 0 else Suc (length p))"

lemma Dir_rank: "Dir p \<noteq> p \<Longrightarrow> path_rank (Dir p) < path_rank p"
proof -
  let ?pre = "List.rev (dropWhile (\<lambda>c. c \<noteq> slash) (List.rev p))"
  assume ne: "Dir p \<noteq> p"
  show ?thesis
  proof (cases "slash \<in> set p")
    case False
    then have "?pre = []" by (simp add: dropWhile_eq_Nil_conv) (metis)
    then have "Dir p = ''.''" by (simp add: Dir_def Clean_def)
    with ne show ?thesis by (simp add: path_rank_def)
  next
    case True
    obtain a w where p: "p = a @ slash # w" "slash \<notin> set w" using split_list_last [OF True] by blast
    then have d: "Dir p = Clean (a @ ''/'')" using last_part [of w a] by (simp add: Dir_def)
    show ?thesis
    proof (cases "a = []")
      case True
      then have "Dir p = ''/''" using d by (simp add: Clean_def IsAbs_def HasPrefix_def)
      moreover from this ne p True have "w \<noteq> []" by auto
      ultimately show ?thesis using p True by (simp add: path_rank_def)
    next
      case False
      then have "length (Dir p) < length p" using Clean_shorter [OF False] d p by simp
      moreover have "p \<noteq> ''.''" using p False by (cases a) auto
      ultimately show ?thesis by (simp add: path_rank_def)
    qed
  qed
qed

function ancestors :: "string \<Rightarrow> string list" where
  "ancestors p = p # (if p = Dir p then [] else ancestors (Dir p))"
  by pat_completeness auto
termination by (relation "measure path_rank") (auto intro: Dir_rank)

declare ancestors.simps [simp del]

section \<open>Results\<close>

definition on_ok :: "err + 'a \<Rightarrow> ('a \<Rightarrow> err + 'b) \<Rightarrow> err + 'b" where
  "on_ok x f = (case x of Inl e \<Rightarrow> Inl e | Inr a \<Rightarrow> f a)"

definition demand :: "bool \<Rightarrow> string \<Rightarrow> err + unit" where
  "demand b msg = (if b then Inr () else Inl (Plain msg))"

fun map_ok :: "('x \<Rightarrow> err + 'y) \<Rightarrow> 'x list \<Rightarrow> err + 'y list" where
  "map_ok f [] = Inr []"
| "map_ok f (x # xs) = on_ok (f x) (\<lambda>y. on_ok (map_ok f xs) (\<lambda>ys. Inr (y # ys)))"

lemma on_ok_Inr [simp]: "on_ok x f = Inr b \<longleftrightarrow> (\<exists>a. x = Inr a \<and> f a = Inr b)"
  by (cases x) (simp_all add: on_ok_def)

lemma demand_Inr [simp]: "demand b msg = Inr u \<longleftrightarrow> b"
  by (simp add: demand_def)

lemma map_ok_Inr: "map_ok f xs = Inr ys \<longleftrightarrow> list_all2 (\<lambda>x y. f x = Inr y) xs ys"
  by (induction xs arbitrary: ys) (auto simp: list_all2_Cons1)

section \<open>Files\<close>

record FileInfo =
  fi_Dir :: bool
  fi_Regular :: bool
  fi_Link :: bool
  fi_Perm :: "32 word"
  fi_Size :: int

text \<open>
  \<open>fv_Data\<close> is what reading an opened file delivers and how it ends; \<open>fv_Walk\<close> lists the entries a walk visits, the
  start as \<open>.\<close>, in order, and \<open>fv_List\<close> those of a directory.
\<close>

record FileView =
  fv_Lstat :: "string \<Rightarrow> err + FileInfo"
  fv_Open :: "string \<Rightarrow> err option"
  fv_Stat :: "string \<Rightarrow> err + FileInfo"
  fv_Data :: "string \<Rightarrow> string \<times> err option"
  fv_Walk :: "string \<Rightarrow> (string \<times> (err + FileInfo)) list"
  fv_List :: "string \<Rightarrow> err + (string \<times> (err + FileInfo)) list"

definition MaxFile :: int where "MaxFile = 256 * 2 ^ 20"
definition MaxBundle :: int where "MaxBundle = 2 ^ 30"

definition msg_evidence_link :: string where "msg_evidence_link = ''memory evidence symlink refused''"
definition msg_memory_type :: string where "msg_memory_type = ''memory file type or size refused''"
definition msg_memory_grew :: string where "msg_memory_grew = ''memory file grew beyond bound''"
definition msg_memory_bounds :: string where "msg_memory_bounds = ''memory file exceeds bounds''"

text \<open>What \<open>io.LimitReader\<close> delivers: reading ends at the limit, before an error that would follow.\<close>

definition limited_data :: "int \<Rightarrow> string \<times> err option \<Rightarrow> string \<times> err option" where
  "limited_data n d = (if n \<le> int (length (fst d)) then (take (nat n) (fst d), None) else d)"

definition refuse_link :: "FileView \<Rightarrow> string \<Rightarrow> err option" where
  "refuse_link v p = (case fv_Lstat v p of Inl e \<Rightarrow> Some e | Inr s \<Rightarrow> if fi_Link s then Some (Plain msg_evidence_link) else None)"

definition bounded_info :: "int \<Rightarrow> err + FileInfo \<Rightarrow> bool" where
  "bounded_info limit s = (case s of Inl _ \<Rightarrow> False | Inr s \<Rightarrow> fi_Regular s \<and> fi_Size s \<le> limit)"

definition memory_Read :: "FileView \<Rightarrow> string \<Rightarrow> int \<Rightarrow> err + string" where
  "memory_Read v path limit =
     (case first_err (refuse_link v) (ancestors path) of
        Some e \<Rightarrow> Inl e
      | None \<Rightarrow>
          (case fv_Open v path of
             Some e \<Rightarrow> Inl e
           | None \<Rightarrow>
               if \<not> bounded_info limit (fv_Stat v path) then Inl (Plain msg_memory_type)
               else (case limited_data (limit + 1) (fv_Data v path) of
                       (b, e) \<Rightarrow> if int (length b) > limit then Inl (Plain msg_memory_grew)
                                 else case e of None \<Rightarrow> Inr b | Some e \<Rightarrow> Inl e)))"

section \<open>The manifest\<close>

record Manifest =
  mf_Schema :: int
  mf_Kind :: string
  mf_BootID :: string
  mf_HardwareSHA256 :: string
  mf_SourceRevision :: string
  mf_Observations :: "string list"
  mf_Files :: "string gomap"

text \<open>\<open>encoding/json\<close> and \<open>crypto/sha256\<close>: each decoder gives the value and whether nothing follows it.\<close>

record MemoryCodec =
  mc_SHA256 :: "string \<Rightarrow> string"
  mc_Tokens :: "string \<Rightarrow> jtoken list"
  mc_Manifest :: "string \<Rightarrow> (Manifest \<times> bool) option"
  mc_Value :: "string \<Rightarrow> json option"
  mc_Int :: "string \<Rightarrow> int option"

definition HashFile :: "MemoryCodec \<Rightarrow> FileView \<Rightarrow> string \<Rightarrow> err + string \<times> int" where
  "HashFile mc v path =
     (case fv_Open v path of
        Some e \<Rightarrow> Inl e
      | None \<Rightarrow>
          if \<not> bounded_info MaxFile (fv_Stat v path) then Inl (Plain msg_memory_bounds)
          else (case limited_data (MaxFile + 1) (fv_Data v path) of
                  (b, e) \<Rightarrow> if int (length b) > MaxFile then Inl (Plain msg_memory_bounds)
                            else case e of None \<Rightarrow> Inr (mc_SHA256 mc b, int (length b)) | Some e \<Rightarrow> Inl e))"

definition manifest_name :: string where "manifest_name = ''manifest.json''"

definition ObservationFiles :: "string list" where
  "ObservationFiles = [''startup/startup.json'', ''startup/memory.jsonl'', ''serving/result.json'', ''serving/host-telemetry.jsonl'',
     ''serving/after/runtime.json'', ''serving/after/pod.json'']"

definition baseline_files :: "string list" where
  "baseline_files = [''deployment.json'', ''workload.json'', ''resource-plan.json'']"

definition telemetry_name :: string where "telemetry_name = ''telemetry/evidence.json''"

definition ObservationID :: "string \<Rightarrow> bool" where
  "ObservationID s \<longleftrightarrow> s \<noteq> [] \<and> is_alnum (hd s) \<and> list_all (\<lambda>c. is_alnum c \<or> c = CHR ''-'') (tl s) \<and> length (tl s) \<le> 39"

text \<open>\<open>[a-f0-9]{8}(?:-[a-f0-9]{4}){3}-[a-f0-9]{12}\<close>\<close>

definition boot_id :: "string \<Rightarrow> bool" where
  "boot_id s \<longleftrightarrow> map length (split_on CHR ''-'' s) = [8, 4, 4, 4, 12] \<and> list_all (list_all is_hex) (split_on CHR ''-'' s)"

definition observation_path :: "string \<Rightarrow> string \<Rightarrow> string" where
  "observation_path ident f = ''observations/'' @ ident @ slash # f"

definition allowed_files :: "Manifest \<Rightarrow> string list" where
  "allowed_files m = baseline_files @ [telemetry_name]
     @ concat (map (\<lambda>ident. map (observation_path ident) ObservationFiles) (mf_Observations m))"

definition text_at :: "string gomap \<Rightarrow> string \<Rightarrow> string" where
  "text_at m k = (case map_of m k of None \<Rightarrow> [] | Some s \<Rightarrow> s)"

abbreviation file_digest :: "Manifest \<Rightarrow> string \<Rightarrow> string" where
  "file_digest m \<equiv> text_at (mf_Files m)"

definition msg_manifest_hash :: string where "msg_manifest_hash = ''memory evidence manifest hash changed''"
definition msg_manifest_invalid :: string where "msg_manifest_invalid = ''invalid memory evidence manifest''"
definition msg_observation_id :: string where "msg_observation_id = ''invalid or duplicate observation ID''"
definition msg_no_baseline :: string where "msg_no_baseline = ''missing baseline evidence''"
definition msg_unapproved_file :: string where "msg_unapproved_file = ''unapproved memory evidence file''"
definition msg_unexpected_dir :: string where "msg_unexpected_dir = ''unexpected memory evidence directory''"
definition msg_unexpected_file :: string where "msg_unexpected_file = ''unexpected memory evidence file''"
definition msg_bundle_size :: string where "msg_bundle_size = ''memory evidence bundle exceeds 1 GiB''"
definition msg_file_changed :: string where "msg_file_changed = ''memory evidence file hash changed''"
definition msg_files_missing :: string where "msg_files_missing = ''memory evidence files missing''"

definition check_manifest :: "Manifest \<Rightarrow> err + unit" where
  "check_manifest m =
     on_ok (demand (mf_Schema m = 1 \<and> mf_Kind m = ''sglang-memory-evidence'' \<and> digest_ok (mf_SourceRevision m)
       \<and> digest_ok (mf_HardwareSHA256 m) \<and> boot_id (mf_BootID m) \<and> length (mf_Observations m) \<le> 20) msg_manifest_invalid) (\<lambda>_.
     on_ok (demand (list_all ObservationID (mf_Observations m) \<and> distinct (mf_Observations m)) msg_observation_id) (\<lambda>_.
     on_ok (demand (list_all (\<lambda>name. digest_ok (file_digest m name)) baseline_files) msg_no_baseline) (\<lambda>_.
     demand (list_all (\<lambda>(name, d). name \<in> set (allowed_files m) \<and> digest_ok d) (mf_Files m)) msg_unapproved_file)))"

text \<open>The directories above the files; every allowed name is relative, so climbing ends at \<open>.\<close>, which is one too.\<close>

definition evidence_dirs :: "Manifest \<Rightarrow> string list" where
  "evidence_dirs m = ''.'' # concat (map (ancestors \<circ> Dir) (gkeys (mf_Files m)))"

text \<open>The visit of a walk; \<open>size\<close> and \<open>count\<close> are what it adds up.\<close>

fun verify_walk :: "MemoryCodec \<Rightarrow> FileView \<Rightarrow> string \<Rightarrow> Manifest \<Rightarrow> int \<Rightarrow> nat \<Rightarrow> (string \<times> (err + FileInfo)) list \<Rightarrow> err + nat" where
  "verify_walk mc v root_dir m acc count [] = Inr count"
| "verify_walk mc v root_dir m acc count ((rel, i) # es) =
     on_ok i (\<lambda>i.
     if fi_Link i then Inl (Plain msg_evidence_link)
     else if fi_Dir i then
       (if rel \<in> set (evidence_dirs m) then verify_walk mc v root_dir m acc count es else Inl (Plain msg_unexpected_dir))
     else if rel = manifest_name then verify_walk mc v root_dir m acc count es
     else case map_of (mf_Files m) rel of
            None \<Rightarrow> Inl (Plain msg_unexpected_file)
          | Some want \<Rightarrow>
              on_ok (HashFile mc v (Join root_dir rel)) (\<lambda>(got, n).
              let acc = acc + n in
              if acc > MaxBundle then Inl (Plain msg_bundle_size)
              else if got \<noteq> want then Inl (Plain msg_file_changed)
              else verify_walk mc v root_dir m acc (count + 1) es))"

definition memory_Verify :: "MemoryCodec \<Rightarrow> FileView \<Rightarrow> string \<Rightarrow> string \<Rightarrow> err + Manifest" where
  "memory_Verify mc v root_dir want =
     on_ok (memory_Read v (Join root_dir manifest_name) (64 * 2 ^ 10)) (\<lambda>b.
     on_ok (demand (digest_ok want \<and> mc_SHA256 mc b = want) msg_manifest_hash) (\<lambda>_.
     on_ok (Decode (mc_Tokens mc) (mc_Manifest mc) b) (\<lambda>m.
     on_ok (check_manifest m) (\<lambda>_.
     on_ok (verify_walk mc v root_dir m 0 0 (fv_Walk v root_dir)) (\<lambda>count.
     on_ok (demand (count = length (mf_Files m)) msg_files_missing) (\<lambda>_. Inr m))))))"

definition Names :: "Manifest \<Rightarrow> string list" where
  "Names m = sort (gkeys (mf_Files m))"

definition Complete :: "Manifest \<Rightarrow> bool" where
  "Complete m \<longleftrightarrow> \<not> length (mf_Observations m) < 4
     \<and> list_all (\<lambda>ident. list_all (\<lambda>f. file_digest m (observation_path ident f) \<noteq> []) ObservationFiles) (mf_Observations m)"

section \<open>Documents\<close>

definition RawJSON :: "MemoryCodec \<Rightarrow> FileView \<Rightarrow> string \<Rightarrow> err + json" where
  "RawJSON mc v path = on_ok (memory_Read v path (2 * 2 ^ 20)) (\<lambda>b.
     case mc_Value mc b of Some (JObj m) \<Rightarrow> Inr (JObj m) | Some JNull \<Rightarrow> Inr (JObj []) | _ \<Rightarrow> Inl (Plain msg_json_field))"

definition memory_JSON :: "MemoryCodec \<Rightarrow> FileView \<Rightarrow> (string \<Rightarrow> ('a \<times> bool) option) \<Rightarrow> string \<Rightarrow> err + 'a" where
  "memory_JSON mc v decode path = on_ok (memory_Read v path (2 * 2 ^ 20)) (Decode (mc_Tokens mc) decode)"

definition msg_mib_type :: string where "msg_mib_type = ''memory limit must use integer Mi/Gi''"
definition msg_mib_units :: string where "msg_mib_units = ''invalid memory units''"
definition msg_mib_quantity :: string where "msg_mib_quantity = ''invalid memory quantity''"

definition MiB :: "MemoryCodec \<Rightarrow> json \<Rightarrow> err + int" where
  "MiB mc v = (case v of
     JStr s \<Rightarrow>
       if \<not> HasSuffix s ''Gi'' \<and> \<not> HasSuffix s ''Mi'' then Inl (Plain msg_mib_units)
       else (case mc_Int mc (take (length s - 2) s) of
               None \<Rightarrow> Inl (Plain msg_mib_quantity)
             | Some n \<Rightarrow> if n \<le> 0 \<or> n > 2 ^ 30 then Inl (Plain msg_mib_quantity)
                         else Inr (n * (if HasSuffix s ''Gi'' then 1024 else 1)))
   | _ \<Rightarrow> Inl (Plain msg_mib_type))"

section \<open>The private output\<close>

definition msg_output_private :: string where "msg_output_private = ''memory output directory must remain private''"
definition msg_output_three :: string where "msg_output_three = ''memory output requires exactly three retained artifacts''"
definition msg_output_only :: string where "msg_output_only = ''memory output must contain only bounded private regular artifacts''"

definition lstat_fault :: "FileView \<Rightarrow> string \<Rightarrow> err option" where
  "lstat_fault v p = (case fv_Lstat v p of Inl e \<Rightarrow> if e = ErrNotExist then None else Some e | Inr _ \<Rightarrow> None)"

definition view_files :: "FileView \<Rightarrow> files" where
  "view_files v p = (case fv_Lstat v p of Inl _ \<Rightarrow> None
     | Inr i \<Rightarrow> Some \<lparr>fn_Regular = fi_Regular i, fn_Symlink = fi_Link i, fn_Perm = fi_Perm i, fn_Uid = 0, fn_Gid = 0, fn_Data = fst (fv_Data v p)\<rparr>)"

definition output_entry :: "string \<times> (err + FileInfo) \<Rightarrow> err option" where
  "output_entry x = (case snd x of
     Inl e \<Rightarrow> Some e
   | Inr i \<Rightarrow> if \<not> PrivateName (fst x) \<or> \<not> fi_Regular i \<or> and (fi_Perm i) 63 \<noteq> 0 \<or> fi_Size i \<le> 0 \<or> fi_Size i > 2 * 2 ^ 20
               then Some (Plain msg_output_only) else None)"

definition checkOutputTree :: "FileView \<Rightarrow> string \<Rightarrow> err option" where
  "checkOutputTree v dir =
     and_then (CheckPath (lstat_fault v) (view_files v) dir)
       (case fv_Lstat v dir of
          Inl e \<Rightarrow> Some e
        | Inr i \<Rightarrow>
            if \<not> fi_Dir i \<or> and (fi_Perm i) 63 \<noteq> 0 then Some (Plain msg_output_private)
            else (case fv_List v dir of
                    Inl e \<Rightarrow> Some e
                  | Inr es \<Rightarrow> if length es \<noteq> 3 then Some (Plain msg_output_three) else first_err output_entry es))"

end
