(* ===== verification/MemoryTelemetry.thy ===== *)
theory MemoryTelemetry
  imports MemoryEvidence
begin

text \<open>
  The memory telemetry of one Pod (\<open>window.go\<close>) and the capacity a telemetry stack declares (\<open>telemetry.go\<close>): the
  counters and the pressure of a sample, the scan that reduces the samples of a file to a window, and the allowance
  read from sealed evidence.
\<close>

section \<open>Counters and pressure\<close>

definition newline :: char where "newline = CHR 0x0A"

definition msg_counters_missing :: string where "msg_counters_missing = ''memory counters missing''"
definition msg_counter_twice :: string where "msg_counter_twice = ''duplicate memory counter''"
definition msg_counter_invalid :: string where "msg_counter_invalid = ''invalid memory counter''"

definition nonnegative :: "string \<Rightarrow> int option" where
  "nonnegative s = (case ParseInt s of None \<Rightarrow> None | Some n \<Rightarrow> if n < 0 then None else Some n)"

fun counter_lines :: "int gomap \<Rightarrow> string list \<Rightarrow> err + int gomap" where
  "counter_lines out [] = Inr out"
| "counter_lines out (l # ls) =
     (case Fields l of
        [k, n] \<Rightarrow>
          if map_of out k \<noteq> None then Inl (Plain msg_counter_twice)
          else (case nonnegative n of
                  None \<Rightarrow> Inl (Plain msg_counter_invalid)
                | Some n \<Rightarrow> counter_lines (AList.update k n out) ls)
      | _ \<Rightarrow> Inl (Plain msg_counters_missing))"

definition counters :: "string \<Rightarrow> err + int gomap" where
  "counters s = counter_lines [] (split_on newline (TrimSpace s))"

definition msg_psi_missing :: string where "msg_psi_missing = ''memory PSI missing''"
definition msg_psi_twice :: string where "msg_psi_twice = ''duplicate PSI scope''"
definition msg_psi_invalid :: string where "msg_psi_invalid = ''invalid PSI total''"
definition msg_psi_no_total :: string where "msg_psi_no_total = ''PSI total missing''"
definition msg_psi_some :: string where "msg_psi_some = ''PSI some missing''"
definition msg_psi_full :: string where "msg_psi_full = ''PSI full missing''"

fun psi_fields :: "int option \<Rightarrow> string list \<Rightarrow> err + int option" where
  "psi_fields found [] = Inr found"
| "psi_fields found (f # fs) =
     (if HasPrefix f ''total='' then
        (case nonnegative (TrimPrefix f ''total='') of
           None \<Rightarrow> Inl (Plain msg_psi_invalid)
         | Some n \<Rightarrow> if found \<noteq> None then Inl (Plain msg_psi_invalid) else psi_fields (Some n) fs)
      else psi_fields found fs)"

fun psi_lines :: "int gomap \<Rightarrow> string list \<Rightarrow> err + int gomap" where
  "psi_lines out [] = Inr out"
| "psi_lines out (l # ls) =
     (case Fields l of
        k # f # fs \<Rightarrow>
          if map_of out k \<noteq> None then Inl (Plain msg_psi_twice)
          else on_ok (psi_fields None (f # fs)) (\<lambda>found.
            case found of
              None \<Rightarrow> Inl (Plain msg_psi_no_total)
            | Some n \<Rightarrow> psi_lines (AList.update k n out) ls)
      | _ \<Rightarrow> Inl (Plain msg_psi_missing))"

definition parsePSI :: "string \<Rightarrow> err + int gomap" where
  "parsePSI s = on_ok (psi_lines [] (split_on newline (TrimSpace s))) (\<lambda>out.
     if map_of out ''some'' = None then Inl (Plain msg_psi_some)
     else if map_of out ''full'' = None \<or> length out \<noteq> 2 then Inl (Plain msg_psi_full)
     else Inr out)"

section \<open>Windows\<close>

record Window =
  wn_Samples :: int
  wn_Duration :: float64
  wn_CgroupID :: string
  wn_FirstMono :: int
  wn_LastMono :: int
  wn_Path :: string
  wn_FirstUnix :: int
  wn_LastUnix :: int
  wn_Sampled :: int
  wn_Peak :: int
  wn_Stat :: "int gomap"
  wn_Available :: int
  wn_Envelope :: int

definition zero_window :: Window where
  "zero_window = \<lparr>wn_Samples = 0, wn_Duration = 0, wn_CgroupID = [], wn_FirstMono = 0, wn_LastMono = 0, wn_Path = [], wn_FirstUnix = 0,
     wn_LastUnix = 0, wn_Sampled = 0, wn_Peak = 0, wn_Stat = [], wn_Available = 0, wn_Envelope = 0\<rparr>"

record Sample =
  sm_Mono :: int
  sm_Unix :: int
  sm_Host :: string
  sm_CgroupID :: string
  sm_Path :: string
  sm_Values :: "string gomap"

text \<open>\<open>json.Unmarshal\<close> of one line, and \<open>float64(n)/1e9\<close>.\<close>

record WindowCodec =
  wc_Sample :: "string \<Rightarrow> Sample option"
  wc_Seconds :: "int \<Rightarrow> float64"

definition stat_keys :: "string list" where "stat_keys = [''anon'', ''file'', ''shmem'']"
definition event_keys :: "string list" where "event_keys = [''high'', ''max'', ''oom'', ''oom_kill'']"
definition host_keys :: "string list" where "host_keys = [''MemTotal:'', ''MemAvailable:'', ''SwapTotal:'']"

definition msg_window :: string where "msg_window = ''invalid or incomplete memory telemetry window''"

definition sample_value :: "Sample \<Rightarrow> string \<Rightarrow> string" where
  "sample_value s k = text_at (sm_Values s) k"

definition sample_count :: "Sample \<Rightarrow> string \<Rightarrow> int option" where
  "sample_count s k = nonnegative (sample_value s k)"

fun host_lines :: "int gomap \<Rightarrow> string list \<Rightarrow> int gomap option" where
  "host_lines host [] = Some host"
| "host_lines host (l # ls) =
     (case Fields l of
        [] \<Rightarrow> host_lines host ls
      | k # fs \<Rightarrow>
          if k \<notin> set host_keys then host_lines host ls
          else (case fs of
                  [n, unit] \<Rightarrow>
                    if unit \<noteq> ''kB'' then None
                    else (case nonnegative n of
                            None \<Rightarrow> None
                          | Some n \<Rightarrow> if map_of host k \<noteq> None then None else host_lines (AList.update k n host) ls)
                | _ \<Rightarrow> None))"

text \<open>What one sample contributes once it passed its own checks.\<close>

record Reading =
  rd_Current :: int
  rd_Peak :: int
  rd_Stat :: "int gomap"
  rd_Pressure :: "int gomap"
  rd_Available :: int

definition sample_reading :: "int \<Rightarrow> int \<Rightarrow> Sample \<Rightarrow> Reading option" where
  "sample_reading limit memory s =
     (if sm_Mono s \<le> 0 \<or> sm_Unix s \<le> 0 \<or> sm_CgroupID s = [] \<or> sm_Path s = [] then None
      else case (sample_count s ''memory.current'', sample_count s ''memory.peak'', sample_count s ''memory.max'', sample_count s ''memory.swap.current'') of
        (Some current, Some peak, Some maximum, Some swap) \<Rightarrow>
          if maximum \<noteq> i64 (limit * 2 ^ 20) \<or> current \<le> 0 \<or> current > peak \<or> peak > maximum \<or> swap \<noteq> 0 then None
          else (case (counters (sample_value s ''memory.stat''), counters (sample_value s ''memory.events''), parsePSI (sample_value s ''memory.pressure'')) of
            (Inr stat, Inr events, Inr pressure) \<Rightarrow>
              if list_ex (\<lambda>k. map_of stat k = None) stat_keys \<or> amount stat ''shmem'' > amount stat ''file'' \<or> amount stat ''shmem'' > current
                \<or> list_ex (\<lambda>k. map_of events k \<noteq> Some 0) event_keys then None
              else (case host_lines [] (split_on newline (sm_Host s)) of
                None \<Rightarrow> None
              | Some host \<Rightarrow>
                  if length host \<noteq> 3 \<or> amount host ''MemTotal:'' div 1024 \<noteq> memory \<or> amount host ''SwapTotal:'' \<noteq> 0 then None
                  else Some \<lparr>rd_Current = current, rd_Peak = peak, rd_Stat = stat, rd_Pressure = pressure,
                    rd_Available = i64 (amount host ''MemAvailable:'' * 1024)\<rparr>)
          | _ \<Rightarrow> None)
      | _ \<Rightarrow> None)"

text \<open>The state of the scan: the window so far, the pressure of the first sample and the last sample's times and peak.\<close>

record Scan =
  sc_Window :: Window
  sc_PSI :: "int gomap"
  sc_Mono :: int
  sc_Unix :: int
  sc_Peak :: int

definition first_sample :: "Sample \<Rightarrow> Reading \<Rightarrow> Scan \<Rightarrow> Scan" where
  "first_sample s r z = z\<lparr>sc_Window := (sc_Window z)\<lparr>wn_CgroupID := sm_CgroupID s, wn_Path := sm_Path s, wn_FirstMono := sm_Mono s,
     wn_FirstUnix := sm_Unix s, wn_Available := rd_Available r\<rparr>, sc_PSI := rd_Pressure r\<rparr>"

definition breaks_window :: "Sample \<Rightarrow> Reading \<Rightarrow> Scan \<Rightarrow> bool" where
  "breaks_window s r z \<longleftrightarrow> wn_CgroupID (sc_Window z) \<noteq> sm_CgroupID s \<or> wn_Path (sc_Window z) \<noteq> sm_Path s \<or> sm_Mono s \<le> sc_Mono z
     \<or> sm_Mono s - sc_Mono z > 30 * 10 ^ 9 \<or> sm_Unix s \<le> sc_Unix z \<or> rd_Peak r < sc_Peak z
     \<or> amount (rd_Pressure r) ''some'' \<noteq> amount (sc_PSI z) ''some'' \<or> amount (rd_Pressure r) ''full'' \<noteq> amount (sc_PSI z) ''full''"

definition raise_stat :: "int gomap \<Rightarrow> int gomap \<Rightarrow> string \<Rightarrow> int gomap" where
  "raise_stat new old k = AList.update k (max (amount old k) (amount new k)) old"

definition add_sample :: "Sample \<Rightarrow> Reading \<Rightarrow> Scan \<Rightarrow> Scan" where
  "add_sample s r z = (let w = sc_Window z in
     z\<lparr>sc_Window := w\<lparr>wn_Sampled := max (wn_Sampled w) (rd_Current r), wn_Peak := max (wn_Peak w) (rd_Peak r),
         wn_Stat := foldl (raise_stat (rd_Stat r)) (wn_Stat w) stat_keys, wn_Available := min (wn_Available w) (rd_Available r)\<rparr>,
       sc_Mono := sm_Mono s, sc_Unix := sm_Unix s, sc_Peak := rd_Peak r\<rparr>)"

fun scan_samples :: "WindowCodec \<Rightarrow> int \<Rightarrow> int \<Rightarrow> Scan \<Rightarrow> string list \<Rightarrow> Scan option" where
  "scan_samples wc limit memory z [] = Some z"
| "scan_samples wc limit memory z (l # ls) =
     (case wc_Sample wc l of
        None \<Rightarrow> None
      | Some s \<Rightarrow>
          (case sample_reading limit memory s of
             None \<Rightarrow> None
           | Some r \<Rightarrow>
               if wn_Samples (sc_Window z) \<noteq> 0 \<and> breaks_window s r z then None
               else (let z = (if wn_Samples (sc_Window z) = 0 then first_sample s r z else z);
                         z = z\<lparr>sc_Window := (sc_Window z)\<lparr>wn_Samples := wn_Samples (sc_Window z) + 1\<rparr>\<rparr> in
                     if wn_Samples (sc_Window z) > 100000 then None else scan_samples wc limit memory (add_sample s r z) ls)))"

text \<open>
  \<open>bufio.Scanner\<close>: lines without their end, a carriage return before it dropped, no empty line at the very end; the
  first line that fills the buffer stops the scan with an error, after the lines before it.
\<close>

definition drop_return :: "string \<Rightarrow> string" where
  "drop_return l = (if l \<noteq> [] \<and> last l = CHR 0x0D then butlast l else l)"

definition raw_lines :: "string \<Rightarrow> string list" where
  "raw_lines b = (let ls = split_on newline b in if last ls = [] then butlast ls else ls)"

definition line_fits :: "string \<Rightarrow> bool" where
  "line_fits l \<longleftrightarrow> int (length l) < 2 * 2 ^ 20"

definition scan_lines :: "string \<Rightarrow> string list \<times> bool" where
  "scan_lines b = (map drop_return (takeWhile line_fits (raw_lines b)), list_all line_fits (raw_lines b))"

definition ErrTooLong :: err where "ErrTooLong = Plain ''bufio.Scanner: token too long''"

definition observeWindow :: "WindowCodec \<Rightarrow> FileView \<Rightarrow> string \<Rightarrow> int \<Rightarrow> int \<Rightarrow> int \<Rightarrow> err + Window" where
  "observeWindow wc v path limit shm memory =
     (case fv_Open v path of
        Some e \<Rightarrow> Inl e
      | None \<Rightarrow>
          (case limited_data (MaxFile + 1) (fv_Data v path) of
             (b, end_err) \<Rightarrow>
               (case scan_samples wc limit memory \<lparr>sc_Window = zero_window, sc_PSI = [], sc_Mono = 0, sc_Unix = 0, sc_Peak = 0\<rparr> (fst (scan_lines b)) of
                  None \<Rightarrow> Inl (Plain msg_window)
                | Some z \<Rightarrow>
                    if \<not> snd (scan_lines b) then Inl ErrTooLong
                    else case end_err of
                      Some e \<Rightarrow> Inl e
                    | None \<Rightarrow>
                        (let w = sc_Window z in
                         if wn_Samples w < 2 then Inl (Plain msg_window)
                         else Inr (w\<lparr>wn_LastMono := sc_Mono z, wn_LastUnix := sc_Unix z, wn_Duration := wc_Seconds wc (sc_Mono z - wn_FirstMono w),
                           wn_Envelope := i64 (wn_Peak w + i64 (shm * 2 ^ 20))\<rparr>)))))"

section \<open>The telemetry allowance\<close>

record TelemetryAllowance =
  ta_Profile :: string
  ta_ReserveMiB :: int
  ta_ComponentLimitsMiB :: "int gomap"
  ta_MarginMiB :: int
  ta_CalculatedAllowanceMiB :: int

text \<open>The fields of \<open>telemetryEvidence\<close> the code reads.\<close>

record telemetryEvidence =
  te_Schema :: int
  te_Status :: string
  te_Profile :: string
  te_ReserveMiB :: int
  te_StackLimitMiB :: int
  te_ComponentLimitsMiB :: "int gomap"
  te_MarginMiB :: int
  te_CalculatedAllowanceMiB :: int

definition msg_telemetry_hash :: string where "msg_telemetry_hash = ''telemetry evidence hash changed''"
definition msg_telemetry_json :: string where "msg_telemetry_json = ''invalid telemetry evidence JSON''"
definition msg_telemetry_status :: string where "msg_telemetry_status = ''invalid telemetry evidence status or bounded reserve''"
definition msg_telemetry_legacy :: string where "msg_telemetry_legacy = ''legacy telemetry evidence supports full profile only''"
definition msg_telemetry_profile :: string where "msg_telemetry_profile = ''invalid telemetry profile allowance''"

definition component_keys :: "string list" where
  "component_keys = [''cluster_stack_mib'', ''host_alloy_mib'', ''hardware_sampler_mib'']"

definition component_ok :: "telemetryEvidence \<Rightarrow> string \<Rightarrow> bool" where
  "component_ok e k = (case map_of (te_ComponentLimitsMiB e) k of None \<Rightarrow> False | Some n \<Rightarrow> 0 \<le> n \<and> n \<le> 2 ^ 30)"

definition allowance_of :: "telemetryEvidence \<Rightarrow> err + TelemetryAllowance" where
  "allowance_of e =
     (if te_Schema e \<noteq> 1 \<and> te_Schema e \<noteq> 2 \<or> te_Status e \<noteq> ''generated-not-deployed'' \<and> te_Status e \<noteq> ''disabled-not-deployed''
         \<or> te_ReserveMiB e \<le> 0 \<or> te_ReserveMiB e > 2 ^ 30 \<or> te_StackLimitMiB e < 0 \<or> te_StackLimitMiB e > 2 ^ 30
      then Inl (Plain msg_telemetry_status)
      else if te_Schema e = 1 then
        (if te_Profile e \<noteq> [] \<and> te_Profile e \<noteq> ''full'' then Inl (Plain msg_telemetry_legacy)
         else Inr \<lparr>ta_Profile = ''full'', ta_ReserveMiB = te_ReserveMiB e, ta_ComponentLimitsMiB = [], ta_MarginMiB = 0, ta_CalculatedAllowanceMiB = 0\<rparr>)
      else if te_Profile e \<noteq> ''full'' \<and> te_Profile e \<noteq> ''metrics'' \<or> te_MarginMiB e \<le> 0 \<or> te_MarginMiB e > 2 ^ 30
         \<or> length (te_ComponentLimitsMiB e) \<noteq> 3 \<or> amount (te_ComponentLimitsMiB e) ''cluster_stack_mib'' \<noteq> te_StackLimitMiB e
         \<or> \<not> list_all (component_ok e) component_keys
      then Inl (Plain msg_telemetry_profile)
      else let components = map (\<lambda>k. (k, amount (te_ComponentLimitsMiB e) k)) component_keys; sum = sum_list (map snd components) in
        if sum > 2 ^ 30 - te_MarginMiB e \<or> te_CalculatedAllowanceMiB e \<noteq> sum + te_MarginMiB e \<or> te_ReserveMiB e < te_CalculatedAllowanceMiB e
        then Inl (Plain msg_telemetry_profile)
        else Inr \<lparr>ta_Profile = te_Profile e, ta_ReserveMiB = te_ReserveMiB e, ta_ComponentLimitsMiB = components,
          ta_MarginMiB = te_MarginMiB e, ta_CalculatedAllowanceMiB = te_CalculatedAllowanceMiB e\<rparr>)"

definition Telemetry :: "MemoryCodec \<Rightarrow> (string \<Rightarrow> (telemetryEvidence \<times> bool) option) \<Rightarrow> FileView \<Rightarrow> string \<Rightarrow> Manifest \<Rightarrow>
    err + TelemetryAllowance option" where
  "Telemetry mc decode v root_dir m =
     (case map_of (mf_Files m) telemetry_name of
        None \<Rightarrow> Inr None
      | Some want \<Rightarrow>
          on_ok (memory_Read v (Join root_dir telemetry_name) (2 * 2 ^ 20)) (\<lambda>b.
          on_ok (demand (digest_ok want \<and> mc_SHA256 mc b = want) msg_telemetry_hash) (\<lambda>_.
          case Decode (mc_Tokens mc) decode b of
            Inl _ \<Rightarrow> Inl (Plain msg_telemetry_json)
          | Inr e \<Rightarrow> on_ok (allowance_of e) (\<lambda>a. Inr (Some a)))))"

end
