(* ===== verification/MemoryPlan.thy ===== *)
theory MemoryPlan
  imports MemoryTelemetry
begin

text \<open>
  The check of a memory plan (\<open>plan.go\<close>): the plan, its patch and its rollback are accepted only when they follow
  from the sealed evidence, the installed tools, and the telemetry reduced again from the samples.
\<close>

section \<open>Values\<close>

text \<open>\<open>reflect.DeepEqual\<close> on decoded documents: objects agree as maps.\<close>

function deep_equal :: "json \<Rightarrow> json \<Rightarrow> bool" where
  "deep_equal (JArr xs) b = (case b of JArr ys \<Rightarrow> length xs = length ys \<and> list_all (\<lambda>(x, y). deep_equal x y) (zip xs ys) | _ \<Rightarrow> False)"
| "deep_equal (JObj m) b = (case b of
     JObj n \<Rightarrow> length m = length n \<and> list_all (\<lambda>(k, x). case map_of n k of None \<Rightarrow> False | Some y \<Rightarrow> deep_equal x y) m
   | _ \<Rightarrow> False)"
| "deep_equal JNull b = (b = JNull)"
| "deep_equal (JBool x) b = (b = JBool x)"
| "deep_equal (JInt x) b = (b = JInt x)"
| "deep_equal (JFloat x) b = (b = JFloat x)"
| "deep_equal (JTime x) b = (b = JTime x)"
| "deep_equal (JStr x) b = (b = JStr x)"
  by pat_completeness auto
termination
proof (relation "measure (\<lambda>(a, _). size a)", goal_cases)
  case (2 xs b ys z x y)
  then have "x \<in> set xs" by (auto dest: set_zip_leftD)
  then show ?case by (induction xs) auto
next
  case (3 m b n z k x y)
  then have "(k, x) \<in> set m" by simp
  then show ?case by (induction m) auto
qed simp

text \<open>The runes of a UTF-8 string; a byte that starts no valid sequence is the replacement character.\<close>

definition tail_byte :: "char \<Rightarrow> bool" where
  "tail_byte c \<longleftrightarrow> 128 \<le> (of_char c :: nat) \<and> (of_char c :: nat) < 192"

definition tail_bits :: "char \<Rightarrow> nat" where
  "tail_bits c = of_char c - 128"

function runes :: "string \<Rightarrow> nat list" where
  "runes [] = []"
| "runes (a # s) =
     (let n = of_char a :: nat in
      if n < 128 then n # runes s
      else case s of
        b # s1 \<Rightarrow>
          if 194 \<le> n \<and> n < 224 \<and> tail_byte b then ((n - 192) * 64 + tail_bits b) # runes s1
          else (case s1 of
            c # s2 \<Rightarrow>
              (let r = (n - 224) * 4096 + tail_bits b * 64 + tail_bits c in
               if 224 \<le> n \<and> n < 240 \<and> tail_byte b \<and> tail_byte c \<and> 2048 \<le> r \<and> (r < 55296 \<or> 57343 < r) then r # runes s2
               else (case s2 of
                 d # s3 \<Rightarrow>
                   (let r = (n - 240) * 262144 + tail_bits b * 4096 + tail_bits c * 64 + tail_bits d in
                    if 240 \<le> n \<and> n < 245 \<and> tail_byte b \<and> tail_byte c \<and> tail_byte d \<and> 65536 \<le> r \<and> r \<le> 1114111 then r # runes s3
                    else 65533 # runes s)
               | [] \<Rightarrow> 65533 # runes s))
          | [] \<Rightarrow> 65533 # runes s)
      | [] \<Rightarrow> 65533 # runes s)"
  by pat_completeness auto
termination by (relation "measure length") auto

definition hex_digit :: "nat \<Rightarrow> char" where
  "hex_digit n = ''0123456789abcdef'' ! (n mod 16)"

definition unicode_escape :: "nat \<Rightarrow> string" where
  "unicode_escape r = [CHR 0x5C, CHR ''u'', hex_digit (r div 4096), hex_digit (r div 256), hex_digit (r div 16), hex_digit r]"

definition ascii_rune :: "nat \<Rightarrow> string" where
  "ascii_rune r = (if r < 128 then [char_of r] else if r \<le> 65535 then unicode_escape r
     else unicode_escape (55296 + (r - 65536) div 1024) @ unicode_escape (56320 + (r - 65536) mod 1024))"

section \<open>Plans\<close>

record MemoryWindow =
  mw_Samples :: int
  mw_DurationSeconds :: float64
  mw_SampledPeakBytes :: int
  mw_LifetimePeakBytes :: int
  mw_SharedMemoryBytes :: int
  mw_HostAvailableMinBytes :: int

record MemoryObservation =
  mo_Phase :: string
  mo_PodID :: string
  mo_Startup :: MemoryWindow
  mo_Steady :: MemoryWindow

record Observation =
  ob_Phase :: string
  ob_PodUID :: string
  ob_Startup :: Window
  ob_Steady :: Window

record Plan_budget =
  bg_Other :: int
  bg_Allocatable :: int
  bg_SHM :: int
  bg_Envelope :: int
  bg_Headroom :: int

record MemPlan =
  mp_Schema :: int
  mp_Kind :: string
  mp_Status :: string
  mp_Baseline :: int
  mp_Candidate :: int
  mp_Minimum :: int
  mp_WorkloadHash :: string
  mp_RuntimeIdentity :: string
  mp_BaselineHash :: string
  mp_CandidateHash :: string
  mp_Budget :: Plan_budget
  mp_Observations :: "Observation list"
  mp_Evidence :: "string gomap"
  mp_Tools :: "string gomap"
  mp_Artifacts :: "string gomap"
  mp_Limitations :: "string list"

record Patch =
  pa_Op :: string
  pa_Path :: string
  pa_Value :: json

record MemorySummary =
  sy_EvidenceID :: string
  sy_SHA256 :: string
  sy_Status :: string
  sy_Reason :: string
  sy_BaselineMiB :: int
  sy_LimitedMiB :: int
  sy_CandidateMiB :: int
  sy_MinimumCandidateMiB :: int
  sy_SharedMemoryMiB :: int
  sy_OtherMiB :: int
  sy_TelemetryProfile :: string
  sy_TelemetryReserveMiB :: int
  sy_TelemetryComponentLimitsMiB :: "int gomap"
  sy_TelemetryMarginMiB :: int
  sy_TelemetryCalculatedAllowanceMiB :: int
  sy_AllocatableMiB :: int
  sy_EnvelopeBytes :: int
  sy_HeadroomBytes :: int
  sy_Cold :: int
  sy_Warm :: int
  sy_Observations :: "MemoryObservation list"
  sy_Preconditions :: "string gomap"
  sy_Limitations :: "string list"
  sy_Artifacts :: "Artifact list"

text \<open>
  The rest of \<open>encoding/json\<close>: the decoders of the plan and of a patch, the encoder with HTML escaping off, the size of
  an encoded artifact; and \<open>float64(n)\<close>.
\<close>

record PlanCodec =
  pc_Memory :: MemoryCodec
  pc_Window :: WindowCodec
  pc_Telemetry :: "string \<Rightarrow> (telemetryEvidence \<times> bool) option"
  pc_Plan :: "string \<Rightarrow> (MemPlan \<times> bool) option"
  pc_Patch :: "string \<Rightarrow> (Patch list \<times> bool) option"
  pc_Marshal :: "json \<Rightarrow> string"
  pc_WireSize :: "Artifact \<Rightarrow> int"
  pc_Float :: "int \<Rightarrow> float64"

definition Identity :: "PlanCodec \<Rightarrow> json \<Rightarrow> string" where
  "Identity pc x = mc_SHA256 (pc_Memory pc) (concat (map ascii_rune (runes (pc_Marshal pc x))))"

definition summaryWindow :: "Window \<Rightarrow> MemoryWindow" where
  "summaryWindow w = \<lparr>mw_Samples = wn_Samples w, mw_DurationSeconds = wn_Duration w, mw_SampledPeakBytes = wn_Sampled w,
     mw_LifetimePeakBytes = wn_Peak w, mw_SharedMemoryBytes = amount (wn_Stat w) ''shmem'', mw_HostAvailableMinBytes = wn_Available w\<rparr>"

definition same_window :: "Window \<Rightarrow> Window \<Rightarrow> bool" where
  "same_window a b \<longleftrightarrow> a\<lparr>wn_Stat := []\<rparr> = b\<lparr>wn_Stat := []\<rparr> \<and> gomap_eq (wn_Stat a) (wn_Stat b)"

definition observation_file :: "string \<Rightarrow> string \<Rightarrow> string \<Rightarrow> string" where
  "observation_file input ident f = Join (Join (Join input ''observations'') ident) f"

definition total_mib :: "json \<Rightarrow> int option" where
  "total_mib resource = (case nested resource [''memory'', ''total_mib''] of
     JFloat t \<Rightarrow> if t \<le> 0 \<or> t > 2 ^ 30 then None else Some (truncate_rat t)
   | _ \<Rightarrow> None)"

section \<open>Summaries of evidence\<close>

definition msg_resource_missing :: string where "msg_resource_missing = ''resource memory missing''"
definition msg_startup_failed :: string where "msg_startup_failed = ''failed or incomplete startup''"
definition msg_serving_failed :: string where "msg_serving_failed = ''failed or incomplete serving observation''"

definition observe_row :: "PlanCodec \<Rightarrow> FileView \<Rightarrow> string \<Rightarrow> int \<Rightarrow> int \<Rightarrow> int \<Rightarrow> string \<Rightarrow> err + MemoryObservation" where
  "observe_row pc v input limit shm memory ident =
     on_ok (RawJSON (pc_Memory pc) v (observation_file input ident ''startup/startup.json'')) (\<lambda>start.
     let phase = jstr (jget start ''cache_state''); pod = jstr (nested start [''pod'', ''uid'']) in
     on_ok (demand ((phase = ''cold'' \<or> phase = ''warm'') \<and> length pod = 36 \<and> jget start ''status'' = JStr ''observed-not-qualified'')
       msg_startup_failed) (\<lambda>_.
     case RawJSON (pc_Memory pc) v (observation_file input ident ''serving/result.json'') of
       Inl _ \<Rightarrow> Inl (Plain msg_serving_failed)
     | Inr result \<Rightarrow>
         if jget result ''status'' \<noteq> JStr ''measured-not-qualified'' then Inl (Plain msg_serving_failed)
         else on_ok (observeWindow (pc_Window pc) v (observation_file input ident ''startup/memory.jsonl'') limit shm memory) (\<lambda>a.
           on_ok (observeWindow (pc_Window pc) v (observation_file input ident ''serving/host-telemetry.jsonl'') limit shm memory) (\<lambda>b.
           Inr \<lparr>mo_Phase = phase, mo_PodID = pod, mo_Startup = summaryWindow a, mo_Steady = summaryWindow b\<rparr>))))"

definition Observe :: "PlanCodec \<Rightarrow> FileView \<Rightarrow> string \<Rightarrow> Manifest \<Rightarrow> int \<Rightarrow> int \<Rightarrow> err + MemoryObservation list" where
  "Observe pc v input m limit shm =
     on_ok (RawJSON (pc_Memory pc) v (Join input ''resource-plan.json'')) (\<lambda>r.
     case total_mib r of
       None \<Rightarrow> Inl (Plain msg_resource_missing)
     | Some memory \<Rightarrow> map_ok (observe_row pc v input limit shm memory) (mf_Observations m))"

section \<open>The checks of a plan\<close>

definition msg_plan :: string where
  "msg_plan = ''installer memory plan schema, identity or conservative-budget verification failed''"

abbreviation plan_check :: "bool \<Rightarrow> err + unit" where
  "plan_check b \<equiv> demand b msg_plan"

definition plan_shape :: "MemPlan \<Rightarrow> bool" where
  "plan_shape p \<longleftrightarrow> \<not> (mp_Schema p \<noteq> 1 \<or> mp_Kind p \<noteq> ''sglang-host-memory-plan'' \<or> mp_Status p \<noteq> ''plan-only-unqualified'' \<or> mp_Baseline p \<le> 0
     \<or> mp_Baseline p > 2 ^ 30 \<or> mp_Candidate p \<le> 0 \<or> mp_Candidate p \<ge> mp_Baseline p \<or> mp_Candidate p \<noteq> mp_Minimum p
     \<or> mp_Candidate p mod 256 \<noteq> 0 \<or> length (mp_Observations p) < 4 \<or> length (mp_Observations p) > 20 \<or> length (mp_Limitations p) \<noteq> 6)
     \<and> list_all digest_ok [mp_WorkloadHash p, mp_RuntimeIdentity p, mp_BaselineHash p, mp_CandidateHash p]"

definition budget_ok :: "MemPlan \<Rightarrow> Manifest \<Rightarrow> int \<Rightarrow> bool" where
  "budget_ok p m other \<longleftrightarrow> \<not> (mp_WorkloadHash p \<noteq> file_digest m ''workload.json'' \<or> bg_Other (mp_Budget p) \<noteq> other \<or> other < 0
     \<or> bg_Allocatable (mp_Budget p) \<le> 0 \<or> i64 (mp_Candidate p + other) > bg_Allocatable (mp_Budget p) \<or> bg_SHM (mp_Budget p) \<le> 0
     \<or> bg_SHM (mp_Budget p) \<ge> mp_Baseline p)"

definition telemetry_ok :: "TelemetryAllowance option \<Rightarrow> int \<Rightarrow> bool" where
  "telemetry_ok t other = (case t of None \<Rightarrow> True | Some a \<Rightarrow> \<not> other < ta_ReserveMiB a)"

definition expected_evidence :: "string \<Rightarrow> string \<Rightarrow> Manifest \<Rightarrow> string \<Rightarrow> string gomap" where
  "expected_evidence input lock_path m lock = foldl (\<lambda>acc (name, d). AList.update (Join input name) d acc) [(lock_path, lock)] (mf_Files m)"

definition tool_ok :: "PlanCodec \<Rightarrow> FileView \<Rightarrow> string \<Rightarrow> MemPlan \<Rightarrow> string \<Rightarrow> err + unit" where
  "tool_ok pc v runtime p name =
     on_ok (HashFile (pc_Memory pc) v (Join (Join runtime ''lib/workstation'') name)) (\<lambda>(h, _).
     plan_check (text_at (mp_Tools p) name = h))"

definition shm_volume_ok :: "MemoryCodec \<Rightarrow> MemPlan \<Rightarrow> json \<Rightarrow> bool" where
  "shm_volume_ok mc p volume = (jget volume ''name'' = JStr ''shm'' \<longrightarrow>
     MiB mc (nested volume [''emptyDir'', ''sizeLimit'']) = Inr (bg_SHM (mp_Budget p)))"

definition shm_ok :: "MemoryCodec \<Rightarrow> MemPlan \<Rightarrow> json \<Rightarrow> bool" where
  "shm_ok mc p baseline = (let volumes = jlist (nested baseline [''spec'', ''template'', ''spec'', ''volumes'']) in
     list_all (shm_volume_ok mc p) volumes \<and> list_ex (\<lambda>volume. jget volume ''name'' = JStr ''shm'') volumes)"

definition spec_path :: string where "spec_path = ''/spec/template/spec''"
definition resources_path :: string where "resources_path = ''/spec/template/spec/containers/0/resources''"

definition patch_shape :: "Patch list \<Rightarrow> bool" where
  "patch_shape ps = (case ps of
     [a, b] \<Rightarrow> pa_Op a = ''test'' \<and> pa_Path a = spec_path \<and> pa_Op b = ''replace'' \<and> pa_Path b = resources_path
   | _ \<Rightarrow> False)"

section \<open>The candidate\<close>

definition set_member :: "string \<Rightarrow> json \<Rightarrow> json \<Rightarrow> json" where
  "set_member k x j = JObj (AList.update k x (jobject j))"

text \<open>The memory of both requests and limits; the copy of the specification shares nothing with the original.\<close>

definition sized :: "int \<Rightarrow> json \<Rightarrow> json \<Rightarrow> string \<Rightarrow> json" where
  "sized mib original acc key = set_member key (set_member ''memory'' (JStr (Itoa mib @ ''Mi'')) (jget original key)) acc"

definition sized_resources :: "int \<Rightarrow> json \<Rightarrow> json" where
  "sized_resources mib original = foldl (sized mib original) original [''requests'', ''limits'']"

definition with_resources :: "json \<Rightarrow> json \<Rightarrow> json" where
  "with_resources spec resources = set_member ''containers''
     (JArr [set_member ''resources'' resources (jlist (jget spec ''containers'') ! 0)]) spec"

definition spec_resources :: "json \<Rightarrow> json option" where
  "spec_resources spec = (case jget spec ''containers'' of
     JArr [container] \<Rightarrow> if is_object container \<and> jget container ''name'' = JStr ''sglang'' \<and> is_object (jget container ''resources'')
       then Some (jget container ''resources'') else None
   | _ \<Rightarrow> None)"

definition resources_ok :: "MemoryCodec \<Rightarrow> MemPlan \<Rightarrow> json \<Rightarrow> bool" where
  "resources_ok mc p resources \<longleftrightarrow> deep_equal (jget resources ''requests'') (jget resources ''limits'')
     \<and> MiB mc (nested resources [''limits'', ''memory'']) = Inr (mp_Baseline p)
     \<and> is_object (jget resources ''requests'') \<and> is_object (jget resources ''limits'')"

definition patches_ok :: "PlanCodec \<Rightarrow> MemPlan \<Rightarrow> json \<Rightarrow> Patch list \<Rightarrow> Patch list \<Rightarrow> bool" where
  "patches_ok pc p spec patch rollback \<longleftrightarrow> deep_equal (pa_Value (patch ! 0)) spec \<and> Identity pc spec = mp_BaselineHash p \<and>
     (case spec_resources spec of
        None \<Rightarrow> False
      | Some original \<Rightarrow>
          resources_ok (pc_Memory pc) p original \<and>
          (let resources = sized_resources (mp_Candidate p) original; smaller = with_resources spec resources in
           deep_equal (pa_Value (patch ! 1)) resources \<and> deep_equal (pa_Value (rollback ! 0)) smaller
           \<and> deep_equal (pa_Value (rollback ! 1)) original \<and> Identity pc smaller = mp_CandidateHash p))"

section \<open>Observations\<close>

definition window_ok :: "MemPlan \<Rightarrow> Window \<Rightarrow> bool" where
  "window_ok p w \<longleftrightarrow> \<not> (wn_Samples w < 2 \<or> wn_Samples w > 100000 \<or> wn_Duration w < 0 \<or> wn_FirstMono w \<le> 0 \<or> wn_LastMono w \<le> wn_FirstMono w
     \<or> wn_FirstUnix w \<le> 0 \<or> wn_LastUnix w \<le> wn_FirstUnix w \<or> wn_Sampled w \<le> 0 \<or> wn_Sampled w > wn_Peak w
     \<or> wn_Peak w > i64 (mp_Baseline p * 2 ^ 20) \<or> wn_Available w < 0 \<or> length (wn_Stat w) \<noteq> 3 \<or> amount (wn_Stat w) ''anon'' < 0
     \<or> amount (wn_Stat w) ''file'' < 0 \<or> amount (wn_Stat w) ''shmem'' < 0 \<or> amount (wn_Stat w) ''shmem'' > amount (wn_Stat w) ''file''
     \<or> wn_Envelope w \<noteq> i64 (wn_Peak w + i64 (bg_SHM (mp_Budget p) * 2 ^ 20)) \<or> wn_CgroupID w = [] \<or> wn_Path w = [])"

definition pod_identity_ok :: "PlanCodec \<Rightarrow> MemPlan \<Rightarrow> Observation \<Rightarrow> json \<Rightarrow> json \<Rightarrow> bool" where
  "pod_identity_ok pc p x start result \<longleftrightarrow> \<not> (Identity pc (JObj [(''image_id'', nested result [''pod'', ''image_id'']),
       (''node'', nested result [''pod'', ''node'']), (''runtime'', jget result ''runtime'')]) \<noteq> mp_RuntimeIdentity p
     \<or> jget start ''cache_state'' \<noteq> JStr (ob_Phase x) \<or> nested result [''pod'', ''uid''] \<noteq> JStr (ob_PodUID x)
     \<or> nested start [''pod'', ''uid''] \<noteq> JStr (ob_PodUID x) \<or> jget start ''status'' \<noteq> JStr ''observed-not-qualified''
     \<or> jget result ''status'' \<noteq> JStr ''measured-not-qualified'')"

text \<open>What the loop over the observations carries along.\<close>

record Tally =
  ty_Seen :: "string list"
  ty_Envelope :: int
  ty_Cold :: int
  ty_Warm :: int
  ty_Rows :: "MemoryObservation list"

definition tally :: "Observation \<Rightarrow> Tally \<Rightarrow> Tally" where
  "tally x y = y\<lparr>ty_Seen := ob_PodUID x # ty_Seen y, ty_Envelope := max (max (ty_Envelope y) (wn_Envelope (ob_Startup x))) (wn_Envelope (ob_Steady x)),
     ty_Cold := ty_Cold y + (if ob_Phase x = ''cold'' then 1 else 0), ty_Warm := ty_Warm y + (if ob_Phase x = ''warm'' then 1 else 0),
     ty_Rows := ty_Rows y @ [\<lparr>mo_Phase = ob_Phase x, mo_PodID = ob_PodUID x, mo_Startup = summaryWindow (ob_Startup x), mo_Steady = summaryWindow (ob_Steady x)\<rparr>]\<rparr>"

definition observation_ok :: "MemPlan \<Rightarrow> Observation \<Rightarrow> string list \<Rightarrow> bool" where
  "observation_ok p x seen \<longleftrightarrow> ob_PodUID x \<notin> set seen \<and> length (ob_PodUID x) = 36 \<and> (ob_Phase x = ''cold'' \<or> ob_Phase x = ''warm'')
     \<and> window_ok p (ob_Startup x) \<and> window_ok p (ob_Steady x) \<and> \<not> wn_Duration (ob_Steady x) < 60
     \<and> wn_CgroupID (ob_Startup x) = wn_CgroupID (ob_Steady x) \<and> wn_Path (ob_Startup x) = wn_Path (ob_Steady x)
     \<and> \<not> wn_LastUnix (ob_Startup x) > wn_FirstUnix (ob_Steady x)"

fun check_observations :: "PlanCodec \<Rightarrow> FileView \<Rightarrow> string \<Rightarrow> MemPlan \<Rightarrow> json \<Rightarrow> Tally \<Rightarrow> (string \<times> Observation) list \<Rightarrow> err + Tally" where
  "check_observations pc v input p resource y [] = Inr y"
| "check_observations pc v input p resource y ((ident, x) # xs) =
     on_ok (RawJSON (pc_Memory pc) v (observation_file input ident ''startup/startup.json'')) (\<lambda>start.
     on_ok (RawJSON (pc_Memory pc) v (observation_file input ident ''serving/result.json'')) (\<lambda>result.
     on_ok (plan_check (pod_identity_ok pc p x start result)) (\<lambda>_.
     case total_mib resource of
       None \<Rightarrow> Inl (Plain msg_plan)
     | Some memory \<Rightarrow>
         on_ok (observeWindow (pc_Window pc) v (observation_file input ident ''startup/memory.jsonl'') (mp_Baseline p) (bg_SHM (mp_Budget p)) memory) (\<lambda>startup.
         on_ok (observeWindow (pc_Window pc) v (observation_file input ident ''serving/host-telemetry.jsonl'') (mp_Baseline p) (bg_SHM (mp_Budget p)) memory) (\<lambda>steady.
         on_ok (plan_check (same_window startup (ob_Startup x) \<and> same_window steady (ob_Steady x))) (\<lambda>_.
         on_ok (plan_check (observation_ok p x (ty_Seen y))) (\<lambda>_.
         check_observations pc v input p resource (tally x y) xs)))))))"

section \<open>Acceptance\<close>

definition headroom_of :: "int \<Rightarrow> int" where
  "headroom_of envelope = max (2048 * 2 ^ 20) (i64 (envelope + 3) div 4)"

definition candidate_of :: "int \<Rightarrow> int \<Rightarrow> int" where
  "candidate_of envelope headroom = i64 (i64 (envelope + headroom + 256 * 2 ^ 20 - 1) div (256 * 2 ^ 20) * 256)"

definition msg_wire_size :: string where "msg_wire_size = ''private memory artifact exceeds bounded helper export response''"

definition checkArtifactWireSize :: "PlanCodec \<Rightarrow> Artifact \<Rightarrow> string \<Rightarrow> err + unit" where
  "checkArtifactWireSize pc a b = demand (pc_WireSize pc (a\<lparr>a_Content := b\<rparr>) \<le> 3 * 2 ^ 20) msg_wire_size"

definition plan_artifact :: "PlanCodec \<Rightarrow> FileView \<Rightarrow> string \<Rightarrow> Manifest \<Rightarrow> string \<Rightarrow> err + Artifact" where
  "plan_artifact pc v dir m name =
     on_ok (memory_Read v (Join dir name) (2 * 2 ^ 20)) (\<lambda>b.
     let a = \<lparr>a_Name = name, a_SHA256 = mc_SHA256 (pc_Memory pc) b, a_Size = int (length b), a_SourceRevision = mf_SourceRevision m,
       a_Qualification = ''plan-only-unqualified'', a_Content = []\<rparr> in
     on_ok (checkArtifactWireSize pc a b) (\<lambda>_. Inr a))"

definition artifact_sum_ok :: "PlanCodec \<Rightarrow> FileView \<Rightarrow> string \<Rightarrow> MemPlan \<Rightarrow> string \<Rightarrow> err + unit" where
  "artifact_sum_ok pc v dir p name =
     on_ok (memory_Read v (Join dir name) (2 * 2 ^ 20)) (\<lambda>b.
     plan_check (mc_SHA256 (pc_Memory pc) b = text_at (mp_Artifacts p) name))"

definition plan_limitations :: "string list" where
  "plan_limitations = [''Unqualified offline candidate; no resize, restart, source update or qualification.'',
     ''Cold/warm labels are owner declarations; lifetime peak includes unsampled startup.'',
     ''Full shm growth is reserved inside the Pod budget; sampled shmem is not /dev/shm attribution.'',
     ''Repeat startup, steady memory, numerical/coding correctness and latency/throughput at the smaller limit.'',
     ''On OOM, PSI or quality/performance regression retain and use the exact preconditioned rollback.'',
     ''Regenerate compilation-worker resource plans after resizing.'']"

definition plan_summary :: "MemPlan \<Rightarrow> TelemetryAllowance option \<Rightarrow> int \<Rightarrow> Tally \<Rightarrow> Artifact list \<Rightarrow> MemorySummary" where
  "plan_summary p t other y arts = \<lparr>sy_EvidenceID = [], sy_SHA256 = [], sy_Status = mp_Status p,
     sy_Reason = ''conservative_lifetime_peak_plus_full_shm_and_headroom'', sy_BaselineMiB = mp_Baseline p, sy_LimitedMiB = mp_Baseline p,
     sy_CandidateMiB = mp_Candidate p, sy_MinimumCandidateMiB = mp_Minimum p, sy_SharedMemoryMiB = bg_SHM (mp_Budget p), sy_OtherMiB = other,
     sy_TelemetryProfile = (case t of None \<Rightarrow> [] | Some a \<Rightarrow> ta_Profile a), sy_TelemetryReserveMiB = (case t of None \<Rightarrow> 0 | Some a \<Rightarrow> ta_ReserveMiB a),
     sy_TelemetryComponentLimitsMiB = (case t of None \<Rightarrow> [] | Some a \<Rightarrow> ta_ComponentLimitsMiB a),
     sy_TelemetryMarginMiB = (case t of None \<Rightarrow> 0 | Some a \<Rightarrow> ta_MarginMiB a),
     sy_TelemetryCalculatedAllowanceMiB = (case t of None \<Rightarrow> 0 | Some a \<Rightarrow> ta_CalculatedAllowanceMiB a),
     sy_AllocatableMiB = bg_Allocatable (mp_Budget p), sy_EnvelopeBytes = ty_Envelope y, sy_HeadroomBytes = headroom_of (ty_Envelope y),
     sy_Cold = ty_Cold y, sy_Warm = ty_Warm y, sy_Observations = ty_Rows y, sy_Preconditions = [], sy_Limitations = plan_limitations,
     sy_Artifacts = arts\<rparr>"

definition budget_final :: "MemPlan \<Rightarrow> Tally \<Rightarrow> bool" where
  "budget_final p y \<longleftrightarrow> \<not> (ty_Cold y < 2 \<or> ty_Warm y < 2 \<or> bg_Envelope (mp_Budget p) \<noteq> ty_Envelope y \<or> bg_Headroom (mp_Budget p) \<noteq> headroom_of (ty_Envelope y)
     \<or> candidate_of (ty_Envelope y) (headroom_of (ty_Envelope y)) \<noteq> mp_Minimum p)"

text \<open>The sealed side: telemetry, the identity of evidence and tools, and the baseline.\<close>

definition check_evidence :: "PlanCodec \<Rightarrow> FileView \<Rightarrow> string \<Rightarrow> string \<Rightarrow> MemPlan \<Rightarrow> Manifest \<Rightarrow> int \<Rightarrow> err + TelemetryAllowance option" where
  "check_evidence pc v input runtime p m other =
     (case Telemetry (pc_Memory pc) (pc_Telemetry pc) v input m of
        Inl _ \<Rightarrow> Inl (Plain msg_plan)
      | Inr t \<Rightarrow>
          on_ok (plan_check (telemetry_ok t other)) (\<lambda>_.
          on_ok (HashFile (pc_Memory pc) v (Join runtime ''versions.lock'')) (\<lambda>(lock, _).
          on_ok (plan_check (gomap_eq (expected_evidence input (Join runtime ''versions.lock'') m lock) (mp_Evidence p)
            \<and> length (mp_Tools p) = length memory_tools)) (\<lambda>_.
          on_ok (map_ok (tool_ok pc v runtime p) memory_tools) (\<lambda>_. Inr t)))))"

definition check_patches :: "PlanCodec \<Rightarrow> FileView \<Rightarrow> string \<Rightarrow> MemPlan \<Rightarrow> json \<Rightarrow> err + unit" where
  "check_patches pc v dir p baseline =
     on_ok (memory_JSON (pc_Memory pc) v (pc_Patch pc) (Join dir ''patch.json'')) (\<lambda>patch.
     on_ok (memory_JSON (pc_Memory pc) v (pc_Patch pc) (Join dir ''rollback.json'')) (\<lambda>rollback.
     on_ok (plan_check (length patch = 2 \<and> length rollback = 2 \<and> length (mp_Artifacts p) = 2)) (\<lambda>_.
     on_ok (plan_check (patch_shape patch \<and> patch_shape rollback)) (\<lambda>_.
     plan_check (patches_ok pc p (nested baseline [''spec'', ''template'', ''spec'']) patch rollback)))))"

definition ValidateOutput :: "PlanCodec \<Rightarrow> FileView \<Rightarrow> string \<Rightarrow> string \<Rightarrow> string \<Rightarrow> Manifest \<Rightarrow> int \<Rightarrow> err + MemorySummary" where
  "ValidateOutput pc v dir input runtime m other =
     (case checkOutputTree v dir of
        Some e \<Rightarrow> Inl e
      | None \<Rightarrow>
          on_ok (memory_JSON (pc_Memory pc) v (pc_Plan pc) (Join dir ''plan.json'')) (\<lambda>p.
          on_ok (plan_check (plan_shape p)) (\<lambda>_.
          on_ok (plan_check (budget_ok p m other)) (\<lambda>_.
          on_ok (check_evidence pc v input runtime p m other) (\<lambda>t.
          on_ok (RawJSON (pc_Memory pc) v (Join input ''deployment.json'')) (\<lambda>baseline.
          on_ok (RawJSON (pc_Memory pc) v (Join input ''resource-plan.json'')) (\<lambda>resource.
          on_ok (plan_check (nested resource [''memory'', ''allocatable_mib''] = JFloat (pc_Float pc (bg_Allocatable (mp_Budget p)))
            \<and> length (mf_Observations m) = length (mp_Observations p))) (\<lambda>_.
          on_ok (plan_check (shm_ok (pc_Memory pc) p baseline)) (\<lambda>_.
          on_ok (check_patches pc v dir p baseline) (\<lambda>_.
          on_ok (check_observations pc v input p resource \<lparr>ty_Seen = [], ty_Envelope = 0, ty_Cold = 0, ty_Warm = 0, ty_Rows = []\<rparr>
            (zip (mf_Observations m) (mp_Observations p))) (\<lambda>y.
          on_ok (plan_check (budget_final p y)) (\<lambda>_.
          on_ok (map_ok (artifact_sum_ok pc v dir p) [''patch.json'', ''rollback.json'']) (\<lambda>_.
          on_ok (map_ok (plan_artifact pc v dir m) [''plan.json'', ''patch.json'', ''rollback.json'']) (\<lambda>arts.
          Inr (plan_summary p t other y arts)))))))))))))))"

end
