(* ===== verification/MemoryRun.thy ===== *)
theory MemoryRun
  imports MemoryPlan
begin

text \<open>
  What an accepted memory plan guarantees: the candidate covers the observed envelope with its headroom, a window is
  the extremes of its samples, the rollback undoes the patch, and verified evidence is exactly what its manifest seals.
\<close>

section \<open>The scan of a window\<close>

text \<open>The readings of accepted lines, one per line.\<close>

definition read_line :: "WindowCodec \<Rightarrow> int \<Rightarrow> int \<Rightarrow> string \<Rightarrow> Reading \<Rightarrow> bool" where
  "read_line wc limit memory l r \<longleftrightarrow> (\<exists>s. wc_Sample wc l = Some s \<and> sample_reading limit memory s = Some r)"

definition extremes :: "Window \<Rightarrow> Reading list \<Rightarrow> Window \<Rightarrow> bool" where
  "extremes w rs w' \<longleftrightarrow> wn_Samples w' = wn_Samples w + int (length rs)
     \<and> wn_Peak w' = foldl max (wn_Peak w) (map rd_Peak rs) \<and> wn_Sampled w' = foldl max (wn_Sampled w) (map rd_Current rs)
     \<and> (\<forall>k \<in> set stat_keys. amount (wn_Stat w') k = foldl max (amount (wn_Stat w) k) (map (\<lambda>r. amount (rd_Stat r) k) rs))
     \<and> wn_Available w' = foldl min (if wn_Samples w = 0 \<and> rs \<noteq> [] then rd_Available (hd rs) else wn_Available w) (map rd_Available rs)"

lemma amount_update: "amount (AList.update k x m) j = (if j = k then x else amount m j)"
  by (simp add: amount_def)

lemma raised_stat:
  "k \<in> set stat_keys \<Longrightarrow> amount (foldl (raise_stat new) old stat_keys) k = max (amount old k) (amount new k)"
  by (auto simp: stat_keys_def raise_stat_def amount_update)

lemma scan_extremes:
  assumes "scan_samples wc limit memory z ls = Some z'" and "0 \<le> wn_Samples (sc_Window z)"
  shows "\<exists>rs. list_all2 (read_line wc limit memory) ls rs \<and> extremes (sc_Window z) rs (sc_Window z')"
  using assms
proof (induction ls arbitrary: z)
  case Nil
  then show ?case by (auto simp: extremes_def)
next
  case (Cons l ls)
  from Cons.prems(1) obtain s r where s: "wc_Sample wc l = Some s" "sample_reading limit memory s = Some r" by (auto split: option.splits)
  define z1 where "z1 = (if wn_Samples (sc_Window z) = 0 then first_sample s r z else z)"
  define z2 where "z2 = add_sample s r (z1\<lparr>sc_Window := (sc_Window z1)\<lparr>wn_Samples := wn_Samples (sc_Window z1) + 1\<rparr>\<rparr>)"
  have run: "scan_samples wc limit memory z2 ls = Some z'"
    using Cons.prems(1) s by (auto simp: z2_def z1_def Let_def split: if_splits)
  have w: "wn_Samples (sc_Window z2) = wn_Samples (sc_Window z) + 1" "wn_Peak (sc_Window z2) = max (wn_Peak (sc_Window z)) (rd_Peak r)"
      "wn_Sampled (sc_Window z2) = max (wn_Sampled (sc_Window z)) (rd_Current r)"
      "wn_Stat (sc_Window z2) = foldl (raise_stat (rd_Stat r)) (wn_Stat (sc_Window z)) stat_keys"
      "wn_Available (sc_Window z2) = min (if wn_Samples (sc_Window z) = 0 then rd_Available r else wn_Available (sc_Window z)) (rd_Available r)"
    by (simp_all add: z2_def z1_def add_sample_def first_sample_def Let_def)
  from Cons.IH [OF run] w(1) Cons.prems(2) obtain rs where rs: "list_all2 (read_line wc limit memory) ls rs" "extremes (sc_Window z2) rs (sc_Window z')"
    by auto
  have "extremes (sc_Window z) (r # rs) (sc_Window z')"
    using rs(2) w raised_stat Cons.prems(2) by (auto simp: extremes_def)
  moreover have "read_line wc limit memory l r" using s by (simp add: read_line_def)
  ultimately show ?case using rs(1) by (intro exI [of _ "r # rs"]) simp
qed

lemma foldl_max: "foldl max a xs = Max (insert a (set xs))" for a :: "'a :: linorder"
proof (induction xs arbitrary: a)
  case (Cons x xs)
  then show ?case by (cases "xs = []") (simp_all add: ac_simps)
qed simp

lemma foldl_min: "foldl min a xs = Min (insert a (set xs))" for a :: "'a :: linorder"
proof (induction xs arbitrary: a)
  case (Cons x xs)
  then show ?case by (cases "xs = []") (simp_all add: ac_simps)
qed simp

lemma reading_bounds:
  assumes "sample_reading limit memory s = Some r"
  shows "0 < rd_Current r \<and> rd_Current r \<le> rd_Peak r \<and> rd_Peak r \<le> i64 (limit * 2 ^ 20)"
  using assms by (auto simp: sample_reading_def split: if_splits option.splits sum.splits prod.splits)


section \<open>The budget of a plan\<close>

definition row_of :: "Observation \<Rightarrow> MemoryObservation" where
  "row_of x = \<lparr>mo_Phase = ob_Phase x, mo_PodID = ob_PodUID x, mo_Startup = summaryWindow (ob_Startup x), mo_Steady = summaryWindow (ob_Steady x)\<rparr>"

text \<open>An observation that stood up: its windows are the ones reduced again from the sealed samples.\<close>

definition upheld :: "PlanCodec \<Rightarrow> FileView \<Rightarrow> string \<Rightarrow> MemPlan \<Rightarrow> string \<Rightarrow> Observation \<Rightarrow> bool" where
  "upheld pc v input p ident x \<longleftrightarrow> window_ok p (ob_Startup x) \<and> window_ok p (ob_Steady x) \<and> (\<exists>memory startup steady.
     observeWindow (pc_Window pc) v (observation_file input ident ''startup/memory.jsonl'') (mp_Baseline p) (bg_SHM (mp_Budget p)) memory = Inr startup
     \<and> observeWindow (pc_Window pc) v (observation_file input ident ''serving/host-telemetry.jsonl'') (mp_Baseline p) (bg_SHM (mp_Budget p)) memory = Inr steady
     \<and> same_window startup (ob_Startup x) \<and> same_window steady (ob_Steady x))"

lemma tally_simps [simp]:
  "ty_Seen (tally x y) = ob_PodUID x # ty_Seen y" "ty_Rows (tally x y) = ty_Rows y @ [row_of x]"
  "ty_Envelope (tally x y) = max (max (ty_Envelope y) (wn_Envelope (ob_Startup x))) (wn_Envelope (ob_Steady x))"
  by (simp_all add: tally_def row_of_def)

lemma observations_checked:
  assumes "check_observations pc v input p resource y xs = Inr z"
  shows "ty_Rows z = ty_Rows y @ map (row_of \<circ> snd) xs \<and> ty_Envelope y \<le> ty_Envelope z \<and> distinct (map (ob_PodUID \<circ> snd) xs)
    \<and> set (map (ob_PodUID \<circ> snd) xs) \<inter> set (ty_Seen y) = {}
    \<and> list_all (\<lambda>(ident, x). upheld pc v input p ident x \<and> wn_Envelope (ob_Startup x) \<le> ty_Envelope z \<and> wn_Envelope (ob_Steady x) \<le> ty_Envelope z) xs"
  using assms
proof (induction xs arbitrary: y)
  case (Cons e xs)
  obtain ident x where e: "e = (ident, x)" by (cases e)
  from Cons.prems obtain memory startup steady where
      m: "observeWindow (pc_Window pc) v (observation_file input ident ''startup/memory.jsonl'') (mp_Baseline p) (bg_SHM (mp_Budget p)) memory = Inr startup"
      "observeWindow (pc_Window pc) v (observation_file input ident ''serving/host-telemetry.jsonl'') (mp_Baseline p) (bg_SHM (mp_Budget p)) memory = Inr steady"
      "same_window startup (ob_Startup x)" "same_window steady (ob_Steady x)"
    and x: "observation_ok p x (ty_Seen y)" and rest: "check_observations pc v input p resource (tally x y) xs = Inr z"
    by (auto simp: e split: option.splits)
  have "upheld pc v input p ident x" using m x unfolding upheld_def observation_ok_def by blast
  with Cons.IH [OF rest] x show ?case by (auto simp: e observation_ok_def)
qed simp

lemma envelope_bounded:
  assumes "check_observations pc v input p resource y xs = Inr z" and "ty_Envelope y \<le> b"
    and "\<And>ident x. (ident, x) \<in> set xs \<Longrightarrow> wn_Envelope (ob_Startup x) \<le> b \<and> wn_Envelope (ob_Steady x) \<le> b"
  shows "ty_Envelope z \<le> b"
  using assms
proof (induction xs arbitrary: y)
  case (Cons e xs)
  obtain ident x where e: "e = (ident, x)" by (cases e)
  from Cons.prems(1) have rest: "check_observations pc v input p resource (tally x y) xs = Inr z" by (auto simp: e split: option.splits)
  show ?case using Cons.IH [OF rest] Cons.prems(2,3) by (auto simp: e)
qed simp

lemma validated_plan:
  assumes "ValidateOutput pc v dir input runtime m other = Inr s"
  obtains p t y arts baseline resource where "plan_shape p" and "budget_ok p m other" and "check_evidence pc v input runtime p m other = Inr t"
    and "RawJSON (pc_Memory pc) v (Join input ''deployment.json'') = Inr baseline" and "check_patches pc v dir p baseline = Inr ()"
    and "check_observations pc v input p resource \<lparr>ty_Seen = [], ty_Envelope = 0, ty_Cold = 0, ty_Warm = 0, ty_Rows = []\<rparr>
      (zip (mf_Observations m) (mp_Observations p)) = Inr y"
    and "length (mf_Observations m) = length (mp_Observations p)" and "budget_final p y" and "s = plan_summary p t other y arts"
  using assms by (auto simp: ValidateOutput_def split: option.splits)

lemma window_envelope:
  assumes "window_ok p w" and "plan_shape p" and "budget_ok p m other"
  shows "wn_Envelope w = wn_Peak w + bg_SHM (mp_Budget p) * 2 ^ 20" and "wn_Envelope w \<le> 2 ^ 51" and "0 \<le> wn_Peak w"
proof -
  have b: "0 < mp_Baseline p" "mp_Baseline p \<le> 2 ^ 30" using assms(2) by (auto simp: plan_shape_def)
  have h: "0 < bg_SHM (mp_Budget p)" "bg_SHM (mp_Budget p) < mp_Baseline p" using assms(3) by (auto simp: budget_ok_def)
  have base: "i64 (mp_Baseline p * 2 ^ 20) = mp_Baseline p * 2 ^ 20" using b by (intro i64_id) (simp add: in_i64_def)
  have shm: "i64 (bg_SHM (mp_Budget p) * 2 ^ 20) = bg_SHM (mp_Budget p) * 2 ^ 20" using b h by (intro i64_id) (simp add: in_i64_def)
  have w: "0 < wn_Sampled w" "wn_Sampled w \<le> wn_Peak w" "wn_Peak w \<le> mp_Baseline p * 2 ^ 20"
      "wn_Envelope w = i64 (wn_Peak w + bg_SHM (mp_Budget p) * 2 ^ 20)"
    using assms(1) unfolding window_ok_def base shm by auto
  have le: "wn_Peak w + bg_SHM (mp_Budget p) * 2 ^ 20 \<le> 2 ^ 51" using w(3) b h by simp
  have "in_i64 (wn_Peak w + bg_SHM (mp_Budget p) * 2 ^ 20)" using le w h by (simp add: in_i64_def)
  with w(4) le show "wn_Envelope w = wn_Peak w + bg_SHM (mp_Budget p) * 2 ^ 20" "wn_Envelope w \<le> 2 ^ 51" by (simp_all add: i64_id)
  show "0 \<le> wn_Peak w" using w by simp
qed

lemma candidate_covers:
  assumes "0 \<le> e" and "e \<le> 2 ^ 51"
  shows "e + max (2 ^ 31) (e div 4) \<le> candidate_of e (headroom_of e) * 2 ^ 20" and "candidate_of e (headroom_of e) * 2 ^ 20 < e + headroom_of e + 2 ^ 28"
proof -
  have h: "headroom_of e = max (2 ^ 31) ((e + 3) div 4)" using assms by (simp add: headroom_of_def i64_id in_i64_def)
  have range: "0 \<le> headroom_of e" "headroom_of e \<le> 2 ^ 51" using assms by (auto simp: h)
  define n where "n = e + headroom_of e + 256 * 2 ^ 20 - 1"
  have n: "0 \<le> n" "n < 2 ^ 53" using assms range by (simp_all add: n_def)
  have q: "0 \<le> n div (256 * 2 ^ 20)" "n div (256 * 2 ^ 20) \<le> 2 ^ 53" using n zdiv_mono1 [of n "2 ^ 53" "256 * 2 ^ 20"] by simp_all
  have "i64 n = n" using n by (intro i64_id) (simp add: in_i64_def)
  moreover have "i64 (n div (256 * 2 ^ 20) * 256) = n div (256 * 2 ^ 20) * 256" using n q by (intro i64_id) (simp add: in_i64_def)
  ultimately have c: "candidate_of e (headroom_of e) * 2 ^ 20 = n div (256 * 2 ^ 20) * (256 * 2 ^ 20)" by (simp add: candidate_of_def n_def)
  have split: "n = n div (256 * 2 ^ 20) * (256 * 2 ^ 20) + n mod (256 * 2 ^ 20)" "0 \<le> n mod (256 * 2 ^ 20)" "n mod (256 * 2 ^ 20) < 256 * 2 ^ 20"
    by simp_all
  have quarter: "max (2 ^ 31) (e div 4) \<le> headroom_of e" by (auto simp: h)
  show "e + max (2 ^ 31) (e div 4) \<le> candidate_of e (headroom_of e) * 2 ^ 20" using split quarter unfolding c n_def by linarith
  show "candidate_of e (headroom_of e) * 2 ^ 20 < e + headroom_of e + 2 ^ 28" using split unfolding c n_def by simp
qed


section \<open>Equality of documents\<close>

fun wf_json :: "json \<Rightarrow> bool" where
  "wf_json (JArr xs) = list_all wf_json xs"
| "wf_json (JObj m) = (wf_map m \<and> list_all (\<lambda>(k, x). wf_json x) m)"
| "wf_json _ = True"

lemma wf_member: "wf_json (JObj m) \<Longrightarrow> (k, x) \<in> set m \<Longrightarrow> map_of m k = Some x \<and> wf_json x"
  by (auto simp: wf_map_def list_all_iff)

lemma wf_jget: "wf_json j \<Longrightarrow> wf_json (jget j k)"
  using wf_member by (cases j) (fastforce simp: jget_def jobject_def split: option.split dest: map_of_SomeD)+

lemma deep_equal_object:
  assumes "wf_json (JObj m)" and "wf_json (JObj n)"
  shows "deep_equal (JObj m) (JObj n) \<longleftrightarrow> rel_fun (=) (rel_option deep_equal) (map_of m) (map_of n)"
proof -
  have dm: "distinct (map fst m)" "distinct (map fst n)" using assms by (simp_all add: wf_map_def)
  show ?thesis
  proof
    assume d: "deep_equal (JObj m) (JObj n)"
    then have len: "length m = length n" and each: "\<And>k x. (k, x) \<in> set m \<Longrightarrow> \<exists>y. map_of n k = Some y \<and> deep_equal x y"
      by (auto simp: list_all_iff split: option.splits)
    have sub: "fst ` set m \<subseteq> fst ` set n" using each by (force dest: map_of_SomeD)
    have "card (fst ` set m) = card (fst ` set n)" using dm len distinct_card [OF dm(1)] distinct_card [OF dm(2)] by simp
    then have same: "fst ` set m = fst ` set n" using sub by (simp add: card_subset_eq)
    have "rel_option deep_equal (map_of m k) (map_of n k)" for k
    proof (cases "map_of m k")
      case None
      then have "map_of n k = None" using same by (simp add: map_of_eq_None_iff)
      with None show ?thesis by simp
    next
      case (Some x)
      with each [of k x, OF map_of_SomeD] show ?thesis by auto
    qed
    then show "rel_fun (=) (rel_option deep_equal) (map_of m) (map_of n)" by (simp add: rel_fun_def)
  next
    assume "rel_fun (=) (rel_option deep_equal) (map_of m) (map_of n)"
    then have r: "rel_option deep_equal (map_of m k) (map_of n k)" for k by (simp add: rel_fun_def)
    have "map_of m k = None \<longleftrightarrow> map_of n k = None" for k using r [of k] by (auto simp: option_rel_Some1 option_rel_Some2 elim: option.rel_cases)
    then have "fst ` set m = fst ` set n" by (auto simp: map_of_eq_None_iff set_eq_iff) 
    then have "length m = length n" using distinct_card [OF dm(1)] distinct_card [OF dm(2)] by simp
    moreover have "case map_of n k of None \<Rightarrow> False | Some y \<Rightarrow> deep_equal x y" if "(k, x) \<in> set m" for k x
      using r [of k] that dm(1) by (auto elim: option.rel_cases)
    ultimately show "deep_equal (JObj m) (JObj n)" by (auto simp: list_all_iff)
  qed
qed

lemma deep_equal_refl: "wf_json a \<Longrightarrow> deep_equal a a"
proof (induction a rule: wf_json.induct)
  case (2 m)
  have "rel_option deep_equal (map_of m k) (map_of m k)" for k
  proof (cases "map_of m k")
    case (Some x)
    then have "(k, x) \<in> set m" by (rule map_of_SomeD)
    with 2 wf_member [OF "2.prems"] show ?thesis by (auto simp: Some)
  qed simp
  then show ?case using deep_equal_object [OF "2.prems" "2.prems"] by (simp add: rel_fun_def)
qed (auto simp: list_all_iff in_set_zip)

lemma deep_equal_sym: "wf_json a \<Longrightarrow> wf_json b \<Longrightarrow> deep_equal a b \<Longrightarrow> deep_equal b a"
proof (induction a arbitrary: b rule: wf_json.induct)
  case (1 xs)
  from "1.prems"(3) obtain ys where b: "b = JArr ys" "length xs = length ys" "\<And>x y. (x, y) \<in> set (zip xs ys) \<Longrightarrow> deep_equal x y"
    by (cases b) (auto simp: list_all_iff)
  have "deep_equal y x" if "(y, x) \<in> set (zip ys xs)" for y x
  proof -
    have m: "(x, y) \<in> set (zip xs ys)" "x \<in> set xs" "y \<in> set ys" using that b(2) by (auto simp: set_zip)
    with 1 b show ?thesis by (auto simp: list_all_iff)
  qed
  then show ?case using b by (auto simp: list_all_iff)
next
  case (2 m)
  from "2.prems"(3) obtain n where b: "b = JObj n" by (cases b) auto
  have r: "rel_option deep_equal (map_of m k) (map_of n k)" for k
    using deep_equal_object [of m n] "2.prems" by (simp add: b rel_fun_def)
  have "rel_option deep_equal (map_of n k) (map_of m k)" for k
  proof (cases "map_of m k")
    case None
    with r [of k] show ?thesis by simp
  next
    case (Some x)
    with r [of k] obtain y where y: "map_of n k = Some y" "deep_equal x y" by (auto simp: option_rel_Some1)
    have m: "(k, x) \<in> set m" "(k, y) \<in> set n" using Some y(1) by (auto dest: map_of_SomeD)
    have "deep_equal y x" using "2.IH" [OF m(1) refl, of y] wf_member [OF _ m(1)] wf_member [OF _ m(2)] "2.prems" y(2) b by auto
    with Some y(1) show ?thesis by simp
  qed
  then show ?case using deep_equal_object [of n m] "2.prems" by (simp add: b rel_fun_def)
qed auto

lemma deep_equal_trans: "wf_json a \<Longrightarrow> wf_json b \<Longrightarrow> wf_json c \<Longrightarrow> deep_equal a b \<Longrightarrow> deep_equal b c \<Longrightarrow> deep_equal a c"
proof (induction a arbitrary: b c rule: wf_json.induct)
  case (1 xs)
  from "1.prems"(4) obtain ys where b: "b = JArr ys" "length xs = length ys" "\<And>x y. (x, y) \<in> set (zip xs ys) \<Longrightarrow> deep_equal x y"
    by (cases b) (auto simp: list_all_iff)
  from "1.prems"(5) b(1) obtain zs where c: "c = JArr zs" "length ys = length zs" "\<And>x y. (x, y) \<in> set (zip ys zs) \<Longrightarrow> deep_equal x y"
    by (cases c) (auto simp: list_all_iff)
  have "deep_equal x z" if "(x, z) \<in> set (zip xs zs)" for x z
  proof -
    from that obtain i where i: "i < length xs" "x = xs ! i" "z = zs ! i" using b(2) c(2) by (auto simp: set_zip)
    have m: "(x, ys ! i) \<in> set (zip xs ys)" "(ys ! i, z) \<in> set (zip ys zs)" "x \<in> set xs" "ys ! i \<in> set ys" "z \<in> set zs"
      using i b(2) c(2) by (auto simp: set_zip)
    show ?thesis using "1.IH" [OF m(3), of "ys ! i" z] "1.prems"(1-3) b(3) [OF m(1)] c(3) [OF m(2)] m(3-5) by (auto simp: b(1) c(1) list_all_iff)
  qed
  then show ?case using b(2) c(2) by (auto simp: c(1) list_all_iff)
next
  case (2 m)
  from "2.prems"(4) obtain n where b: "b = JObj n" by (cases b) auto
  from "2.prems"(5) obtain l where c: "c = JObj l" by (cases c) (auto simp: b)
  have r: "rel_option deep_equal (map_of m k) (map_of n k)" "rel_option deep_equal (map_of n k) (map_of l k)" for k
    using deep_equal_object [of m n] deep_equal_object [of n l] "2.prems" by (simp_all add: b c rel_fun_def)
  have "rel_option deep_equal (map_of m k) (map_of l k)" for k
  proof (cases "map_of m k")
    case None
    with r [of k] show ?thesis by simp
  next
    case (Some x)
    with r [of k] obtain y z where y: "map_of n k = Some y" "deep_equal x y" "map_of l k = Some z" "deep_equal y z" by (auto simp: option_rel_Some1)
    have m: "(k, x) \<in> set m" "(k, y) \<in> set n" "(k, z) \<in> set l" using Some y by (auto dest: map_of_SomeD)
    have "deep_equal x z"
      using "2.IH" [OF m(1) refl, of y z] wf_member [OF _ m(1)] wf_member [OF _ m(2)] wf_member [OF _ m(3)] "2.prems"(1-3) y(2,4) b c by auto
    with Some y(3) show ?thesis by simp
  qed
  then show ?case using deep_equal_object [of m l] "2.prems" by (simp add: c rel_fun_def)
qed auto

lemma update_member: "(j, y) \<in> set (AList.update k x m) \<Longrightarrow> (j, y) \<in> set m \<or> y = x"
  by (induction m) (auto split: if_splits)

lemma wf_jobject: "wf_json a \<Longrightarrow> wf_json (JObj (jobject a))"
  by (cases a) (auto simp: jobject_def)

lemma wf_set_member:
  assumes "wf_json a" and "wf_json x"
  shows "wf_json (set_member k x a)"
  using wf_jobject [OF assms(1)] assms(2) update_member by (fastforce simp: set_member_def list_all_iff)

lemma set_member_cong:
  assumes "wf_json a" and "wf_json x" and "wf_json y" and "deep_equal x y"
  shows "deep_equal (set_member k x a) (set_member k y a)"
proof -
  have "rel_option deep_equal (map_of (jobject a) j) (map_of (jobject a) j)" for j
    using deep_equal_refl [OF wf_jobject [OF assms(1)]] deep_equal_object [OF wf_jobject [OF assms(1)] wf_jobject [OF assms(1)]] by (simp add: rel_fun_def)
  then show ?thesis
    using deep_equal_object [OF wf_set_member [OF assms(1,2), unfolded set_member_def] wf_set_member [OF assms(1,3), unfolded set_member_def]] assms(4)
    by (simp add: set_member_def rel_fun_def)
qed

lemma set_member_same:
  assumes "wf_json a" and "wf_json x" and "jget a k \<noteq> JNull" and "deep_equal x (jget a k)"
  shows "deep_equal (set_member k x a) a"
proof -
  obtain m where a: "a = JObj m" using assms(3) by (cases a) (auto simp: jget_def jobject_def)
  then have k: "map_of m k = Some (jget a k)" using assms(3) by (auto simp: jget_def jobject_def split: option.splits)
  have "rel_option deep_equal (map_of m j) (map_of m j)" for j
    using deep_equal_refl [of "JObj m"] deep_equal_object [of m m] assms(1) by (simp add: a rel_fun_def)
  then show ?thesis
    using deep_equal_object [OF wf_set_member [OF assms(1,2), unfolded set_member_def], of m] assms(1,4) k
    by (simp add: set_member_def rel_fun_def a jobject_def)
qed

lemma set_member_twice: "set_member k x (set_member k y a) = set_member k x a"
  by (simp add: set_member_def jobject_def)

lemma jget_set_member: "jget (set_member k x a) k = x"
  by (simp add: set_member_def jget_def jobject_def)

section \<open>Patch and rollback\<close>

text \<open>
  The effect of an admitted patch on the Pod specification, as RFC 6902 defines \<open>test\<close> and \<open>replace\<close>: nothing happens
  unless the tested value is the specification.
\<close>

definition apply_patch :: "Patch list \<Rightarrow> json \<Rightarrow> json option" where
  "apply_patch ps spec = (case ps of
     [a, b] \<Rightarrow> if patch_shape ps \<and> deep_equal (pa_Value a) spec then Some (with_resources spec (pa_Value b)) else None
   | _ \<Rightarrow> None)"

text \<open>\<open>encoding/json\<close> decodes objects into maps, whose keys are distinct.\<close>

definition decodes_maps :: "PlanCodec \<Rightarrow> bool" where
  "decodes_maps pc \<longleftrightarrow> (\<forall>b j. mc_Value (pc_Memory pc) b = Some j \<longrightarrow> wf_json j)
     \<and> (\<forall>b ps e. pc_Patch pc b = Some (ps, e) \<longrightarrow> list_all (\<lambda>a. wf_json (pa_Value a)) ps)"

lemma spec_resources_parts:
  assumes "spec_resources spec = Some original"
  obtains c where "jget spec ''containers'' = JArr [c]" and "jget c ''resources'' = original" and "is_object original"
  using assms by (auto simp: spec_resources_def split: json.splits list.splits if_splits)

lemma with_resources_cong:
  assumes "wf_json spec" and "spec_resources spec = Some original" and "wf_json r" and "wf_json r'" and "deep_equal r r'"
  shows "deep_equal (with_resources spec r) (with_resources spec r')" and "wf_json (with_resources spec r)"
proof -
  obtain c where c: "jget spec ''containers'' = JArr [c]" using spec_resources_parts [OF assms(2)] by metis
  have wf: "wf_json c" using wf_jget [OF assms(1), of "''containers''"] by (simp add: c)
  have "deep_equal (JArr [set_member ''resources'' r c]) (JArr [set_member ''resources'' r' c])"
    using set_member_cong [OF wf assms(3,4,5)] by simp
  then show "deep_equal (with_resources spec r) (with_resources spec r')"
    using set_member_cong [OF assms(1)] wf_set_member [OF wf assms(3)] wf_set_member [OF wf assms(4)] by (simp add: with_resources_def c jlist_def)
  show "wf_json (with_resources spec r)"
    using wf_set_member [OF assms(1)] wf_set_member [OF wf assms(3)] by (simp add: with_resources_def c jlist_def)
qed

lemma restored_resources:
  assumes "wf_json spec" and "spec_resources spec = Some original" and "wf_json r" and "wf_json r'" and "deep_equal r' original"
  shows "deep_equal (with_resources (with_resources spec r) r') spec"
proof -
  obtain c where c: "jget spec ''containers'' = JArr [c]" "jget c ''resources'' = original" "is_object original"
    using spec_resources_parts [OF assms(2)] by metis
  have wf: "wf_json c" using wf_jget [OF assms(1), of "''containers''"] by (simp add: c)
  have "original \<noteq> JNull" using c(3) by (auto simp: is_object_def)
  then have "deep_equal (set_member ''resources'' r' c) c" using set_member_same [OF wf assms(4)] assms(5) c(2) by simp
  then have "deep_equal (set_member ''containers'' (JArr [set_member ''resources'' r' c]) spec) spec"
    using set_member_same [OF assms(1), of "JArr [set_member ''resources'' r' c]" "''containers''"] wf_set_member [OF wf assms(4)] c(1) by simp
  then show ?thesis by (simp add: with_resources_def c jlist_def jget_set_member set_member_twice)
qed

lemma wf_sized: "wf_json original \<Longrightarrow> wf_json (sized_resources mib original)"
  by (simp add: sized_resources_def sized_def wf_set_member wf_jget)

lemma wf_nested: "wf_json j \<Longrightarrow> wf_json (nested j ks)"
  by (induction ks arbitrary: j) (simp_all add: nested_def wf_jget)

lemma raw_wf: "RawJSON mc v path = Inr j \<Longrightarrow> (\<And>b k. mc_Value mc b = Some k \<Longrightarrow> wf_json k) \<Longrightarrow> wf_json j"
proof -
  assume r: "RawJSON mc v path = Inr j" and all: "\<And>b k. mc_Value mc b = Some k \<Longrightarrow> wf_json k"
  then obtain b where b: "(case mc_Value mc b of Some (JObj m) \<Rightarrow> Inr (JObj m) | Some JNull \<Rightarrow> Inr (JObj []) | _ \<Rightarrow> Inl (Plain msg_json_field)) = (Inr j :: err + json)"
    unfolding RawJSON_def on_ok_Inr by blast
  show ?thesis
  proof (cases "mc_Value mc b")
    case (Some k)
    then show ?thesis using all [OF Some] b by (cases k) auto
  qed (use b in simp)
qed

lemma Decode_Inr: "Decode t d b = Inr a \<Longrightarrow> \<exists>e. d b = Some (a, e)"
  by (cases "uniqueJSON 0 (t b)"; cases "d b") (auto simp: Decode_def split: if_splits)

lemma patch_wf:
  assumes "memory_JSON mc v (pc_Patch pc) path = Inr ps" and "decodes_maps pc"
  shows "list_all (\<lambda>a. wf_json (pa_Value a)) ps"
proof -
  from assms(1) obtain b where "Decode (mc_Tokens mc) (pc_Patch pc) b = Inr ps" unfolding memory_JSON_def on_ok_Inr by blast
  from Decode_Inr [OF this] assms(2) show ?thesis by (auto simp: decodes_maps_def)
qed

lemma apply_shaped: "patch_shape ps \<Longrightarrow> deep_equal (pa_Value (ps ! 0)) spec \<Longrightarrow> apply_patch ps spec = Some (with_resources spec (pa_Value (ps ! 1)))"
  by (auto simp: patch_shape_def apply_patch_def split: list.split_asm)

text \<open>
  C22: The rollback undoes the patch. For an accepted plan, the patch applies to the Pod specification of the sealed
  Deployment and changes nothing but the memory of requests and limits, to the candidate; the rollback then applies,
  and what results is the original specification.
\<close>

theorem rollback_restores:
  assumes "ValidateOutput pc v dir input runtime m other = Inr s" and "decodes_maps pc"
  shows "\<exists>patch rollback baseline original s1 s2. memory_JSON (pc_Memory pc) v (pc_Patch pc) (Join dir ''patch.json'') = Inr patch
    \<and> memory_JSON (pc_Memory pc) v (pc_Patch pc) (Join dir ''rollback.json'') = Inr rollback
    \<and> RawJSON (pc_Memory pc) v (Join input ''deployment.json'') = Inr baseline
    \<and> spec_resources (nested baseline [''spec'', ''template'', ''spec'']) = Some original
    \<and> apply_patch patch (nested baseline [''spec'', ''template'', ''spec'']) = Some s1
    \<and> deep_equal (with_resources (nested baseline [''spec'', ''template'', ''spec'']) (sized_resources (sy_CandidateMiB s) original)) s1
    \<and> apply_patch rollback s1 = Some s2 \<and> deep_equal s2 (nested baseline [''spec'', ''template'', ''spec''])"
proof (rule validated_plan [OF assms(1)])
  fix p t y arts baseline resource
  assume base: "RawJSON (pc_Memory pc) v (Join input ''deployment.json'') = Inr baseline" and ck: "check_patches pc v dir p baseline = Inr ()"
    and s: "s = plan_summary p t other y arts"
  let ?spec = "nested baseline [''spec'', ''template'', ''spec'']"
  from ck obtain patch rollback original where d: "memory_JSON (pc_Memory pc) v (pc_Patch pc) (Join dir ''patch.json'') = Inr patch"
      "memory_JSON (pc_Memory pc) v (pc_Patch pc) (Join dir ''rollback.json'') = Inr rollback" and len: "length patch = 2" "length rollback = 2"
    and shape: "patch_shape patch" "patch_shape rollback"
    and orig: "spec_resources ?spec = Some original" and test: "deep_equal (pa_Value (patch ! 0)) ?spec"
    and vals: "deep_equal (pa_Value (patch ! 1)) (sized_resources (mp_Candidate p) original)"
      "deep_equal (pa_Value (rollback ! 0)) (with_resources ?spec (sized_resources (mp_Candidate p) original))"
      "deep_equal (pa_Value (rollback ! 1)) original"
    by (auto simp: check_patches_def patches_ok_def Let_def split: option.splits)
  have wf: "wf_json ?spec" using wf_nested [OF raw_wf [OF base]] assms(2) by (simp add: decodes_maps_def)
  have wf_o: "wf_json original"
  proof -
    obtain c where c: "jget ?spec ''containers'' = JArr [c]" "jget c ''resources'' = original" using spec_resources_parts [OF orig] by metis
    then have "wf_json c" using wf_jget [OF wf, of "''containers''"] by simp
    then show ?thesis using wf_jget [of c "''resources''"] c(2) by simp
  qed
  have wfs: "wf_json (pa_Value (patch ! 1))" "wf_json (pa_Value (rollback ! 0))" "wf_json (pa_Value (rollback ! 1))"
    using patch_wf [OF d(1) assms(2)] patch_wf [OF d(2) assms(2)] len by (simp_all add: list_all_length)
  let ?small = "with_resources ?spec (sized_resources (mp_Candidate p) original)" and ?s1 = "with_resources ?spec (pa_Value (patch ! 1))"
  have eq: "deep_equal ?small ?s1"
    by (rule with_resources_cong(1) [OF wf orig wf_sized [OF wf_o] wfs(1) deep_equal_sym [OF wfs(1) wf_sized [OF wf_o] vals(1)]])
  have "deep_equal (pa_Value (rollback ! 0)) ?s1"
    by (rule deep_equal_trans [OF wfs(2) with_resources_cong(2) [OF wf orig wf_sized [OF wf_o] wf_sized [OF wf_o] deep_equal_refl [OF wf_sized [OF wf_o]]]
      with_resources_cong(2) [OF wf orig wfs(1) wfs(1) deep_equal_refl [OF wfs(1)]] vals(2) eq])
  with shape(2) have "apply_patch rollback ?s1 = Some (with_resources ?s1 (pa_Value (rollback ! 1)))" by (rule apply_shaped)
  moreover have "apply_patch patch ?spec = Some ?s1" by (rule apply_shaped [OF shape(1) test])
  moreover have "deep_equal (with_resources ?s1 (pa_Value (rollback ! 1))) ?spec"
    by (rule restored_resources [OF wf orig wfs(1,3) vals(3)])
  moreover have "sy_CandidateMiB s = mp_Candidate p" by (simp add: s plan_summary_def)
  ultimately show ?thesis using d base orig eq by auto
qed

section \<open>Sealed evidence\<close>

definition sealed_file :: "string \<times> (err + FileInfo) \<Rightarrow> bool" where
  "sealed_file e = (case snd e of Inl _ \<Rightarrow> False | Inr x \<Rightarrow> \<not> fi_Dir x \<and> fst e \<noteq> manifest_name)"

text \<open>What the visit of one entry establishes.\<close>

definition accounted :: "MemoryCodec \<Rightarrow> FileView \<Rightarrow> string \<Rightarrow> Manifest \<Rightarrow> string \<times> (err + FileInfo) \<Rightarrow> bool" where
  "accounted mc v root_dir m e = (case snd e of
     Inl _ \<Rightarrow> False
   | Inr x \<Rightarrow> \<not> fi_Link x \<and> (if fi_Dir x then fst e \<in> set (evidence_dirs m)
       else fst e = manifest_name \<or> (\<exists>d k. map_of (mf_Files m) (fst e) = Some d \<and> HashFile mc v (Join root_dir (fst e)) = Inr (d, k))))"

lemma walk_verified:
  assumes "verify_walk mc v root_dir m acc count es = Inr n"
  shows "n = count + length (filter sealed_file es) \<and> list_all (accounted mc v root_dir m) es"
  using assms
proof (induction es arbitrary: acc count)
  case (Cons e es)
  obtain rel i where e: "e = (rel, i)" by (cases e)
  from Cons.prems obtain x where x: "i = Inr x" "\<not> fi_Link x" by (auto simp: e split: if_splits)
  consider (dir) "fi_Dir x" | (manifest) "\<not> fi_Dir x" "rel = manifest_name" | (listed) "\<not> fi_Dir x" "rel \<noteq> manifest_name" by blast
  then show ?case
  proof cases
    case dir
    with Cons.prems x have "rel \<in> set (evidence_dirs m)" "verify_walk mc v root_dir m acc count es = Inr n" by (auto simp: e split: if_splits)
    with Cons.IH dir x show ?thesis by (auto simp: e sealed_file_def accounted_def)
  next
    case manifest
    with Cons.prems x have "verify_walk mc v root_dir m acc count es = Inr n" by (auto simp: e split: if_splits)
    with Cons.IH manifest x show ?thesis by (auto simp: e sealed_file_def accounted_def)
  next
    case listed
    with Cons.prems x obtain d k where "map_of (mf_Files m) rel = Some d" "HashFile mc v (Join root_dir rel) = Inr (d, k)"
        "verify_walk mc v root_dir m (acc + k) (count + 1) es = Inr n"
      by (auto simp: e Let_def split: if_splits option.splits)
    with Cons.IH [of "acc + k" "count + 1"] listed x show ?thesis by (auto simp: e sealed_file_def accounted_def)
  qed
qed simp

lemma hashed: "HashFile mc v p = Inr (d, k) \<Longrightarrow> \<exists>b. fv_Data v p = (b, None) \<and> mc_SHA256 mc b = d \<and> int (length b) \<le> MaxFile"
  by (auto simp: HashFile_def limited_data_def split: option.splits if_splits prod.splits)

definition seals_maps :: "MemoryCodec \<Rightarrow> bool" where
  "seals_maps mc \<longleftrightarrow> (\<forall>b x e. mc_Manifest mc b = Some (x, e) \<longrightarrow> wf_map (mf_Files x))"

text \<open>
  C23: Verified evidence is exactly what was sealed. The manifest has the approved digest; the tree holds no link and
  no directory but those above listed files; every other file is listed and has its recorded digest; and every listed
  file is there. A walk visits each path once, and a decoded map has distinct keys.
\<close>

theorem evidence_exact:
  assumes "memory_Verify mc v root_dir want = Inr m" and "distinct (map fst (fv_Walk v root_dir))"
    and "seals_maps mc"
  shows "(\<exists>b. memory_Read v (Join root_dir manifest_name) (2 ^ 16) = Inr b \<and> mc_SHA256 mc b = want)
    \<and> list_all (\<lambda>(rel, i). \<exists>x. i = Inr x \<and> \<not> fi_Link x \<and> (fi_Dir x \<longrightarrow> rel \<in> set (evidence_dirs m))
      \<and> (\<not> fi_Dir x \<longrightarrow> rel = manifest_name \<or> map_of (mf_Files m) rel \<noteq> None)) (fv_Walk v root_dir)
    \<and> list_all (\<lambda>(name, d). name \<in> set (map fst (fv_Walk v root_dir))
      \<and> (\<exists>b. fv_Data v (Join root_dir name) = (b, None) \<and> mc_SHA256 mc b = d)) (mf_Files m)"
proof -
  let ?es = "fv_Walk v root_dir" and ?keys = "gkeys (mf_Files m)"
  from assms(1) obtain b n where b: "memory_Read v (Join root_dir manifest_name) (2 ^ 16) = Inr b" "mc_SHA256 mc b = want"
      "Decode (mc_Tokens mc) (mc_Manifest mc) b = Inr m" and walk: "verify_walk mc v root_dir m 0 0 ?es = Inr n" "n = length (mf_Files m)"
    by (auto simp: memory_Verify_def)
  have wf: "distinct ?keys" using Decode_Inr [OF b(3)] assms(3) by (auto simp: seals_maps_def wf_map_def)
  let ?fs = "filter sealed_file ?es"
  note checked = walk_verified [OF walk(1)]
  have entry: "\<exists>d k. map_of (mf_Files m) rel = Some d \<and> HashFile mc v (Join root_dir rel) = Inr (d, k)" if "(rel, i) \<in> set ?fs" for rel i
    using checked that by (auto simp: list_all_iff accounted_def sealed_file_def split: sum.splits)
  have dis: "distinct (map fst ?fs)" using assms(2) by (rule distinct_map_filter)
  have sub: "set (map fst ?fs) \<subseteq> set ?keys" using entry by (force dest: map_of_SomeD)
  have "card (set (map fst ?fs)) = card (set ?keys)"
    using checked walk(2) by (simp only: distinct_card [OF dis] distinct_card [OF wf] length_map)
  then have all: "set (map fst ?fs) = set ?keys" using sub by (intro card_subset_eq) simp_all
  have files: "name \<in> set (map fst ?es) \<and> (\<exists>b. fv_Data v (Join root_dir name) = (b, None) \<and> mc_SHA256 mc b = d)" if "(name, d) \<in> set (mf_Files m)" for name d
  proof -
    have "name \<in> set (map fst ?fs)" unfolding all using that by force
    then obtain i where i: "(name, i) \<in> set ?fs" by force
    have "map_of (mf_Files m) name = Some d" using wf that by simp
    then obtain k where "HashFile mc v (Join root_dir name) = Inr (d, k)" using entry [OF i] by auto
    with hashed i show ?thesis by force
  qed
  have "list_all (\<lambda>(rel, i). \<exists>x. i = Inr x \<and> \<not> fi_Link x \<and> (fi_Dir x \<longrightarrow> rel \<in> set (evidence_dirs m))
      \<and> (\<not> fi_Dir x \<longrightarrow> rel = manifest_name \<or> map_of (mf_Files m) rel \<noteq> None)) ?es"
    by (rule list.pred_mono_strong [OF conjunct2 [OF checked]]) (auto simp: accounted_def split: sum.splits if_splits)
  with b(1,2) files show ?thesis by (auto simp: list_all_iff)
qed

end
