(* ===== verification/MemoryExample.thy ===== *)
theory MemoryExample
  imports MemoryRun
begin

text \<open>
  A sealed bundle of four observations, the plan that follows from it, and the properties of \<open>internal/memory\<close> on it.
  The codecs are tables over short contents.
\<close>

section \<open>Telemetry\<close>

definition mx_lines :: "string list \<Rightarrow> string" where
  "mx_lines = join_with newline"

definition mx_values :: "string gomap" where
  "mx_values = [(''memory.current'', ''209715200''), (''memory.peak'', ''268435456''), (''memory.max'', ''4294967296''), (''memory.swap.current'', ''0''),
     (''memory.stat'', mx_lines [''anon 100'', ''file 50'', ''shmem 10'']),
     (''memory.events'', mx_lines [''high 0'', ''max 0'', ''oom 0'', ''oom_kill 0'']),
     (''memory.pressure'', mx_lines [''some total=5'', ''full total=3''])]"

definition mx_sample :: "int \<Rightarrow> Sample" where
  "mx_sample t = \<lparr>sm_Mono = t * 10 ^ 9, sm_Unix = t * 10 ^ 9, sm_Host = mx_lines [''MemTotal: 16777216 kB'', ''MemAvailable: 8388608 kB'', ''SwapTotal: 0 kB''],
     sm_CgroupID = ''g'', sm_Path = ''/g'', sm_Values = mx_values\<rparr>"

definition mx_line :: "string \<Rightarrow> Sample option" where
  "mx_line l = map_option mx_sample (map_of [(''a'', 1), (''b'', 2), (''c'', 10), (''d'', 35), (''e'', 60), (''f'', 85)] l)"

definition mx_window_codec :: WindowCodec where
  "mx_window_codec = \<lparr>wc_Sample = mx_line, wc_Seconds = (\<lambda>n. of_int n / 10 ^ 9)\<rparr>"

definition mx_window :: "int \<Rightarrow> int \<Rightarrow> int \<Rightarrow> Window" where
  "mx_window n first final = \<lparr>wn_Samples = n, wn_Duration = of_int (final - first), wn_CgroupID = ''g'', wn_FirstMono = first * 10 ^ 9, wn_LastMono = final * 10 ^ 9,
     wn_Path = ''/g'', wn_FirstUnix = first * 10 ^ 9, wn_LastUnix = final * 10 ^ 9, wn_Sampled = 209715200, wn_Peak = 268435456,
     wn_Stat = [(''anon'', 100), (''file'', 50), (''shmem'', 10)], wn_Available = 8589934592, wn_Envelope = 335544320\<rparr>"

section \<open>Documents\<close>

definition mx_sum :: "string \<Rightarrow> string" where
  "mx_sum b = replicate 64 (hex_digit (length b))"

definition mx_resources :: json where
  "mx_resources = JObj [(''limits'', JObj [(''memory'', JStr ''4Gi'')]), (''requests'', JObj [(''memory'', JStr ''4Gi'')])]"

definition mx_spec :: json where
  "mx_spec = JObj [(''containers'', JArr [JObj [(''name'', JStr ''sglang''), (''resources'', mx_resources)]]),
     (''volumes'', JArr [JObj [(''emptyDir'', JObj [(''sizeLimit'', JStr ''64Mi'')]), (''name'', JStr ''shm'')]])]"

definition mx_deployment :: json where
  "mx_deployment = JObj [(''spec'', JObj [(''template'', JObj [(''spec'', mx_spec)])])]"

definition mx_resource_plan :: json where
  "mx_resource_plan = JObj [(''memory'', JObj [(''total_mib'', JFloat 16384), (''allocatable_mib'', JFloat 8192)])]"

definition mx_pod :: "string \<Rightarrow> string" where
  "mx_pod ident = concat (replicate 36 ident)"

definition mx_phase :: "string \<Rightarrow> string" where
  "mx_phase ident = (if ident = ''a'' \<or> ident = ''b'' then ''cold'' else ''warm'')"

definition mx_start :: "string \<Rightarrow> json" where
  "mx_start ident = JObj [(''cache_state'', JStr (mx_phase ident)), (''pod'', JObj [(''uid'', JStr (mx_pod ident))]), (''status'', JStr ''observed-not-qualified'')]"

definition mx_result :: "string \<Rightarrow> json" where
  "mx_result ident = JObj [(''pod'', JObj [(''uid'', JStr (mx_pod ident)), (''image_id'', JStr ''i''), (''node'', JStr ''n'')]), (''runtime'', JStr ''r''),
     (''status'', JStr ''measured-not-qualified'')]"

definition mx_runs :: "string list" where
  "mx_runs = [''a'', ''b'', ''c'', ''d'']"

text \<open>The contents of the files, by their last name; those of two documents carry the name of the observation.\<close>

definition mx_named :: "(string \<times> bool \<times> string) list" where
  "mx_named = [(''startup.json'', True, ''s''), (''memory.jsonl'', False, mx_lines [''a'', ''b'']), (''result.json'', True, ''r''),
     (''host-telemetry.jsonl'', False, mx_lines [''c'', ''d'', ''e'', ''f'']), (''runtime.json'', False, ''{}''), (''pod.json'', False, ''{}''),
     (''deployment.json'', False, ''dep''), (''workload.json'', False, ''work''), (''resource-plan.json'', False, ''plans''), (manifest_name, False, ''seal''),
     (''plan.json'', False, ''p''), (''patch.json'', False, ''patch''), (''rollback.json'', False, ''roll''), (''versions.lock'', False, ''lock'')]
     @ map (\<lambda>name. (name, False, ''tool'')) memory_tools"

definition mx_content :: "string \<Rightarrow> string option" where
  "mx_content p = (let ws = List.rev (split_on slash p) in
     map_option (\<lambda>(own, b). if own then b @ ws ! 2 else b) (map_of mx_named (hd ws)))"

definition mx_data :: "string \<Rightarrow> string" where
  "mx_data p = (case mx_content p of None \<Rightarrow> [] | Some b \<Rightarrow> b)"

definition mx_entry :: "string \<Rightarrow> string \<times> string" where
  "mx_entry f = (f, mx_sum (mx_data f))"

definition mx_seal :: "string list \<Rightarrow> string list \<Rightarrow> Manifest" where
  "mx_seal runs fs = \<lparr>mf_Schema = 1, mf_Kind = ''sglang-memory-evidence'', mf_BootID = ''00000000-0000-0000-0000-000000000000'', mf_HardwareSHA256 = mx_sum [],
     mf_SourceRevision = mx_sum [], mf_Observations = runs,
     mf_Files = map mx_entry (baseline_files @ concat (map (\<lambda>ident. map (observation_path ident) fs) runs))\<rparr>"

text \<open>A complete bundle, and one whose only observation has just begun.\<close>

definition mx_manifest :: Manifest where "mx_manifest = mx_seal mx_runs ObservationFiles"
definition mx_begun :: Manifest where "mx_begun = mx_seal [''a''] [''startup/startup.json'']"

section \<open>The plan\<close>

definition mx_marshal :: "json \<Rightarrow> string" where
  "mx_marshal j = (case j of JObj m \<Rightarrow> concat (map fst m) | _ \<Rightarrow> [])"

definition mx_small :: json where "mx_small = sized_resources 2560 mx_resources"

definition mx_patch :: "Patch list" where
  "mx_patch = [\<lparr>pa_Op = ''test'', pa_Path = spec_path, pa_Value = mx_spec\<rparr>, \<lparr>pa_Op = ''replace'', pa_Path = resources_path, pa_Value = mx_small\<rparr>]"

definition mx_rollback :: "Patch list" where
  "mx_rollback = [\<lparr>pa_Op = ''test'', pa_Path = spec_path, pa_Value = with_resources mx_spec mx_small\<rparr>,
     \<lparr>pa_Op = ''replace'', pa_Path = resources_path, pa_Value = mx_resources\<rparr>]"

definition mx_observation :: "string \<Rightarrow> Observation" where
  "mx_observation ident = \<lparr>ob_Phase = mx_phase ident, ob_PodUID = mx_pod ident, ob_Startup = mx_window 2 1 2, ob_Steady = mx_window 4 10 85\<rparr>"

definition mx_plan :: MemPlan where
  "mx_plan = \<lparr>mp_Schema = 1, mp_Kind = ''sglang-host-memory-plan'', mp_Status = ''plan-only-unqualified'', mp_Baseline = 4096, mp_Candidate = 2560, mp_Minimum = 2560,
     mp_WorkloadHash = mx_sum ''work'', mp_RuntimeIdentity = mx_sum ''image_idnoderuntime'', mp_BaselineHash = mx_sum ''containersvolumes'',
     mp_CandidateHash = mx_sum ''containersvolumes'',
     mp_Budget = \<lparr>bg_Other = 512, bg_Allocatable = 8192, bg_SHM = 64, bg_Envelope = 335544320, bg_Headroom = 2147483648\<rparr>,
     mp_Observations = map mx_observation mx_runs,
     mp_Evidence = expected_evidence ''/e'' ''/r/versions.lock'' mx_manifest (mx_sum ''lock''),
     mp_Tools = map (\<lambda>name. (name, mx_sum ''tool'')) memory_tools,
     mp_Artifacts = [(''patch.json'', mx_sum ''patch''), (''rollback.json'', mx_sum ''roll'')], mp_Limitations = plan_limitations\<rparr>"

section \<open>Files and codecs\<close>

definition mx_file :: "string \<Rightarrow> FileInfo" where
  "mx_file b = \<lparr>fi_Dir = False, fi_Regular = True, fi_Link = False, fi_Perm = 384, fi_Size = int (length b)\<rparr>"

definition mx_folder :: FileInfo where
  "mx_folder = \<lparr>fi_Dir = True, fi_Regular = False, fi_Link = False, fi_Perm = 448, fi_Size = 0\<rparr>"

definition mx_info :: "string \<Rightarrow> err + FileInfo" where
  "mx_info p = (case mx_content p of None \<Rightarrow> Inr mx_folder | Some b \<Rightarrow> Inr (mx_file b))"

definition mx_visit :: "string \<Rightarrow> string \<times> (err + FileInfo)" where
  "mx_visit f = (f, mx_info f)"

definition mx_walk :: "(string \<times> (err + FileInfo)) list" where
  "mx_walk = map mx_visit ([''.'', ''observations'', ''observations/a'', ''observations/a/startup'', manifest_name] @ gkeys (mf_Files mx_begun))"

definition mx_output :: "(string \<times> (err + FileInfo)) list" where
  "mx_output = map mx_visit [''plan.json'', ''patch.json'', ''rollback.json'']"

definition mx_walks :: "string \<Rightarrow> (string \<times> (err + FileInfo)) list" where "mx_walks p = mx_walk"
definition mx_lists :: "string \<Rightarrow> err + (string \<times> (err + FileInfo)) list" where "mx_lists p = Inr mx_output"
definition mx_reads :: "string \<Rightarrow> string \<times> err option" where "mx_reads p = (mx_data p, None)"

definition mx_view :: FileView where
  "mx_view = \<lparr>fv_Lstat = mx_info, fv_Open = (\<lambda>_. None), fv_Stat = mx_info, fv_Data = mx_reads, fv_Walk = mx_walks, fv_List = mx_lists\<rparr>"

definition mx_documents :: "(string \<times> json) list" where
  "mx_documents = [(''dep'', mx_deployment), (''plans'', mx_resource_plan)] @ concat (map (\<lambda>ident. [(''s'' @ ident, mx_start ident), (''r'' @ ident, mx_result ident)]) mx_runs)"

definition mx_unseal :: "string \<Rightarrow> (Manifest \<times> bool) option" where "mx_unseal b = map_of [(''seal'', (mx_begun, True))] b"
definition mx_value :: "string \<Rightarrow> json option" where "mx_value b = map_of mx_documents b"
definition mx_planned :: "string \<Rightarrow> (MemPlan \<times> bool) option" where "mx_planned b = map_of [(''p'', (mx_plan, True))] b"
definition mx_patches :: "string \<Rightarrow> (Patch list \<times> bool) option" where
  "mx_patches b = map_of [(''patch'', (mx_patch, True)), (''roll'', (mx_rollback, True))] b"

definition mx_codec :: MemoryCodec where
  "mx_codec = \<lparr>mc_SHA256 = mx_sum, mc_Tokens = (\<lambda>_. [TValue]), mc_Manifest = mx_unseal, mc_Value = mx_value, mc_Int = ParseInt\<rparr>"

definition mx_plan_codec :: PlanCodec where
  "mx_plan_codec = \<lparr>pc_Memory = mx_codec, pc_Window = mx_window_codec, pc_Telemetry = (\<lambda>_. None), pc_Plan = mx_planned, pc_Patch = mx_patches,
     pc_Marshal = mx_marshal, pc_WireSize = (\<lambda>a. int (length (a_Content a))), pc_Float = of_int\<rparr>"

lemma mx_codec_fields: "mc_SHA256 mx_codec = mx_sum" "mc_Tokens mx_codec = (\<lambda>_. [TValue])" "mc_Manifest mx_codec = mx_unseal" "mc_Value mx_codec = mx_value"
    "pc_Memory mx_plan_codec = mx_codec" "pc_Window mx_plan_codec = mx_window_codec" "pc_Plan mx_plan_codec = mx_planned" "pc_Patch mx_plan_codec = mx_patches"
    "pc_Marshal mx_plan_codec = mx_marshal" "pc_WireSize mx_plan_codec a = int (length (a_Content a))" "pc_Float mx_plan_codec = of_int"
  by (simp_all add: mx_codec_def mx_plan_codec_def)

section \<open>Reading\<close>

lemma mx_no_link: "first_err (refuse_link mx_view) ps = None"
  by (induction ps) (simp_all add: refuse_link_def mx_view_def mx_info_def mx_folder_def mx_file_def split: option.split)

lemma mx_limited: "int (length b) < n \<Longrightarrow> limited_data n (b, None) = (b, None)"
  by (simp add: limited_data_def)

lemma mx_read: "mx_content p = Some b \<Longrightarrow> int (length b) \<le> limit \<Longrightarrow> memory_Read mx_view p limit = Inr b"
  unfolding memory_Read_def mx_no_link
  by (simp add: mx_view_def mx_info_def mx_reads_def mx_data_def mx_file_def bounded_info_def mx_limited)

lemma mx_hash: "mx_content p = Some b \<Longrightarrow> length b < 10 \<Longrightarrow> HashFile mx_codec mx_view p = Inr (mx_sum b, int (length b))"
  by (simp add: HashFile_def mx_view_def mx_info_def mx_reads_def mx_data_def mx_file_def bounded_info_def mx_limited MaxFile_def mx_codec_fields)

lemma mx_sum_digest: "digest_ok (mx_sum b)"
proof -
  have "list_all is_hex ''0123456789abcdef''" by code_simp
  then have "is_hex (hex_digit n)" for n unfolding hex_digit_def list_all_length by (auto elim!: allE [of _ "n mod 16"])
  then show ?thesis by (simp add: digest_ok_def mx_sum_def list_all_iff)
qed

section \<open>Windows\<close>

lemma mx_counts:
  "nonnegative (text_at mx_values ''memory.current'') = Some 209715200" "nonnegative (text_at mx_values ''memory.peak'') = Some 268435456"
  "nonnegative (text_at mx_values ''memory.max'') = Some 4294967296" "nonnegative (text_at mx_values ''memory.swap.current'') = Some 0"
  by code_simp+

lemma mx_stats:
  "counters (text_at mx_values ''memory.stat'') = Inr [(''anon'', 100), (''file'', 50), (''shmem'', 10)]"
  "counters (text_at mx_values ''memory.events'') = Inr [(''high'', 0), (''max'', 0), (''oom'', 0), (''oom_kill'', 0)]"
  "parsePSI (text_at mx_values ''memory.pressure'') = Inr [(''some'', 5), (''full'', 3)]"
  by code_simp+

lemma mx_host:
  "host_lines [] (split_on newline (mx_lines [''MemTotal: 16777216 kB'', ''MemAvailable: 8388608 kB'', ''SwapTotal: 0 kB'']))
    = Some [(''MemTotal:'', 16777216), (''MemAvailable:'', 8388608), (''SwapTotal:'', 0)]"
  by code_simp

lemma mx_bytes: "i64 4294967296 = 4294967296" "i64 8589934592 = 8589934592" "i64 67108864 = 67108864" "i64 335544320 = 335544320"
  by code_simp+

definition mx_reading :: Reading where
  "mx_reading = \<lparr>rd_Current = 209715200, rd_Peak = 268435456, rd_Stat = [(''anon'', 100), (''file'', 50), (''shmem'', 10)],
     rd_Pressure = [(''some'', 5), (''full'', 3)], rd_Available = 8589934592\<rparr>"

lemma mx_sampled: "0 < t \<Longrightarrow> sample_reading 4096 16384 (mx_sample t) = Some mx_reading"
  unfolding sample_reading_def sample_count_def sample_value_def mx_sample_def Sample.select_convs mx_counts mx_stats mx_host
  by (simp add: mx_reading_def mx_bytes amount_def stat_keys_def event_keys_def)

lemma mx_decoded: "mx_line ''a'' = Some (mx_sample 1)" "mx_line ''b'' = Some (mx_sample 2)" "mx_line ''c'' = Some (mx_sample 10)"
    "mx_line ''d'' = Some (mx_sample 35)" "mx_line ''e'' = Some (mx_sample 60)" "mx_line ''f'' = Some (mx_sample 85)"
  by (simp_all add: mx_line_def)

lemma mx_text: "scan_lines (mx_lines [''a'', ''b'']) = ([''a'', ''b''], True)" "scan_lines (mx_lines [''c'', ''d'', ''e'', ''f'']) = ([''c'', ''d'', ''e'', ''f''], True)"
    "length (mx_lines [''a'', ''b'']) = 3" "length (mx_lines [''c'', ''d'', ''e'', ''f'']) = 7"
  by code_simp+

lemma mx_fields: "sm_Mono (mx_sample t) = t * 10 ^ 9" "sm_Unix (mx_sample t) = t * 10 ^ 9" "sm_CgroupID (mx_sample t) = ''g''" "sm_Path (mx_sample t) = ''/g''"
  by (simp_all add: mx_sample_def)

lemmas mx_scan = first_sample_def breaks_window_def add_sample_def raise_stat_def zero_window_def mx_reading_def mx_fields amount_def stat_keys_def

lemma mx_startup:
  assumes "mx_content p = Some (mx_lines [''a'', ''b''])"
  shows "observeWindow mx_window_codec mx_view p 4096 64 16384 = Inr (mx_window 2 1 2)"
  using assms by (simp add: observeWindow_def mx_view_def mx_reads_def mx_data_def mx_limited MaxFile_def mx_text mx_window_codec_def mx_decoded mx_sampled mx_scan mx_bytes mx_window_def)

lemma mx_steady:
  assumes "mx_content p = Some (mx_lines [''c'', ''d'', ''e'', ''f''])"
  shows "observeWindow mx_window_codec mx_view p 4096 64 16384 = Inr (mx_window 4 10 85)"
  using assms by (simp add: observeWindow_def mx_view_def mx_reads_def mx_data_def mx_limited MaxFile_def mx_text mx_window_codec_def mx_decoded mx_sampled mx_scan mx_bytes mx_window_def)

section \<open>The sealed bundle\<close>

lemma mx_bundle:
  "mf_Files mx_begun = [(''deployment.json'', mx_sum ''dep''), (''workload.json'', mx_sum ''work''), (''resource-plan.json'', mx_sum ''plans''),
     (''observations/a/startup/startup.json'', mx_sum ''sa'')]"
  by code_simp

lemma mx_contents:
  "mx_content ''/e/manifest.json'' = Some ''seal''" "mx_content ''/e/deployment.json'' = Some ''dep''" "mx_content ''/e/workload.json'' = Some ''work''"
  "mx_content ''/e/resource-plan.json'' = Some ''plans''" "mx_content ''/e/observations/a/startup/startup.json'' = Some ''sa''"
  by code_simp+

lemma mx_paths:
  "Join ''/e'' manifest_name = ''/e/manifest.json''" "Join ''/e'' ''deployment.json'' = ''/e/deployment.json''" "Join ''/e'' ''workload.json'' = ''/e/workload.json''"
  "Join ''/e'' ''resource-plan.json'' = ''/e/resource-plan.json''"
  "Join ''/e'' ''observations/a/startup/startup.json'' = ''/e/observations/a/startup/startup.json''"
  by code_simp+

lemma mx_begun_fields: "mf_Schema mx_begun = 1" "mf_Kind mx_begun = ''sglang-memory-evidence''" "mf_BootID mx_begun = ''00000000-0000-0000-0000-000000000000''"
    "mf_HardwareSHA256 mx_begun = mx_sum []" "mf_SourceRevision mx_begun = mx_sum []" "mf_Observations mx_begun = [''a'']"
  by (simp_all add: mx_begun_def mx_seal_def)

lemma mx_names: "boot_id ''00000000-0000-0000-0000-000000000000''" "ObservationID ''a''"
  by code_simp+

lemma mx_manifest_ok: "check_manifest mx_begun = Inr ()"
  by (simp add: check_manifest_def mx_begun_fields mx_names mx_sum_digest mx_bundle baseline_files_def text_at_def allowed_files_def ObservationFiles_def
    observation_path_def)

lemma mx_walked: "mx_walk = [(''.'', Inr mx_folder), (''observations'', Inr mx_folder), (''observations/a'', Inr mx_folder), (''observations/a/startup'', Inr mx_folder),
     (''manifest.json'', Inr (mx_file ''seal'')), (''deployment.json'', Inr (mx_file ''dep'')), (''workload.json'', Inr (mx_file ''work'')),
     (''resource-plan.json'', Inr (mx_file ''plans'')), (''observations/a/startup/startup.json'', Inr (mx_file ''sa''))]"
  unfolding mx_walk_def mx_bundle by code_simp

lemma mx_dirs: "evidence_dirs mx_begun = [''.'', ''.'', ''.'', ''.'', ''observations/a/startup'', ''observations/a'', ''observations'', ''.'']"
  unfolding evidence_dirs_def mx_bundle by code_simp

lemma mx_unique: "uniqueJSON 0 [TValue] = Inr []"
  by code_simp

lemma mx_verified: "memory_Verify mx_codec mx_view ''/e'' (mx_sum ''seal'') = Inr mx_begun"
proof -
  have "verify_walk mx_codec mx_view ''/e'' mx_begun 0 0 mx_walk = Inr 4"
    by (simp add: mx_walked mx_dirs mx_bundle mx_paths mx_contents mx_hash mx_folder_def mx_file_def on_ok_def manifest_name_def MaxBundle_def)
  moreover have "fv_Walk mx_view ''/e'' = mx_walk" by (simp add: mx_view_def mx_walks_def)
  ultimately show ?thesis
    by (simp add: memory_Verify_def mx_paths mx_read mx_contents mx_codec_fields mx_sum_digest Decode_def mx_unique mx_unseal_def mx_manifest_ok mx_bundle)
qed

theorem evidence_exact_witness:
  "memory_Verify mx_codec mx_view ''/e'' (mx_sum ''seal'') = Inr mx_begun \<and> fv_Data mx_view ''/e/workload.json'' = (''work'', None)
    \<and> mc_SHA256 mx_codec ''work'' = file_digest mx_begun ''workload.json''"
proof -
  have walk: "distinct (map fst (fv_Walk mx_view ''/e''))" by (simp add: mx_view_def mx_walks_def mx_walked)
  have maps: "seals_maps mx_codec"
    by (auto simp: seals_maps_def mx_codec_fields mx_unseal_def mx_bundle wf_map_def split: if_splits)
  have "list_all (\<lambda>(name, d). \<exists>b. fv_Data mx_view (Join ''/e'' name) = (b, None) \<and> mc_SHA256 mx_codec b = d) (mf_Files mx_begun)"
    by (rule list.pred_mono_strong [OF evidence_exact [OF mx_verified walk maps, THEN conjunct2, THEN conjunct2]]) auto
  then have "mc_SHA256 mx_codec ''work'' = file_digest mx_begun ''workload.json''"
    by (simp add: mx_bundle mx_paths text_at_def mx_view_def mx_reads_def mx_data_def mx_contents)
  then show ?thesis using mx_verified by (simp add: mx_view_def mx_reads_def mx_data_def mx_contents)
qed


section \<open>The accepted plan\<close>

lemma mx_output_ok: "checkOutputTree mx_view ''/o'' = None"
  by code_simp

lemma mx_output_paths: "Join ''/o'' ''plan.json'' = ''/o/plan.json''" "Join ''/o'' ''patch.json'' = ''/o/patch.json''" "Join ''/o'' ''rollback.json'' = ''/o/rollback.json''"
    "Join ''/r'' ''versions.lock'' = ''/r/versions.lock''" "Join ''/r'' ''lib/workstation'' = ''/r/lib/workstation''"
  by code_simp+

lemma mx_output_contents: "mx_content ''/o/plan.json'' = Some ''p''" "mx_content ''/o/patch.json'' = Some ''patch''" "mx_content ''/o/rollback.json'' = Some ''roll''"
    "mx_content ''/r/versions.lock'' = Some ''lock''"
  by code_simp+

lemma mx_tools: "list_all (\<lambda>name. mx_content (Join ''/r/lib/workstation'' name) = Some ''tool'') memory_tools"
  by code_simp

lemma mx_decoded_plan: "memory_JSON mx_codec mx_view mx_planned ''/o/plan.json'' = Inr mx_plan"
    "memory_JSON mx_codec mx_view mx_patches ''/o/patch.json'' = Inr mx_patch" "memory_JSON mx_codec mx_view mx_patches ''/o/rollback.json'' = Inr mx_rollback"
  by (simp_all add: memory_JSON_def mx_read mx_output_contents Decode_def mx_codec_fields mx_unique mx_planned_def mx_patches_def)

lemma mx_raw: "RawJSON mx_codec mx_view ''/e/deployment.json'' = Inr mx_deployment" "RawJSON mx_codec mx_view ''/e/resource-plan.json'' = Inr mx_resource_plan"
  by (simp_all add: RawJSON_def mx_read mx_contents mx_codec_fields mx_value_def mx_documents_def mx_deployment_def mx_resource_plan_def)

lemma mx_plan_fields: "mp_Baseline mx_plan = 4096" "mp_Candidate mx_plan = 2560" "mp_Minimum mx_plan = 2560" "mp_RuntimeIdentity mx_plan = mx_sum ''image_idnoderuntime''"
    "mp_BaselineHash mx_plan = mx_sum ''containersvolumes''" "mp_CandidateHash mx_plan = mx_sum ''containersvolumes''"
    "mp_Budget mx_plan = \<lparr>bg_Other = 512, bg_Allocatable = 8192, bg_SHM = 64, bg_Envelope = 335544320, bg_Headroom = 2147483648\<rparr>"
    "mp_Observations mx_plan = map mx_observation mx_runs" "mp_Evidence mx_plan = expected_evidence ''/e'' ''/r/versions.lock'' mx_manifest (mx_sum ''lock'')"
    "mp_Tools mx_plan = map (\<lambda>name. (name, mx_sum ''tool'')) memory_tools" "mp_Artifacts mx_plan = [(''patch.json'', mx_sum ''patch''), (''rollback.json'', mx_sum ''roll'')]"
  by (simp_all add: mx_plan_def)

lemma mx_manifest_files: "map_of (mf_Files mx_manifest) telemetry_name = None" "file_digest mx_manifest ''workload.json'' = mx_sum ''work''"
    "mf_Observations mx_manifest = mx_runs"
proof -
  have f: "mf_Files mx_manifest = map mx_entry (baseline_files @ concat (map (\<lambda>ident. map (observation_path ident) ObservationFiles) mx_runs))"
    by (simp add: mx_manifest_def mx_seal_def)
  have "telemetry_name \<notin> fst ` set (mf_Files mx_manifest)"
    unfolding f by (auto simp: mx_entry_def baseline_files_def telemetry_name_def observation_path_def)
  then show "map_of (mf_Files mx_manifest) telemetry_name = None" by (simp add: map_of_eq_None_iff)
  have "mx_data ''workload.json'' = ''work''" by code_simp
  then show "file_digest mx_manifest ''workload.json'' = mx_sum ''work''" unfolding text_at_def f by (simp add: baseline_files_def mx_entry_def)
  show "mf_Observations mx_manifest = mx_runs" by (simp add: mx_manifest_def mx_seal_def)
qed

lemma mx_shape: "plan_shape mx_plan" "budget_ok mx_plan mx_manifest 512"
proof -
  have "i64 3072 = 3072" by code_simp
  then show "budget_ok mx_plan mx_manifest 512" by (simp add: budget_ok_def mx_plan_fields mx_manifest_files) (simp add: mx_plan_def)
  show "plan_shape mx_plan" by (simp add: plan_shape_def mx_plan_def mx_runs_def plan_limitations_def mx_sum_digest)
qed

lemma mx_evidence: "check_evidence mx_plan_codec mx_view ''/e'' ''/r'' mx_plan mx_manifest 512 = Inr None"
proof -
  have "tool_ok mx_plan_codec mx_view ''/r'' mx_plan name = Inr ()" if "name \<in> set memory_tools" for name
  proof -
    have "mx_content (Join ''/r/lib/workstation'' name) = Some ''tool''" using mx_tools that by (simp add: list_all_iff)
    moreover have "text_at (mp_Tools mx_plan) name = mx_sum ''tool''" using that by (auto simp: mx_plan_fields text_at_def map_of_map_restrict restrict_map_def)
    ultimately show ?thesis by (simp add: tool_ok_def mx_output_paths mx_codec_fields mx_hash)
  qed
  then have "map_ok (tool_ok mx_plan_codec mx_view ''/r'' mx_plan) memory_tools = Inr (map (\<lambda>_. ()) memory_tools)"
    by (simp add: map_ok_Inr list_all2_conv_all_nth)
  then show ?thesis
    by (simp add: check_evidence_def Telemetry_def mx_manifest_files telemetry_ok_def mx_output_paths mx_output_contents mx_hash mx_codec_fields
      mx_plan_fields gomap_eq_def)
qed

lemma mx_shared: "shm_ok mx_codec mx_plan mx_deployment"
proof -
  have "MiB mx_codec (JStr ''64Mi'') = Inr 64" by code_simp
  then show ?thesis by (simp add: shm_ok_def shm_volume_ok_def mx_plan_fields mx_deployment_def mx_spec_def nested_def jget_def jobject_def jlist_def Let_def)
qed

lemma mx_identity: "Identity mx_plan_codec mx_spec = mx_sum ''containersvolumes''" "Identity mx_plan_codec (with_resources mx_spec mx_small) = mx_sum ''containersvolumes''"
    "Identity mx_plan_codec (JObj [(''image_id'', x), (''node'', y), (''runtime'', z)]) = mx_sum ''image_idnoderuntime''"
proof -
  have m: "mx_marshal mx_spec = ''containersvolumes''" "mx_marshal (with_resources mx_spec mx_small) = ''containersvolumes''" by code_simp+
  have k: "mx_marshal (JObj [(''image_id'', x), (''node'', y), (''runtime'', z)]) = ''image_idnoderuntime''" by (simp add: mx_marshal_def)
  have "concat (map ascii_rune (runes ''containersvolumes'')) = ''containersvolumes''" "concat (map ascii_rune (runes ''image_idnoderuntime'')) = ''image_idnoderuntime''"
    by code_simp+
  then show "Identity mx_plan_codec mx_spec = mx_sum ''containersvolumes''" "Identity mx_plan_codec (with_resources mx_spec mx_small) = mx_sum ''containersvolumes''"
      "Identity mx_plan_codec (JObj [(''image_id'', x), (''node'', y), (''runtime'', z)]) = mx_sum ''image_idnoderuntime''"
    unfolding Identity_def mx_codec_fields m k by (simp_all only:)
qed

lemma mx_equal: "deep_equal mx_spec mx_spec" "deep_equal mx_small mx_small" "deep_equal (with_resources mx_spec mx_small) (with_resources mx_spec mx_small)"
    "deep_equal mx_resources mx_resources"
proof -
  have "wf_json mx_spec" "wf_json mx_small" "wf_json (with_resources mx_spec mx_small)" "wf_json mx_resources" by code_simp+
  then show "deep_equal mx_spec mx_spec" "deep_equal mx_small mx_small" "deep_equal (with_resources mx_spec mx_small) (with_resources mx_spec mx_small)"
    "deep_equal mx_resources mx_resources" by (simp_all only: deep_equal_refl)
qed

lemma mx_patched: "check_patches mx_plan_codec mx_view ''/o'' mx_plan mx_deployment = Inr ()"
proof -
  have spec: "nested mx_deployment [''spec'', ''template'', ''spec''] = mx_spec" by (simp add: mx_deployment_def nested_def jget_def jobject_def)
  have orig: "spec_resources mx_spec = Some mx_resources" by code_simp
  have "MiB mx_codec (nested mx_resources [''limits'', ''memory'']) = Inr 4096" "deep_equal (jget mx_resources ''requests'') (jget mx_resources ''limits'')"
      "is_object (jget mx_resources ''requests'')" "is_object (jget mx_resources ''limits'')" by code_simp+
  then have res: "resources_ok mx_codec mx_plan mx_resources" by (simp add: resources_ok_def mx_plan_fields)
  have "patches_ok mx_plan_codec mx_plan mx_spec mx_patch mx_rollback"
    unfolding patches_ok_def orig mx_plan_fields mx_small_def [symmetric] mx_identity mx_codec_fields Let_def
    by (simp add: mx_patch_def mx_rollback_def mx_small_def [symmetric] mx_equal mx_identity res)
  moreover have "patch_shape mx_patch" "patch_shape mx_rollback" "length mx_patch = 2" "length mx_rollback = 2"
    by (simp_all add: patch_shape_def mx_patch_def mx_rollback_def)
  ultimately show ?thesis by (simp add: check_patches_def mx_output_paths mx_codec_fields mx_decoded_plan spec mx_plan_fields)
qed

lemma mx_runs_contents:
  "list_all (\<lambda>ident. mx_content (observation_file ''/e'' ident ''startup/startup.json'') = Some (''s'' @ ident)) mx_runs"
  "list_all (\<lambda>ident. mx_content (observation_file ''/e'' ident ''serving/result.json'') = Some (''r'' @ ident)) mx_runs"
  "list_all (\<lambda>ident. mx_content (observation_file ''/e'' ident ''startup/memory.jsonl'') = Some (mx_lines [''a'', ''b''])) mx_runs"
  "list_all (\<lambda>ident. mx_content (observation_file ''/e'' ident ''serving/host-telemetry.jsonl'') = Some (mx_lines [''c'', ''d'', ''e'', ''f''])) mx_runs"
  by code_simp+

lemma mx_run:
  assumes "ident \<in> set mx_runs"
  shows "RawJSON mx_codec mx_view (observation_file ''/e'' ident ''startup/startup.json'') = Inr (mx_start ident)"
    and "RawJSON mx_codec mx_view (observation_file ''/e'' ident ''serving/result.json'') = Inr (mx_result ident)"
    and "observeWindow mx_window_codec mx_view (observation_file ''/e'' ident ''startup/memory.jsonl'') 4096 64 16384 = Inr (mx_window 2 1 2)"
    and "observeWindow mx_window_codec mx_view (observation_file ''/e'' ident ''serving/host-telemetry.jsonl'') 4096 64 16384 = Inr (mx_window 4 10 85)"
proof -
  note c = mx_runs_contents [unfolded list_all_iff, rule_format, OF assms]
  have v: "mx_value (''s'' @ ident) = Some (mx_start ident)" "mx_value (''r'' @ ident) = Some (mx_result ident)"
    using assms by (auto simp: mx_runs_def mx_value_def mx_documents_def)
  have n: "length ident = 1" using assms by (auto simp: mx_runs_def)
  show "RawJSON mx_codec mx_view (observation_file ''/e'' ident ''startup/startup.json'') = Inr (mx_start ident)"
    using v(1) n by (simp add: RawJSON_def mx_read [OF c(1)] mx_codec_fields mx_start_def)
  show "RawJSON mx_codec mx_view (observation_file ''/e'' ident ''serving/result.json'') = Inr (mx_result ident)"
    using v(2) n by (simp add: RawJSON_def mx_read [OF c(2)] mx_codec_fields mx_result_def)
  show "observeWindow mx_window_codec mx_view (observation_file ''/e'' ident ''startup/memory.jsonl'') 4096 64 16384 = Inr (mx_window 2 1 2)"
    by (rule mx_startup [OF c(3)])
  show "observeWindow mx_window_codec mx_view (observation_file ''/e'' ident ''serving/host-telemetry.jsonl'') 4096 64 16384 = Inr (mx_window 4 10 85)"
    by (rule mx_steady [OF c(4)])
qed

lemma mx_identified: "pod_identity_ok mx_plan_codec mx_plan (mx_observation ident) (mx_start ident) (mx_result ident)"
  by (simp add: pod_identity_ok_def mx_identity mx_plan_fields mx_start_def mx_result_def mx_observation_def nested_def jget_def jobject_def)

lemma mx_windows: "window_ok mx_plan (mx_window 2 1 2)" "window_ok mx_plan (mx_window 4 10 85)"
  by (simp_all add: window_ok_def mx_window_def mx_plan_fields mx_bytes amount_def)

lemma mx_observed:
  assumes "ident \<in> set mx_runs" and "mx_pod ident \<notin> set seen"
  shows "observation_ok mx_plan (mx_observation ident) seen"
proof -
  have "length (mx_pod ident) = 36" using assms(1) by (auto simp: mx_runs_def mx_pod_def length_concat sum_list_replicate)
  then show ?thesis using assms(2) mx_windows by (simp add: observation_ok_def mx_observation_def mx_phase_def) (simp add: mx_window_def)
qed

definition mx_tally :: Tally where
  "mx_tally = foldl (\<lambda>y ident. tally (mx_observation ident) y) \<lparr>ty_Seen = [], ty_Envelope = 0, ty_Cold = 0, ty_Warm = 0, ty_Rows = []\<rparr> mx_runs"

lemma mx_step:
  assumes "ident \<in> set mx_runs" and "mx_pod ident \<notin> set (ty_Seen y)"
  shows "check_observations mx_plan_codec mx_view ''/e'' mx_plan mx_resource_plan y ((ident, mx_observation ident) # xs)
    = check_observations mx_plan_codec mx_view ''/e'' mx_plan mx_resource_plan (tally (mx_observation ident) y) xs"
proof -
  have "total_mib mx_resource_plan = Some 16384" by code_simp
  moreover have "ob_Startup (mx_observation ident) = mx_window 2 1 2" "ob_Steady (mx_observation ident) = mx_window 4 10 85" by (simp_all add: mx_observation_def)
  ultimately show ?thesis
    by (simp add: mx_codec_fields mx_run [OF assms(1)] mx_identified mx_observed [OF assms] mx_plan_fields on_ok_def demand_def same_window_def gomap_eq_def)
qed

lemma mx_checked: "check_observations mx_plan_codec mx_view ''/e'' mx_plan mx_resource_plan \<lparr>ty_Seen = [], ty_Envelope = 0, ty_Cold = 0, ty_Warm = 0, ty_Rows = []\<rparr>
    (zip mx_runs (map mx_observation mx_runs)) = Inr mx_tally"
proof -
  have "distinct (map mx_pod mx_runs)" by code_simp
  then have "mx_pod ''b'' \<noteq> mx_pod ''a''" "mx_pod ''c'' \<notin> {mx_pod ''a'', mx_pod ''b''}" "mx_pod ''d'' \<notin> {mx_pod ''a'', mx_pod ''b'', mx_pod ''c''}"
    by (auto simp: mx_runs_def)
  moreover have "ob_PodUID (mx_observation ident) = mx_pod ident" for ident by (simp add: mx_observation_def)
  moreover have "''a'' \<in> set mx_runs" "''b'' \<in> set mx_runs" "''c'' \<in> set mx_runs" "''d'' \<in> set mx_runs" by (simp_all add: mx_runs_def)
  ultimately show ?thesis unfolding mx_tally_def by (simp add: mx_runs_def mx_step del: check_observations.simps(2))
qed

lemma mx_final: "budget_final mx_plan mx_tally"
proof -
  have n: "headroom_of 335544320 = 2147483648" "candidate_of 335544320 2147483648 = 2560" by code_simp+
  have "ty_Cold mx_tally = 2" "ty_Warm mx_tally = 2" "ty_Envelope mx_tally = 335544320"
    by (simp_all add: mx_tally_def mx_runs_def tally_def mx_observation_def mx_phase_def mx_window_def)
  then show ?thesis by (simp add: budget_final_def n mx_plan_fields)
qed

definition mx_artifact :: "string \<Rightarrow> string \<Rightarrow> Artifact" where
  "mx_artifact name b = \<lparr>a_Name = name, a_SHA256 = mx_sum b, a_Size = int (length b), a_SourceRevision = mx_sum [], a_Qualification = ''plan-only-unqualified'', a_Content = []\<rparr>"

definition mx_summary :: MemorySummary where
  "mx_summary = plan_summary mx_plan None 512 mx_tally [mx_artifact ''plan.json'' ''p'', mx_artifact ''patch.json'' ''patch'', mx_artifact ''rollback.json'' ''roll'']"

lemma mx_accepted: "ValidateOutput mx_plan_codec mx_view ''/o'' ''/e'' ''/r'' mx_manifest 512 = Inr mx_summary"
proof -
  have sums: "map_ok (artifact_sum_ok mx_plan_codec mx_view ''/o'' mx_plan) [''patch.json'', ''rollback.json''] = Inr [(), ()]"
    by (simp add: artifact_sum_ok_def mx_output_paths mx_read mx_output_contents mx_codec_fields mx_plan_fields text_at_def)
  have "mf_SourceRevision mx_manifest = mx_sum []" by (simp add: mx_manifest_def mx_seal_def)
  then have arts: "map_ok (plan_artifact mx_plan_codec mx_view ''/o'' mx_manifest) [''plan.json'', ''patch.json'', ''rollback.json'']
      = Inr [mx_artifact ''plan.json'' ''p'', mx_artifact ''patch.json'' ''patch'', mx_artifact ''rollback.json'' ''roll'']"
    by (simp add: plan_artifact_def checkArtifactWireSize_def mx_output_paths mx_read mx_output_contents mx_codec_fields mx_artifact_def)
  have "nested mx_resource_plan [''memory'', ''allocatable_mib''] = JFloat 8192" by (simp add: mx_resource_plan_def nested_def jget_def jobject_def)
  moreover have "length (mf_Observations mx_manifest) = length (mp_Observations mx_plan)" by (simp add: mx_manifest_files mx_plan_fields)
  moreover have "pc_Float mx_plan_codec (bg_Allocatable (mp_Budget mx_plan)) = 8192" by (simp add: mx_codec_fields mx_plan_fields)
  ultimately show ?thesis
    using mx_checked by (simp add: ValidateOutput_def mx_output_ok mx_output_paths mx_paths mx_codec_fields mx_decoded_plan mx_shape mx_evidence mx_raw mx_shared mx_patched
      mx_manifest_files(3) mx_plan_fields(8) mx_final sums arts mx_summary_def del: map_ok.simps)
qed


theorem rollback_restores_witness:
  "\<exists>s1 s2. apply_patch mx_patch mx_spec = Some s1 \<and> apply_patch mx_rollback s1 = Some s2 \<and> deep_equal s2 mx_spec"
proof -
  have "list_all (\<lambda>d. wf_json (snd d)) mx_documents" "list_all (\<lambda>a. wf_json (pa_Value a)) mx_patch" "list_all (\<lambda>a. wf_json (pa_Value a)) mx_rollback"
    by code_simp+
  then have "decodes_maps mx_plan_codec"
    by (auto simp: decodes_maps_def mx_codec_fields mx_value_def mx_patches_def list_all_iff split: if_splits dest!: map_of_SomeD)
  moreover have "nested mx_deployment [''spec'', ''template'', ''spec''] = mx_spec" by (simp add: mx_deployment_def nested_def jget_def jobject_def)
  ultimately show ?thesis using rollback_restores [OF mx_accepted] by (auto simp: mx_output_paths mx_paths mx_codec_fields mx_decoded_plan mx_raw)
qed

end
