(* ===== verification/Spec2Isabelle.thy ===== *)
theory Spec2Isabelle
  imports Scenario HelperScenario HostServer WorkerRun ContainmentRun Contracts SurfaceRun LiveRun RuntimeRun StagerExample MemoryExample
begin

text \<open>
  \<^bold>\<open>The workstation bridge.\<close> The program is a management service for an AI workstation. Three processes
  share the work. The \<^emph>\<open>controller\<close> (\<open>internal/engine\<close> over \<open>internal/store\<close>, \<open>internal/source\<close>, \<open>internal/auth\<close>,
  \<open>internal/admin\<close>, \<open>internal/domain\<close>) plans changes, admits them once under an idempotency key, keeps them in a
  durable queue and hands one at a time to an adapter. The \<^emph>\<open>root helper\<close> (\<open>internal/hostexec\<close>) receives
  the privileged ones over a Unix socket, checks them against a root-owned policy and keeps a journal of its own.
  The \<^emph>\<open>build worker\<close> (\<open>internal/worker\<close>) is an unprivileged process that compiles named recipes in a
  delegated control group. All three keep the same discipline: the intent is durable before the effect, nothing is
  retried, and an effect whose outcome is unknown raises a \<^emph>\<open>recovery fence\<close> that only an explicit recovery of
  the same chain of operations lifts.

  \<^bold>\<open>Theories and sources.\<close>
  \<^item> \<open>Prelude\<close>: Go maps as association lists with the interface \<open>key_table\<close>, errors, guards (\<open>first_fail\<close>, \<open>and_then\<close>),
    64-bit integers (\<open>i64\<close>), time in nanoseconds, JSON trees. \<open>GoLib\<close>: the functions of \<open>strings\<close>, \<open>strconv\<close> and
    \<open>path/filepath\<close> the sources use, with the theories of cleaned absolute paths and of decimal integers.
  \<^item> \<open>SafeFile\<close>: \<open>safefile/files.go\<close>; path checks, bounded reads, replacement and exclusive creation as sequences of
    calls any of which may fail. \<open>ServiceConfig\<close>: \<open>config/\<close>; strict decoding over tokens and the checks of the service policy.
  \<^item> \<open>Surface\<close>: \<open>api/\<close>; the guard, sign-in limiter, authentication, routes and handlers. \<open>SurfaceRun\<close>: what a request
    can change and who may read.
  \<^item> \<open>Domain\<close>: \<open>domain/types.go\<close>, \<open>memory.go\<close>, \<open>performance.go\<close>; records and JSON trees of the wire types, \<open>Desired\<close>,
    \<open>ValidateDraft\<close>.
  \<^item> \<open>Recovery\<close>: \<open>domain/recovery.go\<close>; \<open>RecoveryRoot\<close>, \<open>RecoveryChain\<close>, the relation they decide, and the interfaces
    \<open>recovery_journal\<close> and \<open>recovery_fence\<close> that both authorities implement.
  \<^item> \<open>Store\<close>: \<open>store/store.go\<close>; the state, \<open>Open\<close>, \<open>Update\<close>, \<open>prune\<close> and the readers, with the interface \<open>transactional\<close>.
    \<open>Source\<close>: \<open>source/source.go\<close>. \<open>Auth\<close>: \<open>auth/auth.go\<close> and \<open>admin/admin.go\<close>.
  \<^item> \<open>Engine\<close>: \<open>engine/engine.go\<close>, \<open>recovery.go\<close>, \<open>memory.go\<close>; one definition per handler and one per stage of
    \<open>execute\<close>. \<open>Lifecycle\<close> and \<open>Admission\<close>: what the handlers do to a record and to the fence. \<open>Scheduler\<close>: the
    controller as a machine whose steps are requests, the stages of the executing goroutine, offline administration, crashes
    and restarts. \<open>Queue\<close>: the queue loop. \<open>Contracts\<close>: the contracts of the passive components. \<open>Scenario\<close>: a run of
    the machine that inhabits the hypotheses.
  \<^item> \<open>HostPolicy\<close>: \<open>hostexec/policy.go\<close> with the checks of \<open>memory.go\<close> and \<open>performance.go\<close> it calls. \<open>Executor\<close>:
    \<open>hostexec/executor.go\<close> and the data of \<open>protocol.go\<close>. \<open>Helper\<close>: journal order, settlement and loading, and
    the helper as a \<open>recovery_fence\<close>. \<open>HelperRun\<close>: the helper as a machine. \<open>HostServer\<close>: the handler of \<open>server.go\<close>.
    \<open>HelperScenario\<close>: a run. \<open>Kube\<close>: the accessors of decoded documents, quantities, Pod accounting and the serving status of
    \<open>runtime.go\<close> and \<open>inventory.go\<close>, and the reduced report of \<open>hardware.go\<close>. \<open>Runtime\<close>: the actions of \<open>runtime.go\<close>, \<open>models.go\<close>, \<open>hardware.go\<close>
    and \<open>inventory.go\<close> as functions on a shell of the machine, the commands run and the flag \<open>effectStarted\<close>. \<open>RuntimeRun\<close>: what they
    may run and when, with the interface \<open>shell_relation\<close>.
  \<^item> \<open>Live\<close>: the live adapter of \<open>adapters/adapter.go\<close> (with \<open>memory.go\<close>, \<open>performance.go\<close>) and the clients of \<open>protocol.go\<close> and
    \<open>worker.go\<close>, which carry an operation from the controller to the two executors. \<open>LiveRun\<close>: the adapter as a machine.
  \<^item> \<open>Disk\<close>: the managed directory as \<open>os.Root\<close> presents it, a tree of inodes with one possible fault per system call, the calls and how they
    are sequenced, with the interfaces \<open>io_order\<close> and \<open>io_relation\<close> for what an operation keeps. \<open>Stager\<close>: \<open>adapters/staging.go\<close>, every function.
    \<open>StagerRun\<close>: what staging keeps, whom it asks, that it returns. \<open>StagerPublish\<close>: publication as one step. \<open>StagerVerify\<close>: what an accepted
    snapshot holds. \<open>StagerExample\<close>: a model staged through a redirect.
  \<^item> \<open>MemoryEvidence\<close>: \<open>memory/evidence.go\<close> and \<open>output.go\<close>; bounded reads, the manifest and the tree it seals. \<open>MemoryTelemetry\<close>:
    \<open>window.go\<close> and \<open>telemetry.go\<close>; counters, pressure, the scan of a telemetry file and the declared allowance. \<open>MemoryPlan\<close>: \<open>plan.go\<close>;
    the summary of evidence and the check of a plan with its patch and rollback. \<open>MemoryRun\<close>: what an accepted plan, a window and
    verified evidence guarantee. \<open>MemoryExample\<close>: a bundle of four observations and its plan.
  \<^item> \<open>Worker\<close>: \<open>worker/worker.go\<close> and the restart disposition of \<open>linux.go\<close>. \<open>WorkerRun\<close>: the worker as a machine.
    \<open>Cgroup\<close>: \<open>cgroup.go\<close>. \<open>Sunshine\<close>: \<open>sunshine.go\<close>. \<open>Containment\<close> and \<open>ContainmentRun\<close>: the
    contained build of \<open>linux.go\<close>.

  \<^bold>\<open>How state and effects are modelled.\<close> A struct is a record with the source's fields, a handler a function from the state
  to the new state and the result, with every early return as a branch; \<open>(T, error)\<close> is \<open>err + T\<close>. Durable files are their decoded content; a write
  is \<open>Written\<close>, \<open>NotWritten\<close> or \<open>WrittenUnconfirmed\<close>, chosen by an arbitrary function, so every theorem on reachable
  states holds for every pattern of failing writes. SHA-256 over canonical JSON is a function parameter on JSON
  trees (\<open>digest\<close>), over bytes a function on strings; nothing is assumed of either. Clocks, random identifiers,
  directory listings and the answers of adapters and compilers are arguments. Mutexes make each handler one
  step; what runs outside them (adapter calls, builds) is split into the steps between which others may run.

  \<^bold>\<open>What the theorems show.\<close> At-most-once dispatch of the controller, of the adapter between, of the root helper and of the
  worker, under any interleaving, failed writes, crashes and restarts; the fences and how they are lifted; durability of the intent;
  idempotent admission; that a failed operation of the helper ran nothing but reads, that its effects come behind every check, that a
  serving candidate differs from the running Deployment only in the reviewed fields and fits the node; that the adapter reports
  only what an executor answered; refinement of the store to an atomic transaction, and atomic replacement of files; the compare-and-swap of the managed
  source; who may change and read what through the HTTP surface, the sign-in limiter, sessions and revocation; strict decoding and the
  confinement of a live service policy; bounds of the queue, budgets, job counts and control group limits; termination of the queue loop
  and of the worker's path check; that a model snapshot is published complete and reviewed or not at all, from reviewed origins only, within
  its budget, and verifies afterwards; that an accepted memory plan covers every observed peak with its headroom and fits the node, that its
  rollback undoes its patch, and that verified evidence is what was sealed. Eight theorems record limits of the code:
  \<open>refused_status_is_final\<close>, \<open>worker_read_failure_reruns\<close>, \<open>inhibition_between_commands_unproved\<close>, \<open>relative_endless\<close>,
  \<open>absolute_path_never_returns\<close>, \<open>capacity_check_wraps\<close>, \<open>shouting_policy_cookie\<close> and \<open>quantity_not_a_number\<close>.

  \<^bold>\<open>Termination and bounds.\<close> Loops over finite maps terminate by a measure of the unvisited keys. The queue loop takes fuel;
  501 rounds are proved enough, because at most 500 operations are retained and a round takes one out of the
  queue. \<open>trustedFile\<close>, \<open>parent_dirs\<close> and the adapter's polling loops are partial functions whose undefinedness is a loop that never returns. A control group is read
  at most thirty times, as in the code. Integers wrap at 64 bits where the code adds unbounded values; revisions and modes are words.

  \<^bold>\<open>Not modelled.\<close> The command line, client and web parts; the demo adapter and the planning previews of the live one;
  sealing and copying a memory bundle, \<open>internal/performance\<close>, and the root side of both in \<open>hostexec/memory.go\<close>, which stand behind the parameters above;
  telemetry, the advisor and packaging; JSON text, HTTP and sockets, file locks and permissions beyond the checks the code makes
  of them; IEEE rounding, which is a parameter of \<open>Kube\<close>. Other writers of the model root: the
  administrator's policy excludes them.
\<close>

section \<open>From the installed policy to the kernel\<close>



end
